(* ===== verification/Prelude.thy ===== *)
theory Prelude
  imports Main "HOL-Library.AList" "HOL-Library.List_Lexorder" "HOL-Library.Char_ord"
    "HOL-Library.Product_Lexorder" "HOL-Library.Option_ord" "HOL-Library.Multiset"
begin

text \<open>
  The prelude of the development: the generic vocabulary every component model shares.

  \<^item> Python strings are \<^typ>\<open>string\<close>s holding the UTF-8 encoding of the text. Equality,
    concatenation, prefix and substring tests, and the lexicographic order (code-point order
    and UTF-8 byte order agree) are those of the program. Case and whitespace functions act
    on ASCII.
  \<^item> a Python dict is an association list in insertion order, updated by \<^const>\<open>AList.update\<close>
    exactly as Python does (an existing key keeps its place, a new key goes last);
  \<^item> \<open>sorted(xs, key=f)\<close> is \<^const>\<open>sort_key\<close>, which is stable, as Python's sort is; tuple
    keys are compared lexicographically through the product order;
  \<^item> an exception is the left injection of a sum, and \<open>bind_e\<close> sequences such computations.
\<close>

named_theorems dict_simps \<open>reading dictionaries after updates\<close>
named_theorems err_simps \<open>unfolding of error-propagating computations\<close>

subsection \<open>Error results\<close>

definition bind_e :: "'e + 'a \<Rightarrow> ('a \<Rightarrow> 'e + 'b) \<Rightarrow> 'e + 'b" where
  "bind_e m f = (case m of Inl e \<Rightarrow> Inl e | Inr x \<Rightarrow> f x)"

lemma bind_e_simps [simp]:
  "bind_e (Inl e) f = Inl e"
  "bind_e (Inr x) f = f x"
  by (simp_all add: bind_e_def)

lemma bind_e_Inr_iff [err_simps]:
  "bind_e m f = Inr y \<longleftrightarrow> (\<exists>x. m = Inr x \<and> f x = Inr y)"
  by (cases m) auto

fun map_e :: "('a \<Rightarrow> 'e + 'b) \<Rightarrow> 'a list \<Rightarrow> 'e + 'b list" where
  "map_e f [] = Inr []"
| "map_e f (x # xs) = bind_e (f x) (\<lambda>y. bind_e (map_e f xs) (\<lambda>ys. Inr (y # ys)))"

lemma map_e_Inr:
  "(\<And>x. x \<in> set xs \<Longrightarrow> f x = Inr (g x)) \<Longrightarrow> map_e f xs = Inr (map g xs)"
  by (induction xs) auto

lemma map_e_length: "map_e f xs = Inr ys \<Longrightarrow> length ys = length xs"
  by (induction xs arbitrary: ys) (auto simp: err_simps)

definition require :: "bool \<Rightarrow> 'e \<Rightarrow> 'e + unit" where
  "require c e = (if c then Inr () else Inl e)"

lemma require_simps [simp]:
  "require True e = Inr ()"
  "require False e = Inl e"
  by (simp_all add: require_def)

lemma require_Inr_iff [err_simps]: "require c e = Inr u \<longleftrightarrow> c"
  by (simp add: require_def)

definition option_to_e :: "'e \<Rightarrow> 'a option \<Rightarrow> 'e + 'a" where
  "option_to_e e m = (case m of None \<Rightarrow> Inl e | Some x \<Rightarrow> Inr x)"

lemma option_to_e_simps [simp]:
  "option_to_e e None = Inl e"
  "option_to_e e (Some x) = Inr x"
  by (simp_all add: option_to_e_def)

lemma option_to_e_Inr_iff [err_simps]: "option_to_e e m = Inr x \<longleftrightarrow> m = Some x"
  by (cases m) auto

subsection \<open>Text\<close>

fun join :: "string \<Rightarrow> string list \<Rightarrow> string" where
  "join sep [] = ''''"
| "join sep [s] = s"
| "join sep (s # ss) = s @ sep @ join sep ss"

definition digit_char :: "nat \<Rightarrow> char" where
  "digit_char d = char_of (48 + d)"

fun show_nat :: "nat \<Rightarrow> string" where
  "show_nat n = (if n < 10 then [digit_char n] else show_nat (n div 10) @ [digit_char (n mod 10)])"

declare show_nat.simps [simp del]

definition show_int :: "int \<Rightarrow> string" where
  "show_int i = (if i < 0 then ''-'' @ show_nat (nat (- i)) else show_nat (nat i))"

definition is_digit :: "char \<Rightarrow> bool" where
  "is_digit c \<longleftrightarrow> 48 \<le> (of_char c :: nat) \<and> (of_char c :: nat) \<le> 57"

definition digit_val :: "char \<Rightarrow> nat" where
  "digit_val c = of_char c - 48"

fun read_digits :: "nat \<Rightarrow> string \<Rightarrow> nat" where
  "read_digits acc [] = acc"
| "read_digits acc (c # cs) = read_digits (10 * acc + digit_val c) cs"

definition parse_nat :: "string \<Rightarrow> nat option" where
  "parse_nat s = (if s \<noteq> [] \<and> list_all is_digit s then Some (read_digits 0 s) else None)"

lemma of_char_digit_char [simp]: "d < 10 \<Longrightarrow> (of_char (digit_char d) :: nat) = 48 + d"
  by (simp add: digit_char_def)

lemma is_digit_digit_char [simp]: "d < 10 \<Longrightarrow> is_digit (digit_char d)"
  by (simp add: is_digit_def)

lemma digit_val_digit_char [simp]: "d < 10 \<Longrightarrow> digit_val (digit_char d) = d"
  by (simp add: digit_val_def)

lemma read_digits_append: "read_digits a (xs @ ys) = read_digits (read_digits a xs) ys"
  by (induction xs arbitrary: a) auto

lemma show_nat_digits: "list_all is_digit (show_nat n)"
proof (induction n rule: show_nat.induct)
  case (1 n)
  then show ?case by (subst show_nat.simps) auto
qed

lemma show_nat_nonempty [simp]: "show_nat n \<noteq> []"
  by (subst show_nat.simps) simp

lemma read_digits_show_nat: "read_digits 0 (show_nat n) = n"
proof (induction n rule: show_nat.induct)
  case (1 n)
  then show ?case by (subst show_nat.simps) (auto simp: read_digits_append)
qed

lemma parse_nat_show_nat [simp]: "parse_nat (show_nat n) = Some n"
  by (simp add: parse_nat_def show_nat_digits read_digits_show_nat)

definition py_space :: "char \<Rightarrow> bool" where
  "py_space c \<longleftrightarrow> (let n = (of_char c :: nat) in n = 32 \<or> (9 \<le> n \<and> n \<le> 13) \<or> (28 \<le> n \<and> n \<le> 31))"

definition py_strip :: "string \<Rightarrow> string" where
  "py_strip s = rev (dropWhile py_space (rev (dropWhile py_space s)))"

lemma py_strip_Nil: "py_strip s = [] \<longleftrightarrow> list_all py_space s"
proof
  assume "py_strip s = []"
  then have all: "\<forall>x \<in> set (dropWhile py_space s). py_space x"
    by (simp add: py_strip_def dropWhile_eq_Nil_conv)
  have "dropWhile py_space s = []"
  proof (rule ccontr)
    assume ne: "dropWhile py_space s \<noteq> []"
    then have "\<not> py_space (hd (dropWhile py_space s))" by (rule hd_dropWhile)
    with all ne show False by simp
  qed
  then show "list_all py_space s" by (simp add: dropWhile_eq_Nil_conv list_all_iff)
next
  assume "list_all py_space s"
  then have "dropWhile py_space s = []" by (metis dropWhile_eq_Nil_conv list_all_iff)
  then show "py_strip s = []" by (simp only: py_strip_def rev.simps dropWhile.simps)
qed

definition lower_char :: "char \<Rightarrow> char" where
  "lower_char c = (let n = (of_char c :: nat) in if 65 \<le> n \<and> n \<le> 90 then char_of (n + 32) else c)"

definition py_lower :: "string \<Rightarrow> string" where
  "py_lower s = map lower_char s"

fun starts_with :: "'a list \<Rightarrow> 'a list \<Rightarrow> bool" where
  "starts_with [] ys = True"
| "starts_with (x # xs) [] = False"
| "starts_with (x # xs) (y # ys) = (x = y \<and> starts_with xs ys)"

fun contains :: "'a list \<Rightarrow> 'a list \<Rightarrow> bool" where
  "contains needle [] = (needle = [])"
| "contains needle (y # ys) = (starts_with needle (y # ys) \<or> contains needle ys)"

definition ends_with :: "'a list \<Rightarrow> 'a list \<Rightarrow> bool" where
  "ends_with suffix s = starts_with (rev suffix) (rev s)"

lemma find_SomeD: "List.find P xs = Some x \<Longrightarrow> x \<in> set xs \<and> P x"
  by (metis find_Some_iff nth_mem)

lemma starts_with_append: "starts_with xs ys \<longleftrightarrow> (\<exists>zs. ys = xs @ zs)"
  by (induction xs ys rule: starts_with.induct) auto

lemma contains_iff: "contains needle ys \<longleftrightarrow> (\<exists>as bs. ys = as @ needle @ bs)"
proof (induction ys)
  case Nil
  then show ?case by auto
next
  case (Cons y ys)
  show ?case
  proof
    assume "contains needle (y # ys)"
    then consider "starts_with needle (y # ys)" | "contains needle ys" by auto
    then show "\<exists>as bs. y # ys = as @ needle @ bs"
    proof cases
      case 1
      then obtain zs where "y # ys = needle @ zs" by (auto simp: starts_with_append)
      then have "y # ys = [] @ needle @ zs" by simp
      then show ?thesis by blast
    next
      case 2
      then obtain as bs where "ys = as @ needle @ bs" using Cons.IH by blast
      then have "y # ys = (y # as) @ needle @ bs" by simp
      then show ?thesis by blast
    qed
  next
    assume "\<exists>as bs. y # ys = as @ needle @ bs"
    then obtain as bs where eq: "y # ys = as @ needle @ bs" by blast
    show "contains needle (y # ys)"
    proof (cases as)
      case Nil
      with eq have "starts_with needle (y # ys)" by (simp add: starts_with_append)
      then show ?thesis by simp
    next
      case (Cons a as')
      with eq have "ys = as' @ needle @ bs" by simp
      then show ?thesis using Cons.IH by auto
    qed
  qed
qed

end
