(* ===== verification/Dates.thy ===== *)
theory Dates
  imports Prelude
begin

text \<open>
  Calendar dates, as \<open>datetime.date\<close> has them: a proleptic Gregorian year (1 to 9999), month
  and day, compared chronologically, with the day arithmetic (\<open>toordinal\<close>,
  \<open>(a - b).days\<close>) and the ISO text forms the policy code uses.
\<close>

datatype date = Date (dyear: nat) (dmonth: nat) (dday: nat)

instantiation date :: linorder
begin

definition less_eq_date :: "date \<Rightarrow> date \<Rightarrow> bool" where
  "less_eq_date a b \<longleftrightarrow> (dyear a, dmonth a, dday a) \<le> (dyear b, dmonth b, dday b)"

definition less_date :: "date \<Rightarrow> date \<Rightarrow> bool" where
  "less_date a b \<longleftrightarrow> (dyear a, dmonth a, dday a) < (dyear b, dmonth b, dday b)"

instance
  by standard (auto simp: less_eq_date_def less_date_def intro: date.expand)

end

definition is_leap :: "nat \<Rightarrow> bool" where
  "is_leap y \<longleftrightarrow> y mod 4 = 0 \<and> (y mod 100 \<noteq> 0 \<or> y mod 400 = 0)"

definition days_in_month :: "nat \<Rightarrow> nat \<Rightarrow> nat" where
  "days_in_month y m =
     (if m = 2 then (if is_leap y then 29 else 28)
      else if m \<in> {4, 6, 9, 11} then 30 else 31)"

definition valid_date :: "date \<Rightarrow> bool" where
  "valid_date d \<longleftrightarrow> 1 \<le> dyear d \<and> dyear d \<le> 9999 \<and> 1 \<le> dmonth d \<and> dmonth d \<le> 12
     \<and> 1 \<le> dday d \<and> dday d \<le> days_in_month (dyear d) (dmonth d)"

definition days_before_year :: "nat \<Rightarrow> int" where
  "days_before_year y = (let p = int y - 1 in p * 365 + p div 4 - p div 100 + p div 400)"

definition days_before_month :: "nat \<Rightarrow> nat \<Rightarrow> int" where
  "days_before_month y m =
     ([0, 0, 31, 59, 90, 120, 151, 181, 212, 243, 273, 304, 334] ! m)
       + (if m > 2 \<and> is_leap y then 1 else 0)"

definition toordinal :: "date \<Rightarrow> int" where
  "toordinal d = days_before_year (dyear d) + days_before_month (dyear d) (dmonth d) + int (dday d)"

definition days_between :: "date \<Rightarrow> date \<Rightarrow> int" where
  "days_between a b = toordinal a - toordinal b"

text \<open>\<open>date.fromordinal\<close>, by the cycles of 400, 100, 4 and 1 years.\<close>

definition fromordinal :: "int \<Rightarrow> date" where
  "fromordinal k =
     (let n = k - 1;
          n400 = n div 146097; n = n mod 146097; y = n400 * 400 + 1;
          n100 = n div 36524; n = n mod 36524;
          n4 = n div 1461; n = n mod 1461;
          n1 = n div 365; n = n mod 365;
          y = nat (y + n100 * 100 + n4 * 4 + n1)
      in if n1 = 4 \<or> n100 = 4 then Date (y - 1) 12 31
         else (let m = nat ((n + 50) div 32);
                   m = (if days_before_month y m > n then m - 1 else m)
               in Date y m (nat (n - days_before_month y m) + 1)))"

text \<open>\<open>today + timedelta(days=n)\<close>: \<open>None\<close> is Python's \<open>OverflowError\<close>, raised when the
  result leaves the years 1 to 9999 (3652059 is the ordinal of 9999-12-31) or when the number of
  days itself exceeds what a \<open>timedelta\<close> holds, which is more than that anyway.\<close>

definition add_days :: "date \<Rightarrow> int \<Rightarrow> date option" where
  "add_days d n =
     (let k = toordinal d + n in if 1 \<le> k \<and> k \<le> 3652059 then Some (fromordinal k) else None)"

subsection \<open>ISO text\<close>

definition pad2 :: "nat \<Rightarrow> string" where
  "pad2 n = [digit_char (n div 10), digit_char (n mod 10)]"

definition pad4 :: "nat \<Rightarrow> string" where
  "pad4 n = [digit_char (n div 1000), digit_char (n div 100 mod 10),
             digit_char (n div 10 mod 10), digit_char (n mod 10)]"

definition isoformat :: "date \<Rightarrow> string" where
  "isoformat d = pad4 (dyear d) @ ''-'' @ pad2 (dmonth d) @ ''-'' @ pad2 (dday d)"

definition mk_date :: "nat \<Rightarrow> nat \<Rightarrow> nat \<Rightarrow> date option" where
  "mk_date y m d = (if valid_date (Date y m d) then Some (Date y m d) else None)"

text \<open>\<open>date.fromisocalendar\<close>: the Monday of week 1 is the Monday on or before 4 January.\<close>

definition iso_week1_monday :: "nat \<Rightarrow> int" where
  "iso_week1_monday y =
     (let firstday = toordinal (Date y 1 1);
          firstweekday = (firstday + 6) mod 7;
          week1_monday = firstday - firstweekday
      in if firstweekday > 3 then week1_monday + 7 else week1_monday)"

definition iso_weeks_in :: "nat \<Rightarrow> nat" where
  "iso_weeks_in y =
     (let first = toordinal (Date y 1 1) mod 7
      in if first = 4 \<or> (first = 3 \<and> is_leap y) then 53 else 52)"

definition fromisocalendar :: "nat \<Rightarrow> nat \<Rightarrow> nat \<Rightarrow> date option" where
  "fromisocalendar y w d =
     (if 1 \<le> y \<and> y \<le> 9999 \<and> 1 \<le> w \<and> w \<le> iso_weeks_in y \<and> 1 \<le> d \<and> d \<le> 7
      then (let k = iso_week1_monday y + (int w - 1) * 7 + (int d - 1)
            in if 1 \<le> k \<and> k \<le> 3652059 then Some (fromordinal k) else None)
      else None)"

text \<open>\<open>date.fromisoformat\<close> of Python 3.12: \<open>YYYY-MM-DD\<close>, \<open>YYYYMMDD\<close>, \<open>YYYY-Www\<close>, \<open>YYYYWww\<close>,
  \<open>YYYY-Www-D\<close> and \<open>YYYYWwwD\<close>; anything else is a \<open>ValueError\<close>, here \<open>None\<close>.\<close>

definition num_at :: "nat \<Rightarrow> nat \<Rightarrow> string \<Rightarrow> nat option" where
  "num_at i n s = (if i + n \<le> length s then parse_nat (take n (drop i s)) else None)"

definition bind3 ::
  "nat option \<Rightarrow> nat option \<Rightarrow> nat option \<Rightarrow> (nat \<Rightarrow> nat \<Rightarrow> nat \<Rightarrow> 'a option) \<Rightarrow> 'a option" where
  "bind3 a b c f = (case (a, b, c) of (Some x, Some y, Some z) \<Rightarrow> f x y z | _ \<Rightarrow> None)"

definition fromisoformat :: "string \<Rightarrow> date option" where
  "fromisoformat s =
     (let n = length s; at = (\<lambda>i. if i < n then s ! i else CHR 0x00);
          dash = CHR ''-''; wk = CHR ''W'' in
      if n = 10 \<and> at 4 = dash \<and> at 7 = dash \<and> at 5 \<noteq> wk
        then bind3 (num_at 0 4 s) (num_at 5 2 s) (num_at 8 2 s) mk_date
      else if n = 8 \<and> at 4 \<noteq> dash \<and> at 4 \<noteq> wk
        then bind3 (num_at 0 4 s) (num_at 4 2 s) (num_at 6 2 s) mk_date
      else if n = 8 \<and> at 4 = dash \<and> at 5 = wk
        then bind3 (num_at 0 4 s) (num_at 6 2 s) (Some 1) fromisocalendar
      else if n = 7 \<and> at 4 = wk
        then bind3 (num_at 0 4 s) (num_at 5 2 s) (Some 1) fromisocalendar
      else if n = 10 \<and> at 4 = dash \<and> at 5 = wk \<and> at 8 = dash
        then bind3 (num_at 0 4 s) (num_at 6 2 s) (num_at 9 1 s) fromisocalendar
      else if n = 8 \<and> at 4 = wk
        then bind3 (num_at 0 4 s) (num_at 5 2 s) (num_at 7 1 s) fromisocalendar
      else None)"

lemma days_in_month_le: "days_in_month y m \<le> 31"
  by (auto simp: days_in_month_def)

lemma parse_nat_pad2: "n < 100 \<Longrightarrow> parse_nat (pad2 n) = Some n"
  by (simp add: parse_nat_def pad2_def)

lemma four_digits:
  "10 * (10 * (10 * (n div 1000) + n div 100 mod 10) + n div 10 mod 10) + n mod 10 = (n::nat)"
proof -
  have "n div 1000 = n div 10 div 10 div 10" and "n div 100 = n div 10 div 10"
    by (simp_all add: div_mult2_eq [symmetric])
  then show ?thesis by (metis mult_div_mod_eq)
qed

lemma parse_nat_pad4:
  assumes "n < 10000"
  shows "parse_nat (pad4 n) = Some n"
proof -
  have "n div 1000 < 10" using assms by simp
  then have "list_all is_digit (pad4 n)" and
    "read_digits 0 (pad4 n) =
       10 * (10 * (10 * (n div 1000) + n div 100 mod 10) + n div 10 mod 10) + n mod 10"
    by (simp_all add: pad4_def)
  then show ?thesis
    by (simp only: four_digits parse_nat_def) (simp add: pad4_def)
qed

lemma digit_char_not_W: "d < 10 \<Longrightarrow> digit_char d \<noteq> CHR ''W''"
proof
  assume d: "d < 10" and "digit_char d = CHR ''W''"
  then have "(of_char (digit_char d) :: nat) = of_char (CHR ''W'')" by simp
  with d show False by (simp add: of_char_digit_char)
qed

text \<open>Writing a date and reading it back gives the date.\<close>

lemma fromisoformat_isoformat:
  assumes "valid_date d"
  shows "fromisoformat (isoformat d) = Some d"
proof -
  have bounds: "dyear d < 10000" "dmonth d < 100" "dday d < 100"
    using assms days_in_month_le [of "dyear d" "dmonth d"] by (auto simp: valid_date_def)
  have take_drop:
    "take 4 (isoformat d) = pad4 (dyear d)"
    "take 2 (drop 5 (isoformat d)) = pad2 (dmonth d)"
    "take 2 (drop 8 (isoformat d)) = pad2 (dday d)"
    by (simp_all add: isoformat_def pad4_def pad2_def)
  have shape: "length (isoformat d) = 10" "isoformat d ! 4 = CHR ''-''" "isoformat d ! 7 = CHR ''-''"
    "isoformat d ! 5 = digit_char (dmonth d div 10)"
    by (simp_all add: isoformat_def pad4_def pad2_def)
  have "isoformat d ! 5 \<noteq> CHR ''W''"
    using bounds shape by (simp add: digit_char_not_W)
  then have "fromisoformat (isoformat d) =
      bind3 (num_at 0 4 (isoformat d)) (num_at 5 2 (isoformat d)) (num_at 8 2 (isoformat d)) mk_date"
    unfolding fromisoformat_def Let_def shape(1) using shape(2,3) by simp
  also have "num_at 0 4 (isoformat d) = Some (dyear d)"
    using shape(1) by (simp add: num_at_def take_drop(1) parse_nat_pad4 [OF bounds(1)])
  also have "num_at 5 2 (isoformat d) = Some (dmonth d)"
    using shape(1) by (simp add: num_at_def take_drop(2) parse_nat_pad2 [OF bounds(2)])
  also have "num_at 8 2 (isoformat d) = Some (dday d)"
    using shape(1) by (simp add: num_at_def take_drop(3) parse_nat_pad2 [OF bounds(3)])
  finally show ?thesis using assms by (simp add: bind3_def mk_date_def)
qed

end
