(* ===== verification/Py_Values.thy ===== *)
theory Py_Values
  imports Dates Complex_Main
begin

text \<open>
  The dynamically typed values the program reads from YAML and JSON documents, with the
  conversions of the standard library the code applies to them: \<open>str()\<close>, \<open>repr()\<close>, \<open>int()\<close>,
  \<open>bool()\<close> and \<open>dict.get\<close>. A float carries its exact value and its printed form; a datetime
  carries its date and the printed forms of its time. Floats are finite.
\<close>

datatype pyval =
    PNone
  | PBool bool
  | PInt int
  | PFloat rat string
  | PStr string
  | PDate date
  | PDateTime date string string
  | PList "pyval list"
  | PDict "(pyval \<times> pyval) list"

definition hex_digit :: "nat \<Rightarrow> char" where
  "hex_digit n = (if n < 10 then char_of (48 + n) else char_of (87 + n))"

fun show_hex :: "nat \<Rightarrow> string" where
  "show_hex n = (if n < 16 then [hex_digit n] else show_hex (n div 16) @ [hex_digit (n mod 16)])"

declare show_hex.simps [simp del]

definition repr_char :: "char \<Rightarrow> char \<Rightarrow> string" where
  "repr_char q c =
     (let n = (of_char c :: nat) in
      if c = q \<or> n = 92 then [CHR 0x5C, c]
      else if n = 10 then [CHR 0x5C, CHR ''n'']
      else if n = 13 then [CHR 0x5C, CHR ''r'']
      else if n = 9 then [CHR 0x5C, CHR ''t'']
      else if n < 32 \<or> n = 127 then [CHR 0x5C, CHR ''x'', hex_digit (n div 16), hex_digit (n mod 16)]
      else [c])"

text \<open>\<open>repr\<close> of a string: double quotes only when it holds a single quote and no double one.\<close>

definition quote_for :: "string \<Rightarrow> char" where
  "quote_for s = (if CHR 0x27 \<in> set s \<and> CHR 0x22 \<notin> set s then CHR 0x22 else CHR 0x27)"

definition repr_str :: "string \<Rightarrow> string" where
  "repr_str s = (let q = quote_for s in [q] @ concat (map (repr_char q) s) @ [q])"

fun py_repr :: "pyval \<Rightarrow> string" where
  "py_repr PNone = ''None''"
| "py_repr (PBool b) = (if b then ''True'' else ''False'')"
| "py_repr (PInt i) = show_int i"
| "py_repr (PFloat r t) = t"
| "py_repr (PStr s) = repr_str s"
| "py_repr (PDate d) =
     ''datetime.date('' @ show_nat (dyear d) @ '', '' @ show_nat (dmonth d) @ '', ''
       @ show_nat (dday d) @ '')''"
| "py_repr (PDateTime d t r) =
     ''datetime.datetime('' @ show_nat (dyear d) @ '', '' @ show_nat (dmonth d) @ '', ''
       @ show_nat (dday d) @ '', '' @ r @ '')''"
| "py_repr (PList xs) = ''['' @ join '', '' (map py_repr xs) @ '']''"
| "py_repr (PDict kvs) =
     ''{'' @ join '', '' (map (\<lambda>(k, v). py_repr k @ '': '' @ py_repr v) kvs) @ ''}''"

fun py_str :: "pyval \<Rightarrow> string" where
  "py_str (PStr s) = s"
| "py_str (PDate d) = isoformat d"
| "py_str (PDateTime d t r) = isoformat d @ '' '' @ t"
| "py_str v = py_repr v"

fun py_truthy :: "pyval \<Rightarrow> bool" where
  "py_truthy PNone = False"
| "py_truthy (PBool b) = b"
| "py_truthy (PInt i) = (i \<noteq> 0)"
| "py_truthy (PFloat r t) = (r \<noteq> 0)"
| "py_truthy (PStr s) = (s \<noteq> [])"
| "py_truthy (PDate d) = True"
| "py_truthy (PDateTime d t r) = True"
| "py_truthy (PList xs) = (xs \<noteq> [])"
| "py_truthy (PDict kvs) = (kvs \<noteq> [])"

fun type_name :: "pyval \<Rightarrow> string" where
  "type_name PNone = ''NoneType''"
| "type_name (PBool b) = ''bool''"
| "type_name (PInt i) = ''int''"
| "type_name (PFloat r t) = ''float''"
| "type_name (PStr s) = ''str''"
| "type_name (PDate d) = ''date''"
| "type_name (PDateTime d t r) = ''datetime''"
| "type_name (PList xs) = ''list''"
| "type_name (PDict kvs) = ''dict''"

subsection \<open>Integers from text\<close>

fun split_on :: "char \<Rightarrow> string \<Rightarrow> string list" where
  "split_on c [] = [[]]"
| "split_on c (x # xs) =
     (if x = c then [] # split_on c xs
      else (case split_on c xs of [] \<Rightarrow> [[x]] | s # ss \<Rightarrow> (x # s) # ss))"

lemma split_on_nonempty [simp]: "split_on c s \<noteq> []"
  by (cases s) (auto split: list.splits)

lemma join_Cons: "ss \<noteq> [] \<Longrightarrow> join sep (s # ss) = s @ sep @ join sep ss"
  by (cases ss) simp_all

lemma join_split_on [simp]: "join [c] (split_on c s) = s"
proof (induction s)
  case (Cons x xs)
  show ?case
  proof (cases "x = c")
    case True
    then show ?thesis by (simp add: join_Cons Cons.IH)
  next
    case False
    obtain l ls where ls: "split_on c xs = l # ls" by (meson neq_Nil_conv split_on_nonempty)
    with Cons.IH have "join [c] (l # ls) = xs" by simp
    with False ls show ?thesis by (cases ls) simp_all
  qed
qed simp

text \<open>\<open>int(text)\<close>: surrounding blanks, a sign, decimal digits with single underscores between
  them; anything else is a \<open>ValueError\<close>.\<close>

definition parse_digits :: "string \<Rightarrow> nat option" where
  "parse_digits s =
     (let parts = split_on CHR ''_'' s
      in if list_all (\<lambda>p. p \<noteq> [] \<and> list_all is_digit p) parts
         then Some (read_digits 0 (concat parts)) else None)"

definition parse_int :: "string \<Rightarrow> int option" where
  "parse_int s =
     (case py_strip s of
        [] \<Rightarrow> None
      | c # cs \<Rightarrow>
          if c = CHR ''-'' then map_option (\<lambda>n. - int n) (parse_digits cs)
          else if c = CHR ''+'' then map_option int (parse_digits cs)
          else map_option int (parse_digits (c # cs)))"

definition truncate_rat :: "rat \<Rightarrow> int" where
  "truncate_rat r = (if 0 \<le> r then \<lfloor>r\<rfloor> else - \<lfloor>- r\<rfloor>)"

fun py_int :: "pyval \<Rightarrow> int option" where
  "py_int (PInt i) = Some i"
| "py_int (PBool b) = Some (if b then 1 else 0)"
| "py_int (PFloat r t) = Some (truncate_rat r)"
| "py_int (PStr s) = parse_int s"
| "py_int v = None"

text \<open>\<open>round(x)\<close> and \<open>round(x, 3)\<close>, halves to even.\<close>

definition round_half_even :: "rat \<Rightarrow> int" where
  "round_half_even x =
     (let n = \<lfloor>x\<rfloor>; r = x - of_int n in
      if r < 1 / 2 \<or> (r = 1 / 2 \<and> even n) then n else n + 1)"

definition round3_rat :: "rat \<Rightarrow> rat" where
  "round3_rat x = of_int (round_half_even (x * 1000)) / 1000"

definition pd_get :: "(pyval \<times> pyval) list \<Rightarrow> string \<Rightarrow> pyval option" where
  "pd_get d k = map_of d (PStr k)"

definition pd_get_or :: "(pyval \<times> pyval) list \<Rightarrow> string \<Rightarrow> pyval \<Rightarrow> pyval" where
  "pd_get_or d k v = (case pd_get d k of None \<Rightarrow> v | Some w \<Rightarrow> w)"

lemma pd_get_Nil [dict_simps]: "pd_get [] k = None"
  by (simp add: pd_get_def)

lemma pd_get_Cons [dict_simps]:
  "pd_get ((PStr k', v) # d) k = (if k' = k then Some v else pd_get d k)"
  by (simp add: pd_get_def)

lemma pd_get_or_Nil [dict_simps]: "pd_get_or [] k v = v"
  by (simp add: pd_get_or_def pd_get_Nil)

lemma pd_get_or_Cons [dict_simps]:
  "pd_get_or ((PStr k', w) # d) k v = (if k' = k then w else pd_get_or d k v)"
  by (simp add: pd_get_or_def pd_get_Cons)

end
