(* ===== verification/Py_Dict.thy ===== *)
theory Py_Dict
  imports Prelude
begin

text \<open>
  Python dictionaries. The locale \<open>dictionary\<close> is the interface the components rely on: what a
  lookup returns after a store, and how the key order evolves. Counting (\<open>d[k] += 1\<close> on a
  \<open>defaultdict(int)\<close>), grouping (\<open>d[k].append(x)\<close> on a \<open>defaultdict(list)\<close>) and
  \<open>setdefault\<close> are analysed once inside it; the interpretation at the end discharges its laws
  for the association lists the models use.
\<close>

type_synonym ('k, 'v) dict = "('k \<times> 'v) list"

locale dictionary =
  fixes emp :: "'d"
    and put :: "'k \<Rightarrow> 'v \<Rightarrow> 'd \<Rightarrow> 'd"
    and get :: "'d \<Rightarrow> 'k \<Rightarrow> 'v option"
    and keys :: "'d \<Rightarrow> 'k list"
  assumes get_emp: "get emp k = None"
    and get_put: "get (put k v d) k' = (if k' = k then Some v else get d k')"
    and keys_emp: "keys emp = []"
    and keys_put: "keys (put k v d) = (if k \<in> set (keys d) then keys d else keys d @ [k])"
    and get_dom: "get d k = None \<longleftrightarrow> k \<notin> set (keys d)"
begin

text \<open>A fold that rewrites the entry of each element's key with \<open>upd\<close>.\<close>

lemma get_fold_upd:
  "get (fold (\<lambda>x d. put (f x) (upd x (get d (f x))) d) xs d0) k =
     fold (\<lambda>x acc. Some (upd x acc)) (filter (\<lambda>x. f x = k) xs) (get d0 k)"
  by (induction xs arbitrary: d0) (auto simp: get_put)

lemma keys_fold_upd:
  "set (keys (fold (\<lambda>x d. put (f x) (upd x (get d (f x))) d) xs d0)) = set (keys d0) \<union> f ` set xs"
  by (induction xs arbitrary: d0) (auto simp: keys_put)

lemma distinct_keys_fold_upd:
  "distinct (keys d0) \<Longrightarrow>
     distinct (keys (fold (\<lambda>x d. put (f x) (upd x (get d (f x))) d) xs d0))"
  by (induction xs arbitrary: d0) (auto simp: keys_put)

lemma get_fold_first:
  "get (fold (\<lambda>x d. if get d (f x) = None then put (f x) (g x) d else d) xs d0) k =
     (case get d0 k of Some v \<Rightarrow> Some v
      | None \<Rightarrow> map_option g (List.find (\<lambda>x. f x = k) xs))"
  by (induction xs arbitrary: d0) (auto simp: get_put split: option.splits)

lemma get_fold_last:
  "get (fold (\<lambda>x d. put (f x) (g x) d) xs d0) k =
     (case List.find (\<lambda>x. f x = k) (rev xs) of Some x \<Rightarrow> Some (g x) | None \<Rightarrow> get d0 k)"
proof (induction xs rule: rev_induct)
  case (snoc x xs)
  then show ?case by (auto simp: get_put)
qed simp

end

interpretation ad: dictionary "[]" AList.update map_of "map fst"
  by unfold_locales (auto simp: update_keys map_of_eq_None_iff update_conv image_iff)

declare ad.get_put [dict_simps] ad.get_emp [dict_simps] ad.keys_put [dict_simps]

subsection \<open>Counting\<close>

definition dict_incr :: "'k \<Rightarrow> ('k, nat) dict \<Rightarrow> ('k, nat) dict" where
  "dict_incr k d = AList.update k (case map_of d k of None \<Rightarrow> 1 | Some n \<Rightarrow> Suc n) d"

definition tally :: "('a \<Rightarrow> 'k) \<Rightarrow> 'a list \<Rightarrow> ('k, nat) dict" where
  "tally f xs = fold (\<lambda>x. dict_incr (f x)) xs []"

lemma fold_Some_count:
  "fold (\<lambda>x acc. Some (case acc of None \<Rightarrow> 1 | Some n \<Rightarrow> Suc n)) xs acc =
     (if xs = [] then acc else Some (length xs + (case acc of None \<Rightarrow> 0 | Some n \<Rightarrow> n)))"
  by (induction xs arbitrary: acc) (auto split: option.splits)

lemma tally_get:
  "map_of (tally f xs) k =
     (if k \<in> f ` set xs then Some (length (filter (\<lambda>x. f x = k) xs)) else None)"
proof -
  have "map_of (tally f xs) k =
    fold (\<lambda>x acc. Some (case acc of None \<Rightarrow> 1 | Some n \<Rightarrow> Suc n)) (filter (\<lambda>x. f x = k) xs) None"
    unfolding tally_def dict_incr_def
    using ad.get_fold_upd [of f "\<lambda>x acc. case acc of None \<Rightarrow> 1 | Some n \<Rightarrow> Suc n" xs "[]" k]
    by simp
  also have "\<dots> = (if k \<in> f ` set xs then Some (length (filter (\<lambda>x. f x = k) xs)) else None)"
    by (auto simp: fold_Some_count filter_empty_conv)
  finally show ?thesis .
qed

lemma tally_keys: "set (map fst (tally f xs)) = f ` set xs"
  unfolding tally_def dict_incr_def
  using ad.keys_fold_upd [of f "\<lambda>x acc. case acc of None \<Rightarrow> 1 | Some n \<Rightarrow> Suc n" xs "[]"] by simp

lemma tally_distinct: "distinct (map fst (tally f xs))"
  unfolding tally_def dict_incr_def
  using ad.distinct_keys_fold_upd [of "[]" f "\<lambda>x acc. case acc of None \<Rightarrow> 1 | Some n \<Rightarrow> Suc n" xs]
  by simp

text \<open>The counts of a tally add up to the number of elements counted.\<close>

lemma sum_filter_length:
  "(\<Sum>k \<in> f ` set xs. length (filter (\<lambda>x. f x = k) xs)) = length xs"
proof -
  have "(\<Sum>k \<in> f ` set xs. length (filter (\<lambda>x. f x = k) xs)) =
        (\<Sum>k \<in> f ` set xs. \<Sum>i | i < length xs \<and> f (xs ! i) = k. 1)"
    by (rule sum.cong) (auto simp: length_filter_conv_card)
  also have "\<dots> = (\<Sum>k \<in> f ` set xs. \<Sum>i | i \<in> {..<length xs} \<and> f (xs ! i) = k. 1)"
    by simp
  also have "\<dots> = (\<Sum>i < length xs. (1::nat))"
    by (rule sum.group) auto
  finally show ?thesis by simp
qed

lemma tally_total: "sum_list (map snd (tally f xs)) = length xs"
proof -
  let ?d = "tally f xs"
  have "sum_list (map snd ?d) = sum_list (map (\<lambda>k. the (map_of ?d k)) (map fst ?d))"
    using tally_distinct [of f xs] by (auto intro!: arg_cong [where f = sum_list])
  also have "\<dots> = (\<Sum>k \<in> set (map fst ?d). the (map_of ?d k))"
    by (rule sum_list_distinct_conv_sum_set [OF tally_distinct])
  also have "\<dots> = (\<Sum>k \<in> f ` set xs. length (filter (\<lambda>x. f x = k) xs))"
    by (rule sum.cong) (simp_all add: tally_keys [simplified] tally_get)
  finally show ?thesis by (simp add: sum_filter_length)
qed

subsection \<open>Grouping\<close>

definition dict_append :: "'k \<Rightarrow> 'a \<Rightarrow> ('k, 'a list) dict \<Rightarrow> ('k, 'a list) dict" where
  "dict_append k x d = AList.update k ((case map_of d k of None \<Rightarrow> [] | Some ys \<Rightarrow> ys) @ [x]) d"

definition group_by :: "('a \<Rightarrow> 'k) \<Rightarrow> 'a list \<Rightarrow> ('k, 'a list) dict" where
  "group_by f xs = fold (\<lambda>x. dict_append (f x) x) xs []"

lemma fold_Some_append:
  "fold (\<lambda>x acc. Some ((case acc of None \<Rightarrow> [] | Some ys \<Rightarrow> ys) @ [x])) xs acc =
     (if xs = [] then acc else Some ((case acc of None \<Rightarrow> [] | Some ys \<Rightarrow> ys) @ xs))"
  by (induction xs arbitrary: acc) auto

lemma group_by_get:
  "map_of (group_by f xs) k =
     (if k \<in> f ` set xs then Some (filter (\<lambda>x. f x = k) xs) else None)"
proof -
  have "map_of (group_by f xs) k =
    fold (\<lambda>x acc. Some ((case acc of None \<Rightarrow> [] | Some ys \<Rightarrow> ys) @ [x]))
      (filter (\<lambda>x. f x = k) xs) None"
    unfolding group_by_def dict_append_def
    using ad.get_fold_upd [of f "\<lambda>x acc. (case acc of None \<Rightarrow> [] | Some ys \<Rightarrow> ys) @ [x]" xs "[]" k]
    by simp
  also have "\<dots> = (if k \<in> f ` set xs then Some (filter (\<lambda>x. f x = k) xs) else None)"
    by (auto simp: fold_Some_append filter_empty_conv)
  finally show ?thesis .
qed

lemma group_by_keys: "set (map fst (group_by f xs)) = f ` set xs"
  unfolding group_by_def dict_append_def
  using ad.keys_fold_upd [of f "\<lambda>x acc. (case acc of None \<Rightarrow> [] | Some ys \<Rightarrow> ys) @ [x]" xs "[]"]
  by simp

lemma group_by_distinct: "distinct (map fst (group_by f xs))"
  unfolding group_by_def dict_append_def
  using ad.distinct_keys_fold_upd
    [of "[]" f "\<lambda>x acc. (case acc of None \<Rightarrow> [] | Some ys \<Rightarrow> ys) @ [x]" xs] by simp

lemma group_by_mem:
  "(k, ys) \<in> set (group_by f xs) \<longleftrightarrow> k \<in> f ` set xs \<and> ys = filter (\<lambda>x. f x = k) xs"
proof -
  have "(k, ys) \<in> set (group_by f xs) \<longleftrightarrow> map_of (group_by f xs) k = Some ys"
    using group_by_distinct by (metis map_of_eq_Some_iff)
  then show ?thesis by (auto simp: group_by_get)
qed

subsection \<open>Other dictionary idioms\<close>

definition dict_setdefault :: "'k \<Rightarrow> 'v \<Rightarrow> ('k, 'v) dict \<Rightarrow> ('k, 'v) dict" where
  "dict_setdefault k v d = (if map_of d k = None then AList.update k v d else d)"

definition dict_first :: "('a \<Rightarrow> 'k) \<Rightarrow> ('a \<Rightarrow> 'v) \<Rightarrow> 'a list \<Rightarrow> ('k, 'v) dict" where
  "dict_first f g xs = fold (\<lambda>x. dict_setdefault (f x) (g x)) xs []"

definition dict_of :: "('a \<Rightarrow> 'k) \<Rightarrow> ('a \<Rightarrow> 'v) \<Rightarrow> 'a list \<Rightarrow> ('k, 'v) dict" where
  "dict_of f g xs = fold (\<lambda>x. AList.update (f x) (g x)) xs []"

lemma dict_first_get:
  "map_of (dict_first f g xs) k = map_option g (List.find (\<lambda>x. f x = k) xs)"
  unfolding dict_first_def dict_setdefault_def
  using ad.get_fold_first [of f g xs "[]" k] by simp

lemma dict_of_get:
  "map_of (dict_of f g xs) k = map_option g (List.find (\<lambda>x. f x = k) (rev xs))"
  unfolding dict_of_def
  using ad.get_fold_last [of f g xs "[]" k] by (simp split: option.splits)

lemma find_distinct_key:
  "distinct (map f xs) \<Longrightarrow> x \<in> set xs \<Longrightarrow> List.find (\<lambda>y. f y = f x) xs = Some x"
  by (induction xs) (auto simp: rev_image_eqI)

lemma find_None_key: "List.find (\<lambda>y. f y = k) xs = None \<longleftrightarrow> k \<notin> f ` set xs"
  by (auto simp: find_None_iff)

lemma dict_of_get_distinct:
  assumes "distinct (map f xs)" and "x \<in> set xs"
  shows "map_of (dict_of f g xs) (f x) = Some (g x)"
proof -
  have "distinct (map f (rev xs))" using assms(1) by (simp flip: rev_map)
  with assms(2) show ?thesis by (simp add: dict_of_get find_distinct_key)
qed

lemma dict_of_get_None: "map_of (dict_of f g xs) k = None \<longleftrightarrow> k \<notin> f ` set xs"
  by (simp add: dict_of_get find_None_key)

text \<open>With distinct keys a dictionary built from a list does not depend on the list's order.\<close>

lemma dict_of_get_perm:
  assumes "distinct (map f xs)" and "mset xs = mset ys"
  shows "map_of (dict_of f g xs) = map_of (dict_of f g ys)"
proof
  fix k
  have sets: "set xs = set ys" using assms(2) by (metis set_mset_mset)
  have dys: "distinct (map f ys)" using assms by (metis mset_eq_imp_distinct_iff mset_map)
  show "map_of (dict_of f g xs) k = map_of (dict_of f g ys) k"
  proof (cases "k \<in> f ` set xs")
    case True
    then obtain x where "x \<in> set xs" "k = f x" by blast
    with sets assms(1) dys show ?thesis by (simp add: dict_of_get_distinct)
  next
    case False
    with sets show ?thesis by (metis dict_of_get_None)
  qed
qed

end
