(* ===== verification/Policy_Model.thy ===== *)
theory Policy_Model
  imports Py_Values Py_Dict
begin

text \<open>
  The release-gate vocabulary (\<open>core/vocab.py\<close>, \<open>core/policy/model.py\<close>, \<open>core/policy/policy.py\<close>):
  severities, the three decisions and their exit codes, the narrow view of a finding, waivers,
  violations, the verdict, and the policy document.
\<close>

subsection \<open>Severity\<close>

datatype severity = CRITICAL | HIGH | MEDIUM | LOW | INFO

fun severity_value :: "severity \<Rightarrow> string" where
  "severity_value CRITICAL = ''critical''"
| "severity_value HIGH = ''high''"
| "severity_value MEDIUM = ''medium''"
| "severity_value LOW = ''low''"
| "severity_value INFO = ''info''"

fun severity_rank :: "severity \<Rightarrow> nat" where
  "severity_rank CRITICAL = 0"
| "severity_rank HIGH = 1"
| "severity_rank MEDIUM = 2"
| "severity_rank LOW = 3"
| "severity_rank INFO = 4"

definition severity_blocks_release :: "severity \<Rightarrow> bool" where
  "severity_blocks_release s \<longleftrightarrow> s \<in> {CRITICAL, HIGH}"

text \<open>\<open>Severity(text)\<close>, the enum lookup by value.\<close>

definition severity_of :: "string \<Rightarrow> severity option" where
  "severity_of s = List.find (\<lambda>v. severity_value v = s) [CRITICAL, HIGH, MEDIUM, LOW, INFO]"

lemma severity_of_value [simp]: "severity_of (severity_value s) = Some s"
  by (cases s) (simp_all add: severity_of_def)

lemma severity_of_Some: "severity_of t = Some s \<longleftrightarrow> t = severity_value s"
proof
  assume "severity_of t = Some s"
  then show "t = severity_value s"
    by (auto simp: severity_of_def split: if_splits)
qed simp

lemma severity_value_inj [simp]: "severity_value a = severity_value b \<longleftrightarrow> a = b"
  by (metis severity_of_value option.inject)

lemma severity_rank_inj [simp]: "severity_rank a = severity_rank b \<longleftrightarrow> a = b"
  by (cases a; cases b) simp_all

instantiation severity :: linorder
begin

definition less_eq_severity :: "severity \<Rightarrow> severity \<Rightarrow> bool" where
  "less_eq_severity a b \<longleftrightarrow> severity_rank a \<le> severity_rank b"

definition less_severity :: "severity \<Rightarrow> severity \<Rightarrow> bool" where
  "less_severity a b \<longleftrightarrow> severity_rank a < severity_rank b"

instance
  by standard (auto simp: less_eq_severity_def less_severity_def)

end

subsection \<open>Decisions, postures and kinds\<close>

datatype gate_decision = PASS | BLOCKED | INCONCLUSIVE

fun decision_value :: "gate_decision \<Rightarrow> string" where
  "decision_value PASS = ''pass''"
| "decision_value BLOCKED = ''blocked''"
| "decision_value INCONCLUSIVE = ''inconclusive''"

fun decision_exit_code :: "gate_decision \<Rightarrow> int" where
  "decision_exit_code PASS = 0"
| "decision_exit_code BLOCKED = 1"
| "decision_exit_code INCONCLUSIVE = 3"

definition decision_of :: "string \<Rightarrow> gate_decision option" where
  "decision_of s = List.find (\<lambda>v. decision_value v = s) [PASS, BLOCKED, INCONCLUSIVE]"

lemma decision_of_value [simp]: "decision_of (decision_value d) = Some d"
  by (cases d) (simp_all add: decision_of_def)

datatype violation_kind =
  SEVERITY_FLOOR | BLOCKED_CATEGORY | BLOCKED_RULE | BUDGET_EXCEEDED | DEGRADED_SCAN | EXPIRED_WAIVER

fun kind_value :: "violation_kind \<Rightarrow> string" where
  "kind_value SEVERITY_FLOOR = ''severity_floor''"
| "kind_value BLOCKED_CATEGORY = ''blocked_category''"
| "kind_value BLOCKED_RULE = ''blocked_rule''"
| "kind_value BUDGET_EXCEEDED = ''budget_exceeded''"
| "kind_value DEGRADED_SCAN = ''degraded_scan''"
| "kind_value EXPIRED_WAIVER = ''expired_waiver''"

definition kind_of :: "string \<Rightarrow> violation_kind option" where
  "kind_of s = List.find (\<lambda>v. kind_value v = s)
     [SEVERITY_FLOOR, BLOCKED_CATEGORY, BLOCKED_RULE, BUDGET_EXCEEDED, DEGRADED_SCAN, EXPIRED_WAIVER]"

lemma kind_of_value [simp]: "kind_of (kind_value k) = Some k"
  by (cases k) (simp_all add: kind_of_def)

datatype baseline_mode = NEW_ONLY | ALL_FINDINGS

fun mode_value :: "baseline_mode \<Rightarrow> string" where
  "mode_value NEW_ONLY = ''new_only''"
| "mode_value ALL_FINDINGS = ''all''"

definition mode_of :: "string \<Rightarrow> baseline_mode option" where
  "mode_of s = List.find (\<lambda>v. mode_value v = s) [NEW_ONLY, ALL_FINDINGS]"

datatype degraded_posture = FAIL | WARN | PASS_DEGRADED

fun posture_value :: "degraded_posture \<Rightarrow> string" where
  "posture_value FAIL = ''fail''"
| "posture_value WARN = ''warn''"
| "posture_value PASS_DEGRADED = ''pass''"

definition posture_of :: "string \<Rightarrow> degraded_posture option" where
  "posture_of s = List.find (\<lambda>v. posture_value v = s) [FAIL, WARN, PASS_DEGRADED]"

subsection \<open>Findings, waivers, violations, the verdict\<close>

record gate_finding =
  gf_id :: string
  gf_rule_id :: string
  gf_category :: string
  gf_title :: string
  gf_severity :: severity
  gf_status :: string
  gf_is_new :: bool
  gf_llm_dismissed :: bool
  gf_artifact_path :: string
  gf_value_masked :: string

definition gf_is_open :: "gate_finding \<Rightarrow> bool" where
  "gf_is_open f \<longleftrightarrow> gf_status f \<notin> {''false_positive'', ''accepted_risk'', ''fixed''}"

record waiver =
  w_finding_id :: string
  w_reason :: string
  w_owner :: string
  w_expires :: date

definition waiver_is_expired :: "waiver \<Rightarrow> date \<Rightarrow> bool" where
  "waiver_is_expired w today \<longleftrightarrow> today > w_expires w"

record violation =
  v_kind :: violation_kind
  v_detail :: string
  v_finding_id :: string
  v_rule_id :: string
  v_severity :: "severity option"
  v_title :: string
  v_artifact_path :: string

text \<open>\<open>f"{text:8}"\<close> pads on the right with blanks; \<open>upper()\<close> on the severity names.\<close>

definition upper_char :: "char \<Rightarrow> char" where
  "upper_char c = (let n = (of_char c :: nat) in if 97 \<le> n \<and> n \<le> 122 then char_of (n - 32) else c)"

definition pad_right :: "nat \<Rightarrow> string \<Rightarrow> string" where
  "pad_right n s = s @ replicate (n - length s) CHR '' ''"

definition violation_render :: "violation \<Rightarrow> string" where
  "violation_render v =
     (let prefix = (case v_severity v of
                      Some s \<Rightarrow> pad_right 8 (map upper_char (severity_value s))
                    | None \<Rightarrow> ''SCAN    '');
          loc = (if v_artifact_path v \<noteq> [] then '' ['' @ v_artifact_path v @ '']'' else []);
          subject = (if v_title v \<noteq> [] then v_title v else v_detail v)
      in prefix @ '' '' @ subject @ loc)"

record waived_finding =
  wf_finding_id :: string
  wf_title :: string
  wf_severity :: severity
  wf_owner :: string
  wf_reason :: string
  wf_expires :: date

record gate_verdict =
  gv_decision :: gate_decision
  gv_policy_name :: string
  gv_violations :: "violation list"
  gv_waived :: "waived_finding list"
  gv_inherited :: "gate_finding list"
  gv_degraded_stages :: "string list"
  gv_counts :: "(string, nat) dict"
  gv_new_counts :: "(string, nat) dict"
  gv_total :: nat
  gv_warnings :: "string list"

definition verdict_exit_code :: "gate_verdict \<Rightarrow> int" where
  "verdict_exit_code v = decision_exit_code (gv_decision v)"

definition verdict_blocked :: "gate_verdict \<Rightarrow> bool" where
  "verdict_blocked v \<longleftrightarrow> gv_decision v = BLOCKED"

definition em_dash :: string where
  "em_dash = [CHR 0xE2, CHR 0x80, CHR 0x94]"

definition verdict_summary_line :: "gate_verdict \<Rightarrow> string" where
  "verdict_summary_line v =
     (case gv_decision v of
        PASS \<Rightarrow> ''PASS '' @ em_dash @ '' '' @ show_nat (gv_total v)
                 @ '' finding(s), none blocking under '' @ repr_str (gv_policy_name v)
      | INCONCLUSIVE \<Rightarrow> ''INCONCLUSIVE '' @ em_dash @ '' scan incomplete (''
                 @ show_nat (length (gv_degraded_stages v)) @ '' degraded stage(s)) under ''
                 @ [CHR 0x27] @ gv_policy_name v @ [CHR 0x27]
      | BLOCKED \<Rightarrow> ''BLOCKED '' @ em_dash @ '' '' @ show_nat (length (gv_violations v))
                 @ '' violation(s) under '' @ [CHR 0x27] @ gv_policy_name v @ [CHR 0x27])"

subsection \<open>The policy document\<close>

definition UNLIMITED :: int where
  "UNLIMITED = - 1"

definition DEFAULT_MAX_WAIVER_DAYS :: int where
  "DEFAULT_MAX_WAIVER_DAYS = 90"

record budgets =
  b_critical :: int
  b_high :: int
  b_medium :: int
  b_low :: int
  b_info :: int

definition default_budgets :: budgets where
  "default_budgets = \<lparr>b_critical = UNLIMITED, b_high = UNLIMITED, b_medium = UNLIMITED,
                      b_low = UNLIMITED, b_info = UNLIMITED\<rparr>"

fun limit_for :: "budgets \<Rightarrow> severity \<Rightarrow> int" where
  "limit_for b CRITICAL = b_critical b"
| "limit_for b HIGH = b_high b"
| "limit_for b MEDIUM = b_medium b"
| "limit_for b LOW = b_low b"
| "limit_for b INFO = b_info b"

record policy =
  p_name :: string
  p_version :: int
  p_block_at_or_above :: "severity option"
  p_block_categories :: "string set"
  p_block_rules :: "string set"
  p_budgets :: budgets
  p_baseline_mode :: baseline_mode
  p_on_degraded :: degraded_posture
  p_trust_llm_dismissals :: bool
  p_max_waiver_days :: int
  p_require_waiver_owner :: bool
  p_require_waiver_reason :: bool

definition default_policy :: policy where
  "default_policy =
     \<lparr>p_name = ''default'', p_version = 1, p_block_at_or_above = Some HIGH,
      p_block_categories = {}, p_block_rules = {}, p_budgets = default_budgets,
      p_baseline_mode = NEW_ONLY, p_on_degraded = FAIL, p_trust_llm_dismissals = False,
      p_max_waiver_days = DEFAULT_MAX_WAIVER_DAYS, p_require_waiver_owner = True,
      p_require_waiver_reason = True\<rparr>"

definition policy_blocks :: "policy \<Rightarrow> severity \<Rightarrow> bool" where
  "policy_blocks p s =
     (case p_block_at_or_above p of
        None \<Rightarrow> False
      | Some bar \<Rightarrow> severity_rank s \<le> severity_rank bar)"

end
