(* ===== verification/Canonical_Order.thy ===== *)
theory Canonical_Order
  imports Prelude
begin

text \<open>
  Sorting as canonicalisation. The program promises that parallelism cannot leak into its
  results: whatever order rows arrive in, they are sorted before they are used. The locale
  \<open>canonical_sort\<close> is the contract that makes the promise true: the sort key determines the
  identity of a row. Under it, two arrival orders of rows with distinct identities sort to the
  same list. Components interpret it on their own keys.
\<close>

lemma sort_key_cong_on: "(\<And>x. x \<in> set xs \<Longrightarrow> f x = g x) \<Longrightarrow> sort_key f xs = sort_key g xs"
proof (induction xs)
  case (Cons a xs)
  have "insort_key f a ys = insort_key g a ys" if "set ys = set xs" for ys
  proof -
    have "set ys \<subseteq> set xs \<Longrightarrow> insort_key f a ys = insort_key g a ys"
      by (induction ys) (simp_all add: Cons.prems)
    with that show ?thesis by simp
  qed
  with Cons show ?case by simp
qed simp

lemma sort_key_map_of: "sort_key f (map g xs) = map g (sort_key (\<lambda>x. f (g x)) xs)"
proof (induction xs)
  case (Cons a xs)
  have "insort_key f (g a) (map g ys) = map g (insort_key (\<lambda>x. f (g x)) a ys)" for ys
    by (induction ys) simp_all
  with Cons show ?case by simp
qed simp

lemma sort_key_inj_perm:
  assumes "mset xs = mset ys" and "inj_on f (set xs)"
  shows "sort_key f xs = sort_key f ys"
proof (rule properties_for_sort_key [symmetric, rotated 2])
  show "mset (sort_key f xs) = mset ys" using assms(1) by simp
  show "sorted (map f (sort_key f xs))" by simp
  fix k assume k: "k \<in> set (sort_key f xs)"
  have same: "set xs = set ys" using assms(1) by (metis set_mset_mset)
  have eq: "f k = f x \<longleftrightarrow> k = x" if "x \<in> set xs" for x
    using assms(2) k that by (auto dest: inj_onD)
  have "filter (\<lambda>x. f k = f x) (sort_key f xs) = filter (\<lambda>x. k = x) (sort_key f xs)"
    using eq by (intro filter_cong) auto
  also have "\<dots> = replicate (count_list (sort_key f xs) k) k"
    by (simp add: count_list_eq_length_filter replicate_length_filter)
  also have "count_list (sort_key f xs) k = count_list ys k"
    using assms(1) by (metis count_mset mset_sort)
  also have "replicate (count_list ys k) k = filter (\<lambda>x. k = x) ys"
    by (simp add: count_list_eq_length_filter replicate_length_filter)
  also have "\<dots> = filter (\<lambda>x. f k = f x) ys"
    using eq same by (intro filter_cong) auto
  finally show "filter (\<lambda>x. f k = f x) (sort_key f xs) = filter (\<lambda>x. f k = f x) ys" .
qed

locale canonical_sort =
  fixes key :: "'a \<Rightarrow> 'k::linorder"
    and ident :: "'a \<Rightarrow> 'i"
  assumes key_ident: "key x = key y \<Longrightarrow> ident x = ident y"
begin

lemma key_inj_on: "distinct (map ident xs) \<Longrightarrow> inj_on key (set xs)"
  by (auto simp: distinct_map intro!: inj_onI dest: key_ident inj_onD)

theorem order_irrelevant:
  assumes "mset xs = mset ys" and "distinct (map ident xs)"
  shows "sort_key key xs = sort_key key ys"
  using assms by (intro sort_key_inj_perm key_inj_on)

lemma sorted_idents_distinct:
  "distinct (map ident xs) \<Longrightarrow> distinct (map ident (sort_key key xs))"
  by (metis mset_eq_imp_distinct_iff mset_map mset_sort)

end

text \<open>\<open>sorted(set(xs))\<close>.\<close>

definition sorted_set :: "'a::linorder list \<Rightarrow> 'a list" where
  "sorted_set xs = sort (remdups xs)"

lemma sorted_set_set [simp]: "set (sorted_set xs) = set xs"
  by (simp add: sorted_set_def)

lemma sorted_set_props: "sorted (sorted_set xs)" "distinct (sorted_set xs)"
  by (simp_all add: sorted_set_def)

lemma sorted_set_cong: "set xs = set ys \<Longrightarrow> sorted_set xs = sorted_set ys"
  by (metis sorted_distinct_set_unique sorted_set_props sorted_set_set)

lemma sorted_set_Nil [simp]: "sorted_set xs = [] \<longleftrightarrow> xs = []"
  by (metis set_empty sorted_set_set)

end
