(* ===== verification/Policy_Engine.thy ===== *)
theory Policy_Engine
  imports Policy_Model Canonical_Order
begin

text \<open>
  Policy evaluation (\<open>core/policy/engine.py\<close>): findings, waivers and degraded stages in, a release
  decision out. \<open>evaluate\<close> follows the code: sort, count, account for the degraded scan, walk the
  findings with one accumulator per result list, then the budgets, then the decision. The
  specification side classifies a finding without an accumulator (\<open>disposition\<close>) and gives
  every list of the verdict as a comprehension over the sorted findings.
\<close>

subsection \<open>The code\<close>

definition is_actionable :: "gate_finding \<Rightarrow> policy \<Rightarrow> bool" where
  "is_actionable f p = (if gf_is_open f then True
                        else gf_llm_dismissed f \<and> \<not> p_trust_llm_dismissals p)"

definition blocking_reason :: "gate_finding \<Rightarrow> policy \<Rightarrow> violation_kind option" where
  "blocking_reason f p =
     (if gf_rule_id f \<in> p_block_rules p then Some BLOCKED_RULE
      else if gf_category f \<in> p_block_categories p then Some BLOCKED_CATEGORY
      else if policy_blocks p (gf_severity f) then Some SEVERITY_FLOOR
      else None)"

text \<open>The table lookup of \<open>_violation\<close>: only the three kinds \<open>_blocking_reason\<close> returns have an
  entry, the others would be a \<open>KeyError\<close>.\<close>

definition violation_detail :: "gate_finding \<Rightarrow> violation_kind \<Rightarrow> string option" where
  "violation_detail f k =
     (case k of
        SEVERITY_FLOOR \<Rightarrow> Some (severity_value (gf_severity f) @ '' finding blocks release'')
      | BLOCKED_RULE \<Rightarrow> Some (''rule '' @ gf_rule_id f @ '' is blocked by policy'')
      | BLOCKED_CATEGORY \<Rightarrow> Some (''category '' @ gf_category f @ '' is blocked by policy'')
      | _ \<Rightarrow> None)"

definition finding_violation :: "gate_finding \<Rightarrow> violation_kind \<Rightarrow> violation" where
  "finding_violation f k =
     \<lparr>v_kind = k, v_detail = the (violation_detail f k), v_finding_id = gf_id f,
      v_rule_id = gf_rule_id f, v_severity = Some (gf_severity f), v_title = gf_title f,
      v_artifact_path = gf_artifact_path f\<rparr>"

definition budget_violation :: "policy \<Rightarrow> (severity, nat) dict \<Rightarrow> severity \<Rightarrow> violation list" where
  "budget_violation p counts s =
     (let limit = limit_for (p_budgets p) s; n = (case map_of counts s of None \<Rightarrow> 0 | Some n \<Rightarrow> n) in
      if limit = UNLIMITED then []
      else if int n > limit then
        [\<lparr>v_kind = BUDGET_EXCEEDED,
          v_detail = show_nat n @ '' '' @ severity_value s @ '' findings exceed the budget of ''
                       @ show_int limit,
          v_finding_id = [], v_rule_id = [], v_severity = Some s, v_title = [],
          v_artifact_path = []\<rparr>]
      else [])"

definition budget_violations :: "gate_finding list \<Rightarrow> policy \<Rightarrow> violation list" where
  "budget_violations fs p =
     (let counts = tally gf_severity fs
      in concat (map (budget_violation p counts) (sort_key severity_rank (map fst counts))))"

definition waiver_exceeds_ttl :: "waiver \<Rightarrow> policy \<Rightarrow> date \<Rightarrow> bool" where
  "waiver_exceeds_ttl w p today \<longleftrightarrow> days_between (w_expires w) today > p_max_waiver_days p"

definition decide :: "violation list \<Rightarrow> string list \<Rightarrow> policy \<Rightarrow> gate_decision" where
  "decide vs stages p =
     (if vs \<noteq> [] \<and> list_all (\<lambda>v. v_kind v = DEGRADED_SCAN) vs then INCONCLUSIVE
      else if vs \<noteq> [] then BLOCKED
      else if stages \<noteq> [] \<and> p_on_degraded p = WARN then INCONCLUSIVE
      else PASS)"

record eval_state =
  es_violations :: "violation list"
  es_waived :: "waived_finding list"
  es_inherited :: "gate_finding list"
  es_warnings :: "string list"
  es_considered :: "gate_finding list"

definition expired_violation :: "gate_finding \<Rightarrow> waiver \<Rightarrow> violation" where
  "expired_violation f w =
     \<lparr>v_kind = EXPIRED_WAIVER,
      v_detail = ''waiver expired '' @ isoformat (w_expires w) @ '' (owner: ''
                   @ (if w_owner w \<noteq> [] then w_owner w else ''unknown'') @ '')'',
      v_finding_id = gf_id f, v_rule_id = gf_rule_id f, v_severity = Some (gf_severity f),
      v_title = gf_title f, v_artifact_path = gf_artifact_path f\<rparr>"

definition ttl_warning :: "gate_finding \<Rightarrow> waiver \<Rightarrow> policy \<Rightarrow> string" where
  "ttl_warning f w p =
     ''waiver for '' @ take 12 (gf_id f) @ '' runs past the '' @ show_int (p_max_waiver_days p)
       @ ''-day maximum (expires '' @ isoformat (w_expires w) @ '')''"

definition mk_waived :: "gate_finding \<Rightarrow> waiver \<Rightarrow> waived_finding" where
  "mk_waived f w =
     \<lparr>wf_finding_id = gf_id f, wf_title = gf_title f, wf_severity = gf_severity f,
      wf_owner = w_owner w, wf_reason = w_reason w, wf_expires = w_expires w\<rparr>"

text \<open>One iteration of the per-finding loop, with its \<open>continue\<close>s.\<close>

definition eval_finding ::
  "policy \<Rightarrow> (string, waiver) dict \<Rightarrow> date \<Rightarrow> gate_finding \<Rightarrow> eval_state \<Rightarrow> eval_state" where
  "eval_finding p widx today f s =
     (if \<not> is_actionable f p then s
      else if p_baseline_mode p = NEW_ONLY \<and> \<not> gf_is_new f then
        s\<lparr>es_inherited := es_inherited s @ [f]\<rparr>
      else (case blocking_reason f p of
        None \<Rightarrow> s\<lparr>es_considered := es_considered s @ [f]\<rparr>
      | Some reason \<Rightarrow>
          (case map_of widx (gf_id f) of
             None \<Rightarrow> s\<lparr>es_violations := es_violations s @ [finding_violation f reason]\<rparr>
           | Some w \<Rightarrow>
               if waiver_is_expired w today then
                 s\<lparr>es_violations := es_violations s @ [expired_violation f w]\<rparr>
               else
                 (let s1 = (if waiver_exceeds_ttl w p today
                            then s\<lparr>es_warnings := es_warnings s @ [ttl_warning f w p]\<rparr> else s)
                  in s1\<lparr>es_waived := es_waived s1 @ [mk_waived f w]\<rparr>))))"

definition degraded_violation :: "string list \<Rightarrow> violation" where
  "degraded_violation stages =
     \<lparr>v_kind = DEGRADED_SCAN,
      v_detail = ''scan incomplete: '' @ join '', '' stages
                   @ '' did not finish, so the artifact was not fully examined'',
      v_finding_id = [], v_rule_id = [], v_severity = None, v_title = [], v_artifact_path = []\<rparr>"

definition degraded_warning :: "string list \<Rightarrow> string" where
  "degraded_warning stages =
     ''scan incomplete: '' @ join '', '' stages @ '' did not finish; findings may be partial''"

definition start_state :: "string list \<Rightarrow> policy \<Rightarrow> eval_state" where
  "start_state stages p =
     \<lparr>es_violations = (if stages \<noteq> [] \<and> p_on_degraded p = FAIL then [degraded_violation stages] else []),
      es_waived = [], es_inherited = [],
      es_warnings = (if stages \<noteq> [] \<and> p_on_degraded p = WARN then [degraded_warning stages] else []),
      es_considered = []\<rparr>"

definition finding_key :: "gate_finding \<Rightarrow> nat \<times> string \<times> string" where
  "finding_key f = (severity_rank (gf_severity f), gf_rule_id f, gf_id f)"

definition evaluate ::
  "gate_finding list \<Rightarrow> policy \<Rightarrow> waiver list \<Rightarrow> string list \<Rightarrow> date \<Rightarrow> gate_verdict" where
  "evaluate findings p waivers degraded today =
     (let all_findings = sort_key finding_key findings;
          stages = sorted_set degraded;
          waiver_index = dict_of w_finding_id id waivers;
          counts = tally (severity_value \<circ> gf_severity) all_findings;
          new_counts = tally (severity_value \<circ> gf_severity) (filter gf_is_new all_findings);
          s = fold (eval_finding p waiver_index today) all_findings (start_state stages p);
          violations = es_violations s @ budget_violations (es_considered s) p
      in \<lparr>gv_decision = decide violations stages p, gv_policy_name = p_name p,
          gv_violations = violations, gv_waived = es_waived s, gv_inherited = es_inherited s,
          gv_degraded_stages = stages, gv_counts = counts, gv_new_counts = new_counts,
          gv_total = length all_findings, gv_warnings = es_warnings s\<rparr>)"

subsection \<open>The specification: one disposition per finding\<close>

datatype disposition =
    Ignored | Inherited | Considered | Unwaived violation_kind | Expired waiver | Exempt waiver

definition disposition_of ::
  "policy \<Rightarrow> (string \<Rightarrow> waiver option) \<Rightarrow> date \<Rightarrow> gate_finding \<Rightarrow> disposition" where
  "disposition_of p W today f =
     (if \<not> is_actionable f p then Ignored
      else if p_baseline_mode p = NEW_ONLY \<and> \<not> gf_is_new f then Inherited
      else (case blocking_reason f p of
              None \<Rightarrow> Considered
            | Some k \<Rightarrow> (case W (gf_id f) of
                None \<Rightarrow> Unwaived k
              | Some w \<Rightarrow> if waiver_is_expired w today then Expired w else Exempt w)))"

fun disp_violations :: "gate_finding \<Rightarrow> disposition \<Rightarrow> violation list" where
  "disp_violations f (Unwaived k) = [finding_violation f k]"
| "disp_violations f (Expired w) = [expired_violation f w]"
| "disp_violations f _ = []"

fun disp_waived :: "gate_finding \<Rightarrow> disposition \<Rightarrow> waived_finding list" where
  "disp_waived f (Exempt w) = [mk_waived f w]"
| "disp_waived f _ = []"

fun disp_warnings :: "policy \<Rightarrow> date \<Rightarrow> gate_finding \<Rightarrow> disposition \<Rightarrow> string list" where
  "disp_warnings p today f (Exempt w) =
     (if waiver_exceeds_ttl w p today then [ttl_warning f w p] else [])"
| "disp_warnings p today f _ = []"

definition blocks_now :: "disposition \<Rightarrow> bool" where
  "blocks_now d \<longleftrightarrow> (case d of Unwaived _ \<Rightarrow> True | Expired _ \<Rightarrow> True | _ \<Rightarrow> False)"

lemma blocks_now_simps [simp]:
  "\<not> blocks_now Ignored" "\<not> blocks_now Inherited" "\<not> blocks_now Considered"
  "blocks_now (Unwaived k)" "blocks_now (Expired w)" "\<not> blocks_now (Exempt w)"
  by (simp_all add: blocks_now_def)

lemma disp_violations_Nil [simp]: "disp_violations f d = [] \<longleftrightarrow> \<not> blocks_now d"
  by (cases d) simp_all

lemma disp_violations_kind: "v \<in> set (disp_violations f d) \<Longrightarrow> d = disposition_of p W today f
    \<Longrightarrow> v_kind v \<noteq> DEGRADED_SCAN"
  by (auto simp: disposition_of_def finding_violation_def expired_violation_def blocking_reason_def
      split: if_splits option.splits)

text \<open>One iteration appends what the finding's disposition says.\<close>

definition extend_state ::
  "policy \<Rightarrow> date \<Rightarrow> gate_finding \<Rightarrow> disposition \<Rightarrow> eval_state \<Rightarrow> eval_state" where
  "extend_state p today f d s =
     s\<lparr>es_violations := es_violations s @ disp_violations f d,
       es_waived := es_waived s @ disp_waived f d,
       es_inherited := es_inherited s @ (if d = Inherited then [f] else []),
       es_warnings := es_warnings s @ disp_warnings p today f d,
       es_considered := es_considered s @ (if d = Considered then [f] else [])\<rparr>"

lemma eval_finding_disposition:
  "eval_finding p widx today f s = extend_state p today f (disposition_of p (map_of widx) today f) s"
proof (cases "\<not> is_actionable f p \<or> (p_baseline_mode p = NEW_ONLY \<and> \<not> gf_is_new f)")
  case True
  then show ?thesis
    by (auto simp: eval_finding_def disposition_of_def extend_state_def)
next
  case False
  then show ?thesis
    by (cases "blocking_reason f p"; cases "map_of widx (gf_id f)")
      (simp_all add: eval_finding_def disposition_of_def extend_state_def Let_def)
qed

text \<open>The loop is the comprehension over the dispositions.\<close>

lemma eval_loop_spec:
  "fold (eval_finding p widx today) fs s =
     s\<lparr>es_violations := es_violations s
          @ concat (map (\<lambda>f. disp_violations f (disposition_of p (map_of widx) today f)) fs),
       es_waived := es_waived s
          @ concat (map (\<lambda>f. disp_waived f (disposition_of p (map_of widx) today f)) fs),
       es_inherited := es_inherited s
          @ filter (\<lambda>f. disposition_of p (map_of widx) today f = Inherited) fs,
       es_warnings := es_warnings s
          @ concat (map (\<lambda>f. disp_warnings p today f (disposition_of p (map_of widx) today f)) fs),
       es_considered := es_considered s
          @ filter (\<lambda>f. disposition_of p (map_of widx) today f = Considered) fs\<rparr>"
proof (induction fs arbitrary: s)
  case Nil
  then show ?case by simp
next
  case (Cons f fs)
  let ?s = "extend_state p today f (disposition_of p (map_of widx) today f) s"
  have "fold (eval_finding p widx today) (f # fs) s = fold (eval_finding p widx today) fs ?s"
    by (simp add: eval_finding_disposition [of p widx today f s])
  then show ?case
    unfolding Cons.IH by (simp add: extend_state_def)
qed

subsection \<open>Budgets\<close>

definition over_budget :: "policy \<Rightarrow> gate_finding list \<Rightarrow> severity \<Rightarrow> bool" where
  "over_budget p fs s \<longleftrightarrow> limit_for (p_budgets p) s \<noteq> UNLIMITED
     \<and> int (length (filter (\<lambda>f. gf_severity f = s) fs)) > limit_for (p_budgets p) s
     \<and> s \<in> gf_severity ` set fs"

lemma budget_violation_Nil:
  "s \<in> gf_severity ` set fs \<Longrightarrow>
     budget_violation p (tally gf_severity fs) s = [] \<longleftrightarrow> \<not> over_budget p fs s"
  by (auto simp: budget_violation_def over_budget_def tally_get Let_def)

lemma budget_violations_Nil:
  "budget_violations fs p = [] \<longleftrightarrow> (\<forall>s. \<not> over_budget p fs s)"
proof -
  have "budget_violations fs p = [] \<longleftrightarrow>
      (\<forall>s \<in> gf_severity ` set fs. budget_violation p (tally gf_severity fs) s = [])"
    by (simp add: budget_violations_def Let_def tally_keys [simplified])
  also have "\<dots> \<longleftrightarrow> (\<forall>s \<in> gf_severity ` set fs. \<not> over_budget p fs s)"
    by (intro ball_cong refl) (simp add: budget_violation_Nil)
  also have "\<dots> \<longleftrightarrow> (\<forall>s. \<not> over_budget p fs s)"
    by (auto simp: over_budget_def)
  finally show ?thesis .
qed

lemma budget_violations_kind: "v \<in> set (budget_violations fs p) \<Longrightarrow> v_kind v = BUDGET_EXCEEDED"
  by (auto simp: budget_violations_def budget_violation_def Let_def split: if_splits)

lemma over_budget_mono:
  assumes "over_budget p fs s" and "mset fs \<subseteq># mset gs"
  shows "over_budget p gs s"
proof -
  have "mset (filter (\<lambda>f. gf_severity f = s) fs) \<subseteq># mset (filter (\<lambda>f. gf_severity f = s) gs)"
    using assms(2) by (simp add: multiset_filter_mono)
  then have "length (filter (\<lambda>f. gf_severity f = s) fs) \<le> length (filter (\<lambda>f. gf_severity f = s) gs)"
    by (metis size_mset size_mset_mono)
  moreover have "set fs \<subseteq> set gs" using assms(2) by (metis set_mset_mono set_mset_mset)
  ultimately show ?thesis using assms(1) by (fastforce simp: over_budget_def)
qed

subsection \<open>The verdict, list by list\<close>

definition waiver_lookup :: "waiver list \<Rightarrow> string \<Rightarrow> waiver option" where
  "waiver_lookup ws = map_of (dict_of w_finding_id id ws)"

definition gate_disposition ::
  "policy \<Rightarrow> waiver list \<Rightarrow> date \<Rightarrow> gate_finding \<Rightarrow> disposition" where
  "gate_disposition p ws today f = disposition_of p (waiver_lookup ws) today f"

abbreviation sorted_findings :: "gate_finding list \<Rightarrow> gate_finding list" where
  "sorted_findings fs \<equiv> sort_key finding_key fs"

lemma evaluate_violations:
  "gv_violations (evaluate fs p ws dg today) =
     (if dg \<noteq> [] \<and> p_on_degraded p = FAIL then [degraded_violation (sorted_set dg)] else [])
     @ concat (map (\<lambda>f. disp_violations f (gate_disposition p ws today f)) (sorted_findings fs))
     @ budget_violations
         (filter (\<lambda>f. gate_disposition p ws today f = Considered) (sorted_findings fs)) p"
  by (simp add: evaluate_def Let_def eval_loop_spec start_state_def gate_disposition_def
      waiver_lookup_def)

lemma evaluate_waived:
  "gv_waived (evaluate fs p ws dg today) =
     concat (map (\<lambda>f. disp_waived f (gate_disposition p ws today f)) (sorted_findings fs))"
  by (simp add: evaluate_def Let_def eval_loop_spec start_state_def gate_disposition_def
      waiver_lookup_def)

lemma evaluate_inherited:
  "gv_inherited (evaluate fs p ws dg today) =
     filter (\<lambda>f. gate_disposition p ws today f = Inherited) (sorted_findings fs)"
  by (simp add: evaluate_def Let_def eval_loop_spec start_state_def gate_disposition_def
      waiver_lookup_def)

lemma evaluate_warnings:
  "gv_warnings (evaluate fs p ws dg today) =
     (if dg \<noteq> [] \<and> p_on_degraded p = WARN then [degraded_warning (sorted_set dg)] else [])
     @ concat (map (\<lambda>f. disp_warnings p today f (gate_disposition p ws today f))
         (sorted_findings fs))"
  by (simp add: evaluate_def Let_def eval_loop_spec start_state_def gate_disposition_def
      waiver_lookup_def)

lemma evaluate_decision:
  "gv_decision (evaluate fs p ws dg today) =
     decide (gv_violations (evaluate fs p ws dg today)) (sorted_set dg) p"
  by (simp add: evaluate_def Let_def)

lemmas evaluate_lists =
  evaluate_violations evaluate_waived evaluate_inherited evaluate_warnings

definition finding_blocks :: "policy \<Rightarrow> waiver list \<Rightarrow> date \<Rightarrow> gate_finding \<Rightarrow> bool" where
  "finding_blocks p ws today f \<longleftrightarrow> blocks_now (gate_disposition p ws today f)"

definition considered_findings ::
  "policy \<Rightarrow> waiver list \<Rightarrow> date \<Rightarrow> gate_finding list \<Rightarrow> gate_finding list" where
  "considered_findings p ws today fs =
     filter (\<lambda>f. gate_disposition p ws today f = Considered) fs"

lemma over_budget_cong: "mset fs = mset gs \<Longrightarrow> over_budget p fs s = over_budget p gs s"
  using over_budget_mono by (metis subset_mset.order_refl)

lemma over_budget_sorted:
  "over_budget p (considered_findings p ws today (sorted_findings fs)) s =
   over_budget p (considered_findings p ws today fs) s"
  by (rule over_budget_cong) (simp add: considered_findings_def)

end
