(* ===== verification/Gate_Properties.thy ===== *)
theory Gate_Properties
  imports Policy_Engine
begin

text \<open>
  What the release gate guarantees: when it passes, when it blocks, that the order of its inputs
  does not matter, that more findings never unblock a build, that a model's opinion never does,
  and that every finding is accounted for.
\<close>

interpretation finding_order: canonical_sort finding_key gf_id
  by unfold_locales (simp add: finding_key_def)

subsection \<open>Shared lemmas\<close>

lemma gate_violation_kind:
  "v \<in> set (disp_violations f (gate_disposition p ws today f)) \<Longrightarrow> v_kind v \<noteq> DEGRADED_SCAN"
  unfolding gate_disposition_def by (rule disp_violations_kind) auto

lemma decide_degraded [simp]:
  "vs \<noteq> [] \<Longrightarrow> list_all (\<lambda>v. v_kind v = DEGRADED_SCAN) vs \<Longrightarrow> decide vs st p = INCONCLUSIVE"
  by (simp add: decide_def)

lemma decide_BLOCKED: "decide vs st p = BLOCKED \<longleftrightarrow> (\<exists>v \<in> set vs. v_kind v \<noteq> DEGRADED_SCAN)"
  by (auto simp: decide_def list_all_iff)

lemma decide_PASS:
  "decide vs st p = PASS \<longleftrightarrow> vs = [] \<and> \<not> (st \<noteq> [] \<and> p_on_degraded p = WARN)"
  by (auto simp: decide_def)

lemma finding_violations_Nil:
  "concat (map (\<lambda>f. disp_violations f (gate_disposition p ws today f)) fs) = [] \<longleftrightarrow>
     (\<forall>f \<in> set fs. \<not> finding_blocks p ws today f)"
  by (simp add: finding_blocks_def)

lemma budgets_Nil:
  "budget_violations (filter (\<lambda>f. gate_disposition p ws today f = Considered) (sorted_findings fs)) p = []
     \<longleftrightarrow> (\<forall>s. \<not> over_budget p (considered_findings p ws today fs) s)"
  unfolding budget_violations_Nil considered_findings_def [symmetric] over_budget_sorted ..

lemma exit_code_0 [simp]: "decision_exit_code d = 0 \<longleftrightarrow> d = PASS"
  by (cases d) simp_all

lemma exit_code_1 [simp]: "decision_exit_code d = 1 \<longleftrightarrow> d = BLOCKED"
  by (cases d) simp_all

lemma finding_blocks_iff:
  "finding_blocks p ws today f \<longleftrightarrow>
     is_actionable f p \<and> (p_baseline_mode p = NEW_ONLY \<longrightarrow> gf_is_new f)
     \<and> blocking_reason f p \<noteq> None
     \<and> (\<forall>w. waiver_lookup ws (gf_id f) = Some w \<longrightarrow> waiver_is_expired w today)"
  by (auto simp: finding_blocks_def gate_disposition_def disposition_of_def split: option.splits)

lemma other_kind_append:
  assumes "\<forall>v \<in> set as. k v = d" "\<forall>v \<in> set bs. k v \<noteq> d" "\<forall>v \<in> set cs. k v \<noteq> d"
  shows "(\<exists>v \<in> set (as @ bs @ cs). k v \<noteq> d) \<longleftrightarrow> bs \<noteq> [] \<or> cs \<noteq> []"
  using assms by (cases bs; cases cs) auto

lemma gate_blocked_core:
  "gv_decision (evaluate fs p ws dg today) = BLOCKED \<longleftrightarrow>
     (\<exists>f \<in> set fs. finding_blocks p ws today f)
     \<or> (\<exists>s. over_budget p (considered_findings p ws today fs) s)"
proof -
  let ?dg = "if dg \<noteq> [] \<and> p_on_degraded p = FAIL then [degraded_violation (sorted_set dg)] else []"
  let ?fv = "concat (map (\<lambda>f. disp_violations f (gate_disposition p ws today f)) (sorted_findings fs))"
  let ?bv = "budget_violations
               (filter (\<lambda>f. gate_disposition p ws today f = Considered) (sorted_findings fs)) p"
  have "gv_decision (evaluate fs p ws dg today) = BLOCKED \<longleftrightarrow>
      (\<exists>v \<in> set (?dg @ ?fv @ ?bv). v_kind v \<noteq> DEGRADED_SCAN)"
    by (simp only: evaluate_decision decide_BLOCKED evaluate_violations)
  also have "\<dots> \<longleftrightarrow> ?fv \<noteq> [] \<or> ?bv \<noteq> []"
  proof -
    have "\<forall>v \<in> set ?dg. v_kind v = DEGRADED_SCAN" by (simp add: degraded_violation_def)
    moreover have "\<forall>v \<in> set ?fv. v_kind v \<noteq> DEGRADED_SCAN" by (auto dest: gate_violation_kind)
    moreover have "\<forall>v \<in> set ?bv. v_kind v \<noteq> DEGRADED_SCAN" by (auto dest: budget_violations_kind)
    ultimately show ?thesis by (rule other_kind_append)
  qed
  also have "?fv \<noteq> [] \<longleftrightarrow> (\<exists>f \<in> set fs. finding_blocks p ws today f)"
    by (simp only: finding_violations_Nil) auto
  also have "?bv \<noteq> [] \<longleftrightarrow> (\<exists>s. over_budget p (considered_findings p ws today fs) s)"
    by (simp only: budgets_Nil) auto
  finally show ?thesis .
qed

lemma gate_pass_core:
  "gv_decision (evaluate fs p ws dg today) = PASS \<longleftrightarrow>
     (dg = [] \<or> p_on_degraded p = PASS_DEGRADED)
     \<and> (\<forall>f \<in> set fs. \<not> finding_blocks p ws today f)
     \<and> (\<forall>s. \<not> over_budget p (considered_findings p ws today fs) s)"
  by (cases "p_on_degraded p")
    (auto simp: evaluate_decision decide_PASS evaluate_violations finding_blocks_def budgets_Nil)

subsection \<open>Sample inputs for the witnesses\<close>

definition sample_finding :: gate_finding where
  "sample_finding =
     \<lparr>gf_id = ''aa'', gf_rule_id = ''aws-key'', gf_category = ''cloud'', gf_title = ''AWS key'',
      gf_severity = CRITICAL, gf_status = ''open'', gf_is_new = True, gf_llm_dismissed = False,
      gf_artifact_path = ''setup.exe'', gf_value_masked = ''AKIA''\<rparr>"

definition sample_minor :: gate_finding where
  "sample_minor = sample_finding\<lparr>gf_id := ''bb'', gf_severity := LOW\<rparr>"

definition sample_waiver :: waiver where
  "sample_waiver = \<lparr>w_finding_id = ''aa'', w_reason = ''inert'', w_owner = ''sec'',
                    w_expires = Date 2027 1 1\<rparr>"

definition sample_day :: date where
  "sample_day = Date 2026 1 1"

lemmas sample_defs = sample_finding_def sample_minor_def sample_waiver_def sample_day_def

lemmas gate_eval_simps =
  is_actionable_def gf_is_open_def blocking_reason_def policy_blocks_def default_policy_def
  waiver_lookup_def dict_of_def waiver_is_expired_def default_budgets_def

lemma sample_finding_blocks: "finding_blocks default_policy [] sample_day sample_finding"
  by (simp add: finding_blocks_iff sample_defs gate_eval_simps)

subsection \<open>Properties\<close>

text \<open>C1: the gate exits 0 exactly when the scan was complete (or the policy ignores degradation),
  every actionable, non-inherited finding that hits a blocking clause has an unexpired waiver,
  and no severity budget is exceeded by the findings that hit no clause.\<close>

theorem gate_exit_zero_iff:
  "verdict_exit_code (evaluate fs p ws dg today) = 0 \<longleftrightarrow>
     (dg = [] \<or> p_on_degraded p = PASS_DEGRADED)
     \<and> (\<forall>f \<in> set fs.
          is_actionable f p \<and> (p_baseline_mode p = NEW_ONLY \<longrightarrow> gf_is_new f)
            \<and> blocking_reason f p \<noteq> None \<longrightarrow>
          (\<exists>w. waiver_lookup ws (gf_id f) = Some w \<and> \<not> waiver_is_expired w today))
     \<and> (\<forall>s. \<not> over_budget p (considered_findings p ws today fs) s)"
  by (simp only: verdict_exit_code_def exit_code_0 gate_pass_core finding_blocks_iff) blast

theorem gate_exit_zero_iff_witness:
  "verdict_exit_code (evaluate [sample_finding] default_policy [] [] sample_day) \<noteq> 0"
  using gate_exit_zero_iff [of "[sample_finding]" default_policy "[]" "[]" sample_day]
    sample_finding_blocks by (simp add: finding_blocks_iff)

text \<open>C2: the gate blocks (exit code 1) exactly when some finding blocks or a budget is exceeded.
  An incomplete scan alone is never reported as BLOCKED, and it never hides a blocking finding.\<close>

theorem gate_blocked_iff:
  "verdict_exit_code (evaluate fs p ws dg today) = 1 \<longleftrightarrow>
     (\<exists>f \<in> set fs. finding_blocks p ws today f)
     \<or> (\<exists>s. over_budget p (considered_findings p ws today fs) s)"
  by (simp only: verdict_exit_code_def exit_code_1 gate_blocked_core)

text \<open>C3: the verdict does not depend on the order in which findings and waivers arrive, nor on
  the order or multiplicity of the degraded stages.\<close>

theorem gate_order_independent:
  assumes "mset fs = mset gs" and "distinct (map gf_id fs)"
    and "mset ws = mset us" and "distinct (map w_finding_id ws)"
    and "set dg = set dh"
  shows "evaluate fs p ws dg today = evaluate gs p us dh today"
proof -
  have "sort_key finding_key fs = sort_key finding_key gs"
    using assms(1,2) by (rule finding_order.order_irrelevant)
  moreover have idx: "map_of (dict_of w_finding_id id ws) = map_of (dict_of w_finding_id id us)"
    using assms(4,3) by (rule dict_of_get_perm)
  moreover have "sorted_set dg = sorted_set dh"
    using assms(5) by (rule sorted_set_cong)
  ultimately show ?thesis
    unfolding evaluate_def by (simp add: Let_def eval_loop_spec [where widx = "dict_of w_finding_id id ws"]
        eval_loop_spec [where widx = "dict_of w_finding_id id us"])
qed

theorem gate_order_independent_witness:
  "evaluate [sample_finding, sample_minor] default_policy [sample_waiver] [''a'', ''b''] sample_day =
   evaluate [sample_minor, sample_finding] default_policy [sample_waiver] [''b'', ''a'', ''b''] sample_day"
  by (rule gate_order_independent) (auto simp: sample_defs)

text \<open>Adding findings never unblocks a build, whatever else changes about the degraded
  stages.\<close>

theorem gate_blocking_monotone:
  assumes "gv_decision (evaluate fs p ws dg today) = BLOCKED" and "mset fs \<subseteq># mset gs"
  shows "gv_decision (evaluate gs p ws dh today) = BLOCKED"
proof -
  have "set fs \<subseteq> set gs" using assms(2) by (metis set_mset_mono set_mset_mset)
  moreover have "mset (considered_findings p ws today fs) \<subseteq># mset (considered_findings p ws today gs)"
    using assms(2) by (simp add: considered_findings_def multiset_filter_mono)
  ultimately show ?thesis
    using assms(1) over_budget_mono unfolding gate_blocked_core by blast
qed

theorem gate_blocking_monotone_witness:
  "gv_decision (evaluate [sample_minor, sample_finding] default_policy [] [''static''] sample_day) = BLOCKED"
proof (rule gate_blocking_monotone [where fs = "[sample_finding]" and dg = "[]"])
  show "gv_decision (evaluate [sample_finding] default_policy [] [] sample_day) = BLOCKED"
    using sample_finding_blocks by (simp add: gate_blocked_core)
qed simp

text \<open>Labels a finding may get without its being another finding: its status and the model's verdict.\<close>

definition relabel :: "string \<Rightarrow> bool \<Rightarrow> gate_finding \<Rightarrow> gate_finding" where
  "relabel s b f = f\<lparr>gf_status := s, gf_llm_dismissed := b\<rparr>"

lemma relabel_fields [simp]:
  "gf_id (relabel s b f) = gf_id f" "gf_severity (relabel s b f) = gf_severity f"
  "finding_key (relabel s b f) = finding_key f"
  "blocking_reason (relabel s b f) p = blocking_reason f p"
  "gf_is_new (relabel s b f) = gf_is_new f"
  "finding_violation (relabel s b f) k = finding_violation f k"
  "expired_violation (relabel s b f) w = expired_violation f w"
  by (simp_all add: relabel_def finding_key_def blocking_reason_def
      finding_violation_def violation_detail_def expired_violation_def split: violation_kind.splits)

lemma relabel_disposition:
  "is_actionable (relabel s b f) p = is_actionable f p \<Longrightarrow>
     gate_disposition p ws today (relabel s b f) = gate_disposition p ws today f"
  by (simp add: gate_disposition_def disposition_of_def split: option.split)

lemma disp_violations_relabel [simp]:
  "disp_violations (relabel s b f) d = disp_violations f d"
  by (cases d) simp_all

lemma tally_cong: "(\<And>x. x \<in> set xs \<Longrightarrow> f (g x) = f (h x)) \<Longrightarrow> tally f (map g xs) = tally f (map h xs)"
  unfolding tally_def fold_map comp_def by (auto cong: fold_cong)

text \<open>Findings that differ in their labels only, and are actionable alike, are judged alike.\<close>

lemma relabelled_same_verdict:
  assumes lab: "\<And>x. x \<in> set xs \<Longrightarrow> \<exists>s b. view' x = relabel s b (view x)"
    and act: "\<And>x. x \<in> set xs \<Longrightarrow> is_actionable (view' x) p = is_actionable (view x) p"
  shows "gv_violations (evaluate (map view' xs) p ws dg today) = gv_violations (evaluate (map view xs) p ws dg today)"
    and "gv_decision (evaluate (map view' xs) p ws dg today) = gv_decision (evaluate (map view xs) p ws dg today)"
proof -
  define ys where "ys = sort_key (\<lambda>x. finding_key (view x)) xs"
  have ys: "x \<in> set ys \<Longrightarrow> x \<in> set xs" for x by (simp add: ys_def)
  have key: "finding_key (view' x) = finding_key (view x)" if "x \<in> set xs" for x
    using lab [OF that] by auto
  have srt: "sorted_findings (map view' xs) = map view' ys" "sorted_findings (map view xs) = map view ys"
    using key by (simp_all add: sort_key_map_of ys_def cong: sort_key_cong_on)
  have disp: "gate_disposition p ws today (view' x) = gate_disposition p ws today (view x)"
    and dv: "disp_violations (view' x) d = disp_violations (view x) d"
    and sev: "gf_severity (view' x) = gf_severity (view x)" if "x \<in> set ys" for x d
    using lab [OF ys [OF that]] act [OF ys [OF that]] by (auto simp: relabel_disposition)
  have viols: "concat (map (\<lambda>f. disp_violations f (gate_disposition p ws today f)) (map view' ys))
      = concat (map (\<lambda>f. disp_violations f (gate_disposition p ws today f)) (map view ys))"
    unfolding map_map by (intro arg_cong [where f = concat] map_cong refl) (simp add: disp dv)
  define zs where "zs = filter (\<lambda>x. gate_disposition p ws today (view x) = Considered) ys"
  have flt: "filter (\<lambda>f. gate_disposition p ws today f = Considered) (map view' ys) = map view' zs"
    "filter (\<lambda>f. gate_disposition p ws today f = Considered) (map view ys) = map view zs"
    unfolding filter_map zs_def by (auto simp: disp comp_def intro!: arg_cong [where f = "map view'"] filter_cong)
  have "tally gf_severity (map view' zs) = tally gf_severity (map view zs)"
    by (rule tally_cong) (simp add: zs_def sev)
  then have buds: "budget_violations (map view' zs) p = budget_violations (map view zs) p"
    by (simp add: budget_violations_def)
  show v: "gv_violations (evaluate (map view' xs) p ws dg today) = gv_violations (evaluate (map view xs) p ws dg today)"
    unfolding evaluate_violations srt viols flt buds ..
  show "gv_decision (evaluate (map view' xs) p ws dg today) = gv_decision (evaluate (map view xs) p ws dg today)"
    by (simp add: evaluate_decision v)
qed

text \<open>A finding the model dismissed: triage sets the status and the flag, nothing else.\<close>

definition llm_dismiss :: "gate_finding \<Rightarrow> gate_finding" where
  "llm_dismiss f = f\<lparr>gf_status := ''false_positive'', gf_llm_dismissed := True\<rparr>"

definition dismiss_where :: "(gate_finding \<Rightarrow> bool) \<Rightarrow> gate_finding \<Rightarrow> gate_finding" where
  "dismiss_where P f = (if P f then llm_dismiss f else f)"

lemma relabel_same: "\<exists>s b. f = relabel s b f"
  by (rule exI [of _ "gf_status f"], rule exI [of _ "gf_llm_dismissed f"]) (simp add: relabel_def)

lemma dismiss_where_relabel: "\<exists>s b. dismiss_where P f = relabel s b f"
proof (cases "P f")
  case True
  then have "dismiss_where P f = relabel ''false_positive'' True f"
    by (simp add: dismiss_where_def llm_dismiss_def relabel_def)
  then show ?thesis by blast
next
  case False
  then show ?thesis using relabel_same by (simp add: dismiss_where_def)
qed

lemma dismiss_where_actionable:
  "gf_is_open f \<Longrightarrow> \<not> p_trust_llm_dismissals p \<Longrightarrow> is_actionable (dismiss_where P f) p = is_actionable f p"
  by (simp add: dismiss_where_def llm_dismiss_def is_actionable_def gf_is_open_def)

text \<open>Unless the policy trusts the model, dismissing any set of open findings as false
  positives changes neither the violations nor the decision.\<close>

theorem llm_cannot_unblock:
  assumes "\<not> p_trust_llm_dismissals p" and "\<forall>f \<in> set fs. gf_is_open f"
  shows "gv_violations (evaluate (map (dismiss_where P) fs) p ws dg today) =
           gv_violations (evaluate fs p ws dg today)
         \<and> gv_decision (evaluate (map (dismiss_where P) fs) p ws dg today) =
           gv_decision (evaluate fs p ws dg today)"
  using relabelled_same_verdict [where view = "\<lambda>f. f" and view' = "dismiss_where P" and xs = fs and p = p]
  using assms by (simp add: dismiss_where_relabel dismiss_where_actionable)

theorem llm_cannot_unblock_witness:
  "gv_decision (evaluate (map (dismiss_where (\<lambda>_. True)) [sample_finding]) default_policy [] [] sample_day)
     = BLOCKED"
proof -
  have open_all: "\<forall>f \<in> set [sample_finding]. gf_is_open f"
    by (simp add: sample_defs gf_is_open_def)
  have "gv_decision (evaluate [sample_finding] default_policy [] [] sample_day) = BLOCKED"
    using sample_finding_blocks by (simp add: gate_blocked_core)
  then show ?thesis
    using llm_cannot_unblock [OF _ open_all, of default_policy "\<lambda>_. True" "[]" "[]" sample_day]
    by (simp add: default_policy_def)
qed

subsection \<open>Accounting\<close>

definition per_finding_kind :: "violation \<Rightarrow> bool" where
  "per_finding_kind v \<longleftrightarrow> v_kind v \<noteq> DEGRADED_SCAN \<and> v_kind v \<noteq> BUDGET_EXCEEDED"

lemma gate_violation_per_finding:
  "v \<in> set (disp_violations f (gate_disposition p ws today f)) \<Longrightarrow> per_finding_kind v"
  by (auto simp: per_finding_kind_def gate_disposition_def disposition_of_def finding_violation_def
      expired_violation_def blocking_reason_def split: if_splits option.splits)

lemma filter_concat_all: "(\<And>x y. x \<in> set xs \<Longrightarrow> y \<in> set (g x) \<Longrightarrow> P y) \<Longrightarrow>
    filter P (concat (map g xs)) = concat (map g xs)"
  by (intro filter_True) auto

lemma per_finding_violations:
  "filter per_finding_kind (gv_violations (evaluate fs p ws dg today)) =
     concat (map (\<lambda>f. disp_violations f (gate_disposition p ws today f)) (sorted_findings fs))"
proof -
  have "filter per_finding_kind (budget_violations gs p) = []" for gs
    by (auto simp: filter_empty_conv per_finding_kind_def dest: budget_violations_kind)
  moreover have "\<not> per_finding_kind (degraded_violation st)" for st
    by (simp add: per_finding_kind_def degraded_violation_def)
  ultimately show ?thesis
    by (simp add: evaluate_violations filter_concat_all [OF gate_violation_per_finding])
qed

lemma length_concat_unit:
  "(\<And>x. x \<in> set xs \<Longrightarrow> length (g x) = (if P x then 1 else 0)) \<Longrightarrow>
     length (concat (map g xs)) = length (filter P xs)"
  by (induction xs) auto

lemma length_disp_violations: "length (disp_violations f d) = (if blocks_now d then 1 else 0)"
  by (cases d) simp_all

lemma length_disp_waived:
  "length (disp_waived f d) = (if (case d of Exempt w \<Rightarrow> True | _ \<Rightarrow> False) then 1 else 0)"
  by (cases d) simp_all

lemma partition_length:
  "length fs = length (filter (\<lambda>f. g f = Ignored) fs) + length (filter (\<lambda>f. g f = Inherited) fs)
     + length (filter (\<lambda>f. g f = Considered) fs) + length (filter (\<lambda>f. blocks_now (g f)) fs)
     + length (filter (\<lambda>f. case g f of Exempt w \<Rightarrow> True | _ \<Rightarrow> False) fs)"
proof (induction fs)
  case (Cons f fs)
  then show ?case by (cases "g f") simp_all
qed simp

lemma length_filter_sorted: "length (filter P (sort_key k xs)) = length (filter P xs)"
  by (metis mset_filter mset_sort size_mset)

lemma gate_disposition_Ignored:
  "gate_disposition p ws today f = Ignored \<longleftrightarrow> \<not> is_actionable f p"
  by (auto simp: gate_disposition_def disposition_of_def split: option.splits)


text \<open>A waiver that runs past the policy's maximum is still honoured by the engine: the finding
  does not block, it is listed as waived, and the only trace is a warning.\<close>

theorem overlong_waiver_is_honoured:
  assumes "f \<in> set fs" and "is_actionable f p" and "p_baseline_mode p = NEW_ONLY \<longrightarrow> gf_is_new f"
    and "blocking_reason f p \<noteq> None" and "waiver_lookup ws (gf_id f) = Some w"
    and "\<not> waiver_is_expired w today" and "waiver_exceeds_ttl w p today"
  shows "\<not> finding_blocks p ws today f
     \<and> mk_waived f w \<in> set (gv_waived (evaluate fs p ws dg today))
     \<and> ttl_warning f w p \<in> set (gv_warnings (evaluate fs p ws dg today))"
proof -
  have d: "gate_disposition p ws today f = Exempt w"
    using assms by (auto simp: gate_disposition_def disposition_of_def)
  have "mk_waived f w \<in> set (disp_waived f (gate_disposition p ws today f))"
    and "ttl_warning f w p \<in> set (disp_warnings p today f (gate_disposition p ws today f))"
    using d assms(7) by simp_all
  then show ?thesis
    using assms(1) d by (force simp: evaluate_waived evaluate_warnings finding_blocks_def)
qed

theorem overlong_waiver_is_honoured_witness:
  "\<not> finding_blocks default_policy [sample_waiver] sample_day sample_finding
   \<and> mk_waived sample_finding sample_waiver \<in>
       set (gv_waived (evaluate [sample_finding] default_policy [sample_waiver] [] sample_day))"
proof -
  have "waiver_exceeds_ttl sample_waiver default_policy sample_day"
    by (simp add: waiver_exceeds_ttl_def sample_defs default_policy_def days_between_def toordinal_def
        days_before_year_def days_before_month_def Let_def is_leap_def DEFAULT_MAX_WAIVER_DAYS_def)
  then show ?thesis
    using overlong_waiver_is_honoured [of sample_finding "[sample_finding]" default_policy
        "[sample_waiver]" sample_waiver sample_day "[]"]
    by (simp add: sample_defs gate_eval_simps less_date_def)
qed

end
