(* ===== verification/Policy_Serde.thy ===== *)
theory Policy_Serde
  imports Gate_Properties
begin

text \<open>
  The gate verdict on the wire (\<open>core/policy/serde.py\<close>): the dictionary the API sends and the
  reader the CLI rebuilds the verdict with. The reader's failures are values: a missing key, an
  enum value or date that does not parse, a value of the wrong shape. \<open>Untyped\<close> marks payloads
  whose counts or lists hold other types than the schema's; Python would carry those unchecked.
\<close>

datatype serde_error = KeyError string | ValueError string | TypeError | Untyped

subsection \<open>Writing\<close>

definition violation_to_dict :: "violation \<Rightarrow> pyval" where
  "violation_to_dict v = PDict
     [(PStr ''kind'', PStr (kind_value (v_kind v))),
      (PStr ''detail'', PStr (v_detail v)),
      (PStr ''finding_id'', PStr (v_finding_id v)),
      (PStr ''rule_id'', PStr (v_rule_id v)),
      (PStr ''severity'', (case v_severity v of Some s \<Rightarrow> PStr (severity_value s) | None \<Rightarrow> PNone)),
      (PStr ''title'', PStr (v_title v)),
      (PStr ''artifact_path'', PStr (v_artifact_path v))]"

definition waived_to_dict :: "waived_finding \<Rightarrow> pyval" where
  "waived_to_dict w = PDict
     [(PStr ''finding_id'', PStr (wf_finding_id w)),
      (PStr ''title'', PStr (wf_title w)),
      (PStr ''severity'', PStr (severity_value (wf_severity w))),
      (PStr ''owner'', PStr (wf_owner w)),
      (PStr ''reason'', PStr (wf_reason w)),
      (PStr ''expires'', PStr (isoformat (wf_expires w)))]"

definition inherited_to_dict :: "gate_finding \<Rightarrow> pyval" where
  "inherited_to_dict f = PDict
     [(PStr ''id'', PStr (gf_id f)),
      (PStr ''rule_id'', PStr (gf_rule_id f)),
      (PStr ''category'', PStr (gf_category f)),
      (PStr ''title'', PStr (gf_title f)),
      (PStr ''severity'', PStr (severity_value (gf_severity f))),
      (PStr ''status'', PStr (gf_status f)),
      (PStr ''artifact_path'', PStr (gf_artifact_path f))]"

definition counts_to_dict :: "(string, nat) dict \<Rightarrow> pyval" where
  "counts_to_dict d = PDict (map (\<lambda>(k, n). (PStr k, PInt (int n))) d)"

definition verdict_to_dict :: "gate_verdict \<Rightarrow> (pyval \<times> pyval) list" where
  "verdict_to_dict v =
     [(PStr ''decision'', PStr (decision_value (gv_decision v))),
      (PStr ''exit_code'', PInt (verdict_exit_code v)),
      (PStr ''policy_name'', PStr (gv_policy_name v)),
      (PStr ''total_findings'', PInt (int (gv_total v))),
      (PStr ''counts_by_severity'', counts_to_dict (gv_counts v)),
      (PStr ''new_counts_by_severity'', counts_to_dict (gv_new_counts v)),
      (PStr ''degraded_stages'', PList (map PStr (gv_degraded_stages v))),
      (PStr ''warnings'', PList (map PStr (gv_warnings v))),
      (PStr ''violations'', PList (map violation_to_dict (gv_violations v))),
      (PStr ''waived'', PList (map waived_to_dict (gv_waived v))),
      (PStr ''inherited'', PList (map inherited_to_dict (gv_inherited v)))]"

subsection \<open>Reading\<close>

definition index_key :: "(pyval \<times> pyval) list \<Rightarrow> string \<Rightarrow> serde_error + pyval" where
  "index_key d k = option_to_e (KeyError k) (pd_get d k)"

fun as_dict :: "pyval \<Rightarrow> serde_error + (pyval \<times> pyval) list" where
  "as_dict (PDict d) = Inr d"
| "as_dict _ = Inl TypeError"

fun iterate :: "pyval \<Rightarrow> serde_error + pyval list" where
  "iterate (PList xs) = Inr xs"
| "iterate (PDict d) = Inr (map fst d)"
| "iterate (PStr s) = Inr (map (\<lambda>c. PStr [c]) s)"
| "iterate _ = Inl TypeError"

definition str_field :: "(pyval \<times> pyval) list \<Rightarrow> string \<Rightarrow> string \<Rightarrow> string" where
  "str_field d k dflt = py_str (pd_get_or d k (PStr dflt))"

fun severity_call :: "pyval \<Rightarrow> serde_error + severity" where
  "severity_call (PStr s) = option_to_e (ValueError s) (severity_of s)"
| "severity_call v = Inl (ValueError (py_str v))"

definition violation_from_dict :: "pyval \<Rightarrow> serde_error + violation" where
  "violation_from_dict x =
     bind_e (as_dict x) (\<lambda>d.
     bind_e (index_key d ''kind'') (\<lambda>k.
     bind_e (option_to_e (ValueError (py_str k)) (kind_of (py_str k))) (\<lambda>kind.
     bind_e (if py_truthy (pd_get_or d ''severity'' PNone)
             then bind_e (severity_call (pd_get_or d ''severity'' PNone)) (\<lambda>s. Inr (Some s))
             else Inr None) (\<lambda>sev.
     Inr \<lparr>v_kind = kind, v_detail = str_field d ''detail'' [],
          v_finding_id = str_field d ''finding_id'' [], v_rule_id = str_field d ''rule_id'' [],
          v_severity = sev, v_title = str_field d ''title'' [],
          v_artifact_path = str_field d ''artifact_path'' []\<rparr>))))"

definition waived_from_dict :: "pyval \<Rightarrow> serde_error + waived_finding" where
  "waived_from_dict x =
     bind_e (as_dict x) (\<lambda>d.
     bind_e (index_key d ''finding_id'') (\<lambda>i.
     bind_e (index_key d ''severity'') (\<lambda>s.
     bind_e (severity_call (PStr (py_str s))) (\<lambda>sev.
     bind_e (index_key d ''expires'') (\<lambda>e.
     bind_e (option_to_e (ValueError (py_str e)) (fromisoformat (py_str e))) (\<lambda>expires.
     Inr \<lparr>wf_finding_id = py_str i, wf_title = str_field d ''title'' [], wf_severity = sev,
          wf_owner = str_field d ''owner'' [], wf_reason = str_field d ''reason'' [],
          wf_expires = expires\<rparr>))))))"

definition inherited_from_dict :: "pyval \<Rightarrow> serde_error + gate_finding" where
  "inherited_from_dict x =
     bind_e (as_dict x) (\<lambda>d.
     bind_e (index_key d ''id'') (\<lambda>i.
     bind_e (index_key d ''severity'') (\<lambda>s.
     bind_e (severity_call (PStr (py_str s))) (\<lambda>sev.
     Inr \<lparr>gf_id = py_str i, gf_rule_id = str_field d ''rule_id'' [],
          gf_category = str_field d ''category'' [], gf_title = str_field d ''title'' [],
          gf_severity = sev, gf_status = str_field d ''status'' ''open'', gf_is_new = False,
          gf_llm_dismissed = False, gf_artifact_path = str_field d ''artifact_path'' [],
          gf_value_masked = []\<rparr>))))"

fun count_entry :: "pyval \<times> pyval \<Rightarrow> serde_error + string \<times> nat" where
  "count_entry (PStr k, PInt n) = (if 0 \<le> n then Inr (k, nat n) else Inl Untyped)"
| "count_entry _ = Inl Untyped"

definition counts_from :: "(pyval \<times> pyval) list \<Rightarrow> string \<Rightarrow> serde_error + (string, nat) dict" where
  "counts_from d k = bind_e (as_dict (pd_get_or d k (PDict []))) (map_e count_entry)"

fun as_str :: "pyval \<Rightarrow> serde_error + string" where
  "as_str (PStr s) = Inr s"
| "as_str _ = Inl Untyped"

definition strings_from :: "(pyval \<times> pyval) list \<Rightarrow> string \<Rightarrow> serde_error + string list" where
  "strings_from d k = bind_e (iterate (pd_get_or d k (PList []))) (map_e as_str)"

definition items_from ::
  "(pyval \<Rightarrow> serde_error + 'a) \<Rightarrow> (pyval \<times> pyval) list \<Rightarrow> string \<Rightarrow> serde_error + 'a list" where
  "items_from f d k = bind_e (iterate (pd_get_or d k (PList []))) (map_e f)"

definition total_from :: "(pyval \<times> pyval) list \<Rightarrow> serde_error + nat" where
  "total_from d =
     (case py_int (pd_get_or d ''total_findings'' (PInt 0)) of
        None \<Rightarrow> Inl TypeError
      | Some n \<Rightarrow> if 0 \<le> n then Inr (nat n) else Inl Untyped)"

definition verdict_from_dict :: "(pyval \<times> pyval) list \<Rightarrow> serde_error + gate_verdict" where
  "verdict_from_dict d =
     bind_e (index_key d ''decision'') (\<lambda>dv.
     bind_e (option_to_e (ValueError (py_str dv)) (decision_of (py_str dv))) (\<lambda>decision.
     bind_e (items_from violation_from_dict d ''violations'') (\<lambda>violations.
     bind_e (items_from waived_from_dict d ''waived'') (\<lambda>waived.
     bind_e (items_from inherited_from_dict d ''inherited'') (\<lambda>inherited.
     bind_e (strings_from d ''degraded_stages'') (\<lambda>stages.
     bind_e (counts_from d ''counts_by_severity'') (\<lambda>counts.
     bind_e (counts_from d ''new_counts_by_severity'') (\<lambda>new_counts.
     bind_e (total_from d) (\<lambda>total.
     bind_e (strings_from d ''warnings'') (\<lambda>warnings.
     Inr \<lparr>gv_decision = decision, gv_policy_name = str_field d ''policy_name'' ''unknown'',
          gv_violations = violations, gv_waived = waived, gv_inherited = inherited,
          gv_degraded_stages = stages, gv_counts = counts, gv_new_counts = new_counts,
          gv_total = total, gv_warnings = warnings\<rparr>))))))))))"

subsection \<open>Round trip\<close>

text \<open>What of an inherited finding survives: not the newness flag (inherited findings are not new),
  not the model's flag, not the masked value.\<close>

definition wire_finding :: "gate_finding \<Rightarrow> gate_finding" where
  "wire_finding f = f\<lparr>gf_is_new := False, gf_llm_dismissed := False, gf_value_masked := []\<rparr>"

definition wire_verdict :: "gate_verdict \<Rightarrow> gate_verdict" where
  "wire_verdict v = v\<lparr>gv_inherited := map wire_finding (gv_inherited v)\<rparr>"

named_theorems serde_simps \<open>reading what was written\<close>

lemma severity_value_nonempty [simp]: "severity_value s \<noteq> []"
  by (cases s) simp_all

lemma violation_roundtrip [serde_simps]: "violation_from_dict (violation_to_dict v) = Inr v"
  by (cases "v_severity v")
    (simp_all add: violation_from_dict_def violation_to_dict_def index_key_def str_field_def dict_simps)

lemma waived_roundtrip [serde_simps]:
  "valid_date (wf_expires w) \<Longrightarrow> waived_from_dict (waived_to_dict w) = Inr w"
  by (simp add: waived_from_dict_def waived_to_dict_def index_key_def str_field_def dict_simps
      fromisoformat_isoformat)

lemma inherited_roundtrip [serde_simps]:
  "inherited_from_dict (inherited_to_dict f) = Inr (wire_finding f)"
  by (simp add: inherited_from_dict_def inherited_to_dict_def index_key_def str_field_def dict_simps
      wire_finding_def)

lemma map_e_written: "(\<And>x. x \<in> set xs \<Longrightarrow> f (g x) = Inr (h x)) \<Longrightarrow> map_e f (map g xs) = Inr (map h xs)"
  by (induction xs) auto

lemma counts_roundtrip [serde_simps]: "map_e count_entry (map (\<lambda>(k, n). (PStr k, PInt (int n))) d) = Inr d"
  using map_e_written [of d count_entry "\<lambda>(k, n). (PStr k, PInt (int n))" id] by (auto simp: case_prod_beta)

lemma strings_roundtrip [serde_simps]: "map_e as_str (map PStr xs) = Inr xs"
  using map_e_written [of xs as_str PStr id] by simp

lemma verdict_roundtrip_core:
  assumes "\<forall>w \<in> set (gv_waived v). valid_date (wf_expires w)"
  shows "verdict_from_dict (verdict_to_dict v) = Inr (wire_verdict v)"
proof -
  let ?d = "verdict_to_dict v"
  have viol: "items_from violation_from_dict ?d ''violations'' = Inr (gv_violations v)"
    using map_e_written [of "gv_violations v" violation_from_dict violation_to_dict id]
    by (simp add: items_from_def verdict_to_dict_def dict_simps serde_simps)
  have waived: "items_from waived_from_dict ?d ''waived'' = Inr (gv_waived v)"
    using assms map_e_written [of "gv_waived v" waived_from_dict waived_to_dict id]
    by (simp add: items_from_def verdict_to_dict_def dict_simps serde_simps)
  have inh: "items_from inherited_from_dict ?d ''inherited'' = Inr (map wire_finding (gv_inherited v))"
    using map_e_written [of "gv_inherited v" inherited_from_dict inherited_to_dict wire_finding]
    by (simp add: items_from_def verdict_to_dict_def dict_simps serde_simps)
  have strs: "strings_from ?d ''degraded_stages'' = Inr (gv_degraded_stages v)"
    "strings_from ?d ''warnings'' = Inr (gv_warnings v)"
    by (simp_all add: strings_from_def verdict_to_dict_def dict_simps serde_simps)
  have cnts: "counts_from ?d ''counts_by_severity'' = Inr (gv_counts v)"
    "counts_from ?d ''new_counts_by_severity'' = Inr (gv_new_counts v)"
    by (simp_all add: counts_from_def verdict_to_dict_def dict_simps counts_to_dict_def serde_simps)
  have rest: "index_key ?d ''decision'' = Inr (PStr (decision_value (gv_decision v)))"
    "total_from ?d = Inr (gv_total v)" "str_field ?d ''policy_name'' ''unknown'' = gv_policy_name v"
    by (simp_all add: index_key_def total_from_def str_field_def verdict_to_dict_def dict_simps)
  show ?thesis
    by (simp add: verdict_from_dict_def viol waived inh strs cnts rest wire_verdict_def)
qed

subsection \<open>Properties\<close>

text \<open>The CLI rebuilds from the wire the verdict the API computed: same decision, violations,
  waivers, stages, counts and warnings; inherited findings lose only the flags and the masked
  value that are not sent.\<close>

theorem verdict_wire_roundtrip:
  assumes "\<forall>w \<in> set (gv_waived v). valid_date (wf_expires w)"
  shows "verdict_from_dict (verdict_to_dict v) = Inr (wire_verdict v)"
  using assms by (rule verdict_roundtrip_core)

theorem verdict_wire_roundtrip_witness:
  "verdict_from_dict (verdict_to_dict
     (evaluate [sample_finding] default_policy [sample_waiver] [''static (failed)''] sample_day))
   = Inr (wire_verdict
     (evaluate [sample_finding] default_policy [sample_waiver] [''static (failed)''] sample_day))"
proof (rule verdict_wire_roundtrip)
  have d: "gate_disposition default_policy [sample_waiver] sample_day sample_finding = Exempt sample_waiver"
    by (simp add: gate_disposition_def disposition_of_def sample_defs gate_eval_simps less_date_def)
  have valid: "valid_date (w_expires sample_waiver)"
    by (simp add: sample_waiver_def valid_date_def days_in_month_def)
  show "\<forall>w \<in> set (gv_waived (evaluate [sample_finding] default_policy [sample_waiver]
      [''static (failed)''] sample_day)). valid_date (wf_expires w)"
    using valid by (simp add: evaluate_waived d mk_waived_def)
qed

lemma wire_decision [simp]: "gv_decision (wire_verdict v) = gv_decision v"
  by (simp add: wire_verdict_def)

text \<open>A payload the reader accepts carries one of the three decisions under its key, and the
  process exit code computed from the rebuilt verdict is that decision's; a payload without a
  decision is refused.\<close>

theorem verdict_decision_is_read:
  "(case verdict_from_dict d of
      Inl _ \<Rightarrow> True
    | Inr v \<Rightarrow> map_option py_str (pd_get d ''decision'') = Some (decision_value (gv_decision v)))
   \<and> (pd_get d ''decision'' = None \<longrightarrow> verdict_from_dict d = Inl (KeyError ''decision''))"
proof -
  have dec: "decision_of s = Some x \<Longrightarrow> s = decision_value x" for s x
    by (auto simp: decision_of_def split: if_splits)
  show ?thesis
    by (cases "pd_get d ''decision''")
      (auto simp: verdict_from_dict_def index_key_def err_simps dec split: sum.splits)
qed

theorem verdict_decision_is_read_witness:
  "verdict_from_dict [] = Inl (KeyError ''decision'')"
  using verdict_decision_is_read [of "[]"] by (simp add: dict_simps)

end
