(* ===== verification/Policy_Loader.thy ===== *)
theory Policy_Loader
  imports Gate_Properties
begin

text \<open>
  Loading policies and waivers (\<open>core/policy/loader.py\<close>). The YAML parser is third-party code, so
  documents enter as values; \<open>load_policy\<close> and \<open>load_waivers\<close> take it as a parameter. Every
  \<open>PolicyLoadError\<close> of the source is a constructor of \<open>load_error\<close>; the two exceptions that
  escape \<open>int(data["version"])\<close> are constructors of their own.
\<close>

datatype load_error =
    NotAMapping string string
  | UnknownSeverity string pyval
  | NotAList string
  | UnknownBudget pyval
  | BudgetNotInteger string
  | BudgetTooSmall string
  | UnsupportedVersion int
  | BadBaselineMode string
  | BadDegradedPosture string
  | MaxTtlNotInteger
  | MaxTtlNotPositive
  | BadDate pyval
  | WaiversNotAList
  | IdRequired nat
  | DuplicateWaiver nat string
  | ReasonRequired nat
  | OwnerRequired nat
  | ExpiresRequired nat
  | MissingFile
  | BadYaml
  | PyValueError
  | PyTypeError

definition require_mapping :: "pyval \<Rightarrow> string \<Rightarrow> load_error + (pyval \<times> pyval) list" where
  "require_mapping raw what =
     (case raw of PNone \<Rightarrow> Inr [] | PDict d \<Rightarrow> Inr d | _ \<Rightarrow> Inl (NotAMapping what (type_name raw)))"

definition norm_text :: "pyval \<Rightarrow> string" where
  "norm_text v = py_lower (py_strip (py_str v))"

definition load_severity :: "pyval \<Rightarrow> string \<Rightarrow> load_error + severity" where
  "load_severity v field = option_to_e (UnknownSeverity field v) (severity_of (norm_text v))"

definition str_set :: "pyval \<Rightarrow> string \<Rightarrow> load_error + string set" where
  "str_set raw field =
     (case raw of
        PNone \<Rightarrow> Inr {}
      | PList items \<Rightarrow> Inr (set (filter (\<lambda>s. s \<noteq> []) (map (\<lambda>i. py_strip (py_str i)) items)))
      | _ \<Rightarrow> Inl (NotAList field))"

fun set_budget :: "budgets \<Rightarrow> severity \<Rightarrow> int \<Rightarrow> budgets" where
  "set_budget b CRITICAL n = b\<lparr>b_critical := n\<rparr>"
| "set_budget b HIGH n = b\<lparr>b_high := n\<rparr>"
| "set_budget b MEDIUM n = b\<lparr>b_medium := n\<rparr>"
| "set_budget b LOW n = b\<lparr>b_low := n\<rparr>"
| "set_budget b INFO n = b\<lparr>b_info := n\<rparr>"

fun load_budget_items :: "(pyval \<times> pyval) list \<Rightarrow> budgets \<Rightarrow> load_error + budgets" where
  "load_budget_items [] b = Inr b"
| "load_budget_items ((k, v) # rest) b =
     bind_e (option_to_e (UnknownBudget k) (severity_of (norm_text k))) (\<lambda>s.
     bind_e (option_to_e (BudgetNotInteger (norm_text k)) (py_int v)) (\<lambda>limit.
     bind_e (require (\<not> limit < UNLIMITED) (BudgetTooSmall (norm_text k))) (\<lambda>_.
     load_budget_items rest (set_budget b s limit))))"

definition load_budgets :: "pyval \<Rightarrow> load_error + budgets" where
  "load_budgets raw =
     bind_e (require_mapping raw ''budgets'') (\<lambda>d. load_budget_items d default_budgets)"

definition load_version :: "pyval \<Rightarrow> load_error + int" where
  "load_version v =
     (case py_int v of
        Some i \<Rightarrow> Inr i
      | None \<Rightarrow> (case v of PStr s \<Rightarrow> Inl PyValueError | _ \<Rightarrow> Inl PyTypeError))"

definition load_floor :: "pyval \<Rightarrow> load_error + severity option" where
  "load_floor raw =
     (if raw = PNone \<or> norm_text raw \<in> {''none'', ''off'', ''''} then Inr None
      else bind_e (load_severity raw ''block.severity_at_or_above'') (\<lambda>s. Inr (Some s)))"

definition load_mode :: "pyval \<Rightarrow> load_error + baseline_mode" where
  "load_mode raw = option_to_e (BadBaselineMode (norm_text raw)) (mode_of (norm_text raw))"

definition load_posture :: "pyval \<Rightarrow> load_error + degraded_posture" where
  "load_posture raw = option_to_e (BadDegradedPosture (norm_text raw)) (posture_of (norm_text raw))"

definition load_max_days :: "pyval \<Rightarrow> load_error + int" where
  "load_max_days raw =
     bind_e (option_to_e MaxTtlNotInteger (py_int raw)) (\<lambda>n.
     bind_e (require (n > 0) MaxTtlNotPositive) (\<lambda>_. Inr n))"

definition parse_policy :: "(pyval \<times> pyval) list \<Rightarrow> load_error + policy" where
  "parse_policy data =
     bind_e (load_version (pd_get_or data ''version'' (PInt 1))) (\<lambda>version.
     bind_e (require (version = 1) (UnsupportedVersion version)) (\<lambda>_.
     bind_e (require_mapping (pd_get_or data ''block'' PNone) ''block'') (\<lambda>block.
     bind_e (load_floor (pd_get_or block ''severity_at_or_above'' (PStr ''high''))) (\<lambda>bar.
     bind_e (require_mapping (pd_get_or data ''baseline'' PNone) ''baseline'') (\<lambda>baseline.
     bind_e (load_mode (pd_get_or baseline ''mode'' (PStr ''new_only''))) (\<lambda>mode.
     bind_e (load_posture (pd_get_or data ''on_degraded'' (PStr ''fail''))) (\<lambda>degraded.
     bind_e (require_mapping (pd_get_or data ''waivers'' PNone) ''waivers'') (\<lambda>waivers_cfg.
     bind_e (load_max_days (pd_get_or waivers_cfg ''max_ttl_days'' (PInt 90))) (\<lambda>max_days.
     bind_e (str_set (pd_get_or block ''categories'' PNone) ''block.categories'') (\<lambda>categories.
     bind_e (str_set (pd_get_or block ''rules'' PNone) ''block.rules'') (\<lambda>rules.
     bind_e (load_budgets (pd_get_or data ''budgets'' PNone)) (\<lambda>bs.
     (let name = py_strip (py_str (pd_get_or data ''name'' (PStr ''default''))) in
      Inr \<lparr>p_name = (if name \<noteq> [] then name else ''default''), p_version = version,
           p_block_at_or_above = bar, p_block_categories = categories, p_block_rules = rules,
           p_budgets = bs, p_baseline_mode = mode, p_on_degraded = degraded,
           p_trust_llm_dismissals = py_truthy (pd_get_or data ''trust_llm_dismissals'' (PBool False)),
           p_max_waiver_days = max_days,
           p_require_waiver_owner = py_truthy (pd_get_or waivers_cfg ''require_owner'' (PBool True)),
           p_require_waiver_reason = py_truthy (pd_get_or waivers_cfg ''require_reason'' (PBool True))\<rparr>)
     ))))))))))))"

text \<open>A file is its text, or \<open>None\<close> when \<open>path.is_file()\<close> is false; \<open>yaml\<close> is
  \<open>yaml.safe_load\<close>, with \<open>None\<close> for a \<open>YAMLError\<close>.\<close>

definition load_policy ::
  "(string \<Rightarrow> pyval option) \<Rightarrow> string \<Rightarrow> string option \<Rightarrow> load_error + policy" where
  "load_policy yaml path file =
     bind_e (option_to_e MissingFile file) (\<lambda>text.
     bind_e (option_to_e BadYaml (yaml text)) (\<lambda>raw.
     bind_e (require_mapping raw path) parse_policy))"

definition parse_date_value :: "pyval \<Rightarrow> load_error + date" where
  "parse_date_value v =
     (case v of
        PDateTime d t r \<Rightarrow> Inr d
      | PDate d \<Rightarrow> Inr d
      | _ \<Rightarrow> option_to_e (BadDate v) (fromisoformat (py_strip (py_str v))))"

definition parse_waiver_entry ::
  "policy \<Rightarrow> string \<Rightarrow> nat \<Rightarrow> string set \<Rightarrow> pyval \<Rightarrow> load_error + waiver" where
  "parse_waiver_entry p source i seen entry =
     bind_e (require_mapping entry (source @ '': waivers['' @ show_nat i @ '']'')) (\<lambda>item.
     (let finding_id = py_strip (py_str (pd_get_or item ''finding_id'' (PStr [])));
          reason = py_strip (py_str (pd_get_or item ''reason'' (PStr [])));
          owner = py_strip (py_str (pd_get_or item ''owner'' (PStr [])))
      in
      bind_e (require (finding_id \<noteq> []) (IdRequired i)) (\<lambda>_.
      bind_e (require (finding_id \<notin> seen) (DuplicateWaiver i finding_id)) (\<lambda>_.
      bind_e (require (\<not> (p_require_waiver_reason p \<and> reason = [])) (ReasonRequired i)) (\<lambda>_.
      bind_e (require (\<not> (p_require_waiver_owner p \<and> owner = [])) (OwnerRequired i)) (\<lambda>_.
      bind_e (require (pd_get_or item ''expires'' PNone \<notin> {PNone, PStr []}) (ExpiresRequired i)) (\<lambda>_.
      bind_e (parse_date_value (pd_get_or item ''expires'' PNone)) (\<lambda>expires.
      Inr \<lparr>w_finding_id = finding_id, w_reason = reason, w_owner = owner, w_expires = expires\<rparr>))))))))"

fun parse_entries ::
  "policy \<Rightarrow> string \<Rightarrow> nat \<Rightarrow> string set \<Rightarrow> pyval list \<Rightarrow> load_error + waiver list" where
  "parse_entries p source i seen [] = Inr []"
| "parse_entries p source i seen (e # es) =
     bind_e (parse_waiver_entry p source i seen e) (\<lambda>w.
     bind_e (parse_entries p source (Suc i) (insert (w_finding_id w) seen) es) (\<lambda>ws.
     Inr (w # ws)))"

definition waiver_key :: "waiver \<Rightarrow> date \<times> string" where
  "waiver_key w = (w_expires w, w_finding_id w)"

definition parse_waivers ::
  "(pyval \<times> pyval) list \<Rightarrow> policy \<Rightarrow> string \<Rightarrow> load_error + waiver list" where
  "parse_waivers data p source =
     (case pd_get_or data ''waivers'' (PList []) of
        PNone \<Rightarrow> Inr []
      | PList entries \<Rightarrow>
          bind_e (parse_entries p source 0 {} entries) (\<lambda>ws. Inr (sort_key waiver_key ws))
      | _ \<Rightarrow> Inl WaiversNotAList)"

definition load_waivers ::
  "(string \<Rightarrow> pyval option) \<Rightarrow> string \<Rightarrow> string option \<Rightarrow> policy \<Rightarrow> load_error + waiver list" where
  "load_waivers yaml path file p =
     (case file of
        None \<Rightarrow> Inr []
      | Some text \<Rightarrow>
          bind_e (option_to_e BadYaml (yaml text)) (\<lambda>raw.
          bind_e (require_mapping raw path) (\<lambda>d. parse_waivers d p path)))"

text \<open>\<open>discover_policy\<close>: a directory is the list of its components; the nearest directory at or
  above the start that holds the policy file wins. \<open>holds\<close> is \<open>is_file\<close> on
  \<open>candidate / ".bare" / "policy.yaml"\<close>; a start that is a file begins at its parent.\<close>

fun ancestors :: "string list \<Rightarrow> string list list" where
  "ancestors [] = [[]]"
| "ancestors (d # ds) = map ((#) d) (ancestors ds) @ [[]]"

definition discover_policy ::
  "(string list \<Rightarrow> bool) \<Rightarrow> (string list \<Rightarrow> bool) \<Rightarrow> string list \<Rightarrow> string list option" where
  "discover_policy is_file holds start =
     List.find holds (ancestors (if is_file start then butlast start else start))"

subsection \<open>Shared lemmas\<close>

interpretation waiver_order: canonical_sort waiver_key w_finding_id
  by unfold_locales (simp add: waiver_key_def)

lemma limit_for_set_budget: "limit_for (set_budget b s' n) s = (if s = s' then n else limit_for b s)"
  by (cases s'; cases s) simp_all

lemma load_budget_items_ge:
  "load_budget_items d b = Inr b' \<Longrightarrow> (\<forall>s. UNLIMITED \<le> limit_for b s) \<Longrightarrow> UNLIMITED \<le> limit_for b' s"
proof (induction d arbitrary: b)
  case (Cons kv rest)
  obtain k v where kv: "kv = (k, v)" by fastforce
  with Cons.prems(1) obtain sv n where n: "\<not> n < UNLIMITED"
    and rest: "load_budget_items rest (set_budget b sv n) = Inr b'"
    by (auto simp: err_simps)
  from n Cons.prems(2) have "\<forall>s. UNLIMITED \<le> limit_for (set_budget b sv n) s"
    by (simp add: limit_for_set_budget)
  with rest show ?case by (rule Cons.IH)
qed simp

lemma default_budgets_ge: "UNLIMITED \<le> limit_for default_budgets s"
  by (cases s) (simp_all add: default_budgets_def)

definition waiver_complete :: "policy \<Rightarrow> waiver \<Rightarrow> bool" where
  "waiver_complete p w \<longleftrightarrow> w_finding_id w \<noteq> []
     \<and> (p_require_waiver_reason p \<longrightarrow> w_reason w \<noteq> [])
     \<and> (p_require_waiver_owner p \<longrightarrow> w_owner w \<noteq> [])"

lemma parse_waiver_entry_Inr:
  "parse_waiver_entry p source i seen e = Inr w \<Longrightarrow>
     waiver_complete p w \<and> w_finding_id w \<notin> seen"
  by (auto simp: parse_waiver_entry_def waiver_complete_def Let_def err_simps)

lemma parse_entries_Inr:
  "parse_entries p source i seen es = Inr ws \<Longrightarrow>
     length ws = length es \<and> (\<forall>w \<in> set ws. waiver_complete p w)
     \<and> distinct (map w_finding_id ws) \<and> w_finding_id ` set ws \<inter> seen = {}"
proof (induction es arbitrary: i seen ws)
  case (Cons e es)
  then obtain w us where w: "parse_waiver_entry p source i seen e = Inr w"
    and us: "parse_entries p source (Suc i) (insert (w_finding_id w) seen) es = Inr us"
    and "ws = w # us"
    by (auto simp: err_simps)
  with Cons.IH [OF us] parse_waiver_entry_Inr [OF w] show ?case by auto
qed simp

definition policy_wf :: "policy \<Rightarrow> bool" where
  "policy_wf p \<longleftrightarrow> p_version p = 1 \<and> p_name p \<noteq> [] \<and> 0 < p_max_waiver_days p
     \<and> (\<forall>s. UNLIMITED \<le> limit_for (p_budgets p) s)
     \<and> [] \<notin> p_block_categories p \<and> [] \<notin> p_block_rules p"

lemma str_set_nonempty: "str_set raw f = Inr S \<Longrightarrow> [] \<notin> S"
  by (auto simp: str_set_def split: pyval.splits)

lemma load_budgets_ge: "load_budgets raw = Inr b \<Longrightarrow> \<forall>s. UNLIMITED \<le> limit_for b s"
  by (auto simp: load_budgets_def err_simps intro: load_budget_items_ge default_budgets_ge)

lemma load_max_days_pos: "load_max_days raw = Inr n \<Longrightarrow> 0 < n"
  by (auto simp: load_max_days_def err_simps)

subsection \<open>Properties\<close>

text \<open>C5: an accepted policy is well formed: version 1, a name, a positive waiver limit, budgets that
  are a count or unlimited, and no empty rule or category name.\<close>

theorem parse_policy_wf:
  assumes "parse_policy data = Inr p"
  shows "policy_wf p"
  using assms
  by (auto simp: parse_policy_def policy_wf_def err_simps Let_def
      dest: load_budgets_ge load_max_days_pos str_set_nonempty split: if_splits)

theorem parse_policy_wf_witness: "policy_wf default_policy"
proof (rule parse_policy_wf)
  show "parse_policy [] = Inr default_policy"
    by (simp add: parse_policy_def dict_simps load_version_def require_mapping_def load_floor_def
        load_severity_def norm_text_def load_mode_def load_posture_def load_max_days_def str_set_def
        load_budgets_def default_policy_def DEFAULT_MAX_WAIVER_DAYS_def py_lower_def py_strip_def
        py_space_def lower_char_def severity_of_def mode_of_def posture_of_def Let_def)
qed

text \<open>An empty policy document is the shipping recommendation: block at high and above, compare
  against the baseline, fail closed on a degraded scan, do not trust the model.\<close>

theorem empty_policy_is_default: "parse_policy [] = Inr default_policy"
  by (simp add: parse_policy_def dict_simps load_version_def require_mapping_def load_floor_def
      load_severity_def norm_text_def load_mode_def load_posture_def load_max_days_def str_set_def
      load_budgets_def default_policy_def DEFAULT_MAX_WAIVER_DAYS_def py_lower_def py_strip_def
      py_space_def lower_char_def severity_of_def mode_of_def posture_of_def Let_def)

text \<open>C6: an accepted waiver file gives one waiver per entry, none dropped and none half filled, with
  distinct finding ids, in order of expiry.\<close>

theorem parse_waivers_complete:
  assumes "parse_waivers data p source = Inr ws"
    and "pd_get_or data ''waivers'' (PList []) = PList entries"
  shows "length ws = length entries \<and> (\<forall>w \<in> set ws. waiver_complete p w)
     \<and> distinct (map w_finding_id ws) \<and> sorted (map waiver_key ws)"
proof -
  from assms obtain us where us: "parse_entries p source 0 {} entries = Inr us"
    and ws: "ws = sort_key waiver_key us"
    by (auto simp: parse_waivers_def err_simps)
  from parse_entries_Inr [OF us] show ?thesis
    by (simp add: ws waiver_order.sorted_idents_distinct)
qed

definition sample_entry :: pyval where
  "sample_entry = PDict [(PStr ''finding_id'', PStr ''aa''), (PStr ''reason'', PStr ''inert''),
     (PStr ''owner'', PStr ''sec''), (PStr ''expires'', PDate (Date 2027 1 1))]"

theorem parse_waivers_complete_witness:
  "parse_waivers [(PStr ''waivers'', PList [sample_entry])] default_policy ''w'' = Inr [sample_waiver]
   \<and> length [sample_waiver] = length [sample_entry]"
proof -
  have "parse_waivers [(PStr ''waivers'', PList [sample_entry])] default_policy ''w'' = Inr [sample_waiver]"
    by (simp add: parse_waivers_def dict_simps parse_waiver_entry_def sample_entry_def
        require_mapping_def py_strip_def py_space_def parse_date_value_def sample_waiver_def Let_def)
  then show ?thesis
    using parse_waivers_complete [of "[(PStr ''waivers'', PList [sample_entry])]" default_policy "''w''"
        "[sample_waiver]" "[sample_entry]"] by (simp add: dict_simps)
qed

text \<open>A policy whose version is text that is no number does not fail with a \<open>PolicyLoadError\<close>:
  the \<open>ValueError\<close> of \<open>int()\<close> escapes the loader.\<close>

theorem bad_version_escapes:
  assumes "parse_int s = None"
  shows "parse_policy [(PStr ''version'', PStr s)] = Inl PyValueError"
  using assms by (simp add: parse_policy_def load_version_def dict_simps)

theorem bad_version_escapes_witness:
  "parse_policy [(PStr ''version'', PStr ''one'')] = Inl PyValueError"
  by (rule bad_version_escapes)
    (simp add: parse_int_def py_strip_def py_space_def parse_digits_def is_digit_def Let_def)

text \<open>The unquoted YAML word \<open>off\<close> arrives as the boolean False and is refused, although the text
  \<open>off\<close> is the documented way to disable the severity floor.\<close>

theorem floor_off_unquoted:
  "load_floor (PBool False) = Inl (UnknownSeverity ''block.severity_at_or_above'' (PBool False))
   \<and> load_floor (PStr ''off'') = Inr None"
  by (simp add: load_floor_def load_severity_def norm_text_def py_lower_def py_strip_def py_space_def
      lower_char_def severity_of_def Let_def)

end
