(* ===== verification/Policy_Waive.thy ===== *)
theory Policy_Waive
  imports Policy_Loader
begin

text \<open>
  Writing waivers (\<open>core/policy/waive.py\<close>): the expiry argument, validation against the policy,
  the rendered entry, and appending it to the reviewed YAML text under the check that the result
  loads as exactly the old waivers plus the new one. The YAML parser is a parameter.
\<close>

datatype waive_error =
    BadExpiry string
  | ExpiryOverflow
  | ShortenedId string
  | NotAnId string
  | ReasonMissing
  | OwnerMissing
  | ExpiryInPast date
  | ExpiryTooFar date int
  | AlreadyWaived string
  | UnsafeLayout
  | DocumentUnreadable
  | YamlErrorEscapes
  | NotWaiverMapping
  | ExistingInvalid load_error

definition FINDING_ID_LENGTH :: nat where
  "FINDING_ID_LENGTH = 32"

definition is_lower_hex :: "char \<Rightarrow> bool" where
  "is_lower_hex c \<longleftrightarrow> is_digit c \<or> (97 \<le> (of_char c :: nat) \<and> (of_char c :: nat) \<le> 102)"

definition is_finding_id :: "string \<Rightarrow> bool" where
  "is_finding_id s \<longleftrightarrow> length s = FINDING_ID_LENGTH \<and> list_all is_lower_hex s"

definition is_id_prefix :: "string \<Rightarrow> bool" where
  "is_id_prefix s \<longleftrightarrow> 1 \<le> length s \<and> length s \<le> FINDING_ID_LENGTH - 1 \<and> list_all is_lower_hex s"

definition parse_expiry :: "string \<Rightarrow> date \<Rightarrow> waive_error + date" where
  "parse_expiry text today =
     (let value = py_lower (py_strip text) in
      if value \<noteq> [] \<and> last value = CHR ''d'' \<and> parse_nat (butlast value) \<noteq> None
      then option_to_e ExpiryOverflow (add_days today (int (the (parse_nat (butlast value)))))
      else option_to_e (BadExpiry text) (fromisoformat value))"

definition build_waiver ::
  "string \<Rightarrow> string \<Rightarrow> string \<Rightarrow> date \<Rightarrow> policy \<Rightarrow> date \<Rightarrow> waive_error + waiver" where
  "build_waiver finding_id reason owner expires p today =
     (let normalised = py_lower (py_strip finding_id) in
      bind_e (if is_finding_id normalised then Inr ()
              else if is_id_prefix normalised then Inl (ShortenedId finding_id)
              else Inl (NotAnId finding_id)) (\<lambda>_.
      (let reason = py_strip reason; owner = py_strip owner in
      bind_e (require (\<not> (p_require_waiver_reason p \<and> reason = [])) ReasonMissing) (\<lambda>_.
      bind_e (require (\<not> (p_require_waiver_owner p \<and> owner = [])) OwnerMissing) (\<lambda>_.
      bind_e (require (\<not> expires < today) (ExpiryInPast expires)) (\<lambda>_.
      bind_e (require (\<not> days_between expires today > p_max_waiver_days p)
                (ExpiryTooFar expires (days_between expires today))) (\<lambda>_.
      Inr \<lparr>w_finding_id = normalised, w_reason = reason, w_owner = owner, w_expires = expires\<rparr>)))))))"

subsection \<open>Rendering\<close>

text \<open>\<open>json.dumps(value, ensure_ascii=False)\<close>.\<close>

definition json_char :: "char \<Rightarrow> string" where
  "json_char c =
     (let n = (of_char c :: nat) in
      if n = 34 \<or> n = 92 then [CHR 0x5C, c]
      else if n = 10 then [CHR 0x5C, CHR ''n'']
      else if n = 13 then [CHR 0x5C, CHR ''r'']
      else if n = 9 then [CHR 0x5C, CHR ''t'']
      else if n = 12 then [CHR 0x5C, CHR ''f'']
      else if n = 8 then [CHR 0x5C, CHR ''b'']
      else if n < 32 then [CHR 0x5C, CHR ''u'', CHR ''0'', CHR ''0'', hex_digit (n div 16), hex_digit (n mod 16)]
      else [c])"

definition yaml_scalar :: "string \<Rightarrow> string" where
  "yaml_scalar s = [CHR 0x22] @ concat (map json_char s) @ [CHR 0x22]"

abbreviation newline :: string where
  "newline \<equiv> [CHR 0x0A]"

definition render_entry :: "string \<Rightarrow> waiver \<Rightarrow> string" where
  "render_entry indent w =
     (let inner = indent @ ''  '' in
      indent @ ''- finding_id: '' @ w_finding_id w @ newline
      @ inner @ ''reason: '' @ yaml_scalar (w_reason w) @ newline
      @ inner @ ''owner: '' @ yaml_scalar (w_owner w) @ newline
      @ inner @ ''expires: '' @ isoformat (w_expires w) @ newline)"

definition NEW_FILE_HEADER :: string where
  "NEW_FILE_HEADER =
     ''# BARE release-gate waivers.'' @ newline @ ''#'' @ newline
     @ ''# Each entry exempts one finding from the gate until it expires. Every field is'' @ newline
     @ ''# required, and an expired waiver fails the build rather than lapsing quietly.'' @ newline
     @ ''# Add entries with:  bare waive <finding-id> --reason ... --expires ...'' @ newline
     @ newline @ ''waivers:'' @ newline"

subsection \<open>Appending\<close>

definition is_blank :: "char \<Rightarrow> bool" where
  "is_blank c \<longleftrightarrow> c = CHR '' '' \<or> c = CHR 0x09"

text \<open>A line matching \<open>^waivers:[ \t]*\[[ \t]*\][ \t]*$\<close>.\<close>

definition is_empty_flow_line :: "string \<Rightarrow> bool" where
  "is_empty_flow_line l \<longleftrightarrow> starts_with ''waivers:'' l
     \<and> (let r = dropWhile is_blank (drop 8 l) in r \<noteq> [] \<and> hd r = CHR ''[''
        \<and> (let r = dropWhile is_blank (tl r) in r \<noteq> [] \<and> hd r = CHR '']'' \<and> list_all is_blank (tl r)))"

fun replace_first :: "('a \<Rightarrow> bool) \<Rightarrow> 'a \<Rightarrow> 'a list \<Rightarrow> 'a list" where
  "replace_first P y [] = []"
| "replace_first P y (x # xs) = (if P x then y # xs else x # replace_first P y xs)"

definition open_flow_list :: "string \<Rightarrow> string" where
  "open_flow_list text =
     join newline (replace_first is_empty_flow_line ''waivers:'' (split_on CHR 0x0A text))"

text \<open>The indent of the first line matching \<open>^( *)-[ \t]+finding_id:\<close>.\<close>

definition item_indent :: "string \<Rightarrow> string option" where
  "item_indent l =
     (let r = dropWhile (\<lambda>c. c = CHR '' '') l in
      if r \<noteq> [] \<and> hd r = CHR ''-'' \<and> tl r \<noteq> [] \<and> is_blank (hd (tl r))
         \<and> starts_with ''finding_id:'' (dropWhile is_blank (tl r))
      then Some (takeWhile (\<lambda>c. c = CHR '' '') l) else None)"

definition find_indent :: "string \<Rightarrow> string option" where
  "find_indent text =
     (case List.find (\<lambda>l. item_indent l \<noteq> None) (split_on CHR 0x0A text) of
        None \<Rightarrow> None | Some l \<Rightarrow> item_indent l)"

definition has_waivers_key :: "(string \<Rightarrow> pyval option) \<Rightarrow> string \<Rightarrow> bool option" where
  "has_waivers_key yaml text =
     map_option (\<lambda>raw. case raw of PDict d \<Rightarrow> pd_get d ''waivers'' \<noteq> None | _ \<Rightarrow> False) (yaml text)"

definition load_text ::
  "(string \<Rightarrow> pyval option) \<Rightarrow> policy \<Rightarrow> string \<Rightarrow> string \<Rightarrow> waive_error + waiver list" where
  "load_text yaml p source text =
     (if py_strip text = [] then Inr []
      else (case yaml text of
              None \<Rightarrow> Inl DocumentUnreadable
            | Some PNone \<Rightarrow> Inr []
            | Some (PDict d) \<Rightarrow>
                (case parse_waivers d p source of Inl e \<Rightarrow> Inl (ExistingInvalid e) | Inr ws \<Rightarrow> Inr ws)
            | Some _ \<Rightarrow> Inl NotWaiverMapping))"

definition with_newline :: "string \<Rightarrow> string" where
  "with_newline text = (if ends_with newline text then text else text @ newline)"

text \<open>The text with the entry appended, under a \<open>waivers:\<close> key added when there is none.\<close>

definition appended_text :: "bool \<Rightarrow> string \<Rightarrow> waiver \<Rightarrow> string" where
  "appended_text has text w =
     (let text = (if has then text else text @ newline @ ''waivers:'' @ newline);
          indent = (case find_indent text of Some i \<Rightarrow> i | None \<Rightarrow> ''  '')
      in text @ render_entry indent w)"

definition append_waiver ::
  "(string \<Rightarrow> pyval option) \<Rightarrow> string \<Rightarrow> waiver \<Rightarrow> policy \<Rightarrow> string \<Rightarrow> waive_error + string" where
  "append_waiver yaml existing_text w p source =
     bind_e (load_text yaml p source existing_text) (\<lambda>existing.
     bind_e (require (w_finding_id w \<notin> w_finding_id ` set existing) (AlreadyWaived (w_finding_id w))) (\<lambda>_.
     if py_strip existing_text = [] then Inr (NEW_FILE_HEADER @ render_entry ''  '' w)
     else
       (let text = open_flow_list (with_newline existing_text) in
        bind_e (option_to_e YamlErrorEscapes (has_waivers_key yaml text)) (\<lambda>has.
        (let candidate = appended_text has text w;
             expected = sort_key waiver_key (existing @ [w]);
             after = (case load_text yaml p source candidate of Inl _ \<Rightarrow> [] | Inr ws \<Rightarrow> ws)
         in if after \<noteq> expected then Inl UnsafeLayout else Inr candidate)))))"

subsection \<open>Shared lemmas\<close>

lemma replace_first_id: "(\<forall>x \<in> set xs. \<not> P x) \<Longrightarrow> replace_first P y xs = xs"
  by (induction xs) auto

lemma open_flow_list_id:
  "(\<forall>l \<in> set (split_on CHR 0x0A text). \<not> is_empty_flow_line l) \<Longrightarrow> open_flow_list text = text"
  by (simp add: open_flow_list_def replace_first_id)

lemma split_on_snoc: "split_on c (s @ [c]) = split_on c s @ [[]]"
proof (induction s)
  case (Cons x xs)
  show ?case
  proof (cases "x = c")
    case True
    then show ?thesis by (simp add: Cons.IH)
  next
    case False
    obtain l ls where "split_on c xs = l # ls" by (meson neq_Nil_conv split_on_nonempty)
    with False Cons.IH show ?thesis by simp
  qed
qed simp

lemma empty_line_no_flow [simp]: "\<not> is_empty_flow_line []"
  by (simp add: is_empty_flow_line_def)

lemma build_waiver_Inr:
  "build_waiver i r ow e p today = Inr w \<Longrightarrow>
     is_finding_id (w_finding_id w) \<and> w_expires w = e \<and> \<not> e < today
     \<and> days_between e today \<le> p_max_waiver_days p
     \<and> (p_require_waiver_reason p \<longrightarrow> w_reason w \<noteq> []) \<and> (p_require_waiver_owner p \<longrightarrow> w_owner w \<noteq> [])"
  by (auto simp: build_waiver_def Let_def err_simps split: if_splits)

subsection \<open>Properties\<close>

text \<open>A waiver the tool agrees to write is complete, unexpired and within the policy's limit,
  so the engine exempts the finding it names, without a warning.\<close>

theorem built_waiver_is_honoured:
  assumes "build_waiver i r ow e p today = Inr w"
    and "waiver_lookup ws (gf_id f) = Some w"
    and "is_actionable f p" and "p_baseline_mode p = NEW_ONLY \<longrightarrow> gf_is_new f"
    and "blocking_reason f p \<noteq> None"
  shows "waiver_complete p w \<and> gate_disposition p ws today f = Exempt w
     \<and> disp_warnings p today f (gate_disposition p ws today f) = []"
proof -
  note b = build_waiver_Inr [OF assms(1)]
  then have "w_finding_id w \<noteq> []" by (auto simp: is_finding_id_def FINDING_ID_LENGTH_def)
  moreover have "gate_disposition p ws today f = Exempt w"
    using assms b by (auto simp: gate_disposition_def disposition_of_def waiver_is_expired_def)
  ultimately show ?thesis
    using b by (auto simp: waiver_complete_def waiver_exceeds_ttl_def)
qed

definition sample_id :: string where
  "sample_id = ''0123456789abcdef0123456789abcdef''"

definition built_sample :: waiver where
  "built_sample = \<lparr>w_finding_id = sample_id, w_reason = ''inert'', w_owner = ''sec'',
                   w_expires = Date 2026 2 1\<rparr>"

lemma build_sample:
  "build_waiver sample_id ''inert'' ''sec'' (Date 2026 2 1) default_policy sample_day = Inr built_sample"
  by (simp add: build_waiver_def sample_id_def built_sample_def py_lower_def lower_char_def py_strip_def
      py_space_def is_finding_id_def FINDING_ID_LENGTH_def is_lower_hex_def is_digit_def
      default_policy_def DEFAULT_MAX_WAIVER_DAYS_def sample_day_def less_date_def days_between_def
      toordinal_def days_before_year_def days_before_month_def is_leap_def Let_def)

theorem built_waiver_is_honoured_witness:
  "gate_disposition default_policy [built_sample] sample_day (sample_finding\<lparr>gf_id := sample_id\<rparr>)
     = Exempt built_sample"
  using built_waiver_is_honoured [OF build_sample, of "[built_sample]" "sample_finding\<lparr>gf_id := sample_id\<rparr>"]
  by (simp add: gate_eval_simps sample_finding_def built_sample_def)

text \<open>What is appended to a non-empty waiver file loads as exactly the old waivers plus the new
  one, and unless an empty flow list had to be opened, the old text is kept verbatim in front.\<close>

theorem append_waiver_safe:
  assumes "append_waiver yaml text w p source = Inr out" and "py_strip text \<noteq> []"
  shows "(\<exists>existing. load_text yaml p source text = Inr existing
            \<and> w_finding_id w \<notin> w_finding_id ` set existing
            \<and> load_text yaml p source out = Inr (sort_key waiver_key (existing @ [w])))
     \<and> ((\<forall>l \<in> set (split_on CHR 0x0A text). \<not> is_empty_flow_line l) \<longrightarrow> starts_with text out)"
proof -
  from assms(1) obtain existing where ex: "load_text yaml p source text = Inr existing"
    and fresh: "w_finding_id w \<notin> w_finding_id ` set existing"
    by (auto simp: append_waiver_def err_simps)
  let ?t2 = "open_flow_list (with_newline text)"
  from assms ex fresh obtain has where
    out: "out = appended_text has ?t2 w" and after: "(case load_text yaml p source out of Inl _ \<Rightarrow> [] | Inr ws \<Rightarrow> ws)
                  = sort_key waiver_key (existing @ [w])"
    by (auto simp: append_waiver_def err_simps Let_def split: if_splits)
  have "sort_key waiver_key (existing @ [w]) \<noteq> []"
    by (metis Nil_is_append_conv list.distinct(1) mset_sort mset_zero_iff)
  with after have "load_text yaml p source out = Inr (sort_key waiver_key (existing @ [w]))"
    by (auto split: sum.splits)
  moreover have "starts_with text out" if "\<forall>l \<in> set (split_on CHR 0x0A text). \<not> is_empty_flow_line l"
  proof -
    have "?t2 = with_newline text"
      using that by (intro open_flow_list_id) (auto simp: split_on_snoc with_newline_def)
    then show ?thesis using out by (auto simp: starts_with_append appended_text_def with_newline_def Let_def)
  qed
  ultimately show ?thesis using ex fresh by blast
qed

definition sample_text :: string where
  "sample_text = ''# notes'' @ newline @ ''waivers:'' @ newline"

definition sample_yaml :: "string \<Rightarrow> pyval option" where
  "sample_yaml t =
     Some (PDict [(PStr ''waivers'',
       if t = sample_text then PNone
       else PList [PDict [(PStr ''finding_id'', PStr sample_id), (PStr ''reason'', PStr ''inert''),
              (PStr ''owner'', PStr ''sec''), (PStr ''expires'', PDate (Date 2026 2 1))]])])"

lemma append_sample:
  "append_waiver sample_yaml sample_text built_sample default_policy ''w'' =
     Inr (sample_text @ render_entry ''  '' built_sample)"
proof -
  have nb: "py_strip sample_text \<noteq> []"
    by (simp add: sample_text_def py_strip_def py_space_def)
  have old: "load_text sample_yaml default_policy ''w'' sample_text = Inr []"
    using nb by (simp add: load_text_def sample_yaml_def parse_waivers_def dict_simps)
  have opened: "open_flow_list (with_newline sample_text) = sample_text"
    by (simp add: with_newline_def sample_text_def ends_with_def open_flow_list_def
        is_empty_flow_line_def Let_def)
  have cand: "appended_text True sample_text built_sample = sample_text @ render_entry ''  '' built_sample"
    by (simp add: appended_text_def find_indent_def sample_text_def item_indent_def Let_def)
  have ne: "sample_text @ render_entry ''  '' built_sample \<noteq> sample_text"
    by (simp add: render_entry_def Let_def)
  have nb2: "py_strip (sample_text @ xs) \<noteq> []" for xs
    by (simp add: py_strip_Nil sample_text_def py_space_def)
  have has: "has_waivers_key sample_yaml sample_text = Some True"
    by (simp add: has_waivers_key_def sample_yaml_def dict_simps)
  have new: "load_text sample_yaml default_policy ''w'' (sample_text @ render_entry ''  '' built_sample)
      = Inr [built_sample]"
    using ne nb2 by (simp add: load_text_def sample_yaml_def parse_waivers_def dict_simps
        parse_waiver_entry_def require_mapping_def parse_date_value_def Let_def built_sample_def
        sample_id_def py_strip_def py_space_def)
  show ?thesis
    using nb by (simp add: append_waiver_def old opened has cand new Let_def)
qed

theorem append_waiver_safe_witness:
  "load_text sample_yaml default_policy ''w'' (sample_text @ render_entry ''  '' built_sample)
     = Inr [built_sample]"
proof -
  have nb: "py_strip sample_text \<noteq> []"
    by (simp add: sample_text_def py_strip_def py_space_def)
  have old: "load_text sample_yaml default_policy ''w'' sample_text = Inr []"
    using nb by (simp add: load_text_def sample_yaml_def parse_waivers_def dict_simps)
  from append_waiver_safe [OF append_sample nb] old show ?thesis by simp
qed

end
