(* ===== verification/Effects.thy ===== *)
theory Effects
  imports Prelude
begin

text \<open>
  Stateful computations that may raise. A computation maps a state to an outcome (an exception
  on the left, a value on the right) and the state it leaves behind: effects made before an
  exception stay made, as they do in the program. \<open>triple\<close> is partial correctness with one
  postcondition for values and one for exceptions; its rules are collected in \<open>triple_rules\<close>.
\<close>

type_synonym ('s, 'e, 'a) eff = "'s \<Rightarrow> ('e + 'a) \<times> 's"

named_theorems triple_rules \<open>Hoare rules of effectful computations\<close>
named_theorems eff_simps \<open>running effectful computations\<close>

definition ret :: "'a \<Rightarrow> ('s, 'e, 'a) eff" where
  "ret x = (\<lambda>s. (Inr x, s))"

definition raise :: "'e \<Rightarrow> ('s, 'e, 'a) eff" where
  "raise e = (\<lambda>s. (Inl e, s))"

definition modify :: "('s \<Rightarrow> 's) \<Rightarrow> ('s, 'e, unit) eff" where
  "modify f = (\<lambda>s. (Inr (), f s))"

definition reads :: "('s \<Rightarrow> 'a) \<Rightarrow> ('s, 'e, 'a) eff" where
  "reads f = (\<lambda>s. (Inr (f s), s))"

definition bind_s :: "('s, 'e, 'a) eff \<Rightarrow> ('a \<Rightarrow> ('s, 'e, 'b) eff) \<Rightarrow> ('s, 'e, 'b) eff" where
  "bind_s m f = (\<lambda>s. case m s of (Inl e, s') \<Rightarrow> (Inl e, s') | (Inr x, s') \<Rightarrow> f x s')"

definition catch_s :: "('s, 'e, 'a) eff \<Rightarrow> ('e \<Rightarrow> ('s, 'e, 'a) eff) \<Rightarrow> ('s, 'e, 'a) eff" where
  "catch_s m h = (\<lambda>s. case m s of (Inl e, s') \<Rightarrow> h e s' | (Inr x, s') \<Rightarrow> (Inr x, s'))"

definition when_s :: "bool \<Rightarrow> ('s, 'e, unit) eff \<Rightarrow> ('s, 'e, unit) eff" where
  "when_s c m = (if c then m else ret ())"

text \<open>\<open>attempt m\<close> hands the outcome of \<open>m\<close> to what follows: the code after a \<open>try\<close> block looks
  at it and either returns early or goes on.\<close>

definition attempt :: "('s, 'e, 'a) eff \<Rightarrow> ('s, 'f, 'e + 'a) eff" where
  "attempt m = (\<lambda>s. case m s of (r, s') \<Rightarrow> (Inr r, s'))"

text \<open>A computation that may raise but touches no state.\<close>

definition lift_e :: "'e + 'a \<Rightarrow> ('s, 'e, 'a) eff" where
  "lift_e x = (\<lambda>s. (x, s))"

text \<open>A \<open>for\<close> loop that threads an accumulator and stops at the first exception.\<close>

fun for_s :: "'x list \<Rightarrow> 'a \<Rightarrow> ('x \<Rightarrow> 'a \<Rightarrow> ('s, 'e, 'a) eff) \<Rightarrow> ('s, 'e, 'a) eff" where
  "for_s [] acc body = ret acc"
| "for_s (x # xs) acc body = bind_s (body x acc) (\<lambda>acc'. for_s xs acc' body)"

lemma run_simps [eff_simps]:
  "ret x s = (Inr x, s)"
  "raise e s = (Inl e, s)"
  "modify f s = (Inr (), f s)"
  "reads g s = (Inr (g s), s)"
  "lift_e v s = (v, s)"
  "when_s True m = m"
  "when_s False m' = ret ()"
  by (simp_all add: ret_def raise_def modify_def reads_def when_s_def lift_e_def)

lemma run_bind [eff_simps]:
  "bind_s m f s = (case m s of (Inl e, s') \<Rightarrow> (Inl e, s') | (Inr x, s') \<Rightarrow> f x s')"
  by (simp add: bind_s_def)

lemma run_catch [eff_simps]:
  "catch_s m h s = (case m s of (Inl e, s') \<Rightarrow> h e s' | (Inr x, s') \<Rightarrow> (Inr x, s'))"
  by (simp add: catch_s_def)

definition triple ::
  "('s \<Rightarrow> bool) \<Rightarrow> ('s, 'e, 'a) eff \<Rightarrow> ('a \<Rightarrow> 's \<Rightarrow> bool) \<Rightarrow> ('e \<Rightarrow> 's \<Rightarrow> bool) \<Rightarrow> bool" where
  "triple P m Q E \<longleftrightarrow>
     (\<forall>s. P s \<longrightarrow> (case m s of (Inl e, s') \<Rightarrow> E e s' | (Inr x, s') \<Rightarrow> Q x s'))"

lemma tripleD_value: "triple P m Q E \<Longrightarrow> P s \<Longrightarrow> m s = (Inr x, s') \<Longrightarrow> Q x s'"
  by (auto simp: triple_def)

lemma tripleD_error: "triple P m Q E \<Longrightarrow> P s \<Longrightarrow> m s = (Inl e, s') \<Longrightarrow> E e s'"
  by (auto simp: triple_def)

lemma triple_ret [triple_rules]: "(\<And>s. P s \<Longrightarrow> Q x s) \<Longrightarrow> triple P (ret x) Q E"
  by (simp add: triple_def ret_def)

lemma triple_raise [triple_rules]: "(\<And>s. P s \<Longrightarrow> E e s) \<Longrightarrow> triple P (raise e) Q E"
  by (simp add: triple_def raise_def)

lemma triple_modify [triple_rules]: "(\<And>s. P s \<Longrightarrow> Q () (f s)) \<Longrightarrow> triple P (modify f) Q E"
  by (simp add: triple_def modify_def)

lemma triple_reads: "(\<And>s. P s \<Longrightarrow> Q (f s) s) \<Longrightarrow> triple P (reads f) Q E"
  by (simp add: triple_def reads_def)

lemma triple_lift: "(\<And>x s. P s \<Longrightarrow> v = Inr x \<Longrightarrow> Q x s) \<Longrightarrow> (\<And>e s. P s \<Longrightarrow> E e s) \<Longrightarrow> triple P (lift_e v) Q E"
  by (cases v) (auto simp: triple_def lift_e_def)

lemma triple_bind:
  "triple P m R E \<Longrightarrow> (\<And>x. triple (R x) (f x) Q E) \<Longrightarrow> triple P (bind_s m f) Q E"
  unfolding triple_def bind_s_def by (fastforce split: sum.splits prod.splits)

lemma triple_catch:
  "triple P m Q F \<Longrightarrow> (\<And>e. triple (F e) (h e) Q E) \<Longrightarrow> triple P (catch_s m h) Q E"
  unfolding triple_def catch_s_def by (fastforce split: sum.splits prod.splits)

lemma triple_when [triple_rules]:
  "(c \<Longrightarrow> triple P m (\<lambda>_. Q ()) E) \<Longrightarrow> (\<And>s. \<not> c \<Longrightarrow> P s \<Longrightarrow> Q () s) \<Longrightarrow> triple P (when_s c m) Q E"
  by (cases c) (auto simp: when_s_def triple_def ret_def)

lemma triple_if [triple_rules]:
  "(c \<Longrightarrow> triple P m Q E) \<Longrightarrow> (\<not> c \<Longrightarrow> triple P m' Q E) \<Longrightarrow> triple P (if c then m else m') Q E"
  by simp

lemma triple_for:
  assumes "\<And>x acc. x \<in> set xs \<Longrightarrow> triple (I acc) (body x acc) I E"
  shows "triple (I acc) (for_s xs acc body) I E"
  using assms
proof (induction xs arbitrary: acc)
  case Nil
  then show ?case by (simp add: triple_ret)
next
  case (Cons x xs)
  have "triple (I acc) (body x acc) I E" using Cons.prems by simp
  moreover have "triple (I a) (for_s xs a body) I E" for a
    using Cons.IH Cons.prems by simp
  ultimately show ?case by (auto intro: triple_bind)
qed

lemma triple_weaken:
  "triple P m Q E \<Longrightarrow> (\<And>s. P' s \<Longrightarrow> P s) \<Longrightarrow> (\<And>x s. Q x s \<Longrightarrow> Q' x s) \<Longrightarrow>
     (\<And>e s. E e s \<Longrightarrow> E' e s) \<Longrightarrow> triple P' m Q' E'"
  unfolding triple_def by (fastforce split: sum.splits prod.splits)

text \<open>A state invariant that survives a computation however it ends.\<close>

definition keeps :: "('s \<Rightarrow> bool) \<Rightarrow> ('s, 'e, 'a) eff \<Rightarrow> bool" where
  "keeps I m \<longleftrightarrow> triple I m (\<lambda>_. I) (\<lambda>_. I)"

lemma keepsD: "keeps I m \<Longrightarrow> I s \<Longrightarrow> I (snd (m s))"
  unfolding keeps_def triple_def by (cases "m s") (auto split: sum.splits)

lemma keepsI: "(\<And>s. I s \<Longrightarrow> I (snd (m s))) \<Longrightarrow> keeps I m"
  unfolding keeps_def triple_def by (force split: sum.splits prod.splits)

lemma keeps_ret [triple_rules]: "keeps I (ret x)"
  by (simp add: keeps_def triple_ret)

lemma keeps_raise [triple_rules]: "keeps I (raise e)"
  by (simp add: keeps_def triple_raise)

lemma keeps_reads [triple_rules]: "keeps I (reads f)"
  by (simp add: keeps_def triple_reads)

lemma keeps_modify [triple_rules]: "(\<And>s. I s \<Longrightarrow> I (f s)) \<Longrightarrow> keeps I (modify f)"
  by (simp add: keeps_def triple_modify)

lemma keeps_lift [triple_rules]: "keeps I (lift_e v)"
  by (simp add: keeps_def triple_lift)

lemma keeps_bind [triple_rules]:
  "keeps I m \<Longrightarrow> (\<And>x. keeps I (f x)) \<Longrightarrow> keeps I (bind_s m f)"
  unfolding keeps_def by (rule triple_bind)

lemma keeps_catch [triple_rules]:
  "keeps I m \<Longrightarrow> (\<And>e. keeps I (h e)) \<Longrightarrow> keeps I (catch_s m h)"
  unfolding keeps_def by (rule triple_catch)

lemma triple_attempt:
  "triple P m (\<lambda>x. Q (Inr x)) (\<lambda>e. Q (Inl e)) \<Longrightarrow> triple P (attempt m) Q E"
  unfolding triple_def attempt_def by (fastforce split: sum.splits prod.splits)

lemma keeps_attempt [triple_rules]: "keeps I m \<Longrightarrow> keeps I (attempt m)"
  unfolding keeps_def by (rule triple_attempt)

lemma run_attempt [eff_simps]: "attempt m s = (case m s of (r, s') \<Rightarrow> (Inr r, s'))"
  by (simp add: attempt_def)

lemma keeps_when [triple_rules]: "(c \<Longrightarrow> keeps I m) \<Longrightarrow> keeps I (when_s c m)"
  by (cases c) (auto simp: when_s_def keeps_ret)

lemma keeps_if [triple_rules]:
  "(c \<Longrightarrow> keeps I m) \<Longrightarrow> (\<not> c \<Longrightarrow> keeps I m') \<Longrightarrow> keeps I (if c then m else m')"
  by simp

lemma keeps_for [triple_rules]:
  "(\<And>x acc. x \<in> set xs \<Longrightarrow> keeps I (body x acc)) \<Longrightarrow> keeps I (for_s xs acc body)"
  by (induction xs arbitrary: acc) (auto intro: keeps_ret keeps_bind)

lemma keeps_option [triple_rules]:
  "keeps I m \<Longrightarrow> (\<And>x. keeps I (f x)) \<Longrightarrow> keeps I (case v of None \<Rightarrow> m | Some x \<Rightarrow> f x)"
  by (cases v) auto

lemma keeps_sum [triple_rules]:
  "(\<And>e. keeps I (g e)) \<Longrightarrow> (\<And>x. keeps I (f x)) \<Longrightarrow> keeps I (case v of Inl e \<Rightarrow> g e | Inr x \<Rightarrow> f x)"
  by (cases v) auto

end
