(* ===== verification/Unpack_Budget.thy ===== *)
theory Unpack_Budget
  imports Effects Py_Values
begin

text \<open>
  Extraction budgets (\<open>core/unpack/budget.py\<close>). The locale \<open>spending\<close> is the contract the
  extractor relies on: \<open>reserve\<close> either charges one file and its size and stays within both caps,
  or raises and charges nothing. What follows from it for any sequence of reservations is proved
  once inside the locale, which is interpreted on the code's budget at the end.
\<close>

datatype unpack_exn =
    BudgetExceeded string string
  | Failure string
  | OutOfFuel

definition DEFAULT_MAX_DEPTH :: int where "DEFAULT_MAX_DEPTH = 8"
definition DEFAULT_MAX_FILES :: int where "DEFAULT_MAX_FILES = 20000"
definition FILES_PER_INPUT_MB :: int where "FILES_PER_INPUT_MB = 600"
definition MAX_FILES_CEILING :: int where "MAX_FILES_CEILING = 250000"
definition DEFAULT_MAX_TOTAL_BYTES :: int where "DEFAULT_MAX_TOTAL_BYTES = 10 * 1024 ^ 3"
definition DEFAULT_EXPANSION_FACTOR :: int where "DEFAULT_EXPANSION_FACTOR = 20"

lemmas budget_constants = DEFAULT_MAX_DEPTH_def DEFAULT_MAX_FILES_def FILES_PER_INPUT_MB_def
  MAX_FILES_CEILING_def DEFAULT_MAX_TOTAL_BYTES_def DEFAULT_EXPANSION_FACTOR_def

text \<open>\<open>str(exc)\<close>.\<close>

fun exn_text :: "unpack_exn \<Rightarrow> string" where
  "exn_text (BudgetExceeded limit detail) =
     ''extraction budget exceeded ('' @ limit @ ''): '' @ detail"
| "exn_text (Failure text) = text"
| "exn_text OutOfFuel = ''''"

record xbudget =
  max_depth :: int
  max_files :: int
  max_total_bytes :: int
  files_written :: int
  bytes_written :: int
  exceeded :: "string list"

definition default_xbudget :: xbudget where
  "default_xbudget = \<lparr>max_depth = DEFAULT_MAX_DEPTH, max_files = DEFAULT_MAX_FILES,
     max_total_bytes = DEFAULT_MAX_TOTAL_BYTES, files_written = 0, bytes_written = 0, exceeded = []\<rparr>"

text \<open>\<open>setattr\<close> of one override; a name that is no slot raises \<open>AttributeError\<close>.\<close>

definition set_override :: "string \<Rightarrow> int \<Rightarrow> xbudget \<Rightarrow> xbudget option" where
  "set_override key v b =
     (if key = ''max_depth'' then Some (b\<lparr>max_depth := v\<rparr>)
      else if key = ''max_files'' then Some (b\<lparr>max_files := v\<rparr>)
      else if key = ''max_total_bytes'' then Some (b\<lparr>max_total_bytes := v\<rparr>)
      else if key = ''files_written'' then Some (b\<lparr>files_written := v\<rparr>)
      else if key = ''bytes_written'' then Some (b\<lparr>bytes_written := v\<rparr>)
      else None)"

fun set_overrides :: "(string \<times> int) list \<Rightarrow> xbudget \<Rightarrow> xbudget option" where
  "set_overrides [] b = Some b"
| "set_overrides ((k, v) # rest) b =
     (case set_override k v b of None \<Rightarrow> None | Some b' \<Rightarrow> set_overrides rest b')"

definition scaled_budget :: "int \<Rightarrow> xbudget" where
  "scaled_budget input_size_bytes =
     (let scaled = max (input_size_bytes * DEFAULT_EXPANSION_FACTOR) (64 * 1024 * 1024);
          input_mb = max (input_size_bytes div (1024 * 1024)) 1;
          files = max DEFAULT_MAX_FILES (min (input_mb * FILES_PER_INPUT_MB) MAX_FILES_CEILING)
      in default_xbudget\<lparr>max_total_bytes := min scaled DEFAULT_MAX_TOTAL_BYTES, max_files := files\<rparr>)"

definition for_input :: "int \<Rightarrow> (string \<times> int) list \<Rightarrow> xbudget option" where
  "for_input input_size_bytes overrides = set_overrides overrides (scaled_budget input_size_bytes)"

definition bytes_remaining :: "xbudget \<Rightarrow> int" where
  "bytes_remaining b = max 0 (max_total_bytes b - bytes_written b)"

definition files_remaining :: "xbudget \<Rightarrow> int" where
  "files_remaining b = max 0 (max_files b - files_written b)"

definition is_exhausted :: "xbudget \<Rightarrow> bool" where
  "is_exhausted b \<longleftrightarrow> bytes_remaining b \<le> 0 \<or> files_remaining b \<le> 0"

definition note_b :: "string \<Rightarrow> xbudget \<Rightarrow> xbudget" where
  "note_b message b =
     (if message \<notin> set (exceeded b) then b\<lparr>exceeded := exceeded b @ [message]\<rparr> else b)"

definition check_depth :: "int \<Rightarrow> (xbudget, unpack_exn, unit) eff" where
  "check_depth depth = (\<lambda>b.
     if depth > max_depth b
     then (Inl (BudgetExceeded ''max_depth'' (show_int depth @ '' > '' @ show_int (max_depth b))),
           note_b (''depth '' @ show_int depth @ '' exceeds max_depth '' @ show_int (max_depth b)) b)
     else (Inr (), b))"

definition reserve :: "int \<Rightarrow> (xbudget, unpack_exn, unit) eff" where
  "reserve size_bytes = (\<lambda>b.
     if files_written b + 1 > max_files b
     then (Inl (BudgetExceeded ''max_files'' (show_int (files_written b) @ '' files already written'')),
           note_b (''file count would exceed max_files '' @ show_int (max_files b)) b)
     else if bytes_written b + size_bytes > max_total_bytes b
     then (Inl (BudgetExceeded ''max_total_bytes''
                  (show_int (bytes_written b) @ '' of '' @ show_int (max_total_bytes b)
                     @ '' bytes already written'')),
           note_b (''writing '' @ show_int size_bytes @ '' bytes would exceed max_total_bytes ''
                     @ show_int (max_total_bytes b)) b)
     else (Inr (), b\<lparr>files_written := files_written b + 1,
                     bytes_written := bytes_written b + size_bytes\<rparr>))"

definition budget_to_dict :: "xbudget \<Rightarrow> pyval" where
  "budget_to_dict b = PDict
     [(PStr ''max_depth'', PInt (max_depth b)), (PStr ''max_files'', PInt (max_files b)),
      (PStr ''max_total_bytes'', PInt (max_total_bytes b)),
      (PStr ''files_written'', PInt (files_written b)),
      (PStr ''bytes_written'', PInt (bytes_written b)),
      (PStr ''truncated'', PBool (exceeded b \<noteq> [])),
      (PStr ''reasons'', PList (map PStr (exceeded b)))]"

text \<open>The analyzer's construction of the budget (\<open>sandbox/images/unpack/analyzer.py\<close>): a flag
  of 0 keeps the scaled value.\<close>

definition analyzer_budget :: "int \<Rightarrow> int \<Rightarrow> int \<Rightarrow> int \<Rightarrow> xbudget" where
  "analyzer_budget isize depth_flag files_flag bytes_flag =
     (let b = (scaled_budget isize)\<lparr>max_depth := depth_flag\<rparr>;
          b = (if files_flag \<noteq> 0 then b\<lparr>max_files := files_flag\<rparr> else b)
      in if bytes_flag \<noteq> 0 then b\<lparr>max_total_bytes := bytes_flag\<rparr> else b)"

lemma analyzer_budget_for_input:
  "for_input isize [(''max_depth'', d)] = Some (analyzer_budget isize d 0 0)"
  by (simp add: for_input_def set_override_def analyzer_budget_def)

subsection \<open>The contract\<close>

locale spending =
  fixes charge :: "int \<Rightarrow> ('b, 'e, unit) eff"
    and files :: "'b \<Rightarrow> int" and bytes :: "'b \<Rightarrow> int"
    and file_cap :: "'b \<Rightarrow> int" and byte_cap :: "'b \<Rightarrow> int"
  assumes accepted: "charge n b = (Inr u, b') \<Longrightarrow>
      files b' = files b + 1 \<and> bytes b' = bytes b + n \<and> files b' \<le> file_cap b' \<and> bytes b' \<le> byte_cap b'"
    and refused: "charge n b = (Inl e, b') \<Longrightarrow> files b' = files b \<and> bytes b' = bytes b"
    and caps: "file_cap (snd (charge n b)) = file_cap b \<and> byte_cap (snd (charge n b)) = byte_cap b"
    and room: "files b + 1 \<le> file_cap b \<Longrightarrow> bytes b + n \<le> byte_cap b \<Longrightarrow> fst (charge n b) = Inr ()"
begin

definition in_caps :: "'b \<Rightarrow> bool" where
  "in_caps b \<longleftrightarrow> files b \<le> file_cap b \<and> bytes b \<le> byte_cap b"

lemma charge_cases:
  obtains (yes) b' where "charge n b = (Inr (), b')" "files b' = files b + 1" "bytes b' = bytes b + n"
      "files b' \<le> file_cap b'" "bytes b' \<le> byte_cap b'" "file_cap b' = file_cap b" "byte_cap b' = byte_cap b"
    | (no) e b' where "charge n b = (Inl e, b')" "files b' = files b" "bytes b' = bytes b"
      "file_cap b' = file_cap b" "byte_cap b' = byte_cap b"
proof (cases "charge n b")
  case (Pair r b')
  have c: "file_cap b' = file_cap b" "byte_cap b' = byte_cap b" using caps [of n b] Pair by auto
  show thesis
  proof (cases r)
    case (Inl e)
    then show thesis using no refused [of n b e b'] Pair c by auto
  next
    case (Inr u)
    then show thesis using yes accepted [of n b u b'] Pair c by auto
  qed
qed

lemma charge_in_caps: "keeps in_caps (charge n)"
proof (rule keepsI)
  fix b assume "in_caps b"
  then show "in_caps (snd (charge n b))"
    by (cases rule: charge_cases [of n b]) (auto simp: in_caps_def)
qed

lemma charge_all_in_caps: "keeps in_caps (for_s sizes acc (\<lambda>n _. charge n))"
  by (auto intro!: triple_rules charge_in_caps)

text \<open>A run of reservations that all succeed charges exactly their number and their sum.\<close>

lemma charge_all_total:
  "for_s sizes () (\<lambda>n _. charge n) b = (Inr u, b') \<Longrightarrow>
     files b' = files b + int (length sizes) \<and> bytes b' = bytes b + sum_list sizes"
proof (induction sizes arbitrary: b)
  case Nil
  then show ?case by (simp add: eff_simps)
next
  case (Cons n sizes)
  show ?case
    by (rule charge_cases [of n b]) (use Cons in \<open>auto simp: eff_simps\<close>)
qed

text \<open>Non-negative sizes that fit in the remaining room are never refused.\<close>

lemma charge_all_fits:
  assumes "\<forall>n \<in> set sizes. 0 \<le> n"
    and "files b + int (length sizes) \<le> file_cap b" and "bytes b + sum_list sizes \<le> byte_cap b"
  shows "\<exists>b'. for_s sizes () (\<lambda>n _. charge n) b = (Inr (), b')"
  using assms
proof (induction sizes arbitrary: b)
  case Nil
  then show ?case by (simp add: eff_simps)
next
  case (Cons n sizes)
  have nonneg: "0 \<le> sum_list sizes" using Cons.prems(1) by (intro sum_list_nonneg) auto
  have "fst (charge n b) = Inr ()" using room [of b n] Cons.prems nonneg by auto
  then obtain b1 where b1: "charge n b = (Inr (), b1)" by (metis prod.collapse)
  with Cons.prems accepted [OF b1] caps [of n b]
  have "files b1 + int (length sizes) \<le> file_cap b1 \<and> bytes b1 + sum_list sizes \<le> byte_cap b1"
    by auto
  with Cons.IH [of b1] Cons.prems(1) show ?case by (auto simp: eff_simps b1)
qed

end

lemma note_b_fields [simp]:
  "max_depth (note_b m b) = max_depth b" "max_files (note_b m b) = max_files b"
  "max_total_bytes (note_b m b) = max_total_bytes b" "files_written (note_b m b) = files_written b"
  "bytes_written (note_b m b) = bytes_written b"
  by (simp_all add: note_b_def)

lemma exceeded_note_b [simp]: "set (exceeded (note_b m b)) = insert m (set (exceeded b))"
  by (auto simp: note_b_def)

interpretation xb: spending reserve files_written bytes_written max_files max_total_bytes
  by unfold_locales (auto simp: reserve_def split: if_splits)

text \<open>The budget's own reading of \<open>xb.in_caps\<close>: \<open>is_exhausted\<close> is false exactly while one more
  byte and one more file would still be accepted.\<close>

lemma not_exhausted_iff:
  "\<not> is_exhausted b \<longleftrightarrow> fst (reserve 1 b) = Inr ()"
  by (auto simp: is_exhausted_def bytes_remaining_def files_remaining_def reserve_def)

subsection \<open>Properties\<close>

text \<open>However extraction proceeds, the totals never pass the caps: every accepted reservation
  is counted, a refused one charges nothing and leaves a reason, and a whole sequence of
  reservations is accepted exactly as long as both totals fit.\<close>

theorem budget_never_exceeded:
  "(case for_s sizes () (\<lambda>n _. reserve n) (scaled_budget isize) of
      (Inr u, b) \<Rightarrow> files_written b = int (length sizes) \<and> bytes_written b = sum_list sizes
        \<and> exceeded b = []
    | (Inl e, b) \<Rightarrow> exceeded b \<noteq> [])
   \<and> (let b = snd (for_s sizes () (\<lambda>n _. reserve n) (scaled_budget isize)) in
      files_written b \<le> max_files b \<and> bytes_written b \<le> max_total_bytes b)"
proof -
  let ?b0 = "scaled_budget isize"
  have start: "xb.in_caps ?b0"
    by (auto simp: xb.in_caps_def scaled_budget_def default_xbudget_def budget_constants Let_def)
  have empty0: "exceeded ?b0 = []" "files_written ?b0 = 0" "bytes_written ?b0 = 0"
    by (simp_all add: scaled_budget_def default_xbudget_def Let_def)
  have reasons: "triple (\<lambda>b. exceeded b = []) (for_s sizes () (\<lambda>n _. reserve n))
      (\<lambda>_ b. exceeded b = []) (\<lambda>_ b. exceeded b \<noteq> [])"
    by (rule triple_for) (auto simp: triple_def reserve_def note_b_def split: if_splits)
  have w: "xb.in_caps (snd (for_s sizes () (\<lambda>n _. reserve n) ?b0))"
    by (rule keepsD [OF xb.charge_all_in_caps start])
  show ?thesis
  proof (cases "for_s sizes () (\<lambda>n _. reserve n) ?b0")
    case (Pair r b)
    show ?thesis
    proof (cases r)
      case (Inl e)
      with Pair tripleD_error [OF reasons empty0(1)] w show ?thesis
        by (auto simp: xb.in_caps_def)
    next
      case (Inr u)
      with Pair tripleD_value [OF reasons empty0(1)] w xb.charge_all_total [of sizes ?b0 u b] empty0
      show ?thesis by (auto simp: xb.in_caps_def)
    qed
  qed
qed

text \<open>The scaled caps are what the documentation promises for every input size: the byte cap is
  at least 64 MiB and at most 10 GiB, and in between twenty times the input; the file cap is at
  least the default and at most the ceiling, and both grow with the input.\<close>

theorem for_input_bounds:
  assumes "for_input isize [] = Some b"
  shows "64 * 1024 * 1024 \<le> max_total_bytes b \<and> max_total_bytes b \<le> 10 * 1024 ^ 3
    \<and> (64 * 1024 * 1024 \<le> 20 * isize \<and> 20 * isize \<le> 10 * 1024 ^ 3 \<longrightarrow> max_total_bytes b = 20 * isize)
    \<and> 20000 \<le> max_files b \<and> max_files b \<le> 250000 \<and> max_depth b = 8
    \<and> (\<forall>isize' b'. isize \<le> isize' \<longrightarrow> for_input isize' [] = Some b' \<longrightarrow>
         max_total_bytes b \<le> max_total_bytes b' \<and> max_files b \<le> max_files b')"
proof -
  have b: "b = scaled_budget isize" using assms by (simp add: for_input_def)
  have mono: "max_total_bytes b \<le> max_total_bytes (scaled_budget isize')
      \<and> max_files b \<le> max_files (scaled_budget isize')" if "isize \<le> isize'" for isize'
  proof -
    have "isize div (1024 * 1024) \<le> isize' div (1024 * 1024)"
      using that by (intro zdiv_mono1) auto
    with that show ?thesis
      unfolding b scaled_budget_def Let_def budget_constants default_xbudget_def
      by (auto simp: min_def max_def)
  qed
  have bounds: "64 * 1024 * 1024 \<le> max_total_bytes b" "max_total_bytes b \<le> 10 * 1024 ^ 3"
    "20000 \<le> max_files b" "max_files b \<le> 250000" "max_depth b = 8"
    by (auto simp: b scaled_budget_def Let_def budget_constants default_xbudget_def)
  have exact: "64 * 1024 * 1024 \<le> 20 * isize \<and> 20 * isize \<le> 10 * 1024 ^ 3 \<longrightarrow> max_total_bytes b = 20 * isize"
    by (auto simp: b scaled_budget_def Let_def budget_constants default_xbudget_def)
  from bounds exact mono show ?thesis by (auto simp: for_input_def)
qed

theorem for_input_bounds_witness:
  "max_total_bytes (scaled_budget 213000000) \<le> 10 * 1024 ^ 3
    \<and> max_files (scaled_budget 213000000) \<ge> 20000"
  using for_input_bounds [of 213000000 "scaled_budget 213000000"]
  by (simp add: for_input_def)

text \<open>A negative size, which an archive's own directory can declare, is always accepted while a file
  slot is left, and gives bytes back.\<close>

lemma negative_size_gives_back:
  assumes "files_written b < max_files b" "bytes_written b \<le> max_total_bytes b" "n < 0"
  shows "reserve n b = (Inr (), b\<lparr>files_written := files_written b + 1,
    bytes_written := bytes_written b + n\<rparr>) \<and> bytes_written b + n < bytes_written b"
  using assms by (simp add: reserve_def)

end
