(* ===== verification/Bytes_Text.thy ===== *)
theory Bytes_Text
  imports Prelude "HOL-Library.Word"
begin

text \<open>
  Bytes as 8-bit words, little-endian integers (\<open>int.from_bytes\<close>), and the characters of a UTF-8
  text: Python indexes and counts code points, so functions that do (\<open>s[0].isalpha()\<close>,
  \<open>s[:60]\<close>) work on \<open>utf8_chars\<close>, which cuts a text before every byte that does not continue
  a character.
\<close>

type_synonym byte = "8 word"
type_synonym bytes = "byte list"

definition bytes_of :: "string \<Rightarrow> bytes" where
  "bytes_of s = map (\<lambda>c. of_nat (of_char c)) s"

definition latin1 :: "bytes \<Rightarrow> string" where
  "latin1 bs = map (\<lambda>b. char_of (unat b)) bs"

fun from_le :: "bytes \<Rightarrow> nat" where
  "from_le [] = 0"
| "from_le (b # bs) = unat b + 256 * from_le bs"

lemma from_le_bound: "from_le bs < 256 ^ length bs"
proof (induction bs)
  case (Cons b bs)
  have "unat b < 256" using unsigned_less [of b] by simp
  then have "unat b + 256 * from_le bs < 256 * (from_le bs + 1)" by simp
  also have "\<dots> \<le> 256 * 256 ^ length bs" using Cons.IH by (intro mult_le_mono2) simp
  finally show ?case by simp
qed simp

text \<open>\<open>data[a:b]\<close> for non-negative bounds.\<close>

definition slice :: "nat \<Rightarrow> nat \<Rightarrow> 'a list \<Rightarrow> 'a list" where
  "slice a b xs = take (b - a) (drop a xs)"

lemma slice_length: "length (slice a b xs) \<le> b - a"
  by (simp add: slice_def)

subsection \<open>Characters of a UTF-8 text\<close>

definition is_cont :: "char \<Rightarrow> bool" where
  "is_cont c \<longleftrightarrow> (let n = (of_char c :: nat) in 128 \<le> n \<and> n < 192)"

fun utf8_chars :: "string \<Rightarrow> string list" where
  "utf8_chars [] = []"
| "utf8_chars (c # cs) =
     (case utf8_chars cs of
        [] \<Rightarrow> [[c]]
      | u # us \<Rightarrow> (case u of
            [] \<Rightarrow> [c] # us
          | d # _ \<Rightarrow> if is_cont d then (c # u) # us else [c] # u # us))"

lemma concat_utf8_chars [simp]: "concat (utf8_chars s) = s"
  by (induction s) (auto split: list.splits)

lemma utf8_chars_nonempty: "u \<in> set (utf8_chars s) \<Longrightarrow> u \<noteq> []"
  by (induction s arbitrary: u) (auto split: list.splits if_splits)

definition utf8_take :: "nat \<Rightarrow> string \<Rightarrow> string" where
  "utf8_take n s = concat (take n (utf8_chars s))"

definition is_upper :: "char \<Rightarrow> bool" where
  "is_upper c \<longleftrightarrow> (let n = (of_char c :: nat) in 65 \<le> n \<and> n \<le> 90)"

definition is_lower :: "char \<Rightarrow> bool" where
  "is_lower c \<longleftrightarrow> (let n = (of_char c :: nat) in 97 \<le> n \<and> n \<le> 122)"

definition is_letter :: "char \<Rightarrow> bool" where
  "is_letter c \<longleftrightarrow> is_upper c \<or> is_lower c"

text \<open>\<open>c.isalpha()\<close> and \<open>c.isalnum()\<close> of one character: ASCII written out, the Unicode database
  beyond it a parameter.\<close>

definition char_isalpha :: "(string \<Rightarrow> bool) \<Rightarrow> string \<Rightarrow> bool" where
  "char_isalpha uni u =
     (case u of [c] \<Rightarrow> if (of_char c :: nat) < 128 then is_letter c else uni u | _ \<Rightarrow> uni u)"

definition char_isalnum :: "(string \<Rightarrow> bool) \<Rightarrow> string \<Rightarrow> bool" where
  "char_isalnum uni u =
     (case u of [c] \<Rightarrow> if (of_char c :: nat) < 128 then is_letter c \<or> is_digit c else uni u
      | _ \<Rightarrow> uni u)"

text \<open>\<open>name.rfind('.')\<close> as \<open>pathlib\<close> uses it: the suffix of a file name is its last dot and what
  follows, unless the dot is first or last; the stem is what precedes it.\<close>

definition path_suffix :: "string \<Rightarrow> string" where
  "path_suffix name =
     (let ext = rev (takeWhile (\<lambda>c. c \<noteq> CHR ''.'') (rev name)); stem_len = length name - length ext - 1
      in if length ext < length name \<and> ext \<noteq> [] \<and> 0 < stem_len then CHR ''.'' # ext else [])"

definition path_stem :: "string \<Rightarrow> string" where
  "path_stem name = take (length name - length (path_suffix name)) name"

text \<open>\<open>f"{n:,}"\<close>: groups of three digits.\<close>

fun group3 :: "nat \<Rightarrow> string" where
  "group3 n = (if n < 1000 then show_nat n
     else group3 (n div 1000) @ '','' @ (let r = n mod 1000 in
       (if r < 10 then ''00'' else if r < 100 then ''0'' else []) @ show_nat r))"

declare group3.simps [simp del]

definition show_grouped :: "int \<Rightarrow> string" where
  "show_grouped i = (if i < 0 then ''-'' @ group3 (nat (- i)) else group3 (nat i))"

end
