(* ===== verification/Unpack_Detect.thy ===== *)
theory Unpack_Detect
  imports Bytes_Text Py_Values
begin

text \<open>
  Container detection (\<open>core/unpack/detect.py\<close>): the format table, the PE overlay, and
  \<open>detect\<close> over a file's name and bytes. An unreadable file is \<open>None\<close> content. Confidences
  are the exact decimal values of the source's floats.
\<close>

datatype container =
    ZIP | SEVENZIP | TAR | GZIP | BZIP2 | XZ | RAR | CAB | MSI | ISO | NSIS | INNO | SQUASHFS
  | CPIO | DMG | ASAR | PYINSTALLER | JAR | APK | NONE

fun container_value :: "container \<Rightarrow> string" where
  "container_value ZIP = ''zip''"
| "container_value SEVENZIP = ''7z''"
| "container_value TAR = ''tar''"
| "container_value GZIP = ''gzip''"
| "container_value BZIP2 = ''bzip2''"
| "container_value XZ = ''xz''"
| "container_value RAR = ''rar''"
| "container_value CAB = ''cab''"
| "container_value MSI = ''msi''"
| "container_value ISO = ''iso''"
| "container_value NSIS = ''nsis''"
| "container_value INNO = ''inno''"
| "container_value SQUASHFS = ''squashfs''"
| "container_value CPIO = ''cpio''"
| "container_value DMG = ''dmg''"
| "container_value ASAR = ''asar''"
| "container_value PYINSTALLER = ''pyinstaller''"
| "container_value JAR = ''jar''"
| "container_value APK = ''apk''"
| "container_value NONE = ''none''"

definition is_container :: "container \<Rightarrow> bool" where
  "is_container c \<longleftrightarrow> c \<noteq> NONE"

record detection =
  det_container :: container
  det_confidence :: rat
  det_reason :: string

definition should_unpack :: "detection \<Rightarrow> bool" where
  "should_unpack d \<longleftrightarrow> is_container (det_container d) \<and> det_confidence d \<ge> 1 / 2"

definition mk_detection :: "container \<Rightarrow> rat \<Rightarrow> string \<Rightarrow> detection" where
  "mk_detection c p r = \<lparr>det_container = c, det_confidence = p, det_reason = r\<rparr>"

definition MAGIC :: "(nat \<times> bytes \<times> container) list" where
  "MAGIC =
     [(0, [0x37, 0x7A, 0xBC, 0xAF, 0x27, 0x1C], SEVENZIP),
      (0, bytes_of ''Rar!'' @ [0x1A, 0x07], RAR),
      (0, bytes_of ''MSCF'', CAB),
      (0, bytes_of ''hsqs'', SQUASHFS),
      (0, bytes_of ''sqsh'', SQUASHFS),
      (0, [0xFD] @ bytes_of ''7zXZ'' @ [0x00], XZ),
      (0, bytes_of ''BZh'', BZIP2),
      (0, [0x1F, 0x8B], GZIP),
      (0, [0xD0, 0xCF, 0x11, 0xE0, 0xA1, 0xB1, 0x1A, 0xE1], MSI),
      (0, bytes_of ''070701'', CPIO),
      (0, bytes_of ''070707'', CPIO),
      (257, bytes_of ''ustar'', TAR),
      (0x8001, bytes_of ''CD001'', ISO),
      (0, bytes_of ''PK'' @ [0x03, 0x04], ZIP),
      (0, bytes_of ''PK'' @ [0x05, 0x06], ZIP)]"

definition ZIP_FAMILY_EXTENSIONS :: "(string \<times> container) list" where
  "ZIP_FAMILY_EXTENSIONS =
     [(''.jar'', JAR), (''.war'', JAR), (''.ear'', JAR), (''.apk'', APK), (''.aab'', APK),
      (''.ipa'', ZIP), (''.whl'', ZIP), (''.nupkg'', ZIP), (''.vsix'', ZIP), (''.xpi'', ZIP),
      (''.docx'', ZIP), (''.xlsx'', ZIP), (''.pptx'', ZIP), (''.appx'', ZIP)]"

definition EXTENSION_ONLY :: "(string \<times> container) list" where
  "EXTENSION_ONLY =
     [(''.asar'', ASAR), (''.tgz'', GZIP), (''.tbz2'', BZIP2), (''.txz'', XZ), (''.dmg'', DMG)]"

definition PE_INSTALLER_MARKERS :: "(bytes \<times> container) list" where
  "PE_INSTALLER_MARKERS =
     [(bytes_of ''Nullsoft'', NSIS), (bytes_of ''NullsoftInst'', NSIS),
      (bytes_of ''Inno Setup'', INNO), (bytes_of ''JR.Inno.Setup'', INNO),
      (bytes_of ''_MEIPASS'', PYINSTALLER),
      (bytes_of ''MEI'' @ [0x0C, 0x0B, 0x0A, 0x0B, 0x0E], PYINSTALLER),
      (bytes_of ''PyInstaller'', PYINSTALLER)]"

definition SNIFF_BYTES :: nat where "SNIFF_BYTES = 0x8100"
definition TAIL_BYTES :: nat where "TAIL_BYTES = 512 * 1024"
definition OVERLAY_BYTES :: nat where "OVERLAY_BYTES = 256 * 1024"

subsection \<open>Where a PE's appended data begins\<close>

definition read_at :: "nat \<Rightarrow> nat \<Rightarrow> bytes \<Rightarrow> bytes" where
  "read_at pos n content = take n (drop pos content)"

text \<open>The loop over the section table; a short entry ends it.\<close>

fun sections_end :: "bytes \<Rightarrow> nat \<Rightarrow> nat \<Rightarrow> nat" where
  "sections_end table 0 final = final"
| "sections_end table (Suc n) final =
     (let entry = take 40 table in
      if length entry < 40 then final
      else
        (let raw_size = from_le (slice 16 20 entry); raw_offset = from_le (slice 20 24 entry)
         in sections_end (drop 40 table) n
              (if raw_offset \<noteq> 0 \<and> raw_size \<noteq> 0 then max final (raw_offset + raw_size) else final)))"

definition MZ :: bytes where "MZ = bytes_of ''MZ''"

definition overlay_offset :: "bytes \<Rightarrow> bytes \<Rightarrow> nat option" where
  "overlay_offset content header =
     (let size = length content in
      if length header < 0x40 \<or> \<not> starts_with MZ header then None
      else let pe_offset = from_le (slice 0x3C 0x40 header) in
      if pe_offset = 0 \<or> pe_offset > size then None
      else let coff = read_at pe_offset 24 content in
      if length coff < 24 \<or> \<not> starts_with (bytes_of ''PE'' @ [0, 0]) coff then None
      else let section_count = from_le (slice 6 8 coff); optional_size = from_le (slice 20 22 coff) in
      if \<not> (0 < section_count \<and> section_count \<le> 96) then None
      else let table = read_at (pe_offset + 24 + optional_size) (40 * section_count) content;
               last = sections_end table section_count 0 in
      if 0 < last \<and> last < size then Some last else None)"

subsection \<open>The decision\<close>

definition head_of :: "bytes \<Rightarrow> bytes" where
  "head_of content = take SNIFF_BYTES content"

definition tail_of :: "bytes \<Rightarrow> bytes" where
  "tail_of content =
     (if length content > SNIFF_BYTES then read_at (length content - TAIL_BYTES) TAIL_BYTES content
      else [])"

definition overlay_of :: "bytes \<Rightarrow> bytes" where
  "overlay_of content =
     (if starts_with MZ (head_of content)
      then (case overlay_offset content (head_of content) of
              None \<Rightarrow> [] | Some start \<Rightarrow> read_at start OVERLAY_BYTES content)
      else [])"

definition magic_at :: "bytes \<Rightarrow> nat \<times> bytes \<times> container \<Rightarrow> bool" where
  "magic_at head entry = (case entry of (offset, magic, c) \<Rightarrow>
     slice offset (offset + length magic) head = magic)"

definition magic_detection :: "string \<Rightarrow> nat \<times> bytes \<times> container \<Rightarrow> detection" where
  "magic_detection suffix entry = (case entry of (offset, magic, c) \<Rightarrow>
     (case (if c = ZIP then map_of ZIP_FAMILY_EXTENSIONS suffix else None) of
        Some c' \<Rightarrow> mk_detection c' (95 / 100) (''zip signature with '' @ suffix)
      | None \<Rightarrow> mk_detection c (95 / 100) (''magic at offset '' @ show_nat offset)))"

definition detect_pe :: "bytes \<Rightarrow> detection" where
  "detect_pe content =
     (let haystack = head_of content @ overlay_of content @ tail_of content in
      case List.find (\<lambda>(marker, c). contains marker haystack) PE_INSTALLER_MARKERS of
        Some (marker, c) \<Rightarrow>
          mk_detection c (85 / 100) (''PE containing '' @ repr_str (latin1 marker))
      | None \<Rightarrow> mk_detection NONE (9 / 10) ''PE with no installer payload detected'')"

definition detect_content :: "string \<Rightarrow> bytes \<Rightarrow> detection" where
  "detect_content name content =
     (let head = head_of content; suffix = py_lower (path_suffix name) in
      if length content < 16 then mk_detection NONE 1 ''too small to be a container''
      else case map_of EXTENSION_ONLY suffix of
        Some c \<Rightarrow> mk_detection c (7 / 10) (''extension '' @ suffix)
      | None \<Rightarrow>
          (case List.find (magic_at head) MAGIC of
             Some entry \<Rightarrow> magic_detection suffix entry
           | None \<Rightarrow>
               if starts_with MZ head then detect_pe content
               else mk_detection NONE (8 / 10) ''no container signature''))"

text \<open>\<open>detect(path)\<close>: the reason of an unreadable file ends in the operating system's text.\<close>

definition detect :: "string \<Rightarrow> string + bytes \<Rightarrow> detection" where
  "detect name file =
     (case file of
        Inl err \<Rightarrow> mk_detection NONE 0 (''unreadable: '' @ err)
      | Inr content \<Rightarrow> detect_content name content)"

text \<open>\<open>is_probably_text\<close>: \<open>printable / len(sample) > 0.90\<close>.\<close>

definition is_text_byte :: "byte \<Rightarrow> bool" where
  "is_text_byte b \<longleftrightarrow> 0x20 \<le> b \<and> b < 0x7F \<or> b = 0x09 \<or> b = 0x0A \<or> b = 0x0D"

definition is_probably_text :: "string + bytes \<Rightarrow> nat \<Rightarrow> bool" where
  "is_probably_text file sample_bytes =
     (case file of
        Inl _ \<Rightarrow> False
      | Inr content \<Rightarrow>
          (let sample = take sample_bytes content in
           sample \<noteq> [] \<and> 0 \<notin> set sample \<and>
           of_nat (length (filter is_text_byte sample)) / of_nat (length sample) > (90 / 100 :: rat)))"

subsection \<open>Facts\<close>

lemma magic_table_containers:
  "(off, mg, c) \<in> set MAGIC \<Longrightarrow> c \<noteq> NONE"
  by (auto simp: MAGIC_def)

lemma family_containers: "map_of ZIP_FAMILY_EXTENSIONS s = Some c \<Longrightarrow> c \<in> {ZIP, JAR, APK}"
  by (auto simp: ZIP_FAMILY_EXTENSIONS_def split: if_splits)

lemma extension_only_containers: "map_of EXTENSION_ONLY s = Some c \<Longrightarrow> c \<noteq> NONE"
  by (auto simp: EXTENSION_ONLY_def split: if_splits)

lemma marker_containers: "(mk, c) \<in> set PE_INSTALLER_MARKERS \<Longrightarrow> c \<noteq> NONE"
  by (auto simp: PE_INSTALLER_MARKERS_def)

lemma magic_detection_unpacks:
  assumes "entry \<in> set MAGIC"
  shows "should_unpack (magic_detection suffix entry)"
proof -
  obtain off mg c where e: "entry = (off, mg, c)" by (cases entry)
  with assms have "c \<noteq> NONE" using magic_table_containers by blast
  then show ?thesis
    by (auto simp: e magic_detection_def should_unpack_def is_container_def mk_detection_def
        dest: family_containers split: option.split)
qed

lemma overlay_offset_inside: "overlay_offset content header = Some n \<Longrightarrow> 0 < n \<and> n < length content"
  by (auto simp: overlay_offset_def Let_def split: if_splits)

lemma detect_pe_unpacks:
  "should_unpack (detect_pe content) \<longleftrightarrow>
     (\<exists>(marker, c) \<in> set PE_INSTALLER_MARKERS.
        contains marker (head_of content @ overlay_of content @ tail_of content))"
  (is "?L \<longleftrightarrow> ?R")
proof (cases "List.find (\<lambda>(marker, c). contains marker
    (head_of content @ overlay_of content @ tail_of content)) PE_INSTALLER_MARKERS")
  case None
  then have "\<not> ?R" by (auto simp: find_None_iff)
  moreover from None have "\<not> ?L"
    by (simp add: detect_pe_def Let_def should_unpack_def is_container_def mk_detection_def)
  ultimately show ?thesis by simp
next
  case (Some e)
  then obtain mk c where e: "e = (mk, c)" by (cases e)
  from find_SomeD [OF Some] e have mem: "(mk, c) \<in> set PE_INSTALLER_MARKERS"
    and hit: "contains mk (head_of content @ overlay_of content @ tail_of content)" by auto
  from mem have "c \<noteq> NONE" by (rule marker_containers)
  with Some e have ?L
    by (simp add: detect_pe_def Let_def should_unpack_def is_container_def mk_detection_def)
  moreover from mem hit have ?R by blast
  ultimately show ?thesis by simp
qed

lemma starts_with_take: "length p \<le> n \<Longrightarrow> starts_with p (take n ys) \<longleftrightarrow> starts_with p ys"
proof (induction p ys arbitrary: n rule: starts_with.induct)
  case (3 x xs y ys)
  then show ?case by (cases n) auto
qed auto

lemma contains_mono: "contains p ys \<Longrightarrow> contains p (xs @ ys @ zs)"
  by (metis append.assoc contains_iff)

lemma extension_keys: "x \<in> fst ` set EXTENSION_ONLY \<longleftrightarrow> map_of EXTENSION_ONLY x \<noteq> None"
  by (simp add: map_of_eq_None_iff)

lemma unpacked_core:
  "should_unpack (detect name file) \<longleftrightarrow>
     (\<exists>content. file = Inr content \<and> 16 \<le> length content \<and>
       (map_of EXTENSION_ONLY (py_lower (path_suffix name)) \<noteq> None
        \<or> (\<exists>entry \<in> set MAGIC. magic_at (head_of content) entry)
        \<or> starts_with MZ content
          \<and> (\<exists>(marker, c) \<in> set PE_INSTALLER_MARKERS.
               contains marker (head_of content @ overlay_of content @ tail_of content))))"
proof (cases "file")
  case (Inl e)
  then show ?thesis by (simp add: detect_def should_unpack_def mk_detection_def is_container_def)
next
  case (Inr content)
  have mz: "starts_with MZ (head_of content) \<longleftrightarrow> starts_with MZ content"
    by (simp add: head_of_def SNIFF_BYTES_def MZ_def bytes_of_def starts_with_take)
  show ?thesis
  proof (cases "length content < 16")
    case True
    then show ?thesis
      by (simp add: Inr detect_def detect_content_def Let_def should_unpack_def mk_detection_def
          is_container_def)
  next
    case big: False
    show ?thesis
    proof (cases "map_of EXTENSION_ONLY (py_lower (path_suffix name))")
      case (Some c)
      then have "c \<noteq> NONE" by (rule extension_only_containers)
      with big Some show ?thesis
        by (simp add: Inr detect_def detect_content_def Let_def should_unpack_def mk_detection_def
            is_container_def)
    next
      case no_ext: None
      show ?thesis
      proof (cases "List.find (magic_at (head_of content)) MAGIC")
        case (Some entry)
        then have "entry \<in> set MAGIC" "magic_at (head_of content) entry"
          by (auto dest: find_SomeD)
        with big no_ext Some show ?thesis
          by (auto simp: Inr detect_def detect_content_def Let_def magic_detection_unpacks)
      next
        case None
        then have none: "\<not> (\<exists>entry \<in> set MAGIC. magic_at (head_of content) entry)"
          unfolding find_None_iff by blast
        have "detect name file = (if starts_with MZ content then detect_pe content
            else mk_detection NONE (8 / 10) ''no container signature'')"
          using big no_ext None mz by (simp add: Inr detect_def detect_content_def Let_def)
        moreover have "\<not> should_unpack (mk_detection NONE (8 / 10) ''no container signature'')"
          by (simp add: should_unpack_def mk_detection_def is_container_def)
        ultimately show ?thesis
          using big no_ext none detect_pe_unpacks [of content] by (simp add: Inr)
      qed
    qed
  qed
qed

text \<open>The container a file is opened as depends on nothing but its name's suffix and its
  bytes, and the three ways in are exhaustive: a file is unpacked exactly when it is at least 16
  bytes long and either its suffix is one of the extension-only ones, or a magic number is at its
  offset in the sniffed head, or it is a PE with an installer marker in its head, in the start of
  its overlay or in its tail.\<close>

theorem unpacked_iff:
  "should_unpack (detect name file) \<longleftrightarrow>
     (\<exists>content. file = Inr content \<and> 16 \<le> length content \<and>
       (py_lower (path_suffix name) \<in> fst ` set EXTENSION_ONLY
        \<or> (\<exists>entry \<in> set MAGIC. magic_at (head_of content) entry)
        \<or> starts_with MZ content
          \<and> (\<exists>(marker, c) \<in> set PE_INSTALLER_MARKERS.
               contains marker (head_of content @ overlay_of content @ tail_of content))))"
  by (simp only: extension_keys unpacked_core)

text \<open>An installer marker in the first 256 KiB of a PE's overlay is always found, wherever the
  overlay lies in the file, so the payload of a large installer is opened.\<close>

theorem overlay_marker_unpacked:
  assumes "starts_with MZ content" "16 \<le> length content"
    and "overlay_offset content (head_of content) = Some start"
    and "(marker, c) \<in> set PE_INSTALLER_MARKERS"
    and "contains marker (read_at start OVERLAY_BYTES content)"
  shows "should_unpack (detect name (Inr content))"
proof -
  have mz: "starts_with MZ (head_of content)"
    using assms(1) by (simp add: head_of_def SNIFF_BYTES_def MZ_def bytes_of_def starts_with_take)
  have "overlay_of content = read_at start OVERLAY_BYTES content"
    using mz assms(3) by (simp add: overlay_of_def)
  then have "contains marker (head_of content @ overlay_of content @ tail_of content)"
    using assms(5) by (simp add: contains_mono)
  then have hit: "\<exists>(marker, c) \<in> set PE_INSTALLER_MARKERS.
      contains marker (head_of content @ overlay_of content @ tail_of content)"
    using assms(4) by blast
  then have pe: "should_unpack (detect_pe content)" by (simp only: detect_pe_unpacks)
  show ?thesis
  proof (cases "map_of EXTENSION_ONLY (py_lower (path_suffix name))")
    case (Some c')
    then have "c' \<noteq> NONE" by (rule extension_only_containers)
    with Some assms(2) show ?thesis
      by (simp add: detect_def detect_content_def Let_def should_unpack_def mk_detection_def
          is_container_def)
  next
    case None
    show ?thesis
    proof (cases "List.find (magic_at (head_of content)) MAGIC")
      case (Some entry)
      then have "entry \<in> set MAGIC" by (auto dest: find_SomeD)
      with None Some assms(2) show ?thesis
        by (simp add: detect_def detect_content_def Let_def magic_detection_unpacks)
    next
      case no: None
      with None assms(2) mz pe show ?thesis
        by (simp add: detect_def detect_content_def Let_def)
    qed
  qed
qed

text \<open>A minimal PE: one section that ends at byte 144, and an installer marker behind it.\<close>

definition sample_pe :: bytes where
  "sample_pe =
     bytes_of ''MZ'' @ replicate 58 0 @ [64, 0, 0, 0]
     @ bytes_of ''PE'' @ [0, 0, 0, 0, 1, 0] @ replicate 16 0
     @ replicate 16 0 @ [16, 0, 0, 0, 128, 0, 0, 0] @ replicate 16 0
     @ replicate 16 0 @ bytes_of ''Nullsoft''"

lemma sample_pe_parts:
  "head_of sample_pe = sample_pe" "length sample_pe = 152" "starts_with MZ sample_pe"
  "slice 60 64 sample_pe = [64, 0, 0, 0]"
  "read_at 64 24 sample_pe = bytes_of ''PE'' @ [0, 0, 0, 0, 1, 0] @ replicate 16 0"
  "read_at 88 40 sample_pe = replicate 16 0 @ [16, 0, 0, 0, 128, 0, 0, 0] @ replicate 16 0"
  by (simp_all add: head_of_def SNIFF_BYTES_def sample_pe_def MZ_def bytes_of_def slice_def read_at_def)

lemma from_le_zeros: "from_le (replicate n 0) = 0"
  by (induction n) auto

lemma sample_pe_overlay: "overlay_offset sample_pe (head_of sample_pe) = Some 144"
  apply (simp add: overlay_offset_def sample_pe_parts Let_def)
  apply (simp add: slice_def bytes_of_def from_le_zeros sample_pe_parts Let_def)
  done

theorem overlay_marker_unpacked_witness: "should_unpack (detect ''setup.exe'' (Inr sample_pe))"
proof (rule overlay_marker_unpacked [of sample_pe 144 "bytes_of ''Nullsoft''" NSIS])
  show "overlay_offset sample_pe (head_of sample_pe) = Some 144" by (rule sample_pe_overlay)
  show "starts_with MZ sample_pe" by (simp add: sample_pe_def MZ_def bytes_of_def)
  show "16 \<le> length sample_pe" by (simp add: sample_pe_def)
  show "(bytes_of ''Nullsoft'', NSIS) \<in> set PE_INSTALLER_MARKERS"
    by (simp add: PE_INSTALLER_MARKERS_def)
  show "contains (bytes_of ''Nullsoft'') (read_at 144 OVERLAY_BYTES sample_pe)"
    by (simp add: sample_pe_def read_at_def OVERLAY_BYTES_def bytes_of_def)
qed

end
