(* ===== verification/Unpack_Fs.thy ===== *)
theory Unpack_Fs
  imports Bytes_Text Py_Dict
begin

text \<open>
  The file system the extractor writes to: absolute paths as lists of names, mapped to files,
  directories and symbolic links (\<open>Link absolute target\<close>); the root directory is the empty path.
  \<open>mkdirs\<close> is \<open>Path.mkdir(parents=True, exist_ok=True)\<close>, \<open>write_file\<close> is \<open>open("wb")\<close> and the
  bytes written through it, \<open>resolve\<close> is \<open>Path.resolve()\<close> (links followed, \<open>..\<close> climbing). Paths
  given to \<open>mkdirs\<close> and \<open>write_file\<close> are resolved ones. Failures carry the operating system's
  text. Only the failures the program's own actions can cause are modelled, not a failing disk.
\<close>

type_synonym path = "string list"

datatype fnode = File bytes | Dir | Link bool "string list"

type_synonym fs = "(path, fnode) dict"

definition lookup :: "fs \<Rightarrow> path \<Rightarrow> fnode option" where
  "lookup fs p = (if p = [] then Some Dir else map_of fs p)"

definition path_str :: "path \<Rightarrow> string" where
  "path_str p = ''/'' @ join ''/'' p"

definition os_error :: "string \<Rightarrow> path \<Rightarrow> string" where
  "os_error text p = text @ '': '' @ CHR 0x27 # path_str p @ [CHR 0x27]"

definition ENOENT :: string where "ENOENT = ''[Errno 2] No such file or directory''"
definition EEXIST :: string where "EEXIST = ''[Errno 17] File exists''"
definition ENOTDIR :: string where "ENOTDIR = ''[Errno 20] Not a directory''"
definition EISDIR :: string where "EISDIR = ''[Errno 21] Is a directory''"
definition ELOOP :: string where "ELOOP = ''[Errno 40] Too many levels of symbolic links''"

fun is_dir_node :: "fnode option \<Rightarrow> bool" where
  "is_dir_node (Some Dir) = True"
| "is_dir_node _ = False"

text \<open>The non-empty prefixes of a path, outermost first, without the path itself.\<close>

definition strict_prefixes :: "path \<Rightarrow> path list" where
  "strict_prefixes p = map (\<lambda>n. take n p) [1..<length p]"

definition mkdir_one :: "path \<Rightarrow> fs \<Rightarrow> fs" where
  "mkdir_one q fs = (if lookup fs q = None then AList.update q Dir fs else fs)"

definition mkdirs :: "path \<Rightarrow> fs \<Rightarrow> string + fs" where
  "mkdirs p fs =
     (if \<exists>q \<in> set (strict_prefixes p). lookup fs q \<noteq> None \<and> \<not> is_dir_node (lookup fs q)
      then Inl (os_error ENOTDIR p)
      else if lookup fs p \<noteq> None \<and> \<not> is_dir_node (lookup fs p) then Inl (os_error EEXIST p)
      else Inr (fold mkdir_one (strict_prefixes p @ [p]) fs))"

definition write_file :: "path \<Rightarrow> bytes \<Rightarrow> fs \<Rightarrow> string + fs" where
  "write_file p data fs =
     (case lookup fs p of
        Some Dir \<Rightarrow> Inl (os_error EISDIR p)
      | Some (Link a t) \<Rightarrow> Inl (os_error ELOOP p)
      | _ \<Rightarrow> if is_dir_node (lookup fs (butlast p)) then Inr (AList.update p (File data) fs)
             else Inl (os_error ENOENT p))"

definition read_file :: "path \<Rightarrow> fs \<Rightarrow> string + bytes" where
  "read_file p fs =
     (case lookup fs p of
        Some (File data) \<Rightarrow> Inr data
      | Some Dir \<Rightarrow> Inl (os_error EISDIR p)
      | _ \<Rightarrow> Inl (os_error ENOENT p))"

definition unlink :: "path \<Rightarrow> fs \<Rightarrow> fs" where
  "unlink p fs = AList.delete p fs"

text \<open>Each component or link costs one unit of fuel; 4096 is the longest path the operating
  system accepts. A path that runs out (a link loop) is left unresolved, as \<open>realpath\<close> leaves it.\<close>

fun resolve_from :: "nat \<Rightarrow> fs \<Rightarrow> path \<Rightarrow> string list \<Rightarrow> path" where
  "resolve_from fuel fs base [] = base"
| "resolve_from 0 fs base comps = base @ comps"
| "resolve_from (Suc fuel) fs base (c # cs) =
     (if c = '''' \<or> c = ''.'' then resolve_from fuel fs base cs
      else if c = ''..'' then resolve_from fuel fs (butlast base) cs
      else (case lookup fs (base @ [c]) of
              Some (Link absolute target) \<Rightarrow>
                resolve_from fuel fs (if absolute then [] else base) (target @ cs)
            | _ \<Rightarrow> resolve_from fuel fs (base @ [c]) cs))"

definition resolve :: "fs \<Rightarrow> path \<Rightarrow> path" where
  "resolve fs p = resolve_from 4096 fs [] p"

text \<open>The bytes held by the files at or beneath a directory.\<close>

fun node_bytes :: "fnode \<Rightarrow> nat" where
  "node_bytes (File data) = length data"
| "node_bytes _ = 0"

definition disk_bytes :: "path \<Rightarrow> fs \<Rightarrow> nat" where
  "disk_bytes root fs = (\<Sum>(p, n) \<leftarrow> fs. if starts_with root p then node_bytes n else 0)"

subsection \<open>Lookups after the operations\<close>

lemma lookup_Nil [simp]: "lookup fs [] = Some Dir"
  by (simp add: lookup_def)

lemma lookup_update: "p \<noteq> [] \<Longrightarrow> lookup (AList.update p n fs) q = (if q = p then Some n else lookup fs q)"
  by (simp add: lookup_def dict_simps)

lemma is_dir_node_iff: "is_dir_node x \<longleftrightarrow> x = Some Dir"
  by (cases x rule: is_dir_node.cases) auto

lemma lookup_mkdir_one:
  "lookup (mkdir_one p fs) q = (if q = p \<and> lookup fs p = None then Some Dir else lookup fs q)"
  by (cases "p = []") (auto simp: mkdir_one_def lookup_update)

lemma lookup_fold_mkdir:
  "lookup (fold mkdir_one ps fs) q = (if q \<in> set ps \<and> lookup fs q = None then Some Dir else lookup fs q)"
  by (induction ps arbitrary: fs) (auto simp: lookup_mkdir_one)

lemma strict_prefixes_mem: "q \<in> set (strict_prefixes p) \<longleftrightarrow> (\<exists>n. 1 \<le> n \<and> n < length p \<and> q = take n p)"
  by (auto simp: strict_prefixes_def)

lemma mkdirs_lookup:
  "mkdirs p fs = Inr fs' \<Longrightarrow>
     lookup fs' q = (if (q = p \<or> q \<in> set (strict_prefixes p)) \<and> lookup fs q = None then Some Dir
                     else lookup fs q)"
  by (auto simp: mkdirs_def lookup_fold_mkdir lookup_mkdir_one split: if_splits)

lemma mkdirs_dir: "mkdirs p fs = Inr fs' \<Longrightarrow> lookup fs' p = Some Dir"
  by (auto simp: mkdirs_def lookup_fold_mkdir lookup_mkdir_one is_dir_node_iff split: if_splits)

lemma write_file_lookup:
  "write_file p data fs = Inr fs' \<Longrightarrow> lookup fs' q = (if q = p then Some (File data) else lookup fs q)"
  by (cases "p = []")
     (auto simp: write_file_def lookup_update split: option.splits fnode.splits if_splits)

lemma write_file_not_dir: "write_file p data fs = Inr fs' \<Longrightarrow> lookup fs p \<noteq> Some Dir"
  by (auto simp: write_file_def)

subsection \<open>A directory and what lies outside it\<close>

definition dir_ready :: "path \<Rightarrow> fs \<Rightarrow> bool" where
  "dir_ready d fs \<longleftrightarrow> (\<forall>n. lookup fs (take n d) = Some Dir)"

definition outside_same :: "path \<Rightarrow> fs \<Rightarrow> fs \<Rightarrow> bool" where
  "outside_same d fs fs' \<longleftrightarrow> (\<forall>q. \<not> starts_with d q \<longrightarrow> lookup fs' q = lookup fs q)"

lemma outside_same_refl [simp]: "outside_same d fs fs"
  by (simp add: outside_same_def)

lemma outside_same_trans: "outside_same d a b \<Longrightarrow> outside_same d b c \<Longrightarrow> outside_same d a c"
  by (simp add: outside_same_def)

lemma starts_with_prefix_cases:
  assumes "starts_with d p"
  shows "starts_with d (take n p) \<or> (\<exists>m. take n p = take m d)"
proof -
  obtain r where p: "p = d @ r" using assms by (auto simp: starts_with_append)
  show ?thesis
  proof (cases "n \<le> length d")
    case True
    then show ?thesis by (auto simp: p)
  next
    case False
    then show ?thesis by (auto simp: p starts_with_append)
  qed
qed

lemma mkdirs_inside:
  assumes m: "mkdirs p fs = Inr fs'" and d: "dir_ready d fs"
    and at: "starts_with d p \<or> (\<exists>m. p = take m d)"
  shows "dir_ready d fs' \<and> outside_same d fs fs'"
proof
  have keep: "lookup fs' (take n d) = Some Dir" for n
    using mkdirs_lookup [OF m, of "take n d"] d by (auto simp: dir_ready_def)
  then show "dir_ready d fs'" by (simp add: dir_ready_def)
  show "outside_same d fs fs'"
    unfolding outside_same_def
  proof (intro allI impI)
    fix q assume out: "\<not> starts_with d q"
    show "lookup fs' q = lookup fs q"
    proof (cases "q = p \<or> q \<in> set (strict_prefixes p)")
      case True
      then obtain n where q: "q = take n p"
        by (metis strict_prefixes_mem take_all_iff order_refl)
      have "\<exists>m. q = take m d"
      proof (cases "starts_with d p")
        case True
        then show ?thesis using starts_with_prefix_cases [of d p n] out q by auto
      next
        case False
        with at obtain m where "p = take m d" by blast
        with q show ?thesis by (metis take_take)
      qed
      then show ?thesis using keep d by (auto simp: dir_ready_def)
    next
      case False
      then show ?thesis using mkdirs_lookup [OF m, of q] by auto
    qed
  qed
qed

lemma write_inside:
  assumes w: "write_file p data fs = Inr fs'" and d: "dir_ready d fs" and "starts_with d p"
  shows "dir_ready d fs' \<and> outside_same d fs fs'"
proof
  have "take n d \<noteq> p" for n
    using write_file_not_dir [OF w] d by (auto simp: dir_ready_def)
  then show "dir_ready d fs'" using d write_file_lookup [OF w] by (auto simp: dir_ready_def)
  show "outside_same d fs fs'"
    using assms(3) write_file_lookup [OF w] by (auto simp: outside_same_def)
qed

subsection \<open>Disk usage\<close>

lemma disk_bytes_update:
  "disk_bytes root (AList.update p n fs) \<le> disk_bytes root fs + node_bytes n"
  by (induction fs) (auto simp: disk_bytes_def)

lemma disk_bytes_mkdir_one: "disk_bytes root (mkdir_one p fs) \<le> disk_bytes root fs"
  using disk_bytes_update [of root p Dir fs] by (simp add: mkdir_one_def)

lemma disk_bytes_fold_mkdir: "disk_bytes root (fold mkdir_one ps fs) \<le> disk_bytes root fs"
proof (induction ps arbitrary: fs)
  case (Cons p ps)
  have "disk_bytes root (fold mkdir_one ps (mkdir_one p fs)) \<le> disk_bytes root (mkdir_one p fs)"
    by (rule Cons.IH)
  also have "\<dots> \<le> disk_bytes root fs" by (rule disk_bytes_mkdir_one)
  finally show ?case by simp
qed simp

lemma mkdirs_disk: "mkdirs p fs = Inr fs' \<Longrightarrow> disk_bytes root fs' \<le> disk_bytes root fs"
  using disk_bytes_fold_mkdir [of root "strict_prefixes p @ [p]" fs]
  by (auto simp: mkdirs_def split: if_splits)

lemma write_disk: "write_file p data fs = Inr fs' \<Longrightarrow> disk_bytes root fs' \<le> disk_bytes root fs + length data"
  using disk_bytes_update [of root p "File data" fs]
  by (auto simp: write_file_def split: option.splits fnode.splits if_splits)

end
