(* ===== verification/Unpack_Extractor.thy ===== *)
theory Unpack_Extractor
  imports Unpack_Budget Unpack_Detect Unpack_Fs Canonical_Order
begin

text \<open>
  Recursive extraction (\<open>core/unpack/extractor.py\<close>). The state is the budget, the result's nodes
  and errors, and the file system. What opens an archive's bytes (\<open>zipfile\<close>, \<open>tarfile\<close>, \<open>gzip\<close>,
  \<open>json\<close>, the \<open>7z\<close> and \<open>unsquashfs\<close> programs, the Unicode database) is the record \<open>tools\<close>: an
  archive is its list of entries with the sizes they declare and the bytes they deliver, possibly
  cut short by an exception; \<open>t_json\<close> is \<open>json.loads(raw.rstrip(NUL).decode("utf-8"))\<close>. \<open>_walk\<close> recurses with fuel; \<open>walk_has_enough_fuel\<close> below shows that
  \<open>max_depth + 2\<close> always suffices.
\<close>

subsection \<open>Archives and tools\<close>

record zip_entry =
  ze_filename :: string
  ze_is_dir :: bool
  ze_file_size :: int
  ze_open :: "string + (bytes \<times> string option)"

record tar_entry =
  te_name :: string
  te_isfile :: bool
  te_size :: int
  te_extract :: "(bytes \<times> string option) option"

datatype tool_outcome = Timeout string | Exited int string

record tools =
  t_alpha :: "string \<Rightarrow> bool"
  t_alnum :: "string \<Rightarrow> bool"
  t_zip :: "bytes \<Rightarrow> string + zip_entry list"
  t_is_tar :: "bytes \<Rightarrow> bool"
  t_tar :: "bytes \<Rightarrow> string + tar_entry list"
  t_gunzip :: "bytes \<Rightarrow> bytes \<times> string option"
  t_json :: "bytes \<Rightarrow> string + pyval"
  t_7z :: "(path \<Rightarrow> path \<Rightarrow> fs \<Rightarrow> tool_outcome \<times> fs) option"
  t_unsquashfs :: "(path \<Rightarrow> path \<Rightarrow> fs \<Rightarrow> tool_outcome \<times> fs) option"

subsection \<open>State\<close>

record extracted_node =
  en_path_in_tree :: string
  en_relative_path :: string
  en_parent :: "string option"
  en_depth :: int
  en_size_bytes :: nat
  en_container :: string
  en_extracted_by :: string
  en_sha256 :: string

record xstate =
  x_budget :: xbudget
  x_nodes :: "extracted_node list"
  x_errors :: "string list"
  x_fs :: fs

type_synonym 'a x = "(xstate, unpack_exn, 'a) eff"

definition on_budget :: "(xbudget, unpack_exn, 'a) eff \<Rightarrow> 'a x" where
  "on_budget m = (\<lambda>s. case m (x_budget s) of (r, b) \<Rightarrow> (r, s\<lparr>x_budget := b\<rparr>))"

definition on_fs :: "(fs \<Rightarrow> string + fs) \<Rightarrow> unit x" where
  "on_fs f = (\<lambda>s. case f (x_fs s) of
     Inl e \<Rightarrow> (Inl (Failure e), s) | Inr fs \<Rightarrow> (Inr (), s\<lparr>x_fs := fs\<rparr>))"

definition or_fail :: "string + 'a \<Rightarrow> 'a x" where
  "or_fail v = (case v of Inl e \<Rightarrow> raise (Failure e) | Inr x \<Rightarrow> ret x)"

definition note_error :: "string \<Rightarrow> unit x" where
  "note_error text = modify (\<lambda>s. s\<lparr>x_errors := x_errors s @ [text]\<rparr>)"

definition read_source :: "path \<Rightarrow> bytes x" where
  "read_source p = bind_s (reads (\<lambda>s. read_file p (x_fs s))) or_fail"

text \<open>Opening a file for writing and copying a stream into it: what arrived before a failing read
  is on disk.\<close>

definition store :: "path \<Rightarrow> bytes \<times> string option \<Rightarrow> unit x" where
  "store target stream =
     bind_s (on_fs (write_file target (fst stream))) (\<lambda>_.
     case snd stream of None \<Rightarrow> ret () | Some e \<Rightarrow> raise (Failure e))"

subsection \<open>Members\<close>

definition drop_drive :: "(string \<Rightarrow> bool) \<Rightarrow> string \<Rightarrow> string" where
  "drop_drive alpha s =
     (case utf8_chars s of
        c # d # rest \<Rightarrow> if d = '':'' \<and> char_isalpha alpha c then concat rest else s
      | _ \<Rightarrow> s)"

definition clean_member :: "(string \<Rightarrow> bool) \<Rightarrow> string \<Rightarrow> string" where
  "clean_member alpha member =
     (let cleaned = map (\<lambda>c. if c = CHR 0x5C then CHR ''/'' else c) member
      in dropWhile (\<lambda>c. c = CHR ''/'') (drop_drive alpha cleaned))"

definition safe_join :: "(string \<Rightarrow> bool) \<Rightarrow> fs \<Rightarrow> path \<Rightarrow> string \<Rightarrow> string + path option" where
  "safe_join alpha fs top_dir member =
     (let cleaned = clean_member alpha member in
      if cleaned = [] \<or> cleaned = ''.'' \<or> cleaned = ''..'' then Inr None
      else if CHR 0x00 \<in> set cleaned then Inl ''lstat: embedded null character in path''
      else let candidate = resolve fs (top_dir @ split_on CHR ''/'' cleaned) in
      if starts_with (resolve fs top_dir) candidate then Inr (Some candidate) else Inr None)"

text \<open>The part the three member loops share: join, refuse or reserve, make the parent, write. The
  action returns whether the target counts as written.\<close>

definition member_to ::
  "tools \<Rightarrow> path \<Rightarrow> string \<Rightarrow> string \<Rightarrow> int \<Rightarrow> (path \<Rightarrow> bool x) \<Rightarrow> path list \<Rightarrow> path list x" where
  "member_to T destination name refusal size_bytes action written =
     bind_s (bind_s (reads (\<lambda>s. safe_join (t_alpha T) (x_fs s) destination name)) or_fail) (\<lambda>target.
     case target of
       None \<Rightarrow> bind_s (note_error refusal) (\<lambda>_. ret written)
     | Some target \<Rightarrow>
         bind_s (on_budget (reserve size_bytes)) (\<lambda>_.
         bind_s (on_fs (mkdirs (butlast target))) (\<lambda>_.
         bind_s (action target) (\<lambda>counts. ret (if counts then written @ [target] else written)))))"

subsection \<open>One archive\<close>

definition zip_action :: "zip_entry \<Rightarrow> path \<Rightarrow> bool x" where
  "zip_action info target =
     bind_s (or_fail (ze_open info)) (\<lambda>stream. bind_s (store target stream) (\<lambda>_. ret True))"

definition extract_zip :: "tools \<Rightarrow> path \<Rightarrow> path \<Rightarrow> path list x" where
  "extract_zip T source destination =
     bind_s (read_source source) (\<lambda>content.
     bind_s (or_fail (t_zip T content)) (\<lambda>infolist.
     for_s infolist [] (\<lambda>info written.
       if ze_is_dir info then ret written
       else member_to T destination (ze_filename info)
              (''refused path-traversing zip entry '' @ repr_str (ze_filename info))
              (ze_file_size info) (zip_action info) written)))"

definition tar_action :: "tar_entry \<Rightarrow> path \<Rightarrow> bool x" where
  "tar_action member target =
     (case te_extract member of
        None \<Rightarrow> ret False
      | Some stream \<Rightarrow> bind_s (store target stream) (\<lambda>_. ret True))"

definition extract_tar :: "tools \<Rightarrow> path \<Rightarrow> path \<Rightarrow> path list x" where
  "extract_tar T source destination =
     bind_s (read_source source) (\<lambda>content.
     bind_s (or_fail (t_tar T content)) (\<lambda>members.
     for_s members [] (\<lambda>member written.
       if \<not> te_isfile member then ret written
       else member_to T destination (te_name member)
              (''refused path-traversing tar entry '' @ repr_str (te_name member))
              (te_size member) (tar_action member) written)))"

definition extract_gzip :: "tools \<Rightarrow> path \<Rightarrow> path \<Rightarrow> path list x" where
  "extract_gzip T source destination =
     bind_s (read_source source) (\<lambda>content.
     if t_is_tar T content then extract_tar T source destination
     else
       (let stem = path_stem (last source);
            target = destination @ [if stem \<noteq> [] then stem else ''decompressed''] in
        bind_s (reads (\<lambda>s. min (bytes_remaining (x_budget s)) (int (length content) * 20))) (\<lambda>amount.
        bind_s (on_budget (reserve amount)) (\<lambda>_.
        bind_s (reads (\<lambda>s. resolve (x_fs s) target)) (\<lambda>opened.
        bind_s (store opened (t_gunzip T content)) (\<lambda>_. ret [target]))))))"

text \<open>The directory of an ASAR, flattened in the order the code's nested \<open>walk\<close> visits it.\<close>

lemma size_pd_get: "map_of d k = Some v \<Longrightarrow> size v < Suc (size_list (size_prod size size) d)"
  by (induction d) (auto split: if_splits)

function asar_files :: "string \<Rightarrow> pyval \<Rightarrow> (string \<times> (pyval \<times> pyval) list) list"
  and asar_entries :: "string \<Rightarrow> (pyval \<times> pyval) list \<Rightarrow> (string \<times> (pyval \<times> pyval) list) list" where
  "asar_files prefix node =
     (case node of
        PDict d \<Rightarrow> (case map_of d (PStr ''files'') of
                      Some (PDict files) \<Rightarrow> asar_entries prefix files
                    | _ \<Rightarrow> [])
      | _ \<Rightarrow> [])"
| "asar_entries prefix [] = []"
| "asar_entries prefix ((name, entry) # rest) =
     (case entry of
        PDict d \<Rightarrow>
          (let child_path = (if prefix \<noteq> [] then prefix @ ''/'' @ py_str name else py_str name) in
           (if map_of d (PStr ''files'') \<noteq> None then asar_files child_path entry
            else [(child_path, d)]) @ asar_entries prefix rest)
      | _ \<Rightarrow> asar_entries prefix rest)"
  by pat_completeness auto
termination
proof (relation "measure (\<lambda>x. case x of Inl (p, n) \<Rightarrow> 2 * size n
    | Inr (p, d) \<Rightarrow> 2 * size_list (size_prod size size) d + 1)")
  show "wf (measure (\<lambda>x. case x of Inl (p, n) \<Rightarrow> 2 * size n
    | Inr (p, d) \<Rightarrow> 2 * size_list (size_prod size size) d + 1))" by simp
next
  fix prefix :: string and node d v files
  assume "node = PDict d" "map_of d (PStr ''files'') = Some v" "v = PDict files"
  then show "(Inr (prefix, files), Inl (prefix, node)) \<in> measure (\<lambda>x. case x of
      Inl (p, n) \<Rightarrow> 2 * size n | Inr (p, d) \<Rightarrow> 2 * size_list (size_prod size size) d + 1)"
    using size_pd_get [of d "PStr ''files''" v] by simp
qed auto

text \<open>\<open>int(entry.get(key, 0))\<close> with the text of its two exceptions.\<close>

definition int_field :: "(pyval \<times> pyval) list \<Rightarrow> string \<Rightarrow> string + int" where
  "int_field d key =
     (let v = pd_get_or d key (PInt 0) in
      case py_int v of
        Some n \<Rightarrow> Inr n
      | None \<Rightarrow> Inl (case v of
            PStr s \<Rightarrow> ''invalid literal for int() with base 10: '' @ repr_str s
          | _ \<Rightarrow> ''int() argument must be a string, a bytes-like object or a real number, not ''
                   @ CHR 0x27 # type_name v @ [CHR 0x27]))"

text \<open>\<open>handle.seek(pos)\<close> and \<open>handle.read(n)\<close>: a negative position is an error, a negative count
  reads to the end.\<close>

definition asar_data :: "bytes \<Rightarrow> int \<Rightarrow> int \<Rightarrow> string + bytes" where
  "asar_data content pos n =
     (if pos < 0 then Inl ''[Errno 22] Invalid argument''
      else Inr (if n < 0 then drop (nat pos) content else take (nat n) (drop (nat pos) content)))"

definition asar_action :: "bytes \<Rightarrow> int \<Rightarrow> int \<Rightarrow> path \<Rightarrow> bool x" where
  "asar_action content pos n target =
     bind_s (or_fail (asar_data content pos n)) (\<lambda>data.
     bind_s (store target (data, None)) (\<lambda>_. ret True))"

fun is_dict :: "pyval \<Rightarrow> bool" where
  "is_dict (PDict d) = True"
| "is_dict _ = False"

definition extract_asar :: "tools \<Rightarrow> path \<Rightarrow> path \<Rightarrow> path list x" where
  "extract_asar T source destination =
     bind_s (read_source source) (\<lambda>content.
     if length content < 16 then raise (Failure ''truncated ASAR header'')
     else
       (let header_size = from_le (slice 12 16 content) in
        bind_s (or_fail (t_json T (take header_size (drop 16 content)))) (\<lambda>directory.
        if \<not> is_dict directory
        then raise (Failure (CHR 0x27 # type_name directory @ CHR 0x27 # '' object has no attribute ''
                             @ repr_str ''get''))
        else for_s (asar_files [] directory) [] (\<lambda>(child_path, entry) written.
               bind_s (or_fail (int_field entry ''size'')) (\<lambda>n.
               bind_s (or_fail (int_field entry ''offset'')) (\<lambda>offset.
               member_to T destination child_path (''refused ASAR entry '' @ repr_str child_path) n
                 (asar_action content (int (16 + header_size) + offset) n) written))))))"

text \<open>Files an external program wrote, charged after the fact, in path order. Links are skipped.\<close>

definition beneath :: "path \<Rightarrow> fs \<Rightarrow> path list" where
  "beneath d fs = sort (filter (\<lambda>p. starts_with d p \<and> p \<noteq> d) (remdups (map fst fs)))"

definition collect :: "path \<Rightarrow> path list x" where
  "collect destination =
     bind_s (reads (\<lambda>s. beneath destination (x_fs s))) (\<lambda>paths.
     for_s paths [] (\<lambda>p collected.
       bind_s (reads (\<lambda>s. lookup (x_fs s) p)) (\<lambda>node.
       case node of
         Some (File data) \<Rightarrow>
           if length data < 1 then ret collected
           else
             bind_s (attempt (on_budget (reserve (int (length data))))) (\<lambda>r.
             case r of
               Inl e \<Rightarrow> bind_s (modify (\<lambda>s. s\<lparr>x_fs := unlink p (x_fs s)\<rparr>)) (\<lambda>_. raise e)
             | Inr _ \<Rightarrow> ret (collected @ [p]))
       | _ \<Rightarrow> ret collected)))"

definition run_tool ::
  "(path \<Rightarrow> path \<Rightarrow> fs \<Rightarrow> tool_outcome \<times> fs) option \<Rightarrow> string \<Rightarrow> string \<Rightarrow> int \<Rightarrow> path \<Rightarrow> path \<Rightarrow> path list x"
where
  "run_tool tool missing label max_code source destination =
     (case tool of
        None \<Rightarrow> raise (Failure missing)
      | Some run \<Rightarrow>
          bind_s (\<lambda>s. case run source destination (x_fs s) of
                        (out, fs) \<Rightarrow> (Inr out, s\<lparr>x_fs := fs\<rparr>)) (\<lambda>outcome.
          case outcome of
            Timeout text \<Rightarrow> raise (Failure text)
          | Exited code stderr \<Rightarrow>
              if code > max_code
              then raise (Failure (label @ '' exited '' @ show_int code @ '': ''
                                   @ utf8_take 400 (py_strip stderr)))
              else collect destination))"

definition extract_with_7z :: "tools \<Rightarrow> path \<Rightarrow> path \<Rightarrow> path list x" where
  "extract_with_7z T = run_tool (t_7z T) ''7z is not available in this image'' ''7z'' 1"

text \<open>\<open>unsquashfs\<close> fails on any non-zero code; a process killed by a signal has a negative one.\<close>

definition extract_squashfs :: "tools \<Rightarrow> path \<Rightarrow> path \<Rightarrow> path list x" where
  "extract_squashfs T source destination =
     (case t_unsquashfs T of
        None \<Rightarrow> raise (Failure ''unsquashfs is not available in this image'')
      | Some run \<Rightarrow>
          bind_s (\<lambda>s. case run source destination (x_fs s) of
                        (out, fs) \<Rightarrow> (Inr out, s\<lparr>x_fs := fs\<rparr>)) (\<lambda>outcome.
          case outcome of
            Timeout text \<Rightarrow> raise (Failure text)
          | Exited code stderr \<Rightarrow>
              if code \<noteq> 0
              then raise (Failure (''unsquashfs exited '' @ show_int code @ '': ''
                                   @ utf8_take 400 (py_strip stderr)))
              else collect destination))"

definition SEVENZIP_FORMATS :: "container list" where
  "SEVENZIP_FORMATS = [SEVENZIP, RAR, CAB, MSI, ISO, NSIS, XZ, BZIP2, DMG, CPIO]"

definition ZIP_FORMATS :: "container list" where
  "ZIP_FORMATS = [ZIP, JAR, APK]"

definition extract_one :: "tools \<Rightarrow> path \<Rightarrow> path \<Rightarrow> container \<Rightarrow> path list x" where
  "extract_one T source destination c =
     (if c \<in> set ZIP_FORMATS then extract_zip T source destination
      else if c = TAR then extract_tar T source destination
      else if c = GZIP then extract_gzip T source destination
      else if c = ASAR then extract_asar T source destination
      else if c = PYINSTALLER then extract_with_7z T source destination
      else if c \<in> set SEVENZIP_FORMATS \<or> c = INNO then extract_with_7z T source destination
      else if c = SQUASHFS then extract_squashfs T source destination
      else raise (Failure (''no extractor for '' @ container_value c)))"

subsection \<open>The tree\<close>

text \<open>The provenance separator, a blank, a right arrow and a blank.\<close>

definition ARROW :: string where
  "ARROW = [CHR '' '', CHR 0xE2, CHR 0x86, CHR 0x92, CHR '' '']"

text \<open>\<open>s.split(sep)[-1]\<close>.\<close>

function last_segment :: "string \<Rightarrow> string \<Rightarrow> string \<Rightarrow> string" where
  "last_segment sep acc [] = rev acc"
| "last_segment sep acc (c # cs) =
     (if sep \<noteq> [] \<and> starts_with sep (c # cs) then last_segment sep [] (drop (length sep - 1) cs)
      else last_segment sep (c # acc) cs)"
  by pat_completeness auto
termination by (relation "measure (\<lambda>(sep, acc, s). length s)") auto

definition slugify :: "(string \<Rightarrow> bool) \<Rightarrow> string \<Rightarrow> int \<Rightarrow> string" where
  "slugify alnum path_in_tree depth =
     (let tail = last_segment ARROW [] path_in_tree;
          safe = concat (take 60 (map (\<lambda>c. if char_isalnum alnum c \<or> c \<in> {''.'', ''_'', ''-''} then c
                                           else ''_'') (utf8_chars tail)))
      in ''d'' @ show_int depth @ ''_'' @ (if safe \<noteq> [] then safe else ''node''))"

definition as_posix :: "path \<Rightarrow> string" where
  "as_posix p = (if p = [] then ''.'' else join ''/'' p)"

definition relative_to :: "path \<Rightarrow> path \<Rightarrow> string + path" where
  "relative_to p top_dir =
     (if starts_with top_dir p then Inr (drop (length top_dir) p)
      else Inl (CHR 0x27 # path_str p @ CHR 0x27 # '' is not in the subpath of ''
                @ CHR 0x27 # path_str top_dir @ [CHR 0x27]))"

definition detect_file :: "path \<Rightarrow> fs \<Rightarrow> detection" where
  "detect_file p fs = detect (last p) (read_file p fs)"

definition file_size :: "path \<Rightarrow> fs \<Rightarrow> string + nat" where
  "file_size p fs =
     (case lookup fs p of Some (File data) \<Rightarrow> Inr (length data) | _ \<Rightarrow> Inl (os_error ENOENT p))"

definition mk_node ::
  "string \<Rightarrow> string \<Rightarrow> string \<Rightarrow> int \<Rightarrow> nat \<Rightarrow> container \<Rightarrow> container \<Rightarrow> extracted_node" where
  "mk_node path_in_tree relative parent depth n c by_container =
     \<lparr>en_path_in_tree = path_in_tree, en_relative_path = relative, en_parent = Some parent,
      en_depth = depth, en_size_bytes = n, en_container = container_value c,
      en_extracted_by = container_value by_container, en_sha256 = []\<rparr>"

text \<open>The body of the loop over what one archive held, and one call of \<open>_walk\<close>; \<open>rec\<close> is the
  recursive call.\<close>

definition visit_child ::
  "(path \<Rightarrow> string \<Rightarrow> int \<Rightarrow> unit x) \<Rightarrow> path \<Rightarrow> path \<Rightarrow> string \<Rightarrow> int \<Rightarrow> container \<Rightarrow> path \<Rightarrow> unit x" where
  "visit_child rec output_root destination path_in_tree depth by_container child =
     bind_s (or_fail (relative_to child output_root)) (\<lambda>relative.
     bind_s (or_fail (relative_to child destination)) (\<lambda>child_name.
     let child_path_in_tree = path_in_tree @ ARROW @ as_posix child_name in
     bind_s (reads (\<lambda>s. detect_file child (x_fs s))) (\<lambda>child_detection.
     bind_s (bind_s (reads (\<lambda>s. file_size child (x_fs s))) or_fail) (\<lambda>n.
     bind_s (modify (\<lambda>s. s\<lparr>x_nodes := x_nodes s @
               [mk_node child_path_in_tree (as_posix relative) path_in_tree (depth + 1) n
                  (det_container child_detection) by_container]\<rparr>)) (\<lambda>_.
     when_s (should_unpack child_detection) (rec child child_path_in_tree (depth + 1)))))))"

definition note_failure :: "string \<Rightarrow> container \<Rightarrow> unpack_exn \<Rightarrow> unit x" where
  "note_failure path_in_tree c exc =
     (case exc of
        BudgetExceeded l d \<Rightarrow> note_error (path_in_tree @ '': '' @ exn_text exc)
      | _ \<Rightarrow> note_error (path_in_tree @ '': '' @ container_value c @ '' extraction failed: ''
                         @ exn_text exc))"

definition walk_step ::
  "(path \<Rightarrow> string \<Rightarrow> int \<Rightarrow> unit x) \<Rightarrow> tools \<Rightarrow> path \<Rightarrow> path \<Rightarrow> string \<Rightarrow> int \<Rightarrow> unit x" where
  "walk_step rec T output_root source path_in_tree depth =
     bind_s (attempt (on_budget (check_depth depth))) (\<lambda>checked.
     case checked of
       Inl exc \<Rightarrow> note_error (path_in_tree @ '': '' @ exn_text exc)
     | Inr _ \<Rightarrow>
     bind_s (reads (\<lambda>s. is_exhausted (x_budget s))) (\<lambda>exhausted.
     if exhausted then ret () else
     bind_s (reads (\<lambda>s. detect_file source (x_fs s))) (\<lambda>detection.
     if \<not> should_unpack detection then ret () else
     let destination = output_root @ [slugify (t_alnum T) path_in_tree depth] in
     bind_s (attempt (bind_s (on_fs (mkdirs destination))
                        (\<lambda>_. extract_one T source destination (det_container detection)))) (\<lambda>outcome.
     case outcome of
       Inl exc \<Rightarrow> note_failure path_in_tree (det_container detection) exc
     | Inr written \<Rightarrow>
         for_s written () (\<lambda>child _.
           visit_child rec output_root destination path_in_tree depth (det_container detection) child)))))"

fun walk :: "nat \<Rightarrow> tools \<Rightarrow> path \<Rightarrow> path \<Rightarrow> string \<Rightarrow> int \<Rightarrow> unit x" where
  "walk 0 T output_root source path_in_tree depth = raise OutOfFuel"
| "walk (Suc fuel) T output_root source path_in_tree depth =
     walk_step (walk fuel T output_root) T output_root source path_in_tree depth"

definition extract_tree :: "nat \<Rightarrow> tools \<Rightarrow> path \<Rightarrow> path \<Rightarrow> string \<Rightarrow> unit x" where
  "extract_tree fuel T artifact output_root root_name =
     bind_s (on_fs (mkdirs output_root)) (\<lambda>_. walk fuel T output_root artifact root_name 0)"

definition start_xstate :: "xbudget \<Rightarrow> fs \<Rightarrow> xstate" where
  "start_xstate b fs = \<lparr>x_budget = b, x_nodes = [], x_errors = [], x_fs = fs\<rparr>"

definition result_truncated :: "xstate \<Rightarrow> bool" where
  "result_truncated s \<longleftrightarrow> exceeded (x_budget s) \<noteq> []"

definition node_to_dict :: "extracted_node \<Rightarrow> pyval" where
  "node_to_dict n = PDict
     [(PStr ''path_in_tree'', PStr (en_path_in_tree n)),
      (PStr ''relative_path'', PStr (en_relative_path n)),
      (PStr ''parent_path_in_tree'', (case en_parent n of None \<Rightarrow> PNone | Some p \<Rightarrow> PStr p)),
      (PStr ''depth'', PInt (en_depth n)), (PStr ''size_bytes'', PInt (int (en_size_bytes n))),
      (PStr ''container'', PStr (en_container n)), (PStr ''extracted_by'', PStr (en_extracted_by n)),
      (PStr ''sha256'', PStr (en_sha256 n))]"

definition result_to_dict :: "xstate \<Rightarrow> pyval" where
  "result_to_dict s = PDict
     [(PStr ''nodes'', PList (map node_to_dict (x_nodes s))),
      (PStr ''budget'', budget_to_dict (x_budget s)),
      (PStr ''errors'', PList (map PStr (x_errors s))),
      (PStr ''truncated'', PBool (result_truncated s))]"

definition should_scan :: "string + nat \<Rightarrow> bool" where
  "should_scan st_size = (case st_size of Inl _ \<Rightarrow> False | Inr n \<Rightarrow> \<not> n < 8)"

definition summarise :: "xstate \<Rightarrow> string" where
  "summarise s =
     show_nat (length (x_nodes s)) @ '' files from ''
     @ show_nat (length (filter (\<lambda>n. en_container n \<noteq> container_value NONE) (x_nodes s)))
     @ '' nested container(s), '' @ show_grouped (bytes_written (x_budget s)) @ '' bytes''
     @ (if result_truncated s then '' (truncated)'' else [])"

end
