(* ===== verification/Unpack_Properties.thy ===== *)
theory Unpack_Properties
  imports Unpack_Extractor
begin

text \<open>
  What extraction guarantees: nothing is written outside an archive's own directory, what is on
  disk never exceeds what was charged, the recursion ends within its depth, and the nodes form a
  tree that leads back to the artifact.
\<close>

subsection \<open>Frames\<close>

text \<open>The primitive effects of extraction. A property they keep is kept by every extractor.\<close>

definition frame :: "(xstate \<Rightarrow> bool) \<Rightarrow> bool" where
  "frame I \<longleftrightarrow> (\<forall>n. keeps I (on_budget (reserve n))) \<and> (\<forall>t. keeps I (note_error t))
     \<and> (\<forall>s f. I s \<longrightarrow> I (s\<lparr>x_fs := f\<rparr>))"

lemma keeps_on_fs [triple_rules]: "(\<And>s f. I s \<Longrightarrow> I (s\<lparr>x_fs := f\<rparr>)) \<Longrightarrow> keeps I (on_fs g)"
  by (rule keepsI) (auto simp: on_fs_def split: sum.split)

lemma keeps_or_fail [triple_rules]: "keeps I (or_fail v)"
  by (cases v) (auto simp: or_fail_def intro: triple_rules)

lemma frame_fs: "frame I \<Longrightarrow> keeps I (on_fs g)"
  by (auto simp: frame_def intro: keeps_on_fs)

lemma frame_reserve: "frame I \<Longrightarrow> keeps I (on_budget (reserve n))"
  by (simp add: frame_def)

lemma frame_note: "frame I \<Longrightarrow> keeps I (note_error t)"
  by (simp add: frame_def)

lemma frame_store: "frame I \<Longrightarrow> keeps I (store target stream)"
  unfolding store_def by (auto intro!: triple_rules frame_fs)

lemma frame_tool:
  "frame I \<Longrightarrow> keeps I (\<lambda>s. case run a b (x_fs s) of (out, f) \<Rightarrow> (Inr out, s\<lparr>x_fs := f\<rparr>))"
  by (rule keepsI) (auto simp: frame_def split: prod.split)

lemma frame_unlink: "frame I \<Longrightarrow> keeps I (modify (\<lambda>s. s\<lparr>x_fs := unlink p (x_fs s)\<rparr>))"
  by (rule keepsI) (auto simp: frame_def modify_def)

lemmas frame_rules = triple_rules frame_fs frame_reserve frame_note frame_store frame_tool frame_unlink

lemma keeps_bool [triple_rules]:
  "keeps I m \<Longrightarrow> keeps I (bind_s m (\<lambda>x. ret (f x)))"
  by (intro triple_rules)

lemma frame_member:
  "frame I \<Longrightarrow> (\<And>p. keeps I (action p)) \<Longrightarrow> keeps I (member_to T d name refusal n action acc)"
  unfolding member_to_def by (intro frame_rules)

lemma frame_zip: "frame I \<Longrightarrow> keeps I (extract_zip T src d)"
  unfolding extract_zip_def read_source_def
  by (intro frame_rules frame_member) (auto simp: zip_action_def intro!: frame_rules)

lemma frame_tar: "frame I \<Longrightarrow> keeps I (extract_tar T src d)"
  unfolding extract_tar_def read_source_def
  by (intro frame_rules frame_member) (auto simp: tar_action_def intro!: frame_rules)

lemma frame_gzip: "frame I \<Longrightarrow> keeps I (extract_gzip T src d)"
  unfolding extract_gzip_def read_source_def Let_def
  by (intro frame_rules frame_tar)

lemma frame_asar: "frame I \<Longrightarrow> keeps I (extract_asar T src d)"
  unfolding extract_asar_def read_source_def Let_def
  by (auto intro!: frame_rules frame_member simp: asar_action_def split: prod.split)

lemma frame_collect: "frame I \<Longrightarrow> keeps I (collect d)"
  unfolding collect_def by (auto intro!: frame_rules split: option.split fnode.split)

lemma frame_7z: "frame I \<Longrightarrow> keeps I (extract_with_7z T src d)"
  unfolding extract_with_7z_def run_tool_def
  by (auto intro!: frame_rules frame_collect split: option.split tool_outcome.split)

lemma frame_squashfs: "frame I \<Longrightarrow> keeps I (extract_squashfs T src d)"
  unfolding extract_squashfs_def
  by (auto intro!: frame_rules frame_collect split: option.split tool_outcome.split)

lemma frame_extract_one: "frame I \<Longrightarrow> keeps I (extract_one T src d c)"
  unfolding extract_one_def
  by (intro triple_rules frame_zip frame_tar frame_gzip frame_asar frame_7z frame_squashfs)

subsection \<open>Confinement\<close>

definition inside :: "path \<Rightarrow> fs \<Rightarrow> xstate \<Rightarrow> bool" where
  "inside d fs0 s \<longleftrightarrow> dir_ready d (x_fs s) \<and> outside_same d fs0 (x_fs s)"

definition plain_path :: "path \<Rightarrow> bool" where
  "plain_path d \<longleftrightarrow> length d \<le> 4096 \<and> '''' \<notin> set d \<and> ''.'' \<notin> set d \<and> ''..'' \<notin> set d"

lemma resolve_ready_from:
  assumes "\<And>n. lookup fs (take n (base @ cs)) = Some Dir"
    and "'''' \<notin> set cs" "''.'' \<notin> set cs" "''..'' \<notin> set cs" "length cs \<le> fuel"
  shows "resolve_from fuel fs base cs = base @ cs"
  using assms
proof (induction cs arbitrary: fuel base)
  case Nil
  then show ?case by simp
next
  case (Cons c cs)
  then obtain k where fuel: "fuel = Suc k" by (cases fuel) auto
  have dir: "lookup fs (base @ [c]) = Some Dir"
    using Cons.prems(1) [of "length base + 1"] by simp
  have "resolve_from k fs (base @ [c]) cs = (base @ [c]) @ cs"
    using Cons.prems by (intro Cons.IH) (auto simp: fuel)
  with dir Cons.prems show ?case by (auto simp: fuel)
qed

lemma resolve_ready: "dir_ready d fs \<Longrightarrow> plain_path d \<Longrightarrow> resolve fs d = d"
  using resolve_ready_from [of fs "[]" d 4096] by (simp add: resolve_def dir_ready_def plain_path_def)

lemma safe_join_confined:
  "safe_join alpha fs d m = Inr (Some p) \<Longrightarrow> starts_with (resolve fs d) p"
  by (auto simp: safe_join_def Let_def split: if_splits)

lemma parent_inside: "starts_with d p \<Longrightarrow> starts_with d (butlast p) \<or> (\<exists>m. butlast p = take m d)"
  using starts_with_prefix_cases [of d p "length p - 1"] by (simp add: butlast_conv_take)

lemma inside_budget: "keeps (inside d fs0) (on_budget m)"
  by (rule keepsI) (auto simp: inside_def on_budget_def split: prod.split)

lemma inside_note: "keeps (inside d fs0) (note_error t)"
  unfolding note_error_def by (intro triple_rules) (auto simp: inside_def)

lemma inside_mkdirs:
  assumes "starts_with d p"
  shows "keeps (inside d fs0) (on_fs (mkdirs (butlast p)))"
proof (rule keepsI)
  fix s assume s: "inside d fs0 s"
  show "inside d fs0 (snd (on_fs (mkdirs (butlast p)) s))"
  proof (cases "mkdirs (butlast p) (x_fs s)")
    case (Inl e)
    with s show ?thesis by (simp add: on_fs_def)
  next
    case (Inr fs)
    from s have "dir_ready d (x_fs s)" "outside_same d fs0 (x_fs s)" by (auto simp: inside_def)
    with mkdirs_inside [OF Inr _ parent_inside [OF assms]] have "dir_ready d fs" "outside_same d fs0 fs"
      by (auto intro: outside_same_trans)
    with Inr show ?thesis by (simp add: on_fs_def inside_def)
  qed
qed

lemma inside_write:
  assumes "starts_with d p"
  shows "keeps (inside d fs0) (on_fs (write_file p data))"
proof (rule keepsI)
  fix s assume s: "inside d fs0 s"
  show "inside d fs0 (snd (on_fs (write_file p data) s))"
  proof (cases "write_file p data (x_fs s)")
    case (Inl e)
    with s show ?thesis by (simp add: on_fs_def)
  next
    case (Inr fs)
    from s have "dir_ready d (x_fs s)" "outside_same d fs0 (x_fs s)" by (auto simp: inside_def)
    with write_inside [OF Inr _ assms] have "dir_ready d fs" "outside_same d fs0 fs"
      by (auto intro: outside_same_trans)
    with Inr show ?thesis by (simp add: on_fs_def inside_def)
  qed
qed

lemma inside_store: "starts_with d p \<Longrightarrow> keeps (inside d fs0) (store p stream)"
  unfolding store_def by (intro triple_rules inside_write)

text \<open>An action given a target beneath \<open>d\<close> stays beneath \<open>d\<close>; then so does the member, and the
  paths counted as written are beneath \<open>d\<close>.\<close>

definition beneath_all :: "path \<Rightarrow> path list \<Rightarrow> bool" where
  "beneath_all d ps \<longleftrightarrow> (\<forall>p \<in> set ps. starts_with d p)"

lemma member_inside:
  assumes "plain_path d" and "\<And>p. starts_with d p \<Longrightarrow> keeps (inside d fs0) (action p)"
  shows "triple (\<lambda>s. inside d fs0 s \<and> beneath_all d acc) (member_to T d name refusal n action acc)
    (\<lambda>ps s. inside d fs0 s \<and> beneath_all d ps) (\<lambda>_. inside d fs0)"
proof -
  let ?I = "inside d fs0"
  have lift: "triple (\<lambda>s. ?I s \<and> R) m (\<lambda>_ s. ?I s \<and> R) (\<lambda>_. ?I)" if "keeps ?I m" for m :: "'z x" and R
    using that by (auto simp: keeps_def triple_def split: sum.splits)
  have join: "triple (\<lambda>s. ?I s \<and> beneath_all d acc)
      (bind_s (reads (\<lambda>s. safe_join (t_alpha T) (x_fs s) d name)) or_fail)
      (\<lambda>t s. ?I s \<and> beneath_all d acc \<and> (\<forall>p. t = Some p \<longrightarrow> starts_with d p)) (\<lambda>_. ?I)"
    unfolding triple_def
  proof (intro allI impI, elim conjE)
    fix s assume s: "?I s" and acc: "beneath_all d acc"
    then have "resolve (x_fs s) d = d" using assms(1) by (auto simp: inside_def intro: resolve_ready)
    then show "case bind_s (reads (\<lambda>s. safe_join (t_alpha T) (x_fs s) d name)) or_fail s of
        (Inl e, s') \<Rightarrow> ?I s'
      | (Inr t, s') \<Rightarrow> ?I s' \<and> beneath_all d acc \<and> (\<forall>p. t = Some p \<longrightarrow> starts_with d p)"
      using s acc safe_join_confined [of "t_alpha T" "x_fs s" d name]
      by (cases "safe_join (t_alpha T) (x_fs s) d name") (auto simp: eff_simps or_fail_def)
  qed
  have found: "triple (\<lambda>s. ?I s \<and> beneath_all d acc)
      (bind_s (on_budget (reserve n)) (\<lambda>_. bind_s (on_fs (mkdirs (butlast p))) (\<lambda>_.
         bind_s (action p) (\<lambda>counts. ret (if counts then acc @ [p] else acc)))))
      (\<lambda>ps s. ?I s \<and> beneath_all d ps) (\<lambda>_. ?I)" if p: "starts_with d p" for p
    by (rule triple_bind [OF lift [OF inside_budget]], rule triple_bind [OF lift [OF inside_mkdirs [OF p]]],
        rule triple_bind [OF lift [OF assms(2) [OF p]]], rule triple_ret)
       (use p in \<open>auto simp: beneath_all_def\<close>)
  show ?thesis
    unfolding member_to_def
  proof (rule triple_bind [OF join])
    fix t
    show "triple (\<lambda>s. ?I s \<and> beneath_all d acc \<and> (\<forall>p. t = Some p \<longrightarrow> starts_with d p))
      (case t of None \<Rightarrow> bind_s (note_error refusal) (\<lambda>_. ret acc)
       | Some target \<Rightarrow> bind_s (on_budget (reserve n)) (\<lambda>_. bind_s (on_fs (mkdirs (butlast target))) (\<lambda>_.
           bind_s (action target) (\<lambda>counts. ret (if counts then acc @ [target] else acc)))))
      (\<lambda>ps s. ?I s \<and> beneath_all d ps) (\<lambda>_. ?I)"
    proof (cases t)
      case None
      have "triple (\<lambda>s. ?I s \<and> beneath_all d acc) (bind_s (note_error refusal) (\<lambda>_. ret acc))
          (\<lambda>ps s. ?I s \<and> beneath_all d ps) (\<lambda>_. ?I)"
        by (rule triple_bind [OF lift [OF inside_note]], rule triple_ret) simp
      then show ?thesis unfolding None option.case by (rule triple_weaken) simp_all
    next
      case (Some p)
      show ?thesis
      proof (cases "starts_with d p")
        case True
        show ?thesis
          unfolding Some option.case by (rule triple_weaken [OF found [OF True]]) simp_all
      next
        case False
        then show ?thesis unfolding triple_def Some by simp
      qed
    qed
  qed
qed

lemma for_inside:
  assumes "\<And>x acc. x \<in> set xs \<Longrightarrow> triple (\<lambda>s. inside d fs0 s \<and> beneath_all d acc) (body x acc)
      (\<lambda>ps s. inside d fs0 s \<and> beneath_all d ps) (\<lambda>_. inside d fs0)"
  shows "triple (inside d fs0) (for_s xs [] body)
      (\<lambda>ps s. inside d fs0 s \<and> beneath_all d ps) (\<lambda>_. inside d fs0)"
  by (rule triple_weaken [OF triple_for [where I = "\<lambda>ps s. inside d fs0 s \<and> beneath_all d ps", OF assms]])
     (auto simp: beneath_all_def)

lemma inside_reading:
  assumes "\<And>x. triple (inside d fs0) (f x) Q (\<lambda>_. inside d fs0)"
  shows "triple (inside d fs0) (bind_s (read_source src) f) Q (\<lambda>_. inside d fs0)"
proof -
  have "keeps (inside d fs0) (read_source src)" unfolding read_source_def by (intro triple_rules)
  then show ?thesis unfolding keeps_def by (rule triple_bind) (rule assms)
qed

lemma inside_parsing:
  assumes "\<And>x. triple (inside d fs0) (f x) Q (\<lambda>_. inside d fs0)"
  shows "triple (inside d fs0) (bind_s (or_fail v) f) Q (\<lambda>_. inside d fs0)"
  using assms by (cases v) (auto simp: or_fail_def triple_def eff_simps)

lemma skip_inside:
  "triple (\<lambda>s. inside d fs0 s \<and> beneath_all d acc) (ret acc)
     (\<lambda>ps s. inside d fs0 s \<and> beneath_all d ps) (\<lambda>_. inside d fs0)"
  by (rule triple_ret)

lemma zip_inside:
  assumes "plain_path d"
  shows "triple (inside d fs0) (extract_zip T src d)
    (\<lambda>ps s. inside d fs0 s \<and> beneath_all d ps) (\<lambda>_. inside d fs0)"
  unfolding extract_zip_def
  by (intro inside_reading inside_parsing for_inside triple_if skip_inside member_inside [OF assms])
     (auto simp: zip_action_def intro!: triple_rules inside_store)

lemma tar_inside:
  assumes "plain_path d"
  shows "triple (inside d fs0) (extract_tar T src d)
    (\<lambda>ps s. inside d fs0 s \<and> beneath_all d ps) (\<lambda>_. inside d fs0)"
  unfolding extract_tar_def
  by (intro inside_reading inside_parsing for_inside triple_if skip_inside member_inside [OF assms])
     (auto simp: tar_action_def intro!: triple_rules inside_store)

lemma raise_inside: "triple (inside d fs0) (raise e) Q (\<lambda>_. inside d fs0)"
  by (rule triple_raise)

lemma or_fail_inside:
  assumes "\<And>x. triple (\<lambda>s. inside d fs0 s \<and> R) (f x) Q (\<lambda>_. inside d fs0)"
  shows "triple (\<lambda>s. inside d fs0 s \<and> R) (bind_s (or_fail v) f) Q (\<lambda>_. inside d fs0)"
  using assms by (cases v) (auto simp: or_fail_def triple_def eff_simps)

lemma asar_inside:
  assumes "plain_path d"
  shows "triple (inside d fs0) (extract_asar T src d)
    (\<lambda>ps s. inside d fs0 s \<and> beneath_all d ps) (\<lambda>_. inside d fs0)"
proof -
  have "triple (\<lambda>s. inside d fs0 s \<and> beneath_all d acc)
      ((case x of (child_path, entry) \<Rightarrow> \<lambda>written.
         bind_s (or_fail (int_field entry ''size'')) (\<lambda>n.
         bind_s (or_fail (int_field entry ''offset'')) (\<lambda>offset.
         member_to T d child_path (''refused ASAR entry '' @ repr_str child_path) n
           (asar_action content (pos + offset) n) written))) acc)
      (\<lambda>ps s. inside d fs0 s \<and> beneath_all d ps) (\<lambda>_. inside d fs0)" for x acc content pos
    by (cases x) (auto intro!: or_fail_inside member_inside [OF assms] triple_rules inside_store
        simp: asar_action_def)
  note entry = this
  show ?thesis
    unfolding extract_asar_def Let_def
    by (intro inside_reading inside_parsing for_inside triple_if raise_inside entry)
qed

text \<open>The formats whose members the extractor writes itself.\<close>

definition own_formats :: "container list" where
  "own_formats = ZIP_FORMATS @ [TAR, ASAR]"

lemma own_inside:
  assumes "plain_path d" "c \<in> set own_formats"
  shows "triple (inside d fs0) (extract_one T src d c)
    (\<lambda>ps s. inside d fs0 s \<and> beneath_all d ps) (\<lambda>_. inside d fs0)"
  using assms zip_inside tar_inside asar_inside
  by (auto simp: own_formats_def ZIP_FORMATS_def extract_one_def)


text \<open>A hostile zip: a member that climbs out, an absolute one, and a harmless one.\<close>

definition no_tools :: tools where
  "no_tools = \<lparr>t_alpha = (\<lambda>_. False), t_alnum = (\<lambda>_. False), t_zip = (\<lambda>_. Inr []), t_is_tar = (\<lambda>_. False),
     t_tar = (\<lambda>_. Inr []), t_gunzip = (\<lambda>_. ([], None)), t_json = (\<lambda>_. Inr PNone), t_7z = None,
     t_unsquashfs = None\<rparr>"

definition zip_member :: "string \<Rightarrow> bytes \<Rightarrow> zip_entry" where
  "zip_member name data = \<lparr>ze_filename = name, ze_is_dir = False, ze_file_size = int (length data),
     ze_open = Inr (data, None)\<rparr>"

definition hostile_tools :: tools where
  "hostile_tools = no_tools\<lparr>t_zip := (\<lambda>_. Inr
     [zip_member ''../../etc/passwd'' [1], zip_member ''/etc/shadow'' [2], zip_member ''a.txt'' [3, 4]])\<rparr>"

definition hostile_fs :: fs where
  "hostile_fs = [([''out''], Dir), ([''out'', ''d0''], Dir), ([''in''], Dir), ([''in'', ''x.zip''], File [])]"

definition hostile_start :: xstate where
  "hostile_start = start_xstate (scaled_budget 1000) hostile_fs"

definition hostile_run :: "(unpack_exn + path list) \<times> xstate" where
  "hostile_run = extract_one hostile_tools [''in'', ''x.zip''] [''out'', ''d0''] ZIP hostile_start"

lemma dir_ready_two:
  assumes "lookup fs [a] = Some Dir" "lookup fs [a, b] = Some Dir"
  shows "dir_ready [a, b] fs"
  unfolding dir_ready_def
proof
  fix n :: nat
  consider "n = 0" | "n = 1" | "2 \<le> n" by linarith
  then show "lookup fs (take n [a, b]) = Some Dir" by cases (use assms in auto)
qed


subsection \<open>What is on disk was charged\<close>

definition honest_zip :: "tools \<Rightarrow> bool" where
  "honest_zip T \<longleftrightarrow> (\<forall>raw infos i data err. t_zip T raw = Inr infos \<longrightarrow> i \<in> set infos \<longrightarrow>
     ze_open i = Inr (data, err) \<longrightarrow> int (length data) \<le> ze_file_size i)"

definition honest_tar :: "tools \<Rightarrow> bool" where
  "honest_tar T \<longleftrightarrow> (\<forall>raw members m data err. t_tar T raw = Inr members \<longrightarrow> m \<in> set members \<longrightarrow>
     te_extract m = Some (data, err) \<longrightarrow> int (length data) \<le> te_size m)"

text \<open>No member of an archive declares a negative size.\<close>

definition sane_sizes :: "tools \<Rightarrow> bool" where
  "sane_sizes T \<longleftrightarrow>
     (\<forall>raw infos i. t_zip T raw = Inr infos \<longrightarrow> i \<in> set infos \<longrightarrow> 0 \<le> ze_file_size i)
   \<and> (\<forall>raw members m. t_tar T raw = Inr members \<longrightarrow> m \<in> set members \<longrightarrow> 0 \<le> te_size m)
   \<and> (\<forall>raw dir p e n. t_json T raw = Inr dir \<longrightarrow> (p, e) \<in> set (asar_files [] dir) \<longrightarrow>
        int_field e ''size'' = Inr n \<longrightarrow> 0 \<le> n)"

text \<open>\<open>owed k\<close>: the disk may still grow by \<open>k\<close> before it passes what was charged.\<close>

definition owed :: "path \<Rightarrow> int \<Rightarrow> int \<Rightarrow> xstate \<Rightarrow> bool" where
  "owed d c k s \<longleftrightarrow> int (disk_bytes d (x_fs s)) + k \<le> bytes_written (x_budget s) + c
     \<and> xb.in_caps (x_budget s)"

lemma owed_le: "owed d c k s \<Longrightarrow> k' \<le> k \<Longrightarrow> owed d c k' s"
  by (simp add: owed_def)

lemma owed_reserve:
  "0 \<le> n \<Longrightarrow> triple (owed d c 0) (on_budget (reserve n)) (\<lambda>_. owed d c n) (\<lambda>_. owed d c 0)"
  unfolding triple_def
proof (intro allI impI)
  fix s assume "owed d c 0 s"
  then show "case on_budget (reserve n) s of (Inl e, s') \<Rightarrow> owed d c 0 s' | (Inr u, s') \<Rightarrow> owed d c n s'"
    by (cases rule: xb.charge_cases [of n "x_budget s"])
       (auto simp: on_budget_def owed_def xb.in_caps_def)
qed

lemma owed_keeps:
  "keeps (owed d c k) (note_error t)"
  "keeps (owed d c k) (or_fail v)"
  "keeps (owed d c k) (on_fs (mkdirs p))"
proof -
  show "keeps (owed d c k) (note_error t)"
    unfolding note_error_def by (intro triple_rules) (simp add: owed_def)
  show "keeps (owed d c k) (or_fail v)" by (rule keeps_or_fail)
  show "keeps (owed d c k) (on_fs (mkdirs p))"
  proof (rule keepsI)
    fix s assume "owed d c k s"
    then show "owed d c k (snd (on_fs (mkdirs p) s))"
      by (cases "mkdirs p (x_fs s)")
         (auto simp: on_fs_def owed_def dest: mkdirs_disk [where root = d])
  qed
qed

lemma owed_store:
  assumes "int (length data) \<le> n" "0 \<le> n"
  shows "triple (owed d c n) (store p (data, err)) (\<lambda>_. owed d c 0) (\<lambda>_. owed d c 0)"
proof -
  have "triple (owed d c n) (on_fs (write_file p data)) (\<lambda>_. owed d c 0) (\<lambda>_. owed d c 0)"
    unfolding triple_def
  proof (intro allI impI)
    fix s assume s: "owed d c n s"
    show "case on_fs (write_file p data) s of (Inl e, s') \<Rightarrow> owed d c 0 s' | (Inr u, s') \<Rightarrow> owed d c 0 s'"
    proof (cases "write_file p data (x_fs s)")
      case (Inl e)
      with s assms show ?thesis by (auto simp: on_fs_def owed_def)
    next
      case (Inr fs)
      with s assms write_disk [OF Inr, of d] show ?thesis by (auto simp: on_fs_def owed_def)
    qed
  qed
  then show ?thesis
    unfolding store_def by (cases err) (auto intro!: triple_bind triple_ret triple_raise)
qed

lemma owed_member:
  assumes "0 \<le> n" and "\<And>p. triple (owed d c n) (action p) (\<lambda>_. owed d c 0) (\<lambda>_. owed d c 0)"
  shows "keeps (owed d c 0) (member_to T e name refusal n action acc)"
proof -
  have found: "keeps (owed d c 0) (bind_s (on_budget (reserve n)) (\<lambda>_. bind_s (on_fs (mkdirs (butlast p))) (\<lambda>_.
      bind_s (action p) (\<lambda>counts. ret (if counts then acc @ [p] else acc)))))" for p
  proof -
    have "triple (owed d c n) (on_fs (mkdirs (butlast p))) (\<lambda>_. owed d c n) (\<lambda>_. owed d c 0)"
      using assms(1) by (intro triple_weaken [OF owed_keeps(3) [where k = n, unfolded keeps_def]]) (auto elim: owed_le)
    then show ?thesis
      unfolding keeps_def
      by (intro triple_bind [OF owed_reserve [OF assms(1)]] triple_bind [OF _ triple_bind [OF assms(2) triple_ret]])
         auto
  qed
  show ?thesis
    unfolding member_to_def
    by (intro triple_rules keeps_or_fail found owed_keeps)
qed

lemma owed_reading: "keeps (owed d c k) (read_source src)"
  unfolding read_source_def by (intro triple_rules)

lemma keeps_parsed: "(\<And>x. v = Inr x \<Longrightarrow> keeps I (f x)) \<Longrightarrow> keeps I (bind_s (or_fail v) f)"
  by (cases v) (auto simp: or_fail_def keeps_def triple_def eff_simps)

lemma owed_stream:
  assumes "int (length (fst stream)) \<le> n" "0 \<le> n"
  shows "triple (owed d c n) (bind_s (store p stream) (\<lambda>_. ret True)) (\<lambda>_. owed d c 0) (\<lambda>_. owed d c 0)"
  using owed_store [of "fst stream" n d c p "snd stream"] assms
  by (auto intro: triple_bind [OF _ triple_ret])

lemma owed_zip:
  assumes "honest_zip T" "sane_sizes T"
  shows "keeps (owed d c 0) (extract_zip T src e)"
  unfolding extract_zip_def
proof (rule keeps_bind [OF owed_reading], rule keeps_parsed, intro keeps_for keeps_if keeps_ret)
  fix content infos info written
  assume infos: "t_zip T content = Inr infos" and info: "info \<in> set infos"
  from infos info assms(2) have nonneg: "0 \<le> ze_file_size info" unfolding sane_sizes_def by blast
  have "triple (owed d c (ze_file_size info)) (zip_action info p) (\<lambda>_. owed d c 0) (\<lambda>_. owed d c 0)" for p
  proof (cases "ze_open info")
    case (Inl err)
    with nonneg show ?thesis
      by (auto simp: zip_action_def or_fail_def triple_def eff_simps elim: owed_le)
  next
    case (Inr stream)
    with infos info assms(1) have "int (length (fst stream)) \<le> ze_file_size info"
      unfolding honest_zip_def by (metis prod.collapse)
    from owed_stream [OF this nonneg] show ?thesis
      by (simp add: zip_action_def Inr or_fail_def triple_def eff_simps)
  qed
  then show "keeps (owed d c 0) (member_to T e (ze_filename info)
      (''refused path-traversing zip entry '' @ repr_str (ze_filename info))
      (ze_file_size info) (zip_action info) written)"
    by (rule owed_member [OF nonneg])
qed

lemma owed_tar:
  assumes "honest_tar T" "sane_sizes T"
  shows "keeps (owed d c 0) (extract_tar T src e)"
  unfolding extract_tar_def
proof (rule keeps_bind [OF owed_reading], rule keeps_parsed, intro keeps_for keeps_if keeps_ret)
  fix content members m written
  assume members: "t_tar T content = Inr members" and m: "m \<in> set members"
  from members m assms(2) have nonneg: "0 \<le> te_size m" unfolding sane_sizes_def by blast
  have "triple (owed d c (te_size m)) (tar_action m p) (\<lambda>_. owed d c 0) (\<lambda>_. owed d c 0)" for p
  proof (cases "te_extract m")
    case None
    with nonneg show ?thesis
      by (auto simp: tar_action_def triple_def eff_simps elim: owed_le)
  next
    case (Some stream)
    with members m assms(1) have "int (length (fst stream)) \<le> te_size m"
      unfolding honest_tar_def by (metis prod.collapse)
    from owed_stream [OF this nonneg] show ?thesis by (simp add: tar_action_def Some)
  qed
  then show "keeps (owed d c 0) (member_to T e (te_name m)
      (''refused path-traversing tar entry '' @ repr_str (te_name m)) (te_size m) (tar_action m) written)"
    by (rule owed_member [OF nonneg])
qed

lemma asar_data_bound: "asar_data content pos n = Inr data \<Longrightarrow> 0 \<le> n \<Longrightarrow> int (length data) \<le> n"
  by (auto simp: asar_data_def split: if_splits)

lemma owed_asar_action:
  assumes "0 \<le> n"
  shows "triple (owed d c n) (asar_action content pos n p) (\<lambda>_. owed d c 0) (\<lambda>_. owed d c 0)"
proof (cases "asar_data content pos n")
  case (Inl err)
  with assms show ?thesis
    by (auto simp: asar_action_def or_fail_def triple_def eff_simps elim: owed_le)
next
  case (Inr data)
  with asar_data_bound [OF Inr assms] owed_stream [of "(data, None)" n d c p] assms show ?thesis
    by (simp add: asar_action_def or_fail_def triple_def eff_simps)
qed

lemma owed_asar:
  assumes "sane_sizes T"
  shows "keeps (owed d c 0) (extract_asar T src e)"
  unfolding extract_asar_def Let_def
proof (intro keeps_bind [OF owed_reading] keeps_parsed keeps_if keeps_raise keeps_for)
  fix content :: bytes and dir x written
  assume dir: "t_json T (take (from_le (slice 12 16 content)) (drop 16 content)) = Inr dir"
    and x: "x \<in> set (asar_files [] dir)"
  obtain p entry where [simp]: "x = (p, entry)" by (cases x)
  have nonneg: "0 \<le> n" if "int_field entry ''size'' = Inr n" for n
    using that dir x assms unfolding sane_sizes_def by auto
  have "keeps (owed d c 0) (bind_s (or_fail (int_field entry ''size'')) (\<lambda>n.
      bind_s (or_fail (int_field entry ''offset'')) (\<lambda>offset.
      member_to T e p (''refused ASAR entry '' @ repr_str p) n
        (asar_action content (int (16 + from_le (slice 12 16 content)) + offset) n) written)))"
    by (intro keeps_parsed owed_member nonneg owed_asar_action)
  then show "keeps (owed d c 0) ((case x of (child_path, entry) \<Rightarrow> \<lambda>written.
      bind_s (or_fail (int_field entry ''size'')) (\<lambda>n.
      bind_s (or_fail (int_field entry ''offset'')) (\<lambda>offset.
      member_to T e child_path (''refused ASAR entry '' @ repr_str child_path) n
        (asar_action content (int (16 + from_le (slice 12 16 content)) + offset) n) written))) written)"
    by simp
qed

text \<open>The zip-bomb defence: for the formats the extractor writes itself, the bytes on disk never
  grow by more than was charged to the budget, and the budget never passes its cap, whether
  extraction succeeds, is stopped by the budget or fails halfway. It rests on the archive reader
  delivering no more than an entry declares (which \<open>zipfile\<close> and \<open>tarfile\<close> guarantee) and on no
  entry declaring a negative size.\<close>

theorem disk_use_is_charged:
  assumes "c \<in> set own_formats" "honest_zip T" "honest_tar T" "sane_sizes T"
    and "files_written (x_budget s) \<le> max_files (x_budget s)"
    and "bytes_written (x_budget s) \<le> max_total_bytes (x_budget s)"
    and "extract_one T src e c s = (r, s')"
  shows "int (disk_bytes d (x_fs s')) - int (disk_bytes d (x_fs s))
           \<le> bytes_written (x_budget s') - bytes_written (x_budget s)
       \<and> bytes_written (x_budget s') \<le> max_total_bytes (x_budget s')"
proof -
  let ?c = "int (disk_bytes d (x_fs s)) - bytes_written (x_budget s)"
  have "keeps (owed d ?c 0) (extract_one T src e c)"
    using assms(1-4) owed_zip owed_tar owed_asar
    by (auto simp: own_formats_def ZIP_FORMATS_def extract_one_def)
  moreover have "owed d ?c 0 s" using assms(5,6) by (simp add: owed_def xb.in_caps_def)
  ultimately have "owed d ?c 0 s'" using assms(7) by (auto dest: keepsD)
  then show ?thesis by (simp add: owed_def xb.in_caps_def)
qed

theorem disk_use_is_charged_witness:
  "int (disk_bytes [] (x_fs (snd hostile_run))) - int (disk_bytes [] hostile_fs)
     \<le> bytes_written (x_budget (snd hostile_run)) - 0"
proof -
  have "honest_zip hostile_tools"
    by (auto simp: honest_zip_def hostile_tools_def no_tools_def zip_member_def)
  moreover have "honest_tar hostile_tools"
    by (auto simp: honest_tar_def hostile_tools_def no_tools_def)
  moreover have "sane_sizes hostile_tools"
    by (auto simp: sane_sizes_def hostile_tools_def no_tools_def zip_member_def)
  moreover have "bytes_written (x_budget hostile_start) = 0" "files_written (x_budget hostile_start) = 0"
    "0 \<le> max_files (x_budget hostile_start)" "0 \<le> max_total_bytes (x_budget hostile_start)"
    "x_fs hostile_start = hostile_fs"
    by (simp_all add: hostile_start_def start_xstate_def scaled_budget_def default_xbudget_def
        budget_constants Let_def)
  moreover have "ZIP \<in> set own_formats" by (simp add: own_formats_def ZIP_FORMATS_def)
  ultimately show ?thesis
    using disk_use_is_charged [of ZIP hostile_tools hostile_start "[''in'', ''x.zip'']"
        "[''out'', ''d0'']" "fst hostile_run" "snd hostile_run" "[]"]
    by (simp add: hostile_run_def)
qed

text \<open>
  The walk over nested archives: it ends, it respects the budget, and its nodes form a tree.
\<close>

subsection \<open>The tree and the end of the recursion\<close>

definition known :: "string \<Rightarrow> extracted_node list \<Rightarrow> (string \<times> int) set" where
  "known root_name ns = insert (root_name, 0) ((\<lambda>n. (en_path_in_tree n, en_depth n)) ` set ns)"

text \<open>Nodes are added below something already known: the artifact itself or an earlier node, one
  level deeper, under a path that extends its parent's.\<close>

inductive provenance :: "string \<Rightarrow> int \<Rightarrow> extracted_node list \<Rightarrow> bool" for root_name cap where
  root: "provenance root_name cap []"
| below: "provenance root_name cap ns \<Longrightarrow> (p, d) \<in> known root_name ns \<Longrightarrow> d \<le> cap \<Longrightarrow>
    en_parent n = Some p \<Longrightarrow> en_depth n = d + 1 \<Longrightarrow> en_path_in_tree n = p @ ARROW @ name \<Longrightarrow>
    provenance root_name cap (ns @ [n])"

inductive_cases provenance_snocE: "provenance root_name cap (ns @ [n])"

lemma provenance_depth:
  "provenance root_name cap ns \<Longrightarrow> (p, d) \<in> known root_name ns \<Longrightarrow> 0 \<le> d"
proof (induction arbitrary: p d rule: provenance.induct)
  case (below ns p' d' n name)
  from below.IH [OF below.hyps(2)] have "0 \<le> d'" .
  with below.IH [of p d] below.prems below.hyps show ?case by (auto simp: known_def)
qed (simp add: known_def)

lemma provenance_bounds:
  "provenance root_name cap ns \<Longrightarrow> n \<in> set ns \<Longrightarrow> 1 \<le> en_depth n \<and> en_depth n \<le> cap + 1"
proof (induction arbitrary: n rule: provenance.induct)
  case (below ns p d m name)
  then show ?case using provenance_depth [of root_name cap ns p d] by auto
qed simp

definition walking :: "string \<Rightarrow> int \<Rightarrow> (string \<times> int) set \<Rightarrow> xstate \<Rightarrow> bool" where
  "walking root_name cap K s \<longleftrightarrow> provenance root_name cap (x_nodes s) \<and> K \<subseteq> known root_name (x_nodes s)
     \<and> max_depth (x_budget s) = cap \<and> xb.in_caps (x_budget s)"

lemma reserve_max_depth [simp]: "max_depth (snd (reserve n b)) = max_depth b"
  by (simp add: reserve_def)

lemma walking_frame: "frame (walking rn cap K)"
  unfolding frame_def
proof (intro conjI allI impI)
  fix n show "keeps (walking rn cap K) (on_budget (reserve n))"
  proof (rule keepsI)
    fix s assume s: "walking rn cap K s"
    then have "xb.in_caps (snd (reserve n (x_budget s)))"
      using keepsD [OF xb.charge_in_caps] by (auto simp: walking_def)
    with s show "walking rn cap K (snd (on_budget (reserve n) s))"
      using reserve_max_depth [of n "x_budget s"]
      by (cases "reserve n (x_budget s)") (auto simp: walking_def on_budget_def)
  qed
next
  fix t show "keeps (walking rn cap K) (note_error t)"
    unfolding note_error_def by (intro triple_rules) (simp add: walking_def)
qed (simp add: walking_def)

lemma check_depth_walking:
  "triple (walking rn cap K) (attempt (on_budget (check_depth d)))
     (\<lambda>r s. walking rn cap K s \<and> (\<forall>u. r = Inr u \<longrightarrow> d \<le> cap)) E"
  by (auto simp: triple_def attempt_def on_budget_def check_depth_def walking_def xb.in_caps_def
      split: if_splits)

definition no_fuel_error :: "(xstate \<Rightarrow> bool) \<Rightarrow> unit x \<Rightarrow> bool" where
  "no_fuel_error I m \<longleftrightarrow> triple I m (\<lambda>_. I) (\<lambda>e s. I s \<and> e \<noteq> OutOfFuel)"

lemma no_fuel_keeps:
  "keeps I m \<Longrightarrow> (\<And>s e s'. m s = (Inl e, s') \<Longrightarrow> e \<noteq> OutOfFuel) \<Longrightarrow> no_fuel_error I m"
  unfolding keeps_def no_fuel_error_def triple_def by (fastforce split: sum.splits prod.splits)

lemma visit_child_walking:
  assumes "(pit, depth) \<in> K" "depth \<le> cap"
    and rec: "\<And>child cpit K. (cpit, depth + 1) \<in> K \<Longrightarrow>
      no_fuel_error (walking rn cap K) (rec child cpit (depth + 1))"
  shows "no_fuel_error (walking rn cap K) (visit_child rec out dest pit depth by_c child)"
proof -
  let ?I = "walking rn cap K"
  have parsed: "triple ?I (bind_s (or_fail v) f) (\<lambda>_. ?I) (\<lambda>e s. ?I s \<and> e \<noteq> OutOfFuel)"
    if "\<And>x. triple ?I (f x) (\<lambda>_. ?I) (\<lambda>e s. ?I s \<and> e \<noteq> OutOfFuel)" for v :: "string + 'v" and f :: "'v \<Rightarrow> unit x"
    using that by (cases v) (auto simp: or_fail_def triple_def eff_simps)
  have sized: "triple ?I (bind_s (reads f) or_fail) (\<lambda>_. ?I) (\<lambda>e s. ?I s \<and> e \<noteq> OutOfFuel)"
    for f :: "xstate \<Rightarrow> string + 'v"
    by (auto simp: triple_def eff_simps or_fail_def split: sum.splits)
  have reading: "triple ?I (reads f) (\<lambda>_. ?I) (\<lambda>e s. ?I s \<and> e \<noteq> OutOfFuel)" for f :: "xstate \<Rightarrow> 'v"
    by (simp add: triple_reads)
  have adding: "triple ?I (bind_s (modify (\<lambda>s. s\<lparr>x_nodes := x_nodes s @
        [mk_node (pit @ ARROW @ name) rel pit (depth + 1) n c by_c]\<rparr>)) (\<lambda>_.
      when_s b (rec child (pit @ ARROW @ name) (depth + 1)))) (\<lambda>_. ?I) (\<lambda>e s. ?I s \<and> e \<noteq> OutOfFuel)"
    for name rel n c b
  proof (rule triple_bind)
    let ?K = "insert (pit @ ARROW @ name, depth + 1) K"
    show "triple ?I (modify (\<lambda>s. s\<lparr>x_nodes := x_nodes s @
        [mk_node (pit @ ARROW @ name) rel pit (depth + 1) n c by_c]\<rparr>)) (\<lambda>_. walking rn cap ?K)
        (\<lambda>e s. ?I s \<and> e \<noteq> OutOfFuel)"
    proof (rule triple_modify)
      fix s assume s: "?I s"
      let ?n = "mk_node (pit @ ARROW @ name) rel pit (depth + 1) n c by_c"
      have "provenance rn cap (x_nodes s @ [?n])"
        by (rule provenance.below [of _ _ _ pit depth])
           (use s assms(1,2) in \<open>auto simp: walking_def mk_node_def\<close>)
      with s show "walking rn cap ?K (s\<lparr>x_nodes := x_nodes s @ [?n]\<rparr>)"
        by (auto simp: walking_def known_def mk_node_def)
    qed
    have sub: "walking rn cap ?K s \<Longrightarrow> ?I s" for s by (simp add: walking_def)
    have "triple (walking rn cap ?K) (rec child (pit @ ARROW @ name) (depth + 1)) (\<lambda>_. ?I)
        (\<lambda>e s. ?I s \<and> e \<noteq> OutOfFuel)"
      using rec [of "pit @ ARROW @ name" ?K child] sub
      by (auto simp: no_fuel_error_def elim!: triple_weaken)
    then show "triple (walking rn cap ?K) (when_s b (rec child (pit @ ARROW @ name) (depth + 1)))
        (\<lambda>_. ?I) (\<lambda>e s. ?I s \<and> e \<noteq> OutOfFuel)"
      using sub by (auto intro!: triple_when)
  qed
  show ?thesis
    unfolding no_fuel_error_def visit_child_def Let_def
    by (intro parsed triple_bind [OF reading] triple_bind [OF sized] adding)
qed

lemma walk_step_walking:
  assumes "(pit, depth) \<in> K"
    and rec: "\<And>child cpit K. depth \<le> cap \<Longrightarrow> (cpit, depth + 1) \<in> K \<Longrightarrow>
      no_fuel_error (walking rn cap K) (rec child cpit (depth + 1))"
  shows "no_fuel_error (walking rn cap K) (walk_step rec T out src pit depth)"
proof -
  let ?I = "walking rn cap K"
  let ?E = "\<lambda>e s. ?I s \<and> e \<noteq> OutOfFuel"
  have noted: "triple ?I (note_error t) (\<lambda>_. ?I) ?E" for t
    unfolding note_error_def by (intro triple_modify) (simp add: walking_def)
  have failure: "triple ?I (note_failure p c e) (\<lambda>_. ?I) ?E" for p c e
    unfolding note_failure_def by (cases e) (auto intro: noted)
  have extracting: "triple ?I (attempt (bind_s (on_fs g) (\<lambda>_. extract_one T src d c))) (\<lambda>_. ?I) ?E" for g d c
  proof -
    have "keeps ?I (bind_s (on_fs g) (\<lambda>_. extract_one T src d c))"
      by (intro keeps_bind frame_fs frame_extract_one walking_frame)
    then show ?thesis
      unfolding keeps_def by (intro triple_attempt)
  qed
  have looking: "triple ?I (reads f) (\<lambda>_. ?I) ?E" for f :: "xstate \<Rightarrow> 'v"
    by (simp add: triple_reads)
  have children: "triple ?I (for_s written () (\<lambda>child _. visit_child rec out d pit depth c child)) (\<lambda>_. ?I) ?E"
    if "depth \<le> cap" for written d c
    using visit_child_walking [OF assms(1) that, of rn rec] rec [OF that]
    by (intro triple_for) (auto simp: no_fuel_error_def)
  have rest: "triple ?I
     (bind_s (reads (\<lambda>s. is_exhausted (x_budget s))) (\<lambda>exhausted.
      if exhausted then ret () else
      bind_s (reads (\<lambda>s. detect_file src (x_fs s))) (\<lambda>detection.
      if \<not> should_unpack detection then ret () else
      let destination = out @ [slugify (t_alnum T) pit depth] in
      bind_s (attempt (bind_s (on_fs (mkdirs destination))
                        (\<lambda>_. extract_one T src destination (det_container detection)))) (\<lambda>outcome.
      case outcome of
        Inl exc \<Rightarrow> note_failure pit (det_container detection) exc
      | Inr written \<Rightarrow> for_s written () (\<lambda>child _.
          visit_child rec out destination pit depth (det_container detection) child))))) (\<lambda>_. ?I) ?E"
    if "depth \<le> cap"
    unfolding Let_def
    by (intro triple_bind [OF looking] triple_if triple_ret triple_bind [OF extracting])
       (auto intro: failure children [OF that] split: sum.split)
  show ?thesis
    unfolding no_fuel_error_def walk_step_def
  proof (rule triple_bind [OF check_depth_walking])
    fix checked :: "unpack_exn + unit"
    show "triple (\<lambda>s. ?I s \<and> (\<forall>u. checked = Inr u \<longrightarrow> depth \<le> cap))
      (case checked of Inl exc \<Rightarrow> note_error (pit @ '': '' @ exn_text exc)
       | Inr _ \<Rightarrow> bind_s (reads (\<lambda>s. is_exhausted (x_budget s))) (\<lambda>exhausted.
      if exhausted then ret () else
      bind_s (reads (\<lambda>s. detect_file src (x_fs s))) (\<lambda>detection.
      if \<not> should_unpack detection then ret () else
      let destination = out @ [slugify (t_alnum T) pit depth] in
      bind_s (attempt (bind_s (on_fs (mkdirs destination))
                        (\<lambda>_. extract_one T src destination (det_container detection)))) (\<lambda>outcome.
      case outcome of
        Inl exc \<Rightarrow> note_failure pit (det_container detection) exc
      | Inr written \<Rightarrow> for_s written () (\<lambda>child _.
          visit_child rec out destination pit depth (det_container detection) child))))) (\<lambda>_. ?I) ?E"
    proof (cases checked)
      case (Inl e)
      then show ?thesis using noted by (auto elim!: triple_weaken)
    next
      case (Inr u)
      show ?thesis
      proof (cases "depth \<le> cap")
        case True
        show ?thesis
          unfolding Inr sum.case by (rule triple_weaken [OF rest [OF True]]) simp_all
      next
        case False
        then show ?thesis unfolding triple_def Inr by simp
      qed
    qed
  qed
qed

lemma walk_walking:
  "(pit, depth) \<in> K \<Longrightarrow> 1 \<le> fuel \<Longrightarrow> cap + 2 - depth \<le> int fuel \<Longrightarrow>
     no_fuel_error (walking rn cap K) (walk fuel T out src pit depth)"
proof (induction fuel arbitrary: pit depth K src)
  case (Suc fuel)
  have "no_fuel_error (walking rn cap K') (walk fuel T out child cpit (depth + 1))"
    if "depth \<le> cap" "(cpit, depth + 1) \<in> K'" for child cpit K'
    using Suc.IH [OF that(2)] Suc.prems that(1) by auto
  then show ?case using Suc.prems(1) by (auto intro: walk_step_walking)
qed simp

text \<open>C8: recursive extraction ends: with \<open>max_depth + 2\<close> levels of recursion allowed it never runs
  out, whatever the archives hold. When it ends (normally or not) the budget is within its caps,
  no node is deeper than \<open>max_depth + 1\<close>, and the nodes are a tree: every node hangs below the
  artifact or an earlier node, one level deeper, and its path extends its parent's.\<close>

theorem extraction_tree_sound:
  assumes "0 \<le> max_files b" "0 \<le> max_total_bytes b" "files_written b = 0" "bytes_written b = 0"
    and "nat (max_depth b) + 2 \<le> fuel"
    and "extract_tree fuel T artifact out root_name (start_xstate b fs) = (r, s)"
  shows "r \<noteq> Inl OutOfFuel
    \<and> provenance root_name (max_depth b) (x_nodes s)
    \<and> (\<forall>n \<in> set (x_nodes s). 1 \<le> en_depth n \<and> en_depth n \<le> max_depth b + 1)
    \<and> files_written (x_budget s) \<le> max_files (x_budget s)
    \<and> bytes_written (x_budget s) \<le> max_total_bytes (x_budget s)"
proof -
  let ?I = "walking root_name (max_depth b) {(root_name, 0)}"
  have start: "?I (start_xstate b fs)"
    using assms(1-4)
    by (auto simp: walking_def start_xstate_def known_def xb.in_caps_def intro: provenance.root)
  have "no_fuel_error ?I (walk fuel T out artifact root_name 0)"
    using assms(5) by (intro walk_walking) auto
  then have run: "triple ?I (extract_tree fuel T artifact out root_name) (\<lambda>_. ?I)
      (\<lambda>e s. ?I s \<and> e \<noteq> OutOfFuel)"
    unfolding extract_tree_def no_fuel_error_def
    by (intro triple_bind [where R = "\<lambda>_. ?I"])
       (auto simp: triple_def on_fs_def walking_def split: sum.splits)
  have "?I s \<and> r \<noteq> Inl OutOfFuel"
    using tripleD_value [OF run start] tripleD_error [OF run start] assms(6) by (cases r) auto
  then show ?thesis
    using provenance_bounds by (auto simp: walking_def xb.in_caps_def)
qed

theorem extraction_tree_sound_witness:
  "fst (extract_tree 10 hostile_tools [''in'', ''x.zip''] [''out''] ''x.zip''
      (start_xstate (scaled_budget 1000) hostile_fs)) \<noteq> Inl OutOfFuel"
proof -
  let ?run = "extract_tree 10 hostile_tools [''in'', ''x.zip''] [''out''] ''x.zip''
      (start_xstate (scaled_budget 1000) hostile_fs)"
  have "max_depth (scaled_budget 1000) = 8" "0 \<le> max_files (scaled_budget 1000)"
    "0 \<le> max_total_bytes (scaled_budget 1000)" "files_written (scaled_budget 1000) = 0"
    "bytes_written (scaled_budget 1000) = 0"
    by (simp_all add: scaled_budget_def default_xbudget_def budget_constants Let_def)
  then show ?thesis
    using extraction_tree_sound [of "scaled_budget 1000" 10 hostile_tools "[''in'', ''x.zip'']" "[''out'']"
        "''x.zip''" hostile_fs "fst ?run" "snd ?run"] by simp
qed

text \<open>The directory a nested archive is opened into is named after its last path segment and its
  depth alone, so two archives of one name at one depth under different parents share it: the
  second extraction overwrites the first one's files.\<close>

lemma slug_collision:
  "slugify alnum (''a'' @ ARROW @ ''p.zip'' @ ARROW @ ''app.zip'') 2
    = slugify alnum (''a'' @ ARROW @ ''q.zip'' @ ARROW @ ''app.zip'') 2"
  by (simp add: slugify_def ARROW_def is_cont_def char_isalnum_def is_letter_def is_lower_def
      is_upper_def is_digit_def show_int_def show_nat.simps digit_char_def)

text \<open>A member that resolves to the directory itself is not refused: it is handed on as a target,
  and opening a directory for writing fails the whole archive.\<close>

lemma dot_dot_member_targets_directory:
  "safe_join alpha [] [''out''] ''a/..'' = Inr (Some [''out''])
    \<and> write_file [''out''] data [([''out''], Dir)] = Inl (os_error EISDIR [''out''])"
  by (simp add: safe_join_def clean_member_def drop_drive_def resolve_def is_cont_def char_isalpha_def
      numeral_eq_Suc lookup_def write_file_def)

end
