(* ===== verification/Store.thy ===== *)
theory Store
  imports Py_Values Policy_Model
begin

text \<open>
  The rows the pipeline keeps in its database (\<open>core/models/tables.py\<close>) and their enumerations
  (\<open>core/models/enums.py\<close>). A table is the list of its rows; \<open>session.get\<close> looks a row up by its
  primary key. Columns that hold an enumeration's value are typed by the enumeration, the only
  values the code writes. A datetime is a number of microseconds with a flag for whether it knows
  its time zone: subtracting a naive from an aware one is a \<open>TypeError\<close>. SHA-256 is a parameter.
\<close>

subsection \<open>Enumerations\<close>

datatype run_status = R_QUEUED | R_RUNNING | R_COMPLETED | R_DEGRADED | R_FAILED | R_CANCELLED

fun run_status_value :: "run_status \<Rightarrow> string" where
  "run_status_value R_QUEUED = ''queued''"
| "run_status_value R_RUNNING = ''running''"
| "run_status_value R_COMPLETED = ''completed''"
| "run_status_value R_DEGRADED = ''degraded''"
| "run_status_value R_FAILED = ''failed''"
| "run_status_value R_CANCELLED = ''cancelled''"

definition run_is_terminal :: "run_status \<Rightarrow> bool" where
  "run_is_terminal s \<longleftrightarrow> s \<in> {R_COMPLETED, R_DEGRADED, R_FAILED, R_CANCELLED}"

definition produced_results :: "run_status \<Rightarrow> bool" where
  "produced_results s \<longleftrightarrow> s \<in> {R_COMPLETED, R_DEGRADED}"

datatype stage_status =
  S_PENDING | S_RUNNING | S_COMPLETED | S_TIMEOUT | S_OOM | S_FAILED | S_TRUNCATED | S_SKIPPED

fun stage_status_value :: "stage_status \<Rightarrow> string" where
  "stage_status_value S_PENDING = ''pending''"
| "stage_status_value S_RUNNING = ''running''"
| "stage_status_value S_COMPLETED = ''completed''"
| "stage_status_value S_TIMEOUT = ''timeout''"
| "stage_status_value S_OOM = ''oom''"
| "stage_status_value S_FAILED = ''failed''"
| "stage_status_value S_TRUNCATED = ''truncated''"
| "stage_status_value S_SKIPPED = ''skipped''"

definition stage_is_degraded :: "stage_status \<Rightarrow> bool" where
  "stage_is_degraded s \<longleftrightarrow> s \<in> {S_TIMEOUT, S_OOM, S_FAILED, S_TRUNCATED}"

datatype finding_status = F_OPEN | F_CONFIRMED | F_FALSE_POSITIVE | F_ACCEPTED_RISK | F_FIXED | F_NEEDS_REVIEW

fun finding_status_value :: "finding_status \<Rightarrow> string" where
  "finding_status_value F_OPEN = ''open''"
| "finding_status_value F_CONFIRMED = ''confirmed''"
| "finding_status_value F_FALSE_POSITIVE = ''false_positive''"
| "finding_status_value F_ACCEPTED_RISK = ''accepted_risk''"
| "finding_status_value F_FIXED = ''fixed''"
| "finding_status_value F_NEEDS_REVIEW = ''needs_review''"

definition finding_status_is_actionable :: "finding_status \<Rightarrow> bool" where
  "finding_status_is_actionable s \<longleftrightarrow> s \<in> {F_OPEN, F_CONFIRMED, F_NEEDS_REVIEW}"

datatype detected_by = D_RULE | D_BOTH | D_LLM

datatype llm_verdict = V_TRUE_POSITIVE | V_FALSE_POSITIVE | V_NEEDS_REVIEW | V_ERROR

fun llm_verdict_value :: "llm_verdict \<Rightarrow> string" where
  "llm_verdict_value V_TRUE_POSITIVE = ''true_positive''"
| "llm_verdict_value V_FALSE_POSITIVE = ''false_positive''"
| "llm_verdict_value V_NEEDS_REVIEW = ''needs_review''"
| "llm_verdict_value V_ERROR = ''error''"

datatype audit_action =
  RUN_CREATED | ARTIFACT_UPLOADED | ATTESTATION_RECORDED | PLAINTEXT_REVEALED
  | FINDING_STATUS_CHANGED | SUPPRESSION_CREATED | LLM_CALL | EXPORT | CONFIG_CHANGED
  | RUN_REQUEUED | RUN_ORPHANED | TOKEN_CREATED | TOKEN_REVOKED | AUTH_FAILED

fun audit_action_value :: "audit_action \<Rightarrow> string" where
  "audit_action_value RUN_CREATED = ''run_created''"
| "audit_action_value ARTIFACT_UPLOADED = ''artifact_uploaded''"
| "audit_action_value ATTESTATION_RECORDED = ''attestation_recorded''"
| "audit_action_value PLAINTEXT_REVEALED = ''plaintext_revealed''"
| "audit_action_value FINDING_STATUS_CHANGED = ''finding_status_changed''"
| "audit_action_value SUPPRESSION_CREATED = ''suppression_created''"
| "audit_action_value LLM_CALL = ''llm_call''"
| "audit_action_value EXPORT = ''export''"
| "audit_action_value CONFIG_CHANGED = ''config_changed''"
| "audit_action_value RUN_REQUEUED = ''run_requeued''"
| "audit_action_value RUN_ORPHANED = ''run_orphaned''"
| "audit_action_value TOKEN_CREATED = ''token_created''"
| "audit_action_value TOKEN_REVOKED = ''token_revoked''"
| "audit_action_value AUTH_FAILED = ''auth_failed''"

subsection \<open>Moments\<close>

datatype moment = Moment (m_aware: bool) (m_us: int)

definition moment_diff :: "moment \<Rightarrow> moment \<Rightarrow> int option" where
  "moment_diff a b = (if m_aware a = m_aware b then Some (m_us a - m_us b) else None)"

definition seconds_us :: "int \<Rightarrow> int" where
  "seconds_us s = s * 1000000"

text \<open>\<open>int(delta.total_seconds())\<close>.\<close>

definition whole_seconds :: "int \<Rightarrow> int" where
  "whole_seconds us = (if 0 \<le> us then us div 1000000 else - (- us div 1000000))"

subsection \<open>Rows\<close>

record run =
  r_id :: string
  r_status :: run_status
  r_created_at :: moment
  r_started_at :: "moment option"
  r_finished_at :: "moment option"
  r_error :: "string option"
  r_previous_run_id :: "string option"
  r_retain_plaintext :: bool

record run_stage =
  st_id :: string
  st_run_id :: string
  st_artifact_id :: "string option"
  st_analyzer :: string
  st_status :: stage_status
  st_created_at :: moment
  st_started_at :: "moment option"
  st_finished_at :: "moment option"
  st_exit_code :: "int option"
  st_image_digest :: "string option"
  st_error :: "string option"
  st_evidence_count :: nat
  st_duration_s :: "rat option"
  st_log_key :: "string option"
  st_log_bytes :: nat
  st_log_truncated :: bool

record artifact =
  a_id :: string
  a_run_id :: string
  a_parent_id :: "string option"
  a_name :: string
  a_path_in_tree :: string
  a_depth :: int
  a_sha256 :: string
  a_size_bytes :: int
  a_storage_key :: "string option"
  a_extracted_by :: "string option"
  a_kind :: string
  a_media_type :: "string option"
  a_architecture :: "string option"
  a_identified :: "(string \<times> pyval) list"

record evidence =
  ev_run_id :: string
  ev_artifact_id :: string
  ev_analyzer :: string
  ev_rule_id :: string
  ev_value_hash :: string
  ev_value_masked :: string
  ev_value_plaintext :: "string option"
  ev_offset :: "int option"
  ev_section :: "string option"
  ev_encoding :: "string option"
  ev_entropy :: "rat option"
  ev_context :: "string option"
  ev_context_plaintext :: "string option"

record finding =
  f_id :: string
  f_run_id :: string
  f_rule_id :: string
  f_category :: string
  f_title :: string
  f_severity :: severity
  f_confidence :: rat
  f_value_masked :: string
  f_value_hash :: string
  f_entropy :: "rat option"
  f_context_snippet :: "string option"
  f_cwe :: "string option"
  f_tags :: "string list"
  f_remediation_md :: "string option"
  f_detected_by :: detected_by
  f_status :: finding_status
  f_llm_verdict :: "llm_verdict option"
  f_llm_reasoning :: "string option"
  f_llm_model :: "string option"

record finding_location =
  fl_finding_id :: string
  fl_run_id :: string
  fl_artifact_id :: string
  fl_path_in_tree :: string
  fl_offset :: "int option"
  fl_section :: "string option"
  fl_encoding :: "string option"
  fl_xref_function :: "string option"

record audit_entry =
  au_run_id :: "string option"
  au_action :: audit_action
  au_actor :: string
  au_detail :: "(string \<times> pyval) list"

record suppression =
  su_value_hash :: string
  su_rule_id :: string
  su_path_pattern :: string
  su_reason :: string

record db =
  db_runs :: "run list"
  db_stages :: "run_stage list"
  db_artifacts :: "artifact list"
  db_findings :: "finding list"
  db_locations :: "finding_location list"
  db_audit :: "audit_entry list"

definition get_run :: "db \<Rightarrow> string \<Rightarrow> run option" where
  "get_run d i = List.find (\<lambda>r. r_id r = i) (db_runs d)"

definition record_audit :: "audit_action \<Rightarrow> string \<Rightarrow> string option \<Rightarrow> (string \<times> pyval) list \<Rightarrow> audit_entry" where
  "record_audit action actor run detail =
     \<lparr>au_run_id = run, au_action = action, au_actor = actor, au_detail = detail\<rparr>"

text \<open>\<open>Finding.compute_id\<close>: the first 32 hex digits of a SHA-256 over the four parts. An absent
  offset counts as 0.\<close>

definition compute_id :: "(string \<Rightarrow> string) \<Rightarrow> string \<Rightarrow> string \<Rightarrow> string \<Rightarrow> int option \<Rightarrow> string" where
  "compute_id sha256_hex rule_id value_hash artifact_path offset =
     take 32 (sha256_hex (join [CHR 0x1F]
       [rule_id, value_hash, artifact_path, show_int (case offset of None \<Rightarrow> 0 | Some n \<Rightarrow> n)]))"

definition is_ai_influenced :: "finding \<Rightarrow> bool" where
  "is_ai_influenced f \<longleftrightarrow> f_detected_by f \<noteq> D_RULE \<or> f_llm_verdict f \<noteq> None"

text \<open>\<open>ORDER BY\<close> on text columns is by code points (the C collation).\<close>

lemma get_run_id: "get_run d i = Some r \<Longrightarrow> r_id r = i \<and> r \<in> set (db_runs d)"
  by (auto simp: get_run_def find_Some_iff)

end
