(* ===== verification/Gate_Pipeline.thy ===== *)
theory Gate_Pipeline
  imports Store Gate_Properties
begin

text \<open>
  From a stored run to a verdict: which stages count as degraded (\<open>core/pipeline/stages.py\<close>) and the
  bridge to the policy engine (\<open>core/pipeline/gate.py\<close>). \<open>today\<close> is the date \<open>evaluate\<close> reads from
  the clock.
\<close>

subsection \<open>Degraded stages\<close>

definition ENRICHMENT_ANALYZERS :: "string set" where
  "ENRICHMENT_ANALYZERS = {''ghidra''}"

definition degraded_stages :: "db \<Rightarrow> string \<Rightarrow> run_stage list" where
  "degraded_stages d run_id =
     sort_key st_analyzer
       (filter (\<lambda>s. stage_is_degraded (st_status s) \<and> st_analyzer s \<notin> ENRICHMENT_ANALYZERS)
         (filter (\<lambda>s. st_run_id s = run_id) (db_stages d)))"

definition describe_degraded :: "run_stage list \<Rightarrow> string list" where
  "describe_degraded stages =
     map (\<lambda>s. st_analyzer s @ '' ('' @ stage_status_value (st_status s) @ '')'') stages"

subsection \<open>The baseline\<close>

record baseline_ref =
  br_run_id :: "string option"
  br_finding_ids :: "string set"
  br_source :: string

definition no_baseline :: baseline_ref where
  "no_baseline = \<lparr>br_run_id = None, br_finding_ids = {}, br_source = ''none''\<rparr>"

definition br_resolved :: "baseline_ref \<Rightarrow> bool" where
  "br_resolved b \<longleftrightarrow> br_source b \<noteq> ''none''"

text \<open>\<open>a or b\<close> on optional strings: an empty string counts as absent.\<close>

definition or_str :: "string option \<Rightarrow> string option \<Rightarrow> string option" where
  "or_str a b = (case a of Some x \<Rightarrow> if x \<noteq> [] then Some x else b | None \<Rightarrow> b)"

definition resolve_baseline ::
  "db \<Rightarrow> run \<Rightarrow> string option \<Rightarrow> string set option \<Rightarrow> baseline_ref" where
  "resolve_baseline d run baseline_run_id baseline_finding_ids =
     (case baseline_finding_ids of
        Some ids \<Rightarrow> no_baseline\<lparr>br_finding_ids := ids, br_source := ''supplied_ids''\<rparr>
      | None \<Rightarrow>
     (case or_str baseline_run_id (r_previous_run_id run) of
        None \<Rightarrow> no_baseline
      | Some candidate \<Rightarrow>
     (case get_run d candidate of
        None \<Rightarrow> no_baseline
      | Some previous \<Rightarrow>
          if r_status previous \<noteq> R_COMPLETED then no_baseline
          else \<lparr>br_run_id = Some (r_id previous),
                br_finding_ids = f_id ` set (filter (\<lambda>f. f_run_id f = r_id previous) (db_findings d)),
                br_source = (case baseline_run_id of
                    Some x \<Rightarrow> if x \<noteq> [] then ''explicit_run'' else ''previous_run''
                  | None \<Rightarrow> ''previous_run'')\<rparr>)))"

subsection \<open>The gate's view of the findings\<close>

definition location_key :: "finding_location \<Rightarrow> string \<times> string \<times> int option" where
  "location_key l = (fl_finding_id l, fl_path_in_tree l, fl_offset l)"

definition artifact_paths :: "db \<Rightarrow> string \<Rightarrow> string list \<Rightarrow> (string, string) dict" where
  "artifact_paths d run_id finding_ids =
     (if finding_ids = [] then []
      else dict_first fl_finding_id fl_path_in_tree
             (sort_key location_key
               (filter (\<lambda>l. fl_run_id l = run_id \<and> fl_finding_id l \<in> set finding_ids) (db_locations d))))"

definition gate_view :: "baseline_ref \<Rightarrow> (string, string) dict \<Rightarrow> finding \<Rightarrow> gate_finding" where
  "gate_view baseline paths f =
     \<lparr>gf_id = f_id f, gf_rule_id = f_rule_id f, gf_category = f_category f, gf_title = f_title f,
      gf_severity = f_severity f, gf_status = finding_status_value (f_status f),
      gf_is_new = (f_id f \<notin> br_finding_ids baseline),
      gf_llm_dismissed = (f_llm_verdict f = Some V_FALSE_POSITIVE),
      gf_artifact_path = (case map_of paths (f_id f) of Some p \<Rightarrow> p | None \<Rightarrow> []),
      gf_value_masked = f_value_masked f\<rparr>"

definition collect_gate_findings :: "db \<Rightarrow> string \<Rightarrow> baseline_ref \<Rightarrow> gate_finding list" where
  "collect_gate_findings d run_id baseline =
     (let findings = filter (\<lambda>f. f_run_id f = run_id) (db_findings d) in
      if findings = [] then []
      else map (gate_view baseline (artifact_paths d run_id (map f_id findings))) findings)"

definition gate_degraded :: "db \<Rightarrow> string \<Rightarrow> string list" where
  "gate_degraded d run_id = describe_degraded (degraded_stages d run_id)"

datatype gate_error = RunNotReady string

definition failed_run_stage :: "run \<Rightarrow> string" where
  "failed_run_stage run =
     ''run failed: '' @ (case or_str (r_error run) None of Some e \<Rightarrow> e | None \<Rightarrow> ''unknown error'')"

definition gate_run ::
  "db \<Rightarrow> string \<Rightarrow> policy \<Rightarrow> waiver list \<Rightarrow> string option \<Rightarrow> string set option \<Rightarrow> date
     \<Rightarrow> gate_error + gate_verdict \<times> baseline_ref" where
  "gate_run d run_id policy waivers baseline_run_id baseline_finding_ids today =
     (case get_run d run_id of
        None \<Rightarrow> Inl (RunNotReady (''run '' @ run_id @ '' does not exist''))
      | Some run \<Rightarrow>
          if \<not> run_is_terminal (r_status run)
          then Inl (RunNotReady (''run '' @ run_id @ '' is '' @ run_status_value (r_status run)
                                 @ ''; the gate needs a finished scan''))
          else if r_status run = R_FAILED
          then Inr (evaluate [] policy waivers [failed_run_stage run] today, no_baseline)
          else
            (let baseline = resolve_baseline d run baseline_run_id baseline_finding_ids;
                 findings = collect_gate_findings d run_id baseline
             in Inr (evaluate findings policy waivers (gate_degraded d run_id) today, baseline)))"

subsection \<open>Facts\<close>

lemma gate_degraded_Nil: "gate_degraded d i = [] \<longleftrightarrow> degraded_stages d i = []"
  by (simp add: gate_degraded_def describe_degraded_def)

lemma sort_key_Nil [simp]: "sort_key f xs = [] \<longleftrightarrow> xs = []"
  by (metis length_0_conv length_sort)

lemma degraded_stages_Nil:
  "degraded_stages d i = [] \<longleftrightarrow>
     (\<forall>s \<in> set (db_stages d). st_run_id s = i \<longrightarrow> stage_is_degraded (st_status s) \<longrightarrow>
        st_analyzer s \<in> ENRICHMENT_ANALYZERS)"
  by (auto simp: degraded_stages_def filter_empty_conv)

lemma evaluate_no_findings:
  "gv_decision (evaluate [] p ws dg today) =
     (if dg = [] \<or> p_on_degraded p = PASS_DEGRADED then PASS else INCONCLUSIVE)"
proof -
  have none: "\<not> over_budget p (considered_findings p ws today []) s" for s
    by (cases s) (auto simp: over_budget_def considered_findings_def)
  show ?thesis
  proof (cases "dg = [] \<or> p_on_degraded p = PASS_DEGRADED")
    case True
    then have "gv_decision (evaluate [] p ws dg today) = PASS"
      unfolding gate_pass_core using none by simp
    with True show ?thesis by simp
  next
    case False
    then have "gv_decision (evaluate [] p ws dg today) \<noteq> PASS"
      unfolding gate_pass_core by simp
    moreover have "gv_decision (evaluate [] p ws dg today) \<noteq> BLOCKED"
      unfolding gate_blocked_core using none by simp
    ultimately show ?thesis using False by (cases "gv_decision (evaluate [] p ws dg today)") auto
  qed
qed

subsection \<open>Properties\<close>

lemma gate_run_cases:
  assumes "gate_run d i p ws bi bs today = Inr (v, b)"
  obtains (failed) r where "get_run d i = Some r" "r_status r = R_FAILED" "b = no_baseline"
      "v = evaluate [] p ws [failed_run_stage r] today"
    | (finished) r where "get_run d i = Some r" "run_is_terminal (r_status r)" "r_status r \<noteq> R_FAILED"
      "b = resolve_baseline d r bi bs"
      "v = evaluate (collect_gate_findings d i b) p ws (gate_degraded d i) today"
  using assms by (auto simp: gate_run_def Let_def split: option.splits if_splits)

text \<open>The gate refuses exactly the runs it has no honest answer for: those that do not exist and
  those that have not reached a terminal state.\<close>

theorem unfinished_run_refused:
  "(\<exists>e. gate_run d i p ws bi bs today = Inl e) \<longleftrightarrow>
     (case get_run d i of None \<Rightarrow> True | Some r \<Rightarrow> r_status r = R_QUEUED \<or> r_status r = R_RUNNING)"
  by (cases "get_run d i"; cases "r_status (the (get_run d i))")
     (auto simp: gate_run_def run_is_terminal_def Let_def)

lemma degraded_run_core:
  assumes "gate_run d i p ws bi bs today = Inr (v, b)" "p_on_degraded p \<noteq> PASS_DEGRADED"
    and "get_run d i = Some r" "r_status r = R_FAILED \<or> degraded_stages d i \<noteq> []"
  shows "verdict_exit_code v \<noteq> 0"
proof -
  have "gv_decision v \<noteq> PASS"
    using assms(1)
  proof (cases rule: gate_run_cases)
    case (failed r')
    then show ?thesis using assms(2) by (simp add: evaluate_no_findings)
  next
    case (finished r')
    with assms(3,4) have "gate_degraded d i \<noteq> []" by (auto simp: gate_degraded_Nil)
    then show ?thesis using finished(5) assms(2) by (simp add: gate_pass_core)
  qed
  then show ?thesis by (cases "gv_decision v") (simp_all add: verdict_exit_code_def)
qed

text \<open>C9: An incomplete scan never passes: a failed run, and a run with a stage that timed out, ran
  out of memory, failed or was truncated, exits non-zero whatever was found or waived, unless the
  policy explicitly passes degraded scans.\<close>

theorem degraded_run_never_passes:
  assumes "gate_run d i p ws bi bs today = Inr (v, b)" "p_on_degraded p \<noteq> PASS_DEGRADED"
    and "get_run d i = Some r" "r_status r = R_FAILED \<or> degraded_stages d i \<noteq> []"
  shows "verdict_exit_code v \<noteq> 0"
  using assms by (rule degraded_run_core)

definition sample_run :: run where
  "sample_run = \<lparr>r_id = ''r1'', r_status = R_DEGRADED, r_created_at = Moment True 0,
     r_started_at = Some (Moment True 1), r_finished_at = Some (Moment True 2), r_error = None,
     r_previous_run_id = None, r_retain_plaintext = False\<rparr>"

definition sample_stage :: run_stage where
  "sample_stage = \<lparr>st_id = ''s1'', st_run_id = ''r1'', st_artifact_id = None, st_analyzer = ''static'',
     st_status = S_FAILED, st_created_at = Moment True 0, st_started_at = Some (Moment True 1),
     st_finished_at = Some (Moment True 2), st_exit_code = Some 1, st_image_digest = None,
     st_error = None, st_evidence_count = 0, st_duration_s = None, st_log_key = None, st_log_bytes = 0,
     st_log_truncated = False\<rparr>"

definition sample_db :: db where
  "sample_db = \<lparr>db_runs = [sample_run], db_stages = [sample_stage], db_artifacts = [], db_findings = [],
     db_locations = [], db_audit = []\<rparr>"

lemmas sample_db_defs = sample_db_def sample_run_def sample_stage_def get_run_def

theorem degraded_run_never_passes_witness:
  "\<exists>v b. gate_run sample_db ''r1'' default_policy [] None None sample_day = Inr (v, b)
     \<and> verdict_exit_code v \<noteq> 0"
proof -
  obtain v b where v: "gate_run sample_db ''r1'' default_policy [] None None sample_day = Inr (v, b)"
    by (auto simp: gate_run_def sample_db_defs run_is_terminal_def Let_def)
  have "degraded_stages sample_db ''r1'' \<noteq> []"
    by (simp add: degraded_stages_Nil sample_db_defs stage_is_degraded_def ENRICHMENT_ANALYZERS_def)
  then have "verdict_exit_code v \<noteq> 0"
    by (intro degraded_run_never_passes [OF v, of sample_run])
       (simp_all add: default_policy_def sample_db_defs)
  with v show ?thesis by blast
qed

lemma resolve_baseline_source:
  "br_source (resolve_baseline d r bi bs) = ''none'' \<Longrightarrow> br_finding_ids (resolve_baseline d r bi bs) = {}"
  by (auto simp: resolve_baseline_def no_baseline_def split: option.splits if_splits)

lemma baseline_ids:
  assumes "x \<in> br_finding_ids (resolve_baseline d r bi bs)"
  shows "(\<exists>ids. bs = Some ids \<and> x \<in> ids) \<or>
    (\<exists>prev. prev \<in> set (db_runs d) \<and> r_status prev = R_COMPLETED
       \<and> br_run_id (resolve_baseline d r bi bs) = Some (r_id prev)
       \<and> x \<in> f_id ` {f \<in> set (db_findings d). f_run_id f = r_id prev})"
proof (cases bs)
  case (Some ids)
  with assms show ?thesis by (simp add: resolve_baseline_def)
next
  case none: None
  from assms none obtain c where c: "or_str bi (r_previous_run_id r) = Some c"
    by (cases "or_str bi (r_previous_run_id r)") (auto simp: resolve_baseline_def no_baseline_def)
  with assms none obtain prev where prev: "get_run d c = Some prev"
    by (cases "get_run d c") (auto simp: resolve_baseline_def no_baseline_def)
  with assms none c have completed: "r_status prev = R_COMPLETED"
    by (cases "r_status prev = R_COMPLETED") (auto simp: resolve_baseline_def no_baseline_def)
  with assms none c prev get_run_id [OF prev] show ?thesis
    by (intro disjI2 exI [of _ prev]) (simp add: resolve_baseline_def)
qed

text \<open>Nothing is waved through as inherited without evidence: every inherited finding's id was
  either supplied by the caller as a baseline or found by an earlier run that completed; when no
  baseline resolves, no finding is inherited.\<close>

theorem inherited_only_from_completed_run:
  assumes "gate_run d i p ws bi bs today = Inr (v, b)" "g \<in> set (gv_inherited v)"
  shows "(\<exists>ids. bs = Some ids \<and> gf_id g \<in> ids)
    \<or> (\<exists>prev f. prev \<in> set (db_runs d) \<and> r_status prev = R_COMPLETED \<and> br_run_id b = Some (r_id prev)
         \<and> f \<in> set (db_findings d) \<and> f_run_id f = r_id prev \<and> f_id f = gf_id g)"
  using assms(1)
proof (cases rule: gate_run_cases)
  case (failed r)
  with assms(2) show ?thesis by (simp add: evaluate_inherited)
next
  case (finished r)
  from finished(5) assms(2) have "g \<in> set (collect_gate_findings d i b)" "\<not> gf_is_new g"
    by (auto simp: evaluate_inherited gate_disposition_def disposition_of_def split: if_splits option.splits)
  then have "gf_id g \<in> br_finding_ids b"
    by (auto simp: collect_gate_findings_def gate_view_def Let_def split: if_splits)
  moreover have "(\<exists>ids. bs = Some ids \<and> gf_id g \<in> ids) \<or>
      (\<exists>prev. prev \<in> set (db_runs d) \<and> r_status prev = R_COMPLETED \<and> br_run_id b = Some (r_id prev)
         \<and> gf_id g \<in> f_id ` {f \<in> set (db_findings d). f_run_id f = r_id prev})"
    if "gf_id g \<in> br_finding_ids b"
    using baseline_ids [of "gf_id g" d r bi bs] that by (simp add: finished(4))
  ultimately show ?thesis by fastforce
qed

text \<open>A completed previous release with one finding, and its successor that still has it.\<close>

definition sample_row :: "string \<Rightarrow> string \<Rightarrow> finding" where
  "sample_row run i = \<lparr>f_id = i, f_run_id = run, f_rule_id = ''aws-key'', f_category = ''cloud'',
     f_title = ''AWS key'', f_severity = CRITICAL, f_confidence = 1, f_value_masked = ''AKIA'',
     f_value_hash = ''h'', f_entropy = None, f_context_snippet = None, f_cwe = None, f_tags = [],
     f_remediation_md = None, f_detected_by = D_RULE, f_status = F_OPEN, f_llm_verdict = None,
     f_llm_reasoning = None, f_llm_model = None\<rparr>"

definition release_db :: db where
  "release_db = sample_db\<lparr>db_runs := [sample_run\<lparr>r_status := R_COMPLETED\<rparr>,
       sample_run\<lparr>r_id := ''r2'', r_status := R_COMPLETED, r_previous_run_id := Some ''r1''\<rparr>],
     db_stages := [], db_findings := [sample_row ''r1'' ''aa'', sample_row ''r2'' ''aa'']\<rparr>"

theorem inherited_only_from_completed_run_witness:
  "\<exists>v b. gate_run release_db ''r2'' default_policy [] None None sample_day = Inr (v, b)
     \<and> gv_inherited v \<noteq> []
     \<and> (\<exists>prev f. prev \<in> set (db_runs release_db) \<and> r_status prev = R_COMPLETED
          \<and> f \<in> set (db_findings release_db) \<and> f_run_id f = r_id prev
          \<and> f_id f = gf_id (hd (gv_inherited v)))"
proof -
  let ?run = "sample_run\<lparr>r_id := ''r2'', r_status := R_COMPLETED, r_previous_run_id := Some ''r1''\<rparr>"
  let ?b = "resolve_baseline release_db ?run None None"
  let ?fs = "collect_gate_findings release_db ''r2'' ?b"
  let ?v = "evaluate ?fs default_policy [] (gate_degraded release_db ''r2'') sample_day"
  have run: "gate_run release_db ''r2'' default_policy [] None None sample_day = Inr (?v, ?b)"
    by (simp add: gate_run_def release_db_def sample_db_defs run_is_terminal_def Let_def)
  have b: "br_finding_ids ?b = {''aa''}"
    by (simp add: resolve_baseline_def or_str_def release_db_def sample_db_defs sample_row_def)
  let ?g = "gate_view ?b (artifact_paths release_db ''r2'' [''aa'']) (sample_row ''r2'' ''aa'')"
  have fs: "?fs = [?g]"
    by (simp add: collect_gate_findings_def release_db_def sample_db_def sample_row_def Let_def)
  have "gate_disposition default_policy [] sample_day ?g = Inherited"
    by (simp add: gate_disposition_def disposition_of_def is_actionable_def gf_is_open_def
        default_policy_def gate_view_def b sample_row_def)
  then have inh: "gv_inherited ?v = [?g]" by (simp add: evaluate_inherited fs)
  then have "hd (gv_inherited ?v) \<in> set (gv_inherited ?v)" by simp
  from inherited_only_from_completed_run [OF run this] run inh show ?thesis by fastforce
qed

text \<open>Enrichment cannot move the gate: however the stages of enrichment analyzers come out, are
  added or are removed, the verdict stays the same.\<close>

theorem enrichment_does_not_gate:
  assumes "filter (\<lambda>s. st_analyzer s \<notin> ENRICHMENT_ANALYZERS) stages =
           filter (\<lambda>s. st_analyzer s \<notin> ENRICHMENT_ANALYZERS) (db_stages d)"
  shows "gate_run (d\<lparr>db_stages := stages\<rparr>) i p ws bi bs today = gate_run d i p ws bi bs today"
proof -
  have "degraded_stages (d\<lparr>db_stages := stages\<rparr>) i = degraded_stages d i"
  proof -
    have split: "filter (\<lambda>s. stage_is_degraded (st_status s) \<and> st_analyzer s \<notin> ENRICHMENT_ANALYZERS)
          (filter (\<lambda>s. st_run_id s = i) xs)
        = filter (\<lambda>s. stage_is_degraded (st_status s) \<and> st_run_id s = i)
          (filter (\<lambda>s. st_analyzer s \<notin> ENRICHMENT_ANALYZERS) xs)" for xs
      by (simp add: conj_commute conj_left_commute)
    show ?thesis unfolding degraded_stages_def split by (simp add: assms)
  qed
  then have deg: "gate_degraded (d\<lparr>db_stages := stages\<rparr>) i = gate_degraded d i"
    by (simp add: gate_degraded_def)
  have get: "get_run (d\<lparr>db_stages := stages\<rparr>) = get_run d"
    by (rule ext) (simp add: get_run_def)
  have base: "resolve_baseline (d\<lparr>db_stages := stages\<rparr>) r bi bs = resolve_baseline d r bi bs" for r
  proof -
    have "db_findings (d\<lparr>db_stages := stages\<rparr>) = db_findings d" by simp
    then show ?thesis unfolding resolve_baseline_def get by (simp only:)
  qed
  have coll: "collect_gate_findings (d\<lparr>db_stages := stages\<rparr>) i b = collect_gate_findings d i b" for b
  proof -
    have "artifact_paths (d\<lparr>db_stages := stages\<rparr>) = artifact_paths d"
      by (intro ext) (simp add: artifact_paths_def)
    moreover have "db_findings (d\<lparr>db_stages := stages\<rparr>) = db_findings d" by simp
    ultimately show ?thesis unfolding collect_gate_findings_def by (simp only:)
  qed
  show ?thesis by (simp only: gate_run_def get base coll deg)
qed

theorem enrichment_does_not_gate_witness:
  "gate_run (sample_db\<lparr>db_stages := [sample_stage\<lparr>st_analyzer := ''ghidra''\<rparr>, sample_stage]\<rparr>) ''r1''
     default_policy [] None None sample_day
   = gate_run sample_db ''r1'' default_policy [] None None sample_day"
  by (rule enrichment_does_not_gate) (simp add: ENRICHMENT_ANALYZERS_def sample_db_defs)

text \<open>The place the gate names for a finding is the least of its recorded paths, so the message
  does not depend on the order rows were inserted.\<close>

lemma find_sorted_least:
  assumes "sorted (map k xs)" "List.find P xs = Some x" "y \<in> set xs" "P y"
  shows "k x \<le> k y"
  using assms by (induction xs) (auto split: if_splits)

theorem gate_names_least_path:
  assumes "f \<in> set (db_findings d)" "f_run_id f = i"
    and "l \<in> set (db_locations d)" "fl_run_id l = i" "fl_finding_id l = f_id f"
    and "g \<in> set (collect_gate_findings d i b)" "gf_id g = f_id f"
  shows "\<exists>l' \<in> set (db_locations d). fl_run_id l' = i \<and> fl_finding_id l' = f_id f
    \<and> gf_artifact_path g = fl_path_in_tree l' \<and> gf_artifact_path g \<le> fl_path_in_tree l"
proof -
  let ?ids = "map f_id (filter (\<lambda>f. f_run_id f = i) (db_findings d))"
  let ?ls = "filter (\<lambda>l. fl_run_id l = i \<and> fl_finding_id l \<in> set ?ids) (db_locations d)"
  let ?P = "\<lambda>l. fl_finding_id l = f_id f"
  have ne: "?ids \<noteq> []" using assms(1,2) by (auto simp: filter_empty_conv)
  have l: "l \<in> set ?ls" using assms by auto
  then have "l \<in> set (sort_key location_key ?ls) \<and> ?P l" using assms(5) by (simp only: set_sort)
  then have "List.find ?P (sort_key location_key ?ls) \<noteq> None" unfolding find_None_iff by blast
  then obtain l' where l': "List.find ?P (sort_key location_key ?ls) = Some l'" by blast
  from find_SomeD [OF l'] have mem: "l' \<in> set ?ls" "fl_finding_id l' = f_id f" by (auto intro: rev_image_eqI)
  have "location_key l' \<le> location_key l"
    using find_sorted_least [of location_key "sort_key location_key ?ls" ?P l' l] l l' assms(5) by simp
  then have "fl_path_in_tree l' \<le> fl_path_in_tree l"
    using mem(2) assms(5) by (auto simp: location_key_def less_eq_prod_def)
  moreover have "gf_artifact_path g = fl_path_in_tree l'"
  proof -
    obtain f' where f': "g = gate_view b (artifact_paths d i ?ids) f'"
      using assms(6) by (auto simp: collect_gate_findings_def Let_def split: if_splits)
    then have "f_id f' = f_id f" using assms(7) by (simp add: gate_view_def)
    moreover have "map_of (artifact_paths d i ?ids) (f_id f) = Some (fl_path_in_tree l')"
      using ne l' by (simp add: artifact_paths_def dict_first_get)
    ultimately show ?thesis by (simp add: f' gate_view_def)
  qed
  ultimately show ?thesis using mem by auto
qed

end
