(* ===== verification/Run_Recovery.thy ===== *)
theory Run_Recovery
  imports Effects Gate_Pipeline
begin

text \<open>
  Recovering runs whose task was lost (\<open>core/pipeline/recovery.py\<close> and the periodic task
  \<open>recover_orphaned_runs\<close> of \<open>core/orchestrator/tasks.py\<close>). A sweep is a computation over the
  database that may raise: subtracting a naive from an aware datetime is a \<open>TypeError\<close>. The rows a
  query returns are the rows at that moment; each row is judged once.
\<close>

definition DEFAULT_QUEUED_GRACE_S :: int where "DEFAULT_QUEUED_GRACE_S = 300"
definition DEFAULT_RUNNING_TIMEOUT_S :: int where "DEFAULT_RUNNING_TIMEOUT_S = 3600"
definition DEFAULT_MAX_REQUEUE_ATTEMPTS :: nat where "DEFAULT_MAX_REQUEUE_ATTEMPTS = 2"

datatype sweep_error = SweepTypeError

record recovery_sweep =
  sw_requeued :: "string list"
  sw_failed :: "string list"
  sw_inspected :: nat

definition requeue_attempts :: "db \<Rightarrow> string \<Rightarrow> nat" where
  "requeue_attempts d run_id =
     length (filter (\<lambda>a. au_run_id a = Some run_id \<and> au_action a = RUN_REQUEUED) (db_audit d))"

definition naive_if_needed :: "moment \<Rightarrow> moment option \<Rightarrow> moment" where
  "naive_if_needed now sample =
     (case sample of
        Some s \<Rightarrow> if \<not> m_aware s then Moment False (m_us now) else now
      | None \<Rightarrow> now)"

definition update_run :: "string \<Rightarrow> (run \<Rightarrow> run) \<Rightarrow> db \<Rightarrow> db" where
  "update_run i f d = d\<lparr>db_runs := map (\<lambda>r. if r_id r = i then f r else r) (db_runs d)\<rparr>"

definition add_audit :: "audit_entry \<Rightarrow> db \<Rightarrow> db" where
  "add_audit a d = d\<lparr>db_audit := db_audit d @ [a]\<rparr>"

definition fail_row :: "moment \<Rightarrow> string \<Rightarrow> run \<Rightarrow> run" where
  "fail_row now reason r =
     r\<lparr>r_status := R_FAILED, r_finished_at := Some now, r_error := Some reason\<rparr>"

definition fail_run :: "run \<Rightarrow> moment \<Rightarrow> string \<Rightarrow> (db, sweep_error, unit) eff" where
  "fail_run run now reason =
     bind_s (modify (update_run (r_id run) (fail_row now reason)))
       (\<lambda>_. modify (add_audit (record_audit RUN_ORPHANED ''recovery-sweep'' (Some (r_id run))
              [(''reason'', PStr reason)])))"

definition anchor_of :: "run \<Rightarrow> moment" where
  "anchor_of run = (case r_started_at run of Some t \<Rightarrow> t | None \<Rightarrow> r_created_at run)"

definition queued_reason :: "nat \<Rightarrow> string" where
  "queued_reason attempts = ''orphaned in the queue: no worker claimed it after ''
     @ show_nat attempts @ '' requeue attempts''"

definition running_reason :: "int \<Rightarrow> string" where
  "running_reason age = ''orphaned mid-analysis: no progress for '' @ show_int (whole_seconds age)
     @ ''s, past every stage timeout''"

definition requeue_entry :: "run \<Rightarrow> int \<Rightarrow> nat \<Rightarrow> audit_entry" where
  "requeue_entry run age attempts =
     record_audit RUN_REQUEUED ''recovery-sweep'' (Some (r_id run))
       [(''reason'', PStr ''queued past the grace period with no worker''),
        (''age_seconds'', PInt (whole_seconds age)), (''attempt'', PInt (int attempts + 1))]"

text \<open>One turn of the loop of \<open>sweep_orphaned_runs\<close>.\<close>

definition sweep_run ::
  "int \<Rightarrow> int \<Rightarrow> nat \<Rightarrow> moment \<Rightarrow> run \<Rightarrow> recovery_sweep \<Rightarrow> (db, sweep_error, recovery_sweep) eff" where
  "sweep_run queued_grace_s running_timeout_s max_requeue_attempts now run sweep =
     (let anchor = anchor_of run; reference = naive_if_needed now (Some anchor) in
      case moment_diff reference anchor of
        None \<Rightarrow> raise SweepTypeError
      | Some age \<Rightarrow>
          if r_status run = R_QUEUED \<and> r_started_at run = None
          then if age < seconds_us queued_grace_s then ret sweep
            else bind_s (reads (\<lambda>d. requeue_attempts d (r_id run))) (\<lambda>attempts.
              if attempts \<ge> max_requeue_attempts
              then bind_s (fail_run run reference (queued_reason attempts))
                     (\<lambda>_. ret (sweep\<lparr>sw_failed := sw_failed sweep @ [r_id run]\<rparr>))
              else bind_s (modify (add_audit (requeue_entry run age attempts)))
                     (\<lambda>_. ret (sweep\<lparr>sw_requeued := sw_requeued sweep @ [r_id run]\<rparr>)))
          else if age \<ge> seconds_us running_timeout_s
          then bind_s (fail_run run reference (running_reason age))
                 (\<lambda>_. ret (sweep\<lparr>sw_failed := sw_failed sweep @ [r_id run]\<rparr>))
          else ret sweep)"

definition in_flight :: "run \<Rightarrow> bool" where
  "in_flight r \<longleftrightarrow> r_status r = R_QUEUED \<or> r_status r = R_RUNNING"

definition sweep_orphaned_runs ::
  "int \<Rightarrow> int \<Rightarrow> nat \<Rightarrow> moment \<Rightarrow> (db, sweep_error, recovery_sweep) eff" where
  "sweep_orphaned_runs queued_grace_s running_timeout_s max_requeue_attempts now =
     bind_s (reads (\<lambda>d. filter in_flight (db_runs d))) (\<lambda>candidates.
       for_s candidates \<lparr>sw_requeued = [], sw_failed = [], sw_inspected = length candidates\<rparr>
         (\<lambda>run. sweep_run queued_grace_s running_timeout_s max_requeue_attempts now run))"

subsection \<open>Enrichment stages a dead worker left behind\<close>

definition stale_error :: string where
  "stale_error = ''orphaned: the worker running this stage stopped before recording a result''"

definition update_stage :: "string \<Rightarrow> (run_stage \<Rightarrow> run_stage) \<Rightarrow> db \<Rightarrow> db" where
  "update_stage i f d = d\<lparr>db_stages := map (\<lambda>s. if st_id s = i then f s else s) (db_stages d)\<rparr>"

definition close_stage :: "int \<Rightarrow> moment \<Rightarrow> run_stage \<Rightarrow> string list \<Rightarrow> (db, sweep_error, string list) eff" where
  "close_stage timeout_s now stage acc =
     (let anchor = (case st_started_at stage of Some t \<Rightarrow> t | None \<Rightarrow> st_created_at stage);
          reference = naive_if_needed now (Some anchor) in
      case moment_diff reference anchor of
        None \<Rightarrow> raise SweepTypeError
      | Some age \<Rightarrow>
          if age < seconds_us timeout_s then ret acc
          else bind_s (modify (update_stage (st_id stage)
                 (\<lambda>s. s\<lparr>st_status := S_FAILED, st_finished_at := Some reference, st_error := Some stale_error\<rparr>)))
               (\<lambda>_. ret (acc @ [st_id stage])))"

definition fail_stale_enrichment_stages :: "int \<Rightarrow> moment \<Rightarrow> (db, sweep_error, string list) eff" where
  "fail_stale_enrichment_stages timeout_s now =
     bind_s (reads (\<lambda>d. filter (\<lambda>s. st_analyzer s \<in> ENRICHMENT_ANALYZERS
                \<and> (st_status s = S_PENDING \<or> st_status s = S_RUNNING)) (db_stages d))) (\<lambda>stages.
       bind_s (for_s stages [] (\<lambda>stage. close_stage timeout_s now stage)) (\<lambda>ids. ret (sort ids)))"

subsection \<open>The periodic task\<close>

record recovery_report =
  rr_inspected :: nat
  rr_requeued :: "string list"
  rr_failed :: "string list"
  rr_stale_stages :: "string list"
  rr_error :: bool

text \<open>\<open>recover_orphaned_runs\<close>: one transaction (\<open>session_scope\<close> commits or rolls back), then the ids
  to dispatch. The second component is what \<open>scan_run.delay\<close> is called on.\<close>

definition recover_orphaned_runs ::
  "int \<Rightarrow> int \<Rightarrow> nat \<Rightarrow> moment \<Rightarrow> db \<Rightarrow> recovery_report \<times> string list \<times> db" where
  "recover_orphaned_runs queued_grace_s running_timeout_s max_requeue_attempts now d =
     (case bind_s (sweep_orphaned_runs queued_grace_s running_timeout_s max_requeue_attempts now) (\<lambda>sweep.
             bind_s (fail_stale_enrichment_stages running_timeout_s now) (\<lambda>stale. ret (sweep, stale))) d of
        (Inr (sweep, stale), d') \<Rightarrow>
          (\<lparr>rr_inspected = sw_inspected sweep, rr_requeued = sw_requeued sweep,
            rr_failed = sw_failed sweep, rr_stale_stages = stale, rr_error = False\<rparr>,
           sw_requeued sweep, d')
      | (Inl e, _) \<Rightarrow>
          (\<lparr>rr_inspected = 0, rr_requeued = [], rr_failed = [], rr_stale_stages = [], rr_error = True\<rparr>,
           [], d))"

subsection \<open>The verdict on one run\<close>

text \<open>What a sweep promises, as a function of the database it starts from: the verdict on each run in
  flight, and its effect.\<close>

datatype sweep_verdict = Leave | Requeue int nat | Give_up moment string

definition sweep_verdict_of :: "int \<Rightarrow> int \<Rightarrow> nat \<Rightarrow> moment \<Rightarrow> db \<Rightarrow> run \<Rightarrow> sweep_verdict" where
  "sweep_verdict_of grace timeout limit now d r =
     (let reference = naive_if_needed now (Some (anchor_of r));
          age = m_us now - m_us (anchor_of r); attempts = requeue_attempts d (r_id r) in
      if \<not> in_flight r then Leave
      else if r_status r = R_QUEUED \<and> r_started_at r = None
      then if age < seconds_us grace then Leave
        else if limit \<le> attempts then Give_up reference (queued_reason attempts)
        else Requeue age attempts
      else if seconds_us timeout \<le> age then Give_up reference (running_reason age)
      else Leave)"

fun verdict_row :: "sweep_verdict \<Rightarrow> run \<Rightarrow> run" where
  "verdict_row (Give_up t reason) r = fail_row t reason r"
| "verdict_row v r = r"

fun verdict_entries :: "sweep_verdict \<Rightarrow> run \<Rightarrow> audit_entry list" where
  "verdict_entries Leave r = []"
| "verdict_entries (Requeue age attempts) r = [requeue_entry r age attempts]"
| "verdict_entries (Give_up t reason) r =
     [record_audit RUN_ORPHANED ''recovery-sweep'' (Some (r_id r)) [(''reason'', PStr reason)]]"

definition is_requeue :: "sweep_verdict \<Rightarrow> bool" where
  "is_requeue v \<longleftrightarrow> (case v of Requeue _ _ \<Rightarrow> True | _ \<Rightarrow> False)"

definition is_give_up :: "sweep_verdict \<Rightarrow> bool" where
  "is_give_up v \<longleftrightarrow> (case v of Give_up _ _ \<Rightarrow> True | _ \<Rightarrow> False)"

subsection \<open>A sweep applies its verdicts\<close>

definition apply_sweep :: "sweep_verdict \<Rightarrow> run \<Rightarrow> db \<Rightarrow> db" where
  "apply_sweep v r d =
     d\<lparr>db_runs := map (\<lambda>x. if r_id x = r_id r then verdict_row v x else x) (db_runs d),
       db_audit := db_audit d @ verdict_entries v r\<rparr>"

definition note_verdict :: "sweep_verdict \<Rightarrow> run \<Rightarrow> recovery_sweep \<Rightarrow> recovery_sweep" where
  "note_verdict v r sw =
     sw\<lparr>sw_requeued := sw_requeued sw @ (if is_requeue v then [r_id r] else []),
        sw_failed := sw_failed sw @ (if is_give_up v then [r_id r] else [])\<rparr>"

lemma verdict_row_id [simp]: "r_id (verdict_row v r) = r_id r"
  by (cases v) (simp_all add: fail_row_def)

lemma naive_diff:
  "m_aware now \<Longrightarrow> moment_diff (naive_if_needed now (Some a)) a = Some (m_us now - m_us a)"
  by (simp add: moment_diff_def naive_if_needed_def)

lemma apply_verdict_simps:
  "apply_sweep Leave r d = d"
  "apply_sweep (Requeue age n) r d = add_audit (requeue_entry r age n) d"
  "apply_sweep (Give_up t reason) r d =
     add_audit (record_audit RUN_ORPHANED ''recovery-sweep'' (Some (r_id r)) [(''reason'', PStr reason)])
       (update_run (r_id r) (fail_row t reason) d)"
  by (simp_all add: apply_sweep_def add_audit_def update_run_def cong: if_cong)

lemma note_verdict_simps:
  "note_verdict Leave r sw = sw"
  "note_verdict (Requeue age n) r sw = sw\<lparr>sw_requeued := sw_requeued sw @ [r_id r]\<rparr>"
  "note_verdict (Give_up t reason) r sw = sw\<lparr>sw_failed := sw_failed sw @ [r_id r]\<rparr>"
  by (simp_all add: note_verdict_def is_requeue_def is_give_up_def)

lemma sweep_run_verdict:
  assumes "m_aware now" "in_flight r" "requeue_attempts d' (r_id r) = requeue_attempts d (r_id r)"
  shows "sweep_run g t l now r sw d' =
    (Inr (note_verdict (sweep_verdict_of g t l now d r) r sw), apply_sweep (sweep_verdict_of g t l now d r) r d')"
  using assms
  by (simp add: sweep_run_def sweep_verdict_of_def Let_def naive_diff eff_simps fail_run_def
      apply_verdict_simps note_verdict_simps)

lemma requeue_attempts_other:
  "r_id r \<noteq> i \<Longrightarrow> requeue_attempts (apply_sweep v r d) i = requeue_attempts d i"
  by (cases v) (simp_all add: requeue_attempts_def apply_sweep_def requeue_entry_def record_audit_def)

lemma sweep_loop:
  assumes "m_aware now" "list_all in_flight rs" "distinct (map r_id rs)"
    and "\<forall>r \<in> set rs. requeue_attempts d' (r_id r) = requeue_attempts d (r_id r)"
  shows "for_s rs sw (\<lambda>r. sweep_run g t l now r) d' =
    (Inr (fold (\<lambda>r. note_verdict (sweep_verdict_of g t l now d r) r) rs sw),
     fold (\<lambda>r. apply_sweep (sweep_verdict_of g t l now d r) r) rs d')"
  using assms(2-)
proof (induction rs arbitrary: sw d')
  case (Cons r rs)
  have step: "sweep_run g t l now r sw d' =
    (Inr (note_verdict (sweep_verdict_of g t l now d r) r sw), apply_sweep (sweep_verdict_of g t l now d r) r d')"
    using Cons.prems assms(1) by (intro sweep_run_verdict) simp_all
  have "\<forall>x \<in> set rs. requeue_attempts (apply_sweep (sweep_verdict_of g t l now d r) r d') (r_id x)
      = requeue_attempts d (r_id x)"
  proof
    fix x assume x: "x \<in> set rs"
    then have "r_id r \<noteq> r_id x" using Cons.prems(2) by (metis distinct.simps(2) image_eqI list.simps(9) set_map)
    then show "requeue_attempts (apply_sweep (sweep_verdict_of g t l now d r) r d') (r_id x)
      = requeue_attempts d (r_id x)"
      using Cons.prems(3) x by (simp add: requeue_attempts_other)
  qed
  with Cons show ?case by (simp add: run_bind step)
qed (simp add: eff_simps)

lemma fold_apply_audit:
  "db_audit (fold (\<lambda>r. apply_sweep (v r) r) rs d) = db_audit d @ concat (map (\<lambda>r. verdict_entries (v r) r) rs)"
  by (induction rs arbitrary: d) (simp_all add: apply_sweep_def)

lemma fold_apply_rest:
  fixes v rs d
  defines "d' \<equiv> fold (\<lambda>r. apply_sweep (v r) r) rs d"
  shows "db_stages d' = db_stages d" "db_artifacts d' = db_artifacts d" "db_findings d' = db_findings d"
    "db_locations d' = db_locations d"
  unfolding d'_def by (induction rs arbitrary: d) (simp_all add: apply_sweep_def)

lemma fold_apply_runs:
  "distinct (map r_id rs) \<Longrightarrow>
   db_runs (fold (\<lambda>r. apply_sweep (v r) r) rs d) =
     map (\<lambda>x. case List.find (\<lambda>r. r_id r = r_id x) rs of None \<Rightarrow> x | Some r \<Rightarrow> verdict_row (v r) x) (db_runs d)"
proof (induction rs arbitrary: d)
  case (Cons r rs)
  have none: "List.find (\<lambda>x. r_id x = r_id r) rs = None"
    using Cons.prems unfolding find_None_iff by (metis distinct.simps(2) image_eqI list.simps(9) set_map)
  have step: "db_runs (apply_sweep (v r) r d) =
      map (\<lambda>x. if r_id x = r_id r then verdict_row (v r) x else x) (db_runs d)"
    by (simp add: apply_sweep_def)
  show ?case
    using Cons.prems none by (auto simp: Cons.IH step split: option.splits)
qed simp

lemma fold_note:
  "fold (\<lambda>r. note_verdict (v r) r) rs sw =
     sw\<lparr>sw_requeued := sw_requeued sw @ map r_id (filter (\<lambda>r. is_requeue (v r)) rs),
        sw_failed := sw_failed sw @ map r_id (filter (\<lambda>r. is_give_up (v r)) rs)\<rparr>"
  by (induction rs arbitrary: sw) (simp_all add: note_verdict_def)

lemma find_by_id:
  assumes "distinct (map r_id rs)" "x \<in> set rs"
  shows "List.find (\<lambda>r. r_id r = r_id x) (filter P rs) = (if P x then Some x else None)"
proof -
  have same: "y = x" if "y \<in> set rs" "r_id y = r_id x" for y
    using that assms by (metis distinct_map inj_onD)
  show ?thesis
  proof (cases "List.find (\<lambda>r. r_id r = r_id x) (filter P rs)")
    case None
    then have "\<not> P x" using assms(2) by (auto simp: find_None_iff)
    with None show ?thesis by simp
  next
    case (Some y)
    then have "y = x" "P y" using same by (auto dest: find_SomeD)
    with Some show ?thesis by simp
  qed
qed

lemma sweep_judges_core:
  assumes "m_aware now" "distinct (map r_id (db_runs d))"
  shows "sweep_orphaned_runs g t l now d =
    (Inr \<lparr>sw_requeued = map r_id (filter (\<lambda>r. is_requeue (sweep_verdict_of g t l now d r)) (db_runs d)),
          sw_failed = map r_id (filter (\<lambda>r. is_give_up (sweep_verdict_of g t l now d r)) (db_runs d)),
          sw_inspected = length (filter in_flight (db_runs d))\<rparr>,
     d\<lparr>db_runs := map (\<lambda>r. verdict_row (sweep_verdict_of g t l now d r) r) (db_runs d),
       db_audit := db_audit d @
         concat (map (\<lambda>r. verdict_entries (sweep_verdict_of g t l now d r) r) (filter in_flight (db_runs d)))\<rparr>)"
proof -
  let ?v = "sweep_verdict_of g t l now d" and ?c = "filter in_flight (db_runs d)"
  have distinct: "distinct (map r_id ?c)" using assms(2) by (rule distinct_map_filter)
  have idle: "?v r = Leave" if "\<not> in_flight r" for r using that by (simp add: sweep_verdict_of_def Let_def)
  have active: "in_flight r" if "is_requeue (?v r) \<or> is_give_up (?v r)" for r
    using that idle by (cases "in_flight r") (auto simp: is_requeue_def is_give_up_def)
  define d' where "d' = fold (\<lambda>r. apply_sweep (?v r) r) ?c d"
  have loop: "for_s ?c sw (\<lambda>r. sweep_run g t l now r) d =
      (Inr (fold (\<lambda>r. note_verdict (?v r) r) ?c sw), d')" for sw
    unfolding d'_def using assms(1) distinct by (intro sweep_loop) (simp_all add: list_all_iff)
  have rows: "db_runs d' = map (\<lambda>r. verdict_row (?v r) r) (db_runs d)"
    unfolding d'_def fold_apply_runs [OF distinct]
    using find_by_id [OF assms(2)] idle by (intro map_cong) auto
  have "d' = d\<lparr>db_runs := map (\<lambda>r. verdict_row (?v r) r) (db_runs d),
       db_audit := db_audit d @ concat (map (\<lambda>r. verdict_entries (?v r) r) ?c)\<rparr>"
    using rows fold_apply_rest [of ?v ?c d] fold_apply_audit [of ?v ?c d]
    by (intro db.equality) (simp_all add: d'_def)
  moreover have "filter (\<lambda>r. is_requeue (?v r)) ?c = filter (\<lambda>r. is_requeue (?v r)) (db_runs d)"
    "filter (\<lambda>r. is_give_up (?v r)) ?c = filter (\<lambda>r. is_give_up (?v r)) (db_runs d)"
    using active by (auto intro!: filter_cong)
  ultimately show ?thesis
    by (simp add: sweep_orphaned_runs_def eff_simps loop fold_note)
qed

text \<open>A sweep is judged run by run: with distinct run ids and an aware clock (the code's own clock
  is) it never raises, whatever mix of naive and aware times the rows hold; it requeues and fails
  exactly the runs its verdict on the starting database says, records one audit entry for each, and
  changes nothing else. Neither the order of the rows nor what happens to one run affects another.\<close>

theorem sweep_judges_each_run:
  assumes "m_aware now" "distinct (map r_id (db_runs d))"
  shows "sweep_orphaned_runs g t l now d =
    (Inr \<lparr>sw_requeued = map r_id (filter (\<lambda>r. is_requeue (sweep_verdict_of g t l now d r)) (db_runs d)),
          sw_failed = map r_id (filter (\<lambda>r. is_give_up (sweep_verdict_of g t l now d r)) (db_runs d)),
          sw_inspected = length (filter in_flight (db_runs d))\<rparr>,
     d\<lparr>db_runs := map (\<lambda>r. verdict_row (sweep_verdict_of g t l now d r) r) (db_runs d),
       db_audit := db_audit d @
         concat (map (\<lambda>r. verdict_entries (sweep_verdict_of g t l now d r) r) (filter in_flight (db_runs d)))\<rparr>)"
  by (rule sweep_judges_core [OF assms])

subsection \<open>Sweeping again\<close>

definition sweeps :: "int \<Rightarrow> int \<Rightarrow> nat \<Rightarrow> moment list \<Rightarrow> db \<Rightarrow> db" where
  "sweeps g t l nows d = fold (\<lambda>now d. snd (sweep_orphaned_runs g t l now d)) nows d"

lemma sweep_row:
  assumes "m_aware now" "distinct (map r_id (db_runs d))" "get_run d i = Some r"
  shows "get_run (snd (sweep_orphaned_runs g t l now d)) i = Some (verdict_row (sweep_verdict_of g t l now d r) r)"
proof -
  have "List.find (\<lambda>r. r_id r = i) (map (\<lambda>r. verdict_row (v r) r) rs) =
      map_option (\<lambda>r. verdict_row (v r) r) (List.find (\<lambda>r. r_id r = i) rs)" for v rs
    by (induction rs) auto
  with assms(3) show ?thesis by (simp add: sweep_judges_core [OF assms(1,2)] get_run_def)
qed

definition requeues_of :: "string \<Rightarrow> audit_entry list \<Rightarrow> nat" where
  "requeues_of i as = length (filter (\<lambda>a. au_run_id a = Some i \<and> au_action a = RUN_REQUEUED) as)"

lemma requeues_of_verdict:
  "requeues_of i (verdict_entries v r) = (if r_id r = i \<and> is_requeue v then 1 else 0)"
  by (cases v) (simp_all add: requeues_of_def requeue_entry_def record_audit_def is_requeue_def)

lemma requeues_of_append: "requeues_of i (as @ bs) = requeues_of i as + requeues_of i bs"
  by (simp add: requeues_of_def)

lemma requeues_of_rows:
  "distinct (map r_id rs) \<Longrightarrow> r \<in> set rs \<Longrightarrow>
     requeues_of (r_id r) (concat (map (\<lambda>x. verdict_entries (v x) x) rs)) = (if is_requeue (v r) then 1 else 0)"
proof (induction rs)
  case (Cons x rs)
  have absent: "requeues_of i (concat (map (\<lambda>x. verdict_entries (v x) x) rs)) = 0" if "i \<notin> set (map r_id rs)" for i
    using that by (induction rs) (auto simp: requeues_of_append requeues_of_verdict requeues_of_def [of _ "[]"])
  show ?case
  proof (cases "r = x")
    case True
    then show ?thesis using Cons.prems absent [of "r_id r"] by (simp add: requeues_of_append requeues_of_verdict)
  next
    case False
    then have "r_id x \<noteq> r_id r" using Cons.prems by auto
    with False Cons show ?thesis by (simp add: requeues_of_append requeues_of_verdict)
  qed
qed simp

lemma sweep_attempts:
  assumes "m_aware now" "distinct (map r_id (db_runs d))" "get_run d i = Some r" "in_flight r"
  shows "requeue_attempts (snd (sweep_orphaned_runs g t l now d)) i =
     requeue_attempts d i + (if is_requeue (sweep_verdict_of g t l now d r) then 1 else 0)"
proof -
  have r: "r_id r = i" "r \<in> set (filter in_flight (db_runs d))" using assms(3,4) by (auto dest: get_run_id)
  have "distinct (map r_id (filter in_flight (db_runs d)))" using assms(2) by (rule distinct_map_filter)
  from requeues_of_rows [OF this r(2), of "sweep_verdict_of g t l now d"] show ?thesis
    by (simp add: sweep_judges_core [OF assms(1,2)] requeue_attempts_def r(1) requeues_of_def)
qed

lemma sweep_ids:
  assumes "m_aware now" "distinct (map r_id (db_runs d))"
  shows "distinct (map r_id (db_runs (snd (sweep_orphaned_runs g t l now d))))"
  using assms by (simp add: sweep_judges_core comp_def)

lemma sweeps_terminal:
  assumes "list_all m_aware nows" "distinct (map r_id (db_runs d))" "get_run d i = Some r" "\<not> in_flight r"
  shows "get_run (sweeps g t l nows d) i = Some r"
  using assms
proof (induction nows arbitrary: d)
  case (Cons now nows)
  have "sweep_verdict_of g t l now d r = Leave" using Cons.prems(4) by (simp add: sweep_verdict_of_def Let_def)
  then have "get_run (snd (sweep_orphaned_runs g t l now d)) i = Some r"
    using sweep_row [of now d i r g t l] Cons.prems by simp
  then show ?case using Cons sweep_ids [of now d g t l] by (simp add: sweeps_def)
qed (simp add: sweeps_def)

text \<open>C12: A lost run does not stay queued for ever: once it is past its grace period and no worker
  claims it, the sweep requeues it at most the configured number of times and the sweep after that
  fails it, so after that many sweeps plus one it is failed, whatever else the database holds and
  however the sweeps are spaced.\<close>

theorem lost_run_is_failed:
  assumes "distinct (map r_id (db_runs d))" "get_run d i = Some r"
    and "r_status r = R_QUEUED" "r_started_at r = None"
    and "list_all (\<lambda>now. m_aware now \<and> seconds_us g \<le> m_us now - m_us (r_created_at r)) nows"
    and "nows \<noteq> []" "limit < requeue_attempts d i + length nows"
  shows "\<exists>r'. get_run (sweeps g t limit nows d) i = Some r' \<and> r_status r' = R_FAILED"
  using assms
proof (induction nows arbitrary: d)
  case (Cons now nows)
  note prems = Cons.prems
  define d' where "d' = snd (sweep_orphaned_runs g t limit now d)"
  define v where "v = sweep_verdict_of g t limit now d r"
  have unfold: "sweeps g t limit (now # nows) d = sweeps g t limit nows d'" by (simp add: sweeps_def d'_def)
  have now: "m_aware now" "\<not> m_us now - m_us (r_created_at r) < seconds_us g" using prems(5) by auto
  have flying: "in_flight r" using prems(3) by (simp add: in_flight_def)
  have i: "r_id r = i" using prems(2) by (auto dest: get_run_id)
  have row: "get_run d' i = Some (verdict_row v r)"
    unfolding d'_def v_def by (rule sweep_row [OF now(1) prems(1,2)])
  have ids: "distinct (map r_id (db_runs d'))" unfolding d'_def by (rule sweep_ids [OF now(1) prems(1)])
  show ?case
  proof (cases "limit \<le> requeue_attempts d i")
    case True
    then obtain c reason where "v = Give_up c reason"
      using prems(3,4) now flying i by (auto simp: v_def sweep_verdict_of_def Let_def anchor_of_def)
    then have "get_run d' i = Some (fail_row c reason r)" using row by simp
    moreover have "\<not> in_flight (fail_row c reason r)" by (simp add: in_flight_def fail_row_def)
    ultimately have "get_run (sweeps g t limit nows d') i = Some (fail_row c reason r)"
      using prems(5) ids by (intro sweeps_terminal) (auto simp: list_all_iff)
    then show ?thesis by (simp add: unfold fail_row_def)
  next
    case False
    then have v: "v = Requeue (m_us now - m_us (r_created_at r)) (requeue_attempts d i)"
      using prems(3,4) now flying i by (simp add: v_def sweep_verdict_of_def Let_def anchor_of_def)
    have "requeue_attempts d' i = requeue_attempts d i + 1"
      unfolding d'_def using sweep_attempts [OF now(1) prems(1,2) flying, of g t limit] v
      by (simp add: v_def [symmetric] is_requeue_def)
    moreover have "nows \<noteq> []" using False prems(7) by auto
    ultimately show ?thesis
      unfolding unfold using prems row v ids by (intro Cons.IH) simp_all
  qed
qed simp

definition lost_run :: run where
  "lost_run = \<lparr>r_id = ''r9'', r_status = R_QUEUED, r_created_at = Moment False 0, r_started_at = None,
     r_finished_at = None, r_error = None, r_previous_run_id = None, r_retain_plaintext = False\<rparr>"

definition lost_db :: db where
  "lost_db = \<lparr>db_runs = [lost_run], db_stages = [], db_artifacts = [], db_findings = [], db_locations = [],
     db_audit = []\<rparr>"

theorem sweep_judges_each_run_witness:
  "fst (sweep_orphaned_runs 300 3600 2 (Moment True 600000000) lost_db) =
     Inr \<lparr>sw_requeued = [''r9''], sw_failed = [], sw_inspected = 1\<rparr>"
  by (subst sweep_judges_each_run)
     (simp_all add: lost_db_def lost_run_def sweep_verdict_of_def Let_def in_flight_def anchor_of_def
       seconds_us_def requeue_attempts_def is_requeue_def is_give_up_def)

theorem lost_run_is_failed_witness:
  "\<exists>r'. get_run (sweeps 300 3600 2 [Moment True 600000000, Moment True 900000000, Moment True 1200000000]
       lost_db) ''r9'' = Some r' \<and> r_status r' = R_FAILED"
  by (rule lost_run_is_failed [of _ _ lost_run])
     (simp_all add: lost_db_def lost_run_def get_run_def seconds_us_def requeue_attempts_def)

definition logged :: "string list \<Rightarrow> db \<Rightarrow> bool" where
  "logged ids d \<longleftrightarrow>
     (\<forall>i \<in> set ids. \<exists>a \<in> set (db_audit d). au_run_id a = Some i \<and> au_action a = RUN_REQUEUED)"

lemma logged_steps:
  "logged ids d \<Longrightarrow> logged ids (add_audit a d)"
  "logged ids (update_run i f d) \<longleftrightarrow> logged ids d"
  "logged ids (update_stage i h d) \<longleftrightarrow> logged ids d"
  "logged (ids @ ids') d \<longleftrightarrow> logged ids d \<and> logged ids' d"
  "logged [r_id r] (add_audit (requeue_entry r age n) d)"
  "logged [] d"
  by (auto simp: logged_def add_audit_def update_run_def update_stage_def requeue_entry_def record_audit_def)

lemma fail_run_logged: "triple (logged ids) (fail_run r now reason) (\<lambda>_. logged ids) (\<lambda>_ _. True)"
  by (simp add: triple_def fail_run_def eff_simps logged_steps)

lemma sweep_run_logged:
  "triple (logged (sw_requeued sw)) (sweep_run g t l now r sw) (\<lambda>sw. logged (sw_requeued sw)) (\<lambda>_ _. True)"
  by (simp add: triple_def sweep_run_def fail_run_def Let_def eff_simps logged_steps split: option.splits)

lemma sweep_logged:
  "triple (\<lambda>_. True) (sweep_orphaned_runs g t l now) (\<lambda>sw. logged (sw_requeued sw)) (\<lambda>_ _. True)"
  unfolding sweep_orphaned_runs_def
proof (rule triple_bind [where R = "\<lambda>_ _. True"])
  fix candidates :: "run list"
  let ?init = "\<lparr>sw_requeued = [], sw_failed = [], sw_inspected = length candidates\<rparr>"
  have "triple (logged (sw_requeued ?init)) (for_s candidates ?init (\<lambda>r. sweep_run g t l now r))
      (\<lambda>sw. logged (sw_requeued sw)) (\<lambda>_ _. True)"
    by (rule triple_for) (rule sweep_run_logged)
  then show "triple (\<lambda>_. True) (for_s candidates ?init (\<lambda>r. sweep_run g t l now r))
      (\<lambda>sw. logged (sw_requeued sw)) (\<lambda>_ _. True)"
    by (rule triple_weaken) (simp_all add: logged_steps)
qed (simp add: triple_reads)

lemma stale_logged: "keeps (logged ids) (fail_stale_enrichment_stages t now)"
  unfolding fail_stale_enrichment_stages_def close_stage_def Let_def
  by (intro triple_rules) (simp add: logged_steps)

text \<open>The task is one transaction: if the sweep cannot finish, no run is dispatched and the database
  is as it was; and no run is dispatched without a requeue entry in the audit log, the log the
  attempts are counted from.\<close>

theorem recovery_is_atomic:
  assumes "recover_orphaned_runs g t l now d = (report, dispatched, d')"
  shows "(if rr_error report then dispatched = [] \<and> d' = d else logged dispatched d')
    \<and> rr_requeued report = dispatched"
proof -
  let ?task = "bind_s (sweep_orphaned_runs g t l now) (\<lambda>sweep.
             bind_s (fail_stale_enrichment_stages t now) (\<lambda>stale. ret (sweep, stale)))"
  have "triple (\<lambda>_. True) ?task (\<lambda>(sweep, stale). logged (sw_requeued sweep)) (\<lambda>_ _. True)"
  proof (rule triple_bind [OF sweep_logged])
    fix sweep
    have "triple (logged (sw_requeued sweep)) (fail_stale_enrichment_stages t now)
        (\<lambda>_. logged (sw_requeued sweep)) (\<lambda>_ _. True)"
      using stale_logged [of "sw_requeued sweep" t now] unfolding keeps_def by (rule triple_weaken) simp_all
    then show "triple (logged (sw_requeued sweep)) (bind_s (fail_stale_enrichment_stages t now) (\<lambda>stale. ret (sweep, stale)))
        (\<lambda>(sweep, stale). logged (sw_requeued sweep)) (\<lambda>_ _. True)"
      by (rule triple_bind) (simp add: triple_ret)
  qed
  note ok = tripleD_value [OF this TrueI]
  obtain out d1 where run: "?task d = (out, d1)" by (cases "?task d")
  show ?thesis
  proof (cases out)
    case (Inl e)
    with run assms show ?thesis by (auto simp: recover_orphaned_runs_def)
  next
    case (Inr p)
    with run ok [of d p d1] assms show ?thesis by (cases p) (auto simp: recover_orphaned_runs_def)
  qed
qed

theorem recovery_is_atomic_witness:
  "\<exists>report d'. recover_orphaned_runs 300 3600 2 (Moment True 600000000) lost_db = (report, [''r9''], d')
     \<and> logged [''r9''] d'"
proof -
  let ?x = "recover_orphaned_runs 300 3600 2 (Moment True 600000000) lost_db"
  obtain report ids d' where x: "?x = (report, ids, d')" by (cases ?x)
  obtain d1 where run: "sweep_orphaned_runs 300 3600 2 (Moment True 600000000) lost_db =
      (Inr \<lparr>sw_requeued = [''r9''], sw_failed = [], sw_inspected = 1\<rparr>, d1)" "db_stages d1 = []"
    by (simp add: sweep_orphaned_runs_def sweep_run_def eff_simps lost_db_def lost_run_def Let_def
       in_flight_def anchor_of_def naive_if_needed_def moment_diff_def seconds_us_def requeue_attempts_def
       add_audit_def)
  have "ids = [''r9'']" "\<not> rr_error report"
    using x by (auto simp: recover_orphaned_runs_def run_bind run fail_stale_enrichment_stages_def eff_simps)
  with recovery_is_atomic [OF x] x show ?thesis by auto
qed

end
