(* ===== verification/Rules_Shape.thy ===== *)
theory Rules_Shape
  imports Bytes_Text Py_Values
begin

text \<open>
  Structural classification of candidate values (\<open>core/rules/shape.py\<close>). The values and haystacks
  are strings the extractor produced, printable ASCII; the module's own regular expressions are
  written out as recognisers. \<open>distinct / len < 0.18\<close> is compared exactly.
\<close>

definition in_base64 :: "char \<Rightarrow> bool" where
  "in_base64 c \<longleftrightarrow> is_upper c \<or> is_lower c \<or> is_digit c
     \<or> c = CHR ''+'' \<or> c = CHR ''/'' \<or> c = CHR ''='' \<or> c = CHR 0x0D \<or> c = CHR 0x0A"

definition BLOB_RUN_THRESHOLD :: nat where "BLOB_RUN_THRESHOLD = 120"

definition DIGEST_LENGTHS :: "nat list" where "DIGEST_LENGTHS = [32, 40, 56, 64, 96, 128]"

definition STRUCTURE_MARKERS :: "string list" where
  "STRUCTURE_MARKERS =
     [''MII'', ''BgkqhkiG'', ''-----BEGIN'', ''-----END'', ''%PDF'', ''endstream'', ''endobj'',
      ''/Filter'', ''FlateDecode'', ''<?xml'', ''data:image/'', ''base64,'']"

datatype shape =
  CREDENTIAL_LIKE | BLOB_SLICE | ENCODED_STRUCTURE | HEX_DIGEST | UUID | PATH_OR_URL | NUMERIC | LOW_VARIETY

definition is_disqualifying :: "shape \<Rightarrow> bool" where
  "is_disqualifying s \<longleftrightarrow> s \<noteq> CREDENTIAL_LIKE"

record shape_verdict =
  sv_shape :: shape
  sv_reason :: string

definition mk_verdict :: "shape \<Rightarrow> string \<Rightarrow> shape_verdict" where
  "mk_verdict s r = \<lparr>sv_shape = s, sv_reason = r\<rparr>"

definition sv_rejected :: "shape_verdict \<Rightarrow> bool" where
  "sv_rejected v \<longleftrightarrow> is_disqualifying (sv_shape v)"

datatype shape_policy = CONTEXT | STRICT

subsection \<open>The module's regular expressions\<close>

definition is_hex :: "char \<Rightarrow> bool" where
  "is_hex c \<longleftrightarrow> is_digit c \<or> (let n = (of_char c :: nat) in (65 \<le> n \<and> n \<le> 70) \<or> (97 \<le> n \<and> n \<le> 102))"

definition hex_re :: "string \<Rightarrow> bool" where
  "hex_re s \<longleftrightarrow> s \<noteq> [] \<and> list_all is_hex s"

fun match_groups :: "nat list \<Rightarrow> string \<Rightarrow> string option" where
  "match_groups [] s = Some s"
| "match_groups [n] s =
     (if n \<le> length s \<and> list_all is_hex (take n s) then Some (drop n s) else None)"
| "match_groups (n # ns) s =
     (if n < length s \<and> list_all is_hex (take n s) \<and> s ! n = CHR ''-'' then match_groups ns (drop (Suc n) s)
      else None)"

definition uuid_re :: "string \<Rightarrow> bool" where
  "uuid_re s =
     (let body = (case s of c # cs \<Rightarrow> if c = CHR ''{'' then cs else s | [] \<Rightarrow> [])
      in case match_groups [8, 4, 4, 4, 12] body of
           Some rest \<Rightarrow> rest = [] \<or> rest = ''}''
         | None \<Rightarrow> False)"

definition is_slash :: "char \<Rightarrow> bool" where
  "is_slash c \<longleftrightarrow> c = CHR ''/'' \<or> c = CHR 0x5C"

fun path_re :: "string \<Rightarrow> bool" where
  "path_re (a # b # c # cs) =
     ((is_letter a \<and> b = CHR '':'' \<and> is_slash c) \<or> is_slash a \<or> (a = CHR ''.'' \<and> is_slash b)
      \<or> (a = CHR ''.'' \<and> b = CHR ''.'' \<and> is_slash c))"
| "path_re (a # b # cs) = (is_slash a \<or> (a = CHR ''.'' \<and> is_slash b))"
| "path_re (a # cs) = is_slash a"
| "path_re [] = False"

definition url_re :: "string \<Rightarrow> bool" where
  "url_re s =
     (case s of
        [] \<Rightarrow> False
      | c # cs \<Rightarrow> is_letter c \<and> starts_with ''://''
          (dropWhile (\<lambda>d. is_letter d \<or> is_digit d \<or> d = CHR ''+'' \<or> d = CHR ''.'' \<or> d = CHR ''-'') cs))"

definition numeric_re :: "string \<Rightarrow> bool" where
  "numeric_re s \<longleftrightarrow> s \<noteq> [] \<and>
     list_all (\<lambda>c. is_digit c \<or> c \<in> set ''.,:_-+eE'') s"

subsection \<open>Surroundings\<close>

text \<open>The two loops that widen \<open>[start, end)\<close> to the whole run.\<close>

definition base64_run_length :: "string \<Rightarrow> nat \<Rightarrow> nat \<Rightarrow> nat" where
  "base64_run_length haystack start stop =
     (let left = start - length (takeWhile in_base64 (rev (take start haystack)));
          right = stop + length (takeWhile in_base64 (drop stop haystack))
      in right - left)"

definition any_class :: "(char \<Rightarrow> bool) \<Rightarrow> string \<Rightarrow> nat" where
  "any_class p s = (if list_ex p s then 1 else 0)"

definition character_classes :: "string \<Rightarrow> nat" where
  "character_classes value =
     any_class is_lower value + any_class is_upper value + any_class is_digit value
     + any_class (\<lambda>c. \<not> (is_letter c \<or> is_digit c)) value"

definition shape_window :: "string \<Rightarrow> nat \<Rightarrow> nat \<Rightarrow> string" where
  "shape_window haystack start stop = slice (start - 200) (min (length haystack) (stop + 200)) haystack"

definition context_verdict :: "string \<Rightarrow> int \<Rightarrow> int \<Rightarrow> shape_verdict option" where
  "context_verdict haystack start stop =
     (if haystack \<noteq> [] \<and> 0 \<le> start \<and> start < stop \<and> stop \<le> int (length haystack)
      then
        (let run = base64_run_length haystack (nat start) (nat stop) in
         if run \<ge> BLOB_RUN_THRESHOLD
         then Some (mk_verdict BLOB_SLICE
                (''inside a '' @ show_nat run @ ''-character base64 run; a delimited credential is not''))
         else (case List.find (\<lambda>m. contains m (shape_window haystack (nat start) (nat stop))) STRUCTURE_MARKERS of
                 Some m \<Rightarrow> Some (mk_verdict ENCODED_STRUCTURE
                   (''surrounded by '' @ repr_str m @ '' '' @ [CHR 0xE2, CHR 0x80, CHR 0x94] @ '' encoded structure''))
               | None \<Rightarrow> None))
      else None)"

definition value_verdict :: "string \<Rightarrow> bool \<Rightarrow> shape_verdict" where
  "value_verdict stripped require_mixed_case =
     (if uuid_re stripped then mk_verdict UUID ''UUID/GUID''
      else if hex_re stripped
      then (if length stripped \<in> set DIGEST_LENGTHS
            then mk_verdict HEX_DIGEST (show_nat (length stripped) @ ''-character hex digest'')
            else mk_verdict HEX_DIGEST ''hex string'')
      else if url_re stripped \<or> path_re stripped then mk_verdict PATH_OR_URL ''path or URL''
      else if numeric_re stripped then mk_verdict NUMERIC ''numeric''
      else
        (let distinct_chars = length (remdups stripped) in
         if distinct_chars \<le> 4 \<or> 100 * distinct_chars < 18 * length stripped
         then mk_verdict LOW_VARIETY (''only '' @ show_nat distinct_chars @ '' distinct characters'')
         else if require_mixed_case \<and> character_classes stripped < 3
         then mk_verdict LOW_VARIETY
                (''only '' @ show_nat (character_classes stripped) @ '' character classes; ''
                 @ ''issued credentials of this shape mix upper, lower, and digits'')
         else mk_verdict CREDENTIAL_LIKE ''no disqualifying structure''))"

definition classify ::
  "string \<Rightarrow> string \<Rightarrow> int \<Rightarrow> int \<Rightarrow> shape_policy \<Rightarrow> bool \<Rightarrow> shape_verdict" where
  "classify value haystack start stop policy require_mixed_case =
     (let stripped = py_strip value in
      if stripped = [] then mk_verdict LOW_VARIETY ''empty''
      else (case context_verdict haystack start stop of
              Some v \<Rightarrow> v
            | None \<Rightarrow>
                if policy = CONTEXT then mk_verdict CREDENTIAL_LIKE ''no disqualifying context''
                else value_verdict stripped require_mixed_case))"

definition has_nearby :: "string \<Rightarrow> nat \<Rightarrow> string list \<Rightarrow> nat \<Rightarrow> bool" where
  "has_nearby haystack start keywords window =
     (if keywords = [] then True
      else
        (let lower = py_lower haystack; left = start - window; right = min (length haystack) (start + window)
         in list_ex (\<lambda>k. contains (py_lower k) (slice left right lower)) keywords))"

subsection \<open>Facts\<close>

lemma takeWhile_run:
  assumes "list_all P (take k (drop a xs))" "a + k \<le> length xs"
  shows "k \<le> length (takeWhile P (drop a xs))"
proof -
  have "takeWhile P (take k (drop a xs) @ drop k (drop a xs)) = take k (drop a xs) @ takeWhile P (drop k (drop a xs))"
    by (rule takeWhile_append2) (use assms(1) in \<open>simp add: list_all_iff\<close>)
  then have "length (takeWhile P (drop a xs)) \<ge> length (take k (drop a xs))"
    by (simp only: append_take_drop_id length_append le_add1)
  with assms(2) show ?thesis by simp
qed

text \<open>The run containing \<open>[start, stop)\<close> covers every base64 stretch around it.\<close>

lemma base64_run_covers:
  assumes "a \<le> start" "start \<le> stop" "stop \<le> b" "b \<le> length h"
    and "list_all in_base64 (take (start - a) (drop a h))" "list_all in_base64 (take (b - stop) (drop stop h))"
  shows "b - a \<le> base64_run_length h start stop"
proof -
  have "b - stop \<le> length (takeWhile in_base64 (drop stop h))"
    using assms by (intro takeWhile_run) auto
  moreover have "start - a \<le> length (takeWhile in_base64 (rev (take start h)))"
  proof -
    have eq: "rev (take start h) = rev (take (start - a) (drop a h)) @ rev (take a h)"
      using assms(1) by (metis le_add_diff_inverse rev_append take_add)
    have all: "\<forall>x \<in> set (rev (take (start - a) (drop a h))). in_base64 x"
      using assms(5) by (simp add: list_all_iff)
    have "takeWhile in_base64 (rev (take start h)) =
        rev (take (start - a) (drop a h)) @ takeWhile in_base64 (rev (take a h))"
      unfolding eq using all by (intro takeWhile_append2) simp
    then show ?thesis using assms by simp
  qed
  moreover have "length (takeWhile in_base64 (rev (take start h))) \<le> start"
    using length_takeWhile_le [of in_base64 "rev (take start h)"] by simp
  ultimately show ?thesis using assms by (simp add: base64_run_length_def Let_def)
qed

text \<open>A value cut out of a base64 run of at least 120 characters is rejected whatever rule, policy
  or capture it came from: neither the shape policy nor the value's own shape can rescue it.\<close>

theorem blob_slice_always_rejected:
  assumes "a \<le> start" "start < stop" "stop \<le> b" "b \<le> length h" "120 \<le> b - a"
    and "list_all in_base64 (take (start - a) (drop a h))" "list_all in_base64 (take (b - stop) (drop stop h))"
  shows "sv_rejected (classify v h (int start) (int stop) policy mixed)"
proof -
  have "120 \<le> base64_run_length h start stop"
    using base64_run_covers [of a start stop b h] assms by simp
  moreover have "h \<noteq> []" using assms(1-5) by auto
  ultimately show ?thesis
    using assms(2-4)
    by (auto simp: classify_def context_verdict_def Let_def BLOB_RUN_THRESHOLD_def mk_verdict_def
        sv_rejected_def is_disqualifying_def)
qed

theorem blob_slice_always_rejected_witness:
  "sv_rejected (classify ''AAAA'' (replicate 200 CHR ''A'') 10 14 STRICT False)"
  using blob_slice_always_rejected [of 0 10 14 200 "replicate 200 CHR ''A''" "''AAAA''" STRICT False]
  by (simp add: in_base64_def is_upper_def list_all_length)

text \<open>The context policy only ever takes surroundings into account: it rejects exactly the blank
  values and those with a disqualifying context, and a stricter policy rejects at least as much.\<close>

theorem context_policy_rejects_iff:
  "(sv_rejected (classify v h s e CONTEXT mixed) \<longleftrightarrow> py_strip v = [] \<or> context_verdict h s e \<noteq> None)
   \<and> (sv_rejected (classify v h s e STRICT mixed') \<longleftrightarrow>
        sv_rejected (classify v h s e CONTEXT mixed) \<or> sv_rejected (value_verdict (py_strip v) mixed'))"
proof -
  have ctx: "sv_rejected w" if "context_verdict h s e = Some w" for w
    using that
    by (auto simp: context_verdict_def Let_def mk_verdict_def sv_rejected_def is_disqualifying_def
        split: if_splits option.splits)
  have blank: "sv_rejected (value_verdict [] mixed')"
    by (simp add: value_verdict_def Let_def uuid_re_def hex_re_def url_re_def numeric_re_def
        mk_verdict_def sv_rejected_def is_disqualifying_def)
  show ?thesis
  proof (cases "py_strip v = []")
    case True
    then show ?thesis using blank
      by (simp add: classify_def Let_def mk_verdict_def sv_rejected_def is_disqualifying_def)
  next
    case False
    then show ?thesis using ctx
      by (cases "context_verdict h s e")
         (auto simp: classify_def Let_def mk_verdict_def sv_rejected_def is_disqualifying_def)
  qed
qed

end
