(* ===== verification/Rules_Scanner.thy ===== *)
theory Rules_Scanner
  imports Rules_Shape Policy_Model Canonical_Order Py_Dict
begin

text \<open>
  String extraction and rule matching (\<open>core/rules/scanner.py\<close>, \<open>core/rules/model.py\<close>). A rule's
  compiled regular expression is the function from a string to its \<open>finditer\<close> matches, with the
  text of the captured group (\<open>None\<close> for a group that does not exist, \<open>Some None\<close> for one that did
  not take part); a \<open>rejects_matching\<close> pattern is the predicate its \<open>search\<close> computes. Entropies
  are exact reals, and \<open>round(x, 3)\<close> rounds them.
\<close>

definition MIN_STRING_LENGTH :: nat where "MIN_STRING_LENGTH = 6"
definition MAX_STRING_LENGTH :: nat where "MAX_STRING_LENGTH = 8192"
definition CONTEXT_BYTES :: nat where "CONTEXT_BYTES = 60"

definition printable :: "byte \<Rightarrow> bool" where
  "printable b \<longleftrightarrow> (0x20 \<le> b \<and> b < 0x7F) \<or> b = 0x09"

subsection \<open>Rules\<close>

record rmatch =
  rm_start :: nat
  rm_end :: nat
  rm_group :: "string option option"

record pattern =
  pat_finditer :: "string \<Rightarrow> rmatch list"
  pat_source :: string

definition pat_extract :: "rmatch \<Rightarrow> string option" where
  "pat_extract m = (case rm_group m of None \<Rightarrow> None | Some g \<Rightarrow> g)"

record rule =
  ru_id :: string
  ru_name :: string
  ru_category :: string
  ru_severity :: severity
  ru_patterns :: "pattern list"
  ru_confidence :: rat
  ru_cwe :: "string option"
  ru_description :: string
  ru_remediation :: string
  ru_tags :: "string list"
  ru_min_entropy :: real
  ru_min_length :: int
  ru_max_length :: int
  ru_encodings :: "string list"
  ru_requires_nearby :: "string list"
  ru_nearby_window :: nat
  ru_shape_policy :: string
  ru_rejects_matching :: "(string \<Rightarrow> bool) list"
  ru_require_mixed_case :: bool
  ru_enabled :: bool

definition shannon_entropy :: "'a list \<Rightarrow> real" where
  "shannon_entropy value =
     (if value = [] then 0
      else - (\<Sum>c \<leftarrow> map snd (tally id value).
                (real c / real (length value)) * log 2 (real c / real (length value))))"

definition accepts :: "rule \<Rightarrow> string \<Rightarrow> bool" where
  "accepts r value \<longleftrightarrow>
     ru_min_length r \<le> int (length value) \<and> int (length value) \<le> ru_max_length r
     \<and> \<not> list_ex (\<lambda>p. p value) (ru_rejects_matching r)
     \<and> \<not> (ru_min_entropy r \<noteq> 0 \<and> shannon_entropy value < ru_min_entropy r)"

record rule_pack =
  rp_version :: string
  rp_rules :: "rule list"
  rp_hash :: string
  rp_false_positives :: "string set"

definition enabled_rules :: "rule_pack \<Rightarrow> rule list" where
  "enabled_rules pack = sort_key ru_id (filter ru_enabled (rp_rules pack))"

definition is_known_false_positive :: "rule_pack \<Rightarrow> string \<Rightarrow> bool" where
  "is_known_false_positive pack value \<longleftrightarrow> py_strip value \<in> rp_false_positives pack"

definition to_manifest :: "rule_pack \<Rightarrow> (string \<times> pyval) list" where
  "to_manifest pack =
     [(''rule_pack_version'', PStr (rp_version pack)), (''rule_pack_hash'', PStr (rp_hash pack)),
      (''rule_count'', PInt (int (length (enabled_rules pack))))]"

subsection \<open>Masking\<close>

definition BULLET :: string where
  "BULLET = [CHR 0xE2, CHR 0x80, CHR 0xA2]"

definition bullets :: "nat \<Rightarrow> string" where
  "bullets n = concat (replicate n BULLET)"

text \<open>\<open>mask\<close> with its default prefix and suffix of four.\<close>

definition mask_value :: "string \<Rightarrow> string" where
  "mask_value value =
     (if length value \<le> 4 + 4 + 4 then bullets (min (length value) 12)
      else take 4 value @ bullets (min (length value - 4 - 4) 12) @ drop (length value - 4) value)"

subsection \<open>Extraction\<close>

record extracted =
  ex_value :: string
  ex_offset :: int
  ex_encoding :: string

definition mk_extracted :: "string \<Rightarrow> int \<Rightarrow> string \<Rightarrow> extracted" where
  "mk_extracted v off enc = \<lparr>ex_value = v, ex_offset = off, ex_encoding = enc\<rparr>"

definition end_offset :: "extracted \<Rightarrow> int" where
  "end_offset e = ex_offset e + int (length (ex_value e)) * (if ex_encoding e = ''utf-16le'' then 2 else 1)"

definition byte_char :: "byte \<Rightarrow> char" where
  "byte_char b = char_of (unat b)"

text \<open>\<open>extract_ascii\<close>: \<open>cur\<close> is the run since \<open>start\<close>, so \<open>start = index - length cur\<close>, and
  \<open>start < 0\<close> is the empty run.\<close>

fun ascii_runs :: "nat \<Rightarrow> nat \<Rightarrow> string \<Rightarrow> bytes \<Rightarrow> extracted list" where
  "ascii_runs min_length index cur [] =
     (if cur \<noteq> [] \<and> min_length \<le> length cur
      then [mk_extracted cur (int (index - length cur)) ''ascii''] else [])"
| "ascii_runs min_length index cur (b # bs) =
     (if printable b
      then (if length cur \<ge> MAX_STRING_LENGTH
            then mk_extracted cur (int (index - length cur)) ''ascii''
                 # ascii_runs min_length (Suc index) [byte_char b] bs
            else ascii_runs min_length (Suc index) (cur @ [byte_char b]) bs)
      else (if cur \<noteq> [] \<and> min_length \<le> length cur
            then [mk_extracted cur (int (index - length cur)) ''ascii''] else [])
           @ ascii_runs min_length (Suc index) [] bs)"

definition extract_ascii :: "bytes \<Rightarrow> nat \<Rightarrow> extracted list" where
  "extract_ascii data min_length = ascii_runs min_length 0 [] data"

text \<open>One alignment of \<open>extract_utf16le\<close>: pairs of bytes from \<open>index\<close> on.\<close>

fun wide_runs :: "nat \<Rightarrow> nat \<Rightarrow> string \<Rightarrow> int \<Rightarrow> bytes \<Rightarrow> extracted list" where
  "wide_runs min_length index chars start (low # high # bs) =
     (if high = 0 \<and> printable low
      then
        (let start' = (if start < 0 then int index else start); chars' = chars @ [byte_char low] in
         if length chars' \<ge> MAX_STRING_LENGTH
         then mk_extracted chars' start' ''utf-16le'' # wide_runs min_length (index + 2) [] (-1) bs
         else wide_runs min_length (index + 2) chars' start' bs)
      else (if min_length \<le> length chars then [mk_extracted chars start ''utf-16le''] else [])
           @ wide_runs min_length (index + 2) [] (-1) bs)"
| "wide_runs min_length index chars start bs =
     (if min_length \<le> length chars then [mk_extracted chars start ''utf-16le''] else [])"

definition extract_utf16le :: "bytes \<Rightarrow> nat \<Rightarrow> extracted list" where
  "extract_utf16le data min_length =
     wide_runs min_length 0 [] (-1) data @ wide_runs min_length 1 [] (-1) (drop 1 data)"

fun keep_first :: "'a list \<Rightarrow> 'a list \<Rightarrow> 'a list" where
  "keep_first seen [] = []"
| "keep_first seen (x # xs) =
     (if x \<in> set seen then keep_first seen xs else x # keep_first (x # seen) xs)"

definition extracted_key :: "extracted \<Rightarrow> int \<times> string \<times> string" where
  "extracted_key e = (ex_offset e, ex_encoding e, ex_value e)"

definition extract_strings :: "bytes \<Rightarrow> nat \<Rightarrow> extracted list" where
  "extract_strings data min_length =
     sort_key extracted_key
       (keep_first [] (extract_ascii data min_length @ extract_utf16le data min_length))"

subsection \<open>Context\<close>

text \<open>A byte decoded with \<open>"replace"\<close> and filtered by \<open>isprintable\<close>: bytes above ASCII become the
  replacement character, which is printable, and control characters become dots.\<close>

definition context_char :: "byte \<Rightarrow> string" where
  "context_char b =
     (if unat b \<ge> 128 then [CHR 0xEF, CHR 0xBF, CHR 0xBD]
      else if 32 \<le> unat b \<and> unat b < 127 then [byte_char b] else ''.'')"

definition raw_context_for :: "bytes \<Rightarrow> nat \<Rightarrow> string \<Rightarrow> string" where
  "raw_context_for data offset value =
     (let start = offset - CONTEXT_BYTES;
          stop = min (length data) (offset + length value * 2 + CONTEXT_BYTES)
      in concat (map context_char (slice start stop data)))"

text \<open>\<open>text.replace(old, new)\<close> for a non-empty \<open>old\<close>.\<close>

function replace_all :: "string \<Rightarrow> string \<Rightarrow> string \<Rightarrow> string" where
  "replace_all old new [] = []"
| "replace_all old new (c # cs) =
     (if old \<noteq> [] \<and> starts_with old (c # cs)
      then new @ replace_all old new (drop (length old - 1) cs)
      else c # replace_all old new cs)"
  by pat_completeness auto
termination by (relation "measure (\<lambda>(old, new, s). length s)") auto

definition context_for :: "bytes \<Rightarrow> nat \<Rightarrow> string \<Rightarrow> string" where
  "context_for data offset value = replace_all value (mask_value value) (raw_context_for data offset value)"

subsection \<open>Matching\<close>

record rule_match =
  ma_rule_id :: string
  ma_value :: string
  ma_offset :: nat
  ma_encoding :: string
  ma_entropy :: real
  ma_context :: string
  ma_context_plaintext :: string

definition round3 :: "real \<Rightarrow> real" where
  "round3 x = real_of_int (round (x * 1000)) / 1000"

definition shape_ok :: "rule \<Rightarrow> extracted \<Rightarrow> rmatch \<Rightarrow> string \<Rightarrow> bool" where
  "shape_ok r e m value \<longleftrightarrow>
     ru_shape_policy r = ''off'' \<or>
     \<not> sv_rejected (classify value (ex_value e) (int (rm_start m)) (int (rm_end m))
          (if ru_shape_policy r = ''strict'' then STRICT else CONTEXT) (ru_require_mixed_case r))"

definition apply_match :: "rule \<Rightarrow> extracted \<Rightarrow> bytes \<Rightarrow> rule_pack \<Rightarrow> rmatch \<Rightarrow> rule_match list" where
  "apply_match r e data pack m =
     (case pat_extract m of
        None \<Rightarrow> []
      | Some value \<Rightarrow>
          if value = [] \<or> \<not> accepts r value then []
          else if is_known_false_positive pack value then []
          else if ru_requires_nearby r \<noteq> []
                  \<and> \<not> has_nearby (ex_value e) (rm_start m) (ru_requires_nearby r) (ru_nearby_window r)
          then []
          else if \<not> shape_ok r e m value then []
          else
            (let width = (if ex_encoding e = ''utf-16le'' then 2 else 1);
                 absolute = nat (ex_offset e) + rm_start m * width in
             [\<lparr>ma_rule_id = ru_id r, ma_value = value, ma_offset = absolute,
               ma_encoding = ex_encoding e, ma_entropy = round3 (shannon_entropy value),
               ma_context = context_for data absolute value,
               ma_context_plaintext = raw_context_for data absolute value\<rparr>]))"

definition apply_rule :: "rule \<Rightarrow> extracted \<Rightarrow> bytes \<Rightarrow> rule_pack \<Rightarrow> rule_match list" where
  "apply_rule r e data pack =
     concat (map (\<lambda>p. concat (map (apply_match r e data pack) (pat_finditer p (ex_value e))))
       (ru_patterns r))"

definition match_key :: "rule_match \<Rightarrow> string \<times> nat \<times> string \<times> string" where
  "match_key m = (ma_rule_id m, ma_offset m, ma_encoding m, ma_value m)"

definition scan_bytes :: "bytes \<Rightarrow> rule_pack \<Rightarrow> nat \<Rightarrow> rule_match list" where
  "scan_bytes data pack min_length =
     (let strings = extract_strings data min_length in
      sort_key match_key
        (concat (map (\<lambda>r. concat (map (\<lambda>e. apply_rule r e data pack)
            (filter (\<lambda>e. ex_encoding e \<in> set (ru_encodings r)) strings))) (enabled_rules pack))))"

definition scan_file :: "bytes \<Rightarrow> rule_pack \<Rightarrow> rule_match list" where
  "scan_file content pack = scan_bytes (take (512 * 1024 * 1024) content) pack MIN_STRING_LENGTH"

end
