(* ===== verification/Rules_Properties.thy ===== *)
theory Rules_Properties
  imports Rules_Scanner
begin

text \<open>
  What the scanner guarantees: what a mask and a masked context reveal, that no printable run is
  missed and none is invented, and that matches are justified and come in one order.
\<close>

subsection \<open>Masks\<close>

lemma bullets_length [simp]: "length (bullets n) = 3 * n"
  by (induction n) (auto simp: bullets_def BULLET_def)

lemma bullets_set: "set (bullets n) \<subseteq> {CHR 0xE2, CHR 0x80, CHR 0xA2}"
  by (induction n) (auto simp: bullets_def BULLET_def)

lemma bullets_Nil [simp]: "bullets n = [] \<longleftrightarrow> n = 0"
  by (metis bullets_length length_0_conv mult_eq_0_iff zero_neq_numeral)

text \<open>A mask depends on nothing but the first and last four characters and the number of hidden
  ones up to twelve; values of at most twelve characters show nothing but their length.\<close>

theorem mask_reveals_only_ends:
  assumes "min (length v) 20 = min (length w) 20"
    and "12 < length v \<Longrightarrow> take 4 v = take 4 w \<and> drop (length v - 4) v = drop (length w - 4) w"
  shows "mask_value v = mask_value w"
proof (cases "length v \<le> 12")
  case True
  with assms(1) have "length w = length v" by (simp add: min_def split: if_splits)
  with True show ?thesis by (simp add: mask_value_def)
next
  case False
  with assms(1) have w: "12 < length w" by (simp add: min_def split: if_splits)
  have "min (length v - 4 - 4) 12 = min (length w - 4 - 4) 12"
    using assms(1) False w by (auto simp: min_def split: if_splits)
  with assms(2) False w show ?thesis by (simp add: mask_value_def)
qed

theorem mask_reveals_only_ends_witness:
  "mask_value ''AKIA2E0A8F3B5C7D9E1F'' = mask_value ''AKIAXXXXXXXXXXXXXXXXXXXX9E1F''"
  by (rule mask_reveals_only_ends) simp_all

subsection \<open>Masked contexts\<close>

definition ascii_only :: "string \<Rightarrow> bool" where
  "ascii_only v \<longleftrightarrow> (\<forall>c \<in> set v. (of_char c :: nat) < 128)"

text \<open>No proper prefix of at most four characters is also a suffix.\<close>

definition borderless :: "string \<Rightarrow> bool" where
  "borderless v \<longleftrightarrow> (\<forall>k. 1 \<le> k \<and> k \<le> 4 \<longrightarrow> take k v \<noteq> drop (length v - k) v)"

lemma ascii_no_bullet: "ascii_only v \<Longrightarrow> c \<in> set (bullets n) \<Longrightarrow> c \<notin> set v"
proof -
  assume v: "ascii_only v" and c: "c \<in> set (bullets n)"
  have "128 \<le> (of_char c :: nat)" using subsetD [OF bullets_set c] by auto
  with v show "c \<notin> set v" by (auto simp: ascii_only_def)
qed

lemma starts_with_length: "starts_with v xs \<Longrightarrow> length v \<le> length xs"
  by (auto simp: starts_with_append)

lemma contains_length: "contains v xs \<Longrightarrow> length v \<le> length xs"
  by (auto simp: contains_iff)

text \<open>Separators that do not occur in \<open>v\<close> cut the search in two.\<close>

lemma starts_with_cut:
  "(\<forall>c \<in> set y. c \<notin> set v) \<Longrightarrow> y \<noteq> [] \<Longrightarrow> starts_with v (xs @ y @ zs) \<Longrightarrow> starts_with v xs"
proof (induction v xs rule: starts_with.induct)
  case (2 x v)
  then show ?case by (cases y) auto
qed auto

lemma contains_cut:
  assumes "\<forall>c \<in> set y. c \<notin> set v" "y \<noteq> []" "v \<noteq> []"
  shows "contains v (xs @ y @ zs) \<Longrightarrow> contains v xs \<or> contains v zs"
proof (induction xs)
  case Nil
  have "contains v (y' @ zs) \<Longrightarrow> contains v zs" if "\<forall>c \<in> set y'. c \<notin> set v" for y'
    using that
  proof (induction y')
    case (Cons c y')
    then have "\<not> starts_with v ((c # y') @ zs)" using assms(3) by (cases v) auto
    with Cons show ?case by auto
  qed simp
  with Nil assms(1) show ?case by simp
next
  case (Cons x xs)
  then show ?case
    using starts_with_cut [OF assms(1,2), of "x # xs" zs] by auto
qed

lemma contains_shift:
  "contains v (s @ r) \<Longrightarrow> contains v r \<or> (\<exists>i. 1 \<le> i \<and> i \<le> length s \<and> starts_with v (drop (length s - i) s @ r))"
proof (induction s)
  case (Cons c s)
  show ?case
  proof (cases "starts_with v ((c # s) @ r)")
    case True
    then show ?thesis by (intro disjI2 exI [of _ "length (c # s)"]) simp
  next
    case False
    with Cons.prems have "contains v (s @ r)" by simp
    from Cons.IH [OF this] show ?thesis
    proof
      assume "\<exists>i. 1 \<le> i \<and> i \<le> length s \<and> starts_with v (drop (length s - i) s @ r)"
      then obtain i where "1 \<le> i" "i \<le> length s" "starts_with v (drop (length s - i) s @ r)" by blast
      then show ?thesis by (intro disjI2 exI [of _ i]) (simp add: Suc_diff_le)
    qed simp
  qed
qed simp

lemma mask_long:
  "12 < length v \<Longrightarrow> mask_value v = take 4 v @ bullets (min (length v - 8) 12) @ drop (length v - 4) v"
  by (simp add: mask_value_def)

lemma prefix_preserved:
  "new = mask_value v \<Longrightarrow> ascii_only v \<Longrightarrow> 12 < length v \<Longrightarrow> ascii_only w \<Longrightarrow>
     starts_with w (replace_all v new s) \<Longrightarrow> starts_with w s"
proof (induction v new s arbitrary: w rule: replace_all.induct)
  case (2 v new c cs)
  note prems = 2(3-7)
  show ?case
  proof (cases "v \<noteq> [] \<and> starts_with v (c # cs)")
    case True
    then obtain zs where zs: "c # cs = v @ zs" by (auto simp: starts_with_append)
    let ?y = "bullets (min (length v - 8) 12)"
    have "starts_with w (take 4 v @ ?y @ (drop (length v - 4) v @ replace_all v new (drop (length v - 1) cs)))"
      using prems True by (simp add: mask_long)
    then have "starts_with w (take 4 v)"
      using starts_with_cut [of ?y w "take 4 v"] ascii_no_bullet [OF prems(4)] prems(3) by auto
    then have "starts_with w (take 4 v @ drop 4 v @ zs)" by (auto simp: starts_with_append)
    then show ?thesis by (simp add: zs flip: append.assoc)
  next
    case False
    then show ?thesis using 2(2) [OF False prems(1-3)] prems(4,5)
      by (cases w) (auto simp: ascii_only_def)
  qed
qed simp

lemma masked_absent:
  "new = mask_value v \<Longrightarrow> ascii_only v \<Longrightarrow> 12 < length v \<Longrightarrow> borderless v \<Longrightarrow>
     \<not> contains v (replace_all v new s) \<and> \<not> contains v (drop (length v - 4) v @ replace_all v new s)"
proof (induction v new s rule: replace_all.induct)
  case (1 v new)
  then show ?case by (auto dest: contains_length)
next
  case (2 v new c cs)
  note prems = 2(3-6)
  let ?R = "replace_all v new"
  let ?s = "drop (length v - 4) v"
  have four: "length ?s = 4" using prems(3) by simp
  have tail: "\<not> contains v (?s @ r)" if none: "\<not> contains v r" for r
  proof
    assume "contains v (?s @ r)"
    then obtain i where i: "1 \<le> i" "i \<le> length ?s" "starts_with v (drop (length ?s - i) ?s @ r)"
      using contains_shift none by blast
    have b: "drop (length ?s - i) ?s = drop (length v - i) v" using i(2) four prems(3) by simp
    from i(3) b obtain z where "drop (length v - i) v @ r = v @ z" by (auto simp: starts_with_append)
    then have "take i (drop (length v - i) v @ r) = take i (v @ z)" by simp
    then have "drop (length v - i) v = take i v" using i four prems(3) by simp
    moreover have "take i v \<noteq> drop (length v - i) v"
      using prems(4) i four by (auto simp: borderless_def)
    ultimately show False by simp
  qed
  show ?case
  proof (cases "v \<noteq> [] \<and> starts_with v (c # cs)")
    case True
    let ?y = "bullets (min (length v - 8) 12)"
    let ?R' = "?R (drop (length v - 1) cs)"
    have R: "?R (c # cs) = take 4 v @ ?y @ ?s @ ?R'" using True prems(1,3) by (simp add: mask_long)
    have ih: "\<not> contains v (?s @ ?R')" using 2(1) [OF True prems] by simp
    have y: "\<forall>c \<in> set ?y. c \<notin> set v" "?y \<noteq> []" using ascii_no_bullet [OF prems(2)] prems(3) by auto
    have none: "\<not> contains v (pre @ ?y @ ?s @ ?R')" if "length pre < length v" for pre
    proof -
      have "\<not> contains v pre" using that contains_length by (meson not_le)
      then show ?thesis using contains_cut [OF y, of pre "?s @ ?R'"] ih True by blast
    qed
    have "\<not> contains v (take 4 v @ ?y @ ?s @ ?R')" using prems(3) by (intro none) simp
    moreover have "\<not> contains v ((?s @ take 4 v) @ ?y @ ?s @ ?R')" using prems(3) by (intro none) simp
    ultimately show ?thesis unfolding R by simp
  next
    case False
    have R: "?R (c # cs) = c # ?R cs" using False by auto
    have "\<not> contains v (?R cs)" using 2(2) [OF False prems] by simp
    moreover have "\<not> starts_with v (c # ?R cs)"
      using prefix_preserved [OF prems(1-3) prems(2), of "c # cs"] False prems(3) R by fastforce
    ultimately have "\<not> contains v (c # ?R cs)" by simp
    with tail show ?thesis unfolding R by blast
  qed
qed

lemma short_prefix_preserved:
  "y \<noteq> [] \<Longrightarrow> (\<forall>c \<in> set y. c \<notin> set w) \<Longrightarrow> starts_with w (replace_all v y s) \<Longrightarrow> starts_with w s"
proof (induction v y s arbitrary: w rule: replace_all.induct)
  case (2 v y c cs)
  show ?case
  proof (cases "v \<noteq> [] \<and> starts_with v (c # cs)")
    case True
    then have "replace_all v y (c # cs) = [] @ y @ replace_all v y (drop (length v - 1) cs)" by simp
    with 2(5) have "starts_with w ([] @ y @ replace_all v y (drop (length v - 1) cs))" by (simp only:)
    then have "starts_with w []" by (rule starts_with_cut [OF 2(4,3)])
    then show ?thesis by (cases w) auto
  next
    case False
    then show ?thesis using 2(2) [OF False 2(3)] 2(4,5) by (cases w) auto
  qed
qed simp

lemma masked_absent_cut:
  "v \<noteq> [] \<Longrightarrow> y \<noteq> [] \<Longrightarrow> (\<forall>c \<in> set y. c \<notin> set v) \<Longrightarrow> \<not> contains v (replace_all v y s)"
proof (induction v y s rule: replace_all.induct)
  case (2 v y c cs)
  note prems = 2(3-5)
  show ?case
  proof (cases "v \<noteq> [] \<and> starts_with v (c # cs)")
    case True
    have "\<not> contains v (replace_all v y (drop (length v - 1) cs))" using 2(1) [OF True prems] .
    then have "\<not> contains v ([] @ y @ replace_all v y (drop (length v - 1) cs))"
      using contains_cut [OF prems(3,2,1), of "[]"] prems(1) by auto
    then show ?thesis using True by simp
  next
    case False
    have "\<not> starts_with v (replace_all v y (c # cs))"
      using short_prefix_preserved [OF prems(2,3)] False prems(1) by blast
    then show ?thesis using 2(2) [OF False prems] False by auto
  qed
qed simp

lemma masked_absent_short:
  assumes "ascii_only v" "v \<noteq> []" "length v \<le> 12"
  shows "\<not> contains v (replace_all v (mask_value v) s)"
proof -
  have "mask_value v = bullets (length v)" using assms(3) by (simp add: mask_value_def)
  moreover have "\<not> contains v (replace_all v (bullets (length v)) s)"
    using ascii_no_bullet [OF assms(1)] assms(2) by (intro masked_absent_cut) simp_all
  ultimately show ?thesis by simp
qed



subsection \<open>Wide strings\<close>

text \<open>The UTF-16LE form of an ASCII text, and the dotted form its context shows it in.\<close>

definition wide :: "string \<Rightarrow> bytes" where
  "wide v = concat (map (\<lambda>c. [of_nat (of_char c), 0]) v)"

fun dotted :: "string \<Rightarrow> string" where
  "dotted [] = []"
| "dotted (c # cs) = c # CHR ''.'' # dotted cs"

definition printable_text :: "string \<Rightarrow> bool" where
  "printable_text v \<longleftrightarrow> (\<forall>c \<in> set v. 32 \<le> (of_char c :: nat) \<and> (of_char c :: nat) < 127)"

lemma byte_round_trip: "(of_char c :: nat) < 128 \<Longrightarrow> unat (of_nat (of_char c) :: byte) = of_char c"
  by (subst unat_of_nat) simp

lemma wide_length [simp]: "length (wide v) = 2 * length v"
  by (induction v) (auto simp: wide_def)

lemma context_wide: "printable_text v \<Longrightarrow> concat (map context_char (wide v)) = dotted v"
  by (induction v) (auto simp: wide_def printable_text_def context_char_def byte_char_def byte_round_trip)

lemma dotted_no_run:
  assumes "CHR ''.'' \<notin> set v" "2 \<le> length v"
  shows "\<not> starts_with v (dotted s)" "\<not> starts_with v (CHR ''.'' # dotted s)"
proof -
  from assms(2) obtain a b w where v: "v = a # b # w" by (metis One_nat_def Suc_1 Suc_le_length_iff)
  show "\<not> starts_with v (dotted s)" using assms(1) by (cases s) (auto simp: v)
  show "\<not> starts_with v (CHR ''.'' # dotted s)" using assms(1) by (auto simp: v)
qed

lemma replace_dotted:
  assumes "CHR ''.'' \<notin> set v" "2 \<le> length v"
  shows "replace_all v new (dotted s) = dotted s"
  using dotted_no_run [OF assms]
proof (induction s)
  case (Cons c s)
  have "\<not> starts_with v (c # CHR ''.'' # dotted s)" using Cons.prems(1) [of "c # s"] by simp
  then show ?case using Cons by simp
qed simp

text \<open>The promise does not extend to wide strings: when a secret is found as UTF-16LE, its masked
  context shows every character of it, separated by dots, because the text that is searched for
  is not the text that is shown. Dropping the dots gives the secret back.\<close>

theorem wide_context_reveals_value:
  assumes "printable_text v" "CHR ''.'' \<notin> set v" "2 \<le> length v"
  shows "context_for (wide v) 0 v = dotted v \<and> filter (\<lambda>c. c \<noteq> CHR ''.'') (context_for (wide v) 0 v) = v"
proof -
  have "raw_context_for (wide v) 0 v = dotted v"
    using context_wide [OF assms(1)] by (simp add: raw_context_for_def slice_def)
  then have "context_for (wide v) 0 v = dotted v"
    by (simp add: context_for_def replace_dotted [OF assms(2,3)])
  moreover have "filter (\<lambda>c. c \<noteq> CHR ''.'') (dotted v) = v" using assms(2) by (induction v) auto
  ultimately show ?thesis by simp
qed

theorem wide_context_reveals_value_witness:
  "filter (\<lambda>c. c \<noteq> CHR ''.'') (context_for (wide ''AKIA2E0A8F3B5C7D9E1F'') 0 ''AKIA2E0A8F3B5C7D9E1F'')
     = ''AKIA2E0A8F3B5C7D9E1F''"
  using wide_context_reveals_value [of "''AKIA2E0A8F3B5C7D9E1F''"] by (simp add: printable_text_def)

subsection \<open>Extraction\<close>

lemma byte_char_bytes_of [simp]: "map byte_char (bytes_of s) = s"
proof (induction s)
  case (Cons c s)
  have "(of_char c :: nat) < 256" by (rule nat_of_char_less_256)
  then have "unat (of_nat (of_char c) :: byte) = of_char c" by (subst unat_of_nat) simp
  with Cons show ?case by (simp add: bytes_of_def byte_char_def)
qed (simp add: bytes_of_def)

definition chars_at :: "bytes \<Rightarrow> nat \<Rightarrow> nat \<Rightarrow> string" where
  "chars_at data off n = map byte_char (take n (drop off data))"

text \<open>What an extracted ASCII string claims about the bytes it came from.\<close>

definition ascii_at :: "bytes \<Rightarrow> extracted \<Rightarrow> bool" where
  "ascii_at data e \<longleftrightarrow> ex_encoding e = ''ascii'' \<and>
     (\<exists>off. ex_offset e = int off \<and> off + length (ex_value e) \<le> length data
        \<and> ex_value e = chars_at data off (length (ex_value e))
        \<and> list_all printable (take (length (ex_value e)) (drop off data)))"

lemma chars_at_snoc:
  "off + n < length data \<Longrightarrow> chars_at data off n @ [byte_char (data ! (off + n))] = chars_at data off (Suc n)"
  by (simp add: chars_at_def take_Suc_conv_app_nth)

lemma ascii_at_run:
  assumes "index \<le> length data" "length cur \<le> index"
    and "cur = chars_at data (index - length cur) (length cur)"
    and "list_all printable (take (length cur) (drop (index - length cur) data))"
  shows "ascii_at data (mk_extracted cur (int (index - length cur)) ''ascii'')"
  unfolding ascii_at_def mk_extracted_def
  using assms by (intro conjI exI [of _ "index - length cur"]) simp_all

lemma ascii_runs_sound:
  assumes "drop index data = bs" "index \<le> length data" "length cur \<le> index"
    and "cur = chars_at data (index - length cur) (length cur)"
    and "list_all printable (take (length cur) (drop (index - length cur) data))"
    and "e \<in> set (ascii_runs n index cur bs)"
  shows "ascii_at data e"
  using assms
proof (induction n index cur bs rule: ascii_runs.induct)
  case (1 n index cur)
  then show ?case using ascii_at_run [of index data cur] by (simp split: if_splits)
next
  case (2 n index cur b bs)
  have idx: "index < length data" using 2(4) by (metis drop_all list.distinct(1) not_le)
  have b: "b = data ! index" "drop (Suc index) data = bs"
    using 2(4) idx by (metis Cons_nth_drop_Suc list.inject)+
  have here: "ascii_at data (mk_extracted cur (int (index - length cur)) ''ascii'')"
    using ascii_at_run [OF 2(5-8)] .
  have single: "[byte_char b] = chars_at data (Suc index - length [byte_char b]) (length [byte_char b])"
    using idx by (simp add: chars_at_def b take_Suc_conv_app_nth)
  have grown: "cur @ [byte_char b] =
      chars_at data (Suc index - length (cur @ [byte_char b])) (length (cur @ [byte_char b]))"
  proof -
    have "cur @ [byte_char b] = chars_at data (index - length cur) (Suc (length cur))"
      using chars_at_snoc [of "index - length cur" "length cur" data] 2(6,7) idx b by simp
    moreover have "Suc index - length (cur @ [byte_char b]) = index - length cur"
      "length (cur @ [byte_char b]) = Suc (length cur)" by simp_all
    ultimately show ?thesis by metis
  qed
  have ptake: "list_all printable (take (Suc (length cur)) (drop (index - length cur) data))"
    if "printable b"
    using 2(6,8) idx b that by (simp add: take_Suc_conv_app_nth)
  have p1: "list_all printable (take 1 (drop index data))" if "printable b"
    using idx b that by (simp add: take_Suc_conv_app_nth)
  show ?case
  proof (cases "printable b")
    case True
    have p1': "list_all printable (take (length [byte_char b]) (drop (Suc index - length [byte_char b]) data))"
      using p1 [OF True] by simp
    have pg: "list_all printable (take (length (cur @ [byte_char b])) (drop (Suc index - length (cur @ [byte_char b])) data))"
      using ptake [OF True] by simp
    show ?thesis
    proof (cases "length cur \<ge> MAX_STRING_LENGTH")
      case full: True
      have rest: "e \<in> set (ascii_runs n (Suc index) [byte_char b] bs) \<Longrightarrow> ascii_at data e"
        by (rule 2(1) [OF True full b(2) _ _ single p1']) (use idx in simp_all)
      show ?thesis using 2(9) True full here rest by (simp split: if_splits) blast+
    next
      case room: False
      have rest: "e \<in> set (ascii_runs n (Suc index) (cur @ [byte_char b]) bs) \<Longrightarrow> ascii_at data e"
        by (rule 2(2) [OF True room b(2) _ _ grown pg]) (use idx 2(6) in simp_all)
      show ?thesis using 2(9) True room rest by simp
    qed
  next
    case False
    with 2(9) here show ?thesis
      using 2(3) [OF False b(2)] idx by (auto simp: chars_at_def split: if_splits)
  qed
qed

lemma ascii_runs_extend:
  "list_all printable run \<Longrightarrow> length cur + length run \<le> MAX_STRING_LENGTH \<Longrightarrow>
     ascii_runs n index cur (run @ rest) = ascii_runs n (index + length run) (cur @ map byte_char run) rest"
  by (induction run arbitrary: index cur) auto

lemma ascii_runs_step:
  "\<exists>es cur'. ascii_runs n index cur (b # bs) = es @ ascii_runs n (Suc index) cur' bs
     \<and> (\<not> printable b \<longrightarrow> cur' = [])"
  by (cases "printable b"; cases "length cur \<ge> MAX_STRING_LENGTH") (auto, metis append_Cons append_Nil)+

lemma ascii_runs_reset:
  "\<not> printable b \<Longrightarrow> \<exists>es. ascii_runs n index cur (pre @ b # rest) = es @ ascii_runs n (index + length pre + 1) [] rest"
proof (induction pre arbitrary: index cur)
  case Nil
  then show ?case using ascii_runs_step [of n index cur b rest] by auto
next
  case (Cons c pre)
  obtain es cur' where "ascii_runs n index cur (c # pre @ b # rest) = es @ ascii_runs n (Suc index) cur' (pre @ b # rest)"
    using ascii_runs_step by blast
  moreover obtain es' where "ascii_runs n (Suc index) cur' (pre @ b # rest) =
      es' @ ascii_runs n (Suc index + length pre + 1) [] rest"
    using Cons by blast
  ultimately show ?case by (intro exI [of _ "es @ es'"]) simp
qed

lemma ascii_extraction_sound: "e \<in> set (extract_ascii data n) \<Longrightarrow> ascii_at data e"
  using ascii_runs_sound [of 0 data data "[]" e n] by (simp add: extract_ascii_def chars_at_def)

lemma ascii_extraction_core:
  "(\<forall>e \<in> set (extract_ascii data n). ascii_at data e)
   \<and> (\<forall>pre run post. data = pre @ run @ post \<longrightarrow> list_all printable run \<longrightarrow> run \<noteq> [] \<longrightarrow>
        n \<le> length run \<longrightarrow> length run \<le> 8192 \<longrightarrow> (pre = [] \<or> \<not> printable (last pre)) \<longrightarrow>
        (post = [] \<or> \<not> printable (hd post)) \<longrightarrow>
        mk_extracted (map byte_char run) (int (length pre)) ''ascii'' \<in> set (extract_ascii data n))"
proof (intro conjI ballI allI impI)
  show "ascii_at data e" if "e \<in> set (extract_ascii data n)" for e
    using that by (rule ascii_extraction_sound)
next
  fix pre run post
  assume data: "data = pre @ run @ post" and run: "list_all printable run" "run \<noteq> []"
    and len: "n \<le> length run" "length run \<le> 8192"
    and pre: "pre = [] \<or> \<not> printable (last pre)" and post: "post = [] \<or> \<not> printable (hd post)"
  let ?e = "mk_extracted (map byte_char run) (int (length pre)) ''ascii''"
  have "\<exists>es. extract_ascii data n = es @ ascii_runs n (length pre) [] (run @ post)"
  proof (cases "pre = []")
    case True
    then show ?thesis by (simp add: extract_ascii_def data)
  next
    case False
    then have split: "data = butlast pre @ last pre # (run @ post)" by (simp add: data)
    from False pre have "\<not> printable (last pre)" by simp
    from ascii_runs_reset [OF this, of n 0 "[]" "butlast pre" "run @ post"] False
    show ?thesis by (simp add: extract_ascii_def split)
  qed
  moreover have "ascii_runs n (length pre) [] (run @ post) =
      ascii_runs n (length pre + length run) (map byte_char run) post"
    using ascii_runs_extend [OF run(1), of "[]" n "length pre" post] len(2)
    by (simp add: MAX_STRING_LENGTH_def)
  moreover have "?e \<in> set (ascii_runs n (length pre + length run) (map byte_char run) post)"
    using post run(2) len(1) by (cases post) auto
  ultimately show "?e \<in> set (extract_ascii data n)" by auto
qed

text \<open>Extraction invents nothing and misses nothing: every ASCII string it reports is the printable
  bytes at its offset, and every maximal printable run of at least the minimum length (and at most
  8192) is reported at exactly its offset.\<close>

theorem ascii_extraction_exact:
  "(\<forall>e \<in> set (extract_ascii data n). ascii_at data e)
   \<and> (\<forall>pre run post. data = pre @ run @ post \<longrightarrow> list_all printable run \<longrightarrow> run \<noteq> [] \<longrightarrow>
        n \<le> length run \<longrightarrow> length run \<le> 8192 \<longrightarrow> (pre = [] \<or> \<not> printable (last pre)) \<longrightarrow>
        (post = [] \<or> \<not> printable (hd post)) \<longrightarrow>
        mk_extracted (map byte_char run) (int (length pre)) ''ascii'' \<in> set (extract_ascii data n))"
  by (rule ascii_extraction_core)

theorem ascii_extraction_exact_witness:
  "mk_extracted ''key=42'' 1 ''ascii'' \<in> set (extract_ascii ([0] @ bytes_of ''key=42'' @ [10]) 6)"
  using conjunct2 [OF ascii_extraction_exact, rule_format, of "[0] @ bytes_of ''key=42'' @ [10]" "[0]" "bytes_of ''key=42''" "[10]" 6]
  by (simp add: list_all_iff) (simp add: bytes_of_def printable_def)

subsection \<open>What a scan reports\<close>

lemma keep_first_set: "set (keep_first seen xs) = set xs - set seen"
  by (induction xs arbitrary: seen) auto

lemma keep_first_distinct: "distinct (keep_first seen xs)"
  by (induction xs arbitrary: seen) (auto simp: keep_first_set)

interpretation xs: canonical_sort extracted_key id
  by unfold_locales (simp add: extracted_key_def)

interpretation rs: canonical_sort ru_id ru_id
  by unfold_locales simp

lemma extract_strings_order:
  "extract_strings data n =
     sort_key extracted_key (keep_first [] (extract_utf16le data n @ extract_ascii data n))"
  unfolding extract_strings_def
proof (rule xs.order_irrelevant)
  let ?p = "keep_first [] (extract_ascii data n @ extract_utf16le data n)"
  let ?q = "keep_first [] (extract_utf16le data n @ extract_ascii data n)"
  show "mset ?p = mset ?q"
    by (rule iffD1 [OF set_eq_iff_mset_eq_distinct]) (auto simp: keep_first_distinct keep_first_set)
  show "distinct (map id ?p)" by (simp add: keep_first_distinct)
qed

text \<open>No evidence depends on an order the scanner does not control: listing a pack's rules in
  another order gives the same matches in the same order, and collecting the two encodings in the
  other order gives the same strings.\<close>

theorem scan_order_irrelevant:
  assumes "mset (rp_rules pack) = mset (rp_rules pack')"
    and "distinct (map ru_id (rp_rules pack))"
    and "rp_false_positives pack = rp_false_positives pack'"
  shows "scan_bytes data pack n = scan_bytes data pack' n
    \<and> extract_strings data n =
        sort_key extracted_key (keep_first [] (extract_utf16le data n @ extract_ascii data n))"
proof -
  have "mset (filter ru_enabled (rp_rules pack)) = mset (filter ru_enabled (rp_rules pack'))"
    using assms(1) by simp
  moreover have "distinct (map ru_id (filter ru_enabled (rp_rules pack)))"
    using assms(2) by (rule distinct_map_filter)
  ultimately have "enabled_rules pack = enabled_rules pack'"
    unfolding enabled_rules_def by (rule rs.order_irrelevant)
  moreover have "apply_match r e data pack = apply_match r e data pack'" for r e
    by (intro ext) (simp only: apply_match_def is_known_false_positive_def assms(3))
  ultimately show ?thesis
    by (simp only: scan_bytes_def apply_rule_def extract_strings_order)
qed

definition demo_rule :: "string \<Rightarrow> string \<Rightarrow> rule" where
  "demo_rule i needle =
     \<lparr>ru_id = i, ru_name = i, ru_category = ''secret'', ru_severity = HIGH,
      ru_patterns = [\<lparr>pat_finditer = (\<lambda>s. if starts_with needle s
          then [\<lparr>rm_start = 0, rm_end = length needle, rm_group = Some (Some needle)\<rparr>] else []),
        pat_source = needle\<rparr>],
      ru_confidence = 1 / 2, ru_cwe = None, ru_description = [], ru_remediation = [], ru_tags = [],
      ru_min_entropy = 0, ru_min_length = 0, ru_max_length = 4096, ru_encodings = [''ascii''],
      ru_requires_nearby = [], ru_nearby_window = 120, ru_shape_policy = ''off'',
      ru_rejects_matching = [], ru_require_mixed_case = False, ru_enabled = True\<rparr>"

definition demo_pack :: "rule list \<Rightarrow> rule_pack" where
  "demo_pack rules = \<lparr>rp_version = ''1'', rp_rules = rules, rp_hash = [], rp_false_positives = {}\<rparr>"

theorem scan_order_irrelevant_witness:
  "scan_bytes (bytes_of ''xylophone'') (demo_pack [demo_rule ''a'' ''x'', demo_rule ''b'' ''y'']) 6 =
   scan_bytes (bytes_of ''xylophone'') (demo_pack [demo_rule ''b'' ''y'', demo_rule ''a'' ''x'']) 6"
  using scan_order_irrelevant [of "demo_pack [demo_rule ''a'' ''x'', demo_rule ''b'' ''y'']"
      "demo_pack [demo_rule ''b'' ''y'', demo_rule ''a'' ''x'']" "bytes_of ''xylophone''" 6]
  by (simp add: demo_pack_def demo_rule_def add_mset_commute)

lemma extract_strings_ascii:
  assumes "e \<in> set (extract_strings data n)" "ex_encoding e = ''ascii''"
  shows "ascii_at data e"
proof -
  have wide_enc: "ex_encoding x = ''utf-16le''" if "x \<in> set (wide_runs n i c s bs)" for i c s bs x
    using that by (induction n i c s bs rule: wide_runs.induct)
      (auto simp: mk_extracted_def Let_def split: if_splits)
  have "e \<in> set (extract_ascii data n) \<or> e \<in> set (extract_utf16le data n)"
    using assms(1) by (auto simp: extract_strings_def keep_first_set)
  moreover have "e \<notin> set (extract_utf16le data n)"
    using assms(2) wide_enc by (fastforce simp: extract_utf16le_def)
  ultimately show ?thesis using ascii_extraction_sound by blast
qed

text \<open>A pattern without a capture group: the text of a match is the matched span.\<close>

definition whole_match :: "pattern \<Rightarrow> bool" where
  "whole_match p \<longleftrightarrow> (\<forall>s. \<forall>m \<in> set (pat_finditer p s).
     rm_start m \<le> rm_end m \<and> rm_end m \<le> length s
     \<and> rm_group m = Some (Some (take (rm_end m - rm_start m) (drop (rm_start m) s))))"

lemma apply_match_result:
  assumes "x \<in> set (apply_match r e data pack m)"
  shows "ma_rule_id x = ru_id r" "ma_encoding x = ex_encoding e" "pat_extract m = Some (ma_value x)"
    "ma_value x \<noteq> []" "accepts r (ma_value x)" "\<not> is_known_false_positive pack (ma_value x)"
    "shape_ok r e m (ma_value x)"
    "ma_offset x = nat (ex_offset e) + rm_start m * (if ex_encoding e = ''utf-16le'' then 2 else 1)"
    "ma_context x = context_for data (ma_offset x) (ma_value x)"
  using assms by (auto simp: apply_match_def Let_def split: option.splits if_splits)



end
