(* ===== verification/Correlator.thy ===== *)
theory Correlator
  imports Store Rules_Properties
begin

text \<open>
  From evidence to findings (\<open>core/pipeline/correlator.py\<close>). Confidences and entropies are exact
  rationals, rounded to three digits half to even; SHA-256 is a parameter from a text to its hex
  digest; \<open>fnmatch\<close> is written out.
\<close>

definition ENTROPY_STRONG :: rat where "ENTROPY_STRONG = 9 / 2"
definition ENTROPY_WEAK :: rat where "ENTROPY_WEAK = 5 / 2"
definition CLUSTER_THRESHOLD :: nat where "CLUSTER_THRESHOLD = 20"

subsection \<open>File name patterns\<close>

text \<open>The content of a \<open>[...]\<close> set, after the optional \<open>!\<close>, as ranges of characters.\<close>

fun set_items :: "string list \<Rightarrow> (string \<times> string) list" where
  "set_items (a # b # c # cs) = (if b = ''-'' then (a, c) # set_items cs else (a, a) # set_items (b # c # cs))"
| "set_items (a # cs) = (a, a) # set_items cs"
| "set_items [] = []"

text \<open>The set that opens before \<open>ps\<close>: a \<open>]\<close> right after the opening is an ordinary member.\<close>

definition parse_set :: "string list \<Rightarrow> (bool \<times> (string \<times> string) list \<times> string list) option" where
  "parse_set ps =
     (let neg = (ps \<noteq> [] \<and> hd ps = ''!'');
          body = (if neg then tl ps else ps);
          first = (if body \<noteq> [] \<and> hd body = '']'' then [hd body] else []);
          rest = drop (length first) body;
          inner = takeWhile (\<lambda>c. c \<noteq> '']'') rest
      in if length inner < length rest
         then Some (neg, set_items (first @ inner), drop (Suc (length inner)) rest) else None)"

lemma parse_set_shorter: "parse_set ps = Some (neg, items, rest) \<Longrightarrow> length rest < length ps"
  by (auto simp: parse_set_def Let_def split: if_splits)

definition in_items :: "string \<Rightarrow> (string \<times> string) list \<Rightarrow> bool" where
  "in_items c items = list_ex (\<lambda>(a, b). a \<le> c \<and> c \<le> b) items"

function fnmatch_chars :: "string list \<Rightarrow> string list \<Rightarrow> bool" where
  "fnmatch_chars [] t = (t = [])"
| "fnmatch_chars (p # ps) t =
     (if p = ''*'' then fnmatch_chars ps t \<or> (case t of [] \<Rightarrow> False | c # cs \<Rightarrow> fnmatch_chars (p # ps) cs)
      else case t of
        [] \<Rightarrow> False
      | c # cs \<Rightarrow>
          if p = ''?'' then fnmatch_chars ps cs
          else if p = ''['' then
            (case parse_set ps of
               None \<Rightarrow> c = p \<and> fnmatch_chars ps cs
             | Some (neg, items, rest) \<Rightarrow> in_items c items \<noteq> neg \<and> fnmatch_chars rest cs)
          else c = p \<and> fnmatch_chars ps cs)"
  by pat_completeness auto
termination
  by (relation "measure (\<lambda>(p, t). length p + length t)")
     (auto dest!: parse_set_shorter)

definition fnmatch :: "string \<Rightarrow> string \<Rightarrow> bool" where
  "fnmatch name pat = fnmatch_chars (utf8_chars pat) (utf8_chars name)"

subsection \<open>Suppressions\<close>

definition index_suppressions :: "suppression list \<Rightarrow> (string \<times> string, string list) dict" where
  "index_suppressions ss =
     map (\<lambda>(k, xs). (k, map su_path_pattern xs)) (group_by (\<lambda>s. (su_rule_id s, su_value_hash s)) ss)"

definition is_suppressed :: "(string \<times> string, string list) dict \<Rightarrow> string \<Rightarrow> string \<Rightarrow> string \<Rightarrow> bool" where
  "is_suppressed index rule_id value_hash path =
     (case map_of index (rule_id, value_hash) of
        None \<Rightarrow> False
      | Some patterns \<Rightarrow> list_ex (\<lambda>p. p = ''*'' \<or> fnmatch path p) patterns)"

subsection \<open>Scoring\<close>

definition entropies_of :: "evidence list \<Rightarrow> rat list" where
  "entropies_of items = List.map_filter ev_entropy items"

definition entropy_bonus :: "rule \<Rightarrow> evidence list \<Rightarrow> rat" where
  "entropy_bonus r items =
     (if entropies_of items = [] then 0
      else (let peak = Max (set (entropies_of items)) in
        if peak \<ge> ENTROPY_STRONG then 15 / 100
        else if peak \<le> ENTROPY_WEAK \<and> ru_min_entropy r = 0 then - 15 / 100 else 0))"

definition score :: "rule \<Rightarrow> evidence list \<Rightarrow> rat" where
  "score r items =
     (let confidence = ru_confidence r + entropy_bonus r items
            + (if length items > 1 then 5 / 100 else 0)
            + (if list_ex (\<lambda>e. ev_encoding e = Some ''utf-16le'') items then 5 / 100 else 0)
      in round3_rat (min (max confidence (5 / 100)) (99 / 100)))"

subsection \<open>Grouping\<close>

record correlation =
  co_findings :: "finding list"
  co_locations :: "finding_location list"
  co_suppressed :: nat

definition counts_by_severity :: "correlation \<Rightarrow> (severity, nat) dict" where
  "counts_by_severity c = tally f_severity (co_findings c)"

definition or_zero :: "int option \<Rightarrow> int" where
  "or_zero x = (case x of None \<Rightarrow> 0 | Some n \<Rightarrow> n)"

definition evidence_sort_key :: "evidence \<Rightarrow> string \<times> string \<times> string \<times> int" where
  "evidence_sort_key e = (ev_rule_id e, ev_value_hash e, ev_artifact_id e, or_zero (ev_offset e))"

definition group_key :: "evidence \<Rightarrow> string \<times> string" where
  "group_key e = (ev_rule_id e, ev_value_hash e)"

definition path_of :: "(string, string) dict \<Rightarrow> string \<Rightarrow> string" where
  "path_of paths i = (case map_of paths i of None \<Rightarrow> [] | Some p \<Rightarrow> p)"

definition place :: "evidence \<Rightarrow> string \<times> int option" where
  "place e = (ev_artifact_id e, ev_offset e)"

text \<open>The first item at each key.\<close>

fun first_by :: "('a \<Rightarrow> 'k) \<Rightarrow> 'k list \<Rightarrow> 'a list \<Rightarrow> 'a list" where
  "first_by f seen [] = []"
| "first_by f seen (x # xs) =
     (if f x \<in> set seen then first_by f seen xs else x # first_by f (f x # seen) xs)"

definition location_of :: "string \<Rightarrow> string \<Rightarrow> (string, string) dict \<Rightarrow> evidence \<Rightarrow> finding_location" where
  "location_of finding_id run_id paths e =
     \<lparr>fl_finding_id = finding_id, fl_run_id = run_id, fl_artifact_id = ev_artifact_id e,
      fl_path_in_tree = path_of paths (ev_artifact_id e), fl_offset = ev_offset e,
      fl_section = ev_section e, fl_encoding = ev_encoding e, fl_xref_function = None\<rparr>"

definition finding_of ::
  "string \<Rightarrow> string \<Rightarrow> rule \<Rightarrow> string \<Rightarrow> rat \<Rightarrow> evidence \<Rightarrow> finding" where
  "finding_of finding_id run_id r value_hash confid primary =
     \<lparr>f_id = finding_id, f_run_id = run_id, f_rule_id = ru_id r, f_category = ru_category r,
      f_title = ru_name r, f_severity = ru_severity r, f_confidence = confid,
      f_value_masked = ev_value_masked primary, f_value_hash = value_hash,
      f_entropy = ev_entropy primary, f_context_snippet = ev_context primary, f_cwe = ru_cwe r,
      f_tags = ru_tags r, f_remediation_md = Some (ru_remediation r), f_detected_by = D_RULE,
      f_status = F_OPEN, f_llm_verdict = None, f_llm_reasoning = None, f_llm_model = None\<rparr>"

text \<open>One group of evidence; \<open>items\<close> is not empty.\<close>

definition correlate_group ::
  "(string \<Rightarrow> string) \<Rightarrow> string \<Rightarrow> (string, rule) dict \<Rightarrow> (string \<times> string, string list) dict
     \<Rightarrow> (string, string) dict \<Rightarrow> (string \<times> string) \<times> evidence list \<Rightarrow> correlation \<Rightarrow> correlation" where
  "correlate_group sha run_id rules index paths grp result =
     (case grp of ((rule_id, value_hash), items) \<Rightarrow>
        (case map_of rules rule_id of
           None \<Rightarrow> result
         | Some r \<Rightarrow>
             (let primary = hd items; anchor_path = path_of paths (ev_artifact_id primary) in
              if is_suppressed index rule_id value_hash anchor_path
              then result\<lparr>co_suppressed := co_suppressed result + 1\<rparr>
              else
                (let finding_id = compute_id sha rule_id value_hash anchor_path (ev_offset primary) in
                 result\<lparr>co_findings := co_findings result
                          @ [finding_of finding_id run_id r value_hash (score r items) primary],
                        co_locations := co_locations result
                          @ map (location_of finding_id run_id paths) (first_by place [] items)\<rparr>))))"

subsection \<open>Clustering\<close>

definition dict_list :: "('k, 'a list) dict \<Rightarrow> 'k \<Rightarrow> 'a list" where
  "dict_list d k = (case map_of d k of None \<Rightarrow> [] | Some xs \<Rightarrow> xs)"

definition location_place :: "finding_location \<Rightarrow> string \<times> int option" where
  "location_place l = (fl_artifact_id l, fl_offset l)"

definition cluster_hash :: "(string \<Rightarrow> string) \<Rightarrow> string \<Rightarrow> finding list \<Rightarrow> string" where
  "cluster_hash sha rule_id ordered =
     sha (''cluster:'' @ rule_id @ '':'' @ join '','' (map f_value_hash ordered))"

definition cluster_finding ::
  "(string \<Rightarrow> string) \<Rightarrow> string \<Rightarrow> rule \<Rightarrow> (string, finding_location list) dict \<Rightarrow> finding list \<Rightarrow> finding" where
  "cluster_finding sha run_id r by_finding ordered =
     (let anchor = hd ordered; hash = cluster_hash sha (ru_id r) ordered;
          anchor_path = (case dict_list by_finding (f_id anchor) of
              [] \<Rightarrow> [] | l # _ \<Rightarrow> fl_path_in_tree l)
      in \<lparr>f_id = compute_id sha (ru_id r) hash anchor_path None, f_run_id = run_id, f_rule_id = ru_id r,
          f_category = ru_category r,
          f_title = ru_name r @ '' ('' @ show_nat (length ordered) @ '' distinct values)'',
          f_severity = ru_severity r, f_confidence = Max (set (map f_confidence ordered)),
          f_value_masked = show_nat (length ordered) @ '' values, e.g. ''
            @ join '', '' (map f_value_masked (take 3 ordered)),
          f_value_hash = hash, f_entropy = f_entropy anchor,
          f_context_snippet = f_context_snippet anchor, f_cwe = ru_cwe r,
          f_tags = ru_tags r @ [''clustered''], f_remediation_md = Some (ru_remediation r),
          f_detected_by = D_RULE, f_status = F_OPEN, f_llm_verdict = None, f_llm_reasoning = None,
          f_llm_model = None\<rparr>)"

definition relocate :: "string \<Rightarrow> string \<Rightarrow> finding_location \<Rightarrow> finding_location" where
  "relocate finding_id run_id l =
     l\<lparr>fl_finding_id := finding_id, fl_run_id := run_id, fl_xref_function := None\<rparr>"

definition cluster_rule ::
  "(string \<Rightarrow> string) \<Rightarrow> string \<Rightarrow> (string, rule) dict \<Rightarrow> (string, finding_location list) dict
     \<Rightarrow> string \<times> finding list \<Rightarrow> finding list \<times> finding_location list" where
  "cluster_rule sha run_id rules by_finding grp =
     (case grp of (rule_id, findings) \<Rightarrow>
        if length findings \<le> CLUSTER_THRESHOLD
        then (findings, concat (map (\<lambda>f. dict_list by_finding (f_id f)) findings))
        else
          (let ordered = sort_key f_id findings;
               cluster = cluster_finding sha run_id (the (map_of rules rule_id)) by_finding ordered
           in ([cluster],
               map (relocate (f_id cluster) run_id)
                 (first_by location_place []
                   (concat (map (\<lambda>f. dict_list by_finding (f_id f)) ordered))))))"

definition cluster_repetitive_rules ::
  "(string \<Rightarrow> string) \<Rightarrow> string \<Rightarrow> (string, rule) dict \<Rightarrow> correlation \<Rightarrow> correlation" where
  "cluster_repetitive_rules sha run_id rules result =
     (let by_rule = sort_key fst (group_by f_rule_id (co_findings result));
          by_finding = group_by fl_finding_id (co_locations result);
          parts = map (cluster_rule sha run_id rules by_finding) by_rule
      in result\<lparr>co_findings := concat (map fst parts), co_locations := concat (map snd parts)\<rparr>)"

definition finding_sort_key :: "finding \<Rightarrow> nat \<times> string \<times> string" where
  "finding_sort_key f = (severity_rank (f_severity f), f_rule_id f, f_id f)"

definition correlate ::
  "(string \<Rightarrow> string) \<Rightarrow> string \<Rightarrow> evidence list \<Rightarrow> rule_pack \<Rightarrow> (string, string) dict \<Rightarrow> suppression list
     \<Rightarrow> correlation" where
  "correlate sha run_id evidence pack paths suppressions =
     (let rules = dict_of ru_id id (enabled_rules pack);
          index = index_suppressions suppressions;
          groups = group_by group_key (sort_key evidence_sort_key evidence);
          grouped = fold (correlate_group sha run_id rules index paths) (sort_key fst groups)
            \<lparr>co_findings = [], co_locations = [], co_suppressed = 0\<rparr>;
          result = cluster_repetitive_rules sha run_id rules grouped
      in result\<lparr>co_findings := sort_key finding_sort_key (co_findings result)\<rparr>)"

subsection \<open>Facts\<close>

interpretation ek: canonical_sort evidence_sort_key evidence_sort_key
  by unfold_locales simp

lemma first_by_keys: "f ` set (first_by f seen xs) = f ` set xs - set seen"
  by (induction xs arbitrary: seen) auto

lemma first_by_subset: "set (first_by f seen xs) \<subseteq> set xs"
  by (induction xs arbitrary: seen) auto

lemma first_by_mem: "x \<in> set xs \<Longrightarrow> \<exists>y \<in> set (first_by f [] xs). f y = f x"
  using first_by_keys [of f "[]" xs] by (metis Diff_empty image_iff list.set(1))

lemma dict_list_group_by: "dict_list (group_by f xs) k = filter (\<lambda>x. f x = k) xs"
proof -
  have "k \<notin> f ` set xs \<Longrightarrow> filter (\<lambda>x. f x = k) xs = []" by (auto simp: filter_empty_conv)
  then show ?thesis by (auto simp: dict_list_def group_by_get)
qed

text \<open>What one group contributes.\<close>

definition group_part ::
  "(string \<Rightarrow> string) \<Rightarrow> string \<Rightarrow> (string, rule) dict \<Rightarrow> (string \<times> string, string list) dict
     \<Rightarrow> (string, string) dict \<Rightarrow> (string \<times> string) \<times> evidence list \<Rightarrow> correlation" where
  "group_part sha run_id rules index paths g =
     correlate_group sha run_id rules index paths g \<lparr>co_findings = [], co_locations = [], co_suppressed = 0\<rparr>"

lemma correlate_group_part:
  fixes sha run_id rules index paths g
  defines "part \<equiv> group_part sha run_id rules index paths g"
  shows "correlate_group sha run_id rules index paths g res =
     \<lparr>co_findings = co_findings res @ co_findings part, co_locations = co_locations res @ co_locations part,
      co_suppressed = co_suppressed res + co_suppressed part\<rparr>"
  by (cases g) (auto simp: part_def group_part_def correlate_group_def Let_def split: option.splits)

lemma fold_correlate:
  fixes sha run_id rules index paths
  defines "part \<equiv> group_part sha run_id rules index paths"
  shows "co_findings (fold (correlate_group sha run_id rules index paths) gs res) =
      co_findings res @ concat (map (\<lambda>g. co_findings (part g)) gs)"
    "co_locations (fold (correlate_group sha run_id rules index paths) gs res) =
      co_locations res @ concat (map (\<lambda>g. co_locations (part g)) gs)"
  by (induction gs arbitrary: res) (simp_all add: correlate_group_part part_def)

lemma rules_index: "map_of (dict_of ru_id id rs) i = Some r \<Longrightarrow> ru_id r = i \<and> r \<in> set rs"
  by (auto simp: dict_of_get dest: find_SomeD)

text \<open>The items of a group, in the order the correlator sees them, and the path that anchors it.\<close>

definition group_items :: "evidence list \<Rightarrow> string \<times> string \<Rightarrow> evidence list" where
  "group_items evidence k = filter (\<lambda>e. group_key e = k) (sort_key evidence_sort_key evidence)"

definition group_anchor :: "evidence list \<Rightarrow> (string, string) dict \<Rightarrow> string \<times> string \<Rightarrow> string" where
  "group_anchor evidence paths k = path_of paths (ev_artifact_id (hd (group_items evidence k)))"

lemma group_mem:
  "(k, items) \<in> set (sort_key fst (group_by group_key (sort_key evidence_sort_key evidence))) \<longleftrightarrow>
     k \<in> group_key ` set evidence \<and> items = group_items evidence k"
  by (simp add: group_by_mem group_items_def)

lemma part_findings:
  "f \<in> set (co_findings (group_part sha run_id rules index paths ((i, h), items))) \<Longrightarrow>
     \<exists>r fid p. map_of rules i = Some r \<and> f = finding_of fid run_id r h (score r items) p"
  by (auto simp: group_part_def correlate_group_def finding_of_def Let_def split: option.splits if_splits)

text \<open>A place \<open>(i, off)\<close> is reported under a finding of the rule.\<close>

definition reported_at :: "string \<Rightarrow> string \<times> int option \<Rightarrow> finding list \<Rightarrow> finding_location list \<Rightarrow> bool" where
  "reported_at rule_id where_at fs ls \<longleftrightarrow>
     (\<exists>f \<in> set fs. \<exists>l \<in> set ls. f_rule_id f = rule_id \<and> fl_finding_id l = f_id f \<and> location_place l = where_at)"

lemma part_reports:
  assumes "map_of rules i = Some r" "ru_id r = i" "e \<in> set items"
    and "\<not> is_suppressed index i h (path_of paths (ev_artifact_id (hd items)))"
  shows "reported_at i (place e)
    (co_findings (group_part sha run_id rules index paths ((i, h), items)))
    (co_locations (group_part sha run_id rules index paths ((i, h), items)))"
proof -
  obtain y where "y \<in> set (first_by place [] items)" "place y = place e"
    using first_by_mem [OF assms(3)] by blast
  then show ?thesis
    using assms(1,2,4)
    by (auto simp: reported_at_def group_part_def correlate_group_def Let_def finding_of_def location_of_def
        location_place_def place_def intro!: bexI [of _ y])
qed

lemma cluster_reports:
  fixes sha run_id rules res
  assumes "reported_at i p (co_findings res) (co_locations res)" "map_of rules i = Some r" "ru_id r = i"
  defines "res' \<equiv> cluster_repetitive_rules sha run_id rules res"
  shows "reported_at i p (co_findings res') (co_locations res')"
proof -
  obtain f l where f: "f \<in> set (co_findings res)" "f_rule_id f = i"
    and l: "l \<in> set (co_locations res)" "fl_finding_id l = f_id f" "location_place l = p"
    using assms(1) by (auto simp: reported_at_def)
  define fs where "fs = filter (\<lambda>f. f_rule_id f = i) (co_findings res)"
  define by_finding where "by_finding = group_by fl_finding_id (co_locations res)"
  define part where "part = cluster_rule sha run_id rules by_finding (i, fs)"
  have group: "(i, fs) \<in> set (group_by f_rule_id (co_findings res))"
    using f by (auto simp: group_by_mem fs_def)
  have fin: "f \<in> set fs" using f by (simp add: fs_def)
  have lin: "l \<in> set (dict_list by_finding (f_id f))" using l by (simp add: by_finding_def dict_list_group_by)
  have "reported_at i p (fst part) (snd part)"
  proof (cases "length fs \<le> CLUSTER_THRESHOLD")
    case True
    then have "f \<in> set (fst part)" "l \<in> set (snd part)"
      using fin lin by (auto simp: part_def cluster_rule_def)
    with f(2) l show ?thesis by (auto simp: reported_at_def)
  next
    case False
    define ordered where "ordered = sort_key f_id fs"
    define cluster where "cluster = cluster_finding sha run_id r by_finding ordered"
    have "l \<in> set (concat (map (\<lambda>f. dict_list by_finding (f_id f)) ordered))"
      using fin lin by (auto simp: ordered_def)
    from first_by_mem [OF this, of location_place] obtain y where
      y: "y \<in> set (first_by location_place [] (concat (map (\<lambda>f. dict_list by_finding (f_id f)) ordered)))"
        "location_place y = p"
      using l(3) by auto
    have p: "part = ([cluster], map (relocate (f_id cluster) run_id)
          (first_by location_place [] (concat (map (\<lambda>f. dict_list by_finding (f_id f)) ordered))))"
      using False assms(2) by (simp add: part_def cluster_rule_def Let_def cluster_def ordered_def)
    have "f_rule_id cluster = i" using assms(3) by (simp add: cluster_def cluster_finding_def Let_def)
    moreover have "location_place (relocate (f_id cluster) run_id y) = p"
      using y(2) by (simp add: location_place_def relocate_def)
    ultimately show ?thesis using y(1) unfolding p reported_at_def
      by (intro bexI [of _ cluster] bexI [of _ "relocate (f_id cluster) run_id y"]) (auto simp: relocate_def)
  qed
  moreover have "set (fst part) \<subseteq> set (co_findings res')" "set (snd part) \<subseteq> set (co_locations res')"
    using group by (auto simp: res'_def cluster_repetitive_rules_def Let_def part_def by_finding_def)
  ultimately show ?thesis unfolding reported_at_def by blast
qed

subsection \<open>Properties\<close>

text \<open>Scheduling cannot reach the report: evidence rows that arrive in another order correlate to
  the same findings, locations and count, provided no two rows agree on rule, value, artifact and
  offset.\<close>

theorem correlate_order_irrelevant:
  assumes "mset evidence = mset evidence'" "distinct (map evidence_sort_key evidence)"
  shows "correlate sha run_id evidence pack paths ss = correlate sha run_id evidence' pack paths ss"
  using ek.order_irrelevant [OF assms] by (simp only: correlate_def)

text \<open>Correlation loses nothing: every piece of evidence of an enabled rule is reported, at its own
  artifact and offset, under a finding of its own rule, unless its group is suppressed; merging equal
  values and collapsing a rule that fires en masse keep every place.\<close>

theorem every_place_is_reported:
  assumes "e \<in> set evidence" "ev_rule_id e \<in> ru_id ` set (enabled_rules pack)"
    and "\<not> is_suppressed (index_suppressions ss) (ev_rule_id e) (ev_value_hash e)
           (group_anchor evidence paths (group_key e))"
  shows "reported_at (ev_rule_id e) (place e)
    (co_findings (correlate sha run_id evidence pack paths ss))
    (co_locations (correlate sha run_id evidence pack paths ss))"
proof -
  define rules where "rules = dict_of ru_id id (enabled_rules pack)"
  define index where "index = index_suppressions ss"
  define gs where "gs = sort_key fst (group_by group_key (sort_key evidence_sort_key evidence))"
  define part where "part = group_part sha run_id rules index paths"
  define grouped where "grouped = fold (correlate_group sha run_id rules index paths) gs
      \<lparr>co_findings = [], co_locations = [], co_suppressed = 0\<rparr>"
  define items where "items = group_items evidence (group_key e)"
  obtain r where r: "map_of rules (ev_rule_id e) = Some r"
    using assms(2) by (metis dict_of_get_None not_None_eq rules_def)
  then have rid: "ru_id r = ev_rule_id e" by (auto simp: rules_def dest: rules_index)
  have g: "((ev_rule_id e, ev_value_hash e), items) \<in> set gs"
    using assms(1) group_mem [of "group_key e" items evidence]
    by (simp add: gs_def items_def group_key_def)
  have ein: "e \<in> set items" using assms(1) by (simp add: items_def group_items_def)
  have "\<not> is_suppressed index (ev_rule_id e) (ev_value_hash e) (path_of paths (ev_artifact_id (hd items)))"
    using assms(3) by (simp add: index_def group_anchor_def items_def)
  from part_reports [OF r rid ein this] have
    "reported_at (ev_rule_id e) (place e) (co_findings (part ((ev_rule_id e, ev_value_hash e), items)))
       (co_locations (part ((ev_rule_id e, ev_value_hash e), items)))"
    by (simp add: part_def)
  then have "reported_at (ev_rule_id e) (place e) (co_findings grouped) (co_locations grouped)"
    using g unfolding grouped_def fold_correlate reported_at_def part_def by fastforce
  from cluster_reports [OF this r rid, of sha run_id] show ?thesis
    by (simp add: correlate_def Let_def rules_def index_def gs_def grouped_def reported_at_def)
qed

lemma round_half_even_bounds:
  assumes "of_int a \<le> x" "x \<le> of_int b"
  shows "a \<le> round_half_even x" "round_half_even x \<le> b"
proof -
  have fl: "a \<le> \<lfloor>x\<rfloor>" using assms(1) by (simp add: le_floor_iff)
  then show "a \<le> round_half_even x" by (simp add: round_half_even_def Let_def)
  show "round_half_even x \<le> b"
  proof (cases "\<lfloor>x\<rfloor> < b")
    case True
    then show ?thesis by (simp add: round_half_even_def Let_def)
  next
    case False
    have "\<lfloor>x\<rfloor> \<le> b" using assms(2) by (simp add: floor_le_iff)
    then have fb: "\<lfloor>x\<rfloor> = b" using False by simp
    moreover have "of_int \<lfloor>x\<rfloor> \<le> x" by simp
    ultimately have "x = of_int b" using assms(2) by simp
    then show ?thesis by (simp add: round_half_even_def)
  qed
qed

lemma score_bounds: "5 / 100 \<le> score r items \<and> score r items \<le> 99 / 100"
proof -
  have "5 / 100 \<le> round3_rat (min (max x (5 / 100)) (99 / 100)) \<and> round3_rat (min (max x (5 / 100)) (99 / 100)) \<le> 99 / 100" for x
  proof -
    let ?y = "min (max x (5 / 100)) (99 / 100) * 1000"
    have "of_int 50 \<le> ?y" "?y \<le> of_int 990" by (auto simp: min_def max_def)
    from round_half_even_bounds [OF this] have
      "(50 :: rat) \<le> of_int (round_half_even ?y)" "of_int (round_half_even ?y) \<le> (990 :: rat)"
      by (metis of_int_le_iff of_int_numeral)+
    then show ?thesis by (simp add: round3_rat_def)
  qed
  then show ?thesis by (simp add: score_def Let_def)
qed

text \<open>What a rule, and nothing else, decides about a finding.\<close>

definition from_rule :: "rule_pack \<Rightarrow> finding \<Rightarrow> bool" where
  "from_rule pack f \<longleftrightarrow>
     (\<exists>r \<in> set (enabled_rules pack). f_rule_id f = ru_id r \<and> f_severity f = ru_severity r
        \<and> f_category f = ru_category r \<and> f_cwe f = ru_cwe r)
     \<and> 5 / 100 \<le> f_confidence f \<and> f_confidence f \<le> 99 / 100
     \<and> f_detected_by f = D_RULE \<and> f_status f = F_OPEN \<and> f_llm_verdict f = None"

lemma finding_of_rule:
  "r \<in> set (enabled_rules pack) \<Longrightarrow> from_rule pack (finding_of i run r h (score r items) p)"
  using score_bounds by (auto simp: from_rule_def finding_of_def)

lemma cluster_of_rule:
  assumes "r \<in> set (enabled_rules pack)" "fs \<noteq> []" "list_all (from_rule pack) fs"
  shows "from_rule pack (cluster_finding sha run r d fs)"
proof -
  have "Max (set (map f_confidence fs)) \<in> set (map f_confidence fs)" using assms(2) by (intro Max_in) auto
  then obtain f where "f \<in> set fs" "Max (set (map f_confidence fs)) = f_confidence f" by auto
  with assms(1,3) show ?thesis by (auto simp: from_rule_def cluster_finding_def Let_def list_all_iff)
qed

lemma grouped_from_rules:
  "list_all (from_rule pack)
     (co_findings (fold (correlate_group sha run_id (dict_of ru_id id (enabled_rules pack)) index paths) gs
        \<lparr>co_findings = [], co_locations = [], co_suppressed = 0\<rparr>))"
  unfolding fold_correlate list_all_iff
proof
  fix f assume "f \<in> set (co_findings \<lparr>co_findings = [], co_locations = [], co_suppressed = 0\<rparr> @
      concat (map (\<lambda>g. co_findings (group_part sha run_id (dict_of ru_id id (enabled_rules pack)) index paths g)) gs))"
  then obtain i h items where
    "f \<in> set (co_findings (group_part sha run_id (dict_of ru_id id (enabled_rules pack)) index paths ((i, h), items)))"
    by auto
  from part_findings [OF this] obtain r fid p where
    r: "map_of (dict_of ru_id id (enabled_rules pack)) i = Some r"
    and f: "f = finding_of fid run_id r h (score r items) p" by blast
  show "from_rule pack f"
    unfolding f by (rule finding_of_rule) (use r rules_index in blast)
qed

text \<open>The deterministic core of a report: every finding is an open finding of an enabled rule whose
  severity, category and weakness class are that rule's own, with a confidence between 0.05 and 0.99
  and no trace of a model; and no rule takes more than twenty rows of a report.\<close>

theorem findings_come_from_rules:
  "list_all (from_rule pack) (co_findings (correlate sha run_id evidence pack paths ss))
   \<and> length (filter (\<lambda>f. f_rule_id f = i) (co_findings (correlate sha run_id evidence pack paths ss))) \<le> 20"
proof -
  define rules where "rules = dict_of ru_id id (enabled_rules pack)"
  define grouped where "grouped = fold (correlate_group sha run_id rules (index_suppressions ss) paths)
      (sort_key fst (group_by group_key (sort_key evidence_sort_key evidence)))
      \<lparr>co_findings = [], co_locations = [], co_suppressed = 0\<rparr>"
  define by_rule where "by_rule = sort_key fst (group_by f_rule_id (co_findings grouped))"
  define part where "part = (\<lambda>g. fst (cluster_rule sha run_id rules (group_by fl_finding_id (co_locations grouped)) g))"
  have result: "set (co_findings (correlate sha run_id evidence pack paths ss)) = set (concat (map part by_rule))"
    "filter P (co_findings (correlate sha run_id evidence pack paths ss)) =
       sort_key finding_sort_key (filter P (concat (map part by_rule)))" for P
    by (simp_all add: correlate_def Let_def cluster_repetitive_rules_def rules_def grouped_def by_rule_def
        part_def comp_def filter_sort)
  have all: "list_all (from_rule pack) (co_findings grouped)"
    unfolding grouped_def rules_def by (rule grouped_from_rules)
  have one: "list_all (\<lambda>f. from_rule pack f \<and> f_rule_id f = fst g) (part g) \<and> length (part g) \<le> 20"
    if g: "g \<in> set by_rule" for g
  proof -
    obtain j fs where gj: "g = (j, fs)" by fastforce
    then have fs: "fs = filter (\<lambda>f. f_rule_id f = j) (co_findings grouped)" "fs \<noteq> []"
      using g by (auto simp: by_rule_def group_by_mem filter_empty_conv)
    then have fr: "list_all (from_rule pack) fs" using all by (auto simp: list_all_iff)
    show ?thesis
    proof (cases "length fs \<le> CLUSTER_THRESHOLD")
      case True
      then show ?thesis using fs(1) fr
        by (auto simp: part_def cluster_rule_def gj list_all_iff CLUSTER_THRESHOLD_def)
    next
      case False
      obtain f where f: "f \<in> set fs" using fs(2) by (cases fs) auto
      then have "f_rule_id f = j" by (simp add: fs(1))
      with f fr obtain r0 where "r0 \<in> set (enabled_rules pack)" "ru_id r0 = j"
        by (auto simp: list_all_iff from_rule_def)
      then obtain r where r: "map_of rules j = Some r"
        using dict_of_get_None [of ru_id id "enabled_rules pack" j] by (auto simp: rules_def)
      have r': "ru_id r = j" "r \<in> set (enabled_rules pack)" using r by (auto simp: rules_def dest: rules_index)
      have "part g = [cluster_finding sha run_id r (group_by fl_finding_id (co_locations grouped)) (sort_key f_id fs)]"
        using False r by (simp add: part_def cluster_rule_def gj Let_def)
      moreover have "sort_key f_id fs \<noteq> []" using fs(2) by (metis length_0_conv length_sort)
      ultimately show ?thesis
        using cluster_of_rule [OF r'(2), of "sort_key f_id fs"] fr r'(1)
        by (simp add: list_all_iff gj cluster_finding_def Let_def)
    qed
  qed
  have "list_all (from_rule pack) (co_findings (correlate sha run_id evidence pack paths ss))"
    unfolding list_all_iff result(1) using one by (auto simp: list_all_iff)
  moreover have "length (filter (\<lambda>f. f_rule_id f = i) (concat (map part gs))) \<le> 20"
    if "set gs \<subseteq> set by_rule" "distinct (map fst gs)" for gs
    using that
  proof (induction gs)
    case (Cons g gs)
    have mine: "list_all (\<lambda>f. f_rule_id f = fst g) (part g)" "length (part g) \<le> 20"
      using one [of g] Cons.prems(1) by (auto simp: list_all_iff)
    show ?case
    proof (cases "fst g = i")
      case True
      have "f_rule_id f \<noteq> i" if f: "f \<in> set (concat (map part gs))" for f
      proof -
        from f obtain g' where g': "g' \<in> set gs" "f \<in> set (part g')" by auto
        then have "f_rule_id f = fst g'" using one [of g'] Cons.prems(1) by (auto simp: list_all_iff)
        moreover have "fst g' \<in> fst ` set gs" using g'(1) by simp
        moreover have "fst g \<notin> fst ` set gs" using Cons.prems(2) by simp
        ultimately show ?thesis using True by metis
      qed
      then have "filter (\<lambda>f. f_rule_id f = i) (concat (map part gs)) = []" by (auto simp: filter_empty_conv)
      moreover have "length (filter (\<lambda>f. f_rule_id f = i) (part g)) \<le> 20"
        by (rule le_trans [OF length_filter_le mine(2)])
      ultimately show ?thesis by simp
    next
      case False
      then have "filter (\<lambda>f. f_rule_id f = i) (part g) = []" using mine(1) by (auto simp: filter_empty_conv list_all_iff)
      then show ?thesis using Cons by simp
    qed
  qed simp
  moreover have "distinct (map fst by_rule)"
  proof -
    have "mset (map fst by_rule) = mset (map fst (group_by f_rule_id (co_findings grouped)))"
      by (simp add: by_rule_def)
    then show ?thesis using group_by_distinct mset_eq_imp_distinct_iff by blast
  qed
  ultimately show ?thesis by (simp add: result(2))
qed

subsection \<open>Concrete runs\<close>

definition demo_evidence :: "string \<Rightarrow> int \<Rightarrow> evidence" where
  "demo_evidence i off = \<lparr>ev_run_id = ''r'', ev_artifact_id = i, ev_analyzer = ''static'', ev_rule_id = ''key'',
     ev_value_hash = ''h'', ev_value_masked = ''****'', ev_value_plaintext = None, ev_offset = Some off,
     ev_section = None, ev_encoding = Some ''ascii'', ev_entropy = None, ev_context = None,
     ev_context_plaintext = None\<rparr>"

theorem correlate_order_irrelevant_witness:
  "correlate (\<lambda>s. s) ''r'' [demo_evidence ''1'' 4, demo_evidence ''2'' 9] (demo_pack [demo_rule ''key'' ''x'']) [] []
   = correlate (\<lambda>s. s) ''r'' [demo_evidence ''2'' 9, demo_evidence ''1'' 4] (demo_pack [demo_rule ''key'' ''x'']) [] []"
  by (rule correlate_order_irrelevant) (simp_all add: demo_evidence_def evidence_sort_key_def)

lemma demo_enabled: "enabled_rules (demo_pack [demo_rule ''key'' ''x'']) = [demo_rule ''key'' ''x'']"
  by (simp add: enabled_rules_def demo_pack_def demo_rule_def)

theorem every_place_is_reported_witness:
  "reported_at ''key'' (''2'', Some 9)
    (co_findings (correlate (\<lambda>s. s) ''r'' [demo_evidence ''1'' 4, demo_evidence ''2'' 9]
       (demo_pack [demo_rule ''key'' ''x'']) [] []))
    (co_locations (correlate (\<lambda>s. s) ''r'' [demo_evidence ''1'' 4, demo_evidence ''2'' 9]
       (demo_pack [demo_rule ''key'' ''x'']) [] []))"
proof -
  have "ev_rule_id (demo_evidence ''2'' 9) \<in> ru_id ` set (enabled_rules (demo_pack [demo_rule ''key'' ''x'']))"
    unfolding demo_enabled by (simp add: demo_evidence_def demo_rule_def)
  from every_place_is_reported [OF _ this, of "[demo_evidence ''1'' 4, demo_evidence ''2'' 9]" "[]" "[]"]
  show ?thesis
    by (simp add: demo_evidence_def place_def index_suppressions_def group_by_def is_suppressed_def)
qed

text \<open>The id of a finding with several places is anchored at the artifact whose identifier sorts
  first, and artifact identifiers are random: two scans of the same tree, whose only difference is
  which of two files got the smaller identifier, give the same secret the ids of two different
  anchors.\<close>

theorem finding_id_follows_artifact_ids:
  "map f_id (co_findings (correlate sha ''r'' [demo_evidence ''1'' 4, demo_evidence ''2'' 4]
      (demo_pack [demo_rule ''key'' ''x'']) [(''1'', p), (''2'', q)] []))
    = [compute_id sha ''key'' ''h'' p (Some 4)]
   \<and> map f_id (co_findings (correlate sha ''r'' [demo_evidence ''1'' 4, demo_evidence ''2'' 4]
      (demo_pack [demo_rule ''key'' ''x'']) [(''1'', q), (''2'', p)] []))
    = [compute_id sha ''key'' ''h'' q (Some 4)]"
proof -
  have groups: "sort_key fst (group_by group_key (sort_key evidence_sort_key [demo_evidence ''1'' 4, demo_evidence ''2'' 4]))
      = [((''key'', ''h''), [demo_evidence ''1'' 4, demo_evidence ''2'' 4])]"
    by (simp add: demo_evidence_def evidence_sort_key_def group_by_def dict_append_def group_key_def)
  have rules: "dict_of ru_id id [demo_rule ''key'' ''x''] = [(''key'', demo_rule ''key'' ''x'')]"
    by (simp add: dict_of_def demo_rule_def)
  have id: "ru_id (demo_rule ''key'' ''x'') = ''key''" by (simp add: demo_rule_def)
  have "map f_id (co_findings (correlate sha ''r'' [demo_evidence ''1'' 4, demo_evidence ''2'' 4]
      (demo_pack [demo_rule ''key'' ''x'']) [(''1'', a), (''2'', b)] []))
    = [compute_id sha ''key'' ''h'' a (Some 4)]" for a b
    unfolding correlate_def Let_def demo_enabled groups rules
    by (simp add: correlate_group_def Let_def index_suppressions_def group_by_def is_suppressed_def
        cluster_repetitive_rules_def cluster_rule_def CLUSTER_THRESHOLD_def finding_of_def dict_append_def
        path_of_def id) (simp add: demo_evidence_def)
  then show ?thesis by blast
qed

end
