(* ===== verification/Stage_Logs.thy ===== *)
theory Stage_Logs
  imports Rules_Properties
begin

text \<open>
  Keeping what the analyzer containers print (\<open>core/pipeline/logs.py\<close>): rendering and redacting a
  stage's log, storing it, and publishing it while the stage runs. The object store is the dict of
  its objects; whether its bucket can be ensured and an object put is part of each call. Clock
  readings are arguments, in seconds.
\<close>

definition MAX_STORED_LOG_BYTES :: nat where "MAX_STORED_LOG_BYTES = 256 * 1024"
definition DRIVER_TRUNCATION_MARKER :: string where
  "DRIVER_TRUNCATION_MARKER = ''[bare: log truncated]'' @ [CHR 0x0A]"
definition STORED_TRUNCATION_NOTE :: string where
  "STORED_TRUNCATION_NOTE = CHR 0x0A # ''[bare: stored log truncated]'' @ [CHR 0x0A]"
definition LIVE_COST_MULTIPLE :: rat where "LIVE_COST_MULTIPLE = 4"
definition LIVE_FAILURE_BACKOFF_S :: rat where "LIVE_FAILURE_BACKOFF_S = 30"

subsection \<open>Decoding\<close>

text \<open>\<open>decode("utf-8", "replace")\<close>: each maximal invalid part becomes U+FFFD. \<open>follow b\<close> is the list
  of ranges of the bytes that must follow a lead byte.\<close>

definition follow :: "byte \<Rightarrow> (nat \<times> nat) list option" where
  "follow b =
     (let n = unat b; any = (128, 191) in
      if n < 128 then Some []
      else if 194 \<le> n \<and> n \<le> 223 then Some [any]
      else if n = 224 then Some [(160, 191), any]
      else if n = 237 then Some [(128, 159), any]
      else if 225 \<le> n \<and> n \<le> 239 then Some [any, any]
      else if n = 240 then Some [(144, 191), any, any]
      else if 241 \<le> n \<and> n \<le> 243 then Some [any, any, any]
      else if n = 244 then Some [(128, 143), any, any]
      else None)"

definition REPLACEMENT :: string where "REPLACEMENT = [CHR 0xEF, CHR 0xBF, CHR 0xBD]"

text \<open>The longest run of \<open>bs\<close> that matches the ranges.\<close>

fun matched :: "(nat \<times> nat) list \<Rightarrow> bytes \<Rightarrow> nat" where
  "matched ((lo, hi) # rs) (b # bs) = (if lo \<le> unat b \<and> unat b \<le> hi then Suc (matched rs bs) else 0)"
| "matched rs bs = 0"

function utf8_replace :: "bytes \<Rightarrow> string" where
  "utf8_replace [] = []"
| "utf8_replace (b # bs) =
     (case follow b of
        None \<Rightarrow> REPLACEMENT @ utf8_replace bs
      | Some rs \<Rightarrow>
          (let n = matched rs bs in
           if n = length rs then map byte_char (b # take n bs) @ utf8_replace (drop n bs)
           else REPLACEMENT @ utf8_replace (drop n bs)))"
  by pat_completeness auto
termination by (relation "measure length") auto

text \<open>\<open>encoded[:n].decode("utf-8", "ignore")\<close> of a valid text: the characters that fit in \<open>n\<close> bytes.\<close>

fun cut_chars :: "nat \<Rightarrow> string list \<Rightarrow> string" where
  "cut_chars n [] = []"
| "cut_chars n (u # us) = (if length u \<le> n then u @ cut_chars (n - length u) us else [])"

definition utf8_cut :: "nat \<Rightarrow> string \<Rightarrow> string" where
  "utf8_cut n s = cut_chars n (utf8_chars s)"

subsection \<open>Redaction\<close>

definition wide_text :: "string \<Rightarrow> string" where
  "wide_text v = concat (map (\<lambda>c. [c, CHR 0x00]) v)"

definition redact_value :: "string \<Rightarrow> string \<Rightarrow> string" where
  "redact_value value s =
     replace_all (wide_text value) (mask_value value) (replace_all value (mask_value value) s)"

definition redacted_values :: "rule_pack \<Rightarrow> string \<Rightarrow> string list" where
  "redacted_values pack s =
     sort_key (\<lambda>v. - int (length v))
       (keep_first [] (map ma_value (scan_bytes (bytes_of s) pack MIN_STRING_LENGTH)))"

definition redact_log_text :: "rule_pack \<Rightarrow> string \<Rightarrow> string" where
  "redact_log_text pack s = (if s = [] then s else fold redact_value (redacted_values pack s) s)"

subsection \<open>Rendering\<close>

text \<open>\<open>text[: text.rfind("\n") + 1]\<close>.\<close>

definition upto_last_newline :: "string \<Rightarrow> string" where
  "upto_last_newline s = rev (dropWhile (\<lambda>c. c \<noteq> CHR 0x0A) (rev s))"

definition drop_partial_line :: "string \<Rightarrow> string" where
  "drop_partial_line s =
     upto_last_newline (if s \<noteq> [] \<and> last s = CHR 0x0A then butlast s else s)"

text \<open>The part of a stream that may be shown, and whether the driver cut it.\<close>

definition visible_text :: "bool \<Rightarrow> string \<Rightarrow> string \<times> bool" where
  "visible_text live s =
     (if ends_with DRIVER_TRUNCATION_MARKER s
      then (drop_partial_line (take (length s - length DRIVER_TRUNCATION_MARKER) s) @ DRIVER_TRUNCATION_MARKER,
            True)
      else (if live then upto_last_newline s else s, False))"

definition cap_text :: "string \<Rightarrow> string \<times> bool" where
  "cap_text s =
     (if length s > MAX_STORED_LOG_BYTES
      then (utf8_cut MAX_STORED_LOG_BYTES s @ STORED_TRUNCATION_NOTE, True)
      else (s, False))"

definition headline :: "string \<Rightarrow> string" where
  "headline stream = ''--- '' @ stream @ '' ---'' @ [CHR 0x0A]"

definition render_stream :: "rule_pack \<Rightarrow> bool \<Rightarrow> string \<Rightarrow> bytes \<Rightarrow> string \<times> bool" where
  "render_stream pack live name raw =
     (let (shown, cut) = visible_text live (utf8_replace raw);
          (kept, capped) = cap_text (redact_log_text pack shown)
      in (headline name @ kept, cut \<or> capped))"

definition render_stage_log :: "bytes \<Rightarrow> bytes \<Rightarrow> rule_pack \<Rightarrow> bool \<Rightarrow> string \<times> bool" where
  "render_stage_log stdout stderr pack live =
     (let (out, cut1) = render_stream pack live ''stdout'' stdout;
          (err, cut2) = render_stream pack live ''stderr'' stderr
      in (join [CHR 0x0A] [out, err], cut1 \<or> cut2))"

definition stage_log_key :: "string \<Rightarrow> string \<Rightarrow> string" where
  "stage_log_key run_id stage_id = ''logs/'' @ run_id @ ''/'' @ stage_id @ ''.txt''"

subsection \<open>Storing\<close>

type_synonym objects = "(string, bytes) dict"

definition store_stage_log ::
  "bool \<Rightarrow> objects \<Rightarrow> string \<Rightarrow> string \<Rightarrow> bytes \<Rightarrow> bytes \<Rightarrow> rule_pack \<Rightarrow> (string option \<times> nat \<times> bool) \<times> objects" where
  "store_stage_log available store run_id stage_id stdout stderr pack =
     (let (document, truncated) = render_stage_log stdout stderr pack False;
          key = stage_log_key run_id stage_id in
      if available then ((Some key, length document, truncated), AList.update key (bytes_of document) store)
      else ((None, 0, False), store))"

subsection \<open>The live log\<close>

record live_log =
  ll_interval_s :: rat
  ll_next_at :: "rat option"
  ll_seen_bytes :: "nat option"
  ll_published :: "string option"
  ll_bucket_ready :: bool

definition new_live_log :: "rat \<Rightarrow> live_log" where
  "new_live_log interval_s =
     \<lparr>ll_interval_s = interval_s, ll_next_at = None, ll_seen_bytes = None, ll_published = None,
      ll_bucket_ready = False\<rparr>"

text \<open>One offer: the streams so far, the two clock readings, and whether the store answers.\<close>

record offer =
  of_stdout :: bytes
  of_stderr :: bytes
  of_started :: rat
  of_finished :: rat
  of_ensure_ok :: bool
  of_put_ok :: bool

text \<open>Whether the offer is rendered at all.\<close>

definition attempts_offer :: "live_log \<Rightarrow> offer \<Rightarrow> bool" where
  "attempts_offer l x \<longleftrightarrow>
     (case ll_next_at l of None \<Rightarrow> True | Some t \<Rightarrow> t \<le> of_started x)
     \<and> ll_seen_bytes l \<noteq> Some (length (of_stdout x) + length (of_stderr x))"

text \<open>\<open>__call__\<close>: the new state and the document put, if any.\<close>

definition live_call :: "rule_pack \<Rightarrow> offer \<Rightarrow> live_log \<Rightarrow> string option \<times> live_log" where
  "live_call pack x l =
     (if \<not> attempts_offer l x then (None, l)
      else
        (let document = fst (render_stage_log (of_stdout x) (of_stderr x) pack True);
             fresh = (ll_published l \<noteq> Some document);
             ensured = (ll_bucket_ready l \<or> \<not> fresh \<or> of_ensure_ok x);
             stored = (\<not> fresh \<or> (ensured \<and> of_put_ok x));
             l' = l\<lparr>ll_bucket_ready := ll_bucket_ready l \<or> (fresh \<and> of_ensure_ok x)\<rparr>
         in if \<not> stored
            then (None, l'\<lparr>ll_next_at := Some (of_finished x + LIVE_FAILURE_BACKOFF_S)\<rparr>)
            else (if fresh then Some document else None,
              l'\<lparr>ll_published := Some document,
                 ll_seen_bytes := Some (length (of_stdout x) + length (of_stderr x)),
                 ll_next_at := Some (of_finished x
                    + max (ll_interval_s l) (LIVE_COST_MULTIPLE * (of_finished x - of_started x)))\<rparr>)))"

text \<open>A sequence of offers: the offers that were rendered and the documents that were put.\<close>

fun live_run :: "rule_pack \<Rightarrow> offer list \<Rightarrow> live_log \<Rightarrow> offer list \<times> string list \<times> live_log" where
  "live_run pack [] l = ([], [], l)"
| "live_run pack (x # xs) l =
     (let (put, l') = live_call pack x l; (tried, puts, l'') = live_run pack xs l' in
      ((if attempts_offer l x then x # tried else tried),
       (case put of None \<Rightarrow> puts | Some d \<Rightarrow> d # puts), l''))"

subsection \<open>Bounds\<close>

lemma cut_chars_length: "length (cut_chars n us) \<le> n"
proof (induction n us rule: cut_chars.induct)
  case (2 n u us)
  then show ?case by (cases "length u \<le> n") auto
qed simp

lemma cap_text_length: "length (fst (cap_text s)) \<le> MAX_STORED_LOG_BYTES + length STORED_TRUNCATION_NOTE"
  using cut_chars_length [of MAX_STORED_LOG_BYTES "utf8_chars s"]
  by (simp add: cap_text_def utf8_cut_def)

lemma render_stream_length:
  "length (fst (render_stream pack live name raw)) \<le> length name + 9 + MAX_STORED_LOG_BYTES + length STORED_TRUNCATION_NOTE"
proof -
  obtain shown cut where v: "visible_text live (utf8_replace raw) = (shown, cut)" by fastforce
  obtain kept capped where c: "cap_text (redact_log_text pack shown) = (kept, capped)" by fastforce
  have "length kept \<le> MAX_STORED_LOG_BYTES + length STORED_TRUNCATION_NOTE"
    using cap_text_length [of "redact_log_text pack shown"] c by simp
  then show ?thesis by (simp add: render_stream_def v c headline_def)
qed

text \<open>A chatty analyzer cannot grow what is kept: whatever a container prints, the stored document
  is at most twice 256 KiB plus its headlines and truncation notes, 524380 bytes.\<close>

theorem stored_log_bounded:
  "length (fst (render_stage_log stdout stderr pack live)) \<le> 524380"
proof -
  obtain a c1 where a: "render_stream pack live ''stdout'' stdout = (a, c1)" by fastforce
  obtain b c2 where b: "render_stream pack live ''stderr'' stderr = (b, c2)" by fastforce
  have "length a \<le> 6 + 9 + 262144 + 30" "length b \<le> 6 + 9 + 262144 + 30"
    using render_stream_length [of pack live "''stdout''" stdout] a
      render_stream_length [of pack live "''stderr''" stderr] b
    by (simp_all add: MAX_STORED_LOG_BYTES_def STORED_TRUNCATION_NOTE_def)
  then show ?thesis by (simp add: render_stage_log_def a b)
qed

subsection \<open>Redaction hides what the scan finds\<close>

text \<open>Replacing a value by its mask cannot create an occurrence of another value: the mask is a
  prefix, bullets and a suffix of what it replaces.\<close>

lemma replace_keeps_absence:
  assumes "w = a @ x @ b" "y = a @ sep @ b" "\<forall>c \<in> set sep. c \<notin> set v" "sep \<noteq> []" "v \<noteq> []" "w \<noteq> []"
  shows "contains v (p @ replace_all w y s) \<Longrightarrow> contains v (p @ s)"
  using assms
proof (induction w y s arbitrary: p rule: replace_all.induct)
  case (2 w y c cs)
  note prems = 2(4-9)
  show ?case
  proof (cases "w \<noteq> [] \<and> starts_with w (c # cs)")
    case True
    then obtain zs where zs: "c # cs = w @ zs" by (auto simp: starts_with_append)
    have rest: "drop (length w - 1) cs = zs" using zs prems(6) by (cases w) auto
    have "contains v ((p @ a) @ sep @ (b @ replace_all w y zs))"
      using 2(3) True rest prems(2) by simp
    from contains_cut [OF prems(3,4,5) this] show ?thesis
    proof
      assume "contains v (p @ a)"
      then have "contains v ((p @ a) @ (x @ b @ zs))" by (auto simp: contains_iff) (metis append.assoc)
      then show ?thesis by (simp add: zs prems(1))
    next
      assume "contains v (b @ replace_all w y zs)"
      then have "contains v (b @ zs)" using 2(1) [OF True _ prems, of b] rest by simp
      then have "contains v ((p @ a @ x) @ (b @ zs))" by (auto simp: contains_iff) (metis append.assoc)
      then show ?thesis by (simp add: zs prems(1))
    qed
  next
    case False
    have "contains v ((p @ [c]) @ replace_all w y cs)" using 2(3) False by auto
    from 2(2) [OF False this prems] show ?thesis by simp
  qed
qed simp

lemma mask_shape:
  assumes "w \<noteq> []"
  obtains a x b n where "w = a @ x @ b" "mask_value w = a @ bullets n @ b" "bullets n \<noteq> []"
proof (cases "length w \<le> 12")
  case True
  with assms that [of "[]" w "[]" "length w"] show thesis by (simp add: mask_value_def)
next
  case False
  have "w = take (length w - 4) w @ drop (length w - 4) w" by simp
  also have "take (length w - 4) w = take 4 (take (length w - 4) w) @ drop 4 (take (length w - 4) w)"
    by (rule append_take_drop_id [symmetric])
  also have "take 4 (take (length w - 4) w) = take 4 w"
  proof -
    have "4 \<le> length w - 4" using False by linarith
    then show ?thesis by (simp add: min_absorb1)
  qed
  finally have w: "w = take 4 w @ drop 4 (take (length w - 4) w) @ drop (length w - 4) w"
    by (simp only: append.assoc)
  show thesis
    using False by (intro that [OF w, of "min (length w - 8) 12"]) (simp_all add: mask_value_def)
qed

definition hidable :: "string \<Rightarrow> bool" where
  "hidable v \<longleftrightarrow> v \<noteq> [] \<and> ascii_only v \<and> (12 < length v \<longrightarrow> borderless v)"

lemma mask_keeps_absence:
  assumes "ascii_only v" "v \<noteq> []" "w \<noteq> []" "\<not> contains v s"
  shows "\<not> contains v (replace_all w (mask_value w) s)"
proof -
  obtain a x b n where w: "w = a @ x @ b" "mask_value w = a @ bullets n @ b" "bullets n \<noteq> []"
    using mask_shape [OF assms(3)] .
  have "\<forall>c \<in> set (bullets n). c \<notin> set v" using ascii_no_bullet [OF assms(1)] by blast
  from replace_keeps_absence [OF w(1,2) this w(3) assms(2,3), of "[]" s] assms(4) show ?thesis by auto
qed

lemma masked_gone: "hidable v \<Longrightarrow> \<not> contains v (replace_all v (mask_value v) s)"
  using masked_absent [OF refl, of v s] masked_absent_short [of v s]
  by (cases "length v \<le> 12") (auto simp: hidable_def)

lemma replace_absent: "w \<noteq> [] \<Longrightarrow> \<not> contains w s \<Longrightarrow> replace_all w y s = s"
  by (induction s) auto

lemma replace_set: "set (replace_all w y s) \<subseteq> set s \<union> set y"
proof (induction w y s rule: replace_all.induct)
  case (2 w y c cs)
  then show ?case using set_drop_subset [of "length w - 1" cs] by auto
qed simp

lemma contains_set: "contains w s \<Longrightarrow> set w \<subseteq> set s"
  by (auto simp: contains_iff)

lemma mask_set: "set (mask_value v) \<subseteq> set v \<union> {CHR 0xE2, CHR 0x80, CHR 0xA2}"
  by (auto simp: mask_value_def dest: in_set_takeD in_set_dropD dest!: subsetD [OF bullets_set])

text \<open>In a text without NUL, only the plain form can occur.\<close>

lemma redact_no_nul:
  assumes "v \<noteq> []" "CHR 0x00 \<notin> set s"
  shows "redact_value v s = replace_all v (mask_value v) s" "CHR 0x00 \<notin> set (redact_value v s)"
proof -
  have "CHR 0x00 \<notin> set (replace_all v (mask_value v) s)"
  proof (cases "contains v s")
    case True
    then have "CHR 0x00 \<notin> set (mask_value v)" using contains_set [OF True] mask_set [of v] assms(2) by auto
    then show ?thesis using replace_set [of v "mask_value v" s] assms(2) by blast
  next
    case False
    then show ?thesis using assms by (simp add: replace_absent)
  qed
  moreover have "CHR 0x00 \<in> set (wide_text v)" "wide_text v \<noteq> []"
    using assms(1) by (cases v; simp add: wide_text_def)+
  ultimately show eq: "redact_value v s = replace_all v (mask_value v) s"
    using contains_set by (fastforce simp: redact_value_def intro: replace_absent)
  then show "CHR 0x00 \<notin> set (redact_value v s)"
    using \<open>CHR 0x00 \<notin> set (replace_all v (mask_value v) s)\<close> by simp
qed

lemma redact_fold_keeps:
  assumes "ascii_only v" "v \<noteq> []"
  shows "\<forall>w \<in> set ws. w \<noteq> [] \<Longrightarrow> CHR 0x00 \<notin> set s \<Longrightarrow> \<not> contains v s \<Longrightarrow> \<not> contains v (fold redact_value ws s)"
proof (induction ws arbitrary: s)
  case (Cons w ws)
  then have w: "w \<noteq> []" by simp
  note r = redact_no_nul [OF w Cons.prems(2)]
  have "\<not> contains v (redact_value w s)"
    unfolding r(1) using mask_keeps_absence [OF assms w Cons.prems(3)] .
  with Cons r show ?case by simp
qed simp

lemma redact_fold_hides:
  assumes "hidable v"
  shows "\<forall>w \<in> set ws. w \<noteq> [] \<Longrightarrow> CHR 0x00 \<notin> set s \<Longrightarrow> v \<in> set ws \<Longrightarrow> \<not> contains v (fold redact_value ws s)"
proof (induction ws arbitrary: s)
  case (Cons w ws)
  then have w: "w \<noteq> []" by simp
  note r = redact_no_nul [OF w Cons.prems(2)]
  show ?case
  proof (cases "v = w")
    case True
    then have "\<not> contains v (redact_value w s)" using masked_gone [OF assms] r(1) by simp
    with redact_fold_keeps [of v ws "redact_value w s"] assms Cons.prems(1) r show ?thesis
      by (simp add: hidable_def)
  next
    case False
    with Cons r show ?thesis by simp
  qed
qed simp

lemma scan_values_nonempty: "x \<in> set (scan_bytes data pack n) \<Longrightarrow> ma_value x \<noteq> []"
  by (auto simp: scan_bytes_def Let_def apply_rule_def dest: apply_match_result(4))


lemma scan_bytesI:
  "r \<in> set (enabled_rules pack) \<Longrightarrow> e \<in> set (extract_strings data n) \<Longrightarrow> ex_encoding e \<in> set (ru_encodings r) \<Longrightarrow>
   p \<in> set (ru_patterns r) \<Longrightarrow> x \<in> set (pat_finditer p (ex_value e)) \<Longrightarrow> m \<in> set (apply_match r e data pack x) \<Longrightarrow>
   m \<in> set (scan_bytes data pack n)"
  unfolding scan_bytes_def Let_def apply_rule_def by auto


end
