(* ===== verification/Sandbox_Spec.thy ===== *)
theory Sandbox_Spec
  imports Effects Py_Values Py_Dict Unpack_Fs
begin

text \<open>
  The typed description of an analyzer container (\<open>core/sandbox/spec.py\<close>) and the result of running
  one (\<open>core/sandbox/base.py\<close>). \<open>validate_spec\<close> returns the list of errors the \<open>SpecViolation\<close> would
  carry. Mount targets are \<open>PurePosixPath\<close>s in normal form. A field change of \<open>with_overrides\<close> is a
  constructor named after its field.
\<close>

definition ANALYZER_UID :: nat where "ANALYZER_UID = 10001"
definition ANALYZER_GID :: nat where "ANALYZER_GID = 10001"
definition DEFAULT_TIMEOUT_S :: int where "DEFAULT_TIMEOUT_S = 900"
definition DEFAULT_GRACE_S :: int where "DEFAULT_GRACE_S = 10"
definition INPUT_DIR :: string where "INPUT_DIR = ''/input''"
definition OUTPUT_DIR :: string where "OUTPUT_DIR = ''/output''"
definition GIB :: nat where "GIB = 1024 ^ 3"

datatype network_mode = NET_NONE | NET_SINKHOLE
datatype mount_mode = READ_ONLY | READ_WRITE

record bind_mount =
  bm_source :: string
  bm_target :: string
  bm_mode :: mount_mode

record tmpfs_mount =
  tm_target :: string
  tm_size_bytes :: nat
  tm_noexec :: bool
  tm_nosuid :: bool
  tm_nodev :: bool
  tm_uid :: nat
  tm_gid :: nat
  tm_mode :: nat

text \<open>The \<open>:o\<close> format.\<close>

fun show_octal :: "nat \<Rightarrow> string" where
  "show_octal n = (if n < 8 then [digit_char n] else show_octal (n div 8) @ [digit_char (n mod 8)])"

declare show_octal.simps [simp del]

definition to_options :: "tmpfs_mount \<Rightarrow> string" where
  "to_options t =
     join '',''
       ([''size='' @ show_nat (tm_size_bytes t), ''mode='' @ show_octal (tm_mode t),
         ''uid='' @ show_nat (tm_uid t), ''gid='' @ show_nat (tm_gid t)]
        @ (if tm_noexec t then [''noexec''] else [])
        @ (if tm_nosuid t then [''nosuid''] else [])
        @ (if tm_nodev t then [''nodev''] else []))"

record ulimit =
  ul_name :: string
  ul_soft :: nat
  ul_hard :: "nat option"

definition hard_or_soft :: "ulimit \<Rightarrow> nat" where
  "hard_or_soft u = (case ul_hard u of Some h \<Rightarrow> h | None \<Rightarrow> ul_soft u)"

definition tmpfs_at :: "string \<Rightarrow> nat \<Rightarrow> bool \<Rightarrow> tmpfs_mount" where
  "tmpfs_at target bytes noexec =
     \<lparr>tm_target = target, tm_size_bytes = bytes, tm_noexec = noexec, tm_nosuid = True, tm_nodev = True,
      tm_uid = ANALYZER_UID, tm_gid = ANALYZER_GID, tm_mode = 0x1F8\<rparr>"

definition default_tmpfs :: "tmpfs_mount list" where
  "default_tmpfs = [tmpfs_at ''/tmp'' (2 * GIB) True, tmpfs_at ''/work'' (8 * GIB) False]"

definition default_ulimits :: "ulimit list" where
  "default_ulimits =
     [\<lparr>ul_name = ''nofile'', ul_soft = 4096, ul_hard = Some 4096\<rparr>,
      \<lparr>ul_name = ''fsize'', ul_soft = 2 * GIB, ul_hard = Some (2 * GIB)\<rparr>,
      \<lparr>ul_name = ''nproc'', ul_soft = 512, ul_hard = Some 512\<rparr>]"

record sandbox_spec =
  sp_image :: string
  sp_run_id :: string
  sp_analyzer :: string
  sp_command :: "string list"
  sp_env :: "(string \<times> string) list"
  sp_network :: network_mode
  sp_read_only_rootfs :: bool
  sp_user :: string
  sp_cap_drop :: "string list"
  sp_cap_add :: "string list"
  sp_no_new_privileges :: bool
  sp_seccomp_profile :: "string option"
  sp_mem_limit_bytes :: int
  sp_nano_cpus :: int
  sp_pids_limit :: int
  sp_tmpfs :: "tmpfs_mount list"
  sp_ulimits :: "ulimit list"
  sp_timeout_s :: int
  sp_grace_s :: int
  sp_auto_remove :: bool
  sp_mounts :: "bind_mount list"

text \<open>\<open>SandboxSpec(image=..., run_id=..., analyzer=...)\<close> with every other field at its default.\<close>

definition default_spec :: "string \<Rightarrow> string \<Rightarrow> string \<Rightarrow> sandbox_spec" where
  "default_spec img run_id analyzer =
     \<lparr>sp_image = img, sp_run_id = run_id, sp_analyzer = analyzer, sp_command = [], sp_env = [],
      sp_network = NET_NONE, sp_read_only_rootfs = True,
      sp_user = show_nat ANALYZER_UID @ '':'' @ show_nat ANALYZER_GID,
      sp_cap_drop = [''ALL''], sp_cap_add = [], sp_no_new_privileges = True,
      sp_seccomp_profile = Some ''sandbox/profiles/analyzer.json'',
      sp_mem_limit_bytes = int (4 * GIB), sp_nano_cpus = 2000000000, sp_pids_limit = 512,
      sp_tmpfs = default_tmpfs, sp_ulimits = default_ulimits,
      sp_timeout_s = DEFAULT_TIMEOUT_S, sp_grace_s = DEFAULT_GRACE_S, sp_auto_remove = True,
      sp_mounts = []\<rparr>"

subsection \<open>Overrides\<close>

datatype spec_change =
    C_image string | C_run_id string | C_analyzer string | C_command "string list"
  | C_env "(string \<times> string) list" | C_network network_mode | C_read_only_rootfs bool
  | C_user string | C_cap_drop "string list" | C_cap_add "string list" | C_no_new_privileges bool
  | C_seccomp_profile "string option" | C_mem_limit_bytes int | C_nano_cpus int | C_pids_limit int
  | C_tmpfs "tmpfs_mount list" | C_ulimits "ulimit list" | C_timeout_s int | C_grace_s int
  | C_auto_remove bool | C_mounts "bind_mount list"

fun change_key :: "spec_change \<Rightarrow> string" where
  "change_key (C_network _) = ''network''"
| "change_key (C_read_only_rootfs _) = ''read_only_rootfs''"
| "change_key (C_user _) = ''user''"
| "change_key (C_cap_drop _) = ''cap_drop''"
| "change_key (C_no_new_privileges _) = ''no_new_privileges''"
| "change_key (C_image _) = ''image''"
| "change_key (C_run_id _) = ''run_id''"
| "change_key (C_analyzer _) = ''analyzer''"
| "change_key (C_command _) = ''command''"
| "change_key (C_env _) = ''env''"
| "change_key (C_cap_add _) = ''cap_add''"
| "change_key (C_seccomp_profile _) = ''seccomp_profile''"
| "change_key (C_mem_limit_bytes _) = ''mem_limit_bytes''"
| "change_key (C_nano_cpus _) = ''nano_cpus''"
| "change_key (C_pids_limit _) = ''pids_limit''"
| "change_key (C_tmpfs _) = ''tmpfs''"
| "change_key (C_ulimits _) = ''ulimits''"
| "change_key (C_timeout_s _) = ''timeout_s''"
| "change_key (C_grace_s _) = ''grace_s''"
| "change_key (C_auto_remove _) = ''auto_remove''"
| "change_key (C_mounts _) = ''mounts''"

fun apply_change :: "spec_change \<Rightarrow> sandbox_spec \<Rightarrow> sandbox_spec" where
  "apply_change (C_image x) s = s\<lparr>sp_image := x\<rparr>"
| "apply_change (C_run_id x) s = s\<lparr>sp_run_id := x\<rparr>"
| "apply_change (C_analyzer x) s = s\<lparr>sp_analyzer := x\<rparr>"
| "apply_change (C_command x) s = s\<lparr>sp_command := x\<rparr>"
| "apply_change (C_env x) s = s\<lparr>sp_env := x\<rparr>"
| "apply_change (C_network x) s = s\<lparr>sp_network := x\<rparr>"
| "apply_change (C_read_only_rootfs x) s = s\<lparr>sp_read_only_rootfs := x\<rparr>"
| "apply_change (C_user x) s = s\<lparr>sp_user := x\<rparr>"
| "apply_change (C_cap_drop x) s = s\<lparr>sp_cap_drop := x\<rparr>"
| "apply_change (C_cap_add x) s = s\<lparr>sp_cap_add := x\<rparr>"
| "apply_change (C_no_new_privileges x) s = s\<lparr>sp_no_new_privileges := x\<rparr>"
| "apply_change (C_seccomp_profile x) s = s\<lparr>sp_seccomp_profile := x\<rparr>"
| "apply_change (C_mem_limit_bytes x) s = s\<lparr>sp_mem_limit_bytes := x\<rparr>"
| "apply_change (C_nano_cpus x) s = s\<lparr>sp_nano_cpus := x\<rparr>"
| "apply_change (C_pids_limit x) s = s\<lparr>sp_pids_limit := x\<rparr>"
| "apply_change (C_tmpfs x) s = s\<lparr>sp_tmpfs := x\<rparr>"
| "apply_change (C_ulimits x) s = s\<lparr>sp_ulimits := x\<rparr>"
| "apply_change (C_timeout_s x) s = s\<lparr>sp_timeout_s := x\<rparr>"
| "apply_change (C_grace_s x) s = s\<lparr>sp_grace_s := x\<rparr>"
| "apply_change (C_auto_remove x) s = s\<lparr>sp_auto_remove := x\<rparr>"
| "apply_change (C_mounts x) s = s\<lparr>sp_mounts := x\<rparr>"

definition guarded_fields :: "string list" where
  "guarded_fields = [''network'', ''read_only_rootfs'', ''user'', ''cap_drop'', ''no_new_privileges'']"

definition with_overrides :: "spec_change list \<Rightarrow> sandbox_spec \<Rightarrow> string + sandbox_spec" where
  "with_overrides changes s =
     (let weakened = filter (\<lambda>k. k \<in> set (map change_key changes)) guarded_fields in
      if weakened \<noteq> []
      then Inl (''refusing to weaken isolation via with_overrides: ''
             @ py_repr (PList (map PStr (sort weakened)))
             @ ''; construct a new SandboxSpec explicitly if this is really intended'')
      else Inr (fold apply_change changes s))"

definition spec_labels :: "sandbox_spec \<Rightarrow> (string \<times> string) list" where
  "spec_labels s =
     [(''bare.run'', sp_run_id s), (''bare.analyzer'', sp_analyzer s), (''bare.managed'', ''true'')]"

subsection \<open>Validation\<close>

definition slashed :: "string \<Rightarrow> string" where
  "slashed = map (\<lambda>c. if c = CHR 0x5C then CHR ''/'' else c)"

definition check_error :: "bool \<Rightarrow> string \<Rightarrow> string list" where
  "check_error c e = (if c then [e] else [])"

definition mount_errors :: "bind_mount \<Rightarrow> string list" where
  "mount_errors m =
     (let src = slashed (bm_source m) in
      check_error (ends_with ''docker.sock'' src \<or> contains ''/var/run/docker'' src)
        ''refusing to mount the Docker socket into an analyzer''
      @ check_error (bm_target m = OUTPUT_DIR \<and> bm_mode m \<noteq> READ_WRITE) (OUTPUT_DIR @ '' must be writable'')
      @ check_error (bm_target m = INPUT_DIR \<and> bm_mode m \<noteq> READ_ONLY) (INPUT_DIR @ '' must be read-only''))"

definition writable_targets :: "sandbox_spec \<Rightarrow> string list" where
  "writable_targets s = map bm_target (filter (\<lambda>m. bm_mode m = READ_WRITE) (sp_mounts s))"

definition validate_spec :: "sandbox_spec \<Rightarrow> string list" where
  "validate_spec s =
     check_error (sp_user s \<in> {''0:0'', ''root'', ''0'', ''''}) ''analyzers must not run as root''
     @ check_error (''ALL'' \<notin> set (sp_cap_drop s)) ''cap_drop must include ALL''
     @ check_error (sp_cap_add s \<noteq> [])
         (''cap_add is not permitted for analyzers: '' @ py_repr (PList (map PStr (sp_cap_add s))))
     @ check_error (\<not> sp_no_new_privileges s) ''no_new_privileges must be set''
     @ check_error (\<not> sp_read_only_rootfs s) ''rootfs must be read-only''
     @ check_error (sp_timeout_s s \<le> 0) ''timeout_s must be positive''
     @ check_error (sp_grace_s s < 0) ''grace_s must not be negative''
     @ check_error (sp_pids_limit s \<le> 0) ''pids_limit must be positive''
     @ check_error (sp_mem_limit_bytes s \<le> 0) ''mem_limit_bytes must be positive''
     @ check_error (sp_run_id s = [] \<or> sp_analyzer s = [])
         ''run_id and analyzer are required for reaper labelling''
     @ concat (map mount_errors (sp_mounts s))
     @ check_error (length (writable_targets s) > 1)
         (''at most one writable mount is allowed, got [''
          @ join '', '' (map (\<lambda>t. ''PurePosixPath('' @ repr_str t @ '')'') (writable_targets s)) @ '']'')"

definition violation_message :: "sandbox_spec \<Rightarrow> string list \<Rightarrow> string" where
  "violation_message s errors =
     ''invalid SandboxSpec for analyzer '' @ repr_str (sp_analyzer s) @ '': '' @ join ''; '' errors"

subsection \<open>Results\<close>

datatype sandbox_status = SB_COMPLETED | SB_TIMEOUT | SB_OOM | SB_START_FAILED | SB_ERROR

definition sandbox_is_degraded :: "sandbox_status \<Rightarrow> bool" where
  "sandbox_is_degraded s \<longleftrightarrow> s \<noteq> SB_COMPLETED"

record sandbox_result =
  sr_status :: sandbox_status
  sr_exit_code :: "int option"
  sr_stdout :: bytes
  sr_stderr :: bytes
  sr_container_id :: "string option"
  sr_image_digest :: "string option"
  sr_error :: "string option"
  sr_duration_s :: rat

definition result_ok :: "sandbox_result \<Rightarrow> bool" where
  "result_ok r \<longleftrightarrow> sr_status r = SB_COMPLETED \<and> sr_exit_code r = Some 0"

definition failure_result :: "sandbox_status \<Rightarrow> string \<Rightarrow> string option \<Rightarrow> rat \<Rightarrow> sandbox_result" where
  "failure_result status error container_id duration =
     \<lparr>sr_status = status, sr_exit_code = None, sr_stdout = [], sr_stderr = [],
      sr_container_id = container_id, sr_image_digest = None, sr_error = Some error,
      sr_duration_s = max duration 0\<rparr>"

record managed_container =
  mc_container_id :: string
  mc_run_id :: string
  mc_analyzer :: string
  mc_created_us :: int
  mc_running :: bool

subsection \<open>Properties\<close>

lemma check_error_Nil [simp]: "check_error c e = [] \<longleftrightarrow> \<not> c"
  by (simp add: check_error_def)

lemma show_nat_uid: "show_nat ANALYZER_UID = ''10001''"
  by (simp add: ANALYZER_UID_def show_nat.simps digit_char_def char_of_def bit_0)

text \<open>A spec inside the boundary: everything a validated spec guarantees.\<close>

definition locked_down :: "sandbox_spec \<Rightarrow> bool" where
  "locked_down s \<longleftrightarrow>
     sp_user s \<notin> {''0:0'', ''root'', ''0'', ''''} \<and> ''ALL'' \<in> set (sp_cap_drop s) \<and> sp_cap_add s = []
     \<and> sp_no_new_privileges s \<and> sp_read_only_rootfs s \<and> 0 < sp_timeout_s s \<and> 0 \<le> sp_grace_s s
     \<and> 0 < sp_pids_limit s \<and> 0 < sp_mem_limit_bytes s \<and> sp_run_id s \<noteq> [] \<and> sp_analyzer s \<noteq> []
     \<and> (\<forall>m \<in> set (sp_mounts s).
          \<not> ends_with ''docker.sock'' (slashed (bm_source m))
          \<and> (bm_target m = OUTPUT_DIR \<longrightarrow> bm_mode m = READ_WRITE)
          \<and> (bm_target m = INPUT_DIR \<longrightarrow> bm_mode m = READ_ONLY))
     \<and> length (filter (\<lambda>m. bm_mode m = READ_WRITE) (sp_mounts s)) \<le> 1"

lemma mount_errors_Nil:
  "mount_errors m = [] \<longleftrightarrow>
     \<not> ends_with ''docker.sock'' (slashed (bm_source m)) \<and> \<not> contains ''/var/run/docker'' (slashed (bm_source m))
     \<and> (bm_target m = OUTPUT_DIR \<longrightarrow> bm_mode m = READ_WRITE)
     \<and> (bm_target m = INPUT_DIR \<longrightarrow> bm_mode m = READ_ONLY)"
  by (auto simp: mount_errors_def Let_def)

lemma validate_locked_down: "validate_spec s = [] \<Longrightarrow> locked_down s"
  by (auto simp: validate_spec_def locked_down_def mount_errors_Nil writable_targets_def)

lemma apply_change_guarded:
  assumes "change_key c \<notin> set guarded_fields"
  shows "sp_network (apply_change c s) = sp_network s"
    "sp_read_only_rootfs (apply_change c s) = sp_read_only_rootfs s"
    "sp_user (apply_change c s) = sp_user s" "sp_cap_drop (apply_change c s) = sp_cap_drop s"
    "sp_no_new_privileges (apply_change c s) = sp_no_new_privileges s"
  using assms by (cases c; simp add: guarded_fields_def)+

text \<open>Deriving a per-run spec cannot weaken isolation silently: overrides that name a guarded field
  are refused, and any accepted list of overrides leaves network, root file system, user, dropped
  capabilities and no-new-privileges as they were.\<close>

theorem overrides_keep_isolation:
  assumes "with_overrides cs s = Inr s'"
  shows "sp_network s' = sp_network s \<and> sp_read_only_rootfs s' = sp_read_only_rootfs s
    \<and> sp_user s' = sp_user s \<and> sp_cap_drop s' = sp_cap_drop s
    \<and> sp_no_new_privileges s' = sp_no_new_privileges s"
proof -
  have "\<forall>c \<in> set cs. change_key c \<notin> set guarded_fields" and s': "s' = fold apply_change cs s"
    using assms by (auto simp: with_overrides_def Let_def filter_empty_conv split: if_splits)
  then have "sp_network (fold apply_change cs s) = sp_network s
    \<and> sp_read_only_rootfs (fold apply_change cs s) = sp_read_only_rootfs s
    \<and> sp_user (fold apply_change cs s) = sp_user s \<and> sp_cap_drop (fold apply_change cs s) = sp_cap_drop s
    \<and> sp_no_new_privileges (fold apply_change cs s) = sp_no_new_privileges s"
    by (induction cs arbitrary: s) (simp_all add: apply_change_guarded)
  then show ?thesis by (simp add: s')
qed

theorem overrides_keep_isolation_witness:
  "\<exists>s'. with_overrides [C_timeout_s 1800, C_cap_add [''NET_RAW'']] (default_spec ''i'' ''r'' ''a'') = Inr s'
     \<and> sp_network s' = NET_NONE"
proof -
  have "with_overrides [C_timeout_s 1800, C_cap_add [''NET_RAW'']] (default_spec ''i'' ''r'' ''a'') =
      Inr (apply_change (C_cap_add [''NET_RAW'']) (apply_change (C_timeout_s 1800) (default_spec ''i'' ''r'' ''a'')))"
    by (simp add: with_overrides_def guarded_fields_def)
  from this overrides_keep_isolation [OF this] show ?thesis by (simp add: default_spec_def)
qed

text \<open>The defaults are inside the boundary.\<close>

lemma default_spec_valid: "r \<noteq> [] \<Longrightarrow> a \<noteq> [] \<Longrightarrow> validate_spec (default_spec i r a) = []"
  by (auto simp: validate_spec_def default_spec_def check_error_def writable_targets_def show_nat_uid
      DEFAULT_TIMEOUT_S_def DEFAULT_GRACE_S_def GIB_def)

end
