(* ===== verification/Sandbox_Watchdog.thy ===== *)
theory Sandbox_Watchdog
  imports Effects Complex_Main
begin

text \<open>
  Deadline enforcement (\<open>core/sandbox/watchdog.py\<close>) and the handle the Docker driver gives it
  (\<open>_ContainerHandle\<close> of \<open>core/sandbox/docker_driver.py\<close>). A handle is \<open>wait\<close>, which may raise,
  and two signals; the locale states what the watchdog relies on, and the Docker handle is shown to
  provide it. The Docker daemon is data of the world: how long its n-th \<open>wait\<close> call blocks and how
  it ends, and how long signals and output polls take. Times are in seconds.
\<close>

datatype signal = SIGTERM | SIGKILL

datatype watchdog_verdict = W_EXITED | W_TERMINATED | W_KILLED | W_ESCAPED

fun verdict_value :: "watchdog_verdict \<Rightarrow> string" where
  "verdict_value W_EXITED = ''exited''"
| "verdict_value W_TERMINATED = ''terminated''"
| "verdict_value W_KILLED = ''killed''"
| "verdict_value W_ESCAPED = ''escaped''"

record watchdog_outcome =
  wo_verdict :: watchdog_verdict
  wo_exit_code :: "int option"
  wo_waited_s :: rat

definition timed_out :: "watchdog_outcome \<Rightarrow> bool" where
  "timed_out w \<longleftrightarrow> wo_verdict w \<noteq> W_EXITED"

text \<open>\<open>min(grace_s, 5.0) or 5.0\<close>.\<close>

definition confirm_s :: "rat \<Rightarrow> rat" where
  "confirm_s grace_s = (if min grace_s 5 = 0 then 5 else min grace_s 5)"

definition enforce_deadline ::
  "(rat \<Rightarrow> ('w, string, int option) eff) \<Rightarrow> ('w \<Rightarrow> 'w) \<Rightarrow> ('w \<Rightarrow> 'w) \<Rightarrow> ('w \<Rightarrow> rat)
     \<Rightarrow> rat \<Rightarrow> rat \<Rightarrow> ('w, string, watchdog_outcome) eff" where
  "enforce_deadline wait terminate kill clock timeout_s grace_s =
     (if timeout_s \<le> 0 then raise ''timeout_s must be positive''
      else if grace_s < 0 then raise ''grace_s must not be negative''
      else bind_s (reads clock) (\<lambda>started.
        let outcome = (\<lambda>verdict code. bind_s (reads clock) (\<lambda>now.
              ret \<lparr>wo_verdict = verdict, wo_exit_code = code, wo_waited_s = now - started\<rparr>)) in
        bind_s (wait timeout_s) (\<lambda>code.
        if code \<noteq> None then outcome W_EXITED code
        else bind_s (modify terminate) (\<lambda>_.
          bind_s (if grace_s > 0 then wait grace_s else ret None) (\<lambda>code.
          if code \<noteq> None then outcome W_TERMINATED code
          else bind_s (modify kill) (\<lambda>_.
            bind_s (wait (confirm_s grace_s)) (\<lambda>code.
              outcome (if code \<noteq> None then W_KILLED else W_ESCAPED) code)))))))"

subsection \<open>The contract\<close>

text \<open>The signals that go with a verdict.\<close>

definition signals_for :: "watchdog_verdict \<Rightarrow> signal list" where
  "signals_for v = (case v of W_EXITED \<Rightarrow> [] | W_TERMINATED \<Rightarrow> [SIGTERM] | _ \<Rightarrow> [SIGTERM, SIGKILL])"

text \<open>\<open>slack\<close> bounds what a wait may overshoot and what a signal may take.\<close>

locale container_handle =
  fixes wait :: "rat \<Rightarrow> ('w, string, int option) eff"
    and terminate :: "'w \<Rightarrow> 'w"
    and kill :: "'w \<Rightarrow> 'w"
    and clock :: "'w \<Rightarrow> rat"
    and signals :: "'w \<Rightarrow> signal list"
    and ok :: "rat \<Rightarrow> 'w \<Rightarrow> bool"
  assumes wait_bound: "ok slack w \<Longrightarrow> 0 < t \<Longrightarrow> wait t w = (r, w') \<Longrightarrow>
      ok slack w' \<and> clock w \<le> clock w' \<and> clock w' \<le> clock w + t + slack \<and> signals w' = signals w"
    and terminate_effect: "ok slack w \<Longrightarrow>
      ok slack (terminate w) \<and> clock w \<le> clock (terminate w) \<and> clock (terminate w) \<le> clock w + slack
      \<and> signals (terminate w) = signals w @ [SIGTERM]"
    and kill_effect: "ok slack w \<Longrightarrow>
      ok slack (kill w) \<and> clock w \<le> clock (kill w) \<and> clock (kill w) \<le> clock w + slack
      \<and> signals (kill w) = signals w @ [SIGKILL]"
begin

abbreviation enforce :: "rat \<Rightarrow> rat \<Rightarrow> ('w, string, watchdog_outcome) eff" where
  "enforce \<equiv> enforce_deadline wait terminate kill clock"

text \<open>A step of the escalation: the clock moved by at most \<open>d\<close> and the signals grew by \<open>sg\<close>.\<close>

definition progress :: "rat \<Rightarrow> 'w \<Rightarrow> rat \<Rightarrow> signal list \<Rightarrow> 'w \<Rightarrow> bool" where
  "progress slack w d sg w' \<longleftrightarrow>
     ok slack w' \<and> clock w \<le> clock w' \<and> clock w' \<le> clock w + d \<and> signals w' = signals w @ sg"

lemma progress_trans:
  "progress slack w d sg w' \<Longrightarrow> progress slack w' d' sg' w'' \<Longrightarrow> progress slack w (d + d') (sg @ sg') w''"
  by (auto simp: progress_def)

lemma progress_wait: "ok slack w \<Longrightarrow> 0 < t \<Longrightarrow> wait t w = (r, w') \<Longrightarrow> progress slack w (t + slack) [] w'"
  using wait_bound [of slack w t r w'] by (simp add: progress_def)

lemma progress_signals:
  "ok slack w \<Longrightarrow> progress slack w slack [SIGTERM] (terminate w)"
  "ok slack w \<Longrightarrow> progress slack w slack [SIGKILL] (kill w)"
  using terminate_effect [of slack w] kill_effect [of slack w] by (simp_all add: progress_def)

lemma progress_ok: "progress slack w d sg w' \<Longrightarrow> ok slack w'"
  by (simp add: progress_def)

lemma slack_nonneg: "ok slack w \<Longrightarrow> 0 \<le> slack"
  using terminate_effect [of slack w] by linarith

lemma enforce_result:
  assumes ok: "ok slack w" and pos: "0 < timeout" "0 \<le> grace"
    and run: "enforce timeout grace w = (r, w')"
  shows "\<exists>d sg. progress slack w d sg w' \<and> d \<le> timeout + grace + 5 + 5 * slack
     \<and> (\<forall>out. r = Inr out \<longrightarrow> sg = signals_for (wo_verdict out)
          \<and> (wo_exit_code out = None \<longleftrightarrow> wo_verdict out = W_ESCAPED)
          \<and> wo_waited_s out = clock w' - clock w)"
proof -
  note s0 = slack_nonneg [OF ok]
  have confirm: "0 < confirm_s grace" "confirm_s grace \<le> 5" using pos by (auto simp: confirm_s_def)
  obtain r1 w1 where w1: "wait timeout w = (r1, w1)" by (cases "wait timeout w")
  note p1 = progress_wait [OF ok pos(1) w1]
  show ?thesis
  proof (cases "r1 = Inr None")
    case False
    then have "w' = w1" "\<forall>out. r = Inr out \<longrightarrow> wo_verdict out = W_EXITED \<and> wo_exit_code out \<noteq> None
        \<and> wo_waited_s out = clock w' - clock w"
      using run pos w1 by (auto simp: enforce_deadline_def eff_simps Let_def split: sum.splits)
    with p1 pos s0 show ?thesis
      by (intro exI [of _ "timeout + slack"] exI [of _ "[]"]) (auto simp: signals_for_def)
  next
    case deadline: True
    let ?g = "if grace > 0 then wait grace else ret None"
    obtain r2 w2 where w2: "?g (terminate w1) = (r2, w2)" by (cases "?g (terminate w1)")
    have pt: "progress slack w1 slack [SIGTERM] (terminate w1)"
      using progress_signals(1) progress_ok [OF p1] .
    have pg: "progress slack (terminate w1) (grace + slack) [] w2"
    proof (cases "grace > 0")
      case True
      then show ?thesis using w2 progress_wait [OF progress_ok [OF pt]] by simp
    next
      case False
      then have "w2 = terminate w1" using w2 by (simp add: ret_def)
      then show ?thesis using progress_ok [OF pt] pos(2) s0 by (simp add: progress_def)
    qed
    note p2 = progress_trans [OF progress_trans [OF p1 pt] pg]
    show ?thesis
    proof (cases "r2 = Inr None")
      case False
      then have "w' = w2" "\<forall>out. r = Inr out \<longrightarrow> wo_verdict out = W_TERMINATED \<and> wo_exit_code out \<noteq> None
          \<and> wo_waited_s out = clock w' - clock w"
        using run pos w1 w2 deadline
        by (auto simp: enforce_deadline_def eff_simps Let_def split: sum.splits if_splits)
      with p2 pos s0 show ?thesis
        by (intro exI [of _ "timeout + slack + slack + (grace + slack)"] exI [of _ "[SIGTERM]"])
          (auto simp: signals_for_def)
    next
      case ignored: True
      obtain r3 w3 where w3: "wait (confirm_s grace) (kill w2) = (r3, w3)"
        by (cases "wait (confirm_s grace) (kill w2)")
      have pk: "progress slack w2 slack [SIGKILL] (kill w2)"
        using progress_signals(2) progress_ok [OF p2] .
      note p3 = progress_trans [OF progress_trans [OF p2 pk] progress_wait [OF progress_ok [OF pk] confirm(1) w3]]
      have "w' = w3" "\<forall>out. r = Inr out \<longrightarrow> wo_verdict out \<in> {W_KILLED, W_ESCAPED}
          \<and> (wo_exit_code out = None \<longleftrightarrow> wo_verdict out = W_ESCAPED) \<and> wo_waited_s out = clock w' - clock w"
        using run pos w1 w2 w3 deadline ignored
        by (auto simp: enforce_deadline_def eff_simps Let_def split: sum.splits if_splits)
      with p3 pos s0 confirm(2) show ?thesis
        by (intro exI [of _ "timeout + slack + slack + (grace + slack) + slack + (confirm_s grace + slack)"]
            exI [of _ "[SIGTERM, SIGKILL]"]) (auto simp: signals_for_def)
    qed
  qed
qed

end

subsection \<open>The Docker handle\<close>

datatype wait_reply = Status "int option" | Timed_out | Broken string

record docker_world =
  dw_clock :: rat
  dw_waits :: nat
  dw_ticks :: nat
  dw_signals :: "signal list"
  dw_reply :: "nat \<Rightarrow> rat \<Rightarrow> rat \<times> wait_reply"
  dw_tick_cost :: "nat \<Rightarrow> rat"
  dw_signal_cost :: "nat \<Rightarrow> rat"

text \<open>\<open>_wait_once\<close>: a read timeout is no result, any other exception is raised on.\<close>

definition wait_once :: "rat \<Rightarrow> (docker_world, string, int option) eff" where
  "wait_once timeout_s w =
     (case dw_reply w (dw_waits w) timeout_s of
        (elapsed, reply) \<Rightarrow>
          (let w' = w\<lparr>dw_clock := dw_clock w + elapsed, dw_waits := Suc (dw_waits w)\<rparr> in
           case reply of
             Status code \<Rightarrow> (Inr code, w')
           | Timed_out \<Rightarrow> (Inr None, w')
           | Broken e \<Rightarrow> (Inl e, w')))"

definition on_tick :: "docker_world \<Rightarrow> docker_world" where
  "on_tick w = w\<lparr>dw_clock := dw_clock w + dw_tick_cost w (dw_ticks w), dw_ticks := Suc (dw_ticks w)\<rparr>"

text \<open>The slices of \<open>wait\<close>, with a bound on their number; \<open>None\<close> is a wait that is not over.\<close>

fun wait_slices :: "nat \<Rightarrow> rat \<Rightarrow> rat \<Rightarrow> docker_world \<Rightarrow> ((string + int option) \<times> docker_world) option" where
  "wait_slices 0 tick_s deadline w = None"
| "wait_slices (Suc n) tick_s deadline w =
     (let remaining = deadline - dw_clock w in
      if remaining \<le> 0 then Some (Inr None, w)
      else case wait_once (min remaining tick_s) w of
          (Inl e, w') \<Rightarrow> Some (Inl e, w')
        | (Inr (Some code), w') \<Rightarrow> Some (Inr (Some code), w')
        | (Inr None, w') \<Rightarrow> wait_slices n tick_s deadline (on_tick w'))"

definition slice_bound :: "rat \<Rightarrow> rat \<Rightarrow> nat" where
  "slice_bound tick_s timeout_s = nat \<lceil>timeout_s / tick_s\<rceil> + 1"

text \<open>\<open>wait\<close>, with an output consumer (\<open>offers\<close>) or without.\<close>

definition docker_wait :: "bool \<Rightarrow> rat \<Rightarrow> rat \<Rightarrow> (docker_world, string, int option) eff" where
  "docker_wait offers tick_s timeout_s w =
     (if \<not> offers then wait_once timeout_s w
      else case wait_slices (slice_bound tick_s timeout_s) tick_s (dw_clock w + timeout_s) w of
             Some result \<Rightarrow> result
           | None \<Rightarrow> (Inl ''wait did not end'', w))"

definition send_signal :: "signal \<Rightarrow> docker_world \<Rightarrow> docker_world" where
  "send_signal s w = w\<lparr>dw_clock := dw_clock w + dw_signal_cost w (length (dw_signals w)),
                       dw_signals := dw_signals w @ [s]\<rparr>"

text \<open>What is relied on of the daemon: \<open>wait\<close> blocks no longer than it was told to, and when it times
  out it has blocked that long; an exit reply carries a status; a poll of the output and a signal
  take at most \<open>slack\<close>.\<close>

definition daemon_ok :: "rat \<Rightarrow> docker_world \<Rightarrow> bool" where
  "daemon_ok slack w \<longleftrightarrow>
     0 \<le> slack
     \<and> (\<forall>n t. 0 < t \<longrightarrow> 0 \<le> fst (dw_reply w n t) \<and> fst (dw_reply w n t) \<le> t
            \<and> (snd (dw_reply w n t) = Timed_out \<longrightarrow> fst (dw_reply w n t) = t)
            \<and> snd (dw_reply w n t) \<noteq> Status None)
     \<and> (\<forall>n. 0 \<le> dw_tick_cost w n \<and> dw_tick_cost w n \<le> slack)
     \<and> (\<forall>n. 0 \<le> dw_signal_cost w n \<and> dw_signal_cost w n \<le> slack)"

lemma wait_once_bound:
  assumes "daemon_ok slack w" "0 < t" "wait_once t w = (r, w')"
  shows "daemon_ok slack w'" "dw_clock w \<le> dw_clock w'" "dw_clock w' \<le> dw_clock w + t"
    "dw_signals w' = dw_signals w" "r = Inr None \<Longrightarrow> dw_clock w' = dw_clock w + t"
proof -
  obtain dt rep where rep: "dw_reply w (dw_waits w) t = (dt, rep)" by (cases "dw_reply w (dw_waits w) t")
  have w': "w' = w\<lparr>dw_clock := dw_clock w + dt, dw_waits := Suc (dw_waits w)\<rparr>"
    using assms(3) rep by (auto simp: wait_once_def Let_def split: wait_reply.splits)
  have "0 \<le> dt \<and> dt \<le> t \<and> (rep = Timed_out \<longrightarrow> dt = t) \<and> rep \<noteq> Status None"
    using assms(1,2) rep unfolding daemon_ok_def by (metis fst_conv snd_conv)
  with w' rep assms show "daemon_ok slack w'" "dw_clock w \<le> dw_clock w'" "dw_clock w' \<le> dw_clock w + t"
    "dw_signals w' = dw_signals w" "r = Inr None \<Longrightarrow> dw_clock w' = dw_clock w + t"
    by (auto simp: daemon_ok_def wait_once_def Let_def split: wait_reply.splits)
qed

lemma on_tick_bound:
  assumes "daemon_ok slack w"
  shows "daemon_ok slack (on_tick w)" "dw_clock w \<le> dw_clock (on_tick w)"
    "dw_clock (on_tick w) \<le> dw_clock w + slack" "dw_signals (on_tick w) = dw_signals w"
  using assms by (simp_all add: daemon_ok_def on_tick_def)

lemma wait_slices_bound:
  assumes "daemon_ok slack w" "0 < tick" "wait_slices n tick deadline w = Some (r, w')"
    "dw_clock w \<le> deadline + slack"
  shows "daemon_ok slack w' \<and> dw_clock w \<le> dw_clock w' \<and> dw_clock w' \<le> deadline + slack
    \<and> dw_signals w' = dw_signals w"
  using assms
proof (induction n arbitrary: w)
  case (Suc n)
  note s0 = Suc.prems(1)[unfolded daemon_ok_def, THEN conjunct1]
  show ?case
  proof (cases "deadline - dw_clock w \<le> 0")
    case True
    with Suc.prems show ?thesis by (auto simp: Let_def)
  next
    case False
    let ?t = "min (deadline - dw_clock w) tick"
    obtain r1 w1 where w1: "wait_once ?t w = (r1, w1)" by (cases "wait_once ?t w")
    have pos: "0 < ?t" using False Suc.prems(2) by simp
    note b = wait_once_bound [OF Suc.prems(1) pos w1]
    have lim: "dw_clock w1 \<le> deadline" using b(3) by linarith
    show ?thesis
    proof (cases "r1 = Inr None")
      case True
      note t = on_tick_bound [OF b(1)]
      have rest: "wait_slices n tick deadline (on_tick w1) = Some (r, w')"
        using Suc.prems(3) False w1 True by (simp add: Let_def)
      have "dw_clock (on_tick w1) \<le> deadline + slack" using t(3) lim by linarith
      from Suc.IH [OF t(1) Suc.prems(2) rest this] t b show ?thesis by auto
    next
      case other: False
      then have "w' = w1" using Suc.prems(3) False w1
        by (auto simp: Let_def split: sum.splits option.splits)
      with b lim s0 show ?thesis by auto
    qed
  qed
qed simp

lemma wait_slices_ends:
  assumes "daemon_ok slack w" "0 < tick" "deadline - dw_clock w \<le> of_nat n * tick"
  shows "wait_slices (Suc n) tick deadline w \<noteq> None"
  using assms
proof (induction n arbitrary: w)
  case 0
  then show ?case by (simp add: Let_def)
next
  case (Suc n)
  show ?case
  proof (cases "deadline - dw_clock w \<le> 0")
    case True
    then show ?thesis by simp
  next
    case False
    let ?t = "min (deadline - dw_clock w) tick"
    obtain r1 w1 where w1: "wait_once ?t w = (r1, w1)" by (cases "wait_once ?t w")
    have pos: "0 < ?t" using False Suc.prems(2) by simp
    note b = wait_once_bound [OF Suc.prems(1) pos w1]
    show ?thesis
    proof (cases "r1 = Inr None")
      case True
      note t = on_tick_bound [OF b(1)]
      have "dw_clock w1 = dw_clock w + ?t" using b(5) True by simp
      moreover define c where "c = of_nat n * tick"
      moreover have "0 \<le> c" using Suc.prems(2) by (simp add: c_def)
      moreover have "of_nat (Suc n) * tick = c + tick" by (simp add: algebra_simps c_def)
      ultimately have "deadline - dw_clock (on_tick w1) \<le> c"
        using Suc.prems(3) t(2) by (cases "deadline - dw_clock w \<le> tick") auto
      then have "deadline - dw_clock (on_tick w1) \<le> of_nat n * tick" by (simp add: c_def)
      from Suc.IH [OF t(1) Suc.prems(2) this] show ?thesis
        using False w1 True by (subst wait_slices.simps) (simp add: Let_def del: wait_slices.simps)
    next
      case other: False
      then show ?thesis using False w1
        by (subst wait_slices.simps) (auto simp: Let_def simp del: wait_slices.simps split: sum.splits option.splits)
    qed
  qed
qed

lemma docker_wait_ends:
  assumes "daemon_ok slack w" "0 < tick" "0 < t"
  shows "wait_slices (slice_bound tick t) tick (dw_clock w + t) w \<noteq> None"
proof -
  have "t / tick \<le> of_nat (nat \<lceil>t / tick\<rceil>)" using assms by (simp add: of_nat_nat) 
  then have "t \<le> of_nat (nat \<lceil>t / tick\<rceil>) * tick" using assms(2) by (simp add: pos_divide_le_eq)
  then show ?thesis using wait_slices_ends [OF assms(1,2), of "dw_clock w + t" "nat \<lceil>t / tick\<rceil>"]
    by (simp add: slice_bound_def)
qed

text \<open>The contract holds of the Docker handle, for any positive polling interval.\<close>

definition polled_ok :: "rat \<Rightarrow> rat \<Rightarrow> docker_world \<Rightarrow> bool" where
  "polled_ok tick_s slack w \<longleftrightarrow> daemon_ok slack w \<and> 0 < tick_s"

interpretation dh: container_handle "docker_wait offers tick_s" "send_signal SIGTERM" "send_signal SIGKILL"
  dw_clock dw_signals "polled_ok tick_s" for offers tick_s
proof unfold_locales
  fix slack w t r w'
  assume ok: "polled_ok tick_s slack w" and t: "0 < t" and run: "docker_wait offers tick_s t w = (r, w')"
  then have d: "daemon_ok slack w" "0 < tick_s" "0 \<le> slack" by (simp_all add: polled_ok_def daemon_ok_def)
  show "polled_ok tick_s slack w' \<and> dw_clock w \<le> dw_clock w' \<and> dw_clock w' \<le> dw_clock w + t + slack
    \<and> dw_signals w' = dw_signals w"
  proof (cases offers)
    case True
    with run docker_wait_ends [OF d(1,2) t] have
      "wait_slices (slice_bound tick_s t) tick_s (dw_clock w + t) w = Some (r, w')"
      by (auto simp: docker_wait_def)
    from wait_slices_bound [OF d(1,2) this] d t show ?thesis by (simp add: polled_ok_def)
  next
    case False
    with run have "wait_once t w = (r, w')" by (simp add: docker_wait_def)
    from wait_once_bound [OF d(1) t this] d show ?thesis by (simp add: polled_ok_def)
  qed
next
  fix slack w assume ok: "polled_ok tick_s slack w"
  show "polled_ok tick_s slack (send_signal SIGTERM w) \<and> dw_clock w \<le> dw_clock (send_signal SIGTERM w)
    \<and> dw_clock (send_signal SIGTERM w) \<le> dw_clock w + slack
    \<and> dw_signals (send_signal SIGTERM w) = dw_signals w @ [SIGTERM]"
    using ok by (simp add: polled_ok_def daemon_ok_def send_signal_def)
  show "polled_ok tick_s slack (send_signal SIGKILL w) \<and> dw_clock w \<le> dw_clock (send_signal SIGKILL w)
    \<and> dw_clock (send_signal SIGKILL w) \<le> dw_clock w + slack
    \<and> dw_signals (send_signal SIGKILL w) = dw_signals w @ [SIGKILL]"
    using ok by (simp add: polled_ok_def daemon_ok_def send_signal_def)
qed

subsection \<open>Properties\<close>

text \<open>C14: A hung analyzer costs a bounded time: enforcing a deadline on a Docker container, polled for
  output or not, is over after timeout, grace and five seconds (plus the time of at most five
  daemon calls), whatever the container does. No signal is sent to a container that exits in time,
  SIGTERM always comes before SIGKILL, and only an escaped container has no exit code.\<close>

theorem hung_analyzer_is_stopped:
  assumes "daemon_ok slack w" "0 < tick_s" "0 < timeout_s" "0 \<le> grace_s"
    and "enforce_deadline (docker_wait offers tick_s) (send_signal SIGTERM) (send_signal SIGKILL) dw_clock
           timeout_s grace_s w = (r, w')"
  shows "dw_clock w' \<le> dw_clock w + (timeout_s + grace_s + 5 + 5 * slack)
    \<and> (case r of Inl e \<Rightarrow> True
       | Inr out \<Rightarrow> dw_signals w' = dw_signals w @ signals_for (wo_verdict out)
           \<and> (wo_exit_code out = None \<longleftrightarrow> wo_verdict out = W_ESCAPED))"
proof -
  have "polled_ok tick_s slack w" using assms by (simp add: polled_ok_def)
  from dh.enforce_result [OF this assms(3,4,5)] obtain d sg where
    "dh.progress tick_s slack w d sg w'" "d \<le> timeout_s + grace_s + 5 + 5 * slack"
    "\<forall>out. r = Inr out \<longrightarrow> sg = signals_for (wo_verdict out)
          \<and> (wo_exit_code out = None \<longleftrightarrow> wo_verdict out = W_ESCAPED)"
    by blast
  then show ?thesis by (cases r) (auto simp: dh.progress_def)
qed

text \<open>A container that ignores SIGTERM and dies of SIGKILL.\<close>

definition stubborn :: docker_world where
  "stubborn = \<lparr>dw_clock = 0, dw_waits = 0, dw_ticks = 0, dw_signals = [],
     dw_reply = (\<lambda>n t. if n < 2 then (t, Timed_out) else (0, Status (Some 137))),
     dw_tick_cost = (\<lambda>_. 0), dw_signal_cost = (\<lambda>_. 1)\<rparr>"

lemma stubborn_ok: "daemon_ok 1 stubborn"
  by (auto simp: daemon_ok_def stubborn_def)

lemma stubborn_run:
  "enforce_deadline (docker_wait False 2) (send_signal SIGTERM) (send_signal SIGKILL) dw_clock 900 10 stubborn =
     (Inr \<lparr>wo_verdict = W_KILLED, wo_exit_code = Some 137, wo_waited_s = 912\<rparr>,
      stubborn\<lparr>dw_clock := 912, dw_waits := 3, dw_signals := [SIGTERM, SIGKILL]\<rparr>)"
  by (simp add: enforce_deadline_def eff_simps docker_wait_def wait_once_def stubborn_def send_signal_def
      confirm_s_def Let_def)

theorem hung_analyzer_is_stopped_witness:
  "912 \<le> (0 :: rat) + (900 + 10 + 5 + 5 * 1)
   \<and> dw_signals (snd (enforce_deadline (docker_wait False 2) (send_signal SIGTERM) (send_signal SIGKILL) dw_clock
        900 10 stubborn)) = [SIGTERM, SIGKILL]"
  using hung_analyzer_is_stopped [OF stubborn_ok _ _ _ stubborn_run] unfolding stubborn_run
  by (simp add: signals_for_def stubborn_def)

end
