(* ===== verification/Sandbox_Docker.thy ===== *)
theory Sandbox_Docker
  imports Sandbox_Spec Sandbox_Watchdog
begin

text \<open>
  The Docker driver (\<open>core/sandbox/docker_driver.py\<close>) and the reaper (\<open>core/sandbox/reaper.py\<close>). The
  daemon's answers are data of the world; \<open>da_created\<close> and \<open>da_removed\<close> record the containers the
  driver asked it to create and to remove. The host file system is seen through what \<open>Path.resolve\<close>
  and reading a seccomp profile return; JSON is re-serialised by a parameter. Times are seconds.
\<close>

definition MAX_LOG_BYTES :: nat where "MAX_LOG_BYTES = 8 * 1024 * 1024"
definition OUTPUT_POLL_S :: rat where "OUTPUT_POLL_S = 2"
definition LOG_TRUNCATED :: string where
  "LOG_TRUNCATED = CHR 0x0A # ''[bare: log truncated]'' @ [CHR 0x0A]"

record driver_env =
  de_resolve :: "string \<Rightarrow> path"
  de_run_root :: path
  de_host_run_root :: "string option"
  de_read_profile :: "string \<Rightarrow> string option"
  de_json_compact :: "string \<Rightarrow> string option"

record container_config =
  cc_image :: string
  cc_command :: "string list option"
  cc_environment :: "(string, string) dict"
  cc_user :: string
  cc_network_mode :: string
  cc_read_only :: bool
  cc_cap_drop :: "string list"
  cc_cap_add :: "string list option"
  cc_security_opt :: "string list"
  cc_tmpfs :: "(string, string) dict"
  cc_volumes :: "(string, string \<times> string) dict"
  cc_mem_limit :: int
  cc_memswap_limit :: int
  cc_nano_cpus :: int
  cc_pids_limit :: int
  cc_ulimits :: "(string \<times> nat \<times> nat) list"
  cc_labels :: "(string \<times> string) list"
  cc_auto_remove :: bool

subsection \<open>Building a container\<close>

definition run_root_error :: "path \<Rightarrow> path \<Rightarrow> string" where
  "run_root_error source base = ''mount source '' @ path_str source @ '' is outside the run root ''
     @ path_str base @ ''; analyzers may only see per-run staging directories''"

definition validate_mounts :: "driver_env \<Rightarrow> sandbox_spec \<Rightarrow> string + unit" where
  "validate_mounts env s =
     bind_e (map_e (\<lambda>m. require (starts_with (de_run_root env) (de_resolve env (bm_source m)))
                     (run_root_error (de_resolve env (bm_source m)) (de_run_root env))) (sp_mounts s))
       (\<lambda>_. Inr ())"

definition windows_like :: "string \<Rightarrow> bool" where
  "windows_like base \<longleftrightarrow> CHR 0x5C \<in> set base \<or> (length base > 1 \<and> base ! 1 = CHR '':'')"

text \<open>\<open>PureWindowsPath(root).joinpath(*parts)\<close> and its POSIX counterpart, printed: separators are
  unified and empty and \<open>.\<close> components dropped. A drive without a root (\<open>C:\<close>) is joined as such.\<close>

definition path_parts :: "string \<Rightarrow> string list" where
  "path_parts base = filter (\<lambda>p. p \<noteq> '''' \<and> p \<noteq> ''.'') (split_on CHR ''/'' base)"

definition join_posix :: "string \<Rightarrow> string list \<Rightarrow> string" where
  "join_posix base parts =
     (if base \<noteq> [] \<and> hd base = CHR ''/'' then ''/'' else '''') @ join ''/'' (path_parts base @ parts)"

definition join_windows :: "string \<Rightarrow> string list \<Rightarrow> string" where
  "join_windows base parts =
     (let b = slashed base; sep = [CHR 0x5C] in
      if length b > 1 \<and> b ! 1 = CHR '':''
      then take 2 b @ (if length b > 2 \<and> b ! 2 = CHR ''/'' then sep else '''')
           @ join sep (path_parts (drop 2 b) @ parts)
      else (if starts_with ''//'' b then sep @ sep else if starts_with ''/'' b then sep else '''')
           @ join sep (path_parts b @ parts))"

definition to_host_path :: "driver_env \<Rightarrow> string \<Rightarrow> string + string" where
  "to_host_path env source =
     (let resolved = de_resolve env source in
      case de_host_run_root env of
        None \<Rightarrow> Inr (path_str resolved)
      | Some base \<Rightarrow>
          if starts_with (de_run_root env) resolved
          then (let relative = drop (length (de_run_root env)) resolved in
                Inr ((if windows_like base then join_windows else join_posix) base relative))
          else Inl (path_str resolved @ '' is not in the subpath of '' @ path_str (de_run_root env)))"

definition load_seccomp :: "driver_env \<Rightarrow> string option \<Rightarrow> string + string option" where
  "load_seccomp env profile =
     (case profile of
        None \<Rightarrow> Inr None
      | Some p \<Rightarrow>
          (case de_read_profile env p of
             None \<Rightarrow> Inl (''seccomp profile '' @ p @ '' not found; refusing to run without it'')
           | Some contents \<Rightarrow>
               (case de_json_compact env contents of
                  None \<Rightarrow> Inl ''invalid JSON''
                | Some p' \<Rightarrow> Inr (Some p'))))"

definition or_none :: "'a list \<Rightarrow> 'a list option" where
  "or_none xs = (if xs = [] then None else Some xs)"

definition mode_text :: "mount_mode \<Rightarrow> string" where
  "mode_text m = (if m = READ_WRITE then ''rw'' else ''ro'')"

definition build_create_kwargs :: "driver_env \<Rightarrow> sandbox_spec \<Rightarrow> string + container_config" where
  "build_create_kwargs env s =
     bind_e (load_seccomp env (sp_seccomp_profile s)) (\<lambda>profile.
     bind_e (require (sp_network s = NET_NONE)
       ''network mode sinkhole is not implemented; dynamic analysis with a sinkhole netns lands in M5'') (\<lambda>_.
     bind_e (map_e (\<lambda>m. bind_e (to_host_path env (bm_source m))
                  (\<lambda>h. Inr (h, bm_target m, mode_text (bm_mode m)))) (sp_mounts s)) (\<lambda>volumes.
     Inr \<lparr>cc_image = sp_image s,
          cc_command = or_none (sp_command s),
          cc_environment = dict_of fst snd (sp_env s),
          cc_user = sp_user s,
          cc_network_mode = ''none'',
          cc_read_only = sp_read_only_rootfs s,
          cc_cap_drop = sp_cap_drop s,
          cc_cap_add = or_none (sp_cap_add s),
          cc_security_opt =
            (if sp_no_new_privileges s then [''no-new-privileges:true''] else [])
            @ (case profile of None \<Rightarrow> [] | Some p \<Rightarrow> [''seccomp='' @ p]),
          cc_tmpfs = dict_of tm_target to_options (sp_tmpfs s),
          cc_volumes = dict_of fst snd volumes,
          cc_mem_limit = sp_mem_limit_bytes s,
          cc_memswap_limit = sp_mem_limit_bytes s,
          cc_nano_cpus = sp_nano_cpus s,
          cc_pids_limit = sp_pids_limit s,
          cc_ulimits = map (\<lambda>u. (ul_name u, ul_soft u, hard_or_soft u)) (sp_ulimits s),
          cc_labels = spec_labels s,
          cc_auto_remove = False\<rparr>)))"

subsection \<open>The daemon\<close>

record daemon =
  da_world :: docker_world
  da_create :: "container_config \<Rightarrow> string + string"
  da_start_error :: "string option"
  da_image_attrs :: "string \<Rightarrow> (string list \<times> string) option"
  da_logs :: "bool \<Rightarrow> bytes option"
  da_oom :: "bool option"
  da_created :: "container_config list"
  da_removed :: "string list"

definition resolve_digest :: "daemon \<Rightarrow> string \<Rightarrow> string option" where
  "resolve_digest d img =
     (case da_image_attrs d img of
        None \<Rightarrow> None
      | Some (repo_digests, ident) \<Rightarrow>
          (case repo_digests of
             x # _ \<Rightarrow> Some x
           | [] \<Rightarrow> if ident = [] then None else Some ident))"

definition cap_log :: "bytes \<Rightarrow> bytes" where
  "cap_log raw =
     (if length raw > MAX_LOG_BYTES then take MAX_LOG_BYTES raw @ bytes_of LOG_TRUNCATED else raw)"

text \<open>One stream of \<open>_collect_logs\<close>: a read that fails is empty.\<close>

definition collect_log :: "daemon \<Rightarrow> bool \<Rightarrow> bytes" where
  "collect_log d out = (case da_logs d out of None \<Rightarrow> [] | Some raw \<Rightarrow> cap_log raw)"

definition was_oom_killed :: "daemon \<Rightarrow> bool" where
  "was_oom_killed d = (case da_oom d of None \<Rightarrow> False | Some b \<Rightarrow> b)"

definition create_container :: "container_config \<Rightarrow> (daemon, string, string) eff" where
  "create_container config d =
     (da_create d config, case da_create d config of
        Inl e \<Rightarrow> d | Inr i \<Rightarrow> d\<lparr>da_created := da_created d @ [config]\<rparr>)"

definition remove_container :: "string \<Rightarrow> daemon \<Rightarrow> daemon" where
  "remove_container i d = d\<lparr>da_removed := da_removed d @ [i]\<rparr>"

definition on_world :: "(docker_world, string, 'a) eff \<Rightarrow> (daemon, string, 'a) eff" where
  "on_world m d = (case m (da_world d) of (r, w) \<Rightarrow> (r, d\<lparr>da_world := w\<rparr>))"

definition now_s :: "daemon \<Rightarrow> rat" where
  "now_s d = dw_clock (da_world d)"

definition deadline_error :: "sandbox_spec \<Rightarrow> watchdog_verdict \<Rightarrow> string" where
  "deadline_error s v =
     ''exceeded '' @ show_int (sp_timeout_s s) @ ''s deadline ('' @ verdict_value v @ '')''"

text \<open>The body of the second \<open>try\<close> of \<open>run\<close>.\<close>

definition finished_result ::
  "sandbox_spec \<Rightarrow> string \<Rightarrow> string option \<Rightarrow> rat \<Rightarrow> watchdog_outcome \<Rightarrow> daemon \<Rightarrow> sandbox_result" where
  "finished_result s container_id digest started out d =
     (let oom = was_oom_killed d; exited = (wo_verdict out = W_EXITED) in
      \<lparr>sr_status = (if oom then SB_OOM else if exited then SB_COMPLETED else SB_TIMEOUT),
       sr_exit_code = wo_exit_code out,
       sr_stdout = collect_log d True,
       sr_stderr = collect_log d False,
       sr_container_id = Some container_id,
       sr_image_digest = digest,
       sr_error = (if oom then Some ''container was OOM-killed''
                   else if exited then None else Some (deadline_error s (wo_verdict out))),
       sr_duration_s = now_s d - started\<rparr>)"

definition watch_container ::
  "sandbox_spec \<Rightarrow> bool \<Rightarrow> string \<Rightarrow> string option \<Rightarrow> rat \<Rightarrow> (daemon, string, sandbox_result) eff" where
  "watch_container s offers container_id digest started =
     bind_s (on_world (enforce_deadline (docker_wait offers OUTPUT_POLL_S) (send_signal SIGTERM)
               (send_signal SIGKILL) dw_clock (of_int (sp_timeout_s s)) (of_int (sp_grace_s s))))
       (\<lambda>out. reads (finished_result s container_id digest started out))"

definition run_container :: "driver_env \<Rightarrow> sandbox_spec \<Rightarrow> bool \<Rightarrow> (daemon, string, sandbox_result) eff" where
  "run_container env s offers =
     (if validate_spec s \<noteq> [] then raise (violation_message s (validate_spec s))
      else case validate_mounts env s of
        Inl e \<Rightarrow> raise e
      | Inr _ \<Rightarrow>
     bind_s (reads now_s) (\<lambda>started.
     case build_create_kwargs env s of
        Inl e \<Rightarrow> ret (failure_result SB_START_FAILED (''could not build container spec: '' @ e) None 0)
      | Inr config \<Rightarrow>
     bind_s (attempt (create_container config)) (\<lambda>created.
     bind_s (reads now_s) (\<lambda>now.
     case created of
        Inl e \<Rightarrow> ret (failure_result SB_START_FAILED e None (now - started))
      | Inr container_id \<Rightarrow>
     bind_s (reads (\<lambda>d. (resolve_digest d (sp_image s), da_start_error d))) (\<lambda>(digest, start_error).
     case start_error of
        Some e \<Rightarrow>
          bind_s (modify (remove_container container_id)) (\<lambda>_.
            ret (failure_result SB_START_FAILED e (Some container_id) (now - started)))
      | None \<Rightarrow>
     bind_s (catch_s (watch_container s offers container_id digest started)
              (\<lambda>e. bind_s (reads now_s) (\<lambda>now.
                 ret (failure_result SB_ERROR e (Some container_id) (now - started))))) (\<lambda>result.
     bind_s (when_s (sp_auto_remove s) (modify (remove_container container_id))) (\<lambda>_.
       ret result)))))))"

subsection \<open>Removing\<close>

record docker_exn =
  ex_type :: string
  ex_text :: string

definition is_not_found :: "docker_exn \<Rightarrow> bool" where
  "is_not_found e \<longleftrightarrow> ex_type e = ''NotFound'' \<or> contains ''404'' (ex_text e)"

text \<open>\<open>remove\<close>, given how looking the container up and removing it end.\<close>

definition docker_remove :: "docker_exn option \<Rightarrow> docker_exn option \<Rightarrow> docker_exn option" where
  "docker_remove get_error remove_error =
     (case get_error of
        Some e \<Rightarrow> if is_not_found e then None else Some e
      | None \<Rightarrow> (case remove_error of
          Some e \<Rightarrow> if is_not_found e then None else Some e
        | None \<Rightarrow> None))"

subsection \<open>The reaper\<close>

record reap_report =
  rp_inspected :: nat
  rp_removed :: "string list"
  rp_failed :: "(string \<times> string) list"

definition reap_reason :: "int \<Rightarrow> string set \<Rightarrow> int \<Rightarrow> bool \<Rightarrow> managed_container \<Rightarrow> string option" where
  "reap_reason max_age_us active now_us liveness_known c =
     (if now_us - mc_created_us c > max_age_us then Some ''max_age_exceeded''
      else if liveness_known \<and> mc_run_id c \<notin> active then Some ''run_not_active''
      else None)"

text \<open>\<open>remove\<close> is the driver's, as the error it raises.\<close>

fun reap_loop ::
  "(string \<Rightarrow> string option) \<Rightarrow> (managed_container \<Rightarrow> string option) \<Rightarrow> managed_container list
     \<Rightarrow> string list \<times> (string \<times> string) list" where
  "reap_loop remove reason [] = ([], [])"
| "reap_loop remove reason (c # cs) =
     (let (removed, failed) = reap_loop remove reason cs in
      case reason c of
        None \<Rightarrow> (removed, failed)
      | Some _ \<Rightarrow>
          (case remove (mc_container_id c) of
             Some e \<Rightarrow> (removed, (mc_container_id c, e) # failed)
           | None \<Rightarrow> (mc_container_id c # removed, failed)))"

definition reap ::
  "(string \<Rightarrow> string option) \<Rightarrow> int \<Rightarrow> string set option \<Rightarrow> int \<Rightarrow> managed_container list \<Rightarrow> reap_report" where
  "reap remove max_age_us active_run_ids now_us containers =
     (let active = (case active_run_ids of None \<Rightarrow> {} | Some a \<Rightarrow> a);
          (removed, failed) = reap_loop remove
            (reap_reason max_age_us active now_us (active_run_ids \<noteq> None)) containers in
      \<lparr>rp_inspected = length containers, rp_removed = removed, rp_failed = failed\<rparr>)"

subsection \<open>Running a container, case by case\<close>

abbreviation watch :: "sandbox_spec \<Rightarrow> bool \<Rightarrow> (docker_world, string, watchdog_outcome) eff" where
  "watch s offers \<equiv> enforce_deadline (docker_wait offers OUTPUT_POLL_S) (send_signal SIGTERM)
     (send_signal SIGKILL) dw_clock (of_int (sp_timeout_s s)) (of_int (sp_grace_s s))"

lemma run_container_refused:
  assumes "validate_spec s \<noteq> [] \<or> (\<exists>e. validate_mounts env s = Inl e)"
  shows "\<exists>e. run_container env s offers d = (Inl e, d)"
  using assms by (cases "validate_spec s = []") (auto simp: run_container_def eff_simps)

text \<open>The result once the deadline has been enforced.\<close>

definition watched_result :: "sandbox_spec \<Rightarrow> string \<Rightarrow> daemon \<Rightarrow> string + watchdog_outcome \<Rightarrow> daemon \<Rightarrow> sandbox_result" where
  "watched_result s i d out d1 =
     (case out of
        Inl e \<Rightarrow> failure_result SB_ERROR e (Some i) (now_s d1 - now_s d)
      | Inr fin \<Rightarrow> finished_result s i (resolve_digest d (sp_image s)) (now_s d) fin d1)"

lemma resolve_digest_created: "resolve_digest (d\<lparr>da_created := x\<rparr>) img = resolve_digest d img"
  by (simp add: resolve_digest_def)

lemma create_run:
  "da_create d c = Inr i \<Longrightarrow> attempt (create_container c) d = (Inr (Inr i), d\<lparr>da_created := da_created d @ [c]\<rparr>)"
  "da_create d c = Inl e \<Longrightarrow> attempt (create_container c) d = (Inr (Inl e), d)"
  by (simp_all add: attempt_def create_container_def)

lemma watch_run:
  fixes d :: daemon and c :: container_config and s i dg started
  defines "d0 \<equiv> d\<lparr>da_created := da_created d @ [c]\<rparr>"
  assumes "watch s offers (da_world d) = (out, w)"
  shows "catch_s (watch_container s offers i (resolve_digest d (sp_image s)) (now_s d))
           (\<lambda>e. bind_s (reads now_s) (\<lambda>now. ret (failure_result SB_ERROR e (Some i) (now - now_s d)))) d0
       = (Inr (watched_result s i d out (d0\<lparr>da_world := w\<rparr>)), d0\<lparr>da_world := w\<rparr>)"
  using assms(2)
  by (cases out) (simp_all add: d0_def eff_simps watch_container_def on_world_def watched_result_def)

lemma run_container_eqs:
  assumes "validate_spec s = []" "validate_mounts env s = Inr u"
  shows "build_create_kwargs env s = Inl e \<Longrightarrow> run_container env s offers d =
      (Inr (failure_result SB_START_FAILED (''could not build container spec: '' @ e) None 0), d)"
    "build_create_kwargs env s = Inr c \<Longrightarrow> da_create d c = Inl e \<Longrightarrow> run_container env s offers d =
      (Inr (failure_result SB_START_FAILED e None 0), d)"
    "build_create_kwargs env s = Inr c \<Longrightarrow> da_create d c = Inr i \<Longrightarrow> da_start_error d = Some e \<Longrightarrow>
      run_container env s offers d = (Inr (failure_result SB_START_FAILED e (Some i) 0),
        remove_container i (d\<lparr>da_created := da_created d @ [c]\<rparr>))"
    "build_create_kwargs env s = Inr c \<Longrightarrow> da_create d c = Inr i \<Longrightarrow> da_start_error d = None \<Longrightarrow>
      watch s offers (da_world d) = (out, w) \<Longrightarrow>
      d1 = d\<lparr>da_created := da_created d @ [c], da_world := w\<rparr> \<Longrightarrow>
      run_container env s offers d = (Inr (watched_result s i d out d1),
        if sp_auto_remove s then remove_container i d1 else d1)"
     apply (simp add: run_container_def assms eff_simps)
    apply (simp add: run_container_def assms run_bind run_simps create_run now_s_def)
   apply (simp add: run_container_def assms run_bind run_simps create_run now_s_def)
  apply (cases "sp_auto_remove s")
   apply (simp_all add: run_container_def assms run_bind run_simps create_run resolve_digest_created watch_run del: run_catch)
  done

lemma run_container_cases:
  assumes "validate_spec s = []" "validate_mounts env s = Inr u"
    and "run_container env s offers d = (r, d')"
  obtains (not_built) e where "build_create_kwargs env s = Inl e" "d' = d"
      "r = Inr (failure_result SB_START_FAILED (''could not build container spec: '' @ e) None 0)"
    | (not_created) c e where "build_create_kwargs env s = Inr c" "da_create d c = Inl e" "d' = d"
      "r = Inr (failure_result SB_START_FAILED e None 0)"
    | (not_started) c i e where "build_create_kwargs env s = Inr c" "da_create d c = Inr i"
      "da_start_error d = Some e" "d' = remove_container i (d\<lparr>da_created := da_created d @ [c]\<rparr>)"
      "r = Inr (failure_result SB_START_FAILED e (Some i) 0)"
    | (ran) c i out w d1 where "build_create_kwargs env s = Inr c" "da_create d c = Inr i"
      "watch s offers (da_world d) = (out, w)"
      "d1 = d\<lparr>da_created := da_created d @ [c], da_world := w\<rparr>"
      "d' = (if sp_auto_remove s then remove_container i d1 else d1)"
      "r = Inr (watched_result s i d out d1)"
proof -
  note eqs = run_container_eqs [OF assms(1,2), where d = d and offers = offers, unfolded assms(3) prod.inject]
  show thesis
  proof (cases "build_create_kwargs env s")
    case (Inl e)
    from eqs(1) [OF Inl] show thesis by (elim conjE) (rule not_built [OF Inl])
  next
    case built: (Inr c)
    show thesis
    proof (cases "da_create d c")
      case (Inl e)
      from eqs(2) [OF built Inl] show thesis by (elim conjE) (rule not_created [OF built Inl])
    next
      case made: (Inr i)
      show thesis
      proof (cases "da_start_error d")
        case (Some e)
        from eqs(3) [OF built made Some] show thesis by (elim conjE) (rule not_started [OF built made Some])
      next
        case None
        obtain out w where watch: "watch s offers (da_world d) = (out, w)" by (cases "watch s offers (da_world d)")
        from eqs(4) [OF built made None watch refl] show thesis by (elim conjE) (rule ran [OF built made watch refl])
      qed
    qed
  qed
qed

subsection \<open>Isolation\<close>

text \<open>What the daemon is told about a container that is inside the boundary.\<close>

definition isolated :: "driver_env \<Rightarrow> container_config \<Rightarrow> bool" where
  "isolated env c \<longleftrightarrow>
     cc_network_mode c = ''none'' \<and> cc_read_only c \<and> cc_user c \<notin> {''0:0'', ''root'', ''0'', ''''}
     \<and> ''ALL'' \<in> set (cc_cap_drop c) \<and> cc_cap_add c = None
     \<and> ''no-new-privileges:true'' \<in> set (cc_security_opt c)
     \<and> 0 < cc_mem_limit c \<and> cc_memswap_limit c = cc_mem_limit c \<and> 0 < cc_pids_limit c
     \<and> (''bare.managed'', ''true'') \<in> set (cc_labels c)
     \<and> (\<forall>h v. map_of (cc_volumes c) h = Some v \<longrightarrow>
          (\<exists>source. to_host_path env source = Inr h \<and> starts_with (de_run_root env) (de_resolve env source)))"

lemma map_e_set: "map_e f xs = Inr ys \<Longrightarrow> y \<in> set ys \<Longrightarrow> \<exists>x \<in> set xs. f x = Inr y"
  by (induction xs arbitrary: ys) (auto simp: err_simps)

lemma map_e_all: "map_e f xs = Inr ys \<Longrightarrow> x \<in> set xs \<Longrightarrow> \<exists>y. f x = Inr y"
  by (induction xs arbitrary: ys) (auto simp: err_simps)

lemma built_volumes:
  assumes "map_e (\<lambda>m. bind_e (to_host_path env (bm_source m))
             (\<lambda>h. Inr (h, bm_target m, mode_text (bm_mode m)))) ms = Inr vs"
    and "map_of (dict_of fst snd vs) h = Some v"
  shows "\<exists>m \<in> set ms. to_host_path env (bm_source m) = Inr h"
proof -
  obtain p where "p \<in> set vs" "fst p = h"
    using assms(2) by (auto simp: dict_of_get dest: find_SomeD)
  with map_e_set [OF assms(1), of p] obtain m where "m \<in> set ms"
    "bind_e (to_host_path env (bm_source m)) (\<lambda>h. Inr (h, bm_target m, mode_text (bm_mode m))) = Inr p"
    by blast
  with \<open>fst p = h\<close> show ?thesis by (auto simp: err_simps)
qed

lemma validated_mount:
  "validate_mounts env s = Inr u \<Longrightarrow> m \<in> set (sp_mounts s) \<Longrightarrow>
     starts_with (de_run_root env) (de_resolve env (bm_source m))"
  by (auto simp: validate_mounts_def err_simps dest: map_e_all)

lemma built_isolated:
  assumes "validate_spec s = []" "validate_mounts env s = Inr u" "build_create_kwargs env s = Inr c"
  shows "isolated env c"
proof -
  note l = validate_locked_down [OF assms(1), unfolded locked_down_def]
  obtain profile volumes where
    volumes: "map_e (\<lambda>m. bind_e (to_host_path env (bm_source m))
             (\<lambda>h. Inr (h, bm_target m, mode_text (bm_mode m)))) (sp_mounts s) = Inr volumes"
    and net: "sp_network s = NET_NONE"
    and c: "cc_network_mode c = ''none''" "cc_read_only c = sp_read_only_rootfs s" "cc_user c = sp_user s"
      "cc_cap_drop c = sp_cap_drop s" "cc_cap_add c = or_none (sp_cap_add s)"
      "sp_no_new_privileges s \<Longrightarrow> ''no-new-privileges:true'' \<in> set (cc_security_opt c)"
      "cc_mem_limit c = sp_mem_limit_bytes s" "cc_memswap_limit c = sp_mem_limit_bytes s"
      "cc_pids_limit c = sp_pids_limit s" "cc_labels c = spec_labels s"
      "cc_volumes c = dict_of fst snd volumes"
    using assms(3) by (auto simp: build_create_kwargs_def err_simps)
  have "\<exists>source. to_host_path env source = Inr h \<and> starts_with (de_run_root env) (de_resolve env source)"
    if "map_of (cc_volumes c) h = Some v" for h v
    using built_volumes [OF volumes that[unfolded c(11)]] validated_mount [OF assms(2)] by blast
  then show ?thesis
    unfolding isolated_def c using l c(6) by (simp add: or_none_def spec_labels_def c)
qed

text \<open>C13: No container leaves the boundary: whatever spec the driver is given, a container it asks the
  daemon to create has no network, a read-only root file system, no capability beyond the dropped
  set, no new privileges, bounded memory, swap and processes, a label the reaper finds it by, does
  not run as root by name or as 0:0, and sees only directories inside the run root.\<close>

theorem created_containers_are_isolated:
  assumes "run_container env s offers d = (r, d')" "list_all (isolated env) (da_created d)"
  shows "list_all (isolated env) (da_created d')"
proof (cases "validate_spec s = [] \<and> (\<exists>u. validate_mounts env s = Inr u)")
  case False
  then obtain e where "run_container env s offers d = (Inl e, d)"
    using run_container_refused [of s env offers d] by (cases "validate_mounts env s") auto
  with assms show ?thesis by simp
next
  case True
  then obtain u where v: "validate_spec s = []" "validate_mounts env s = Inr u" by blast
  note iso = built_isolated [OF v]
  from v assms(1) have "da_created d' = da_created d \<or> (\<exists>c. build_create_kwargs env s = Inr c \<and> da_created d' = da_created d @ [c])"
  proof (cases rule: run_container_cases)
    case (not_built e)
    show ?thesis unfolding not_built(2) by blast
  next
    case (not_created c e)
    show ?thesis unfolding not_created(3) by blast
  next
    case (not_started c i e)
    show ?thesis unfolding not_started(4) using not_started(1) by (simp add: remove_container_def)
  next
    case (ran c i out w d1)
    show ?thesis unfolding ran(5) ran(4) using ran(1) by (simp add: remove_container_def)
  qed
  with iso assms(2) show ?thesis by auto
qed

text \<open>What a result may say of a run from \<open>d\<close> to \<open>d'\<close>.\<close>

definition honest_result :: "sandbox_result \<Rightarrow> daemon \<Rightarrow> daemon \<Rightarrow> bool" where
  "honest_result res d d' \<longleftrightarrow>
     (sr_status res = SB_COMPLETED \<longrightarrow>
        sr_exit_code res \<noteq> None \<and> \<not> was_oom_killed d
        \<and> dw_signals (da_world d') = dw_signals (da_world d))
     \<and> (sandbox_is_degraded (sr_status res) \<longleftrightarrow> sr_error res \<noteq> None)
     \<and> length (sr_stdout res) \<le> MAX_LOG_BYTES + length LOG_TRUNCATED
     \<and> length (sr_stderr res) \<le> MAX_LOG_BYTES + length LOG_TRUNCATED"

lemma collect_log_bound: "length (collect_log d out) \<le> MAX_LOG_BYTES + length LOG_TRUNCATED"
  by (simp add: collect_log_def cap_log_def bytes_of_def split: option.splits)

lemma failure_honest: "st \<noteq> SB_COMPLETED \<Longrightarrow> honest_result (failure_result st e i t) d d'"
  by (simp add: honest_result_def failure_result_def sandbox_is_degraded_def)

text \<open>A run always ends in a result and never leaks: for an acceptable spec the driver does not
  raise, a container it created is removed again (unless the spec keeps it), a completed result
  means the container exited by itself and was not killed for memory, every degraded result says
  why, and neither stream is longer than the cap plus its marker.\<close>

theorem run_ends_and_cleans_up:
  assumes "validate_spec s = []" "validate_mounts env s = Inr u" "sp_auto_remove s"
    and "daemon_ok slack (da_world d)" "run_container env s offers d = (r, d')"
  shows "(\<exists>res. r = Inr res \<and> honest_result res d d')
    \<and> (da_created d' = da_created d \<and> da_removed d' = da_removed d
       \<or> (\<exists>c i. da_created d' = da_created d @ [c] \<and> da_create d c = Inr i
             \<and> da_removed d' = da_removed d @ [i]))"
  using assms(1,2,5)
proof (cases rule: run_container_cases)
  case (ran c i out w d1)
  have pos: "(0 :: rat) < of_int (sp_timeout_s s)" "(0 :: rat) \<le> of_int (sp_grace_s s)"
    using validate_locked_down [OF assms(1)] by (simp_all add: locked_down_def)
  have poll: "0 < OUTPUT_POLL_S" by (simp add: OUTPUT_POLL_S_def)
  have "polled_ok OUTPUT_POLL_S slack (da_world d)" using assms(4) poll by (simp add: polled_ok_def)
  from dh.enforce_result [OF this pos ran(3)] obtain dt sg where
    world: "dh.progress OUTPUT_POLL_S slack (da_world d) dt sg w"
    and out: "\<forall>fin. out = Inr fin \<longrightarrow> sg = signals_for (wo_verdict fin)
        \<and> (wo_exit_code fin = None \<longleftrightarrow> wo_verdict fin = W_ESCAPED)"
    by blast
  have signals: "dw_signals (da_world d') = dw_signals (da_world d) @ sg"
    using world ran(4,5) by (simp add: dh.progress_def remove_container_def)
  have "honest_result (watched_result s i d out d1) d d'"
  proof (cases out)
    case (Inl e)
    then show ?thesis by (simp add: watched_result_def failure_honest)
  next
    case (Inr fin)
    with out signals ran(4) show ?thesis
      by (simp add: watched_result_def finished_result_def honest_result_def Let_def collect_log_bound
          sandbox_is_degraded_def was_oom_killed_def signals_for_def)
  qed
  with ran assms(3) show ?thesis by (auto simp: remove_container_def)
next
  case (not_started c i e)
  then show ?thesis by (auto simp: remove_container_def failure_honest)
qed (auto simp: failure_honest)

definition demo_env :: driver_env where
  "demo_env = \<lparr>de_resolve = (\<lambda>s. [''runs'', s]), de_run_root = [''runs''],
     de_host_run_root = Some (''C:'' @ [CHR 0x5C] @ ''runs''), de_read_profile = (\<lambda>_. Some ''{}''),
     de_json_compact = (\<lambda>s. Some s)\<rparr>"

definition demo_spec :: sandbox_spec where
  "demo_spec = (default_spec ''bare/static:dev'' ''r1'' ''static'')
     \<lparr>sp_mounts := [\<lparr>bm_source = ''in'', bm_target = ''/input'', bm_mode = READ_ONLY\<rparr>]\<rparr>"

definition demo_daemon :: daemon where
  "demo_daemon = \<lparr>da_world = stubborn, da_create = (\<lambda>_. Inr ''c1''), da_start_error = None,
     da_image_attrs = (\<lambda>_. None), da_logs = (\<lambda>_. None), da_oom = Some False,
     da_created = [], da_removed = []\<rparr>"

lemma demo_valid: "validate_spec demo_spec = []" "validate_mounts demo_env demo_spec = Inr ()"
proof -
  show "validate_spec demo_spec = []"
    using default_spec_valid [of "''r1''" "''static''" "''bare/static:dev''"]
    by (simp add: demo_spec_def validate_spec_def writable_targets_def mount_errors_def Let_def
        slashed_def ends_with_def check_error_def OUTPUT_DIR_def INPUT_DIR_def split: if_splits)
  show "validate_mounts demo_env demo_spec = Inr ()"
    by (simp add: validate_mounts_def demo_env_def demo_spec_def)
qed

theorem created_containers_are_isolated_witness:
  "list_all (isolated demo_env) (da_created (snd (run_container demo_env demo_spec False demo_daemon)))"
  by (rule created_containers_are_isolated [OF surjective_pairing]) (simp add: demo_daemon_def)

theorem run_ends_and_cleans_up_witness:
  "\<exists>res. fst (run_container demo_env demo_spec True demo_daemon) = Inr res"
proof -
  have "sp_auto_remove demo_spec" "daemon_ok 1 (da_world demo_daemon)"
    using stubborn_ok by (simp_all add: demo_spec_def default_spec_def demo_daemon_def)
  from run_ends_and_cleans_up [OF demo_valid this surjective_pairing] show ?thesis by blast
qed

subsection \<open>Reaping\<close>

lemma reap_loop_result:
  "reap_loop remove reason cs =
     (map mc_container_id (filter (\<lambda>c. reason c \<noteq> None \<and> remove (mc_container_id c) = None) cs),
      map (\<lambda>c. (mc_container_id c, the (remove (mc_container_id c))))
        (filter (\<lambda>c. reason c \<noteq> None \<and> remove (mc_container_id c) \<noteq> None) cs))"
  by (induction cs) (auto split: option.splits)

text \<open>The reaper removes orphans and nothing else: a container is removed exactly when removal
  succeeds and it has outlived the maximum age or, liveness being known, its run is not active; a
  failed removal is reported and stops nothing; with liveness unknown, no container within the
  maximum age is touched.\<close>

theorem reaper_removes_exactly_orphans:
  "let rep = reap remove max_age active now cs in
     rp_removed rep = map mc_container_id (filter (\<lambda>c.
         (now - mc_created_us c > max_age
          \<or> (case active of None \<Rightarrow> False | Some ids \<Rightarrow> mc_run_id c \<notin> ids))
         \<and> remove (mc_container_id c) = None) cs)
     \<and> map fst (rp_failed rep) = map mc_container_id (filter (\<lambda>c.
         (now - mc_created_us c > max_age
          \<or> (case active of None \<Rightarrow> False | Some ids \<Rightarrow> mc_run_id c \<notin> ids))
         \<and> remove (mc_container_id c) \<noteq> None) cs)
     \<and> rp_inspected rep = length cs"
proof -
  have reason: "reap_reason max_age (case active of None \<Rightarrow> {} | Some a \<Rightarrow> a) now (active \<noteq> None) c \<noteq> None
    \<longleftrightarrow> now - mc_created_us c > max_age \<or> (case active of None \<Rightarrow> False | Some ids \<Rightarrow> mc_run_id c \<notin> ids)" for c
    by (cases active) (simp_all add: reap_reason_def)
  show ?thesis
    unfolding reap_def Let_def reap_loop_result case_prod_conv reap_report.simps reason
    by (simp add: comp_def)
qed

text \<open>Age wins over liveness: a container of an active run is removed once it is older than the
  maximum age (the module's own description says it never is).\<close>

theorem old_active_container_is_reaped:
  assumes "mc_run_id c \<in> ids" "now - mc_created_us c > max_age" "remove (mc_container_id c) = None"
  shows "rp_removed (reap remove max_age (Some ids) now [c]) = [mc_container_id c]"
  using assms by (simp add: reap_def reap_reason_def)

theorem old_active_container_is_reaped_witness:
  "rp_removed (reap (\<lambda>_. None) 21600000000 (Some {''r1''}) 30000000000
     [\<lparr>mc_container_id = ''c1'', mc_run_id = ''r1'', mc_analyzer = ''ghidra'', mc_created_us = 0, mc_running = True\<rparr>])
   = [''c1'']"
  by (subst old_active_container_is_reaped) simp_all

end
