(* ===== verification/Scan_Model.thy ===== *)
theory Scan_Model
  imports Run_Recovery Correlator Stage_Logs Sandbox_Docker
begin

text \<open>
  The steps of the scan pipeline (\<open>core/pipeline/scan.py\<close>): claiming a run, recording stages,
  turning the analyzers' result documents into rows. The documents are JSON objects written inside
  the sandbox; a key is \<open>None\<close> where it is absent, and reading an absent required key is a
  \<open>KeyError\<close>. Present keys hold values of the documented type.
\<close>

definition UNPACK_TIMEOUT_S :: int where "UNPACK_TIMEOUT_S = 900"
definition STATIC_TIMEOUT_S :: int where "STATIC_TIMEOUT_S = 1800"
definition RETAIN_EXTRACTED_MAX_BYTES :: int where "RETAIN_EXTRACTED_MAX_BYTES = 32 * 1024 * 1024"
definition RESIDUE_SAMPLE_SIZE :: nat where "RESIDUE_SAMPLE_SIZE = 400"

subsection \<open>Documents\<close>

record node_json =
  nj_relative_path :: "string option"
  nj_path_in_tree :: "string option"
  nj_parent_path :: "string option"
  nj_depth :: "int option"
  nj_sha256 :: "string option"
  nj_size_bytes :: "int option"
  nj_extracted_by :: "string option"

record unpack_json =
  uj_nodes :: "node_json list"
  uj_truncated :: bool
  uj_reasons :: "string list"
  uj_tool_versions :: "(string, string) dict"

record match_json =
  mj_rule_id :: "string option"
  mj_value_hash :: "string option"
  mj_value_masked :: "string option"
  mj_value_plaintext :: "string option"
  mj_offset :: "int option"
  mj_encoding :: "string option"
  mj_entropy :: "rat option"
  mj_context :: "string option"
  mj_context_plaintext :: "string option"

record file_json =
  fj_relative_path :: "string option"
  fj_kind :: "string option"
  fj_media_type :: "string option"
  fj_architecture :: "string option"
  fj_other :: "(string \<times> pyval) list"
  fj_matches :: "match_json list"

record static_json =
  sj_files :: "file_json list"
  sj_tool_versions :: "(string, string) dict"
  sj_residue :: "pyval list"
  sj_recon :: pyval
  sj_components :: pyval

text \<open>\<open>_read_result(...) or {}\<close>: a missing or unparseable document reads as an empty one.\<close>

definition empty_unpack :: unpack_json where
  "empty_unpack = \<lparr>uj_nodes = [], uj_truncated = False, uj_reasons = [], uj_tool_versions = []\<rparr>"

definition empty_static :: static_json where
  "empty_static = \<lparr>sj_files = [], sj_tool_versions = [], sj_residue = [], sj_recon = PDict [],
     sj_components = PDict []\<rparr>"

text \<open>What \<open>result.json\<close> holds: nothing, bytes that are not UTF-8 (a \<open>UnicodeDecodeError\<close>, which the
  code does not catch) or a text, which may not parse.\<close>

datatype result_file = No_File | Not_Utf8 string | File_Text string

definition read_result :: "(string \<Rightarrow> 'a option) \<Rightarrow> result_file \<Rightarrow> string + 'a option" where
  "read_result parse f =
     (case f of No_File \<Rightarrow> Inr None | Not_Utf8 e \<Rightarrow> Inl e | File_Text t \<Rightarrow> Inr (parse t))"

definition or_empty :: "'a \<Rightarrow> 'a option \<Rightarrow> 'a" where
  "or_empty z x = (case x of None \<Rightarrow> z | Some y \<Rightarrow> y)"

subsection \<open>Claiming a run\<close>

definition claim_row :: "moment \<Rightarrow> run \<Rightarrow> run" where
  "claim_row now r = r\<lparr>r_status := R_RUNNING, r_started_at := Some now\<rparr>"

text \<open>The conditional update; its result is whether a row matched.\<close>

definition claim_run :: "string \<Rightarrow> moment \<Rightarrow> db \<Rightarrow> bool \<times> db" where
  "claim_run run_id now d =
     (let hits = (\<lambda>r. r_id r = run_id \<and> r_status r = R_QUEUED) in
      (list_ex hits (db_runs d),
       d\<lparr>db_runs := map (\<lambda>r. if hits r then claim_row now r else r) (db_runs d)\<rparr>))"

subsection \<open>Recording a stage\<close>

definition stage_status_of :: "sandbox_result \<Rightarrow> stage_status" where
  "stage_status_of res =
     (case sr_status res of
        SB_COMPLETED \<Rightarrow> if sr_exit_code res = Some 0 then S_COMPLETED else S_FAILED
      | SB_TIMEOUT \<Rightarrow> S_TIMEOUT
      | SB_OOM \<Rightarrow> S_OOM
      | SB_START_FAILED \<Rightarrow> S_FAILED
      | SB_ERROR \<Rightarrow> S_FAILED)"

definition cut_text :: "nat \<Rightarrow> string \<Rightarrow> string" where
  "cut_text n s = utf8_take n s"

text \<open>\<open>result.error or (redacted stderr if result.exit_code else None)\<close>.\<close>

definition stage_error_of :: "rule_pack \<Rightarrow> sandbox_result \<Rightarrow> string option" where
  "stage_error_of pack res =
     (case or_str (sr_error res) None of
        Some e \<Rightarrow> Some e
      | None \<Rightarrow>
          (case sr_exit_code res of
             Some c \<Rightarrow> if c \<noteq> 0 then Some (cut_text 2000 (redact_log_text pack (utf8_replace (sr_stderr res))))
                       else None
           | None \<Rightarrow> None))"

definition record_stage ::
  "bool \<Rightarrow> moment \<Rightarrow> rule_pack \<Rightarrow> sandbox_result \<Rightarrow> run_stage \<times> objects \<Rightarrow> run_stage \<times> objects" where
  "record_stage log_store_ok now pack res st =
     (case st of (stage, store) \<Rightarrow>
        (let ((key, size, truncated), store') = store_stage_log log_store_ok store (st_run_id stage)
               (st_id stage) (sr_stdout res) (sr_stderr res) pack
         in (stage\<lparr>st_finished_at := Some now,
                   st_duration_s := Some (round3_rat (sr_duration_s res)),
                   st_exit_code := sr_exit_code res,
                   st_image_digest := sr_image_digest res,
                   st_error := stage_error_of pack res,
                   st_status := stage_status_of res,
                   st_log_key := key, st_log_bytes := size, st_log_truncated := truncated\<rparr>, store')))"

text \<open>What \<open>_run_unpack\<close> and \<open>_run_static\<close> add once the result has been read.\<close>

definition finish_unpack :: "unpack_json \<Rightarrow> run_stage \<Rightarrow> run_stage" where
  "finish_unpack payload stage =
     (let counted = stage\<lparr>st_evidence_count := length (uj_nodes payload)\<rparr> in
      if uj_truncated payload
      then counted\<lparr>st_status := S_TRUNCATED, st_error := Some (cut_text 2000 (join ''; '' (uj_reasons payload)))\<rparr>
      else counted)"

definition finish_static :: "static_json \<Rightarrow> run_stage \<Rightarrow> run_stage" where
  "finish_static payload stage =
     stage\<lparr>st_evidence_count := sum_list (map (\<lambda>f. length (fj_matches f)) (sj_files payload))\<rparr>"

definition new_stage :: "string \<Rightarrow> string \<Rightarrow> string \<Rightarrow> string \<Rightarrow> moment \<Rightarrow> run_stage" where
  "new_stage stage_id run_id artifact_id analyzer now =
     \<lparr>st_id = stage_id, st_run_id = run_id, st_artifact_id = Some artifact_id, st_analyzer = analyzer,
      st_status = S_RUNNING, st_created_at = now, st_started_at = Some now, st_finished_at = None,
      st_exit_code = None, st_image_digest = None, st_error = None, st_evidence_count = 0,
      st_duration_s = None, st_log_key = None, st_log_bytes = 0, st_log_truncated = False\<rparr>"

subsection \<open>Resources\<close>

definition analyzer_memory_bytes :: "rat \<Rightarrow> int" where
  "analyzer_memory_bytes memory_gb = \<lfloor>max 1 memory_gb * 1024 ^ 3\<rfloor>"

definition analyzer_nano_cpus :: "rat \<Rightarrow> int" where
  "analyzer_nano_cpus cpus = \<lfloor>max 1 cpus * 1000000000\<rfloor>"

definition ro_mount :: "string \<Rightarrow> string \<Rightarrow> bind_mount" where
  "ro_mount source target = \<lparr>bm_source = source, bm_target = target, bm_mode = READ_ONLY\<rparr>"

definition rw_mount :: "string \<Rightarrow> string \<Rightarrow> bind_mount" where
  "rw_mount source target = \<lparr>bm_source = source, bm_target = target, bm_mode = READ_WRITE\<rparr>"

definition unpack_spec :: "string \<Rightarrow> string \<Rightarrow> rat \<Rightarrow> rat \<Rightarrow> string \<Rightarrow> string \<Rightarrow> sandbox_spec" where
  "unpack_spec img run_id cpus memory_gb staging results =
     (default_spec img run_id ''unpack'')
       \<lparr>sp_timeout_s := UNPACK_TIMEOUT_S, sp_nano_cpus := analyzer_nano_cpus cpus,
        sp_mem_limit_bytes := analyzer_memory_bytes memory_gb,
        sp_mounts := [ro_mount staging INPUT_DIR, rw_mount results OUTPUT_DIR]\<rparr>"

definition static_command :: "bool \<Rightarrow> string list" where
  "static_command retain_plaintext =
     [''--recon'', ''--components'', ''--emit-residue'', show_nat RESIDUE_SAMPLE_SIZE]
     @ (if retain_plaintext then [''--include-plaintext''] else [])"

definition static_spec ::
  "string \<Rightarrow> string \<Rightarrow> bool \<Rightarrow> rat \<Rightarrow> rat \<Rightarrow> string \<Rightarrow> string \<Rightarrow> string \<Rightarrow> sandbox_spec" where
  "static_spec img run_id retain_plaintext cpus memory_gb staging rules_dir results =
     (default_spec img run_id ''static'')
       \<lparr>sp_command := static_command retain_plaintext,
        sp_timeout_s := STATIC_TIMEOUT_S, sp_nano_cpus := analyzer_nano_cpus cpus,
        sp_mem_limit_bytes := analyzer_memory_bytes memory_gb,
        sp_mounts := [ro_mount staging INPUT_DIR, ro_mount rules_dir ''/rules'', rw_mount results OUTPUT_DIR]\<rparr>"

subsection \<open>The tree\<close>

definition key_error :: "string \<Rightarrow> string" where
  "key_error k = repr_str k"

definition need :: "string \<Rightarrow> 'a option \<Rightarrow> string + 'a" where
  "need k v = option_to_e (key_error k) v"

definition node_sort_key :: "node_json \<Rightarrow> string + int \<times> string" where
  "node_sort_key n =
     bind_e (need ''depth'' (nj_depth n)) (\<lambda>d. bind_e (need ''path_in_tree'' (nj_path_in_tree n)) (\<lambda>p. Inr (d, p)))"

text \<open>\<open>Path(p).name\<close>.\<close>

definition path_name :: "string \<Rightarrow> string" where
  "path_name p = (if path_parts p = [] then [] else last (path_parts p))"

text \<open>One turn of the loop: the row, and the parent recorded for its children.\<close>

definition materialise_node ::
  "string \<Rightarrow> artifact \<Rightarrow> string \<Rightarrow> (string, string) dict \<Rightarrow> node_json \<Rightarrow> string + artifact" where
  "materialise_node run_id root_row new_id by_path n =
     bind_e (need ''relative_path'' (nj_relative_path n)) (\<lambda>relative.
     bind_e (need ''path_in_tree'' (nj_path_in_tree n)) (\<lambda>path.
     bind_e (need ''depth'' (nj_depth n)) (\<lambda>depth.
     bind_e (need ''size_bytes'' (nj_size_bytes n)) (\<lambda>bytes.
       Inr \<lparr>a_id = new_id, a_run_id = run_id,
            a_parent_id = Some (if nj_parent_path n = Some (a_path_in_tree root_row) then a_id root_row
              else (case map_of by_path (or_empty [] (nj_parent_path n)) of
                      Some p \<Rightarrow> p | None \<Rightarrow> a_id root_row)),
            a_name = path_name relative, a_path_in_tree = path, a_depth = depth,
            a_sha256 = or_empty [] (nj_sha256 n), a_size_bytes = bytes, a_storage_key = None,
            a_extracted_by = nj_extracted_by n, a_kind = ''unknown'', a_media_type = None,
            a_architecture = None, a_identified = []\<rparr>))))"

fun materialise_nodes ::
  "string \<Rightarrow> artifact \<Rightarrow> (nat \<Rightarrow> string) \<Rightarrow> nat \<Rightarrow> (string, string) dict \<Rightarrow> node_json list
     \<Rightarrow> string + artifact list \<times> (string, string) dict" where
  "materialise_nodes run_id root_row uuid k by_path [] = Inr ([], by_path)"
| "materialise_nodes run_id root_row uuid k by_path (n # ns) =
     bind_e (materialise_node run_id root_row (uuid k) by_path n) (\<lambda>a.
     bind_e (materialise_nodes run_id root_row uuid (Suc k) (AList.update (a_path_in_tree a) (a_id a) by_path) ns)
       (\<lambda>(rest, by_path'). Inr (a # rest, by_path')))"

definition materialise_tree ::
  "string \<Rightarrow> artifact \<Rightarrow> (nat \<Rightarrow> string) \<Rightarrow> unpack_json \<Rightarrow> string + artifact list \<times> (string, string) dict" where
  "materialise_tree run_id root_row uuid payload =
     bind_e (map_e node_sort_key (uj_nodes payload)) (\<lambda>keys.
       materialise_nodes run_id root_row uuid 0 []
         (map snd (sort_key fst (zip keys (uj_nodes payload)))))"

subsection \<open>Evidence\<close>

definition evidence_of :: "run \<Rightarrow> string \<Rightarrow> match_json \<Rightarrow> string + evidence" where
  "evidence_of run artifact_id x =
     bind_e (need ''rule_id'' (mj_rule_id x)) (\<lambda>rule_id.
     bind_e (need ''value_hash'' (mj_value_hash x)) (\<lambda>value_hash.
     bind_e (need ''value_masked'' (mj_value_masked x)) (\<lambda>value_masked.
       Inr \<lparr>ev_run_id = r_id run, ev_artifact_id = artifact_id, ev_analyzer = ''static'',
            ev_rule_id = rule_id, ev_value_hash = value_hash, ev_value_masked = value_masked,
            ev_value_plaintext = (if r_retain_plaintext run then mj_value_plaintext x else None),
            ev_offset = mj_offset x, ev_section = None, ev_encoding = mj_encoding x,
            ev_entropy = mj_entropy x, ev_context = mj_context x,
            ev_context_plaintext = (if r_retain_plaintext run then mj_context_plaintext x else None)\<rparr>)))"

definition staged_artifact :: "(string, string) dict \<Rightarrow> artifact \<Rightarrow> file_json \<Rightarrow> string" where
  "staged_artifact staged root_row f =
     (case map_of staged (or_empty [] (fj_relative_path f)) of Some i \<Rightarrow> i | None \<Rightarrow> a_id root_row)"

definition to_evidence ::
  "run \<Rightarrow> static_json \<Rightarrow> (string, string) dict \<Rightarrow> artifact \<Rightarrow> string + evidence list" where
  "to_evidence run payload staged root_row =
     bind_e (map_e (\<lambda>f. map_e (evidence_of run (staged_artifact staged root_row f)) (fj_matches f)) (sj_files payload))
       (\<lambda>rows. Inr (concat rows))"

definition staged_paths ::
  "artifact \<Rightarrow> bool \<Rightarrow> unpack_json \<Rightarrow> (string, string) dict \<Rightarrow> string + (string, string) dict" where
  "staged_paths root_row extracted payload by_path =
     (let start = [(''root/'' @ a_name root_row, a_id root_row)] in
      if \<not> extracted then Inr start
      else foldl (\<lambda>acc n. bind_e acc (\<lambda>d.
             bind_e (need ''relative_path'' (nj_relative_path n)) (\<lambda>relative.
             bind_e (need ''path_in_tree'' (nj_path_in_tree n)) (\<lambda>path.
               Inr (case or_str (map_of by_path path) None of
                      Some i \<Rightarrow> AList.update (''extracted/'' @ relative) i d | None \<Rightarrow> d)))))
             (Inr start) (uj_nodes payload))"

subsection \<open>Afterwards\<close>

text \<open>\<open>_retain_evidence_bytes\<close>: \<open>put rel name\<close> is the key under which the staged file is stored,
  \<open>None\<close> when it is not there or storing fails.\<close>

definition retain_evidence_bytes ::
  "(string \<Rightarrow> string \<Rightarrow> string option) \<Rightarrow> string \<Rightarrow> evidence list \<Rightarrow> (string, string) dict
     \<Rightarrow> artifact list \<Rightarrow> artifact list" where
  "retain_evidence_bytes put run_id rows staged artifacts =
     (let wanted = filter (\<lambda>i. i \<noteq> []) (map ev_artifact_id rows);
          on_disk = dict_of snd fst staged in
      map (\<lambda>a. if a_run_id a = run_id \<and> a_id a \<in> set wanted
                  \<and> or_str (a_storage_key a) None = None \<and> a_size_bytes a \<le> RETAIN_EXTRACTED_MAX_BYTES
               then (case or_str (map_of on_disk (a_id a)) None of
                       None \<Rightarrow> a
                     | Some rel \<Rightarrow> (case put rel (a_name a) of
                           None \<Rightarrow> a | Some key \<Rightarrow> a\<lparr>a_storage_key := Some key\<rparr>))
               else a) artifacts)"

definition identify :: "file_json \<Rightarrow> artifact \<Rightarrow> artifact" where
  "identify f a =
     a\<lparr>a_kind := or_empty (a_kind a) (fj_kind f), a_media_type := fj_media_type f,
       a_architecture := fj_architecture f, a_identified := fj_other f\<rparr>"

definition apply_identification ::
  "string \<Rightarrow> static_json \<Rightarrow> (string, string) dict \<Rightarrow> artifact list \<Rightarrow> artifact list" where
  "apply_identification run_id payload staged artifacts =
     foldl (\<lambda>as f.
        (case map_of staged (or_empty [] (fj_relative_path f)) of
           None \<Rightarrow> as
         | Some i \<Rightarrow> map (\<lambda>a. if a_run_id a = run_id \<and> a_id a = i then identify f a else a) as))
      artifacts (sj_files payload)"

text \<open>The last completed run with a root artifact of the same name, newest first.\<close>

definition previous_candidates :: "db \<Rightarrow> string \<Rightarrow> string \<Rightarrow> run list" where
  "previous_candidates d run_id name =
     filter (\<lambda>r. r_id r \<noteq> run_id \<and> r_status r = R_COMPLETED
        \<and> list_ex (\<lambda>a. a_run_id a = r_id r \<and> a_parent_id a = None \<and> a_name a = name) (db_artifacts d))
       (db_runs d)"

definition link_previous_run :: "string \<Rightarrow> artifact \<Rightarrow> db \<Rightarrow> db" where
  "link_previous_run run_id root_row d =
     (case sort_key (\<lambda>r. - m_us (r_created_at r)) (previous_candidates d run_id (a_name root_row)) of
        [] \<Rightarrow> d
      | p # _ \<Rightarrow> update_run run_id (\<lambda>r. r\<lparr>r_previous_run_id := Some (r_id p)\<rparr>) d)"

end
