(* ===== verification/Scan_Pipeline.thy ===== *)
theory Scan_Pipeline
  imports Scan_Model
begin

text \<open>
  The whole scan (\<open>core/pipeline/scan.py\<close>: \<open>run_scan\<close>, \<open>_execute\<close>, \<open>_run_unpack\<close>, \<open>_run_static\<close>) as a
  computation over the database, the evidence and manifest tables, the log store and the container
  daemon, and the task around it (\<open>core/orchestrator/scan_tasks.py\<close>: \<open>scan_run\<close>). What the scan asks
  of its surroundings is the record \<open>scan_env\<close>: clock readings and uuids by count, the outcome of
  each file operation by name, the rule pack, the result files and their JSON parsers, the drivers.
  A container runs through \<open>Sandbox_Docker.run_container\<close>. The daemon is given as each analyzer's
  container meets it. A commit publishes what the session already shows, so it has no step here.
\<close>

record run_manifest =
  mf_run_id :: string
  mf_artifact_sha256 :: string
  mf_pack_version :: string
  mf_pack_hash :: string
  mf_image_digests :: "(string, string) dict"
  mf_tool_versions :: "(string, string) dict"
  mf_residue :: "pyval list"
  mf_recon :: pyval
  mf_components :: pyval

record scan_world =
  w_db :: db
  w_evidence :: "evidence list"
  w_manifests :: "run_manifest list"
  w_suppressions :: "suppression list"
  w_objects :: objects
  w_daemon :: "string \<Rightarrow> daemon"
  w_ticks :: nat
  w_uuids :: nat

record scan_env =
  se_clock :: "nat \<Rightarrow> moment"
  se_uuid :: "nat \<Rightarrow> string"
  se_sha :: "string \<Rightarrow> string"
  se_pack :: "string + rule_pack"
  se_io :: "string \<Rightarrow> string + unit"
  se_extracted :: bool
  se_driver :: "string \<Rightarrow> string + driver_env"
  se_image :: "string \<Rightarrow> string"
  se_run_root :: string
  se_cpus :: rat
  se_memory_gb :: rat
  se_live_interval_s :: rat
  se_unpack_file :: result_file
  se_static_file :: result_file
  se_parse_unpack :: "string \<Rightarrow> unpack_json option"
  se_parse_static :: "string \<Rightarrow> static_json option"
  se_log_ok :: "string \<Rightarrow> bool"
  se_put_file :: "string \<Rightarrow> string \<Rightarrow> string option"

record scan_outcome =
  oc_run_id :: string
  oc_status :: run_status
  oc_findings :: nat
  oc_evidence :: nat
  oc_suppressed :: nat
  oc_artifacts :: nat
  oc_error :: "string option"

datatype scan_error = Run_Not_Found string | Run_Already_Claimed string

type_synonym 'a scan = "(scan_world, string, 'a) eff"

subsection \<open>Surroundings\<close>

definition now_e :: "scan_env \<Rightarrow> (scan_world, 'e, moment) eff" where
  "now_e env w = (Inr (se_clock env (w_ticks w)), w\<lparr>w_ticks := Suc (w_ticks w)\<rparr>)"

definition uuid_e :: "scan_env \<Rightarrow> (scan_world, 'e, string) eff" where
  "uuid_e env w = (Inr (se_uuid env (w_uuids w)), w\<lparr>w_uuids := Suc (w_uuids w)\<rparr>)"

definition io_e :: "scan_env \<Rightarrow> string \<Rightarrow> unit scan" where
  "io_e env op = lift_e (se_io env op)"

definition on_db :: "(db \<Rightarrow> db) \<Rightarrow> (scan_world, 'e, unit) eff" where
  "on_db f = modify (\<lambda>w. w\<lparr>w_db := f (w_db w)\<rparr>)"

definition on_daemon :: "string \<Rightarrow> (daemon, string, 'a) eff \<Rightarrow> 'a scan" where
  "on_daemon analyzer m w =
     (case m (w_daemon w analyzer) of (r, d) \<Rightarrow> (r, w\<lparr>w_daemon := (w_daemon w)(analyzer := d)\<rparr>))"

definition add_stage :: "run_stage \<Rightarrow> db \<Rightarrow> db" where
  "add_stage s d = d\<lparr>db_stages := db_stages d @ [s]\<rparr>"

definition put_stage :: "run_stage \<Rightarrow> db \<Rightarrow> db" where
  "put_stage s = update_stage (st_id s) (\<lambda>_. s)"

definition add_artifacts :: "artifact list \<Rightarrow> db \<Rightarrow> db" where
  "add_artifacts as d = d\<lparr>db_artifacts := db_artifacts d @ as\<rparr>"

definition on_artifacts :: "(artifact list \<Rightarrow> artifact list) \<Rightarrow> db \<Rightarrow> db" where
  "on_artifacts f d = d\<lparr>db_artifacts := f (db_artifacts d)\<rparr>"

definition add_correlation :: "correlation \<Rightarrow> db \<Rightarrow> db" where
  "add_correlation c d =
     d\<lparr>db_findings := db_findings d @ co_findings c, db_locations := db_locations d @ co_locations c\<rparr>"

subsection \<open>The two analyzer stages\<close>

definition begin_stage :: "scan_env \<Rightarrow> run \<Rightarrow> artifact \<Rightarrow> string \<Rightarrow> run_stage scan" where
  "begin_stage env run root_row analyzer =
     bind_s (now_e env) (\<lambda>now. bind_s (uuid_e env) (\<lambda>i.
     (let stage = new_stage i (r_id run) (a_id root_row) analyzer now in
      bind_s (on_db (add_stage stage)) (\<lambda>_. ret stage))))"

definition run_analyzer :: "scan_env \<Rightarrow> string \<Rightarrow> sandbox_spec \<Rightarrow> sandbox_result scan" where
  "run_analyzer env analyzer spec =
     bind_s (lift_e (se_driver env analyzer)) (\<lambda>driver.
       on_daemon analyzer (run_container driver spec (0 < se_live_interval_s env)))"

definition finish_stage :: "scan_env \<Rightarrow> rule_pack \<Rightarrow> sandbox_result \<Rightarrow> run_stage \<Rightarrow> run_stage scan" where
  "finish_stage env pack res stage =
     bind_s (now_e env) (\<lambda>now. bind_s (reads w_objects) (\<lambda>store.
     (let (stage', store') = record_stage (se_log_ok env (st_analyzer stage)) now pack res (stage, store) in
      bind_s (modify (\<lambda>w. w\<lparr>w_objects := store'\<rparr>)) (\<lambda>_.
      bind_s (on_db (put_stage stage')) (\<lambda>_. ret stage')))))"

definition run_dir :: "scan_env \<Rightarrow> run \<Rightarrow> string \<Rightarrow> string" where
  "run_dir env run sub = se_run_root env @ ''/'' @ r_id run @ ''/'' @ sub"

definition unpack_spec_of :: "scan_env \<Rightarrow> run \<Rightarrow> sandbox_spec" where
  "unpack_spec_of env run =
     unpack_spec (se_image env ''unpack'') (r_id run) (se_cpus env) (se_memory_gb env)
       (run_dir env run ''unpack_in'') (run_dir env run ''unpack_out'')"

definition static_spec_of :: "scan_env \<Rightarrow> run \<Rightarrow> sandbox_spec" where
  "static_spec_of env run =
     static_spec (se_image env ''static'') (r_id run) (r_retain_plaintext run) (se_cpus env)
       (se_memory_gb env) (run_dir env run ''scan_in'') (run_dir env run ''rules'')
       (run_dir env run ''scan_out'')"

definition run_unpack ::
  "scan_env \<Rightarrow> run \<Rightarrow> artifact \<Rightarrow> rule_pack \<Rightarrow> (sandbox_result \<times> unpack_json) scan" where
  "run_unpack env run root_row pack =
     bind_s (io_e env ''grant unpack_out'') (\<lambda>_.
     bind_s (begin_stage env run root_row ''unpack'') (\<lambda>stage.
     bind_s (run_analyzer env ''unpack'' (unpack_spec_of env run)) (\<lambda>res.
     bind_s (finish_stage env pack res stage) (\<lambda>stage.
     bind_s (lift_e (read_result (se_parse_unpack env) (se_unpack_file env))) (\<lambda>doc.
     bind_s (on_db (put_stage (finish_unpack (or_empty empty_unpack doc) stage))) (\<lambda>_.
       ret (res, or_empty empty_unpack doc)))))))"

definition run_static ::
  "scan_env \<Rightarrow> run \<Rightarrow> artifact \<Rightarrow> rule_pack \<Rightarrow> (sandbox_result \<times> static_json) scan" where
  "run_static env run root_row pack =
     bind_s (begin_stage env run root_row ''static'') (\<lambda>stage.
     bind_s (run_analyzer env ''static'' (static_spec_of env run)) (\<lambda>res.
     bind_s (finish_stage env pack res stage) (\<lambda>stage.
     bind_s (lift_e (read_result (se_parse_static env) (se_static_file env))) (\<lambda>doc.
     bind_s (on_db (put_stage (finish_static (or_empty empty_static doc) stage))) (\<lambda>_.
       ret (res, or_empty empty_static doc))))))"

subsection \<open>The scan\<close>

definition root_artifact :: "string \<Rightarrow> db \<Rightarrow> artifact option" where
  "root_artifact run_id d = List.find (\<lambda>a. a_run_id a = run_id \<and> a_parent_id a = None) (db_artifacts d)"

text \<open>Building the tree's rows; the uuids it draws follow those already drawn.\<close>

definition materialise :: "scan_env \<Rightarrow> run \<Rightarrow> artifact \<Rightarrow> unpack_json \<Rightarrow> (string, string) dict scan" where
  "materialise env run root_row payload =
     bind_s (reads w_uuids) (\<lambda>k.
     bind_s (lift_e (materialise_tree (r_id run) root_row (\<lambda>j. se_uuid env (k + j)) payload)) (\<lambda>(rows, by_path).
     bind_s (modify (\<lambda>w. w\<lparr>w_uuids := w_uuids w + length rows\<rparr>)) (\<lambda>_.
     bind_s (on_db (add_artifacts rows)) (\<lambda>_. ret by_path))))"

definition image_digest :: "sandbox_result \<Rightarrow> string" where
  "image_digest res = or_empty ''unknown'' (or_str (sr_image_digest res) None)"

definition manifest_of ::
  "run \<Rightarrow> artifact \<Rightarrow> rule_pack \<Rightarrow> sandbox_result \<Rightarrow> sandbox_result \<Rightarrow> unpack_json \<Rightarrow> static_json \<Rightarrow> run_manifest" where
  "manifest_of run root_row pack ures sres up sp =
     \<lparr>mf_run_id = r_id run, mf_artifact_sha256 = a_sha256 root_row, mf_pack_version = rp_version pack,
      mf_pack_hash = rp_hash pack,
      mf_image_digests = [(''unpack'', image_digest ures), (''static'', image_digest sres)],
      mf_tool_versions = AList.merge (uj_tool_versions up) (sj_tool_versions sp),
      mf_residue = sj_residue sp, mf_recon = sj_recon sp, mf_components = sj_components sp\<rparr>"

text \<open>From the static payload to findings: the part of \<open>_execute\<close> after the last container.\<close>

definition conclude ::
  "scan_env \<Rightarrow> run \<Rightarrow> artifact \<Rightarrow> rule_pack \<Rightarrow> (string, string) dict \<Rightarrow> (string, string) dict
     \<Rightarrow> sandbox_result \<times> unpack_json \<Rightarrow> sandbox_result \<times> static_json \<Rightarrow> scan_outcome scan" where
  "conclude env run root_row pack by_path staged unpacked scanned =
     (case (unpacked, scanned) of ((ures, up), (sres, sp)) \<Rightarrow>
     bind_s (lift_e (to_evidence run sp staged root_row)) (\<lambda>rows.
     bind_s (modify (\<lambda>w. w\<lparr>w_evidence := w_evidence w @ rows\<rparr>)) (\<lambda>_.
     bind_s (on_db (on_artifacts (retain_evidence_bytes (se_put_file env) (r_id run) rows staged))) (\<lambda>_.
     bind_s (on_db (on_artifacts (apply_identification (r_id run) sp staged))) (\<lambda>_.
     bind_s (reads (\<lambda>w. (dict_of a_id a_path_in_tree (filter (\<lambda>a. a_run_id a = r_id run) (db_artifacts (w_db w))),
                         w_suppressions w))) (\<lambda>(paths, suppressions).
     (let result = correlate (se_sha env) (r_id run) rows pack paths suppressions in
     bind_s (on_db (add_correlation result)) (\<lambda>_.
     bind_s (modify (\<lambda>w. w\<lparr>w_manifests := w_manifests w @ [manifest_of run root_row pack ures sres up sp]\<rparr>)) (\<lambda>_.
     bind_s (on_db (link_previous_run (r_id run) root_row)) (\<lambda>_.
       ret \<lparr>oc_run_id = r_id run, oc_status = R_COMPLETED, oc_findings = length (co_findings result),
            oc_evidence = length rows, oc_suppressed = co_suppressed result,
            oc_artifacts = 1 + length by_path, oc_error = None\<rparr>))))))))))"

definition execute :: "scan_env \<Rightarrow> run \<Rightarrow> scan_outcome scan" where
  "execute env run =
     bind_s (lift_e (se_pack env)) (\<lambda>pack.
     bind_s (reads (\<lambda>w. root_artifact (r_id run) (w_db w))) (\<lambda>found.
     case found of
       None \<Rightarrow> raise (''run '' @ r_id run @ '' has no root artifact'')
     | Some root_row \<Rightarrow>
     bind_s (io_e env ''layout'') (\<lambda>_.
     bind_s (io_e env ''stage rules'') (\<lambda>_.
     bind_s (io_e env ''download'') (\<lambda>_.
     bind_s (run_unpack env run root_row pack) (\<lambda>unpacked.
     bind_s (materialise env run root_row (snd unpacked)) (\<lambda>by_path.
     bind_s (io_e env ''stage root'') (\<lambda>_.
     bind_s (if se_extracted env then io_e env ''stage tree'' else ret ()) (\<lambda>_.
     bind_s (lift_e (staged_paths root_row (se_extracted env) (snd unpacked) by_path)) (\<lambda>staged.
     bind_s (io_e env ''grant scan_out'') (\<lambda>_.
     bind_s (run_static env run root_row pack) (\<lambda>scanned.
       conclude env run root_row pack by_path staged unpacked scanned))))))))))))"

definition fail_scan :: "scan_env \<Rightarrow> string \<Rightarrow> string \<Rightarrow> (scan_world, scan_error, scan_outcome) eff" where
  "fail_scan env run_id e =
     bind_s (now_e env) (\<lambda>now.
     bind_s (on_db (update_run run_id (\<lambda>r. r\<lparr>r_status := R_FAILED, r_error := Some (cut_text 2000 e),
                                            r_finished_at := Some now\<rparr>))) (\<lambda>_.
       ret \<lparr>oc_run_id = run_id, oc_status = R_FAILED, oc_findings = 0, oc_evidence = 0, oc_suppressed = 0,
            oc_artifacts = 1, oc_error = Some e\<rparr>))"

definition close_row :: "string list \<Rightarrow> moment \<Rightarrow> run \<Rightarrow> run" where
  "close_row degraded now r =
     (if degraded \<noteq> []
      then r\<lparr>r_status := R_DEGRADED, r_error := Some (cut_text 2000 (join ''; '' degraded)), r_finished_at := Some now\<rparr>
      else r\<lparr>r_status := R_COMPLETED, r_finished_at := Some now\<rparr>)"

definition close_scan :: "scan_env \<Rightarrow> string \<Rightarrow> scan_outcome \<Rightarrow> (scan_world, scan_error, scan_outcome) eff" where
  "close_scan env run_id outcome =
     bind_s (reads (\<lambda>w. describe_degraded (degraded_stages (w_db w) run_id))) (\<lambda>degraded.
     bind_s (now_e env) (\<lambda>now.
     bind_s (on_db (update_run run_id (close_row degraded now))) (\<lambda>_.
       ret (outcome\<lparr>oc_status := if degraded \<noteq> [] then R_DEGRADED else R_COMPLETED\<rparr>))))"

definition run_scan :: "scan_env \<Rightarrow> string \<Rightarrow> (scan_world, scan_error, scan_outcome) eff" where
  "run_scan env run_id =
     bind_s (reads (\<lambda>w. get_run (w_db w) run_id)) (\<lambda>found.
     case found of
       None \<Rightarrow> raise (Run_Not_Found (''run '' @ run_id @ '' not found''))
     | Some _ \<Rightarrow>
     bind_s (now_e env) (\<lambda>now.
     bind_s (reads (\<lambda>w. fst (claim_run run_id now (w_db w)))) (\<lambda>claimed.
     bind_s (on_db (\<lambda>d. snd (claim_run run_id now d))) (\<lambda>_.
     bind_s (reads (\<lambda>w. the (get_run (w_db w) run_id))) (\<lambda>run.
     if \<not> claimed
     then raise (Run_Already_Claimed (''run '' @ run_id @ '' is already '' @ run_status_value (r_status run)))
     else bind_s (attempt (execute env run)) (\<lambda>result.
       case result of
         Inl e \<Rightarrow> fail_scan env run_id e
       | Inr outcome \<Rightarrow> close_scan env run_id outcome))))))"

subsection \<open>The task\<close>

definition should_enrich :: "bool \<Rightarrow> scan_outcome \<Rightarrow> bool" where
  "should_enrich ghidra_enabled outcome \<longleftrightarrow>
     ghidra_enabled \<and> oc_findings outcome \<noteq> 0 \<and> produced_results (oc_status outcome)"

text \<open>\<open>scan_run\<close>: what the task reports, the runs handed to the Ghidra queue (a broker failure hands
  over nothing) and the world it leaves. A raised \<open>LookupError\<close> rolls the session back.\<close>

datatype scan_report = Skipped | Reported scan_outcome | Task_Failed string

definition scan_run :: "scan_env \<Rightarrow> bool \<Rightarrow> bool \<Rightarrow> string \<Rightarrow> scan_world \<Rightarrow> scan_report \<times> string list \<times> scan_world" where
  "scan_run env ghidra_enabled broker_ok run_id w =
     (case run_scan env run_id w of
        (Inl (Run_Already_Claimed _), w') \<Rightarrow> (Skipped, [], w')
      | (Inl (Run_Not_Found e), w') \<Rightarrow> (Task_Failed e, [], w')
      | (Inr outcome, w') \<Rightarrow>
          (Reported outcome, if should_enrich ghidra_enabled outcome \<and> broker_ok then [run_id] else [], w'))"

end
