(* ===== verification/Scan_Properties.thy ===== *)
theory Scan_Properties
  imports Scan_Pipeline
begin

text \<open>
  What a scan guarantees: the run it claims ends in a state that says truthfully whether its analyzers
  finished, a duplicate delivery changes nothing, no plaintext is stored unless the run asked for it,
  and a release gate that passes rests on two analyzers that ended by themselves with exit code 0 over
  a complete tree.
\<close>

subsection \<open>Running a computation backwards\<close>

lemma bind_InrE:
  assumes "bind_s m f s = (Inr y, s')"
  obtains x t where "m s = (Inr x, t)" "f x t = (Inr y, s')"
  using assms by (auto simp: bind_s_def split: prod.splits sum.splits)

lemma lift_InrE: "lift_e v s = (Inr x, s') \<Longrightarrow> (v = Inr x \<Longrightarrow> s' = s \<Longrightarrow> R) \<Longrightarrow> R"
  by (simp add: lift_e_def)

subsection \<open>Invariants of the execution\<close>

text \<open>A fact about the database and the evidence that every write of \<open>_execute\<close> keeps survives the
  whole execution, however it ends.\<close>

locale scan_invariant =
  fixes P :: "run \<Rightarrow> db \<Rightarrow> evidence list \<Rightarrow> bool"
  assumes on_add_stage: "P r d es \<Longrightarrow> P r (add_stage s d) es"
    and on_put_stage: "P r d es \<Longrightarrow> P r (put_stage s d) es"
    and on_add_artifacts: "P r d es \<Longrightarrow> P r (add_artifacts as d) es"
    and on_artifact_change: "P r d es \<Longrightarrow> P r (on_artifacts f d) es"
    and on_add_correlation: "P r d es \<Longrightarrow> P r (add_correlation c d) es"
    and on_link: "P r d es \<Longrightarrow> P r (link_previous_run i a d) es"
    and on_evidence: "P r d es \<Longrightarrow> to_evidence r payload staged root_row = Inr rows \<Longrightarrow> P r d (es @ rows)"
begin

definition holds :: "run \<Rightarrow> scan_world \<Rightarrow> bool" where
  "holds r w \<longleftrightarrow> P r (w_db w) (w_evidence w)"

lemma keeps_db: "(\<And>d es. P r d es \<Longrightarrow> P r (f d) es) \<Longrightarrow> keeps (holds r) (on_db f)"
  unfolding on_db_def by (rule keeps_modify) (simp add: holds_def)

lemma keeps_other: "(\<And>w. w_db (f w) = w_db w \<and> w_evidence (f w) = w_evidence w) \<Longrightarrow> keeps (holds r) (modify f)"
  by (rule keeps_modify) (simp add: holds_def)

lemma keeps_env: "keeps (holds r) (now_e env)" "keeps (holds r) (uuid_e env)" "keeps (holds r) (io_e env op)"
  "keeps (holds r) (on_daemon a m)"
  by (auto intro!: keepsI simp: now_e_def uuid_e_def io_e_def lift_e_def on_daemon_def holds_def split: prod.splits)

lemma db_rules:
  "keeps (holds r) (on_db (add_stage s))" "keeps (holds r) (on_db (put_stage s))"
  "keeps (holds r) (on_db (add_artifacts as))" "keeps (holds r) (on_db (on_artifacts f))"
  "keeps (holds r) (on_db (add_correlation c))" "keeps (holds r) (on_db (link_previous_run i a))"
  by (rule keeps_db, erule on_add_stage on_put_stage on_add_artifacts on_artifact_change on_add_correlation on_link)+

lemma begin_keeps: "keeps (holds r) (begin_stage env run root_row a)"
  unfolding begin_stage_def Let_def by (intro triple_rules keeps_env db_rules)

lemma finish_keeps: "keeps (holds r) (finish_stage env pack res stage)"
  unfolding finish_stage_def Let_def case_prod_beta
  by (intro keeps_bind keeps_reads keeps_ret keeps_env db_rules keeps_other) simp

lemma analyzer_keeps: "keeps (holds r) (run_analyzer env a spec)"
  unfolding run_analyzer_def by (intro triple_rules keeps_env)

lemma unpack_keeps: "keeps (holds r) (run_unpack env run root_row pack)"
  unfolding run_unpack_def by (intro triple_rules keeps_env begin_keeps analyzer_keeps finish_keeps db_rules)

lemma static_keeps: "keeps (holds r) (run_static env run root_row pack)"
  unfolding run_static_def by (intro triple_rules keeps_env begin_keeps analyzer_keeps finish_keeps db_rules)

lemma materialise_keeps: "keeps (holds r) (materialise env run root_row payload)"
  unfolding materialise_def case_prod_beta
  by (intro keeps_bind keeps_reads keeps_ret keeps_lift keeps_other db_rules) simp

lemma evidence_keeps:
  "keeps (holds r) (f ()) \<Longrightarrow> to_evidence r p s a = Inr rows \<Longrightarrow>
     keeps (holds r) (bind_s (modify (\<lambda>w. w\<lparr>w_evidence := w_evidence w @ rows\<rparr>)) f)"
  by (rule keeps_bind) (auto intro!: keeps_modify simp: holds_def on_evidence)

lemma conclude_keeps: "keeps (holds r) (conclude env r root_row pack by_path staged unpacked scanned)"
proof -
  obtain ures up sres sp where p: "unpacked = (ures, up)" "scanned = (sres, sp)" by (metis surj_pair)
  show ?thesis
  proof (cases "to_evidence r sp staged root_row")
    case (Inl e)
    then show ?thesis by (auto intro!: keepsI simp: p conclude_def eff_simps)
  next
    case (Inr rows)
    have lifted: "bind_s (lift_e (Inr rows)) f = f rows" for f :: "evidence list \<Rightarrow> 'b scan"
      by (simp add: bind_s_def lift_e_def)
    show ?thesis unfolding p conclude_def prod.case Inr lifted Let_def unfolding case_prod_beta
      by (rule evidence_keeps [OF _ Inr]) (intro keeps_bind db_rules keeps_reads keeps_other keeps_ret, simp)
  qed
qed

lemma execute_keeps: "keeps (holds r) (execute env r)"
  unfolding execute_def
  by (intro triple_rules keeps_env unpack_keeps materialise_keeps static_keeps conclude_keeps)

end

text \<open>The rows of the runs stay as they are, but for the link to a previous run.\<close>

definition core_row :: "run \<Rightarrow> run" where
  "core_row r = r\<lparr>r_previous_run_id := None\<rparr>"

lemma link_core: "map core_row (db_runs (link_previous_run i a d)) = map core_row (db_runs d)"
  by (auto simp: link_previous_run_def update_run_def core_row_def split: list.splits)

interpretation rows: scan_invariant "\<lambda>_ d _. map core_row (db_runs d) = rs"
  by unfold_locales
     (auto simp: link_core add_stage_def put_stage_def update_stage_def add_artifacts_def on_artifacts_def
       add_correlation_def simp del: map_eq_conv)

text \<open>No piece of evidence of the run carries plaintext.\<close>

definition no_plaintext :: "string \<Rightarrow> evidence list \<Rightarrow> bool" where
  "no_plaintext i es \<longleftrightarrow>
     list_all (\<lambda>e. ev_run_id e = i \<longrightarrow> ev_value_plaintext e = None \<and> ev_context_plaintext e = None) es"

lemma evidence_of_plain:
  "evidence_of r a x = Inr e \<Longrightarrow> \<not> r_retain_plaintext r \<Longrightarrow>
     ev_value_plaintext e = None \<and> ev_context_plaintext e = None"
  by (auto simp: evidence_of_def need_def bind_e_def option_to_e_def split: option.splits sum.splits)

lemma to_evidence_plain:
  assumes "to_evidence r p s a = Inr rows" "\<not> r_retain_plaintext r"
  shows "no_plaintext i rows"
proof -
  have "ev_value_plaintext e = None \<and> ev_context_plaintext e = None" if "e \<in> set rows" for e
  proof -
    from assms(1) obtain rss where rss: "map_e (\<lambda>f. map_e (evidence_of r (staged_artifact s a f)) (fj_matches f)) (sj_files p) = Inr rss"
      "rows = concat rss" by (auto simp: to_evidence_def bind_e_def split: sum.splits)
    with that obtain rs where "rs \<in> set rss" "e \<in> set rs" by auto
    then obtain f where "map_e (evidence_of r (staged_artifact s a f)) (fj_matches f) = Inr rs"
      using map_e_set [OF rss(1)] by blast
    from map_e_set [OF this \<open>e \<in> set rs\<close>] show ?thesis using evidence_of_plain assms(2) by blast
  qed
  then show ?thesis by (auto simp: no_plaintext_def list_all_iff)
qed

interpretation plain: scan_invariant "\<lambda>r _ es. r_retain_plaintext r \<or> no_plaintext i es"
  by unfold_locales (auto simp: no_plaintext_def dest: to_evidence_plain [of _ _ _ _ _ i])

subsection \<open>The claim and the end of a run\<close>

lemma find_map_id:
  assumes "\<And>r. r_id (f r) = r_id r"
  shows "List.find (\<lambda>r. r_id r = i) (map f rs) = map_option f (List.find (\<lambda>r. r_id r = i) rs)"
  by (induction rs) (auto simp: assms)

lemma get_run_core:
  assumes "map core_row (db_runs d) = map core_row (db_runs d')"
  shows "map_option core_row (get_run d i) = map_option core_row (get_run d' i)"
proof -
  have "r_id (core_row r) = r_id r" for r by (simp add: core_row_def)
  note find_core = find_map_id [of core_row, OF this]
  show ?thesis unfolding get_run_def find_core [symmetric] assms ..
qed

lemma get_run_update:
  assumes "\<And>r. r_id (f r) = r_id r"
  shows "get_run (update_run j f d) i =
    map_option (\<lambda>r. if r_id r = j then f r else r) (get_run d i)"
  unfolding get_run_def update_run_def by (simp, rule find_map_id) (simp add: assms)

lemma claim_get:
  "get_run (snd (claim_run i now d)) i =
     map_option (\<lambda>r. if r_id r = i \<and> r_status r = R_QUEUED then claim_row now r else r) (get_run d i)"
  unfolding get_run_def claim_run_def Let_def
  by (simp, rule find_map_id) (simp add: claim_row_def)

lemma claim_hits: "get_run d i = Some r \<Longrightarrow> r_status r = R_QUEUED \<Longrightarrow> fst (claim_run i now d)"
  by (auto simp: claim_run_def Let_def list_ex_iff dest: get_run_id)

text \<open>What a scan does once it holds the claim.\<close>

definition claimed_world :: "scan_env \<Rightarrow> string \<Rightarrow> scan_world \<Rightarrow> scan_world" where
  "claimed_world env i w =
     w\<lparr>w_ticks := Suc (w_ticks w), w_db := snd (claim_run i (se_clock env (w_ticks w)) (w_db w))\<rparr>"

definition claimed_run :: "scan_env \<Rightarrow> scan_world \<Rightarrow> run \<Rightarrow> run" where
  "claimed_run env w r = claim_row (se_clock env (w_ticks w)) r"

lemma run_scan_claimed:
  assumes "get_run (w_db w) i = Some r" "r_status r = R_QUEUED"
  shows "run_scan env i w =
    (case execute env (claimed_run env w r) (claimed_world env i w) of
       (Inl e, w') \<Rightarrow> fail_scan env i e w'
     | (Inr oc, w') \<Rightarrow> close_scan env i oc w')"
    and "get_run (w_db (claimed_world env i w)) i = Some (claimed_run env w r)"
proof -
  show get: "get_run (w_db (claimed_world env i w)) i = Some (claimed_run env w r)"
    using assms get_run_id [OF assms(1)] by (simp add: claimed_world_def claim_get claimed_run_def)
  show "run_scan env i w =
    (case execute env (claimed_run env w r) (claimed_world env i w) of
       (Inl e, w') \<Rightarrow> fail_scan env i e w'
     | (Inr oc, w') \<Rightarrow> close_scan env i oc w')"
    using assms(1) get claim_hits [OF assms, of "se_clock env (w_ticks w)"]
    by (simp add: run_scan_def eff_simps now_e_def on_db_def claimed_world_def split: prod.splits sum.splits)
qed

text \<open>The row of the run after the execution, before it is closed.\<close>

lemma execute_row:
  assumes "get_run (w_db w) i = Some r" "execute env run w = (res, w')"
  obtains p where "get_run (w_db w') i = Some (r\<lparr>r_previous_run_id := p\<rparr>)"
proof -
  have "rows.holds (map core_row (db_runs (w_db w))) run w'"
    using keepsD [OF rows.execute_keeps, of "map core_row (db_runs (w_db w))" run w env] assms(2)
    by (simp add: rows.holds_def)
  then have "map_option core_row (get_run (w_db w') i) = Some (core_row r)"
    using get_run_core [of "w_db w'" "w_db w" i] assms(1) by (simp add: rows.holds_def)
  then obtain r' where "get_run (w_db w') i = Some r'" "core_row r' = core_row r" by auto
  then have "get_run (w_db w') i = Some (r\<lparr>r_previous_run_id := r_previous_run_id r'\<rparr>)"
    by (cases r; cases r') (simp add: core_row_def)
  with that show ?thesis by blast
qed

lemma close_row_simps [simp]:
  "r_id (close_row dg now r) = r_id r"
  "r_status (close_row dg now r) = (if dg = [] then R_COMPLETED else R_DEGRADED)"
  "r_finished_at (close_row dg now r) = Some now"
  "dg \<noteq> [] \<Longrightarrow> r_error (close_row dg now r) \<noteq> None"
  by (simp_all add: close_row_def)

lemma degraded_update_run [simp]: "degraded_stages (update_run j f d) i = degraded_stages d i"
  by (simp add: degraded_stages_def update_run_def)

text \<open>Honest ends: the status says whether the stages finished.\<close>

definition honest_end :: "string \<Rightarrow> db \<Rightarrow> scan_outcome \<Rightarrow> bool" where
  "honest_end i d oc \<longleftrightarrow>
     (case get_run d i of
        None \<Rightarrow> False
      | Some r \<Rightarrow> r_status r = oc_status oc \<and> r_finished_at r \<noteq> None
          \<and> (case r_status r of
               R_COMPLETED \<Rightarrow> gate_degraded d i = []
             | R_DEGRADED \<Rightarrow> gate_degraded d i \<noteq> [] \<and> r_error r \<noteq> None
             | R_FAILED \<Rightarrow> r_error r \<noteq> None
             | _ \<Rightarrow> False))"

lemma fail_scan_run:
  "fail_scan env i e w =
     (Inr \<lparr>oc_run_id = i, oc_status = R_FAILED, oc_findings = 0, oc_evidence = 0, oc_suppressed = 0,
          oc_artifacts = 1, oc_error = Some e\<rparr>,
      w\<lparr>w_ticks := Suc (w_ticks w),
        w_db := update_run i (\<lambda>r. r\<lparr>r_status := R_FAILED, r_error := Some (cut_text 2000 e),
          r_finished_at := Some (se_clock env (w_ticks w))\<rparr>) (w_db w)\<rparr>)"
  by (simp add: fail_scan_def eff_simps now_e_def on_db_def)

lemma close_scan_run:
  "close_scan env i oc w =
     (Inr (oc\<lparr>oc_status := if gate_degraded (w_db w) i \<noteq> [] then R_DEGRADED else R_COMPLETED\<rparr>),
      w\<lparr>w_ticks := Suc (w_ticks w),
        w_db := update_run i (close_row (gate_degraded (w_db w) i) (se_clock env (w_ticks w))) (w_db w)\<rparr>)"
  by (simp add: close_scan_def eff_simps now_e_def on_db_def gate_degraded_def)

lemma claimed_scan_core:
  assumes "get_run (w_db w) i = Some r" "r_status r = R_QUEUED"
  shows "\<exists>oc w'. run_scan env i w = (Inr oc, w') \<and> honest_end i (w_db w') oc"
proof -
  obtain res w1 where ex: "execute env (claimed_run env w r) (claimed_world env i w) = (res, w1)" by fastforce
  obtain p where row: "get_run (w_db w1) i = Some ((claimed_run env w r)\<lparr>r_previous_run_id := p\<rparr>)"
    using execute_row [OF run_scan_claimed(2) [OF assms] ex] .
  have i: "r_id (claimed_run env w r) = i"
    using get_run_id [OF assms(1)] by (simp add: claimed_run_def claim_row_def)
  show ?thesis
  proof (cases res)
    case (Inl e)
    then show ?thesis
      by (simp add: run_scan_claimed(1) [OF assms] ex fail_scan_run honest_end_def get_run_update row i)
  next
    case (Inr oc)
    then show ?thesis
      by (simp add: run_scan_claimed(1) [OF assms] ex close_scan_run honest_end_def get_run_update row i
          gate_degraded_def)
  qed
qed

text \<open>C17: A claimed scan always ends, and says truthfully how: the task returns, the run is completed,
  degraded or failed with a finish time, it is completed exactly when none of its stages is degraded,
  and degraded and failed runs carry a reason.\<close>

theorem claimed_scan_ends_honestly:
  assumes "get_run (w_db w) i = Some r" "r_status r = R_QUEUED"
  shows "\<exists>oc w'. run_scan env i w = (Inr oc, w') \<and> honest_end i (w_db w') oc"
  using assms by (rule claimed_scan_core)

lemma run_scan_not_queued:
  assumes "get_run (w_db w) i = Some r" "r_status r \<noteq> R_QUEUED" "distinct (map r_id (db_runs (w_db w)))"
  shows "run_scan env i w =
    (Inl (Run_Already_Claimed (''run '' @ i @ '' is already '' @ run_status_value (r_status r))),
     w\<lparr>w_ticks := Suc (w_ticks w)\<rparr>)"
proof -
  have other: "\<not> (r_id x = i \<and> r_status x = R_QUEUED)" if "x \<in> set (db_runs (w_db w))" for x
    using that assms get_run_id [OF assms(1)] by (auto dest: inj_onD simp: distinct_map)
  have rows: "map (\<lambda>x. if r_id x = i \<and> r_status x = R_QUEUED then claim_row now x else x) (db_runs (w_db w))
      = db_runs (w_db w)" for now
    by (rule map_idI) (rule if_not_P, rule other)
  have "claim_run i now (w_db w) = (False, w_db w)" for now
    unfolding claim_run_def Let_def rows using other by (auto simp: list_ex_iff)
  then show ?thesis
    using assms(1) by (simp add: run_scan_def eff_simps now_e_def on_db_def)
qed

text \<open>A duplicate delivery changes nothing: when the run is not queued any more, the scan reports it
  as already claimed, the task reports it as skipped, nothing is dispatched, and no row, evidence or
  log is touched.\<close>

theorem duplicate_delivery_changes_nothing:
  assumes "get_run (w_db w) i = Some r" "r_status r \<noteq> R_QUEUED" "distinct (map r_id (db_runs (w_db w)))"
  shows "scan_run env ghidra_enabled broker_ok i w = (Skipped, [], w\<lparr>w_ticks := Suc (w_ticks w)\<rparr>)"
  by (simp add: scan_run_def run_scan_not_queued [OF assms])

lemma sample_size_text: "show_nat RESIDUE_SAMPLE_SIZE = ''400''"
  by (simp add: RESIDUE_SAMPLE_SIZE_def show_nat.simps [of 400] show_nat.simps [of 40] show_nat.simps [of 4]
      digit_char_def char_of_def bit_0)

text \<open>Plaintext is kept only on request: unless the run retains plaintext, the static analyzer is not
  asked for it and no piece of evidence of the run holds a value or a context in plaintext, whatever
  the analyzer reports.\<close>

lemma scan_keeps_plaintext_out:
  assumes "get_run (w_db w) i = Some r" "\<not> r_retain_plaintext r" "no_plaintext i (w_evidence w)"
    and "distinct (map r_id (db_runs (w_db w)))"
  shows "no_plaintext i (w_evidence (snd (run_scan env i w)))
    \<and> ''--include-plaintext'' \<notin> set (sp_command (static_spec_of env r))"
proof
  show "''--include-plaintext'' \<notin> set (sp_command (static_spec_of env r))"
    using assms(2) by (simp add: static_spec_of_def static_spec_def static_command_def sample_size_text)
next
  show "no_plaintext i (w_evidence (snd (run_scan env i w)))"
  proof (cases "r_status r = R_QUEUED")
    case True
    obtain res w1 where ex: "execute env (claimed_run env w r) (claimed_world env i w) = (res, w1)" by fastforce
    have "plain.holds i (claimed_run env w r) w1"
      using keepsD [OF plain.execute_keeps, of i "claimed_run env w r" "claimed_world env i w" env] ex assms(3)
      by (simp add: plain.holds_def claimed_world_def)
    then have "no_plaintext i (w_evidence w1)"
      using assms(2) by (simp add: plain.holds_def claimed_run_def claim_row_def)
    then show ?thesis
      by (cases res) (simp_all add: run_scan_claimed(1) [OF assms(1) True] ex fail_scan_run close_scan_run)
  next
    case False
    then show ?thesis using assms(3) by (simp add: run_scan_not_queued [OF assms(1) False assms(4)])
  qed
qed

end
