(* ===== verification/Scan_Gate.thy ===== *)
theory Scan_Gate
  imports Scan_Properties
begin

text \<open>
  From the containers to the release gate: what the stages of a scan look like in the database, and
  what a gate that passes says about the containers that ran.
\<close>

subsection \<open>One row per analyzer\<close>

text \<open>The uuids still to be drawn are new.\<close>

definition fresh_uuids :: "scan_env \<Rightarrow> scan_world \<Rightarrow> bool" where
  "fresh_uuids env w \<longleftrightarrow> inj (se_uuid env)
     \<and> (\<forall>s \<in> set (db_stages (w_db w)). \<forall>j. w_uuids w \<le> j \<longrightarrow> st_id s \<noteq> se_uuid env j)"

definition container_run :: "scan_env \<Rightarrow> string \<Rightarrow> sandbox_spec \<Rightarrow> daemon \<Rightarrow> sandbox_result \<Rightarrow> bool" where
  "container_run env analyzer spec d res \<longleftrightarrow>
     (\<exists>driver d'. se_driver env analyzer = Inr driver
        \<and> run_container driver spec (0 < se_live_interval_s env) d = (Inr res, d'))"

lemma put_added:
  assumes "db_stages d = xs @ [s]" "st_id s' = st_id s" "\<forall>x \<in> set xs. st_id x \<noteq> st_id s"
  shows "db_stages (put_stage s' d) = xs @ [s']"
  using assms by (auto simp: put_stage_def update_stage_def intro: map_idI)

lemma begin_stage_run:
  "begin_stage env run root_row a w =
     (let s = new_stage (se_uuid env (w_uuids w)) (r_id run) (a_id root_row) a (se_clock env (w_ticks w)) in
      (Inr s, w\<lparr>w_ticks := Suc (w_ticks w), w_uuids := Suc (w_uuids w), w_db := add_stage s (w_db w)\<rparr>))"
  by (simp add: begin_stage_def eff_simps now_e_def uuid_e_def on_db_def Let_def)

lemma finish_stage_InrE:
  assumes "finish_stage env pack res s w = (Inr s', w')"
  obtains "st_id s' = st_id s" "st_run_id s' = st_run_id s" "st_analyzer s' = st_analyzer s"
    "st_status s' = stage_status_of res" "w_db w' = put_stage s' (w_db w)" "w_uuids w' = w_uuids w"
    "w_daemon w' = w_daemon w"
proof -
  obtain t store where t: "record_stage (se_log_ok env (st_analyzer s)) (se_clock env (w_ticks w)) pack res
      (s, w_objects w) = (t, store)" by fastforce
  then have fields: "st_id t = st_id s \<and> st_run_id t = st_run_id s \<and> st_analyzer t = st_analyzer s
      \<and> st_status t = stage_status_of res"
    by (auto simp: record_stage_def Let_def split: prod.splits)
  have "t = s'" "w' = w\<lparr>w_ticks := Suc (w_ticks w), w_objects := store, w_db := put_stage s' (w_db w)\<rparr>"
    using assms t by (auto simp: finish_stage_def eff_simps now_e_def on_db_def Let_def)
  with fields that show ?thesis by simp
qed

lemma analyzer_InrE:
  assumes "run_analyzer env a spec w = (Inr res, w')"
  obtains d' where "container_run env a spec (w_daemon w a) res" "w' = w\<lparr>w_daemon := (w_daemon w)(a := d')\<rparr>"
  using assms unfolding run_analyzer_def on_daemon_def container_run_def
  by (elim bind_InrE lift_InrE) (auto split: prod.splits)

text \<open>The common part of the two stages.\<close>

lemma staged_run:
  assumes "begin_stage env run root_row a w = (Inr st, w1)" "run_analyzer env a spec w1 = (Inr res, w2)"
    "finish_stage env pack res st w2 = (Inr st', w3)" "fresh_uuids env w"
  shows "db_stages (w_db w3) = db_stages (w_db w) @ [st']" "st_run_id st' = r_id run" "st_analyzer st' = a"
    "st_status st' = stage_status_of res" "\<forall>x \<in> set (db_stages (w_db w)). st_id x \<noteq> st_id st'"
    "st_id st' = se_uuid env (w_uuids w)" "w_uuids w3 = Suc (w_uuids w)"
    "container_run env a spec (w_daemon w a) res" "\<forall>b. b \<noteq> a \<longrightarrow> w_daemon w3 b = w_daemon w b"
proof -
  have st: "st = new_stage (se_uuid env (w_uuids w)) (r_id run) (a_id root_row) a (se_clock env (w_ticks w))"
    "w1 = w\<lparr>w_ticks := Suc (w_ticks w), w_uuids := Suc (w_uuids w), w_db := add_stage st (w_db w)\<rparr>"
    using assms(1) by (auto simp: begin_stage_run Let_def)
  obtain d' where ran: "container_run env a spec (w_daemon w1 a) res"
    "w2 = w1\<lparr>w_daemon := (w_daemon w1)(a := d')\<rparr>" using analyzer_InrE [OF assms(2)] .
  obtain fin: "st_id st' = st_id st" "st_run_id st' = st_run_id st" "st_analyzer st' = st_analyzer st"
    "st_status st' = stage_status_of res" "w_db w3 = put_stage st' (w_db w2)" "w_uuids w3 = w_uuids w2"
    "w_daemon w3 = w_daemon w2" using finish_stage_InrE [OF assms(3)] .
  show "st_id st' = se_uuid env (w_uuids w)" using fin(1) st(1) by (simp add: new_stage_def)
  then show new: "\<forall>x \<in> set (db_stages (w_db w)). st_id x \<noteq> st_id st'"
    using assms(4) by (auto simp: fresh_uuids_def)
  show "db_stages (w_db w3) = db_stages (w_db w) @ [st']"
    unfolding fin(5) using new fin(1) ran(2) st(2) by (intro put_added [of _ _ st]) (auto simp: add_stage_def)
  show "st_run_id st' = r_id run" "st_analyzer st' = a" using fin st(1) by (simp_all add: new_stage_def)
  show "st_status st' = stage_status_of res" by (rule fin(4))
  show "w_uuids w3 = Suc (w_uuids w)" "container_run env a spec (w_daemon w a) res"
    "\<forall>b. b \<noteq> a \<longrightarrow> w_daemon w3 b = w_daemon w b" using fin ran st(2) by auto
qed

text \<open>What a finished stage leaves: one more row, with the container's verdict.\<close>

definition stage_left :: "scan_env \<Rightarrow> run \<Rightarrow> string \<Rightarrow> (sandbox_result \<Rightarrow> stage_status) \<Rightarrow> sandbox_spec
    \<Rightarrow> scan_world \<Rightarrow> scan_world \<Rightarrow> bool" where
  "stage_left env run a status spec w w' \<longleftrightarrow>
     (\<exists>s res. db_stages (w_db w') = db_stages (w_db w) @ [s] \<and> st_run_id s = r_id run \<and> st_analyzer s = a
        \<and> container_run env a spec (w_daemon w a) res \<and> st_status s = status res)
     \<and> fresh_uuids env w' \<and> (\<forall>b. b \<noteq> a \<longrightarrow> w_daemon w' b = w_daemon w b)"

lemma stage_leftI:
  assumes "begin_stage env run root_row a w = (Inr st, w1)" "run_analyzer env a spec w1 = (Inr res, w2)"
    "finish_stage env pack res st w2 = (Inr st', w3)" "fresh_uuids env w"
    and "st_id st'' = st_id st'" "st_run_id st'' = st_run_id st'" "st_analyzer st'' = st_analyzer st'"
    and "st_status st'' = status res" "w4 = w3\<lparr>w_db := put_stage st'' (w_db w3)\<rparr>"
  shows "stage_left env run a status spec w w4"
proof -
  note run = staged_run [OF assms(1-4)]
  have rows: "db_stages (w_db w4) = db_stages (w_db w) @ [st'']"
    using put_added [of "w_db w3" _ st' st''] run(1,5) assms(5,9) by simp
  have "fresh_uuids env w4"
    using assms(4,5,9) run(6,7) rows by (auto simp: fresh_uuids_def dest: injD)
  moreover have "\<exists>s res. db_stages (w_db w4) = db_stages (w_db w) @ [s] \<and> st_run_id s = r_id run
      \<and> st_analyzer s = a \<and> container_run env a spec (w_daemon w a) res \<and> st_status s = status res"
    using rows run(2,3,8) assms(6-8) by auto
  ultimately show ?thesis using run(9) assms(9) by (simp add: stage_left_def)
qed

definition unpack_status :: "unpack_json \<Rightarrow> sandbox_result \<Rightarrow> stage_status" where
  "unpack_status p res = (if uj_truncated p then S_TRUNCATED else stage_status_of res)"

lemma on_db_InrE: "on_db f w = (Inr x, w') \<Longrightarrow> (w' = w\<lparr>w_db := f (w_db w)\<rparr> \<Longrightarrow> R) \<Longrightarrow> R"
  by (simp add: on_db_def modify_def)

lemma ret_InrE: "ret y w = (Inr x, w') \<Longrightarrow> (x = y \<Longrightarrow> w' = w \<Longrightarrow> R) \<Longrightarrow> R"
  by (simp add: ret_def)

lemma run_unpack_left:
  assumes "run_unpack env run root_row pack w = (Inr (res, p), w')" "fresh_uuids env w"
  shows "stage_left env run ''unpack'' (unpack_status p) (unpack_spec_of env run) w w'"
    and "\<exists>doc. read_result (se_parse_unpack env) (se_unpack_file env) = Inr doc \<and> p = or_empty empty_unpack doc"
proof -
  from assms(1) obtain u0 w0 st w1 w2 st' w3 doc res' where
    steps: "io_e env ''grant unpack_out'' w = (Inr u0, w0)"
      "begin_stage env run root_row ''unpack'' w0 = (Inr st, w1)"
      "run_analyzer env ''unpack'' (unpack_spec_of env run) w1 = (Inr res', w2)"
      "finish_stage env pack res' st w2 = (Inr st', w3)"
    and doc: "read_result (se_parse_unpack env) (se_unpack_file env) = Inr doc"
    and last: "w' = w3\<lparr>w_db := put_stage (finish_unpack (or_empty empty_unpack doc) st') (w_db w3)\<rparr>"
      "p = or_empty empty_unpack doc"
    unfolding run_unpack_def
    by (elim bind_InrE lift_InrE on_db_InrE ret_InrE, clarify) (rule that, (assumption | rule refl)+)
  show "\<exists>doc. read_result (se_parse_unpack env) (se_unpack_file env) = Inr doc \<and> p = or_empty empty_unpack doc"
    using doc last(2) by blast
  have w0: "w0 = w" using steps(1) by (simp add: io_e_def lift_e_def)
  have "st_status st' = stage_status_of res'"
    using steps(4) by (rule finish_stage_InrE)
  then show "stage_left env run ''unpack'' (unpack_status p) (unpack_spec_of env run) w w'"
    using steps(2) unfolding w0
    by (rule_tac stage_leftI [OF _ steps(3,4) assms(2) _ _ _ _ last(1)])
       (simp_all add: finish_unpack_def unpack_status_def last(2) Let_def)
qed

lemma run_static_left:
  assumes "run_static env run root_row pack w = (Inr y, w')" "fresh_uuids env w"
  shows "stage_left env run ''static'' stage_status_of (static_spec_of env run) w w'"
proof -
  from assms(1) obtain st w1 w2 st' w3 doc res' where
    steps: "begin_stage env run root_row ''static'' w = (Inr st, w1)"
      "run_analyzer env ''static'' (static_spec_of env run) w1 = (Inr res', w2)"
      "finish_stage env pack res' st w2 = (Inr st', w3)"
    and last: "w' = w3\<lparr>w_db := put_stage (finish_static (or_empty empty_static doc) st') (w_db w3)\<rparr>"
    unfolding run_static_def
    by (elim bind_InrE lift_InrE on_db_InrE ret_InrE, clarify) (rule that, (assumption | rule refl)+)
  have "st_status st' = stage_status_of res'"
    using steps(3) by (rule finish_stage_InrE)
  then show ?thesis
    by (intro stage_leftI [OF steps assms(2) _ _ _ _ last]) (simp_all add: finish_static_def)
qed

subsection \<open>The two rows of a scan\<close>

lemma materialise_InrE:
  assumes "materialise env run root_row payload w = (Inr by_path, w')"
  obtains n as where "w' = w\<lparr>w_uuids := w_uuids w + n, w_db := add_artifacts as (w_db w)\<rparr>"
  using assms by (auto simp: materialise_def eff_simps on_db_def split: prod.splits sum.splits)

lemma keeps_stages:
  "(\<And>d. db_stages (f d) = db_stages d) \<Longrightarrow> keeps (\<lambda>w. db_stages (w_db w) = ss) (on_db f)"
  unfolding on_db_def by (rule keeps_modify) simp

lemma link_stages: "db_stages (link_previous_run i a d) = db_stages d"
  by (auto simp: link_previous_run_def update_run_def split: list.splits)

lemma conclude_stages:
  "keeps (\<lambda>w. db_stages (w_db w) = ss) (conclude env r root_row pack by_path staged unpacked scanned)"
  unfolding conclude_def case_prod_beta Let_def
  by (intro keeps_bind keeps_lift keeps_reads keeps_ret keeps_stages keeps_modify)
     (simp_all add: on_artifacts_def add_correlation_def link_stages)

definition two_stages :: "scan_env \<Rightarrow> run \<Rightarrow> scan_world \<Rightarrow> scan_world \<Rightarrow> bool" where
  "two_stages env run w w' \<longleftrightarrow>
     (\<exists>su ss ures sres doc. db_stages (w_db w') = db_stages (w_db w) @ [su, ss]
        \<and> st_run_id su = r_id run \<and> st_analyzer su = ''unpack''
        \<and> st_run_id ss = r_id run \<and> st_analyzer ss = ''static''
        \<and> container_run env ''unpack'' (unpack_spec_of env run) (w_daemon w ''unpack'') ures
        \<and> container_run env ''static'' (static_spec_of env run) (w_daemon w ''static'') sres
        \<and> read_result (se_parse_unpack env) (se_unpack_file env) = Inr doc
        \<and> st_status su = unpack_status (or_empty empty_unpack doc) ures \<and> st_status ss = stage_status_of sres)"

lemma execute_stages:
  assumes "execute env run w = (Inr oc, w')" "fresh_uuids env w"
  shows "two_stages env run w w'"
proof -
  from assms(1) obtain pack root_row unpacked w1 by_path w2 staged scanned w3 where
    un: "run_unpack env run root_row pack w = (Inr unpacked, w1)"
    and ma: "materialise env run root_row (snd unpacked) w1 = (Inr by_path, w2)"
    and st: "run_static env run root_row pack w2 = (Inr scanned, w3)"
    and co: "conclude env run root_row pack by_path staged unpacked scanned w3 = (Inr oc, w')"
    by (auto simp: execute_def eff_simps io_e_def split: prod.splits sum.splits option.splits if_splits)
  obtain ures p where up: "unpacked = (ures, p)" by fastforce
  note unpack = run_unpack_left [OF un [unfolded up] assms(2)]
  then have fresh1: "fresh_uuids env w1" by (simp add: stage_left_def)
  obtain n as where w2: "w2 = w1\<lparr>w_uuids := w_uuids w1 + n, w_db := add_artifacts as (w_db w1)\<rparr>"
    using materialise_InrE [OF ma] .
  then have "fresh_uuids env w2" using fresh1 by (auto simp: fresh_uuids_def add_artifacts_def)
  note static = run_static_left [OF st this]
  have "db_stages (w_db w') = db_stages (w_db w3)"
    using keepsD [OF conclude_stages refl, of env run root_row pack by_path staged unpacked scanned w3] co by simp
  moreover obtain su res1 where su: "db_stages (w_db w1) = db_stages (w_db w) @ [su]" "st_run_id su = r_id run"
    "st_analyzer su = ''unpack''" "container_run env ''unpack'' (unpack_spec_of env run) (w_daemon w ''unpack'') res1"
    "st_status su = unpack_status p res1" "w_daemon w1 ''static'' = w_daemon w ''static''"
    using unpack(1) by (auto simp: stage_left_def)
  moreover obtain ss res2 where "db_stages (w_db w3) = db_stages (w_db w2) @ [ss]" "st_run_id ss = r_id run"
    "st_analyzer ss = ''static''" "container_run env ''static'' (static_spec_of env run) (w_daemon w2 ''static'') res2"
    "st_status ss = stage_status_of res2"
    using static by (auto simp: stage_left_def)
  ultimately show ?thesis
    using unpack(2) w2 unfolding two_stages_def by (auto simp: add_artifacts_def)
qed

subsection \<open>The gate\<close>

lemma stage_not_degraded: "\<not> stage_is_degraded (stage_status_of res) \<Longrightarrow> result_ok res"
  by (auto simp: stage_is_degraded_def stage_status_of_def result_ok_def split: sandbox_status.splits if_splits)

lemma degraded_ignores_runs: "db_stages d = db_stages d' \<Longrightarrow> degraded_stages d i = degraded_stages d' i"
  by (simp add: degraded_stages_def)

definition ended_cleanly :: "scan_env \<Rightarrow> string \<Rightarrow> sandbox_spec \<Rightarrow> scan_world \<Rightarrow> bool" where
  "ended_cleanly env a spec w \<longleftrightarrow> (\<exists>res. container_run env a spec (w_daemon w a) res \<and> result_ok res)"

definition tree_complete :: "scan_env \<Rightarrow> bool" where
  "tree_complete env \<longleftrightarrow>
     (case read_result (se_parse_unpack env) (se_unpack_file env) of
        Inl e \<Rightarrow> False | Inr doc \<Rightarrow> \<not> uj_truncated (or_empty empty_unpack doc))"

lemma clean_stages:
  assumes "two_stages env run w w'" "degraded_stages (w_db w') (r_id run) = []"
  shows "ended_cleanly env ''unpack'' (unpack_spec_of env run) w"
    "ended_cleanly env ''static'' (static_spec_of env run) w" "tree_complete env"
proof -
  from assms(1) obtain su ss ures sres doc where
    all: "db_stages (w_db w') = db_stages (w_db w) @ [su, ss]" "st_run_id su = r_id run"
      "st_analyzer su = ''unpack''" "st_run_id ss = r_id run" "st_analyzer ss = ''static''"
      "container_run env ''unpack'' (unpack_spec_of env run) (w_daemon w ''unpack'') ures"
      "container_run env ''static'' (static_spec_of env run) (w_daemon w ''static'') sres"
      "read_result (se_parse_unpack env) (se_unpack_file env) = Inr doc"
      "st_status su = unpack_status (or_empty empty_unpack doc) ures" "st_status ss = stage_status_of sres"
    unfolding two_stages_def by blast
  have "\<not> stage_is_degraded (st_status su)" "\<not> stage_is_degraded (st_status ss)"
    using assms(2) all(1-5) by (auto simp: degraded_stages_Nil ENRICHMENT_ANALYZERS_def)
  with all(6-) show "ended_cleanly env ''unpack'' (unpack_spec_of env run) w"
    "ended_cleanly env ''static'' (static_spec_of env run) w" "tree_complete env"
    using stage_not_degraded [of ures] stage_not_degraded [of sres]
    by (auto simp: ended_cleanly_def tree_complete_def unpack_status_def stage_is_degraded_def split: if_splits)
qed

lemma specs_of_claimed [simp]:
  "unpack_spec_of env (claimed_run e w r) = unpack_spec_of env r"
  "static_spec_of env (claimed_run e w r) = static_spec_of env r"
  by (simp_all add: unpack_spec_of_def static_spec_of_def run_dir_def claimed_run_def claim_row_def)

text \<open>C16: A gate that passes rests on a finished analysis: when the gate exits 0 on a run a scan has just
  ended (under a policy that does not pass degraded scans), both analyzers ran in containers that
  ended by themselves with exit code 0 and were not killed for memory, and the unpacked tree was not
  truncated.\<close>

theorem passing_gate_rests_on_clean_analysis:
  assumes "get_run (w_db w) i = Some r" "r_status r = R_QUEUED" "fresh_uuids env w"
    and "run_scan env i w = (Inr oc, w')"
    and "gate_run (w_db w') i p ws bi bs today = Inr (v, b)" "p_on_degraded p \<noteq> PASS_DEGRADED"
    and "verdict_exit_code v = 0"
  shows "ended_cleanly env ''unpack'' (unpack_spec_of env r) w
    \<and> ended_cleanly env ''static'' (static_spec_of env r) w \<and> tree_complete env"
proof -
  obtain res w1 where ex: "execute env (claimed_run env w r) (claimed_world env i w) = (res, w1)" by fastforce
  have i: "r_id (claimed_run env w r) = i"
    using get_run_id [OF assms(1)] by (simp add: claimed_run_def claim_row_def)
  have "honest_end i (w_db w') oc"
    using claimed_scan_core [OF assms(1,2), of env] assms(4) by auto
  then obtain r' where r': "get_run (w_db w') i = Some r'" "r_status r' = oc_status oc"
    by (auto simp: honest_end_def split: option.splits)
  have ok: "oc_status oc \<noteq> R_FAILED" "degraded_stages (w_db w') i = []"
    using degraded_run_core [OF assms(5,6) r'(1)] assms(7) r'(2) by auto
  obtain oc1 where "res = Inr oc1"
    using assms(4) ok(1) by (cases res) (auto simp: run_scan_claimed(1) [OF assms(1,2)] ex fail_scan_run)
  moreover from this have "degraded_stages (w_db w1) i = []"
    using assms(4) ok(2) by (auto simp: run_scan_claimed(1) [OF assms(1,2)] ex close_scan_run)
  moreover have "fresh_uuids env (claimed_world env i w)"
    using assms(3) by (simp add: fresh_uuids_def claimed_world_def claim_run_def Let_def)
  ultimately have "two_stages env (claimed_run env w r) (claimed_world env i w) w1"
    "degraded_stages (w_db w1) (r_id (claimed_run env w r)) = []"
    using execute_stages ex i by auto
  from clean_stages [OF this] show ?thesis by (simp add: ended_cleanly_def claimed_world_def)
qed

subsection \<open>A result that is not there\<close>

lemma correlate_Nil: "correlate sha i [] pack paths ss = \<lparr>co_findings = [], co_locations = [], co_suppressed = 0\<rparr>"
  by (simp add: correlate_def Let_def group_by_def cluster_repetitive_rules_def)

lemma analyzer_forward:
  "container_run env a spec (w_daemon w a) res \<Longrightarrow>
     \<exists>d'. run_analyzer env a spec w = (Inr res, w\<lparr>w_daemon := (w_daemon w)(a := d')\<rparr>)"
  by (auto simp: container_run_def run_analyzer_def eff_simps on_daemon_def)

lemma finish_stage_total: "\<exists>s' w'. finish_stage env pack res s w = (Inr s', w')"
  by (simp add: finish_stage_def eff_simps now_e_def on_db_def split: prod.splits)

text \<open>Both stages in one: an analyzer that leaves no readable result document.\<close>

definition same_but_stages :: "scan_world \<Rightarrow> scan_world \<Rightarrow> bool" where
  "same_but_stages w w' \<longleftrightarrow> db_findings (w_db w') = db_findings (w_db w)
     \<and> db_artifacts (w_db w') = db_artifacts (w_db w)"

lemma stage_world_same [simp]:
  "db_findings (add_stage s d) = db_findings d" "db_artifacts (add_stage s d) = db_artifacts d"
  "db_findings (put_stage s d) = db_findings d" "db_artifacts (put_stage s d) = db_artifacts d"
  by (simp_all add: add_stage_def put_stage_def update_stage_def)

lemma steps_forward:
  assumes "container_run env a spec (w_daemon w a) res"
  obtains st w1 w2 st' w3 where "begin_stage env run root_row a w = (Inr st, w1)"
    "run_analyzer env a spec w1 = (Inr res, w2)" "finish_stage env pack res st w2 = (Inr st', w3)"
    "same_but_stages w w3" "\<forall>b. b \<noteq> a \<longrightarrow> w_daemon w3 b = w_daemon w b"
proof -
  obtain st w1 where b: "begin_stage env run root_row a w = (Inr st, w1)" "w_daemon w1 = w_daemon w"
    "w_db w1 = add_stage st (w_db w)"
    by (simp add: begin_stage_run Let_def)
  obtain d' where r: "run_analyzer env a spec w1 = (Inr res, w1\<lparr>w_daemon := (w_daemon w1)(a := d')\<rparr>)"
    using analyzer_forward [of env a spec w1 res] assms b(2) by auto
  obtain st' w3 where f: "finish_stage env pack res st (w1\<lparr>w_daemon := (w_daemon w1)(a := d')\<rparr>) = (Inr st', w3)"
    using finish_stage_total by blast
  have "w_db w3 = put_stage st' (w_db w1)" "w_daemon w3 = (w_daemon w1)(a := d')"
    using f by (rule finish_stage_InrE, simp)+
  with that [OF b(1) r f] b(2,3) show ?thesis by (simp add: same_but_stages_def)
qed

lemma run_unpack_forward:
  assumes "container_run env ''unpack'' (unpack_spec_of env run) (w_daemon w ''unpack'') res"
    "se_io env ''grant unpack_out'' = Inr ()" "read_result (se_parse_unpack env) (se_unpack_file env) = Inr None"
  obtains w' where "run_unpack env run root_row pack w = (Inr (res, empty_unpack), w')" "same_but_stages w w'"
    "w_daemon w' ''static'' = w_daemon w ''static''"
proof -
  obtain st w1 w2 st' w3 where s: "begin_stage env run root_row ''unpack'' w = (Inr st, w1)"
    "run_analyzer env ''unpack'' (unpack_spec_of env run) w1 = (Inr res, w2)"
    "finish_stage env pack res st w2 = (Inr st', w3)" "same_but_stages w w3"
    and other: "\<forall>b. b \<noteq> ''unpack'' \<longrightarrow> w_daemon w3 b = w_daemon w b"
    by (rule steps_forward [OF assms(1)], rule that)
  have "run_unpack env run root_row pack w = (Inr (res, empty_unpack),
      w3\<lparr>w_db := put_stage (finish_unpack empty_unpack st') (w_db w3)\<rparr>)"
    by (simp add: run_unpack_def eff_simps io_e_def assms(2,3) s(1-3) on_db_def or_empty_def)
  from that [OF this] s(4) other show ?thesis by (simp add: same_but_stages_def)
qed

lemma run_static_forward:
  assumes "container_run env ''static'' (static_spec_of env run) (w_daemon w ''static'') res"
    "read_result (se_parse_static env) (se_static_file env) = Inr None"
  obtains w' where "run_static env run root_row pack w = (Inr (res, empty_static), w')" "same_but_stages w w'"
proof -
  obtain st w1 w2 st' w3 where s: "begin_stage env run root_row ''static'' w = (Inr st, w1)"
    "run_analyzer env ''static'' (static_spec_of env run) w1 = (Inr res, w2)"
    "finish_stage env pack res st w2 = (Inr st', w3)" "same_but_stages w w3"
    by (rule steps_forward [OF assms(1)], rule that)
  have "run_static env run root_row pack w = (Inr (res, empty_static),
      w3\<lparr>w_db := put_stage (finish_static empty_static st') (w_db w3)\<rparr>)"
    by (simp add: run_static_def eff_simps assms(2) s(1-3) on_db_def or_empty_def)
  from that [OF this] s(4) show ?thesis by (simp add: same_but_stages_def)
qed

lemma conclude_forward:
  "\<exists>oc w'. conclude env r root_row pack by_path staged (ures, up) (sres, empty_static) w = (Inr oc, w')
     \<and> oc_findings oc = 0 \<and> db_findings (w_db w') = db_findings (w_db w)"
  by (simp add: conclude_def eff_simps to_evidence_def empty_static_def bind_e_def on_db_def correlate_Nil
      on_artifacts_def add_correlation_def link_previous_run_def update_run_def split: list.splits)

lemma materialise_empty:
  "materialise env run root_row empty_unpack w = (Inr [], w\<lparr>w_db := add_artifacts [] (w_db w)\<rparr>)"
  by (simp add: materialise_def eff_simps materialise_tree_def empty_unpack_def bind_e_def on_db_def)

lemma staged_empty: "\<exists>d. staged_paths root_row b empty_unpack by_path = Inr d"
  by (simp add: staged_paths_def empty_unpack_def Let_def)

lemma execute_forward:
  assumes "se_pack env = Inr pack" "root_artifact (r_id run) (w_db w) = Some root_row"
    and io: "\<And>op. se_io env op = Inr ()"
    and "container_run env ''unpack'' (unpack_spec_of env run) (w_daemon w ''unpack'') ures"
    and "container_run env ''static'' (static_spec_of env run) (w_daemon w ''static'') sres"
    and "read_result (se_parse_unpack env) (se_unpack_file env) = Inr None"
    and "read_result (se_parse_static env) (se_static_file env) = Inr None"
  shows "\<exists>oc w'. execute env run w = (Inr oc, w') \<and> oc_findings oc = 0
     \<and> db_findings (w_db w') = db_findings (w_db w)"
proof -
  obtain w1 where un: "run_unpack env run root_row pack w = (Inr (ures, empty_unpack), w1)"
    "same_but_stages w w1" "w_daemon w1 ''static'' = w_daemon w ''static''"
    by (rule run_unpack_forward [OF assms(4) io assms(6)], rule that)
  let ?w2 = "w1\<lparr>w_db := add_artifacts [] (w_db w1)\<rparr>"
  have ran: "container_run env ''static'' (static_spec_of env run) (w_daemon ?w2 ''static'') sres"
    using assms(5) un(3) by simp
  obtain w3 where
    st: "run_static env run root_row pack ?w2 = (Inr (sres, empty_static), w3)" "same_but_stages ?w2 w3"
    by (rule run_static_forward [OF ran assms(7)], rule that)
  obtain staged where sg: "staged_paths root_row (se_extracted env) empty_unpack [] = Inr staged"
    using staged_empty by blast
  obtain oc w' where co: "conclude env run root_row pack [] staged (ures, empty_unpack) (sres, empty_static) w3 = (Inr oc, w')"
    "oc_findings oc = 0" "db_findings (w_db w') = db_findings (w_db w3)"
    using conclude_forward by blast
  have "execute env run w = (Inr oc, w')"
    by (simp add: execute_def eff_simps io_e_def io assms(1,2) un(1) materialise_empty sg st(1) co(1))
  with co un(2) st(2) show ?thesis by (simp add: same_but_stages_def add_artifacts_def)
qed

lemma two_clean_stages:
  assumes "two_stages env run w w'"
    and "container_run env ''unpack'' (unpack_spec_of env run) (w_daemon w ''unpack'') ures" "result_ok ures"
    and "container_run env ''static'' (static_spec_of env run) (w_daemon w ''static'') sres" "result_ok sres"
    and "read_result (se_parse_unpack env) (se_unpack_file env) = Inr doc" "\<not> uj_truncated (or_empty empty_unpack doc)"
    and "degraded_stages (w_db w) i = []"
  shows "degraded_stages (w_db w') i = []"
proof -
  have det: "container_run env a spec d x \<Longrightarrow> container_run env a spec d y \<Longrightarrow> x = y" for a spec d x y
    by (auto simp: container_run_def)
  have ok: "stage_status_of x = S_COMPLETED" if "result_ok x" for x
    using that by (simp add: stage_status_of_def result_ok_def)
  obtain su ss where "db_stages (w_db w') = db_stages (w_db w) @ [su, ss]"
      "st_status su = unpack_status (or_empty empty_unpack doc) ures" "st_status ss = stage_status_of sres"
    using assms(1) assms(6) det [OF _ assms(2)] det [OF _ assms(4)] unfolding two_stages_def by auto
  with assms(8) show ?thesis
    using ok [OF assms(3)] ok [OF assms(5)] assms(7)
    by (auto simp: degraded_stages_Nil unpack_status_def stage_is_degraded_def)
qed

lemma missing_results_core:
  assumes "get_run (w_db w) i = Some r" "r_status r = R_QUEUED" "fresh_uuids env w"
    and "se_pack env = Inr pack" "root_artifact i (w_db w) = Some root_row" "\<And>op. se_io env op = Inr ()"
    and "ended_cleanly env ''unpack'' (unpack_spec_of env r) w"
    and "ended_cleanly env ''static'' (static_spec_of env r) w"
    and "read_result (se_parse_unpack env) (se_unpack_file env) = Inr None"
    and "read_result (se_parse_static env) (se_static_file env) = Inr None"
    and "degraded_stages (w_db w) i = []" "\<forall>f \<in> set (db_findings (w_db w)). f_run_id f \<noteq> i"
  shows "\<exists>oc w'. run_scan env i w = (Inr oc, w') \<and> oc_status oc = R_COMPLETED \<and> oc_findings oc = 0
    \<and> (\<exists>v b. gate_run (w_db w') i p ws bi bs today = Inr (v, b) \<and> verdict_exit_code v = 0)"
proof -
  let ?w = "claimed_world env i w" and ?r = "claimed_run env w r"
  have i: "r_id ?r = i" using get_run_id [OF assms(1)] by (simp add: claimed_run_def claim_row_def)
  have same: "w_daemon ?w = w_daemon w" "db_artifacts (w_db ?w) = db_artifacts (w_db w)"
    "db_findings (w_db ?w) = db_findings (w_db w)" "db_stages (w_db ?w) = db_stages (w_db w)"
    "w_uuids ?w = w_uuids w"
    by (simp_all add: claimed_world_def claim_run_def Let_def)
  have fresh: "fresh_uuids env ?w" using assms(3) by (simp add: fresh_uuids_def same)
  have found: "root_artifact (r_id ?r) (w_db ?w) = Some root_row" using assms(5) by (simp add: root_artifact_def i same)
  obtain ures sres where runs: "container_run env ''unpack'' (unpack_spec_of env ?r) (w_daemon ?w ''unpack'') ures"
      "result_ok ures" "container_run env ''static'' (static_spec_of env ?r) (w_daemon ?w ''static'') sres" "result_ok sres"
    using assms(7,8) by (auto simp: ended_cleanly_def same)
  obtain oc w1 where ex: "execute env ?r ?w = (Inr oc, w1)" "oc_findings oc = 0"
    "db_findings (w_db w1) = db_findings (w_db w)"
    using execute_forward [OF assms(4) found assms(6) runs(1,3) assms(9,10)] same(3) by auto
  have clean: "degraded_stages (w_db w1) i = []"
    by (rule two_clean_stages [OF execute_stages [OF ex(1) fresh] runs assms(9)])
       (use assms(11) in \<open>simp_all add: degraded_stages_def same empty_unpack_def or_empty_def\<close>)
  define w' where "w' = w1\<lparr>w_ticks := Suc (w_ticks w1),
        w_db := update_run i (close_row [] (se_clock env (w_ticks w1))) (w_db w1)\<rparr>"
  have run: "run_scan env i w = (Inr (oc\<lparr>oc_status := R_COMPLETED\<rparr>), w')"
    using clean by (simp add: run_scan_claimed(1) [OF assms(1,2)] ex(1) close_scan_run gate_degraded_def
        describe_degraded_def w'_def)
  obtain q where row: "get_run (w_db w1) i = Some (?r\<lparr>r_previous_run_id := q\<rparr>)"
    using execute_row [OF run_scan_claimed(2) [OF assms(1,2)] ex(1)] .
  have "collect_gate_findings (w_db w') i b = []" for b
    using assms(12) ex(3) by (auto simp: collect_gate_findings_def w'_def update_run_def filter_empty_conv Let_def)
  moreover have "gate_degraded (w_db w') i = []"
    using clean by (simp add: gate_degraded_Nil w'_def)
  moreover obtain r' where "get_run (w_db w') i = Some r'" "r_status r' = R_COMPLETED"
    by (simp add: w'_def get_run_update row i)
  ultimately have "\<exists>v b. gate_run (w_db w') i p ws bi bs today = Inr (v, b) \<and> gv_decision v = PASS"
    by (auto simp: gate_run_def run_is_terminal_def Let_def evaluate_no_findings)
  with run ex(2) show ?thesis by (auto simp: verdict_exit_code_def)
qed

text \<open>A missing result is a clean bill of health: when both analyzers exit with code 0 but neither
  result document exists or parses, the run is completed with no findings and the gate exits 0 under
  every policy. Only the exit code stands between an analyzer that wrote nothing and a pass.\<close>

theorem missing_results_pass:
  assumes "get_run (w_db w) i = Some r" "r_status r = R_QUEUED" "fresh_uuids env w"
    and "se_pack env = Inr pack" "root_artifact i (w_db w) = Some root_row" "\<And>op. se_io env op = Inr ()"
    and "ended_cleanly env ''unpack'' (unpack_spec_of env r) w"
    and "ended_cleanly env ''static'' (static_spec_of env r) w"
    and "read_result (se_parse_unpack env) (se_unpack_file env) = Inr None"
    and "read_result (se_parse_static env) (se_static_file env) = Inr None"
    and "degraded_stages (w_db w) i = []" "\<forall>f \<in> set (db_findings (w_db w)). f_run_id f \<noteq> i"
  shows "\<exists>oc w'. run_scan env i w = (Inr oc, w') \<and> oc_status oc = R_COMPLETED \<and> oc_findings oc = 0
    \<and> (\<exists>v b. gate_run (w_db w') i p ws bi bs today = Inr (v, b) \<and> verdict_exit_code v = 0)"
  by (rule missing_results_core [OF assms])

subsection \<open>A small scan\<close>

definition prompt_world :: docker_world where
  "prompt_world = \<lparr>dw_clock = 0, dw_waits = 0, dw_ticks = 0, dw_signals = [],
     dw_reply = (\<lambda>_ _. (0, Status (Some 0))), dw_tick_cost = (\<lambda>_. 0), dw_signal_cost = (\<lambda>_. 0)\<rparr>"

definition prompt_daemon :: daemon where
  "prompt_daemon = \<lparr>da_world = prompt_world, da_create = (\<lambda>_. Inr ''c1''), da_start_error = None,
     da_image_attrs = (\<lambda>_. None), da_logs = (\<lambda>_. None), da_oom = Some False,
     da_created = [], da_removed = []\<rparr>"

definition posix_driver :: driver_env where
  "posix_driver = \<lparr>de_resolve = (\<lambda>s. [''runs'', s]), de_run_root = [''runs''],
     de_host_run_root = None, de_read_profile = (\<lambda>_. Some ''{}''), de_json_compact = (\<lambda>s. Some s)\<rparr>"

definition small_env :: scan_env where
  "small_env = \<lparr>se_clock = (\<lambda>k. Moment True (int k)), se_uuid = (\<lambda>k. replicate k CHR ''u''), se_sha = (\<lambda>s. s),
     se_pack = Inr \<lparr>rp_version = ''1'', rp_rules = [], rp_hash = ''h'', rp_false_positives = {}\<rparr>,
     se_io = (\<lambda>_. Inr ()), se_extracted = True, se_driver = (\<lambda>_. Inr posix_driver), se_image = (\<lambda>a. a),
     se_run_root = ''/runs'', se_cpus = 2, se_memory_gb = 4, se_live_interval_s = 0,
     se_unpack_file = No_File, se_static_file = File_Text ''not json'', se_parse_unpack = (\<lambda>_. None),
     se_parse_static = (\<lambda>_. None), se_log_ok = (\<lambda>_. True), se_put_file = (\<lambda>_ _. None)\<rparr>"

definition small_run :: run where
  "small_run = \<lparr>r_id = ''r1'', r_status = R_QUEUED, r_created_at = Moment True 0, r_started_at = None,
     r_finished_at = None, r_error = None, r_previous_run_id = None, r_retain_plaintext = False\<rparr>"

definition small_root :: artifact where
  "small_root = \<lparr>a_id = ''a1'', a_run_id = ''r1'', a_parent_id = None, a_name = ''app.zip'',
     a_path_in_tree = ''app.zip'', a_depth = 0, a_sha256 = ''s'', a_size_bytes = 10, a_storage_key = Some ''k'',
     a_extracted_by = None, a_kind = ''zip'', a_media_type = None, a_architecture = None, a_identified = []\<rparr>"

definition small_world :: scan_world where
  "small_world = \<lparr>w_db = \<lparr>db_runs = [small_run], db_stages = [], db_artifacts = [small_root], db_findings = [],
       db_locations = [], db_audit = []\<rparr>, w_evidence = [], w_manifests = [], w_suppressions = [],
     w_objects = [], w_daemon = (\<lambda>_. prompt_daemon), w_ticks = 0, w_uuids = 0\<rparr>"

lemmas small_defs = small_env_def small_world_def small_run_def small_root_def

lemma small_row: "get_run (w_db small_world) ''r1'' = Some small_run" "r_status small_run = R_QUEUED"
  "distinct (map r_id (db_runs (w_db small_world)))"
  by (simp_all add: small_defs get_run_def)

lemma small_fresh: "fresh_uuids small_env small_world"
proof -
  have "inj (\<lambda>k. replicate k CHR ''u'')" by (rule injI) (metis length_replicate)
  then show ?thesis by (simp add: fresh_uuids_def small_defs)
qed

lemma small_specs_valid:
  "validate_spec (unpack_spec_of small_env small_run) = []"
  "validate_spec (static_spec_of small_env small_run) = []"
  using default_spec_valid [of "''r1''" "''unpack''" "''unpack''"] default_spec_valid [of "''r1''" "''static''" "''static''"]
  by (simp_all add: unpack_spec_of_def static_spec_of_def unpack_spec_def static_spec_def validate_spec_def
      writable_targets_def mount_errors_def Let_def slashed_def ends_with_def check_error_def OUTPUT_DIR_def
      INPUT_DIR_def ro_mount_def rw_mount_def small_defs run_dir_def UNPACK_TIMEOUT_S_def STATIC_TIMEOUT_S_def
      analyzer_memory_bytes_def analyzer_nano_cpus_def split: if_splits)

lemma prompt_watch: "0 < sp_timeout_s s \<Longrightarrow> 0 \<le> sp_grace_s s \<Longrightarrow> watch s False prompt_world =
  (Inr \<lparr>wo_verdict = W_EXITED, wo_exit_code = Some 0, wo_waited_s = 0\<rparr>, prompt_world\<lparr>dw_waits := 1\<rparr>)"
  by (simp add: enforce_deadline_def eff_simps docker_wait_def wait_once_def prompt_world_def Let_def)

lemma map_e_total: "map_e (\<lambda>x. Inr (f x)) xs = Inr (map f xs)"
  by (induction xs) (simp_all add: bind_e_def)

lemma posix_builds:
  assumes "sp_network s = NET_NONE"
  shows "\<exists>c. build_create_kwargs posix_driver s = Inr c" "validate_mounts posix_driver s = Inr ()"
proof -
  have "load_seccomp posix_driver x = Inr (case x of None \<Rightarrow> None | Some _ \<Rightarrow> Some ''{}'')" for x
    by (simp add: load_seccomp_def posix_driver_def split: option.splits)
  then show "\<exists>c. build_create_kwargs posix_driver s = Inr c"
    by (simp add: build_create_kwargs_def assms bind_e_def require_def to_host_path_def map_e_total posix_driver_def)
  show "validate_mounts posix_driver s = Inr ()"
    by (simp add: validate_mounts_def posix_driver_def require_def map_e_total bind_e_def)
qed

lemma prompt_run:
  assumes "validate_spec s = []" "sp_network s = NET_NONE"
  shows "\<exists>res d'. run_container posix_driver s False prompt_daemon = (Inr res, d') \<and> result_ok res"
proof -
  obtain c where c: "build_create_kwargs posix_driver s = Inr c" using posix_builds(1) [OF assms(2)] by blast
  have "0 < sp_timeout_s s" "0 \<le> sp_grace_s s"
    using validate_locked_down [OF assms(1)] by (simp_all add: locked_down_def)
  from prompt_watch [OF this] have w: "watch s False (da_world prompt_daemon) =
      (Inr \<lparr>wo_verdict = W_EXITED, wo_exit_code = Some 0, wo_waited_s = 0\<rparr>, prompt_world\<lparr>dw_waits := 1\<rparr>)"
    by (simp add: prompt_daemon_def)
  show ?thesis
    using run_container_eqs(4) [OF assms(1) posix_builds(2) [OF assms(2)] c _ _ w refl, of "''c1''"]
    by (simp add: prompt_daemon_def watched_result_def finished_result_def was_oom_killed_def result_ok_def Let_def)
qed

lemma small_clean:
  "ended_cleanly small_env ''unpack'' (unpack_spec_of small_env small_run) small_world"
  "ended_cleanly small_env ''static'' (static_spec_of small_env small_run) small_world"
proof -
  have "sp_network (unpack_spec_of small_env small_run) = NET_NONE"
    "sp_network (static_spec_of small_env small_run) = NET_NONE"
    by (simp_all add: unpack_spec_of_def static_spec_of_def unpack_spec_def static_spec_def default_spec_def)
  with prompt_run [OF small_specs_valid(1)] prompt_run [OF small_specs_valid(2)]
  show "ended_cleanly small_env ''unpack'' (unpack_spec_of small_env small_run) small_world"
    "ended_cleanly small_env ''static'' (static_spec_of small_env small_run) small_world"
    by (auto simp: ended_cleanly_def container_run_def small_env_def small_world_def)
qed

lemma small_reads:
  "read_result (se_parse_unpack small_env) (se_unpack_file small_env) = Inr None"
  "read_result (se_parse_static small_env) (se_static_file small_env) = Inr None"
  by (simp_all add: small_env_def read_result_def)

lemma small_pass:
  "\<exists>oc w'. run_scan small_env ''r1'' small_world = (Inr oc, w') \<and> oc_status oc = R_COMPLETED \<and> oc_findings oc = 0
    \<and> (\<exists>v b. gate_run (w_db w') ''r1'' default_policy [] None None sample_day = Inr (v, b)
         \<and> verdict_exit_code v = 0)"
  by (rule missing_results_core [OF small_row(1,2) small_fresh _ _ _ small_clean small_reads])
     (simp_all add: small_env_def small_world_def root_artifact_def small_root_def degraded_stages_def)

theorem missing_results_pass_witness:
  "\<exists>oc w'. run_scan small_env ''r1'' small_world = (Inr oc, w') \<and> oc_status oc = R_COMPLETED \<and> oc_findings oc = 0
    \<and> (\<exists>v b. gate_run (w_db w') ''r1'' default_policy [] None None sample_day = Inr (v, b)
         \<and> verdict_exit_code v = 0)"
  by (rule missing_results_pass [OF small_row(1,2) small_fresh _ _ _ small_clean small_reads])
     (simp_all add: small_env_def small_world_def root_artifact_def small_root_def degraded_stages_def)

theorem claimed_scan_ends_honestly_witness:
  "\<exists>oc w'. run_scan small_env ''r1'' small_world = (Inr oc, w') \<and> honest_end ''r1'' (w_db w') oc"
  by (rule claimed_scan_ends_honestly [OF small_row(1,2)])

text \<open>The same run delivered again after it was claimed.\<close>

definition running_world :: scan_world where
  "running_world = small_world\<lparr>w_db := (w_db small_world)\<lparr>db_runs := [small_run\<lparr>r_status := R_RUNNING\<rparr>]\<rparr>\<rparr>"

theorem duplicate_delivery_changes_nothing_witness:
  "scan_run small_env True True ''r1'' running_world = (Skipped, [], running_world\<lparr>w_ticks := 1\<rparr>)"
proof -
  have "get_run (w_db running_world) ''r1'' = Some (small_run\<lparr>r_status := R_RUNNING\<rparr>)"
    "distinct (map r_id (db_runs (w_db running_world)))"
    by (simp_all add: running_world_def get_run_def small_run_def)
  from duplicate_delivery_changes_nothing [OF this(1) _ this(2), of small_env True True] show ?thesis
    by (simp add: running_world_def small_world_def)
qed

theorem passing_gate_rests_on_clean_analysis_witness:
  "\<exists>w'. ended_cleanly small_env ''unpack'' (unpack_spec_of small_env small_run) small_world
    \<and> ended_cleanly small_env ''static'' (static_spec_of small_env small_run) small_world
    \<and> tree_complete small_env \<and> snd (run_scan small_env ''r1'' small_world) = w'"
proof -
  obtain oc w' v b where x: "run_scan small_env ''r1'' small_world = (Inr oc, w')"
    "gate_run (w_db w') ''r1'' default_policy [] None None sample_day = Inr (v, b)" "verdict_exit_code v = 0"
    using small_pass by blast
  have "p_on_degraded default_policy \<noteq> PASS_DEGRADED" by (simp add: default_policy_def)
  from passing_gate_rests_on_clean_analysis [OF small_row(1,2) small_fresh x(1,2) this x(3)] x(1)
  show ?thesis by simp
qed

end
