(* ===== verification/Scan_Tree.thy ===== *)
theory Scan_Tree
  imports Scan_Gate
begin

text \<open>
  The artifact tree a scan records (\<open>_materialise_tree\<close>): one row for every node the unpacker
  reported, each under the root or under a row written before it.
\<close>

lemma bind_e_InrE: "bind_e m f = Inr y \<Longrightarrow> (\<And>x. m = Inr x \<Longrightarrow> f x = Inr y \<Longrightarrow> R) \<Longrightarrow> R"
  by (cases m) (auto simp: bind_e_def)

lemma need_Inr [simp]: "need k v = Inr x \<longleftrightarrow> v = Some x"
  by (cases v) (auto simp: need_def option_to_e_def)

lemma parent_known: fixes d :: "(string, string) dict" shows "(case map_of d k of None \<Rightarrow> r | Some p \<Rightarrow> p) \<in> insert r (snd ` set d)"
  by (cases "map_of d k") (auto dest: map_of_SomeD simp: rev_image_eqI)

lemma materialise_node_row:
  assumes "materialise_node run_id root_row i by_path n = Inr a"
  shows "a_id a = i" "a_run_id a = run_id" "nj_path_in_tree n = Some (a_path_in_tree a)"
    "nj_depth n = Some (a_depth a)"
    "\<exists>p. a_parent_id a = Some p \<and> (p = a_id root_row \<or> p \<in> snd ` set by_path)"
proof -
  have "a_id a = i \<and> a_run_id a = run_id \<and> nj_path_in_tree n = Some (a_path_in_tree a)
    \<and> nj_depth n = Some (a_depth a)
    \<and> a_parent_id a = Some (if nj_parent_path n = Some (a_path_in_tree root_row) then a_id root_row
        else (case map_of by_path (or_empty [] (nj_parent_path n)) of None \<Rightarrow> a_id root_row | Some p \<Rightarrow> p))"
    using assms unfolding materialise_node_def by (auto elim!: bind_e_InrE)
  then show "a_id a = i" "a_run_id a = run_id" "nj_path_in_tree n = Some (a_path_in_tree a)"
    "nj_depth n = Some (a_depth a)"
    "\<exists>p. a_parent_id a = Some p \<and> (p = a_id root_row \<or> p \<in> snd ` set by_path)"
    using parent_known [of "a_id root_row" by_path "or_empty [] (nj_parent_path n)"] by simp_all
qed

text \<open>The rows come in order, each with a parent already known.\<close>

definition grown :: "string \<Rightarrow> string set \<Rightarrow> artifact list \<Rightarrow> bool" where
  "grown root_id known rows \<longleftrightarrow>
     (\<forall>j < length rows. \<exists>p. a_parent_id (rows ! j) = Some p
        \<and> (p = root_id \<or> p \<in> known \<or> p \<in> a_id ` set (take j rows)))"

lemma grown_Cons:
  assumes "a_parent_id a = Some p" "p = root_id \<or> p \<in> known" "grown root_id (insert (a_id a) known) rows"
  shows "grown root_id known (a # rows)"
  unfolding grown_def
proof (intro allI impI)
  fix j assume j: "j < length (a # rows)"
  show "\<exists>p. a_parent_id ((a # rows) ! j) = Some p
     \<and> (p = root_id \<or> p \<in> known \<or> p \<in> a_id ` set (take j (a # rows)))"
  proof (cases j)
    case 0
    with assms(1,2) show ?thesis by auto
  next
    case (Suc k)
    with assms(3) j show ?thesis by (auto simp: grown_def)
  qed
qed

lemma grown_mono: "grown r known rows \<Longrightarrow> known \<subseteq> known' \<Longrightarrow> grown r known' rows"
  unfolding grown_def by blast

lemma update_values: "snd ` set (AList.update k v xs) \<subseteq> insert v (snd ` set xs)"
  by (induction xs) auto

definition node_place :: "node_json \<Rightarrow> int option \<times> string option" where
  "node_place n = (nj_depth n, nj_path_in_tree n)"

definition row_place :: "artifact \<Rightarrow> int option \<times> string option" where
  "row_place a = (Some (a_depth a), Some (a_path_in_tree a))"

lemma materialise_nodes_rows:
  "materialise_nodes run_id root_row uuid k by_path ns = Inr (rows, by_path') \<Longrightarrow>
     map a_id rows = map uuid [k ..< k + length ns] \<and> (\<forall>a \<in> set rows. a_run_id a = run_id)
     \<and> map node_place ns = map row_place rows \<and> grown (a_id root_row) (snd ` set by_path) rows"
proof (induction ns arbitrary: k by_path rows by_path')
  case (Cons n ns)
  from Cons.prems obtain a rest where
    a: "materialise_node run_id root_row (uuid k) by_path n = Inr a"
    and rest: "materialise_nodes run_id root_row uuid (Suc k) (AList.update (a_path_in_tree a) (a_id a) by_path) ns
      = Inr (rest, by_path')"
    and rows: "rows = a # rest"
    unfolding materialise_nodes.simps by (elim bind_e_InrE) (clarsimp split: prod.splits)
  note row = materialise_node_row [OF a]
  obtain p where p: "a_parent_id a = Some p" "p = a_id root_row \<or> p \<in> snd ` set by_path" using row(5) by blast
  have "grown (a_id root_row) (insert (a_id a) (snd ` set by_path)) rest"
    using conjunct2 [OF conjunct2 [OF conjunct2 [OF Cons.IH [OF rest]]]] update_values by (rule grown_mono)
  then have "grown (a_id root_row) (snd ` set by_path) rows"
    unfolding rows by (rule grown_Cons [OF p])
  moreover have "[k ..< k + length (n # ns)] = k # [Suc k ..< Suc k + length ns]"
    by (simp add: upt_conv_Cons del: upt_Suc)
  then have "map a_id rows = map uuid [k ..< k + length (n # ns)]"
    using Cons.IH [OF rest] row(1) unfolding rows by (metis list.map(2))
  moreover have "node_place n = row_place a" using row(3,4) by (simp add: node_place_def row_place_def)
  then have "map node_place (n # ns) = map row_place rows"
    using Cons.IH [OF rest] unfolding rows by (metis list.map(2))
  moreover have "\<forall>a \<in> set rows. a_run_id a = run_id"
    using Cons.IH [OF rest] row(2) unfolding rows by auto
  ultimately show ?case by blast
qed (simp add: grown_def)

text \<open>The edges of the tree.\<close>

definition child_of :: "artifact list \<Rightarrow> (string \<times> string) set" where
  "child_of rows = {(a_id a, p) | a p. a \<in> set rows \<and> a_parent_id a = Some p}"

lemma grown_reaches_root:
  assumes "grown r {} rows" "j < length rows"
  shows "(a_id (rows ! j), r) \<in> (child_of rows)\<^sup>+"
  using assms(2)
proof (induction j rule: less_induct)
  case (less j)
  from assms(1) less.prems obtain p where p: "a_parent_id (rows ! j) = Some p"
    "p = r \<or> p \<in> a_id ` set (take j rows)" by (auto simp: grown_def)
  have edge: "(a_id (rows ! j), p) \<in> child_of rows"
    using p(1) less.prems by (auto simp: child_of_def)
  from p(2) show ?case
  proof
    assume "p = r" with edge show ?thesis by auto
  next
    assume "p \<in> a_id ` set (take j rows)"
    then obtain k where "k < j" "k < length rows" "p = a_id (rows ! k)"
      by (auto simp: in_set_conv_nth)
    with less.IH [of k] have "(p, r) \<in> (child_of rows)\<^sup>+" by simp
    with edge show ?thesis by (rule trancl_into_trancl2)
  qed
qed

lemma sorted_nodes_mset: "length ks = length ns \<Longrightarrow> mset (map snd (sort_key fst (zip ks ns))) = mset ns"
  by (metis map_snd_zip mset_map mset_sort)

text \<open>The artifact tree is a tree: every node the unpacker reported becomes exactly one row of the run,
  at its own path and depth, no two rows share an id, and following parents from any row leads to the
  root artifact, even when the reported parents are wrong or missing.\<close>

theorem recorded_tree_reaches_root:
  assumes "materialise_tree run_id root_row uuid payload = Inr (rows, by_path)" "inj uuid"
  shows "image_mset row_place (mset rows) = image_mset node_place (mset (uj_nodes payload))
    \<and> list_all (\<lambda>a. a_run_id a = run_id \<and> (a_id a, a_id root_row) \<in> (child_of rows)\<^sup>+) rows
    \<and> distinct (map a_id rows)"
proof -
  obtain keys where keys: "map_e node_sort_key (uj_nodes payload) = Inr keys"
    and rows: "materialise_nodes run_id root_row uuid 0 [] (map snd (sort_key fst (zip keys (uj_nodes payload))))
      = Inr (rows, by_path)"
    using assms(1) unfolding materialise_tree_def by (elim bind_e_InrE)
  note facts = materialise_nodes_rows [OF rows]
  have "mset (map node_place (map snd (sort_key fst (zip keys (uj_nodes payload))))) = mset (map row_place rows)"
    using facts by metis
  then have "image_mset row_place (mset rows) = image_mset node_place (mset (uj_nodes payload))"
    using sorted_nodes_mset [OF map_e_length [OF keys]] by (metis mset_map)
  moreover have "distinct (map a_id rows)"
    using facts assms(2) by (auto simp: distinct_map intro: inj_on_subset)
  moreover have "(a_id a, a_id root_row) \<in> (child_of rows)\<^sup>+" if "a \<in> set rows" for a
    using that facts grown_reaches_root [of "a_id root_row" rows] by (auto simp: in_set_conv_nth)
  ultimately show ?thesis using facts by (simp add: list_all_iff)
qed

definition small_node :: "string \<Rightarrow> string \<Rightarrow> int \<Rightarrow> node_json" where
  "small_node path parent depth = \<lparr>nj_relative_path = Some path, nj_path_in_tree = Some path,
     nj_parent_path = Some parent, nj_depth = Some depth, nj_sha256 = None, nj_size_bytes = Some 1,
     nj_extracted_by = None\<rparr>"

theorem recorded_tree_reaches_root_witness:
  "\<exists>rows by_path. materialise_tree ''r1'' small_root (se_uuid small_env)
      (empty_unpack\<lparr>uj_nodes := [small_node ''b'' ''a'' 2, small_node ''a'' ''app.zip'' 1, small_node ''c'' ''lost'' 1]\<rparr>)
      = Inr (rows, by_path)
    \<and> length rows = 3 \<and> distinct (map a_id rows)"
proof -
  let ?p = "empty_unpack\<lparr>uj_nodes := [small_node ''b'' ''a'' 2, small_node ''a'' ''app.zip'' 1, small_node ''c'' ''lost'' 1]\<rparr>"
  obtain rows by_path where run: "materialise_tree ''r1'' small_root (se_uuid small_env) ?p = Inr (rows, by_path)"
    by (simp add: materialise_tree_def small_node_def bind_e_def node_sort_key_def need_def option_to_e_def
        materialise_node_def)
  have "inj (se_uuid small_env)" using small_fresh by (simp add: fresh_uuids_def)
  from recorded_tree_reaches_root [OF run this] have
    ok: "image_mset row_place (mset rows) = image_mset node_place (mset (uj_nodes ?p))" "distinct (map a_id rows)"
    by auto
  have "size (image_mset row_place (mset rows)) = size (image_mset node_place (mset (uj_nodes ?p)))"
    by (simp only: ok(1))
  then have "length rows = 3" by simp
  with run ok(2) show ?thesis by auto
qed

end
