(* ===== verification/Run_Lifecycle.thy ===== *)
theory Run_Lifecycle
  imports Scan_Tree
begin

text \<open>
  Runs enter the system (\<open>core/pipeline/ingest.py\<close>) and live in it: a transition system whose steps are
  the transactions that touch a run, namely ingestion, a worker's claim, its work, its final write, and the
  recovery sweep, in any order and any number of workers. \<open>sy_claims\<close> is the history of successful
  claims, \<open>sy_workers\<close> the claims whose worker has not written its result yet.
\<close>

subsection \<open>Ingestion\<close>

definition MAX_ARTIFACT_BYTES :: int where "MAX_ARTIFACT_BYTES = 2 * 1024 ^ 3"

record stored_object =
  so_key :: string
  so_sha256 :: string
  so_size_bytes :: int

record ingest_settings =
  is_require_attestation :: bool
  is_default_attested_by :: string
  is_default_reference :: string

datatype ingest_error = Attestation_Required string | Too_Large string

definition attestation ::
  "ingest_settings \<Rightarrow> string option \<Rightarrow> string option \<Rightarrow> ingest_error + string \<times> string" where
  "attestation settings attested_by reference =
     (let who = py_strip (or_empty [] attested_by); what = py_strip (or_empty [] reference) in
      if is_require_attestation settings
      then if who = [] then Inl (Attestation_Required ''an attesting identity is required'')
        else if length (utf8_chars what) < 8
        then Inl (Attestation_Required (''an authorization reference is required ''
               @ em_dash @ '' cite the contract, ticket, or engagement that authorises analysing this artifact''))
        else Inr (who, what)
      else Inr (if who = [] then is_default_attested_by settings else who,
                if what = [] then is_default_reference settings else what))"

definition new_run :: "string \<Rightarrow> moment \<Rightarrow> bool \<Rightarrow> run" where
  "new_run run_id now retain_plaintext =
     \<lparr>r_id = run_id, r_status = R_QUEUED, r_created_at = now, r_started_at = None, r_finished_at = None,
      r_error = None, r_previous_run_id = None, r_retain_plaintext = retain_plaintext\<rparr>"

definition root_row_of :: "string \<Rightarrow> string \<Rightarrow> string \<Rightarrow> stored_object \<Rightarrow> artifact" where
  "root_row_of artifact_id run_id filename stored =
     \<lparr>a_id = artifact_id, a_run_id = run_id, a_parent_id = None, a_name = filename, a_path_in_tree = filename,
      a_depth = 0, a_sha256 = so_sha256 stored, a_size_bytes = so_size_bytes stored,
      a_storage_key = Some (so_key stored), a_extracted_by = None, a_kind = ''unknown'', a_media_type = None,
      a_architecture = None, a_identified = []\<rparr>"

definition upload_entries :: "string \<Rightarrow> string \<Rightarrow> string \<Rightarrow> string \<Rightarrow> string \<Rightarrow> stored_object \<Rightarrow> audit_entry list" where
  "upload_entries run_id who reference attested_at filename stored =
     [record_audit ARTIFACT_UPLOADED who (Some run_id)
        [(''filename'', PStr filename), (''sha256'', PStr (so_sha256 stored)),
         (''size_bytes'', PInt (so_size_bytes stored))],
      record_audit ATTESTATION_RECORDED who (Some run_id)
        [(''attestation_reference'', PStr reference), (''attested_at'', PStr attested_at)]]"

text \<open>The uploaded bytes are stored before their size is judged. \<open>put\<close> is the object store, \<open>show_time\<close> prints a
  datetime. The columns of the run that repeat the attestation are in the audit log.\<close>

definition ingest_artifact ::
  "ingest_settings \<Rightarrow> (string \<Rightarrow> stored_object) \<Rightarrow> (moment \<Rightarrow> string) \<Rightarrow> moment \<Rightarrow> string \<Rightarrow> string \<Rightarrow> string
     \<Rightarrow> string option \<Rightarrow> string option \<Rightarrow> bool \<Rightarrow> stored_object list \<times> db
     \<Rightarrow> (ingest_error + run \<times> artifact) \<times> stored_object list \<times> db" where
  "ingest_artifact settings put show_time now run_id artifact_id filename attested_by reference retain_plaintext st =
     (case st of (objects, d) \<Rightarrow>
      case attestation settings attested_by reference of
        Inl e \<Rightarrow> (Inl e, objects, d)
      | Inr (who, what) \<Rightarrow>
          (let stored = put filename; objects' = stored # objects in
           if so_size_bytes stored > MAX_ARTIFACT_BYTES
           then (Inl (Too_Large (''artifact exceeds the '' @ show_int (MAX_ARTIFACT_BYTES div 1024 ^ 3) @ '' GiB limit'')),
                 objects', d)
           else (let run = new_run run_id now retain_plaintext;
                     row = root_row_of artifact_id run_id filename stored in
             (Inr (run, row), objects',
              d\<lparr>db_runs := db_runs d @ [run], db_artifacts := db_artifacts d @ [row],
                db_audit := db_audit d @ upload_entries run_id who what (show_time now) filename stored\<rparr>))))"

text \<open>Nothing is ingested without an attestation on record: an accepted upload leaves exactly one new
  queued run with its root artifact and an audit entry that names the attesting identity and the
  reference, which where attestation is required are non-empty and at least eight characters; a
  refused upload leaves the database as it was.\<close>

theorem ingestion_is_attested:
  assumes "ingest_artifact settings put show_time now i a filename by_whom ref retain (objs, d) = (res, objs', d')"
  shows "case res of
      Inl e \<Rightarrow> d' = d
    | Inr (run, row) \<Rightarrow> db_runs d' = db_runs d @ [run] \<and> r_status run = R_QUEUED \<and> root_artifact i d' \<noteq> None
        \<and> (\<exists>who what entry. entry \<in> set (db_audit d') \<and> au_action entry = ATTESTATION_RECORDED
             \<and> au_run_id entry = Some (r_id run) \<and> au_actor entry = who
             \<and> (''attestation_reference'', PStr what) \<in> set (au_detail entry)
             \<and> (is_require_attestation settings \<longrightarrow> who \<noteq> [] \<and> 8 \<le> length (utf8_chars what)))"
proof (cases "attestation settings by_whom ref")
  case (Inl e)
  with assms show ?thesis by (auto simp: ingest_artifact_def)
next
  case (Inr p)
  obtain who what where p: "p = (who, what)" by fastforce
  have valid: "is_require_attestation settings \<longrightarrow> who \<noteq> [] \<and> 8 \<le> length (utf8_chars what)"
    using Inr p by (auto simp: attestation_def Let_def split: if_splits)
  let ?e = "record_audit ATTESTATION_RECORDED who (Some i)
      [(''attestation_reference'', PStr what), (''attested_at'', PStr (show_time now))]"
  show ?thesis
  proof (cases "so_size_bytes (put filename) > MAX_ARTIFACT_BYTES")
    case True
    with assms Inr p show ?thesis by (auto simp: ingest_artifact_def Let_def)
  next
    case False
    with assms Inr p have res: "res = Inr (new_run i now retain, root_row_of a i filename (put filename))"
      and d': "db_runs d' = db_runs d @ [new_run i now retain]"
        "db_artifacts d' = db_artifacts d @ [root_row_of a i filename (put filename)]"
        "?e \<in> set (db_audit d')"
      by (auto simp: ingest_artifact_def Let_def upload_entries_def)
    have "root_artifact i d' \<noteq> None"
      using d'(2) unfolding root_artifact_def find_None_iff
      by (metis artifact.select_convs(2,3) in_set_conv_decomp root_row_of_def)
    with d' valid show ?thesis
      by (auto simp: res new_run_def record_audit_def intro!: exI [of _ ?e])
  qed
qed

definition strict_settings :: ingest_settings where
  "strict_settings = \<lparr>is_require_attestation = True, is_default_attested_by = ''dev'', is_default_reference = ''none''\<rparr>"

theorem ingestion_is_attested_witness:
  "snd (snd (ingest_artifact strict_settings (\<lambda>n. \<lparr>so_key = n, so_sha256 = ''s'', so_size_bytes = 5\<rparr>) (\<lambda>_. ''t'')
      (Moment True 0) ''r1'' ''a1'' ''app.zip'' (Some ''  '') (Some ''CONTRACT-1'') False ([], w_db small_world)))
   = w_db small_world"
proof -
  let ?x = "ingest_artifact strict_settings (\<lambda>n. \<lparr>so_key = n, so_sha256 = ''s'', so_size_bytes = 5\<rparr>) (\<lambda>_. ''t'')
      (Moment True 0) ''r1'' ''a1'' ''app.zip'' (Some ''  '') (Some ''CONTRACT-1'') False ([], w_db small_world)"
  obtain res objs' d' where x: "?x = (res, objs', d')" by (cases ?x) auto
  have "\<exists>e. res = Inl e"
    using x by (auto simp: ingest_artifact_def attestation_def strict_settings_def or_empty_def py_strip_def
        py_space_def)
  with ingestion_is_attested [OF x] x show ?thesis by auto
qed

subsection \<open>The transition system\<close>

record system =
  sy_db :: db
  sy_workers :: "string list"
  sy_claims :: "string list"

definition fail_claim_row :: "moment \<Rightarrow> string \<Rightarrow> run \<Rightarrow> run" where
  "fail_claim_row now e r =
     r\<lparr>r_status := R_FAILED, r_error := Some (cut_text 2000 e), r_finished_at := Some now\<rparr>"

text \<open>A worker's own transactions may change everything but the rows of the runs, which keep all their
  columns except the link to a previous run.\<close>

inductive life_step :: "int \<Rightarrow> int \<Rightarrow> nat \<Rightarrow> system \<Rightarrow> system \<Rightarrow> bool" for g t l where
  Ingested: "r_id r \<notin> r_id ` set (db_runs (sy_db s)) \<Longrightarrow> r_status r = R_QUEUED \<Longrightarrow>
     db_runs d' = db_runs (sy_db s) @ [r] \<Longrightarrow> life_step g t l s (s\<lparr>sy_db := d'\<rparr>)"
| Claimed: "claim_run i now (sy_db s) = (True, d') \<Longrightarrow>
     life_step g t l s (s\<lparr>sy_db := d', sy_workers := i # sy_workers s, sy_claims := i # sy_claims s\<rparr>)"
| Worked: "i \<in> set (sy_workers s) \<Longrightarrow> map core_row (db_runs d') = map core_row (db_runs (sy_db s)) \<Longrightarrow>
     life_step g t l s (s\<lparr>sy_db := d'\<rparr>)"
| Closed: "i \<in> set (sy_workers s) \<Longrightarrow>
     life_step g t l s (s\<lparr>sy_db := update_run i (close_row degraded now) (sy_db s),
                         sy_workers := remove1 i (sy_workers s)\<rparr>)"
| Broke: "i \<in> set (sy_workers s) \<Longrightarrow>
     life_step g t l s (s\<lparr>sy_db := update_run i (fail_claim_row now e) (sy_db s),
                         sy_workers := remove1 i (sy_workers s)\<rparr>)"
| Swept: "m_aware now \<Longrightarrow> life_step g t l s (s\<lparr>sy_db := snd (sweep_orphaned_runs g t l now (sy_db s))\<rparr>)"

inductive_cases life_stepE: "life_step g t l s s'"

definition empty_system :: system where
  "empty_system = \<lparr>sy_db = \<lparr>db_runs = [], db_stages = [], db_artifacts = [], db_findings = [],
     db_locations = [], db_audit = []\<rparr>, sy_workers = [], sy_claims = []\<rparr>"

inductive life :: "int \<Rightarrow> int \<Rightarrow> nat \<Rightarrow> system \<Rightarrow> bool" for g t l where
  life_start: "life g t l empty_system"
| life_next: "life g t l s \<Longrightarrow> life_step g t l s s' \<Longrightarrow> life g t l s'"

subsection \<open>No run is scanned twice\<close>

definition run_ids :: "db \<Rightarrow> string list" where
  "run_ids d = map r_id (db_runs d)"

definition queued_ids :: "db \<Rightarrow> string set" where
  "queued_ids d = r_id ` {r \<in> set (db_runs d). r_status r = R_QUEUED}"

definition life_inv :: "system \<Rightarrow> bool" where
  "life_inv s \<longleftrightarrow> distinct (run_ids (sy_db s)) \<and> distinct (sy_claims s)
     \<and> set (sy_claims s) \<subseteq> set (run_ids (sy_db s)) \<and> set (sy_workers s) \<subseteq> set (sy_claims s)
     \<and> set (sy_claims s) \<inter> queued_ids (sy_db s) = {}"

text \<open>A transaction that keeps the ids and queues nothing keeps the invariant.\<close>

lemma rows_mapped:
  assumes "db_runs d' = map f (db_runs d)" "\<And>r. r_id (f r) = r_id r"
    "\<And>r. r_status (f r) = R_QUEUED \<Longrightarrow> r_status r = R_QUEUED"
  shows "run_ids d' = run_ids d" "queued_ids d' \<subseteq> queued_ids d"
  using assms by (auto simp: run_ids_def queued_ids_def)

lemma rows_core:
  assumes "map core_row (db_runs d') = map core_row (db_runs d)"
  shows "run_ids d' = run_ids d" "queued_ids d' = queued_ids d"
proof -
  have "map r_id (map core_row rs) = map r_id rs" for rs by (simp add: core_row_def)
  then show "run_ids d' = run_ids d" using assms by (metis run_ids_def)
  have q: "map r_id (filter (\<lambda>r. r_status r = R_QUEUED) (map core_row rs)) =
      map r_id (filter (\<lambda>r. r_status r = R_QUEUED) rs)" for rs
    by (induction rs) (simp_all add: core_row_def)
  have as_list: "queued_ids e = set (map r_id (filter (\<lambda>r. r_status r = R_QUEUED) (db_runs e)))" for e
    by (simp add: queued_ids_def)
  show "queued_ids d' = queued_ids d" unfolding as_list using q assms by metis
qed

lemma claim_rows:
  assumes "claim_run i now d = (True, d')"
  shows "run_ids d' = run_ids d" "queued_ids d' = queued_ids d - {i}" "i \<in> queued_ids d"
  using assms by (auto simp: claim_run_def Let_def run_ids_def queued_ids_def claim_row_def list_ex_iff image_iff)

lemma sweep_queues_nothing:
  assumes "m_aware now" "distinct (run_ids d)"
  shows "run_ids (snd (sweep_orphaned_runs g t l now d)) = run_ids d"
    "queued_ids (snd (sweep_orphaned_runs g t l now d)) \<subseteq> queued_ids d"
proof -
  have status: "r_status (verdict_row v r) = R_QUEUED \<Longrightarrow> r_status r = R_QUEUED" for v r
    by (cases v) (simp_all add: fail_row_def)
  have rows: "db_runs (snd (sweep_orphaned_runs g t l now d)) =
      map (\<lambda>r. verdict_row (sweep_verdict_of g t l now d r) r) (db_runs d)"
    using sweep_judges_core [OF assms(1)] assms(2) by (simp add: run_ids_def)
  show "run_ids (snd (sweep_orphaned_runs g t l now d)) = run_ids d"
    "queued_ids (snd (sweep_orphaned_runs g t l now d)) \<subseteq> queued_ids d"
    using rows_mapped [OF rows] status by auto
qed

lemma life_step_inv: "life_step g t l s s' \<Longrightarrow> life_inv s \<Longrightarrow> life_inv s'"
proof (induction rule: life_step.induct)
  case (Ingested r s d')
  then show ?case by (auto simp: life_inv_def run_ids_def queued_ids_def)
next
  case (Claimed i now s d')
  have "i \<in> set (run_ids (sy_db s))" using claim_rows(3) [OF Claimed(1)] by (auto simp: queued_ids_def run_ids_def)
  with Claimed(2) claim_rows [OF Claimed(1)] show ?case by (auto simp: life_inv_def)
next
  case (Worked i s d')
  then show ?case using rows_core [OF Worked(2)] by (simp add: life_inv_def)
next
  case (Closed i s degraded now)
  have rows: "db_runs (update_run i (close_row degraded now) (sy_db s)) =
      map (\<lambda>r. if r_id r = i then close_row degraded now r else r) (db_runs (sy_db s))"
    by (simp add: update_run_def)
  note kept = rows_mapped [OF rows]
  from Closed(2) kept set_remove1_subset [of i "sy_workers s"] show ?case
    by (fastforce simp: life_inv_def split: if_splits)
next
  case (Broke i s now e)
  have rows: "db_runs (update_run i (fail_claim_row now e) (sy_db s)) =
      map (\<lambda>r. if r_id r = i then fail_claim_row now e r else r) (db_runs (sy_db s))"
    by (simp add: update_run_def)
  note kept = rows_mapped [OF rows]
  from Broke(2) kept set_remove1_subset [of i "sy_workers s"] show ?case
    by (fastforce simp: life_inv_def fail_claim_row_def split: if_splits)
next
  case (Swept now s)
  then have "distinct (run_ids (sy_db s))" by (simp add: life_inv_def)
  from sweep_queues_nothing [OF Swept(1) this] Swept(2) show ?case by (fastforce simp: life_inv_def)
qed

lemma life_invariant: "life g t l s \<Longrightarrow> life_inv s"
proof (induction rule: life.induct)
  case life_start
  show ?case by (simp add: life_inv_def empty_system_def run_ids_def queued_ids_def)
next
  case (life_next s s')
  then show ?case by (blast intro: life_step_inv)
qed

text \<open>C18: No run is scanned twice: however ingestions, duplicate deliveries, scans, failures and sweeps
  interleave, every run is claimed at most once, only claimed runs are worked on, and a claimed run is
  never queued again.\<close>

theorem run_claimed_at_most_once:
  assumes "life g t l s"
  shows "distinct (sy_claims s) \<and> set (sy_workers s) \<subseteq> set (sy_claims s)
    \<and> set (sy_claims s) \<inter> queued_ids (sy_db s) = {}"
  using life_invariant [OF assms] by (simp add: life_inv_def)

subsection \<open>The code takes these steps\<close>

lemma execute_core_rows:
  "execute env run w = (res, w') \<Longrightarrow> map core_row (db_runs (w_db w')) = map core_row (db_runs (w_db w))"
  using keepsD [OF rows.execute_keeps, of "map core_row (db_runs (w_db w))" run w env] by (simp add: rows.holds_def)

text \<open>C19: The scan takes the steps of the transition system: a scan of a queued run is a claim, work that
  leaves the rows of the runs alone, and one final write; so what holds of every reachable system
  holds while scans run.\<close>

theorem scan_takes_life_steps:
  assumes "get_run (w_db w) i = Some r" "r_status r = R_QUEUED" "sy_db s = w_db w"
    and "run_scan env i w = (Inr oc, w')"
  shows "(life_step g t l)\<^sup>+\<^sup>+ s (s\<lparr>sy_db := w_db w', sy_claims := i # sy_claims s\<rparr>)"
proof -
  let ?d1 = "w_db (claimed_world env i w)"
  define s1 where "s1 = s\<lparr>sy_db := ?d1, sy_workers := i # sy_workers s, sy_claims := i # sy_claims s\<rparr>"
  have hit: "claim_run i (se_clock env (w_ticks w)) (sy_db s) = (True, ?d1)"
    using claim_hits [OF assms(1,2)] assms(3) by (simp add: claimed_world_def prod_eq_iff)
  have step1: "life_step g t l s s1" unfolding s1_def by (rule Claimed) (rule hit)
  obtain res w1 where ex: "execute env (claimed_run env w r) (claimed_world env i w) = (res, w1)" by fastforce
  define s2 where "s2 = s1\<lparr>sy_db := w_db w1\<rparr>"
  have step2: "life_step g t l s1 s2"
    unfolding s2_def using execute_core_rows [OF ex] by (intro Worked [of i]) (simp_all add: s1_def)
  have worker: "i \<in> set (sy_workers s2)" by (simp add: s1_def s2_def)
  have target: "s2\<lparr>sy_db := d, sy_workers := remove1 i (sy_workers s2)\<rparr> = s\<lparr>sy_db := d, sy_claims := i # sy_claims s\<rparr>" for d
    by (cases s) (simp add: s1_def s2_def)
  have db2: "sy_db s2 = w_db w1" by (simp add: s2_def)
  have "life_step g t l s2 (s\<lparr>sy_db := w_db w', sy_claims := i # sy_claims s\<rparr>)"
  proof (cases res)
    case (Inl e)
    then have "w_db w' = update_run i (fail_claim_row (se_clock env (w_ticks w1)) e) (sy_db s2)"
      using assms(4) by (auto simp: run_scan_claimed(1) [OF assms(1,2)] ex fail_scan_run fail_claim_row_def [abs_def] db2)
    then show ?thesis using Broke [OF worker, of g t l "se_clock env (w_ticks w1)" e] unfolding target by simp
  next
    case (Inr oc1)
    then have "w_db w' = update_run i (close_row (gate_degraded (w_db w1) i) (se_clock env (w_ticks w1))) (sy_db s2)"
      using assms(4) by (auto simp: run_scan_claimed(1) [OF assms(1,2)] ex close_scan_run db2)
    then show ?thesis
      using Closed [OF worker, of g t l "gate_degraded (w_db w1) i" "se_clock env (w_ticks w1)"] unfolding target by simp
  qed
  then show ?thesis
    using tranclp.trancl_into_trancl [OF tranclp.trancl_into_trancl [OF tranclp.r_into_trancl [of "life_step g t l", OF step1] step2]]
    by blast
qed

lemma ingest_life_step:
  assumes "ingest_artifact settings put show_time now i a f who ref retain (objs, sy_db s) = (Inr (r, row), objs', d')"
    and "i \<notin> set (run_ids (sy_db s))"
  shows "life_step g t l s (s\<lparr>sy_db := d'\<rparr>)"
proof (rule Ingested [of r])
  have "r_id r = i \<and> r_status r = R_QUEUED \<and> db_runs d' = db_runs (sy_db s) @ [r]"
    using assms(1) by (auto simp: ingest_artifact_def new_run_def Let_def split: sum.splits if_splits)
  with assms(2) show "r_id r \<notin> r_id ` set (db_runs (sy_db s))" "r_status r = R_QUEUED"
    "db_runs d' = db_runs (sy_db s) @ [r]" by (simp_all add: run_ids_def)
qed

subsection \<open>A slow worker and the sweep\<close>

definition slow_run :: run where
  "slow_run = new_run ''r1'' (Moment True 0) False"

definition slow_db :: "run \<Rightarrow> db" where
  "slow_db r = \<lparr>db_runs = [r], db_stages = [], db_artifacts = [], db_findings = [], db_locations = [], db_audit = []\<rparr>"

lemma slow_sweep:
  "db_runs (snd (sweep_orphaned_runs 300 3600 2 (Moment True 3600000000) (slow_db (claim_row (Moment True 0) slow_run)))) =
     [fail_row (Moment True 3600000000) (running_reason 3600000000) (claim_row (Moment True 0) slow_run)]"
  by (subst sweep_judges_core)
     (simp_all add: slow_db_def slow_run_def new_run_def claim_row_def sweep_verdict_of_def Let_def in_flight_def
       anchor_of_def seconds_us_def naive_if_needed_def)

text \<open>A failed run can come back: a worker still at work when the sweep gives its run up as orphaned
  overwrites the failure with its own result, so FAILED is not final.\<close>

theorem swept_run_can_complete:
  "\<exists>s s'. life 300 3600 2 s \<and> map r_status (db_runs (sy_db s)) = [R_FAILED]
     \<and> life_step 300 3600 2 s s' \<and> map r_status (db_runs (sy_db s')) = [R_COMPLETED]"
proof -
  let ?d1 = "slow_db slow_run" and ?d2 = "slow_db (claim_row (Moment True 0) slow_run)"
  define d3 where "d3 = snd (sweep_orphaned_runs 300 3600 2 (Moment True 3600000000) ?d2)"
  define s1 where "s1 = empty_system\<lparr>sy_db := ?d1\<rparr>"
  define s2 where "s2 = s1\<lparr>sy_db := ?d2, sy_workers := [''r1''], sy_claims := [''r1'']\<rparr>"
  define s3 where "s3 = s2\<lparr>sy_db := d3\<rparr>"
  have "life_step 300 3600 2 empty_system s1"
    unfolding s1_def by (rule Ingested [of slow_run]) (simp_all add: empty_system_def slow_db_def slow_run_def new_run_def)
  moreover have "life_step 300 3600 2 s1 s2"
    using Claimed [of "''r1''" "Moment True 0" s1 ?d2 300 3600 2]
    by (simp add: s1_def s2_def empty_system_def claim_run_def Let_def slow_db_def slow_run_def new_run_def)
  moreover have "life_step 300 3600 2 s2 s3"
    using Swept [of "Moment True 3600000000" 300 3600 2 s2] by (simp add: s3_def d3_def s2_def)
  ultimately have reached: "life 300 3600 2 s3" by (meson life.intros)
  have runs: "db_runs d3 = [fail_row (Moment True 3600000000) (running_reason 3600000000) (claim_row (Moment True 0) slow_run)]"
    unfolding d3_def by (rule slow_sweep)
  define s4 where "s4 = s3\<lparr>sy_db := update_run ''r1'' (close_row [] (Moment True 3700000000)) (sy_db s3),
      sy_workers := remove1 ''r1'' (sy_workers s3)\<rparr>"
  have "life_step 300 3600 2 s3 s4" unfolding s4_def by (rule Closed) (simp add: s3_def s2_def)
  moreover have "map r_status (db_runs (sy_db s3)) = [R_FAILED]" "map r_status (db_runs (sy_db s4)) = [R_COMPLETED]"
    by (simp_all add: s4_def s3_def runs update_run_def fail_row_def claim_row_def slow_run_def new_run_def)
  ultimately show ?thesis using reached by (intro exI [of _ s3] exI [of _ s4] conjI)
qed

theorem run_claimed_at_most_once_witness:
  "distinct (sy_claims (empty_system\<lparr>sy_db := slow_db slow_run\<rparr>))
   \<and> set (sy_claims (empty_system\<lparr>sy_db := slow_db slow_run\<rparr>)) \<inter> queued_ids (slow_db slow_run) = {}"
proof -
  have "life_step 300 3600 2 empty_system (empty_system\<lparr>sy_db := slow_db slow_run\<rparr>)"
    by (rule Ingested [of slow_run]) (simp_all add: empty_system_def slow_db_def slow_run_def new_run_def)
  then have "life 300 3600 2 (empty_system\<lparr>sy_db := slow_db slow_run\<rparr>)" by (meson life.intros)
  from run_claimed_at_most_once [OF this] show ?thesis by simp
qed

theorem scan_takes_life_steps_witness:
  "\<exists>d'. (life_step 300 3600 2)\<^sup>+\<^sup>+ (empty_system\<lparr>sy_db := w_db small_world\<rparr>)
     (empty_system\<lparr>sy_db := d', sy_claims := [''r1'']\<rparr>)"
proof -
  obtain oc w' where run: "run_scan small_env ''r1'' small_world = (Inr oc, w')" using small_pass by blast
  have "sy_db (empty_system\<lparr>sy_db := w_db small_world\<rparr>) = w_db small_world" by simp
  from scan_takes_life_steps [OF small_row(1,2) this run, of 300 3600 2] show ?thesis
    by (auto simp: empty_system_def)
qed

end
