(* ===== verification/Auth_Tokens.thy ===== *)
theory Auth_Tokens
  imports Effects Gate_Pipeline
begin

text \<open>
  API tokens: their text (\<open>core/auth.py\<close>), their life in the database (\<open>core/pipeline/tokens.py\<close>) and
  the check every request passes (\<open>api/deps.py\<close>). SHA-256 and the random text are parameters.
  \<open>datetime.now(UTC)\<close> is an aware moment. Text is stripped and lowered as for ASCII.
\<close>

definition TOKEN_PREFIX :: string where "TOKEN_PREFIX = ''bare_''"
definition BOOTSTRAP_TOKEN_NAME :: string where "BOOTSTRAP_TOKEN_NAME = ''bootstrap''"

subsection \<open>Scopes\<close>

datatype scope = CI | ADMIN

fun scope_value :: "scope \<Rightarrow> string" where
  "scope_value CI = ''ci''"
| "scope_value ADMIN = ''admin''"

fun scope_rank :: "scope \<Rightarrow> nat" where
  "scope_rank CI = 0"
| "scope_rank ADMIN = 1"

definition satisfies :: "scope \<Rightarrow> scope \<Rightarrow> bool" where
  "satisfies s required \<longleftrightarrow> scope_rank s \<ge> scope_rank required"

definition scope_of :: "string \<Rightarrow> scope option" where
  "scope_of t = (if t = ''ci'' then Some CI else if t = ''admin'' then Some ADMIN else None)"

subsection \<open>Token text\<close>

definition generate_token :: "string \<Rightarrow> string" where
  "generate_token random_text = TOKEN_PREFIX @ random_text"

definition hash_token :: "(string \<Rightarrow> string) \<Rightarrow> string \<Rightarrow> string" where
  "hash_token sha token = sha (py_strip token)"

text \<open>\<open>value.split(None, 1)\<close> of a text without surrounding blanks: the first word and the rest.\<close>

definition first_word :: "string \<Rightarrow> string" where
  "first_word v = takeWhile (\<lambda>c. \<not> py_space c) v"

definition after_word :: "string \<Rightarrow> string" where
  "after_word v = dropWhile py_space (dropWhile (\<lambda>c. \<not> py_space c) v)"

definition parse_bearer :: "string option \<Rightarrow> string option" where
  "parse_bearer header =
     (case header of
        None \<Rightarrow> None
      | Some h \<Rightarrow>
          (let v = py_strip h in
           if v = [] then None
           else if after_word v \<noteq> []
           then if py_lower (first_word v) \<noteq> ''bearer'' then None
             else or_str (Some (py_strip (after_word v))) None
           else if py_lower (first_word v) = ''bearer'' then None
           else or_str (Some (first_word v)) None))"

definition looks_like_token :: "string \<Rightarrow> bool" where
  "looks_like_token v \<longleftrightarrow> starts_with TOKEN_PREFIX v \<and> length v > length TOKEN_PREFIX + 16"

definition redact :: "string \<Rightarrow> string" where
  "redact token =
     (if token = [] then ''<empty>''
      else TOKEN_PREFIX
        @ take 8 (if starts_with TOKEN_PREFIX token then drop (length TOKEN_PREFIX) token else token)
        @ [CHR 0xE2, CHR 0x80, CHR 0xA6])"

subsection \<open>The table\<close>

record token_row =
  tk_id :: string
  tk_name :: string
  tk_hash :: string
  tk_prefix :: string
  tk_scope :: string
  tk_created_by :: string
  tk_created_at :: moment
  tk_expires_at :: "moment option"
  tk_revoked_at :: "moment option"
  tk_last_used_at :: "moment option"
  tk_use_count :: nat

record token_db =
  td_tokens :: "token_row list"
  td_audit :: "audit_entry list"

definition is_active :: "token_row \<Rightarrow> moment \<Rightarrow> bool" where
  "is_active t now \<longleftrightarrow>
     (if tk_revoked_at t \<noteq> None then False
      else \<not> (case tk_expires_at t of None \<Rightarrow> False | Some e \<Rightarrow> m_us e \<le> m_us now))"

text \<open>\<open>_aware\<close>: the clock reading stripped of its zone when the stored expiry has none; the two are then
  alike, and comparing them compares the readings.\<close>

definition aware_now :: "moment \<Rightarrow> token_row \<Rightarrow> moment" where
  "aware_now now t =
     (case tk_expires_at t of Some e \<Rightarrow> if \<not> m_aware e then Moment False (m_us now) else now | None \<Rightarrow> now)"

datatype token_error = Token_Error string

record minted_token =
  mt_token :: string
  mt_record_id :: string
  mt_name :: string
  mt_scope :: scope
  mt_expires_at :: "moment option"

definition days_us :: "int \<Rightarrow> int" where
  "days_us n = n * 86400 * 1000000"

definition update_token :: "string \<Rightarrow> (token_row \<Rightarrow> token_row) \<Rightarrow> token_db \<Rightarrow> token_db" where
  "update_token i f d = d\<lparr>td_tokens := map (\<lambda>t. if tk_id t = i then f t else t) (td_tokens d)\<rparr>"

definition audit_token :: "audit_action \<Rightarrow> string \<Rightarrow> (string \<times> pyval) list \<Rightarrow> token_db \<Rightarrow> token_db" where
  "audit_token action actor detail d = d\<lparr>td_audit := td_audit d @ [record_audit action actor None detail]\<rparr>"

definition active_named :: "string \<Rightarrow> token_db \<Rightarrow> token_row option" where
  "active_named label d = List.find (\<lambda>t. tk_name t = label \<and> tk_revoked_at t = None) (td_tokens d)"

definition new_token_row ::
  "(string \<Rightarrow> string) \<Rightarrow> moment \<Rightarrow> string \<Rightarrow> string \<Rightarrow> string \<Rightarrow> scope \<Rightarrow> string \<Rightarrow> moment option \<Rightarrow> token_row" where
  "new_token_row sha now i plaintext label s created_by expires_at =
     \<lparr>tk_id = i, tk_name = label, tk_hash = hash_token sha plaintext, tk_prefix = redact plaintext,
      tk_scope = scope_value s, tk_created_by = created_by, tk_created_at = now, tk_expires_at = expires_at,
      tk_revoked_at = None, tk_last_used_at = None, tk_use_count = 0\<rparr>"

definition create_token ::
  "(string \<Rightarrow> string) \<Rightarrow> (moment \<Rightarrow> string) \<Rightarrow> moment \<Rightarrow> string \<Rightarrow> string \<Rightarrow> string \<Rightarrow> scope \<Rightarrow> string \<Rightarrow> int option
     \<Rightarrow> (token_db, token_error, minted_token) eff" where
  "create_token sha show_time now i random_text name s created_by expires_in_days =
     (let label = py_strip name in
      if label = [] then raise (Token_Error ''a token needs a name; an unnameable credential cannot be rotated'')
      else bind_s (reads (active_named label)) (\<lambda>existing.
        case existing of
          Some t \<Rightarrow> raise (Token_Error (''an active token named '' @ repr_str label @ '' already exists (''
                     @ tk_prefix t @ ''); revoke it first or choose another name''))
        | None \<Rightarrow>
            if (case expires_in_days of None \<Rightarrow> False | Some n \<Rightarrow> n \<le> 0)
            then raise (Token_Error ''expires_in_days must be positive'')
            else (let expires_at = map_option (\<lambda>n. Moment True (m_us now + days_us n)) expires_in_days;
                      plaintext = generate_token random_text;
                      row = new_token_row sha now i plaintext label s created_by expires_at in
              bind_s (modify (\<lambda>d. d\<lparr>td_tokens := td_tokens d @ [row]\<rparr>)) (\<lambda>_.
              bind_s (modify (audit_token TOKEN_CREATED created_by
                [(''token_id'', PStr i), (''token_name'', PStr label), (''token_prefix'', PStr (tk_prefix row)),
                 (''scope'', PStr (scope_value s)),
                 (''expires_at'', case expires_at of None \<Rightarrow> PNone | Some t \<Rightarrow> PStr (show_time t))])) (\<lambda>_.
              ret \<lparr>mt_token = plaintext, mt_record_id = i, mt_name = label, mt_scope = s,
                   mt_expires_at = expires_at\<rparr>)))))"

text \<open>Which row an identifier names: an id, then an active name, then the newest row of that name.\<close>

definition token_named :: "string \<Rightarrow> token_db \<Rightarrow> token_row option" where
  "token_named key d =
     (case List.find (\<lambda>t. tk_id t = key) (td_tokens d) of
        Some t \<Rightarrow> Some t
      | None \<Rightarrow>
          (case active_named key d of
             Some t \<Rightarrow> Some t
           | None \<Rightarrow>
               (case sort_key (\<lambda>t. - m_us (tk_created_at t)) (filter (\<lambda>t. tk_name t = key) (td_tokens d)) of
                  [] \<Rightarrow> None | t # _ \<Rightarrow> Some t)))"

definition revoke_token ::
  "(moment \<Rightarrow> string) \<Rightarrow> moment \<Rightarrow> string \<Rightarrow> string \<Rightarrow> (token_db, token_error, token_row) eff" where
  "revoke_token show_time now identifier actor =
     bind_s (reads (token_named (py_strip identifier))) (\<lambda>found.
     case found of
       None \<Rightarrow> raise (Token_Error (''no active token matches '' @ repr_str identifier))
     | Some t \<Rightarrow>
         (case tk_revoked_at t of
            Some at_time \<Rightarrow> raise (Token_Error (''token '' @ repr_str (tk_name t) @ '' was already revoked at ''
                          @ show_time at_time))
          | None \<Rightarrow>
              bind_s (modify (update_token (tk_id t) (\<lambda>t. t\<lparr>tk_revoked_at := Some now\<rparr>))) (\<lambda>_.
              bind_s (modify (audit_token TOKEN_REVOKED actor
                [(''token_id'', PStr (tk_id t)), (''token_name'', PStr (tk_name t)),
                 (''token_prefix'', PStr (tk_prefix t))])) (\<lambda>_.
                ret (t\<lparr>tk_revoked_at := Some now\<rparr>)))))"

definition list_tokens :: "bool \<Rightarrow> token_db \<Rightarrow> token_row list" where
  "list_tokens include_revoked d =
     sort_key (\<lambda>t. m_us (tk_created_at t))
       (filter (\<lambda>t. include_revoked \<or> tk_revoked_at t = None) (td_tokens d))"

definition verify_token :: "(string \<Rightarrow> string) \<Rightarrow> moment \<Rightarrow> string \<Rightarrow> (token_db, 'e, token_row option) eff" where
  "verify_token sha now plaintext =
     (if plaintext = [] then ret None
      else bind_s (reads (\<lambda>d. List.find (\<lambda>t. tk_hash t = hash_token sha plaintext) (td_tokens d))) (\<lambda>found.
        case found of
          None \<Rightarrow> ret None
        | Some t \<Rightarrow>
            if \<not> is_active t (aware_now now t) then ret None
            else (let used = (\<lambda>t. t\<lparr>tk_last_used_at := Some now, tk_use_count := tk_use_count t + 1\<rparr>) in
              bind_s (modify (update_token (tk_id t) used)) (\<lambda>_. ret (Some (used t))))))"

definition tokens_exist :: "token_db \<Rightarrow> bool" where
  "tokens_exist d \<longleftrightarrow> td_tokens d \<noteq> []"

definition ensure_bootstrap_token ::
  "(string \<Rightarrow> string) \<Rightarrow> (moment \<Rightarrow> string) \<Rightarrow> moment \<Rightarrow> string \<Rightarrow> string
     \<Rightarrow> (token_db, token_error, minted_token option) eff" where
  "ensure_bootstrap_token sha show_time now i random_text =
     bind_s (reads tokens_exist) (\<lambda>any.
       if any then ret None
       else bind_s (create_token sha show_time now i random_text BOOTSTRAP_TOKEN_NAME ADMIN ''bootstrap'' None)
              (\<lambda>m. ret (Some m)))"

subsection \<open>The check of a request\<close>

record caller =
  ca_token_id :: "string option"
  ca_name :: string
  ca_scope :: scope
  ca_authenticated :: bool

definition ANONYMOUS :: caller where
  "ANONYMOUS = \<lparr>ca_token_id = None, ca_name = ''anonymous'', ca_scope = ADMIN, ca_authenticated = False\<rparr>"

definition actor :: "caller \<Rightarrow> string" where
  "actor c = (if ca_authenticated c then ca_name c else ''unauthenticated:'' @ ca_name c)"

record http_request =
  rq_path :: string
  rq_method :: string
  rq_client :: "string option"
  rq_authorization :: "string option"
  rq_bare_token :: "string option"

datatype http_error = Http_Error nat string

definition str_or_none :: "string option \<Rightarrow> pyval" where
  "str_or_none x = (case x of None \<Rightarrow> PNone | Some t \<Rightarrow> PStr t)"

text \<open>\<open>audit_ok\<close>: whether the audit entry can be written; the refusal does not depend on it.\<close>

definition reject :: "bool \<Rightarrow> http_request \<Rightarrow> string \<Rightarrow> string option \<Rightarrow> (token_db, http_error, 'a) eff" where
  "reject audit_ok request reason presented =
     bind_s (when_s audit_ok (modify (audit_token AUTH_FAILED ''unauthenticated''
        [(''reason'', PStr reason), (''path'', PStr (rq_path request)), (''method'', PStr (rq_method request)),
         (''token_prefix'', case presented of
             Some p \<Rightarrow> if p \<noteq> [] \<and> looks_like_token p then PStr (redact p) else PNone | None \<Rightarrow> PNone),
         (''client'', str_or_none (rq_client request))])))
       (\<lambda>_. raise (Http_Error 401 ''a valid API token is required''))"

definition presented_token :: "http_request \<Rightarrow> string option" where
  "presented_token request =
     or_str (parse_bearer (rq_authorization request))
       (case rq_bare_token request of Some t \<Rightarrow> if t \<noteq> [] then Some (py_strip t) else None | None \<Rightarrow> None)"

definition caller_of :: "token_row \<Rightarrow> caller" where
  "caller_of t = \<lparr>ca_token_id = Some (tk_id t), ca_name = tk_name t,
     ca_scope = (case scope_of (tk_scope t) of Some s \<Rightarrow> s | None \<Rightarrow> CI), ca_authenticated = True\<rparr>"

definition get_caller ::
  "(string \<Rightarrow> string) \<Rightarrow> bool \<Rightarrow> bool \<Rightarrow> moment \<Rightarrow> http_request \<Rightarrow> (token_db, http_error, caller) eff" where
  "get_caller sha auth_required audit_ok now request =
     (if \<not> auth_required then ret ANONYMOUS
      else case or_str (presented_token request) None of
        None \<Rightarrow> reject audit_ok request ''no credential presented'' None
      | Some p \<Rightarrow>
          bind_s (verify_token sha now p) (\<lambda>found.
          case found of
            None \<Rightarrow> reject audit_ok request ''unknown, revoked, or expired token'' (Some p)
          | Some t \<Rightarrow> ret (caller_of t)))"

definition require_scope :: "scope \<Rightarrow> caller \<Rightarrow> (token_db, http_error, caller) eff" where
  "require_scope required c =
     (if \<not> satisfies (ca_scope c) required
      then raise (Http_Error 403 (''this token has scope '' @ [CHR 0x27] @ scope_value (ca_scope c)
             @ [CHR 0x27] @ ''; '' @ [CHR 0x27] @ scope_value required @ [CHR 0x27]
             @ '' is required for this endpoint''))
      else ret c)"

subsection \<open>Running the operations\<close>

lemma verify_run:
  "verify_token sha now p d =
     (if p = [] then (Inr None, d)
      else case List.find (\<lambda>t. tk_hash t = hash_token sha p) (td_tokens d) of
          None \<Rightarrow> (Inr None, d)
        | Some t \<Rightarrow>
            if \<not> is_active t now then (Inr None, d)
            else (Inr (Some (t\<lparr>tk_last_used_at := Some now, tk_use_count := tk_use_count t + 1\<rparr>)),
                  update_token (tk_id t) (\<lambda>t. t\<lparr>tk_last_used_at := Some now, tk_use_count := tk_use_count t + 1\<rparr>) d))"
  by (simp add: verify_token_def eff_simps aware_now_def is_active_def Let_def split: option.splits)

lemma caller_of_used [simp]:
  "caller_of (t\<lparr>tk_last_used_at := a, tk_use_count := n\<rparr>) = caller_of t"
  by (simp add: caller_of_def)

lemma verify_SomeD:
  assumes "verify_token sha now p d = (Inr (Some t), d')"
  obtains t0 where "t0 \<in> set (td_tokens d)" "tk_hash t0 = hash_token sha p" "is_active t0 now"
    "caller_of t = caller_of t0" "p \<noteq> []"
  using assms by (auto simp: verify_run split: if_splits option.splits dest!: find_SomeD)

lemma verify_never_raises: "\<exists>x. fst (verify_token sha now p d) = Inr x"
  by (auto simp: verify_run split: option.splits)

lemma reject_run:
  "reject ok rq reason p d = (Inl (Http_Error 401 ''a valid API token is required''),
     if ok then snd (reject ok rq reason p d) else d)"
  "td_tokens (snd (reject ok rq reason p d)) = td_tokens d"
  by (cases ok; simp add: reject_def eff_simps audit_token_def)+

lemma reject_not_Inr [simp]: "reject ok rq reason p d \<noteq> (Inr c, d')"
  by (cases ok) (simp_all add: reject_def eff_simps)

text \<open>C20: Access needs a live credential: when authentication is on, a request is let in only with a token
  whose hash is in the table on a row that is neither revoked nor expired, it acts as that row, and it
  is an administrator only if the row's scope says so, an unknown scope counting as the least.\<close>

theorem access_requires_live_token:
  assumes "get_caller sha True ok now rq d = (Inr c, d')"
  shows "\<exists>t p. t \<in> set (td_tokens d) \<and> presented_token rq = Some p \<and> tk_hash t = hash_token sha p
    \<and> tk_revoked_at t = None \<and> (\<forall>e. tk_expires_at t = Some e \<longrightarrow> m_us now < m_us e)
    \<and> ca_token_id c = Some (tk_id t) \<and> (ca_scope c = ADMIN \<longleftrightarrow> tk_scope t = ''admin'')"
proof -
  from assms obtain p where p: "or_str (presented_token rq) None = Some p"
    by (cases "or_str (presented_token rq) None") (auto simp: get_caller_def)
  let ?verify = "verify_token sha now p :: (token_db, http_error, token_row option) eff"
  have "\<exists>x. fst (?verify d) = Inr x" by (rule verify_never_raises)
  then obtain found d1 where v: "?verify d = (Inr found, d1)" by (cases "?verify d") auto
  from assms p v obtain t where t: "found = Some t" "c = caller_of t"
    by (cases found) (auto simp: get_caller_def eff_simps)
  obtain t0 where t0: "t0 \<in> set (td_tokens d)" "tk_hash t0 = hash_token sha p" "is_active t0 now"
      "caller_of t = caller_of t0"
    using v unfolding t(1) by (rule verify_SomeD)
  have "presented_token rq = Some p" using p by (auto simp: or_str_def split: option.splits if_splits)
  moreover have "tk_revoked_at t0 = None \<and> (\<forall>e. tk_expires_at t0 = Some e \<longrightarrow> m_us now < m_us e)"
    using t0(3) by (auto simp: is_active_def split: if_splits)
  moreover have "ca_token_id c = Some (tk_id t0) \<and> (ca_scope c = ADMIN \<longleftrightarrow> tk_scope t0 = ''admin'')"
    using t(2) t0(4) by (simp add: caller_of_def scope_of_def)
  ultimately show ?thesis using t0(1,2) by blast
qed

subsection \<open>Revocation\<close>

lemma token_named_mem: "token_named key d = Some t \<Longrightarrow> t \<in> set (td_tokens d)"
proof -
  have newest: "u # us = sort_key f (filter P xs) \<Longrightarrow> u \<in> set xs" for u us P xs and f :: "token_row \<Rightarrow> int"
    by (metis filter_is_subset list.set_intros(1) set_sort subsetD)
  assume "token_named key d = Some t"
  then show ?thesis
    unfolding token_named_def active_named_def
    by (auto split: option.splits list.splits dest!: find_SomeD dest: newest [OF sym])
qed

lemma revoke_token_run:
  assumes "revoke_token show_time now ident who d = (Inr t', d')"
  obtains t where "t \<in> set (td_tokens d)" "tk_revoked_at t = None" "t' = t\<lparr>tk_revoked_at := Some now\<rparr>"
    "td_tokens d' = map (\<lambda>x. if tk_id x = tk_id t then x\<lparr>tk_revoked_at := Some now\<rparr> else x) (td_tokens d)"
proof -
  from assms obtain t where t: "token_named (py_strip ident) d = Some t" "tk_revoked_at t = None"
    "t' = t\<lparr>tk_revoked_at := Some now\<rparr>"
    "td_tokens d' = td_tokens (update_token (tk_id t) (\<lambda>t. t\<lparr>tk_revoked_at := Some now\<rparr>) d)"
    by (auto simp: revoke_token_def eff_simps audit_token_def split: option.splits)
  show ?thesis
    using that [OF token_named_mem [OF t(1)] t(2,3)] t(4) by (simp add: update_token_def)
qed

text \<open>A revoked token is dead: once a revocation has returned, no text that hashes to the revoked row's
  hash is accepted at any later time; the row itself stays in the table.\<close>

theorem revoked_token_is_refused:
  assumes "revoke_token show_time now ident who d = (Inr t, d')"
    and "distinct (map tk_hash (td_tokens d))" "hash_token sha p = tk_hash t"
  shows "verify_token sha later p d' = (Inr None, d') \<and> t \<in> set (td_tokens d')
    \<and> map tk_id (td_tokens d') = map tk_id (td_tokens d)"
  using assms(1)
proof (rule revoke_token_run)
  fix t0 assume t0: "t0 \<in> set (td_tokens d)" "tk_revoked_at t0 = None" "t = t0\<lparr>tk_revoked_at := Some now\<rparr>"
    "td_tokens d' = map (\<lambda>x. if tk_id x = tk_id t0 then x\<lparr>tk_revoked_at := Some now\<rparr> else x) (td_tokens d)"
  let ?f = "\<lambda>x. if tk_id x = tk_id t0 then x\<lparr>tk_revoked_at := Some now\<rparr> else x"
  have same: "x = t" if "x \<in> set (td_tokens d')" "tk_hash x = tk_hash t" for x
  proof -
    from that(1) t0(4) obtain y where y: "y \<in> set (td_tokens d)" "x = ?f y" by auto
    with that(2) t0(3) have "tk_hash y = tk_hash t0" by (simp split: if_splits)
    with assms(2) y(1) t0(1) have "y = t0" by (auto simp: distinct_map dest: inj_onD)
    with y(2) t0(3) show ?thesis by simp
  qed
  have dead: "\<not> is_active t later" using t0(3) by (simp add: is_active_def)
  have "\<not> is_active x later"
    if "List.find (\<lambda>t. tk_hash t = hash_token sha p) (td_tokens d') = Some x" for x
    using find_SomeD [OF that] same [of x] dead assms(3) by simp
  then have "verify_token sha later p d' = (Inr None, d')"
    by (simp add: verify_run split: option.splits)
  moreover have "t \<in> set (td_tokens d')" using t0(1,3,4) by (auto simp: image_iff intro!: bexI [of _ t0])
  moreover have "map tk_id (td_tokens d') = map tk_id (td_tokens d)" using t0(4) by auto
  ultimately show ?thesis by simp
qed

subsection \<open>Minting\<close>

lemma find_append:
  "List.find P (xs @ ys) = (case List.find P xs of None \<Rightarrow> List.find P ys | Some z \<Rightarrow> Some z)"
  by (induction xs) auto

lemma create_token_run:
  assumes "create_token sha show_time now i x name s who days d = (Inr m, d')"
  shows "m = \<lparr>mt_token = generate_token x, mt_record_id = i, mt_name = py_strip name, mt_scope = s,
      mt_expires_at = map_option (\<lambda>n. Moment True (m_us now + days_us n)) days\<rparr>"
    "td_tokens d' = td_tokens d @ [new_token_row sha now i (generate_token x) (py_strip name) s who
      (map_option (\<lambda>n. Moment True (m_us now + days_us n)) days)]"
    "active_named (py_strip name) d = None" "\<forall>n. days = Some n \<longrightarrow> 0 < n"
  using assms by (auto simp: create_token_def eff_simps audit_token_def Let_def split: option.splits if_splits)

text \<open>A minted token works: the text handed out is accepted from then until its expiry, as the row it was
  minted for and in the scope asked for.\<close>

theorem minted_token_is_accepted:
  assumes "create_token sha show_time now i x name s who days d = (Inr m, d')"
    and "hash_token sha (mt_token m) \<notin> tk_hash ` set (td_tokens d)"
    and "\<forall>e. mt_expires_at m = Some e \<longrightarrow> m_us later < m_us e"
  shows "\<exists>t d''. verify_token sha later (mt_token m) d' = (Inr (Some t), d'')
    \<and> caller_of t = \<lparr>ca_token_id = Some (mt_record_id m), ca_name = mt_name m, ca_scope = s, ca_authenticated = True\<rparr>"
proof -
  note run = create_token_run [OF assms(1)]
  let ?row = "new_token_row sha now i (generate_token x) (py_strip name) s who
      (map_option (\<lambda>n. Moment True (m_us now + days_us n)) days)"
  have "List.find (\<lambda>t. tk_hash t = hash_token sha (mt_token m)) (td_tokens d) = None"
    unfolding find_None_iff using assms(2) by (metis image_eqI)
  moreover have "tk_hash ?row = hash_token sha (mt_token m)" "is_active ?row later"
    using assms(3) run(1) by (auto simp: new_token_row_def is_active_def split: option.splits)
  moreover have "mt_token m \<noteq> []" by (simp add: run(1) generate_token_def TOKEN_PREFIX_def)
  moreover have "caller_of ?row = \<lparr>ca_token_id = Some (mt_record_id m), ca_name = mt_name m, ca_scope = s,
      ca_authenticated = True\<rparr>"
    by (cases s) (simp_all add: caller_of_def new_token_row_def scope_of_def run(1))
  ultimately show ?thesis by (simp add: verify_run run(2) find_append)
qed

text \<open>The plaintext is not stored: what minting leaves in the database, rows and audit log alike, depends
  on the token only through its SHA-256 and the eight characters shown as its label.\<close>

theorem plaintext_is_not_stored:
  assumes "create_token sha show_time now i x name s who days d = (Inr m, d1)"
    and "create_token sha show_time now i y name s who days d = (Inr m', d2)"
    and "hash_token sha (mt_token m) = hash_token sha (mt_token m')" "take 8 x = take 8 y"
  shows "d1 = d2"
proof -
  have label: "redact (generate_token x) = redact (generate_token y)"
    using assms(4) by (simp add: redact_def generate_token_def TOKEN_PREFIX_def)
  have "hash_token sha (generate_token x) = hash_token sha (generate_token y)"
    using assms(3) create_token_run(1) [OF assms(1)] create_token_run(1) [OF assms(2)] by simp
  then have "snd (create_token sha show_time now i x name s who days d) =
      snd (create_token sha show_time now i y name s who days d)"
    by (simp add: create_token_def eff_simps Let_def label new_token_row_def split: option.splits)
  with assms(1,2) show ?thesis by simp
qed

subsection \<open>Sequences of operations\<close>

datatype token_op =
    Op_Create moment string string string scope string "int option"
  | Op_Revoke moment string string
  | Op_Verify moment string
  | Op_Bootstrap moment string string

fun run_op :: "(string \<Rightarrow> string) \<Rightarrow> (moment \<Rightarrow> string) \<Rightarrow> token_op \<Rightarrow> token_db \<Rightarrow> token_db" where
  "run_op sha st (Op_Create now i x name s who days) d = snd (create_token sha st now i x name s who days d)"
| "run_op sha st (Op_Revoke now ident who) d = snd (revoke_token st now ident who d)"
| "run_op sha st (Op_Verify now p) d = snd ((verify_token sha now p :: (token_db, unit, token_row option) eff) d)"
| "run_op sha st (Op_Bootstrap now i x) d = snd (ensure_bootstrap_token sha st now i x d)"

definition active_names :: "token_db \<Rightarrow> string list" where
  "active_names d = map tk_name (filter (\<lambda>t. tk_revoked_at t = None) (td_tokens d))"

lemma create_active:
  "active_names (snd (create_token sha st now i x name s who days d)) = active_names d
   \<or> (active_names (snd (create_token sha st now i x name s who days d)) = active_names d @ [py_strip name]
      \<and> py_strip name \<notin> set (active_names d))"
proof (cases "create_token sha st now i x name s who days d")
  case (Pair r d')
  show ?thesis
  proof (cases r)
    case (Inl e)
    with Pair have "d' = d"
      by (auto simp: create_token_def eff_simps Let_def split: option.splits if_splits)
    with Pair show ?thesis by simp
  next
    case (Inr m)
    note run = create_token_run [OF Pair [unfolded Inr]]
    have "py_strip name \<notin> set (active_names d)"
      using run(3) by (auto simp: active_named_def find_None_iff active_names_def)
    with Pair Inr run(2) show ?thesis by (simp add: active_names_def new_token_row_def)
  qed
qed

lemma names_revoked:
  "map tk_name (filter (\<lambda>t. tk_revoked_at t = None)
      (map (\<lambda>x. if tk_id x = i then x\<lparr>tk_revoked_at := Some now\<rparr> else x) ts)) =
    map tk_name (filter (\<lambda>t. tk_id t \<noteq> i) (filter (\<lambda>t. tk_revoked_at t = None) ts))"
  by (induction ts) auto

lemma revoke_active:
  assumes "distinct (active_names d)"
  shows "distinct (active_names (snd (revoke_token st now ident who d)))"
proof (cases "revoke_token st now ident who d")
  case (Pair r d')
  show ?thesis
  proof (cases r)
    case (Inl e)
    with Pair have "d' = d" by (auto simp: revoke_token_def eff_simps split: option.splits)
    with Pair assms show ?thesis by simp
  next
    case (Inr t)
    show ?thesis
    proof (rule revoke_token_run [OF Pair [unfolded Inr]])
      fix t0 assume "td_tokens d' = map (\<lambda>x. if tk_id x = tk_id t0 then x\<lparr>tk_revoked_at := Some now\<rparr> else x) (td_tokens d)"
      then have "active_names d' = map tk_name (filter (\<lambda>t. tk_id t \<noteq> tk_id t0) (filter (\<lambda>t. tk_revoked_at t = None) (td_tokens d)))"
        by (simp only: active_names_def names_revoked)
      with assms Pair show ?thesis by (simp add: active_names_def distinct_map_filter del: filter_filter)
    qed
  qed
qed

lemma names_kept:
  assumes "\<And>x. tk_name (f x) = tk_name x" "\<And>x. tk_revoked_at (f x) = tk_revoked_at x"
  shows "map tk_name (filter (\<lambda>t. tk_revoked_at t = None) (map f ts)) =
    map tk_name (filter (\<lambda>t. tk_revoked_at t = None) ts)"
  by (induction ts) (simp_all add: assms)

lemma verify_active: "active_names (snd (verify_token sha now p d)) = active_names d"
  unfolding verify_run active_names_def update_token_def
  by (auto split: option.splits intro!: names_kept)

lemma bootstrap_run:
  "snd (ensure_bootstrap_token sha st now i x d) =
     (if td_tokens d \<noteq> [] then d
      else snd (create_token sha st now i x BOOTSTRAP_TOKEN_NAME ADMIN ''bootstrap'' None d))"
  by (simp add: ensure_bootstrap_token_def eff_simps tokens_exist_def split: prod.splits sum.splits)

text \<open>An active credential can be named: whatever is minted, revoked, used or bootstrapped in whatever
  order, no two unrevoked tokens ever share a name.\<close>

theorem active_token_names_are_unique:
  "distinct (active_names (fold (run_op sha st) ops \<lparr>td_tokens = [], td_audit = []\<rparr>))"
proof -
  have "distinct (active_names d) \<Longrightarrow> distinct (active_names (run_op sha st op d))" for op d
  proof (cases op)
    case (Op_Create now i x name s who days)
    assume "distinct (active_names d)"
    with Op_Create show ?thesis using create_active [of sha st now i x name s who days d] by auto
  next
    case (Op_Revoke now ident who)
    assume "distinct (active_names d)"
    with Op_Revoke show ?thesis by (simp add: revoke_active)
  next
    case (Op_Verify now p)
    assume "distinct (active_names d)"
    with Op_Verify show ?thesis by (simp add: verify_active)
  next
    case (Op_Bootstrap now i x)
    assume "distinct (active_names d)"
    with Op_Bootstrap show ?thesis
      using create_active [of sha st now i x BOOTSTRAP_TOKEN_NAME ADMIN "''bootstrap''" None d]
      by (auto simp: bootstrap_run)
  qed
  then have "distinct (active_names d) \<Longrightarrow> distinct (active_names (fold (run_op sha st) ops d))" for d
    by (induction ops arbitrary: d) simp_all
  then show ?thesis by (simp add: active_names_def)
qed

subsection \<open>A small deployment\<close>

definition ci_db :: token_db where
  "ci_db = snd (create_token (\<lambda>s. s) (\<lambda>_. ''t'') (Moment True 0) ''t1'' ''abcdefghijklmnopqrst'' ''ci'' CI ''admin''
     (Some 1) \<lparr>td_tokens = [], td_audit = []\<rparr>)"

lemma ci_strip: "py_strip ''bare_abcdefghijklmnopqrst'' = ''bare_abcdefghijklmnopqrst''" "py_strip ''ci'' = ''ci''"
  by (simp_all add: py_strip_def py_space_def)

lemma ci_minted:
  "create_token (\<lambda>s. s) (\<lambda>_. ''t'') (Moment True 0) ''t1'' ''abcdefghijklmnopqrst'' ''ci'' CI ''admin''
     (Some 1) \<lparr>td_tokens = [], td_audit = []\<rparr> =
   (Inr \<lparr>mt_token = ''bare_abcdefghijklmnopqrst'', mt_record_id = ''t1'', mt_name = ''ci'', mt_scope = CI,
        mt_expires_at = Some (Moment True 86400000000)\<rparr>, ci_db)"
  by (simp add: ci_db_def create_token_def eff_simps active_named_def ci_strip Let_def generate_token_def
      TOKEN_PREFIX_def days_us_def)

lemma ci_rows: "td_tokens ci_db =
  [\<lparr>tk_id = ''t1'', tk_name = ''ci'', tk_hash = ''bare_abcdefghijklmnopqrst'', tk_prefix = redact ''bare_abcdefghijklmnopqrst'',
    tk_scope = ''ci'', tk_created_by = ''admin'', tk_created_at = Moment True 0,
    tk_expires_at = Some (Moment True 86400000000), tk_revoked_at = None, tk_last_used_at = None, tk_use_count = 0\<rparr>]"
  using create_token_run(2) [OF ci_minted]
  by (simp add: new_token_row_def ci_strip hash_token_def generate_token_def TOKEN_PREFIX_def days_us_def)

definition ci_request :: http_request where
  "ci_request = \<lparr>rq_path = ''/gate'', rq_method = ''POST'', rq_client = None,
     rq_authorization = Some ''Bearer bare_abcdefghijklmnopqrst'', rq_bare_token = None\<rparr>"

lemma ci_presented: "presented_token ci_request = Some ''bare_abcdefghijklmnopqrst''"
  by (simp add: presented_token_def ci_request_def parse_bearer_def first_word_def after_word_def py_strip_def
      py_space_def py_lower_def lower_char_def or_str_def Let_def) (simp add: char_of_def bit_0)

theorem minted_token_is_accepted_witness:
  "\<exists>t d''. verify_token (\<lambda>s. s) (Moment True 5) ''bare_abcdefghijklmnopqrst'' ci_db = (Inr (Some t), d'')
    \<and> caller_of t = \<lparr>ca_token_id = Some ''t1'', ca_name = ''ci'', ca_scope = CI, ca_authenticated = True\<rparr>"
  using minted_token_is_accepted [OF ci_minted, of "Moment True 5"] by simp

theorem access_requires_live_token_witness:
  "\<exists>c d' t. (get_caller (\<lambda>s. s) True True (Moment True 5) ci_request ci_db :: (http_error + caller) \<times> token_db) = (Inr c, d')
     \<and> t \<in> set (td_tokens ci_db) \<and> tk_revoked_at t = None \<and> ca_token_id c = Some (tk_id t)"
proof -
  obtain c d' where run: "get_caller (\<lambda>s. s) True True (Moment True 5) ci_request ci_db = (Inr c, d')"
    by (simp add: get_caller_def ci_presented or_str_def run_bind verify_run hash_token_def ci_strip ci_rows
        is_active_def eff_simps)
  from access_requires_live_token [OF run] run show ?thesis by blast
qed

theorem revoked_token_is_refused_witness:
  "\<exists>t d'. revoke_token (\<lambda>_. ''t'') (Moment True 9) ''ci'' ''admin'' ci_db = (Inr t, d')
    \<and> fst ((verify_token (\<lambda>s. s) (Moment True 10) ''bare_abcdefghijklmnopqrst'' :: (token_db, unit, token_row option) eff) d')
      = Inr None"
proof -
  obtain t d' where run: "revoke_token (\<lambda>_. ''t'') (Moment True 9) ''ci'' ''admin'' ci_db = (Inr t, d')"
    "tk_hash t = ''bare_abcdefghijklmnopqrst''"
    by (simp add: revoke_token_def eff_simps token_named_def active_named_def ci_strip ci_rows)
  have "(verify_token (\<lambda>s. s) (Moment True 10) ''bare_abcdefghijklmnopqrst'' :: (token_db, unit, token_row option) eff) d'
      = (Inr None, d')"
    by (rule conjunct1, rule revoked_token_is_refused [OF run(1)]) (simp_all add: ci_rows hash_token_def ci_strip run(2))
  with run(1) show ?thesis by auto
qed

theorem plaintext_is_not_stored_witness:
  "\<exists>d1 d2. snd (create_token (\<lambda>_. ''h'') (\<lambda>_. ''t'') (Moment True 0) ''t1'' ''abcdefghXX'' ''ci'' CI ''a'' None
       \<lparr>td_tokens = [], td_audit = []\<rparr>) = d1
     \<and> snd (create_token (\<lambda>_. ''h'') (\<lambda>_. ''t'') (Moment True 0) ''t1'' ''abcdefghYY'' ''ci'' CI ''a'' None
       \<lparr>td_tokens = [], td_audit = []\<rparr>) = d2 \<and> d1 = d2"
proof -
  let ?c = "\<lambda>x. create_token (\<lambda>_. ''h'') (\<lambda>_. ''t'') (Moment True 0) ''t1'' x ''ci'' CI ''a'' None
       \<lparr>td_tokens = [], td_audit = []\<rparr>"
  have ok: "\<exists>m. fst (?c x) = Inr m" for x
    by (simp add: create_token_def eff_simps active_named_def ci_strip Let_def)
  obtain m d1 where c1: "?c ''abcdefghXX'' = (Inr m, d1)" using ok by (metis prod.collapse)
  obtain m' d2 where c2: "?c ''abcdefghYY'' = (Inr m', d2)" using ok by (metis prod.collapse)
  have "d1 = d2" by (rule plaintext_is_not_stored [OF c1 c2]) (simp_all add: hash_token_def)
  with c1 c2 show ?thesis by simp
qed

end
