(* ===== verification/Llm_Provider.thy ===== *)
theory Llm_Provider
  imports Bytes_Text Py_Values
begin

text \<open>
  Talking to a language model (\<open>core/llm/provider.py\<close>): messages, completions and the object a
  completion's text is read as. The model itself is not code of the repository: a \<open>provider\<close> carries
  a function from the number of calls made before and the messages to a completion or the text of an
  exception, so nothing is assumed about its answers. \<open>json.loads\<close> is a parameter that gives \<open>None\<close>
  where it raises \<open>JSONDecodeError\<close>; SHA-256 is a parameter.
\<close>

record message =
  ms_role :: string
  ms_content :: string

record completion =
  co_text :: string
  co_model :: string
  co_prompt_tokens :: "int option"
  co_completion_tokens :: "int option"
  co_duration_s :: rat
  co_raw :: "(pyval \<times> pyval) list"

record provider =
  pv_name :: string
  pv_model :: string
  pv_is_local :: bool
  pv_structured :: bool
  pv_complete :: "nat \<Rightarrow> message list \<Rightarrow> bool \<Rightarrow> int \<Rightarrow> string + completion"

definition prompt_hash :: "(string \<Rightarrow> string) \<Rightarrow> message list \<Rightarrow> string" where
  "prompt_hash sha ms = sha (join [CHR 0x1F] (map (\<lambda>m. ms_role m @ '':'' @ ms_content m) ms))"

definition count_tokens :: "string \<Rightarrow> nat" where
  "count_tokens t = max 1 (length (utf8_chars t) div 4)"

subsection \<open>Reading an answer as JSON\<close>

text \<open>The end of the object that starts at the head of the text: how many characters up to the
  brace that closes it. A string literal hides its braces, and a backslash hides the next character
  of a string literal.\<close>

fun object_end :: "nat \<Rightarrow> bool \<Rightarrow> bool \<Rightarrow> string \<Rightarrow> nat option" where
  "object_end depth in_string escaped [] = None"
| "object_end depth in_string escaped (c # cs) =
     (if in_string then
        (if escaped then map_option Suc (object_end depth True False cs)
         else if c = CHR 0x5C then map_option Suc (object_end depth True True cs)
         else if c = CHR 0x22 then map_option Suc (object_end depth False escaped cs)
         else map_option Suc (object_end depth True escaped cs))
      else if c = CHR 0x22 then map_option Suc (object_end depth True escaped cs)
      else if c = CHR ''{'' then map_option Suc (object_end (depth + 1) False escaped cs)
      else if c = CHR ''}'' then
        (if depth - 1 = 0 then Some 1 else map_option Suc (object_end (depth - 1) False escaped cs))
      else map_option Suc (object_end depth False escaped cs))"

fun first_json_object :: "(string \<Rightarrow> pyval option) \<Rightarrow> string \<Rightarrow> (pyval \<times> pyval) list option" where
  "first_json_object loads [] = None"
| "first_json_object loads (c # cs) =
     (if c \<noteq> CHR ''{'' then first_json_object loads cs
      else (case object_end 0 False False (c # cs) of
              None \<Rightarrow> first_json_object loads cs
            | Some n \<Rightarrow>
                (case loads (take n (c # cs)) of
                   Some (PDict d) \<Rightarrow> Some d
                 | _ \<Rightarrow> first_json_object loads cs)))"

text \<open>\<open>text.split(newline, 1)[-1]\<close> and \<open>text.rsplit(fence, 1)[0]\<close>.\<close>

definition FENCE :: string where
  "FENCE = [CHR 0x60, CHR 0x60, CHR 0x60]"

definition after_line :: "string \<Rightarrow> string" where
  "after_line t = (if CHR 0x0A \<in> set t then tl (dropWhile (\<lambda>c. c \<noteq> CHR 0x0A) t) else t)"

fun before_last :: "string \<Rightarrow> string \<Rightarrow> string" where
  "before_last sep [] = []"
| "before_last sep (c # cs) =
     (if contains sep cs then c # before_last sep cs
      else if starts_with sep (c # cs) then [] else c # cs)"

definition unfenced :: "string \<Rightarrow> string" where
  "unfenced t = (if starts_with FENCE t then py_strip (before_last FENCE (after_line t)) else t)"

definition as_json :: "(string \<Rightarrow> pyval option) \<Rightarrow> completion \<Rightarrow> (pyval \<times> pyval) list option" where
  "as_json loads c =
     (let t = unfenced (py_strip (co_text c)) in
      case loads t of
        None \<Rightarrow> first_json_object loads t
      | Some v \<Rightarrow> (case v of PDict d \<Rightarrow> Some d | _ \<Rightarrow> None))"

subsection \<open>Facts\<close>

lemma first_json_skip:
  "CHR ''{'' \<notin> set prose \<Longrightarrow> first_json_object loads (prose @ t) = first_json_object loads t"
  by (induction prose) auto

lemma object_end_bound:
  "object_end d q e t = Some n \<Longrightarrow> 0 < n \<and> n \<le> length t"
  by (induction d q e t arbitrary: n rule: object_end.induct) (fastforce split: if_splits)+

lemma object_end_append:
  "object_end d q e t = Some n \<Longrightarrow> object_end d q e (t @ u) = Some n"
  by (induction d q e t arbitrary: n rule: object_end.induct) (auto split: if_splits)

lemma object_end_take:
  "object_end d q e t = Some n \<Longrightarrow> object_end d q e (take n t) = Some n"
  by (induction d q e t arbitrary: n rule: object_end.induct) (auto split: if_splits)

text \<open>What the scan finds is a complete object of the text: a part of it that starts with a brace,
  ends with the brace that closes it, and that \<open>json.loads\<close> accepts as an object.\<close>

lemma first_json_sound:
  assumes "first_json_object loads t = Some d"
  obtains prose obj rest where "t = prose @ obj @ rest" "loads obj = Some (PDict d)"
    "object_end 0 False False obj = Some (length obj)" "hd obj = CHR ''{''"
proof -
  have "\<exists>prose obj rest. t = prose @ obj @ rest \<and> loads obj = Some (PDict d)
      \<and> object_end 0 False False obj = Some (length obj) \<and> hd obj = CHR ''{''"
    using assms
  proof (induction t)
    case (Cons c cs)
    show ?case
    proof (cases "first_json_object loads cs = Some d")
      case True
      from Cons.IH [OF True] show ?thesis by (metis append_Cons)
    next
      case False
      with Cons.prems obtain n where n: "object_end 0 False False (c # cs) = Some n"
        "loads (take n (c # cs)) = Some (PDict d)" "c = CHR ''{''"
        by (simp split: if_splits option.splits pyval.splits)
      from object_end_bound [OF n(1)] have "length (take n (c # cs)) = n" by simp
      then have "object_end 0 False False (take n (c # cs)) = Some (length (take n (c # cs)))"
        using object_end_take [OF n(1)] by simp
      moreover have "hd (take n (c # cs)) = CHR ''{''"
        using n(3) object_end_bound [OF n(1)] by (cases n) auto
      moreover have "c # cs = [] @ take n (c # cs) @ drop n (c # cs)" by simp
      ultimately show ?thesis using n(2) by blast
    qed
  qed simp
  then show ?thesis using that by blast
qed

text \<open>A model's answer survives what models wrap around it: prose without a brace before the
  object and anything at all after it leave the object that is read the same.\<close>

theorem answer_survives_wrapping:
  assumes "loads obj = Some (PDict d)" "object_end 0 False False obj = Some (length obj)" "hd obj = CHR ''{''"
    and "CHR ''{'' \<notin> set prose"
    and "unfenced (py_strip (co_text c)) = prose @ obj @ rest" "loads (prose @ obj @ rest) = None"
  shows "as_json loads c = Some d"
proof -
  obtain cs where obj: "obj = CHR ''{'' # cs" using assms(2,3) by (cases obj) auto
  have "object_end 0 False False (obj @ rest) = Some (length obj)"
    using assms(2) by (rule object_end_append)
  then have "first_json_object loads (obj @ rest) = Some d"
    using assms(1) by (simp add: obj)
  then show ?thesis using assms(4-6) by (simp add: as_json_def first_json_skip)
qed

definition sample_answer :: string where
  "sample_answer = [CHR ''o'', CHR ''k'', CHR 0x20, CHR ''{'', CHR 0x22, CHR ''}'', CHR 0x22, CHR ''}'', CHR ''.'']"

theorem answer_survives_wrapping_witness:
  "as_json (\<lambda>t. if t = [CHR ''{'', CHR 0x22, CHR ''}'', CHR 0x22, CHR ''}''] then Some (PDict []) else None)
     \<lparr>co_text = sample_answer, co_model = ''m'', co_prompt_tokens = None, co_completion_tokens = None,
      co_duration_s = 0, co_raw = []\<rparr> = Some []"
  by (rule answer_survives_wrapping [where obj = "[CHR ''{'', CHR 0x22, CHR ''}'', CHR 0x22, CHR ''}'']"
        and prose = "[CHR ''o'', CHR ''k'', CHR 0x20]" and rest = "[CHR ''.'']"])
    (simp_all add: sample_answer_def py_strip_def py_space_def unfenced_def FENCE_def)

end
