(* ===== verification/Llm_Triage.thy ===== *)
theory Llm_Triage
  imports Llm_Provider Gate_Pipeline Scan_Model
begin

text \<open>
  Triage: a model judges the findings of a run (\<open>core/llm/triage.py\<close>, and \<open>triage_run_task\<close> of
  \<open>core/orchestrator/scan_tasks.py\<close>). Findings are rows that are updated in place, by their id. What a
  model answers is unconstrained. \<open>show_float\<close> is \<open>str\<close> of a float; the time of a judgement
  (\<open>llm_at\<close>) is not kept.
\<close>

definition SYSTEM_PROMPT :: string where
\<open>SYSTEM_PROMPT = join [CHR 0x0A]
  [''You are a security analyst triaging candidate secrets found in a compiled artifact that a company is about to ship. A deterministic scanner already matched these; your job is to judge whether each is a real exposure.'',
   '''',
   ''Judge on evidence, not vibes:'',
   ''- Documentation examples, RFC sample values, and obvious placeholders are false positives.'',
   ''- Test fixtures and sample data may still be real exposures if the value looks live.'',
   ''- High entropy plus a credential-shaped variable name is usually a true positive.'',
   ''- Low entropy, dictionary words, and version strings usually are not.'',
   ''- If you genuinely cannot tell from the evidence, say needs_review. That is a useful answer, not a failure.'',
   '''',
   ''You will be shown MASKED values. You are judging the shape, the context, and the location - never the secret itself.'',
   '''',
   ''Describe exposure and remediation only. Never produce exploit code, credential recovery techniques, or instructions for using a discovered secret.'',
   '''',
   ''Reply with JSON only, no prose outside it:'',
   ''{"verdict": "true_positive" | "false_positive" | "needs_review", "reasoning": "<one or two sentences citing the specific evidence>"}'']\<close>

definition TRIAGE_SEVERITY_FLOOR :: severity where
  "TRIAGE_SEVERITY_FLOOR = HIGH"

record llm_call =
  lc_run_id :: "string option"
  lc_finding_id :: "string option"
  lc_provider :: string
  lc_model :: string
  lc_role :: string
  lc_is_local :: bool
  lc_redaction_level :: string
  lc_prompt_hash :: string
  lc_prompt_rendered :: "string option"
  lc_response_text :: "string option"
  lc_prompt_tokens :: "int option"
  lc_completion_tokens :: "int option"
  lc_duration_s :: "rat option"
  lc_error :: "string option"

subsection \<open>One finding\<close>

definition build_prompt :: "(rat \<Rightarrow> string) \<Rightarrow> finding \<Rightarrow> string \<Rightarrow> nat \<Rightarrow> string" where
  "build_prompt show_float f path_in_tree location_count =
     join [CHR 0x0A]
       ([''Rule: '' @ f_rule_id f,
         ''Category: '' @ f_category f,
         ''Rule severity: '' @ severity_value (f_severity f),
         ''Masked value: '' @ f_value_masked f,
         ''Value length: '' @ show_nat (length (utf8_chars (f_value_masked f))) @ '' (masked)'',
         ''Entropy: '' @ (case f_entropy f of Some e \<Rightarrow> show_float e | None \<Rightarrow> ''unknown''),
         ''Found in: '' @ path_in_tree,
         ''Occurrences in artifact: '' @ show_nat location_count]
        @ (case f_context_snippet f of
             Some c \<Rightarrow> if c \<noteq> [] then [''Surrounding context (value masked): '' @ utf8_take 400 c] else []
           | None \<Rightarrow> []))"

definition verdict_of :: "string \<Rightarrow> llm_verdict option" where
  "verdict_of t = List.find (\<lambda>v. llm_verdict_value v = t) [V_TRUE_POSITIVE, V_FALSE_POSITIVE, V_NEEDS_REVIEW, V_ERROR]"

definition parse_answer :: "(string \<Rightarrow> pyval option) \<Rightarrow> completion \<Rightarrow> llm_verdict \<times> string" where
  "parse_answer loads c =
     (case as_json loads c of
        Some (x # xs) \<Rightarrow>
          (let payload = x # xs;
               raw_verdict = py_lower (py_strip (py_str (pd_get_or payload ''verdict'' (PStr []))));
               reasoning = utf8_take 2000 (py_strip (py_str (pd_get_or payload ''reasoning'' (PStr [])))) in
           case verdict_of raw_verdict of
             Some v \<Rightarrow> (v, if reasoning \<noteq> [] then reasoning else ''no reasoning given'')
           | None \<Rightarrow> (V_ERROR, ''unrecognised verdict '' @ repr_str raw_verdict))
      | _ \<Rightarrow>
          if py_truthy (pd_get_or (co_raw c) ''thinking'' PNone)
          then (V_ERROR, ''the model exhausted its token budget on reasoning without producing a complete answer; use a non-reasoning model for triage'')
          else (V_ERROR, ''model did not return parseable JSON''))"

definition triage_messages :: "(rat \<Rightarrow> string) \<Rightarrow> finding \<Rightarrow> string \<Rightarrow> nat \<Rightarrow> message list" where
  "triage_messages show_float f path location_count =
     [\<lparr>ms_role = ''system'', ms_content = SYSTEM_PROMPT\<rparr>,
      \<lparr>ms_role = ''user'', ms_content = build_prompt show_float f path location_count\<rparr>]"

definition render_prompt :: "message list \<Rightarrow> string" where
  "render_prompt ms = join [CHR 0x0A, CHR 0x0A] (map (\<lambda>m. ''['' @ ms_role m @ '']'' @ [CHR 0x0A] @ ms_content m) ms)"

definition new_call ::
  "(string \<Rightarrow> string) \<Rightarrow> provider \<Rightarrow> string option \<Rightarrow> string option \<Rightarrow> string \<Rightarrow> string \<Rightarrow> message list \<Rightarrow> llm_call" where
  "new_call sha pv run_id finding_id role redaction ms =
     \<lparr>lc_run_id = run_id, lc_finding_id = finding_id, lc_provider = pv_name pv, lc_model = pv_model pv,
      lc_role = role, lc_is_local = pv_is_local pv, lc_redaction_level = redaction,
      lc_prompt_hash = prompt_hash sha ms, lc_prompt_rendered = Some (render_prompt ms),
      lc_response_text = None, lc_prompt_tokens = None, lc_completion_tokens = None, lc_duration_s = None,
      lc_error = None\<rparr>"

definition answered :: "nat \<Rightarrow> completion \<Rightarrow> llm_call \<Rightarrow> llm_call" where
  "answered limit c call = call\<lparr>lc_response_text := Some (utf8_take limit (co_text c)),
     lc_prompt_tokens := co_prompt_tokens c, lc_completion_tokens := co_completion_tokens c,
     lc_duration_s := Some (co_duration_s c)\<rparr>"

record llm_env =
  le_sha :: "string \<Rightarrow> string"
  le_loads :: "string \<Rightarrow> pyval option"
  le_show_float :: "rat \<Rightarrow> string"

definition triage_finding ::
  "llm_env \<Rightarrow> provider \<Rightarrow> nat \<Rightarrow> finding \<Rightarrow> string \<Rightarrow> nat \<Rightarrow> string option \<Rightarrow> llm_verdict \<times> string \<times> llm_call" where
  "triage_finding env pv calls_before f path location_count run_id =
     (let ms = triage_messages (le_show_float env) f path location_count;
          call = new_call (le_sha env) pv run_id (Some (f_id f)) ''triage'' ''strict'' ms in
      case pv_complete pv calls_before ms (pv_structured pv) 300 of
        Inl exc \<Rightarrow> (V_ERROR, ''triage unavailable: '' @ exc, call\<lparr>lc_error := Some (utf8_take 1000 exc)\<rparr>)
      | Inr c \<Rightarrow>
          (let (verdict, reasoning) = parse_answer (le_loads env) c;
               call = answered 4000 c call in
           (verdict, reasoning,
            if verdict = V_ERROR then call\<lparr>lc_error := Some ''unparseable response''\<rparr> else call)))"

definition apply_verdict :: "llm_verdict \<Rightarrow> string \<Rightarrow> string \<Rightarrow> finding \<Rightarrow> finding" where
  "apply_verdict verdict reasoning model f =
     (let f = f\<lparr>f_llm_verdict := Some verdict, f_llm_reasoning := Some reasoning, f_llm_model := Some model\<rparr> in
      if verdict = V_ERROR then f
      else (let f = f\<lparr>f_detected_by := D_BOTH\<rparr> in
        if verdict = V_FALSE_POSITIVE
        then if severity_rank (f_severity f) \<le> severity_rank TRIAGE_SEVERITY_FLOOR
             then f\<lparr>f_status := F_NEEDS_REVIEW\<rparr> else f\<lparr>f_status := F_FALSE_POSITIVE\<rparr>
        else if verdict = V_TRUE_POSITIVE then f\<lparr>f_status := F_CONFIRMED\<rparr>
        else f\<lparr>f_status := F_NEEDS_REVIEW\<rparr>))"

subsection \<open>A run\<close>

record triage_result =
  tr_triaged :: nat
  tr_confirmed :: nat
  tr_dismissed :: nat
  tr_needs_review :: nat
  tr_errors :: nat
  tr_calls :: "llm_call list"
  tr_duration_s :: rat

definition no_triage :: triage_result where
  "no_triage = \<lparr>tr_triaged = 0, tr_confirmed = 0, tr_dismissed = 0, tr_needs_review = 0, tr_errors = 0,
     tr_calls = [], tr_duration_s = 0\<rparr>"

record triage_state =
  ts_result :: triage_result
  ts_cache :: "(string, llm_verdict \<times> string) dict"
  ts_findings :: "finding list"

definition cache_key :: "(string \<Rightarrow> string) \<Rightarrow> finding \<Rightarrow> string" where
  "cache_key sha f = sha (f_rule_id f @ [CHR 0x1F] @ f_value_hash f)"

definition count_verdict :: "llm_verdict \<Rightarrow> triage_result \<Rightarrow> triage_result" where
  "count_verdict v r =
     (let r = r\<lparr>tr_triaged := tr_triaged r + 1\<rparr> in
      if v = V_TRUE_POSITIVE then r\<lparr>tr_confirmed := tr_confirmed r + 1\<rparr>
      else if v = V_FALSE_POSITIVE then r\<lparr>tr_dismissed := tr_dismissed r + 1\<rparr>
      else if v = V_NEEDS_REVIEW then r\<lparr>tr_needs_review := tr_needs_review r + 1\<rparr>
      else r\<lparr>tr_errors := tr_errors r + 1\<rparr>)"

definition add_call :: "llm_call \<Rightarrow> triage_result \<Rightarrow> triage_result" where
  "add_call call r = r\<lparr>tr_calls := tr_calls r @ [call],
     tr_duration_s := tr_duration_s r + (case lc_duration_s call of Some d \<Rightarrow> d | None \<Rightarrow> 0)\<rparr>"

definition judge_finding ::
  "llm_env \<Rightarrow> provider \<Rightarrow> (string, string) dict \<Rightarrow> (string, nat) dict \<Rightarrow> string \<Rightarrow> finding \<Rightarrow> triage_state
     \<Rightarrow> (llm_verdict \<times> string) \<times> triage_state" where
  "judge_finding env pv paths counts run_id f s =
     (let path = (case map_of paths (f_id f) of Some p \<Rightarrow> p | None \<Rightarrow> []); key = cache_key (le_sha env) f in
      case map_of (ts_cache s) key of
        Some entry \<Rightarrow> (entry, s)
      | None \<Rightarrow>
          (let (verdict, reasoning, call) =
                 triage_finding env pv (length (tr_calls (ts_result s))) f path
                   (case map_of counts (f_id f) of Some n \<Rightarrow> n | None \<Rightarrow> 1) (Some run_id) in
           ((verdict, reasoning),
            s\<lparr>ts_cache := AList.update key (verdict, reasoning) (ts_cache s),
              ts_result := add_call call (ts_result s)\<rparr>)))"

definition triage_step ::
  "llm_env \<Rightarrow> provider \<Rightarrow> (string, string) dict \<Rightarrow> (string, nat) dict \<Rightarrow> string \<Rightarrow> finding \<Rightarrow> triage_state
     \<Rightarrow> triage_state" where
  "triage_step env pv paths counts run_id f s =
     (let ((verdict, reasoning), s) = judge_finding env pv paths counts run_id f s in
      s\<lparr>ts_findings := map (\<lambda>g. if f_id g = f_id f then apply_verdict verdict reasoning (pv_model pv) g else g)
           (ts_findings s),
        ts_result := count_verdict verdict (ts_result s)\<rparr>)"

definition triage_sort_key :: "finding \<Rightarrow> nat \<times> string" where
  "triage_sort_key f = (severity_rank (f_severity f), f_id f)"

definition triage_run ::
  "llm_env \<Rightarrow> provider \<Rightarrow> finding list \<Rightarrow> (string, string) dict \<Rightarrow> string \<Rightarrow> (string, nat) dict
     \<Rightarrow> triage_result \<times> finding list" where
  "triage_run env pv findings paths run_id counts =
     (let s = fold (triage_step env pv paths counts run_id) (sort_key triage_sort_key findings)
                \<lparr>ts_result = no_triage, ts_cache = [], ts_findings = findings\<rparr>
      in (ts_result s, ts_findings s))"

definition run_findings :: "db \<Rightarrow> string \<Rightarrow> finding list" where
  "run_findings d i = filter (\<lambda>f. f_run_id f = i) (db_findings d)"

text \<open>\<open>triage_run_task\<close> once the provider is configured and healthy: it judges the rows of the run and
  leaves every other row alone. The calls are rows of a table of their own.\<close>

definition triage_task :: "llm_env \<Rightarrow> provider \<Rightarrow> string \<Rightarrow> db \<Rightarrow> triage_result \<times> db" where
  "triage_task env pv run_id d =
     (let findings = run_findings d run_id in
      if findings = [] then (no_triage, d)
      else
        (let locations = filter (\<lambda>l. fl_run_id l = run_id) (db_locations d);
             (result, judged) = triage_run env pv findings (dict_first fl_finding_id fl_path_in_tree locations)
               run_id (tally fl_finding_id locations);
             row = (\<lambda>f. if f_run_id f = run_id
                        then (case List.find (\<lambda>g. f_id g = f_id f) judged of Some g \<Rightarrow> g | None \<Rightarrow> f) else f)
         in (result, d\<lparr>db_findings := map row (db_findings d)\<rparr>)))"

subsection \<open>What a pass does\<close>

lemma apply_verdict_fields [simp]:
  "f_id (apply_verdict v r m f) = f_id f" "f_run_id (apply_verdict v r m f) = f_run_id f"
  "f_rule_id (apply_verdict v r m f) = f_rule_id f" "f_category (apply_verdict v r m f) = f_category f"
  "f_title (apply_verdict v r m f) = f_title f" "f_severity (apply_verdict v r m f) = f_severity f"
  "f_value_masked (apply_verdict v r m f) = f_value_masked f" "f_value_hash (apply_verdict v r m f) = f_value_hash f"
  "f_llm_verdict (apply_verdict v r m f) = Some v"
  by (simp_all add: apply_verdict_def Let_def)

lemma apply_verdict_status:
  "f_status (apply_verdict v r m f) =
     (case v of V_ERROR \<Rightarrow> f_status f | V_TRUE_POSITIVE \<Rightarrow> F_CONFIRMED | V_NEEDS_REVIEW \<Rightarrow> F_NEEDS_REVIEW
      | V_FALSE_POSITIVE \<Rightarrow> if f_severity f = CRITICAL \<or> f_severity f = HIGH then F_NEEDS_REVIEW else F_FALSE_POSITIVE)"
  by (cases v; cases "f_severity f") (simp_all add: apply_verdict_def TRIAGE_SEVERITY_FLOOR_def Let_def)

definition counted :: "triage_result \<Rightarrow> bool" where
  "counted r \<longleftrightarrow> tr_triaged r = tr_confirmed r + tr_dismissed r + tr_needs_review r + tr_errors r"

lemma count_verdict_facts [simp]:
  "tr_triaged (count_verdict v r) = Suc (tr_triaged r)" "tr_calls (count_verdict v r) = tr_calls r"
  "counted r \<Longrightarrow> counted (count_verdict v r)"
  by (auto simp: count_verdict_def counted_def Let_def)

lemma add_call_facts [simp]:
  "tr_triaged (add_call c r) = tr_triaged r" "tr_calls (add_call c r) = tr_calls r @ [c]"
  "counted (add_call c r) = counted r"
  by (simp_all add: add_call_def counted_def)

text \<open>The cache holds one answer per candidate, one call was made for each of them.\<close>

definition cache_ok :: "triage_state \<Rightarrow> bool" where
  "cache_ok s \<longleftrightarrow> distinct (map fst (ts_cache s)) \<and> length (tr_calls (ts_result s)) = length (ts_cache s)
     \<and> counted (ts_result s)"

lemma judge_cases:
  assumes "judge_finding env pv paths counts run_id f s = (e, s')"
  obtains (hit) "map_of (ts_cache s) (cache_key (le_sha env) f) = Some e" "s' = s"
  | (miss) call where "map_of (ts_cache s) (cache_key (le_sha env) f) = None"
      "s' = s\<lparr>ts_cache := AList.update (cache_key (le_sha env) f) e (ts_cache s),
               ts_result := add_call call (ts_result s)\<rparr>"
  using assms by (auto simp: judge_finding_def Let_def split: option.splits prod.splits)

lemma judge_facts:
  assumes "judge_finding env pv paths counts run_id f s = (e, s')"
  shows "map_of (ts_cache s') (cache_key (le_sha env) f) = Some e"
    "fst ` set (ts_cache s') = insert (cache_key (le_sha env) f) (fst ` set (ts_cache s))"
    "map_of (ts_cache s) k = Some e' \<Longrightarrow> map_of (ts_cache s') k = Some e'"
    "ts_findings s' = ts_findings s" "tr_triaged (ts_result s') = tr_triaged (ts_result s)"
    "cache_ok s \<Longrightarrow> cache_ok s'"
proof -
  show "map_of (ts_cache s') (cache_key (le_sha env) f) = Some e"
    using assms by (rule judge_cases) (simp_all add: update_conv)
  show "fst ` set (ts_cache s') = insert (cache_key (le_sha env) f) (fst ` set (ts_cache s))"
    using assms by (rule judge_cases) (simp_all add: dom_update insert_absorb weak_map_of_SomeI rev_image_eqI [OF map_of_SomeD])
  show "map_of (ts_cache s) k = Some e' \<Longrightarrow> map_of (ts_cache s') k = Some e'"
    using assms by (rule judge_cases) (auto simp: update_conv)
  show "ts_findings s' = ts_findings s" "tr_triaged (ts_result s') = tr_triaged (ts_result s)"
    using assms by (rule judge_cases; simp)+
  have "map_of al k = None \<Longrightarrow> length (AList.update k e al) = Suc (length al)"
    for al :: "(string, llm_verdict \<times> string) dict" and k
    using arg_cong [OF update_keys [of k e al], of length] by (auto simp: map_of_eq_None_iff)
  then show "cache_ok s \<Longrightarrow> cache_ok s'"
    using assms by - (erule judge_cases; simp add: cache_ok_def distinct_update)
qed

text \<open>One step: the finding gets the answer kept for its candidate.\<close>

lemma step_facts:
  fixes s env pv paths counts run_id f
  defines "s' \<equiv> triage_step env pv paths counts run_id f s"
  assumes "cache_ok s"
  obtains v r where "map_of (ts_cache s') (cache_key (le_sha env) f) = Some (v, r)"
    "ts_findings s' = map (\<lambda>g. if f_id g = f_id f then apply_verdict v r (pv_model pv) g else g) (ts_findings s)"
    "fst ` set (ts_cache s') = insert (cache_key (le_sha env) f) (fst ` set (ts_cache s))"
    "\<And>k e. map_of (ts_cache s) k = Some e \<Longrightarrow> map_of (ts_cache s') k = Some e"
    "tr_triaged (ts_result s') = Suc (tr_triaged (ts_result s))" "cache_ok s'"
proof -
  obtain v r s1 where j: "judge_finding env pv paths counts run_id f s = ((v, r), s1)"
    by (metis prod.exhaust)
  have s': "s' = s1\<lparr>ts_findings := map (\<lambda>g. if f_id g = f_id f then apply_verdict v r (pv_model pv) g else g) (ts_findings s1),
      ts_result := count_verdict v (ts_result s1)\<rparr>"
    by (simp add: s'_def triage_step_def j)
  show thesis
    by (rule that [of v r]) (use judge_facts [OF j] assms(2) in \<open>simp_all add: s' cache_ok_def\<close>)
qed

text \<open>What a pass over the findings \<open>ys\<close> leaves: \<open>vs\<close> says which answer was written to which id.\<close>

definition passed ::
  "(string \<Rightarrow> string) \<Rightarrow> string \<Rightarrow> finding list \<Rightarrow> triage_state \<Rightarrow> triage_state
     \<Rightarrow> (string \<Rightarrow> (llm_verdict \<times> string) option) \<Rightarrow> bool" where
  "passed sha m ys s s' vs \<longleftrightarrow>
     cache_ok s' \<and> fst ` set (ts_cache s') = cache_key sha ` set ys \<union> fst ` set (ts_cache s)
     \<and> tr_triaged (ts_result s') = tr_triaged (ts_result s) + length ys
     \<and> (\<forall>k e. map_of (ts_cache s) k = Some e \<longrightarrow> map_of (ts_cache s') k = Some e)
     \<and> (\<forall>f \<in> set ys. vs (f_id f) = map_of (ts_cache s') (cache_key sha f))
     \<and> dom vs = f_id ` set ys
     \<and> ts_findings s' = map (\<lambda>g. case vs (f_id g) of None \<Rightarrow> g | Some (v, r) \<Rightarrow> apply_verdict v r m g) (ts_findings s)"

lemma passedD:
  assumes "passed sha m ys s s' vs"
  shows "cache_ok s'" "fst ` set (ts_cache s') = cache_key sha ` set ys \<union> fst ` set (ts_cache s)"
    "tr_triaged (ts_result s') = tr_triaged (ts_result s) + length ys"
    "map_of (ts_cache s) k = Some e \<Longrightarrow> map_of (ts_cache s') k = Some e"
    "f \<in> set ys \<Longrightarrow> vs (f_id f) = map_of (ts_cache s') (cache_key sha f)"
    "dom vs = f_id ` set ys"
    "ts_findings s' = map (\<lambda>g. case vs (f_id g) of None \<Rightarrow> g | Some (v, r) \<Rightarrow> apply_verdict v r m g) (ts_findings s)"
proof -
  note c1 = assms [unfolded passed_def]
  note c2 = c1 [THEN conjunct2] and c3 = c1 [THEN conjunct2, THEN conjunct2]
  note c4 = c3 [THEN conjunct2] and c5 = c3 [THEN conjunct2, THEN conjunct2]
  note c6 = c5 [THEN conjunct2] and c7 = c5 [THEN conjunct2, THEN conjunct2]
  show "cache_ok s'" by (rule c1 [THEN conjunct1])
  show "fst ` set (ts_cache s') = cache_key sha ` set ys \<union> fst ` set (ts_cache s)"
    by (rule c2 [THEN conjunct1])
  show "tr_triaged (ts_result s') = tr_triaged (ts_result s) + length ys" by (rule c3 [THEN conjunct1])
  show "map_of (ts_cache s) k = Some e \<Longrightarrow> map_of (ts_cache s') k = Some e"
    by (rule c4 [THEN conjunct1, rule_format])
  show "f \<in> set ys \<Longrightarrow> vs (f_id f) = map_of (ts_cache s') (cache_key sha f)"
    by (rule c5 [THEN conjunct1, rule_format])
  show "dom vs = f_id ` set ys" by (rule c6 [THEN conjunct1])
  show "ts_findings s' = map (\<lambda>g. case vs (f_id g) of None \<Rightarrow> g | Some (v, r) \<Rightarrow> apply_verdict v r m g) (ts_findings s)"
    by (rule c7)
qed

lemma triage_fold:
  assumes "cache_ok s" "distinct (map f_id ys)"
  shows "\<exists>vs. passed (le_sha env) (pv_model pv) ys s (fold (triage_step env pv paths counts run_id) ys s) vs"
  using assms
proof (induction ys arbitrary: s)
  case Nil
  then show ?case by (auto simp: passed_def intro!: exI [of _ Map.empty])
next
  case (Cons f ys)
  let ?step = "triage_step env pv paths counts run_id"
  define s1 where "s1 = ?step f s"
  define s' where "s' = fold ?step ys s1"
  show ?case
  proof (rule step_facts [OF Cons.prems(1), where env = env and pv = pv and paths = paths and counts = counts
      and run_id = run_id and f = f, folded s1_def])
    fix v r
    assume step: "map_of (ts_cache s1) (cache_key (le_sha env) f) = Some (v, r)"
      "ts_findings s1 = map (\<lambda>g. if f_id g = f_id f then apply_verdict v r (pv_model pv) g else g) (ts_findings s)"
      "fst ` set (ts_cache s1) = insert (cache_key (le_sha env) f) (fst ` set (ts_cache s))"
      "\<And>k e. map_of (ts_cache s) k = Some e \<Longrightarrow> map_of (ts_cache s1) k = Some e"
      "tr_triaged (ts_result s1) = Suc (tr_triaged (ts_result s))" "cache_ok s1"
    from Cons.prems have fresh: "f_id f \<notin> f_id ` set ys" and rest: "distinct (map f_id ys)" by auto
    from Cons.IH [OF step(6) rest] obtain vs where "passed (le_sha env) (pv_model pv) ys s1 s' vs"
      unfolding s'_def ..
    note ih = passedD [OF this]
    let ?vs = "vs(f_id f \<mapsto> (v, r))"
    have none: "vs (f_id f) = None" using fresh ih(6) by auto
    have "ts_findings s' = map (\<lambda>g. case ?vs (f_id g) of None \<Rightarrow> g
               | Some (v, r) \<Rightarrow> apply_verdict v r (pv_model pv) g) (ts_findings s)"
      unfolding ih(7) step(2) by (auto simp: none split: option.splits)
    moreover have "?vs (f_id g) = map_of (ts_cache s') (cache_key (le_sha env) g)" if "g \<in> set (f # ys)" for g
    proof (cases "f_id g = f_id f")
      case True
      with that fresh have "g = f" by (metis image_eqI set_ConsD)
      then show ?thesis using ih(4) [OF step(1)] by simp
    qed (use that ih(5) in auto)
    moreover have "dom ?vs = f_id ` set (f # ys)" using ih(6) by auto
    moreover have "map_of (ts_cache s') k = Some e" if "map_of (ts_cache s) k = Some e" for k e
      by (rule ih(4), rule step(4), rule that)
    moreover have "fst ` set (ts_cache s') = cache_key (le_sha env) ` set (f # ys) \<union> fst ` set (ts_cache s)"
      unfolding ih(2) step(3) by simp
    ultimately have "passed (le_sha env) (pv_model pv) (f # ys) s s' ?vs"
      using ih(1) ih(3) step(5) unfolding passed_def by simp
    then show ?thesis by (auto simp: s'_def s1_def)
  qed
qed

lemma sorted_ids: "distinct (map f_id fs) \<Longrightarrow> distinct (map f_id (sort_key triage_sort_key fs))"
  by (metis mset_eq_imp_distinct_iff mset_map mset_sort)

lemma triage_core:
  assumes "distinct (map f_id findings)"
  shows "\<exists>answer. snd (triage_run env pv findings paths run_id counts) =
       map (\<lambda>f. apply_verdict (fst (answer (cache_key (le_sha env) f))) (snd (answer (cache_key (le_sha env) f)))
                  (pv_model pv) f) findings
     \<and> length (tr_calls (fst (triage_run env pv findings paths run_id counts)))
         = card (cache_key (le_sha env) ` set findings)
     \<and> tr_triaged (fst (triage_run env pv findings paths run_id counts)) = length findings
     \<and> counted (fst (triage_run env pv findings paths run_id counts))"
proof -
  let ?s = "\<lparr>ts_result = no_triage, ts_cache = [], ts_findings = findings\<rparr>"
  let ?ys = "sort_key triage_sort_key findings"
  let ?key = "cache_key (le_sha env)"
  define s' where "s' = fold (triage_step env pv paths counts run_id) ?ys ?s"
  have run: "triage_run env pv findings paths run_id counts = (ts_result s', ts_findings s')"
    unfolding triage_run_def s'_def Let_def ..
  have ok: "cache_ok ?s" by (simp add: cache_ok_def no_triage_def counted_def)
  from triage_fold [OF ok sorted_ids [OF assms]] obtain vs
    where "passed (le_sha env) (pv_model pv) ?ys ?s s' vs" unfolding s'_def ..
  note pass = passedD [OF this]
  have vs: "vs (f_id f) = map_of (ts_cache s') (?key f)" if "f \<in> set findings" for f
    using pass(5) [of f] that by simp
  define answer where "answer k = the (map_of (ts_cache s') k)" for k
  have "(case vs (f_id g) of None \<Rightarrow> g | Some (v, r) \<Rightarrow> apply_verdict v r (pv_model pv) g) =
      apply_verdict (fst (answer (?key g))) (snd (answer (?key g))) (pv_model pv) g" if "g \<in> set findings" for g
  proof -
    have "f_id g \<in> dom vs" using that pass(6) by simp
    then obtain e where "vs (f_id g) = Some e" by blast
    with vs [OF that] have "map_of (ts_cache s') (?key g) = Some e" "vs (f_id g) = Some e" by simp_all
    then show ?thesis by (simp add: answer_def split: prod.split)
  qed
  with pass(7) have "ts_findings s' = map (\<lambda>f. apply_verdict (fst (answer (?key f))) (snd (answer (?key f)))
                  (pv_model pv) f) findings"
    by (simp cong: map_cong)
  moreover have "length (tr_calls (ts_result s')) = card (?key ` set findings)"
    using pass(1) pass(2) distinct_card [of "map fst (ts_cache s')"] by (simp add: cache_ok_def)
  moreover have "tr_triaged (ts_result s') = length findings" "counted (ts_result s')"
    using pass(1) pass(3) by (simp_all add: no_triage_def cache_ok_def)
  ultimately show ?thesis unfolding run by auto
qed

text \<open>Triage refines judging each distinct candidate once: there is one answer per rule and value
  hash, every finding of the run gets the answer of its candidate written by \<open>apply_verdict\<close> and
  nothing else changes, no finding is added or lost, one call is made per candidate, and the counters
  add up to the number of findings.\<close>

theorem triage_judges_candidates_once:
  assumes "distinct (map f_id findings)"
  shows "\<exists>answer. snd (triage_run env pv findings paths run_id counts) =
       map (\<lambda>f. apply_verdict (fst (answer (cache_key (le_sha env) f))) (snd (answer (cache_key (le_sha env) f)))
                  (pv_model pv) f) findings
     \<and> length (tr_calls (fst (triage_run env pv findings paths run_id counts)))
         = card (cache_key (le_sha env) ` set findings)
     \<and> tr_triaged (fst (triage_run env pv findings paths run_id counts)) = length findings
     \<and> counted (fst (triage_run env pv findings paths run_id counts))"
  using assms by (rule triage_core)

subsection \<open>Triage and the gate\<close>

lemma triage_task_rows:
  assumes "distinct (map f_id (run_findings d i))"
  obtains answer where
    "snd (triage_task env pv i d) = d\<lparr>db_findings := map (\<lambda>f. if f_run_id f = i
        then apply_verdict (fst (answer f)) (snd (answer f)) (pv_model pv) f else f) (db_findings d)\<rparr>"
proof (cases "run_findings d i = []")
  case True
  then have "map (\<lambda>f. if f_run_id f = i then apply_verdict V_ERROR [] (pv_model pv) f else f) (db_findings d) = db_findings d"
    by (simp add: run_findings_def filter_empty_conv cong: map_cong)
  then have "d = d\<lparr>db_findings := map (\<lambda>f. if f_run_id f = i
      then apply_verdict (fst (V_ERROR, [])) (snd (V_ERROR, [])) (pv_model pv) f else f) (db_findings d)\<rparr>"
    unfolding prod.sel by (simp del: map_eq_conv)
  moreover have "snd (triage_task env pv i d) = d" using True by (simp add: triage_task_def)
  ultimately show thesis by (intro that [of "\<lambda>_. (V_ERROR, [])"]) (simp only:)
next
  case False
  let ?fs = "run_findings d i"
  let ?ls = "filter (\<lambda>l. fl_run_id l = i) (db_locations d)"
  let ?run = "triage_run env pv ?fs (dict_first fl_finding_id fl_path_in_tree ?ls) i (tally fl_finding_id ?ls)"
  from triage_core [OF assms, of env pv _ i] obtain answer where
    judged: "snd ?run = map (\<lambda>f. apply_verdict (fst (answer (cache_key (le_sha env) f)))
        (snd (answer (cache_key (le_sha env) f))) (pv_model pv) f) ?fs" by blast
  let ?a = "\<lambda>f. apply_verdict (fst (answer (cache_key (le_sha env) f)))
        (snd (answer (cache_key (le_sha env) f))) (pv_model pv) f"
  have find: "List.find (\<lambda>g. f_id g = f_id f) (map ?a fs) = Some (?a f)"
    if "f \<in> set fs" "distinct (map f_id fs)" for f fs
    using that by (induction fs) (auto simp: rev_image_eqI)
  have "(if f_run_id f = i then case List.find (\<lambda>g. f_id g = f_id f) (snd ?run) of Some g \<Rightarrow> g | None \<Rightarrow> f else f)
      = (if f_run_id f = i then ?a f else f)" if "f \<in> set (db_findings d)" for f
    proof (cases "f_run_id f = i")
    case True
    with that have "f \<in> set ?fs" by (simp add: run_findings_def)
    with find [OF this assms] judged True show ?thesis by simp
  qed simp
  with False show thesis
    by (intro that [of "\<lambda>f. answer (cache_key (le_sha env) f)"])
      (simp add: triage_task_def Let_def case_prod_unfold cong: map_cong)
qed

lemma gate_view_judged:
  "\<exists>s b. gate_view base paths (apply_verdict v r m f) = relabel s b (gate_view base paths f)"
  by (rule exI [of _ "finding_status_value (f_status (apply_verdict v r m f))"], rule exI [of _ "v = V_FALSE_POSITIVE"])
    (simp add: gate_view_def relabel_def)

lemma gf_open_view: "gf_is_open (gate_view base paths f) \<longleftrightarrow> finding_status_is_actionable (f_status f)"
  by (cases "f_status f") (simp_all add: gf_is_open_def gate_view_def finding_status_is_actionable_def)

lemma judged_actionable:
  assumes "finding_status_is_actionable (f_status f)" "\<not> p_trust_llm_dismissals p"
  shows "is_actionable (gate_view base paths (apply_verdict v r m f)) p = is_actionable (gate_view base paths f) p"
proof -
  have "is_actionable (gate_view base paths f) p" using assms by (simp add: is_actionable_def gf_open_view)
  moreover have "is_actionable (gate_view base paths (apply_verdict v r m f)) p"
  proof (cases "v = V_FALSE_POSITIVE")
    case True
    then have "gf_llm_dismissed (gate_view base paths (apply_verdict v r m f))" by (simp add: gate_view_def)
    with assms(2) show ?thesis by (simp add: is_actionable_def)
  next
    case False
    with assms(1) have "finding_status_is_actionable (f_status (apply_verdict v r m f))"
      by (cases v) (simp_all add: apply_verdict_status finding_status_is_actionable_def)
    then show ?thesis by (simp add: is_actionable_def gf_open_view)
  qed
  ultimately show ?thesis by simp
qed

lemma finding_gate_judged:
  fixes d env pv i
  defines "d' \<equiv> snd (triage_task env pv i d)"
  assumes "distinct (map f_id (run_findings d i))" "\<not> p_trust_llm_dismissals p"
    and "\<forall>f \<in> set (run_findings d i). finding_status_is_actionable (f_status f)"
  shows "gv_violations (evaluate (collect_gate_findings d' i b) p ws dg today) =
           gv_violations (evaluate (collect_gate_findings d i b) p ws dg today)"
    and "gv_decision (evaluate (collect_gate_findings d' i b) p ws dg today) =
           gv_decision (evaluate (collect_gate_findings d i b) p ws dg today)"
    and "get_run d' = get_run d" "degraded_stages d' = degraded_stages d"
    and "resolve_baseline d' = resolve_baseline d"
proof -
  from triage_task_rows [OF assms(2), of env pv] obtain answer where
    d': "d' = d\<lparr>db_findings := map (\<lambda>f. if f_run_id f = i
        then apply_verdict (fst (answer f)) (snd (answer f)) (pv_model pv) f else f) (db_findings d)\<rparr>"
    unfolding d'_def .
  let ?a = "\<lambda>f. apply_verdict (fst (answer f)) (snd (answer f)) (pv_model pv) f"
  let ?row = "\<lambda>f. if f_run_id f = i then ?a f else f"
  have rows: "filter (\<lambda>f. f_run_id f = i) (map ?row fs) = map ?a (filter (\<lambda>f. f_run_id f = i) fs)" for fs
    by (induction fs) simp_all
  have ids: "f_id ` set (filter (\<lambda>f. f_run_id f = j) (map ?row fs)) = f_id ` set (filter (\<lambda>f. f_run_id f = j) fs)" for fs j
    by (induction fs) auto
  let ?view = "gate_view b (artifact_paths d i (map f_id (run_findings d i)))"
  have views: "collect_gate_findings d i b = map ?view (run_findings d i)"
    by (simp add: collect_gate_findings_def Let_def run_findings_def)
  have "artifact_paths d' = artifact_paths d" by (simp add: d' artifact_paths_def fun_eq_iff)
  then have views': "collect_gate_findings d' i b = map (\<lambda>f. ?view (?a f)) (run_findings d i)"
    by (simp add: collect_gate_findings_def Let_def run_findings_def d' rows comp_def)
  show "gv_violations (evaluate (collect_gate_findings d' i b) p ws dg today) =
           gv_violations (evaluate (collect_gate_findings d i b) p ws dg today)"
    and "gv_decision (evaluate (collect_gate_findings d' i b) p ws dg today) =
           gv_decision (evaluate (collect_gate_findings d i b) p ws dg today)"
    unfolding views views' using assms(3,4)
    by (intro relabelled_same_verdict; simp add: gate_view_judged judged_actionable)+
  show "get_run d' = get_run d" "degraded_stages d' = degraded_stages d"
    by (simp_all add: d' get_run_def degraded_stages_def fun_eq_iff)
  show "resolve_baseline d' = resolve_baseline d"
    using ids by (simp add: fun_eq_iff resolve_baseline_def d' get_run_def split: option.splits)
qed

text \<open>C21: A model cannot talk a build past the gate: triage a run whose findings are all open, with
  whatever answers, and a policy that does not trust the model decides the same, for the same reasons.\<close>

theorem triage_cannot_unblock:
  assumes "distinct (map f_id (run_findings d i))" "\<not> p_trust_llm_dismissals p"
    and "\<forall>f \<in> set (run_findings d i). finding_status_is_actionable (f_status f)"
  shows "map_sum id (\<lambda>(v, b). (gv_decision v, gv_violations v, b))
           (gate_run (snd (triage_task env pv i d)) i p ws bi bs today)
       = map_sum id (\<lambda>(v, b). (gv_decision v, gv_violations v, b)) (gate_run d i p ws bi bs today)"
  using finding_gate_judged [OF assms, of env pv]
  by (simp add: gate_run_def gate_degraded_def Let_def split: option.split)

text \<open>Whatever the model says and whatever the policy trusts, triage leaves no critical or high
  finding dismissed that was not so before.\<close>

theorem severe_findings_stay_visible:
  assumes "distinct (map f_id (run_findings d i))"
    and "g \<in> set (run_findings (snd (triage_task env pv i d)) i)" "f_severity g = CRITICAL \<or> f_severity g = HIGH"
  shows "\<exists>f. f \<in> set (run_findings d i) \<and> f_id f = f_id g
    \<and> (finding_status_is_actionable (f_status g) \<or> f_status g = f_status f)"
proof -
  from triage_task_rows [OF assms(1), of env pv] obtain answer where
    rows: "snd (triage_task env pv i d) = d\<lparr>db_findings := map (\<lambda>f. if f_run_id f = i
        then apply_verdict (fst (answer f)) (snd (answer f)) (pv_model pv) f else f) (db_findings d)\<rparr>" .
  from assms(2) obtain f where f: "f \<in> set (run_findings d i)"
    "g = apply_verdict (fst (answer f)) (snd (answer f)) (pv_model pv) f"
    by (auto simp: rows run_findings_def split: if_splits)
  have "finding_status_is_actionable (f_status g) \<or> f_status g = f_status f"
    using assms(3) f(2) by (auto simp: apply_verdict_status finding_status_is_actionable_def split: llm_verdict.splits)
  with f show ?thesis by (intro exI [of _ f]) simp
qed

text \<open>A failed second triage launders a dismissal: the model once dismissed a finding, which a policy
  that does not trust the model still blocks on; when a later pass fails, the verdict is overwritten by
  the failure while the status stays, and the gate takes the dismissal for a human one.\<close>

theorem failed_retriage_hides_dismissed_finding:
  assumes "f_status f = F_FALSE_POSITIVE" "f_llm_verdict f = Some V_FALSE_POSITIVE" "\<not> p_trust_llm_dismissals p"
  shows "is_actionable (gate_view base paths f) p
    \<and> \<not> is_actionable (gate_view base paths (apply_verdict V_ERROR reasoning model f)) p"
  using assms by (simp add: is_actionable_def gf_open_view apply_verdict_status finding_status_is_actionable_def)
    (simp add: gate_view_def)

text \<open>A pass overrides what a reviewer decided: an accepted risk the model confirms is open again.\<close>

lemma triage_reopens_accepted_risk:
  "f_status f = F_ACCEPTED_RISK \<Longrightarrow> f_status (apply_verdict V_TRUE_POSITIVE reasoning model f) = F_CONFIRMED"
  by (simp add: apply_verdict_status)

subsection \<open>Samples\<close>

definition silent_model :: provider where
  "silent_model = \<lparr>pv_name = ''p'', pv_model = ''m'', pv_is_local = True, pv_structured = True,
     pv_complete = (\<lambda>_ _ _ _. Inl ''down'')\<rparr>"

definition sample_env :: llm_env where
  "sample_env = \<lparr>le_sha = (\<lambda>s. s), le_loads = (\<lambda>_. None), le_show_float = (\<lambda>_. ''0'')\<rparr>"

lemma sample_rows: "run_findings release_db ''r2'' = [sample_row ''r2'' ''aa'']"
  by (simp add: run_findings_def release_db_def sample_row_def)

theorem triage_judges_candidates_once_witness:
  "tr_triaged (fst (triage_run sample_env silent_model [sample_row ''r2'' ''aa''] [] ''r2'' [])) = 1"
  using triage_judges_candidates_once [of "[sample_row ''r2'' ''aa'']" sample_env silent_model "[]" "''r2''" "[]"]
  by auto

theorem triage_cannot_unblock_witness:
  "map_sum id (\<lambda>(v, b). (gv_decision v, gv_violations v, b))
      (gate_run (snd (triage_task sample_env silent_model ''r2'' release_db)) ''r2'' default_policy [] None None sample_day)
   = map_sum id (\<lambda>(v, b). (gv_decision v, gv_violations v, b))
      (gate_run release_db ''r2'' default_policy [] None None sample_day)"
  by (rule triage_cannot_unblock)
    (simp_all add: sample_rows default_policy_def, simp add: sample_row_def finding_status_is_actionable_def)

theorem severe_findings_stay_visible_witness:
  "\<exists>g f. g \<in> set (run_findings (snd (triage_task sample_env silent_model ''r2'' release_db)) ''r2'')
     \<and> f \<in> set (run_findings release_db ''r2'') \<and> f_id f = f_id g
     \<and> (finding_status_is_actionable (f_status g) \<or> f_status g = f_status f)"
proof -
  have ids: "distinct (map f_id (run_findings release_db ''r2''))" by (simp add: sample_rows)
  from triage_task_rows [OF ids, of sample_env silent_model] obtain answer where
    rows: "snd (triage_task sample_env silent_model ''r2'' release_db) = release_db\<lparr>db_findings := map (\<lambda>f.
        if f_run_id f = ''r2'' then apply_verdict (fst (answer f)) (snd (answer f)) (pv_model silent_model) f else f)
        (db_findings release_db)\<rparr>" .
  define g where "g = apply_verdict (fst (answer (sample_row ''r2'' ''aa''))) (snd (answer (sample_row ''r2'' ''aa'')))
      (pv_model silent_model) (sample_row ''r2'' ''aa'')"
  have "sample_row ''r2'' ''aa'' \<in> set (db_findings release_db)" "f_run_id (sample_row ''r2'' ''aa'') = ''r2''"
    by (simp add: release_db_def) (simp add: sample_row_def)
  then have g: "g \<in> set (run_findings (snd (triage_task sample_env silent_model ''r2'' release_db)) ''r2'')"
    by (auto simp: rows run_findings_def g_def intro!: rev_image_eqI)
  have sev: "f_severity g = CRITICAL \<or> f_severity g = HIGH" by (simp add: g_def sample_row_def)
  show ?thesis
    using severe_findings_stay_visible [OF ids g sev] g by blast
qed

theorem failed_retriage_hides_dismissed_finding_witness:
  "is_actionable (gate_view no_baseline [] (sample_row ''r2'' ''aa''\<lparr>f_status := F_FALSE_POSITIVE,
       f_llm_verdict := Some V_FALSE_POSITIVE\<rparr>)) default_policy"
  by (rule failed_retriage_hides_dismissed_finding [THEN conjunct1]) (simp_all add: default_policy_def)

end
