(* ===== verification/Py_Regex.thy ===== *)
theory Py_Regex
  imports Bytes_Text
begin

text \<open>
  Regular expressions as \<open>re\<close> runs them, for the patterns the program's own modules contain: a
  backtracking matcher that lists the ends of all matches from a position in the order the engine
  tries them, so that the first is the one \<open>search\<close> reports. An iteration of a repetition has to make
  progress; no pattern of the program has a repetition whose body matches the empty string.
  \<open>lang\<close> says what it means to match, without an order; \<open>ends_iff\<close> relates the two. Text is ASCII.
\<close>

datatype regex =
    Cls "char \<Rightarrow> bool"
  | Eps
  | Bound
  | Bos
  | Eos
  | Bol
  | Eol
  | Seq regex regex
  | Alt regex regex
  | Rep nat "nat option" regex
  | Not_Ahead regex

definition word_char :: "char \<Rightarrow> bool" where
  "word_char c \<longleftrightarrow> is_letter c \<or> is_digit c \<or> c = CHR ''_''"

definition word_at :: "string \<Rightarrow> nat \<Rightarrow> bool" where
  "word_at s i \<longleftrightarrow> i < length s \<and> word_char (s ! i)"

definition boundary :: "string \<Rightarrow> nat \<Rightarrow> bool" where
  "boundary s i \<longleftrightarrow> (0 < i \<and> word_at s (i - 1)) \<noteq> word_at s i"

text \<open>\<open>$\<close>: the end, or before a newline that ends the text.\<close>

definition at_end :: "string \<Rightarrow> nat \<Rightarrow> bool" where
  "at_end s i \<longleftrightarrow> i = length s \<or> (Suc i = length s \<and> s ! i = CHR 0x0A)"

text \<open>\<open>^\<close> and \<open>$\<close> under \<open>MULTILINE\<close>.\<close>

definition line_start :: "string \<Rightarrow> nat \<Rightarrow> bool" where
  "line_start s i \<longleftrightarrow> i = 0 \<or> (i \<le> length s \<and> s ! (i - 1) = CHR 0x0A)"

definition line_end :: "string \<Rightarrow> nat \<Rightarrow> bool" where
  "line_end s i \<longleftrightarrow> i = length s \<or> (i < length s \<and> s ! i = CHR 0x0A)"

subsection \<open>The matcher\<close>

text \<open>Greedy repetition: at most \<open>n\<close> iterations of \<open>f\<close>, as many as possible first.\<close>

fun rep_ends :: "(nat \<Rightarrow> nat list) \<Rightarrow> nat \<Rightarrow> nat option \<Rightarrow> nat \<Rightarrow> nat \<Rightarrow> nat list" where
  "rep_ends f lo hi 0 i = (if lo = 0 then [i] else [])"
| "rep_ends f lo hi (Suc n) i =
     (if hi = Some 0 then []
      else concat (map (\<lambda>j. if i < j then rep_ends f (lo - 1) (map_option (\<lambda>h. h - 1) hi) n j else []) (f i)))
     @ (if lo = 0 then [i] else [])"

primrec ends :: "regex \<Rightarrow> string \<Rightarrow> nat \<Rightarrow> nat list" where
  "ends (Cls p) s i = (if i < length s \<and> p (s ! i) then [Suc i] else [])"
| "ends Eps s i = [i]"
| "ends Bound s i = (if boundary s i then [i] else [])"
| "ends Bos s i = (if i = 0 then [i] else [])"
| "ends Eos s i = (if at_end s i then [i] else [])"
| "ends Bol s i = (if line_start s i then [i] else [])"
| "ends Eol s i = (if line_end s i then [i] else [])"
| "ends (Seq a b) s i = concat (map (ends b s) (ends a s i))"
| "ends (Alt a b) s i = ends a s i @ ends b s i"
| "ends (Rep lo hi a) s i = rep_ends (ends a s) lo hi (Suc (length s - i)) i"
| "ends (Not_Ahead a) s i = (if ends a s i = [] then [i] else [])"

fun seqs :: "regex list \<Rightarrow> regex" where
  "seqs [] = Eps"
| "seqs [r] = r"
| "seqs (r # rs) = Seq r (seqs rs)"

fun alts :: "regex list \<Rightarrow> regex" where
  "alts [] = Cls (\<lambda>_. False)"
| "alts [r] = r"
| "alts (r # rs) = Alt r (alts rs)"

definition to_upper :: "char \<Rightarrow> char" where
  "to_upper c = (if is_lower c then char_of ((of_char c :: nat) - 32) else c)"

text \<open>A class or a literal under \<open>IGNORECASE\<close>.\<close>

definition ci :: "(char \<Rightarrow> bool) \<Rightarrow> regex" where
  "ci p = Cls (\<lambda>c. p (lower_char c) \<or> p (to_upper c))"

definition lit :: "string \<Rightarrow> regex" where
  "lit t = seqs (map (\<lambda>c. ci (\<lambda>d. d = c)) t)"

definition exactly :: "string \<Rightarrow> regex" where
  "exactly t = seqs (map (\<lambda>c. Cls (\<lambda>d. d = c)) t)"

subsection \<open>Searching\<close>

text \<open>A pattern with captured groups: parts in sequence, the captured ones marked. A match is the spans
  of the groups and the end.\<close>

type_synonym parts = "(bool \<times> regex) list"

fun part_ends :: "parts \<Rightarrow> string \<Rightarrow> nat \<Rightarrow> ((nat \<times> nat) list \<times> nat) list" where
  "part_ends [] s i = [([], i)]"
| "part_ends ((captured, r) # ps) s i =
     concat (map (\<lambda>j. map (\<lambda>(gs, e). (if captured then (i, j) # gs else gs, e)) (part_ends ps s j)) (ends r s i))"

fun search_from :: "parts \<Rightarrow> string \<Rightarrow> nat \<Rightarrow> nat \<Rightarrow> ((nat \<times> nat) list \<times> nat) option" where
  "search_from ps s 0 i = None"
| "search_from ps s (Suc n) i =
     (case part_ends ps s i of [] \<Rightarrow> search_from ps s n (Suc i) | m # _ \<Rightarrow> Some m)"

definition search_parts :: "parts \<Rightarrow> string \<Rightarrow> ((nat \<times> nat) list \<times> nat) option" where
  "search_parts ps s = search_from ps s (Suc (length s)) 0"

definition search_re :: "regex \<Rightarrow> string \<Rightarrow> bool" where
  "search_re r s \<longleftrightarrow> search_parts [(False, r)] s \<noteq> None"

definition span_text :: "string \<Rightarrow> nat \<times> nat \<Rightarrow> string" where
  "span_text s g = slice (fst g) (snd g) s"

text \<open>\<open>match.group(1)\<close> of the first match.\<close>

definition search_group :: "parts \<Rightarrow> string \<Rightarrow> string option" where
  "search_group ps s =
     (case search_parts ps s of Some (g # gs, e) \<Rightarrow> Some (span_text s g) | _ \<Rightarrow> None)"

text \<open>\<open>finditer\<close>: the groups of every match, each found from the end of the one before it.\<close>

fun finditer_from :: "parts \<Rightarrow> string \<Rightarrow> nat \<Rightarrow> nat \<Rightarrow> string list list" where
  "finditer_from ps s 0 i = []"
| "finditer_from ps s (Suc n) i =
     (case search_from ps s (Suc (length s) - i) i of
        None \<Rightarrow> []
      | Some (gs, e) \<Rightarrow> map (span_text s) gs # finditer_from ps s n (if i < e then e else Suc i))"

definition finditer_parts :: "parts \<Rightarrow> string \<Rightarrow> string list list" where
  "finditer_parts ps s = finditer_from ps s (Suc (length s)) 0"

subsection \<open>What matching means\<close>

primrec lang :: "regex \<Rightarrow> string \<Rightarrow> nat \<Rightarrow> nat \<Rightarrow> bool" where
  "lang (Cls p) s = (\<lambda>i j. i < length s \<and> p (s ! i) \<and> j = Suc i)"
| "lang Eps s = (\<lambda>i j. j = i)"
| "lang Bound s = (\<lambda>i j. boundary s i \<and> j = i)"
| "lang Bos s = (\<lambda>i j. i = 0 \<and> j = i)"
| "lang Eos s = (\<lambda>i j. at_end s i \<and> j = i)"
| "lang Bol s = (\<lambda>i j. line_start s i \<and> j = i)"
| "lang Eol s = (\<lambda>i j. line_end s i \<and> j = i)"
| "lang (Seq a b) s = (\<lambda>i j. \<exists>k. lang a s i k \<and> lang b s k j)"
| "lang (Alt a b) s = (\<lambda>i j. lang a s i j \<or> lang b s i j)"
| "lang (Rep lo hi a) s =
     (\<lambda>i j. \<exists>n. lo \<le> n \<and> (case hi of None \<Rightarrow> True | Some h \<Rightarrow> n \<le> h) \<and> ((\<lambda>i j. lang a s i j \<and> i < j) ^^ n) i j)"
| "lang (Not_Ahead a) s = (\<lambda>i j. (\<forall>k. \<not> lang a s i k) \<and> j = i)"

lemma rep_ends_iff:
  "j \<in> set (rep_ends f lo hi n i) \<longleftrightarrow>
     (\<exists>k. lo \<le> k \<and> k \<le> n \<and> (case hi of None \<Rightarrow> True | Some h \<Rightarrow> k \<le> h)
        \<and> ((\<lambda>i j. j \<in> set (f i) \<and> i < j) ^^ k) i j)"
proof (induction n arbitrary: lo hi i)
  case 0
  show ?case by (cases hi) auto
next
  case (Suc n)
  let ?R = "\<lambda>i j. j \<in> set (f i) \<and> i < j"
  let ?ok = "\<lambda>hi k. case hi of None \<Rightarrow> True | Some h \<Rightarrow> k \<le> h"
  have "j \<in> set (rep_ends f lo hi (Suc n) i) \<longleftrightarrow>
      (hi \<noteq> Some 0 \<and> (\<exists>m. ?R i m \<and> (\<exists>k. lo - 1 \<le> k \<and> k \<le> n
          \<and> ?ok (map_option (\<lambda>h. h - 1) hi) k \<and> (?R ^^ k) m j)))
      \<or> (lo = 0 \<and> j = i)"
    by (auto simp: Suc.IH)
  also have "\<dots> \<longleftrightarrow> (\<exists>k. lo \<le> Suc k \<and> Suc k \<le> Suc n \<and> ?ok hi (Suc k) \<and> (?R ^^ Suc k) i j) \<or> (lo = 0 \<and> j = i)"
  proof -
    have "?ok hi (Suc k) \<longleftrightarrow> hi \<noteq> Some 0 \<and> ?ok (map_option (\<lambda>h. h - 1) hi) k" for k
      by (cases hi) (auto dest: Suc_le_D)
    moreover have "(?R ^^ Suc k) i j \<longleftrightarrow> (\<exists>m. ?R i m \<and> (?R ^^ k) m j)" for k
      by (metis (no_types, lifting) relpowp_Suc_D2 relpowp_Suc_I2)
    moreover have "lo - 1 \<le> k \<longleftrightarrow> lo \<le> Suc k" for k by auto
    ultimately show ?thesis by auto
  qed
  also have "\<dots> \<longleftrightarrow> (\<exists>k. lo \<le> k \<and> k \<le> Suc n \<and> ?ok hi k \<and> (?R ^^ k) i j)"
  proof
    assume "(\<exists>k. lo \<le> Suc k \<and> Suc k \<le> Suc n \<and> ?ok hi (Suc k) \<and> (?R ^^ Suc k) i j) \<or> (lo = 0 \<and> j = i)"
    then show "\<exists>k. lo \<le> k \<and> k \<le> Suc n \<and> ?ok hi k \<and> (?R ^^ k) i j"
    proof
      assume "lo = 0 \<and> j = i"
      then show ?thesis by (intro exI [of _ 0]) (auto split: option.split)
    qed blast
  next
    assume "\<exists>k. lo \<le> k \<and> k \<le> Suc n \<and> ?ok hi k \<and> (?R ^^ k) i j"
    then obtain k where k: "lo \<le> k" "k \<le> Suc n" "?ok hi k" "(?R ^^ k) i j" by blast
    show "(\<exists>k. lo \<le> Suc k \<and> Suc k \<le> Suc n \<and> ?ok hi (Suc k) \<and> (?R ^^ Suc k) i j) \<or> (lo = 0 \<and> j = i)"
    proof (cases k)
      case 0
      with k show ?thesis by simp
    next
      case (Suc m)
      with k show ?thesis by blast
    qed
  qed
  finally show ?case .
qed

lemma chain_length:
  assumes "((\<lambda>i j. R i j \<and> i < j) ^^ k) i j"
  shows "i + k \<le> (j :: nat)"
  using assms
proof (induction k arbitrary: j)
  case (Suc k)
  then obtain m where "((\<lambda>i j. R i j \<and> i < j) ^^ k) i m" "m < j" by auto
  with Suc.IH [of m] show ?case by simp
qed simp

lemma chain_bound:
  assumes "(R ^^ k) i j" "P i" "\<And>a b. R a b \<Longrightarrow> P a \<Longrightarrow> P b"
  shows "P j"
  using assms(1)
proof (induction k arbitrary: j)
  case 0
  then show ?case using assms(2) by simp
next
  case (Suc k)
  then obtain m where "(R ^^ k) i m" "R m j" by auto
  with Suc.IH assms(3) show ?case by blast
qed

lemma lang_bound: "lang r s i j \<Longrightarrow> i \<le> length s \<Longrightarrow> i \<le> j \<and> j \<le> length s"
proof (induction r arbitrary: i j)
  case (Seq a b)
  then obtain k where "lang a s i k" "lang b s k j" by auto
  with Seq.IH Seq.prems(2) show ?case by (meson le_trans)
next
  case (Alt a b)
  then show ?case by auto
next
  case (Rep lo hi a)
  let ?R = "\<lambda>i j. lang a s i j \<and> i < j"
  from Rep.prems(1) obtain n where n: "(?R ^^ n) i j" by auto
  have "i \<le> j" using chain_length [OF n] by simp
  moreover have "j \<le> length s"
    by (rule chain_bound [OF n, where P = "\<lambda>x. x \<le> length s"]) (use Rep in blast)+
  ultimately show ?case ..
qed auto

lemma chain_cong:
  assumes "\<And>a b. P a \<Longrightarrow> R a b \<longleftrightarrow> S a b" "\<And>a b. R a b \<Longrightarrow> P a \<Longrightarrow> P b" "P i"
  shows "(R ^^ k) i j \<longleftrightarrow> (S ^^ k) i j"
proof (induction k arbitrary: j)
  case (Suc k)
  have "R m j \<longleftrightarrow> S m j" if "(R ^^ k) i m" for m
    by (rule assms(1), rule chain_bound [OF that, where P = P]) (fact assms)+
  with Suc show ?case by auto
qed simp

text \<open>The matcher finds exactly the matches there are.\<close>

lemma ends_iff: "i \<le> length s \<Longrightarrow> j \<in> set (ends r s i) \<longleftrightarrow> lang r s i j"
proof (induction r arbitrary: i j)
  case (Seq a b)
  have "j \<in> set (ends (Seq a b) s i) \<longleftrightarrow> (\<exists>k. k \<in> set (ends a s i) \<and> j \<in> set (ends b s k))" by auto
  also have "\<dots> \<longleftrightarrow> (\<exists>k. lang a s i k \<and> lang b s k j)"
    using Seq.IH Seq.prems lang_bound by meson
  finally show ?case by simp
next
  case (Rep lo hi a)
  let ?R = "\<lambda>i j. j \<in> set (ends a s i) \<and> i < j" and ?S = "\<lambda>i j. lang a s i j \<and> i < j"
  have chain: "(?R ^^ k) i j \<longleftrightarrow> (?S ^^ k) i j" for k
    by (rule chain_cong [where P = "\<lambda>i. i \<le> length s"]) (use Rep lang_bound in blast)+
  have "k \<le> Suc (length s - i)" if "(?S ^^ k) i j" for k
  proof -
    have "j \<le> length s" by (rule chain_bound [OF that, where P = "\<lambda>x. x \<le> length s"]) (use Rep.prems lang_bound in blast)+
    with chain_length [OF that] show ?thesis by simp
  qed
  then show ?case unfolding ends.simps rep_ends_iff lang.simps chain by blast
next
  case (Not_Ahead a)
  have "ends a s i = [] \<longleftrightarrow> (\<forall>k. \<not> lang a s i k)"
    using Not_Ahead by (metis empty_iff list.set(1) list.set_intros(1) neq_Nil_conv)
  then show ?case by auto
qed auto

lemma search_from_None:
  "search_from ps s n i = None \<longleftrightarrow> (\<forall>k. i \<le> k \<and> k < i + n \<longrightarrow> part_ends ps s k = [])"
proof (induction n arbitrary: i)
  case (Suc n)
  have "(\<forall>k. i \<le> k \<and> k < i + Suc n \<longrightarrow> part_ends ps s k = []) \<longleftrightarrow>
      part_ends ps s i = [] \<and> (\<forall>k. Suc i \<le> k \<and> k < Suc i + n \<longrightarrow> part_ends ps s k = [])"
  proof (intro iffI conjI allI impI)
    fix k
    assume all: "part_ends ps s i = [] \<and> (\<forall>k. Suc i \<le> k \<and> k < Suc i + n \<longrightarrow> part_ends ps s k = [])"
      and k: "i \<le> k \<and> k < i + Suc n"
    show "part_ends ps s k = []" using all k by (cases "k = i") auto
  qed auto
  with Suc show ?case by (simp split: list.split)
qed auto

text \<open>\<open>search\<close> finds something exactly when some part of the text matches.\<close>

lemma search_re_iff: "search_re r s \<longleftrightarrow> (\<exists>i j. i \<le> length s \<and> lang r s i j)"
proof -
  have "part_ends [(False, r)] s i = [] \<longleftrightarrow> ends r s i = []" for i by simp
  moreover have "ends r s i = [] \<longleftrightarrow> (\<forall>j. \<not> lang r s i j)" if "i \<le> length s" for i
    using ends_iff [OF that] by (metis empty_iff list.set(1) list.set_intros(1) neq_Nil_conv)
  ultimately have "\<not> search_re r s \<longleftrightarrow> (\<forall>i. i \<le> length s \<longrightarrow> (\<forall>j. \<not> lang r s i j))"
    unfolding search_re_def search_parts_def not_not search_from_None by (simp add: less_Suc_eq_le)
  then show ?thesis by blast
qed

subsection \<open>Characters a match cannot do without\<close>

definition must :: "regex \<Rightarrow> (char \<Rightarrow> bool) \<Rightarrow> bool" where
  "must r p \<longleftrightarrow> (\<forall>s i j. i \<le> length s \<longrightarrow> lang r s i j \<longrightarrow> (\<exists>c \<in> set s. p c))"

lemma must_Cls: "must (Cls p) p"
  by (auto simp: must_def)

lemma must_Seq: "must a p \<or> must b p \<Longrightarrow> must (Seq a b) p"
  unfolding must_def lang.simps by (meson lang_bound)

lemma must_seqs: "\<exists>r \<in> set rs. must r p \<Longrightarrow> must (seqs rs) p"
proof (induction rs rule: seqs.induct)
  case (3 r q rs)
  then show ?case by (auto intro: must_Seq)
qed simp_all

lemma must_exactly: "c \<in> set t \<Longrightarrow> must (exactly t) (\<lambda>d. d = c)"
  unfolding exactly_def by (rule must_seqs) (auto intro!: bexI must_Cls)

lemma must_lit: "c \<in> set t \<Longrightarrow> must (lit t) (\<lambda>d. lower_char d = c \<or> to_upper d = c)"
  unfolding lit_def ci_def by (rule must_seqs) (auto intro!: bexI must_Cls)

lemma must_search: "must r p \<Longrightarrow> list_all (\<lambda>c. \<not> p c) s \<Longrightarrow> \<not> search_re r s"
  unfolding search_re_iff must_def list_all_iff by blast

lemma search_alts: "search_re (alts rs) s \<longleftrightarrow> list_ex (\<lambda>r. search_re r s) rs"
proof -
  have "lang (alts rs) s i j \<longleftrightarrow> list_ex (\<lambda>r. lang r s i j) rs" for i j
    by (induction rs rule: alts.induct) auto
  then show ?thesis unfolding search_re_iff list_ex_iff by blast
qed

lemma rep_first:
  assumes "lang (Rep lo hi (Cls p)) s i j" "j \<noteq> i"
  shows "i < length s \<and> p (s ! i)"
proof -
  from assms obtain n where n: "((\<lambda>i j. lang (Cls p) s i j \<and> i < j) ^^ n) i j" by auto
  with assms(2) obtain m where "n = Suc m" by (cases n) auto
  with n obtain k where "lang (Cls p) s i k" by (metis (no_types, lifting) relpowp_Suc_D2)
  then show ?thesis by simp
qed

end
