(* ===== verification/Rules_Recon.thy ===== *)
theory Rules_Recon
  imports Py_Regex Py_Dict
begin

text \<open>
  Reconnaissance (\<open>core/rules/recon.py\<close>): the inventory of what kinds of things the strings of an
  artifact are. The probes are the module's own regular expressions, written out as \<open>regex\<close> terms
  under \<open>IGNORECASE\<close>. The strings come from the extractor, so they are ASCII.
\<close>

subsection \<open>Character classes\<close>

definition space_re :: regex where "space_re = Cls py_space"
definition digit_re :: regex where "digit_re = Cls is_digit"
definition letter_re :: regex where "letter_re = ci is_letter"
definition alnum_re :: regex where "alnum_re = ci (\<lambda>c. is_letter c \<or> is_digit c)"

definition alnum_or :: "string \<Rightarrow> regex" where
  "alnum_or extra = ci (\<lambda>c. is_letter c \<or> is_digit c \<or> c \<in> set extra)"

text \<open>\<open>[^\s...\x00]\<close>.\<close>

definition none_of :: "string \<Rightarrow> regex" where
  "none_of excluded = Cls (\<lambda>c. \<not> py_space c \<and> c \<noteq> CHR 0x00 \<and> c \<notin> set excluded)"

definition EM_DASH :: string where "EM_DASH = [CHR 0xE2, CHR 0x80, CHR 0x94]"
definition DQ :: char where "DQ = CHR 0x22"
definition SQ :: char where "SQ = CHR 0x27"
definition BS :: char where "BS = CHR 0x5C"

subsection \<open>The probes\<close>

record sweep_probe =
  sp_name :: string
  sp_parts :: parts
  sp_why :: string

definition mk_probe :: "string \<Rightarrow> parts \<Rightarrow> string \<Rightarrow> sweep_probe" where
  "mk_probe n ps why = \<lparr>sp_name = n, sp_parts = ps, sp_why = why\<rparr>"

definition uri_scheme :: parts where
  "uri_scheme = [(False, Bound),
     (True, seqs [letter_re, Rep 1 (Some 14) (alnum_or ''+.-''), exactly ''://'',
       Rep 3 (Some 180) (none_of [DQ, SQ, CHR ''<'', CHR ''>'', CHR ''&''])])]"

definition unc_path :: parts where
  "unc_path = [(True, seqs [exactly [BS, BS], Rep 2 (Some 60) (alnum_or ''._-''), exactly [BS],
     Rep 0 (Some 120) (none_of [DQ, CHR ''<'', CHR ''>'', CHR ''|''])])]"

definition windows_path :: parts where
  "windows_path = [(False, Bound), (True, seqs [letter_re, exactly [CHR '':'', BS],
     Rep 4 (Some 160) (none_of [DQ, CHR ''<'', CHR ''>'', CHR ''|'', CHR ''*'', CHR ''?'', CHR 0x0D, CHR 0x0A])])]"

definition posix_path :: parts where
  "posix_path = [(True, seqs [exactly ''/'',
     alts (map lit [''home'', ''Users'', ''opt'', ''srv'', ''var'', ''data'', ''build'', ''builds'', ''workspace'', ''mnt'']),
     exactly ''/'', Rep 3 (Some 160) (none_of [DQ, CHR ''<'', CHR ''>'', CHR ''|'', CHR '':''])])]"

definition email_or_upn :: parts where
  "email_or_upn = [(False, Bound), (True, seqs [Rep 2 (Some 40) (alnum_or ''._%+-''), exactly ''@'',
     Rep 3 (Some 50) (alnum_or ''.-''), exactly ''.'', Rep 2 (Some 12) letter_re]), (False, Bound)]"

definition ip_address :: parts where
  "ip_address = [(False, Bound),
     (True, seqs [Rep 3 (Some 3) (seqs [Rep 1 (Some 3) digit_re, exactly ''.'']), Rep 1 (Some 3) digit_re,
       Rep 0 (Some 1) (seqs [exactly '':'', Rep 1 (Some 5) digit_re])]),
     (False, Bound)]"

definition hostname :: parts where
  "hostname = [(False, Bound),
     (True, seqs [Not_Ahead (seqs [Rep 1 None digit_re, exactly ''.'']), alnum_re, Rep 1 (Some 40) (alnum_or ''-''),
       Rep 2 None (seqs [exactly ''.'', alnum_re, Rep 1 (Some 40) (alnum_or ''-'')]),
       Rep 0 (Some 1) (exactly ''.''), Rep 0 (Some 12) letter_re]),
     (False, Bound)]"

definition key_equals :: regex where
  "key_equals = seqs [letter_re, Rep 2 (Some 20) alnum_re, Rep 0 None space_re, exactly ''='', Rep 0 None space_re]"

definition connection_string :: parts where
  "connection_string = [(True, seqs [key_equals, Rep 3 (Some 60) (none_of [CHR '';'', DQ, SQ]),
     Rep 2 None (seqs [exactly '';'', key_equals, Rep 1 (Some 60) (none_of [CHR '';'', DQ, SQ])])])]"

definition assignment :: parts where
  "assignment = [(False, Bound), (True, seqs [ci (\<lambda>c. is_letter c \<or> c = CHR ''_''), Rep 2 (Some 40) (alnum_or ''_.-''),
     Rep 0 None space_re, Cls (\<lambda>c. c = CHR ''='' \<or> c = CHR '':''), Rep 0 None space_re,
     Rep 6 (Some 120) (none_of [DQ, SQ, CHR ''<'', CHR ''>'', CHR '';'', CHR '',''])])]"

definition version_tag :: parts where
  "version_tag = [(False, Bound), (True, seqs [Rep 1 (Some 3) letter_re, Rep 3 (Some 8) digit_re,
     Rep 1 (Some 5) (seqs [Cls (\<lambda>c. c = CHR ''-'' \<or> c = CHR ''_''), Rep 1 (Some 10) alnum_re])]), (False, Bound)]"

definition SWEEPS :: "sweep_probe list" where
  "SWEEPS =
    [mk_probe ''uri_scheme'' uri_scheme
       (''Every URI, whatever the scheme. svn+ssh, git+ssh, ldap, mqtt, smb, and ftp all live here '' @ EM_DASH @ '' the schemes nobody writes a rule for are exactly the ones that leak infrastructure.''),
     mk_probe ''unc_path'' unc_path ''UNC shares. Names a file server and often a build share.'',
     mk_probe ''windows_path'' windows_path
       (''Absolute Windows paths '' @ EM_DASH @ '' build trees, user profiles, install roots.''),
     mk_probe ''posix_path'' posix_path ''Absolute POSIX paths under directories that imply a real machine.'',
     mk_probe ''email_or_upn'' email_or_upn
       ''Addresses and user principal names. Distinguishes published contact addresses from individual employees.'',
     mk_probe ''ip_address'' ip_address ''IPv4 addresses, with port where present.'',
     mk_probe ''hostname'' hostname
       (''Three-or-more-label hostnames. Public CDNs and internal servers look identical here on purpose '' @ EM_DASH @ '' the point is to see all of them.''),
     mk_probe ''connection_string'' connection_string
       (''Semicolon-delimited key=value strings '' @ EM_DASH @ '' the shape of database and storage connection strings.''),
     mk_probe ''assignment'' assignment
       ''Any name=value pair. The broadest sweep, and where an unrecognised credential format shows up.'',
     mk_probe ''version_tag'' version_tag ''Part numbers, build tags, and internal revision identifiers.'']"

definition UBIQUITY_THRESHOLD :: nat where "UBIQUITY_THRESHOLD = 40"
definition MAX_PER_CATEGORY :: nat where "MAX_PER_CATEGORY = 60"
definition MAX_VALUE_CHARS :: nat where "MAX_VALUE_CHARS = 200"

subsection \<open>The sweep\<close>

type_synonym place = "string \<times> int \<times> string"
type_synonym found_string = "string \<times> place"

record recon_sample =
  rs_value :: string
  rs_occurrences :: nat
  rs_place :: place

record recon_category =
  rc_name :: string
  rc_rationale :: string
  rc_total :: nat
  rc_distinct :: nat
  rc_samples :: "recon_sample list"

record recon_inventory =
  ri_categories :: "recon_category list"
  ri_files_scanned :: nat
  ri_truncated :: bool

record sweep_state =
  sw_counters :: "string \<Rightarrow> (string, nat) dict"
  sw_locations :: "string \<Rightarrow> (string, place) dict"
  sw_files :: "string set"

text \<open>The first category that matches claims the string.\<close>

fun claim_by :: "sweep_probe list \<Rightarrow> string \<Rightarrow> (string \<times> string) option" where
  "claim_by [] value = None"
| "claim_by (p # ps) value =
     (case search_group (sp_parts p) value of
        None \<Rightarrow> claim_by ps value
      | Some g \<Rightarrow> Some (sp_name p, take MAX_VALUE_CHARS g))"

definition sweep_string :: "sweep_probe list \<Rightarrow> found_string \<Rightarrow> sweep_state \<Rightarrow> sweep_state" where
  "sweep_string probes x s =
     (let value = fst x; where_found = snd x; s = s\<lparr>sw_files := insert (fst where_found) (sw_files s)\<rparr> in
      case claim_by probes value of
        None \<Rightarrow> s
      | Some (name, found) \<Rightarrow>
          s\<lparr>sw_counters := (sw_counters s)(name := dict_incr found (sw_counters s name)),
            sw_locations := (sw_locations s)(name := dict_setdefault found where_found (sw_locations s name))\<rparr>)"

fun sample_loop :: "nat \<Rightarrow> (string, place) dict \<Rightarrow> recon_sample list \<Rightarrow> (string \<times> nat) list \<Rightarrow> recon_sample list" where
  "sample_loop max_per locs samples [] = samples"
| "sample_loop max_per locs samples ((found, occurrences) # rest) =
     (if occurrences > UBIQUITY_THRESHOLD then sample_loop max_per locs samples rest
      else (let samples = samples @ [\<lparr>rs_value = found, rs_occurrences = occurrences,
                                      rs_place = the (map_of locs found)\<rparr>] in
            if length samples \<ge> max_per then samples else sample_loop max_per locs samples rest))"

definition rank_key :: "string \<times> nat \<Rightarrow> nat \<times> string" where
  "rank_key kv = (snd kv, fst kv)"

definition category_of :: "nat \<Rightarrow> sweep_state \<Rightarrow> sweep_probe \<Rightarrow> recon_category list" where
  "category_of max_per s p =
     (let counter = sw_counters s (sp_name p) in
      if counter = [] then []
      else [\<lparr>rc_name = sp_name p, rc_rationale = sp_why p, rc_total = sum_list (map snd counter),
             rc_distinct = length counter,
             rc_samples = sample_loop max_per (sw_locations s (sp_name p)) [] (sort_key rank_key counter)\<rparr>])"

definition sweep :: "found_string list \<Rightarrow> nat \<Rightarrow> recon_inventory" where
  "sweep strings max_per =
     (let s = fold (sweep_string SWEEPS) strings
                \<lparr>sw_counters = (\<lambda>_. []), sw_locations = (\<lambda>_. []), sw_files = {}\<rparr>
      in \<lparr>ri_categories = concat (map (category_of max_per s) SWEEPS), ri_files_scanned = card (sw_files s),
          ri_truncated = False\<rparr>)"

definition category_named :: "recon_inventory \<Rightarrow> string \<Rightarrow> recon_category option" where
  "category_named iv name = List.find (\<lambda>c. rc_name c = name) (ri_categories iv)"

text \<open>\<open>f"{text:20}"\<close> and \<open>f"{n:>6}"\<close>.\<close>

definition pad_name :: "nat \<Rightarrow> string \<Rightarrow> string" where
  "pad_name n t = t @ replicate (n - length t) CHR 0x20"

definition pad_left :: "nat \<Rightarrow> string \<Rightarrow> string" where
  "pad_left n t = replicate (n - length t) CHR 0x20 @ t"

definition summarise_recon :: "recon_inventory \<Rightarrow> string" where
  "summarise_recon iv =
     join [CHR 0x0A]
       ((show_nat (ri_files_scanned iv) @ '' files swept'')
        # map (\<lambda>c. ''  '' @ pad_name 20 (rc_name c) @ '' '' @ pad_left 6 (show_nat (rc_distinct c)) @ '' distinct (''
              @ pad_left 7 (show_nat (rc_total c)) @ '' total), '' @ show_nat (length (rc_samples c)) @ '' sampled'')
            (ri_categories iv))"

subsection \<open>Facts\<close>

text \<open>What one category was given: the found values with their places, in order.\<close>

definition hits :: "string \<Rightarrow> found_string list \<Rightarrow> found_string list" where
  "hits name strings = concat (map (\<lambda>x. case claim_by SWEEPS (fst x) of
     Some (n, found) \<Rightarrow> if n = name then [(found, snd x)] else [] | None \<Rightarrow> []) strings)"

lemma hits_append: "hits name (xs @ ys) = hits name xs @ hits name ys"
  by (simp add: hits_def)

lemma tally_snoc: "tally f (xs @ [x]) = dict_incr (f x) (tally f xs)"
  by (simp add: tally_def)

lemma dict_first_snoc: "dict_first f g (xs @ [x]) = dict_setdefault (f x) (g x) (dict_first f g xs)"
  by (simp add: dict_first_def)

lemma sweep_string_fields:
  "sw_counters (sweep_string SWEEPS x s) name = fold (\<lambda>h. dict_incr (fst h)) (hits name [x]) (sw_counters s name)"
  "sw_locations (sweep_string SWEEPS x s) name =
     fold (\<lambda>h. dict_setdefault (fst h) (snd h)) (hits name [x]) (sw_locations s name)"
  "sw_files (sweep_string SWEEPS x s) = insert (fst (snd x)) (sw_files s)"
  by (auto simp: sweep_string_def hits_def Let_def split: option.split)

lemma hits_Cons: "hits name (x # xs) = hits name [x] @ hits name xs"
  by (simp add: hits_def)

lemma sweep_fold:
  "sw_counters (fold (sweep_string SWEEPS) strings s) name = fold (\<lambda>h. dict_incr (fst h)) (hits name strings) (sw_counters s name)"
  "sw_locations (fold (sweep_string SWEEPS) strings s) name =
     fold (\<lambda>h. dict_setdefault (fst h) (snd h)) (hits name strings) (sw_locations s name)"
  "sw_files (fold (sweep_string SWEEPS) strings s) = (\<lambda>x. fst (snd x)) ` set strings \<union> sw_files s"
proof (induction strings arbitrary: s)
  case (Cons x xs)
  { case 1 show ?case unfolding hits_Cons [of name x xs] by (simp add: Cons sweep_string_fields) }
  { case 2 show ?case unfolding hits_Cons [of name x xs] by (simp add: Cons sweep_string_fields) }
  { case 3 show ?case by (simp add: Cons sweep_string_fields) }
qed (simp_all add: hits_def)

lemma sample_loop_take:
  "length samples < max_per \<Longrightarrow> sample_loop max_per locs samples kvs =
     samples @ map (\<lambda>kv. \<lparr>rs_value = fst kv, rs_occurrences = snd kv, rs_place = the (map_of locs (fst kv))\<rparr>)
       (take (max_per - length samples) (filter (\<lambda>kv. snd kv \<le> UBIQUITY_THRESHOLD) kvs))"
proof (induction kvs arbitrary: samples)
  case (Cons kv kvs)
  obtain k n where kv: "kv = (k, n)" by fastforce
  show ?case
  proof (cases "n \<le> UBIQUITY_THRESHOLD \<and> Suc (length samples) < max_per")
    case True
    have "take (max_per - length samples) (kv # xs) = kv # take (max_per - Suc (length samples)) xs" for xs
      using Cons.prems by (simp add: take_Cons' diff_Suc split: nat.split)
    with True Cons.IH [of "samples @ [\<lparr>rs_value = k, rs_occurrences = n, rs_place = the (map_of locs k)\<rparr>]"]
    show ?thesis by (simp add: kv Let_def)
  next
    case False
    with Cons show ?thesis by (cases "max_per - length samples") (auto simp: kv Let_def le_Suc_eq)
  qed
qed simp

lemma tally_Nil_iff: "tally f xs = [] \<longleftrightarrow> xs = []"
  using tally_total [of f xs] by (auto simp: tally_def)

lemma tally_length: "length (tally f xs) = card (f ` set xs)"
  using distinct_card [OF tally_distinct [of f xs]] tally_keys [of f xs] by simp

text \<open>What the inventory should say about one category: how many strings it claimed, how many values
  those are, and the rarest of the values that are not ubiquitous, each with its first place.\<close>

definition rarest :: "nat \<Rightarrow> found_string list \<Rightarrow> (string \<times> nat) list" where
  "rarest max_per hs = take max_per (filter (\<lambda>kv. snd kv \<le> UBIQUITY_THRESHOLD) (sort_key rank_key (tally fst hs)))"

definition first_place :: "found_string list \<Rightarrow> string \<Rightarrow> place" where
  "first_place hs v = snd (hd (filter (\<lambda>h. fst h = v) hs))"

definition category_spec :: "found_string list \<Rightarrow> sweep_probe \<Rightarrow> recon_category list" where
  "category_spec hs p =
     (if hs = [] then []
      else [\<lparr>rc_name = sp_name p, rc_rationale = sp_why p, rc_total = length hs, rc_distinct = card (fst ` set hs),
             rc_samples = map (\<lambda>kv. \<lparr>rs_value = fst kv, rs_occurrences = length (filter (\<lambda>h. fst h = fst kv) hs),
                                    rs_place = first_place hs (fst kv)\<rparr>) (rarest MAX_PER_CATEGORY hs)\<rparr>])"

lemma tally_mem:
  "kv \<in> set (tally f xs) \<Longrightarrow> fst kv \<in> f ` set xs \<and> snd kv = length (filter (\<lambda>x. f x = fst kv) xs)"
  using tally_get [of f xs "fst kv"] tally_distinct [of f xs]
  by (metis map_of_eq_Some_iff option.distinct(1) option.inject prod.collapse)

lemma find_hd: "x \<in> set xs \<Longrightarrow> P x \<Longrightarrow> List.find P xs = Some (hd (filter P xs))"
  by (induction xs) auto

lemma inventory_core:
  "sweep strings MAX_PER_CATEGORY =
     \<lparr>ri_categories = concat (map (\<lambda>p. category_spec (hits (sp_name p) strings) p) SWEEPS),
      ri_files_scanned = card ((\<lambda>x. fst (snd x)) ` set strings), ri_truncated = False\<rparr>"
proof -
  define s where "s = fold (sweep_string SWEEPS) strings
      \<lparr>sw_counters = (\<lambda>_. []), sw_locations = (\<lambda>_. []), sw_files = {}\<rparr>"
  have "category_of MAX_PER_CATEGORY s p = category_spec (hits (sp_name p) strings) p" for p
  proof -
    let ?hs = "hits (sp_name p) strings"
    have counter: "sw_counters s (sp_name p) = tally fst ?hs"
      and locs: "sw_locations s (sp_name p) = dict_first fst snd ?hs"
      by (simp_all add: s_def sweep_fold tally_def dict_first_def)
    have place: "the (map_of (dict_first fst snd ?hs) (fst kv)) = first_place ?hs (fst kv)"
      and count: "snd kv = length (filter (\<lambda>h. fst h = fst kv) ?hs)" if "kv \<in> set (rarest MAX_PER_CATEGORY ?hs)" for kv
    proof -
      have kv: "kv \<in> set (tally fst ?hs)" using that by (auto simp: rarest_def dest: in_set_takeD)
      from tally_mem [OF this] show "snd kv = length (filter (\<lambda>h. fst h = fst kv) ?hs)" by blast
      from tally_mem [OF kv] obtain h where "h \<in> set ?hs" "fst h = fst kv" by auto
      then show "the (map_of (dict_first fst snd ?hs) (fst kv)) = first_place ?hs (fst kv)"
        using find_hd [of h ?hs "\<lambda>h. fst h = fst kv"] by (simp add: dict_first_get first_place_def)
    qed
    have "sample_loop MAX_PER_CATEGORY (dict_first fst snd ?hs) [] (sort_key rank_key (tally fst ?hs)) =
        map (\<lambda>kv. \<lparr>rs_value = fst kv, rs_occurrences = snd kv, rs_place = the (map_of (dict_first fst snd ?hs) (fst kv))\<rparr>)
          (rarest MAX_PER_CATEGORY ?hs)"
      by (simp add: sample_loop_take rarest_def MAX_PER_CATEGORY_def)
    also have "\<dots> = map (\<lambda>kv. \<lparr>rs_value = fst kv, rs_occurrences = length (filter (\<lambda>h. fst h = fst kv) ?hs),
          rs_place = first_place ?hs (fst kv)\<rparr>) (rarest MAX_PER_CATEGORY ?hs)"
      by (rule map_cong [OF refl]) (simp add: place count)
    finally show ?thesis
      by (simp add: category_of_def category_spec_def counter locs Let_def tally_Nil_iff tally_total tally_length)
  qed
  then have "category_of MAX_PER_CATEGORY s = (\<lambda>p. category_spec (hits (sp_name p) strings) p)" by (rule ext)
  then have "ri_categories (sweep strings MAX_PER_CATEGORY) = concat (map (\<lambda>p. category_spec (hits (sp_name p) strings) p) SWEEPS)"
    unfolding sweep_def s_def [symmetric] Let_def by simp
  moreover have "ri_files_scanned (sweep strings MAX_PER_CATEGORY) = card ((\<lambda>x. fst (snd x)) ` set strings)"
    "ri_truncated (sweep strings MAX_PER_CATEGORY) = False"
    by (simp_all add: sweep_def Let_def sweep_fold)
  ultimately show ?thesis by (cases "sweep strings MAX_PER_CATEGORY") simp
qed

text \<open>C24: The inventory is exactly what it promises: for every category, in the order of the probes, the
  number of strings it claimed first, the number of distinct values, and the rarest values that occur at
  most forty times with their true counts and first places.\<close>

theorem inventory_is_exact:
  "sweep strings MAX_PER_CATEGORY =
     \<lparr>ri_categories = concat (map (\<lambda>p. category_spec (hits (sp_name p) strings) p) SWEEPS),
      ri_files_scanned = card ((\<lambda>x. fst (snd x)) ` set strings), ri_truncated = False\<rparr>"
  by (rule inventory_core)

lemma claim_name: "claim_by ps v = Some (n, f) \<Longrightarrow> n \<in> sp_name ` set ps"
  by (induction ps) (auto split: option.splits)

lemma hits_length:
  fixes ps :: "sweep_probe list"
  assumes "distinct (map sp_name ps)" "sp_name ` set SWEEPS = sp_name ` set ps"
  shows "sum_list (map (\<lambda>p. length (hits (sp_name p) strings)) ps) = length (filter (\<lambda>x. claim_by SWEEPS (fst x) \<noteq> None) strings)"
proof (induction strings)
  case Nil
  then show ?case by (simp add: hits_def)
next
  case (Cons x xs)
  have one: "sum_list (map (\<lambda>p. if n = sp_name p then 1 else 0) qs) = (if n \<in> sp_name ` set qs then 1 else (0::nat))"
    if "distinct (map sp_name qs)" for n and qs :: "sweep_probe list"
    using that by (induction qs) auto
  have len: "length (hits (sp_name p) [x]) = (case claim_by SWEEPS (fst x) of None \<Rightarrow> 0
      | Some (n, f) \<Rightarrow> if n = sp_name p then 1 else 0)" for p
    by (auto simp: hits_def split: option.split)
  have "sum_list (map (\<lambda>p. length (hits (sp_name p) [x])) ps) = (if claim_by SWEEPS (fst x) \<noteq> None then 1 else 0)"
  proof (cases "claim_by SWEEPS (fst x)")
    case (Some nf)
    obtain n f where nf: "nf = (n, f)" by fastforce
    with Some claim_name [of SWEEPS "fst x" n f] assms(2) have "n \<in> sp_name ` set ps" by simp
    with one [OF assms(1), of n] Some nf show ?thesis by (simp add: len)
  qed (simp add: len)
  moreover have "sum_list (map (\<lambda>p. length (hits (sp_name p) (x # xs))) ps) =
      sum_list (map (\<lambda>p. length (hits (sp_name p) [x])) ps) + sum_list (map (\<lambda>p. length (hits (sp_name p) xs)) ps)"
    by (subst hits_Cons) (simp add: sum_list_addf)
  ultimately show ?case using Cons by simp
qed

text \<open>Recon claims every string once: the totals of the categories add up to the number of strings
  some probe matches.\<close>

theorem recon_counts_every_string_once:
  "sum_list (map rc_total (ri_categories (sweep strings MAX_PER_CATEGORY)))
     = length (filter (\<lambda>x. claim_by SWEEPS (fst x) \<noteq> None) strings)"
proof -
  have "sum_list (map rc_total (concat (map (\<lambda>p. category_spec (hits (sp_name p) strings) p) ps))) =
      sum_list (map (\<lambda>p. length (hits (sp_name p) strings)) ps)" for ps
    by (induction ps) (simp_all add: category_spec_def)
  moreover have "distinct (map sp_name SWEEPS)" by (simp add: SWEEPS_def mk_probe_def)
  ultimately show ?thesis by (simp add: inventory_core hits_length)
qed

text \<open>A value that is left out of the samples, though it is not ubiquitous, is no rarer than any that is shown.\<close>

lemma left_out_is_no_rarer:
  assumes "kv \<in> set (tally fst hs)" "snd kv \<le> UBIQUITY_THRESHOLD" "kv \<notin> set (rarest max_per hs)"
  shows "length (rarest max_per hs) = max_per" "\<forall>kv' \<in> set (rarest max_per hs). rank_key kv' \<le> rank_key kv"
proof -
  let ?xs = "filter (\<lambda>kv. snd kv \<le> UBIQUITY_THRESHOLD) (sort_key rank_key (tally fst hs))"
  have srt: "sorted (map rank_key ?xs)" by (simp add: sorted_filter)
  have split: "?xs = take max_per ?xs @ drop max_per ?xs" by simp
  have "kv \<in> set ?xs" using assms(1,2) by simp
  with assms(3) have rest: "kv \<in> set (drop max_per ?xs)"
    unfolding rarest_def by (metis Un_iff append_take_drop_id set_append)
  then have "max_per < length ?xs" by (cases "length ?xs \<le> max_per") auto
  then show "length (rarest max_per hs) = max_per" by (simp add: rarest_def)
  show "\<forall>kv' \<in> set (rarest max_per hs). rank_key kv' \<le> rank_key kv"
    using srt rest by (subst (asm) split) (auto simp: sorted_append rarest_def simp del: append_take_drop_id)
qed

end
