(* ===== verification/Composition.thy ===== *)
theory Composition
  imports Rules_Recon Stage_Logs
begin

text \<open>
  What an artifact declares itself to be made of (\<open>core/composition/model.py\<close>,
  \<open>core/composition/detect.py\<close>): components, their package URLs, the manifests they are read from
  and the inventory of a tree. \<open>json.loads\<close> is a parameter with its three outcomes. The length limits
  of the patterns count bytes, which are the characters of ASCII text.
\<close>

subsection \<open>Components\<close>

datatype ecosystem = NPM | NUGET | PYPI | GOLANG | CARGO | MAVEN | GEM | GENERIC

fun ecosystem_value :: "ecosystem \<Rightarrow> string" where
  "ecosystem_value NPM = ''npm''"
| "ecosystem_value NUGET = ''nuget''"
| "ecosystem_value PYPI = ''pypi''"
| "ecosystem_value GOLANG = ''golang''"
| "ecosystem_value CARGO = ''cargo''"
| "ecosystem_value MAVEN = ''maven''"
| "ecosystem_value GEM = ''gem''"
| "ecosystem_value GENERIC = ''generic''"

datatype confidence = DECLARED | EMBEDDED | INFERRED

fun confidence_value :: "confidence \<Rightarrow> string" where
  "confidence_value DECLARED = ''declared''"
| "confidence_value EMBEDDED = ''embedded''"
| "confidence_value INFERRED = ''inferred''"

record component =
  cp_name :: string
  cp_version :: string
  cp_ecosystem :: ecosystem
  cp_confidence :: confidence
  cp_path_in_tree :: string
  cp_licence :: string
  cp_evidence :: string

text \<open>\<open>ord\<close> of one character of a UTF-8 text.\<close>

definition char_code :: "string \<Rightarrow> nat" where
  "char_code u =
     (case map (of_char :: char \<Rightarrow> nat) u of
        [] \<Rightarrow> 0
      | b # bs \<Rightarrow> foldl (\<lambda>n c. n * 64 + c mod 64)
          (if b < 128 then b else if b < 0xE0 then b mod 32 else if b < 0xF0 then b mod 16 else b mod 8) bs)"

definition upper_hex_digit :: "nat \<Rightarrow> char" where
  "upper_hex_digit n = (if n < 10 then char_of (48 + n) else char_of (55 + n))"

fun show_HEX :: "nat \<Rightarrow> string" where
  "show_HEX n = (if n < 16 then [upper_hex_digit n] else show_HEX (n div 16) @ [upper_hex_digit (n mod 16)])"

declare show_HEX.simps [simp del]

text \<open>\<open>f"%{n:02X}"\<close>.\<close>

definition percent :: "nat \<Rightarrow> string" where
  "percent n = CHR ''%'' # (if n < 16 then ''0'' else []) @ show_HEX n"

definition purl_safe :: "char \<Rightarrow> bool" where
  "purl_safe c \<longleftrightarrow> is_letter c \<or> is_digit c \<or> c = CHR 0x27 \<or> c \<in> set ''._~!$&()*+,;=:/-''"

definition purl_char :: "string \<Rightarrow> string" where
  "purl_char u = (case u of [c] \<Rightarrow> if purl_safe c then [c] else percent (char_code u) | _ \<Rightarrow> percent (char_code u))"

definition purl_quote :: "string \<Rightarrow> string" where
  "purl_quote t = concat (map purl_char (utf8_chars t))"

definition before_slash :: "string \<Rightarrow> string" where
  "before_slash t = takeWhile (\<lambda>c. c \<noteq> CHR ''/'') t"

definition after_slash :: "string \<Rightarrow> string" where
  "after_slash t = tl (dropWhile (\<lambda>c. c \<noteq> CHR ''/'') t)"

definition split_name :: "ecosystem \<Rightarrow> string \<Rightarrow> string \<times> string" where
  "split_name eco name =
     (if eco = NPM \<and> starts_with ''@'' name \<and> CHR ''/'' \<in> set name then (before_slash name, after_slash name)
      else if eco = GOLANG \<and> CHR ''/'' \<in> set name
      then (rev (after_slash (rev name)), rev (before_slash (rev name)))
      else ([], name))"

definition purl :: "component \<Rightarrow> string" where
  "purl c =
     (let (namespace, name) = split_name (cp_ecosystem c) (cp_name c) in
      ''pkg:'' @ ecosystem_value (cp_ecosystem c) @ ''/''
      @ (if namespace \<noteq> [] then purl_quote namespace @ ''/'' else [])
      @ purl_quote name
      @ (if cp_version c \<noteq> [] then ''@'' @ purl_quote (cp_version c) else []))"

definition component_key :: "component \<Rightarrow> string \<times> string \<times> string" where
  "component_key c = (ecosystem_value (cp_ecosystem c), cp_name c, cp_version c)"

subsection \<open>Reading manifests\<close>

definition MAX_MANIFEST_BYTES :: nat where "MAX_MANIFEST_BYTES = 512 * 1024"
definition MAX_COMPONENTS :: nat where "MAX_COMPONENTS = 50000"

record tree_file =
  tf_path :: string
  tf_path_in_tree :: string
  tf_content :: "string + bytes"

datatype json_outcome = Parsed pyval | Bad_Json | Too_Deep

datatype analysis_error = Recursion_Error

definition clean :: "pyval \<Rightarrow> string" where
  "clean v =
     (let t = py_strip (if py_truthy v then py_str v else []) in
      if t \<noteq> [] \<and> py_lower t \<notin> {''unknown'', ''none'', ''null''} then t else [])"

definition NOT_AN_EXPRESSION :: regex where
  "NOT_AN_EXPRESSION = Alt (seqs [Bos, Alt (seqs [lit ''see'', space_re]) (seqs [Rep 0 (Some 2) (exactly ''.''), exactly ''/''])])
     (seqs [exactly ''.'', alts (map lit [''md'', ''txt'', ''html'']), Eos])"

definition as_spdx_expression :: "string \<Rightarrow> string" where
  "as_spdx_expression t = (if search_re NOT_AN_EXPRESSION t then [] else t)"

definition licence_from :: "(pyval \<times> pyval) list \<Rightarrow> string" where
  "licence_from d =
     (let first = pd_get_or d ''license'' PNone; raw = (if py_truthy first then first else pd_get_or d ''licence'' PNone) in
      case raw of
        PStr t \<Rightarrow> as_spdx_expression (clean raw)
      | PDict kvs \<Rightarrow> as_spdx_expression (clean (pd_get_or kvs ''type'' PNone))
      | PList (PDict kvs # xs) \<Rightarrow> as_spdx_expression (clean (pd_get_or kvs ''type'' PNone))
      | PList (x # xs) \<Rightarrow> as_spdx_expression (clean x)
      | _ \<Rightarrow> [])"

text \<open>\<open>read_text\<close>: UTF-8 with replacement, line ends translated.\<close>

fun newlines :: "string \<Rightarrow> string" where
  "newlines [] = []"
| "newlines (c # cs) =
     (if c = CHR 0x0D then CHR 0x0A # (case cs of d # ds \<Rightarrow> if d = CHR 0x0A then newlines ds else newlines cs | [] \<Rightarrow> [])
      else c # newlines cs)"

definition manifest_text :: "tree_file \<Rightarrow> string option" where
  "manifest_text f =
     (case tf_content f of
        Inl exc \<Rightarrow> None
      | Inr content \<Rightarrow> if length content > MAX_MANIFEST_BYTES then None else Some (newlines (utf8_replace content)))"

definition declared :: "string \<Rightarrow> string \<Rightarrow> ecosystem \<Rightarrow> string \<Rightarrow> string \<Rightarrow> string \<Rightarrow> component" where
  "declared name version eco path licence evidence =
     \<lparr>cp_name = name, cp_version = version, cp_ecosystem = eco, cp_confidence = DECLARED, cp_path_in_tree = path,
      cp_licence = licence, cp_evidence = evidence\<rparr>"

definition from_package_json :: "(string \<Rightarrow> json_outcome) \<Rightarrow> tree_file \<Rightarrow> analysis_error + component option" where
  "from_package_json loads f =
     (case manifest_text f of
        None \<Rightarrow> Inr None
      | Some t \<Rightarrow>
          (case loads t of
             Bad_Json \<Rightarrow> Inr None
           | Too_Deep \<Rightarrow> Inl Recursion_Error
           | Parsed (PDict d) \<Rightarrow>
               (let name = clean (pd_get_or d ''name'' PNone); version = clean (pd_get_or d ''version'' PNone) in
                if name = [] \<or> version = [] then Inr None
                else Inr (Some (declared name version NPM (tf_path_in_tree f) (licence_from d) ''package.json'')))
           | Parsed _ \<Rightarrow> Inr None))"

definition tag_re :: "regex \<Rightarrow> nat \<Rightarrow> string \<Rightarrow> parts" where
  "tag_re opening limit closing =
     [(False, seqs [opening, Rep 0 None space_re]), (True, Rep 1 (Some limit) (Cls (\<lambda>c. c \<noteq> CHR ''<''))), (False, lit closing)]"

definition licence_text :: "string option \<Rightarrow> string" where
  "licence_text g = (case g of Some t \<Rightarrow> as_spdx_expression (clean (PStr t)) | None \<Rightarrow> [])"

definition from_nuspec :: "tree_file \<Rightarrow> component option" where
  "from_nuspec f =
     (case manifest_text f of
        None \<Rightarrow> None
      | Some t \<Rightarrow>
          (case (search_group (tag_re (lit ''<id>'') 200 ''</id>'') t,
                 search_group (tag_re (lit ''<version>'') 80 ''</version>'') t) of
             (Some name, Some version) \<Rightarrow>
               Some (declared (clean (PStr name)) (clean (PStr version)) NUGET (tf_path_in_tree f)
                 (licence_text (search_group
                    (tag_re (seqs [lit ''<license'', Rep 0 None (Cls (\<lambda>c. c \<noteq> CHR ''>'')), exactly ''>'']) 120 ''</license>'') t))
                 ''.nuspec'')
           | _ \<Rightarrow> None))"

definition header_re :: "string \<Rightarrow> parts" where
  "header_re field = [(False, seqs [Bol, exactly field, exactly '':'', Rep 0 None space_re]),
     (True, Rep 1 None (Cls (\<lambda>c. c \<noteq> CHR 0x0A))), (False, Eol)]"

definition from_python_metadata :: "tree_file \<Rightarrow> component option" where
  "from_python_metadata f =
     (case manifest_text f of
        None \<Rightarrow> None
      | Some t \<Rightarrow>
          (case (search_group (header_re ''Name'') t, search_group (header_re ''Version'') t) of
             (Some name, Some version) \<Rightarrow>
               Some (declared (clean (PStr name)) (clean (PStr version)) PYPI (tf_path_in_tree f)
                 (licence_text (search_group (header_re ''License'') t)) ''dist-info METADATA'')
           | _ \<Rightarrow> None))"

definition GO_DEP_LINE :: parts where
  "GO_DEP_LINE = [(False, seqs [Alt (exactly ''dep'') (exactly ''mod''), exactly [CHR 0x09]]),
     (True, Rep 3 (Some 180) (Cls (\<lambda>c. word_char c \<or> c \<in> set ''./+~-''))),
     (False, exactly [CHR 0x09]),
     (True, seqs [exactly ''v'', Rep 1 (Some 60) (Cls (\<lambda>c. word_char c \<or> c \<in> set ''.+~-''))])]"

fun go_modules :: "(string \<times> string) list \<Rightarrow> string list list \<Rightarrow> (string \<times> string) list" where
  "go_modules seen ([name, version] # ms) =
     (if (name, version) \<in> set seen \<or> CHR ''.'' \<notin> set name then go_modules seen ms
      else (name, version) # go_modules ((name, version) # seen) ms)"
| "go_modules seen (_ # ms) = go_modules seen ms"
| "go_modules seen [] = []"

definition from_go_binary :: "tree_file \<Rightarrow> component list" where
  "from_go_binary f =
     (case tf_content f of
        Inl exc \<Rightarrow> []
      | Inr content \<Rightarrow>
          (let text_of = latin1 (take (64 * 1024 * 1024) content) in
           if \<not> contains ''Go buildinf:'' text_of then []
           else map (\<lambda>(name, version). declared name version GOLANG (tf_path_in_tree f) [] ''Go buildinfo'')
                  (go_modules [] (finditer_parts GO_DEP_LINE text_of))))"

definition file_name :: "string \<Rightarrow> string" where
  "file_name path = last (split_on CHR ''/'' path)"

definition detect_in_file :: "(string \<Rightarrow> json_outcome) \<Rightarrow> tree_file \<Rightarrow> analysis_error + component list" where
  "detect_in_file loads f =
     (let name = py_lower (file_name (tf_path f)); found = (\<lambda>c. case c of Some x \<Rightarrow> [x] | None \<Rightarrow> []) in
      if name = ''package.json'' then bind_e (from_package_json loads f) (\<lambda>c. Inr (found c))
      else if name = ''metadata'' then
        (if \<not> contains ''.dist-info'' (py_lower (tf_path_in_tree f)) then Inr [] else Inr (found (from_python_metadata f)))
      else if ends_with ''.nuspec'' name then Inr (found (from_nuspec f))
      else (case tf_content f of
              Inl exc \<Rightarrow> Inr []
            | Inr content \<Rightarrow>
                if length content > 1000000
                   \<and> (starts_with (bytes_of (CHR 0x7F # ''ELF'')) (take 4 content) \<or> starts_with (bytes_of ''MZ'') (take 4 content))
                then Inr (from_go_binary f) else Inr []))"

record component_inventory =
  ci_components :: "component list"
  ci_files_examined :: nat
  ci_truncated :: bool

definition add_component :: "component \<Rightarrow> (string \<times> string \<times> string, component) dict \<Rightarrow> (string \<times> string \<times> string, component) dict" where
  "add_component c seen = dict_setdefault (component_key c) c seen"

fun walk_files ::
  "(string \<Rightarrow> json_outcome) \<Rightarrow> nat \<Rightarrow> tree_file list \<Rightarrow> (string \<times> string \<times> string, component) dict
     \<Rightarrow> analysis_error + (string \<times> string \<times> string, component) dict \<times> bool" where
  "walk_files loads max_components [] seen = Inr (seen, False)"
| "walk_files loads max_components (f # fs) seen =
     (if length seen \<ge> max_components then Inr (seen, True)
      else bind_e (detect_in_file loads f) (\<lambda>cs. walk_files loads max_components fs (fold add_component cs seen)))"

definition component_sort_key :: "component \<Rightarrow> string \<times> string \<times> string" where
  "component_sort_key c = (ecosystem_value (cp_ecosystem c), py_lower (cp_name c), cp_version c)"

definition component_list :: "(string \<Rightarrow> json_outcome) \<Rightarrow> nat \<Rightarrow> tree_file list \<Rightarrow> analysis_error + component_inventory" where
  "component_list loads max_components files =
     bind_e (walk_files loads max_components files []) (\<lambda>(seen, truncated).
       Inr \<lparr>ci_components = sort_key component_sort_key (map snd seen), ci_files_examined = length files,
            ci_truncated = truncated\<rparr>)"

definition components_dict :: "component_inventory \<Rightarrow> pyval" where
  "components_dict iv =
     PDict [(PStr ''files_examined'', PInt (int (ci_files_examined iv))), (PStr ''truncated'', PBool (ci_truncated iv)),
       (PStr ''components'', PList (map (\<lambda>c. PDict
          [(PStr ''name'', PStr (cp_name c)), (PStr ''version'', PStr (cp_version c)),
           (PStr ''ecosystem'', PStr (ecosystem_value (cp_ecosystem c))),
           (PStr ''confidence'', PStr (confidence_value (cp_confidence c))), (PStr ''purl'', PStr (purl c)),
           (PStr ''licence'', PStr (cp_licence c)), (PStr ''path_in_tree'', PStr (cp_path_in_tree c)),
           (PStr ''evidence'', PStr (cp_evidence c))]) (ci_components iv)))]"

definition by_ecosystem :: "component_inventory \<Rightarrow> (string, nat) dict" where
  "by_ecosystem iv = tally (\<lambda>c. ecosystem_value (cp_ecosystem c)) (ci_components iv)"

subsection \<open>Package URLs identify components\<close>

definition ascii :: "string \<Rightarrow> bool" where
  "ascii t \<longleftrightarrow> list_all (\<lambda>c. (of_char c :: nat) < 128) t"

lemma utf8_chars_ascii: "ascii t \<Longrightarrow> utf8_chars t = map (\<lambda>c. [c]) t"
  by (induction t) (auto simp: ascii_def is_cont_def Let_def split: list.split)

lemma char_code_one: "(of_char c :: nat) < 128 \<Longrightarrow> char_code [c] = of_char c"
  by (simp add: char_code_def)

lemma purl_quote_append: "ascii a \<Longrightarrow> ascii b \<Longrightarrow> purl_quote (a @ b) = purl_quote a @ purl_quote b"
  by (simp add: purl_quote_def utf8_chars_ascii ascii_def)

lemma purl_quote_Cons:
  "ascii (c # t) \<Longrightarrow> purl_quote (c # t) = (if purl_safe c then [c] else percent (of_char c)) @ purl_quote t"
  unfolding purl_quote_def
  by (subst utf8_chars_ascii, assumption, subst utf8_chars_ascii) (simp_all add: ascii_def purl_char_def char_code_one)

definition hex_value :: "char \<Rightarrow> nat" where
  "hex_value c = (let n = (of_char c :: nat) in if n < 65 then n - 48 else n - 55)"

lemma hex_value_digit: "n < 16 \<Longrightarrow> hex_value (upper_hex_digit n) = n"
  by (auto simp: hex_value_def upper_hex_digit_def Let_def)

lemma percent_digits: "n < 256 \<Longrightarrow> percent n = [CHR ''%'', upper_hex_digit (n div 16), upper_hex_digit (n mod 16)]"
  by (auto simp: percent_def show_HEX.simps [of n] show_HEX.simps [of "n div 16"] upper_hex_digit_def)
    (simp_all add: char_of_def bit_0)

fun unquote :: "string \<Rightarrow> string" where
  "unquote [] = []"
| "unquote (c # cs) =
     (if c = CHR ''%'' then (case cs of a # b # ds \<Rightarrow> char_of (16 * hex_value a + hex_value b) # unquote ds | _ \<Rightarrow> [])
      else c # unquote cs)"

lemma percent_unsafe: "\<not> purl_safe CHR ''%''" "\<not> purl_safe CHR ''@''" "purl_safe CHR ''/''"
  by (simp_all add: purl_safe_def is_letter_def is_upper_def is_lower_def is_digit_def)

lemma unquote_quote: "ascii t \<Longrightarrow> unquote (purl_quote t) = t"
proof (induction t)
  case Nil
  then show ?case by (simp add: purl_quote_def)
next
  case (Cons c t)
  then have c: "(of_char c :: nat) < 128" and t: "ascii t" by (simp_all add: ascii_def)
  show ?case
  proof (cases "purl_safe c")
    case True
    then have "c \<noteq> CHR ''%''" using percent_unsafe by metis
    with True Cons t show ?thesis by (simp add: purl_quote_Cons)
  next
    case False
    with Cons t c show ?thesis by (simp add: purl_quote_Cons percent_digits hex_value_digit)
  qed
qed

lemma no_at: "CHR ''@'' \<notin> set (purl_quote t)"
proof -
  have digit: "upper_hex_digit n \<noteq> CHR ''@''" if "n < 16" for n
  proof
    assume "upper_hex_digit n = CHR ''@''"
    then have "hex_value (upper_hex_digit n) = hex_value CHR ''@''" by simp
    moreover have "hex_value CHR ''@'' = 16" by (simp add: hex_value_def)
    ultimately show False using that hex_value_digit [OF that] by simp
  qed
  have "CHR ''@'' \<notin> set (show_HEX n)" for n
    by (induction n rule: show_HEX.induct) (subst show_HEX.simps, auto simp: digit [symmetric])
  then have "CHR ''@'' \<notin> set (percent n)" for n by (auto simp: percent_def)
  then have "CHR ''@'' \<notin> set (purl_char u)" for u
    using percent_unsafe(2) by (auto simp: purl_char_def split: list.split)
  then show ?thesis by (auto simp: purl_quote_def)
qed

lemma slash_parts: "CHR ''/'' \<in> set t \<Longrightarrow> before_slash t @ ''/'' @ after_slash t = t"
proof (induction t)
  case (Cons c t)
  then show ?case by (cases "c = CHR ''/''") (simp_all add: before_slash_def after_slash_def)
qed simp

text \<open>A name that starts with a slash would lose its empty namespace.\<close>

definition proper_name :: "component \<Rightarrow> bool" where
  "proper_name c \<longleftrightarrow> ascii (cp_name c) \<and> ascii (cp_version c) \<and> \<not> starts_with ''/'' (cp_name c)"

lemma ascii_append: "ascii (a @ b) \<longleftrightarrow> ascii a \<and> ascii b"
  by (simp add: ascii_def)

lemma ascii_slash: "ascii ''/''"
  by (simp add: ascii_def)

lemma purl_flat:
  assumes "proper_name c"
  shows "purl c = ''pkg:'' @ ecosystem_value (cp_ecosystem c) @ ''/'' @ purl_quote (cp_name c)
     @ (if cp_version c \<noteq> [] then ''@'' @ purl_quote (cp_version c) else [])"
proof -
  let ?name = "cp_name c"
  have glue: "purl_quote a @ ''/'' @ purl_quote b = purl_quote ?name" if "a @ ''/'' @ b = ?name" for a b
  proof -
    from assms that have "ascii a" "ascii b" using ascii_append [of a "''/'' @ b"] ascii_append [of "''/''" b] by (simp_all add: proper_name_def flip: that)
    then have "purl_quote (a @ ''/'' @ b) = purl_quote a @ purl_quote (''/'' @ b)"
      by (intro purl_quote_append) (simp_all add: ascii_append ascii_slash del: append_Cons append_Nil)
    also have "purl_quote (''/'' @ b) = ''/'' @ purl_quote b"
      using \<open>ascii b\<close> by (simp add: purl_quote_Cons percent_unsafe ascii_def)
    finally show ?thesis by (simp only: that)
  qed
  have first: "a \<noteq> []" if "a @ ''/'' @ b = ?name" for a b
    using that assms by (cases a) (auto simp: proper_name_def simp flip: that)
  show ?thesis
  proof (cases "cp_ecosystem c = NPM \<and> starts_with ''@'' ?name \<and> CHR ''/'' \<in> set ?name")
    case True
    with slash_parts have p: "before_slash ?name @ ''/'' @ after_slash ?name = ?name" by blast
    from True have "split_name (cp_ecosystem c) ?name = (before_slash ?name, after_slash ?name)" by (simp add: split_name_def)
    with glue [OF p] first [OF p] show ?thesis by (simp add: purl_def)
  next
    case npm: False
    show ?thesis
    proof (cases "cp_ecosystem c = GOLANG \<and> CHR ''/'' \<in> set ?name")
      case True
      then have "before_slash (rev ?name) @ ''/'' @ after_slash (rev ?name) = rev ?name" by (intro slash_parts) simp
      then have "rev (before_slash (rev ?name) @ ''/'' @ after_slash (rev ?name)) = ?name" by simp
      then have p: "rev (after_slash (rev ?name)) @ ''/'' @ rev (before_slash (rev ?name)) = ?name" by simp
      from True have "split_name (cp_ecosystem c) ?name = (rev (after_slash (rev ?name)), rev (before_slash (rev ?name)))"
        by (simp add: split_name_def)
      with glue [OF p] first [OF p] show ?thesis by (simp add: purl_def)
    next
      case False
      with npm have "split_name (cp_ecosystem c) ?name = ([], ?name)" by (auto simp: split_name_def)
      then show ?thesis by (simp add: purl_def)
    qed
  qed
qed

lemma split_unique: "xs @ a # ys = xs' @ a # ys' \<Longrightarrow> a \<notin> set xs \<Longrightarrow> a \<notin> set xs' \<Longrightarrow> xs = xs' \<and> ys = ys'"
proof (induction xs arbitrary: xs')
  case Nil
  then show ?case by (cases xs') auto
next
  case (Cons x xs)
  then show ?case by (cases xs') auto
qed

lemma ecosystem_value_inj: "ecosystem_value a = ecosystem_value b \<Longrightarrow> a = b"
  by (cases a; cases b) simp_all

lemma no_slash: "CHR ''/'' \<notin> set (ecosystem_value e)"
  by (cases e) simp_all

lemma tail_unique:
  assumes "c \<notin> set x" "c \<notin> set y" "x @ (if p then c # u else []) = y @ (if q then c # w else [])"
  shows "x = y \<and> (p \<longleftrightarrow> q) \<and> (p \<longrightarrow> u = w)"
proof (cases p; cases q)
  assume "p" "q"
  with assms(3) have "x @ c # u = y @ c # w" by simp
  from split_unique [OF this assms(1,2)] \<open>p\<close> \<open>q\<close> show ?thesis by simp
qed (use assms in auto)

lemma purl_quote_Nil: "purl_quote [] = []"
  by (simp add: purl_quote_def)

text \<open>A package URL is a join key: ASCII components with the same URL are the same package of the
  same ecosystem at the same version, scoped names and Go module paths included.\<close>

theorem purl_identifies_component:
  assumes "proper_name a" "proper_name b" "purl a = purl b"
  shows "component_key a = component_key b"
proof -
  let ?tail = "\<lambda>c. purl_quote (cp_name c) @ (if cp_version c \<noteq> [] then ''@'' @ purl_quote (cp_version c) else [])"
  have "ecosystem_value (cp_ecosystem a) @ CHR ''/'' # ?tail a = ecosystem_value (cp_ecosystem b) @ CHR ''/'' # ?tail b"
    using assms by (simp add: purl_flat)
  from split_unique [OF this no_slash no_slash]
  have eco: "ecosystem_value (cp_ecosystem a) = ecosystem_value (cp_ecosystem b)" and tail: "?tail a = ?tail b" by blast+
  from tail have "purl_quote (cp_name a) @ (if cp_version a \<noteq> [] then CHR ''@'' # purl_quote (cp_version a) else [])
      = purl_quote (cp_name b) @ (if cp_version b \<noteq> [] then CHR ''@'' # purl_quote (cp_version b) else [])"
    by (simp only: append_Cons append_Nil)
  from tail_unique [OF no_at no_at this]
  have "purl_quote (cp_name a) = purl_quote (cp_name b)" "purl_quote (cp_version a) = purl_quote (cp_version b)"
    by (auto simp: purl_quote_Nil)
  then have q: "unquote (purl_quote (cp_name a)) = unquote (purl_quote (cp_name b))"
    "unquote (purl_quote (cp_version a)) = unquote (purl_quote (cp_version b))" by simp_all
  have "ascii (cp_name a)" "ascii (cp_name b)" "ascii (cp_version a)" "ascii (cp_version b)"
    using assms(1,2) by (simp_all add: proper_name_def)
  with q have "cp_name a = cp_name b" "cp_version a = cp_version b" by (simp_all only: unquote_quote)
  with eco show ?thesis by (simp add: component_key_def)
qed

definition sample_component :: component where
  "sample_component = declared ''@babel/parser'' ''7.26.2'' NPM ''app/package.json'' [] ''package.json''"

theorem purl_identifies_component_witness:
  "component_key sample_component = component_key (sample_component\<lparr>cp_path_in_tree := ''other''\<rparr>)"
proof (rule purl_identifies_component)
  show "proper_name sample_component" "proper_name (sample_component\<lparr>cp_path_in_tree := ''other''\<rparr>)"
    by (simp_all add: proper_name_def sample_component_def declared_def ascii_def)
  show "purl sample_component = purl (sample_component\<lparr>cp_path_in_tree := ''other''\<rparr>)"
    by (simp add: purl_def)
qed

text \<open>Beyond ASCII the URL is not a key: a character is written as its code point in hexadecimal, however
  many digits that takes, instead of its UTF-8 bytes.\<close>

lemma purl_collision:
  "purl_quote ([CHR 0xE2, CHR 0x82, CHR 0xAC]) = purl_quote '' AC''"
proof -
  have "show_HEX 8364 = ''20AC''" "show_HEX 32 = ''20''"
    by (simp_all add: show_HEX.simps upper_hex_digit_def) (simp_all add: char_of_def bit_0)
  then show ?thesis
    by (simp add: purl_quote_def is_cont_def purl_char_def char_code_def percent_def purl_safe_def is_letter_def
        is_upper_def is_lower_def is_digit_def)
qed

subsection \<open>The inventory\<close>

definition declares :: "(string \<Rightarrow> json_outcome) \<Rightarrow> tree_file list \<Rightarrow> component \<Rightarrow> bool" where
  "declares loads files c \<longleftrightarrow> (\<exists>f \<in> set files. \<exists>cs. detect_in_file loads f = Inr cs \<and> c \<in> set cs)"

lemma fold_add_component:
  "map_of (fold add_component cs seen) k =
     (case map_of seen k of Some c \<Rightarrow> Some c | None \<Rightarrow> List.find (\<lambda>c. component_key c = k) cs)"
  by (induction cs arbitrary: seen)
    (auto simp: add_component_def dict_setdefault_def update_conv split: option.splits)

lemma distinct_add_component: "distinct (map fst seen) \<Longrightarrow> distinct (map fst (fold add_component cs seen))"
  by (induction cs arbitrary: seen) (simp_all add: add_component_def dict_setdefault_def distinct_update)

definition keyed :: "(string \<Rightarrow> json_outcome) \<Rightarrow> tree_file list \<Rightarrow> (string \<times> string \<times> string, component) dict \<Rightarrow> bool" where
  "keyed loads files seen \<longleftrightarrow> distinct (map fst seen)
     \<and> (\<forall>k c. map_of seen k = Some c \<longrightarrow> component_key c = k \<and> declares loads files c)"

lemma keyed_Nil: "keyed loads files []"
  by (simp add: keyed_def)

lemma walk_keyed:
  assumes "walk_files loads m fs seen = Inr (seen', tr)" "keyed loads all seen" "set fs \<subseteq> set all"
  shows "keyed loads all seen'
    \<and> (\<forall>k c. map_of seen k = Some c \<longrightarrow> map_of seen' k = Some c)
    \<and> (\<not> tr \<longrightarrow> (\<forall>c. declares loads fs c \<longrightarrow> map_of seen' (component_key c) \<noteq> None))"
  using assms
proof (induction fs arbitrary: seen)
  case Nil
  then show ?case by (auto simp: declares_def)
next
  case (Cons f fs)
  show ?case
  proof (cases "length seen \<ge> m")
    case True
    with Cons.prems show ?thesis by simp
  next
    case False
    with Cons.prems(1) obtain cs where cs: "detect_in_file loads f = Inr cs"
      "walk_files loads m fs (fold add_component cs seen) = Inr (seen', tr)"
      by (cases "detect_in_file loads f") auto
    let ?s = "fold add_component cs seen"
    have mine: "declares loads all c" if "c \<in> set cs" for c
      using that cs(1) Cons.prems(3) by (auto simp: declares_def)
    have keyed: "keyed loads all ?s"
      using Cons.prems(2) mine unfolding keyed_def
      by (auto simp: fold_add_component distinct_add_component split: option.splits dest: find_SomeD)
    from Cons.IH [OF cs(2) keyed] Cons.prems(3)
    have ih: "keyed loads all seen'" "\<forall>k c. map_of ?s k = Some c \<longrightarrow> map_of seen' k = Some c"
      "\<not> tr \<longrightarrow> (\<forall>c. declares loads fs c \<longrightarrow> map_of seen' (component_key c) \<noteq> None)" by auto
    have kept: "map_of seen' k = Some c" if "map_of seen k = Some c" for k c
      by (rule ih(2) [rule_format]) (simp add: fold_add_component that)
    have "map_of seen' (component_key c) \<noteq> None" if "\<not> tr" "declares loads (f # fs) c" for c
    proof (cases "declares loads fs c")
      case True
      with ih(3) that(1) show ?thesis by blast
    next
      case False
      with that(2) cs(1) have "c \<in> set cs" by (auto simp: declares_def)
      then have "List.find (\<lambda>d. component_key d = component_key c) cs \<noteq> None" by (auto simp: find_None_iff)
      then have "map_of ?s (component_key c) \<noteq> None"
        by (simp add: fold_add_component split: option.split)
      then obtain c' where "map_of ?s (component_key c) = Some c'" by blast
      from ih(2) [rule_format, OF this] show ?thesis by simp
    qed
    with ih(1) kept show ?thesis by blast
  qed
qed

text \<open>The bill of materials is the set of what the tree declares: each component once by ecosystem, name
  and version, every one of them declared by a file of the tree, in canonical order, and nothing that is
  declared is missing unless the inventory says that it is truncated.\<close>

theorem inventory_lists_what_is_declared:
  assumes "component_list loads m files = Inr iv"
  shows "distinct (map component_key (ci_components iv)) \<and> sorted (map component_sort_key (ci_components iv))
    \<and> (\<forall>c \<in> set (ci_components iv). declares loads files c)
    \<and> (\<not> ci_truncated iv \<longrightarrow> component_key ` {c. declares loads files c} = component_key ` set (ci_components iv))"
proof -
  from assms obtain seen tr where w: "walk_files loads m files [] = Inr (seen, tr)"
    and iv: "ci_components iv = sort_key component_sort_key (map snd seen)" "ci_truncated iv = tr"
    by (auto simp: component_list_def bind_e_Inr_iff)
  note walk = walk_keyed [OF w keyed_Nil subset_refl]
  note k = walk [THEN conjunct1] walk [THEN conjunct2, THEN conjunct2]
  have d: "distinct (map fst seen)" using k(1) by (simp add: keyed_def)
  have mem: "component_key c = key \<and> declares loads files c" if "(key, c) \<in> set seen" for key c
  proof -
    from that d have "map_of seen key = Some c" by simp
    with k(1) show ?thesis unfolding keyed_def by blast
  qed
  then have keys: "map component_key (map snd seen) = map fst seen" by (auto intro: map_cong)
  have "distinct (map component_key (sort_key component_sort_key (map snd seen)))"
    using d keys by (metis mset_eq_imp_distinct_iff mset_map mset_sort)
  moreover have "component_key ` {c. declares loads files c} = component_key ` set (map snd seen)" if "\<not> tr"
  proof
    show "component_key ` {c. declares loads files c} \<subseteq> component_key ` set (map snd seen)"
    proof
      fix key assume "key \<in> component_key ` {c. declares loads files c}"
      then obtain c where c: "key = component_key c" "declares loads files c" by blast
      from k(2) [rule_format, OF that c(2)] obtain c' where "map_of seen key = Some c'" unfolding c(1) by blast
      then have "(key, c') \<in> set seen" by (rule map_of_SomeD)
      then have "component_key c' = key" "c' \<in> set (map snd seen)" using mem by (blast, force)
      then show "key \<in> component_key ` set (map snd seen)" by blast
    qed
    show "component_key ` set (map snd seen) \<subseteq> component_key ` {c. declares loads files c}"
      using mem by auto
  qed
  ultimately show ?thesis using mem by (auto simp: iv)
qed

text \<open>A manifest nested deeper than the JSON parser recurses raises an exception nobody catches.\<close>

lemma deep_manifest_core:
  assumes "f \<in> set files" "detect_in_file loads f = Inl e"
  shows "\<exists>e. component_list loads m files = Inl e \<or> (\<exists>iv. component_list loads m files = Inr iv \<and> ci_truncated iv)"
proof -
  have "(\<exists>e. walk_files loads m fs seen = Inl e) \<or> (\<exists>seen'. walk_files loads m fs seen = Inr (seen', True))"
    if "f \<in> set fs" for fs seen
    using that
  proof (induction fs arbitrary: seen)
    case (Cons g fs)
    show ?case
    proof (cases "detect_in_file loads g")
      case (Inr cs)
      with assms(2) Cons.prems have "f \<in> set fs" by auto
      with Inr Cons.IH show ?thesis by simp
    qed simp
  qed simp
  from this [OF assms(1), of "[]"] show ?thesis by (auto simp: component_list_def)
qed

definition sample_tree :: "tree_file list" where
  "sample_tree = [\<lparr>tf_path = ''a/package.json'', tf_path_in_tree = ''a/package.json'', tf_content = Inr []\<rparr>]"

lemma sample_manifest: "detect_in_file loads (hd sample_tree) =
    bind_e (from_package_json loads (hd sample_tree)) (\<lambda>c. Inr (case c of Some x \<Rightarrow> [x] | None \<Rightarrow> []))"
  by (simp add: detect_in_file_def sample_tree_def file_name_def py_lower_def lower_char_def Let_def)

theorem inventory_lists_what_is_declared_witness:
  "\<exists>iv. component_list (\<lambda>_. Bad_Json) MAX_COMPONENTS sample_tree = Inr iv \<and> distinct (map component_key (ci_components iv))"
proof -
  have "detect_in_file (\<lambda>_. Bad_Json) (hd sample_tree) = Inr []"
    unfolding sample_manifest by (simp add: from_package_json_def split: option.split)
  then have "component_list (\<lambda>_. Bad_Json) MAX_COMPONENTS sample_tree =
      Inr \<lparr>ci_components = [], ci_files_examined = 1, ci_truncated = False\<rparr>"
    by (simp add: component_list_def sample_tree_def MAX_COMPONENTS_def)
  from inventory_lists_what_is_declared [OF this] this show ?thesis by blast
qed

end
