(* ===== verification/Static_Analyzer.thy ===== *)
theory Static_Analyzer
  imports Composition Scan_Model
begin

text \<open>
  The static analyzer that runs in the sandbox (\<open>sandbox/images/static/analyzer.py\<close>): which files it
  scans, how it identifies them, how many processes it uses, the matches it reports, the strings no
  rule matched and the inventory. A staged file is its path below \<open>/input\<close> with its bytes or the text
  of the \<open>OSError\<close> that reading it raises. A process pool is the order in which it happens to finish
  its chunks; a chunk it never finishes is a pool failure. SHA-256 is a parameter.
\<close>

subsection \<open>Identification\<close>

definition SIGNATURES :: "(bytes \<times> string \<times> string) list" where
  "SIGNATURES =
    [(bytes_of ''MZ'', ''pe'', ''application/vnd.microsoft.portable-executable''),
     (bytes_of (CHR 0x7F # ''ELF''), ''elf'', ''application/x-elf''),
     ([0xCA, 0xFE, 0xBA, 0xBE], ''macho'', ''application/x-mach-binary''),
     ([0xCF, 0xFA, 0xED, 0xFE], ''macho'', ''application/x-mach-binary''),
     (bytes_of ''PK'' @ [3, 4], ''archive'', ''application/zip''),
     (bytes_of ''7z'' @ [0xBC, 0xAF, 0x27, 0x1C], ''archive'', ''application/x-7z-compressed''),
     ([0x1F, 0x8B], ''archive'', ''application/gzip''),
     (bytes_of ''hsqs'', ''filesystem'', ''application/x-squashfs''),
     ([0xD0, 0xCF, 0x11, 0xE0], ''installer'', ''application/x-msi''),
     (bytes_of ''-----BEGIN'', ''certificate'', ''application/x-pem-file'')]"

record identified =
  id_kind :: string
  id_media_type :: "string option"
  id_architecture :: "string option"
  id_is_dll :: "bool option"
  id_elf_class :: "string option"

definition plain_file :: identified where
  "plain_file = \<lparr>id_kind = ''unknown'', id_media_type = None, id_architecture = None, id_is_dll = None,
     id_elf_class = None\<rparr>"

definition unknown_machine :: "nat \<Rightarrow> nat \<Rightarrow> string" where
  "unknown_machine width n =
     (let h = show_hex n in ''unknown(0x'' @ replicate (width - length h) CHR ''0'' @ h @ '')'')"

definition PE_MACHINES :: "(nat \<times> string) list" where
  "PE_MACHINES = [(0x014C, ''x86''), (0x8664, ''x86_64''), (0x01C0, ''arm''), (0xAA64, ''arm64''), (0x0200, ''ia64'')]"

definition ELF_MACHINES :: "(nat \<times> string) list" where
  "ELF_MACHINES = [(0x03, ''x86''), (0x3E, ''x86_64''), (0x28, ''arm''), (0xB7, ''arm64''), (0x08, ''mips''), (0xF3, ''riscv'')]"

definition identify_pe :: "bytes \<Rightarrow> bytes \<Rightarrow> identified \<Rightarrow> identified" where
  "identify_pe content header info =
     (if length header < 0x40 then info
      else (let coff = take 24 (drop (from_le (slice 0x3C 0x40 header)) content) in
        if \<not> starts_with (bytes_of ''PE'' @ [0, 0]) coff then info
        else (let machine = from_le (slice 4 6 coff) in
          info\<lparr>id_architecture := Some (case map_of PE_MACHINES machine of Some a \<Rightarrow> a | None \<Rightarrow> unknown_machine 4 machine),
               id_is_dll := Some (odd (from_le (slice 22 24 coff) div 0x2000))\<rparr>)))"

definition identify_elf :: "bytes \<Rightarrow> identified \<Rightarrow> identified" where
  "identify_elf header info =
     (if length header < 20 then info
      else (let little = header ! 5 = 1; field = slice 18 20 header;
                machine = from_le (if little then field else rev field) in
        info\<lparr>id_architecture := Some (case map_of ELF_MACHINES machine of Some a \<Rightarrow> a | None \<Rightarrow> unknown_machine 2 machine),
             id_elf_class := Some (if header ! 4 = 2 then ''64-bit'' else ''32-bit'')\<rparr>))"

text \<open>\<open>printable / len(header) > 0.95\<close>, compared exactly.\<close>

definition looks_like_text :: "bytes \<Rightarrow> bool" where
  "looks_like_text header \<longleftrightarrow> header \<noteq> [] \<and>
     100 * length (filter (\<lambda>b. (0x20 \<le> b \<and> b < 0x7F) \<or> b = 0x09 \<or> b = 0x0A \<or> b = 0x0D) header) > 95 * length header"

definition identify_file :: "bytes \<Rightarrow> identified" where
  "identify_file content =
     (let header = take 4096 content in
      case List.find (\<lambda>(magic, _, _). starts_with magic header) SIGNATURES of
        Some (_, kind, media) \<Rightarrow>
          (let info = plain_file\<lparr>id_kind := kind, id_media_type := Some media\<rparr> in
           if kind = ''pe'' then identify_pe content header info
           else if kind = ''elf'' then identify_elf header info else info)
      | None \<Rightarrow>
          if looks_like_text header then plain_file\<lparr>id_kind := ''text'', id_media_type := Some ''text/plain''\<rparr>
          else plain_file)"

subsection \<open>Files and workers\<close>

record staged_file =
  sf_path :: string
  sf_is_file :: bool
  sf_is_symlink :: bool
  sf_content :: "string + bytes"

definition find_artifacts :: "staged_file list \<Rightarrow> staged_file list" where
  "find_artifacts entries =
     sort_key (\<lambda>f. split_on CHR ''/'' (sf_path f)) (filter (\<lambda>f. sf_is_file f \<and> \<not> sf_is_symlink f) entries)"

definition MAX_SCAN_WORKERS :: nat where "MAX_SCAN_WORKERS = 8"
definition MIN_FILES_FOR_POOL :: nat where "MIN_FILES_FOR_POOL = 8"
definition MAX_RECON_STRINGS :: nat where "MAX_RECON_STRINGS = 1500000"

text \<open>What the container can be asked: the two cgroup interfaces (\<open>None\<close> when a file cannot be read or
  decoded), the affinity and the core count.\<close>

record cpu_env =
  ce_cpu_max :: "string option"
  ce_cfs_quota :: "string option"
  ce_cfs_period :: "string option"
  ce_affinity :: "nat option"
  ce_cpu_count :: "nat option"

definition blank_words :: "string \<Rightarrow> string list" where
  "blank_words t = filter (\<lambda>w. w \<noteq> []) (split_on CHR 0x20 (map (\<lambda>c. if py_space c then CHR 0x20 else c) t))"

datatype quota_step = Quota_Is int | Stop_Looking | Try_Next

definition quota_step_of :: "string \<Rightarrow> string \<Rightarrow> quota_step" where
  "quota_step_of quota_s period_s =
     (if quota_s = ''max'' then Stop_Looking
      else (case (parse_int quota_s, parse_int period_s) of
              (Some quota, Some period) \<Rightarrow>
                if quota > 0 \<and> period > 0 then Quota_Is (max 1 (quota div period)) else Try_Next
            | _ \<Rightarrow> Try_Next))"

definition cgroup_v2 :: "cpu_env \<Rightarrow> quota_step" where
  "cgroup_v2 env = (case ce_cpu_max env of None \<Rightarrow> Try_Next
     | Some raw \<Rightarrow> (case blank_words raw of quota_s # period_s # _ \<Rightarrow> quota_step_of quota_s period_s | _ \<Rightarrow> Try_Next))"

definition cgroup_v1 :: "cpu_env \<Rightarrow> quota_step" where
  "cgroup_v1 env = (case ce_cfs_quota env of None \<Rightarrow> Try_Next
     | Some raw \<Rightarrow> (case blank_words raw of [] \<Rightarrow> Try_Next
         | quota_s # _ \<Rightarrow> (case ce_cfs_period env of None \<Rightarrow> Try_Next
             | Some period \<Rightarrow> quota_step_of quota_s (py_strip period))))"

definition host_cpus :: "cpu_env \<Rightarrow> int" where
  "host_cpus env =
     (case ce_affinity env of Some n \<Rightarrow> max 1 (int n)
      | None \<Rightarrow> max 1 (case ce_cpu_count env of Some n \<Rightarrow> if n = 0 then 1 else int n | None \<Rightarrow> 1))"

definition available_cpus :: "cpu_env \<Rightarrow> int" where
  "available_cpus env =
     (case cgroup_v2 env of
        Quota_Is n \<Rightarrow> n
      | Stop_Looking \<Rightarrow> host_cpus env
      | Try_Next \<Rightarrow> (case cgroup_v1 env of Quota_Is n \<Rightarrow> n | _ \<Rightarrow> host_cpus env))"

definition scan_worker_count :: "cpu_env \<Rightarrow> string \<Rightarrow> nat \<Rightarrow> int" where
  "scan_worker_count env override_text artifact_count =
     (let automatic = (if artifact_count < MIN_FILES_FOR_POOL then 1
                       else max 1 (min (int MAX_SCAN_WORKERS) (min (available_cpus env) (int artifact_count)))) in
      case py_strip override_text of
        [] \<Rightarrow> automatic
      | t \<Rightarrow> (case parse_int t of Some n \<Rightarrow> max 1 (min n (int artifact_count)) | None \<Rightarrow> automatic))"

subsection \<open>Scanning\<close>

record scan_entry =
  en_relative_path :: string
  en_size_bytes :: "nat option"
  en_truncated :: "bool option"
  en_identified :: "identified option"
  en_error :: "string option"
  en_matches :: "match_json list"

definition mask_entropy :: "real \<Rightarrow> rat" where
  "mask_entropy x = rat_of_int (round (x * 1000)) / 1000"

definition match_entry :: "(string \<Rightarrow> string) \<Rightarrow> bool \<Rightarrow> rule_match \<Rightarrow> match_json" where
  "match_entry sha include_plaintext m =
     \<lparr>mj_rule_id = Some (ma_rule_id m), mj_value_hash = Some (sha (ma_value m)),
      mj_value_masked = Some (mask_value (ma_value m)),
      mj_value_plaintext = (if include_plaintext then Some (ma_value m) else None),
      mj_offset = Some (int (ma_offset m)), mj_encoding = Some (ma_encoding m),
      mj_entropy = Some (mask_entropy (ma_entropy m)), mj_context = Some (ma_context m),
      mj_context_plaintext = (if include_plaintext then Some (ma_context_plaintext m) else None)\<rparr>"

definition scan_content :: "bytes \<Rightarrow> rule_pack \<Rightarrow> nat \<Rightarrow> rule_match list" where
  "scan_content content pack max_bytes = scan_bytes (take max_bytes content) pack MIN_STRING_LENGTH"

definition scan_one :: "(string \<Rightarrow> string) \<Rightarrow> rule_pack \<Rightarrow> nat \<Rightarrow> bool \<Rightarrow> staged_file \<Rightarrow> scan_entry" where
  "scan_one sha pack max_bytes include_plaintext f =
     (case sf_content f of
        Inl exc \<Rightarrow> \<lparr>en_relative_path = sf_path f, en_size_bytes = None, en_truncated = None, en_identified = None,
                    en_error = Some exc, en_matches = []\<rparr>
      | Inr content \<Rightarrow>
          \<lparr>en_relative_path = sf_path f, en_size_bytes = Some (length content),
           en_truncated = Some (length content > max_bytes), en_identified = Some (identify_file content), en_error = None,
           en_matches = map (match_entry sha include_plaintext) (scan_content content pack max_bytes)\<rparr>)"

text \<open>\<open>Executor.map\<close> cuts the jobs into chunks, workers finish the chunks in some order, and the results
  are handed out in the order the chunks were submitted.\<close>

fun chunks_of :: "nat \<Rightarrow> 'a list \<Rightarrow> 'a list list" where
  "chunks_of n [] = []"
| "chunks_of n (x # xs) = (x # take (n - 1) xs) # chunks_of n (drop (n - 1) xs)"

type_synonym pool_run = "nat list"

definition finished_chunks :: "pool_run \<Rightarrow> ('a \<Rightarrow> 'b) \<Rightarrow> 'a list list \<Rightarrow> (nat \<times> 'b list) list" where
  "finished_chunks order fn cs = map (\<lambda>k. (k, map fn (cs ! k))) (filter (\<lambda>k. k < length cs) order)"

fun collect_chunks :: "(nat \<times> 'b list) list \<Rightarrow> nat list \<Rightarrow> 'b list option" where
  "collect_chunks finished [] = Some []"
| "collect_chunks finished (k # ks) =
     (case map_of finished k of
        None \<Rightarrow> None
      | Some ys \<Rightarrow> map_option (\<lambda>zs. ys @ zs) (collect_chunks finished ks))"

definition map_ordered :: "pool_run \<Rightarrow> ('a \<Rightarrow> 'b) \<Rightarrow> 'a list \<Rightarrow> int \<Rightarrow> nat \<Rightarrow> 'b list" where
  "map_ordered order fn jobs workers chunksize =
     (if workers \<le> 1 then map fn jobs
      else (let cs = chunks_of chunksize jobs in
        case collect_chunks (finished_chunks order fn cs) [0..<length cs] of
          Some ys \<Rightarrow> ys
        | None \<Rightarrow> map fn jobs))"

definition scan_all ::
  "(string \<Rightarrow> string) \<Rightarrow> rule_pack \<Rightarrow> staged_file list \<Rightarrow> nat \<Rightarrow> bool \<Rightarrow> int \<Rightarrow> pool_run \<Rightarrow> scan_entry list" where
  "scan_all sha pack artifacts max_bytes include_plaintext workers order =
     map_ordered order (scan_one sha pack max_bytes include_plaintext) artifacts workers 4"

subsection \<open>What no rule matched\<close>

definition label_re :: regex where "label_re = Rep 2 (Some 40) (alnum_or ''-'')"

definition RESIDUE_INTERESTING :: regex where
  "RESIDUE_INTERESTING = alts
    [seqs [letter_re, Rep 1 (Some 14) (alnum_or ''+.-''), exactly ''://''],
     alts [seqs [letter_re, exactly [CHR '':'', BS]], exactly ''//'', exactly [BS, BS]],
     seqs [Bound, label_re, Rep 2 None (seqs [exactly ''.'', label_re]), Bound],
     seqs [Bound, Rep 2 (Some 30) (alnum_or ''_-''), Rep 0 None space_re, Cls (\<lambda>c. c = CHR ''='' \<or> c = CHR '':''),
       Rep 0 None space_re, Rep 8 None (Cls (\<lambda>c. \<not> py_space c))],
     seqs [Bound, alts (map lit [''passwd'', ''password'', ''secret'', ''token'', ''apikey'', ''api_key'', ''credential'',
       ''license'', ''licence'']), Bound]]"

definition punctuation :: "char \<Rightarrow> bool" where
  "punctuation c \<longleftrightarrow> is_digit c \<or> c = SQ \<or> c = BS \<or> c = CHR 0x60 \<or> c \<in> set ''%&()*:;<>?@[]^_|~-''"

definition RESIDUE_BORING :: regex where
  "RESIDUE_BORING = alts
    [seqs [exactly ''.'', alts (map lit [''dll'', ''exe'', ''png'', ''jpg'', ''gif'', ''xml'', ''xsd'', ''resources'']), Eos],
     seqs [Bos, alts (map lit [''System'', ''Microsoft'', ''Windows'']), exactly ''.''],
     lit ''<</'', lit ''/Subtype'', lit ''/Rect['', lit ''endobj'', lit ''endstream'', lit ''/FlateDecode'', lit ''/Font'',
     seqs [Bos, Rep 0 None space_re, Rep 1 None (Cls punctuation), Rep 0 None space_re, Eos],
     seqs [exactly [BS], alts (map lit [''par'', ''fonttbl'', ''colortbl'', ''viewkind'', ''uc1'', ''pard'']), Bound],
     seqs [Bos, lit ''http'', Rep 0 (Some 1) (lit ''s''), exactly ''://'', Rep 0 (Some 1) (lit ''www.''),
       Rep 1 None (alnum_or ''-''), exactly ''.'', Rep 2 (Some 6) letter_re, Rep 0 (Some 1) (exactly ''/''), Eos]]"

record residue_item =
  re_value :: string
  re_offset :: int
  re_encoding :: string
  re_relative_path :: string

text \<open>\<open>looked\<close>: the matches of the file by offset, the residue and the keys seen so far.\<close>

fun residue_strings ::
  "nat \<Rightarrow> string \<Rightarrow> int set \<Rightarrow> extracted list \<Rightarrow> string set \<times> residue_item list \<Rightarrow> string set \<times> residue_item list" where
  "residue_strings limit path matched_offsets [] acc = acc"
| "residue_strings limit path matched_offsets (e # es) (seen, residue) =
     (if length residue \<ge> limit then (seen, residue)
      else (let value = py_strip (ex_value e) in
        if length value < 12 \<or> length value > 300 then residue_strings limit path matched_offsets es (seen, residue)
        else if ex_offset e \<in> matched_offsets then residue_strings limit path matched_offsets es (seen, residue)
        else if search_re RESIDUE_BORING value \<or> \<not> search_re RESIDUE_INTERESTING value
        then residue_strings limit path matched_offsets es (seen, residue)
        else if take 120 value \<in> seen then residue_strings limit path matched_offsets es (seen, residue)
        else residue_strings limit path matched_offsets es
               (insert (take 120 value) seen,
                residue @ [\<lparr>re_value = take 300 value, re_offset = ex_offset e, re_encoding = ex_encoding e,
                            re_relative_path = path\<rparr>])))"

definition residue_of_file ::
  "rule_pack \<Rightarrow> nat \<Rightarrow> staged_file \<Rightarrow> string set \<times> residue_item list \<Rightarrow> string set \<times> residue_item list" where
  "residue_of_file pack limit f acc =
     (if length (snd acc) \<ge> limit then acc
      else (case sf_content f of
              Inl exc \<Rightarrow> acc
            | Inr content \<Rightarrow>
                residue_strings limit (sf_path f) ((\<lambda>m. int (ma_offset m)) ` set (scan_file content pack))
                  (extract_strings content MIN_STRING_LENGTH) acc))"

definition collect_residue :: "staged_file list \<Rightarrow> rule_pack \<Rightarrow> nat \<Rightarrow> residue_item list" where
  "collect_residue artifacts pack limit = snd (fold (residue_of_file pack limit) artifacts ({}, []))"

subsection \<open>Recon\<close>

definition extract_for_recon :: "staged_file \<Rightarrow> found_string list" where
  "extract_for_recon f =
     (case sf_content f of
        Inl exc \<Rightarrow> []
      | Inr content \<Rightarrow> map (\<lambda>e. (ex_value e, sf_path f, ex_offset e, ex_encoding e))
                        (extract_strings content MIN_STRING_LENGTH))"

text \<open>\<open>absorb\<close>: the strings kept, whether some were dropped, and whether to go on.\<close>

definition absorb :: "nat \<Rightarrow> 'a list \<Rightarrow> 'a list \<times> bool \<Rightarrow> ('a list \<times> bool) \<times> bool" where
  "absorb cap chunk acc =
     (let (collected, truncated) = acc; room = cap - length collected in
      if room = 0 then ((collected, True), False)
      else if length chunk > room then ((collected @ take room chunk, True), False)
      else ((collected @ chunk, truncated), True))"

fun absorb_all :: "nat \<Rightarrow> 'a list list \<Rightarrow> 'a list \<times> bool \<Rightarrow> 'a list \<times> bool" where
  "absorb_all cap [] acc = acc"
| "absorb_all cap (c # cs) acc = (case absorb cap c acc of (acc', go_on) \<Rightarrow> if go_on then absorb_all cap cs acc' else acc')"

text \<open>The pool's results, consumed one by one: a chunk that is missing when it is asked for raises.\<close>

fun absorb_pool :: "nat \<Rightarrow> (nat \<times> 'a list list) list \<Rightarrow> nat list \<Rightarrow> 'a list \<times> bool \<Rightarrow> ('a list \<times> bool) option" where
  "absorb_pool cap finished [] acc = Some acc"
| "absorb_pool cap finished (k # ks) acc =
     (case map_of finished k of
        None \<Rightarrow> None
      | Some chunks \<Rightarrow>
          (let acc' = absorb_all cap chunks acc in
           if snd acc' then Some acc' else absorb_pool cap finished ks acc'))"

definition recon_strings :: "nat \<Rightarrow> staged_file list \<Rightarrow> int \<Rightarrow> pool_run \<Rightarrow> found_string list \<times> bool" where
  "recon_strings cap artifacts workers order =
     (let sequential = absorb_all cap (map extract_for_recon artifacts) ([], False) in
      if workers \<le> 1 then sequential
      else (let cs = chunks_of 8 artifacts in
        case absorb_pool cap (finished_chunks order extract_for_recon cs) [0..<length cs] ([], False) of
          Some acc \<Rightarrow> acc
        | None \<Rightarrow> sequential))"

definition run_recon :: "staged_file list \<Rightarrow> int \<Rightarrow> pool_run \<Rightarrow> recon_inventory" where
  "run_recon artifacts workers order =
     (let (collected, truncated) = recon_strings MAX_RECON_STRINGS artifacts workers order
      in (sweep collected MAX_PER_CATEGORY)\<lparr>ri_truncated := truncated\<rparr>)"

subsection \<open>The document\<close>

definition show_bool_json :: "bool option \<Rightarrow> string \<Rightarrow> (string \<times> pyval) list" where
  "show_bool_json v key = (case v of Some b \<Rightarrow> [(key, PBool b)] | None \<Rightarrow> [])"

text \<open>An entry of \<open>files\<close> as the pipeline reads it back: the keys it does not name end up in \<open>fj_other\<close>.\<close>

definition entry_json :: "scan_entry \<Rightarrow> file_json" where
  "entry_json e =
     (case en_identified e of
        None \<Rightarrow> \<lparr>fj_relative_path = Some (en_relative_path e), fj_kind = None, fj_media_type = None,
                 fj_architecture = None,
                 fj_other = (case en_error e of Some m \<Rightarrow> [(''error'', PStr m)] | None \<Rightarrow> []),
                 fj_matches = en_matches e\<rparr>
      | Some i \<Rightarrow> \<lparr>fj_relative_path = Some (en_relative_path e), fj_kind = Some (id_kind i),
                   fj_media_type = id_media_type i, fj_architecture = id_architecture i,
                   fj_other = (case id_elf_class i of Some c \<Rightarrow> [(''elf_class'', PStr c)] | None \<Rightarrow> [])
                     @ show_bool_json (id_is_dll i) ''is_dll'' @ show_bool_json (en_truncated e) ''truncated'',
                   fj_matches = en_matches e\<rparr>)"

definition residue_dict :: "residue_item \<Rightarrow> pyval" where
  "residue_dict r = PDict [(PStr ''encoding'', PStr (re_encoding r)), (PStr ''offset'', PInt (re_offset r)),
     (PStr ''relative_path'', PStr (re_relative_path r)), (PStr ''value'', PStr (re_value r))]"

definition sample_dict :: "recon_sample \<Rightarrow> pyval" where
  "sample_dict s = (let (path, offset, encoding) = rs_place s in
     PDict [(PStr ''value'', PStr (rs_value s)), (PStr ''occurrences'', PInt (int (rs_occurrences s))),
       (PStr ''relative_path'', PStr path), (PStr ''offset'', PInt offset), (PStr ''encoding'', PStr encoding)])"

definition category_dict :: "recon_category \<Rightarrow> pyval" where
  "category_dict c = PDict [(PStr ''name'', PStr (rc_name c)), (PStr ''rationale'', PStr (rc_rationale c)),
     (PStr ''total'', PInt (int (rc_total c))), (PStr ''distinct'', PInt (int (rc_distinct c))),
     (PStr ''samples'', PList (map sample_dict (rc_samples c)))]"

definition inventory_dict :: "recon_inventory \<Rightarrow> pyval" where
  "inventory_dict iv = PDict [(PStr ''files_scanned'', PInt (int (ri_files_scanned iv))),
     (PStr ''truncated'', PBool (ri_truncated iv)), (PStr ''categories'', PList (map category_dict (ri_categories iv)))]"

record static_options =
  so_workers :: int
  so_max_bytes :: nat
  so_components :: bool
  so_recon :: bool
  so_emit_residue :: nat
  so_include_plaintext :: bool

record static_env =
  se_sha :: "string \<Rightarrow> string"
  se_loads :: "string \<Rightarrow> json_outcome"
  se_cpus :: cpu_env
  se_workers_override :: string
  se_python_version :: string
  se_scan_order :: pool_run
  se_recon_order :: pool_run

definition as_tree_file :: "staged_file \<Rightarrow> tree_file" where
  "as_tree_file f = \<lparr>tf_path = sf_path f, tf_path_in_tree = sf_path f, tf_content = sf_content f\<rparr>"

definition worker_count :: "static_env \<Rightarrow> static_options \<Rightarrow> nat \<Rightarrow> int" where
  "worker_count env opts n =
     (if so_workers opts > 0 then so_workers opts else scan_worker_count (se_cpus env) (se_workers_override env) n)"

text \<open>\<open>main\<close>: the exit code and what it leaves in \<open>/output/result.json\<close>. An exception that nothing
  catches ends the interpreter with status 1.\<close>

definition static_main ::
  "static_env \<Rightarrow> static_options \<Rightarrow> string + rule_pack \<Rightarrow> staged_file list \<Rightarrow> nat \<times> static_json option" where
  "static_main env opts rules entries =
     (let artifacts = find_artifacts entries in
      if artifacts = [] then (2, None)
      else (case rules of
              Inl exc \<Rightarrow> (3, None)
            | Inr pack \<Rightarrow>
                (let workers = worker_count env opts (length artifacts);
                     scanned = scan_all (se_sha env) pack artifacts (so_max_bytes opts) (so_include_plaintext opts) workers
                       (se_scan_order env);
                     recon = (if so_recon opts then inventory_dict (run_recon artifacts workers (se_recon_order env))
                              else PNone) in
                 case (if so_components opts
                       then bind_e (component_list (se_loads env) MAX_COMPONENTS (map as_tree_file artifacts))
                              (\<lambda>iv. Inr (components_dict iv))
                       else Inr PNone) of
                   Inl Recursion_Error \<Rightarrow> (1, None)
                 | Inr components \<Rightarrow>
                     (0, Some \<lparr>sj_files = map entry_json scanned,
                               sj_tool_versions = [(''bare_scanner'', ''1''), (''python'', se_python_version env)],
                               sj_residue = (if so_emit_residue opts \<noteq> 0
                                 then map residue_dict (collect_residue artifacts pack (so_emit_residue opts)) else []),
                               sj_recon = recon, sj_components = components\<rparr>))))"

end
