(* ===== verification/Static_Properties.thy ===== *)
theory Static_Properties
  imports Static_Analyzer Rules_Properties
begin

text \<open>
  What the static analyzer guarantees: its document does not depend on scheduling, the recon corpus is bounded
  and honest, the residue is a bounded sample, and the pipeline reads back every match. Two theorems state
  what goes wrong: a secret in the residue, and a manifest that stops the analysis.
\<close>

subsection \<open>Parallelism cannot be seen\<close>

lemma concat_chunks: "concat (chunks_of n xs) = xs"
  by (induction n xs rule: chunks_of.induct) simp_all

lemma collect_chunks_value:
  "collect_chunks (finished_chunks order fn cs) ks = Some ys \<Longrightarrow> list_all (\<lambda>k. k < length cs) ks \<Longrightarrow>
     ys = concat (map (\<lambda>k. map fn (cs ! k)) ks)"
proof (induction ks arbitrary: ys)
  case (Cons k ks)
  then obtain y zs where y: "map_of (finished_chunks order fn cs) k = Some y"
    "collect_chunks (finished_chunks order fn cs) ks = Some zs" "ys = y @ zs"
    by (auto split: option.splits)
  from map_of_SomeD [OF y(1)] have "y = map fn (cs ! k)" by (auto simp: finished_chunks_def)
  with Cons y show ?case by simp
qed simp

lemma map_ordered_eq: "map_ordered order fn jobs workers n = map fn jobs"
proof -
  let ?cs = "chunks_of n jobs"
  have "ys = map fn jobs" if "collect_chunks (finished_chunks order fn ?cs) [0..<length ?cs] = Some ys" for ys
  proof -
    have "ys = concat (map (\<lambda>k. map fn (?cs ! k)) [0..<length ?cs])"
      by (rule collect_chunks_value [OF that]) (simp add: list_all_iff)
    also have "\<dots> = concat (map (map fn) (map ((!) ?cs) [0..<length ?cs]))" by (simp add: comp_def)
    also have "\<dots> = map fn (concat ?cs)" by (simp only: map_nth map_concat)
    finally show ?thesis by (simp add: concat_chunks)
  qed
  then show ?thesis by (simp add: map_ordered_def Let_def split: option.split)
qed

lemma absorb_all_append:
  "\<not> snd acc \<Longrightarrow> absorb_all cap (as @ bs) acc =
     (if snd (absorb_all cap as acc) then absorb_all cap as acc else absorb_all cap bs (absorb_all cap as acc))"
proof (induction as arbitrary: acc)
  case (Cons a as)
  obtain xs t where acc: "acc = (xs, t)" by fastforce
  with Cons show ?case by (auto simp: absorb_def Let_def)
qed simp

lemma absorb_pool_value:
  assumes "absorb_pool cap (finished_chunks order fn cs) ks acc = Some acc'" "list_all (\<lambda>k. k < length cs) ks" "\<not> snd acc"
  shows "acc' = absorb_all cap (concat (map (\<lambda>k. map fn (cs ! k)) ks)) acc"
  using assms
proof (induction ks arbitrary: acc)
  case (Cons k ks)
  then obtain y where y: "map_of (finished_chunks order fn cs) k = Some y" by (auto split: option.splits)
  from map_of_SomeD [OF y] have "y = map fn (cs ! k)" by (auto simp: finished_chunks_def)
  with Cons y show ?case by (auto simp: absorb_all_append Let_def split: if_splits)
qed simp

lemma recon_strings_sequential:
  "recon_strings cap artifacts workers order = absorb_all cap (map extract_for_recon artifacts) ([], False)"
proof -
  let ?cs = "chunks_of 8 artifacts"
  have "acc = absorb_all cap (map extract_for_recon artifacts) ([], False)"
    if "absorb_pool cap (finished_chunks order extract_for_recon ?cs) [0..<length ?cs] ([], False) = Some acc" for acc
  proof -
    have "acc = absorb_all cap (concat (map (\<lambda>k. map extract_for_recon (?cs ! k)) [0..<length ?cs])) ([], False)"
      by (rule absorb_pool_value [OF that]) (simp_all add: list_all_iff)
    also have "concat (map (\<lambda>k. map extract_for_recon (?cs ! k)) [0..<length ?cs]) =
        concat (map (map extract_for_recon) (map ((!) ?cs) [0..<length ?cs]))" by (simp add: comp_def)
    also have "\<dots> = map extract_for_recon (concat ?cs)" by (simp only: map_nth map_concat)
    finally show ?thesis by (simp add: concat_chunks)
  qed
  then show ?thesis by (simp add: recon_strings_def Let_def split: option.split)
qed

interpretation staged: canonical_sort "\<lambda>f. split_on CHR ''/'' (sf_path f)" sf_path
  by unfold_locales (metis join_split_on)

text \<open>The analysis without its scheduling: the document as a function of the files, the rules and the options
  that are about content.\<close>

definition analysis ::
  "(string \<Rightarrow> string) \<Rightarrow> (string \<Rightarrow> json_outcome) \<Rightarrow> string \<Rightarrow> nat \<Rightarrow> bool \<Rightarrow> bool \<Rightarrow> bool \<Rightarrow> nat \<Rightarrow> string + rule_pack
     \<Rightarrow> staged_file list \<Rightarrow> nat \<times> static_json option" where
  "analysis sha loads python max_bytes plaintext recon components residue rules artifacts =
     (if artifacts = [] then (2, None)
      else (case rules of
              Inl exc \<Rightarrow> (3, None)
            | Inr pack \<Rightarrow>
                 (case (if components
                       then bind_e (component_list loads MAX_COMPONENTS (map as_tree_file artifacts))
                              (\<lambda>iv. Inr (components_dict iv))
                       else Inr PNone) of
                   Inl Recursion_Error \<Rightarrow> (1, None)
                 | Inr comps \<Rightarrow>
                     (0, Some \<lparr>sj_files = map entry_json (map (scan_one sha pack max_bytes plaintext) artifacts),
                               sj_tool_versions = [(''bare_scanner'', ''1''), (''python'', python)],
                               sj_residue = (if residue \<noteq> 0
                                 then map residue_dict (collect_residue artifacts pack residue) else []),
                               sj_recon = (if recon then inventory_dict (run_recon artifacts 1 []) else PNone),
                               sj_components = comps\<rparr>))))"

lemma run_recon_sequential: "run_recon fs x y = run_recon fs 1 []"
  by (simp add: run_recon_def recon_strings_sequential)

lemma static_main_analysis:
  "static_main env opts rules entries = analysis (se_sha env) (se_loads env) (se_python_version env)
      (so_max_bytes opts) (so_include_plaintext opts) (so_recon opts) (so_components opts) (so_emit_residue opts) rules
      (find_artifacts entries)"
  unfolding static_main_def analysis_def scan_all_def map_ordered_eq Let_def
  by (subst run_recon_sequential) (rule refl)

text \<open>C23: The same tree gives the same document: whatever order the directory is listed in, however many
  CPUs there are, whatever the override says, and in whatever order the workers finish, or fail to.\<close>

theorem analysis_is_deterministic:
  assumes "mset entries = mset entries'" "distinct (map sf_path entries)"
  shows "static_main (env\<lparr>se_cpus := cpus, se_workers_override := forced, se_scan_order := o1, se_recon_order := o2\<rparr>)
             (opts\<lparr>so_workers := w\<rparr>) rules entries' = static_main env opts rules entries"
proof -
  have "distinct (map sf_path (filter (\<lambda>f. sf_is_file f \<and> \<not> sf_is_symlink f) entries))"
    using assms(2) by (simp add: distinct_map_filter)
  moreover have "mset (filter (\<lambda>f. sf_is_file f \<and> \<not> sf_is_symlink f) entries) =
      mset (filter (\<lambda>f. sf_is_file f \<and> \<not> sf_is_symlink f) entries')"
    using assms(1) by simp
  ultimately have files: "find_artifacts entries = find_artifacts entries'"
    unfolding find_artifacts_def by (intro staged.order_irrelevant)
  show ?thesis unfolding static_main_analysis files by simp
qed

definition sample_file :: staged_file where
  "sample_file = \<lparr>sf_path = ''a'', sf_is_file = True, sf_is_symlink = False, sf_content = Inr []\<rparr>"

definition sample_static :: static_env where
  "sample_static = \<lparr>se_sha = (\<lambda>s. s), se_loads = (\<lambda>_. Bad_Json),
     se_cpus = \<lparr>ce_cpu_max = None, ce_cfs_quota = None, ce_cfs_period = None, ce_affinity = Some 2, ce_cpu_count = None\<rparr>,
     se_workers_override = [], se_python_version = ''3.12'', se_scan_order = [], se_recon_order = []\<rparr>"

definition sample_options :: static_options where
  "sample_options = \<lparr>so_workers = 0, so_max_bytes = 1024, so_components = True, so_recon = True, so_emit_residue = 10,
     so_include_plaintext = False\<rparr>"

theorem analysis_is_deterministic_witness:
  "static_main (sample_static\<lparr>se_cpus := se_cpus sample_static\<lparr>ce_affinity := None\<rparr>, se_workers_override := ''4'',
       se_scan_order := [1, 0], se_recon_order := []\<rparr>)
     (sample_options\<lparr>so_workers := 8\<rparr>) (Inl ''no rules'') [sample_file, sample_file\<lparr>sf_path := ''b''\<rparr>] =
   static_main sample_static sample_options (Inl ''no rules'') [sample_file\<lparr>sf_path := ''b''\<rparr>, sample_file]"
  by (rule analysis_is_deterministic) (simp_all add: sample_file_def)

subsection \<open>Workers\<close>

lemma quota_step_positive: "quota_step_of q p = Quota_Is n \<Longrightarrow> 1 \<le> n"
  by (auto simp: quota_step_of_def split: if_splits option.splits)

lemma available_positive: "1 \<le> available_cpus env"
proof -
  have "1 \<le> host_cpus env" by (simp add: host_cpus_def split: option.split)
  moreover have "1 \<le> n" if "cgroup_v2 env = Quota_Is n \<or> cgroup_v1 env = Quota_Is n" for n
    using that by (auto simp: cgroup_v2_def cgroup_v1_def split: option.splits list.splits dest: quota_step_positive)
  ultimately show ?thesis by (auto simp: available_cpus_def split: quota_step.split)
qed

lemma worker_count_bounds:
  "1 \<le> scan_worker_count env t n" "scan_worker_count env t n \<le> max 1 (int n)"
  using available_positive [of env]
  by (auto simp: scan_worker_count_def Let_def split: list.split option.split)

subsection \<open>The recon sample\<close>

lemma absorb_all_value:
  "length xs \<le> cap \<Longrightarrow> absorb_all cap cs (xs, False) = (take cap (xs @ concat cs), snd (absorb_all cap cs (xs, False)))
     \<and> (cap < length (xs @ concat cs) \<longrightarrow> snd (absorb_all cap cs (xs, False)))
     \<and> (length (xs @ concat cs) < cap \<longrightarrow> \<not> snd (absorb_all cap cs (xs, False)))"
proof (induction cs arbitrary: xs)
  case (Cons c cs)
  consider "length xs = cap" | "length xs < cap" "length xs + length c > cap" | "length xs < cap" "length xs + length c \<le> cap"
    using Cons.prems by linarith
  then show ?case
  proof cases
    case 3
    with Cons.IH [of "xs @ c"] show ?thesis by (auto simp: absorb_def Let_def)
  qed (auto simp: absorb_def Let_def)
qed simp

text \<open>The recon corpus is bounded and honest: it holds the first strings of the tree up to the cap, in the
  order of the files, whatever the workers do; it says that it is truncated whenever a string was left out,
  and never when the tree has fewer strings than the cap.\<close>

theorem recon_sample_is_honest:
  "\<exists>truncated. recon_strings cap artifacts workers order =
       (take cap (concat (map extract_for_recon artifacts)), truncated)
     \<and> (cap < length (concat (map extract_for_recon artifacts)) \<longrightarrow> truncated)
     \<and> (length (concat (map extract_for_recon artifacts)) < cap \<longrightarrow> \<not> truncated)"
  using absorb_all_value [of "[]" cap "map extract_for_recon artifacts"]
  unfolding recon_strings_sequential by auto

theorem recon_sample_is_honest_witness:
  "\<exists>truncated. recon_strings 5 [] 1 [] = ([], truncated) \<and> \<not> truncated"
  using recon_sample_is_honest [of 5 "[]" 1 "[]"] by simp

text \<open>At exactly the cap the flag says more than happened: a further file with no strings sets it.\<close>

lemma full_corpus_called_truncated: "absorb_all 1 [[x], []] ([], False) = ([x], True)"
  by (simp add: absorb_def)

subsection \<open>The residue\<close>

text \<open>What an item of the residue is: a trimmed string of one of the files that looks like something, does not
  look like document structure, and starts where no match starts.\<close>

definition fell_through :: "rule_pack \<Rightarrow> staged_file list \<Rightarrow> residue_item \<Rightarrow> bool" where
  "fell_through pack files r \<longleftrightarrow>
     (\<exists>f content e. f \<in> set files \<and> sf_content f = Inr content \<and> e \<in> set (extract_strings content MIN_STRING_LENGTH)
        \<and> re_value r = py_strip (ex_value e) \<and> re_offset r = ex_offset e \<and> re_encoding r = ex_encoding e
        \<and> re_relative_path r = sf_path f \<and> ex_offset e \<notin> (\<lambda>m. int (ma_offset m)) ` set (scan_file content pack))
     \<and> 12 \<le> length (re_value r) \<and> length (re_value r) \<le> 300
     \<and> search_re RESIDUE_INTERESTING (re_value r) \<and> \<not> search_re RESIDUE_BORING (re_value r)"

definition residue_key :: "residue_item \<Rightarrow> string" where
  "residue_key r = take 120 (re_value r)"

definition residue_inv :: "rule_pack \<Rightarrow> staged_file list \<Rightarrow> nat \<Rightarrow> string set \<times> residue_item list \<Rightarrow> bool" where
  "residue_inv pack files limit acc \<longleftrightarrow> length (snd acc) \<le> limit \<and> distinct (map residue_key (snd acc))
     \<and> fst acc = residue_key ` set (snd acc) \<and> list_all (fell_through pack files) (snd acc)"

lemma residue_strings_inv:
  assumes "residue_inv pack files limit acc" "f \<in> set files" "sf_content f = Inr content"
    and "set es \<subseteq> set (extract_strings content MIN_STRING_LENGTH)"
  shows "residue_inv pack files limit
     (residue_strings limit (sf_path f) ((\<lambda>m. int (ma_offset m)) ` set (scan_file content pack)) es acc)"
  using assms(1,4)
proof (induction es arbitrary: acc)
  case (Cons e es)
  obtain seen residue where acc: "acc = (seen, residue)" by fastforce
  let ?v = "py_strip (ex_value e)" and ?M = "(\<lambda>m. int (ma_offset m)) ` set (scan_file content pack)"
  let ?r = "\<lparr>re_value = take 300 ?v, re_offset = ex_offset e, re_encoding = ex_encoding e, re_relative_path = sf_path f\<rparr>"
  have new: "residue_inv pack files limit (insert (take 120 ?v) seen, residue @ [?r])"
    if "\<not> length residue \<ge> limit" "\<not> (length ?v < 12 \<or> length ?v > 300)" "ex_offset e \<notin> ?M"
      "\<not> (search_re RESIDUE_BORING ?v \<or> \<not> search_re RESIDUE_INTERESTING ?v)" "take 120 ?v \<notin> seen"
  proof -
    have "fell_through pack files ?r"
      unfolding fell_through_def using that assms(2,3) Cons.prems(2)
      by (intro conjI exI [of _ f] exI [of _ content] exI [of _ e]) auto
    then show ?thesis using Cons.prems(1) that by (auto simp: residue_inv_def acc residue_key_def)
  qed
  have es: "set es \<subseteq> set (extract_strings content MIN_STRING_LENGTH)" using Cons.prems(2) by simp
  note step = Cons.IH [OF _ es]
  let ?rest = "residue_strings limit (sf_path f) ?M es"
  let ?skip = "length ?v < 12 \<or> length ?v > 300 \<or> ex_offset e \<in> ?M
      \<or> search_re RESIDUE_BORING ?v \<or> \<not> search_re RESIDUE_INTERESTING ?v \<or> take 120 ?v \<in> seen"
  have unfold: "residue_strings limit (sf_path f) ?M (e # es) acc =
      (if length residue \<ge> limit then acc else if ?skip then ?rest acc
       else ?rest (insert (take 120 ?v) seen, residue @ [?r]))"
    by (simp only: acc residue_strings.simps Let_def split: if_split) blast
  consider "length residue \<ge> limit" | "\<not> length residue \<ge> limit" ?skip | "\<not> length residue \<ge> limit" "\<not> ?skip" by blast
  then show ?case
  proof cases
    case 1
    with Cons.prems(1) show ?thesis by (simp only: unfold if_True)
  next
    case 2
    with step [OF Cons.prems(1)] show ?thesis by (simp only: unfold if_True if_False)
  next
    case 3
    from 3 have "residue_inv pack files limit (insert (take 120 ?v) seen, residue @ [?r])" by (intro new) blast+
    from step [OF this] 3 show ?thesis by (simp only: unfold if_True if_False)
  qed
qed simp

lemma residue_file_inv:
  assumes "residue_inv pack files limit acc" "f \<in> set files"
  shows "residue_inv pack files limit (residue_of_file pack limit f acc)"
  using residue_strings_inv [OF assms(1,2) _ subset_refl] assms(1)
  by (auto simp: residue_of_file_def split: sum.split)

lemma residue_invariant:
  "residue_inv pack artifacts limit (fold (residue_of_file pack limit) artifacts ({}, []))"
proof -
  have "residue_inv pack artifacts limit acc \<Longrightarrow> set fs \<subseteq> set artifacts \<Longrightarrow>
      residue_inv pack artifacts limit (fold (residue_of_file pack limit) fs acc)" for fs acc
    by (induction fs arbitrary: acc) (simp_all add: residue_file_inv)
  then show ?thesis by (simp add: residue_inv_def)
qed

text \<open>The residue is a bounded sample without repetitions, and every string in it is one of the tree that
  no match starts at and that looks like configuration, an endpoint or an identifier.\<close>

theorem residue_is_what_fell_through:
  "length (collect_residue artifacts pack limit) \<le> limit
   \<and> distinct (map residue_key (collect_residue artifacts pack limit))
   \<and> list_all (fell_through pack artifacts) (collect_residue artifacts pack limit)"
  using residue_invariant [of pack artifacts limit] by (simp add: residue_inv_def collect_residue_def)

definition leak_text :: string where "leak_text = ''//bob:hunter2''"

definition userinfo_rule :: rule where
  "userinfo_rule = (demo_rule ''url-password'' [])\<lparr>ru_patterns := [\<lparr>pat_finditer = (\<lambda>s. if s = leak_text
     then [\<lparr>rm_start = 6, rm_end = 13, rm_group = Some (Some ''hunter2'')\<rparr>] else []), pat_source = []\<rparr>]\<rparr>"

definition leaky_file :: staged_file where
  "leaky_file = \<lparr>sf_path = ''cfg'', sf_is_file = True, sf_is_symlink = False, sf_content = Inr (bytes_of leak_text)\<rparr>"

lemma leak_interesting: "search_re RESIDUE_INTERESTING leak_text"
proof -
  have "lang (exactly ''//'') leak_text 0 2" by (simp add: exactly_def leak_text_def)
  then have "search_re (exactly ''//'') leak_text" unfolding search_re_iff by blast
  then show ?thesis by (simp add: RESIDUE_INTERESTING_def search_alts del: alts.simps)
qed

lemma leak_not_boring: "\<not> search_re RESIDUE_BORING leak_text"
proof -
  have lit_absent: "\<not> search_re (lit t) leak_text"
    if "c \<in> set t" "list_all (\<lambda>d. \<not> (lower_char d = c \<or> to_upper d = c)) leak_text" for t c
    using must_lit [OF that(1)] that(2) by (rule must_search)
  have exact_absent: "\<not> search_re (seqs rs) leak_text" if "exactly [c] \<in> set rs" "c \<notin> set leak_text" for rs c
  proof (rule must_search)
    show "must (seqs rs) (\<lambda>d. d = c)" by (intro must_seqs bexI [of _ "exactly [c]"] must_exactly that(1)) simp
    show "list_all (\<lambda>d. \<not> d = c) leak_text" using that(2) by (auto simp: list_all_iff)
  qed
  have no_punct: "\<not> search_re (seqs [Bos, Rep 0 None space_re, Rep 1 None (Cls punctuation), Rep 0 None space_re, Eos]) leak_text"
  proof
    assume "search_re (seqs [Bos, Rep 0 None space_re, Rep 1 None (Cls punctuation), Rep 0 None space_re, Eos]) leak_text"
    then obtain a b where a: "lang (Rep 0 None space_re) leak_text 0 a" and b: "lang (Rep 1 None (Cls punctuation)) leak_text a b"
      unfolding search_re_iff seqs.simps lang.simps by blast
    have "a = 0" using rep_first [OF a [unfolded space_re_def]] by (auto simp: leak_text_def py_space_def)
    moreover have "b \<noteq> a"
    proof
      assume "b = a"
      with b obtain n where "((\<lambda>i j. lang (Cls punctuation) leak_text i j \<and> i < j) ^^ n) a a" "1 \<le> n" by auto
      from chain_length [OF this(1)] this(2) show False by simp
    qed
    ultimately have "punctuation (leak_text ! 0)" using rep_first [OF b] by simp
    then show False by (simp add: punctuation_def leak_text_def is_digit_def SQ_def BS_def)
  qed
  have absent: "CHR ''.'' \<notin> set leak_text" "BS \<notin> set leak_text" by (simp_all add: leak_text_def BS_def)
  note absence = leak_text_def lower_char_def to_upper_def is_lower_def
  have lit1: "\<not> search_re (lit ''<</'') leak_text" by (rule lit_absent [of "CHR ''<''"]) (simp_all add: absence, simp_all add: char_of_def bit_0)
  have lit2: "\<not> search_re (lit ''/Subtype'') leak_text" by (rule lit_absent [of "CHR ''p''"]) (simp_all add: absence, simp_all add: char_of_def bit_0)
  have lit3: "\<not> search_re (lit ''/Rect['') leak_text" by (rule lit_absent [of "CHR ''[''"]) (simp_all add: absence, simp_all add: char_of_def bit_0)
  have lit4: "\<not> search_re (lit ''endobj'') leak_text" by (rule lit_absent [of "CHR ''j''"]) (simp_all add: absence, simp_all add: char_of_def bit_0)
  have lit5: "\<not> search_re (lit ''endstream'') leak_text" by (rule lit_absent [of "CHR ''m''"]) (simp_all add: absence, simp_all add: char_of_def bit_0)
  have lit6: "\<not> search_re (lit ''/FlateDecode'') leak_text" by (rule lit_absent [of "CHR ''F''"]) (simp_all add: absence, simp_all add: char_of_def bit_0)
  have lit7: "\<not> search_re (lit ''/Font'') leak_text" by (rule lit_absent [of "CHR ''F''"]) (simp_all add: absence, simp_all add: char_of_def bit_0)
  show ?thesis
    unfolding RESIDUE_BORING_def search_alts
    by (simp add: no_punct [unfolded One_nat_def] lit1 lit2 lit3 lit4 lit5 lit6 lit7 exact_absent [of "CHR ''.''"] exact_absent [of BS] absent del: seqs.simps alts.simps)
qed

lemma leak_strings: "extract_strings (bytes_of leak_text) MIN_STRING_LENGTH = [mk_extracted leak_text 0 ''ascii'']"
  by (simp add: leak_text_def extract_strings_def extract_ascii_def extract_utf16le_def bytes_of_def printable_def
      MAX_STRING_LENGTH_def MIN_STRING_LENGTH_def byte_char_def mk_extracted_def extracted_key_def)
    (simp add: char_of_def bit_0)

lemma leak_scan:
  "\<exists>m. scan_file (bytes_of leak_text) (demo_pack [userinfo_rule]) = [m] \<and> ma_value m = ''hunter2'' \<and> ma_offset m = 6"
proof -
  have "take (512 * 1024 * 1024) (bytes_of leak_text) = bytes_of leak_text" by (simp add: leak_text_def bytes_of_def)
  then show ?thesis
    by (simp add: scan_file_def scan_bytes_def leak_strings enabled_rules_def demo_pack_def userinfo_rule_def demo_rule_def
        apply_rule_def apply_match_def pat_extract_def accepts_def is_known_false_positive_def shape_ok_def mk_extracted_def Let_def)
qed

text \<open>The residue hands out secrets: a string that a rule did match is kept in it, in plain, when the match
  starts inside the string, because the string's offset is compared with the match's.\<close>

theorem residue_leaks_matched_secret:
  "\<exists>m r. scan_file (bytes_of leak_text) (demo_pack [userinfo_rule]) = [m]
     \<and> collect_residue [leaky_file] (demo_pack [userinfo_rule]) 1 = [r] \<and> contains (ma_value m) (re_value r)"
proof -
  from leak_scan obtain m where m: "scan_file (bytes_of leak_text) (demo_pack [userinfo_rule]) = [m]"
    "ma_value m = ''hunter2''" "ma_offset m = 6" by blast
  have strip: "py_strip leak_text = leak_text" by (simp add: leak_text_def py_strip_def py_space_def)
  have len: "length leak_text = 13" by (simp add: leak_text_def)
  have "collect_residue [leaky_file] (demo_pack [userinfo_rule]) 1 =
      [\<lparr>re_value = leak_text, re_offset = 0, re_encoding = ''ascii'', re_relative_path = ''cfg''\<rparr>]"
    by (simp add: collect_residue_def residue_of_file_def leaky_file_def m leak_strings mk_extracted_def strip len
        leak_interesting leak_not_boring Let_def)
  moreover have "contains ''hunter2'' leak_text" by (simp add: leak_text_def)
  ultimately show ?thesis using m by simp
qed

subsection \<open>What the pipeline reads back\<close>

definition evidence_row :: "run \<Rightarrow> (string \<Rightarrow> string) \<Rightarrow> bool \<Rightarrow> string \<Rightarrow> rule_match \<Rightarrow> evidence" where
  "evidence_row run sha plaintext artifact_id m =
     \<lparr>ev_run_id = r_id run, ev_artifact_id = artifact_id, ev_analyzer = ''static'', ev_rule_id = ma_rule_id m,
      ev_value_hash = sha (ma_value m), ev_value_masked = mask_value (ma_value m),
      ev_value_plaintext = (if r_retain_plaintext run \<and> plaintext then Some (ma_value m) else None),
      ev_offset = Some (int (ma_offset m)), ev_section = None, ev_encoding = Some (ma_encoding m),
      ev_entropy = Some (mask_entropy (ma_entropy m)), ev_context = Some (ma_context m),
      ev_context_plaintext = (if r_retain_plaintext run \<and> plaintext then Some (ma_context_plaintext m) else None)\<rparr>"

lemma evidence_of_entry: "evidence_of run i (match_entry sha plaintext m) = Inr (evidence_row run sha plaintext i m)"
  by (simp add: evidence_of_def match_entry_def evidence_row_def need_def)

lemma map_e_unrefused: "(\<And>x. x \<in> set xs \<Longrightarrow> f x = Inr (g x)) \<Longrightarrow> map_e f xs = Inr (map g xs)"
  by (induction xs) simp_all

definition file_matches :: "rule_pack \<Rightarrow> nat \<Rightarrow> staged_file \<Rightarrow> rule_match list" where
  "file_matches pack max_bytes f = (case sf_content f of Inl exc \<Rightarrow> [] | Inr content \<Rightarrow> scan_content content pack max_bytes)"

lemma entry_matches:
  "fj_matches (entry_json (scan_one sha pack max_bytes plaintext f)) = map (match_entry sha plaintext) (file_matches pack max_bytes f)"
  "fj_relative_path (entry_json (scan_one sha pack max_bytes plaintext f)) = Some (sf_path f)"
  by (simp_all add: entry_json_def scan_one_def file_matches_def split: sum.split option.split)

definition artifact_for :: "(string, string) dict \<Rightarrow> artifact \<Rightarrow> staged_file \<Rightarrow> string" where
  "artifact_for staged root_row f = (case map_of staged (sf_path f) of Some i \<Rightarrow> i | None \<Rightarrow> a_id root_row)"

text \<open>C22: The two sides of the sandbox agree: the pipeline turns every document the analyzer writes into evidence
  without an error, one row for every match the scanner found in every readable file, in order and at the
  artifact the file was staged for.\<close>

theorem host_reads_every_match:
  assumes "static_main env opts (Inr pack) entries = (0, Some payload)"
  shows "to_evidence run payload staged root_row =
     Inr (concat (map (\<lambda>f. map (evidence_row run (se_sha env) (so_include_plaintext opts) (artifact_for staged root_row f))
            (file_matches pack (so_max_bytes opts) f)) (find_artifacts entries)))"
proof -
  let ?scan = "scan_one (se_sha env) pack (so_max_bytes opts) (so_include_plaintext opts)"
  have files: "sj_files payload = map (\<lambda>f. entry_json (?scan f)) (find_artifacts entries)"
    using assms unfolding static_main_analysis analysis_def
    by (auto split: if_splits sum.splits analysis_error.splits)
  have "map_e (evidence_of run (staged_artifact staged root_row (entry_json (?scan f)))) (fj_matches (entry_json (?scan f))) =
      Inr (map (evidence_row run (se_sha env) (so_include_plaintext opts) (artifact_for staged root_row f))
            (file_matches pack (so_max_bytes opts) f))" for f
    by (subst map_e_unrefused [where g = "\<lambda>x. case evidence_of run (artifact_for staged root_row f) x of Inr e \<Rightarrow> e"])
      (auto simp: entry_matches staged_artifact_def artifact_for_def or_empty_def evidence_of_entry comp_def)
  then show ?thesis
    unfolding to_evidence_def files
    by (subst map_e_unrefused [where g = "\<lambda>x. case map_e (evidence_of run (staged_artifact staged root_row x)) (fj_matches x) of Inr e \<Rightarrow> e"])
      (auto simp: comp_def)
qed

text \<open>A hostile artifact can stop its own analysis: one manifest nested deeper than the JSON parser recurses
  makes the analyzer exit with status 1 and no document, whatever it found, unless the inventory was full
  before it got there.\<close>

theorem deep_manifest_fails_analysis:
  assumes "f \<in> set (find_artifacts entries)" "detect_in_file (se_loads env) (as_tree_file f) = Inl e" "so_components opts"
  shows "static_main env opts (Inr pack) entries = (1, None)
    \<or> (\<exists>iv. component_list (se_loads env) MAX_COMPONENTS (map as_tree_file (find_artifacts entries)) = Inr iv \<and> ci_truncated iv)"
proof -
  have mem: "as_tree_file f \<in> set (map as_tree_file (find_artifacts entries))" and some: "find_artifacts entries \<noteq> []"
    using assms(1) by auto
  show ?thesis
  proof (cases "component_list (se_loads env) MAX_COMPONENTS (map as_tree_file (find_artifacts entries))")
    case (Inl err)
    then show ?thesis
      by (cases err) (simp add: static_main_analysis analysis_def assms(3) some)
  next
    case (Inr iv)
    with deep_manifest_core [OF mem assms(2), of MAX_COMPONENTS] show ?thesis by auto
  qed
qed

definition npm_file :: staged_file where
  "npm_file = sample_file\<lparr>sf_path := ''package.json''\<rparr>"

lemma npm_artifacts: "find_artifacts [npm_file] = [npm_file]"
  by (simp add: find_artifacts_def npm_file_def sample_file_def)

theorem deep_manifest_fails_analysis_witness:
  "static_main (sample_static\<lparr>se_loads := (\<lambda>_. Too_Deep)\<rparr>) sample_options (Inr (demo_pack [])) [npm_file] = (1, None)
    \<or> (\<exists>iv. component_list (\<lambda>_. Too_Deep) MAX_COMPONENTS [as_tree_file npm_file] = Inr iv \<and> ci_truncated iv)"
proof -
  have "detect_in_file (\<lambda>_. Too_Deep) (as_tree_file npm_file) = Inl Recursion_Error"
    by (simp add: detect_in_file_def as_tree_file_def npm_file_def sample_file_def file_name_def py_lower_def lower_char_def
        from_package_json_def manifest_text_def MAX_MANIFEST_BYTES_def Let_def)
  then show ?thesis
    using deep_manifest_fails_analysis [of npm_file "[npm_file]" "sample_static\<lparr>se_loads := (\<lambda>_. Too_Deep)\<rparr>"
        Recursion_Error sample_options "demo_pack []"]
    by (simp add: npm_artifacts sample_options_def)
qed

definition sample_root :: artifact where
  "sample_root = \<lparr>a_id = ''root'', a_run_id = ''r1'', a_parent_id = None, a_name = ''a'', a_path_in_tree = ''a'', a_depth = 0,
     a_sha256 = [], a_size_bytes = 0, a_storage_key = None, a_extracted_by = None, a_kind = ''unknown'', a_media_type = None,
     a_architecture = None, a_identified = []\<rparr>"

theorem host_reads_every_match_witness:
  "\<exists>payload. static_main sample_static (sample_options\<lparr>so_components := False\<rparr>) (Inr (demo_pack [])) [sample_file] = (0, Some payload)
     \<and> to_evidence sample_run payload [] sample_root = Inr []"
proof -
  have "find_artifacts [sample_file] = [sample_file]" by (simp add: find_artifacts_def sample_file_def)
  then obtain payload where p: "static_main sample_static (sample_options\<lparr>so_components := False\<rparr>) (Inr (demo_pack [])) [sample_file]
      = (0, Some payload)"
    by (simp add: static_main_analysis analysis_def sample_options_def)
  have "file_matches (demo_pack []) n sample_file = []" for n
    by (simp add: file_matches_def sample_file_def scan_content_def scan_bytes_def enabled_rules_def demo_pack_def)
  then have "to_evidence sample_run payload [] sample_root = Inr []"
    using host_reads_every_match [OF p, of sample_run "[]" sample_root] \<open>find_artifacts [sample_file] = [sample_file]\<close> by simp
  with p show ?thesis by blast
qed

end
