(* ===== verification/Py_Json.thy ===== *)
theory Py_Json
  imports Bytes_Text Py_Values
begin

text \<open>
  Code points of UTF-8 characters, the codecs of the standard library that work on them, and
  \<open>json.dumps\<close>: with \<open>ensure_ascii\<close>, everything outside printable ASCII is an escape of UTF-16 code
  units. \<open>None\<close> is the \<open>TypeError\<close> of a value that JSON does not have.
\<close>

subsection \<open>Code points\<close>

fun code_point :: "string \<Rightarrow> nat" where
  "code_point [a] = of_char a"
| "code_point [a, b] = (of_char a - 192) * 64 + (of_char b - 128)"
| "code_point [a, b, c] = (of_char a - 224) * 4096 + (of_char b - 128) * 64 + (of_char c - 128)"
| "code_point [a, b, c, d] =
     (of_char a - 240) * 262144 + (of_char b - 128) * 4096 + (of_char c - 128) * 64 + (of_char d - 128)"
| "code_point _ = 0"

definition utf8_encode :: "nat \<Rightarrow> string" where
  "utf8_encode n =
     (if n < 128 then [char_of n]
      else if n < 2048 then [char_of (192 + n div 64), char_of (128 + n mod 64)]
      else if n < 65536 then [char_of (224 + n div 4096), char_of (128 + n div 64 mod 64), char_of (128 + n mod 64)]
      else [char_of (240 + n div 262144), char_of (128 + n div 4096 mod 64), char_of (128 + n div 64 mod 64),
            char_of (128 + n mod 64)])"

lemma of_char_byte: "k < 256 \<Longrightarrow> (of_char (char_of k :: char) :: nat) = k"
  by simp

lemma code_point_encode:
  assumes "n < 1114112"
  shows "code_point (utf8_encode n) = n"
proof -
  have tail: "(of_char (char_of (128 + k mod 64) :: char) :: nat) = 128 + k mod 64" for k
    by (rule of_char_byte) (use mod_less_divisor [of 64 k] in simp)
  have low: "n div 64 * 64 + n mod 64 = n" "n div 4096 * 64 + n div 64 mod 64 = n div 64"
      "n div 262144 * 64 + n div 4096 mod 64 = n div 4096"
    using div_mult_mod_eq [of n 64] div_mult_mod_eq [of "n div 64" 64] div_mult_mod_eq [of "n div 4096" 64]
    by (simp_all flip: div_mult2_eq)
  consider "n < 128" | "128 \<le> n" "n < 2048" | "2048 \<le> n" "n < 65536" | "65536 \<le> n" by linarith
  then show ?thesis
  proof cases
    case 1
    then show ?thesis by (simp add: utf8_encode_def)
  next
    case 2
    then have "192 + n div 64 < 256" by simp
    note lead = of_char_byte [OF this]
    from 2 have "utf8_encode n = [char_of (192 + n div 64), char_of (128 + n mod 64)]" by (simp add: utf8_encode_def)
    then have "code_point (utf8_encode n) = n div 64 * 64 + n mod 64"
      by (simp only: code_point.simps lead tail diff_add_inverse)
    also have "\<dots> = n" by (rule low(1))
    finally show ?thesis .
  next
    case 3
    then have "224 + n div 4096 < 256" by simp
    note lead = of_char_byte [OF this]
    from 3 have "utf8_encode n = [char_of (224 + n div 4096), char_of (128 + n div 64 mod 64), char_of (128 + n mod 64)]"
      by (simp add: utf8_encode_def)
    then have "code_point (utf8_encode n) = n div 4096 * 4096 + n div 64 mod 64 * 64 + n mod 64"
      by (simp only: code_point.simps lead tail diff_add_inverse)
    also have "\<dots> = n" using low(1,2) by linarith
    finally show ?thesis .
  next
    case 4
    have "240 + n div 262144 < 256" using assms by simp
    note lead = of_char_byte [OF this]
    from 4 have "utf8_encode n = [char_of (240 + n div 262144), char_of (128 + n div 4096 mod 64),
        char_of (128 + n div 64 mod 64), char_of (128 + n mod 64)]"
      by (simp add: utf8_encode_def)
    then have "code_point (utf8_encode n) = n div 262144 * 262144 + n div 4096 mod 64 * 4096 + n div 64 mod 64 * 64 + n mod 64"
      by (simp only: code_point.simps lead tail diff_add_inverse)
    also have "\<dots> = n" using low by linarith
    finally show ?thesis .
  qed
qed

text \<open>UTF-16 code units.\<close>

definition utf16_units :: "nat \<Rightarrow> nat list" where
  "utf16_units n =
     (if n < 65536 then [n] else [55296 + (n - 65536) div 1024, 56320 + (n - 65536) mod 1024])"

definition utf16le_encode :: "string \<Rightarrow> bytes" where
  "utf16le_encode t =
     concat (map (\<lambda>u. concat (map (\<lambda>w. [of_nat w, of_nat (w div 256)]) (utf16_units (code_point u)))) (utf8_chars t))"

text \<open>\<open>text.encode("latin-1")\<close>, \<open>None\<close> where it raises, and \<open>raw.decode("latin-1")\<close>.\<close>

fun latin1_all :: "string list \<Rightarrow> bytes option" where
  "latin1_all [] = Some []"
| "latin1_all (u # us) =
     (if code_point u < 256 then map_option (\<lambda>bs. of_nat (code_point u) # bs) (latin1_all us) else None)"

definition latin1_encode :: "string \<Rightarrow> bytes option" where
  "latin1_encode t = latin1_all (utf8_chars t)"

definition latin1_decode :: "bytes \<Rightarrow> string" where
  "latin1_decode bs = concat (map (\<lambda>b. utf8_encode (unat b)) bs)"

definition is_ascii_text :: "string \<Rightarrow> bool" where
  "is_ascii_text t \<longleftrightarrow> list_all (\<lambda>c. (of_char c :: nat) < 128) t"

text \<open>Which bytes \<open>raw.decode("utf-8")\<close> accepts: no overlong form, no surrogate, nothing past U+10FFFF.\<close>

definition cont_byte :: "byte \<Rightarrow> bool" where
  "cont_byte b \<longleftrightarrow> 128 \<le> unat b \<and> unat b < 192"

fun valid_utf8 :: "bytes \<Rightarrow> bool" where
  "valid_utf8 [] = True"
| "valid_utf8 (a # bs) =
     (let n = unat a in
      if n < 128 then valid_utf8 bs
      else if n < 194 then False
      else if n < 224 then
        (case bs of b # r \<Rightarrow> cont_byte b \<and> valid_utf8 r | [] \<Rightarrow> False)
      else if n < 240 then
        (case bs of
           b # c # r \<Rightarrow> cont_byte b \<and> cont_byte c \<and> (n = 224 \<longrightarrow> 160 \<le> unat b) \<and> (n = 237 \<longrightarrow> unat b < 160) \<and> valid_utf8 r
         | _ \<Rightarrow> False)
      else if n < 245 then
        (case bs of
           b # c # d # r \<Rightarrow> cont_byte b \<and> cont_byte c \<and> cont_byte d \<and> (n = 240 \<longrightarrow> 144 \<le> unat b) \<and> (n = 244 \<longrightarrow> unat b < 144)
             \<and> valid_utf8 r
         | _ \<Rightarrow> False)
      else False)"

subsection \<open>Hexadecimal\<close>

definition hex_width :: "nat \<Rightarrow> nat \<Rightarrow> string" where
  "hex_width width n = (let h = show_hex n in replicate (width - length h) CHR ''0'' @ h)"

definition show_hex_int :: "int \<Rightarrow> string" where
  "show_hex_int i = (if i < 0 then ''-'' @ show_hex (nat (- i)) else show_hex (nat i))"

definition hex_byte :: "byte \<Rightarrow> string" where
  "hex_byte b = [hex_digit (unat b div 16), hex_digit (unat b mod 16)]"

subsection \<open>JSON text\<close>

definition json_escape :: "string \<Rightarrow> string" where
  "json_escape u =
     (let n = code_point u in
      if n = 34 then [CHR 0x5C, CHR 0x22]
      else if n = 92 then [CHR 0x5C, CHR 0x5C]
      else if n = 10 then [CHR 0x5C, CHR ''n'']
      else if n = 13 then [CHR 0x5C, CHR ''r'']
      else if n = 9 then [CHR 0x5C, CHR ''t'']
      else if n = 8 then [CHR 0x5C, CHR ''b'']
      else if n = 12 then [CHR 0x5C, CHR ''f'']
      else if 32 \<le> n \<and> n < 127 then u
      else concat (map (\<lambda>w. [CHR 0x5C, CHR ''u''] @ hex_width 4 w) (utf16_units n)))"

definition json_string :: "string \<Rightarrow> string" where
  "json_string s = [CHR 0x22] @ concat (map json_escape (utf8_chars s)) @ [CHR 0x22]"

fun json_key :: "pyval \<Rightarrow> string option" where
  "json_key (PStr s) = Some s"
| "json_key (PBool b) = Some (if b then ''true'' else ''false'')"
| "json_key PNone = Some ''null''"
| "json_key (PInt i) = Some (show_int i)"
| "json_key (PFloat r t) = Some t"
| "json_key v = None"

fun sequence_o :: "'a option list \<Rightarrow> 'a list option" where
  "sequence_o [] = Some []"
| "sequence_o (x # xs) = Option.bind x (\<lambda>y. map_option (\<lambda>ys. y # ys) (sequence_o xs))"

text \<open>\<open>json.dumps(value, sort_keys=...)\<close> in one line. Keys that are text sort as text; a document read
  from JSON has no other.\<close>

fun json_dumps :: "bool \<Rightarrow> pyval \<Rightarrow> string option" where
  "json_dumps sorted_keys PNone = Some ''null''"
| "json_dumps sorted_keys (PBool b) = Some (if b then ''true'' else ''false'')"
| "json_dumps sorted_keys (PInt i) = Some (show_int i)"
| "json_dumps sorted_keys (PFloat r t) = Some t"
| "json_dumps sorted_keys (PStr s) = Some (json_string s)"
| "json_dumps sorted_keys (PDate d) = None"
| "json_dumps sorted_keys (PDateTime d t r) = None"
| "json_dumps sorted_keys (PList xs) =
     map_option (\<lambda>ts. ''['' @ join '', '' ts @ '']'') (sequence_o (map (json_dumps sorted_keys) xs))"
| "json_dumps sorted_keys (PDict kvs) =
     map_option
       (\<lambda>ts. ''{'' @ join '', '' (map (\<lambda>(k, t). json_string k @ '': '' @ t) (if sorted_keys then sort_key fst ts else ts)) @ ''}'')
       (sequence_o (map (\<lambda>(k, v). Option.bind (json_key k) (\<lambda>k'. map_option (Pair k') (json_dumps sorted_keys v))) kvs))"

text \<open>\<open>json.dumps(value, indent=2)\<close> at a depth.\<close>

definition fresh_line :: "nat \<Rightarrow> string" where
  "fresh_line depth = CHR 0x0A # replicate (2 * depth) CHR '' ''"

definition json_block :: "string \<Rightarrow> string \<Rightarrow> nat \<Rightarrow> string list \<Rightarrow> string" where
  "json_block open_text close_text depth ts =
     (if ts = [] then open_text @ close_text
      else open_text @ fresh_line (Suc depth) @ join ('','' @ fresh_line (Suc depth)) ts @ fresh_line depth @ close_text)"

fun json_pretty :: "nat \<Rightarrow> pyval \<Rightarrow> string option" where
  "json_pretty depth (PList xs) = map_option (json_block ''['' '']'' depth) (sequence_o (map (json_pretty (Suc depth)) xs))"
| "json_pretty depth (PDict kvs) =
     map_option (\<lambda>ts. json_block ''{'' ''}'' depth (map (\<lambda>(k, t). json_string k @ '': '' @ t) ts))
       (sequence_o (map (\<lambda>(k, v). Option.bind (json_key k) (\<lambda>k'. map_option (Pair k') (json_pretty (Suc depth) v))) kvs))"
| "json_pretty depth v = json_dumps False v"

text \<open>Values a JSON document can hold.\<close>

fun json_value :: "pyval \<Rightarrow> bool" where
  "json_value (PDate d) = False"
| "json_value (PDateTime d t r) = False"
| "json_value (PList xs) = list_all json_value xs"
| "json_value (PDict kvs) = list_all (\<lambda>(k, v). (case k of PStr s \<Rightarrow> True | _ \<Rightarrow> False) \<and> json_value v) kvs"
| "json_value v = True"

lemma sequence_o_Some: "list_all (\<lambda>x. x \<noteq> None) xs \<Longrightarrow> \<exists>ys. sequence_o xs = Some ys"
  by (induction xs) auto

text \<open>A value read from JSON can be written again.\<close>

lemma json_dumps_total: "json_value v \<Longrightarrow> \<exists>t. json_dumps sorted_keys v = Some t"
proof (induction v)
  case (PList xs)
  then have "list_all (\<lambda>x. x \<noteq> None) (map (json_dumps sorted_keys) xs)" by (auto simp: list_all_iff)
  from sequence_o_Some [OF this] show ?case by auto
next
  case (PDict kvs)
  have "list_all (\<lambda>x. x \<noteq> None)
      (map (\<lambda>(k, v). Option.bind (json_key k) (\<lambda>k'. map_option (Pair k') (json_dumps sorted_keys v))) kvs)"
    unfolding list_all_iff
  proof
    fix x
    assume "x \<in> set (map (\<lambda>(k, v). Option.bind (json_key k) (\<lambda>k'. map_option (Pair k') (json_dumps sorted_keys v))) kvs)"
    then obtain k v where kv: "(k, v) \<in> set kvs"
      "x = Option.bind (json_key k) (\<lambda>k'. map_option (Pair k') (json_dumps sorted_keys v))" by auto
    with PDict.prems obtain s where "k = PStr s" "json_value v" by (auto simp: list_all_iff split: pyval.splits)
    moreover from this kv PDict.IH obtain t where "json_dumps sorted_keys v = Some t" by fastforce
    ultimately show "x \<noteq> None" using kv(2) by simp
  qed
  from sequence_o_Some [OF this] show ?case by auto
qed simp_all

subsection \<open>Lengths in characters\<close>

lemma utf8_chars_head: "utf8_chars s = u # us \<Longrightarrow> u \<noteq> [] \<and> s \<noteq> [] \<and> hd u = hd s"
  by (cases s) (auto split: list.splits if_splits)

lemma utf8_chars_Cons_length:
  "length (utf8_chars (c # s)) = length (utf8_chars s) + (if s \<noteq> [] \<and> is_cont (hd s) then 0 else 1)"
proof (cases "utf8_chars s")
  case Nil
  then have "s = []" by (metis concat.simps(1) concat_utf8_chars)
  then show ?thesis by simp
next
  case (Cons u us)
  with utf8_chars_head [OF Cons] show ?thesis by (auto split: list.split)
qed

lemma utf8_chars_append: "length (utf8_chars (s @ t)) \<le> length (utf8_chars s) + length (utf8_chars t)"
proof (induction s)
  case (Cons c s)
  then show ?case
    unfolding append_Cons utf8_chars_Cons_length by (cases s) auto
qed simp

lemma utf8_chars_length: "length (utf8_chars s) \<le> length s"
  by (induction s) (simp_all add: utf8_chars_Cons_length del: utf8_chars.simps(2))

lemma utf8_take_length: "length (utf8_chars (utf8_take n s)) \<le> n"
proof -
  have single: "length (utf8_chars (concat us)) \<le> length us" if "\<forall>u \<in> set us. length (utf8_chars u) \<le> 1" for us
    using that
  proof (induction us)
    case (Cons u us)
    then show ?case using utf8_chars_append [of u "concat us"] by fastforce
  qed simp
  have "length (utf8_chars u) \<le> 1" if "u \<in> set (utf8_chars s)" for u
    using that
  proof (induction s arbitrary: u)
    case (Cons c s)
    show ?case
    proof (cases "utf8_chars s")
      case Nil
      with Cons.prems show ?thesis by simp
    next
      case (Cons v vs)
      note vs = this
      from utf8_chars_head [OF vs] obtain d w where v: "v = d # w" by (cases v) auto
      show ?thesis
      proof (cases "is_cont d \<and> u = c # v")
        case True
        with Cons.IH [of v] vs v show ?thesis
          by (simp add: utf8_chars_Cons_length del: utf8_chars.simps(2))
      next
        case False
        with Cons.prems vs v have "u = [c] \<or> u \<in> set (utf8_chars s)" by (auto split: if_splits)
        then show ?thesis using Cons.IH by auto
      qed
    qed
  qed simp
  then have "\<forall>u \<in> set (take n (utf8_chars s)). length (utf8_chars u) \<le> 1" by (meson in_set_takeD)
  from single [OF this] show ?thesis by (simp add: utf8_take_def)
qed

subsection \<open>Conversions that raise\<close>

text \<open>\<open>int(value)\<close> with the exception it raises.\<close>

definition int_or_raise :: "pyval \<Rightarrow> string + int" where
  "int_or_raise v =
     (case py_int v of
        Some i \<Rightarrow> Inr i
      | None \<Rightarrow>
          (case v of
             PStr s \<Rightarrow> Inl (''ValueError: invalid literal for int() with base 10: '' @ repr_str s)
           | _ \<Rightarrow> Inl (''TypeError: int() argument must be a string, a bytes-like object or a real number, not ''
                  @ [CHR 0x27] @ type_name v @ [CHR 0x27])))"

text \<open>\<open>float(value)\<close>; reading a text is a parameter.\<close>

definition float_or_raise :: "(string \<Rightarrow> rat option) \<Rightarrow> pyval \<Rightarrow> string + rat" where
  "float_or_raise read v =
     (case v of
        PFloat r t \<Rightarrow> Inr r
      | PInt i \<Rightarrow> Inr (of_int i)
      | PBool b \<Rightarrow> Inr (if b then 1 else 0)
      | PStr s \<Rightarrow> option_to_e ''ValueError'' (read s)
      | _ \<Rightarrow> Inl ''TypeError'')"

text \<open>\<open>data.get(key) or other\<close>.\<close>

definition got_or :: "(pyval \<times> pyval) list \<Rightarrow> string \<Rightarrow> pyval \<Rightarrow> pyval" where
  "got_or d k other = (let v = pd_get_or d k PNone in if py_truthy v then v else other)"

definition got_str :: "(pyval \<times> pyval) list \<Rightarrow> string \<Rightarrow> string \<Rightarrow> string" where
  "got_str d k other = py_str (got_or d k (PStr other))"

text \<open>Iterating over a value.\<close>

definition py_iter :: "pyval \<Rightarrow> string + pyval list" where
  "py_iter v =
     (case v of
        PList xs \<Rightarrow> Inr xs
      | PDict d \<Rightarrow> Inr (map fst d)
      | PStr s \<Rightarrow> Inr (map PStr (utf8_chars s))
      | _ \<Rightarrow> Inl ''TypeError'')"

subsection \<open>Reports\<close>

text \<open>\<open>json.dumps(value, indent=2, sort_keys=True, ensure_ascii=False)\<close>.\<close>

definition report_escape :: "string \<Rightarrow> string" where
  "report_escape u =
     (let n = code_point u in
      if n = 34 \<or> n = 92 \<or> n < 32 then json_escape u else u)"

definition report_string :: "string \<Rightarrow> string" where
  "report_string s = [CHR 0x22] @ concat (map report_escape (utf8_chars s)) @ [CHR 0x22]"

fun json_report :: "nat \<Rightarrow> pyval \<Rightarrow> string option" where
  "json_report depth (PStr s) = Some (report_string s)"
| "json_report depth (PList xs) = map_option (json_block ''['' '']'' depth) (sequence_o (map (json_report (Suc depth)) xs))"
| "json_report depth (PDict kvs) =
     map_option (\<lambda>ts. json_block ''{'' ''}'' depth (map (\<lambda>(k, t). report_string k @ '': '' @ t) (sort_key fst ts)))
       (sequence_o (map (\<lambda>(k, v). Option.bind (json_key k) (\<lambda>k'. map_option (Pair k') (json_report (Suc depth) v))) kvs))"
| "json_report depth v = json_dumps False v"

lemma json_report_total: "json_value v \<Longrightarrow> \<exists>t. json_report depth v = Some t"
proof (induction v arbitrary: depth)
  case (PList xs)
  then have "list_all (\<lambda>x. x \<noteq> None) (map (json_report (Suc depth)) xs)" by (fastforce simp: list_all_iff)
  from sequence_o_Some [OF this] show ?case by auto
next
  case (PDict kvs)
  have "list_all (\<lambda>x. x \<noteq> None)
      (map (\<lambda>(k, v). Option.bind (json_key k) (\<lambda>k'. map_option (Pair k') (json_report (Suc depth) v))) kvs)"
    unfolding list_all_iff
  proof
    fix x
    assume "x \<in> set (map (\<lambda>(k, v). Option.bind (json_key k) (\<lambda>k'. map_option (Pair k') (json_report (Suc depth) v))) kvs)"
    then obtain k v where kv: "(k, v) \<in> set kvs"
      "x = Option.bind (json_key k) (\<lambda>k'. map_option (Pair k') (json_report (Suc depth) v))" by auto
    with PDict.prems obtain s where "k = PStr s" "json_value v" by (auto simp: list_all_iff split: pyval.splits)
    moreover from this kv PDict.IH obtain t where "json_report (Suc depth) v = Some t" by fastforce
    ultimately show "x \<noteq> None" using kv(2) by simp
  qed
  from sequence_o_Some [OF this] show ?case by auto
qed simp_all

end
