(* ===== verification/Llm_Tools.thy ===== *)
theory Llm_Tools
  imports Py_Json Rules_Properties Store
begin

text \<open>
  The tools an investigating model may call (\<open>core/llm/tools.py\<close>): reading a window of a file, decoding,
  searching what the scan recorded, listing files, measuring entropy, and the masking of what they return.
  A tool that raises gives the text \<open>TypeName: message\<close> on the left. The database is the list of its rows;
  the object store (S3), the regular-expression compiler and the gzip and zlib decompressors are parameters.
\<close>

definition MAX_BYTES_WINDOW :: int where "MAX_BYTES_WINDOW = 512"
definition MAX_DECODE_INPUT :: nat where "MAX_DECODE_INPUT = 16384"
definition MAX_RESULT_CHARS :: nat where "MAX_RESULT_CHARS = 1200"
definition MAX_SEARCH_HITS :: nat where "MAX_SEARCH_HITS = 40"
definition MAX_ARTIFACTS_LISTED :: nat where "MAX_ARTIFACTS_LISTED = 60"

record tool_result =
  tr_ok :: bool
  tr_output :: string
  tr_detail :: string

definition tool_ok :: "string \<Rightarrow> string \<Rightarrow> tool_result" where
  "tool_ok output detail = \<lparr>tr_ok = True, tr_output = output, tr_detail = detail\<rparr>"

definition tool_refused :: "string \<Rightarrow> tool_result" where
  "tool_refused detail = \<lparr>tr_ok = False, tr_output = [], tr_detail = detail\<rparr>"

definition TRUNCATION_NOTE :: string where
  "TRUNCATION_NOTE = [CHR 0x0A] @ ''... [truncated at '' @ show_nat MAX_RESULT_CHARS @ '' characters]''"

definition truncated_result :: "tool_result \<Rightarrow> tool_result" where
  "truncated_result r =
     (if length (utf8_chars (tr_output r)) \<le> MAX_RESULT_CHARS then r
      else r\<lparr>tr_output := utf8_take MAX_RESULT_CHARS (tr_output r) @ TRUNCATION_NOTE\<rparr>)"

record tool_call =
  tc_tool :: string
  tc_arguments :: "(pyval \<times> pyval) list"
  tc_ok :: bool
  tc_output :: string
  tc_detail :: string

definition EM_DASH :: string where
  "EM_DASH = [CHR 0xE2, CHR 0x80, CHR 0x94]"

definition TOOL_SPECS :: "pyval list" where
\<open>TOOL_SPECS =
  [PDict
     [(PStr ''name'', PStr ''read_bytes''),
      (PStr ''description'', PStr ''Read a window of raw bytes from a file in this run, as hex and ASCII. Use it to see what surrounds a finding.''),
      (PStr ''arguments'', PDict [(PStr ''artifact_path'', PStr ''path of the file within the artifact tree''),
         (PStr ''offset'', PStr ''byte offset to start at''),
         (PStr ''length'', PStr ''how many bytes (default 256, max 512)'')])],
   PDict
     [(PStr ''name'', PStr ''decode''),
      (PStr ''description'', PStr ''Decode a string. Codecs: base64, base64url, hex, url, gzip, zlib, utf-16. Returns the decoded text when it is printable, otherwise a hex preview. Use it when a value looks encoded rather than random.''),
      (PStr ''arguments'', PDict [(PStr ''text'', PStr ''the string to decode''),
         (PStr ''codec'', PStr ''one of the codecs above'')])],
   PDict
     [(PStr ''name'', PStr ''search_strings''),
      (PStr ''description'', PStr (''Search the strings this scan already extracted, across every file in the run, by regular expression. Use it to find related values '' @ EM_DASH @ '' the other half of a credential pair, the same host mentioned elsewhere.'')),
      (PStr ''arguments'', PDict [(PStr ''pattern'', PStr ''a regular expression''),
         (PStr ''artifact_path'', PStr ''optional: restrict to one file'')])],
   PDict
     [(PStr ''name'', PStr ''list_files''),
      (PStr ''description'', PStr ''List the files in this run, with size and type.''),
      (PStr ''arguments'', PDict [])],
   PDict
     [(PStr ''name'', PStr ''entropy''),
      (PStr ''description'', PStr ''Shannon entropy of a string, in bits per character. High entropy (>4.0) suggests a real key; low suggests a word, path, or template.''),
      (PStr ''arguments'', PDict [(PStr ''text'', PStr ''the string to measure'')])]]\<close>

definition spec_name :: "pyval \<Rightarrow> string" where
  "spec_name spec = (case spec of PDict d \<Rightarrow> py_str (pd_get_or d ''name'' PNone) | _ \<Rightarrow> [])"

text \<open>\<open>tool_manifest\<close>: the list as the model sees it.\<close>

definition tool_manifest :: string where
  "tool_manifest = (case json_pretty 0 (PList TOOL_SPECS) of Some t \<Rightarrow> t | None \<Rightarrow> [])"

text \<open>The outcome of \<open>re.compile\<close>: a pattern to search with, a \<open>re.error\<close> with its message, or another
  exception.\<close>

datatype compiled = Compiled "string \<Rightarrow> bool" | Bad_Regex string | Compile_Raises string

record tool_world =
  tw_artifacts :: "artifact list"
  tw_evidence :: "evidence list"
  tw_get_range :: "string \<Rightarrow> int \<Rightarrow> int \<Rightarrow> string + bytes"
  tw_compile :: "string \<Rightarrow> compiled"
  tw_gunzip :: "bytes \<Rightarrow> string + bytes"
  tw_inflate :: "bytes \<Rightarrow> string + bytes"
  tw_isprintable :: "nat \<Rightarrow> bool"

record toolbox =
  tb_world :: tool_world
  tb_run_id :: string
  tb_allow_plaintext :: bool

subsection \<open>Masking\<close>

definition secretish :: "char \<Rightarrow> bool" where
  "secretish c \<longleftrightarrow> is_letter c \<or> is_digit c \<or> c \<in> {CHR ''+'', CHR ''/'', CHR ''='', CHR ''_'', CHR ''-''}"

text \<open>\<open>_SECRETISH.sub\<close>: a greedy match of twenty or more is a whole run of such characters.\<close>

function mask_secretish :: "string \<Rightarrow> string" where
  "mask_secretish [] = []"
| "mask_secretish (c # cs) =
     (if secretish c
      then (let run = takeWhile secretish (c # cs) in
            (if 20 \<le> length run then mask_value run else run) @ mask_secretish (dropWhile secretish (c # cs)))
      else c # mask_secretish cs)"
  by pat_completeness auto
termination by (relation "measure length") (auto simp: less_Suc_eq_le length_dropWhile_le)

definition emit :: "toolbox \<Rightarrow> string \<Rightarrow> string" where
  "emit tb t = (if tb_allow_plaintext tb then t else mask_secretish t)"

subsection \<open>Decoders\<close>

definition sextet :: "char \<Rightarrow> nat option" where
  "sextet c =
     (let n = (of_char c :: nat) in
      if is_upper c then Some (n - 65)
      else if is_lower c then Some (n - 71)
      else if is_digit c then Some (n + 4)
      else if c = CHR ''+'' then Some 62
      else if c = CHR ''/'' then Some 63
      else None)"

text \<open>\<open>binascii.a2b_base64\<close>: the position in the group of four, the bits left over, the padding seen.
  Strict mode refuses what is not in the alphabet, padding first, and anything after the padding.\<close>

fun a2b_from :: "bool \<Rightarrow> nat \<Rightarrow> nat \<Rightarrow> nat \<Rightarrow> bool \<Rightarrow> string \<Rightarrow> bytes option" where
  "a2b_from strict quad left pads padded [] = (if quad = 0 then Some [] else None)"
| "a2b_from strict quad left pads padded (c # cs) =
     (if c = CHR ''='' then
        (if 2 \<le> quad \<and> 4 \<le> quad + (pads + 1)
         then (if strict \<and> cs \<noteq> [] then None else Some [])
         else a2b_from strict quad left (if 2 \<le> quad then pads + 1 else pads) True cs)
      else (case sextet c of
              None \<Rightarrow> if strict then None else a2b_from strict quad left pads padded cs
            | Some v \<Rightarrow>
                if strict \<and> padded then None
                else if quad = 0 then a2b_from strict 1 v 0 padded cs
                else if quad = 1 then map_option (\<lambda>bs. of_nat (left * 4 + v div 16) # bs) (a2b_from strict 2 (v mod 16) 0 padded cs)
                else if quad = 2 then map_option (\<lambda>bs. of_nat (left * 16 + v div 4) # bs) (a2b_from strict 3 (v mod 4) 0 padded cs)
                else map_option (\<lambda>bs. of_nat (left * 64 + v) # bs) (a2b_from strict 0 0 0 padded cs)))"

definition a2b_base64 :: "bool \<Rightarrow> string \<Rightarrow> bytes option" where
  "a2b_base64 strict t = (if strict \<and> starts_with ''='' t then None else a2b_from strict 0 0 0 False t)"

definition pad_b64 :: "string \<Rightarrow> string" where
  "pad_b64 t = t @ replicate (nat ((- int (length (utf8_chars t))) mod 4)) CHR ''=''"

text \<open>The decoders give the name of the exception they raise.\<close>

definition decode_b64 :: "string \<Rightarrow> string + bytes" where
  "decode_b64 t = (if is_ascii_text t then option_to_e ''Error'' (a2b_base64 True (pad_b64 t)) else Inl ''ValueError'')"

definition decode_b64url :: "string \<Rightarrow> string + bytes" where
  "decode_b64url t =
     (if is_ascii_text t
      then option_to_e ''Error'' (a2b_base64 False
             (map (\<lambda>c. if c = CHR ''-'' then CHR ''+'' else if c = CHR ''_'' then CHR ''/'' else c) (pad_b64 t)))
      else Inl ''ValueError'')"

definition hex_value :: "char \<Rightarrow> nat option" where
  "hex_value c =
     (let n = (of_char c :: nat) in
      if is_digit c then Some (n - 48)
      else if 97 \<le> n \<and> n \<le> 102 then Some (n - 87)
      else if 65 \<le> n \<and> n \<le> 70 then Some (n - 55)
      else None)"

fun unhexlify :: "string \<Rightarrow> bytes option" where
  "unhexlify [] = Some []"
| "unhexlify [c] = None"
| "unhexlify (c # d # cs) =
     (case (hex_value c, hex_value d) of
        (Some h, Some l) \<Rightarrow> map_option (\<lambda>bs. of_nat (16 * h + l) # bs) (unhexlify cs)
      | _ \<Rightarrow> None)"

definition decode_hex :: "string \<Rightarrow> string + bytes" where
  "decode_hex t =
     (let digits = filter (\<lambda>c. c \<noteq> CHR '' '') (py_strip t) in
      if is_ascii_text digits then option_to_e ''Error'' (unhexlify digits) else Inl ''ValueError'')"

text \<open>\<open>unquote_to_bytes\<close>: a percent sign with two hexadecimal digits is a byte, any other one stays.\<close>

fun unquote_to_bytes :: "string \<Rightarrow> bytes" where
  "unquote_to_bytes [] = []"
| "unquote_to_bytes (c # cs) =
     (case (c = CHR ''%'', cs) of
        (True, h # l # rest) \<Rightarrow>
          (case (hex_value h, hex_value l) of
             (Some a, Some b) \<Rightarrow> of_nat (16 * a + b) # unquote_to_bytes rest
           | _ \<Rightarrow> of_nat (of_char c) # unquote_to_bytes cs)
      | _ \<Rightarrow> of_nat (of_char c) # unquote_to_bytes cs)"

definition decoders :: "tool_world \<Rightarrow> (string \<times> (string \<Rightarrow> string + bytes)) list" where
  "decoders w =
     [(''base64'', decode_b64), (''base64url'', decode_b64url), (''hex'', decode_hex),
      (''url'', \<lambda>t. Inr (unquote_to_bytes t)),
      (''gzip'', \<lambda>t. bind_e (option_to_e ''UnicodeEncodeError'' (latin1_encode t)) (tw_gunzip w)),
      (''zlib'', \<lambda>t. bind_e (option_to_e ''UnicodeEncodeError'' (latin1_encode t)) (tw_inflate w)),
      (''utf-16'', \<lambda>t. Inr (utf16le_encode t))]"

text \<open>\<open>c.isprintable() or c in newline, return, tab\<close>.\<close>

definition reads_as_text :: "(nat \<Rightarrow> bool) \<Rightarrow> string \<Rightarrow> bool" where
  "reads_as_text isprintable u =
     (let n = code_point u in if n < 128 then (32 \<le> n \<and> n < 127) \<or> n \<in> {9, 10, 13} else isprintable n)"

definition as_printable :: "(nat \<Rightarrow> bool) \<Rightarrow> bytes \<Rightarrow> string option" where
  "as_printable isprintable raw =
     (let t = (if valid_utf8 raw then map byte_char raw else latin1_decode raw);
          chars = utf8_chars t;
          good = length (filter (reads_as_text isprintable) chars)
      in if t = [] then None else if 85 * length chars < 100 * good then Some t else None)"

subsection \<open>The tools\<close>

definition run_artifacts :: "toolbox \<Rightarrow> artifact list" where
  "run_artifacts tb = filter (\<lambda>a. a_run_id a = tb_run_id tb) (tw_artifacts (tb_world tb))"

definition artifact_index :: "toolbox \<Rightarrow> (string, artifact) dict" where
  "artifact_index tb = dict_of a_path_in_tree id (run_artifacts tb)"

text \<open>\<open>ObjectStore.read_range\<close>: a ranged GET of at least one byte.\<close>

definition read_range :: "tool_world \<Rightarrow> string \<Rightarrow> int \<Rightarrow> int \<Rightarrow> string + bytes" where
  "read_range w key offset len = tw_get_range w key offset (offset + max len 1 - 1)"

definition hex_line :: "nat \<Rightarrow> bytes \<Rightarrow> string" where
  "hex_line base chunk =
     (let hexpart = join '' '' (map hex_byte chunk);
          ascii_part = map (\<lambda>b. if 0x20 \<le> unat b \<and> unat b < 0x7F then byte_char b else CHR ''.'') chunk
      in hex_width 8 base @ ''  '' @ hexpart @ replicate (47 - length hexpart) CHR '' '' @ ''  |'' @ ascii_part @ ''|'')"

fun hex_lines :: "nat \<Rightarrow> bytes \<Rightarrow> string list" where
  "hex_lines base [] = []"
| "hex_lines base (b # bs) = hex_line base (take 16 (b # bs)) # hex_lines (base + 16) (drop 15 bs)"

definition hex_dump :: "nat \<Rightarrow> bytes \<Rightarrow> string" where
  "hex_dump base data = join [CHR 0x0A] (hex_lines base data)"

definition read_bytes :: "toolbox \<Rightarrow> (pyval \<times> pyval) list \<Rightarrow> string + tool_result" where
  "read_bytes tb args =
     (let path = py_str (pd_get_or args ''artifact_path'' (PStr [])) in
      case map_of (artifact_index tb) path of
        None \<Rightarrow> Inr (tool_refused (''no file '' @ repr_str path @ '' in this run; call list_files first''))
      | Some a \<Rightarrow>
          if a_storage_key a \<in> {None, Some []}
          then Inr (tool_refused (repr_str path @ '' has no stored bytes (it was not retained)''))
          else
            bind_e (int_or_raise (pd_get_or args ''offset'' (PInt 0))) (\<lambda>asked.
            let offset = max 0 asked; wanted = pd_get_or args ''length'' (PInt 256) in
            bind_e (int_or_raise (if py_truthy wanted then wanted else PInt 256)) (\<lambda>n.
            let len = min n MAX_BYTES_WINDOW in
            bind_e (read_range (tb_world tb) (the (a_storage_key a)) offset len) (\<lambda>data.
            if data = [] then Inr (tool_refused (''no bytes at offset '' @ show_int offset @ '' in '' @ repr_str path))
            else Inr (tool_ok (emit tb (hex_dump (nat offset) data)) [])))))"

definition decode_tool :: "toolbox \<Rightarrow> (pyval \<times> pyval) list \<Rightarrow> string + tool_result" where
  "decode_tool tb args =
     (let t = utf8_take MAX_DECODE_INPUT (py_str (pd_get_or args ''text'' (PStr [])));
          codec = py_lower (py_strip (py_str (pd_get_or args ''codec'' (PStr []))));
          ds = decoders (tb_world tb)
      in if t = [] then Inr (tool_refused ''nothing to decode'')
         else (case map_of ds codec of
                 None \<Rightarrow> Inr (tool_refused (''unknown codec '' @ repr_str codec @ ''; try ''
                           @ py_repr (PList (map (PStr \<circ> fst) ds))))
               | Some d \<Rightarrow>
                   (case d t of
                      Inl exc \<Rightarrow> Inr (tool_refused (''not valid '' @ codec @ '': '' @ exc))
                    | Inr raw \<Rightarrow>
                        (case as_printable (tw_isprintable (tb_world tb)) raw of
                           Some printed \<Rightarrow>
                             Inr (tool_ok (emit tb printed) (show_nat (length raw) @ '' bytes, printable''))
                         | None \<Rightarrow>
                             Inr (tool_ok
                               (''not printable; first '' @ show_nat (min (length raw) 256) @ '' bytes as hex:''
                                  @ [CHR 0x0A] @ concat (map hex_byte (take 256 raw)))
                               (show_nat (length raw) @ '' bytes, binary''))))))"

definition hit_line :: "toolbox \<Rightarrow> evidence \<Rightarrow> string" where
  "hit_line tb e =
     ev_rule_id e @ ''  '' @ ev_value_masked e @ ''  ''
       @ (case map_of (rev (map (\<lambda>(p, a). (a_id a, p)) (artifact_index tb))) (ev_artifact_id e) of Some p \<Rightarrow> p | None \<Rightarrow> ''?'')
       @ '' @'' @ (case ev_offset e of Some off \<Rightarrow> ''0x'' @ show_hex_int off | None \<Rightarrow> ''?'')"

definition search_tool :: "toolbox \<Rightarrow> (pyval \<times> pyval) list \<Rightarrow> string + tool_result" where
  "search_tool tb args =
     (let pattern = py_str (pd_get_or args ''pattern'' (PStr []));
          path = pd_get_or args ''artifact_path'' PNone;
          rows = filter (\<lambda>e. ev_run_id e = tb_run_id tb) (tw_evidence (tb_world tb))
      in if pattern = [] then Inr (tool_refused ''a pattern is required'')
         else (case tw_compile (tb_world tb) pattern of
                 Bad_Regex message \<Rightarrow> Inr (tool_refused (''bad regular expression: '' @ message))
               | Compile_Raises exc \<Rightarrow> Inl exc
               | Compiled search \<Rightarrow>
                   (let report = (\<lambda>rs. let hits = take MAX_SEARCH_HITS (filter (\<lambda>e. search (ev_value_masked e)) rs) in
                          if hits = [] then tool_ok ''no matches'' ''0 hits''
                          else tool_ok (join [CHR 0x0A] (map (hit_line tb) hits)) (show_nat (length hits) @ '' hit(s)''))
                    in if py_truthy path
                       then (case map_of (artifact_index tb) (py_str path) of
                               None \<Rightarrow> Inr (tool_refused (''no file '' @ py_repr path @ '' in this run''))
                             | Some a \<Rightarrow> Inr (report (filter (\<lambda>e. ev_artifact_id e = a_id a) rows)))
                       else Inr (report rows))))"

definition list_files :: "toolbox \<Rightarrow> string + tool_result" where
  "list_files tb =
     (let rows = sort_key fst (artifact_index tb);
          shown = map (\<lambda>(p, a). p @ ''  '' @ show_int (a_size_bytes a) @ '' bytes  ''
                    @ (if a_kind a = [] then ''unknown'' else a_kind a)) (take MAX_ARTIFACTS_LISTED rows);
          more = (if MAX_ARTIFACTS_LISTED < length rows
                  then [''... and '' @ show_nat (length rows - MAX_ARTIFACTS_LISTED) @ '' more files''] else []);
          listing = join [CHR 0x0A] (shown @ more)
      in Inr (tool_ok (if listing = [] then ''no files'' else listing) (show_nat (length rows) @ '' file(s)'')))"

text \<open>\<open>f"{x:.2f}"\<close> of a non-negative number: ties go to the even digit.\<close>

definition round_even :: "real \<Rightarrow> int" where
  "round_even x =
     (let f = \<lfloor>x\<rfloor>; d = x - of_int f in
      if d < 1 / 2 then f else if 1 / 2 < d then f + 1 else if even f then f else f + 1)"

definition fixed2 :: "real \<Rightarrow> string" where
  "fixed2 x =
     (let n = nat (round_even (x * 100)) in
      show_nat (n div 100) @ ''.'' @ (if n mod 100 < 10 then ''0'' else []) @ show_nat (n mod 100))"

definition entropy_tool :: "(pyval \<times> pyval) list \<Rightarrow> string + tool_result" where
  "entropy_tool args =
     (let t = py_str (pd_get_or args ''text'' (PStr [])) in
      if t = [] then Inr (tool_refused ''nothing to measure'')
      else Inr (tool_ok (fixed2 (shannon_entropy (utf8_chars t)) @ '' bits/char over '' @ show_nat (length (utf8_chars t)) @ '' characters'') []))"

definition handler_for :: "toolbox \<Rightarrow> string \<Rightarrow> ((pyval \<times> pyval) list \<Rightarrow> string + tool_result) option" where
  "handler_for tb tool =
     map_of [(''read_bytes'', read_bytes tb), (''decode'', decode_tool tb), (''search_strings'', search_tool tb),
             (''list_files'', \<lambda>_. list_files tb), (''entropy'', entropy_tool)] tool"

definition toolbox_run :: "toolbox \<Rightarrow> string \<Rightarrow> (pyval \<times> pyval) list \<Rightarrow> tool_result" where
  "toolbox_run tb tool args =
     (case handler_for tb tool of
        None \<Rightarrow> tool_refused (''no such tool '' @ repr_str tool @ ''; available: '' @ join '', '' (map spec_name TOOL_SPECS))
      | Some h \<Rightarrow>
          (case h args of
             Inl exc \<Rightarrow> tool_refused (utf8_take 300 exc)
           | Inr r \<Rightarrow> truncated_result r))"

end
