(* ===== verification/Llm_Tools_Properties.thy ===== *)
theory Llm_Tools_Properties
  imports Llm_Tools
begin

text \<open>
  What the investigation tools guarantee: their output is bounded, they see nothing outside their run,
  text they return carries no long run of credential characters unless plaintext is allowed. And what
  they do not: the hex dump of \<open>read_bytes\<close> shows every byte, masked mode or not.
\<close>

subsection \<open>Runs of credential characters\<close>

fun short_runs :: "nat \<Rightarrow> string \<Rightarrow> bool" where
  "short_runs k [] = True"
| "short_runs k (c # cs) = (if secretish c then Suc k < 20 \<and> short_runs (Suc k) cs else short_runs 0 cs)"

lemma short_runs_le: "short_runs k s \<Longrightarrow> j \<le> k \<Longrightarrow> short_runs j s"
  by (induction k s arbitrary: j rule: short_runs.induct) (auto split: if_splits)

lemma short_runs_run:
  "short_runs k (run @ bs) \<Longrightarrow> list_all secretish run \<Longrightarrow> run \<noteq> [] \<Longrightarrow> k + length run < 20"
proof (induction run arbitrary: k)
  case (Cons c run)
  have "Suc k < 20" "short_runs (Suc k) (run @ bs)" using Cons.prems by simp_all
  with Cons.IH [of "Suc k"] Cons.prems(2) show ?case by (cases run) simp_all
qed simp

lemma short_runs_suffix: "short_runs k (as @ s) \<Longrightarrow> short_runs 0 s"
proof (induction as arbitrary: k)
  case Nil
  then show ?case using short_runs_le by force
next
  case (Cons a as)
  then show ?case by (auto split: if_splits)
qed

lemma short_runs_bound:
  assumes "short_runs k (as @ run @ bs)" "list_all secretish run"
  shows "length run < 20"
  using short_runs_run [OF short_runs_suffix [OF assms(1)] assms(2)] by (cases run) auto

lemma short_runs_block:
  "k + length s < 20 \<Longrightarrow> \<not> secretish c \<Longrightarrow> short_runs 0 t \<Longrightarrow> short_runs k (s @ c # t)"
  by (induction s arbitrary: k) auto

lemma short_runs_tail: "k + length s < 20 \<Longrightarrow> short_runs k s"
  by (induction s arbitrary: k) auto

lemma mask_secretish_id: "short_runs 0 s \<Longrightarrow> mask_secretish s = s"
proof (induction s rule: mask_secretish.induct)
  case (2 c cs)
  show ?case
  proof (cases "secretish c")
    case True
    let ?run = "takeWhile secretish (c # cs)" and ?rest = "dropWhile secretish (c # cs)"
    have "short_runs 0 (?run @ ?rest)" using "2.prems" by simp
    then have "length ?run < 20" "short_runs 0 ?rest"
      using short_runs_run [of 0 ?run ?rest] short_runs_suffix [of 0 ?run ?rest] True
      by (auto simp: list_all_iff dest: set_takeWhileD)
    then have "mask_secretish (c # cs) = ?run @ ?rest" using True "2.IH"(1) by (simp add: Let_def)
    then show ?thesis by simp
  next
    case False
    with 2 show ?thesis by simp
  qed
qed simp

lemma bullets_not_secretish: "c \<in> set (bullets n) \<Longrightarrow> \<not> secretish c"
  using bullets_set [of n]
  by (auto simp: secretish_def is_letter_def is_upper_def is_lower_def is_digit_def of_char_def)

lemma short_runs_skip: "list_all (\<lambda>c. \<not> secretish c) s \<Longrightarrow> short_runs 0 t \<Longrightarrow> short_runs 0 (s @ t)"
  by (induction s) auto

lemma mask_secretish_short: "short_runs 0 (mask_secretish s)"
proof (induction s rule: mask_secretish.induct)
  case (2 c cs)
  show ?case
  proof (cases "secretish c")
    case True
    let ?run = "takeWhile secretish (c # cs)" and ?rest = "dropWhile secretish (c # cs)"
    have rest: "short_runs 0 (mask_secretish ?rest)" using 2 True by simp
    have joined: "short_runs 0 (s @ mask_secretish ?rest)" if "length s < 20" for s
    proof (cases ?rest)
      case Nil
      then show ?thesis using short_runs_tail [of 0 s] that by simp
    next
      case (Cons d ds)
      then have "\<not> secretish d" using hd_dropWhile [of secretish "c # cs"] by simp
      with Cons have "mask_secretish ?rest = d # mask_secretish ds" by simp
      with rest \<open>\<not> secretish d\<close> show ?thesis
        using short_runs_block [of 0 s d "mask_secretish ds"] that by simp
    qed
    show ?thesis
    proof (cases "20 \<le> length ?run")
      case True
      have "short_runs 0 (take 4 ?run @ bullets 12 @ drop (length ?run - 4) ?run @ mask_secretish ?rest)"
      proof -
        obtain b bs where b: "bullets 12 = b # bs" by (metis bullets_Nil list.exhaust zero_neq_numeral)
        have "list_all (\<lambda>c. \<not> secretish c) (b # bs)"
          using bullets_not_secretish [of _ 12] b by (auto simp: list_all_iff)
        moreover have "short_runs 0 (drop (length ?run - 4) ?run @ mask_secretish ?rest)"
          by (rule joined) (use True in simp)
        ultimately show ?thesis unfolding b
          using short_runs_block [of 0 "take 4 ?run" b] short_runs_skip [of bs] by simp
      qed
      moreover have "mask_value ?run = take 4 ?run @ bullets 12 @ drop (length ?run - 4) ?run"
        using True by (simp add: mask_value_def)
      ultimately show ?thesis using True \<open>secretish c\<close> by (simp add: Let_def)
    next
      case False
      then show ?thesis using joined [of ?run] \<open>secretish c\<close> by (simp add: Let_def)
    qed
  next
    case False
    with 2 show ?thesis by simp
  qed
qed simp

text \<open>Without plaintext, nothing a tool emits as text holds twenty credential characters in a row.\<close>

theorem emitted_text_has_no_long_run:
  assumes "\<not> tb_allow_plaintext tb" "emit tb t = before @ run @ after" "list_all secretish run"
  shows "length run < 20"
proof (rule short_runs_bound)
  show "short_runs 0 (before @ run @ after)" using assms(1,2) mask_secretish_short [of t] by (simp add: emit_def)
qed (fact assms(3))

subsection \<open>The hex dump\<close>

lemma show_hex_length: "n < 16 ^ Suc k \<Longrightarrow> length (show_hex n) \<le> Suc k"
proof (induction k arbitrary: n)
  case 0
  then show ?case by (simp add: show_hex.simps [of n])
next
  case (Suc k)
  show ?case
  proof (cases "n < 16")
    case True
    then show ?thesis by (simp add: show_hex.simps [of n])
  next
    case False
    have "n div 16 < 16 ^ Suc k" using Suc.prems by (simp add: less_mult_imp_div_less mult.commute)
    from Suc.IH [OF this] False show ?thesis by (subst show_hex.simps) simp
  qed
qed

lemma hex_width_length: "n < 2 ^ 32 \<Longrightarrow> length (hex_width 8 n) = 8"
  using show_hex_length [of n 7] by (simp add: hex_width_def Let_def)

lemma hexpart_short:
  "\<not> secretish c \<Longrightarrow> short_runs 0 t \<Longrightarrow> short_runs 0 (join '' '' (map hex_byte chunk) @ c # t)"
proof (induction chunk)
  case (Cons b bs)
  have blank: "\<not> secretish CHR '' ''" by (simp add: secretish_def is_letter_def is_upper_def is_lower_def is_digit_def)
  show ?case
  proof (cases bs)
    case Nil
    then show ?thesis using short_runs_block [of 0 "hex_byte b" c t] Cons.prems by (simp add: hex_byte_def)
  next
    case (Cons b' bs')
    then show ?thesis
      using short_runs_block [OF _ blank Cons.IH [OF Cons.prems], of 0 "hex_byte b"]
      by (simp add: hex_byte_def)
  qed
qed simp

lemma plain_chars: "\<not> secretish CHR '' ''" "\<not> secretish CHR ''|''" "\<not> secretish CHR 0x0A"
  by (simp_all add: secretish_def is_letter_def is_upper_def is_lower_def is_digit_def)

lemma hex_line_short:
  assumes "base < 2 ^ 32" "length chunk \<le> 16" "short_runs 0 t"
  shows "short_runs 0 (hex_line base chunk @ t)"
proof -
  let ?hex = "join '' '' (map hex_byte chunk)"
  let ?ascii = "map (\<lambda>b. if 0x20 \<le> unat b \<and> unat b < 0x7F then byte_char b else CHR ''.'') chunk"
  have 1: "short_runs 0 (?ascii @ CHR ''|'' # t)" by (rule short_runs_block) (use assms plain_chars in simp_all)
  have 2: "short_runs 0 (replicate n CHR '' '' @ ''  |'' @ ?ascii @ ''|'' @ t)" for n
    using 1 plain_chars by (induction n) simp_all
  have 3: "short_runs 0 (?hex @ replicate n CHR '' '' @ ''  |'' @ ?ascii @ ''|'' @ t)" for n
  proof (cases n)
    case 0
    then show ?thesis using hexpart_short [OF plain_chars(1), of "'' |'' @ ?ascii @ ''|'' @ t" chunk] 1 plain_chars by simp
  next
    case (Suc m)
    then show ?thesis using hexpart_short [OF plain_chars(1) 2] by simp
  qed
  have "short_runs 0 (hex_width 8 base @ ''  '' @ ?hex @ replicate (47 - length ?hex) CHR '' '' @ ''  |'' @ ?ascii @ ''|'' @ t)"
    using short_runs_block [of 0 "hex_width 8 base" "CHR '' ''" "CHR '' '' # ?hex @ replicate (47 - length ?hex) CHR '' '' @ ''  |'' @ ?ascii @ ''|'' @ t"]
      hex_width_length [OF assms(1)] 3 plain_chars by simp
  then show ?thesis by (simp add: hex_line_def Let_def)
qed

lemma hex_dump_short: "base + length data \<le> 2 ^ 32 \<Longrightarrow> short_runs 0 (hex_dump base data)"
  unfolding hex_dump_def
proof (induction base data rule: hex_lines.induct)
  case (2 base b bs)
  have line: "short_runs 0 (hex_line base (take 16 (b # bs)) @ t)" if "short_runs 0 t" for t
    by (rule hex_line_short) (use "2.prems" that in simp_all)
  have rest: "short_runs 0 (join [CHR 0x0A] (hex_lines (base + 16) (drop 15 bs)))"
  proof (cases "drop 15 bs")
    case (Cons d ds)
    then have "15 < length bs" by (metis drop_all leI list.discI)
    then show ?thesis using "2.IH" "2.prems" by simp
  qed simp
  show ?case
  proof (cases "hex_lines (base + 16) (drop 15 bs)")
    case Nil
    then show ?thesis using line [of "[]"] by simp
  next
    case (Cons l ls)
    then show ?thesis using line [of "CHR 0x0A # join [CHR 0x0A] (l # ls)"] rest plain_chars by simp
  qed
qed simp

subsection \<open>Reading a dump back\<close>

definition line_bytes :: "string \<Rightarrow> bytes option" where
  "line_bytes l = unhexlify (filter (\<lambda>c. c \<noteq> CHR '' '') (take 47 (drop 10 l)))"

definition dumped_bytes :: "string \<Rightarrow> bytes option" where
  "dumped_bytes t = map_option concat (sequence_o (map line_bytes (split_on CHR 0x0A t)))"

lemma split_on_line: "c \<notin> set l \<Longrightarrow> split_on c (l @ c # t) = l # split_on c t"
  by (induction l) auto

lemma split_on_single: "c \<notin> set l \<Longrightarrow> split_on c l = [l]"
  by (induction l) auto

lemma split_on_join: "ls \<noteq> [] \<Longrightarrow> list_all (\<lambda>l. c \<notin> set l) ls \<Longrightarrow> split_on c (join [c] ls) = ls"
proof (induction ls rule: list_nonempty_induct)
  case (single l)
  then show ?case by (simp add: split_on_single)
next
  case (cons l ls)
  then show ?case by (simp add: join_Cons split_on_line)
qed

lemma nibble: "n < 16 \<Longrightarrow> hex_value (hex_digit n) = Some n \<and> hex_digit n \<noteq> CHR '' '' \<and> hex_digit n \<noteq> CHR 0x0A"
proof -
  assume n: "n < 16"
  have "(of_char (hex_digit n) :: nat) = (if n < 10 then 48 + n else 87 + n)"
    using n by (simp add: hex_digit_def)
  moreover from this n have "hex_digit n \<noteq> CHR '' ''" "hex_digit n \<noteq> CHR 0x0A" by (auto split: if_splits)
  ultimately show ?thesis using n by (auto simp: hex_value_def is_digit_def)
qed

lemma unat_byte: "unat (b :: byte) < 256"
  using unsigned_less [of b] by simp

lemma byte_split: "unat (b :: byte) div 16 < 16" "unat b mod 16 < 16"
    "of_nat (16 * (unat b div 16) + unat b mod 16) = b"
proof -
  show "unat b div 16 < 16" using unat_byte [of b] by (simp add: less_mult_imp_div_less)
  show "of_nat (16 * (unat b div 16) + unat b mod 16) = b" by simp
qed simp

lemma unhexlify_bytes: "unhexlify (concat (map hex_byte bs)) = Some bs"
proof (induction bs)
  case (Cons b bs)
  have "unhexlify (hex_byte b @ concat (map hex_byte bs)) = Some (b # bs)"
    using nibble [OF byte_split(1) [of b]] nibble [OF byte_split(2) [of b]] byte_split(3) [of b]
    by (simp add: hex_byte_def Cons.IH del: of_nat_add of_nat_mult)
  then show ?case by simp
qed simp

lemma hex_byte_chars: "c \<in> set (hex_byte b) \<Longrightarrow> c \<noteq> CHR '' '' \<and> c \<noteq> CHR 0x0A"
  using nibble [OF byte_split(1)] nibble [OF byte_split(2)] by (auto simp: hex_byte_def)

lemma hexpart_filter: "filter (\<lambda>c. c \<noteq> CHR '' '') (join '' '' (map hex_byte bs)) = concat (map hex_byte bs)"
proof (induction bs)
  case (Cons b bs)
  have "filter (\<lambda>c. c \<noteq> CHR '' '') (hex_byte b) = hex_byte b"
    using hex_byte_chars by (simp add: filter_id_conv)
  with Cons show ?case by (cases bs) simp_all
qed simp

lemma hexpart_length: "length (join '' '' (map hex_byte bs)) = 3 * length bs - 1"
proof (induction bs)
  case (Cons b bs)
  then show ?case by (cases bs) (simp_all add: hex_byte_def)
qed simp

lemma line_bytes_hex_line:
  assumes "base < 2 ^ 32" "length chunk \<le> 16"
  shows "line_bytes (hex_line base chunk) = Some chunk"
proof -
  let ?hex = "join '' '' (map hex_byte chunk)"
  have "length ?hex \<le> 47" using assms(2) by (simp add: hexpart_length)
  then have "take 47 (drop 10 (hex_line base chunk)) = ?hex @ replicate (47 - length ?hex) CHR '' ''"
    by (simp add: hex_line_def Let_def hex_width_length [OF assms(1)])
  then have "filter (\<lambda>c. c \<noteq> CHR '' '') (take 47 (drop 10 (hex_line base chunk))) = concat (map hex_byte chunk)"
    by (simp add: hexpart_filter)
  then show ?thesis by (simp add: line_bytes_def unhexlify_bytes)
qed

lemma show_hex_chars: "c \<in> set (show_hex n) \<Longrightarrow> c \<noteq> CHR 0x0A"
proof (induction n rule: show_hex.induct)
  case (1 n)
  then show ?case
    using nibble [of n] nibble [of "n mod 16"] by (subst (asm) show_hex.simps) (auto split: if_splits)
qed

lemma hex_line_chars: "CHR 0x0A \<notin> set (hex_line base chunk)"
proof -
  have "c \<noteq> CHR 0x0A" if "c \<in> set (join '' '' (map hex_byte chunk))" for c
    using that
  proof (induction chunk)
    case (Cons b bs)
    then show ?case using hex_byte_chars by (cases bs) auto
  qed simp
  moreover have "CHR 0x0A \<noteq> byte_char b" if "32 \<le> unat b" for b
  proof
    assume "CHR 0x0A = byte_char b"
    then have "byte_char b = CHR 0x0A" by simp
    then have "(of_char (byte_char b) :: nat) = 10" by simp
    with that show False using unat_byte [of b] by (simp add: byte_char_def)
  qed
  moreover have "CHR 0x0A \<notin> set (hex_width 8 base)"
    using show_hex_chars by (auto simp: hex_width_def Let_def)
  ultimately show ?thesis by (auto simp: hex_line_def Let_def split: if_splits)
qed

lemma hex_lines_bytes:
  "base + length data \<le> 2 ^ 32 \<Longrightarrow>
     \<exists>cs. sequence_o (map line_bytes (hex_lines base data)) = Some cs \<and> concat cs = data"
proof (induction base data rule: hex_lines.induct)
  case (2 base b bs)
  have "\<exists>cs. sequence_o (map line_bytes (hex_lines (base + 16) (drop 15 bs))) = Some cs \<and> concat cs = drop 15 bs"
  proof (cases "drop 15 bs")
    case (Cons d ds)
    then have "15 < length bs" by (metis drop_all leI list.discI)
    then show ?thesis using "2.IH" "2.prems" by simp
  qed simp
  then obtain cs where cs: "sequence_o (map line_bytes (hex_lines (base + 16) (drop 15 bs))) = Some cs"
    "concat cs = drop 15 bs" by blast
  have "line_bytes (hex_line base (take 16 (b # bs))) = Some (take 16 (b # bs))"
    by (rule line_bytes_hex_line) (use "2.prems" in simp_all)
  moreover have "take 16 (b # bs) @ drop 15 bs = b # bs"
    using append_take_drop_id [of 16 "b # bs"] by simp
  ultimately show ?case using cs by (intro exI [of _ "take 16 (b # bs) # cs"]) simp
qed simp

lemma hex_lines_chars: "list_all (\<lambda>l. CHR 0x0A \<notin> set l) (hex_lines base data)"
  by (induction base data rule: hex_lines.induct) (simp_all add: hex_line_chars)

lemma hex_dump_read:
  assumes "base + length data \<le> 2 ^ 32" "data \<noteq> []"
  shows "dumped_bytes (hex_dump base data) = Some data"
proof -
  have "hex_lines base data \<noteq> []" using assms(2) by (cases data) simp_all
  then have "split_on CHR 0x0A (hex_dump base data) = hex_lines base data"
    unfolding hex_dump_def by (rule split_on_join) (rule hex_lines_chars)
  with hex_lines_bytes [OF assms(1)] show ?thesis by (auto simp: dumped_bytes_def)
qed

lemma hex_line_length: "base < 2 ^ 32 \<Longrightarrow> length chunk \<le> 16 \<Longrightarrow> length (hex_line base chunk) \<le> 77"
  by (simp add: hex_line_def Let_def hex_width_length hexpart_length)

lemma hex_dump_length:
  "base + length data \<le> 2 ^ 32 \<Longrightarrow> length (hex_dump base data) \<le> 78 * ((length data + 15) div 16)"
  unfolding hex_dump_def
proof (induction base data rule: hex_lines.induct)
  case (2 base b bs)
  have line: "length (hex_line base (take 16 (b # bs))) \<le> 77"
    by (rule hex_line_length) (use "2.prems" in simp_all)
  show ?case
  proof (cases "drop 15 bs")
    case Nil
    then show ?thesis using line by simp
  next
    case (Cons d ds)
    then have longer: "15 < length bs" by (metis drop_all leI list.discI)
    then have "length (join [CHR 0x0A] (hex_lines (base + 16) (drop 15 bs))) \<le> 78 * ((length bs - 15 + 15) div 16)"
      using "2.IH" "2.prems" by simp
    moreover have "(length (b # bs) + 15) div 16 = Suc ((length bs - 15 + 15) div 16)" using longer by simp
    moreover have "hex_lines (base + 16) (drop 15 bs) \<noteq> []" using Cons by simp
    ultimately show ?thesis using line by (simp add: join_Cons)
  qed
qed simp

text \<open>Masking does not cover what \<open>read_bytes\<close> returns: a window of up to 240 bytes comes back whole
  whatever the redaction policy, and the bytes can be read from the text.\<close>

theorem masked_read_reveals_bytes:
  assumes "map_of (artifact_index tb) (py_str (pd_get_or args ''artifact_path'' (PStr []))) = Some a"
    and "a_storage_key a = Some key" "key \<noteq> []"
    and "int_or_raise (pd_get_or args ''offset'' (PInt 0)) = Inr offset" "0 \<le> offset"
    and "pd_get_or args ''length'' (PInt 256) = PInt len" "0 < len" "len \<le> 240"
    and "read_range (tb_world tb) key offset len = Inr data" "data \<noteq> []" "length data \<le> nat len"
    and "nat offset + length data \<le> 2 ^ 32"
  shows "tr_ok (toolbox_run tb ''read_bytes'' args) \<and> dumped_bytes (tr_output (toolbox_run tb ''read_bytes'' args)) = Some data"
proof -
  let ?dump = "hex_dump (nat offset) data"
  have emit: "emit tb ?dump = ?dump"
    by (simp add: emit_def mask_secretish_id [OF hex_dump_short [OF assms(12)]])
  have "read_bytes tb args = Inr (tool_ok ?dump [])"
    using assms by (simp add: read_bytes_def emit int_or_raise_def MAX_BYTES_WINDOW_def)
  moreover have "length (utf8_chars ?dump) \<le> MAX_RESULT_CHARS"
  proof -
    have "(length data + 15) div 16 \<le> 15" using assms(8,11) by simp
    with hex_dump_length [OF assms(12)] have "length ?dump \<le> 1170" by linarith
    with utf8_chars_length [of ?dump] show ?thesis by (simp add: MAX_RESULT_CHARS_def)
  qed
  ultimately have "toolbox_run tb ''read_bytes'' args = tool_ok ?dump []"
    by (simp add: toolbox_run_def handler_for_def truncated_result_def tool_ok_def)
  then show ?thesis using hex_dump_read [OF assms(12,10)] by (simp add: tool_ok_def)
qed

subsection \<open>Bounds and scope\<close>

text \<open>What a tool returns is bounded, whatever the model asked for.\<close>

theorem tool_output_is_bounded:
  "length (utf8_chars (tr_output (toolbox_run tb tool args))) \<le> MAX_RESULT_CHARS + 36"
proof -
  have tail: "length (utf8_chars TRUNCATION_NOTE) \<le> 36"
    by (rule le_trans [OF utf8_chars_length]) (simp add: TRUNCATION_NOTE_def MAX_RESULT_CHARS_def show_nat.simps)
  have "length (utf8_chars (tr_output (truncated_result r))) \<le> MAX_RESULT_CHARS + 36" for r
    using utf8_chars_append [of "utf8_take MAX_RESULT_CHARS (tr_output r)" TRUNCATION_NOTE]
      utf8_take_length [of MAX_RESULT_CHARS "tr_output r"] tail
    by (simp add: truncated_result_def)
  then show ?thesis by (simp add: toolbox_run_def tool_refused_def split: option.split sum.split)
qed

text \<open>The tools the prompt lists are exactly the tools there are.\<close>

lemma spec_names: "map spec_name TOOL_SPECS = [''read_bytes'', ''decode'', ''search_strings'', ''list_files'', ''entropy'']"
  by (simp add: TOOL_SPECS_def spec_name_def dict_simps)

lemma listed_tools_exist: "handler_for tb tool \<noteq> None \<longleftrightarrow> tool \<in> set (map spec_name TOOL_SPECS)"
  unfolding spec_names by (simp add: handler_for_def)

lemma tool_manifest_exists: "json_pretty 0 (PList TOOL_SPECS) = Some tool_manifest"
  by (simp add: tool_manifest_def TOOL_SPECS_def)

text \<open>Two states of the system that agree on one run: its files, its evidence, and the stored bytes of its
  files.\<close>

definition same_run_view :: "toolbox \<Rightarrow> toolbox \<Rightarrow> bool" where
  "same_run_view tb tb' \<longleftrightarrow>
     tb_run_id tb = tb_run_id tb' \<and> tb_allow_plaintext tb = tb_allow_plaintext tb'
     \<and> run_artifacts tb = run_artifacts tb'
     \<and> filter (\<lambda>e. ev_run_id e = tb_run_id tb) (tw_evidence (tb_world tb))
         = filter (\<lambda>e. ev_run_id e = tb_run_id tb) (tw_evidence (tb_world tb'))
     \<and> list_all (\<lambda>a. \<forall>key. a_storage_key a = Some key \<longrightarrow>
           tw_get_range (tb_world tb) key = tw_get_range (tb_world tb') key) (run_artifacts tb)
     \<and> tw_compile (tb_world tb) = tw_compile (tb_world tb') \<and> tw_gunzip (tb_world tb) = tw_gunzip (tb_world tb')
     \<and> tw_inflate (tb_world tb) = tw_inflate (tb_world tb') \<and> tw_isprintable (tb_world tb) = tw_isprintable (tb_world tb')"

text \<open>C25: the tools are scoped to their run: whatever else the database and the object store hold makes no
  difference to any answer.\<close>

theorem tools_see_only_their_run:
  assumes "same_run_view tb tb'"
  shows "toolbox_run tb tool args = toolbox_run tb' tool args"
proof -
  have index: "artifact_index tb = artifact_index tb'"
    using assms by (simp add: same_run_view_def artifact_index_def)
  have emits: "emit tb = emit tb'" using assms by (auto simp: same_run_view_def emit_def)
  have ranges: "read_range (tb_world tb) (the (a_storage_key a)) = read_range (tb_world tb') (the (a_storage_key a))"
    if "map_of (artifact_index tb) path = Some a" "a_storage_key a \<noteq> None" for path a
  proof -
    from that(1) have "List.find (\<lambda>x. a_path_in_tree x = path) (rev (run_artifacts tb)) = Some a"
      by (simp add: artifact_index_def dict_of_get)
    from find_SomeD [OF this] have "a \<in> set (run_artifacts tb)" by simp
    then show ?thesis using assms that(2) by (force simp: same_run_view_def list_all_iff read_range_def)
  qed
  have "read_bytes tb = read_bytes tb'"
    unfolding read_bytes_def index emits using ranges
    by (auto simp: fun_eq_iff index Let_def split: option.split)
  moreover have "decode_tool tb = decode_tool tb'"
  proof -
    have "decoders (tb_world tb) = decoders (tb_world tb')" "tw_isprintable (tb_world tb) = tw_isprintable (tb_world tb')"
      using assms by (simp_all add: decoders_def same_run_view_def)
    then show ?thesis by (intro ext) (simp only: decode_tool_def emits)
  qed
  moreover have "search_tool tb = search_tool tb'"
  proof -
    have "hit_line tb = hit_line tb'" by (rule ext) (simp add: hit_line_def index)
    moreover have "tw_compile (tb_world tb) = tw_compile (tb_world tb')"
      and evidence: "filter (\<lambda>e. ev_run_id e = tb_run_id tb) (tw_evidence (tb_world tb))
        = filter (\<lambda>e. ev_run_id e = tb_run_id tb) (tw_evidence (tb_world tb'))"
      and run: "tb_run_id tb = tb_run_id tb'"
      using assms unfolding same_run_view_def by blast+
    ultimately show ?thesis by (intro ext) (simp only: search_tool_def index evidence [unfolded run] run)
  qed
  moreover have "list_files tb = list_files tb'" by (simp add: list_files_def index)
  ultimately show ?thesis by (simp add: toolbox_run_def handler_for_def)
qed


subsection \<open>Witnesses\<close>

definition stored_file :: "string \<Rightarrow> artifact" where
  "stored_file r = \<lparr>a_id = ''a'', a_run_id = r, a_parent_id = None, a_name = ''f'', a_path_in_tree = ''f'', a_depth = 0,
     a_sha256 = [], a_size_bytes = 3, a_storage_key = Some ''k'', a_extracted_by = None, a_kind = ''text'',
     a_media_type = None, a_architecture = None, a_identified = []\<rparr>"

definition sample_toolbox :: "artifact list \<Rightarrow> toolbox" where
  "sample_toolbox files =
     \<lparr>tb_world = \<lparr>tw_artifacts = files, tw_evidence = [], tw_get_range = (\<lambda>key from upto. Inr (bytes_of ''key'')),
        tw_compile = (\<lambda>p. Compiled (\<lambda>t. True)), tw_gunzip = (\<lambda>bs. Inl ''BadGzipFile''), tw_inflate = (\<lambda>bs. Inl ''error''),
        tw_isprintable = (\<lambda>n. True)\<rparr>,
      tb_run_id = ''r'', tb_allow_plaintext = False\<rparr>"

definition window_args :: "(pyval \<times> pyval) list" where
  "window_args = [(PStr ''artifact_path'', PStr ''f''), (PStr ''length'', PInt 3)]"

theorem emitted_text_has_no_long_run_witness: "length ''key'' < (20 :: nat)"
  by (rule emitted_text_has_no_long_run [of "sample_toolbox []" "''the key.''" "''the ''" "''key''" "''.''"])
    (simp_all add: sample_toolbox_def emit_def secretish_def is_letter_def is_upper_def is_lower_def is_digit_def)

theorem masked_read_reveals_bytes_witness:
  "tr_ok (toolbox_run (sample_toolbox [stored_file ''r'']) ''read_bytes'' window_args)
     \<and> dumped_bytes (tr_output (toolbox_run (sample_toolbox [stored_file ''r'']) ''read_bytes'' window_args)) = Some (bytes_of ''key'')"
  by (rule masked_read_reveals_bytes [where a = "stored_file ''r''" and key = "''k''" and offset = 0 and len = 3])
    (simp_all add: sample_toolbox_def stored_file_def window_args_def dict_simps artifact_index_def run_artifacts_def
      dict_of_def int_or_raise_def read_range_def bytes_of_def)

theorem tools_see_only_their_run_witness:
  "toolbox_run (sample_toolbox [stored_file ''r'', stored_file ''other'']) ''list_files'' []
     = toolbox_run (sample_toolbox [stored_file ''r'']) ''list_files'' []"
  by (rule tools_see_only_their_run) (simp add: same_run_view_def sample_toolbox_def stored_file_def run_artifacts_def)

end
