(* ===== verification/Llm_Investigate.thy ===== *)
theory Llm_Investigate
  imports Llm_Triage Llm_Tools_Properties
begin

text \<open>
  Investigation (\<open>core/llm/investigate.py\<close>): a model drives the tools for one finding, one JSON object a
  turn, for at most \<open>max_steps\<close> turns. The model is unconstrained. \<open>None\<close> is an exception that leaves
  \<open>investigate_finding\<close>; the only call that can raise one is \<open>json.dumps\<close>. The time of the result is not
  kept.
\<close>

definition MAX_STEPS :: nat where "MAX_STEPS = 12"
definition MAX_CONTEXT_TURNS :: nat where "MAX_CONTEXT_TURNS = 4"

definition INVESTIGATE_PROMPT :: "string \<Rightarrow> nat \<Rightarrow> string" where
\<open>INVESTIGATE_PROMPT manifest max_steps = join [CHR 0x0A]
  [''You are a reverse engineer investigating one finding in a binary a company is about to ship. A deterministic scanner found it. Your job is to work out what it actually is and what it means, by looking at the artifact rather than by guessing.'',
   '''',
   ''You have tools. Use them. A typical investigation: look at the bytes around the value, notice the value is encoded, decode it, then search the run for related strings. Follow what you find.'',
   '''',
   ''TOOLS AVAILABLE:'',
   manifest,
   '''',
   ''PROTOCOL. Reply with exactly one JSON object per turn, and nothing else:'',
   '''',
   ''To use a tool:'',
   ''{"thought": "<why this step>", "tool": "<name>", "arguments": {...}}'',
   '''',
   ''To finish:'',
   ''{"thought": "<why you are done>", "conclusion": "<what this is, what it means, and what to do about it>", "confidence": "high" | "medium" | "low"}'',
   '''',
   ''Every argument must be a literal value. Write "offset": 4096, never'',
   ''"offset": <the offset> '' @ EM_DASH @ '' a placeholder is not valid JSON and the turn is wasted.'',
   ''The offsets you may use are given below; if you need one you were not given,'',
   ''find it with search_strings or read a window you can name.'',
   '''',
   ''RULES:'',
   ''- Ground every claim in a tool result. If the tools did not show it, do not assert it. Saying "the evidence does not settle this" is a good answer.'',
   ''- Values may be MASKED (shown with bullet characters). That is deliberate. Reason about shape, length, entropy, and position; never ask for the real value.'',
   ''- Do not pass a masked value to `decode` or `entropy`. The bullets are not the data, so the answer means nothing. Decode only text you read out of the bytes.'',
   ''- You cannot change the finding, its severity, or its location, and you cannot create a new one. You are writing an assessment.'',
   ''- Describe exposure and remediation only. Never write exploit code, credential recovery steps, or instructions for using what you find.'',
   ''- Stop as soon as you can answer. '' @ show_nat max_steps @ '' steps is the hard limit.'',
   '''']\<close>

record investigation =
  in_finding_id :: string
  in_run_id :: string
  in_conclusion :: string
  in_confidence :: string
  in_steps :: "tool_call list"
  in_calls :: "llm_call list"
  in_error :: "string option"
  in_duration_s :: rat

definition user_message :: "string \<Rightarrow> message" where
  "user_message t = \<lparr>ms_role = ''user'', ms_content = t\<rparr>"

definition assistant_message :: "string \<Rightarrow> message" where
  "assistant_message t = \<lparr>ms_role = ''assistant'', ms_content = t\<rparr>"

text \<open>\<open>_window\<close>: the recent tail of the conversation, and a note when there is more.\<close>

definition window :: "message list \<Rightarrow> message list" where
  "window history =
     (let keep = MAX_CONTEXT_TURNS * 2 in
      if length history \<le> keep then history
      else user_message (''['' @ show_nat ((length history - keep) div 2)
             @ '' earlier step(s) omitted to stay within the context window. Do not repeat them; build on what you have learned.]'')
           # drop (length history - keep) history)"

definition opening_prompt :: "(rat \<Rightarrow> string) \<Rightarrow> finding \<Rightarrow> finding_location list \<Rightarrow> string \<Rightarrow> nat \<Rightarrow> string" where
  "opening_prompt show_float f locations path_in_tree location_count =
     (let offsets = concat (map (\<lambda>l. case fl_offset l of Some off \<Rightarrow> [''0x'' @ show_hex_int off] | None \<Rightarrow> []) (take 5 locations)) in
      join [CHR 0x0A]
        ([''Investigate this finding.'', '''', ''Rule: '' @ f_rule_id f, ''Title: '' @ f_title f,
          ''Category: '' @ f_category f, ''Severity: '' @ severity_value (f_severity f),
          ''Masked value: '' @ f_value_masked f,
          ''Entropy: '' @ (case f_entropy f of Some e \<Rightarrow> show_float e | None \<Rightarrow> ''unknown''),
          ''File: '' @ path_in_tree, ''Occurrences: '' @ show_nat location_count]
         @ (if offsets \<noteq> [] then [''Byte offsets: '' @ join '', '' offsets] else [])
         @ (case f_context_snippet f of
              Some c \<Rightarrow> if c \<noteq> [] then [''Surrounding context (value masked): '' @ utf8_take 600 c] else []
            | None \<Rightarrow> [])
         @ ['''', ''Begin. Reply with one JSON object.'']))"

definition render_result :: "tool_result \<Rightarrow> string" where
  "render_result r =
     (if tr_ok r then ''TOOL RESULT'' else ''TOOL ERROR'') @ '':'' @ [CHR 0x0A]
       @ (if tr_ok r then tr_output r else tr_detail r)
       @ (if tr_ok r \<and> tr_detail r \<noteq> [] then [CHR 0x0A] @ ''('' @ tr_detail r @ '')'' else [])
       @ [CHR 0x0A, CHR 0x0A] @ ''Next JSON object.''"

text \<open>The parts of one investigation that do not change from turn to turn.\<close>

record inquiry =
  iq_env :: llm_env
  iq_provider :: provider
  iq_toolbox :: toolbox
  iq_finding :: finding
  iq_system :: message
  iq_opening :: message

record inquiry_state =
  is_history :: "message list"
  is_seen :: "(string, string) dict"
  is_result :: investigation

datatype turn = Ended investigation | Going inquiry_state

definition turn_messages :: "inquiry \<Rightarrow> inquiry_state \<Rightarrow> message list" where
  "turn_messages q st = iq_system q # iq_opening q # window (is_history st)"

definition turn_call :: "inquiry \<Rightarrow> nat \<Rightarrow> inquiry_state \<Rightarrow> llm_call" where
  "turn_call q step st =
     (let ms = turn_messages q st in
      (new_call (le_sha (iq_env q)) (iq_provider q) (Some (f_run_id (iq_finding q))) (Some (f_id (iq_finding q))) ''investigate''
         (if tb_allow_plaintext (iq_toolbox q) then ''none'' else ''strict'') ms)
        \<lparr>lc_prompt_rendered := Some (utf8_take 8000 (''[step '' @ show_nat (step + 1) @ ''] '' @ ms_content (last ms)))\<rparr>)"

definition UNPARSEABLE :: string where "UNPARSEABLE = ''(unparseable model response)''"
definition REPEATED :: string where "REPEATED = ''repeat of an earlier call; not re-executed''"

definition record_step :: "tool_call \<Rightarrow> investigation \<Rightarrow> investigation" where
  "record_step c r = r\<lparr>in_steps := in_steps r @ [c]\<rparr>"

definition say :: "string \<Rightarrow> string \<Rightarrow> inquiry_state \<Rightarrow> inquiry_state" where
  "say answer feedback st = st\<lparr>is_history := is_history st @ [assistant_message answer, user_message feedback]\<rparr>"

definition unparseable_turn :: "completion \<Rightarrow> inquiry_state \<Rightarrow> turn" where
  "unparseable_turn c st =
     (if py_truthy (pd_get_or (co_raw c) ''thinking'' PNone)
      then Ended ((is_result st)\<lparr>in_error := Some ''the model exhausted its token budget on reasoning without producing a complete answer; raise max_tokens for the investigate role or route it to a non-reasoning model''\<rparr>)
      else Going (say (utf8_take 1000 (co_text c))
             (''That was not a single JSON object. Reply with exactly one, either a tool call or a conclusion. Every argument must be a literal value ''
                @ EM_DASH @ '' never a placeholder like <offset>.'')
             (st\<lparr>is_result := record_step \<lparr>tc_tool = UNPARSEABLE, tc_arguments = [], tc_ok = False,
                 tc_output = utf8_take 1000 (co_text c), tc_detail = ''not a single JSON object''\<rparr> (is_result st)\<rparr>)))"

definition conclude_inquiry :: "(pyval \<times> pyval) list \<Rightarrow> investigation \<Rightarrow> investigation" where
  "conclude_inquiry payload r =
     (let confidence = py_lower (py_strip (py_str (pd_get_or payload ''confidence'' (PStr ''low'')))) in
      r\<lparr>in_conclusion := py_strip (py_str (pd_get_or payload ''conclusion'' (PStr []))),
        in_confidence := (if confidence \<in> {''high'', ''medium'', ''low''} then confidence else ''low'')\<rparr>)"

definition call_signature :: "string \<Rightarrow> (pyval \<times> pyval) list \<Rightarrow> string option" where
  "call_signature tool args = map_option (\<lambda>t. tool @ '':'' @ t) (json_dumps True (PDict args))"

definition wanted_tool :: "(pyval \<times> pyval) list \<Rightarrow> string" where
  "wanted_tool payload = py_strip (py_str (pd_get_or payload ''tool'' (PStr [])))"

definition wanted_arguments :: "(pyval \<times> pyval) list \<Rightarrow> (pyval \<times> pyval) list" where
  "wanted_arguments payload = (case pd_get_or payload ''arguments'' PNone of PDict d \<Rightarrow> d | _ \<Rightarrow> [])"

definition tool_turn :: "inquiry \<Rightarrow> (pyval \<times> pyval) list \<Rightarrow> inquiry_state \<Rightarrow> turn option" where
  "tool_turn q payload st =
     (let tool = wanted_tool payload; args = wanted_arguments payload in
      Option.bind (call_signature tool args) (\<lambda>signature.
      Option.bind (json_dumps False (PDict payload)) (\<lambda>said.
      Some (Going (case map_of (is_seen st) signature of
          Some seen \<Rightarrow>
            say said (''You already ran that exact call. It returned: '' @ seen @ [CHR 0x0A, CHR 0x0A]
                  @ ''Do something different, or conclude with what you have.'')
              (st\<lparr>is_result := record_step \<lparr>tc_tool = tool, tc_arguments = args, tc_ok = False, tc_output = [],
                  tc_detail = REPEATED\<rparr> (is_result st)\<rparr>)
        | None \<Rightarrow>
            (let outcome = toolbox_run (iq_toolbox q) tool args in
             say said (render_result outcome)
               (st\<lparr>is_seen := AList.update signature
                     (utf8_take 200 (if tr_output outcome \<noteq> [] then tr_output outcome else tr_detail outcome)) (is_seen st),
                   is_result := record_step \<lparr>tc_tool = tool, tc_arguments = args, tc_ok = tr_ok outcome,
                     tc_output = tr_output outcome, tc_detail = tr_detail outcome\<rparr> (is_result st)\<rparr>)))))))"

definition log_call :: "llm_call \<Rightarrow> inquiry_state \<Rightarrow> inquiry_state" where
  "log_call call st = st\<lparr>is_result := (is_result st)\<lparr>in_calls := in_calls (is_result st) @ [call],
     in_duration_s := in_duration_s (is_result st) + (case lc_duration_s call of Some d \<Rightarrow> d | None \<Rightarrow> 0)\<rparr>\<rparr>"

definition take_turn :: "inquiry \<Rightarrow> nat \<Rightarrow> inquiry_state \<Rightarrow> turn option" where
  "take_turn q step st =
     (let pv = iq_provider q; call = turn_call q step st in
      case pv_complete pv step (turn_messages q st) (pv_structured pv) 4000 of
        Inl exc \<Rightarrow>
          Some (Ended ((is_result (log_call (call\<lparr>lc_error := Some (utf8_take 1000 exc)\<rparr>) st))\<lparr>in_error :=
            Some (''the model became unreachable after '' @ show_nat step @ '' step(s): '' @ exc)\<rparr>))
      | Inr c \<Rightarrow>
          (let st = log_call (answered 8000 c call) st in
           case as_json (le_loads (iq_env q)) c of
             Some (p # ps) \<Rightarrow>
               (let payload = p # ps in
                if pd_get payload ''conclusion'' \<noteq> None then Some (Ended (conclude_inquiry payload (is_result st)))
                else tool_turn q payload st)
           | _ \<Rightarrow> Some (unparseable_turn c st)))"

fun inquire :: "inquiry \<Rightarrow> nat \<Rightarrow> nat \<Rightarrow> inquiry_state \<Rightarrow> investigation option" where
  "inquire q step 0 st = Some ((is_result st)\<lparr>in_error := Some (''the investigation did not reach a conclusion within ''
     @ show_nat step @ '' steps; the steps it did take are recorded below'')\<rparr>)"
| "inquire q step (Suc n) st =
     Option.bind (take_turn q step st) (\<lambda>t. case t of Ended r \<Rightarrow> Some r | Going st' \<Rightarrow> inquire q (Suc step) n st')"

definition start_inquiry :: "finding \<Rightarrow> inquiry_state" where
  "start_inquiry f =
     \<lparr>is_history = [], is_seen = [],
      is_result = \<lparr>in_finding_id = f_id f, in_run_id = f_run_id f, in_conclusion = [], in_confidence = ''low'',
        in_steps = [], in_calls = [], in_error = None, in_duration_s = 0\<rparr>\<rparr>"

definition investigate_finding ::
  "llm_env \<Rightarrow> provider \<Rightarrow> toolbox \<Rightarrow> finding \<Rightarrow> finding_location list \<Rightarrow> string \<Rightarrow> nat \<Rightarrow> nat \<Rightarrow> investigation option" where
  "investigate_finding env pv tb f locations path_in_tree location_count max_steps =
     inquire
       \<lparr>iq_env = env, iq_provider = pv, iq_toolbox = tb, iq_finding = f,
        iq_system = \<lparr>ms_role = ''system'', ms_content = INVESTIGATE_PROMPT tool_manifest max_steps\<rparr>,
        iq_opening = user_message (opening_prompt (le_show_float env) f locations path_in_tree location_count)\<rparr>
       0 max_steps (start_inquiry f)"

text \<open>What advisory roles write beside a finding.\<close>

record annotated = finding +
  an_explanation :: "string option"
  an_explained_by :: "string option"
  an_investigation :: "string option"
  an_steps :: "tool_call list"
  an_investigated_by :: "string option"
  an_confidence :: "string option"

definition apply_investigation :: "annotated \<Rightarrow> investigation \<Rightarrow> string \<Rightarrow> annotated" where
  "apply_investigation f r model = f\<lparr>an_investigation := Some (in_conclusion r), an_steps := in_steps r,
     an_investigated_by := Some model, an_confidence := Some (in_confidence r)\<rparr>"

end
