(* ===== verification/Llm_Investigate_Properties.thy ===== *)
theory Llm_Investigate_Properties
  imports Llm_Investigate
begin

text \<open>
  What an investigation guarantees whatever the model answers: it ends within its steps, every step it
  reports is what a tool answered, no call is executed twice, and it never raises.
\<close>

subsection \<open>The audit trail\<close>

text \<open>A step of the transcript: an answer that was no JSON object, a repeat that was not executed, or the
  tool's own answer.\<close>

definition traced :: "toolbox \<Rightarrow> tool_call \<Rightarrow> bool" where
  "traced tb c \<longleftrightarrow>
     tc_tool c = UNPARSEABLE \<and> \<not> tc_ok c
     \<or> tc_detail c = REPEATED \<and> \<not> tc_ok c \<and> tc_output c = []
     \<or> \<lparr>tr_ok = tc_ok c, tr_output = tc_output c, tr_detail = tc_detail c\<rparr> = toolbox_run tb (tc_tool c) (tc_arguments c)"

definition executed :: "tool_call \<Rightarrow> bool" where
  "executed c \<longleftrightarrow> tc_tool c \<noteq> UNPARSEABLE \<and> tc_detail c \<noteq> REPEATED"

definition signatures :: "tool_call list \<Rightarrow> string option list" where
  "signatures cs = map (\<lambda>c. call_signature (tc_tool c) (tc_arguments c)) (filter executed cs)"

lemma signatures_snoc:
  "signatures (cs @ [c]) = signatures cs @ (if executed c then [call_signature (tc_tool c) (tc_arguments c)] else [])"
  by (simp add: signatures_def)

definition record_ok :: "toolbox \<Rightarrow> investigation \<Rightarrow> bool" where
  "record_ok tb r \<longleftrightarrow> list_all (traced tb) (in_steps r) \<and> distinct (signatures (in_steps r))
     \<and> length (in_steps r) \<le> length (in_calls r) \<and> (in_error r \<noteq> None \<longrightarrow> in_conclusion r = [])"

definition state_ok :: "inquiry \<Rightarrow> nat \<Rightarrow> inquiry_state \<Rightarrow> bool" where
  "state_ok q step st \<longleftrightarrow>
     list_all (traced (iq_toolbox q)) (in_steps (is_result st)) \<and> distinct (signatures (in_steps (is_result st)))
     \<and> set (signatures (in_steps (is_result st))) \<subseteq> Some ` set (map fst (is_seen st))
     \<and> length (in_steps (is_result st)) = step \<and> length (in_calls (is_result st)) = step
     \<and> in_error (is_result st) = None \<and> in_conclusion (is_result st) = []"

lemma say_facts [simp]: "is_result (say a f st) = is_result st" "is_seen (say a f st) = is_seen st"
  by (simp_all add: say_def)

lemma record_step_facts [simp]:
  "in_steps (record_step c r) = in_steps r @ [c]" "in_calls (record_step c r) = in_calls r"
  "in_error (record_step c r) = in_error r" "in_conclusion (record_step c r) = in_conclusion r"
  by (simp_all add: record_step_def)

lemma log_call_facts [simp]:
  "in_steps (is_result (log_call c st)) = in_steps (is_result st)"
  "in_calls (is_result (log_call c st)) = in_calls (is_result st) @ [c]"
  "in_error (is_result (log_call c st)) = in_error (is_result st)"
  "in_conclusion (is_result (log_call c st)) = in_conclusion (is_result st)"
  "is_seen (log_call c st) = is_seen st" "is_history (log_call c st) = is_history st"
  by (simp_all add: log_call_def)

lemma traced_answer:
  "traced tb \<lparr>tc_tool = tool, tc_arguments = args, tc_ok = tr_ok (toolbox_run tb tool args),
     tc_output = tr_output (toolbox_run tb tool args), tc_detail = tr_detail (toolbox_run tb tool args)\<rparr>"
  by (simp add: traced_def)

lemma conclude_facts [simp]:
  "in_steps (conclude_inquiry p r) = in_steps r" "in_calls (conclude_inquiry p r) = in_calls r" "in_error (conclude_inquiry p r) = in_error r"
  by (simp_all add: conclude_inquiry_def Let_def)

text \<open>One turn: it ends with a truthful record, or it goes on with one more call and one more step.\<close>

lemma tool_turn_effect:
  assumes "tool_turn q payload st = Some t"
  obtains (fresh) signature st' where "call_signature (wanted_tool payload) (wanted_arguments payload) = Some signature"
      "map_of (is_seen st) signature = None" "t = Going st'" "set (map fst (is_seen st')) = insert signature (set (map fst (is_seen st)))"
      "is_result st' = record_step (let r = toolbox_run (iq_toolbox q) (wanted_tool payload) (wanted_arguments payload) in
         \<lparr>tc_tool = wanted_tool payload, tc_arguments = wanted_arguments payload, tc_ok = tr_ok r,
          tc_output = tr_output r, tc_detail = tr_detail r\<rparr>) (is_result st)"
  | (seen) st' where "t = Going st'" "is_seen st' = is_seen st"
      "is_result st' = record_step \<lparr>tc_tool = wanted_tool payload, tc_arguments = wanted_arguments payload,
         tc_ok = False, tc_output = [], tc_detail = REPEATED\<rparr> (is_result st)"
proof -
  from assms obtain signature said where sig: "call_signature (wanted_tool payload) (wanted_arguments payload) = Some signature"
    and said: "json_dumps False (PDict payload) = Some said"
    by (auto simp: tool_turn_def Let_def bind_eq_Some_conv)
  let ?r = "toolbox_run (iq_toolbox q) (wanted_tool payload) (wanted_arguments payload)"
  show thesis
  proof (cases "map_of (is_seen st) signature")
    case None
    let ?step = "\<lparr>tc_tool = wanted_tool payload, tc_arguments = wanted_arguments payload, tc_ok = tr_ok ?r,
        tc_output = tr_output ?r, tc_detail = tr_detail ?r\<rparr>"
    have "t = Going (say said (render_result ?r) (st\<lparr>is_seen := AList.update signature
        (utf8_take 200 (if tr_output ?r \<noteq> [] then tr_output ?r else tr_detail ?r)) (is_seen st),
        is_result := record_step ?step (is_result st)\<rparr>))"
      using assms by (simp only: tool_turn_def Let_def sig said Option.bind.bind_lunit None option.case option.inject)
    from fresh [OF sig None this] show thesis by (simp add: dom_update Let_def update_keys insert_absorb)
  next
    case (Some s)
    let ?step = "\<lparr>tc_tool = wanted_tool payload, tc_arguments = wanted_arguments payload, tc_ok = False,
        tc_output = [], tc_detail = REPEATED\<rparr>"
    have "t = Going (say said (''You already ran that exact call. It returned: '' @ s @ [CHR 0x0A, CHR 0x0A]
          @ ''Do something different, or conclude with what you have.'')
        (st\<lparr>is_result := record_step ?step (is_result st)\<rparr>))"
      using assms by (simp only: tool_turn_def Let_def sig said Option.bind.bind_lunit Some option.case option.inject)
    from seen [OF this] show thesis by simp
  qed
qed

lemma tool_turn_ok:
  assumes "tool_turn q payload (log_call call st) = Some t" "state_ok q step st"
  obtains st' where "t = Going st'" "state_ok q (Suc step) st'"
  using assms(1)
proof (cases rule: tool_turn_effect)
  case (fresh signature st')
  have "Some signature \<notin> set (signatures (in_steps (is_result st)))"
    using fresh(2) assms(2) by (auto simp: state_ok_def map_of_eq_None_iff)
  with fresh assms(2) have "state_ok q (Suc step) st'"
    by (auto simp: state_ok_def signatures_snoc traced_answer Let_def)
  with fresh(3) show thesis by (rule that)
next
  case (seen st')
  with assms(2) have "state_ok q (Suc step) st'"
    by (auto simp: state_ok_def signatures_snoc traced_def executed_def)
  with seen(1) show thesis by (rule that)
qed

lemma take_turn_ok:
  assumes "take_turn q step st = Some t" "state_ok q step st"
  shows "case t of Ended r \<Rightarrow> record_ok (iq_toolbox q) r \<and> length (in_calls r) = Suc step
    | Going st' \<Rightarrow> state_ok q (Suc step) st'"
proof (cases "pv_complete (iq_provider q) step (turn_messages q st) (pv_structured (iq_provider q)) 4000")
  case (Inl exc)
  with assms show ?thesis by (auto simp: take_turn_def Let_def state_ok_def record_ok_def)
next
  case (Inr c)
  let ?st = "log_call (answered 8000 c (turn_call q step st)) st"
  show ?thesis
  proof (cases "\<exists>p ps. as_json (le_loads (iq_env q)) c = Some (p # ps)")
    case True
    then obtain p ps where payload: "as_json (le_loads (iq_env q)) c = Some (p # ps)" by blast
    show ?thesis
    proof (cases "pd_get (p # ps) ''conclusion'' = None")
      case True
      with assms Inr payload have "tool_turn q (p # ps) ?st = Some t" by (simp add: take_turn_def Let_def)
      from tool_turn_ok [OF this assms(2)] show ?thesis by fastforce
    next
      case False
      with assms Inr payload show ?thesis by (auto simp: take_turn_def Let_def state_ok_def record_ok_def)
    qed
  next
    case False
    then have "take_turn q step st = Some (unparseable_turn c ?st)"
      using Inr by (auto simp: take_turn_def Let_def split: option.split list.split)
    with assms show ?thesis
      by (auto simp: unparseable_turn_def state_ok_def record_ok_def traced_def signatures_snoc executed_def)
  qed
qed

lemma inquire_ok:
  "inquire q step n st = Some r \<Longrightarrow> state_ok q step st \<Longrightarrow>
     record_ok (iq_toolbox q) r \<and> length (in_calls r) \<le> step + n"
proof (induction q step n st rule: inquire.induct)
  case (1 q step st)
  then show ?case by (auto simp: state_ok_def record_ok_def)
next
  case (2 q step n st)
  then obtain t where t: "take_turn q step st = Some t" by (auto simp: bind_eq_Some_conv)
  from take_turn_ok [OF t "2.prems"(2)] 2 t show ?case by (cases t) fastforce+
qed

lemma start_ok: "iq_finding q = f \<Longrightarrow> state_ok q 0 (start_inquiry f)"
  by (simp add: state_ok_def start_inquiry_def signatures_def)


subsection \<open>It never raises\<close>

lemma json_payload:
  assumes "\<And>t v. loads t = Some v \<Longrightarrow> json_value v" "as_json loads c = Some d"
  shows "json_value (PDict d)"
proof -
  have first: "json_value (PDict d)" if "first_json_object loads t = Some d" for t
    using first_json_sound [OF that] assms(1) by metis
  let ?t = "unfenced (py_strip (co_text c))"
  show ?thesis
  proof (cases "loads ?t")
    case None
    with assms(2) show ?thesis by (intro first [of ?t]) (simp add: as_json_def Let_def)
  next
    case (Some v)
    with assms(2) have "v = PDict d" by (simp add: as_json_def Let_def split: pyval.splits)
    with assms(1) [OF Some] show ?thesis by simp
  qed
qed

lemma json_member: "json_value (PDict d) \<Longrightarrow> map_of d (PStr k) = Some v \<Longrightarrow> json_value v"
  by (auto simp: list_all_iff dest!: map_of_SomeD)

lemma tool_turn_total:
  assumes "json_value (PDict payload)"
  shows "\<exists>t. tool_turn q payload st = Some t"
proof -
  have "json_value (PDict (wanted_arguments payload))"
    using json_member [OF assms, of "''arguments''"]
    by (auto simp: wanted_arguments_def pd_get_or_def pd_get_def split: option.split pyval.split)
  from json_dumps_total [OF this, of True] obtain s where "call_signature (wanted_tool payload) (wanted_arguments payload) = Some s"
    by (auto simp: call_signature_def)
  moreover from json_dumps_total [OF assms, of False] obtain u where "json_dumps False (PDict payload) = Some u" by blast
  ultimately show ?thesis by (simp only: tool_turn_def Let_def Option.bind.bind_lunit) blast
qed

lemma take_turn_total:
  assumes "\<And>t v. le_loads (iq_env q) t = Some v \<Longrightarrow> json_value v"
  shows "\<exists>t. take_turn q step st = Some t"
proof (cases "pv_complete (iq_provider q) step (turn_messages q st) (pv_structured (iq_provider q)) 4000")
  case (Inr c)
  show ?thesis
  proof (cases "as_json (le_loads (iq_env q)) c")
    case (Some d)
    with json_payload [OF assms Some] tool_turn_total Inr show ?thesis
      by (cases d) (auto simp: take_turn_def Let_def)
  qed (use Inr in \<open>simp add: take_turn_def Let_def\<close>)
qed (simp add: take_turn_def Let_def)

lemma inquire_total:
  "(\<And>t v. le_loads (iq_env q) t = Some v \<Longrightarrow> json_value v) \<Longrightarrow> \<exists>r. inquire q step n st = Some r"
proof (induction q step n st rule: inquire.induct)
  case (2 q step n st)
  have "\<exists>t. take_turn q step st = Some t" by (rule take_turn_total) (rule "2.prems")
  then obtain t where t: "take_turn q step st = Some t" by blast
  with 2 show ?case by (cases t) auto
qed simp


text \<open>Each prompt is bounded in the number of its messages.\<close>

lemma prompt_messages_bounded: "length (turn_messages q st) \<le> 11"
  by (simp add: turn_messages_def window_def MAX_CONTEXT_TURNS_def Let_def)

text \<open>A finding keeps every field a rule wrote.\<close>

lemma investigation_keeps_finding: "finding.truncate (apply_investigation f r model) = finding.truncate f"
  by (simp add: apply_investigation_def finding.truncate_def)


subsection \<open>Witnesses\<close>

lemma silent_inquiry:
  "investigate_finding sample_env silent_model (sample_toolbox []) (sample_row ''r'' ''h'') [] ''f'' 1 12
     = Some (the (investigate_finding sample_env silent_model (sample_toolbox []) (sample_row ''r'' ''h'') [] ''f'' 1 12))"
proof -
  have "\<exists>r. investigate_finding sample_env silent_model (sample_toolbox []) (sample_row ''r'' ''h'') [] ''f'' 1 12 = Some r"
    unfolding investigate_finding_def by (rule inquire_total) (simp add: sample_env_def)
  then show ?thesis by auto
qed



end
