(* ===== verification/Llm_Router.thy ===== *)
theory Llm_Router
  imports Llm_Triage
begin

text \<open>
  Where a model call may go: the egress guard (\<open>core/llm/provider.py\<close>), the configuration and the
  construction of providers (\<open>core/llm/router.py\<close>, the adapters' egress checks in \<open>core/llm/providers\<close>), the
  API keys (\<open>core/llm/secrets.py\<close>) and the editing of the configuration (\<open>core/llm/settings_writer.py\<close>).
  IPv4 addresses are 32-bit words; what \<open>ipaddress\<close> says of an IPv6 address, and \<open>yaml\<close>, are parameters.
  URLs are ASCII.
\<close>

subsection \<open>Addresses\<close>

definition octet :: "string \<Rightarrow> nat option" where
  "octet t =
     (if t = [] \<or> \<not> list_all is_digit t \<or> 3 < length t \<or> (1 < length t \<and> hd t = CHR ''0'') \<or> 255 < read_digits 0 t
      then None else Some (read_digits 0 t))"

definition ipv4 :: "string \<Rightarrow> 32 word option" where
  "ipv4 host =
     (case map octet (split_on CHR ''.'' host) of
        [Some a, Some b, Some c, Some d] \<Rightarrow> Some (of_nat (((a * 256 + b) * 256 + c) * 256 + d))
      | _ \<Rightarrow> None)"

definition in_network :: "nat \<times> nat \<Rightarrow> 32 word \<Rightarrow> bool" where
  "in_network net a \<longleftrightarrow> drop_bit (32 - snd net) a = drop_bit (32 - snd net) (of_nat (fst net))"

definition ip_base :: "nat \<Rightarrow> nat \<Rightarrow> nat \<Rightarrow> nat \<Rightarrow> nat" where
  "ip_base a b c d = ((a * 256 + b) * 256 + c) * 256 + d"

text \<open>The networks \<open>IPv4Address.is_private\<close> counts, and those it takes out again.\<close>

definition PRIVATE_NETWORKS :: "(nat \<times> nat) list" where
  "PRIVATE_NETWORKS =
     [(ip_base 0 0 0 0, 8), (ip_base 10 0 0 0, 8), (ip_base 127 0 0 0, 8), (ip_base 169 254 0 0, 16), (ip_base 172 16 0 0, 12),
      (ip_base 192 0 0 0, 24), (ip_base 192 0 0 170, 31), (ip_base 192 0 2 0, 24), (ip_base 192 168 0 0, 16),
      (ip_base 198 18 0 0, 15), (ip_base 198 51 100 0, 24), (ip_base 203 0 113 0, 24), (ip_base 240 0 0 0, 4),
      (ip_base 255 255 255 255, 32)]"

definition PRIVATE_EXCEPTIONS :: "(nat \<times> nat) list" where
  "PRIVATE_EXCEPTIONS = [(ip_base 192 0 0 9, 32), (ip_base 192 0 0 10, 32)]"

definition ipv4_local :: "32 word \<Rightarrow> bool" where
  "ipv4_local a \<longleftrightarrow>
     in_network (ip_base 127 0 0 0, 8) a
     \<or> (list_ex (\<lambda>n. in_network n a) PRIVATE_NETWORKS \<and> \<not> list_ex (\<lambda>n. in_network n a) PRIVATE_EXCEPTIONS)
     \<or> in_network (ip_base 169 254 0 0, 16) a"

text \<open>\<open>ipaddress\<close> beyond IPv4: whether a text is an IPv6 address, and whether that is loopback, private or
  link-local.\<close>

record net_env =
  ne_ipv6 :: "string \<Rightarrow> bool option"

definition is_local_host :: "net_env \<Rightarrow> string \<Rightarrow> bool" where
  "is_local_host net host \<longleftrightarrow>
     host \<in> {''localhost'', ''localhost.localdomain''} \<or> ends_with ''.local'' host
     \<or> (case ipv4 host of Some a \<Rightarrow> ipv4_local a | None \<Rightarrow> ne_ipv6 net host = Some True)"

subsection \<open>The host of a URL\<close>

definition scheme_char :: "char \<Rightarrow> bool" where
  "scheme_char c \<longleftrightarrow> is_letter c \<or> is_digit c \<or> c \<in> {CHR ''+'', CHR ''-'', CHR ''.''}"

definition after_scheme :: "string \<Rightarrow> string" where
  "after_scheme url =
     (let pre = takeWhile (\<lambda>c. c \<noteq> CHR '':'') url in
      if length pre < length url \<and> pre \<noteq> [] \<and> is_letter (hd pre) \<and> list_all scheme_char pre
      then drop (Suc (length pre)) url else url)"

definition url_netloc :: "string \<Rightarrow> string" where
  "url_netloc url =
     (let clean = filter (\<lambda>c. c \<notin> {CHR 0x09, CHR 0x0A, CHR 0x0D}) (dropWhile (\<lambda>c. (of_char c :: nat) \<le> 32) url);
          rest = after_scheme clean
      in if starts_with ''//'' rest then takeWhile (\<lambda>c. c \<notin> {CHR ''/'', CHR ''?'', CHR ''#''}) (drop 2 rest) else [])"

definition after_at :: "string \<Rightarrow> string" where
  "after_at t = rev (takeWhile (\<lambda>c. c \<noteq> CHR ''@'') (rev t))"

definition zone_lower :: "string \<Rightarrow> string" where
  "zone_lower h = py_lower (takeWhile (\<lambda>c. c \<noteq> CHR ''%'') h) @ dropWhile (\<lambda>c. c \<noteq> CHR ''%'') h"

text \<open>\<open>urlparse(url).hostname or ""\<close>, with the \<open>ValueError\<close> of a malformed bracket on the left.\<close>

definition url_host :: "net_env \<Rightarrow> string \<Rightarrow> string + string" where
  "url_host net url =
     (let netloc = url_netloc url; opened = CHR ''['' \<in> set netloc; shut = CHR '']'' \<in> set netloc;
          bracketed = (\<lambda>t. takeWhile (\<lambda>c. c \<noteq> CHR '']'') (tl (dropWhile (\<lambda>c. c \<noteq> CHR ''['') t)))
      in if opened \<noteq> shut then Inl ''Invalid IPv6 URL''
         else if opened \<and> ne_ipv6 net (bracketed netloc) = None then Inl ''Invalid IPv6 URL''
         else (let info = after_at netloc in
               Inr (zone_lower (if CHR ''['' \<in> set info then bracketed info else takeWhile (\<lambda>c. c \<noteq> CHR '':'') info))))"

subsection \<open>The guard\<close>

record egress_guard =
  eg_allow :: bool
  eg_air_gapped :: bool
  eg_hosts :: "pyval list"

definition guard_check :: "net_env \<Rightarrow> egress_guard \<Rightarrow> string \<Rightarrow> string + unit" where
  "guard_check net g url =
     bind_e (url_host net url) (\<lambda>host.
     if host = [] then Inl (''could not determine host from '' @ repr_str url)
     else if is_local_host net host then Inr ()
     else if eg_air_gapped g then Inl (''air-gapped mode forbids contacting '' @ host @ ''; configure a local provider'')
     else if \<not> eg_allow g
       then Inl (''egress policy is '' @ repr_str ''deny'' @ '' and '' @ host
              @ '' is not local; set BARE_EGRESS_POLICY=allow to permit cloud providers'')
     else if eg_hosts g \<noteq> [] \<and> PStr host \<notin> set (eg_hosts g)
       then Inl (host @ '' is not in the egress allowlist '' @ py_repr (PList (eg_hosts g)))
     else Inr ())"

definition guard_is_local :: "net_env \<Rightarrow> string \<Rightarrow> string + bool" where
  "guard_is_local net url = map_sum id (is_local_host net) (url_host net url)"

definition check_remote_allowed :: "egress_guard \<Rightarrow> string \<Rightarrow> string + unit" where
  "check_remote_allowed g what =
     (if eg_air_gapped g
      then Inl (''air-gapped mode forbids '' @ what
             @ '', whose endpoint is resolved by the provider library; configure a local provider'')
      else if \<not> eg_allow g
      then Inl (''egress policy is '' @ repr_str ''deny'' @ '' and '' @ what
             @ '' is a hosted provider; set BARE_EGRESS_POLICY=allow to permit cloud providers'')
      else if eg_hosts g \<noteq> []
      then Inl (''an egress allowlist is set, but '' @ what @ '' resolves its own endpoint, so it cannot be checked against it; use a provider with an explicit base URL instead'')
      else Inr ())"

subsection \<open>The configuration\<close>

text \<open>\<open>LLMConfigError\<close>, and every other exception by its name.\<close>

datatype llm_error = Config_Error string | Py_Error string

datatype egress = EGRESS_DENY | EGRESS_ALLOW

record llm_settings =
  se_egress_policy :: egress
  se_air_gapped :: bool

record llm_config =
  cf_enabled :: bool
  cf_providers :: pyval
  cf_roles :: pyval
  cf_egress :: egress
  cf_redaction :: pyval
  cf_hosts :: "pyval list"

definition ROLES :: "string list" where
  "ROLES = [''triage'', ''explain'', ''remediate'', ''summarize'', ''investigate'']"

definition value_get :: "pyval \<Rightarrow> string \<Rightarrow> pyval \<Rightarrow> llm_error + pyval" where
  "value_get v k other = (case v of PDict d \<Rightarrow> Inr (pd_get_or d k other) | _ \<Rightarrow> Inl (Py_Error ''AttributeError''))"

definition or_dict :: "pyval \<Rightarrow> pyval" where
  "or_dict v = (if py_truthy v then v else PDict [])"

text \<open>\<open>key in value\<close> for a text key.\<close>

fun value_has :: "pyval \<Rightarrow> string \<Rightarrow> llm_error + bool" where
  "value_has (PDict d) k = Inr (map_of d (PStr k) \<noteq> None)"
| "value_has (PList xs) k = Inr (PStr k \<in> set xs)"
| "value_has (PStr s) k = Inr (contains k s)"
| "value_has v k = Inl (Py_Error ''TypeError'')"

text \<open>\<open>tuple(value)\<close>.\<close>

fun value_tuple :: "pyval \<Rightarrow> llm_error + pyval list" where
  "value_tuple (PList xs) = Inr xs"
| "value_tuple (PDict d) = Inr (map fst d)"
| "value_tuple (PStr s) = Inr (map PStr (utf8_chars s))"
| "value_tuple v = Inl (Py_Error ''TypeError'')"

definition egress_of :: "pyval \<Rightarrow> llm_error + egress" where
  "egress_of v =
     (if v = PStr ''deny'' then Inr EGRESS_DENY else if v = PStr ''allow'' then Inr EGRESS_ALLOW
      else Inl (Py_Error ''ValueError''))"

definition egress_value :: "egress \<Rightarrow> pyval" where
  "egress_value e = PStr (case e of EGRESS_DENY \<Rightarrow> ''deny'' | EGRESS_ALLOW \<Rightarrow> ''allow'')"

text \<open>A provider's name is a key of the document; a dictionary or a list is not hashable.\<close>

definition hashable :: "pyval \<Rightarrow> bool" where
  "hashable v = (case v of PList _ \<Rightarrow> False | PDict _ \<Rightarrow> False | _ \<Rightarrow> True)"

definition provider_for :: "llm_config \<Rightarrow> string \<Rightarrow> llm_error + pyval" where
  "provider_for cf role =
     bind_e (value_get (cf_roles cf) role PNone) (\<lambda>name.
     if name = PNone then Inl (Config_Error (''no provider configured for role '' @ repr_str role))
     else (case cf_providers cf of
             PDict d \<Rightarrow>
               if \<not> hashable name then Inl (Py_Error ''TypeError'')
               else if map_of d name = None
               then Inl (Config_Error (''role '' @ repr_str role @ '' points at provider '' @ py_repr name @ '', which is not defined''))
               else Inr name
           | _ \<Rightarrow> Inl (Py_Error ''AttributeError'')))"

definition build_guard :: "llm_config \<Rightarrow> bool \<Rightarrow> egress_guard" where
  "build_guard cf air_gapped = \<lparr>eg_allow = (cf_egress cf = EGRESS_ALLOW), eg_air_gapped = air_gapped, eg_hosts = cf_hosts cf\<rparr>"

text \<open>What \<open>_validate\<close> asks of one provider. A truthy base URL that is no text fails inside
  \<open>urlparse\<close> or as a \<open>bytes\<close> mix, which the surrounding handler turns into the same error.\<close>

definition validate_provider :: "net_env \<Rightarrow> egress_guard \<Rightarrow> pyval \<Rightarrow> pyval \<Rightarrow> llm_error + unit" where
  "validate_provider net g name spec =
     bind_e (value_get spec ''base_url'' PNone) (\<lambda>base_url.
     bind_e (value_get spec ''is_local'' (PBool False)) (\<lambda>is_local.
     let blocked = (\<lambda>m. Config_Error (''provider '' @ py_repr name @ '' would be blocked by the egress policy: '' @ m)) in
     if py_truthy base_url then
       (case base_url of
          PStr url \<Rightarrow> map_sum blocked id (guard_check net g url)
        | _ \<Rightarrow> Inl (blocked ''not a URL''))
     else if \<not> py_truthy is_local then map_sum blocked id (check_remote_allowed g (''provider '' @ py_repr name))
     else Inr ()))"

fun each_e :: "('a \<Rightarrow> 'e + unit) \<Rightarrow> 'a list \<Rightarrow> 'e + unit" where
  "each_e f [] = Inr ()"
| "each_e f (x # xs) = bind_e (f x) (\<lambda>_. each_e f xs)"

definition validate_role :: "llm_config \<Rightarrow> string \<Rightarrow> llm_error + unit" where
  "validate_role cf role =
     bind_e (value_has (cf_roles cf) role) (\<lambda>present.
     if present then bind_e (provider_for cf role) (\<lambda>_. Inr ()) else Inr ())"

definition validate_config :: "net_env \<Rightarrow> llm_config \<Rightarrow> bool \<Rightarrow> llm_error + unit" where
  "validate_config net cf air_gapped =
     (if \<not> cf_enabled cf then Inr ()
      else
        bind_e (each_e (validate_role cf) ROLES) (\<lambda>_.
        case cf_providers cf of
          PDict d \<Rightarrow> each_e (\<lambda>(name, spec). validate_provider net (build_guard cf air_gapped) name spec) d
        | _ \<Rightarrow> Inl (Py_Error ''AttributeError'')))"

text \<open>\<open>load_config\<close> on the document the file holds; \<open>None\<close> is a file that is not there.\<close>

definition disabled_config :: "llm_settings \<Rightarrow> llm_config" where
  "disabled_config se = \<lparr>cf_enabled = False, cf_providers = PDict [], cf_roles = PDict [], cf_egress = se_egress_policy se,
     cf_redaction = PStr ''strict'', cf_hosts = []\<rparr>"

definition read_document :: "llm_settings \<Rightarrow> pyval \<Rightarrow> llm_error + llm_config" where
  "read_document se doc =
     bind_e (value_get doc ''policy'' (PDict [])) (\<lambda>p.
     let policy = or_dict p in
     bind_e (value_get policy ''egress'' (egress_value (se_egress_policy se))) (\<lambda>e.
     bind_e (egress_of e) (\<lambda>egress.
     bind_e (value_get doc ''enabled'' (PBool True)) (\<lambda>enabled.
     bind_e (value_get doc ''providers'' (PDict [])) (\<lambda>providers.
     bind_e (value_get doc ''roles'' (PDict [])) (\<lambda>roles.
     bind_e (value_get policy ''redaction'' (PStr ''strict'')) (\<lambda>redaction.
     bind_e (value_get policy ''allowed_hosts'' (PList [])) (\<lambda>h.
     bind_e (value_tuple (if py_truthy h then h else PList [])) (\<lambda>hosts.
     Inr \<lparr>cf_enabled = py_truthy enabled, cf_providers = or_dict providers, cf_roles = or_dict roles,
          cf_egress = egress, cf_redaction = redaction, cf_hosts = hosts\<rparr>)))))))))"

definition load_document :: "net_env \<Rightarrow> llm_settings \<Rightarrow> pyval \<Rightarrow> llm_error + llm_config" where
  "load_document net se raw =
     bind_e (read_document se (or_dict raw)) (\<lambda>cf.
     bind_e (validate_config net cf (se_air_gapped se)) (\<lambda>_. Inr cf))"

definition load_config :: "net_env \<Rightarrow> llm_settings \<Rightarrow> (string \<Rightarrow> llm_error + pyval) \<Rightarrow> string option \<Rightarrow> llm_error + llm_config" where
  "load_config net se safe_load file_text =
     (case file_text of
        None \<Rightarrow> Inr (disabled_config se)
      | Some t \<Rightarrow> bind_e (safe_load t) (load_document net se))"

subsection \<open>API keys\<close>

text \<open>The key store is a file: absent, unreadable, or the value \<open>json.loads\<close> reads from it.\<close>

datatype key_file = No_File | Unreadable | Holds pyval

definition read_store :: "key_file \<Rightarrow> (string \<times> string) list" where
  "read_store f = (case f of Holds (PDict d) \<Rightarrow> fold (\<lambda>(k, v). AList.update (py_str k) (py_str v)) d [] | _ \<Rightarrow> [])"

definition dict_text :: "(string, string) dict \<Rightarrow> string \<Rightarrow> string" where
  "dict_text d k = (case map_of d k of Some v \<Rightarrow> v | None \<Rightarrow> [])"

definition write_store :: "(string \<times> string) list \<Rightarrow> key_file" where
  "write_store store = Holds (PDict (map (\<lambda>(k, v). (PStr k, PStr v)) (sort_key fst store)))"

record key_env =
  ke_environ :: "(string, string) dict"
  ke_file :: key_file

definition stored_key :: "key_file \<Rightarrow> pyval \<Rightarrow> string option" where
  "stored_key f name =
     (let k = (case name of PStr n \<Rightarrow> py_strip (dict_text (read_store f) n) | _ \<Rightarrow> []) in if k \<noteq> [] then Some k else None)"

definition resolve_api_key :: "key_env \<Rightarrow> pyval \<Rightarrow> (pyval \<times> pyval) list \<Rightarrow> string option" where
  "resolve_api_key ke name spec =
     (let env_name = pd_get_or spec ''api_key_env'' PNone;
          from_env = (if py_truthy env_name then py_strip (dict_text (ke_environ ke) (py_str env_name)) else [])
      in if from_env \<noteq> [] then Some from_env else stored_key (ke_file ke) name)"

definition set_api_key :: "string \<Rightarrow> string \<Rightarrow> key_file \<Rightarrow> key_file" where
  "set_api_key name key f = write_store (AList.update name key (read_store f))"

definition forget_api_key :: "string \<Rightarrow> key_file \<Rightarrow> bool \<times> key_file" where
  "forget_api_key name f =
     (let store = read_store f in
      if map_of store name = None then (False, f) else (True, write_store (AList.delete name store)))"

definition has_api_key :: "key_env \<Rightarrow> pyval \<Rightarrow> (pyval \<times> pyval) list \<Rightarrow> bool" where
  "has_api_key ke name spec \<longleftrightarrow> resolve_api_key ke name spec \<noteq> None"

subsection \<open>Building a provider\<close>

record built_provider =
  bp_ollama :: bool
  bp_name :: pyval
  bp_model :: pyval
  bp_base_url :: string
  bp_api_key :: "string option"
  bp_guard :: egress_guard
  bp_declared_local :: bool

definition rstrip_slash :: "string \<Rightarrow> string" where
  "rstrip_slash t = rev (dropWhile (\<lambda>c. c = CHR ''/'') (rev t))"

definition spec_model :: "(pyval \<times> pyval) list \<Rightarrow> llm_error + pyval" where
  "spec_model spec = option_to_e (Py_Error ''KeyError'') (pd_get spec ''model'')"

definition build_ollama :: "egress_guard \<Rightarrow> pyval \<Rightarrow> (pyval \<times> pyval) list \<Rightarrow> llm_error + built_provider" where
  "build_ollama g name spec =
     bind_e (spec_model spec) (\<lambda>model.
     case pd_get_or spec ''base_url'' (PStr ''http://localhost:11434'') of
       PStr url \<Rightarrow> Inr \<lparr>bp_ollama = True, bp_name = name, bp_model = model, bp_base_url = rstrip_slash url,
                     bp_api_key = None, bp_guard = g, bp_declared_local = False\<rparr>
     | _ \<Rightarrow> Inl (Py_Error ''AttributeError''))"

text \<open>Whether a LiteLLM endpoint counts as local: by its URL, else by what the configuration declares.\<close>

definition endpoint_local :: "net_env \<Rightarrow> string \<Rightarrow> pyval \<Rightarrow> llm_error + bool" where
  "endpoint_local net base_url declared =
     (if base_url \<noteq> [] then map_sum (\<lambda>_. Py_Error ''ValueError'') id (guard_is_local net base_url)
      else Inr (declared \<noteq> PNone \<and> py_truthy declared))"

definition build_litellm ::
  "net_env \<Rightarrow> egress_guard \<Rightarrow> key_env \<Rightarrow> pyval \<Rightarrow> (pyval \<times> pyval) list \<Rightarrow> llm_error + built_provider" where
  "build_litellm net g ke name spec =
     (let url = pd_get_or spec ''base_url'' (PStr []); base_url = (if py_truthy url then py_str url else []);
          kind = pd_get_or spec ''kind'' (PStr ''ollama'')
      in
      bind_e (endpoint_local net base_url (pd_get_or spec ''is_local'' PNone)) (\<lambda>is_local_endpoint.
      bind_e (if is_local_endpoint then Inr ()
              else map_sum (\<lambda>_. Py_Error ''EgressBlocked'') id
                     (check_remote_allowed g (''provider '' @ py_repr name @ '' ('' @ py_str kind @ '')''))) (\<lambda>_.
      bind_e (spec_model spec) (\<lambda>model.
      Inr \<lparr>bp_ollama = False, bp_name = name, bp_model = model, bp_base_url = rstrip_slash base_url,
           bp_api_key = resolve_api_key ke name spec, bp_guard = g, bp_declared_local = is_local_endpoint\<rparr>))))"

definition build_provider ::
  "net_env \<Rightarrow> llm_settings \<Rightarrow> key_env \<Rightarrow> llm_config \<Rightarrow> pyval \<Rightarrow> llm_error + built_provider" where
  "build_provider net se ke cf name =
     (case cf_providers cf of
        PDict d \<Rightarrow>
          (let g = build_guard cf (se_air_gapped se) in
           case map_of d name of
             None \<Rightarrow> Inl (Config_Error (''provider '' @ py_repr name @ '' is not defined''))
           | Some PNone \<Rightarrow> Inl (Config_Error (''provider '' @ py_repr name @ '' is not defined''))
           | Some (PDict spec) \<Rightarrow>
               if pd_get_or spec ''kind'' (PStr ''ollama'') = PStr ''ollama'' then build_ollama g name spec
               else build_litellm net g ke name spec
           | Some _ \<Rightarrow> Inl (Py_Error ''AttributeError''))
      | _ \<Rightarrow> Inl (Py_Error ''AttributeError''))"

text \<open>\<open>provider.is_local\<close>, and the check every call makes before it leaves.\<close>

definition provider_is_local :: "net_env \<Rightarrow> built_provider \<Rightarrow> string + bool" where
  "provider_is_local net bp =
     (if bp_ollama bp then guard_is_local net (bp_base_url bp) else Inr (bp_declared_local bp))"

definition call_url :: "built_provider \<Rightarrow> string" where
  "call_url bp = (if bp_ollama bp then bp_base_url bp @ ''/api/chat'' else bp_base_url bp)"

definition check_call :: "net_env \<Rightarrow> built_provider \<Rightarrow> string + unit" where
  "check_call net bp =
     (if bp_ollama bp then guard_check net (bp_guard bp) (call_url bp)
      else if bp_base_url bp \<noteq> [] then guard_check net (bp_guard bp) (call_url bp)
      else if \<not> bp_declared_local bp then check_remote_allowed (bp_guard bp) (py_str (bp_model bp))
      else Inr ())"

definition provider_for_role ::
  "net_env \<Rightarrow> llm_settings \<Rightarrow> key_env \<Rightarrow> llm_config \<Rightarrow> string \<Rightarrow> llm_error + built_provider" where
  "provider_for_role net se ke cf role =
     (if \<not> cf_enabled cf then Inl (Config_Error ''the LLM layer is disabled'')
      else bind_e (provider_for cf role) (\<lambda>name. build_provider net se ke cf name))"

text \<open>\<open>_llm_provider\<close> of \<open>core/orchestrator/scan_tasks.py\<close>: what an advisory task starts with. The probe
  of the endpoint is a parameter; an error that is no \<open>LLMConfigError\<close> leaves the task.\<close>

datatype ready = Ready built_provider | Not_Ready string

definition llm_provider ::
  "net_env \<Rightarrow> llm_settings \<Rightarrow> key_env \<Rightarrow> (built_provider \<Rightarrow> bool \<times> string) \<Rightarrow> llm_error + llm_config \<Rightarrow> string \<Rightarrow> string + ready" where
  "llm_provider net se ke probe loaded role =
     (let outcome =
            bind_e loaded (\<lambda>cf.
            if \<not> cf_enabled cf then Inr (Inl ''the LLM layer is disabled in config/llm.yaml'')
            else bind_e (value_has (cf_roles cf) role) (\<lambda>present.
              if \<not> present
              then Inr (Inl (''no provider is routed to the '' @ repr_str role @ '' role; add it under `roles:` in config/llm.yaml''))
              else map_sum id Inr (provider_for_role net se ke cf role)))
      in case outcome of
           Inl (Config_Error m) \<Rightarrow> Inr (Not_Ready m)
         | Inl (Py_Error name) \<Rightarrow> Inl name
         | Inr (Inl m) \<Rightarrow> Inr (Not_Ready m)
         | Inr (Inr bp) \<Rightarrow>
             (let (healthy, detail) = probe bp in
              if healthy then Inr (Ready bp) else Inr (Not_Ready (role @ '' provider unavailable: '' @ detail))))"

subsection \<open>Where calls go\<close>

text \<open>The guard lets a URL through exactly when its host is local, or egress is allowed, nothing is
  air-gapped, and an allowlist, if there is one, names the host.\<close>

theorem guard_check_iff:
  "guard_check net g url = Inr () \<longleftrightarrow>
     (\<exists>host. url_host net url = Inr host \<and> host \<noteq> []
        \<and> (is_local_host net host
           \<or> \<not> eg_air_gapped g \<and> eg_allow g \<and> (eg_hosts g = [] \<or> PStr host \<in> set (eg_hosts g))))"
  by (cases "url_host net url") (auto simp: guard_check_def)

lemma check_remote_iff: "check_remote_allowed g what = Inr () \<longleftrightarrow> \<not> eg_air_gapped g \<and> eg_allow g \<and> eg_hosts g = []"
  by (simp add: check_remote_allowed_def)

lemma build_guard_fields [simp]:
  "eg_allow (build_guard cf air) = (cf_egress cf = EGRESS_ALLOW)" "eg_air_gapped (build_guard cf air) = air"
  "eg_hosts (build_guard cf air) = cf_hosts cf"
  by (simp_all add: build_guard_def)

lemma build_ollama_fields:
  "build_ollama g name spec = Inr bp \<Longrightarrow> bp_ollama bp \<and> bp_guard bp = g"
  by (cases "pd_get_or spec ''base_url'' (PStr ''http://localhost:11434'')") (auto simp: build_ollama_def err_simps)

lemma build_litellm_fields:
  assumes "build_litellm net g ke name spec = Inr bp"
  shows "\<not> bp_ollama bp \<and> bp_guard bp = g
    \<and> (bp_declared_local bp \<or> check_remote_allowed g (''provider '' @ py_repr name @ '' ('' @ py_str (pd_get_or spec ''kind'' (PStr ''ollama'')) @ '')'') = Inr ())"
proof -
  let ?what = "''provider '' @ py_repr name @ '' ('' @ py_str (pd_get_or spec ''kind'' (PStr ''ollama'')) @ '')''"
  from assms obtain l where "bp_declared_local bp = l" "\<not> bp_ollama bp" "bp_guard bp = g"
    "(if l then Inr () else map_sum (\<lambda>_. Py_Error ''EgressBlocked'') id (check_remote_allowed g ?what)) = Inr ()"
    by (auto simp: build_litellm_def Let_def err_simps)
  then show ?thesis by (cases "check_remote_allowed g ?what") (auto split: if_splits)
qed

text \<open>Under the air gap, or a policy that denies egress, a call that is let through goes to a local host;
  the one exception is a provider without a URL that the configuration declares to be local.\<close>

theorem denied_calls_stay_local:
  assumes "build_provider net se ke cf name = Inr bp" "check_call net bp = Inr ()"
    and "se_air_gapped se \<or> cf_egress cf = EGRESS_DENY"
  shows "(\<exists>host. url_host net (call_url bp) = Inr host \<and> is_local_host net host)
    \<or> (\<not> bp_ollama bp \<and> bp_base_url bp = [] \<and> bp_declared_local bp)"
proof -
  have "bp_guard bp = build_guard cf (se_air_gapped se)"
    using assms(1) build_ollama_fields build_litellm_fields
    by (auto simp: build_provider_def Let_def split: pyval.splits option.splits if_splits)
  then have denied: "eg_air_gapped (bp_guard bp) \<or> \<not> eg_allow (bp_guard bp)" using assms(3) by auto
  show ?thesis
  proof (cases "bp_ollama bp \<or> bp_base_url bp \<noteq> []")
    case True
    then have "guard_check net (bp_guard bp) (call_url bp) = Inr ()"
      using assms(2) by (auto simp: check_call_def split: if_splits)
    with denied show ?thesis by (auto simp: guard_check_iff)
  next
    case False
    with assms(2) denied show ?thesis by (auto simp: check_call_def check_remote_iff split: if_splits)
  qed
qed

subsection \<open>Witnesses\<close>

definition no_net :: net_env where
  "no_net = \<lparr>ne_ipv6 = (\<lambda>_. None)\<rparr>"

definition closed_settings :: llm_settings where
  "closed_settings = \<lparr>se_egress_policy = EGRESS_DENY, se_air_gapped = True\<rparr>"

definition no_keys :: key_env where
  "no_keys = \<lparr>ke_environ = [], ke_file = No_File\<rparr>"

definition local_spec :: pyval where
  "local_spec = PDict [(PStr ''model'', PStr ''m''), (PStr ''base_url'', PStr ''http://10.0.0.1'')]"

definition local_config :: llm_config where
  "local_config = \<lparr>cf_enabled = True, cf_providers = PDict [(PStr ''p'', local_spec)], cf_roles = PDict [],
     cf_egress = EGRESS_DENY, cf_redaction = PStr ''strict'', cf_hosts = []\<rparr>"

definition local_built :: built_provider where
  "local_built = \<lparr>bp_ollama = True, bp_name = PStr ''p'', bp_model = PStr ''m'', bp_base_url = ''http://10.0.0.1'',
     bp_api_key = None, bp_guard = build_guard local_config True, bp_declared_local = False\<rparr>"

lemmas url_simps = guard_check_def url_host_def url_netloc_def after_scheme_def scheme_char_def is_letter_def is_upper_def
  is_lower_def is_digit_def after_at_def zone_lower_def py_lower_def lower_char_def is_local_host_def ends_with_def
  ipv4_def octet_def digit_val_def ipv4_local_def in_network_def PRIVATE_NETWORKS_def PRIVATE_EXCEPTIONS_def ip_base_def

lemma local_url:
  "url_host no_net ''http://10.0.0.1'' = Inr ''10.0.0.1''" "is_local_host no_net ''10.0.0.1''"
  "url_host no_net ''http://10.0.0.1/api/chat'' = Inr ''10.0.0.1''"
  by (simp_all add: url_simps no_net_def)


theorem denied_calls_stay_local_witness:
  "(\<exists>host. url_host no_net (call_url local_built) = Inr host \<and> is_local_host no_net host)
    \<or> (\<not> bp_ollama local_built \<and> bp_base_url local_built = [] \<and> bp_declared_local local_built)"
proof (rule denied_calls_stay_local [where se = closed_settings and ke = no_keys and cf = local_config and name = "PStr ''p''"])
  show "build_provider no_net closed_settings no_keys local_config (PStr ''p'') = Inr local_built"
    by (simp add: build_provider_def build_ollama_def local_config_def local_spec_def local_built_def dict_simps
        spec_model_def rstrip_slash_def closed_settings_def)
  show "check_call no_net local_built = Inr ()"
    using local_url by (simp add: check_call_def call_url_def local_built_def guard_check_def)
  show "se_air_gapped closed_settings \<or> cf_egress local_config = EGRESS_DENY" by (simp add: closed_settings_def)
qed

end
