(* ===== verification/Llm_Settings.thy ===== *)
theory Llm_Settings
  imports Llm_Router
begin

text \<open>
  Changing the model configuration: the seeding and back-filling of the runtime copy (\<open>ensure_runtime_config\<close>
  of \<open>core/llm/router.py\<close>) and the edits of the settings page (\<open>core/llm/settings_writer.py\<close>). \<open>yaml.safe_load\<close>
  and \<open>yaml.safe_dump\<close> are parameters; a list of pairs where a mapping is expected is refused.
\<close>

subsection \<open>The runtime copy\<close>

text \<open>\<open>target in providers\<close> for any value; \<open>None\<close> is an exception.\<close>

definition key_in :: "pyval \<Rightarrow> pyval \<Rightarrow> bool option" where
  "key_in target container =
     (case container of
        PDict d \<Rightarrow> if hashable target then Some (map_of d target \<noteq> None) else None
      | PList xs \<Rightarrow> Some (target \<in> set xs)
      | PStr s \<Rightarrow> (case target of PStr t \<Rightarrow> Some (contains t s) | _ \<Rightarrow> None)
      | _ \<Rightarrow> None)"

fun role_additions :: "(pyval \<times> pyval) list \<Rightarrow> pyval \<Rightarrow> (pyval \<times> pyval) list \<Rightarrow> (pyval \<times> pyval) list option" where
  "role_additions live_roles providers [] = Some []"
| "role_additions live_roles providers ((role, target) # rest) =
     (if map_of live_roles role \<noteq> None then role_additions live_roles providers rest
      else Option.bind (key_in target providers) (\<lambda>known.
        map_option (\<lambda>more. if known then (role, target) # more else more) (role_additions live_roles providers rest)))"

text \<open>The document to write, when there is a role to add; \<open>None\<close> leaves the file alone.\<close>

definition backfill :: "pyval \<Rightarrow> pyval \<Rightarrow> pyval option" where
  "backfill live packaged =
     (case (or_dict live, or_dict packaged) of
        (PDict l, PDict d) \<Rightarrow>
          (case (or_dict (pd_get_or l ''roles'' PNone), or_dict (pd_get_or d ''roles'' PNone)) of
             (PDict live_roles, PDict shipped) \<Rightarrow>
               (case role_additions live_roles (or_dict (pd_get_or l ''providers'' PNone)) shipped of
                  Some (a # added) \<Rightarrow> Some (PDict (AList.update (PStr ''roles'') (PDict (live_roles @ a # added)) l))
                | _ \<Rightarrow> None)
           | _ \<Rightarrow> None)
      | _ \<Rightarrow> None)"

definition ensure_runtime_config ::
  "(string \<Rightarrow> llm_error + pyval) \<Rightarrow> (pyval \<Rightarrow> string) \<Rightarrow> string option \<Rightarrow> string option \<Rightarrow> string option" where
  "ensure_runtime_config safe_load safe_dump packaged active =
     (case (active, packaged) of
        (None, p) \<Rightarrow> p
      | (Some a, None) \<Rightarrow> Some a
      | (Some a, Some p) \<Rightarrow>
          (case (safe_load a, safe_load p) of
             (Inr live, Inr shipped) \<Rightarrow>
               (case backfill live shipped of Some doc \<Rightarrow> Some (safe_dump doc) | None \<Rightarrow> Some a)
           | _ \<Rightarrow> Some a))"

subsection \<open>Edits from the settings page\<close>

definition EDITABLE_ROLES :: "string list" where
  "EDITABLE_ROLES = [''triage'', ''discover'', ''explain'', ''investigate'', ''remediate'', ''summarize'']"

record new_provider =
  np_name :: string
  np_kind :: string
  np_model :: string
  np_base_url :: string
  np_num_ctx :: "int option"
  np_is_local :: "bool option"

record llm_update =
  up_enabled :: "bool option"
  up_roles :: "(string \<times> string) list"
  up_models :: "(string \<times> string) list"
  up_add :: "new_provider option"
  up_egress :: "string option"

type_synonym doc = "(pyval \<times> pyval) list"

text \<open>\<open>dict(document.get(key) or {})\<close>.\<close>

definition section_of :: "doc \<Rightarrow> string \<Rightarrow> llm_error + doc" where
  "section_of d k = (case or_dict (pd_get_or d k PNone) of PDict x \<Rightarrow> Inr x | _ \<Rightarrow> Inl (Py_Error ''TypeError''))"

definition put :: "string \<Rightarrow> pyval \<Rightarrow> doc \<Rightarrow> doc" where
  "put k v d = AList.update (PStr k) v d"

definition provider_entry :: "new_provider \<Rightarrow> pyval" where
  "provider_entry np = PDict
     ([(PStr ''kind'', PStr (np_kind np)), (PStr ''model'', PStr (py_strip (np_model np)))]
      @ (if py_strip (np_base_url np) \<noteq> [] then [(PStr ''base_url'', PStr (py_strip (np_base_url np)))] else [])
      @ (case np_num_ctx np of Some n \<Rightarrow> if n \<noteq> 0 then [(PStr ''num_ctx'', PInt n)] else [] | None \<Rightarrow> [])
      @ (case np_is_local np of Some b \<Rightarrow> [(PStr ''is_local'', PBool b)] | None \<Rightarrow> []))"

definition add_provider :: "new_provider option \<Rightarrow> doc \<Rightarrow> llm_error + doc" where
  "add_provider new d =
     (case new of
        None \<Rightarrow> Inr d
      | Some np \<Rightarrow>
          if py_strip (np_name np) = [] then Inl (Config_Error ''a provider needs a name'')
          else if py_strip (np_model np) = []
          then Inl (Config_Error (''provider '' @ repr_str (np_name np) @ '': model must not be empty''))
          else bind_e (section_of d ''providers'') (\<lambda>ps.
            Inr (put ''providers'' (PDict (put (py_strip (np_name np)) (provider_entry np) ps)) d)))"

definition set_egress :: "string option \<Rightarrow> doc \<Rightarrow> llm_error + doc" where
  "set_egress e d =
     (case e of
        None \<Rightarrow> Inr d
      | Some v \<Rightarrow> bind_e (section_of d ''policy'') (\<lambda>p. Inr (put ''policy'' (PDict (put ''egress'' (PStr v) p)) d)))"

fun assign_roles :: "pyval \<Rightarrow> (string \<times> string) list \<Rightarrow> doc \<Rightarrow> llm_error + doc" where
  "assign_roles providers [] roles = Inr roles"
| "assign_roles providers ((role, provider) # rest) roles =
     (if role \<notin> set EDITABLE_ROLES
      then Inl (Config_Error (''unknown role '' @ repr_str role @ ''; expected one of '' @ py_repr (PList (map PStr EDITABLE_ROLES))))
      else bind_e (value_has providers provider) (\<lambda>known.
        if \<not> known
        then Inl (Config_Error (''role '' @ repr_str role @ '' would point at provider '' @ repr_str provider
               @ '', which is not defined in this config''))
        else assign_roles providers rest (put role (PStr provider) roles)))"

definition set_roles :: "(string \<times> string) list \<Rightarrow> doc \<Rightarrow> llm_error + doc" where
  "set_roles changes d =
     (if changes = [] then Inr d
      else bind_e (section_of d ''roles'') (\<lambda>roles.
        bind_e (assign_roles (or_dict (pd_get_or d ''providers'' PNone)) changes roles) (\<lambda>roles'.
        Inr (put ''roles'' (PDict roles') d))))"

fun assign_models :: "(string \<times> string) list \<Rightarrow> doc \<Rightarrow> llm_error + doc" where
  "assign_models [] ps = Inr ps"
| "assign_models ((name, model) # rest) ps =
     (case map_of ps (PStr name) of
        None \<Rightarrow> Inl (Config_Error (''no provider named '' @ repr_str name @ '' in this config''))
      | Some entry \<Rightarrow>
          if py_strip model = [] then Inl (Config_Error (''provider '' @ repr_str name @ '': model must not be empty''))
          else (case entry of
                  PDict e \<Rightarrow> assign_models rest (put name (PDict (put ''model'' (PStr (py_strip model)) e)) ps)
                | _ \<Rightarrow> Inl (Py_Error ''TypeError'')))"

definition set_models :: "(string \<times> string) list \<Rightarrow> doc \<Rightarrow> llm_error + doc" where
  "set_models changes d =
     (if changes = [] then Inr d
      else bind_e (section_of d ''providers'') (\<lambda>ps.
        bind_e (assign_models changes ps) (\<lambda>ps'. Inr (put ''providers'' (PDict ps') d))))"

definition edit_document :: "llm_update \<Rightarrow> doc \<Rightarrow> llm_error + doc" where
  "edit_document up d =
     (let d0 = (case up_enabled up of Some b \<Rightarrow> put ''enabled'' (PBool b) d | None \<Rightarrow> d) in
      bind_e (add_provider (up_add up) d0) (\<lambda>d1.
      bind_e (set_egress (up_egress up) d1) (\<lambda>d2.
      bind_e (set_roles (up_roles up) d2) (\<lambda>d3.
      set_models (up_models up) d3))))"

text \<open>\<open>apply_update\<close>: the text that replaces the file, in one step; an error leaves the file as it was. A
  YAML error of the live file is a configuration error.\<close>

definition apply_update ::
  "net_env \<Rightarrow> llm_settings \<Rightarrow> (string \<Rightarrow> llm_error + pyval) \<Rightarrow> (pyval \<Rightarrow> string) \<Rightarrow> llm_update \<Rightarrow> string option \<Rightarrow> llm_error + string" where
  "apply_update net se safe_load safe_dump up file_text =
     bind_e (case file_text of
               None \<Rightarrow> Inr (PDict [])
             | Some t \<Rightarrow> map_sum (\<lambda>_. Config_Error ''not valid YAML'') or_dict (safe_load t)) (\<lambda>doc.
     case doc of
       PDict d \<Rightarrow>
         bind_e (edit_document up d) (\<lambda>d'.
         bind_e (load_config net se safe_load (Some (safe_dump (PDict d')))) (\<lambda>_. Inr (safe_dump (PDict d'))))
     | _ \<Rightarrow> Inl (Config_Error ''does not contain a mapping''))"

subsection \<open>Back-filling keeps a configuration loadable\<close>

lemma role_additions_spec:
  "role_additions live_roles providers shipped = Some added \<Longrightarrow> (role, target) \<in> set added \<Longrightarrow>
     map_of live_roles role = None \<and> key_in target providers = Some True"
  by (induction shipped arbitrary: added) (auto simp: bind_eq_Some_conv split: if_splits)

lemma pd_get_or_update:
  "pd_get_or (AList.update (PStr k) v d) k' x = (if k' = k then v else pd_get_or d k' x)"
  by (simp add: pd_get_or_def pd_get_def update_conv')

lemma validate_role_grown:
  assumes "cf_roles cf = PDict live" "cf_providers cf = PDict ps" "map_of ps PNone = None"
    and "\<And>r t. (r, t) \<in> set added \<Longrightarrow> map_of live r = None \<and> key_in t (PDict ps) = Some True"
    and "validate_role cf role = Inr ()"
  shows "validate_role (cf\<lparr>cf_roles := PDict (live @ added)\<rparr>) role = Inr ()"
proof (cases "map_of live (PStr role)")
  case None
  show ?thesis
  proof (cases "map_of added (PStr role)")
    case None
    with \<open>map_of live (PStr role) = None\<close> show ?thesis by (simp add: validate_role_def map_add_def)
  next
    case (Some t)
    then have "(PStr role, t) \<in> set added" by (rule map_of_SomeD)
    with assms(4) have "key_in t (PDict ps) = Some True" by blast
    then have t: "hashable t" "map_of ps t \<noteq> None" by (simp_all add: key_in_def split: if_splits)
    with assms(3) have "t \<noteq> PNone" by auto
    have look: "pd_get_or (live @ added) role PNone = t"
      using None Some by (simp add: pd_get_or_def pd_get_def map_add_def)
    with t \<open>t \<noteq> PNone\<close> assms(2) show ?thesis
      using None Some by (simp add: validate_role_def provider_for_def value_get_def map_add_def)
  qed
next
  case (Some t)
  then have "pd_get_or (live @ added) role PNone = pd_get_or live role PNone"
    by (simp add: pd_get_or_def pd_get_def map_add_def)
  then have "provider_for (cf\<lparr>cf_roles := PDict (live @ added)\<rparr>) role = provider_for cf role"
    by (simp add: provider_for_def value_get_def assms(1))
  moreover have "value_has (cf_roles (cf\<lparr>cf_roles := PDict (live @ added)\<rparr>)) role = value_has (cf_roles cf) role"
    using Some by (simp add: assms(1) map_add_def)
  ultimately show ?thesis using assms(5) unfolding validate_role_def by (simp only:)
qed


lemma each_e_Inr: "each_e f xs = Inr () \<longleftrightarrow> list_all (\<lambda>x. f x = Inr ()) xs"
  by (induction xs) (auto simp: err_simps)

lemma validate_config_grown:
  assumes "cf_roles cf = PDict live" "cf_providers cf = PDict ps" "map_of ps PNone = None"
    and "\<And>r t. (r, t) \<in> set added \<Longrightarrow> map_of live r = None \<and> key_in t (PDict ps) = Some True"
    and "validate_config net cf air = Inr ()"
  shows "validate_config net (cf\<lparr>cf_roles := PDict (live @ added)\<rparr>) air = Inr ()"
proof (cases "cf_enabled cf")
  case True
  have guard: "build_guard (cf\<lparr>cf_roles := PDict (live @ added)\<rparr>) air = build_guard cf air"
    by (simp add: build_guard_def)
  from True assms(5) have roles: "list_all (\<lambda>r. validate_role cf r = Inr ()) ROLES"
    and ps: "each_e (\<lambda>(name, spec). validate_provider net (build_guard cf air) name spec) ps = Inr ()"
    by (simp_all add: validate_config_def err_simps each_e_Inr assms(2))
  from roles have "list_all (\<lambda>r. validate_role (cf\<lparr>cf_roles := PDict (live @ added)\<rparr>) r = Inr ()) ROLES"
    by (rule list.pred_mono_strong) (rule validate_role_grown [OF assms(1-4)])
  then have grown: "each_e (validate_role (cf\<lparr>cf_roles := PDict (live @ added)\<rparr>)) ROLES = Inr ()"
    by (simp only: each_e_Inr)
  show ?thesis unfolding validate_config_def guard grown using True ps assms(2) by simp
qed (simp add: validate_config_def)

lemma or_dict_PDict [simp]: "or_dict (PDict d) = PDict d"
  by (simp add: or_dict_def)

lemma value_get_PDict [simp]: "value_get (PDict d) k x = Inr (pd_get_or d k x)"
  by (simp add: value_get_def)

lemma read_document_put_roles:
  assumes "read_document se (PDict d) = Inr cf"
  shows "read_document se (PDict (put ''roles'' (PDict rs) d)) = Inr (cf\<lparr>cf_roles := PDict rs\<rparr>)"
  using assms by (simp add: read_document_def put_def pd_get_or_update Let_def bind_e_Inr_iff) fastforce

lemma read_document_fields:
  assumes "read_document se (PDict d) = Inr cf"
  shows "cf_roles cf = or_dict (pd_get_or d ''roles'' PNone) \<and> cf_providers cf = or_dict (pd_get_or d ''providers'' PNone)"
proof -
  have absent: "or_dict (pd_get_or d k (PDict [])) = or_dict (pd_get_or d k PNone)" for k
    by (simp add: pd_get_or_def or_dict_def split: option.split)
  from assms show ?thesis unfolding read_document_def by (auto simp: err_simps Let_def absent)
qed

text \<open>An upgrade that back-fills roles never breaks a configuration that loads: the new document loads
  too, and differs in added roles only.\<close>

theorem backfill_keeps_config_loadable:
  assumes "load_document net se live = Inr cf" "backfill live packaged = Some doc"
    and "cf_providers cf = PDict ps" "map_of ps PNone = None"
  shows "\<exists>roles added. cf_roles cf = PDict roles
    \<and> load_document net se doc = Inr (cf\<lparr>cf_roles := PDict (roles @ added)\<rparr>)"
proof -
  from assms(2) obtain l d where l: "or_dict live = PDict l" "or_dict packaged = PDict d"
    by (auto simp: backfill_def split: pyval.splits)
  from assms(2) obtain roles shipped where roles: "or_dict (pd_get_or l ''roles'' PNone) = PDict roles"
      "or_dict (pd_get_or d ''roles'' PNone) = PDict shipped"
    by (auto simp: backfill_def l split: pyval.splits)
  from assms(2) obtain a more where added: "role_additions roles (or_dict (pd_get_or l ''providers'' PNone)) shipped = Some (a # more)"
      "doc = PDict (put ''roles'' (PDict (roles @ a # more)) l)"
    by (auto simp: backfill_def l roles put_def split: option.splits list.splits)
  from assms(1) l have cf: "read_document se (PDict l) = Inr cf" "validate_config net cf (se_air_gapped se) = Inr ()"
    by (auto simp: load_document_def err_simps)
  have fields: "cf_roles cf = PDict roles" "or_dict (pd_get_or l ''providers'' PNone) = PDict ps"
    using read_document_fields [OF cf(1)] roles(1) assms(3) by simp_all
  have "validate_config net (cf\<lparr>cf_roles := PDict (roles @ a # more)\<rparr>) (se_air_gapped se) = Inr ()"
  proof (rule validate_config_grown [OF fields(1) assms(3,4) _ cf(2)])
    fix r t
    assume "(r, t) \<in> set (a # more)"
    from role_additions_spec [OF added(1) this] show "map_of roles r = None \<and> key_in t (PDict ps) = Some True"
      by (simp add: fields(2))
  qed
  then have "load_document net se doc = Inr (cf\<lparr>cf_roles := PDict (roles @ a # more)\<rparr>)"
    by (simp add: load_document_def added(2) read_document_put_roles [OF cf(1)])
  with fields(1) show ?thesis by blast
qed


subsection \<open>Edits take effect\<close>

lemma map_of_put [simp]: "map_of (put k v d) (PStr k') = (if k' = k then Some v else map_of d (PStr k'))"
  by (simp add: put_def update_conv')

lemma pd_get_or_put [simp]: "pd_get_or (put k v d) k' x = (if k' = k then v else pd_get_or d k' x)"
  by (simp add: put_def pd_get_or_update)

lemma assign_roles_spec:
  assumes "assign_roles providers changes roles = Inr roles'" "distinct (map fst changes)"
  shows "(\<forall>(role, provider) \<in> set changes. map_of roles' (PStr role) = Some (PStr provider) \<and> value_has providers provider = Inr True)
    \<and> (\<forall>k. k \<notin> fst ` set changes \<longrightarrow> map_of roles' (PStr k) = map_of roles (PStr k))"
  using assms
proof (induction providers changes roles rule: assign_roles.induct)
  case (2 providers role provider rest roles)
  then have known: "value_has providers provider = Inr True"
    and rest: "assign_roles providers rest (put role (PStr provider) roles) = Inr roles'"
    by (auto simp: err_simps split: if_splits)
  from "2.IH" [of True] rest "2.prems" known show ?case by (fastforce split: if_splits)
qed simp

lemma assign_models_keys:
  "assign_models changes ps = Inr ps' \<Longrightarrow> map_of ps (PStr n) \<noteq> None \<Longrightarrow> map_of ps' (PStr n) \<noteq> None"
proof (induction changes ps arbitrary: rule: assign_models.induct)
  case (2 name model rest ps)
  then obtain e where "map_of ps (PStr name) = Some (PDict e)"
    "assign_models rest (put name (PDict (put ''model'' (PStr (py_strip model)) e)) ps) = Inr ps'"
    by (auto split: option.splits if_splits pyval.splits)
  with 2 show ?case by (fastforce split: if_splits)
qed simp

lemma set_models_spec:
  assumes "set_models changes d = Inr d'"
  shows "pd_get_or d' ''roles'' PNone = pd_get_or d ''roles'' PNone"
    "value_has (or_dict (pd_get_or d ''providers'' PNone)) n = Inr True \<Longrightarrow>
       or_dict (pd_get_or d' ''providers'' PNone) = PDict ps \<Longrightarrow> map_of ps (PStr n) \<noteq> None"
proof -
  have "pd_get_or d' ''roles'' PNone = pd_get_or d ''roles'' PNone \<and>
    (value_has (or_dict (pd_get_or d ''providers'' PNone)) n = Inr True \<longrightarrow>
       or_dict (pd_get_or d' ''providers'' PNone) = PDict ps \<longrightarrow> map_of ps (PStr n) \<noteq> None)"
  proof (cases "changes = []")
    case True
    with assms show ?thesis by (auto simp: set_models_def)
  next
    case False
    with assms obtain qs qs' where qs: "or_dict (pd_get_or d ''providers'' PNone) = PDict qs"
      "assign_models changes qs = Inr qs'" "d' = put ''providers'' (PDict qs') d"
      by (auto simp: set_models_def section_of_def err_simps split: pyval.splits)
    from assign_models_keys [OF qs(2), of n] show ?thesis by (auto simp: qs(1,3))
  qed
  then show "pd_get_or d' ''roles'' PNone = pd_get_or d ''roles'' PNone"
    "value_has (or_dict (pd_get_or d ''providers'' PNone)) n = Inr True \<Longrightarrow>
       or_dict (pd_get_or d' ''providers'' PNone) = PDict ps \<Longrightarrow> map_of ps (PStr n) \<noteq> None"
    by blast+
qed

text \<open>A change the settings page accepts leaves a configuration that loads, in which every role it
  assigned reaches the provider it named.\<close>

theorem settings_update_takes_effect:
  assumes "apply_update net se safe_load safe_dump up file_text = Inr t" "\<And>d. safe_dump d = t \<Longrightarrow> safe_load t = Inr d"
    and "distinct (map fst (up_roles up))" "load_config net se safe_load (Some t) = Inr cf" "cf_enabled cf"
  shows "list_all (\<lambda>(role, provider). provider_for cf role = Inr (PStr provider)) (up_roles up)"
proof -
  from assms(1) obtain x where x: "(case x of PDict d \<Rightarrow> bind_e (edit_document up d) (\<lambda>d'.
         bind_e (load_config net se safe_load (Some (safe_dump (PDict d')))) (\<lambda>_. Inr (safe_dump (PDict d'))))
       | _ \<Rightarrow> Inl (Config_Error ''does not contain a mapping'')) = Inr t"
    unfolding apply_update_def bind_e_Inr_iff by blast
  then obtain d d' where edit: "edit_document up d = Inr d'" and t: "t = safe_dump (PDict d')"
    by (cases x) (auto simp: err_simps)
  have cf: "read_document se (PDict d') = Inr cf" "validate_config net cf (se_air_gapped se) = Inr ()"
    using assms(4) by (auto simp: load_config_def assms(2) [OF t [symmetric]] load_document_def err_simps)
  note fields = read_document_fields [OF cf(1)]
  obtain ps where ps: "cf_providers cf = PDict ps"
    using cf(2) assms(5) by (auto simp: validate_config_def err_simps split: pyval.splits)
  from edit obtain d2 d3 where roles: "set_roles (up_roles up) d2 = Inr d3" and models: "set_models (up_models up) d3 = Inr d'"
    by (auto simp: edit_document_def Let_def err_simps)
  show ?thesis
  proof (cases "up_roles up = []")
    case False
    with roles obtain r r' where r: "assign_roles (or_dict (pd_get_or d2 ''providers'' PNone)) (up_roles up) r = Inr r'"
      "d3 = put ''roles'' (PDict r') d2"
      by (auto simp: set_roles_def err_simps)
    have cf_roles: "cf_roles cf = PDict r'"
      using set_models_spec(1) [OF models] fields by (simp add: r(2))
    have "provider_for cf role = Inr (PStr provider)" if "(role, provider) \<in> set (up_roles up)" for role provider
    proof -
      from assign_roles_spec [OF r(1) assms(3)] that
      have look: "map_of r' (PStr role) = Some (PStr provider)"
        and known: "value_has (or_dict (pd_get_or d2 ''providers'' PNone)) provider = Inr True" by auto
      from known have "value_has (or_dict (pd_get_or d3 ''providers'' PNone)) provider = Inr True" by (simp add: r(2))
      from set_models_spec(2) [OF models this] fields ps have "map_of ps (PStr provider) \<noteq> None" by simp
      with look show ?thesis
        by (auto simp: provider_for_def cf_roles ps pd_get_or_def pd_get_def hashable_def)
    qed
    then show ?thesis by (auto simp: list_all_iff)
  qed simp
qed

subsection \<open>What the checks let through\<close>

text \<open>The \<open>discover\<close> role is not among those a configuration is checked for: one that points nowhere loads,
  and fails when the role is used.\<close>

lemma discover_role_is_not_checked:
  assumes "doc = PDict [(PStr ''roles'', PDict [(PStr ''discover'', PStr name)])]"
  shows "\<exists>cf. load_document net se doc = Inr cf \<and> cf_enabled cf \<and> (\<exists>m. provider_for cf ''discover'' = Inl (Config_Error m))"
  by (simp add: assms load_document_def read_document_def dict_simps Let_def or_dict_def validate_config_def validate_role_def
      ROLES_def provider_for_def hashable_def egress_of_def egress_value_def split: egress.split)

text \<open>The air gap trusts a declaration: a hosted model whose provider entry says \<open>is_local\<close> and gives no
  URL loads, is built, and is called, under the air gap and a deny policy; and it counts as local, which is what
  lets plaintext reach it.\<close>

theorem declared_local_passes_air_gap:
  assumes "doc = PDict [(PStr ''policy'', PDict [(PStr ''egress'', PStr ''deny'')]),
      (PStr ''providers'', PDict [(PStr ''p'', PDict [(PStr ''kind'', PStr ''openai''), (PStr ''model'', PStr model), (PStr ''is_local'', PBool True)])])]"
    and "se_air_gapped se"
  shows "\<exists>cf bp. load_document net se doc = Inr cf \<and> cf_egress cf = EGRESS_DENY
    \<and> build_provider net se ke cf (PStr ''p'') = Inr bp \<and> check_call net bp = Inr () \<and> provider_is_local net bp = Inr True"
  by (simp add: assms load_document_def read_document_def dict_simps Let_def or_dict_def validate_config_def validate_role_def
      ROLES_def egress_of_def validate_provider_def build_provider_def build_litellm_def endpoint_local_def spec_model_def
      check_call_def provider_is_local_def rstrip_slash_def)


subsection \<open>Witnesses\<close>

lemmas document_simps = load_document_def read_document_def validate_config_def validate_role_def ROLES_def egress_of_def
  egress_value_def validate_provider_def dict_simps or_dict_def Let_def

definition live_document :: doc where
  "live_document = [(PStr ''providers'', PDict [(PStr ''p'', local_spec)]), (PStr ''roles'', PDict [(PStr ''triage'', PStr ''p'')])]"

definition live_config :: llm_config where
  "live_config = local_config\<lparr>cf_roles := PDict [(PStr ''triage'', PStr ''p'')]\<rparr>"

lemma live_loads: "load_document no_net closed_settings (PDict live_document) = Inr live_config"
  using local_url
  by (simp add: document_simps live_document_def live_config_def local_config_def closed_settings_def provider_for_def
      hashable_def local_spec_def guard_check_def)

theorem backfill_keeps_config_loadable_witness:
  "\<exists>cf. load_document no_net closed_settings
     (PDict (put ''roles'' (PDict [(PStr ''triage'', PStr ''p''), (PStr ''explain'', PStr ''p'')]) live_document)) = Inr cf"
proof -
  have "backfill (PDict live_document) (PDict [(PStr ''roles'', PDict [(PStr ''explain'', PStr ''p''), (PStr ''triage'', PStr ''q'')])])
      = Some (PDict (put ''roles'' (PDict [(PStr ''triage'', PStr ''p''), (PStr ''explain'', PStr ''p'')]) live_document))"
    by (simp add: backfill_def live_document_def dict_simps key_in_def hashable_def put_def or_dict_def)
  from backfill_keeps_config_loadable [OF live_loads this, of "[(PStr ''p'', local_spec)]"] show ?thesis
    by (auto simp: live_config_def local_config_def)
qed

definition route_triage :: llm_update where
  "route_triage = \<lparr>up_enabled = None, up_roles = [(''triage'', ''p'')], up_models = [], up_add = None, up_egress = None\<rparr>"

definition one_yaml :: "pyval \<Rightarrow> string" where
  "one_yaml v = (if v = PDict live_document then ''live'' else ''other'')"

definition read_live :: "string \<Rightarrow> llm_error + pyval" where
  "read_live t = Inr (PDict live_document)"

theorem settings_update_takes_effect_witness:
  "list_all (\<lambda>(role, provider). provider_for live_config role = Inr (PStr provider)) (up_roles route_triage)"
proof (rule settings_update_takes_effect)
  have edit: "edit_document route_triage live_document = Inr live_document"
    by (simp add: edit_document_def route_triage_def add_provider_def set_egress_def set_roles_def set_models_def section_of_def
        live_document_def dict_simps EDITABLE_ROLES_def put_def or_dict_def)
  show "apply_update no_net closed_settings read_live one_yaml route_triage (Some ''live'') = Inr ''live''"
    by (simp add: apply_update_def read_live_def edit load_config_def live_loads one_yaml_def)
  show "read_live ''live'' = Inr d" if "one_yaml d = ''live''" for d
    using that by (simp add: one_yaml_def read_live_def split: if_splits)
  show "distinct (map fst (up_roles route_triage))" by (simp add: route_triage_def)
  show "load_config no_net closed_settings read_live (Some ''live'') = Inr live_config"
    by (simp add: load_config_def read_live_def live_loads)
  show "cf_enabled live_config" by (simp add: live_config_def local_config_def)
qed

theorem declared_local_passes_air_gap_witness:
  "\<exists>cf bp. load_document no_net closed_settings (PDict [(PStr ''policy'', PDict [(PStr ''egress'', PStr ''deny'')]),
      (PStr ''providers'', PDict [(PStr ''p'', PDict [(PStr ''kind'', PStr ''openai''), (PStr ''model'', PStr ''openai/gpt-4o''),
        (PStr ''is_local'', PBool True)])])]) = Inr cf \<and> cf_egress cf = EGRESS_DENY
    \<and> build_provider no_net closed_settings no_keys cf (PStr ''p'') = Inr bp \<and> check_call no_net bp = Inr ()
    \<and> provider_is_local no_net bp = Inr True"
  by (rule declared_local_passes_air_gap [OF refl]) (simp add: closed_settings_def)

end
