(* ===== verification/Llm_Discovery.thy ===== *)
theory Llm_Discovery
  imports Llm_Settings Llm_Tools
begin

text \<open>
  Rule discovery (\<open>core/llm/discovery.py\<close>, and \<open>discover_rules_task\<close> of \<open>core/orchestrator/scan_tasks.py\<close>): a
  model reads the strings no rule matched and proposes rules. The regular-expression compiler, \<open>float()\<close> of a
  text and \<open>yaml.safe_dump\<close> are parameters. An exception that leaves a function is its name, on the left.
\<close>

definition MAX_RESIDUE_SAMPLE :: nat where "MAX_RESIDUE_SAMPLE = 120"
definition MAX_VALUE_CHARS_sample :: nat where "MAX_VALUE_CHARS_sample = 220"

definition DISCOVER_PROMPT :: string where
\<open>DISCOVER_PROMPT = join [CHR 0x0A]
  [''You are a detection engineer for a tool that scans compiled artifacts a company is about to ship, looking for exposed secrets, internal infrastructure, and unintended IP disclosure.'',
   '''',
   ''You are shown strings extracted from a real artifact that the current rule pack did NOT match. Your job is to spot the ones that represent an exposure and propose deterministic detection rules for them.'',
   '''',
   ''What counts as an exposure:'',
   ''- Internal infrastructure: SCM/build/artifact servers, internal hostnames, database endpoints, management interfaces.'',
   ''- Credentials of any kind, including ones no vendor pattern would know.'',
   ''- Build-pipeline leakage: source paths, CI agent directories, developer or service account names, internal project codenames.'',
   ''- IP disclosure: internal part numbers, unreleased feature flags, customer names in sample data.'',
   '''',
   ''What does NOT count, and must not be proposed:'',
   ''- Public endpoints a product is expected to contact (vendor websites, CRL and OCSP responders, package registries, update servers).'',
   ''- Library and package namespaces compiled into a binary (Go module paths, .NET assembly names, symbol names).'',
   ''- Localisation strings, licence text, UI copy, file names.'',
   '''',
   ''Rules must be specific. A pattern that matches any high-entropy string, any long base64 run, or any hostname is worse than no rule: it buries real findings under noise. Anchor on a scheme, a prefix, a keyword, or a distinctive structure. If a value has no distinguishing shape, require nearby context instead.'',
   '''',
   ''Reply with JSON only:'',
   ''{"proposals": [{'',
   ''  "id": "kebab-case-rule-id",'',
   ''  "name": "Human readable name",'',
   ''  "category": "internal-infrastructure|cloud-credentials|service-token|crypto-material|ip-exposure|sensitive-data|hygiene",'',
   ''  "severity": "critical|high|medium|low|info",'',
   ''  "confidence": 0.0-1.0,'',
   ''  "regex": "a Python regex with exactly one capture group around the value",'',
   ''  "rationale": "why this is an exposure, citing the evidence you were shown",'',
   ''  "example": "the string from the sample that this matches",'',
   ''  "remediation": "what the engineer should change"'',
   ''}]}'',
   '''',
   ''Propose at most 5. Fewer is better. If nothing in the sample is an exposure, reply {"proposals": []} '' @ EM_DASH @ '' that is a useful answer, not a failure.'']\<close>

record rule_proposal =
  pr_id :: string
  pr_name :: string
  pr_category :: string
  pr_severity :: string
  pr_confidence :: rat
  pr_regex :: string
  pr_rationale :: string
  pr_example :: string
  pr_remediation :: string
  pr_valid :: bool
  pr_error :: "string option"

record discovery_result =
  dr_proposals :: "rule_proposal list"
  dr_sampled :: nat
  dr_model :: string
  dr_duration_s :: rat
  dr_call :: "llm_call option"
  dr_error :: "string option"

definition usable :: "discovery_result \<Rightarrow> rule_proposal list" where
  "usable r = filter pr_valid (dr_proposals r)"

text \<open>The outcome of \<open>re.compile\<close>: the number of groups and the search, or a \<open>re.error\<close>, or another
  exception.\<close>

datatype pattern_outcome = Pattern nat "string \<Rightarrow> bool" | Re_Error string | Re_Raises string

record discovery_env =
  de_llm :: llm_env
  de_compile :: "string \<Rightarrow> pattern_outcome"
  de_float :: "string \<Rightarrow> rat option"
  de_yaml :: "pyval \<Rightarrow> string"

subsection \<open>The sample\<close>

definition redact_residue :: "string \<Rightarrow> string" where
  "redact_residue value = utf8_take MAX_VALUE_CHARS_sample value"

fun sample_from :: "nat \<Rightarrow> string list \<Rightarrow> string list \<Rightarrow> doc list \<Rightarrow> string list" where
  "sample_from limit seen sample [] = rev sample"
| "sample_from limit seen sample (entry # rest) =
     (let value = redact_residue (py_strip (py_str (pd_get_or entry ''value'' (PStr [])))) in
      if length (utf8_chars value) < 12 \<or> value \<in> set seen then sample_from limit seen sample rest
      else if limit \<le> length sample + 1 then rev (value # sample)
      else sample_from limit (value # seen) (value # sample) rest)"

definition build_sample :: "doc list \<Rightarrow> nat \<Rightarrow> string list" where
  "build_sample residue limit = sample_from limit [] [] residue"

definition numbered :: "string list \<Rightarrow> string" where
  "numbered sample = join [CHR 0x0A] (map (\<lambda>(i, v). show_nat (i + 1) @ ''. '' @ v) (enumerate 0 sample))"

definition discover_messages :: "string list \<Rightarrow> message list" where
  "discover_messages sample =
     [\<lparr>ms_role = ''system'', ms_content = DISCOVER_PROMPT\<rparr>,
      \<lparr>ms_role = ''user'', ms_content = ''Strings no rule matched:'' @ [CHR 0x0A, CHR 0x0A] @ numbered sample\<rparr>]"

subsection \<open>Proposals\<close>

definition text_or :: "doc \<Rightarrow> string \<Rightarrow> string \<Rightarrow> string" where
  "text_or raw k other = py_strip (py_str (pd_get_or raw k (PStr other)))"

definition BENIGN :: "string list" where
  "BENIGN =
     [''The quick brown fox jumps over the lazy dog and keeps running along.'',
      ''Copyright (c) 2026 Example Corporation. All rights reserved worldwide.'',
      replicate 64 CHR ''a'']"

definition reject_proposal :: "string \<Rightarrow> rule_proposal \<Rightarrow> rule_proposal" where
  "reject_proposal why p = p\<lparr>pr_valid := False, pr_error := Some why\<rparr>"

definition judge_pattern :: "(string \<Rightarrow> pattern_outcome) \<Rightarrow> rule_proposal \<Rightarrow> string + rule_proposal" where
  "judge_pattern compile p =
     (if pr_regex p = [] then Inr (reject_proposal ''no pattern supplied'' p)
      else (case compile (pr_regex p) of
              Re_Error m \<Rightarrow> Inr (reject_proposal (''pattern does not compile: '' @ m) p)
            | Re_Raises exc \<Rightarrow> Inl exc
            | Pattern groups search \<Rightarrow>
                Inr (if groups < 1 then reject_proposal ''pattern has no capture group; the value would be unidentifiable'' p
                     else if list_ex search BENIGN then reject_proposal ''pattern matches ordinary text; too broad to merge'' p
                     else if pr_example p \<noteq> [] \<and> \<not> search (pr_example p)
                     then reject_proposal ''pattern does not match the example it was proposed from'' p
                     else p)))"

definition build_proposal :: "discovery_env \<Rightarrow> pyval \<Rightarrow> string + rule_proposal" where
  "build_proposal env v =
     (case v of
        PDict raw \<Rightarrow>
          (let c = pd_get_or raw ''confidence'' (PFloat (2 / 5) ''0.4'');
               named = (\<lambda>t other. if t \<noteq> [] then t else other);
               severity = text_or raw ''severity'' ''low'' in
           bind_e (float_or_raise (de_float env) (if py_truthy c then c else PFloat (2 / 5) ''0.4'')) (\<lambda>confidence.
           judge_pattern (de_compile env)
             \<lparr>pr_id = named (text_or raw ''id'' []) ''unnamed-proposal'', pr_name = named (text_or raw ''name'' []) ''Unnamed'',
              pr_category = text_or raw ''category'' ''ip-exposure'',
              pr_severity = (if severity_of severity = None then ''low'' else severity),
              pr_confidence = confidence, pr_regex = py_str (pd_get_or raw ''regex'' (PStr [])),
              pr_rationale = text_or raw ''rationale'' [], pr_example = text_or raw ''example'' [],
              pr_remediation = text_or raw ''remediation'' [], pr_valid = True, pr_error = None\<rparr>))
      | _ \<Rightarrow> Inl ''AttributeError'')"

text \<open>\<open>payload.get("proposals", [])[:5]\<close>, iterated: a text gives its characters, a mapping cannot be cut.\<close>

definition first_proposals :: "doc \<Rightarrow> string + pyval list" where
  "first_proposals payload =
     (case pd_get_or payload ''proposals'' (PList []) of
        PList xs \<Rightarrow> Inr (take 5 xs)
      | PStr s \<Rightarrow> Inr (map PStr (take 5 (utf8_chars s)))
      | _ \<Rightarrow> Inl ''TypeError'')"

subsection \<open>The call\<close>

definition REASONING_EXHAUSTED :: string where
  "REASONING_EXHAUSTED = ''the model exhausted its token budget on reasoning without producing an answer. Route the `discover` role to a non-reasoning model, or raise max_tokens well above the reasoning length.''"

definition discover_rules :: "discovery_env \<Rightarrow> provider \<Rightarrow> doc list \<Rightarrow> string option \<Rightarrow> string + discovery_result" where
  "discover_rules env pv residue run_id =
     (let sample = build_sample residue MAX_RESIDUE_SAMPLE;
          result = \<lparr>dr_proposals = [], dr_sampled = length sample, dr_model = pv_model pv, dr_duration_s = 0, dr_call = None,
                    dr_error = None\<rparr>
      in if sample = [] then Inr result
         else
           (let ms = discover_messages sample;
                call = new_call (le_sha (de_llm env)) pv run_id None ''discover'' ''sample'' ms in
            case pv_complete pv 0 ms (pv_structured pv) 3000 of
              Inl exc \<Rightarrow> Inr (result\<lparr>dr_call := Some (call\<lparr>lc_error := Some (utf8_take 1000 exc)\<rparr>), dr_error := Some exc\<rparr>)
            | Inr c \<Rightarrow>
                (let answer = result\<lparr>dr_duration_s := co_duration_s c, dr_call := Some (answered 8000 c call)\<rparr> in
                 case as_json (le_loads (de_llm env)) c of
                   Some (x # xs) \<Rightarrow>
                     bind_e (first_proposals (x # xs)) (\<lambda>raws.
                     bind_e (map_e (build_proposal env) raws) (\<lambda>ps. Inr (answer\<lparr>dr_proposals := ps\<rparr>)))
                 | _ \<Rightarrow> Inr (answer\<lparr>dr_error := Some (if py_truthy (pd_get_or (co_raw c) ''thinking'' PNone)
                            then REASONING_EXHAUSTED else ''model did not return parseable JSON'')\<rparr>))))"

subsection \<open>Output\<close>

definition round2 :: "rat \<Rightarrow> rat" where
  "round2 r = of_int (round_half_even (r * 100)) / 100"

definition to_yaml :: "discovery_env \<Rightarrow> rule_proposal \<Rightarrow> string" where
  "to_yaml env p = de_yaml env (PDict [(PStr ''rules'', PList [PDict
     [(PStr ''id'', PStr (pr_id p)), (PStr ''name'', PStr (pr_name p)), (PStr ''category'', PStr (pr_category p)),
      (PStr ''severity'', PStr (pr_severity p)),
      (PStr ''confidence'', PFloat (round2 (pr_confidence p)) (le_show_float (de_llm env) (round2 (pr_confidence p)))),
      (PStr ''description'', PStr (pr_rationale p)), (PStr ''remediation'', PStr (pr_remediation p)),
      (PStr ''patterns'', PList [PDict [(PStr ''regex'', PStr (pr_regex p)), (PStr ''capture'', PInt 1)]]),
      (PStr ''tags'', PList [PStr ''ai-proposed'', PStr ''needs-review'']),
      (PStr ''tests'', PDict [(PStr ''positive'', PList [PStr (pr_example p)]), (PStr ''negative'', PList [])])]])])"

definition proposals_to_yaml :: "discovery_env \<Rightarrow> discovery_result \<Rightarrow> string" where
  "proposals_to_yaml env r =
     (if usable r = [] then ''# No usable rule proposals.'' @ [CHR 0x0A]
      else join [CHR 0x0A]
        [''# AI-proposed detection rules '' @ EM_DASH @ '' REVIEW BEFORE MERGING.'',
         ''# Model: '' @ dr_model r @ ''. Sampled '' @ show_nat (dr_sampled r) @ '' unmatched strings.'',
         ''#'',
         ''# These are proposals, not findings. Nothing here has affected any'',
         ''# scan result. Merging one makes it deterministic; until then it does'',
         ''# not exist as far as the pipeline is concerned.'',
         ''#'',
         ''# Every rule needs a negative fixture before it merges '' @ EM_DASH @ '' see'',
         ''# tests/unit/test_rules.py, which executes them.'',
         '''',
         join [CHR 0x0A] (map (\<lambda>p. ''# --- '' @ pr_id p @ '': '' @ pr_rationale p @ [CHR 0x0A] @ to_yaml env p) (usable r))])"

definition proposal_dict :: "(rat \<Rightarrow> string) \<Rightarrow> rule_proposal \<Rightarrow> pyval" where
  "proposal_dict show_float p = PDict
     [(PStr ''id'', PStr (pr_id p)), (PStr ''name'', PStr (pr_name p)), (PStr ''category'', PStr (pr_category p)),
      (PStr ''severity'', PStr (pr_severity p)), (PStr ''confidence'', PFloat (pr_confidence p) (show_float (pr_confidence p))),
      (PStr ''regex'', PStr (pr_regex p)), (PStr ''rationale'', PStr (pr_rationale p)), (PStr ''example'', PStr (pr_example p)),
      (PStr ''remediation'', PStr (pr_remediation p))]"

definition summarise_discovery :: "discovery_env \<Rightarrow> discovery_result \<Rightarrow> doc" where
  "summarise_discovery env r =
     (let text_of = (\<lambda>x. case x of Some t \<Rightarrow> PStr t | None \<Rightarrow> PNone); show_float = le_show_float (de_llm env) in
     [(PStr ''sampled'', PInt (int (dr_sampled r))), (PStr ''model'', PStr (dr_model r)),
      (PStr ''duration_s'', PFloat (round2 (dr_duration_s r)) (show_float (round2 (dr_duration_s r)))),
      (PStr ''proposed'', PInt (int (length (dr_proposals r)))), (PStr ''usable'', PInt (int (length (usable r)))),
      (PStr ''rejected'', PList (map (\<lambda>p. PDict [(PStr ''id'', PStr (pr_id p)), (PStr ''error'', text_of (pr_error p))])
         (filter (\<lambda>p. \<not> pr_valid p) (dr_proposals r)))),
      (PStr ''proposals'', PList (map (proposal_dict show_float) (usable r))),
      (PStr ''yaml'', PStr (proposals_to_yaml env r)), (PStr ''error'', text_of (dr_error r))])"

text \<open>\<open>discover_rules_task\<close> once the provider is ready: the residue of the run's manifest, or none.\<close>

definition discover_role :: "llm_config \<Rightarrow> llm_error + string" where
  "discover_role cf = map_sum id (\<lambda>present. if present then ''discover'' else ''explain'') (value_has (cf_roles cf) ''discover'')"

definition discover_task :: "discovery_env \<Rightarrow> provider \<Rightarrow> doc list option \<Rightarrow> string \<Rightarrow> string + doc" where
  "discover_task env pv residue run_id =
     (case residue of
        Some (x # xs) \<Rightarrow> map_sum id (\<lambda>r. (PStr ''run_id'', PStr run_id) # summarise_discovery env r) (discover_rules env pv (x # xs) (Some run_id))
      | _ \<Rightarrow> Inr [(PStr ''run_id'', PStr run_id), (PStr ''sampled'', PInt 0), (PStr ''proposed'', PInt 0),
               (PStr ''usable'', PInt 0), (PStr ''error'', PStr ''no unmatched strings were sampled for this run'')])"

subsection \<open>What reaches the model, and what comes back\<close>

lemma sample_keeps: "v \<in> set sample \<Longrightarrow> v \<in> set (sample_from limit seen sample residue)"
  by (induction limit seen sample residue rule: sample_from.induct) (auto simp: Let_def)

lemma sample_length: "length sample < limit \<Longrightarrow> length (sample_from limit seen sample residue) \<le> limit"
  by (induction limit seen sample residue rule: sample_from.induct) (auto simp: Let_def)

text \<open>An entry early enough in the residue is sampled whatever it is.\<close>

lemma sample_takes:
  assumes "value = redact_residue (py_strip (py_str (pd_get_or entry ''value'' (PStr []))))"
    and "12 \<le> length (utf8_chars value)" "length sample + length before < limit" "set seen = set sample"
  shows "value \<in> set (sample_from limit seen sample (before @ entry # rest))"
  using assms(3,4)
proof (induction before arbitrary: seen sample)
  case Nil
  show ?case
  proof (cases "value \<in> set seen")
    case True
    with Nil have "value \<in> set sample" by simp
    then show ?thesis by (rule sample_keeps)
  next
    case False
    then have "value \<in> set (if limit \<le> length sample + 1 then rev (value # sample)
        else sample_from limit (value # seen) (value # sample) rest)"
      by (auto intro: sample_keeps)
    with False assms(2) show ?thesis by (simp add: Let_def assms(1) [symmetric])
  qed
next
  case (Cons b before)
  let ?v = "redact_residue (py_strip (py_str (pd_get_or b ''value'' (PStr []))))"
  have "value \<in> set (sample_from limit seen sample (before @ entry # rest))"
    "value \<in> set (sample_from limit (?v # seen) (?v # sample) (before @ entry # rest))"
    by (rule Cons.IH; use Cons.prems in simp)+
  with Cons.prems show ?case by (auto simp: Let_def)
qed

lemma contains_join: "v \<in> set vs \<Longrightarrow> contains v (join sep vs)"
proof (induction vs)
  case (Cons w vs)
  show ?case
  proof (cases "v = w")
    case True
    have "\<exists>zs. join sep (w # vs) = w @ zs" by (cases vs) auto
    with True show ?thesis by (metis append_Nil contains_iff)
  next
    case False
    with Cons have "contains v (join sep vs)" "vs \<noteq> []" by auto
    then obtain as bs where "join sep vs = as @ v @ bs" by (auto simp: contains_iff)
    with \<open>vs \<noteq> []\<close> have "join sep (w # vs) = (w @ sep @ as) @ v @ bs" by (simp add: join_Cons)
    then show ?thesis unfolding contains_iff by blast
  qed
qed simp

lemma contains_around: "contains v t \<Longrightarrow> contains v (a @ t @ b)"
  unfolding contains_iff by (metis append.assoc)

lemma contains_trans: "contains u v \<Longrightarrow> contains v t \<Longrightarrow> contains u t"
  unfolding contains_iff by (metis append.assoc)

lemma numbered_contains:
  assumes "v \<in> set sample"
  shows "contains v (numbered sample)"
proof -
  from assms obtain i where i: "i < length sample" "sample ! i = v" by (auto simp: in_set_conv_nth)
  then have "(i, v) \<in> set (enumerate 0 sample)" by (auto simp: in_set_enumerate_eq)
  then have "show_nat (i + 1) @ ''. '' @ v \<in> set (map (\<lambda>(i, v). show_nat (i + 1) @ ''. '' @ v) (enumerate 0 sample))" by force
  then have "contains (show_nat (i + 1) @ ''. '' @ v) (numbered sample)" unfolding numbered_def by (rule contains_join)
  moreover have "contains v (show_nat (i + 1) @ ''. '' @ v)"
    unfolding contains_iff by (metis append.assoc append_Nil2)
  ultimately show ?thesis by (rule contains_trans [rotated])
qed

text \<open>Nothing hides the residue from the model: a value of 12 to 220 characters among the first 120 entries is
  in the prompt as it stands, whoever the provider is.\<close>

theorem discovery_sends_residue_verbatim:
  assumes "residue = before @ entry # rest" "length before < MAX_RESIDUE_SAMPLE"
    and "pd_get entry ''value'' = Some (PStr value)" "py_strip value = value"
    and "12 \<le> length (utf8_chars value)" "length (utf8_chars value) \<le> MAX_VALUE_CHARS_sample"
  shows "list_ex (\<lambda>m. contains value (ms_content m)) (discover_messages (build_sample residue MAX_RESIDUE_SAMPLE))"
proof -
  have keep: "redact_residue value = value" using assms(6) by (simp add: redact_residue_def utf8_take_def)
  have "value \<in> set (build_sample residue MAX_RESIDUE_SAMPLE)"
    unfolding build_sample_def assms(1)
    by (rule sample_takes) (use assms keep in \<open>simp_all add: pd_get_or_def\<close>)
  from contains_around [OF numbered_contains [OF this], of "''Strings no rule matched:'' @ [CHR 0x0A, CHR 0x0A]" "[]"]
  show ?thesis by (simp add: discover_messages_def)
qed

text \<open>A proposal that is called usable has a pattern that compiles, has a group, matches no ordinary text and
  matches its own example; and its severity is one the rule pack knows.\<close>

theorem usable_proposals_are_checked:
  assumes "discover_rules env pv residue run_id = Inr r"
  shows "length (dr_proposals r) \<le> 5
    \<and> list_all (\<lambda>p. (\<exists>groups search. de_compile env (pr_regex p) = Pattern groups search \<and> 1 \<le> groups
          \<and> \<not> list_ex search BENIGN \<and> (pr_example p = [] \<or> search (pr_example p)))
        \<and> severity_of (pr_severity p) \<noteq> None) (usable r)"
proof -
  have checked: "(\<exists>groups search. de_compile env (pr_regex p) = Pattern groups search \<and> 1 \<le> groups
          \<and> \<not> list_ex search BENIGN \<and> (pr_example p = [] \<or> search (pr_example p)))
        \<and> severity_of (pr_severity p) \<noteq> None"
    if built: "build_proposal env v = Inr p" and valid: "pr_valid p" for v p
  proof -
    from built obtain q where q: "judge_pattern (de_compile env) q = Inr p" "severity_of (pr_severity q) \<noteq> None"
      by (fastforce simp: build_proposal_def Let_def err_simps severity_of_def split: pyval.splits)
    have rejected: "\<not> pr_valid (reject_proposal why q)" for why by (simp add: reject_proposal_def)
    show ?thesis
    proof (cases "de_compile env (pr_regex q)")
      case (Pattern groups search)
      with q valid rejected show ?thesis
        by (auto simp: judge_pattern_def split: if_splits)
    qed (use q valid rejected in \<open>auto simp: judge_pattern_def split: if_splits\<close>)
  qed
  have members: "\<exists>v. build_proposal env v = Inr p" if "map_e (build_proposal env) raws = Inr ps" "p \<in> set ps" for raws ps p
    using that by (induction raws arbitrary: ps) (auto simp: err_simps)
  consider "dr_proposals r = []" | raws ps where "map_e (build_proposal env) raws = Inr ps" "dr_proposals r = ps" "length raws \<le> 5"
    using assms
    by (fastforce simp: discover_rules_def Let_def err_simps first_proposals_def
        split: if_splits sum.splits option.splits list.splits pyval.splits)
  then show ?thesis
  proof cases
    case 2
    have "(\<exists>groups search. de_compile env (pr_regex p) = Pattern groups search \<and> 1 \<le> groups
          \<and> \<not> list_ex search BENIGN \<and> (pr_example p = [] \<or> search (pr_example p)))
        \<and> severity_of (pr_severity p) \<noteq> None" if "p \<in> set (usable r)" for p
    proof -
      from that 2(2) have p: "p \<in> set ps" "pr_valid p" by (simp_all add: usable_def)
      from members [OF 2(1) p(1)] obtain v where "build_proposal env v = Inr p" by blast
      then show ?thesis using p(2) by (rule checked)
    qed
    then show ?thesis using map_e_length [OF 2(1)] 2(2,3) unfolding list_all_iff by simp
  qed (simp add: usable_def)
qed


text \<open>Discovery can raise, though it says it never does: an answer whose confidence is a word ends in a
  \<open>ValueError\<close>.\<close>

lemma word_confidence_raises:
  assumes "pd_get raw ''confidence'' = Some (PStr word)" "word \<noteq> []" "de_float env word = None"
  shows "build_proposal env (PDict raw) = Inl ''ValueError''"
  using assms by (simp add: build_proposal_def pd_get_or_def float_or_raise_def Let_def)

text \<open>Discovery is not the enrichment that never raises: an answer with one proposal whose confidence is a word
  makes it raise, and the task with it.\<close>

theorem discovery_can_raise:
  assumes "build_sample residue MAX_RESIDUE_SAMPLE = s # ss" "pv_complete pv 0 (discover_messages (s # ss)) (pv_structured pv) 3000 = Inr c"
    and "as_json (le_loads (de_llm env)) c = Some [(PStr ''proposals'', PList [PDict raw])]"
    and "pd_get raw ''confidence'' = Some (PStr word)" "word \<noteq> []" "de_float env word = None"
  shows "discover_task env pv (Some residue) run_id = Inl ''ValueError''"
proof -
  have "discover_rules env pv residue (Some run_id) = Inl ''ValueError''"
    using assms(1-3) word_confidence_raises [OF assms(4-6)]
    by (simp add: discover_rules_def Let_def first_proposals_def dict_simps)
  moreover have "residue \<noteq> []" using assms(1) by (auto simp: build_sample_def)
  ultimately show ?thesis by (cases residue) (simp_all add: discover_task_def)
qed

subsection \<open>Witnesses\<close>

definition residue_entry :: doc where
  "residue_entry = [(PStr ''value'', PStr ''svn+ssh://host'')]"

theorem discovery_sends_residue_verbatim_witness:
  "list_ex (\<lambda>m. contains ''svn+ssh://host'' (ms_content m)) (discover_messages (build_sample [residue_entry] MAX_RESIDUE_SAMPLE))"
  by (rule discovery_sends_residue_verbatim [of _ "[]" residue_entry "[]"])
    (simp_all add: residue_entry_def dict_simps MAX_RESIDUE_SAMPLE_def MAX_VALUE_CHARS_sample_def py_strip_def py_space_def is_cont_def)

definition open_brace :: string where
  "open_brace = [CHR ''{'', CHR ''}'']"

definition proposing_model :: provider where
  "proposing_model = \<lparr>pv_name = ''p'', pv_model = ''m'', pv_is_local = False, pv_structured = True,
     pv_complete = (\<lambda>_ _ _ _. Inr \<lparr>co_text = open_brace, co_model = ''m'', co_prompt_tokens = None,
       co_completion_tokens = None, co_duration_s = 1, co_raw = []\<rparr>)\<rparr>"

definition word_env :: "pyval \<Rightarrow> discovery_env" where
  "word_env answer = \<lparr>de_llm = \<lparr>le_sha = (\<lambda>s. s), le_loads = (\<lambda>_. Some answer), le_show_float = (\<lambda>_. ''0'')\<rparr>,
     de_compile = (\<lambda>p. Pattern 1 (\<lambda>t. t = ''svn+ssh://host'')), de_float = (\<lambda>_. None), de_yaml = (\<lambda>_. [])\<rparr>"

lemma one_sample: "build_sample [residue_entry] MAX_RESIDUE_SAMPLE = [''svn+ssh://host'']"
  by (simp add: build_sample_def residue_entry_def dict_simps MAX_RESIDUE_SAMPLE_def MAX_VALUE_CHARS_sample_def redact_residue_def
      utf8_take_def py_strip_def py_space_def is_cont_def)

theorem discovery_can_raise_witness:
  "discover_task (word_env (PDict [(PStr ''proposals'', PList [PDict [(PStr ''confidence'', PStr ''high'')]])])) proposing_model
     (Some [residue_entry]) ''r'' = Inl ''ValueError''"
  by (rule discovery_can_raise [OF one_sample])
    (auto simp: proposing_model_def word_env_def as_json_def dict_simps)

definition svn_answer :: pyval where
  "svn_answer = PDict [(PStr ''proposals'', PList [PDict [(PStr ''regex'', PStr ''x''), (PStr ''severity'', PStr ''dire''),
     (PStr ''example'', PStr ''svn+ssh://host'')]])]"

lemma svn_proposal:
  "\<exists>p. build_proposal (word_env svn_answer) (PDict [(PStr ''regex'', PStr ''x''), (PStr ''severity'', PStr ''dire''),
     (PStr ''example'', PStr ''svn+ssh://host'')]) = Inr p \<and> pr_valid p"
  by (simp add: build_proposal_def word_env_def float_or_raise_def judge_pattern_def BENIGN_def text_or_def dict_simps Let_def
      py_strip_def py_space_def numeral_eq_Suc)

lemma svn_discovered: "\<exists>r. discover_rules (word_env svn_answer) proposing_model [residue_entry] None = Inr r \<and> length (usable r) = 1"
proof -
  obtain p where p: "build_proposal (word_env svn_answer) (PDict [(PStr ''regex'', PStr ''x''), (PStr ''severity'', PStr ''dire''),
     (PStr ''example'', PStr ''svn+ssh://host'')]) = Inr p" "pr_valid p" using svn_proposal by blast
  have loads: "as_json (le_loads (de_llm (word_env svn_answer))) c = Some [(PStr ''proposals'', PList [PDict [(PStr ''regex'', PStr ''x''),
      (PStr ''severity'', PStr ''dire''), (PStr ''example'', PStr ''svn+ssh://host'')]])]"
    if "pv_complete proposing_model 0 ms b k = Inr c" for ms b k c
    using that by (auto simp: proposing_model_def word_env_def as_json_def svn_answer_def dict_simps)
  have "\<exists>c. pv_complete proposing_model 0 ms b k = Inr c" for ms b k by (simp add: proposing_model_def)
  then obtain c where c: "pv_complete proposing_model 0 (discover_messages (build_sample [residue_entry] MAX_RESIDUE_SAMPLE))
      (pv_structured proposing_model) 3000 = Inr c" by blast
  show ?thesis
    by (simp add: discover_rules_def Let_def loads [OF c] c first_proposals_def p usable_def dict_simps)
      (simp add: one_sample)
qed

theorem usable_proposals_are_checked_witness:
  "\<exists>r. length (usable r) = 1 \<and> list_all (\<lambda>p. severity_of (pr_severity p) \<noteq> None) (usable r)"
proof -
  from svn_discovered obtain r where r: "discover_rules (word_env svn_answer) proposing_model [residue_entry] None = Inr r"
    "length (usable r) = 1" by blast
  from usable_proposals_are_checked [OF r(1)] r(2) show ?thesis by (auto simp: list_all_iff)
qed

end
