(* ===== verification/Llm_Advisory.thy ===== *)
theory Llm_Advisory
  imports Llm_Investigate_Properties Llm_Discovery
begin

text \<open>
  The advisory roles that write prose (\<open>core/llm/explain.py\<close>) and the tasks that run them
  (\<open>explain_finding_task\<close>, \<open>summarize_run_task\<close>, \<open>investigate_finding_task\<close> of \<open>core/orchestrator/scan_tasks.py\<close>),
  once \<open>llm_provider\<close> has given a provider. The times of the results are not kept.
\<close>

definition EXPLAIN_SYSTEM_PROMPT :: string where
\<open>EXPLAIN_SYSTEM_PROMPT = join [CHR 0x0A]
  [''You are a security engineer writing for the developer who has to fix an exposure found in a compiled artifact their team is about to ship. A deterministic scanner found it; you are explaining it, not deciding whether it is real.'',
   '''',
   ''Write three short paragraphs, no headings, no bullet points:'',
   ''1. What this value is and how it most likely ended up in the binary.'',
   ''2. What an attacker who extracted it could reach, and why that matters here.'',
   ''3. What to do about it, in order, starting with rotation.'',
   '''',
   ''Ground every claim in the evidence given. If the evidence does not support a claim, leave it out rather than speculating. Say plainly when the impact depends on something you were not told.'',
   '''',
   ''You are shown a MASKED value. Never ask for the real one, and never guess it.'',
   '''',
   ''Describe exposure and remediation only. Never write exploit code, credential recovery steps, or instructions for using the discovered value.'',
   '''',
   ''Reply with prose only. No JSON, no preamble, no sign-off.'']\<close>

definition SUMMARIZE_SYSTEM_PROMPT :: string where
\<open>SUMMARIZE_SYSTEM_PROMPT = join [CHR 0x0A]
  [''You are a security engineer briefing a release manager who must decide whether to ship a build. A deterministic scanner has finished; you are summarising its results, not re-judging them.'',
   '''',
   ''Write one paragraph, at most six sentences, covering:'',
   ''- The overall exposure picture, led by the most severe finding.'',
   ''- Any pattern worth naming (one leaked build environment, one vendored component, credentials of a single kind).'',
   ''- What a reviewer should look at first.'',
   '''',
   ''Use only the counts and findings given. Never invent a finding, never revise a severity, and never state a total that contradicts the numbers provided. If the scan found nothing of consequence, say so plainly and stop.'',
   '''',
   ''Describe exposure and remediation only. No exploit code.'',
   '''',
   ''Reply with prose only. No JSON, no headings, no bullet points.'']\<close>

record summary_result =
  su_text :: string
  su_call :: "llm_call option"
  su_error :: "string option"

record briefed = run +
  br_summary :: "string option"
  br_summary_model :: "string option"

definition section_line :: "string \<Rightarrow> nat \<Rightarrow> string option \<Rightarrow> string list" where
  "section_line label limit t = (case t of Some c \<Rightarrow> if c \<noteq> [] then [label @ utf8_take limit c] else [] | None \<Rightarrow> [])"

definition build_explain_prompt :: "(rat \<Rightarrow> string) \<Rightarrow> finding \<Rightarrow> string \<Rightarrow> nat \<Rightarrow> string" where
  "build_explain_prompt show_float f path_in_tree location_count =
     join [CHR 0x0A]
       ([''Rule: '' @ f_rule_id f, ''Category: '' @ f_category f, ''Title: '' @ f_title f,
         ''Severity: '' @ severity_value (f_severity f), ''Masked value: '' @ f_value_masked f,
         ''Entropy: '' @ (case f_entropy f of Some e \<Rightarrow> show_float e | None \<Rightarrow> ''unknown''),
         ''Found in: '' @ path_in_tree, ''Occurrences in artifact: '' @ show_nat location_count]
        @ (case f_cwe f of Some c \<Rightarrow> if c \<noteq> [] then [''CWE: '' @ c] else [] | None \<Rightarrow> [])
        @ section_line ''Surrounding context (value masked): '' 600 (f_context_snippet f)
        @ section_line ''Rule pack remediation: '' 600 (f_remediation_md f))"

definition prose :: "completion \<Rightarrow> string option" where
  "prose c = (let t = py_strip (co_text c) in if t \<noteq> [] then Some t else None)"

definition budget_error :: "completion \<Rightarrow> string" where
  "budget_error c =
     (if py_truthy (pd_get_or (co_raw c) ''thinking'' PNone)
      then ''the model exhausted its token budget on reasoning without producing an answer; raise max_tokens for this role or route it to a non-reasoning model''
      else ''the model returned an empty response'')"

definition role_messages :: "string \<Rightarrow> string \<Rightarrow> message list" where
  "role_messages system prompt = [\<lparr>ms_role = ''system'', ms_content = system\<rparr>, user_message prompt]"

text \<open>The part the two roles share: one call without JSON mode, and the prose of its answer. \<open>Inl\<close> is the
  exception of an unreachable model.\<close>

definition ask_prose :: "llm_env \<Rightarrow> provider \<Rightarrow> llm_call \<Rightarrow> message list \<Rightarrow> (string + string option) \<times> llm_call" where
  "ask_prose env pv call ms =
     (case pv_complete pv 0 ms False 4000 of
        Inl exc \<Rightarrow> (Inl exc, call\<lparr>lc_error := Some (utf8_take 1000 exc)\<rparr>)
      | Inr c \<Rightarrow>
          (let call = answered 8000 c call in
           (Inr (prose c), if prose c = None then call\<lparr>lc_error := Some (budget_error c)\<rparr> else call)))"

definition explain_finding ::
  "llm_env \<Rightarrow> provider \<Rightarrow> finding \<Rightarrow> string \<Rightarrow> nat \<Rightarrow> string option \<Rightarrow> string option \<times> llm_call" where
  "explain_finding env pv f path_in_tree location_count run_id =
     (let ms = role_messages EXPLAIN_SYSTEM_PROMPT (build_explain_prompt (le_show_float env) f path_in_tree location_count);
          (outcome, call) = ask_prose env pv (new_call (le_sha env) pv run_id (Some (f_id f)) ''explain'' ''strict'' ms) ms
      in (case outcome of Inl exc \<Rightarrow> None | Inr t \<Rightarrow> t, call))"

definition apply_explanation :: "annotated \<Rightarrow> string \<Rightarrow> string \<Rightarrow> annotated" where
  "apply_explanation f t model = f\<lparr>an_explanation := Some t, an_explained_by := Some model\<rparr>"

subsection \<open>The summary of a run\<close>

definition ALL_SEVERITIES :: "severity list" where
  "ALL_SEVERITIES = [CRITICAL, HIGH, MEDIUM, LOW, INFO]"

definition severity_counts :: "finding list \<Rightarrow> (severity \<times> nat) list" where
  "severity_counts fs =
     concat (map (\<lambda>s. case map_of (tally f_severity fs) s of Some n \<Rightarrow> if n \<noteq> 0 then [(s, n)] else [] | None \<Rightarrow> []) ALL_SEVERITIES)"

definition summary_key :: "finding \<Rightarrow> nat \<times> string \<times> string" where
  "summary_key f = (severity_rank (f_severity f), f_rule_id f, f_id f)"

definition summary_order :: "finding list \<Rightarrow> finding list" where
  "summary_order fs = sort_key summary_key fs"

definition build_summary_prompt :: "finding list \<Rightarrow> string \<Rightarrow> nat \<Rightarrow> string" where
  "build_summary_prompt fs artifact_name artifact_count =
     (let counts = join '', '' (map (\<lambda>(s, n). show_nat n @ '' '' @ severity_value s) (severity_counts fs));
          ordered = summary_order fs in
      join [CHR 0x0A]
        ([''Artifact: '' @ artifact_name, ''Files analysed: '' @ show_nat artifact_count,
          ''Total findings: '' @ show_nat (length fs), ''By severity: '' @ (if counts \<noteq> [] then counts else ''none''), '''',
          ''Findings, most severe first (values masked):'']
         @ map (\<lambda>f. ''- ['' @ severity_value (f_severity f) @ ''] '' @ f_title f @ '' ('' @ f_rule_id f @ '') = '' @ f_value_masked f)
             (take 40 ordered)
         @ (if 40 < length ordered
            then [''- ... and '' @ show_nat (length ordered - 40) @ '' more, already counted above''] else [])))"

definition summarize_run ::
  "llm_env \<Rightarrow> provider \<Rightarrow> briefed \<Rightarrow> finding list \<Rightarrow> string \<Rightarrow> nat \<Rightarrow> summary_result \<times> briefed" where
  "summarize_run env pv r fs artifact_name artifact_count =
     (let ms = role_messages SUMMARIZE_SYSTEM_PROMPT (build_summary_prompt fs artifact_name artifact_count);
          (outcome, call) = ask_prose env pv (new_call (le_sha env) pv (Some (r_id r)) None ''summarize'' ''strict'' ms) ms
      in case outcome of
           Inl exc \<Rightarrow> (\<lparr>su_text = [], su_call = Some call, su_error = Some exc\<rparr>, r)
         | Inr None \<Rightarrow> (\<lparr>su_text = [], su_call = Some call, su_error = lc_error call\<rparr>, r)
         | Inr (Some t) \<Rightarrow>
             (\<lparr>su_text = t, su_call = Some call, su_error = None\<rparr>,
              r\<lparr>br_summary := Some t, br_summary_model := Some (pv_model pv)\<rparr>))"

subsection \<open>The tasks\<close>

record advice_db =
  ad_runs :: "briefed list"
  ad_findings :: "annotated list"
  ad_locations :: "finding_location list"
  ad_artifacts :: "artifact list"
  ad_calls :: "llm_call list"

definition find_finding :: "advice_db \<Rightarrow> string \<Rightarrow> string \<Rightarrow> annotated option" where
  "find_finding d finding_id run_id = List.find (\<lambda>f. f_id f = finding_id \<and> f_run_id f = run_id) (ad_findings d)"

definition put_finding :: "annotated \<Rightarrow> advice_db \<Rightarrow> advice_db" where
  "put_finding f d = d\<lparr>ad_findings := map (\<lambda>g. if f_id g = f_id f \<and> f_run_id g = f_run_id f then f else g) (ad_findings d)\<rparr>"

definition locations_of :: "advice_db \<Rightarrow> string \<Rightarrow> string \<Rightarrow> finding_location list" where
  "locations_of d finding_id run_id = filter (\<lambda>l. fl_finding_id l = finding_id \<and> fl_run_id l = run_id) (ad_locations d)"

definition first_path :: "finding_location list \<Rightarrow> string" where
  "first_path ls = (case ls of l # _ \<Rightarrow> fl_path_in_tree l | [] \<Rightarrow> [])"

definition finding_missing :: "string \<Rightarrow> string \<Rightarrow> string" where
  "finding_missing finding_id run_id = ''finding '' @ finding_id @ '' not found in run '' @ run_id"

text \<open>A task gives the error it reports, on the left, or what it wrote.\<close>

definition explain_task :: "llm_env \<Rightarrow> provider \<Rightarrow> string \<Rightarrow> string \<Rightarrow> advice_db \<Rightarrow> (string + string) \<times> advice_db" where
  "explain_task env pv run_id finding_id d =
     (case find_finding d finding_id run_id of
        None \<Rightarrow> (Inl (finding_missing finding_id run_id), d)
      | Some f \<Rightarrow>
          (let ls = locations_of d finding_id run_id;
               (t, call) = explain_finding env pv (finding.truncate f) (first_path ls) (max 1 (length ls)) (Some run_id);
               d = d\<lparr>ad_calls := ad_calls d @ [call]\<rparr>
           in case t of
                None \<Rightarrow> (Inl (case lc_error call of Some e \<Rightarrow> if e \<noteq> [] then e else ''the model returned no explanation''
                             | None \<Rightarrow> ''the model returned no explanation''), d)
              | Some t \<Rightarrow> (Inr t, put_finding (apply_explanation f t (pv_model pv)) d)))"

definition summarize_task :: "llm_env \<Rightarrow> provider \<Rightarrow> string \<Rightarrow> advice_db \<Rightarrow> (string + string) \<times> advice_db" where
  "summarize_task env pv run_id d =
     (case List.find (\<lambda>r. r_id r = run_id) (ad_runs d) of
        None \<Rightarrow> (Inl (''run '' @ run_id @ '' not found''), d)
      | Some r \<Rightarrow>
          (let fs = map finding.truncate (filter (\<lambda>f. f_run_id f = run_id) (ad_findings d));
               arts = filter (\<lambda>a. a_run_id a = run_id) (ad_artifacts d);
               name = (case List.find (\<lambda>a. a_parent_id a = None) arts of Some a \<Rightarrow> a_name a | None \<Rightarrow> ''(unknown)'');
               (result, r') = summarize_run env pv r fs name (length arts);
               d = d\<lparr>ad_calls := ad_calls d @ (case su_call result of Some c \<Rightarrow> [c] | None \<Rightarrow> []),
                     ad_runs := map (\<lambda>x. if r_id x = run_id then r' else x) (ad_runs d)\<rparr>
           in (case su_error result of Some e \<Rightarrow> Inl e | None \<Rightarrow> Inr (su_text result), d)))"

text \<open>When the tools may return plaintext.\<close>

definition plaintext_allowed :: "bool \<Rightarrow> briefed option \<Rightarrow> pyval \<Rightarrow> bool" where
  "plaintext_allowed is_local r redaction \<longleftrightarrow>
     is_local \<and> (case r of Some r \<Rightarrow> r_retain_plaintext r | None \<Rightarrow> False) \<and> redaction \<noteq> PStr ''strict''"

definition task_toolbox :: "provider \<Rightarrow> llm_config \<Rightarrow> tool_world \<Rightarrow> string \<Rightarrow> advice_db \<Rightarrow> toolbox" where
  "task_toolbox pv cf w run_id d =
     \<lparr>tb_world = w\<lparr>tw_artifacts := ad_artifacts d\<rparr>, tb_run_id = run_id,
      tb_allow_plaintext = plaintext_allowed (pv_is_local pv) (List.find (\<lambda>r. r_id r = run_id) (ad_runs d)) (cf_redaction cf)\<rparr>"

text \<open>\<open>None\<close> is an exception, after which nothing is committed.\<close>

definition investigate_task ::
  "llm_env \<Rightarrow> provider \<Rightarrow> llm_config \<Rightarrow> tool_world \<Rightarrow> string \<Rightarrow> string \<Rightarrow> advice_db \<Rightarrow> ((string + investigation) \<times> advice_db) option" where
  "investigate_task env pv cf w run_id finding_id d =
     (case find_finding d finding_id run_id of
        None \<Rightarrow> Some (Inl (finding_missing finding_id run_id), d)
      | Some f \<Rightarrow>
          (let ls = locations_of d finding_id run_id in
           map_option (\<lambda>r.
             (if in_error r \<noteq> None \<and> in_conclusion r = [] then Inl (the (in_error r)) else Inr r,
              put_finding (apply_investigation f r (pv_model pv)) (d\<lparr>ad_calls := ad_calls d @ in_calls r\<rparr>)))
             (investigate_finding env pv (task_toolbox pv cf w run_id d) (finding.truncate f) ls (first_path ls)
                (max 1 (length ls)) MAX_STEPS)))"

subsection \<open>What advice leaves alone\<close>

definition rule_findings :: "advice_db \<Rightarrow> finding list" where
  "rule_findings d = map finding.truncate (ad_findings d)"

definition plain_runs :: "advice_db \<Rightarrow> run list" where
  "plain_runs d = map run.truncate (ad_runs d)"

definition finding_keys :: "advice_db \<Rightarrow> (string \<times> string) list" where
  "finding_keys d = map (\<lambda>f. (f_id f, f_run_id f)) (ad_findings d)"

lemma find_finding_SomeD:
  assumes "find_finding d finding_id run_id = Some f"
  shows "f \<in> set (ad_findings d)"
  using find_SomeD [of "\<lambda>f. f_id f = finding_id \<and> f_run_id f = run_id"] assms by (auto simp: find_finding_def)

lemma put_finding_keeps:
  assumes "distinct (finding_keys d)" "f \<in> set (ad_findings d)" "finding.truncate f' = finding.truncate f"
  shows "rule_findings (put_finding f' d) = rule_findings d"
proof -
  have keys: "f_id f' = f_id f" "f_run_id f' = f_run_id f"
    using assms(3) by (simp_all add: finding.truncate_def)
  have "g = f" if "g \<in> set (ad_findings d)" "f_id g = f_id f" "f_run_id g = f_run_id f" for g
    using inj_onD [OF distinct_map [THEN iffD1, OF assms(1) [unfolded finding_keys_def], THEN conjunct2]] that assms(2) by simp
  then have "finding.truncate (if f_id g = f_id f' \<and> f_run_id g = f_run_id f' then f' else g) = finding.truncate g"
    if "g \<in> set (ad_findings d)" for g
    using that assms(3) by (auto simp: keys)
  then show ?thesis by (simp add: rule_findings_def put_finding_def comp_def)
qed

lemma explanation_keeps_finding: "finding.truncate (apply_explanation f t model) = finding.truncate f"
  by (simp add: apply_explanation_def finding.truncate_def)

lemma db_fields [simp]:
  "ad_findings (d\<lparr>ad_calls := cs\<rparr>) = ad_findings d" "finding_keys (d\<lparr>ad_calls := cs\<rparr>) = finding_keys d"
  "rule_findings (d\<lparr>ad_calls := cs\<rparr>) = rule_findings d" "plain_runs (d\<lparr>ad_calls := cs\<rparr>) = plain_runs d"
  "plain_runs (put_finding f d) = plain_runs d"
  by (simp_all add: finding_keys_def rule_findings_def plain_runs_def put_finding_def)

lemma explain_task_keeps:
  assumes "distinct (finding_keys d)"
  shows "rule_findings (snd (explain_task env pv i k d)) = rule_findings d \<and> plain_runs (snd (explain_task env pv i k d)) = plain_runs d"
proof (cases "find_finding d k i")
  case (Some f)
  note f = find_finding_SomeD [OF Some]
  have "rule_findings (put_finding (apply_explanation f t m) (d\<lparr>ad_calls := cs\<rparr>)) = rule_findings d" for t m cs
    using put_finding_keeps [of "d\<lparr>ad_calls := cs\<rparr>" f] assms f explanation_keeps_finding by simp
  with Some show ?thesis by (simp add: explain_task_def Let_def split: prod.split option.split)
qed (simp add: explain_task_def)

lemma investigate_task_keeps:
  assumes "distinct (finding_keys d)" "investigate_task env pv cf w i k d = Some (out, d')"
  shows "rule_findings d' = rule_findings d \<and> plain_runs d' = plain_runs d"
proof (cases "find_finding d k i")
  case (Some f)
  note f = find_finding_SomeD [OF Some]
  have "rule_findings (put_finding (apply_investigation f r m) (d\<lparr>ad_calls := cs\<rparr>)) = rule_findings d" for r m cs
    using put_finding_keeps [of "d\<lparr>ad_calls := cs\<rparr>" f] assms f investigation_keeps_finding by simp
  with Some assms(2) show ?thesis by (auto simp: investigate_task_def Let_def)
qed (use assms in \<open>simp add: investigate_task_def\<close>)

lemma summarize_task_keeps:
  assumes "distinct (map r_id (ad_runs d))"
  shows "rule_findings (snd (summarize_task env pv i d)) = rule_findings d \<and> plain_runs (snd (summarize_task env pv i d)) = plain_runs d"
proof (cases "List.find (\<lambda>r. r_id r = i) (ad_runs d)")
  case (Some r)
  have r: "r \<in> set (ad_runs d)" "r_id r = i" using find_SomeD [OF Some] by auto
  have same: "run.truncate (snd (summarize_run env pv r fs name n)) = run.truncate r" for fs name n
    by (simp add: summarize_run_def Let_def run.truncate_def split: prod.split sum.split option.split)
  have only: "x = r" if "x \<in> set (ad_runs d)" "r_id x = i" for x
    using that r assms by (auto simp: distinct_map dest: inj_onD)
  have upd: "map run.truncate (map (\<lambda>x. if r_id x = i then snd (summarize_run env pv r fs name n) else x) (ad_runs d))
      = map run.truncate (ad_runs d)" for fs name n
    unfolding map_map
  proof (rule map_cong [OF refl])
    fix x
    assume "x \<in> set (ad_runs d)"
    with only [of x] same show "(run.truncate \<circ> (\<lambda>x. if r_id x = i then snd (summarize_run env pv r fs name n) else x)) x
        = run.truncate x" by auto
  qed
  show ?thesis
    unfolding summarize_task_def Some option.case Let_def case_prod_beta snd_conv
    by (simp add: rule_findings_def plain_runs_def upd del: map_map)
qed (simp add: summarize_task_def)

text \<open>The roles that write prose change nothing a rule wrote: after explaining, summarising and
  investigating, in any outcome, every finding and every run has the fields it had.\<close>

theorem advice_changes_no_finding:
  assumes "distinct (finding_keys d)" "distinct (map r_id (ad_runs d))"
    and "d1 = snd (explain_task env pv i k d) \<or> d1 = snd (summarize_task env pv i d)
      \<or> (\<exists>out. investigate_task env pv cf w i k d = Some (out, d1))"
  shows "rule_findings d1 = rule_findings d \<and> plain_runs d1 = plain_runs d"
  using assms(3) explain_task_keeps [OF assms(1)] summarize_task_keeps [OF assms(2)] investigate_task_keeps [OF assms(1)]
  by blast

subsection \<open>The summary's numbers\<close>

lemma tally_severity: "map_of (tally f_severity fs) s =
    (let n = length (filter (\<lambda>f. f_severity f = s) fs) in if n = 0 then None else Some n)"
  by (auto simp: tally_get Let_def filter_empty_conv)

lemma sum_list_concat: "sum_list (concat xss) = sum_list (map sum_list xss)" for xss :: "nat list list"
  by (induction xss) simp_all

text \<open>The counts given to the model add up to the findings there are, each severity's count is exact, and
  the findings listed are the most severe ones.\<close>

theorem summary_is_honest:
  "sum_list (map snd (severity_counts fs)) = length fs
    \<and> list_all (\<lambda>(s, n). n = length (filter (\<lambda>f. f_severity f = s) fs)) (severity_counts fs)
    \<and> list_all (\<lambda>f. list_all (\<lambda>g. severity_rank (f_severity f) \<le> severity_rank (f_severity g)) (drop 40 (summary_order fs)))
        (take 40 (summary_order fs))"
proof (intro conjI)
  have count: "map_of (tally f_severity fs) s = Some n \<Longrightarrow> n = length (filter (\<lambda>f. f_severity f = s) fs)" for s n
    by (auto simp: tally_severity Let_def split: if_splits)
  have total: "sum_list (map (\<lambda>s. length (filter (\<lambda>f. f_severity f = s) fs)) ALL_SEVERITIES) = length fs"
  proof (induction fs)
    case (Cons f fs)
    then show ?case by (cases "f_severity f") (simp_all add: ALL_SEVERITIES_def)
  qed (simp add: ALL_SEVERITIES_def)
  have part: "sum_list (map snd (case map_of (tally f_severity fs) s of Some n \<Rightarrow> if n \<noteq> 0 then [(s, n)] else [] | None \<Rightarrow> []))
      = length (filter (\<lambda>f. f_severity f = s) fs)" for s
    by (simp add: tally_severity Let_def)
  show "sum_list (map snd (severity_counts fs)) = length fs"
    unfolding severity_counts_def map_concat sum_list_concat map_map comp_def part by (rule total)
  show "list_all (\<lambda>(s, n). n = length (filter (\<lambda>f. f_severity f = s) fs)) (severity_counts fs)"
    using count by (auto simp: severity_counts_def list_all_iff split: option.splits if_splits)
  have "sorted (map summary_key (take 40 (summary_order fs) @ drop 40 (summary_order fs)))"
    by (simp add: summary_order_def)
  then have "summary_key f \<le> summary_key g" if "f \<in> set (take 40 (summary_order fs))" "g \<in> set (drop 40 (summary_order fs))" for f g
    using that unfolding map_append sorted_append by auto
  then show "list_all (\<lambda>f. list_all (\<lambda>g. severity_rank (f_severity f) \<le> severity_rank (f_severity g)) (drop 40 (summary_order fs)))
        (take 40 (summary_order fs))"
    unfolding list_all_iff by (fastforce simp: summary_key_def less_eq_prod_def)
qed


definition advised_finding :: annotated where
  "advised_finding = finding.extend (sample_row ''r'' ''h'') (annotated.fields None None None [] None None)"

definition advised_db :: advice_db where
  "advised_db = \<lparr>ad_runs = [], ad_findings = [advised_finding], ad_locations = [], ad_artifacts = [], ad_calls = []\<rparr>"

theorem advice_changes_no_finding_witness:
  "rule_findings (snd (explain_task sample_env proposing_model ''r'' (f_id advised_finding) advised_db)) = rule_findings advised_db
    \<and> plain_runs (snd (explain_task sample_env proposing_model ''r'' (f_id advised_finding) advised_db)) = plain_runs advised_db"
  by (rule advice_changes_no_finding [OF _ _ disjI1 [OF refl]])
    (simp_all add: advised_db_def finding_keys_def)

end
