(* ===== verification/Ghidra_Result.thy ===== *)
theory Ghidra_Result
  imports Py_Json Py_Dict Canonical_Order
begin

text \<open>
  The result document of the Ghidra analyzer (\<open>core/analyzers/ghidra_result.py\<close>), which the container writes
  and the pipeline reads: its records, \<open>to_json\<close> and \<open>from_json\<close> of each, and what the pipeline asks of
  it. \<open>from_json\<close> takes whatever JSON value it is given; an exception is its name, on the left. How a float
  prints, and how \<open>float()\<close> reads a text, are parameters.
\<close>

definition SCHEMA_VERSION :: int where "SCHEMA_VERSION = 1"

record xref_site =
  xs_from_address :: string
  xs_reference_type :: string
  xs_function :: "string option"
  xs_function_address :: "string option"
  xs_context :: "string option"

record xref_target =
  xt_file_offset :: int
  xt_address :: "string option"
  xt_found :: bool
  xt_references :: "xref_site list"

record binary_result =
  gb_path :: string
  gb_status :: string
  gb_reason :: "string option"
  gb_language :: "string option"
  gb_function_count :: int
  gb_duration_s :: rat
  gb_targets :: "xref_target list"

record ghidra_result =
  gr_schema_version :: int
  gr_analyzer :: string
  gr_ghidra_version :: string
  gr_binaries :: "binary_result list"
  gr_truncated :: bool

subsection \<open>Reading\<close>

definition optional_str :: "pyval \<Rightarrow> string option" where
  "optional_str v = (if v = PNone \<or> py_str v = [] then None else Some (py_str v))"

text \<open>\<open>data.get\<close> on a value that may be no dictionary.\<close>

definition json_object :: "pyval \<Rightarrow> string + (pyval \<times> pyval) list" where
  "json_object v = (case v of PDict d \<Rightarrow> Inr d | _ \<Rightarrow> Inl ''AttributeError'')"

definition list_from :: "(pyval \<Rightarrow> string + 'a) \<Rightarrow> pyval \<Rightarrow> string + 'a list" where
  "list_from f v = (case v of PList xs \<Rightarrow> map_e f xs | _ \<Rightarrow> Inr [])"

definition site_from :: "pyval \<Rightarrow> string + xref_site" where
  "site_from v =
     bind_e (json_object v) (\<lambda>d.
     Inr \<lparr>xs_from_address = got_str d ''from_address'' [], xs_reference_type = got_str d ''reference_type'' ''UNKNOWN'',
          xs_function = optional_str (pd_get_or d ''function'' PNone),
          xs_function_address = optional_str (pd_get_or d ''function_address'' PNone),
          xs_context = optional_str (pd_get_or d ''context'' PNone)\<rparr>)"

definition target_from :: "pyval \<Rightarrow> string + xref_target" where
  "target_from v =
     bind_e (json_object v) (\<lambda>d.
     bind_e (list_from site_from (pd_get_or d ''references'' PNone)) (\<lambda>references.
     bind_e (int_or_raise (got_or d ''file_offset'' (PInt 0))) (\<lambda>file_offset.
     Inr \<lparr>xt_file_offset = file_offset, xt_address = optional_str (pd_get_or d ''address'' PNone),
          xt_found = py_truthy (pd_get_or d ''found'' PNone), xt_references = references\<rparr>)))"

definition binary_from :: "(string \<Rightarrow> rat option) \<Rightarrow> pyval \<Rightarrow> string + binary_result" where
  "binary_from read_float v =
     bind_e (json_object v) (\<lambda>d.
     bind_e (list_from target_from (pd_get_or d ''targets'' PNone)) (\<lambda>targets.
     bind_e (int_or_raise (got_or d ''function_count'' (PInt 0))) (\<lambda>function_count.
     bind_e (float_or_raise read_float (got_or d ''duration_s'' (PInt 0))) (\<lambda>duration_s.
     Inr \<lparr>gb_path = got_str d ''path'' [], gb_status = got_str d ''status'' ''failed'',
          gb_reason = optional_str (pd_get_or d ''reason'' PNone), gb_language = optional_str (pd_get_or d ''language'' PNone),
          gb_function_count = function_count, gb_duration_s = duration_s, gb_targets = targets\<rparr>))))"

definition ghidra_from :: "(string \<Rightarrow> rat option) \<Rightarrow> pyval \<Rightarrow> string + ghidra_result" where
  "ghidra_from read_float v =
     bind_e (json_object v) (\<lambda>d.
     bind_e (list_from (binary_from read_float) (pd_get_or d ''binaries'' PNone)) (\<lambda>binaries.
     bind_e (json_object (got_or d ''tool_versions'' (PDict []))) (\<lambda>tools.
     let version = got_or tools ''ghidra'' (pd_get_or d ''ghidra_version'' PNone) in
     bind_e (int_or_raise (got_or d ''schema_version'' (PInt 0))) (\<lambda>schema_version.
     Inr \<lparr>gr_schema_version = schema_version, gr_analyzer = got_str d ''analyzer'' ''ghidra'',
          gr_ghidra_version = py_str (if py_truthy version then version else PStr ''unknown''),
          gr_binaries = binaries, gr_truncated = py_truthy (pd_get_or d ''truncated'' PNone)\<rparr>))))"

subsection \<open>Writing\<close>

definition opt_json :: "string option \<Rightarrow> pyval" where
  "opt_json x = (case x of Some t \<Rightarrow> PStr t | None \<Rightarrow> PNone)"

definition site_json :: "xref_site \<Rightarrow> pyval" where
  "site_json x = PDict
     [(PStr ''from_address'', PStr (xs_from_address x)), (PStr ''reference_type'', PStr (xs_reference_type x)),
      (PStr ''function'', opt_json (xs_function x)), (PStr ''function_address'', opt_json (xs_function_address x)),
      (PStr ''context'', opt_json (xs_context x))]"

definition target_json :: "xref_target \<Rightarrow> pyval" where
  "target_json x = PDict
     [(PStr ''file_offset'', PInt (xt_file_offset x)), (PStr ''address'', opt_json (xt_address x)),
      (PStr ''found'', PBool (xt_found x)), (PStr ''references'', PList (map site_json (xt_references x)))]"

definition binary_json :: "(rat \<Rightarrow> string) \<Rightarrow> binary_result \<Rightarrow> pyval" where
  "binary_json show_float b = PDict
     [(PStr ''path'', PStr (gb_path b)), (PStr ''status'', PStr (gb_status b)), (PStr ''reason'', opt_json (gb_reason b)),
      (PStr ''language'', opt_json (gb_language b)), (PStr ''function_count'', PInt (gb_function_count b)),
      (PStr ''duration_s'', PFloat (round3_rat (gb_duration_s b)) (show_float (round3_rat (gb_duration_s b)))),
      (PStr ''targets'', PList (map target_json (gb_targets b)))]"

definition ghidra_json :: "(rat \<Rightarrow> string) \<Rightarrow> ghidra_result \<Rightarrow> pyval" where
  "ghidra_json show_float r = PDict
     [(PStr ''schema_version'', PInt (gr_schema_version r)), (PStr ''analyzer'', PStr (gr_analyzer r)),
      (PStr ''ghidra_version'', PStr (gr_ghidra_version r)), (PStr ''truncated'', PBool (gr_truncated r)),
      (PStr ''tool_versions'', PDict [(PStr ''ghidra'', PStr (gr_ghidra_version r))]),
      (PStr ''binaries'', PList (map (binary_json show_float) (sort_key gb_path (gr_binaries r))))]"

subsection \<open>Questions\<close>

definition named :: "string option \<Rightarrow> bool" where
  "named x \<longleftrightarrow> (case x of Some t \<Rightarrow> t \<noteq> [] | None \<Rightarrow> False)"

definition best_function :: "xref_target \<Rightarrow> string option" where
  "best_function x = Option.bind (List.find (\<lambda>s. named (xs_function s)) (xt_references x)) xs_function"

definition xref_functions :: "ghidra_result \<Rightarrow> (string \<times> int, string) dict" where
  "xref_functions r =
     fold (\<lambda>b resolved. fold (\<lambda>t resolved. case best_function t of
           Some name \<Rightarrow> AList.update (gb_path b, xt_file_offset t) name resolved
         | None \<Rightarrow> resolved) (gb_targets b) resolved)
       (gr_binaries r) []"

definition binary_degraded :: "binary_result \<Rightarrow> bool" where
  "binary_degraded b \<longleftrightarrow> gb_status b \<notin> {''analyzed'', ''skipped''}"

definition degraded_binaries :: "ghidra_result \<Rightarrow> binary_result list" where
  "degraded_binaries r = filter binary_degraded (gr_binaries r)"

subsection \<open>The contract\<close>

text \<open>What a writer may put into a result: no empty text where the reader takes an empty one for absent.\<close>

definition opt_wf :: "string option \<Rightarrow> bool" where
  "opt_wf x \<longleftrightarrow> x \<noteq> Some []"

definition site_wf :: "xref_site \<Rightarrow> bool" where
  "site_wf x \<longleftrightarrow> xs_reference_type x \<noteq> [] \<and> opt_wf (xs_function x) \<and> opt_wf (xs_function_address x) \<and> opt_wf (xs_context x)"

definition target_wf :: "xref_target \<Rightarrow> bool" where
  "target_wf x \<longleftrightarrow> opt_wf (xt_address x) \<and> list_all site_wf (xt_references x)"

definition binary_wf :: "binary_result \<Rightarrow> bool" where
  "binary_wf b \<longleftrightarrow> gb_status b \<noteq> [] \<and> opt_wf (gb_reason b) \<and> opt_wf (gb_language b) \<and> list_all target_wf (gb_targets b)"

definition ghidra_wf :: "ghidra_result \<Rightarrow> bool" where
  "ghidra_wf r \<longleftrightarrow> gr_analyzer r \<noteq> [] \<and> gr_ghidra_version r \<noteq> [] \<and> list_all binary_wf (gr_binaries r)"

text \<open>What writing does to a result: binaries in the order of their paths, durations in milliseconds.\<close>

definition canonical_binary :: "binary_result \<Rightarrow> binary_result" where
  "canonical_binary b = b\<lparr>gb_duration_s := round3_rat (gb_duration_s b)\<rparr>"

definition canonical :: "ghidra_result \<Rightarrow> ghidra_result" where
  "canonical r = r\<lparr>gr_binaries := map canonical_binary (sort_key gb_path (gr_binaries r))\<rparr>"

lemma optional_str_opt [simp]: "opt_wf x \<Longrightarrow> optional_str (opt_json x) = x"
  by (cases x) (auto simp: optional_str_def opt_json_def opt_wf_def)

lemma map_e_retract: "list_all P xs \<Longrightarrow> (\<And>x. P x \<Longrightarrow> f (g x) = Inr (h x)) \<Longrightarrow> map_e f (map g xs) = Inr (map h xs)"
  by (induction xs) auto

lemmas json_reading = json_object_def list_from_def got_str_def got_or_def dict_simps Let_def

lemma site_retract: "site_wf x \<Longrightarrow> site_from (site_json x) = Inr x"
  by (simp add: site_from_def site_json_def site_wf_def json_reading)

lemma sites_retract: "list_all site_wf xs \<Longrightarrow> map_e site_from (map site_json xs) = Inr xs"
  using map_e_retract [of site_wf xs site_from site_json "\<lambda>x. x"] site_retract by simp

lemma target_retract: "target_wf x \<Longrightarrow> target_from (target_json x) = Inr x"
  by (simp add: target_from_def target_json_def target_wf_def json_reading sites_retract int_or_raise_def)

lemma targets_retract: "list_all target_wf xs \<Longrightarrow> map_e target_from (map target_json xs) = Inr xs"
  using map_e_retract [of target_wf xs target_from target_json "\<lambda>x. x"] target_retract by simp

lemma binary_retract: "binary_wf b \<Longrightarrow> binary_from read_float (binary_json show_float b) = Inr (canonical_binary b)"
  by (simp add: binary_from_def binary_json_def binary_wf_def json_reading targets_retract int_or_raise_def
      float_or_raise_def canonical_binary_def)

lemma ghidra_retract:
  assumes "ghidra_wf r"
  shows "ghidra_from read_float (ghidra_json show_float r) = Inr (canonical r)"
proof -
  have "list_all binary_wf (sort_key gb_path (gr_binaries r))"
    using assms by (simp add: ghidra_wf_def list_all_iff)
  then have "map_e (binary_from read_float) (map (binary_json show_float) (sort_key gb_path (gr_binaries r)))
    = Inr (map canonical_binary (sort_key gb_path (gr_binaries r)))"
    by (rule map_e_retract) (rule binary_retract)
  with assms show ?thesis
    by (simp add: ghidra_from_def ghidra_json_def ghidra_wf_def json_reading int_or_raise_def canonical_def)
qed

text \<open>The two sides of the contract agree: what the container writes, the pipeline reads back unchanged, up
  to the order of the binaries and the rounding of durations that writing makes.\<close>

theorem ghidra_result_roundtrip:
  assumes "ghidra_wf r"
  shows "ghidra_from read_float (ghidra_json show_float r) = Inr (canonical r)"
  by (rule ghidra_retract [OF assms])

text \<open>A document without a name for a function never becomes one with the text \<open>None\<close>, and a name the
  pipeline uses is one a reference carries.\<close>

lemma best_function_named:
  assumes "best_function t = Some name"
  shows "name \<noteq> [] \<and> (\<exists>s \<in> set (xt_references t). xs_function s = Some name)"
proof -
  from assms obtain s where s: "List.find (\<lambda>s. named (xs_function s)) (xt_references t) = Some s" "xs_function s = Some name"
    by (auto simp: best_function_def bind_eq_Some_conv)
  then have "named (xs_function s)" "s \<in> set (xt_references t)" by (auto simp: find_Some_iff)
  with s(2) show ?thesis by (auto simp: named_def)
qed

lemma target_names:
  "map_of (fold (\<lambda>t resolved. case best_function t of
       Some name \<Rightarrow> AList.update (p, xt_file_offset t) name resolved | None \<Rightarrow> resolved) ts m) k = Some name \<Longrightarrow>
     map_of m k = Some name \<or> (\<exists>t \<in> set ts. best_function t = Some name \<and> k = (p, xt_file_offset t))"
proof (induction ts arbitrary: m)
  case (Cons t ts)
  then show ?case by (cases "best_function t") (fastforce simp: update_conv' split: if_splits)+
qed simp

lemma binary_names:
  "map_of (fold (\<lambda>b resolved. fold (\<lambda>t resolved. case best_function t of
       Some name \<Rightarrow> AList.update (gb_path b, xt_file_offset t) name resolved | None \<Rightarrow> resolved) (gb_targets b) resolved) bs m) k
     = Some name \<Longrightarrow>
     map_of m k = Some name \<or> (\<exists>b \<in> set bs. \<exists>t \<in> set (gb_targets b). best_function t = Some name \<and> k = (gb_path b, xt_file_offset t))"
proof (induction bs arbitrary: m)
  case (Cons b bs)
  from Cons.IH [OF Cons.prems [unfolded fold.simps comp_apply]] show ?case
    using target_names by (fastforce dest: target_names)
qed simp

lemma xref_functions_reported:
  assumes "map_of (xref_functions r) (p, off) = Some name"
  obtains b t where "b \<in> set (gr_binaries r)" "gb_path b = p" "t \<in> set (gb_targets b)" "xt_file_offset t = off"
    "best_function t = Some name"
proof -
  from binary_names [OF assms [unfolded xref_functions_def]] that show thesis by fastforce
qed

text \<open>The order in which the container walked the tree does not show in the document.\<close>

lemma ghidra_document_is_deterministic:
  assumes "distinct (map gb_path (gr_binaries r))" "mset bs = mset (gr_binaries r)"
  shows "ghidra_json show_float (r\<lparr>gr_binaries := bs\<rparr>) = ghidra_json show_float r"
proof -
  have "inj_on gb_path (set (gr_binaries r))" using assms(1) by (simp add: distinct_map)
  from sort_key_inj_perm [OF assms(2) [symmetric] this] show ?thesis by (simp add: ghidra_json_def)
qed

subsection \<open>Witness\<close>

definition broker_result :: ghidra_result where
  "broker_result = \<lparr>gr_schema_version = SCHEMA_VERSION, gr_analyzer = ''ghidra'', gr_ghidra_version = ''11.3'',
     gr_binaries =
       [\<lparr>gb_path = ''b'', gb_status = ''timeout'', gb_reason = Some ''slow'', gb_language = None, gb_function_count = 0,
         gb_duration_s = 600, gb_targets = []\<rparr>,
        \<lparr>gb_path = ''a'', gb_status = ''analyzed'', gb_reason = None, gb_language = Some ''x86:LE:64:default'',
         gb_function_count = 12, gb_duration_s = 3 / 2,
         gb_targets = [\<lparr>xt_file_offset = 33280, xt_address = Some ''0x140008200'', xt_found = True,
           xt_references = [\<lparr>xs_from_address = ''0x140002a1c'', xs_reference_type = ''DATA'', xs_function = Some ''connect'',
             xs_function_address = None, xs_context = None\<rparr>]\<rparr>]\<rparr>],
     gr_truncated = False\<rparr>"

theorem ghidra_result_roundtrip_witness:
  "ghidra_from (\<lambda>_. None) (ghidra_json (\<lambda>_. ''0'') broker_result) = Inr (canonical broker_result)
    \<and> map gb_path (gr_binaries (canonical broker_result)) = [''a'', ''b'']
    \<and> map_of (xref_functions broker_result) (''a'', 33280) = Some ''connect''"
proof (intro conjI)
  show "ghidra_from (\<lambda>_. None) (ghidra_json (\<lambda>_. ''0'') broker_result) = Inr (canonical broker_result)"
    by (rule ghidra_result_roundtrip)
      (simp add: broker_result_def ghidra_wf_def binary_wf_def target_wf_def site_wf_def opt_wf_def)
  show "map gb_path (gr_binaries (canonical broker_result)) = [''a'', ''b'']"
    by (simp add: broker_result_def canonical_def canonical_binary_def)
  show "map_of (xref_functions broker_result) (''a'', 33280) = Some ''connect''"
    by (simp add: broker_result_def xref_functions_def best_function_def named_def)
qed

end
