(* ===== verification/Ghidra_Enrich.thy ===== *)
theory Ghidra_Enrich
  imports Scan_Pipeline Ghidra_Result
begin

text \<open>
  Naming the functions that read a flagged string, after a scan has finished (\<open>core/pipeline/ghidra.py\<close>, and
  \<open>ghidra_run_task\<close> of \<open>core/orchestrator/scan_tasks.py\<close>). It reuses the stages, containers and log store of the
  scan (\<open>Scan_Pipeline\<close>). The session commits once before the container starts, so the task is two
  transactions: \<open>prepare\<close> and \<open>work\<close>; an exception rolls back the one it leaves. The rows of a query come in the
  order of their tables.
\<close>

definition ANALYZER :: string where "ANALYZER = ''ghidra''"
definition GHIDRA_TIMEOUT_S :: int where "GHIDRA_TIMEOUT_S = 1800"
definition ANALYZER_BUDGET_S :: nat where "ANALYZER_BUDGET_S = 1500"
definition PER_BINARY_TIMEOUT_S :: nat where "PER_BINARY_TIMEOUT_S = 600"
definition MAX_BINARIES :: nat where "MAX_BINARIES = 16"
definition MAX_OFFSETS_PER_BINARY :: nat where "MAX_OFFSETS_PER_BINARY = 256"
definition EXECUTABLE_KINDS :: "string list" where "EXECUTABLE_KINDS = [''pe'', ''elf'', ''macho'']"
definition ENRICHABLE_RUN_STATUSES :: "run_status list" where "ENRICHABLE_RUN_STATUSES = [R_COMPLETED, R_DEGRADED]"
definition ALREADY_HANDLED :: "stage_status list" where "ALREADY_HANDLED = [S_RUNNING, S_COMPLETED, S_TRUNCATED]"

record binary_target =
  bt_artifact_id :: string
  bt_path_in_tree :: string
  bt_storage_key :: string
  bt_offsets :: "int list"

definition staged_path :: "binary_target \<Rightarrow> string" where
  "staged_path b = bt_artifact_id b"

record enrichment_outcome =
  eo_run_id :: string
  eo_status :: string
  eo_binaries :: nat
  eo_resolved :: nat
  eo_detail :: "string option"

record ghidra_env =
  ge_scan :: scan_env
  ge_memory_gb :: rat
  ge_download :: "string \<Rightarrow> string + unit"
  ge_write :: "string \<Rightarrow> string + unit"
  ge_file :: result_file
  ge_loads :: "string \<Rightarrow> pyval option"
  ge_float :: "string \<Rightarrow> rat option"

subsection \<open>What to analyse\<close>

definition target_rows :: "db \<Rightarrow> string \<Rightarrow> (artifact \<times> int) list" where
  "target_rows d run_id =
     concat (map (\<lambda>a. List.map_filter (\<lambda>l.
         if fl_artifact_id l = a_id a \<and> fl_run_id l = run_id then map_option (Pair a) (fl_offset l) else None)
         (db_locations d))
       (filter (\<lambda>a. a_run_id a = run_id \<and> a_kind a \<in> set EXECUTABLE_KINDS) (db_artifacts d)))"

definition offsets_of :: "(artifact \<times> int) list \<Rightarrow> string \<Rightarrow> int list" where
  "offsets_of rows i = sorted_set (map snd (filter (\<lambda>(a, off). a_id a = i) rows))"

definition described :: "(artifact \<times> int) list \<Rightarrow> (string, artifact) dict" where
  "described rows = dict_of (\<lambda>(a, off). a_id a) fst rows"

text \<open>The notes and the candidate of one artifact.\<close>

definition candidate :: "nat \<Rightarrow> (artifact \<times> int) list \<Rightarrow> artifact \<Rightarrow> string list \<times> binary_target list" where
  "candidate max_offsets rows a =
     (let found = offsets_of rows (a_id a) in
      case or_str (a_storage_key a) None of
        None \<Rightarrow> ([a_path_in_tree a @ '': bytes not retained, so not analysed''], [])
      | Some key \<Rightarrow>
          (if max_offsets < length found
           then [a_path_in_tree a @ '': only the first '' @ show_nat max_offsets @ '' offsets were analysed''] else [],
           [\<lparr>bt_artifact_id = a_id a, bt_path_in_tree = a_path_in_tree a, bt_storage_key = key,
             bt_offsets = take max_offsets found\<rparr>]))"

definition target_key :: "binary_target \<Rightarrow> int \<times> string" where
  "target_key b = (- int (length (bt_offsets b)), bt_path_in_tree b)"

definition select_targets :: "db \<Rightarrow> string \<Rightarrow> nat \<Rightarrow> nat \<Rightarrow> binary_target list \<times> string list" where
  "select_targets d run_id max_binaries max_offsets =
     (let rows = target_rows d run_id;
          parts = map (\<lambda>(i, a). candidate max_offsets rows a) (described rows);
          candidates = sort_key target_key (concat (map snd parts));
          dropped = map (\<lambda>b. bt_path_in_tree b @ '': over the '' @ show_nat max_binaries @ ''-binary cap'')
            (drop max_binaries candidates)
      in (take max_binaries candidates, sort (concat (map fst parts) @ dropped)))"

subsection \<open>Before the container\<close>

definition joined :: "rule_pack \<Rightarrow> string list \<Rightarrow> string" where
  "joined pack parts = cut_text 2000 (redact_log_text pack (join ''; '' parts))"

definition already_handled :: "db \<Rightarrow> string \<Rightarrow> bool" where
  "already_handled d run_id \<longleftrightarrow>
     list_ex (\<lambda>s. st_run_id s = run_id \<and> st_analyzer s = ANALYZER \<and> st_status s \<in> set ALREADY_HANDLED) (db_stages d)"

definition outcome_of :: "string \<Rightarrow> string \<Rightarrow> nat \<Rightarrow> nat \<Rightarrow> string option \<Rightarrow> enrichment_outcome" where
  "outcome_of run_id status binaries resolved detail =
     \<lparr>eo_run_id = run_id, eo_status = status, eo_binaries = binaries, eo_resolved = resolved, eo_detail = detail\<rparr>"

definition ghidra_stage :: "string \<Rightarrow> string \<Rightarrow> artifact option \<Rightarrow> moment \<Rightarrow> run_stage" where
  "ghidra_stage stage_id run_id found now =
     (new_stage stage_id run_id [] ANALYZER now)\<lparr>st_artifact_id := map_option a_id found, st_status := S_PENDING\<rparr>"

definition begin_enrichment :: "ghidra_env \<Rightarrow> string \<Rightarrow> run_stage scan" where
  "begin_enrichment env run_id =
     bind_s (reads (\<lambda>w. root_artifact run_id (w_db w))) (\<lambda>found.
     bind_s (now_e (ge_scan env)) (\<lambda>now. bind_s (uuid_e (ge_scan env)) (\<lambda>i.
     bind_s (on_db (add_stage (ghidra_stage i run_id found now))) (\<lambda>_. ret (ghidra_stage i run_id found now)))))"

definition skip_stage :: "moment \<Rightarrow> string \<Rightarrow> run_stage \<Rightarrow> run_stage" where
  "skip_stage now why s = s\<lparr>st_status := S_SKIPPED, st_finished_at := Some now, st_duration_s := Some 0, st_error := Some why\<rparr>"

datatype prepared =
    Decided enrichment_outcome
  | Started run run_stage "binary_target list" "string list" rule_pack

definition prepare :: "ghidra_env \<Rightarrow> string \<Rightarrow> prepared scan" where
  "prepare env run_id =
     bind_s (reads (\<lambda>w. get_run (w_db w) run_id)) (\<lambda>found.
     case found of
       None \<Rightarrow> raise (''run '' @ run_id @ '' not found'')
     | Some run \<Rightarrow>
     if r_status run \<notin> set ENRICHABLE_RUN_STATUSES
     then ret (Decided (outcome_of run_id ''not_applicable'' 0 0 (Some (''run is '' @ run_status_value (r_status run)))))
     else bind_s (reads (\<lambda>w. already_handled (w_db w) run_id)) (\<lambda>handled.
     if handled then ret (Decided (outcome_of run_id ''already_handled'' 0 0 (Some ''a ghidra stage exists'')))
     else bind_s (begin_enrichment env run_id) (\<lambda>stage.
     bind_s (lift_e (se_pack (ge_scan env))) (\<lambda>pack.
     bind_s (reads (\<lambda>w. select_targets (w_db w) run_id MAX_BINARIES MAX_OFFSETS_PER_BINARY)) (\<lambda>(targets, notes).
     if targets = []
     then bind_s (now_e (ge_scan env)) (\<lambda>now.
       let why = joined pack (''no executable has a finding at a file offset'' # notes) in
       bind_s (on_db (put_stage (skip_stage now why stage))) (\<lambda>_.
         ret (Decided (outcome_of run_id (stage_status_value S_SKIPPED) 0 0 (Some why)))))
     else bind_s (on_db (put_stage (stage\<lparr>st_status := S_RUNNING\<rparr>))) (\<lambda>_.
         ret (Started run (stage\<lparr>st_status := S_RUNNING\<rparr>) targets notes pack)))))))"

subsection \<open>The container\<close>

definition ghidra_command :: "string list" where
  "ghidra_command = [''--total-timeout'', show_nat ANALYZER_BUDGET_S, ''--per-binary-timeout'', show_nat PER_BINARY_TIMEOUT_S,
     ''--max-binaries'', show_nat MAX_BINARIES]"

definition ghidra_spec :: "ghidra_env \<Rightarrow> run \<Rightarrow> sandbox_spec" where
  "ghidra_spec env run =
     (default_spec (se_image (ge_scan env) ANALYZER) (r_id run) ANALYZER)
       \<lparr>sp_command := ghidra_command, sp_timeout_s := GHIDRA_TIMEOUT_S,
        sp_nano_cpus := analyzer_nano_cpus (se_cpus (ge_scan env)), sp_mem_limit_bytes := analyzer_memory_bytes (ge_memory_gb env),
        sp_mounts := [ro_mount (run_dir (ge_scan env) run ''ghidra/in'') INPUT_DIR,
                      rw_mount (run_dir (ge_scan env) run ''ghidra/out'') OUTPUT_DIR]\<rparr>"

text \<open>\<open>targets.json\<close>, which tells the analyzer what to look at.\<close>

definition targets_json :: "binary_target list \<Rightarrow> string" where
  "targets_json targets =
     (case json_dumps True (PDict [(PStr ''binaries'', PList (map (\<lambda>b. PDict
        [(PStr ''path'', PStr (staged_path b)), (PStr ''offsets'', PList (map PInt (bt_offsets b)))]) targets))]) of
        Some t \<Rightarrow> t | None \<Rightarrow> [])"

definition analyze :: "ghidra_env \<Rightarrow> run \<Rightarrow> run_stage \<Rightarrow> binary_target list \<Rightarrow> rule_pack \<Rightarrow> (run_stage \<times> pyval option) scan" where
  "analyze env run stage targets pack =
     bind_s (io_e (ge_scan env) ''ghidra layout'') (\<lambda>_.
     bind_s (for_s targets () (\<lambda>b _. lift_e (ge_download env (bt_storage_key b)))) (\<lambda>_.
     bind_s (lift_e (ge_write env (targets_json targets))) (\<lambda>_.
     bind_s (io_e (ge_scan env) ''grant ghidra/out'') (\<lambda>_.
     bind_s (run_analyzer (ge_scan env) ANALYZER (ghidra_spec env run)) (\<lambda>res.
     bind_s (finish_stage (ge_scan env) pack res stage) (\<lambda>stage.
     bind_s (lift_e (read_result (ge_loads env) (ge_file env))) (\<lambda>payload.
       ret (stage, if payload = Some PNone then None else payload))))))))"

subsection \<open>After the container\<close>

definition wanted_functions :: "rule_pack \<Rightarrow> ghidra_result \<Rightarrow> (string, string) dict \<Rightarrow> (string \<times> int, string) dict" where
  "wanted_functions pack result artifact_by_path =
     fold (\<lambda>((path, off), name) wanted. case map_of artifact_by_path path of
           None \<Rightarrow> wanted
         | Some i \<Rightarrow> AList.update (i, off) (cut_text 255 (redact_log_text pack name)) wanted)
       (xref_functions result) []"

definition function_at :: "string \<Rightarrow> (string \<times> int, string) dict \<Rightarrow> finding_location \<Rightarrow> string option" where
  "function_at run_id wanted l =
     (if fl_run_id l = run_id
      then Option.bind (fl_offset l) (\<lambda>off. or_str (map_of wanted (fl_artifact_id l, off)) None) else None)"

definition annotate :: "string \<Rightarrow> (string \<times> int, string) dict \<Rightarrow> finding_location \<Rightarrow> finding_location" where
  "annotate run_id wanted l =
     (case function_at run_id wanted l of Some f \<Rightarrow> l\<lparr>fl_xref_function := Some f\<rparr> | None \<Rightarrow> l)"

definition apply_xrefs ::
  "string \<Rightarrow> ghidra_result \<Rightarrow> (string, string) dict \<Rightarrow> rule_pack \<Rightarrow> db \<Rightarrow> nat \<times> db" where
  "apply_xrefs run_id result artifact_by_path pack d =
     (let wanted = wanted_functions pack result artifact_by_path in
      if wanted = [] then (0, d)
      else (length (filter (\<lambda>l. function_at run_id wanted l \<noteq> None) (db_locations d)),
            d\<lparr>db_locations := map (annotate run_id wanted) (db_locations d)\<rparr>))"

definition problem_line :: "(string, string) dict \<Rightarrow> binary_result \<Rightarrow> string" where
  "problem_line labels b =
     (case map_of labels (gb_path b) of Some p \<Rightarrow> p | None \<Rightarrow> gb_path b) @ '': '' @ gb_status b
       @ (case or_str (gb_reason b) None of Some r \<Rightarrow> '' ('' @ r @ '')'' | None \<Rightarrow> [])"

definition summarise_stage ::
  "ghidra_result \<Rightarrow> (string, string) dict \<Rightarrow> string list \<Rightarrow> rule_pack \<Rightarrow> run_stage \<Rightarrow> run_stage" where
  "summarise_stage result labels notes pack stage =
     (if st_status stage \<noteq> S_COMPLETED then stage
      else
        (let analyzed = filter (\<lambda>b. gb_status b = ''analyzed'') (gr_binaries result);
             problems = map (problem_line labels) (filter (\<lambda>b. gb_status b \<noteq> ''analyzed'') (gr_binaries result));
             status = (if degraded_binaries result \<noteq> [] \<and> analyzed = [] then S_FAILED
                       else if gr_truncated result then S_TRUNCATED else S_COMPLETED)
         in stage\<lparr>st_status := status, st_error := (if problems \<noteq> [] \<or> notes \<noteq> [] then Some (joined pack (problems @ notes)) else None)\<rparr>))"

fun record_in_manifest :: "string \<Rightarrow> string \<Rightarrow> string option \<Rightarrow> run_manifest list \<Rightarrow> run_manifest list" where
  "record_in_manifest run_id version digest [] = []"
| "record_in_manifest run_id version digest (x # xs) =
     (if mf_run_id x = run_id
      then x\<lparr>mf_tool_versions := AList.update ANALYZER version (mf_tool_versions x),
             mf_image_digests := AList.update ANALYZER (or_empty ''unknown'' (or_str digest None)) (mf_image_digests x)\<rparr> # xs
      else x # record_in_manifest run_id version digest xs)"

definition no_result :: "run_stage \<Rightarrow> run_stage" where
  "no_result s =
     (if st_status s = S_COMPLETED
      then s\<lparr>st_status := S_FAILED, st_error := Some ''the analyzer exited without writing a result''\<rparr> else s)"

definition absorb_result ::
  "ghidra_env \<Rightarrow> string \<Rightarrow> run_stage \<Rightarrow> binary_target list \<Rightarrow> string list \<Rightarrow> rule_pack \<Rightarrow> ghidra_result \<Rightarrow> enrichment_outcome scan" where
  "absorb_result env run_id stage targets notes pack result =
     (let apply = apply_xrefs run_id result (dict_of staged_path bt_artifact_id targets) pack in
      bind_s (reads (\<lambda>w. fst (apply (w_db w)))) (\<lambda>resolved.
      bind_s (on_db (\<lambda>d. snd (apply d))) (\<lambda>_.
      let stage' = summarise_stage result (dict_of staged_path bt_path_in_tree targets) notes pack (stage\<lparr>st_evidence_count := resolved\<rparr>) in
      bind_s (on_db (put_stage stage')) (\<lambda>_.
      bind_s (modify (\<lambda>w. w\<lparr>w_manifests :=
          record_in_manifest run_id (gr_ghidra_version result) (st_image_digest stage') (w_manifests w)\<rparr>)) (\<lambda>_.
        ret (outcome_of run_id (stage_status_value (st_status stage')) (length targets) resolved (st_error stage')))))))"

definition fail_stage :: "moment \<Rightarrow> string \<Rightarrow> run_stage \<Rightarrow> run_stage" where
  "fail_stage now e s = s\<lparr>st_status := S_FAILED, st_finished_at := Some now, st_error := Some e\<rparr>"

definition work :: "ghidra_env \<Rightarrow> run \<Rightarrow> run_stage \<Rightarrow> binary_target list \<Rightarrow> string list \<Rightarrow> rule_pack \<Rightarrow> enrichment_outcome scan" where
  "work env run stage targets notes pack =
     bind_s (attempt (analyze env run stage targets pack)) (\<lambda>outcome.
     case outcome of
       Inl e \<Rightarrow>
         bind_s (now_e (ge_scan env)) (\<lambda>now.
         let error = cut_text 2000 (redact_log_text pack e) in
         bind_s (on_db (update_stage (st_id stage) (fail_stage now error))) (\<lambda>_.
           ret (outcome_of (r_id run) (stage_status_value S_FAILED) (length targets) 0 (Some error))))
     | Inr (stage, None) \<Rightarrow>
         bind_s (on_db (put_stage (no_result stage))) (\<lambda>_.
           ret (outcome_of (r_id run) (stage_status_value (st_status (no_result stage))) (length targets) 0 (st_error (no_result stage))))
     | Inr (stage, Some payload) \<Rightarrow>
         bind_s (lift_e (ghidra_from (ge_float env) payload)) (\<lambda>result.
           absorb_result env (r_id run) stage targets notes pack result))"

subsection \<open>The task\<close>

text \<open>What an exception leaves of a transaction: the tables as they were when it began.\<close>

definition rolled_back :: "scan_world \<Rightarrow> scan_world \<Rightarrow> scan_world" where
  "rolled_back w w' = w'\<lparr>w_db := w_db w, w_manifests := w_manifests w\<rparr>"

definition in_transaction :: "(scan_world, string, 'a) eff \<Rightarrow> (scan_world, string, 'a) eff" where
  "in_transaction m w = (case m w of (Inl e, w') \<Rightarrow> (Inl e, rolled_back w w') | (Inr x, w') \<Rightarrow> (Inr x, w'))"

definition ghidra_task :: "ghidra_env \<Rightarrow> string \<Rightarrow> enrichment_outcome scan" where
  "ghidra_task env run_id =
     bind_s (in_transaction (prepare env run_id)) (\<lambda>p.
     case p of
       Decided outcome \<Rightarrow> ret outcome
     | Started run stage targets notes pack \<Rightarrow> in_transaction (work env run stage targets notes pack))"

end
