(* ===== verification/Ghidra_Analyzer.thy ===== *)
theory Ghidra_Analyzer
  imports Ghidra_Enrich
begin

text \<open>
  The analyzer inside the Ghidra container (\<open>sandbox/images/ghidra/analyzer.py\<close>): the work order the pipeline
  wrote, one run of Ghidra's headless analyzer per binary under its own clock, and the result document the
  pipeline reads. The file system and the child process of one job are a parameter, which may raise; so are the
  readings of the clock, and how a number of seconds prints. Lines on the standard output are left out.
\<close>

definition WORK_DIR :: string where "WORK_DIR = ''/work''"
definition BINARIES_DIR :: string where "BINARIES_DIR = ''binaries''"
definition SCRIPT_DIR :: string where "SCRIPT_DIR = ''/scripts''"
definition SCRIPT_NAME :: string where "SCRIPT_NAME = ''BareXrefs.java''"
definition MIN_HEAP_MB :: int where "MIN_HEAP_MB = 1024"
definition GHIDRA_DEFAULT_HEAP :: string where "GHIDRA_DEFAULT_HEAP = ''2G''"
definition MIN_BINARY_BUDGET_S :: rat where "MIN_BINARY_BUDGET_S = 30"
definition ANALYSIS_SHARE :: rat where "ANALYSIS_SHARE = 3 / 4"
definition MAX_REFERENCES_PER_TARGET :: nat where "MAX_REFERENCES_PER_TARGET = 32"

definition BENIGN_LOG_ERRORS :: "string list" where
  "BENIGN_LOG_ERRORS = [''Could not determine local host name'', ''UnknownHostException'', ''DWARF'', ''DW_OP_'', ''pseudo-relocation'']"

subsection \<open>The machine\<close>

text \<open>A candidate file of the control group: \<open>None\<close> cannot be read. The first that can decides.\<close>

fun memory_limit_bytes :: "string option list \<Rightarrow> nat option" where
  "memory_limit_bytes [] = None"
| "memory_limit_bytes (None # rest) = memory_limit_bytes rest"
| "memory_limit_bytes (Some raw # rest) =
     Option.bind (parse_nat (py_strip raw)) (\<lambda>n. if n < 2 ^ 60 then Some n else None)"

text \<open>The heap is six tenths of the limit, in mebibytes; the product of the code is a float, which agrees with
  the exact one on every limit a machine has.\<close>

definition heap_size :: "nat option \<Rightarrow> string" where
  "heap_size limit =
     (case limit of
        None \<Rightarrow> GHIDRA_DEFAULT_HEAP
      | Some n \<Rightarrow> show_int (max MIN_HEAP_MB (drop_bit 20 (int n * 6 div 10))) @ ''M'')"

definition headless_argv :: "string \<Rightarrow> string \<Rightarrow> string \<Rightarrow> string \<Rightarrow> string \<Rightarrow> int \<Rightarrow> string list" where
  "headless_argv ghidra_home binary project_dir offsets_file output_file analysis_timeout_s =
     [join_posix ghidra_home [''support'', ''analyzeHeadless''], project_dir, ''bare'', ''-import'', binary, ''-scriptPath'',
      SCRIPT_DIR, ''-postScript'', SCRIPT_NAME, offsets_file, output_file, ''-analysisTimeoutPerFile'',
      show_int analysis_timeout_s, ''-deleteProject'']"

subsection \<open>Why a run failed\<close>

record headless_outcome =
  ho_exit_code :: "int option"
  ho_output :: string
  ho_timed_out :: bool

text \<open>\<open>str.splitlines\<close> on the characters of a text.\<close>

definition line_break :: "string \<Rightarrow> bool" where
  "line_break u \<longleftrightarrow> u \<in> {[CHR 0x0A], [CHR 0x0B], [CHR 0x0C], [CHR 0x0D], [CHR 0x1C], [CHR 0x1D], [CHR 0x1E],
     [CHR 0xC2, CHR 0x85], [CHR 0xE2, CHR 0x80, CHR 0xA8], [CHR 0xE2, CHR 0x80, CHR 0xA9]}"

fun lines_from :: "string \<Rightarrow> string list \<Rightarrow> string list" where
  "lines_from line [] = (if line = [] then [] else [line])"
| "lines_from line (u # us) =
     (if line_break u
      then line # lines_from [] (if u = [CHR 0x0D] \<and> us \<noteq> [] \<and> hd us = [CHR 0x0A] then tl us else us)
      else lines_from (line @ u) us)"

definition splitlines :: "string \<Rightarrow> string list" where
  "splitlines t = lines_from [] (utf8_chars t)"

definition explains :: "string \<Rightarrow> bool" where
  "explains line \<longleftrightarrow> (contains ''ERROR'' line \<or> contains ''Exception'' line)
     \<and> \<not> list_ex (\<lambda>noise. contains noise line) BENIGN_LOG_ERRORS"

definition failure_reason :: "headless_outcome \<Rightarrow> string" where
  "failure_reason ho =
     (case List.find explains (map py_strip (splitlines (ho_output ho))) of
        Some line \<Rightarrow> utf8_take 300 line
      | None \<Rightarrow> ''analyzeHeadless exited '' @ (case ho_exit_code ho of Some n \<Rightarrow> show_int n | None \<Rightarrow> ''None'')
          @ '' without writing a result'')"

subsection \<open>What a run found\<close>

text \<open>What the post-script left in its output file.\<close>

datatype script_output = No_Output | Unreadable_Output string | Output pyval

definition address_order :: "xref_site \<Rightarrow> nat \<times> string" where
  "address_order s = (length (utf8_chars (xs_from_address s)), xs_from_address s)"

definition first_references :: "xref_target \<Rightarrow> xref_target" where
  "first_references t = t\<lparr>xt_references := take MAX_REFERENCES_PER_TARGET (sort_key address_order (xt_references t))\<rparr>"

definition dict_value :: "pyval \<Rightarrow> bool" where
  "dict_value v = (case v of PDict _ \<Rightarrow> True | _ \<Rightarrow> False)"

definition read_targets :: "pyval \<Rightarrow> string + xref_target list" where
  "read_targets v =
     bind_e (py_iter (if py_truthy v then v else PList [])) (\<lambda>raws.
     map_e (\<lambda>raw. bind_e (target_from raw) (\<lambda>t. Inr (first_references t))) (filter dict_value raws))"

definition empty_result :: "string \<Rightarrow> string \<Rightarrow> string option \<Rightarrow> rat \<Rightarrow> binary_result" where
  "empty_result path status reason duration =
     \<lparr>gb_path = path, gb_status = status, gb_reason = reason, gb_language = None, gb_function_count = 0,
      gb_duration_s = duration, gb_targets = []\<rparr>"

definition analyzed_result :: "string \<Rightarrow> headless_outcome \<Rightarrow> pyval \<Rightarrow> rat \<Rightarrow> string + binary_result" where
  "analyzed_result path ho data duration =
     bind_e (json_object data) (\<lambda>d.
     bind_e (read_targets (pd_get_or d ''targets'' PNone)) (\<lambda>targets.
     let language = got_str d ''language'' [] in
     bind_e (int_or_raise (got_or d ''function_count'' (PInt 0))) (\<lambda>function_count.
     Inr \<lparr>gb_path = path, gb_status = ''analyzed'',
          gb_reason = (if contains ''timed out'' (py_lower (ho_output ho))
                       then Some ''Ghidra's analysis timeout fired; references may be incomplete'' else None),
          gb_language = (if language = [] then None else Some language), gb_function_count = function_count,
          gb_duration_s = duration, gb_targets = sort_key xt_file_offset targets\<rparr>)))"

definition interpret_run ::
  "(rat \<Rightarrow> string) \<Rightarrow> string \<Rightarrow> headless_outcome \<Rightarrow> script_output \<Rightarrow> rat \<Rightarrow> string + binary_result" where
  "interpret_run show_seconds path ho out duration =
     (if ho_timed_out ho
      then Inr (empty_result path ''timeout'' (Some (''no result within '' @ show_seconds duration @ ''s'')) duration)
      else (case out of
          No_Output \<Rightarrow> Inr (empty_result path ''failed'' (Some (failure_reason ho)) duration)
        | Unreadable_Output why \<Rightarrow>
            Inr (empty_result path ''failed'' (Some (''the post-script wrote unreadable output: '' @ why)) duration)
        | Output data \<Rightarrow> analyzed_result path ho data duration))"

subsection \<open>One binary\<close>

text \<open>The world of a run: whether a binary was staged, what a job gives for its number, the text of its offsets
  file, its command line and its time limit, and the clock before each entry. A job makes its directory, writes
  the file, runs the child, and is removed; the last part of its value is how long that took.\<close>

record analyzer_env =
  ae_ghidra_home :: string
  ae_version :: string
  ae_total_timeout :: rat
  ae_per_binary :: rat
  ae_max_binaries :: nat
  ae_started :: rat
  ae_now :: "nat \<Rightarrow> rat"
  ae_staged :: "string \<Rightarrow> bool"
  ae_job :: "nat \<Rightarrow> string \<Rightarrow> string list \<Rightarrow> rat \<Rightarrow> string + headless_outcome \<times> script_output \<times> rat"
  ae_show_seconds :: "rat \<Rightarrow> string"
  ae_show_float :: "rat \<Rightarrow> string"

definition binary_path :: "string \<Rightarrow> string" where
  "binary_path path = join_posix ''/input'' (BINARIES_DIR # path_parts path)"

definition job_file :: "nat \<Rightarrow> string \<Rightarrow> string" where
  "job_file index name = join_posix WORK_DIR [''job-'' @ show_nat index, name]"

definition offsets_text :: "int list \<Rightarrow> string" where
  "offsets_text offsets = concat (map (\<lambda>n. show_int n @ [CHR 0x0A]) offsets)"

definition analysis_timeout :: "rat \<Rightarrow> int" where
  "analysis_timeout budget = max 1 (truncate_rat (budget * ANALYSIS_SHARE))"

definition analyze_binary :: "analyzer_env \<Rightarrow> nat \<Rightarrow> string \<Rightarrow> int list \<Rightarrow> rat \<Rightarrow> string + binary_result" where
  "analyze_binary env index path offsets budget =
     (if budget < MIN_BINARY_BUDGET_S
      then Inr (empty_result path ''skipped'' (Some ''the analyzer's time budget ran out before this binary'') 0)
      else if \<not> ae_staged env (binary_path path)
      then Inr (empty_result path ''failed'' (Some ''the binary was not staged'') 0)
      else
        bind_e (ae_job env index (offsets_text offsets)
            (headless_argv (ae_ghidra_home env) (binary_path path) (job_file index ''project'') (job_file index ''offsets.txt'')
               (job_file index ''xrefs.json'') (analysis_timeout budget)) budget)
          (\<lambda>(ho, out, duration). interpret_run (ae_show_seconds env) path ho out duration))"

subsection \<open>The work order\<close>

definition escapes :: "string \<Rightarrow> bool" where
  "escapes path \<longleftrightarrow> path = [] \<or> hd path = CHR ''/'' \<or> ''..'' \<in> set (path_parts path)"

definition offset_of :: "pyval \<Rightarrow> int option" where
  "offset_of v = (case v of PInt n \<Rightarrow> if 0 \<le> n then Some n else None | _ \<Rightarrow> None)"

definition order_entry :: "pyval \<Rightarrow> string + (string \<times> int list) list" where
  "order_entry raw =
     (case raw of
        PDict d \<Rightarrow>
          (let path = got_str d ''path'' [] in
           if escapes path then Inr []
           else bind_e (py_iter (got_or d ''offsets'' (PList []))) (\<lambda>values.
             Inr [(path, sorted_set (List.map_filter offset_of values))]))
      | _ \<Rightarrow> Inr [])"

definition work_order :: "pyval \<Rightarrow> string + (string \<times> int list) list" where
  "work_order order =
     (let raws = (case order of PDict d \<Rightarrow> (case pd_get_or d ''binaries'' PNone of PList xs \<Rightarrow> xs | _ \<Rightarrow> []) | _ \<Rightarrow> []) in
      bind_e (map_e order_entry raws) (\<lambda>entries. Inr (sort (concat entries))))"

subsection \<open>The program\<close>

definition budget_at :: "analyzer_env \<Rightarrow> nat \<Rightarrow> rat" where
  "budget_at env index = min (ae_per_binary env) (ae_started env + ae_total_timeout env - ae_now env index)"

definition one_binary :: "analyzer_env \<Rightarrow> nat \<times> string \<times> int list \<Rightarrow> string + binary_result" where
  "one_binary env = (\<lambda>(index, path, offsets).
     if ae_max_binaries env \<le> index
     then Inr (empty_result path ''skipped'' (Some (''over the '' @ show_nat (ae_max_binaries env) @ ''-binary cap for one run'')) 0)
     else analyze_binary env index path offsets (budget_at env index))"

definition collected :: "analyzer_env \<Rightarrow> binary_result list \<Rightarrow> ghidra_result" where
  "collected env bs =
     \<lparr>gr_schema_version = SCHEMA_VERSION, gr_analyzer = ''ghidra'', gr_ghidra_version = ae_version env, gr_binaries = bs,
      gr_truncated = list_ex (\<lambda>b. gb_status b = ''skipped'') bs\<rparr>"

definition analyze_all :: "analyzer_env \<Rightarrow> (string \<times> int list) list \<Rightarrow> string + ghidra_result" where
  "analyze_all env entries =
     bind_e (map_e (one_binary env) (zip [0..<length entries] entries)) (\<lambda>bs. Inr (collected env bs))"

text \<open>The exit status and the document of \<open>result.json\<close>, if one is written; \<open>None\<close> is a work order that is
  missing or no JSON, an exception ends the program without a result.\<close>

definition analyzer_main :: "analyzer_env \<Rightarrow> pyval option \<Rightarrow> string + nat \<times> pyval option" where
  "analyzer_main env order =
     (case order of
        None \<Rightarrow> Inr (2, None)
      | Some v \<Rightarrow>
          bind_e (work_order v) (\<lambda>entries.
          bind_e (analyze_all env entries) (\<lambda>r. Inr (0, Some (ghidra_json (ae_show_float env) r)))))"

subsection \<open>What the runs leave is a document of the contract\<close>

text \<open>What \<open>json.loads\<close> gives: no dates, and floats that print.\<close>

fun json_read :: "pyval \<Rightarrow> bool" where
  "json_read (PDate d) = False"
| "json_read (PDateTime d t r) = False"
| "json_read (PFloat r t) = (t \<noteq> [])"
| "json_read (PList xs) = list_all json_read xs"
| "json_read (PDict kvs) = list_all (\<lambda>(k, v). json_read k \<and> json_read v) kvs"
| "json_read v = True"

lemma truthy_text: "json_read v \<Longrightarrow> py_truthy v \<Longrightarrow> py_str v \<noteq> []"
  by (cases v) (auto simp: show_int_def)

declare json_read.simps(5) [simp del]

lemma json_read_pair: "json_read (PDict d) \<Longrightarrow> (k, v) \<in> set d \<Longrightarrow> json_read k \<and> json_read v"
  by (auto simp: json_read.simps(5) list_all_iff)

lemma json_read_get_or: "json_read (PDict d) \<Longrightarrow> json_read other \<Longrightarrow> json_read (pd_get_or d k other)"
  using json_read_pair [of d "PStr k"]
  by (cases "map_of d (PStr k)") (auto simp: pd_get_or_def pd_get_def dest: map_of_SomeD)

lemma got_text:
  assumes "json_read (PDict d)" "other \<noteq> []"
  shows "got_str d k other \<noteq> []"
proof -
  let ?v = "pd_get_or d k PNone"
  have "json_read ?v" using json_read_get_or [OF assms(1)] by simp
  then show ?thesis using truthy_text [of ?v] assms(2) by (simp add: got_str_def got_or_def Let_def)
qed

lemma optional_str_wf [simp]: "opt_wf (optional_str v)"
  by (simp add: optional_str_def opt_wf_def)

lemma map_e_in: "map_e f xs = Inr ys \<Longrightarrow> y \<in> set ys \<Longrightarrow> \<exists>x \<in> set xs. f x = Inr y"
  by (induction xs arbitrary: ys) (auto simp: err_simps)

lemma json_read_elements:
  assumes "list_from f v = Inr ys" "json_read v" "y \<in> set ys"
  shows "\<exists>x. json_read x \<and> f x = Inr y"
proof (cases "\<exists>xs. v = PList xs")
  case True
  with assms(1) obtain xs where xs: "v = PList xs" "map_e f xs = Inr ys" by (auto simp: list_from_def)
  from map_e_in [OF xs(2) assms(3)] xs(1) assms(2) show ?thesis by (auto simp: list_all_iff)
next
  case False
  with assms(1,3) show ?thesis by (cases v) (auto simp: list_from_def)
qed

lemma json_object_Inr: "json_object v = Inr d \<longleftrightarrow> v = PDict d"
  by (cases v) (auto simp: json_object_def)

lemma site_from_wf: "site_from v = Inr x \<Longrightarrow> json_read v \<Longrightarrow> site_wf x"
  using got_text by (auto simp: site_from_def json_object_Inr site_wf_def err_simps)

lemma target_from_wf:
  assumes "target_from v = Inr t" "json_read v"
  shows "target_wf t"
proof -
  from assms obtain d refs where d: "v = PDict d" "list_from site_from (pd_get_or d ''references'' PNone) = Inr refs"
    "xt_references t = refs" "opt_wf (xt_address t)"
    by (auto simp: target_from_def json_object_Inr err_simps)
  then have "json_read (pd_get_or d ''references'' PNone)" using assms(2) json_read_get_or by simp
  then have "site_wf x" if "x \<in> set refs" for x
    using json_read_elements [OF d(2) _ that] site_from_wf by blast
  with d show ?thesis by (simp add: target_wf_def list_all_iff)
qed

lemma read_targets_wf:
  assumes "read_targets v = Inr ts" "json_read v"
  shows "list_all target_wf ts"
  unfolding list_all_iff
proof
  fix t
  assume t: "t \<in> set ts"
  from assms(1) obtain raws where raws: "py_iter (if py_truthy v then v else PList []) = Inr raws"
    "map_e (\<lambda>raw. bind_e (target_from raw) (\<lambda>t. Inr (first_references t))) (filter dict_value raws) = Inr ts"
    by (auto simp: read_targets_def err_simps)
  from map_e_in [OF raws(2) t] obtain raw u where u: "raw \<in> set raws" "target_from raw = Inr u" "t = first_references u"
    by (auto simp: err_simps)
  have "json_read raw" using raws(1) u(1) assms(2) json_read_pair [of _ raw]
    by (cases v) (auto simp: py_iter_def list_all_iff split: if_splits)
  from target_from_wf [OF u(2) this] show "target_wf t"
    by (auto simp: u(3) first_references_def target_wf_def list_all_iff dest: in_set_takeD)
qed

lemma utf8_take_nonempty: "t \<noteq> [] \<Longrightarrow> 0 < n \<Longrightarrow> utf8_take n t \<noteq> []"
  using utf8_chars_nonempty [of _ t] concat_utf8_chars [of t]
  by (cases "utf8_chars t"; cases n) (auto simp: utf8_take_def)

lemma failure_reason_nonempty: "failure_reason ho \<noteq> []"
proof (cases "List.find explains (map py_strip (splitlines (ho_output ho)))")
  case (Some line)
  then have "explains line" using find_SomeD by metis
  then have "line \<noteq> []" by (auto simp: explains_def)
  with Some show ?thesis using utf8_take_nonempty [of line 300] by (simp add: failure_reason_def)
qed (simp add: failure_reason_def)

end
