(* ===== verification/Ghidra_Properties.thy ===== *)
theory Ghidra_Properties
  imports Ghidra_Enrich Scan_Gate
begin

text \<open>
  What the enrichment guarantees: it annotates locations and nothing else, so the release gate decides the same
  before and after it; a name it writes is one Ghidra reported for that place; a second delivery of the task
  starts no container.
\<close>

subsection \<open>What is left when the annotations are taken away\<close>

definition unannotated :: "db \<Rightarrow> db" where
  "unannotated d =
     d\<lparr>db_stages := filter (\<lambda>s. st_analyzer s \<notin> ENRICHMENT_ANALYZERS) (db_stages d),
       db_locations := map (\<lambda>l. l\<lparr>fl_xref_function := None\<rparr>) (db_locations d)\<rparr>"

definition owns :: "string \<times> string \<Rightarrow> run_stage \<Rightarrow> bool" where
  "owns i s \<longleftrightarrow> st_id s = fst i \<and> st_run_id s = snd i \<and> st_analyzer s = ANALYZER"

text \<open>While the task works on its stage, with the id and the run \<open>i\<close>: every row with that id is this analyzer's.\<close>

definition enriching :: "string \<times> string \<Rightarrow> db \<Rightarrow> scan_world \<Rightarrow> bool" where
  "enriching i d0 w \<longleftrightarrow> unannotated (w_db w) = d0 \<and> list_all (\<lambda>s. st_id s = fst i \<longrightarrow> owns i s) (db_stages (w_db w))"

lemma unannotated_add: "st_analyzer s = ANALYZER \<Longrightarrow> unannotated (add_stage s d) = unannotated d"
  by (simp add: unannotated_def add_stage_def ENRICHMENT_ANALYZERS_def ANALYZER_def)

lemma filter_map_other:
  assumes "list_all (\<lambda>s. st_id s = i \<longrightarrow> \<not> P s \<and> \<not> P (f s)) ss"
  shows "filter P (map (\<lambda>s. if st_id s = i then f s else s) ss) = filter P ss"
  using assms by (induction ss) auto

lemma enriching_update:
  assumes "enriching i d0 w" "\<And>s. owns i s \<Longrightarrow> owns i (f s)"
  shows "enriching i d0 (w\<lparr>w_db := update_stage (fst i) f (w_db w)\<rparr>)"
proof -
  from assms have all: "list_all (\<lambda>s. st_id s = fst i \<longrightarrow> owns i s \<and> owns i (f s)) (db_stages (w_db w))"
    by (auto simp: enriching_def list_all_iff)
  then have "list_all (\<lambda>s. st_id s = fst i \<longrightarrow> \<not> st_analyzer s \<notin> ENRICHMENT_ANALYZERS \<and> \<not> st_analyzer (f s) \<notin> ENRICHMENT_ANALYZERS)
      (db_stages (w_db w))"
    by (auto simp: list_all_iff owns_def ENRICHMENT_ANALYZERS_def ANALYZER_def)
  from filter_map_other [OF this]
  have "unannotated (update_stage (fst i) f (w_db w)) = unannotated (w_db w)" by (simp add: unannotated_def update_stage_def)
  moreover have "list_all (\<lambda>s. st_id s = fst i \<longrightarrow> owns i s) (db_stages (update_stage (fst i) f (w_db w)))"
    using all by (auto simp: list_all_iff update_stage_def)
  ultimately show ?thesis using assms(1) by (simp add: enriching_def)
qed

lemma enriching_put: "enriching i d0 w \<Longrightarrow> owns i s \<Longrightarrow> enriching i d0 (w\<lparr>w_db := put_stage s (w_db w)\<rparr>)"
  using enriching_update [of i d0 w "\<lambda>_. s"] by (simp add: put_stage_def owns_def)

lemma annotate_forgets: "(annotate r m l)\<lparr>fl_xref_function := None\<rparr> = l\<lparr>fl_xref_function := None\<rparr>"
  by (simp add: annotate_def split: option.split)

lemma unannotated_apply: "unannotated (snd (apply_xrefs run_id result by_path pack d)) = unannotated d"
  by (simp add: apply_xrefs_def unannotated_def Let_def annotate_forgets)

lemma enriching_apply:
  "enriching i d0 w \<Longrightarrow> enriching i d0 (w\<lparr>w_db := snd (apply_xrefs run_id result by_path pack (w_db w))\<rparr>)"
  by (simp add: enriching_def unannotated_apply) (simp add: apply_xrefs_def Let_def)

lemma env_keeps:
  "keeps (enriching i d0) (now_e env)" "keeps (enriching i d0) (io_e env op)" "keeps (enriching i d0) (run_analyzer env a spec)"
  by (auto intro!: keepsI simp: now_e_def io_e_def lift_e_def run_analyzer_def bind_s_def on_daemon_def enriching_def
      split: prod.splits sum.splits)

lemma put_keeps: "owns i s \<Longrightarrow> keeps (enriching i d0) (on_db (put_stage s))"
  unfolding on_db_def by (rule keeps_modify) (rule enriching_put)

lemma keeps_triple: "keeps I m \<Longrightarrow> triple I m (\<lambda>_. I) (\<lambda>_. I)"
  by (simp add: keeps_def)

text \<open>A computation that keeps the invariant and, when it gives a value, gives a good one.\<close>

lemma triple_good:
  "keeps I m \<Longrightarrow> (\<And>x s s'. m s = (Inr x, s') \<Longrightarrow> G x) \<Longrightarrow> triple I m (\<lambda>x s. I s \<and> G x) (\<lambda>_. I)"
  unfolding keeps_def triple_def by (fastforce split: sum.splits prod.splits)

lemma keeps_good:
  assumes "triple I m (\<lambda>x s. I s \<and> G x) (\<lambda>_. I)" "\<And>x. G x \<Longrightarrow> keeps I (f x)"
  shows "keeps I (bind_s m f)"
proof -
  have "triple (\<lambda>s. I s \<and> G x) (f x) (\<lambda>_. I) (\<lambda>_. I)" for x
    using assms(2) [of x] by (cases "G x") (simp_all add: keeps_def triple_def)
  with assms(1) show ?thesis unfolding keeps_def by (rule triple_bind)
qed

lemma record_stage_owns:
  assumes "owns i stage" "record_stage ok now pack res (stage, store) = (s, store')"
  shows "owns i s"
proof -
  have "owns i (fst (record_stage ok now pack res (stage, store)))"
    using assms(1) by (simp add: record_stage_def owns_def case_prod_beta Let_def)
  with assms(2) show ?thesis by simp
qed

lemma finish_stage_owns:
  assumes "owns i stage" "finish_stage env pack res stage w = (Inr s, w')"
  shows "owns i s"
proof -
  obtain r store where r: "record_stage (se_log_ok env (st_analyzer stage)) (se_clock env (w_ticks w)) pack res (stage, w_objects w) = (r, store)"
    by fastforce
  with assms(2) have "s = r" by (simp add: finish_stage_def eff_simps now_e_def on_db_def)
  with record_stage_owns [OF assms(1) r] show ?thesis by simp
qed

lemma finish_stage_keeps:
  assumes "owns i stage"
  shows "keeps (enriching i d0) (finish_stage env pack res stage)"
proof -
  have tail: "keeps (enriching i d0) (let (stage', store') = record_stage ok now pack res (stage, store) in
      bind_s (modify (\<lambda>w. w\<lparr>w_objects := store'\<rparr>)) (\<lambda>_. bind_s (on_db (put_stage stage')) (\<lambda>_. ret stage')))" for ok now store
  proof (cases "record_stage ok now pack res (stage, store)")
    case (Pair s store')
    from record_stage_owns [OF assms this] show ?thesis unfolding Pair Let_def prod.case
      by (intro keeps_bind keeps_ret put_keeps keeps_modify) (simp add: enriching_def)
  qed
  show ?thesis unfolding finish_stage_def by (intro keeps_bind env_keeps keeps_reads tail)
qed

lemma analyze_good:
  assumes "owns i stage"
  shows "triple (enriching i d0) (analyze env run stage targets pack) (\<lambda>x w. enriching i d0 w \<and> owns i (fst x)) (\<lambda>_. enriching i d0)"
proof (rule triple_good)
  have finish: "triple (enriching i d0) (finish_stage e pack res stage) (\<lambda>s w. enriching i d0 w \<and> owns i s) (\<lambda>_. enriching i d0)" for e res
    by (rule triple_good [OF finish_stage_keeps [OF assms]]) (rule finish_stage_owns [OF assms])
  show "keeps (enriching i d0) (analyze env run stage targets pack)"
  proof -
    have tail: "keeps (enriching i d0) (bind_s (finish_stage (ge_scan env) pack res stage) (\<lambda>stage.
        bind_s (lift_e (read_result (ge_loads env) (ge_file env))) (\<lambda>payload.
          ret (stage, if payload = Some PNone then None else payload))))" for res
      by (rule keeps_good [OF finish]) (intro triple_rules)
    show ?thesis unfolding analyze_def
      by (rule keeps_bind env_keeps keeps_for keeps_lift tail)+
  qed
  show "owns i (fst x)" if "analyze env run stage targets pack w = (Inr x, w')" for x w w'
    using that finish_stage_owns [OF assms] unfolding analyze_def
    by (auto elim!: bind_InrE lift_InrE simp: ret_def split: if_splits)
qed

lemma absorb_keeps:
  assumes "owns i stage"
  shows "keeps (enriching i d0) (absorb_result env run_id stage targets remarks pack result)"
proof -
  have summary: "owns i (summarise_stage result labels remarks pack (stage\<lparr>st_evidence_count := n\<rparr>))" for labels n
    using assms by (simp add: summarise_stage_def owns_def Let_def)
  show ?thesis unfolding absorb_result_def Let_def on_db_def [of "\<lambda>d. snd (_ d)"]
    by (intro keeps_bind keeps_reads keeps_ret put_keeps summary keeps_modify enriching_apply) (simp_all add: enriching_def)
qed

lemma work_keeps:
  assumes "owns i stage"
  shows "keeps (enriching i d0) (work env run stage targets remarks pack)"
proof -
  have "triple (enriching i d0) (attempt (analyze env run stage targets pack))
      (\<lambda>x w. enriching i d0 w \<and> (case x of Inr y \<Rightarrow> owns i (fst y) | Inl e \<Rightarrow> True)) (\<lambda>_. enriching i d0)"
    by (rule triple_attempt) (use analyze_good [OF assms] in simp)
  then show ?thesis unfolding work_def
  proof (rule keeps_good)
    fix x :: "string + run_stage \<times> pyval option"
    assume good: "case x of Inr y \<Rightarrow> owns i (fst y) | Inl e \<Rightarrow> True"
    have failed: "keeps (enriching i d0) (on_db (update_stage (st_id stage) (fail_stage now e)))" for now e
      using assms unfolding on_db_def by (intro keeps_modify) (auto simp: owns_def fail_stage_def intro!: enriching_update)
    show "keeps (enriching i d0) (case x of Inl e \<Rightarrow> bind_s (now_e (ge_scan env)) (\<lambda>now.
           let error = cut_text 2000 (redact_log_text pack e) in
           bind_s (on_db (update_stage (st_id stage) (fail_stage now error))) (\<lambda>_.
             ret (outcome_of (r_id run) (stage_status_value S_FAILED) (length targets) 0 (Some error))))
       | Inr (stage, None) \<Rightarrow> bind_s (on_db (put_stage (no_result stage))) (\<lambda>_.
           ret (outcome_of (r_id run) (stage_status_value (st_status (no_result stage))) (length targets) 0 (st_error (no_result stage))))
       | Inr (stage, Some payload) \<Rightarrow> bind_s (lift_e (ghidra_from (ge_float env) payload)) (\<lambda>result.
           absorb_result env (r_id run) stage targets remarks pack result))"
    proof (cases x)
      case (Inl e)
      then show ?thesis by (simp add: Let_def) (intro triple_rules env_keeps failed)
    next
      case (Inr y)
      obtain s p where y: "y = (s, p)" by fastforce
      with good Inr have s: "owns i s" by simp
      then have "owns i (no_result s)" by (simp add: no_result_def owns_def)
      with s show ?thesis unfolding Inr y sum.case prod.case
        by (cases p) (simp_all, (intro triple_rules put_keeps absorb_keeps; assumption)+)
    qed
  qed
qed


lemma begin_enrichment_start:
  assumes "se_uuid (ge_scan env) (w_uuids w) \<notin> st_id ` set (db_stages (w_db w))"
    and "begin_enrichment env run_id w = (Inr stage, w')"
  shows "owns (st_id stage, run_id) stage \<and> enriching (st_id stage, run_id) (unannotated (w_db w)) w'
    \<and> w_evidence w' = w_evidence w"
proof -
  from assms(2) have stage: "stage = ghidra_stage (se_uuid (ge_scan env) (w_uuids w)) run_id (root_artifact run_id (w_db w)) (se_clock (ge_scan env) (w_ticks w))"
    and w': "w_db w' = add_stage stage (w_db w)" "w_evidence w' = w_evidence w"
    by (auto simp: begin_enrichment_def eff_simps now_e_def uuid_e_def on_db_def)
  have owned: "owns (st_id stage, run_id) stage"
    by (simp add: stage owns_def ghidra_stage_def new_stage_def)
  then have "unannotated (w_db w') = unannotated (w_db w)" by (simp add: w' unannotated_add owns_def)
  moreover have "list_all (\<lambda>s. st_id s = st_id stage \<longrightarrow> owns (st_id stage, run_id) s) (db_stages (w_db w'))"
  proof -
    have "st_id stage = se_uuid (ge_scan env) (w_uuids w)" by (simp add: stage ghidra_stage_def new_stage_def)
    then have "st_id s \<noteq> st_id stage" if "s \<in> set (db_stages (w_db w))" for s using assms(1) that by (metis imageI)
    with owned show ?thesis by (auto simp: w' add_stage_def list_all_iff)
  qed
  ultimately show ?thesis using owned w'(2) by (simp add: enriching_def)
qed


definition started_ok :: "ghidra_env \<Rightarrow> string \<Rightarrow> scan_world \<Rightarrow> prepared \<Rightarrow> scan_world \<Rightarrow> bool" where
  "started_ok env run_id w p w' \<longleftrightarrow>
     w_evidence w' = w_evidence w \<and> w_manifests w' = w_manifests w \<and> w_daemon w' = w_daemon w \<and>
     db_locations (w_db w') = db_locations (w_db w) \<and>
     (case p of
        Decided oc \<Rightarrow> unannotated (w_db w') = unannotated (w_db w) \<and> eo_status oc \<notin> {''completed'', ''truncated''}
      | Started run stage targets remarks pack \<Rightarrow>
          owns (st_id stage, run_id) stage \<and> st_status stage = S_RUNNING \<and> get_run (w_db w) run_id = Some run
          \<and> r_status run \<in> set ENRICHABLE_RUN_STATUSES \<and> se_pack (ge_scan env) = Inr pack
          \<and> enriching (st_id stage, run_id) (unannotated (w_db w)) w' \<and> stage \<in> set (db_stages (w_db w'))
          \<and> targets = fst (select_targets (w_db w') run_id MAX_BINARIES MAX_OFFSETS_PER_BINARY))"

lemma select_targets_db:
  "db_artifacts d = db_artifacts d' \<Longrightarrow> db_locations d = db_locations d' \<Longrightarrow> select_targets d r m n = select_targets d' r m n"
  by (simp add: select_targets_def target_rows_def)

lemma put_stage_fields [simp]:
  "db_artifacts (put_stage s d) = db_artifacts d" "db_locations (put_stage s d) = db_locations d"
  by (simp_all add: put_stage_def update_stage_def)

lemma put_stage_there: "s' \<in> set (db_stages d) \<Longrightarrow> st_id s' = st_id s \<Longrightarrow> s \<in> set (db_stages (put_stage s d))"
  by (auto simp: put_stage_def update_stage_def image_iff)

lemma prepare_start:
  assumes fresh: "se_uuid (ge_scan env) (w_uuids w) \<notin> st_id ` set (db_stages (w_db w))"
    and "prepare env run_id w = (Inr p, w')"
  shows "started_ok env run_id w p w'"
proof -
  obtain run where run: "get_run (w_db w) run_id = Some run"
    using assms(2) by (cases "get_run (w_db w) run_id") (auto simp: prepare_def eff_simps)
  show ?thesis
  proof (cases "r_status run \<notin> set ENRICHABLE_RUN_STATUSES \<or> already_handled (w_db w) run_id")
    case True
    with assms(2) run show ?thesis by (auto simp: prepare_def eff_simps started_ok_def outcome_of_def split: if_splits)
  next
    case False
    obtain stage w1 where begun: "begin_enrichment env run_id w = (Inr stage, w1)"
      by (simp add: begin_enrichment_def eff_simps now_e_def uuid_e_def on_db_def)
    have w1: "w_manifests w1 = w_manifests w" "w_daemon w1 = w_daemon w" "db_locations (w_db w1) = db_locations (w_db w)"
        "stage \<in> set (db_stages (w_db w1))"
      using begun by (auto simp: begin_enrichment_def eff_simps now_e_def uuid_e_def on_db_def add_stage_def)
    note start = begin_enrichment_start [OF fresh begun]
    obtain pack where pack: "se_pack (ge_scan env) = Inr pack"
      using assms(2) False run begun by (cases "se_pack (ge_scan env)") (auto simp: prepare_def eff_simps)
    obtain targets remarks where sel: "select_targets (w_db w1) run_id MAX_BINARIES MAX_OFFSETS_PER_BINARY = (targets, remarks)" by fastforce
    have owned: "owns (st_id stage, run_id) (stage\<lparr>st_status := S_RUNNING\<rparr>)" "owns (st_id stage, run_id) (skip_stage now why stage)" for now why
      using start by (simp_all add: owns_def skip_stage_def)
    show ?thesis
    proof (cases "targets = []")
      case True
      define now where "now = se_clock (ge_scan env) (w_ticks w1)"
      define why where "why = joined pack (''no executable has a finding at a file offset'' # remarks)"
      have w': "w' = w1\<lparr>w_ticks := Suc (w_ticks w1), w_db := put_stage (skip_stage now why stage) (w_db w1)\<rparr>"
        and "\<exists>o'. p = Decided o' \<and> eo_status o' = ''skipped''"
        using assms(2) False run begun pack sel True
        by (auto simp: prepare_def eff_simps now_e_def on_db_def Let_def now_def why_def outcome_of_def)
      moreover have "enriching (st_id stage, run_id) (unannotated (w_db w)) (w1\<lparr>w_db := put_stage (skip_stage now why stage) (w_db w1)\<rparr>)"
        using start owned by (blast intro: enriching_put)
      ultimately show ?thesis using start w1 by (auto simp: started_ok_def enriching_def)
    next
      case no: False
      have w': "w' = w1\<lparr>w_db := put_stage (stage\<lparr>st_status := S_RUNNING\<rparr>) (w_db w1)\<rparr>"
        and p: "p = Started run (stage\<lparr>st_status := S_RUNNING\<rparr>) targets remarks pack"
        using assms(2) False run begun pack sel no by (auto simp: prepare_def eff_simps on_db_def)
      have "enriching (st_id stage, run_id) (unannotated (w_db w)) w'"
        unfolding w' using start owned by (blast intro: enriching_put)
      moreover have "stage\<lparr>st_status := S_RUNNING\<rparr> \<in> set (db_stages (w_db w'))"
        unfolding w' using put_stage_there [OF w1(4)] by simp
      moreover have "fst (select_targets (w_db w') run_id MAX_BINARIES MAX_OFFSETS_PER_BINARY) = targets"
        using sel select_targets_db [of "w_db w'" "w_db w1"] by (simp add: w')
      ultimately show ?thesis using start w1 run owned(1) False pack
        by (simp add: started_ok_def p w')
    qed
  qed
qed

subsection \<open>Nothing but annotations\<close>

lemma in_transaction_cases:
  assumes "in_transaction m w = (r, w')"
  obtains (raised) e w1 where "m w = (Inl e, w1)" "r = Inl e" "w' = rolled_back w w1"
    | (returned) x where "m w = (Inr x, w')" "r = Inr x"
  using assms by (auto simp: in_transaction_def split: prod.splits sum.splits)

text \<open>The ways a delivery of the task ends.\<close>

lemma ghidra_task_cases:
  assumes fresh: "se_uuid (ge_scan env) (w_uuids w) \<notin> st_id ` set (db_stages (w_db w))"
    and "ghidra_task env run_id w = (r, w')"
  obtains (unstarted) w1 e where "prepare env run_id w = (Inl e, w1)" "r = Inl e" "w' = rolled_back w w1"
    | (decided) oc where "started_ok env run_id w (Decided oc) w'" "r = Inr oc"
    | (broken) w1 w2 run stage targets remarks pack e where "started_ok env run_id w (Started run stage targets remarks pack) w1"
        "work env run stage targets remarks pack w1 = (Inl e, w2)" "r = Inl e" "w' = rolled_back w1 w2"
    | (finished) w1 run stage targets remarks pack oc where "started_ok env run_id w (Started run stage targets remarks pack) w1"
        "work env run stage targets remarks pack w1 = (Inr oc, w')" "r = Inr oc"
proof -
  obtain p w1 where p: "in_transaction (prepare env run_id) w = (p, w1)" by fastforce
  from p show thesis
  proof (cases rule: in_transaction_cases)
    case (raised e w2)
    with p assms(2) unstarted show thesis by (simp add: ghidra_task_def bind_s_def)
  next
    case (returned q)
    note ok = prepare_start [OF fresh returned(1)]
    show thesis
    proof (cases q)
      case (Decided oc)
      with p returned assms(2) decided [of oc] ok show thesis by (simp add: ghidra_task_def bind_s_def ret_def)
    next
      case (Started run stage targets remarks pack)
      with p returned assms(2) have "in_transaction (work env run stage targets remarks pack) w1 = (r, w')"
        by (simp add: ghidra_task_def bind_s_def)
      then show thesis
        using broken [OF ok [unfolded Started]] finished [OF ok [unfolded Started]] by (cases rule: in_transaction_cases) auto
    qed
  qed
qed

lemma rolled_back_fields [simp]:
  "w_db (rolled_back w w') = w_db w" "w_manifests (rolled_back w w') = w_manifests w"
  by (simp_all add: rolled_back_def)

lemma work_unannotated:
  assumes "started_ok env run_id w (Started run stage targets remarks pack) w1"
  shows "unannotated (w_db (snd (work env run stage targets remarks pack w1))) = unannotated (w_db w)"
  using keepsD [OF work_keeps [of "(st_id stage, run_id)" stage "unannotated (w_db w)" env run targets remarks pack], of w1] assms
  by (simp add: started_ok_def enriching_def)

lemma ghidra_task_unannotated:
  assumes "se_uuid (ge_scan env) (w_uuids w) \<notin> st_id ` set (db_stages (w_db w))" "ghidra_task env run_id w = (r, w')"
  shows "unannotated (w_db w') = unannotated (w_db w)"
  using assms
proof (cases rule: ghidra_task_cases)
  case (broken w1 w2 run stage targets remarks pack e)
  then show ?thesis by (simp add: started_ok_def enriching_def)
next
  case (finished w1 run stage targets remarks pack oc)
  with work_unannotated [OF finished(1)] show ?thesis by simp
qed (simp_all add: started_ok_def)


subsection \<open>The release gate\<close>

lemma dict_first_map: "dict_first f g (map h xs) = dict_first (\<lambda>x. f (h x)) (\<lambda>x. g (h x)) xs"
  by (simp add: dict_first_def fold_map comp_def)

lemma gate_unannotated: "gate_run (unannotated d) = gate_run d"
proof -
  have runs: "get_run (unannotated d) i = get_run d i" for i by (simp add: get_run_def unannotated_def)
  have findings: "db_findings (unannotated d) = db_findings d" by (simp add: unannotated_def)
  have baseline: "resolve_baseline (unannotated d) run b ids = resolve_baseline d run b ids" for run b ids
    unfolding resolve_baseline_def runs findings by (rule refl)
  have stages: "gate_degraded (unannotated d) i = gate_degraded d i" for i
  proof -
    have "filter (\<lambda>s. stage_is_degraded (st_status s) \<and> st_analyzer s \<notin> ENRICHMENT_ANALYZERS)
          (filter (\<lambda>s. st_run_id s = i) (db_stages (unannotated d)))
        = filter (\<lambda>s. stage_is_degraded (st_status s) \<and> st_analyzer s \<notin> ENRICHMENT_ANALYZERS) (filter (\<lambda>s. st_run_id s = i) (db_stages d))"
      by (simp add: unannotated_def) (metis (mono_tags, lifting))
    then show ?thesis by (simp only: gate_degraded_def degraded_stages_def)
  qed
  have paths: "artifact_paths (unannotated d) i ids = artifact_paths d i ids" for i ids
    by (simp add: artifact_paths_def unannotated_def filter_map comp_def sort_key_map_of
        location_key_def [abs_def] dict_first_map)
  have "collect_gate_findings (unannotated d) i b = collect_gate_findings d i b" for i b
    unfolding collect_gate_findings_def paths findings by (rule refl)
  then show ?thesis by (intro ext) (simp only: gate_run_def runs baseline stages)
qed

text \<open>C28: The enrichment cannot change what the release gate decides: however the task ends, every run has the
  verdict it had before, under every policy, waivers and baseline.\<close>

theorem enrichment_keeps_verdict:
  assumes "se_uuid (ge_scan env) (w_uuids w) \<notin> st_id ` set (db_stages (w_db w))" "ghidra_task env run_id w = (r, w')"
  shows "gate_run (w_db w') = gate_run (w_db w)"
  using ghidra_task_unannotated [OF assms] gate_unannotated by metis


subsection \<open>What the container does not touch\<close>

text \<open>The locations, the evidence, the manifests and the ids of the stages, until a result is absorbed.\<close>

definition quiet :: "scan_world \<Rightarrow> scan_world \<Rightarrow> bool" where
  "quiet w0 w \<longleftrightarrow> db_locations (w_db w) = db_locations (w_db w0) \<and> w_evidence w = w_evidence w0
     \<and> map st_id (db_stages (w_db w)) = map st_id (db_stages (w_db w0))"

lemma quiet_env:
  "keeps (quiet w0) (now_e env)" "keeps (quiet w0) (io_e env op)" "keeps (quiet w0) (run_analyzer env a spec)"
  by (auto intro!: keepsI simp: now_e_def io_e_def lift_e_def run_analyzer_def bind_s_def on_daemon_def quiet_def
      split: prod.splits sum.splits)

lemma update_stage_same:
  "(\<And>s. st_id s = i \<Longrightarrow> st_id (f s) = i) \<Longrightarrow> map st_id (db_stages (update_stage i f d)) = map st_id (db_stages d)"
  "db_locations (update_stage i f d) = db_locations d"
  by (auto simp: update_stage_def)

lemma quiet_update:
  "(\<And>s. st_id s = i \<Longrightarrow> st_id (f s) = i) \<Longrightarrow> quiet w0 w \<Longrightarrow> quiet w0 (w\<lparr>w_db := update_stage i f (w_db w)\<rparr>)"
  using update_stage_same(1) [of i f "w_db w"] by (simp add: quiet_def update_stage_same(2))

lemma quiet_put: "quiet w0 w \<Longrightarrow> quiet w0 (w\<lparr>w_db := put_stage s (w_db w)\<rparr>)"
  unfolding put_stage_def by (rule quiet_update) simp_all

lemma quiet_db: "keeps (quiet w0) (on_db (put_stage s))"
  "(\<And>s. st_id (f s) = st_id s) \<Longrightarrow> keeps (quiet w0) (on_db (update_stage i f))"
  unfolding on_db_def by (auto intro!: keeps_modify quiet_put quiet_update)

lemma quiet_finish: "keeps (quiet w0) (finish_stage env pack res stage)"
  unfolding finish_stage_def Let_def case_prod_beta
  by (intro keeps_bind keeps_reads keeps_ret quiet_env quiet_db keeps_modify) (simp add: quiet_def)

lemma quiet_analyze: "keeps (quiet w0) (analyze env run stage targets pack)"
  unfolding analyze_def by (intro triple_rules quiet_env quiet_finish)

text \<open>What a job that ended by itself leaves: its stage row with the status it reports, and either no new name or
  the names of the result it read.\<close>

definition result_applied :: "ghidra_env \<Rightarrow> string \<Rightarrow> binary_target list \<Rightarrow> rule_pack \<Rightarrow> db \<Rightarrow> db \<Rightarrow> bool" where
  "result_applied env run_id targets pack d d' \<longleftrightarrow>
     (\<exists>payload result. read_result (ge_loads env) (ge_file env) = Inr (Some payload)
        \<and> ghidra_from (ge_float env) payload = Inr result
        \<and> db_locations d' = map (annotate run_id (wanted_functions pack result (dict_of staged_path bt_artifact_id targets)))
            (db_locations d))"

definition reported :: "string \<Rightarrow> string \<Rightarrow> db \<Rightarrow> bool" where
  "reported status run_id d \<longleftrightarrow>
     list_ex (\<lambda>s. st_run_id s = run_id \<and> st_analyzer s = ANALYZER \<and> stage_status_value (st_status s) = status) (db_stages d)"

lemma annotate_none: "map (annotate r []) ls = ls"
  by (induction ls) (simp_all add: annotate_def function_at_def or_str_def split: option.splits)

lemma apply_xrefs_locations:
  "db_locations (snd (apply_xrefs r result by_path pack d)) = map (annotate r (wanted_functions pack result by_path)) (db_locations d)"
  by (simp add: apply_xrefs_def Let_def annotate_none)

lemma apply_xrefs_stages: "db_stages (snd (apply_xrefs r result by_path pack d)) = db_stages d"
  by (simp add: apply_xrefs_def Let_def)

lemma put_reported:
  assumes "owns (i, run_id) s" "i \<in> set (map st_id (db_stages d))"
  shows "reported (stage_status_value (st_status s)) run_id (put_stage s d)"
proof -
  from assms obtain s' where "s' \<in> set (db_stages d)" "st_id s' = st_id s" by (auto simp: owns_def)
  then have "s \<in> set (db_stages (put_stage s d))" by (rule put_stage_there)
  with assms(1) show ?thesis by (auto simp: reported_def list_ex_iff owns_def)
qed

lemma fail_reported:
  assumes "list_all (\<lambda>s. st_id s = i \<longrightarrow> owns (i, run_id) s) (db_stages d)" "i \<in> set (map st_id (db_stages d))"
  shows "reported ''failed'' run_id (update_stage i (fail_stage now e) d)"
proof -
  from assms(2) obtain s where "s \<in> set (db_stages d)" "st_id s = i" by auto
  then have "fail_stage now e s \<in> set (db_stages (update_stage i (fail_stage now e) d))"
    by (auto simp: update_stage_def image_iff intro!: bexI [of _ s])
  moreover have "st_run_id s = run_id" "st_analyzer s = ANALYZER"
    using assms(1) \<open>s \<in> _\<close> \<open>st_id s = i\<close> by (auto simp: list_all_iff owns_def)
  ultimately show ?thesis unfolding reported_def list_ex_iff
    by (intro bexI [of _ "fail_stage now e s"]) (simp_all add: fail_stage_def)
qed


lemma work_result:
  assumes start: "owns (i, run_id) stage" "r_id run = run_id" "enriching (i, run_id) d0 w" "stage \<in> set (db_stages (w_db w))"
    and "work env run stage targets remarks pack w = (Inr oc, w')"
  shows "reported (eo_status oc) run_id (w_db w') \<and> w_evidence w' = w_evidence w
    \<and> (db_locations (w_db w') = db_locations (w_db w) \<or> result_applied env run_id targets pack (w_db w) (w_db w'))"
proof -
  obtain x w1 where x: "analyze env run stage targets pack w = (x, w1)" by fastforce
  have quiet: "quiet w w1" using keepsD [OF quiet_analyze, of w w env run stage targets pack] x by (simp add: quiet_def)
  have good: "enriching (i, run_id) d0 w1 \<and> (case x of Inr y \<Rightarrow> owns (i, run_id) (fst y) | Inl e \<Rightarrow> True)"
    using analyze_good [OF start(1), of d0 env run targets pack] start(3) x
    by (cases x) (auto dest: tripleD_value tripleD_error)
  have there: "i \<in> set (map st_id (db_stages (w_db w1)))"
  proof -
    have "map st_id (db_stages (w_db w1)) = map st_id (db_stages (w_db w))" using quiet by (simp only: quiet_def)
    moreover have "i \<in> st_id ` set (db_stages (w_db w))" using start(1,4) by (auto simp: owns_def)
    ultimately show ?thesis by (simp only: set_map)
  qed
  show ?thesis
  proof (cases x)
    case (Inl e)
    define now where "now = se_clock (ge_scan env) (w_ticks w1)"
    define why where "why = cut_text 2000 (redact_log_text pack e)"
    have oc: "eo_status oc = ''failed''" and w': "w' = w1\<lparr>w_ticks := Suc (w_ticks w1), w_db := update_stage (st_id stage) (fail_stage now why) (w_db w1)\<rparr>"
      using assms(5) x Inl
      by (auto simp: work_def eff_simps now_e_def on_db_def Let_def outcome_of_def now_def why_def)
    have "reported ''failed'' run_id (update_stage i (fail_stage now why) (w_db w1))"
      by (rule fail_reported [OF _ there]) (use good in \<open>simp add: enriching_def\<close>)
    moreover have "st_id stage = i" using start(1) by (simp add: owns_def)
    ultimately show ?thesis using quiet by (simp add: oc w' quiet_def update_stage_same(2))
  next
    case (Inr y)
    obtain s p where y: "y = (s, p)" by fastforce
    with good Inr have s: "owns (i, run_id) s" by simp
    show ?thesis
    proof (cases p)
      case None
      have oc: "eo_status oc = stage_status_value (st_status (no_result s))" and w': "w' = w1\<lparr>w_db := put_stage (no_result s) (w_db w1)\<rparr>"
        using assms(5) x Inr y None by (auto simp: work_def eff_simps on_db_def outcome_of_def)
      have "owns (i, run_id) (no_result s)" using s by (simp add: no_result_def owns_def)
      from put_reported [OF this there] show ?thesis using quiet by (simp add: oc w' quiet_def)
    next
      case (Some payload)
      obtain result where result: "ghidra_from (ge_float env) payload = Inr result"
        using assms(5) x Inr y Some by (cases "ghidra_from (ge_float env) payload") (auto simp: work_def eff_simps)
      have file_read: "read_result (ge_loads env) (ge_file env) = Inr (Some payload)"
        using x Inr y Some unfolding analyze_def
        by (auto elim!: bind_InrE lift_InrE simp: ret_def split: if_splits)
      define by_path where "by_path = dict_of staged_path bt_artifact_id targets"
      define d1 where "d1 = snd (apply_xrefs run_id result by_path pack (w_db w1))"
      obtain s' where s': "eo_status oc = stage_status_value (st_status s')" "owns (i, run_id) s'" "w_db w' = put_stage s' d1" "w_evidence w' = w_evidence w1"
      proof -
        define s' where "s' = summarise_stage result (dict_of staged_path bt_path_in_tree targets) remarks pack
            (s\<lparr>st_evidence_count := fst (apply_xrefs run_id result by_path pack (w_db w1))\<rparr>)"
        have "owns (i, run_id) s'" using s by (simp add: s'_def summarise_stage_def owns_def Let_def)
        moreover have "eo_status oc = stage_status_value (st_status s')" "w_db w' = put_stage s' d1" "w_evidence w' = w_evidence w1"
          using assms(2,5) x Inr y Some result
          by (auto simp: work_def absorb_result_def eff_simps on_db_def Let_def outcome_of_def d1_def by_path_def s'_def)
        ultimately show thesis using that by blast
      qed
      have "i \<in> set (map st_id (db_stages d1))" using there by (simp add: d1_def apply_xrefs_stages)
      from put_reported [OF s'(2) this] s' quiet
      have "reported (eo_status oc) run_id (w_db w')" "w_evidence w' = w_evidence w" by (simp_all add: quiet_def)
      moreover have "db_locations (w_db w') = map (annotate run_id (wanted_functions pack result by_path)) (db_locations (w_db w))"
        using quiet by (simp add: s'(3) d1_def apply_xrefs_locations quiet_def)
      ultimately show ?thesis using file_read result by (auto simp: result_applied_def by_path_def)
    qed
  qed
qed


subsection \<open>One container per run\<close>

definition handled :: "string \<Rightarrow> enrichment_outcome" where
  "handled run_id = outcome_of run_id ''already_handled'' 0 0 (Some ''a ghidra stage exists'')"

lemma get_run_unannotated: "unannotated d = unannotated d' \<Longrightarrow> get_run d i = get_run d' i"
proof -
  assume "unannotated d = unannotated d'"
  then have "db_runs (unannotated d) = db_runs (unannotated d')" by simp
  then show ?thesis by (simp add: unannotated_def get_run_def)
qed

lemma handled_again:
  assumes "get_run (w_db w) run_id = Some run" "r_status run \<in> set ENRICHABLE_RUN_STATUSES" "already_handled (w_db w) run_id"
  shows "ghidra_task env run_id w = (Inr (handled run_id), w)"
  using assms by (simp add: ghidra_task_def in_transaction_def prepare_def eff_simps handled_def)

lemma reported_handled:
  "reported status run_id d \<Longrightarrow> status \<in> {''completed'', ''truncated''} \<Longrightarrow> already_handled d run_id"
proof -
  have "s \<in> set ALREADY_HANDLED" if "stage_status_value s \<in> {''completed'', ''truncated''}" for s
    using that by (cases s) (auto simp: ALREADY_HANDLED_def)
  then show "reported status run_id d \<Longrightarrow> status \<in> {''completed'', ''truncated''} \<Longrightarrow> already_handled d run_id"
    by (auto simp: reported_def already_handled_def list_ex_iff)
qed

text \<open>The queue may deliver a task again; no second container starts. A delivery after one that finished, or
  beside one whose container is still running (or whose worker died), ends at once and changes nothing.\<close>

theorem second_delivery_starts_nothing:
  assumes "se_uuid (ge_scan env) (w_uuids w) \<notin> st_id ` set (db_stages (w_db w))"
  shows "(ghidra_task env run_id w = (Inr oc, w') \<longrightarrow> eo_status oc \<in> {''completed'', ''truncated''} \<longrightarrow>
            ghidra_task env' run_id w' = (Inr (handled run_id), w'))
    \<and> (prepare env run_id w = (Inr (Started run stage targets remarks pack), w1) \<longrightarrow>
            ghidra_task env' run_id w1 = (Inr (handled run_id), w1))"
proof (intro conjI impI)
  assume task: "ghidra_task env run_id w = (Inr oc, w')" and status: "eo_status oc \<in> {''completed'', ''truncated''}"
  note same = ghidra_task_unannotated [OF assms task]
  from assms task show "ghidra_task env' run_id w' = (Inr (handled run_id), w')"
  proof (cases rule: ghidra_task_cases)
    case (decided oc')
    with status show ?thesis by (simp add: started_ok_def)
  next
    case (finished w2 run stage targets remarks pack oc')
    then have ok: "started_ok env run_id w (Started run stage targets remarks pack) w2" by blast
    then have run: "get_run (w_db w) run_id = Some run" "r_status run \<in> set ENRICHABLE_RUN_STATUSES"
      by (simp_all add: started_ok_def)
    have "r_id run = run_id" using get_run_id [OF run(1)] by simp
    with ok finished have "reported (eo_status oc) run_id (w_db w')"
      using work_result [of "st_id stage" run_id stage run "unannotated (w_db w)" w2 env targets remarks pack oc w']
      by (simp add: started_ok_def)
    then have "already_handled (w_db w') run_id" using status by (rule reported_handled)
    with run get_run_unannotated [OF same] show ?thesis by (intro handled_again [of _ _ run]) simp_all
  qed simp_all
next
  assume "prepare env run_id w = (Inr (Started run stage targets remarks pack), w1)"
  note ok = prepare_start [OF assms this]
  then have run: "get_run (w_db w) run_id = Some run" "r_status run \<in> set ENRICHABLE_RUN_STATUSES"
    and same: "unannotated (w_db w1) = unannotated (w_db w)"
    and row: "stage \<in> set (db_stages (w_db w1))" "owns (st_id stage, run_id) stage" "st_status stage = S_RUNNING"
    by (simp_all add: started_ok_def enriching_def)
  have "already_handled (w_db w1) run_id"
    using row by (auto simp: already_handled_def list_ex_iff owns_def ALREADY_HANDLED_def)
  with run get_run_unannotated [OF same] show "ghidra_task env' run_id w1 = (Inr (handled run_id), w1)"
    by (intro handled_again [of _ _ run]) simp_all
qed

subsection \<open>The names\<close>

lemma xref_functions_distinct: "distinct (map fst (xref_functions r))"
proof -
  have inner: "distinct (map fst (fold (\<lambda>t resolved. case best_function t of
       Some name \<Rightarrow> AList.update (p, xt_file_offset t) name resolved | None \<Rightarrow> resolved) ts m))"
    if "distinct (map fst m)" for p ts and m :: "(string \<times> int, string) dict"
    using that by (induction ts arbitrary: m) (auto simp: distinct_update split: option.split)
  have "distinct (map fst (fold (\<lambda>b resolved. fold (\<lambda>t resolved. case best_function t of
       Some name \<Rightarrow> AList.update (gb_path b, xt_file_offset t) name resolved | None \<Rightarrow> resolved) (gb_targets b) resolved) bs m))"
    if "distinct (map fst m)" for bs m
    using that by (induction bs arbitrary: m) (simp_all add: inner)
  from this [of "[]" "gr_binaries r"] show ?thesis unfolding xref_functions_def by simp
qed

lemma wanted_reported:
  assumes "map_of (fold (\<lambda>((path, off), name) wanted. case map_of by_path path of
           None \<Rightarrow> wanted | Some i \<Rightarrow> AList.update (i, off) (cut_text 255 (redact_log_text pack name)) wanted) xs m) (i, off) = Some f"
  shows "map_of m (i, off) = Some f
    \<or> (\<exists>path name. ((path, off), name) \<in> set xs \<and> map_of by_path path = Some i \<and> f = cut_text 255 (redact_log_text pack name))"
  using assms
proof (induction xs arbitrary: m)
  case (Cons x xs)
  obtain path off' name where x: "x = ((path, off'), name)" by (metis surj_pair)
  show ?case
  proof (cases "map_of by_path path")
    case None
    with Cons.prems x Cons.IH [of m] show ?thesis by auto
  next
    case (Some j)
    with Cons.prems x Cons.IH [of "AList.update (j, off') (cut_text 255 (redact_log_text pack name)) m"]
    show ?thesis by (auto simp: update_conv' split: if_splits)
  qed
qed simp

lemma targets_by_path: "map_of (dict_of staged_path bt_artifact_id targets) path = Some i \<Longrightarrow> i = path \<and> path \<in> bt_artifact_id ` set targets"
  by (auto simp: dict_of_get staged_path_def find_Some_iff) (metis imageI nth_mem length_rev set_rev)


text \<open>Why a location carries a name: Ghidra reported it for the file and the offset of the location.\<close>

definition named_by :: "ghidra_env \<Rightarrow> rule_pack \<Rightarrow> finding_location \<Rightarrow> string \<Rightarrow> bool" where
  "named_by env pack l f \<longleftrightarrow>
     (\<exists>payload result b t name. read_result (ge_loads env) (ge_file env) = Inr (Some payload)
        \<and> ghidra_from (ge_float env) payload = Inr result
        \<and> b \<in> set (gr_binaries result) \<and> gb_path b = fl_artifact_id l
        \<and> t \<in> set (gb_targets b) \<and> fl_offset l = Some (xt_file_offset t)
        \<and> best_function t = Some name \<and> f = cut_text 255 (redact_log_text pack name))"

lemma applied_names:
  assumes "result_applied env run_id targets pack d d'" "n < length (db_locations d)"
    and "fl_xref_function (db_locations d' ! n) \<noteq> fl_xref_function (db_locations d ! n)"
  shows "fl_run_id (db_locations d ! n) = run_id \<and> fl_artifact_id (db_locations d ! n) \<in> bt_artifact_id ` set targets
    \<and> (\<exists>f. fl_xref_function (db_locations d' ! n) = Some f \<and> named_by env pack (db_locations d ! n) f)"
proof -
  let ?l = "db_locations d ! n"
  from assms(1) obtain payload result where doc: "read_result (ge_loads env) (ge_file env) = Inr (Some payload)"
      "ghidra_from (ge_float env) payload = Inr result"
    and locs: "db_locations d' = map (annotate run_id (wanted_functions pack result (dict_of staged_path bt_artifact_id targets))) (db_locations d)"
    by (auto simp: result_applied_def)
  let ?w = "wanted_functions pack result (dict_of staged_path bt_artifact_id targets)"
  have new: "db_locations d' ! n = annotate run_id ?w ?l" using locs assms(2) by simp
  with assms(3) obtain f where f: "function_at run_id ?w ?l = Some f"
    by (cases "function_at run_id ?w ?l") (simp_all add: annotate_def)
  then obtain off where off: "fl_run_id ?l = run_id" "fl_offset ?l = Some off" "map_of ?w (fl_artifact_id ?l, off) = Some f"
    by (auto simp: function_at_def or_str_def bind_eq_Some_conv split: if_splits option.splits)
  from wanted_reported [OF off(3) [unfolded wanted_functions_def]] obtain path name
    where name: "((path, off), name) \<in> set (xref_functions result)" "f = cut_text 255 (redact_log_text pack name)"
      "map_of (dict_of staged_path bt_artifact_id targets) path = Some (fl_artifact_id ?l)" by auto
  from targets_by_path [OF name(3)] have path: "fl_artifact_id ?l = path" "path \<in> bt_artifact_id ` set targets" by simp_all
  from name(1) have "map_of (xref_functions result) (path, off) = Some name" by (simp add: xref_functions_distinct)
  then obtain b t where bt: "b \<in> set (gr_binaries result)" "gb_path b = path" "t \<in> set (gb_targets b)" "xt_file_offset t = off"
      "best_function t = Some name"
    by (rule xref_functions_reported)
  have "fl_xref_function (db_locations d' ! n) = Some f" using f by (simp add: new annotate_def)
  moreover have "named_by env pack ?l f" unfolding named_by_def
    by (rule exI [of _ payload], rule exI [of _ result], rule exI [of _ b], rule exI [of _ t], rule exI [of _ name])
      (use doc bt name(2) path(1) off(2) in simp)
  ultimately show ?thesis using off(1) path by blast
qed

text \<open>A name that appears on a location is one that Ghidra reported for the location's file and offset, redacted
  like a log and cut; the location belongs to this run and to a file the task chose to analyse.\<close>

theorem written_names_were_reported:
  assumes "se_uuid (ge_scan env) (w_uuids w) \<notin> st_id ` set (db_stages (w_db w))" "ghidra_task env run_id w = (r, w')"
    and "n < length (db_locations (w_db w))"
    and "fl_xref_function (db_locations (w_db w') ! n) \<noteq> fl_xref_function (db_locations (w_db w) ! n)"
  shows "fl_run_id (db_locations (w_db w) ! n) = run_id
    \<and> fl_artifact_id (db_locations (w_db w) ! n)
        \<in> bt_artifact_id ` set (fst (select_targets (w_db w) run_id MAX_BINARIES MAX_OFFSETS_PER_BINARY))
    \<and> (\<exists>f pack. se_pack (ge_scan env) = Inr pack \<and> fl_xref_function (db_locations (w_db w') ! n) = Some f
         \<and> named_by env pack (db_locations (w_db w) ! n) f)"
  using assms(1,2)
proof (cases rule: ghidra_task_cases)
  case (finished w1 run stage targets remarks pack oc)
  from finished(1) have start: "db_locations (w_db w1) = db_locations (w_db w)" "se_pack (ge_scan env) = Inr pack"
      "targets = fst (select_targets (w_db w1) run_id MAX_BINARIES MAX_OFFSETS_PER_BINARY)" "unannotated (w_db w1) = unannotated (w_db w)"
      "get_run (w_db w) run_id = Some run"
    by (simp_all add: started_ok_def enriching_def)
  have "db_artifacts (w_db w1) = db_artifacts (unannotated (w_db w1))" by (simp add: unannotated_def)
  then have "db_artifacts (w_db w1) = db_artifacts (w_db w)" by (simp add: start(4)) (simp add: unannotated_def)
  with start have targets: "targets = fst (select_targets (w_db w) run_id MAX_BINARIES MAX_OFFSETS_PER_BINARY)"
    using select_targets_db [of "w_db w1" "w_db w"] by simp
  have "r_id run = run_id" using get_run_id [OF start(5)] by simp
  with finished have "db_locations (w_db w') = db_locations (w_db w1) \<or> result_applied env run_id targets pack (w_db w1) (w_db w')"
    using work_result [of "st_id stage" run_id stage run "unannotated (w_db w)" w1 env targets remarks pack oc w']
    by (simp add: started_ok_def)
  with assms(4) start(1) have "result_applied env run_id targets pack (w_db w1) (w_db w')" by auto
  from applied_names [OF this, of n] assms(3,4) start targets show ?thesis by auto
next
  case (broken w1 w2 run stage targets remarks pack e)
  with assms(4) show ?thesis by (simp add: started_ok_def)
next
  case (unstarted w1 e)
  with assms(4) show ?thesis by simp
next
  case (decided oc)
  with assms(4) show ?thesis by (simp add: started_ok_def)
qed


subsection \<open>A small enrichment\<close>

definition exe_row :: artifact where
  "exe_row = small_root\<lparr>a_id := ''b1'', a_parent_id := Some ''a1'', a_name := ''broker.exe'', a_path_in_tree := ''app.zip!broker.exe'',
     a_kind := ''pe''\<rparr>"

definition exe_location :: finding_location where
  "exe_location = \<lparr>fl_finding_id = ''f1'', fl_run_id = ''r1'', fl_artifact_id = ''b1'', fl_path_in_tree = ''app.zip!broker.exe'',
     fl_offset = Some 33280, fl_section = None, fl_encoding = None, fl_xref_function = None\<rparr>"

definition exe_result :: ghidra_result where
  "exe_result = \<lparr>gr_schema_version = 1, gr_analyzer = ''ghidra'', gr_ghidra_version = ''11.3'',
     gr_binaries = [\<lparr>gb_path = ''b1'', gb_status = ''analyzed'', gb_reason = None, gb_language = None, gb_function_count = 1,
       gb_duration_s = 2, gb_targets = [\<lparr>xt_file_offset = 33280, xt_address = None, xt_found = True,
         xt_references = [\<lparr>xs_from_address = ''0x1'', xs_reference_type = ''DATA'', xs_function = Some ''connect'',
           xs_function_address = None, xs_context = None\<rparr>]\<rparr>]\<rparr>],
     gr_truncated = False\<rparr>"

definition exe_world :: scan_world where
  "exe_world = small_world\<lparr>w_db := \<lparr>db_runs = [small_run\<lparr>r_status := R_COMPLETED\<rparr>], db_stages = [], db_artifacts = [small_root, exe_row],
     db_findings = [], db_locations = [exe_location], db_audit = []\<rparr>\<rparr>"

definition exe_env :: ghidra_env where
  "exe_env = \<lparr>ge_scan = small_env, ge_memory_gb = 4, ge_download = (\<lambda>_. Inr ()), ge_write = (\<lambda>_. Inr ()), ge_file = File_Text ''doc'',
     ge_loads = (\<lambda>_. Some (ghidra_json (\<lambda>_. ''0'') exe_result)), ge_float = (\<lambda>_. None)\<rparr>"

definition exe_pack :: rule_pack where
  "exe_pack = \<lparr>rp_version = ''1'', rp_rules = [], rp_hash = ''h'', rp_false_positives = {}\<rparr>"

definition exe_run :: run where
  "exe_run = small_run\<lparr>r_status := R_COMPLETED\<rparr>"

definition exe_targets :: "binary_target list" where
  "exe_targets = [\<lparr>bt_artifact_id = ''b1'', bt_path_in_tree = ''app.zip!broker.exe'', bt_storage_key = ''k'', bt_offsets = [33280]\<rparr>]"

lemma exe_selected: "select_targets d ''r1'' MAX_BINARIES MAX_OFFSETS_PER_BINARY = (exe_targets, [])"
  if "db_artifacts d = [small_root, exe_row]" "db_locations d = [exe_location]"
  by (simp add: that select_targets_def target_rows_def exe_row_def small_root_def EXECUTABLE_KINDS_def exe_location_def
      map_filter_simps described_def dict_of_def candidate_def offsets_of_def sorted_set_def or_str_def MAX_BINARIES_def
      MAX_OFFSETS_PER_BINARY_def exe_targets_def)

lemma exe_spec: "validate_spec (ghidra_spec exe_env exe_run) = []" "sp_network (ghidra_spec exe_env exe_run) = NET_NONE"
  using default_spec_valid [of "''r1''" "''ghidra''" "''ghidra''"]
  by (simp_all add: ghidra_spec_def validate_spec_def
      writable_targets_def mount_errors_def Let_def slashed_def ends_with_def check_error_def OUTPUT_DIR_def
      INPUT_DIR_def ro_mount_def rw_mount_def small_defs run_dir_def GHIDRA_TIMEOUT_S_def exe_env_def exe_run_def ANALYZER_def
      default_spec_def analyzer_memory_bytes_def analyzer_nano_cpus_def split: if_splits)


lemma exe_started:
  "\<exists>stage w1. prepare exe_env ''r1'' exe_world = (Inr (Started exe_run stage exe_targets [] exe_pack), w1)
     \<and> db_locations (w_db w1) = [exe_location] \<and> w_daemon w1 = (\<lambda>_. prompt_daemon)"
proof -
  have "get_run (w_db exe_world) ''r1'' = Some exe_run" by (simp add: exe_world_def exe_run_def get_run_def small_run_def)
  moreover have "r_status exe_run \<in> set ENRICHABLE_RUN_STATUSES" by (simp add: exe_run_def ENRICHABLE_RUN_STATUSES_def)
  moreover have "\<not> already_handled (w_db exe_world) ''r1''" by (simp add: already_handled_def exe_world_def)
  moreover obtain stage w1 where "begin_enrichment exe_env ''r1'' exe_world = (Inr stage, w1)"
    "db_artifacts (w_db w1) = [small_root, exe_row]" "db_locations (w_db w1) = [exe_location]" "w_daemon w1 = (\<lambda>_. prompt_daemon)"
    by (simp add: begin_enrichment_def eff_simps now_e_def uuid_e_def on_db_def add_stage_def exe_world_def small_world_def)
  moreover have "se_pack (ge_scan exe_env) = Inr exe_pack" by (simp add: exe_env_def small_env_def exe_pack_def)
  ultimately show ?thesis
    by (simp add: prepare_def eff_simps exe_selected on_db_def) (simp add: exe_targets_def)
qed

lemma exe_name: "cut_text 255 (redact_log_text exe_pack ''connect'') = ''connect''"
  by (simp add: redact_log_text_def redacted_values_def scan_bytes_def enabled_rules_def exe_pack_def cut_text_def utf8_take_def
      is_cont_def)

lemma exe_worked:
  assumes "w_daemon w1 = (\<lambda>_. prompt_daemon)" "db_locations (w_db w1) = [exe_location]"
  shows "\<exists>oc w2. work exe_env exe_run stage exe_targets [] exe_pack w1 = (Inr oc, w2)
    \<and> db_locations (w_db w2) = [exe_location\<lparr>fl_xref_function := Some ''connect''\<rparr>]"
proof -
  from prompt_run [OF exe_spec] obtain res d' where run: "run_container posix_driver (ghidra_spec exe_env exe_run) False prompt_daemon = (Inr res, d')"
    by blast
  obtain s w2 where ran: "analyze exe_env exe_run stage exe_targets exe_pack w1 = (Inr (s, Some (ghidra_json (\<lambda>_. ''0'') exe_result)), w2)"
  proof -
    have "\<exists>s w2. analyze exe_env exe_run stage exe_targets exe_pack w1 = (Inr (s, Some (ghidra_json (\<lambda>_. ''0'') exe_result)), w2)"
      using run assms(1)
      by (simp add: analyze_def eff_simps io_e_def exe_env_def exe_targets_def small_env_def run_analyzer_def on_daemon_def
          finish_stage_def now_e_def on_db_def case_prod_beta Let_def read_result_def ghidra_json_def)
    then show thesis using that by blast
  qed
  have quiet: "db_locations (w_db w2) = [exe_location]"
    using keepsD [OF quiet_analyze, of w1 w1 exe_env exe_run stage exe_targets exe_pack] ran assms(2) by (simp add: quiet_def)
  have result: "ghidra_from (ge_float exe_env) (ghidra_json (\<lambda>_. ''0'') exe_result) = Inr (canonical exe_result)"
    by (rule ghidra_retract) (simp add: exe_result_def ghidra_wf_def binary_wf_def target_wf_def site_wf_def opt_wf_def)
  have wanted: "wanted_functions exe_pack (canonical exe_result) (dict_of staged_path bt_artifact_id exe_targets) = [((''b1'', 33280), ''connect'')]"
    by (simp add: wanted_functions_def xref_functions_def canonical_def canonical_binary_def exe_result_def best_function_def
        named_def dict_of_def exe_targets_def staged_path_def exe_name)
  show ?thesis
    using quiet by (simp add: work_def eff_simps ran result absorb_result_def on_db_def Let_def apply_xrefs_locations)
      (simp add: wanted annotate_def function_at_def or_str_def exe_location_def exe_run_def small_run_def)
qed


lemma exe_fresh: "se_uuid (ge_scan exe_env) (w_uuids exe_world) \<notin> st_id ` set (db_stages (w_db exe_world))"
  by (simp add: exe_world_def)

lemma exe_task_names: "db_locations (w_db (snd (ghidra_task exe_env ''r1'' exe_world))) = [exe_location\<lparr>fl_xref_function := Some ''connect''\<rparr>]"
proof -
  from exe_started obtain stage w1 where p: "prepare exe_env ''r1'' exe_world = (Inr (Started exe_run stage exe_targets [] exe_pack), w1)"
    and w1: "db_locations (w_db w1) = [exe_location]" "w_daemon w1 = (\<lambda>_. prompt_daemon)" by blast
  from exe_worked [OF w1(2,1), of stage] obtain oc w2 where work: "work exe_env exe_run stage exe_targets [] exe_pack w1 = (Inr oc, w2)"
    and named: "db_locations (w_db w2) = [exe_location\<lparr>fl_xref_function := Some ''connect''\<rparr>]" by blast
  with p work named show ?thesis by (auto simp: ghidra_task_def bind_s_def in_transaction_def)
qed


theorem enrichment_keeps_verdict_witness:
  "gate_run (w_db (snd (ghidra_task exe_env ''r1'' exe_world))) = gate_run (w_db exe_world)
    \<and> w_db (snd (ghidra_task exe_env ''r1'' exe_world)) \<noteq> w_db exe_world"
proof (rule conjI)
  show "gate_run (w_db (snd (ghidra_task exe_env ''r1'' exe_world))) = gate_run (w_db exe_world)"
    by (rule enrichment_keeps_verdict [OF exe_fresh, of "''r1''"]) (rule prod.collapse [symmetric])
  have "db_locations (w_db exe_world) = [exe_location]" by (simp add: exe_world_def)
  with exe_task_names show "w_db (snd (ghidra_task exe_env ''r1'' exe_world)) \<noteq> w_db exe_world"
    by (auto simp: exe_location_def)
qed

theorem written_names_were_reported_witness:
  "fl_run_id (db_locations (w_db exe_world) ! 0) = ''r1''
    \<and> (\<exists>f. fl_xref_function (db_locations (w_db (snd (ghidra_task exe_env ''r1'' exe_world))) ! 0) = Some f
         \<and> named_by exe_env exe_pack (db_locations (w_db exe_world) ! 0) f)"
proof -
  have "fl_xref_function (db_locations (w_db (snd (ghidra_task exe_env ''r1'' exe_world))) ! 0)
      \<noteq> fl_xref_function (db_locations (w_db exe_world) ! 0)" "0 < length (db_locations (w_db exe_world))"
    using exe_task_names by (simp_all add: exe_world_def exe_location_def)
  from written_names_were_reported [OF exe_fresh prod.collapse [symmetric] this(2,1)]
  show ?thesis by (auto simp: exe_env_def small_env_def exe_pack_def)
qed

theorem second_delivery_starts_nothing_witness:
  "\<exists>w1. w_daemon w1 = (\<lambda>_. prompt_daemon) \<and> ghidra_task exe_env ''r1'' w1 = (Inr (handled ''r1''), w1)"
proof -
  from exe_started obtain stage w1 where p: "prepare exe_env ''r1'' exe_world = (Inr (Started exe_run stage exe_targets [] exe_pack), w1)"
    and "w_daemon w1 = (\<lambda>_. prompt_daemon)" by blast
  with second_delivery_starts_nothing [OF exe_fresh] show ?thesis by blast
qed

end
