(* ===== verification/Ghidra_Analyzer_Properties.thy ===== *)
theory Ghidra_Analyzer_Properties
  imports Ghidra_Analyzer Ghidra_Properties
begin

text \<open>
  What the Ghidra container promises the pipeline: it looks inside its input directory only, keeps the deadline,
  and answers for every binary it was asked about; the pipeline reads that answer, and calls the stage complete
  only when no binary was skipped.
\<close>

subsection \<open>The work order\<close>

lemma offset_of_ge: "n \<in> set (List.map_filter offset_of vs) \<Longrightarrow> 0 \<le> n"
  by (induction vs) (auto simp: List.map_filter_simps offset_of_def split: option.splits pyval.splits if_splits)

lemma order_entry_shape:
  assumes "order_entry raw = Inr es" "(p, offs) \<in> set es"
  shows "\<not> escapes p \<and> sorted offs \<and> distinct offs \<and> (\<forall>n \<in> set offs. 0 \<le> n)"
  using assms sorted_set_props offset_of_ge
  by (cases raw) (auto simp: order_entry_def Let_def err_simps split: if_splits)

text \<open>A work order names files below the input directory and offsets inside a file, each once, whatever is in the
  file it was read from.\<close>

lemma work_order_is_confined:
  assumes "work_order order = Inr entries" "(p, offs) \<in> set entries"
  shows "\<not> escapes p \<and> sorted offs \<and> distinct offs \<and> (\<forall>n \<in> set offs. 0 \<le> n)"
proof -
  from assms(1) obtain raws es where "map_e order_entry raws = Inr es" "entries = sort (concat es)"
    by (auto simp: work_order_def Let_def err_simps)
  with assms(2) show ?thesis using map_e_in [of order_entry raws es] order_entry_shape by fastforce
qed

subsection \<open>One result per entry\<close>

definition job_reads :: "analyzer_env \<Rightarrow> bool" where
  "job_reads env \<longleftrightarrow> (\<forall>i t argv lim ho v d. ae_job env i t argv lim = Inr (ho, Output v, d) \<longrightarrow> json_read v)"

definition answers :: "string \<Rightarrow> binary_result \<Rightarrow> bool" where
  "answers p b \<longleftrightarrow> gb_path b = p \<and> gb_status b \<in> {''analyzed'', ''failed'', ''timeout'', ''skipped''} \<and> binary_wf b"

lemma empty_answers:
  "st \<in> {''failed'', ''timeout'', ''skipped''} \<Longrightarrow> why \<noteq> [] \<Longrightarrow> answers p (empty_result p st (Some why) t)"
  by (auto simp: answers_def empty_result_def binary_wf_def opt_wf_def)

lemma analyzed_answers:
  assumes "analyzed_result p ho v t = Inr b" "json_read v"
  shows "answers p b"
proof -
  from assms(1) obtain d ts where d: "v = PDict d" "read_targets (pd_get_or d ''targets'' PNone) = Inr ts"
    and b: "gb_path b = p" "gb_status b = ''analyzed''" "opt_wf (gb_reason b)" "opt_wf (gb_language b)"
      "gb_targets b = sort_key xt_file_offset ts"
    by (auto simp: analyzed_result_def json_object_Inr err_simps Let_def opt_wf_def)
  have "list_all target_wf ts"
    using read_targets_wf [OF d(2)] json_read_get_or [of d PNone] assms(2) d(1) by simp
  with b show ?thesis by (simp add: answers_def binary_wf_def list_all_iff)
qed

lemma interpret_answers:
  assumes "interpret_run show_seconds p ho out t = Inr b" "\<And>v. out = Output v \<Longrightarrow> json_read v"
  shows "answers p b"
  using assms analyzed_answers failure_reason_nonempty
  by (auto simp: interpret_run_def intro: empty_answers split: if_splits script_output.splits)

lemma one_binary_answers:
  assumes "job_reads env" "one_binary env (i, p, offs) = Inr b"
  shows "answers p b"
proof (cases "ae_max_binaries env \<le> i \<or> budget_at env i < MIN_BINARY_BUDGET_S \<or> \<not> ae_staged env (binary_path p)")
  case True
  with assms(2) show ?thesis
    by (auto simp: one_binary_def analyze_binary_def intro!: empty_answers split: if_splits)
next
  case False
  with assms(2) obtain t argv ho out d where "ae_job env i t argv (budget_at env i) = Inr (ho, out, d)"
    "interpret_run (ae_show_seconds env) p ho out d = Inr b"
    by (auto simp: one_binary_def analyze_binary_def err_simps)
  moreover from this(1) assms(1) have "json_read v" if "out = Output v" for v
    using that unfolding job_reads_def by blast
  ultimately show ?thesis using interpret_answers by blast
qed

lemma map_e_zip:
  assumes "map_e f (zip is xs) = Inr ys" "length is = length xs" "\<And>i x y. f (i, x) = Inr y \<Longrightarrow> P x y"
  shows "list_all2 P xs ys"
  using assms(1,2)
proof (induction "is" arbitrary: xs ys)
  case (Cons i "is")
  then show ?case by (cases xs) (auto simp: err_simps intro: assms(3))
qed simp

lemma entries_answered:
  assumes "job_reads env" "analyze_all env entries = Inr r"
  shows "list_all2 (\<lambda>e b. answers (fst e) b) entries (gr_binaries r)"
    and "gr_truncated r = list_ex (\<lambda>b. gb_status b = ''skipped'') (gr_binaries r)"
    and "gr_analyzer r = ''ghidra''" "gr_ghidra_version r = ae_version env"
proof -
  from assms(2) obtain bs where bs: "map_e (one_binary env) (zip [0..<length entries] entries) = Inr bs" "r = collected env bs"
    by (auto simp: analyze_all_def err_simps)
  from map_e_zip [OF bs(1)] one_binary_answers [OF assms(1)]
  show "list_all2 (\<lambda>e b. answers (fst e) b) entries (gr_binaries r)" by (fastforce simp: bs(2) collected_def)
qed (use assms(2) in \<open>auto simp: analyze_all_def collected_def err_simps\<close>)

lemma answered_paths: "list_all2 (\<lambda>e b. answers (fst e) b) entries bs \<Longrightarrow> map gb_path bs = map fst entries"
  by (induction rule: list_all2_induct) (simp_all add: answers_def)

lemma answered_wf: "list_all2 (\<lambda>e b. answers (fst e) b) entries bs \<Longrightarrow> list_all binary_wf bs"
  by (induction rule: list_all2_induct) (simp_all add: answers_def)

subsection \<open>The deadline\<close>

text \<open>A job is started only with at least half a minute, never with more than its share, and never with more than is
  left: an environment that refuses every other job gives the same answers.\<close>

definition punctual :: "analyzer_env \<Rightarrow> analyzer_env" where
  "punctual env = env\<lparr>ae_job := (\<lambda>i t argv lim.
     if 30 \<le> lim \<and> lim \<le> ae_per_binary env \<and> ae_now env i + lim \<le> ae_started env + ae_total_timeout env
     then ae_job env i t argv lim else Inl ''overrun'')\<rparr>"

lemma jobs_keep_the_deadline: "one_binary (punctual env) x = one_binary env x"
proof -
  obtain i p offs where x: "x = (i, p, offs)" by (cases x)
  let ?b = "budget_at env i"
  have "?b \<le> ae_per_binary env" "ae_now env i + ?b \<le> ae_started env + ae_total_timeout env" by (auto simp: budget_at_def min_def)
  moreover have "budget_at (punctual env) i = ?b" by (simp add: budget_at_def punctual_def)
  ultimately show ?thesis
    by (simp add: x one_binary_def analyze_binary_def MIN_BINARY_BUDGET_S_def) (simp add: punctual_def)
qed

lemma map_e_raises: "f z = Inl e' \<Longrightarrow> z \<in> set zs \<Longrightarrow> \<exists>e. map_e f zs = Inl e"
proof (induction zs)
  case (Cons a zs)
  then show ?case by (cases "f a"; cases "map_e f zs") auto
qed simp

text \<open>One script output that is no object ends the whole run without a result, those of the other binaries
  included.\<close>

lemma malformed_output_loses_the_run:
  assumes "work_order order = Inr (xs @ (p, offs) # ys)" "length xs < ae_max_binaries env"
    and "MIN_BINARY_BUDGET_S \<le> budget_at env (length xs)" "ae_staged env (binary_path p)"
    and "\<And>t argv lim. ae_job env (length xs) t argv lim
           = Inr (\<lparr>ho_exit_code = Some 0, ho_output = [], ho_timed_out = False\<rparr>, Output (PList []), 1)"
  shows "\<exists>e. analyzer_main env (Some order) = Inl e"
proof -
  have "one_binary env (length xs, p, offs) = Inl ''AttributeError''"
    using assms(2-5)
    by (simp add: one_binary_def analyze_binary_def interpret_run_def analyzed_result_def json_object_def)
  moreover have "(length xs, p, offs) \<in> set (zip [0..<length (xs @ (p, offs) # ys)] (xs @ (p, offs) # ys))"
    by (force simp: in_set_zip nth_append)
  ultimately have "\<exists>e. map_e (one_binary env) (zip [0..<length (xs @ (p, offs) # ys)] (xs @ (p, offs) # ys)) = Inl e"
    by (rule map_e_raises)
  with assms(1) show ?thesis by (auto simp: analyzer_main_def analyze_all_def)
qed

subsection \<open>From the pipeline to the container and back\<close>

text \<open>The document of \<open>targets.json\<close> as \<open>json.loads\<close> reads it back: \<open>sort_keys\<close> put the offsets first.\<close>

definition order_document :: "binary_target list \<Rightarrow> pyval" where
  "order_document targets = PDict [(PStr ''binaries'', PList (map (\<lambda>b. PDict
     [(PStr ''offsets'', PList (map PInt (bt_offsets b))), (PStr ''path'', PStr (staged_path b))]) targets))]"

definition target_in_order :: "binary_target \<Rightarrow> bool" where
  "target_in_order b \<longleftrightarrow> \<not> escapes (staged_path b) \<and> list_all (\<lambda>n. 0 \<le> n) (bt_offsets b)"

lemma offsets_read: "list_all (\<lambda>n. 0 \<le> n) offs \<Longrightarrow> List.map_filter offset_of (map PInt offs) = offs"
  by (induction offs) (simp_all add: List.map_filter_simps offset_of_def)

lemma order_entry_target:
  assumes "target_in_order b"
  shows "order_entry (PDict [(PStr ''offsets'', PList (map PInt (bt_offsets b))), (PStr ''path'', PStr (staged_path b))])
    = Inr [(staged_path b, sorted_set (bt_offsets b))]"
proof -
  have "staged_path b \<noteq> []" using assms by (auto simp: target_in_order_def escapes_def)
  moreover have "got_or [(PStr ''offsets'', PList (map PInt (bt_offsets b))), (PStr ''path'', PStr (staged_path b))] ''offsets'' (PList [])
      = PList (map PInt (bt_offsets b))"
    by (cases "bt_offsets b") (simp_all add: got_or_def dict_simps)
  ultimately show ?thesis
    using assms by (simp add: order_entry_def target_in_order_def got_str_def got_or_def [of _ "''path''"] dict_simps py_iter_def offsets_read)
qed

lemma work_order_of_targets:
  assumes "list_all target_in_order targets"
  shows "work_order (order_document targets) = Inr (sort (map (\<lambda>b. (staged_path b, sorted_set (bt_offsets b))) targets))"
proof -
  have "map_e order_entry (map (\<lambda>b. PDict
      [(PStr ''offsets'', PList (map PInt (bt_offsets b))), (PStr ''path'', PStr (staged_path b))]) targets)
    = Inr (map (\<lambda>b. [(staged_path b, sorted_set (bt_offsets b))]) targets)"
    using assms by (induction targets) (simp_all add: order_entry_target)
  then show ?thesis by (simp add: work_order_def order_document_def dict_simps)
qed

lemma sort_fst_mset: "mset (map fst (sort (map f xs))) = mset (map (fst \<circ> f) xs)"
  by (metis list.map_comp mset_map mset_sort)


subsection \<open>Witness\<close>

definition connect_output :: pyval where
  "connect_output = PDict
     [(PStr ''language'', PStr ''x86''), (PStr ''function_count'', PInt 12),
      (PStr ''targets'', PList [PDict
         [(PStr ''file_offset'', PInt 33280), (PStr ''found'', PBool True),
          (PStr ''references'', PList [PDict [(PStr ''from_address'', PStr ''0x10''), (PStr ''function'', PStr ''connect'')]])]])]"

definition connect_env :: analyzer_env where
  "connect_env = \<lparr>ae_ghidra_home = ''/opt/ghidra'', ae_version = ''11.3'', ae_total_timeout = 1500, ae_per_binary = 600,
     ae_max_binaries = 16, ae_started = 0, ae_now = (\<lambda>_. 0), ae_staged = (\<lambda>_. True),
     ae_job = (\<lambda>_ _ _ _. Inr (\<lparr>ho_exit_code = Some 0, ho_output = [], ho_timed_out = False\<rparr>, Output connect_output, 2)),
     ae_show_seconds = (\<lambda>_. ''2''), ae_show_float = (\<lambda>_. ''2.0'')\<rparr>"

definition connect_result :: ghidra_result where
  "connect_result = \<lparr>gr_schema_version = 1, gr_analyzer = ''ghidra'', gr_ghidra_version = ''11.3'',
     gr_binaries = [\<lparr>gb_path = ''b1'', gb_status = ''analyzed'', gb_reason = None, gb_language = Some ''x86'',
       gb_function_count = 12, gb_duration_s = 2,
       gb_targets = [\<lparr>xt_file_offset = 33280, xt_address = None, xt_found = True,
         xt_references = [\<lparr>xs_from_address = ''0x10'', xs_reference_type = ''UNKNOWN'', xs_function = Some ''connect'',
           xs_function_address = None, xs_context = None\<rparr>]\<rparr>]\<rparr>], gr_truncated = False\<rparr>"

lemma connect_target: "target_in_order \<lparr>bt_artifact_id = ''b1'', bt_path_in_tree = p, bt_storage_key = k, bt_offsets = [33280]\<rparr>"
  by (simp add: target_in_order_def escapes_def path_parts_def staged_path_def)

lemma connect_reads: "job_reads connect_env"
  by (simp add: job_reads_def connect_env_def connect_output_def json_read.simps(5))

lemma connect_analyzed:
  "analyzed_result ''b1'' \<lparr>ho_exit_code = Some 0, ho_output = [], ho_timed_out = False\<rparr> connect_output 2
    = Inr (hd (gr_binaries connect_result))"
  by (simp add: analyzed_result_def connect_output_def json_object_def read_targets_def json_reading py_iter_def dict_value_def
      target_from_def site_from_def int_or_raise_def optional_str_def first_references_def MAX_REFERENCES_PER_TARGET_def
      connect_result_def py_lower_def)

lemma connect_runs:
  "analyzer_main connect_env (Some (order_document exe_targets)) = Inr (0, Some (ghidra_json (\<lambda>_. ''2.0'') connect_result))"
proof -
  have "one_binary connect_env (0, ''b1'', [33280]) = Inr (hd (gr_binaries connect_result))"
    using connect_analyzed
    by (simp add: one_binary_def connect_env_def analyze_binary_def budget_at_def MIN_BINARY_BUDGET_S_def interpret_run_def)
  moreover have "work_order (order_document exe_targets) = Inr [(''b1'', [33280])]"
    using work_order_of_targets [of exe_targets] connect_target
    by (simp add: exe_targets_def staged_path_def sorted_set_def)
  ultimately show ?thesis
    by (simp add: analyzer_main_def analyze_all_def collected_def connect_env_def [THEN arg_cong, of ae_version]
        connect_env_def [THEN arg_cong, of ae_show_float] connect_result_def SCHEMA_VERSION_def)
qed


end
