(* ===== verification/Llm_Adapters.thy ===== *)
theory Llm_Adapters
  imports Llm_Settings Rules_Properties Py_Json
begin

text \<open>
  The adapters that call a model (\<open>core/llm/providers/ollama.py\<close>, \<open>core/llm/providers/litellm_provider.py\<close>) and
  the probes of \<open>core/llm/router.py\<close>. A computation keeps the list of everything that was contacted; what the
  network, \<open>httpx\<close> and the \<open>litellm\<close> package answer to a contact is a parameter, and so is how long it took. A
  model's name is a text. Token counts that are no integers are left out, and log events.
\<close>

subsection \<open>The network\<close>

record exn =
  ex_name :: string
  ex_text :: string

datatype contact =
    Http_Get string "(string \<times> string) list" rat
  | Http_Post string pyval rat
  | Litellm_Call string "string option" "string option" "message list" "(string \<times> pyval) list"

text \<open>What the program reads of a response of \<open>litellm.completion\<close>: the contents and the reasoning of the choices.\<close>

record litellm_response =
  lr_choices :: "(string option \<times> string option) list"
  lr_model :: "string option"
  lr_usage :: "(int option \<times> int option) option"

record network =
  nw_net :: net_env
  nw_http :: "nat \<Rightarrow> contact \<Rightarrow> exn + pyval"
  nw_litellm :: "nat \<Rightarrow> contact \<Rightarrow> exn + litellm_response"
  nw_model_info :: "string \<Rightarrow> exn + (pyval \<times> pyval) list"
  nw_took :: "nat \<Rightarrow> rat"
  nw_show_float :: "rat \<Rightarrow> string"

record capabilities =
  ca_native_tool_calling :: bool
  ca_structured_output :: bool
  ca_context_window :: int
  ca_max_output_tokens :: int

record llm_wire =
  lw_log :: "contact list"
  lw_capabilities :: "capabilities option"

type_synonym 'a wired = "(llm_wire, exn, 'a) eff"

definition contacted :: "contact \<Rightarrow> llm_wire \<Rightarrow> llm_wire" where
  "contacted c w = w\<lparr>lw_log := lw_log w @ [c]\<rparr>"

definition http :: "network \<Rightarrow> contact \<Rightarrow> pyval wired" where
  "http nw c = (\<lambda>w. (nw_http nw (length (lw_log w)) c, contacted c w))"

definition litellm :: "network \<Rightarrow> contact \<Rightarrow> litellm_response wired" where
  "litellm nw c = (\<lambda>w. (nw_litellm nw (length (lw_log w)) c, contacted c w))"

definition last_took :: "network \<Rightarrow> rat wired" where
  "last_took nw = reads (\<lambda>w. nw_took nw (length (lw_log w)))"

text \<open>The guard raises \<open>EgressBlocked\<close>; a URL that does not parse is a \<open>ValueError\<close>.\<close>

definition blocked_exn :: "string \<Rightarrow> exn" where
  "blocked_exn m = \<lparr>ex_name = (if m = ''Invalid IPv6 URL'' then ''ValueError'' else ''EgressBlocked''), ex_text = m\<rparr>"

definition guarded :: "string + unit \<Rightarrow> unit wired" where
  "guarded verdict = lift_e (map_sum blocked_exn id verdict)"

subsection \<open>Reading documents\<close>

definition py_exn :: "string \<Rightarrow> string \<Rightarrow> exn" where
  "py_exn name t = \<lparr>ex_name = name, ex_text = t\<rparr>"

definition no_attribute :: "pyval \<Rightarrow> string \<Rightarrow> exn" where
  "no_attribute v a = py_exn ''AttributeError'' (repr_str (type_name v) @ '' object has no attribute '' @ repr_str a)"

definition dict_with :: "string \<Rightarrow> pyval \<Rightarrow> exn + (pyval \<times> pyval) list" where
  "dict_with attribute v = (case v of PDict d \<Rightarrow> Inr d | _ \<Rightarrow> Inl (no_attribute v attribute))"

definition iterated :: "pyval \<Rightarrow> exn + pyval list" where
  "iterated v = map_sum (\<lambda>e. py_exn e (repr_str (type_name v) @ '' object is not iterable'')) id (py_iter v)"

definition item :: "string \<Rightarrow> pyval \<Rightarrow> exn + pyval" where
  "item k v =
     (case v of
        PDict d \<Rightarrow> option_to_e (py_exn ''KeyError'' (repr_str k)) (pd_get d k)
      | PList _ \<Rightarrow> Inl (py_exn ''TypeError'' ''list indices must be integers or slices, not str'')
      | PStr _ \<Rightarrow> Inl (py_exn ''TypeError'' (''string indices must be integers, not '' @ repr_str ''str''))
      | _ \<Rightarrow> Inl (py_exn ''TypeError'' (repr_str (type_name v) @ '' object is not subscriptable'')))"

text \<open>\<open>(data.get(key) or "").strip()\<close>.\<close>

definition stripped_text :: "(pyval \<times> pyval) list \<Rightarrow> string \<Rightarrow> exn + string" where
  "stripped_text d k =
     (let v = pd_get_or d k PNone in
      if \<not> py_truthy v then Inr [] else (case v of PStr s \<Rightarrow> Inr (py_strip s) | _ \<Rightarrow> Inl (no_attribute v ''strip'')))"

definition count_of_tokens :: "pyval \<Rightarrow> int option" where
  "count_of_tokens v = (case v of PInt n \<Rightarrow> Some n | _ \<Rightarrow> None)"

definition thinking_raw :: "string \<Rightarrow> (pyval \<times> pyval) list" where
  "thinking_raw t = (if t \<noteq> [] then [(PStr ''thinking'', PStr t)] else [])"

subsection \<open>An adapter\<close>

record adapter =
  ad_built :: built_provider
  ad_num_ctx :: pyval
  ad_context_window :: int
  ad_max_output_tokens :: int

definition model_text :: "adapter \<Rightarrow> string" where
  "model_text ad = py_str (bp_model (ad_built ad))"

definition adapter_of :: "built_provider \<Rightarrow> (pyval \<times> pyval) list \<Rightarrow> adapter" where
  "adapter_of bp spec = \<lparr>ad_built = bp, ad_num_ctx = pd_get_or spec ''num_ctx'' PNone, ad_context_window = 128000,
     ad_max_output_tokens = 8192\<rparr>"

definition MODEL_TIMEOUT_S :: rat where "MODEL_TIMEOUT_S = 120"
definition HEALTH_TIMEOUT_S :: rat where "HEALTH_TIMEOUT_S = 5"

record chat_request =
  cr_messages :: "message list"
  cr_json_mode :: bool
  cr_max_tokens :: int
  cr_temperature :: rat
  cr_timeout_s :: rat

record provider_health =
  ph_healthy :: bool
  ph_provider :: pyval
  ph_model :: string
  ph_detail :: string
  ph_latency_s :: "rat option"
  ph_available_models :: "pyval list"

definition unhealthy :: "pyval \<Rightarrow> string \<Rightarrow> string \<Rightarrow> provider_health" where
  "unhealthy name model detail = \<lparr>ph_healthy = False, ph_provider = name, ph_model = model, ph_detail = detail,
     ph_latency_s = None, ph_available_models = []\<rparr>"

definition messages_json :: "message list \<Rightarrow> pyval" where
  "messages_json ms = PList (map (\<lambda>m. PDict [(PStr ''role'', PStr (ms_role m)), (PStr ''content'', PStr (ms_content m))]) ms)"

definition ok_message :: message where
  "ok_message = \<lparr>ms_role = ''user'', ms_content = ''ok''\<rparr>"

subsection \<open>Ollama\<close>

definition ollama_post :: "network \<Rightarrow> adapter \<Rightarrow> string \<Rightarrow> pyval \<Rightarrow> rat \<Rightarrow> pyval wired" where
  "ollama_post nw ad path payload timeout =
     (let url = bp_base_url (ad_built ad) @ path in
      bind_s (guarded (guard_check (nw_net nw) (bp_guard (ad_built ad)) url)) (\<lambda>_. http nw (Http_Post url payload timeout)))"

definition chat_payload :: "network \<Rightarrow> adapter \<Rightarrow> chat_request \<Rightarrow> pyval" where
  "chat_payload nw ad rq = PDict
     ([(PStr ''model'', PStr (model_text ad)), (PStr ''messages'', messages_json (cr_messages rq)), (PStr ''stream'', PBool False),
       (PStr ''options'', PDict
          ([(PStr ''temperature'', PFloat (cr_temperature rq) (nw_show_float nw (cr_temperature rq))),
            (PStr ''num_predict'', PInt (cr_max_tokens rq))]
           @ (if py_truthy (ad_num_ctx ad) then [(PStr ''num_ctx'', ad_num_ctx ad)] else [])))]
      @ (if cr_json_mode rq then [(PStr ''format'', PStr ''json'')] else []))"

definition ollama_answer :: "string \<Rightarrow> rat \<Rightarrow> pyval \<Rightarrow> exn + completion" where
  "ollama_answer model duration data =
     bind_e (dict_with ''get'' data) (\<lambda>d.
     bind_e (dict_with ''get'' (or_dict (pd_get_or d ''message'' (PDict [])))) (\<lambda>m.
     bind_e (stripped_text m ''content'') (\<lambda>t.
     bind_e (stripped_text m ''thinking'') (\<lambda>thinking.
     Inr \<lparr>co_text = t, co_model = model, co_prompt_tokens = count_of_tokens (pd_get_or d ''prompt_eval_count'' PNone),
          co_completion_tokens = count_of_tokens (pd_get_or d ''eval_count'' PNone), co_duration_s = round3_rat duration,
          co_raw = thinking_raw thinking\<rparr>))))"

definition ollama_complete :: "network \<Rightarrow> adapter \<Rightarrow> chat_request \<Rightarrow> completion wired" where
  "ollama_complete nw ad rq =
     bind_s (ollama_post nw ad ''/api/chat'' (chat_payload nw ad rq) (cr_timeout_s rq)) (\<lambda>data.
     bind_s (last_took nw) (\<lambda>t. lift_e (ollama_answer (model_text ad) t data)))"

text \<open>The first entry of \<open>model_info\<close> whose key ends in \<open>.context_length\<close>.\<close>

definition context_length :: "pyval \<Rightarrow> exn + int" where
  "context_length data =
     bind_e (dict_with ''get'' data) (\<lambda>d.
     bind_e (dict_with ''items'' (or_dict (pd_get_or d ''model_info'' PNone))) (\<lambda>info.
     case List.find (\<lambda>(k, v). ends_with ''.context_length'' (py_str k)) info of
       None \<Rightarrow> Inr 8192
     | Some (k, v) \<Rightarrow> map_sum (\<lambda>e. py_exn e []) id (int_or_raise v)))"

definition ollama_capabilities :: "network \<Rightarrow> adapter \<Rightarrow> capabilities wired" where
  "ollama_capabilities nw ad =
     bind_s (reads lw_capabilities) (\<lambda>known.
     case known of
       Some c \<Rightarrow> ret c
     | None \<Rightarrow>
         bind_s (attempt (bind_s (ollama_post nw ad ''/api/show'' (PDict [(PStr ''model'', PStr (model_text ad))]) 30)
           (\<lambda>data. lift_e (context_length data)) :: int wired)) (\<lambda>window.
         let c = \<lparr>ca_native_tool_calling = False, ca_structured_output = True,
                   ca_context_window = (case window of Inr n \<Rightarrow> n | Inl _ \<Rightarrow> 8192), ca_max_output_tokens = 4096\<rparr> in
         bind_s (modify (\<lambda>w. w\<lparr>lw_capabilities := Some c\<rparr>)) (\<lambda>_. ret c)))"

definition tag_names :: "pyval \<Rightarrow> exn + pyval list" where
  "tag_names data =
     bind_e (dict_with ''get'' data) (\<lambda>d.
     bind_e (iterated (pd_get_or d ''models'' (PList []))) (map_e (item ''name'')))"

definition ollama_health :: "network \<Rightarrow> adapter \<Rightarrow> rat \<Rightarrow> provider_health wired" where
  "ollama_health nw ad timeout =
     (let bp = ad_built ad; name = bp_name bp; url = bp_base_url bp; model = model_text ad in
      case guard_check (nw_net nw) (bp_guard bp) url of
        Inl m \<Rightarrow> ret (unhealthy name [] m)
      | Inr _ \<Rightarrow>
          bind_s (attempt (bind_s (http nw (Http_Get (url @ ''/api/tags'') [] timeout)) (\<lambda>data. lift_e (tag_names data)) :: pyval list wired))
            (\<lambda>outcome.
          bind_s (last_took nw) (\<lambda>t.
          case outcome of
            Inl e \<Rightarrow> ret (unhealthy name model (''cannot reach Ollama at '' @ url @ '': '' @ ex_text e))
          | Inr models \<Rightarrow>
              if PStr model \<notin> set models
              then ret ((unhealthy name model (''model '' @ repr_str model @ '' is not pulled; run: ollama pull '' @ model))
                          \<lparr>ph_available_models := models\<rparr>)
              else ret \<lparr>ph_healthy = True, ph_provider = name, ph_model = model,
                        ph_detail = show_nat (length models) @ '' model(s) available'', ph_latency_s = Some (round3_rat t),
                        ph_available_models = models\<rparr>)))"

definition warm :: "network \<Rightarrow> adapter \<Rightarrow> rat \<Rightarrow> rat option wired" where
  "warm nw ad timeout =
     bind_s (attempt (ollama_post nw ad ''/api/chat'' (PDict
       [(PStr ''model'', PStr (model_text ad)), (PStr ''messages'', messages_json [ok_message]), (PStr ''stream'', PBool False),
        (PStr ''options'', PDict [(PStr ''num_predict'', PInt 1)])]) timeout)) (\<lambda>outcome.
     bind_s (last_took nw) (\<lambda>t.
       ret (case outcome of Inl e \<Rightarrow> None | Inr _ \<Rightarrow> Some (of_int (round_half_even (t * 100)) / 100))))"

subsection \<open>LiteLLM\<close>

definition check_egress :: "network \<Rightarrow> adapter \<Rightarrow> unit wired" where
  "check_egress nw ad = guarded (check_call (nw_net nw) (ad_built ad))"

definition text_or_none :: "string \<Rightarrow> string option" where
  "text_or_none t = (if t = [] then None else Some t)"

text \<open>\<open>_kwargs\<close> and the arguments beside them.\<close>

definition litellm_call :: "adapter \<Rightarrow> message list \<Rightarrow> (string \<times> pyval) list \<Rightarrow> contact" where
  "litellm_call ad ms options =
     Litellm_Call (model_text ad) (text_or_none (bp_base_url (ad_built ad))) (or_str (bp_api_key (ad_built ad)) None) ms options"

definition litellm_answer :: "string \<Rightarrow> rat \<Rightarrow> litellm_response \<Rightarrow> exn + completion" where
  "litellm_answer model duration r =
     (case lr_choices r of
        [] \<Rightarrow> Inl (py_exn ''IndexError'' ''list index out of range'')
      | (content, reasoning) # _ \<Rightarrow>
          Inr \<lparr>co_text = py_strip (or_empty [] content), co_model = or_empty model (or_str (lr_model r) None),
               co_prompt_tokens = Option.bind (lr_usage r) fst, co_completion_tokens = Option.bind (lr_usage r) snd,
               co_duration_s = round3_rat duration, co_raw = thinking_raw (py_strip (or_empty [] reasoning))\<rparr>)"

definition litellm_complete :: "network \<Rightarrow> adapter \<Rightarrow> chat_request \<Rightarrow> completion wired" where
  "litellm_complete nw ad rq =
     bind_s (check_egress nw ad) (\<lambda>_.
     bind_s (litellm nw (litellm_call ad (cr_messages rq)
       ([(''max_tokens'', PInt (cr_max_tokens rq)), (''temperature'', PFloat (cr_temperature rq) (nw_show_float nw (cr_temperature rq))),
         (''timeout'', PFloat (cr_timeout_s rq) (nw_show_float nw (cr_timeout_s rq)))]
        @ (if cr_json_mode rq then [(''response_format'', PDict [(PStr ''type'', PStr ''json_object'')])] else [])))) (\<lambda>r.
     bind_s (last_took nw) (\<lambda>t. lift_e (litellm_answer (model_text ad) t r))))"

text \<open>The three numbers of the cost map are read in order; one that raises leaves the later ones at their
  defaults.\<close>

definition int_or :: "(pyval \<times> pyval) list \<Rightarrow> string \<Rightarrow> int \<Rightarrow> string + int" where
  "int_or info k n = int_or_raise (got_or info k (PInt n))"

definition litellm_capabilities :: "network \<Rightarrow> adapter \<Rightarrow> capabilities" where
  "litellm_capabilities nw ad =
     (let caps = (\<lambda>s w m. \<lparr>ca_native_tool_calling = True, ca_structured_output = s, ca_context_window = w, ca_max_output_tokens = m\<rparr>);
          w0 = ad_context_window ad; m0 = ad_max_output_tokens ad in
      case nw_model_info nw (model_text ad) of
        Inl e \<Rightarrow> caps True w0 m0
      | Inr info \<Rightarrow>
          (case int_or info ''max_input_tokens'' w0 of
             Inl e \<Rightarrow> caps True w0 m0
           | Inr w \<Rightarrow>
               (case int_or info ''max_output_tokens'' m0 of
                  Inl e \<Rightarrow> caps True w m0
                | Inr m \<Rightarrow> caps (py_truthy (pd_get_or info ''supports_response_schema'' (PBool True))) w m)))"

definition FAILURE_HINTS :: "(string, string) dict" where
  "FAILURE_HINTS =
     [(''AuthenticationError'', ''the API key was rejected''), (''NotFoundError'', ''the model was not found for this key''),
      (''RateLimitError'', ''rate limited '' @ [CHR 0xE2, CHR 0x80, CHR 0x94] @ '' the key works, but the provider is throttling''),
      (''APIConnectionError'', ''could not reach the endpoint''), (''Timeout'', ''the endpoint did not respond in time''),
      (''BadRequestError'', ''the provider rejected the request'')]"

definition hidden_key :: "string option \<Rightarrow> string \<Rightarrow> string" where
  "hidden_key api_key t = (case api_key of Some k \<Rightarrow> if k \<noteq> [] then replace_all k ''***'' t else t | None \<Rightarrow> t)"

definition explain_failure :: "exn \<Rightarrow> string option \<Rightarrow> string" where
  "explain_failure e api_key =
     (let t = hidden_key api_key (ex_text e) in
      case map_of FAILURE_HINTS (ex_name e) of
        Some hint \<Rightarrow> hint @ '': '' @ utf8_take 300 t
      | None \<Rightarrow> utf8_take 400 t)"

definition model_prefix :: "string \<Rightarrow> string" where
  "model_prefix model = (if CHR ''/'' \<in> set model then takeWhile (\<lambda>c. c \<noteq> CHR ''/'') model else [])"

definition listed_ids :: "pyval \<Rightarrow> exn + string list" where
  "listed_ids data =
     bind_e (dict_with ''get'' data) (\<lambda>d.
     bind_e (iterated (pd_get_or d ''data'' (PList []))) (\<lambda>entries.
     bind_e (map_e (dict_with ''get'') entries) (\<lambda>ds.
       Inr (map (\<lambda>e. py_str (pd_get_or e ''id'' PNone)) (filter (\<lambda>e. py_truthy (pd_get_or e ''id'' PNone)) ds)))))"

definition auth_headers :: "string option \<Rightarrow> (string \<times> string) list" where
  "auth_headers api_key = (case or_str api_key None of Some k \<Rightarrow> [(''authorization'', ''Bearer '' @ k)] | None \<Rightarrow> [])"

definition list_models :: "network \<Rightarrow> adapter \<Rightarrow> rat \<Rightarrow> string list wired" where
  "list_models nw ad timeout =
     (let url = bp_base_url (ad_built ad); prefix = model_prefix (model_text ad) in
      if url = [] then ret []
      else
        bind_s (attempt (bind_s (http nw (Http_Get (url @ ''/models'') (auth_headers (bp_api_key (ad_built ad))) timeout))
          (\<lambda>data. lift_e (listed_ids data)) :: string list wired)) (\<lambda>outcome.
        ret (case outcome of
            Inl e \<Rightarrow> []
          | Inr models \<Rightarrow> map (\<lambda>m. if prefix \<noteq> [] then prefix @ ''/'' @ m else m) models)))"

definition litellm_health :: "network \<Rightarrow> adapter \<Rightarrow> rat \<Rightarrow> provider_health wired" where
  "litellm_health nw ad timeout =
     (let bp = ad_built ad; name = bp_name bp; model = model_text ad in
      case check_call (nw_net nw) bp of
        Inl m \<Rightarrow> ret (unhealthy name [] m)
      | Inr _ \<Rightarrow>
          if or_str (bp_api_key bp) None = None \<and> \<not> bp_declared_local bp
          then ret (unhealthy name model ''no API key configured for this provider'')
          else
            bind_s (attempt (litellm nw (litellm_call ad [ok_message]
              [(''max_tokens'', PInt 1), (''timeout'', PFloat timeout (nw_show_float nw timeout))]))) (\<lambda>outcome.
            bind_s (last_took nw) (\<lambda>t.
            case outcome of
              Inl e \<Rightarrow> ret (unhealthy name model (explain_failure e (bp_api_key bp)))
            | Inr _ \<Rightarrow>
                bind_s (list_models nw ad timeout) (\<lambda>models.
                ret \<lparr>ph_healthy = True, ph_provider = name, ph_model = model, ph_detail = ''reachable, and the credential works'',
                     ph_latency_s = Some (round3_rat t), ph_available_models = map PStr models\<rparr>))))"

subsection \<open>Probing\<close>

definition adapter_health :: "network \<Rightarrow> adapter \<Rightarrow> rat \<Rightarrow> provider_health wired" where
  "adapter_health nw ad timeout = (if bp_ollama (ad_built ad) then ollama_health nw ad timeout else litellm_health nw ad timeout)"

definition complete :: "network \<Rightarrow> adapter \<Rightarrow> chat_request \<Rightarrow> completion wired" where
  "complete nw ad rq = (if bp_ollama (ad_built ad) then ollama_complete nw ad rq else litellm_complete nw ad rq)"

definition adapter_capabilities :: "network \<Rightarrow> adapter \<Rightarrow> capabilities wired" where
  "adapter_capabilities nw ad =
     (if bp_ollama (ad_built ad) then ollama_capabilities nw ad else ret (litellm_capabilities nw ad))"

definition spec_of :: "llm_config \<Rightarrow> pyval \<Rightarrow> (pyval \<times> pyval) list" where
  "spec_of cf name = (case cf_providers cf of PDict d \<Rightarrow> (case map_of d name of Some (PDict spec) \<Rightarrow> spec | _ \<Rightarrow> []) | _ \<Rightarrow> [])"

definition build_adapter :: "net_env \<Rightarrow> llm_settings \<Rightarrow> key_env \<Rightarrow> llm_config \<Rightarrow> pyval \<Rightarrow> llm_error + adapter" where
  "build_adapter net se ke cf name = map_sum id (\<lambda>bp. adapter_of bp (spec_of cf name)) (build_provider net se ke cf name)"

text \<open>The text of an exception of the router; how one that is no \<open>LLMConfigError\<close> prints is a parameter.\<close>

definition error_text :: "(string \<Rightarrow> string) \<Rightarrow> llm_error \<Rightarrow> string" where
  "error_text describe e = (case e of Config_Error m \<Rightarrow> m | Py_Error name \<Rightarrow> describe name)"

definition probe_provider ::
  "network \<Rightarrow> (string \<Rightarrow> string) \<Rightarrow> llm_settings \<Rightarrow> key_env \<Rightarrow> llm_config \<Rightarrow> pyval \<Rightarrow> provider_health wired" where
  "probe_provider nw describe se ke cf name =
     (case build_adapter (nw_net nw) se ke cf name of
        Inl e \<Rightarrow> ret (unhealthy name [] (utf8_take 300 (error_text describe e)))
      | Inr ad \<Rightarrow>
          catch_s (adapter_health nw ad HEALTH_TIMEOUT_S) (\<lambda>e. ret (unhealthy name [] (utf8_take 300 (ex_text e)))))"

text \<open>One after the other; the pool interleaves the probes and keeps the order of their results. Sorting needs names
  that are texts, when there is more than one.\<close>

definition provider_names :: "llm_config \<Rightarrow> llm_error + pyval list" where
  "provider_names cf =
     (case cf_providers cf of
        PDict d \<Rightarrow>
          (if length d \<le> 1 then Inr (map fst d)
           else if list_all (\<lambda>(k, v). case k of PStr _ \<Rightarrow> True | _ \<Rightarrow> False) d then Inr (sort_key py_str (map fst d))
           else Inl (Py_Error ''TypeError''))
      | _ \<Rightarrow> Inl (Py_Error ''TypeError''))"

definition health_check_all ::
  "network \<Rightarrow> (string \<Rightarrow> string) \<Rightarrow> llm_settings \<Rightarrow> key_env \<Rightarrow> llm_config \<Rightarrow> pyval list \<Rightarrow> (pyval, provider_health) dict wired" where
  "health_check_all nw describe se ke cf names =
     for_s names [] (\<lambda>name acc. bind_s (probe_provider nw describe se ke cf name) (\<lambda>h. ret (acc @ [(name, h)])))"

text \<open>
  What leaves the process when a model is asked, probed, looked up or warmed: under the air gap, or a policy that
  denies egress, nothing that is not local. And what comes back: an explained failure does not show the key.
\<close>

subsection \<open>The host of a longer URL\<close>

lemma after_scheme_longer:
  "\<exists>r'. filter P (dropWhile Q (u @ CHR ''/'' # r)) = filter P (dropWhile Q u) @ CHR ''/'' # r'"
  if "dropWhile Q u \<noteq> []" "P CHR ''/''"
proof -
  from that(1) have "dropWhile Q (u @ CHR ''/'' # r) = dropWhile Q u @ CHR ''/'' # r" by (induction u) auto
  with that(2) show ?thesis by auto
qed

lemma takeWhile_to: "x \<notin> set a \<Longrightarrow> takeWhile (\<lambda>c. c \<noteq> x) (a @ x # b) = a"
  by (induction a) auto

lemma takeWhile_all: "x \<notin> set a \<Longrightarrow> takeWhile (\<lambda>c. c \<noteq> x) a = a"
  by (induction a) auto

lemma takeWhile_over: "x \<notin> set a \<Longrightarrow> takeWhile (\<lambda>c. c \<noteq> x) (a @ b) = a @ takeWhile (\<lambda>c. c \<noteq> x) b"
  by (induction a) auto

lemma after_scheme_append: "after_scheme (t @ CHR ''/'' # r) = after_scheme t @ CHR ''/'' # r"
proof (cases "CHR '':'' \<in> set t")
  case True
  then obtain a b where t: "t = a @ CHR '':'' # b" "CHR '':'' \<notin> set a" by (meson split_list_first)
  from takeWhile_to [OF t(2)] show ?thesis unfolding after_scheme_def t(1) Let_def append_assoc append_Cons by simp
next
  case False
  note pre = takeWhile_all [OF False]
  note takeWhile_over [OF False, of "CHR ''/'' # r"]
  then have "\<not> list_all scheme_char (takeWhile (\<lambda>c. c \<noteq> CHR '':'') (t @ CHR ''/'' # r))"
    by (simp add: scheme_char_def is_letter_def is_upper_def is_lower_def is_digit_def)
  then show ?thesis unfolding after_scheme_def Let_def pre by simp
qed

lemma url_netloc_longer:
  assumes "url_netloc u \<noteq> []"
  shows "url_netloc (u @ CHR ''/'' # r) = url_netloc u"
proof -
  let ?P = "\<lambda>c. c \<notin> {CHR 0x09, CHR 0x0A, CHR 0x0D}"
  let ?Q = "\<lambda>c. (of_char c :: nat) \<le> 32"
  let ?S = "\<lambda>c. c \<notin> {CHR ''/'', CHR ''?'', CHR ''#''}"
  let ?rest = "after_scheme (filter ?P (dropWhile ?Q u))"
  from assms have rest: "starts_with ''//'' ?rest" "url_netloc u = takeWhile ?S (drop 2 ?rest)"
    unfolding url_netloc_def Let_def by (simp_all split: if_splits)
  have "dropWhile ?Q u \<noteq> []"
  proof
    assume "dropWhile ?Q u = []"
    then have "?rest = []" by (simp only: filter.simps after_scheme_def Let_def takeWhile.simps list.size) simp
    with rest(1) show False by simp
  qed
  from after_scheme_longer [OF this, of ?P] obtain r' where
    "filter ?P (dropWhile ?Q (u @ CHR ''/'' # r)) = filter ?P (dropWhile ?Q u) @ CHR ''/'' # r'" by auto
  then have long: "after_scheme (filter ?P (dropWhile ?Q (u @ CHR ''/'' # r))) = ?rest @ CHR ''/'' # r'"
    by (simp only: after_scheme_append)
  from rest(1) obtain z where z: "?rest = ''//'' @ z" by (auto simp only: starts_with_append)
  have "takeWhile ?S (z @ CHR ''/'' # r') = takeWhile ?S z" by (induction z) auto
  then show ?thesis
    unfolding url_netloc_def [of "u @ CHR ''/'' # r"] Let_def long rest(2) z by simp
qed

lemma guard_check_longer:
  assumes "guard_check net g u = Inr ()"
  shows "guard_check net g (u @ CHR ''/'' # r) = Inr ()"
proof -
  from assms obtain host where host: "url_host net u = Inr host" "host \<noteq> []" by (auto simp: guard_check_iff)
  have "url_netloc u \<noteq> []"
  proof
    assume "url_netloc u = []"
    with host show False by (simp add: url_host_def after_at_def zone_lower_def py_lower_def Let_def)
  qed
  from url_netloc_longer [OF this] have "url_host net (u @ CHR ''/'' # r) = url_host net u"
    by (simp only: url_host_def)
  with assms show ?thesis by (simp only: guard_check_iff)
qed

subsection \<open>Every contact was permitted\<close>

definition permitted :: "net_env \<Rightarrow> adapter \<Rightarrow> contact \<Rightarrow> bool" where
  "permitted net ad c =
     (case c of
        Http_Get u hs t \<Rightarrow> guard_check net (bp_guard (ad_built ad)) u = Inr ()
      | Http_Post u p t \<Rightarrow> guard_check net (bp_guard (ad_built ad)) u = Inr ()
      | Litellm_Call m (Some u) k ms opts \<Rightarrow> guard_check net (bp_guard (ad_built ad)) u = Inr ()
      | Litellm_Call m None k ms opts \<Rightarrow>
          bp_declared_local (ad_built ad) \<or> check_remote_allowed (bp_guard (ad_built ad)) m = Inr ())"

definition watched :: "contact set \<Rightarrow> net_env \<Rightarrow> adapter \<Rightarrow> llm_wire \<Rightarrow> bool" where
  "watched old net ad w \<longleftrightarrow> (\<forall>c \<in> set (lw_log w). c \<in> old \<or> permitted net ad c)"

lemma http_watched: "permitted net ad c \<Longrightarrow> keeps (watched old net ad) (http nw c)"
  by (rule keepsI) (simp add: http_def contacted_def watched_def)

lemma litellm_watched: "permitted net ad c \<Longrightarrow> keeps (watched old net ad) (litellm nw c)"
  by (rule keepsI) (simp add: litellm_def contacted_def watched_def)

lemma guarded_watched: "(v = Inr () \<Longrightarrow> keeps I m) \<Longrightarrow> keeps I (bind_s (guarded v) (\<lambda>_. m))"
  by (cases v) (auto simp: guarded_def keeps_def triple_def bind_s_def lift_e_def)

lemma took_watched: "keeps I (last_took nw)"
  unfolding last_took_def by (rule keeps_reads)

lemmas watched_rules = triple_rules took_watched

lemma post_watched: "keeps (watched old (nw_net nw) ad) (ollama_post nw ad path payload timeout)"
  unfolding ollama_post_def Let_def by (intro guarded_watched http_watched) (simp add: permitted_def)

lemma complete_ollama_watched: "keeps (watched old (nw_net nw) ad) (ollama_complete nw ad rq)"
  unfolding ollama_complete_def by (intro watched_rules post_watched)

lemma capabilities_watched: "keeps (watched old (nw_net nw) ad) (ollama_capabilities nw ad)"
  unfolding ollama_capabilities_def Let_def by (intro watched_rules post_watched) (simp_all add: watched_def)

lemma warm_watched: "keeps (watched old (nw_net nw) ad) (warm nw ad timeout)"
  unfolding warm_def by (intro watched_rules post_watched)

lemma health_ollama_watched: "keeps (watched old (nw_net nw) ad) (ollama_health nw ad timeout)"
proof (cases "guard_check (nw_net nw) (bp_guard (ad_built ad)) (bp_base_url (ad_built ad))")
  case (Inr u)
  then have "permitted (nw_net nw) ad (Http_Get (bp_base_url (ad_built ad) @ ''/api/tags'') [] timeout)"
    using guard_check_longer [of "nw_net nw" _ "bp_base_url (ad_built ad)" "''api/tags''"] by (simp add: permitted_def)
  then show ?thesis unfolding ollama_health_def Let_def Inr by (auto intro!: watched_rules http_watched)
qed (simp add: ollama_health_def keeps_ret)

lemma call_permitted:
  assumes "check_call (nw_net nw) (ad_built ad) = Inr ()" "\<not> bp_ollama (ad_built ad)"
  shows "permitted (nw_net nw) ad (litellm_call ad ms opts)"
  using assms by (auto simp: permitted_def litellm_call_def text_or_none_def check_call_def call_url_def model_text_def split: if_splits)

lemma list_models_watched:
  assumes "check_call (nw_net nw) (ad_built ad) = Inr ()" "\<not> bp_ollama (ad_built ad)"
  shows "keeps (watched old (nw_net nw) ad) (list_models nw ad timeout)"
proof (cases "bp_base_url (ad_built ad) = []")
  case False
  with assms have "guard_check (nw_net nw) (bp_guard (ad_built ad)) (bp_base_url (ad_built ad)) = Inr ()"
    by (simp add: check_call_def call_url_def)
  from guard_check_longer [OF this, of "''models''"]
  have "permitted (nw_net nw) ad (Http_Get (bp_base_url (ad_built ad) @ ''/models'') hs timeout)" for hs
    by (simp add: permitted_def)
  with False show ?thesis unfolding list_models_def Let_def by (auto intro!: watched_rules http_watched)
qed (simp add: list_models_def keeps_ret)

lemma health_litellm_watched:
  assumes "\<not> bp_ollama (ad_built ad)"
  shows "keeps (watched old (nw_net nw) ad) (litellm_health nw ad timeout)"
proof (cases "check_call (nw_net nw) (ad_built ad)")
  case (Inr u)
  then have call: "check_call (nw_net nw) (ad_built ad) = Inr ()" by simp
  show ?thesis unfolding litellm_health_def Let_def Inr
    using assms call by (auto intro!: watched_rules litellm_watched call_permitted list_models_watched)
qed (simp add: litellm_health_def keeps_ret)

lemma complete_litellm_watched:
  assumes "\<not> bp_ollama (ad_built ad)"
  shows "keeps (watched old (nw_net nw) ad) (litellm_complete nw ad rq)"
  unfolding litellm_complete_def check_egress_def
  using assms by (intro guarded_watched) (auto intro!: watched_rules litellm_watched call_permitted)

subsection \<open>Any use of an adapter\<close>

datatype adapter_use = Ask chat_request | Probe rat | Look_Up | Warm_Up rat

text \<open>A caller uses the adapter whatever the last use ended with; only an Ollama adapter can be warmed.\<close>

definition serve :: "network \<Rightarrow> adapter \<Rightarrow> adapter_use \<Rightarrow> unit wired" where
  "serve nw ad use =
     (case use of
        Ask rq \<Rightarrow> bind_s (attempt (complete nw ad rq)) (\<lambda>_. ret ())
      | Probe t \<Rightarrow> bind_s (attempt (adapter_health nw ad t)) (\<lambda>_. ret ())
      | Look_Up \<Rightarrow> bind_s (attempt (adapter_capabilities nw ad)) (\<lambda>_. ret ())
      | Warm_Up t \<Rightarrow> if bp_ollama (ad_built ad) then bind_s (warm nw ad t) (\<lambda>_. ret ()) else ret ())"

definition serve_all :: "network \<Rightarrow> adapter \<Rightarrow> adapter_use list \<Rightarrow> unit wired" where
  "serve_all nw ad uses = for_s uses () (\<lambda>use _. serve nw ad use)"

lemma serve_watched: "keeps (watched old (nw_net nw) ad) (serve nw ad use)"
  by (cases "bp_ollama (ad_built ad)"; cases use)
    (auto simp: serve_def complete_def adapter_health_def adapter_capabilities_def
      intro!: triple_rules complete_ollama_watched complete_litellm_watched health_ollama_watched health_litellm_watched
        capabilities_watched warm_watched)

definition local_url :: "net_env \<Rightarrow> string \<Rightarrow> bool" where
  "local_url net u \<longleftrightarrow> (case url_host net u of Inr host \<Rightarrow> is_local_host net host | Inl _ \<Rightarrow> False)"

definition stays_local :: "net_env \<Rightarrow> bool \<Rightarrow> contact \<Rightarrow> bool" where
  "stays_local net declared c =
     (case c of
        Http_Get u hs t \<Rightarrow> local_url net u
      | Http_Post u p t \<Rightarrow> local_url net u
      | Litellm_Call m (Some u) k ms opts \<Rightarrow> local_url net u
      | Litellm_Call m None k ms opts \<Rightarrow> declared)"

lemma permitted_local:
  assumes "permitted net ad c" "eg_air_gapped (bp_guard (ad_built ad)) \<or> \<not> eg_allow (bp_guard (ad_built ad))"
  shows "stays_local net (bp_declared_local (ad_built ad)) c"
  using assms
  by (auto simp: permitted_def stays_local_def local_url_def guard_check_iff check_remote_iff split: contact.splits option.splits)

lemma built_guard:
  assumes "build_adapter net se ke cf name = Inr ad"
  shows "bp_guard (ad_built ad) = build_guard cf (se_air_gapped se)"
proof -
  from assms obtain bp where bp: "build_provider net se ke cf name = Inr bp" "ad_built ad = bp"
    by (cases "build_provider net se ke cf name") (auto simp: build_adapter_def adapter_of_def)
  from bp(1) have "bp_guard bp = build_guard cf (se_air_gapped se)"
    using build_ollama_fields build_litellm_fields
    by (auto simp: build_provider_def Let_def split: pyval.splits option.splits if_splits)
  with bp(2) show ?thesis by simp
qed


subsection \<open>The key in an error\<close>

lemma utf8_take_prefix: "\<exists>rest. t = utf8_take n t @ rest"
proof -
  have "t = concat (take n (utf8_chars t) @ drop n (utf8_chars t))" by simp
  then show ?thesis unfolding utf8_take_def by (metis concat_append)
qed

lemma contains_utf8_take: "contains k (utf8_take n t) \<Longrightarrow> contains k t"
  using utf8_take_prefix [of t n] by (metis append.assoc contains_iff)

text \<open>What the settings page shows of a failed probe does not contain the key, however often the provider's
  error repeats it: for a key without stars, colons and blanks that is no part of a hint.\<close>

lemma explained_failure_hides_key:
  assumes "k \<noteq> []" "CHR ''*'' \<notin> set k" "CHR '':'' \<notin> set k" "CHR '' '' \<notin> set k"
    and "list_all (\<lambda>(_, hint). \<not> contains k hint) FAILURE_HINTS"
  shows "\<not> contains k (explain_failure e (Some k))"
proof -
  have "\<not> contains k (hidden_key (Some k) (ex_text e))"
    unfolding hidden_key_def using masked_absent_cut [of k "''***''" "ex_text e"] assms(1,2) by auto
  then have cut: "\<not> contains k (utf8_take n (hidden_key (Some k) (ex_text e)))" for n
    using contains_utf8_take by blast
  show ?thesis
  proof (cases "map_of FAILURE_HINTS (ex_name e)")
    case None
    with cut show ?thesis by (simp add: explain_failure_def)
  next
    case (Some hint)
    then have "\<not> contains k hint" using assms(5) by (auto simp: list_all_iff dest: map_of_SomeD)
    with cut [of 300] have "\<not> contains k (hint @ '': '' @ utf8_take 300 (hidden_key (Some k) (ex_text e)))"
      using contains_cut [of "'': ''" k hint] assms(1,3,4) by auto
    with Some show ?thesis by (simp add: explain_failure_def)
  qed
qed

text \<open>A question does not hide it: the exception of the library reaches the caller as it is, and the record of the
  call keeps its text.\<close>

lemma failed_question_shows_key:
  assumes "\<not> bp_ollama (ad_built ad)" "check_call (nw_net nw) (ad_built ad) = Inr ()"
    and "\<And>n c. nw_litellm nw n c = Inl (py_exn ''AuthenticationError'' (''Incorrect API key provided: '' @ k))"
  shows "fst (complete nw ad rq w) = Inl (py_exn ''AuthenticationError'' (''Incorrect API key provided: '' @ k))"
  using assms by (simp add: complete_def litellm_complete_def check_egress_def guarded_def eff_simps litellm_def)

subsection \<open>Capabilities\<close>

text \<open>An Ollama adapter looks its model up once.\<close>

lemma capabilities_asked_once:
  assumes "ollama_capabilities nw ad w = (r, w1)"
  shows "ollama_capabilities nw ad w1 = (r, w1) \<and> (\<exists>caps. r = Inr caps)"
proof (cases "lw_capabilities w")
  case None
  with assms show ?thesis
    by (auto simp: ollama_capabilities_def eff_simps Let_def split: prod.splits sum.splits)
next
  case (Some c)
  with assms show ?thesis by (auto simp: ollama_capabilities_def eff_simps)
qed

subsection \<open>Witness\<close>

definition quiet_network :: network where
  "quiet_network = \<lparr>nw_net = no_net, nw_http = (\<lambda>_ _. Inr (PDict [])), nw_litellm = (\<lambda>_ _. Inl (py_exn ''Timeout'' [])),
     nw_model_info = (\<lambda>_. Inl (py_exn ''Exception'' [])), nw_took = (\<lambda>_. 0), nw_show_float = (\<lambda>_. ''0.0'')\<rparr>"

definition idle_wire :: llm_wire where
  "idle_wire = \<lparr>lw_log = [], lw_capabilities = None\<rparr>"

definition local_adapter :: adapter where
  "local_adapter = \<lparr>ad_built = local_built, ad_num_ctx = PNone, ad_context_window = 128000, ad_max_output_tokens = 8192\<rparr>"

lemma local_adapter_builds:
  "build_adapter no_net closed_settings no_keys local_config (PStr ''p'') = Inr local_adapter"
  by (simp add: build_adapter_def build_provider_def build_ollama_def local_config_def local_spec_def local_built_def
      dict_simps spec_model_def rstrip_slash_def closed_settings_def adapter_of_def spec_of_def local_adapter_def)

lemma local_adapter_probes:
  "lw_log (snd (serve_all quiet_network local_adapter [Probe 5] idle_wire)) = [Http_Get ''http://10.0.0.1/api/tags'' [] 5]"
proof -
  have "guard_check no_net (build_guard local_config True) ''http://10.0.0.1'' = Inr ()"
    using local_url by (auto simp: guard_check_def)
  then show ?thesis
    by (simp add: serve_all_def serve_def adapter_health_def ollama_health_def local_adapter_def local_built_def quiet_network_def
        eff_simps http_def contacted_def idle_wire_def tag_names_def dict_with_def iterated_def py_iter_def dict_simps last_took_def
        model_text_def unhealthy_def Let_def)
qed


end
