(* ===== verification/Rules_Loader.thy ===== *)
theory Rules_Loader
  imports Rules_Scanner Policy_Loader Py_Json
begin

text \<open>
  Loading a rule pack (\<open>core/rules/loader.py\<close>): the rule files of a directory, sorted by name, hashed and read as
  YAML, every entry built into a rule; the version and the corpus of false positives beside them.
  \<open>yaml.safe_load\<close>, \<open>re.compile\<close> with its two uses, SHA-256 and \<open>float\<close> of a text are parameters. A malformed rule is a
  \<open>RuleLoadError\<close>; an exception the loader does not turn into one goes through under its own name. A document whose
  texts are not texts (an id that is a number) is loaded by the program as it is and has no model: \<open>Untyped\<close>.
\<close>

datatype load_failure = Rule_Load_Error string | Uncaught_Load string | Untyped

record compiled =
  cm_finditer :: "pyval \<Rightarrow> string \<Rightarrow> rmatch list"
  cm_search :: "string \<Rightarrow> bool"

record loader_env =
  ld_yaml :: "string \<Rightarrow> pyval option"
  ld_compile :: "string \<Rightarrow> string + compiled"
  ld_float :: "string \<Rightarrow> rat option"
  ld_sha :: "string \<Rightarrow> string"

text \<open>A directory: its regular files by name.\<close>

record pack_dir =
  pd_is_dir :: bool
  pd_files :: "(string \<times> bytes) list"

definition FP_CORPUS_FILE :: string where "FP_CORPUS_FILE = ''false_positives.yaml''"

definition rule_files :: "pack_dir \<Rightarrow> (string \<times> bytes) list" where
  "rule_files dir = sort_key fst (filter (\<lambda>(n, _). ends_with ''.yaml'' n \<and> n \<noteq> FP_CORPUS_FILE) (pd_files dir))"

subsection \<open>Documents\<close>

definition raw_text :: "bytes \<Rightarrow> string" where
  "raw_text raw = map byte_char raw"

definition decode_utf8 :: "bytes \<Rightarrow> load_failure + string" where
  "decode_utf8 raw = (if valid_utf8 raw then Inr (raw_text raw) else Inl (Uncaught_Load ''UnicodeDecodeError''))"

fun text_mode :: "string \<Rightarrow> string" where
  "text_mode [] = []"
| "text_mode (c # cs) =
     (if c = CHR 0x0D
      then CHR 0x0A # (case cs of d # ds \<Rightarrow> if d = CHR 0x0A then text_mode ds else text_mode cs | [] \<Rightarrow> [])
      else c # text_mode cs)"

definition pack_document :: "loader_env \<Rightarrow> string \<Rightarrow> load_failure + (pyval \<times> pyval) list" where
  "pack_document env t =
     (case ld_yaml env t of
        None \<Rightarrow> Inl (Uncaught_Load ''YAMLError'')
      | Some v \<Rightarrow> (case (if py_truthy v then v else PDict []) of PDict d \<Rightarrow> Inr d | _ \<Rightarrow> Inl (Uncaught_Load ''AttributeError'')))"

definition load_iter :: "pyval \<Rightarrow> load_failure + pyval list" where
  "load_iter v = map_sum Uncaught_Load id (py_iter v)"

definition pack_text :: "pyval \<Rightarrow> load_failure + string" where
  "pack_text v = (case v of PStr s \<Rightarrow> Inr s | _ \<Rightarrow> Inl Untyped)"

definition load_texts :: "pyval \<Rightarrow> load_failure + string list" where
  "load_texts v = bind_e (load_iter v) (map_e pack_text)"

text \<open>\<open>value.strip()\<close>.\<close>

definition load_strip :: "pyval \<Rightarrow> load_failure + string" where
  "load_strip v = (case v of PStr s \<Rightarrow> Inr (py_strip s) | _ \<Rightarrow> Inl (Uncaught_Load ''AttributeError''))"

definition load_int :: "pyval \<Rightarrow> load_failure + int" where
  "load_int v = map_sum Uncaught_Load id (int_or_raise v)"

definition load_float :: "loader_env \<Rightarrow> pyval \<Rightarrow> load_failure + rat" where
  "load_float env v = map_sum Uncaught_Load id (float_or_raise (ld_float env) v)"

subsection \<open>One rule\<close>

definition missing_field :: "string \<Rightarrow> string \<Rightarrow> load_failure" where
  "missing_field fname key = Rule_Load_Error (fname @ '': rule missing required field '' @ repr_str key)"

text \<open>\<open>entry[key]\<close> inside the \<open>try\<close>: of what is no mapping it is a \<open>TypeError\<close>, which is not caught.\<close>

definition required :: "string \<Rightarrow> (pyval \<times> pyval) list \<Rightarrow> string \<Rightarrow> load_failure + pyval" where
  "required fname entry key = option_to_e (missing_field fname key) (pd_get entry key)"

definition pack_severity :: "string \<Rightarrow> (pyval \<times> pyval) list \<Rightarrow> pyval \<Rightarrow> load_failure + severity" where
  "pack_severity fname entry v =
     (case (case v of PStr s \<Rightarrow> severity_of s | _ \<Rightarrow> None) of
        Some s \<Rightarrow> Inr s
      | None \<Rightarrow> Inl (Rule_Load_Error (fname @ '': '' @ py_str (pd_get_or entry ''id'' (PStr ''?'')) @ '': ''
                  @ py_repr v @ '' is not a valid Severity'')))"

definition load_pattern :: "loader_env \<Rightarrow> string \<Rightarrow> string \<Rightarrow> pyval \<Rightarrow> load_failure + pattern" where
  "load_pattern env fname rule_id raw =
     bind_e (case raw of
               PDict d \<Rightarrow> map_sum id (\<lambda>e. (e, pd_get_or d ''capture'' (PInt 0)))
                 (option_to_e (Uncaught_Load ''KeyError'') (pd_get d ''regex''))
             | _ \<Rightarrow> Inr (raw, PInt 0)) (\<lambda>(expression, capture).
     (case expression of
        PStr e \<Rightarrow>
          (case ld_compile env e of
             Inl m \<Rightarrow> Inl (Rule_Load_Error (fname @ '': '' @ rule_id @ '': invalid regex '' @ repr_str e @ '': '' @ m))
           | Inr c \<Rightarrow> Inr \<lparr>pat_finditer = cm_finditer c capture, pat_source = e\<rparr>)
      | _ \<Rightarrow> Inl (Uncaught_Load ''TypeError'')))"

definition load_reject :: "loader_env \<Rightarrow> string \<Rightarrow> string \<Rightarrow> pyval \<Rightarrow> load_failure + (string \<Rightarrow> bool)" where
  "load_reject env fname rule_id v =
     (case ld_compile env (py_str v) of
        Inl m \<Rightarrow> Inl (Rule_Load_Error (fname @ '': '' @ rule_id @ '': invalid rejects_matching regex '' @ py_repr v @ '': '' @ m))
      | Inr c \<Rightarrow> Inr (cm_search c))"

definition or_default :: "pyval \<Rightarrow> pyval \<Rightarrow> pyval" where
  "or_default v other = (if py_truthy v then v else other)"

text \<open>The last part: \<open>tests\<close> must be a mapping of lists, which the scanner does not use.\<close>

definition check_tests :: "(pyval \<times> pyval) list \<Rightarrow> load_failure + unit" where
  "check_tests entry =
     (case or_default (pd_get_or entry ''tests'' (PDict [])) (PDict []) of
        PDict tests \<Rightarrow>
          bind_e (load_iter (pd_get_or tests ''positive'' (PList []))) (\<lambda>_.
          bind_e (load_iter (pd_get_or tests ''negative'' (PList []))) (\<lambda>_. Inr ()))
      | _ \<Rightarrow> Inl (Uncaught_Load ''AttributeError''))"

definition optional_text :: "pyval \<Rightarrow> load_failure + string option" where
  "optional_text v = (case v of PNone \<Rightarrow> Inr None | PStr s \<Rightarrow> Inr (Some s) | _ \<Rightarrow> Inl Untyped)"

definition window_size :: "int \<Rightarrow> load_failure + nat" where
  "window_size n = (if n < 0 then Inl Untyped else Inr (nat n))"

definition build_rule :: "loader_env \<Rightarrow> string \<Rightarrow> pyval \<Rightarrow> load_failure + rule" where
  "build_rule env fname raw_entry =
     bind_e (case raw_entry of PDict d \<Rightarrow> Inr d | _ \<Rightarrow> Inl (Uncaught_Load ''TypeError'')) (\<lambda>entry.
     let got = pd_get_or entry in
     bind_e (required fname entry ''id'') (\<lambda>raw_id.
     bind_e (required fname entry ''name'') (\<lambda>raw_name.
     bind_e (required fname entry ''category'') (\<lambda>raw_category.
     bind_e (required fname entry ''severity'') (\<lambda>raw_severity.
     bind_e (pack_severity fname entry raw_severity) (\<lambda>severity.
     bind_e (required fname entry ''patterns'') (\<lambda>raw_patterns.
     bind_e (load_iter raw_patterns) (\<lambda>raws.
     bind_e (pack_text raw_id) (\<lambda>rule_id.
     bind_e (map_e (load_pattern env fname rule_id) raws) (\<lambda>patterns.
     bind_e (load_iter (or_default (got ''rejects_matching'' (PList [])) (PList []))) (\<lambda>raw_rejects.
     bind_e (map_e (load_reject env fname rule_id) raw_rejects) (\<lambda>rejects.
     bind_e (pack_text raw_name) (\<lambda>rule_name.
     bind_e (pack_text raw_category) (\<lambda>category.
     bind_e (load_float env (got ''confidence'' (PFloat (1 / 2) ''0.5''))) (\<lambda>confidence.
     bind_e (optional_text (got ''cwe'' PNone)) (\<lambda>cwe.
     bind_e (load_strip (got ''description'' (PStr []))) (\<lambda>description.
     bind_e (load_strip (got ''remediation'' (PStr []))) (\<lambda>remediation.
     bind_e (load_texts (got ''tags'' (PList []))) (\<lambda>tags.
     bind_e (load_float env (got ''min_entropy'' (PFloat 0 ''0.0''))) (\<lambda>min_entropy.
     bind_e (load_int (got ''min_length'' (PInt 0))) (\<lambda>min_length.
     bind_e (load_int (got ''max_length'' (PInt 4096))) (\<lambda>max_length.
     bind_e (load_texts (got ''encodings'' (PList [PStr ''ascii'', PStr ''utf-16le'']))) (\<lambda>encodings.
     bind_e (load_texts (got ''requires_nearby'' (PList []))) (\<lambda>requires_nearby.
     bind_e (bind_e (load_int (got ''nearby_window'' (PInt 120))) window_size) (\<lambda>nearby_window.
     bind_e (check_tests entry) (\<lambda>_.
     Inr \<lparr>ru_id = rule_id, ru_name = rule_name, ru_category = category, ru_severity = severity, ru_patterns = patterns,
          ru_confidence = confidence, ru_cwe = cwe, ru_description = description, ru_remediation = remediation,
          ru_tags = tags, ru_min_entropy = of_rat min_entropy, ru_min_length = min_length, ru_max_length = max_length,
          ru_encodings = encodings, ru_requires_nearby = requires_nearby, ru_nearby_window = nearby_window,
          ru_shape_policy = py_str (got ''shape_policy'' (PStr ''context'')), ru_rejects_matching = rejects,
          ru_require_mixed_case = py_truthy (got ''require_mixed_case'' (PBool False)),
          ru_enabled = py_truthy (got ''enabled'' (PBool True))\<rparr>))))))))))))))))))))))))))"

subsection \<open>The pack\<close>

type_synonym load_state = "rule list \<times> (string, string) dict"

definition duplicate_rule :: "string \<Rightarrow> string \<Rightarrow> string \<Rightarrow> load_failure" where
  "duplicate_rule rule_id fname other =
     Rule_Load_Error (''duplicate rule id '' @ repr_str rule_id @ '' in '' @ fname @ '' (already defined in '' @ other @ '')'')"

definition add_rule :: "string \<Rightarrow> rule \<Rightarrow> load_state \<Rightarrow> load_failure + load_state" where
  "add_rule fname rule st =
     (case st of (rules, seen) \<Rightarrow>
        (case map_of seen (ru_id rule) of
           Some other \<Rightarrow> Inl (duplicate_rule (ru_id rule) fname other)
         | None \<Rightarrow> Inr (rules @ [rule], AList.update (ru_id rule) fname seen)))"

fun load_entries :: "loader_env \<Rightarrow> string \<Rightarrow> pyval list \<Rightarrow> load_state \<Rightarrow> load_failure + load_state" where
  "load_entries env fname [] st = Inr st"
| "load_entries env fname (e # es) st =
     bind_e (build_rule env fname e) (\<lambda>rule. bind_e (add_rule fname rule st) (load_entries env fname es))"

definition file_entries :: "loader_env \<Rightarrow> bytes \<Rightarrow> load_failure + pyval list" where
  "file_entries env raw =
     bind_e (decode_utf8 raw) (\<lambda>t.
     bind_e (pack_document env t) (\<lambda>document. load_iter (pd_get_or document ''rules'' (PList []))))"

fun load_files :: "loader_env \<Rightarrow> (string \<times> bytes) list \<Rightarrow> load_state \<Rightarrow> load_failure + load_state" where
  "load_files env [] st = Inr st"
| "load_files env ((fname, raw) # fs) st =
     bind_e (file_entries env raw) (\<lambda>entries. bind_e (load_entries env fname entries st) (load_files env fs))"

definition read_version :: "pack_dir \<Rightarrow> load_failure + string" where
  "read_version dir =
     (case map_of (pd_files dir) ''VERSION'' of
        Some raw \<Rightarrow> bind_e (decode_utf8 raw) (\<lambda>t. Inr (py_strip (text_mode t)))
      | None \<Rightarrow> Inr ''0.0.0-dev'')"

definition load_false_positives :: "loader_env \<Rightarrow> pack_dir \<Rightarrow> load_failure + string set" where
  "load_false_positives env dir =
     (case map_of (pd_files dir) FP_CORPUS_FILE of
        None \<Rightarrow> Inr {}
      | Some raw \<Rightarrow>
          bind_e (decode_utf8 raw) (\<lambda>t.
          bind_e (pack_document env (text_mode t)) (\<lambda>document.
          (case pd_get_or document ''known_benign'' (PDict []) of
             PDict benign \<Rightarrow> bind_e (map_e load_iter (map snd benign)) (\<lambda>gs. Inr (set (map py_str (concat gs))))
           | _ \<Rightarrow> Inl (Uncaught_Load ''AttributeError'')))))"

text \<open>What is hashed: the names and the contents of the rule files, one after the other.\<close>

definition hashed_text :: "(string \<times> bytes) list \<Rightarrow> string" where
  "hashed_text fs = concat (map (\<lambda>(n, raw). n @ raw_text raw) fs)"

definition load_rule_pack :: "loader_env \<Rightarrow> string \<Rightarrow> pack_dir \<Rightarrow> load_failure + rule_pack" where
  "load_rule_pack env directory dir =
     (if \<not> pd_is_dir dir then Inl (Rule_Load_Error (''rule directory '' @ directory @ '' does not exist''))
      else if rule_files dir = [] then Inl (Rule_Load_Error (''no rule files found in '' @ directory))
      else
        bind_e (load_files env (rule_files dir) ([], [])) (\<lambda>(rules, seen).
        bind_e (read_version dir) (\<lambda>version.
        bind_e (load_false_positives env dir) (\<lambda>benign.
        Inr \<lparr>rp_version = version, rp_rules = rules, rp_hash = ld_sha env (hashed_text (rule_files dir)),
             rp_false_positives = benign\<rparr>))))"

text \<open>
  A rule pack that loads is complete: every entry of every rule file is in it, with all of its patterns, under an id of
  its own, whatever order the directory lists its files in. What its hash covers, and what it does not.
\<close>

subsection \<open>Completeness\<close>

definition pattern_source :: "pyval \<Rightarrow> pyval option" where
  "pattern_source raw = (case raw of PDict d \<Rightarrow> pd_get d ''regex'' | _ \<Rightarrow> Some raw)"

text \<open>The rule is what the entry says: its id, and one pattern for every pattern it lists.\<close>

definition stands_for :: "pyval \<Rightarrow> rule \<Rightarrow> bool" where
  "stands_for e r \<longleftrightarrow>
     (\<exists>d p raws. e = PDict d \<and> pd_get d ''id'' = Some (PStr (ru_id r)) \<and> pd_get d ''patterns'' = Some p
        \<and> py_iter p = Inr raws \<and> map pattern_source raws = map (Some \<circ> PStr \<circ> pat_source) (ru_patterns r))"

lemma load_pattern_source: "load_pattern env f i raw = Inr p \<Longrightarrow> pattern_source raw = Some (PStr (pat_source p))"
  by (cases raw) (auto simp: load_pattern_def pattern_source_def bind_e_Inr_iff option_to_e_def map_sum_def
      split: option.splits pyval.splits sum.splits)

lemma load_patterns_sources:
  "map_e (load_pattern env f i) raws = Inr ps \<Longrightarrow> map pattern_source raws = map (Some \<circ> PStr \<circ> pat_source) ps"
proof (induction raws arbitrary: ps)
  case (Cons raw raws)
  then obtain p ps' where "load_pattern env f i raw = Inr p" "map_e (load_pattern env f i) raws = Inr ps'" "ps = p # ps'"
    by (auto simp: bind_e_Inr_iff)
  with Cons.IH load_pattern_source show ?case by simp
qed simp

lemma load_text_Inr: "pack_text v = Inr s \<longleftrightarrow> v = PStr s"
  by (cases v) (auto simp: pack_text_def)

lemma load_iter_Inr: "load_iter v = Inr xs \<longleftrightarrow> py_iter v = Inr xs"
  by (cases "py_iter v") (auto simp: load_iter_def)

lemma required_Inr: "required f d k = Inr v \<longleftrightarrow> pd_get d k = Some v"
  by (cases "pd_get d k") (auto simp: required_def option_to_e_def)

lemma build_rule_stands:
  assumes "build_rule env f e = Inr r"
  shows "stands_for e r"
proof -
  obtain d where e: "e = PDict d" using assms by (cases e) (auto simp: build_rule_def bind_e_def)
  from assms obtain i p raws ps where "pd_get d ''id'' = Some (PStr i)" "pd_get d ''patterns'' = Some p" "py_iter p = Inr raws"
      "map_e (load_pattern env f i) raws = Inr ps" "ru_id r = i" "ru_patterns r = ps"
    unfolding build_rule_def e by (auto simp: bind_e_Inr_iff Let_def required_Inr load_text_Inr load_iter_Inr)
  with load_patterns_sources show ?thesis unfolding stands_for_def e by blast
qed

lemma add_rule_Inr:
  "add_rule f r (rules, seen) = Inr st \<longleftrightarrow> map_of seen (ru_id r) = None \<and> st = (rules @ [r], AList.update (ru_id r) f seen)"
  by (auto simp: add_rule_def split: option.split)

text \<open>What the loop keeps: the ids seen are those of the rules, each once.\<close>

definition ids_seen :: "load_state \<Rightarrow> bool" where
  "ids_seen st \<longleftrightarrow> set (map fst (snd st)) = set (map ru_id (fst st)) \<and> distinct (map ru_id (fst st))"

lemma load_entries_builds:
  "load_entries env f es st = Inr st' \<Longrightarrow> ids_seen st \<Longrightarrow>
     ids_seen st' \<and> (\<exists>new. fst st' = fst st @ new \<and> list_all2 stands_for es new)"
proof (induction es arbitrary: st)
  case (Cons e es)
  obtain rules seen where st: "st = (rules, seen)" by (cases st)
  from Cons.prems(1) obtain r st1 where r: "build_rule env f e = Inr r" "add_rule f r st = Inr st1" "load_entries env f es st1 = Inr st'"
    by (auto simp: bind_e_Inr_iff)
  have st1: "map_of seen (ru_id r) = None" "st1 = (rules @ [r], AList.update (ru_id r) f seen)"
    using r(2) unfolding st add_rule_Inr by simp_all
  have "ids_seen st1" using Cons.prems(2) st1(1) unfolding st st1(2) by (auto simp: ids_seen_def ad.keys_put map_of_eq_None_iff)
  from Cons.IH [OF r(3) this] obtain new where "ids_seen st'" "fst st' = fst st1 @ new" "list_all2 stands_for es new" by blast
  with build_rule_stands [OF r(1)] show ?case by (auto simp: st st1(2) intro!: exI [of _ "r # new"])
qed simp

lemma load_files_builds:
  "load_files env fs st = Inr st' \<Longrightarrow> ids_seen st \<Longrightarrow>
     ids_seen st' \<and> (\<exists>ess new. map_e (\<lambda>(n, raw). file_entries env raw) fs = Inr ess
        \<and> fst st' = fst st @ new \<and> list_all2 stands_for (concat ess) new)"
proof (induction fs arbitrary: st)
  case (Cons p fs)
  obtain n raw where p: "p = (n, raw)" by (cases p)
  from Cons.prems(1) obtain es st1 where es: "file_entries env raw = Inr es" "load_entries env n es st = Inr st1"
      "load_files env fs st1 = Inr st'"
    unfolding p by (auto simp: bind_e_Inr_iff)
  from load_entries_builds [OF es(2) Cons.prems(2)] obtain new where new: "ids_seen st1" "fst st1 = fst st @ new"
      "list_all2 stands_for es new" by blast
  from Cons.IH [OF es(3) new(1)] obtain ess new' where "ids_seen st'" "map_e (\<lambda>(n, raw). file_entries env raw) fs = Inr ess"
      "fst st' = fst st1 @ new'" "list_all2 stands_for (concat ess) new'" by blast
  with es(1) new show ?case
    by (auto simp: p bind_e_Inr_iff list_all2_appendI intro!: exI [of _ "es # ess"] exI [of _ "new @ new'"])
qed simp

text \<open>C36: No rule is dropped. If a pack loads, it has one rule for every entry of every rule file, in the order of the
  file names and then of the entries, each with the entry's own id and with every pattern the entry lists, and no two
  rules share an id; otherwise loading fails. A scan cannot silently miss a class of secrets because a file was
  half-read.\<close>

theorem rule_pack_is_complete:
  assumes "load_rule_pack env directory dir = Inr pack"
  shows "\<exists>ess. map_e (\<lambda>(n, raw). file_entries env raw) (rule_files dir) = Inr ess
    \<and> list_all2 stands_for (concat ess) (rp_rules pack) \<and> distinct (map ru_id (rp_rules pack))"
proof -
  from assms obtain rules seen where load: "load_files env (rule_files dir) ([], []) = Inr (rules, seen)" "rp_rules pack = rules"
    unfolding load_rule_pack_def by (auto simp: bind_e_Inr_iff split: if_splits)
  from load_files_builds [OF load(1)] show ?thesis by (auto simp: ids_seen_def load(2))
qed

definition tiny_entry :: "string \<Rightarrow> pyval" where
  "tiny_entry i = PDict [(PStr ''id'', PStr i), (PStr ''name'', PStr ''n''), (PStr ''category'', PStr ''c''),
     (PStr ''severity'', PStr ''high''), (PStr ''patterns'', PList [PStr ''k.y'', PDict [(PStr ''regex'', PStr ''z'')]])]"

text \<open>A reader for three documents.\<close>

definition tiny_env :: loader_env where
  "tiny_env = \<lparr>ld_yaml = (\<lambda>t. Some (
       if t = ''a'' then PDict [(PStr ''rules'', PList [tiny_entry ''r1''])]
       else if t = ''b'' then PDict [(PStr ''rules'', PList [tiny_entry ''r2''])]
       else if t = ''f'' then PDict [(PStr ''known_benign'', PDict [(PStr ''g'', PList [PStr ''AKIA''])])]
       else PNone)),
     ld_compile = (\<lambda>e. Inr \<lparr>cm_finditer = (\<lambda>_ _. []), cm_search = (\<lambda>_. False)\<rparr>), ld_float = (\<lambda>_. None), ld_sha = id\<rparr>"

lemma tiny_rule: "\<exists>r. build_rule tiny_env f (tiny_entry i) = Inr r \<and> ru_id r = i"
  by (simp add: build_rule_def tiny_entry_def Let_def dict_simps required_def option_to_e_def pack_severity_def severity_of_def
      load_iter_def py_iter_def pack_text_def load_pattern_def tiny_env_def or_default_def load_float_def float_or_raise_def
      optional_text_def load_strip_def load_texts_def load_int_def int_or_raise_def window_size_def check_tests_def bind_e_def)

definition tiny_dir :: "(string \<times> bytes) list \<Rightarrow> pack_dir" where
  "tiny_dir extra = \<lparr>pd_is_dir = True, pd_files = [(''b.yaml'', [98]), (''a.yaml'', [97])] @ extra\<rparr>"

lemma tiny_files: "rule_files (tiny_dir []) = [(''a.yaml'', [97]), (''b.yaml'', [98])]"
    "rule_files (tiny_dir [(FP_CORPUS_FILE, raw)]) = [(''a.yaml'', [97]), (''b.yaml'', [98])]"
  by (simp_all add: rule_files_def tiny_dir_def ends_with_def FP_CORPUS_FILE_def)

lemma tiny_texts: "raw_text [97] = ''a''" "raw_text [98] = ''b''" "raw_text [102] = ''f''" "raw_text [49] = ''1''"
  by (simp_all add: raw_text_def byte_char_def char_of_def bit_simps)

lemma tiny_entries: "file_entries tiny_env [97] = Inr [tiny_entry ''r1'']" "file_entries tiny_env [98] = Inr [tiny_entry ''r2'']"
  by (simp_all add: file_entries_def decode_utf8_def tiny_texts pack_document_def tiny_env_def dict_simps load_iter_def
      py_iter_def bind_e_def)

lemma tiny_loads:
  obtains r1 r2 where "load_files tiny_env [(''a.yaml'', [97]), (''b.yaml'', [98])] ([], []) =
      Inr ([r1, r2], [(''r1'', ''a.yaml''), (''r2'', ''b.yaml'')])" "ru_id r1 = ''r1''" "ru_id r2 = ''r2''"
proof -
  obtain r1 r2 where r: "build_rule tiny_env ''a.yaml'' (tiny_entry ''r1'') = Inr r1" "ru_id r1 = ''r1''"
      "build_rule tiny_env ''b.yaml'' (tiny_entry ''r2'') = Inr r2" "ru_id r2 = ''r2''"
    using tiny_rule by metis
  then show thesis by (intro that [of r1 r2]) (simp_all add: tiny_entries bind_e_def add_rule_def)
qed

lemma tiny_beside:
  "load_false_positives tiny_env (tiny_dir [(FP_CORPUS_FILE, [102])]) = Inr {''AKIA''}"
  "load_false_positives tiny_env (tiny_dir []) = Inr {}" "pd_is_dir (tiny_dir xs)"
  "read_version (tiny_dir [(FP_CORPUS_FILE, [102])]) = Inr ''0.0.0-dev''" "read_version (tiny_dir []) = Inr ''0.0.0-dev''"
  by (simp_all add: load_false_positives_def read_version_def tiny_dir_def FP_CORPUS_FILE_def decode_utf8_def tiny_texts
      bind_e_def pack_document_def tiny_env_def dict_simps load_iter_def py_iter_def)

theorem rule_pack_is_complete_witness:
  "\<exists>pack. load_rule_pack tiny_env ''d'' (tiny_dir []) = Inr pack \<and> map ru_id (rp_rules pack) = [''r1'', ''r2'']
     \<and> distinct (map ru_id (rp_rules pack))"
proof -
  obtain r1 r2 where r: "load_files tiny_env [(''a.yaml'', [97]), (''b.yaml'', [98])] ([], []) =
      Inr ([r1, r2], [(''r1'', ''a.yaml''), (''r2'', ''b.yaml'')])" "ru_id r1 = ''r1''" "ru_id r2 = ''r2''" by (rule tiny_loads)
  then obtain pack where pack: "load_rule_pack tiny_env ''d'' (tiny_dir []) = Inr pack" "rp_rules pack = [r1, r2]"
    by (simp add: load_rule_pack_def tiny_files tiny_beside del: load_files.simps)
  from rule_pack_is_complete [OF pack(1)] pack r show ?thesis by auto
qed

subsection \<open>The order of the directory\<close>

interpretation file_order: canonical_sort "fst :: string \<times> bytes \<Rightarrow> string" fst
  by unfold_locales simp

lemma directory_order_irrelevant:
  assumes "mset (pd_files dir) = mset (pd_files dir')" "distinct (map fst (pd_files dir))" "pd_is_dir dir = pd_is_dir dir'"
  shows "load_rule_pack env directory dir = load_rule_pack env directory dir'"
proof -
  let ?P = "\<lambda>(n, _). ends_with ''.yaml'' n \<and> n \<noteq> FP_CORPUS_FILE"
  have "mset (filter ?P (pd_files dir)) = mset (filter ?P (pd_files dir'))" using assms(1) by simp
  from file_order.order_irrelevant [OF this distinct_map_filter [OF assms(2)]]
  have files: "rule_files dir = rule_files dir'" by (simp add: rule_files_def)
  have "distinct (map fst (pd_files dir'))" using assms(1,2) by (metis mset_eq_imp_distinct_iff mset_map)
  then have "map_of (pd_files dir) = map_of (pd_files dir')"
    using map_of_eqI assms(2) mset_eq_setD [OF assms(1)] by (intro ext) (metis assms(2) map_of_eq_Some_iff not_Some_eq)
  then show ?thesis by (simp add: load_rule_pack_def files assms(3) read_version_def load_false_positives_def)
qed

subsection \<open>What the hash covers\<close>

text \<open>Not the corpus of false positives: two packs of one version and one hash filter different values.\<close>

lemma hash_ignores_false_positives:
  "\<exists>p q. load_rule_pack tiny_env ''d'' (tiny_dir []) = Inr p \<and> load_rule_pack tiny_env ''d'' (tiny_dir [(FP_CORPUS_FILE, [102])]) = Inr q
     \<and> to_manifest p = to_manifest q \<and> \<not> is_known_false_positive p ''AKIA'' \<and> is_known_false_positive q ''AKIA''"
proof -
  obtain r1 r2 where r: "load_files tiny_env [(''a.yaml'', [97]), (''b.yaml'', [98])] ([], []) =
      Inr ([r1, r2], [(''r1'', ''a.yaml''), (''r2'', ''b.yaml'')])" "ru_id r1 = ''r1''" "ru_id r2 = ''r2''" by (rule tiny_loads)
  then show ?thesis
    by (simp add: load_rule_pack_def tiny_files tiny_beside to_manifest_def enabled_rules_def is_known_false_positive_def
        py_strip_def py_space_def del: load_files.simps)
qed

text \<open>Nor where one file ends: names and contents are hashed without a separator.\<close>

lemma hash_has_no_separator:
  "hashed_text [(''a.yaml'', xs), (''b.yaml'', ys)] = hashed_text [(''a.yaml'', xs @ [98, 46, 121, 97, 109, 108] @ ys)]"
  by (simp add: hashed_text_def raw_text_def byte_char_def char_of_def bit_simps)

end
