(* ===== verification/Settings_Api.thy ===== *)
theory Settings_Api
  imports Llm_Adapters Rules_Loader Py_Dict
begin

text \<open>
  The settings endpoints (\<open>api/routers/settings.py\<close>): what is configured and whether it answers, changes to the
  routing, and the wizard that connects a provider. The state is the runtime copy of the configuration, the key
  store, and what was contacted. Whether a file can be written is a parameter; an exception that no handler turns
  into a response is a crash, by its name.
\<close>

text \<open>
  The providers the setup wizard offers (\<open>core/llm/catalog.py\<close>): one definition per row of the table.
\<close>

record catalog_entry =
  ce_id :: string
  ce_label :: string
  ce_kind :: string
  ce_base_url :: string
  ce_default_model :: string
  ce_requires_key :: bool
  ce_is_local :: bool
  ce_summary :: string
  ce_key_hint :: string
  ce_key_url :: string
  ce_suggested_models :: "string list"
  ce_needs_base_url :: bool

definition catalog_ollama :: catalog_entry where
  "catalog_ollama = \<lparr>ce_id = ''ollama'', ce_label = ''Ollama (local)'', ce_kind = ''ollama'', ce_base_url = ''http://localhost:11434'',
     ce_default_model = ''qwen2.5-coder:7b-instruct-q4_K_M'', ce_requires_key = False, ce_is_local = True,
     ce_summary = ''Runs on your own hardware. Nothing leaves your network, which is the only option that keeps an air-gapped deployment air-gapped.'',
     ce_key_hint = [], ce_key_url = [],
     ce_suggested_models = [''qwen2.5-coder:7b-instruct-q4_K_M'', ''qwen2.5-coder:14b-instruct-q4_K_M'', ''llama3.2:3b''],
     ce_needs_base_url = False\<rparr>"

definition catalog_vllm :: catalog_entry where
  "catalog_vllm = \<lparr>ce_id = ''vllm'', ce_label = ''vLLM / LM Studio (local)'', ce_kind = ''vllm'', ce_base_url = ''http://localhost:8000/v1'',
     ce_default_model = ''hosted_vllm/'', ce_requires_key = False, ce_is_local = True,
     ce_summary = ''Any server that speaks the OpenAI chat API on your own network. Faster than Ollama at volume, and the same privacy position.'',
     ce_key_hint = [], ce_key_url = [],
     ce_suggested_models = [],
     ce_needs_base_url = True\<rparr>"

definition catalog_openai :: catalog_entry where
  "catalog_openai = \<lparr>ce_id = ''openai'', ce_label = ''OpenAI'', ce_kind = ''openai'', ce_base_url = [],
     ce_default_model = ''gpt-4o-mini'', ce_requires_key = True, ce_is_local = False,
     ce_summary = ''Hosted. Fast and inexpensive at triage volume.'',
     ce_key_hint = ''Starts with sk-'', ce_key_url = ''https://platform.openai.com/api-keys'',
     ce_suggested_models = [''gpt-4o-mini'', ''gpt-4o'', ''o4-mini''],
     ce_needs_base_url = False\<rparr>"

definition catalog_anthropic :: catalog_entry where
  "catalog_anthropic = \<lparr>ce_id = ''anthropic'', ce_label = ''Anthropic'', ce_kind = ''anthropic'', ce_base_url = [],
     ce_default_model = ''anthropic/claude-haiku-4-5-20251001'', ce_requires_key = True, ce_is_local = False,
     ce_summary = ''Hosted. Haiku for triage volume, Sonnet for explanations.'',
     ce_key_hint = ''Starts with sk-ant-'', ce_key_url = ''https://console.anthropic.com/settings/keys'',
     ce_suggested_models = [''anthropic/claude-haiku-4-5-20251001'', ''anthropic/claude-sonnet-4-5-20250929''],
     ce_needs_base_url = False\<rparr>"

definition catalog_gemini :: catalog_entry where
  "catalog_gemini = \<lparr>ce_id = ''gemini'', ce_label = ''Google Gemini'', ce_kind = ''gemini'', ce_base_url = [],
     ce_default_model = ''gemini/gemini-2.0-flash'', ce_requires_key = True, ce_is_local = False,
     ce_summary = ''Hosted. Flash models are well suited to triage volume.'',
     ce_key_hint = [], ce_key_url = ''https://aistudio.google.com/apikey'',
     ce_suggested_models = [''gemini/gemini-2.0-flash'', ''gemini/gemini-2.5-flash''],
     ce_needs_base_url = False\<rparr>"

definition catalog_azure :: catalog_entry where
  "catalog_azure = \<lparr>ce_id = ''azure'', ce_label = ''Azure OpenAI'', ce_kind = ''azure'', ce_base_url = [],
     ce_default_model = ''azure/<your-deployment-name>'', ce_requires_key = True, ce_is_local = False,
     ce_summary = ''Hosted in your own Azure tenant. The model is your deployment name; the endpoint is your resource URL.'',
     ce_key_hint = ''Your Azure OpenAI key'', ce_key_url = [],
     ce_suggested_models = [],
     ce_needs_base_url = True\<rparr>"

definition catalog_bedrock :: catalog_entry where
  "catalog_bedrock = \<lparr>ce_id = ''bedrock'', ce_label = ''AWS Bedrock'', ce_kind = ''bedrock'', ce_base_url = [],
     ce_default_model = ''bedrock/anthropic.claude-3-5-haiku-20241022-v1:0'', ce_requires_key = True, ce_is_local = False,
     ce_summary = (''Hosted in your own AWS account. Authenticates with AWS credentials rather than a bearer token '' @ [CHR 0xE2, CHR 0x80, CHR 0x94] @ '' set AWS_ACCESS_KEY_ID and friends in the environment.''),
     ce_key_hint = ''AWS secret access key'', ce_key_url = [],
     ce_suggested_models = [],
     ce_needs_base_url = False\<rparr>"

definition catalog_vertex :: catalog_entry where
  "catalog_vertex = \<lparr>ce_id = ''vertex'', ce_label = ''Google Vertex AI'', ce_kind = ''vertex_ai'', ce_base_url = [],
     ce_default_model = ''vertex_ai/gemini-2.0-flash'', ce_requires_key = True, ce_is_local = False,
     ce_summary = ''Hosted in your own GCP project, with Google Cloud credentials.'',
     ce_key_hint = [], ce_key_url = [],
     ce_suggested_models = [],
     ce_needs_base_url = False\<rparr>"

definition catalog_groq :: catalog_entry where
  "catalog_groq = \<lparr>ce_id = ''groq'', ce_label = ''Groq'', ce_kind = ''groq'', ce_base_url = [],
     ce_default_model = ''groq/llama-3.3-70b-versatile'', ce_requires_key = True, ce_is_local = False,
     ce_summary = ''Hosted. Very low latency per call, which suits triage volume.'',
     ce_key_hint = ''Starts with gsk_'', ce_key_url = ''https://console.groq.com/keys'',
     ce_suggested_models = [],
     ce_needs_base_url = False\<rparr>"

definition catalog_mistral :: catalog_entry where
  "catalog_mistral = \<lparr>ce_id = ''mistral'', ce_label = ''Mistral'', ce_kind = ''mistral'', ce_base_url = [],
     ce_default_model = ''mistral/mistral-small-latest'', ce_requires_key = True, ce_is_local = False,
     ce_summary = ''Hosted, European. Small models are cheap at triage volume.'',
     ce_key_hint = [], ce_key_url = ''https://console.mistral.ai/api-keys'',
     ce_suggested_models = [],
     ce_needs_base_url = False\<rparr>"

definition catalog_deepseek :: catalog_entry where
  "catalog_deepseek = \<lparr>ce_id = ''deepseek'', ce_label = ''DeepSeek'', ce_kind = ''deepseek'', ce_base_url = [],
     ce_default_model = ''deepseek/deepseek-chat'', ce_requires_key = True, ce_is_local = False,
     ce_summary = ''Hosted. Inexpensive; the reasoner variant suits explanations.'',
     ce_key_hint = [], ce_key_url = ''https://platform.deepseek.com/api_keys'',
     ce_suggested_models = [],
     ce_needs_base_url = False\<rparr>"

definition catalog_xai :: catalog_entry where
  "catalog_xai = \<lparr>ce_id = ''xai'', ce_label = ''xAI Grok'', ce_kind = ''xai'', ce_base_url = [],
     ce_default_model = ''xai/grok-3-mini'', ce_requires_key = True, ce_is_local = False,
     ce_summary = ''Hosted.'',
     ce_key_hint = [], ce_key_url = ''https://console.x.ai'',
     ce_suggested_models = [],
     ce_needs_base_url = False\<rparr>"

definition catalog_together :: catalog_entry where
  "catalog_together = \<lparr>ce_id = ''together'', ce_label = ''Together AI'', ce_kind = ''together_ai'', ce_base_url = [],
     ce_default_model = ''together_ai/meta-llama/Llama-3.3-70B-Instruct-Turbo'', ce_requires_key = True, ce_is_local = False,
     ce_summary = ''Hosted gateway to many open-weight models.'',
     ce_key_hint = [], ce_key_url = ''https://api.together.ai/settings/api-keys'',
     ce_suggested_models = [],
     ce_needs_base_url = False\<rparr>"

definition catalog_fireworks :: catalog_entry where
  "catalog_fireworks = \<lparr>ce_id = ''fireworks'', ce_label = ''Fireworks AI'', ce_kind = ''fireworks_ai'', ce_base_url = [],
     ce_default_model = ''fireworks_ai/accounts/fireworks/models/llama-v3p3-70b-instruct'', ce_requires_key = True, ce_is_local = False,
     ce_summary = ''Hosted gateway to many open-weight models.'',
     ce_key_hint = [], ce_key_url = ''https://fireworks.ai/account/api-keys'',
     ce_suggested_models = [],
     ce_needs_base_url = False\<rparr>"

definition catalog_openrouter :: catalog_entry where
  "catalog_openrouter = \<lparr>ce_id = ''openrouter'', ce_label = ''OpenRouter'', ce_kind = ''openrouter'', ce_base_url = [],
     ce_default_model = ''openrouter/openai/gpt-4o-mini'', ce_requires_key = True, ce_is_local = False,
     ce_summary = ''Hosted gateway to many vendors behind one key.'',
     ce_key_hint = ''Starts with sk-or-'', ce_key_url = ''https://openrouter.ai/keys'',
     ce_suggested_models = [],
     ce_needs_base_url = False\<rparr>"

definition catalog_litellm_proxy :: catalog_entry where
  "catalog_litellm_proxy = \<lparr>ce_id = ''litellm-proxy'', ce_label = ''LiteLLM Proxy'', ce_kind = ''litellm_proxy'', ce_base_url = [],
     ce_default_model = ''litellm_proxy/<model>'', ce_requires_key = True, ce_is_local = False,
     ce_summary = ''Your own LiteLLM gateway, if you already run one. Point this at it and it governs which vendors are reachable.'',
     ce_key_hint = [], ce_key_url = [],
     ce_suggested_models = [],
     ce_needs_base_url = True\<rparr>"

definition catalog_custom :: catalog_entry where
  "catalog_custom = \<lparr>ce_id = ''custom'', ce_label = ''Other (any LiteLLM model)'', ce_kind = ''litellm'', ce_base_url = [],
     ce_default_model = [], ce_requires_key = False, ce_is_local = False,
     ce_summary = ''Anything else LiteLLM supports. Give the model in its provider/model form, and a base URL if it needs one.'',
     ce_key_hint = [], ce_key_url = [],
     ce_suggested_models = [],
     ce_needs_base_url = False\<rparr>"

definition CATALOG :: "catalog_entry list" where
  "CATALOG =
     [catalog_ollama, catalog_vllm, catalog_openai, catalog_anthropic,
      catalog_gemini, catalog_azure, catalog_bedrock, catalog_vertex,
      catalog_groq, catalog_mistral, catalog_deepseek, catalog_xai,
      catalog_together, catalog_fireworks, catalog_openrouter, catalog_litellm_proxy,
      catalog_custom]"

definition BY_ID :: "(string, catalog_entry) dict" where
  "BY_ID = dict_of ce_id (\<lambda>e. e) CATALOG"

lemmas catalog_defs = CATALOG_def catalog_ollama_def catalog_vllm_def catalog_openai_def catalog_anthropic_def catalog_gemini_def catalog_azure_def catalog_bedrock_def catalog_vertex_def catalog_groq_def catalog_mistral_def catalog_deepseek_def catalog_xai_def catalog_together_def catalog_fireworks_def catalog_openrouter_def catalog_litellm_proxy_def catalog_custom_def

lemma catalog_ids_distinct: "distinct (map ce_id CATALOG)"
  by (simp add: catalog_defs)

text \<open>Only a local entry selects Ollama, and a hosted one never has the URL of a local host.\<close>

lemma catalog_is_honest:
  "list_all (\<lambda>e. (ce_kind e = ''ollama'' \<longrightarrow> ce_is_local e \<and> \<not> ce_requires_key e)
     \<and> (\<not> ce_is_local e \<longrightarrow> ce_base_url e = [])) CATALOG"
  by (simp add: catalog_defs)

lemma by_id_entry: "map_of BY_ID i = Some e \<Longrightarrow> e \<in> set CATALOG \<and> ce_id e = i"
  by (auto simp: BY_ID_def dict_of_get dest!: find_SomeD)

datatype api_failure = Api_Error nat string | Api_Crash string

record settings_env =
  sv_network :: network
  sv_settings :: llm_settings
  sv_environ :: "(string, string) dict"
  sv_safe_load :: "string \<Rightarrow> llm_error + pyval"
  sv_safe_dump :: "pyval \<Rightarrow> string"
  sv_packaged :: "string option"
  sv_config_path :: string
  sv_describe :: "string \<Rightarrow> string"
  sv_config_write :: "string \<Rightarrow> string option"
  sv_key_write :: "string option"

record settings_world =
  sw_config :: "string option"
  sw_keys :: key_file
  sw_wire :: llm_wire

type_synonym 'a setting = "(settings_world, api_failure, 'a) eff"

definition on_wire :: "'a wired \<Rightarrow> (exn \<Rightarrow> api_failure) \<Rightarrow> 'a setting" where
  "on_wire m f = (\<lambda>w. case m (sw_wire w) of (r, wire) \<Rightarrow> (map_sum f id r, w\<lparr>sw_wire := wire\<rparr>))"

definition keys_of :: "settings_env \<Rightarrow> settings_world \<Rightarrow> key_env" where
  "keys_of env w = \<lparr>ke_environ = sv_environ env, ke_file = sw_keys w\<rparr>"

text \<open>\<open>load_config()\<close>: the runtime copy is seeded or back-filled first.\<close>

definition refreshed :: "settings_env \<Rightarrow> string option \<Rightarrow> string option" where
  "refreshed env t = ensure_runtime_config (sv_safe_load env) (sv_safe_dump env) (sv_packaged env) t"

definition current_config :: "settings_env \<Rightarrow> (llm_error + llm_config) setting" where
  "current_config env = (\<lambda>w.
     let t = refreshed env (sw_config w) in
     (Inr (load_config (nw_net (sv_network env)) (sv_settings env) (sv_safe_load env) t), w\<lparr>sw_config := t\<rparr>))"

subsection \<open>Reading\<close>

record provider_health_out =
  po_name :: string
  po_healthy :: bool
  po_model :: string
  po_detail :: string
  po_latency_s :: "rat option"
  po_is_local :: bool
  po_available_models :: "string list"

record llm_settings_out =
  lo_enabled :: bool
  lo_egress :: string
  lo_redaction :: string
  lo_roles :: "(string, string) dict"
  lo_providers :: "provider_health_out list"
  lo_config_path :: "string option"

text \<open>What the response model accepts where it wants text.\<close>

definition as_text :: "pyval \<Rightarrow> api_failure + string" where
  "as_text v = (case v of PStr s \<Rightarrow> Inr s | _ \<Rightarrow> Inl (Api_Crash ''ValidationError''))"

definition as_routes :: "pyval \<Rightarrow> api_failure + (string, string) dict" where
  "as_routes v =
     (case v of
        PDict d \<Rightarrow> map_e (\<lambda>(k, x). bind_e (as_text k) (\<lambda>role. bind_e (as_text x) (\<lambda>name. Inr (role, name)))) d
      | _ \<Rightarrow> Inl (Api_Crash ''ValidationError''))"

definition health_out :: "pyval \<Rightarrow> bool \<Rightarrow> provider_health \<Rightarrow> api_failure + provider_health_out" where
  "health_out name is_local h =
     bind_e (as_text name) (\<lambda>n.
     bind_e (map_e as_text (ph_available_models h)) (\<lambda>models.
     Inr \<lparr>po_name = n, po_healthy = ph_healthy h, po_model = ph_model h, po_detail = ph_detail h, po_latency_s = ph_latency_s h,
          po_is_local = is_local, po_available_models = models\<rparr>))"

definition shown_local :: "settings_env \<Rightarrow> key_env \<Rightarrow> llm_config \<Rightarrow> pyval \<Rightarrow> bool" where
  "shown_local env ke cf name =
     (case build_provider (nw_net (sv_network env)) (sv_settings env) ke cf name of
        Inl e \<Rightarrow> False
      | Inr bp \<Rightarrow> (case provider_is_local (nw_net (sv_network env)) bp of Inl e \<Rightarrow> False | Inr b \<Rightarrow> b))"

definition get_llm_settings :: "settings_env \<Rightarrow> llm_settings_out setting" where
  "get_llm_settings env =
     bind_s (current_config env) (\<lambda>loaded.
     case loaded of
       Inl (Config_Error m) \<Rightarrow> raise (Api_Error 500 m)
     | Inl (Py_Error name) \<Rightarrow> raise (Api_Crash name)
     | Inr cf \<Rightarrow>
         bind_s (reads (keys_of env)) (\<lambda>ke.
         bind_s (lift_e (map_sum (\<lambda>_. Api_Crash ''TypeError'') id (provider_names cf))) (\<lambda>names.
         bind_s (on_wire (health_check_all (sv_network env) (sv_describe env) (sv_settings env) ke cf names)
           (\<lambda>e. Api_Crash (ex_name e))) (\<lambda>healths.
         bind_s (lift_e (map_e (\<lambda>(name, h). health_out name (shown_local env ke cf name) h) healths)) (\<lambda>providers.
         bind_s (lift_e (as_text (cf_redaction cf))) (\<lambda>redaction.
         bind_s (lift_e (as_routes (cf_roles cf))) (\<lambda>roles.
         ret \<lparr>lo_enabled = cf_enabled cf, lo_egress = py_str (egress_value (cf_egress cf)), lo_redaction = redaction,
              lo_roles = roles, lo_providers = providers, lo_config_path = Some (sv_config_path env)\<rparr>)))))))"

subsection \<open>Changing the routing\<close>

text \<open>\<open>apply_update\<close>, with the replacement of the file.\<close>

definition write_update :: "settings_env \<Rightarrow> llm_update \<Rightarrow> unit setting" where
  "write_update env up = (\<lambda>w.
     let t = refreshed env (sw_config w); w' = w\<lparr>sw_config := t\<rparr> in
     case apply_update (nw_net (sv_network env)) (sv_settings env) (sv_safe_load env) (sv_safe_dump env) up t of
       Inl (Config_Error m) \<Rightarrow> (Inl (Api_Error 422 m), w')
     | Inl (Py_Error name) \<Rightarrow> (Inl (Api_Crash name), w')
     | Inr written \<Rightarrow>
         (case sv_config_write env written of
            Some e \<Rightarrow> (Inl (Api_Error 500 (''could not write the config: '' @ e)), w')
          | None \<Rightarrow> (Inr (), w'\<lparr>sw_config := Some written\<rparr>)))"

record settings_update =
  su_enabled :: "bool option"
  su_roles :: "(string, string) dict option"
  su_provider_models :: "(string, string) dict option"

definition update_of :: "settings_update \<Rightarrow> llm_update" where
  "update_of u = \<lparr>up_enabled = su_enabled u, up_roles = or_empty [] (su_roles u), up_models = or_empty [] (su_provider_models u),
     up_add = None, up_egress = None\<rparr>"

definition update_llm_settings :: "settings_env \<Rightarrow> settings_update \<Rightarrow> llm_settings_out setting" where
  "update_llm_settings env u = bind_s (write_update env (update_of u)) (\<lambda>_. get_llm_settings env)"

subsection \<open>Connecting a provider\<close>

record connect_request =
  cq_catalog_id :: string
  cq_model :: string
  cq_base_url :: "string option"
  cq_api_key :: "string option"
  cq_name :: "string option"
  cq_assign_roles :: "string list option"

definition given_key :: "connect_request \<Rightarrow> string" where
  "given_key rq = py_strip (or_empty [] (cq_api_key rq))"

definition connect_name :: "connect_request \<Rightarrow> catalog_entry \<Rightarrow> string" where
  "connect_name rq e = py_strip (or_empty (ce_id e) (or_str (cq_name rq) None))"

definition connect_url :: "connect_request \<Rightarrow> catalog_entry \<Rightarrow> string" where
  "connect_url rq e = py_strip (or_empty (ce_base_url e) (or_str (cq_base_url rq) None))"

text \<open>The entry of the catalogue, when the request has what it needs.\<close>

definition checked_request :: "connect_request \<Rightarrow> api_failure + catalog_entry" where
  "checked_request rq =
     (case map_of BY_ID (cq_catalog_id rq) of
        None \<Rightarrow> Inl (Api_Error 404 (''unknown provider '' @ repr_str (cq_catalog_id rq)))
      | Some e \<Rightarrow>
          if py_strip (cq_model rq) = [] then Inl (Api_Error 422 ''a model is required'')
          else if ce_requires_key e \<and> given_key rq = [] then Inl (Api_Error 422 (ce_label e @ '' requires an API key''))
          else if ce_needs_base_url e \<and> connect_url rq e = []
          then Inl (Api_Error 422 (ce_label e @ '' needs a base URL; there is no default for it''))
          else Inr e)"

text \<open>The key goes to the store before the probe; the value says whether there was one.\<close>

definition store_key :: "settings_env \<Rightarrow> string \<Rightarrow> string \<Rightarrow> bool setting" where
  "store_key env name key =
     (if key = [] then ret False
      else bind_s (reads (\<lambda>w. has_api_key (keys_of env w) (PStr name) [])) (\<lambda>had.
        case sv_key_write env of
          Some e \<Rightarrow> raise (Api_Crash e)
        | None \<Rightarrow> bind_s (modify (\<lambda>w. w\<lparr>sw_keys := set_api_key name key (sw_keys w)\<rparr>)) (\<lambda>_. ret had)))"

definition unstore_key :: "settings_env \<Rightarrow> string \<Rightarrow> bool \<Rightarrow> unit setting" where
  "unstore_key env name had =
     (if had then ret ()
      else bind_s (reads (\<lambda>w. forget_api_key name (sw_keys w))) (\<lambda>(known, keys).
        if known \<and> sv_key_write env \<noteq> None then raise (Api_Crash (or_empty [] (sv_key_write env)))
        else modify (\<lambda>w. w\<lparr>sw_keys := keys\<rparr>)))"

definition connect_spec :: "connect_request \<Rightarrow> catalog_entry \<Rightarrow> pyval" where
  "connect_spec rq e = PDict
     ([(PStr ''kind'', PStr (ce_kind e)), (PStr ''model'', PStr (py_strip (cq_model rq))), (PStr ''is_local'', PBool (ce_is_local e))]
      @ (if connect_url rq e \<noteq> [] then [(PStr ''base_url'', PStr (connect_url rq e))] else []))"

text \<open>The live configuration with the new provider, under the policy it will run with.\<close>

definition probe_config :: "connect_request \<Rightarrow> catalog_entry \<Rightarrow> llm_config \<Rightarrow> api_failure + llm_config" where
  "probe_config rq e cf =
     (case cf_providers cf of
        PDict d \<Rightarrow> Inr (cf\<lparr>cf_providers := PDict (AList.update (PStr (connect_name rq e)) (connect_spec rq e) d),
                        cf_egress := (if ce_is_local e then cf_egress cf else EGRESS_ALLOW)\<rparr>)
      | _ \<Rightarrow> Inl (Api_Crash ''TypeError''))"

definition probed :: "settings_env \<Rightarrow> llm_config \<Rightarrow> string \<Rightarrow> (exn + provider_health) setting" where
  "probed env cf name =
     bind_s (reads (keys_of env)) (\<lambda>ke.
     case build_adapter (nw_net (sv_network env)) (sv_settings env) ke cf (PStr name) of
       Inl e \<Rightarrow> ret (Inl (py_exn [] (error_text (sv_describe env) e)))
     | Inr ad \<Rightarrow> on_wire (attempt (adapter_health (sv_network env) ad HEALTH_TIMEOUT_S)) (\<lambda>e. Api_Crash (ex_name (e :: exn))))"

definition connect_update :: "connect_request \<Rightarrow> catalog_entry \<Rightarrow> string list \<Rightarrow> llm_update" where
  "connect_update rq e roles =
     \<lparr>up_enabled = Some True, up_roles = dict_of (\<lambda>r. r) (\<lambda>_. connect_name rq e) roles, up_models = [],
      up_add = Some \<lparr>np_name = connect_name rq e, np_kind = ce_kind e, np_model = py_strip (cq_model rq),
        np_base_url = connect_url rq e, np_num_ctx = None, np_is_local = Some (ce_is_local e)\<rparr>,
      up_egress = (if ce_is_local e then None else Some ''allow'')\<rparr>"

record connect_response =
  co_name :: string
  co_health :: provider_health_out
  co_settings :: llm_settings_out

definition connect_provider :: "settings_env \<Rightarrow> connect_request \<Rightarrow> connect_response setting" where
  "connect_provider env rq =
     bind_s (lift_e (checked_request rq)) (\<lambda>e.
     let name = connect_name rq e in
     bind_s (store_key env name (given_key rq)) (\<lambda>had.
     bind_s (current_config env) (\<lambda>loaded.
     bind_s (lift_e (map_sum (\<lambda>err. Api_Crash (case err of Config_Error m \<Rightarrow> ''LLMConfigError'' | Py_Error n \<Rightarrow> n)) id loaded)) (\<lambda>cf.
     bind_s (lift_e (probe_config rq e cf)) (\<lambda>cf.
     bind_s (probed env cf name) (\<lambda>outcome.
     case outcome of
       Inl x \<Rightarrow> bind_s (unstore_key env name had) (\<lambda>_. raise (Api_Error 422 (''could not reach '' @ ce_label e @ '': '' @ ex_text x)))
     | Inr h \<Rightarrow>
         if \<not> ph_healthy h then bind_s (unstore_key env name had) (\<lambda>_. raise (Api_Error 422 (ph_detail h)))
         else
           (let roles = or_empty EDITABLE_ROLES (cq_assign_roles rq); unknown = filter (\<lambda>r. r \<notin> set EDITABLE_ROLES) roles in
            if unknown \<noteq> [] then raise (Api_Error 422 (''unknown role(s): '' @ py_repr (PList (map PStr unknown))))
            else
              bind_s (write_update env (connect_update rq e roles)) (\<lambda>_.
              bind_s (lift_e (health_out (PStr name) (ce_is_local e) h)) (\<lambda>shown.
              bind_s (get_llm_settings env) (\<lambda>settings.
              ret \<lparr>co_name = name, co_health = shown, co_settings = settings\<rparr>))))))))))"

subsection \<open>The catalogue and the rule pack\<close>

definition llm_catalog :: "catalog_entry list" where
  "llm_catalog = CATALOG"

record rule_out =
  ro_id :: string
  ro_name :: string
  ro_category :: string
  ro_severity :: string
  ro_confidence :: rat
  ro_cwe :: "string option"
  ro_description :: string
  ro_tags :: "string list"

record rule_pack_out =
  ko_version :: string
  ko_hash :: string
  ko_rule_count :: nat
  ko_corpus_size :: nat
  ko_rules :: "rule_out list"

definition rule_shown :: "rule \<Rightarrow> rule_out" where
  "rule_shown r = \<lparr>ro_id = ru_id r, ro_name = ru_name r, ro_category = ru_category r, ro_severity = severity_value (ru_severity r),
     ro_confidence = ru_confidence r, ro_cwe = ru_cwe r, ro_description = ru_description r, ro_tags = ru_tags r\<rparr>"

text \<open>How an exception that is no \<open>RuleLoadError\<close> prints is a parameter.\<close>

definition get_rule_pack :: "loader_env \<Rightarrow> (load_failure \<Rightarrow> string) \<Rightarrow> string \<Rightarrow> pack_dir \<Rightarrow> api_failure + rule_pack_out" where
  "get_rule_pack env describe repo_root dir =
     (case load_rule_pack env (repo_root @ ''/detections'') dir of
        Inl (Rule_Load_Error m) \<Rightarrow> Inl (Api_Error 500 m)
      | Inl e \<Rightarrow> Inl (Api_Error 500 (describe e))
      | Inr pack \<Rightarrow> Inr \<lparr>ko_version = rp_version pack, ko_hash = rp_hash pack, ko_rule_count = length (enabled_rules pack),
           ko_corpus_size = card (rp_false_positives pack), ko_rules = map rule_shown (enabled_rules pack)\<rparr>)"

end
