(* ===== verification/Settings_Properties.thy ===== *)
theory Settings_Properties
  imports Settings_Api
begin

text \<open>
  What the wizard promises: a provider it reports as connected is the one the next scan uses, with the key that
  was given; a request it refuses leaves the configuration and the keys of other providers alone.
\<close>

subsection \<open>The key store\<close>

lemma read_store_get:
  "map_of (fold (\<lambda>(k, v). AList.update (py_str k) (py_str v)) (map (\<lambda>(k, v). (PStr k, PStr v)) s) acc) k
     = (case map_of (rev s) k of Some v \<Rightarrow> Some v | None \<Rightarrow> map_of acc k)"
  by (induction s arbitrary: acc) (auto simp: update_conv' map_add_def split: option.splits)

lemma read_store_distinct: "distinct (map fst (read_store f))"
proof -
  have "distinct (map fst (fold (\<lambda>(k, v). AList.update (py_str k) (py_str v)) d acc))" if "distinct (map fst acc)" for d acc
    using that by (induction d arbitrary: acc) (auto simp: distinct_update)
  then show ?thesis by (cases f) (auto simp: read_store_def split: pyval.split)
qed

lemma read_store_write:
  assumes "distinct (map fst s)"
  shows "map_of (read_store (write_store s)) k = map_of s k"
proof -
  let ?t = "sort_key fst s"
  have t: "distinct (map fst ?t)" "set ?t = set s" using assms by (simp_all add: distinct_map)
  then have "map_of (rev ?t) = map_of s"
    using assms by (metis distinct_rev map_of_inject_set rev_map set_rev)
  then show ?thesis by (simp add: read_store_def write_store_def read_store_get split: option.split)
qed

lemma stored_key_set:
  "stored_key (set_api_key n k f) (PStr m)
     = (if m = n then (if py_strip k \<noteq> [] then Some (py_strip k) else None) else stored_key f (PStr m))"
  using read_store_write [of "AList.update n k (read_store f)"] read_store_distinct
  by (simp add: stored_key_def set_api_key_def dict_text_def distinct_update update_conv' Let_def)

lemma stored_key_forget:
  "stored_key (snd (forget_api_key n f)) (PStr m) = (if m = n then None else stored_key f (PStr m))"
proof (cases "map_of (read_store f) n")
  case None
  then show ?thesis by (auto simp: forget_api_key_def Let_def stored_key_def dict_text_def py_strip_def)
next
  case (Some v)
  have "distinct (map fst (AList.delete n (read_store f)))" using read_store_distinct by (rule distinct_delete)
  from read_store_write [OF this] Some show ?thesis
    by (simp add: forget_api_key_def Let_def stored_key_def dict_text_def delete_conv' py_strip_def)
qed

lemma dropWhile_idem: "dropWhile P (dropWhile P xs) = dropWhile P xs"
  by (induction xs) auto

lemma py_strip_idem: "py_strip (py_strip t) = py_strip t"
proof -
  have keep: "dropWhile py_space (rev (dropWhile py_space (rev u))) = rev (dropWhile py_space (rev u))"
    if "dropWhile py_space u = u" for u
  proof (cases "dropWhile py_space (rev u) = []")
    case False
    from takeWhile_dropWhile_id [of py_space "rev u"]
    have u: "u = rev (dropWhile py_space (rev u)) @ rev (takeWhile py_space (rev u))" by (metis rev_append rev_rev_ident)
    with False have "hd u = hd (rev (dropWhile py_space (rev u)))" by (metis hd_append rev_is_Nil_conv)
    moreover have "u \<noteq> []" using False by auto
    with that have "\<not> py_space (hd u)" by (metis hd_dropWhile)
    ultimately show ?thesis using False by (cases "rev (dropWhile py_space (rev u))") auto
  next
    case True
    then show ?thesis by (simp only: rev.simps dropWhile.simps)
  qed
  from keep [of "dropWhile py_space t"] show ?thesis
    by (simp add: py_strip_def dropWhile_idem)
qed

subsection \<open>What a step may touch\<close>

lemma keeps_wire: "(\<And>w x. I (w\<lparr>sw_wire := x\<rparr>) = I w) \<Longrightarrow> keeps I (on_wire m f)"
  by (rule keepsI) (simp add: on_wire_def split: prod.split)

lemma keeps_current: "(\<And>w. I w \<Longrightarrow> I (w\<lparr>sw_config := refreshed env (sw_config w)\<rparr>)) \<Longrightarrow> keeps I (current_config env)"
  by (rule keepsI) (simp add: current_config_def Let_def)

lemma keeps_error [triple_rules]:
  "(\<And>m. keeps I (f m)) \<Longrightarrow> (\<And>n. keeps I (g n)) \<Longrightarrow> keeps I (case e of Config_Error m \<Rightarrow> f m | Py_Error n \<Rightarrow> g n)"
  by (cases e) auto

lemma keeps_pair [triple_rules]: "(\<And>a b. keeps I (f a b)) \<Longrightarrow> keeps I (case p of (a, b) \<Rightarrow> f a b)"
  by (cases p) auto

lemma settings_kept:
  assumes "\<And>w x. I (w\<lparr>sw_wire := x\<rparr>) = I w" "\<And>w. I w \<Longrightarrow> I (w\<lparr>sw_config := refreshed env (sw_config w)\<rparr>)"
  shows "keeps I (get_llm_settings env)"
  unfolding get_llm_settings_def by (intro triple_rules keeps_wire keeps_current assms)

lemma probed_kept: "(\<And>w x. I (w\<lparr>sw_wire := x\<rparr>) = I w) \<Longrightarrow> keeps I (probed env cf name)"
  unfolding probed_def by (intro triple_rules keeps_wire)

lemma store_key_kept:
  "(\<And>w. I w \<Longrightarrow> I (w\<lparr>sw_keys := set_api_key name key (sw_keys w)\<rparr>)) \<Longrightarrow> keeps I (store_key env name key)"
  unfolding store_key_def by (intro triple_rules) (auto intro!: triple_rules)

lemma unstore_key_kept:
  assumes "\<And>w. I w \<Longrightarrow> I (w\<lparr>sw_keys := snd (forget_api_key name (sw_keys w))\<rparr>)"
  shows "keeps I (unstore_key env name had)"
proof (rule keepsI)
  fix w assume "I w"
  obtain known f where f: "forget_api_key name (sw_keys w) = (known, f)" by (cases "forget_api_key name (sw_keys w)")
  with assms [OF \<open>I w\<close>] \<open>I w\<close> show "I (snd (unstore_key env name had w))"
    by (simp add: unstore_key_def eff_simps f)
qed

subsection \<open>A refusal\<close>

definition refused :: "api_failure \<Rightarrow> bool" where
  "refused e = (case e of Api_Error code m \<Rightarrow> code \<noteq> 500 | Api_Crash name \<Rightarrow> False)"

lemma refused_simps [simp]: "refused (Api_Error c m) = (c \<noteq> 500)" "\<not> refused (Api_Crash n)"
  by (simp_all add: refused_def)

definition unrefusing :: "'a setting \<Rightarrow> bool" where
  "unrefusing m \<longleftrightarrow> triple (\<lambda>_. True) m (\<lambda>_ _. True) (\<lambda>e _. \<not> refused e)"

lemma unrefusing_rules:
  "unrefusing (ret x)" "\<not> refused e \<Longrightarrow> unrefusing (raise e)" "unrefusing (reads f)"
  "(\<And>e. v = Inl e \<Longrightarrow> \<not> refused e) \<Longrightarrow> unrefusing (lift_e v)"
  "unrefusing (current_config env)"
  by (auto simp: unrefusing_def triple_def run_simps current_config_def Let_def split: prod.split sum.split)

lemma unrefusing_wire:
  assumes "\<And>e. \<not> refused (g e)"
  shows "unrefusing (on_wire m g)"
  unfolding unrefusing_def triple_def
proof (intro allI impI)
  fix w :: settings_world
  obtain r x where "m (sw_wire w) = (r, x)" by (cases "m (sw_wire w)")
  with assms show "case on_wire m g w of (Inl e, s') \<Rightarrow> \<not> refused e | (Inr x, s') \<Rightarrow> True"
    by (cases r) (simp_all add: on_wire_def)
qed

lemma unrefusing_bind: "unrefusing m \<Longrightarrow> (\<And>x. unrefusing (f x)) \<Longrightarrow> unrefusing (bind_s m f)"
  unfolding unrefusing_def by (rule triple_bind)

lemma map_e_error: "map_e f xs = Inl e \<Longrightarrow> \<exists>x \<in> set xs. f x = Inl e"
proof (induction xs)
  case (Cons x xs)
  then show ?case by (cases "f x"; cases "map_e f xs") auto
qed simp

lemma as_text_error: "as_text v = Inl e \<Longrightarrow> \<not> refused e"
  by (auto simp: as_text_def split: pyval.splits)

lemma bind_e_error: "bind_e m f = Inl e \<Longrightarrow> m = Inl e \<or> (\<exists>x. m = Inr x \<and> f x = Inl e)"
  by (cases m) auto

lemma as_routes_error: "as_routes v = Inl e \<Longrightarrow> \<not> refused e"
  by (cases v) (auto simp: as_routes_def dest!: map_e_error bind_e_error dest: as_text_error)

lemma health_out_error: "health_out name l h = Inl e \<Longrightarrow> \<not> refused e"
  by (auto simp: health_out_def dest!: map_e_error bind_e_error dest: as_text_error)

lemma crash_error: "map_sum (\<lambda>_. Api_Crash n) f v = Inl e \<Longrightarrow> \<not> refused e"
  by (cases v) auto

lemma healths_error: "map_e (\<lambda>(name, h). health_out name (l name) h) hs = Inl e \<Longrightarrow> \<not> refused e"
  by (auto dest!: map_e_error dest: health_out_error)

lemma settings_unrefusing: "unrefusing (get_llm_settings env)"
proof -
  have "unrefusing (bind_s (reads (keys_of env)) (\<lambda>ke.
         bind_s (lift_e (map_sum (\<lambda>_. Api_Crash ''TypeError'') id (provider_names cf))) (\<lambda>names.
         bind_s (on_wire (health_check_all (sv_network env) (sv_describe env) (sv_settings env) ke cf names)
           (\<lambda>e. Api_Crash (ex_name e))) (\<lambda>healths.
         bind_s (lift_e (map_e (\<lambda>(name, h). health_out name (shown_local env ke cf name) h) healths)) (\<lambda>providers.
         bind_s (lift_e (as_text (cf_redaction cf))) (\<lambda>redaction.
         bind_s (lift_e (as_routes (cf_roles cf))) (\<lambda>roles.
         ret \<lparr>lo_enabled = cf_enabled cf, lo_egress = py_str (egress_value (cf_egress cf)), lo_redaction = redaction,
              lo_roles = roles, lo_providers = providers, lo_config_path = Some (sv_config_path env)\<rparr>)))))))" for cf
    by (intro unrefusing_bind unrefusing_rules unrefusing_wire)
      (erule crash_error | erule healths_error | erule as_text_error | erule as_routes_error | simp)+
  then show ?thesis
    unfolding get_llm_settings_def
    by (intro unrefusing_bind unrefusing_rules) (auto split: sum.split llm_error.split intro: unrefusing_rules)
qed

text \<open>The configuration is what it was, up to back-filling by the loads of the request, and so are the keys of
  the other providers.\<close>

definition untouched :: "settings_env \<Rightarrow> string \<Rightarrow> settings_world \<Rightarrow> settings_world \<Rightarrow> bool" where
  "untouched env name w0 w \<longleftrightarrow>
     (\<exists>n. sw_config w = (refreshed env ^^ n) (sw_config w0))
     \<and> (\<forall>m. m \<noteq> name \<longrightarrow> stored_key (sw_keys w) (PStr m) = stored_key (sw_keys w0) (PStr m))"

lemma untouched_wire: "untouched env name w0 (w\<lparr>sw_wire := x\<rparr>) = untouched env name w0 w"
  by (simp add: untouched_def)

lemma untouched_refreshed: "untouched env name w0 w \<Longrightarrow> untouched env name w0 (w\<lparr>sw_config := refreshed env (sw_config w)\<rparr>)"
  by (auto simp: untouched_def intro: exI [of _ "Suc n" for n])

lemma untouched_set: "untouched env name w0 w \<Longrightarrow> untouched env name w0 (w\<lparr>sw_keys := set_api_key name k (sw_keys w)\<rparr>)"
  by (simp add: untouched_def stored_key_set)

lemma untouched_forget: "untouched env name w0 w \<Longrightarrow> untouched env name w0 (w\<lparr>sw_keys := snd (forget_api_key name (sw_keys w))\<rparr>)"
  by (simp add: untouched_def stored_key_forget)

lemma untouched_refl: "untouched env name w w"
  unfolding untouched_def by (auto intro: exI [of _ 0])

lemma write_update_untouched:
  "triple (untouched env name w0) (write_update env up) (\<lambda>_ _. True) (\<lambda>_. untouched env name w0)"
  using untouched_refreshed
  by (fastforce simp: triple_def write_update_def Let_def split: sum.splits llm_error.splits option.splits)

lemma kept_step:
  assumes "keeps I m" "\<And>x. triple I (f x) Q (\<lambda>e w. refused e \<longrightarrow> I w)"
  shows "triple I (bind_s m f) Q (\<lambda>e w. refused e \<longrightarrow> I w)"
proof (rule triple_bind [OF _ assms(2)])
  show "triple I m (\<lambda>_. I) (\<lambda>e w. refused e \<longrightarrow> I w)"
    using assms(1) unfolding keeps_def by (rule triple_weaken) auto
qed

lemma ret_first: "bind_s (ret x) f = f x"
  by (simp add: bind_s_def ret_def)

lemma accepted_step: "unrefusing m \<Longrightarrow> triple (\<lambda>_. True) m (\<lambda>_ _. True) (\<lambda>e w. refused e \<longrightarrow> I w)"
  unfolding unrefusing_def by (erule triple_weaken) auto


subsection \<open>A connection\<close>

lemma step_Inr: "bind_s m f s = (Inr x, s') \<longleftrightarrow> (\<exists>y s1. m s = (Inr y, s1) \<and> f y s1 = (Inr x, s'))"
  by (auto simp: bind_s_def split: prod.splits sum.splits)

lemma lift_Inr: "lift_e v s = (Inr x, s') \<longleftrightarrow> v = Inr x \<and> s' = s"
  by (auto simp: lift_e_def)

lemma pd_get_or_after:
  "add_provider new d = Inr d' \<Longrightarrow> k \<noteq> ''providers'' \<Longrightarrow> pd_get_or d' k x = pd_get_or d k x"
  "set_egress eg d = Inr d' \<Longrightarrow> k \<noteq> ''policy'' \<Longrightarrow> pd_get_or d' k x = pd_get_or d k x"
  "set_roles changes d = Inr d' \<Longrightarrow> k \<noteq> ''roles'' \<Longrightarrow> pd_get_or d' k x = pd_get_or d k x"
  "set_models models d = Inr d' \<Longrightarrow> k \<noteq> ''providers'' \<Longrightarrow> pd_get_or d' k x = pd_get_or d k x"
  by (auto simp: add_provider_def set_egress_def set_roles_def set_models_def err_simps split: option.splits if_splits)

lemma edit_enables:
  assumes "edit_document up d = Inr d'" "up_enabled up = Some True"
  shows "pd_get_or d' ''enabled'' x = PBool True"
proof -
  from assms obtain d1 d2 d3 where "add_provider (up_add up) (put ''enabled'' (PBool True) d) = Inr d1" "set_egress (up_egress up) d1 = Inr d2"
    "set_roles (up_roles up) d2 = Inr d3" "set_models (up_models up) d3 = Inr d'"
    by (auto simp: edit_document_def Let_def err_simps)
  then show ?thesis by (simp add: pd_get_or_after)
qed

definition reads_back :: "settings_env \<Rightarrow> string \<Rightarrow> bool" where
  "reads_back env t \<longleftrightarrow> (\<forall>d. sv_safe_dump env d = t \<longrightarrow> sv_safe_load env t = Inr d)"

text \<open>A back-fill keeps what a role was routed to.\<close>

lemma refreshed_config:
  assumes "refreshed env (Some written) = t" "reads_back env written" "\<And>s. t = Some s \<Longrightarrow> reads_back env s"
    and "load_config net se (sv_safe_load env) (Some written) = Inr cf" "load_config net se (sv_safe_load env) t = Inr cf'"
  shows "cf' = cf \<or> (\<exists>roles more. cf_roles cf = PDict roles \<and> cf' = cf\<lparr>cf_roles := PDict (roles @ more)\<rparr>)"
proof (cases "t = Some written")
  case True
  with assms(4,5) show ?thesis by simp
next
  case False
  from assms(1) False obtain live shipped doc where doc: "sv_safe_load env written = Inr live"
    "backfill live shipped = Some doc" "t = Some (sv_safe_dump env doc)"
    by (auto simp: refreshed_def ensure_runtime_config_def split: option.splits sum.splits)
  from doc(2) obtain l roles more where l: "or_dict live = PDict l" "or_dict (pd_get_or l ''roles'' PNone) = PDict roles"
    "doc = PDict (put ''roles'' (PDict (roles @ more)) l)"
    by (auto simp: backfill_def put_def split: pyval.splits option.splits list.splits)
  have "sv_safe_load env (sv_safe_dump env doc) = Inr doc" using assms(3) [OF doc(3)] by (simp add: reads_back_def)
  with assms(5) doc(3) l(3) have cf': "read_document se (PDict (put ''roles'' (PDict (roles @ more)) l)) = Inr cf'"
    by (auto simp: load_config_def load_document_def err_simps)
  from assms(4) doc(1) l(1) have cf: "read_document se (PDict l) = Inr cf"
    by (auto simp: load_config_def load_document_def err_simps)
  from read_document_put_roles [OF cf] cf' have new: "cf' = cf\<lparr>cf_roles := PDict (roles @ more)\<rparr>" by simp
  have old: "cf_roles cf = PDict roles" using read_document_fields [OF cf] l(2) by simp
  with new show ?thesis by blast
qed

lemma refreshed_routes:
  assumes "cf' = cf \<or> (\<exists>roles more. cf_roles cf = PDict roles \<and> cf' = cf\<lparr>cf_roles := PDict (roles @ more)\<rparr>)"
    and "provider_for cf role = Inr name"
  shows "provider_for cf' role = Inr name"
  using assms(1)
proof
  assume "\<exists>roles more. cf_roles cf = PDict roles \<and> cf' = cf\<lparr>cf_roles := PDict (roles @ more)\<rparr>"
  then obtain roles more where new: "cf_roles cf = PDict roles" "cf' = cf\<lparr>cf_roles := PDict (roles @ more)\<rparr>" by blast
  from assms(2) new(1) have "pd_get_or roles role PNone \<noteq> PNone" by (auto simp: provider_for_def value_get_def split: if_splits)
  then have "pd_get_or (roles @ more) role PNone = pd_get_or roles role PNone"
    by (cases "map_of roles (PStr role)") (simp_all add: pd_get_or_def pd_get_def map_add_def)
  then have "provider_for cf' role = provider_for cf role" using new by (simp add: provider_for_def value_get_def)
  with assms(2) show ?thesis by simp
qed (simp add: assms(2))

lemma keys_kept: "(\<And>K. keeps (\<lambda>w. sw_keys w = K) m) \<Longrightarrow> m w = (r, w') \<Longrightarrow> sw_keys w' = sw_keys w"
  using keepsD [of "\<lambda>v. sw_keys v = sw_keys w" m w] by auto

lemma store_key_stores:
  assumes "store_key env name (py_strip k) w = (Inr had, w1)" "py_strip k \<noteq> []"
  shows "stored_key (sw_keys w1) (PStr name) = Some (py_strip k)"
proof -
  from assms have "sw_keys w1 = set_api_key name (py_strip k) (sw_keys w)"
    by (auto simp: store_key_def step_Inr run_simps eff_simps split: option.splits)
  with assms(2) show ?thesis by (simp add: stored_key_set py_strip_idem)
qed

lemma write_update_Inr:
  assumes "write_update env up w = (Inr u, w')"
  obtains t where "apply_update (nw_net (sv_network env)) (sv_settings env) (sv_safe_load env) (sv_safe_dump env) up
      (refreshed env (sw_config w)) = Inr t"
    "sv_config_write env t = None" "sw_config w' = Some t" "sw_keys w' = sw_keys w"
  using assms by (auto simp: write_update_def Let_def split: sum.splits llm_error.splits option.splits)

lemma wire_same: "on_wire m f v = (r, v') \<Longrightarrow> sw_config v' = sw_config v \<and> sw_keys v' = sw_keys v"
  by (auto simp: on_wire_def split: prod.splits)

lemma map_sum_Inr: "map_sum f id v = Inr x \<longleftrightarrow> v = Inr x"
  by (cases v) auto

lemma dict_of_distinct: "distinct (map fst (dict_of f g xs))"
proof -
  have "distinct (map fst acc) \<Longrightarrow> distinct (map fst (fold (\<lambda>x. AList.update (f x) (g x)) xs acc))" for acc
    by (induction xs arbitrary: acc) (simp_all add: distinct_update)
  then show ?thesis by (simp add: dict_of_def)
qed

lemma dict_of_const: "x \<in> set xs \<Longrightarrow> (x, y) \<in> set (dict_of (\<lambda>x. x) (\<lambda>_. y) xs)"
proof -
  assume "x \<in> set xs"
  then have "List.find (\<lambda>z. z = x) (rev xs) \<noteq> None" by (auto simp: find_None_iff)
  then have "map_of (dict_of (\<lambda>x. x) (\<lambda>_. y) xs) x = Some y" by (auto simp: dict_of_get)
  then show ?thesis by (rule map_of_SomeD)
qed

text \<open>The settings are read from the configuration that is left.\<close>

lemma settings_loaded:
  assumes "get_llm_settings env w = (Inr out, w')"
  shows "sw_config w' = refreshed env (sw_config w) \<and> sw_keys w' = sw_keys w
    \<and> (\<exists>cf. load_config (nw_net (sv_network env)) (sv_settings env) (sv_safe_load env) (sw_config w') = Inr cf)"
proof -
  obtain loaded w1 where w1: "current_config env w = (Inr loaded, w1)" "sw_config w1 = refreshed env (sw_config w)" "sw_keys w1 = sw_keys w"
    "loaded = load_config (nw_net (sv_network env)) (sv_settings env) (sv_safe_load env) (sw_config w1)"
    by (simp add: current_config_def Let_def)
  from assms obtain cf where cf: "loaded = Inr cf"
    by (auto simp: get_llm_settings_def step_Inr w1(1) run_simps split: sum.splits llm_error.splits)
  from assms have "sw_config w' = sw_config w1 \<and> sw_keys w' = sw_keys w1"
    by (auto simp: get_llm_settings_def step_Inr w1(1) cf run_simps lift_Inr dest!: wire_same)
  moreover have "load_config (nw_net (sv_network env)) (sv_settings env) (sv_safe_load env) (sw_config w1) = Inr cf"
    using w1(4) cf by (rule trans [OF sym])
  ultimately show ?thesis using w1(2,3) by simp
qed

lemma apply_enables:
  assumes "apply_update net se safe_load safe_dump up ft = Inr t" "\<And>d. safe_dump d = t \<Longrightarrow> safe_load t = Inr d"
    and "up_enabled up = Some True"
  shows "\<exists>cf. load_config net se safe_load (Some t) = Inr cf \<and> cf_enabled cf"
proof -
  from assms(1) obtain d d' cf where d: "edit_document up d = Inr d'" "t = safe_dump (PDict d')"
    "load_config net se safe_load (Some t) = Inr cf"
  proof -
    from assms(1) obtain x where "(case x of PDict d \<Rightarrow> bind_e (edit_document up d) (\<lambda>d'.
         bind_e (load_config net se safe_load (Some (safe_dump (PDict d')))) (\<lambda>_. Inr (safe_dump (PDict d'))))
       | _ \<Rightarrow> Inl (Config_Error ''does not contain a mapping'')) = Inr t"
      unfolding apply_update_def bind_e_Inr_iff by blast
    then show thesis using that by (cases x) (auto simp: err_simps)
  qed
  then have "read_document se (PDict d') = Inr cf"
    using assms(2) [OF d(2) [symmetric]] by (auto simp: load_config_def load_document_def err_simps)
  then have "cf_enabled cf"
    using edit_enables [OF d(1) assms(3)] by (auto simp: read_document_def err_simps Let_def)
  with d(3) show ?thesis by blast
qed

text \<open>C39: A provider that the wizard reports as connected was reached and healthy, and is what the next scan uses:
  the configuration left behind loads and is enabled, every role of the request is routed to the provider, and the
  key that was given is the one stored for it. YAML reads back what it wrote.\<close>

theorem connected_provider_is_used:
  assumes "connect_provider env rq w = (Inr resp, w')"
    and "\<And>t. sv_config_write env t = None \<Longrightarrow> reads_back env t" "\<And>t. sw_config w' = Some t \<Longrightarrow> reads_back env t"
  shows "\<exists>cf. load_config (nw_net (sv_network env)) (sv_settings env) (sv_safe_load env) (sw_config w') = Inr cf \<and> cf_enabled cf
    \<and> list_all (\<lambda>role. provider_for cf role = Inr (PStr (co_name resp))) (or_empty EDITABLE_ROLES (cq_assign_roles rq))
    \<and> po_healthy (co_health resp)
    \<and> (given_key rq \<noteq> [] \<longrightarrow> stored_key (sw_keys w') (PStr (co_name resp)) = Some (given_key rq))"
proof -
  let ?load = "load_config (nw_net (sv_network env)) (sv_settings env) (sv_safe_load env)"
  let ?roles = "or_empty EDITABLE_ROLES (cq_assign_roles rq)"
  have keep: "sw_keys v' = sw_keys v" if "probed env cf name v = (r, v')" for cf name v r v'
    by (rule keys_kept [OF probed_kept that]) simp
  from assms(1) obtain e had w1 w2 w3 cf0 cf1 outcome where first:
    "store_key env (connect_name rq e) (given_key rq) w = (Inr had, w1)" "current_config env w1 = (Inr (Inr cf0), w2)"
    "probed env cf1 (connect_name rq e) w2 = (Inr outcome, w3)"
    and rest: "(case outcome of
         Inl x \<Rightarrow> bind_s (unstore_key env (connect_name rq e) had)
           (\<lambda>_. raise (Api_Error 422 (''could not reach '' @ ce_label e @ '': '' @ ex_text x)))
       | Inr h \<Rightarrow> if \<not> ph_healthy h then bind_s (unstore_key env (connect_name rq e) had) (\<lambda>_. raise (Api_Error 422 (ph_detail h)))
           else if filter (\<lambda>r. r \<notin> set EDITABLE_ROLES) ?roles \<noteq> []
           then raise (Api_Error 422 (''unknown role(s): '' @ py_repr (PList (map PStr (filter (\<lambda>r. r \<notin> set EDITABLE_ROLES) ?roles)))))
           else bind_s (write_update env (connect_update rq e ?roles)) (\<lambda>_.
             bind_s (lift_e (health_out (PStr (connect_name rq e)) (ce_is_local e) h)) (\<lambda>shown.
             bind_s (get_llm_settings env) (\<lambda>settings.
             ret \<lparr>co_name = connect_name rq e, co_health = shown, co_settings = settings\<rparr>)))) w3 = (Inr resp, w')"
    unfolding connect_provider_def step_Inr lift_Inr Let_def map_sum_Inr by blast
  obtain h where h: "outcome = Inr h" "ph_healthy h"
  proof (cases outcome)
    case (Inl x)
    with rest show ?thesis by (simp add: step_Inr run_simps)
  next
    case (Inr h)
    with rest that show ?thesis by (cases "ph_healthy h") (simp_all add: step_Inr run_simps)
  qed
  with rest obtain w4 shown settings where last:
    "write_update env (connect_update rq e ?roles) w3 = (Inr (), w4)"
    "health_out (PStr (connect_name rq e)) (ce_is_local e) h = Inr shown"
    "get_llm_settings env w4 = (Inr settings, w')"
    "resp = \<lparr>co_name = connect_name rq e, co_health = shown, co_settings = settings\<rparr>"
    by (auto simp: step_Inr lift_Inr run_simps split: if_splits)
  note steps = first(1,2) keep [OF first(3)] h(2) last
  obtain t where t: "apply_update (nw_net (sv_network env)) (sv_settings env) (sv_safe_load env) (sv_safe_dump env)
      (connect_update rq e ?roles) (refreshed env (sw_config w3)) = Inr t"
    "sv_config_write env t = None" "sw_config w4 = Some t" "sw_keys w4 = sw_keys w3"
    by (rule write_update_Inr [OF steps(5)])
  have readable: "reads_back env t" using assms(2) [OF t(2)] .
  then have reads: "\<And>d. sv_safe_dump env d = t \<Longrightarrow> sv_safe_load env t = Inr d" by (simp add: reads_back_def)
  have "up_enabled (connect_update rq e ?roles) = Some True" by (simp add: connect_update_def)
  from apply_enables [OF t(1) reads this] obtain cf where cf: "?load (Some t) = Inr cf" "cf_enabled cf" by blast
  have "distinct (map fst (up_roles (connect_update rq e ?roles)))" by (simp add: connect_update_def dict_of_distinct)
  from settings_update_takes_effect [OF t(1) reads this cf]
  have routed: "provider_for cf role = Inr (PStr (connect_name rq e))" if "role \<in> set ?roles" for role
    using dict_of_const [OF that, of "connect_name rq e"] by (auto simp: connect_update_def list_all_iff)
  from settings_loaded [OF steps(7)] t(3) obtain cf' where left: "sw_config w' = refreshed env (Some t)" "sw_keys w' = sw_keys w4"
    "?load (sw_config w') = Inr cf'" by auto
  note grown = refreshed_config [OF left(1) [symmetric] readable assms(3) cf(1) left(3)]
  have "cf_enabled cf'" using grown cf(2) by auto
  moreover have "list_all (\<lambda>role. provider_for cf' role = Inr (PStr (co_name resp))) ?roles"
    using refreshed_routes [OF grown routed] by (simp add: list_all_iff steps(8))
  moreover have "po_healthy (co_health resp)" using steps(4,6) by (auto simp: steps(8) health_out_def err_simps)
  moreover have "sw_keys w' = sw_keys w1"
    using left(2) t(4) steps(2,3) by (auto simp: current_config_def Let_def)
  ultimately show ?thesis
    using left(3) store_key_stores [of env "connect_name rq e" "or_empty [] (cq_api_key rq)" w had w1] steps(1)
    by (auto simp: steps(8) given_key_def)
qed

subsection \<open>What a refusal does leave\<close>

definition openai_request :: "string \<Rightarrow> string list option \<Rightarrow> connect_request" where
  "openai_request key roles = \<lparr>cq_catalog_id = ''openai'', cq_model = ''gpt-4o-mini'', cq_base_url = None, cq_api_key = Some key,
     cq_name = None, cq_assign_roles = roles\<rparr>"

lemma openai_entry: "map_of BY_ID ''openai'' = Some catalog_openai"
  by (simp add: BY_ID_def catalog_defs dict_of_def)

lemma openai_strips: "py_strip ''openai'' = ''openai''" "py_strip ''gpt-4o-mini'' = ''gpt-4o-mini''" "py_strip [] = []"
  by (simp_all add: py_strip_def py_space_def)

lemma openai_checked: "py_strip key \<noteq> [] \<Longrightarrow> checked_request (openai_request key roles) = Inr catalog_openai"
  by (simp add: checked_request_def openai_request_def openai_entry openai_strips given_key_def or_empty_def)
    (simp add: catalog_openai_def)

lemma openai_fields:
  "connect_name (openai_request key roles) catalog_openai = ''openai''" "connect_url (openai_request key roles) catalog_openai = []"
  "given_key (openai_request key roles) = py_strip key" "ce_is_local catalog_openai = False" "ce_kind catalog_openai = ''openai''"
  by (simp_all add: connect_name_def connect_url_def given_key_def openai_request_def catalog_openai_def or_empty_def or_str_def openai_strips)

definition openai_spec :: pyval where
  "openai_spec = PDict [(PStr ''kind'', PStr ''openai''), (PStr ''model'', PStr ''gpt-4o-mini''), (PStr ''is_local'', PBool False)]"

lemma openai_connect_spec: "connect_spec (openai_request key roles) catalog_openai = openai_spec"
  by (simp add: connect_spec_def openai_fields openai_spec_def) (simp add: openai_request_def openai_strips)

lemma absent_config:
  assumes "sv_packaged env = None" "sw_config w = None"
  shows "current_config env w = (Inr (Inr (disabled_config (sv_settings env))), w)"
  using assms by (cases w) (simp add: current_config_def refreshed_def ensure_runtime_config_def load_config_def)

lemma unstored: "sv_key_write env = None \<Longrightarrow> \<exists>v. unstore_key env name had w = (Inr (), v)"
  by (cases had; cases "forget_api_key name (sw_keys w)") (simp_all add: unstore_key_def eff_simps)

text \<open>Under the air gap a hosted provider is refused; what is left is what \<open>unstore_key\<close> leaves.\<close>

lemma air_gapped_refuses:
  assumes "se_air_gapped (sv_settings env)" "sv_packaged env = None" "sw_config w = None" "sv_key_write env = None" "py_strip key \<noteq> []"
  shows "\<exists>m. connect_provider env (openai_request key roles) w = (Inl (Api_Error 422 m),
    snd (unstore_key env ''openai'' (has_api_key (keys_of env w) (PStr ''openai'') [])
      (w\<lparr>sw_keys := set_api_key ''openai'' (py_strip key) (sw_keys w)\<rparr>)))"
proof -
  let ?had = "has_api_key (keys_of env w) (PStr ''openai'') []"
  let ?w = "w\<lparr>sw_keys := set_api_key ''openai'' (py_strip key) (sw_keys w)\<rparr>"
  have stored: "store_key env ''openai'' (py_strip key) w = (Inr ?had, ?w)"
    using assms(4,5) by (simp add: store_key_def eff_simps)
  have current: "current_config env ?w = (Inr (Inr (disabled_config (sv_settings env))), ?w)"
    by (rule absent_config) (simp_all add: assms)
  obtain cf where cf: "probe_config (openai_request key roles) catalog_openai (disabled_config (sv_settings env)) = Inr cf"
    "cf_providers cf = PDict [(PStr ''openai'', openai_spec)]" "cf_egress cf = EGRESS_ALLOW"
    by (simp add: probe_config_def disabled_config_def openai_fields openai_connect_spec)
  have "\<exists>x. build_adapter (nw_net (sv_network env)) (sv_settings env) ke cf (PStr ''openai'') = Inl x" for ke
    using assms(1) by (simp add: build_adapter_def build_provider_def cf openai_spec_def dict_simps Let_def build_litellm_def
        endpoint_local_def check_remote_allowed_def)
  then obtain x where "build_adapter (nw_net (sv_network env)) (sv_settings env) (keys_of env ?w) cf (PStr ''openai'') = Inl x" by blast
  then have probed: "probed env cf ''openai'' ?w = (Inr (Inl (py_exn [] (error_text (sv_describe env) x))), ?w)"
    by (simp add: probed_def eff_simps)
  obtain v where "unstore_key env ''openai'' ?had ?w = (Inr (), v)"
    using unstored [OF assms(4)] by blast
  with stored current cf(1) probed assms(5) show ?thesis
    by (simp add: connect_provider_def eff_simps openai_checked openai_fields Let_def)
qed

text \<open>The connection of a key that turns out wrong is rolled back only when there was no key before: a stored key that
  worked is replaced by the rejected one.\<close>

lemma rejected_key_replaces_stored_one:
  assumes "se_air_gapped (sv_settings env)" "sv_packaged env = None" "sw_config w = None" "sv_key_write env = None" "py_strip key \<noteq> []"
    and "has_api_key (keys_of env w) (PStr ''openai'') []"
  shows "\<exists>m w'. connect_provider env (openai_request key roles) w = (Inl (Api_Error 422 m), w')
    \<and> stored_key (sw_keys w') (PStr ''openai'') = Some (py_strip key)"
proof -
  let ?w = "w\<lparr>sw_keys := set_api_key ''openai'' (py_strip key) (sw_keys w)\<rparr>"
  from air_gapped_refuses [OF assms(1-5), of roles] assms(6) obtain m where
    "connect_provider env (openai_request key roles) w = (Inl (Api_Error 422 m), ?w)"
    by (auto simp: unstore_key_def eff_simps)
  moreover have "stored_key (sw_keys ?w) (PStr ''openai'') = Some (py_strip key)"
    using assms(5) by (simp add: stored_key_set py_strip_idem)
  ultimately show ?thesis by blast
qed

subsection \<open>A provider that answers\<close>

definition answering_network :: network where
  "answering_network = quiet_network\<lparr>nw_litellm := (\<lambda>_ _. Inr \<lparr>lr_choices = [], lr_model = None, lr_usage = None\<rparr>)\<rparr>"

definition wizard_document :: doc where
  "wizard_document =
     [(PStr ''enabled'', PBool True),
      (PStr ''providers'', PDict [(PStr ''openai'', PDict [(PStr ''kind'', PStr ''openai''), (PStr ''model'', PStr ''gpt-4o-mini''),
         (PStr ''is_local'', PBool False)])]),
      (PStr ''policy'', PDict [(PStr ''egress'', PStr ''allow'')]),
      (PStr ''roles'', PDict (map (\<lambda>r. (PStr r, PStr ''openai'')) EDITABLE_ROLES))]"

definition wizard_env :: "bool \<Rightarrow> settings_env" where
  "wizard_env air_gapped = \<lparr>sv_network = answering_network, sv_settings = \<lparr>se_egress_policy = EGRESS_DENY, se_air_gapped = air_gapped\<rparr>,
     sv_environ = [], sv_safe_load = (\<lambda>_. Inr (PDict wizard_document)),
     sv_safe_dump = (\<lambda>d. if d = PDict wizard_document then ''conf'' else ''other''), sv_packaged = None,
     sv_config_path = ''llm.yaml'', sv_describe = (\<lambda>n. n),
     sv_config_write = (\<lambda>t. if t = ''conf'' then None else Some ''read-only''), sv_key_write = None\<rparr>"

definition wizard_world :: settings_world where
  "wizard_world = \<lparr>sw_config = None, sw_keys = No_File, sw_wire = idle_wire\<rparr>"

definition wizard_config :: llm_config where
  "wizard_config = \<lparr>cf_enabled = True, cf_providers = PDict [(PStr ''openai'', openai_spec)],
     cf_roles = PDict (map (\<lambda>r. (PStr r, PStr ''openai'')) EDITABLE_ROLES), cf_egress = EGRESS_ALLOW,
     cf_redaction = PStr ''strict'', cf_hosts = []\<rparr>"

lemma openai_answers:
  assumes "cf_providers cf = PDict [(PStr ''openai'', openai_spec)]" "cf_egress cf = EGRESS_ALLOW" "cf_hosts cf = []"
    and "stored_key (ke_file ke) (PStr ''openai'') = Some k" "k \<noteq> []"
  shows "\<exists>ad. build_adapter no_net \<lparr>se_egress_policy = EGRESS_DENY, se_air_gapped = False\<rparr> ke cf (PStr ''openai'') = Inr ad
    \<and> bp_declared_local (ad_built ad) = False
    \<and> (\<forall>w. \<exists>w'. adapter_health answering_network ad HEALTH_TIMEOUT_S w = (Inr \<lparr>ph_healthy = True, ph_provider = PStr ''openai'',
         ph_model = ''gpt-4o-mini'', ph_detail = ''reachable, and the credential works'', ph_latency_s = Some 0,
         ph_available_models = []\<rparr>, w'))"
  using assms
  by (simp add: build_adapter_def build_provider_def openai_spec_def dict_simps Let_def build_litellm_def endpoint_local_def
      check_remote_allowed_def spec_model_def adapter_of_def adapter_health_def litellm_health_def check_call_def
      rstrip_slash_def resolve_api_key_def or_str_def eff_simps litellm_def answering_network_def quiet_network_def
      last_took_def list_models_def model_text_def round3_rat_def round_half_even_def)

lemma wizard_applies:
  "apply_update no_net \<lparr>se_egress_policy = EGRESS_DENY, se_air_gapped = False\<rparr> (sv_safe_load (wizard_env False)) (sv_safe_dump (wizard_env False))
     (connect_update (openai_request k None) catalog_openai EDITABLE_ROLES) None = Inr ''conf''"
  "load_config no_net \<lparr>se_egress_policy = EGRESS_DENY, se_air_gapped = False\<rparr> (sv_safe_load (wizard_env False)) (Some ''conf'') = Inr wizard_config"
proof -
  have up: "connect_update (openai_request k None) catalog_openai EDITABLE_ROLES =
      \<lparr>up_enabled = Some True, up_roles = map (\<lambda>r. (r, ''openai'')) EDITABLE_ROLES, up_models = [],
        up_add = Some \<lparr>np_name = ''openai'', np_kind = ''openai'', np_model = ''gpt-4o-mini'', np_base_url = [], np_num_ctx = None,
          np_is_local = Some False\<rparr>, up_egress = Some ''allow''\<rparr>"
    by (simp add: connect_update_def openai_fields dict_of_def EDITABLE_ROLES_def) (simp add: openai_request_def openai_strips)
  have edit: "edit_document (connect_update (openai_request k None) catalog_openai EDITABLE_ROLES) [] = Inr wizard_document"
    unfolding up
    by (simp add: edit_document_def add_provider_def openai_strips set_egress_def set_roles_def Let_def
        set_models_def section_of_def dict_simps EDITABLE_ROLES_def put_def or_dict_def provider_entry_def wizard_document_def)
  show load: "load_config no_net \<lparr>se_egress_policy = EGRESS_DENY, se_air_gapped = False\<rparr> (sv_safe_load (wizard_env False)) (Some ''conf'') = Inr wizard_config"
    by (simp add: load_config_def wizard_env_def document_simps wizard_document_def wizard_config_def EDITABLE_ROLES_def
        provider_for_def hashable_def check_remote_allowed_def openai_spec_def)
  then show "apply_update no_net \<lparr>se_egress_policy = EGRESS_DENY, se_air_gapped = False\<rparr> (sv_safe_load (wizard_env False)) (sv_safe_dump (wizard_env False))
     (connect_update (openai_request k None) catalog_openai EDITABLE_ROLES) None = Inr ''conf''"
    by (simp add: apply_update_def edit) (simp add: wizard_env_def)
qed

lemma wizard_parts [simp]:
  "sv_network (wizard_env a) = answering_network" "nw_net answering_network = no_net"
  "sv_settings (wizard_env a) = \<lparr>se_egress_policy = EGRESS_DENY, se_air_gapped = a\<rparr>" "sv_packaged (wizard_env a) = None"
  "sv_key_write (wizard_env a) = None" "sv_environ (wizard_env a) = []" "sv_config_write (wizard_env a) ''conf'' = None"
  by (simp_all add: wizard_env_def answering_network_def quiet_network_def)

lemma wizard_refreshed [simp]: "refreshed (wizard_env a) t = t"
  by (simp add: refreshed_def ensure_runtime_config_def split: option.split)

lemma wizard_shows:
  assumes "sw_config w = Some ''conf''" "stored_key (sw_keys w) (PStr ''openai'') = Some k" "k \<noteq> []"
  shows "\<exists>out w'. get_llm_settings (wizard_env False) w = (Inr out, w') \<and> sw_config w' = Some ''conf''"
proof -
  have cf: "cf_providers wizard_config = PDict [(PStr ''openai'', openai_spec)]" "cf_egress wizard_config = EGRESS_ALLOW" "cf_hosts wizard_config = []"
    by (simp_all add: wizard_config_def)
  from openai_answers [OF cf, of "keys_of (wizard_env False) w" k] assms(2,3) obtain ad h where ad:
    "build_adapter no_net \<lparr>se_egress_policy = EGRESS_DENY, se_air_gapped = False\<rparr> (keys_of (wizard_env False) w) wizard_config (PStr ''openai'') = Inr ad"
    "\<forall>v. \<exists>v'. adapter_health answering_network ad HEALTH_TIMEOUT_S v = (Inr h, v')" "ph_available_models h = []"
    by (auto simp: keys_of_def)
  from ad(2) obtain v where v: "adapter_health answering_network ad HEALTH_TIMEOUT_S (sw_wire w) = (Inr h, v)" by blast
  then have probe: "probe_provider answering_network (sv_describe (wizard_env False)) \<lparr>se_egress_policy = EGRESS_DENY, se_air_gapped = False\<rparr>
      (keys_of (wizard_env False) w) wizard_config (PStr ''openai'') (sw_wire w) = (Inr h, v)"
    using ad(1) by (simp add: probe_provider_def catch_s_def)
  have names: "provider_names wizard_config = Inr [PStr ''openai'']" by (simp add: provider_names_def cf)
  have loaded: "current_config (wizard_env False) w = (Inr (Inr wizard_config), w)"
    using wizard_applies(2) assms(1) by (cases w) (simp add: current_config_def)
  show ?thesis
    using ad(3) assms(1)
    by (simp add: get_llm_settings_def eff_simps loaded names on_wire_def health_check_all_def probe health_out_def as_text_def)
      (simp add: wizard_config_def EDITABLE_ROLES_def as_routes_def as_text_def eff_simps)
qed

lemma wizard_connects:
  "\<exists>resp w'. connect_provider (wizard_env False) (openai_request ''sk-1'' None) wizard_world = (Inr resp, w')
    \<and> sw_config w' = Some ''conf'' \<and> co_name resp = ''openai''"
proof -
  let ?key = "''sk-1''"
  let ?w = "wizard_world\<lparr>sw_keys := set_api_key ''openai'' ?key (sw_keys wizard_world)\<rparr>"
  have key: "py_strip ?key = ?key" by (simp add: py_strip_def py_space_def)
  have saved: "stored_key (sw_keys ?w) (PStr ''openai'') = Some ?key" by (simp add: stored_key_set key)
  have stored: "\<exists>had. store_key (wizard_env False) ''openai'' ?key wizard_world = (Inr had, ?w)"
    by (simp add: store_key_def eff_simps)
  then obtain had where stored: "store_key (wizard_env False) ''openai'' ?key wizard_world = (Inr had, ?w)" by blast
  have current: "current_config (wizard_env False) ?w = (Inr (Inr (disabled_config (sv_settings (wizard_env False)))), ?w)"
    by (rule absent_config) (simp_all add: wizard_world_def)
  obtain cf where cf: "probe_config (openai_request ?key None) catalog_openai (disabled_config (sv_settings (wizard_env False))) = Inr cf"
    "cf_providers cf = PDict [(PStr ''openai'', openai_spec)]" "cf_egress cf = EGRESS_ALLOW" "cf_hosts cf = []"
    by (simp add: probe_config_def disabled_config_def openai_fields openai_connect_spec)
  from openai_answers [OF cf(2-4), of "keys_of (wizard_env False) ?w" ?key] saved obtain ad h v where ad:
    "build_adapter no_net \<lparr>se_egress_policy = EGRESS_DENY, se_air_gapped = False\<rparr> (keys_of (wizard_env False) ?w) cf (PStr ''openai'') = Inr ad"
    "adapter_health answering_network ad HEALTH_TIMEOUT_S (sw_wire ?w) = (Inr h, v)" "ph_available_models h = []" "ph_healthy h"
    by (fastforce simp: keys_of_def)
  let ?w3 = "?w\<lparr>sw_wire := v\<rparr>" and ?w4 = "?w\<lparr>sw_wire := v, sw_config := Some ''conf''\<rparr>"
  have probed: "probed (wizard_env False) cf ''openai'' ?w = (Inr (Inr h), ?w3)"
    using ad(1,2) by (simp add: probed_def eff_simps on_wire_def)
  have written: "write_update (wizard_env False) (connect_update (openai_request ?key None) catalog_openai EDITABLE_ROLES) ?w3 = (Inr (), ?w4)"
    using wizard_applies(1) [of ?key] by (simp add: write_update_def wizard_world_def)
  obtain out w' where shown: "get_llm_settings (wizard_env False) ?w4 = (Inr out, w')" "sw_config w' = Some ''conf''"
    using wizard_shows [of ?w4 ?key] saved by auto
  show ?thesis
    using stored current cf(1) probed written shown ad(3,4) key
    by (simp add: connect_provider_def eff_simps openai_checked openai_fields Let_def health_out_def as_text_def)
      (simp add: openai_request_def or_empty_def eff_simps shown)
qed

theorem connected_provider_is_used_witness:
  "\<exists>resp w' cf. connect_provider (wizard_env False) (openai_request ''sk-1'' None) wizard_world = (Inr resp, w')
    \<and> provider_for cf ''triage'' = Inr (PStr ''openai'') \<and> stored_key (sw_keys w') (PStr ''openai'') = Some ''sk-1''"
proof -
  obtain resp w' where run: "connect_provider (wizard_env False) (openai_request ''sk-1'' None) wizard_world = (Inr resp, w')"
    "sw_config w' = Some ''conf''" "co_name resp = ''openai''"
    using wizard_connects by blast
  have readable: "reads_back (wizard_env False) ''conf''" by (simp add: reads_back_def wizard_env_def)
  have key: "given_key (openai_request ''sk-1'' None) = ''sk-1''" by (simp add: openai_fields py_strip_def py_space_def)
  have texts: "reads_back (wizard_env False) t" if "sv_config_write (wizard_env False) t = None \<or> sw_config w' = Some t" for t
    using that run(2) readable by (auto simp: wizard_env_def split: if_splits)
  show ?thesis
    using connected_provider_is_used [OF run(1) texts texts] run(1,3) key
    by (auto simp: openai_request_def or_empty_def EDITABLE_ROLES_def)
qed


end
