(* ===== verification/Cli_Client.thy ===== *)
theory Cli_Client
  imports Py_Json Composition
begin

text \<open>
  The API client of the build agent (\<open>cli/client.py\<close>). What one HTTP exchange ends with is data: a body, a status
  with its body, or one of the ways a connection fails. \<open>json.loads\<close> is a parameter. A failure is an \<open>ApiError\<close>,
  which the commands report, or an exception that no handler of the client catches.
\<close>

subsection \<open>Requests\<close>

definition CLIENT_TIMEOUT_S :: nat where "CLIENT_TIMEOUT_S = 60"

record api_error =
  ae_message :: string
  ae_status :: "nat option"
  ae_body :: string

datatype client_error = Api_Error api_error | Escapes string

datatype http_outcome =
    Reply string
  | Http_Error nat string
  | Url_Error string
  | Timed_Out
  | Os_Error string
  | Not_Utf8

record api_client =
  cl_base_url :: string
  cl_token :: string
  cl_timeout_s :: nat

definition rstrip_slashes :: "string \<Rightarrow> string" where
  "rstrip_slashes t = rev (dropWhile (\<lambda>c. c = CHR ''/'') (rev t))"

definition new_client :: "string \<Rightarrow> string \<Rightarrow> api_client" where
  "new_client base_url token = \<lparr>cl_base_url = rstrip_slashes base_url, cl_token = token, cl_timeout_s = CLIENT_TIMEOUT_S\<rparr>"

definition client_headers :: "api_client \<Rightarrow> (string, string) dict" where
  "client_headers c =
     [(''User-Agent'', ''bare-cli''), (''Accept'', ''application/json'')]
     @ (if cl_token c \<noteq> [] then [(''Authorization'', ''Bearer '' @ cl_token c)] else [])"

definition api_error :: "string \<Rightarrow> client_error" where
  "api_error m = Api_Error \<lparr>ae_message = m, ae_status = None, ae_body = []\<rparr>"

definition cannot_reach :: "api_client \<Rightarrow> string \<Rightarrow> client_error" where
  "cannot_reach c reason = api_error (''cannot reach '' @ cl_base_url c @ '': '' @ reason)"

definition request ::
  "(string \<Rightarrow> json_outcome) \<Rightarrow> api_client \<Rightarrow> string \<Rightarrow> string \<Rightarrow> nat option \<Rightarrow> http_outcome \<Rightarrow> client_error + pyval" where
  "request loads c meth path timeout_s outcome =
     (let call = meth @ '' '' @ path;
          t = (case timeout_s of Some n \<Rightarrow> if n \<noteq> 0 then n else cl_timeout_s c | None \<Rightarrow> cl_timeout_s c)
      in case outcome of
           Reply raw \<Rightarrow>
             if raw = [] then Inr PNone
             else (case loads raw of
                     Parsed v \<Rightarrow> Inr v
                   | Bad_Json \<Rightarrow> Inl (api_error (call @ '' returned non-JSON: '' @ utf8_take 200 raw))
                   | Too_Deep \<Rightarrow> Inl (Escapes ''RecursionError''))
         | Http_Error code body \<Rightarrow>
             Inl (Api_Error \<lparr>ae_message = call @ '' failed: HTTP '' @ show_nat code, ae_status = Some code, ae_body = body\<rparr>)
         | Url_Error reason \<Rightarrow> Inl (cannot_reach c reason)
         | Timed_Out \<Rightarrow> Inl (api_error (call @ '' timed out after '' @ show_nat t @ ''s. Large artifacts can exceed the default; raise --timeout.''))
         | Os_Error e \<Rightarrow> Inl (api_error (call @ '' failed: '' @ e))
         | Not_Utf8 \<Rightarrow> Inl (Escapes ''UnicodeDecodeError''))"

text \<open>\<open>dict(value or {})\<close>: a list is read as pairs.\<close>

definition client_hashable :: "pyval \<Rightarrow> bool" where
  "client_hashable v = (case v of PList xs \<Rightarrow> False | PDict d \<Rightarrow> False | _ \<Rightarrow> True)"

definition pair_of :: "pyval \<Rightarrow> client_error + pyval \<times> pyval" where
  "pair_of v =
     (case py_iter v of
        Inl e \<Rightarrow> Inl (Escapes e)
      | Inr [k, w] \<Rightarrow> if client_hashable k then Inr (k, w) else Inl (Escapes ''TypeError'')
      | Inr _ \<Rightarrow> Inl (Escapes ''ValueError''))"

definition mapping_or_empty :: "pyval \<Rightarrow> client_error + (pyval \<times> pyval) list" where
  "mapping_or_empty v =
     (if \<not> py_truthy v then Inr []
      else case v of
             PDict d \<Rightarrow> Inr d
           | _ \<Rightarrow> bind_e (map_sum Escapes id (py_iter v)) (\<lambda>xs.
                  bind_e (map_e pair_of xs) (\<lambda>kvs. Inr (dict_of fst snd kvs))))"

definition get_mapping ::
  "(string \<Rightarrow> json_outcome) \<Rightarrow> api_client \<Rightarrow> string \<Rightarrow> string \<Rightarrow> nat option \<Rightarrow> http_outcome \<Rightarrow> client_error + (pyval \<times> pyval) list" where
  "get_mapping loads c meth path timeout_s outcome = bind_e (request loads c meth path timeout_s outcome) mapping_or_empty"

subsection \<open>Operations\<close>

definition client_health :: "(string \<Rightarrow> json_outcome) \<Rightarrow> api_client \<Rightarrow> http_outcome \<Rightarrow> client_error + (pyval \<times> pyval) list" where
  "client_health loads c = get_mapping loads c ''GET'' ''/readyz'' (Some 10)"

definition client_get_run :: "(string \<Rightarrow> json_outcome) \<Rightarrow> api_client \<Rightarrow> string \<Rightarrow> http_outcome \<Rightarrow> client_error + (pyval \<times> pyval) list" where
  "client_get_run loads c run_id = get_mapping loads c ''GET'' (''/api/runs/'' @ run_id) None"

definition gate_body :: "string \<Rightarrow> string \<Rightarrow> string \<Rightarrow> pyval" where
  "gate_body policy_yaml waivers_yaml baseline_run_id = PDict
     [(PStr ''policy_yaml'', PStr policy_yaml), (PStr ''waivers_yaml'', PStr waivers_yaml),
      (PStr ''baseline_run_id'', (if baseline_run_id \<noteq> [] then PStr baseline_run_id else PNone))]"

text \<open>The server's answer depends on the body it is sent.\<close>

definition client_get_gate ::
  "(string \<Rightarrow> json_outcome) \<Rightarrow> api_client \<Rightarrow> (pyval \<Rightarrow> http_outcome) \<Rightarrow> string \<Rightarrow> string \<Rightarrow> string \<Rightarrow> string
     \<Rightarrow> client_error + (pyval \<times> pyval) list" where
  "client_get_gate loads c serve run_id policy_yaml waivers_yaml baseline_run_id =
     get_mapping loads c ''POST'' (''/api/runs/'' @ run_id @ ''/gate'') None
       (serve (gate_body policy_yaml waivers_yaml baseline_run_id))"

definition client_get_sbom :: "(string \<Rightarrow> json_outcome) \<Rightarrow> api_client \<Rightarrow> string \<Rightarrow> http_outcome \<Rightarrow> client_error + (pyval \<times> pyval) list" where
  "client_get_sbom loads c run_id = get_mapping loads c ''GET'' (''/api/runs/'' @ run_id @ ''/sbom'') None"

definition client_get_sarif :: "(string \<Rightarrow> json_outcome) \<Rightarrow> api_client \<Rightarrow> string \<Rightarrow> http_outcome \<Rightarrow> client_error + (pyval \<times> pyval) list" where
  "client_get_sarif loads c run_id = get_mapping loads c ''GET'' (''/api/runs/'' @ run_id @ ''/sarif'') None"

definition client_get_pdf :: "api_client \<Rightarrow> http_outcome \<Rightarrow> client_error + string" where
  "client_get_pdf c outcome =
     (case outcome of
        Reply raw \<Rightarrow> Inr raw
      | Http_Error code body \<Rightarrow>
          Inl (Api_Error \<lparr>ae_message = ''GET report.pdf failed: HTTP '' @ show_nat code, ae_status = Some code, ae_body = []\<rparr>)
      | Url_Error reason \<Rightarrow> Inl (cannot_reach c reason)
      | Timed_Out \<Rightarrow> Inl (api_error (''GET report.pdf timed out after '' @ show_nat (cl_timeout_s c)
          @ ''s. Rendering a report for a large artifact can exceed the default; raise --timeout.''))
      | Os_Error e \<Rightarrow> Inl (api_error (''GET report.pdf failed: '' @ e))
      | Not_Utf8 \<Rightarrow> Inl (Escapes ''UnicodeDecodeError''))"

text \<open>A stage's log is decoded with replacement characters; \<open>state\<close> is the header of the answer, if it has one. The
  text of a timeout is \<open>str\<close> of the exception.\<close>

definition client_get_stage_log ::
  "api_client \<Rightarrow> string \<Rightarrow> string \<Rightarrow> string option \<Rightarrow> http_outcome \<Rightarrow> client_error + (string \<times> string) option" where
  "client_get_stage_log c run_id stage_id state outcome =
     (let path = ''/api/runs/'' @ run_id @ ''/stages/'' @ stage_id @ ''/logs'' in
      case outcome of
        Reply text \<Rightarrow> Inr (Some (text, case state of Some s \<Rightarrow> if s \<noteq> [] then s else ''final'' | None \<Rightarrow> ''final''))
      | Http_Error code body \<Rightarrow>
          if code = 404 then Inr None
          else Inl (Api_Error \<lparr>ae_message = ''GET '' @ path @ '' failed: HTTP '' @ show_nat code, ae_status = Some code, ae_body = body\<rparr>)
      | Url_Error reason \<Rightarrow> Inl (cannot_reach c reason)
      | Timed_Out \<Rightarrow> Inl (api_error (''GET '' @ path @ '' failed: timed out''))
      | Os_Error e \<Rightarrow> Inl (api_error (''GET '' @ path @ '' failed: '' @ e))
      | Not_Utf8 \<Rightarrow> Inl (Escapes ''UnicodeDecodeError''))"

record run_handle =
  rh_run_id :: string
  rh_artifact_name :: string
  rh_artifact_sha256 :: string
  rh_size_bytes :: int
  rh_status :: string

definition client_upload ::
  "(string \<Rightarrow> json_outcome) \<Rightarrow> api_client \<Rightarrow> string \<Rightarrow> http_outcome \<Rightarrow> client_error + run_handle" where
  "client_upload loads c upload_name outcome =
     bind_e (request loads c ''POST'' ''/api/runs'' (Some (max (cl_timeout_s c) 900)) outcome) (\<lambda>payload.
     (case payload of
        PDict d \<Rightarrow>
          bind_e (option_to_e (Escapes ''KeyError'') (pd_get d ''run_id'')) (\<lambda>run_id.
          bind_e (map_sum Escapes id (int_or_raise (pd_get_or d ''size_bytes'' (PInt 0)))) (\<lambda>n.
          Inr \<lparr>rh_run_id = py_str run_id, rh_artifact_name = py_str (pd_get_or d ''artifact_name'' (PStr upload_name)),
               rh_artifact_sha256 = py_str (pd_get_or d ''artifact_sha256'' (PStr [])), rh_size_bytes = n,
               rh_status = py_str (pd_get_or d ''status'' (PStr ''queued''))\<rparr>))
      | _ \<Rightarrow> Inl (api_error ''upload returned an unexpected payload'')))"

subsection \<open>Waiting\<close>

text \<open>The polls to come, each with the time the clock shows after it (in seconds since the wait began), and the
  clock's distance to the deadline. \<open>None\<close>: the wait has not ended with these polls. Each poll that does not end
  the wait is handed to the callback.\<close>

definition TERMINAL_STATUSES :: "string list" where
  "TERMINAL_STATUSES = [''completed'', ''degraded'', ''failed'', ''cancelled'']"

definition run_status_text :: "(pyval \<times> pyval) list \<Rightarrow> string" where
  "run_status_text run = py_str (pd_get_or run ''status'' (PStr []))"

fun wait_for_run ::
  "(string \<Rightarrow> json_outcome) \<Rightarrow> api_client \<Rightarrow> string \<Rightarrow> nat \<Rightarrow> (http_outcome \<times> rat) list
     \<Rightarrow> ((pyval \<times> pyval) list list \<times> (client_error + (pyval \<times> pyval) list)) option" where
  "wait_for_run loads c run_id timeout_s [] = None"
| "wait_for_run loads c run_id timeout_s ((outcome, elapsed) # polls) =
     (case client_get_run loads c run_id outcome of
        Inl e \<Rightarrow> Some ([], Inl e)
      | Inr run \<Rightarrow>
          if run_status_text run \<in> set TERMINAL_STATUSES then Some ([], Inr run)
          else if of_nat timeout_s \<le> elapsed
          then Some ([], Inl (api_error (''run '' @ run_id @ '' did not finish within '' @ show_nat timeout_s
                 @ ''s (last status: '' @ run_status_text run @ '')'')))
          else map_option (\<lambda>(seen, r). (run # seen, r)) (wait_for_run loads c run_id timeout_s polls))"

text \<open>The wait ends by its deadline: it needs no poll after the first one at which the time is up.\<close>

theorem wait_ends:
  assumes "(outcome, elapsed) \<in> set polls" "of_nat timeout_s \<le> elapsed"
  shows "wait_for_run loads c run_id timeout_s polls \<noteq> None"
  using assms
proof (induction polls)
  case (Cons p polls)
  then show ?case by (cases p) (auto split: sum.split)
qed simp

text \<open>What it returns is a run the server called finished.\<close>

theorem wait_returns_finished:
  assumes "wait_for_run loads c run_id timeout_s polls = Some (seen, Inr run)"
  shows "run_status_text run \<in> set TERMINAL_STATUSES \<and> (\<forall>r \<in> set seen. run_status_text r \<notin> set TERMINAL_STATUSES)"
  using assms
proof (induction polls arbitrary: seen)
  case (Cons p polls)
  then show ?case by (cases p) (auto split: sum.splits if_splits)
qed simp

subsection \<open>The multipart body\<close>

text \<open>The body of an upload is read in pieces: the preamble whole, the file in chunks of the size asked for, the
  epilogue. \<open>mimetypes.guess_type\<close> and the random boundary are parameters.\<close>

record multipart =
  mp_preamble :: bytes
  mp_epilogue :: bytes
  mp_file :: bytes
  mp_file_size :: nat
  mp_done_preamble :: bool
  mp_done_file :: bool

definition CRLF :: string where "CRLF = [CHR 0x0D, CHR 0x0A]"
definition QUOTE :: string where "QUOTE = [CHR 0x22]"

definition byte_text :: "string \<Rightarrow> bytes" where
  "byte_text t = map (\<lambda>c. of_nat (of_char c)) t"

definition build_preamble :: "(string \<Rightarrow> string option) \<Rightarrow> string \<Rightarrow> (string \<times> string) list \<Rightarrow> string \<Rightarrow> string \<Rightarrow> bytes" where
  "build_preamble guess_type delimiter form_fields file_field upload_name =
     byte_text
       (concat (map (\<lambda>(name, value). ''--'' @ delimiter @ CRLF @ ''Content-Disposition: form-data; name='' @ QUOTE @ name @ QUOTE
            @ CRLF @ CRLF @ value @ CRLF) (sort_key id form_fields))
        @ ''--'' @ delimiter @ CRLF
        @ ''Content-Disposition: form-data; name='' @ QUOTE @ file_field @ QUOTE @ ''; filename='' @ QUOTE @ upload_name @ QUOTE @ CRLF
        @ ''Content-Type: '' @ (case guess_type upload_name of Some t \<Rightarrow> if t \<noteq> [] then t else ''application/octet-stream''
              | None \<Rightarrow> ''application/octet-stream'') @ CRLF @ CRLF)"

definition new_multipart ::
  "(string \<Rightarrow> string option) \<Rightarrow> string \<Rightarrow> (string \<times> string) list \<Rightarrow> string \<Rightarrow> string \<Rightarrow> bytes \<Rightarrow> multipart" where
  "new_multipart guess_type delimiter form_fields file_field upload_name content =
     \<lparr>mp_preamble = build_preamble guess_type delimiter form_fields file_field upload_name,
      mp_epilogue = byte_text (CRLF @ ''--'' @ delimiter @ ''--'' @ CRLF),
      mp_file = content, mp_file_size = length content, mp_done_preamble = False, mp_done_file = False\<rparr>"

definition content_length :: "multipart \<Rightarrow> nat" where
  "content_length b = length (mp_preamble b) + mp_file_size b + length (mp_epilogue b)"

definition chunk_size :: "int \<Rightarrow> nat" where
  "chunk_size n = (if n > 0 then nat n else 1024 * 1024)"

definition read_body :: "int \<Rightarrow> multipart \<Rightarrow> bytes \<times> multipart" where
  "read_body n b =
     (if \<not> mp_done_preamble b then (mp_preamble b, b\<lparr>mp_done_preamble := True\<rparr>)
      else if \<not> mp_done_file b
      then (let chunk = take (chunk_size n) (mp_file b) in
            if chunk \<noteq> [] then (chunk, b\<lparr>mp_file := drop (chunk_size n) (mp_file b)\<rparr>)
            else (mp_epilogue b, b\<lparr>mp_done_file := True\<rparr>))
      else ([], b))"

text \<open>The transport reads until it gets nothing; \<open>fuel\<close> bounds the reads.\<close>

fun send_body :: "nat \<Rightarrow> int \<Rightarrow> multipart \<Rightarrow> bytes option" where
  "send_body 0 n b = None"
| "send_body (Suc fuel) n b =
     (let (chunk, b') = read_body n b in if chunk = [] then Some [] else map_option ((@) chunk) (send_body fuel n b'))"

definition remaining :: "multipart \<Rightarrow> bytes" where
  "remaining b = (if mp_done_preamble b then [] else mp_preamble b) @ (if mp_done_file b then [] else mp_file b @ mp_epilogue b)"

definition wf_body :: "multipart \<Rightarrow> bool" where
  "wf_body b \<longleftrightarrow> mp_preamble b \<noteq> [] \<and> mp_epilogue b \<noteq> [] \<and> (mp_done_file b \<longrightarrow> mp_done_preamble b)"

definition reads_left :: "multipart \<Rightarrow> nat" where
  "reads_left b = (if mp_done_preamble b then 0 else 1) + (if mp_done_file b then 0 else Suc (length (mp_file b)))"

lemma chunk_size_pos: "0 < chunk_size n"
  by (simp add: chunk_size_def)

lemma read_body_step:
  assumes "wf_body b" "read_body n b = (chunk, b')"
  shows "wf_body b' \<and> remaining b = chunk @ remaining b' \<and> (chunk = [] \<longleftrightarrow> mp_done_file b) \<and> (chunk \<noteq> [] \<longrightarrow> reads_left b' < reads_left b)"
proof (cases "mp_done_preamble b \<and> \<not> mp_done_file b \<and> mp_file b \<noteq> []")
  case True
  then have "take (chunk_size n) (mp_file b) \<noteq> []" using chunk_size_pos [of n] by simp
  with True assms chunk_size_pos [of n] show ?thesis
    by (auto simp: read_body_def wf_body_def remaining_def reads_left_def Let_def)
next
  case False
  with assms chunk_size_pos [of n] show ?thesis
    by (auto simp: read_body_def wf_body_def remaining_def reads_left_def Let_def split: if_splits)
qed

lemma send_body_all:
  assumes "wf_body b" "reads_left b < fuel"
  shows "send_body fuel n b = Some (remaining b)"
  using assms
proof (induction fuel arbitrary: b)
  case (Suc fuel)
  obtain chunk b' where r: "read_body n b = (chunk, b')" by (cases "read_body n b")
  note step = read_body_step [OF Suc.prems(1) r]
  show ?case
  proof (cases "chunk = []")
    case True
    with step Suc.prems(1) have "remaining b = []" by (auto simp: remaining_def wf_body_def)
    with True show ?thesis by (simp add: r)
  next
    case False
    with step Suc.prems(2) Suc.IH [of b'] show ?thesis by (simp add: r)
  qed
qed simp

text \<open>What is sent is the preamble, the whole file and the epilogue, whatever size the transport reads with, and as
  many bytes as the \<open>Content-Length\<close> header announces.\<close>

theorem upload_is_sent_whole:
  assumes "wf_body b" "\<not> mp_done_preamble b" "\<not> mp_done_file b" "mp_file_size b = length (mp_file b)"
  shows "send_body (length (mp_file b) + 3) n b = Some (mp_preamble b @ mp_file b @ mp_epilogue b)
    \<and> length (mp_preamble b @ mp_file b @ mp_epilogue b) = content_length b"
proof -
  have "reads_left b < length (mp_file b) + 3" using assms by (simp add: reads_left_def)
  from send_body_all [OF assms(1) this, of n] assms show ?thesis by (simp add: remaining_def content_length_def)
qed

theorem new_upload_is_sent_whole:
  "let b = new_multipart guess_type delimiter form_fields file_field upload_name content in
     send_body (length content + 3) n b = Some (mp_preamble b @ content @ mp_epilogue b)
     \<and> content_length b = length (mp_preamble b @ content @ mp_epilogue b)"
proof -
  let ?b = "new_multipart guess_type delimiter form_fields file_field upload_name content"
  have "wf_body ?b"
    by (simp add: wf_body_def new_multipart_def build_preamble_def byte_text_def CRLF_def)
  from upload_is_sent_whole [OF this, of n] show ?thesis by (simp add: new_multipart_def Let_def)
qed

end
