(* ===== verification/Cli_World.thy ===== *)
theory Cli_World
  imports Effects Policy_Loader Cli_Client
begin

text \<open>
  What the commands of the build agent work on: a terminal, a file system and an environment. A command ends by
  an exit code, by an exception that nothing catches (Python then exits with status 1), or it is still waiting. A
  reply that carries values of other types than the schema's is outside the model. Paths are lists of names from
  the root; files are their text, or the exception that reading them raises.
\<close>

datatype cli_end = Exit int | Traceback string | Still_Waiting | Outside_Schema

definition exit_status :: "cli_end \<Rightarrow> int option" where
  "exit_status e = (case e of Exit n \<Rightarrow> Some n | Traceback x \<Rightarrow> Some 1 | _ \<Rightarrow> None)"

type_synonym path = "string list"

record cli_log =
  lg_out :: "string list"
  lg_err :: "string list"
  lg_files :: "(path \<times> string) list"

type_synonym 'a cli = "(cli_log, cli_end, 'a) eff"

record cli_env =
  ce_file :: "path \<Rightarrow> (string + string) option"
  ce_size :: "path \<Rightarrow> nat"
  ce_cwd :: path
  ce_getenv :: "string \<Rightarrow> string option"
  ce_write_error :: "path \<Rightarrow> string option"
  ce_yaml :: "string \<Rightarrow> pyval option"
  ce_loads :: "string \<Rightarrow> json_outcome"
  ce_policy_message :: "load_error \<Rightarrow> string"

definition EXIT_ERROR :: int where "EXIT_ERROR = 2"
definition POLICY_DIR :: string where "POLICY_DIR = ''.bare''"
definition POLICY_FILE :: string where "POLICY_FILE = ''policy.yaml''"
definition WAIVERS_FILE :: string where "WAIVERS_FILE = ''waivers.yaml''"

definition show_path :: "path \<Rightarrow> string" where
  "show_path p = ''/'' @ join ''/'' p"

definition last_component :: "path \<Rightarrow> string" where
  "last_component p = (if p = [] then [] else last p)"

definition is_file :: "cli_env \<Rightarrow> path \<Rightarrow> bool" where
  "is_file env p \<longleftrightarrow> ce_file env p \<noteq> None"

subsection \<open>Printing, reading, writing\<close>

definition echo :: "string \<Rightarrow> unit cli" where
  "echo t = modify (\<lambda>l. l\<lparr>lg_out := lg_out l @ [t]\<rparr>)"

definition echo_err :: "string \<Rightarrow> unit cli" where
  "echo_err t = modify (\<lambda>l. l\<lparr>lg_err := lg_err l @ [t]\<rparr>)"

definition fail :: "string \<Rightarrow> 'a cli" where
  "fail message = bind_s (echo_err (''error: '' @ message)) (\<lambda>_. raise (Exit EXIT_ERROR))"

text \<open>Text files are read with their line ends translated to a newline.\<close>

fun universal_newlines :: "string \<Rightarrow> string" where
  "universal_newlines [] = []"
| "universal_newlines (c # cs) =
     (if c = CHR 0x0D then CHR 0x0A # (case cs of d # ds \<Rightarrow> if d = CHR 0x0A then universal_newlines ds else universal_newlines cs | [] \<Rightarrow> [])
      else c # universal_newlines cs)"

definition read_text :: "cli_env \<Rightarrow> path \<Rightarrow> string cli" where
  "read_text env p =
     (case ce_file env p of
        Some (Inr t) \<Rightarrow> ret (universal_newlines t)
      | Some (Inl e) \<Rightarrow> raise (Traceback e)
      | None \<Rightarrow> raise (Traceback ''FileNotFoundError''))"

definition write_text :: "cli_env \<Rightarrow> path \<Rightarrow> string \<Rightarrow> unit cli" where
  "write_text env p t =
     (case ce_write_error env p of
        Some e \<Rightarrow> raise (Traceback e)
      | None \<Rightarrow> modify (\<lambda>l. l\<lparr>lg_files := lg_files l @ [(p, t)]\<rparr>))"

definition read_optional :: "cli_env \<Rightarrow> path option \<Rightarrow> string cli" where
  "read_optional env p =
     (case p of None \<Rightarrow> ret [] | Some p \<Rightarrow> if is_file env p then read_text env p else ret [])"

text \<open>\<open>f"{exc}{chr(10) + exc.body if exc.body else ''}"\<close>; another exception is not caught.\<close>

definition fail_api :: "client_error \<Rightarrow> 'a cli" where
  "fail_api e =
     (case e of
        Api_Error a \<Rightarrow> fail (ae_message a @ (if ae_body a \<noteq> [] then CHR 0x0A # ae_body a else []))
      | Escapes x \<Rightarrow> raise (Traceback x))"

definition fail_fetch :: "string \<Rightarrow> client_error \<Rightarrow> 'a cli" where
  "fail_fetch what e =
     (case e of Api_Error a \<Rightarrow> fail (what @ ae_message a) | Escapes x \<Rightarrow> raise (Traceback x))"

text \<open>Thousands separators.\<close>

fun commas :: "string \<Rightarrow> string" where
  "commas (a # b # c # d # ds) = a # b # c # CHR '','' # commas (d # ds)"
| "commas ds = ds"

definition show_commas :: "nat \<Rightarrow> string" where
  "show_commas n = rev (commas (rev (show_nat n)))"

subsection \<open>Policy and waivers\<close>

definition discover :: "cli_env \<Rightarrow> path \<Rightarrow> path option" where
  "discover env start =
     map_option (\<lambda>d. d @ [POLICY_DIR, POLICY_FILE])
       (discover_policy (is_file env) (\<lambda>d. is_file env (d @ [POLICY_DIR, POLICY_FILE])) start)"

definition resolve_policy_path :: "cli_env \<Rightarrow> path option \<Rightarrow> path \<Rightarrow> path option cli" where
  "resolve_policy_path env explicit artifact =
     (case explicit of
        Some p \<Rightarrow> if is_file env p then ret (Some p) else fail (''policy file '' @ show_path p @ '' does not exist'')
      | None \<Rightarrow> ret (discover env (if is_file env artifact then butlast artifact else ce_cwd env)))"

text \<open>Loading a policy: a \<open>PolicyLoadError\<close> is reported, other exceptions are not caught.\<close>

definition checked_policy :: "cli_env \<Rightarrow> load_error + policy \<Rightarrow> policy cli" where
  "checked_policy env r =
     (case r of
        Inr p \<Rightarrow> ret p
      | Inl e \<Rightarrow>
          if e = PyValueError then raise (Traceback ''ValueError'')
          else if e = PyTypeError then raise (Traceback ''TypeError'')
          else fail (ce_policy_message env e))"

definition load_policy_at :: "cli_env \<Rightarrow> path \<Rightarrow> policy cli" where
  "load_policy_at env p =
     (if is_file env p
      then bind_s (read_text env p) (\<lambda>t. checked_policy env (load_policy (ce_yaml env) (show_path p) (Some t)))
      else checked_policy env (load_policy (ce_yaml env) (show_path p) None))"

definition read_policy :: "cli_env \<Rightarrow> string \<Rightarrow> path option \<Rightarrow> string cli" where
  "read_policy env without policy_path =
     (case policy_path of
        Some p \<Rightarrow>
          bind_s (read_text env p) (\<lambda>policy_yaml.
          bind_s (load_policy_at env p) (\<lambda>loaded.
          bind_s (echo (''policy: '' @ p_name loaded @ '' ('' @ show_path p @ '')'')) (\<lambda>_.
          ret policy_yaml)))
      | None \<Rightarrow> bind_s (echo without) (\<lambda>_. ret []))"

definition waiver_path :: "cli_env \<Rightarrow> path option \<Rightarrow> path option \<Rightarrow> path option" where
  "waiver_path env explicit policy_path =
     (case explicit of
        Some p \<Rightarrow> Some p
      | None \<Rightarrow> (case policy_path of
          Some p \<Rightarrow> (let candidate = butlast p @ [WAIVERS_FILE] in if is_file env candidate then Some candidate else None)
        | None \<Rightarrow> None))"

subsection \<open>What these steps can end with\<close>

text \<open>The exit codes a step can end a command with, besides the error code: all steps but the last one have none.\<close>

definition exits_in :: "int set \<Rightarrow> 'a cli \<Rightarrow> bool" where
  "exits_in N m \<longleftrightarrow> triple (\<lambda>_. True) m (\<lambda>_ _. True) (\<lambda>e _. \<forall>n. e = Exit n \<longrightarrow> n = EXIT_ERROR \<or> n \<in> N)"

named_theorems end_rules \<open>how the steps of a command can end it\<close>

lemma ends_bind [end_rules]: "exits_in N m \<Longrightarrow> (\<And>x. exits_in N (f x)) \<Longrightarrow> exits_in N (bind_s m f)"
  unfolding exits_in_def by (rule triple_bind) auto

lemma ends_ret [end_rules]: "exits_in N (ret x)"
  by (simp add: exits_in_def triple_ret)

lemma ends_traceback [end_rules]: "exits_in N (raise (Traceback x))" "exits_in N (raise Still_Waiting)"
  "exits_in N (raise Outside_Schema)" "exits_in N (raise (Exit EXIT_ERROR))"
  by (simp_all add: exits_in_def triple_raise)

lemma ends_modify [end_rules]: "exits_in N (modify f)"
  by (simp add: exits_in_def triple_modify)

lemma ends_if [end_rules]: "exits_in N m \<Longrightarrow> exits_in N m' \<Longrightarrow> exits_in N (if c then m else m')"
  by simp

lemma ends_when [end_rules]: "exits_in N m \<Longrightarrow> exits_in N (when_s c m)"
  by (simp add: when_s_def ends_ret)

lemma ends_for [end_rules]: "(\<And>x acc. exits_in N (body x acc)) \<Longrightarrow> exits_in N (for_s xs acc body)"
  by (induction xs arbitrary: acc) (simp_all add: ends_ret ends_bind)

lemma ends_option [end_rules]:
  "exits_in N m \<Longrightarrow> (\<And>x. exits_in N (f x)) \<Longrightarrow> exits_in N (case v of None \<Rightarrow> m | Some x \<Rightarrow> f x)"
  by (cases v) auto

lemma ends_sum [end_rules]:
  "(\<And>x. exits_in N (f x)) \<Longrightarrow> (\<And>x. exits_in N (g x)) \<Longrightarrow> exits_in N (case v of Inl x \<Rightarrow> f x | Inr x \<Rightarrow> g x)"
  by (cases v) auto

lemma ends_steps [end_rules]:
  "exits_in N (echo t)" "exits_in N (echo_err t)" "exits_in N (fail t)"
  by (simp_all add: echo_def echo_err_def fail_def end_rules)

lemma ends_files [end_rules]:
  "exits_in N (read_text env p)" "exits_in N (write_text env p t)" "exits_in N (read_optional env q)"
  by (auto simp: read_text_def write_text_def read_optional_def end_rules split: option.split sum.split)

lemma ends_client [end_rules]: "exits_in N (fail_api e)" "exits_in N (fail_fetch t e)"
  by (auto simp: fail_api_def fail_fetch_def end_rules split: client_error.split)

lemma ends_policy [end_rules]:
  "exits_in N (resolve_policy_path env e a)" "exits_in N (checked_policy env r)" "exits_in N (load_policy_at env p)"
  "exits_in N (read_policy env w q)"
proof -
  show c: "exits_in N (checked_policy env r)" for r
    by (auto simp: checked_policy_def end_rules split: sum.split)
  show l: "exits_in N (load_policy_at env p)" for p
    unfolding load_policy_at_def by (intro end_rules c)
  show "exits_in N (resolve_policy_path env e a)"
    unfolding resolve_policy_path_def by (intro end_rules)
  show "exits_in N (read_policy env w q)"
    unfolding read_policy_def by (intro end_rules l)
qed

lemma exits_inD: "exits_in N m \<Longrightarrow> m s = (Inl (Exit n), s') \<Longrightarrow> n = EXIT_ERROR \<or> n \<in> N"
  unfolding exits_in_def by (drule tripleD_error) auto

text \<open>The same with a fact about the value a step hands on.\<close>

definition delivers :: "('a \<Rightarrow> bool) \<Rightarrow> int set \<Rightarrow> 'a cli \<Rightarrow> bool" where
  "delivers P N m \<longleftrightarrow> triple (\<lambda>_. True) m (\<lambda>x _. P x) (\<lambda>e _. \<forall>n. e = Exit n \<longrightarrow> n = EXIT_ERROR \<or> n \<in> N)"

lemma delivers_bind: "delivers P N m \<Longrightarrow> (\<And>x. P x \<Longrightarrow> delivers Q N (f x)) \<Longrightarrow> delivers Q N (bind_s m f)"
  unfolding delivers_def by (rule triple_bind [where R = "\<lambda>x s. P x"], assumption) (auto simp: triple_def)

lemma delivers_step: "exits_in N m \<Longrightarrow> (\<And>x. delivers Q N (f x)) \<Longrightarrow> delivers Q N (bind_s m f)"
  unfolding delivers_def exits_in_def by (rule triple_bind)

lemma delivers_ret: "P x \<Longrightarrow> delivers P N (ret x)"
  by (simp add: delivers_def triple_ret)

lemma delivers_raise: "exits_in N (raise e) \<Longrightarrow> delivers P N (raise e)"
  by (simp add: delivers_def exits_in_def triple_def raise_def)

lemma delivers_fail: "delivers P N (fail t)"
  unfolding fail_def by (intro delivers_step delivers_raise end_rules)

lemma deliversD:
  assumes "delivers P N m" "m s = (r, s')"
  shows "(\<forall>x. r = Inr x \<longrightarrow> P x) \<and> (\<forall>n. r = Inl (Exit n) \<longrightarrow> n = EXIT_ERROR \<or> n \<in> N)"
proof -
  from assms(1) have "\<forall>s. case m s of (Inl e, s') \<Rightarrow> \<forall>n. e = Exit n \<longrightarrow> n = EXIT_ERROR \<or> n \<in> N | (Inr x, s') \<Rightarrow> P x"
    unfolding delivers_def triple_def by simp
  from this [rule_format, of s] assms(2) show ?thesis by (cases r) auto
qed

subsection \<open>Which policy a command enforces\<close>

definition chosen_policy :: "cli_env \<Rightarrow> path option \<Rightarrow> path \<Rightarrow> path option" where
  "chosen_policy env explicit artifact =
     (case explicit of Some p \<Rightarrow> Some p | None \<Rightarrow> discover env (if is_file env artifact then butlast artifact else ce_cwd env))"

lemma resolve_delivers: "delivers (\<lambda>p. p = chosen_policy env e a) N (resolve_policy_path env e a)"
  unfolding resolve_policy_path_def chosen_policy_def
  by (cases e) (auto intro: delivers_ret delivers_fail)

text \<open>The text that is sent is the file's, and the policy the client reads in it is \<open>p\<close>; without a file the text is
  empty and the policy the default.\<close>

definition policy_in :: "cli_env \<Rightarrow> path option \<Rightarrow> string \<Rightarrow> policy \<Rightarrow> bool" where
  "policy_in env q text p =
     (case q of
        None \<Rightarrow> text = [] \<and> p = default_policy
      | Some f \<Rightarrow> (\<exists>t. ce_file env f = Some (Inr t) \<and> text = universal_newlines t)
                 \<and> load_policy (ce_yaml env) (show_path f) (Some text) = Inr p)"

lemma read_text_delivers: "delivers (\<lambda>y. \<exists>t. ce_file env f = Some (Inr t) \<and> y = universal_newlines t) N (read_text env f)"
  unfolding read_text_def by (auto intro!: delivers_ret delivers_raise end_rules split: option.split sum.split)

lemma checked_policy_delivers: "delivers (\<lambda>p. r = Inr p) N (checked_policy env r)"
  unfolding checked_policy_def by (cases r) (auto intro!: delivers_ret delivers_raise delivers_fail end_rules)

lemma load_policy_delivers:
  assumes "ce_file env f = Some (Inr t)"
  shows "delivers (\<lambda>p. load_policy (ce_yaml env) (show_path f) (Some (universal_newlines t)) = Inr p) N (load_policy_at env f)"
proof -
  have "delivers (\<lambda>p. load_policy (ce_yaml env) (show_path f) (Some (universal_newlines t)) = Inr p) N
      (bind_s (read_text env f) (\<lambda>t. checked_policy env (load_policy (ce_yaml env) (show_path f) (Some t))))"
    using assms by (intro delivers_bind [OF read_text_delivers]) (auto intro: checked_policy_delivers)
  then show ?thesis using assms by (simp add: load_policy_at_def is_file_def)
qed

lemma read_policy_delivers: "delivers (\<lambda>text. \<exists>p. policy_in env q text p) N (read_policy env w q)"
proof (cases q)
  case None
  show ?thesis unfolding read_policy_def None option.case
    by (intro delivers_step delivers_ret end_rules) (auto simp: policy_in_def)
next
  case (Some f)
  show ?thesis unfolding read_policy_def Some option.case
  proof (rule delivers_bind [OF read_text_delivers])
    fix y assume "\<exists>t. ce_file env f = Some (Inr t) \<and> y = universal_newlines t"
    then obtain t where t: "ce_file env f = Some (Inr t)" "y = universal_newlines t" by blast
    show "delivers (\<lambda>text. \<exists>p. policy_in env (Some f) text p) N
       (bind_s (load_policy_at env f) (\<lambda>loaded. bind_s (echo (''policy: '' @ p_name loaded @ '' ('' @ show_path f @ '')'')) (\<lambda>_. ret y)))"
    proof (rule delivers_bind [OF load_policy_delivers [OF t(1)]])
      fix p assume "load_policy (ce_yaml env) (show_path f) (Some (universal_newlines t)) = Inr p"
      with t have "policy_in env (Some f) y p" by (auto simp: policy_in_def)
      then show "delivers (\<lambda>text. \<exists>p. policy_in env (Some f) text p) N
         (bind_s (echo (''policy: '' @ p_name p @ '' ('' @ show_path f @ '')'')) (\<lambda>_. ret y))"
        by (intro delivers_step delivers_ret end_rules) blast
    qed
  qed
qed

end
