(* ===== verification/Cli_Logs.thy ===== *)
theory Cli_Logs
  imports Cli_Client Py_Dict
begin

text \<open>
  Following the analyzer logs of a scan from a terminal (\<open>cli/log_follow.py\<close>): making a line safe to print, taking
  a log document apart, and printing at each poll what is new. The log endpoint's answer for each stage at a poll
  is a parameter.
\<close>

subsection \<open>Making a line safe\<close>

definition UNSAFE_RANGES :: "(nat \<times> nat) list" where
  "UNSAFE_RANGES = [(0x00, 0x08), (0x0A, 0x1F), (0x7F, 0x9F), (0x2028, 0x2029), (0x202A, 0x202E), (0x2066, 0x2069)]"

definition unsafe_code :: "nat \<Rightarrow> bool" where
  "unsafe_code n \<longleftrightarrow> list_ex (\<lambda>(a, b). a \<le> n \<and> n \<le> b) UNSAFE_RANGES"

definition escape_code :: "nat \<Rightarrow> string" where
  "escape_code n = (if n < 0x100 then [CHR 0x5C, CHR ''x''] @ hex_width 2 n else [CHR 0x5C, CHR ''u''] @ hex_width 4 n)"

definition safe_char :: "string \<Rightarrow> string" where
  "safe_char u = (if unsafe_code (code_point u) then escape_code (code_point u) else u)"

definition sanitize :: "string \<Rightarrow> string" where
  "sanitize line = concat (map safe_char (utf8_chars line))"

subsection \<open>The lines of a document\<close>

definition STDOUT_HEADLINE :: string where "STDOUT_HEADLINE = ''--- stdout ---'' @ [CHR 0x0A]"
definition STDERR_HEADLINE :: string where "STDERR_HEADLINE = [CHR 0x0A] @ ''--- stderr ---'' @ [CHR 0x0A]"

text \<open>\<open>text.partition(sep)\<close> without its middle part.\<close>

fun split_at :: "string \<Rightarrow> string \<Rightarrow> string \<times> string" where
  "split_at sep [] = ([], [])"
| "split_at sep (c # cs) =
     (if starts_with sep (c # cs) then ([], drop (length sep) (c # cs))
      else (let (a, b) = split_at sep cs in (c # a, b)))"

definition drop_prefix :: "string \<Rightarrow> string \<Rightarrow> string" where
  "drop_prefix p t = (if starts_with p t then drop (length p) t else t)"

definition log_lines :: "string \<Rightarrow> string list" where
  "log_lines t =
     (if t = [] then []
      else split_on (CHR 0x0A) (if last t = CHR 0x0A then butlast t else t))"

definition split_streams :: "string \<Rightarrow> (string \<times> string list) list" where
  "split_streams document =
     (let (out, err) = split_at STDERR_HEADLINE (drop_prefix STDOUT_HEADLINE document)
      in [(''stdout'', log_lines out), (''stderr'', log_lines err)])"

subsection \<open>The follower\<close>

datatype log_event = Echo string | Warn string

record follower =
  fw_printed :: "(string \<times> string, nat) dict"
  fw_status :: "(string, string) dict"
  fw_settled :: "string set"
  fw_disabled :: bool

definition new_follower :: follower where
  "new_follower = \<lparr>fw_printed = [], fw_status = [], fw_settled = {}, fw_disabled = False\<rparr>"

definition UNFINISHED :: "string set" where "UNFINISHED = {''pending'', ''running''}"

definition print_stream :: "string \<Rightarrow> string \<Rightarrow> string \<times> string list \<Rightarrow> follower \<Rightarrow> log_event list \<times> follower" where
  "print_stream stage_id analyzer s f =
     (case s of (stream, ls) \<Rightarrow>
        let printed = (case map_of (fw_printed f) (stage_id, stream) of Some n \<Rightarrow> n | None \<Rightarrow> 0);
            tag = ''['' @ analyzer @ '':'' @ stream @ ''] ''
        in ((if length ls < printed then [Echo (tag @ ''[bare: log rewritten; earlier lines may differ]'')] else [])
            @ map (\<lambda>l. Echo (tag @ sanitize l)) (drop printed ls),
            f\<lparr>fw_printed := AList.update (stage_id, stream) (length ls) (fw_printed f)\<rparr>))"

fun print_streams :: "string \<Rightarrow> string \<Rightarrow> (string \<times> string list) list \<Rightarrow> follower \<Rightarrow> log_event list \<times> follower" where
  "print_streams stage_id analyzer [] f = ([], f)"
| "print_streams stage_id analyzer (s # ss) f =
     (let (es, f) = print_stream stage_id analyzer s f; (es', f) = print_streams stage_id analyzer ss f in (es @ es', f))"

definition print_new :: "string \<Rightarrow> string \<Rightarrow> string \<Rightarrow> follower \<Rightarrow> log_event list \<times> follower" where
  "print_new stage_id analyzer document f = print_streams stage_id analyzer (split_streams document) f"

definition note_status :: "string \<Rightarrow> string \<Rightarrow> string \<Rightarrow> follower \<Rightarrow> log_event list \<times> follower" where
  "note_status stage_id analyzer status f =
     (if map_of (fw_status f) stage_id \<noteq> Some status
      then ([Echo (''['' @ analyzer @ ''] '' @ status)], f\<lparr>fw_status := AList.update stage_id status (fw_status f)\<rparr>)
      else ([], f))"

type_synonym log_source = "string \<Rightarrow> client_error + (string \<times> string) option"

text \<open>One stage of a poll: what is printed, and the exception that escapes, if any.\<close>

definition follow_stage :: "log_source \<Rightarrow> pyval \<Rightarrow> follower \<Rightarrow> log_event list \<times> (string + follower)" where
  "follow_stage fetch stage f =
     (case stage of
        PDict d \<Rightarrow>
          (let stage_id = got_str d ''id'' [] in
           if stage_id = [] \<or> stage_id \<in> fw_settled f then ([], Inr f)
           else
             (let analyzer = got_str d ''analyzer'' ''?''; status = got_str d ''status'' [];
                  (es, f) = note_status stage_id analyzer status f
              in case fetch stage_id of
                   Inl (Api_Error e) \<Rightarrow>
                     if ae_status e \<in> {Some 401, Some 403}
                     then (es @ [Warn ''analyzer logs need an admin-scoped token; continuing without them''], Inr (f\<lparr>fw_disabled := True\<rparr>))
                     else (es @ [Warn (''could not read the '' @ analyzer @ '' log: '' @ ae_message e)], Inr f)
                 | Inl (Escapes e) \<Rightarrow> (es, Inl e)
                 | Inr fetched \<Rightarrow>
                     (let (es', f) = (case fetched of Some (document, state) \<Rightarrow> print_new stage_id analyzer document f | None \<Rightarrow> ([], f))
                      in (es @ es', Inr (if status \<notin> UNFINISHED then f\<lparr>fw_settled := insert stage_id (fw_settled f)\<rparr> else f)))))
      | _ \<Rightarrow> ([], Inl ''AttributeError''))"

fun follow_stages :: "log_source \<Rightarrow> pyval list \<Rightarrow> follower \<Rightarrow> log_event list \<times> (string + follower)" where
  "follow_stages fetch [] f = ([], Inr f)"
| "follow_stages fetch (s # ss) f =
     (if fw_disabled f then ([], Inr f)
      else case follow_stage fetch s f of
             (es, Inl e) \<Rightarrow> (es, Inl e)
           | (es, Inr f) \<Rightarrow> (let (es', r) = follow_stages fetch ss f in (es @ es', r)))"

definition poll_logs :: "log_source \<Rightarrow> (pyval \<times> pyval) list \<Rightarrow> follower \<Rightarrow> log_event list \<times> (string + follower)" where
  "poll_logs fetch run f =
     (if fw_disabled f then ([], Inr f)
      else case py_iter (got_or run ''stages'' (PList [])) of
             Inl e \<Rightarrow> ([], Inl e)
           | Inr ss \<Rightarrow> follow_stages fetch ss f)"

subsection \<open>What is printed is safe\<close>

lemma hex_digit_ascii: "n < 16 \<Longrightarrow> 32 < (of_char (hex_digit n) :: nat) \<and> (of_char (hex_digit n) :: nat) < 127"
  by (simp add: hex_digit_def)

lemma show_hex_ascii: "c \<in> set (show_hex n) \<Longrightarrow> 32 < (of_char c :: nat) \<and> (of_char c :: nat) < 127"
proof (induction n rule: show_hex.induct)
  case (1 n)
  then show ?case
    using hex_digit_ascii [of n] hex_digit_ascii [of "n mod 16"]
    by (subst (asm) (2) show_hex.simps) (auto split: if_splits)
qed

lemma escape_code_ascii: "c \<in> set (escape_code n) \<Longrightarrow> 32 < (of_char c :: nat) \<and> (of_char c :: nat) < 127"
  using show_hex_ascii by (auto simp: escape_code_def hex_width_def Let_def split: if_splits)

text \<open>A printed line is made of characters outside the dangerous ranges and of escapes in printable ASCII, in the order
  of the line.\<close>

definition harmless :: "string \<Rightarrow> bool" where
  "harmless u \<longleftrightarrow> \<not> unsafe_code (code_point u) \<or> list_all (\<lambda>c. 32 < (of_char c :: nat) \<and> (of_char c :: nat) < 127) u"

theorem printed_lines_are_harmless:
  "\<exists>us. sanitize line = concat us \<and> length us = length (utf8_chars line) \<and> list_all harmless us"
proof (intro exI conjI)
  show "sanitize line = concat (map safe_char (utf8_chars line))" by (simp add: sanitize_def)
  show "length (map safe_char (utf8_chars line)) = length (utf8_chars line)" by simp
  show "list_all harmless (map safe_char (utf8_chars line))"
    using escape_code_ascii by (auto simp: list_all_iff harmless_def safe_char_def)
qed

subsection \<open>What is printed, and what is lost\<close>

text \<open>When a stage's lines only grow by whole lines, each is printed once, in order.\<close>

definition stream_events :: "string \<Rightarrow> string \<Rightarrow> string list \<Rightarrow> log_event list" where
  "stream_events analyzer stream ls = map (\<lambda>l. Echo (''['' @ analyzer @ '':'' @ stream @ ''] '' @ sanitize l)) ls"

fun print_documents :: "string \<Rightarrow> string \<Rightarrow> string \<Rightarrow> string list list \<Rightarrow> follower \<Rightarrow> log_event list \<times> follower" where
  "print_documents stage_id analyzer stream [] f = ([], f)"
| "print_documents stage_id analyzer stream (ls # rest) f =
     (let (es, f) = print_stream stage_id analyzer (stream, ls) f;
          (es', f) = print_documents stage_id analyzer stream rest f in (es @ es', f))"

definition printed_count :: "string \<Rightarrow> string \<Rightarrow> follower \<Rightarrow> nat" where
  "printed_count stage_id stream f = (case map_of (fw_printed f) (stage_id, stream) of Some n \<Rightarrow> n | None \<Rightarrow> 0)"

lemma print_stream_events:
  assumes "printed_count stage_id stream f \<le> length ls"
  shows "fst (print_stream stage_id analyzer (stream, ls) f) = stream_events analyzer stream (drop (printed_count stage_id stream f) ls)"
    "printed_count stage_id stream (snd (print_stream stage_id analyzer (stream, ls) f)) = length ls"
  using assms by (simp_all add: print_stream_def Let_def printed_count_def stream_events_def update_conv)

lemma growing_log_from:
  assumes "sorted_wrt (\<lambda>a b. \<exists>c. b = a @ c) (seen # docs)" "printed_count stage_id stream f = length seen"
  shows "fst (print_documents stage_id analyzer stream docs f) = stream_events analyzer stream (drop (length seen) (last (seen # docs)))"
  using assms
proof (induction docs arbitrary: seen f)
  case Nil
  then show ?case by (simp add: stream_events_def)
next
  case (Cons d docs)
  from Cons.prems(1) obtain c where c: "d = seen @ c" by auto
  have le: "printed_count stage_id stream f \<le> length d" using Cons.prems(2) c by simp
  obtain es f' where ps: "print_stream stage_id analyzer (stream, d) f = (es, f')" by (cases "print_stream stage_id analyzer (stream, d) f")
  from print_stream_events [OF le, of analyzer] ps Cons.prems(2) c
  have es: "es = stream_events analyzer stream c" and f': "printed_count stage_id stream f' = length d" by simp_all
  from Cons.prems(1) have grow: "sorted_wrt (\<lambda>a b. \<exists>c. b = a @ c) (d # docs)" by simp
  have "\<exists>e. last (d # docs) = d @ e"
  proof (cases "docs = []")
    case False
    then have "last docs \<in> set docs" by simp
    with grow False show ?thesis by auto
  qed simp
  then obtain e where e: "last (d # docs) = d @ e" ..
  have last: "last (seen # d # docs) = last (d # docs)" by simp
  have "fst (print_documents stage_id analyzer stream (d # docs) f) = es @ fst (print_documents stage_id analyzer stream docs f')"
    by (simp add: ps split: prod.split)
  also have "\<dots> = stream_events analyzer stream (c @ e)"
    unfolding Cons.IH [OF grow f'] es e by (simp add: stream_events_def)
  also have "c @ e = drop (length seen) (last (seen # d # docs))" by (simp only: last e) (simp add: c)
  finally show ?case .
qed

theorem growing_log_is_printed_once:
  assumes "sorted_wrt (\<lambda>a b. \<exists>c. b = a @ c) docs" "docs \<noteq> []"
  shows "fst (print_documents stage_id analyzer stream docs new_follower) = stream_events analyzer stream (last docs)"
proof -
  have "sorted_wrt (\<lambda>a b. \<exists>c. b = a @ c) ([] # docs)" using assms(1) by simp
  moreover have "printed_count stage_id stream new_follower = length []" by (simp add: printed_count_def new_follower_def)
  ultimately show ?thesis using growing_log_from [of "[]" docs] assms(2) by simp
qed

text \<open>A snapshot that ends within a line loses the rest of it: the line counts as printed.\<close>

lemma partial_line_is_lost:
  "fst (print_documents ''s'' ''a'' ''stdout'' [log_lines ''sca'', log_lines (''scanned'' @ [CHR 0x0A])] new_follower)
     = stream_events ''a'' ''stdout'' [''sca'']"
  by (simp add: log_lines_def print_stream_def Let_def new_follower_def stream_events_def update_conv)

end
