(* ===== verification/Cli_Output.thy ===== *)
theory Cli_Output
  imports Policy_Model Py_Json
begin

text \<open>
  A verdict for a build log, a pipeline step and a job summary (\<open>cli/gate_output.py\<close>).
\<close>

definition RULE_LINE :: string where "RULE_LINE = replicate 72 CHR ''-''"

definition severity_order :: "string \<Rightarrow> nat" where
  "severity_order s = (case severity_of s of Some sev \<Rightarrow> severity_rank sev | None \<Rightarrow> 9)"

definition next_step :: "gate_verdict \<Rightarrow> string" where
  "next_step v =
     (case gv_decision v of
        PASS \<Rightarrow> ''Release may proceed.''
      | INCONCLUSIVE \<Rightarrow> ''The scan did not complete, so this artifact was not fully examined. Re-run the scan; if it degrades again, raise the analyzer limits rather than lowering the gate.''
      | BLOCKED \<Rightarrow> ''Remove the value from the artifact and rotate it if it is live. If it is genuinely benign, waive it for a limited time: bare waive <finding-id> --reason ... --owner ... --expires 30d'')"

subsection \<open>Text\<close>

definition counts_line :: "gate_verdict \<Rightarrow> string" where
  "counts_line v =
     (if gv_counts v = [] then ''  findings : none''
      else ''  findings : ''
        @ join '', '' (map (\<lambda>(severity, n). show_nat n @ '' '' @ severity) (sort_key (\<lambda>kv. severity_order (fst kv)) (gv_counts v)))
        @ ''  ('' @ show_nat (sum_list (map snd (gv_new_counts v))) @ '' new in this build)'')"

definition violation_lines :: "violation \<Rightarrow> string list" where
  "violation_lines x =
     [''    '' @ violation_render x,
      ''             '' @ v_detail x @ (if v_finding_id x \<noteq> [] then ''  ['' @ v_finding_id x @ '']'' else [])]"

definition waived_line :: "waived_finding \<Rightarrow> string" where
  "waived_line w =
     ''    '' @ pad_right 8 (severity_value (wf_severity w)) @ '' '' @ wf_title w @ '' '' @ em_dash @ '' '' @ wf_owner w
       @ '', expires '' @ isoformat (wf_expires w)"

definition verdict_lines :: "gate_verdict \<Rightarrow> string \<Rightarrow> string \<Rightarrow> string list" where
  "verdict_lines v artifact run_url =
     [RULE_LINE, ''  BARE RELEASE GATE '' @ em_dash @ '' '' @ map upper_char (decision_value (gv_decision v)), RULE_LINE]
     @ (if artifact \<noteq> [] then [''  artifact : '' @ artifact] else [])
     @ [''  policy   : '' @ gv_policy_name v]
     @ (if run_url \<noteq> [] then [''  report   : '' @ run_url] else [])
     @ [counts_line v, '''']
     @ (if gv_violations v \<noteq> []
        then (''  BLOCKING ('' @ show_nat (length (gv_violations v)) @ ''):'') # concat (map violation_lines (gv_violations v)) @ [''''] else [])
     @ (if gv_waived v \<noteq> []
        then (''  WAIVED ('' @ show_nat (length (gv_waived v)) @ ''):'') # map waived_line (gv_waived v) @ [''''] else [])
     @ (if gv_inherited v \<noteq> []
        then [''  INHERITED ('' @ show_nat (length (gv_inherited v)) @ ''): present in the baseline, still shipped, not introduced by this build'', '''']
        else [])
     @ map (\<lambda>w. ''  warning: '' @ w) (gv_warnings v) @ (if gv_warnings v \<noteq> [] then [''''] else [])
     @ [''  '' @ next_step v, RULE_LINE]"

definition render_verdict_text :: "gate_verdict \<Rightarrow> string \<Rightarrow> string \<Rightarrow> string" where
  "render_verdict_text v artifact run_url = join [CHR 0x0A] (verdict_lines v artifact run_url)"

subsection \<open>JSON\<close>

text \<open>\<open>sort_keys=True\<close> for documents whose keys are text.\<close>

fun sort_document :: "pyval \<Rightarrow> pyval" where
  "sort_document (PList xs) = PList (map sort_document xs)"
| "sort_document (PDict kvs) = PDict (sort_key (\<lambda>kv. py_str (fst kv)) (map (\<lambda>(k, v). (k, sort_document v)) kvs))"
| "sort_document v = v"

definition json_counts :: "(string, nat) dict \<Rightarrow> pyval" where
  "json_counts d = PDict (map (\<lambda>(k, n). (PStr k, PInt (int n))) d)"

definition violation_json :: "violation \<Rightarrow> pyval" where
  "violation_json x = PDict
     [(PStr ''kind'', PStr (kind_value (v_kind x))), (PStr ''detail'', PStr (v_detail x)),
      (PStr ''finding_id'', PStr (v_finding_id x)), (PStr ''rule_id'', PStr (v_rule_id x)),
      (PStr ''severity'', (case v_severity x of Some s \<Rightarrow> PStr (severity_value s) | None \<Rightarrow> PNone)),
      (PStr ''title'', PStr (v_title x)), (PStr ''artifact_path'', PStr (v_artifact_path x))]"

definition waived_json :: "waived_finding \<Rightarrow> pyval" where
  "waived_json w = PDict
     [(PStr ''finding_id'', PStr (wf_finding_id w)), (PStr ''title'', PStr (wf_title w)),
      (PStr ''severity'', PStr (severity_value (wf_severity w))), (PStr ''owner'', PStr (wf_owner w)),
      (PStr ''reason'', PStr (wf_reason w)), (PStr ''expires'', PStr (isoformat (wf_expires w)))]"

definition verdict_json :: "gate_verdict \<Rightarrow> string \<Rightarrow> string \<Rightarrow> string \<Rightarrow> pyval" where
  "verdict_json v run_id artifact baseline = PDict
     [(PStr ''decision'', PStr (decision_value (gv_decision v))), (PStr ''exit_code'', PInt (verdict_exit_code v)),
      (PStr ''policy'', PStr (gv_policy_name v)), (PStr ''run_id'', PStr run_id), (PStr ''artifact'', PStr artifact),
      (PStr ''baseline'', PStr baseline), (PStr ''counts_by_severity'', json_counts (gv_counts v)),
      (PStr ''new_counts_by_severity'', json_counts (gv_new_counts v)),
      (PStr ''total_findings'', PInt (int (gv_total v))),
      (PStr ''degraded_stages'', PList (map PStr (gv_degraded_stages v))),
      (PStr ''warnings'', PList (map PStr (gv_warnings v))),
      (PStr ''violations'', PList (map violation_json (gv_violations v))),
      (PStr ''waived'', PList (map waived_json (gv_waived v))),
      (PStr ''inherited_count'', PInt (int (length (gv_inherited v))))]"

definition render_verdict_json :: "gate_verdict \<Rightarrow> string \<Rightarrow> string \<Rightarrow> string \<Rightarrow> string" where
  "render_verdict_json v run_id artifact baseline =
     (case json_pretty 0 (sort_document (verdict_json v run_id artifact baseline)) of Some t \<Rightarrow> t | None \<Rightarrow> []) @ [CHR 0x0A]"

subsection \<open>Markdown\<close>

fun verdict_icon :: "gate_decision \<Rightarrow> string" where
  "verdict_icon PASS = [CHR 0xE2, CHR 0x9C, CHR 0x85]"
| "verdict_icon BLOCKED = [CHR 0xF0, CHR 0x9F, CHR 0x9A, CHR 0xAB]"
| "verdict_icon INCONCLUSIVE = [CHR 0xE2, CHR 0x9A, CHR 0xA0, CHR 0xEF, CHR 0xB8, CHR 0x8F]"

definition or_dash :: "string \<Rightarrow> string" where
  "or_dash t = (if t \<noteq> [] then t else em_dash)"

definition violation_row :: "violation \<Rightarrow> string" where
  "violation_row x =
     ''| '' @ (case v_severity x of Some s \<Rightarrow> severity_value s | None \<Rightarrow> em_dash) @ '' | '' @ or_dash (v_title x)
       @ '' | `'' @ or_dash (v_artifact_path x) @ ''` | '' @ v_detail x @ '' | ''
       @ (if v_finding_id x \<noteq> [] then ''`'' @ v_finding_id x @ ''`'' else em_dash) @ '' |''"

definition render_markdown :: "gate_verdict \<Rightarrow> string \<Rightarrow> string \<Rightarrow> string" where
  "render_markdown v artifact run_url =
     join [CHR 0x0A]
       ([''## '' @ verdict_icon (gv_decision v) @ '' BARE release gate '' @ em_dash @ '' '' @ decision_value (gv_decision v), '''']
        @ (if artifact \<noteq> [] then [''**Artifact:** `'' @ artifact @ ''`  ''] else [])
        @ [''**Policy:** `'' @ gv_policy_name v @ ''`  '']
        @ (if run_url \<noteq> [] then [''**Full report:** '' @ run_url @ ''  ''] else [])
        @ ['''']
        @ (if gv_violations v \<noteq> []
           then [''### Blocking findings'', '''', ''| Severity | Finding | Location | Why | Id |'', ''| --- | --- | --- | --- | --- |'']
             @ map violation_row (gv_violations v) @ [''''] else [])
        @ (if gv_inherited v \<noteq> []
           then [''_'' @ show_nat (length (gv_inherited v)) @ '' inherited finding(s) are still present in this artifact but were not introduced by this build._'', '''']
           else [])
        @ map (\<lambda>w. ''> '' @ verdict_icon INCONCLUSIVE @ '' '' @ w) (gv_warnings v)
        @ ['''', next_step v])
     @ [CHR 0x0A]"

subsection \<open>What a report shows\<close>

text \<open>The report of a blocked build shows, for each finding that blocks it, the whole id that a waiver needs.\<close>

theorem blocking_ids_are_printed:
  assumes "x \<in> set (gv_violations v)" "v_finding_id x \<noteq> []"
  shows "\<exists>l \<in> set (verdict_lines v artifact run_url). contains (''['' @ v_finding_id x @ '']'') l"
proof
  let ?l = "''             '' @ v_detail x @ ''  ['' @ v_finding_id x @ '']''"
  show "?l \<in> set (verdict_lines v artifact run_url)"
    using assms by (force simp: verdict_lines_def violation_lines_def)
  show "contains (''['' @ v_finding_id x @ '']'') ?l"
    unfolding contains_iff by (rule exI [of _ "''             '' @ v_detail x @ ''  ''"], rule exI [of _ "[]"]) simp
qed

end
