(* ===== verification/Sbom_Diff.thy ===== *)
theory Sbom_Diff
  imports Py_Json Py_Dict Canonical_Order
begin

text \<open>
  The comparison of two CycloneDX documents (\<open>reporting/sbom_diff.py\<close>): identities, groups, the differences and
  their two renderings. A document is any JSON value; it is refused with a message, or an exception of the
  standard library leaves the function. Sets of versions and licences are lists, compared as sets.
\<close>

datatype diff_error = Sbom_Diff_Error string | Sbom_Raises string

record component_change =
  ch_key :: string
  ch_name :: string
  ch_before :: "string list"
  ch_after :: "string list"

record sbom_diff =
  sd_before_label :: string
  sd_after_label :: string
  sd_added :: "component_change list"
  sd_removed :: "component_change list"
  sd_version_changed :: "component_change list"
  sd_licence_changed :: "component_change list"
  sd_unchanged :: nat
  sd_incomplete :: "string list"

definition has_changes :: "sbom_diff \<Rightarrow> bool" where
  "has_changes s \<longleftrightarrow> sd_added s \<noteq> [] \<or> sd_removed s \<noteq> [] \<or> sd_version_changed s \<noteq> [] \<or> sd_licence_changed s \<noteq> []"

record sbom_group =
  gp_name :: string
  gp_versions :: "string list"
  gp_licences :: "string list"

subsection \<open>Identity\<close>

text \<open>\<open>base.rpartition("/")\<close>: what stands before and after the last slash.\<close>

definition purl_head :: "string \<Rightarrow> string" where
  "purl_head t = rev (tl (dropWhile (\<lambda>c. c \<noteq> CHR ''/'') (rev t)))"

definition purl_tail :: "string \<Rightarrow> string" where
  "purl_tail t = rev (takeWhile (\<lambda>c. c \<noteq> CHR ''/'') (rev t))"

definition purl_identity :: "string \<Rightarrow> string \<Rightarrow> string \<times> string" where
  "purl_identity purl version =
     (let base = takeWhile (\<lambda>c. c \<noteq> CHR ''?'') (takeWhile (\<lambda>c. c \<noteq> CHR ''#'') purl);
          head = purl_head base; tail = purl_tail base;
          bare = takeWhile (\<lambda>c. c \<noteq> CHR ''@'') tail;
          version = (if CHR ''@'' \<in> set tail \<and> version = [] then tl (dropWhile (\<lambda>c. c \<noteq> CHR ''@'') tail) else version)
      in (if head \<noteq> [] then head @ ''/'' @ bare else bare, version))"

definition identity :: "(pyval \<times> pyval) list \<Rightarrow> diff_error + string \<times> string" where
  "identity c =
     (let name = py_strip (py_str (pd_get_or c ''name'' (PStr [])));
          version = py_strip (py_str (got_or c ''version'' (PStr [])));
          by_name = (let g = py_strip (py_str (pd_get_or c ''group'' (PStr []))) in
            if name = [] then Inl (Sbom_Diff_Error ''a component has neither a purl nor a name'')
            else Inr (if g \<noteq> [] then ''name:'' @ g @ ''/'' @ name else ''name:'' @ name, version))
      in case pd_get_or c ''purl'' PNone of
           PStr p \<Rightarrow> if starts_with ''pkg:'' p then Inr (purl_identity p version) else by_name
         | _ \<Rightarrow> by_name)"

subsection \<open>Groups\<close>

definition entry_licences :: "pyval \<Rightarrow> string list" where
  "entry_licences entry =
     (case entry of
        PDict e \<Rightarrow>
          (case pd_get_or e ''expression'' PNone of PStr s \<Rightarrow> [py_strip s] | _ \<Rightarrow> [])
          @ (case pd_get_or e ''license'' PNone of
               PDict l \<Rightarrow> (case got_or l ''id'' (pd_get_or l ''name'' PNone) of PStr s \<Rightarrow> [py_strip s] | _ \<Rightarrow> [])
             | _ \<Rightarrow> [])
      | _ \<Rightarrow> [])"

definition licences_of :: "(pyval \<times> pyval) list \<Rightarrow> diff_error + string list" where
  "licences_of c =
     bind_e (map_sum Sbom_Raises id (py_iter (got_or c ''licenses'' (PList [])))) (\<lambda>entries.
     Inr (concat (map entry_licences entries)))"

definition no_group :: "string \<Rightarrow> sbom_group" where
  "no_group name = \<lparr>gp_name = name, gp_versions = [], gp_licences = []\<rparr>"

definition add_version :: "string \<Rightarrow> string list \<Rightarrow> sbom_group \<Rightarrow> sbom_group" where
  "add_version version licences g = g\<lparr>gp_versions := gp_versions g @ [version], gp_licences := gp_licences g @ licences\<rparr>"

definition group_component :: "(pyval \<times> pyval) list \<Rightarrow> (string, sbom_group) dict \<Rightarrow> diff_error + (string, sbom_group) dict" where
  "group_component c groups =
     bind_e (identity c) (\<lambda>(key, version).
     bind_e (licences_of c) (\<lambda>licences.
     let name = py_str (pd_get_or c ''name'' (PStr []));
         g = (case map_of groups key of Some g \<Rightarrow> g | None \<Rightarrow> no_group (if name \<noteq> [] then name else key))
     in Inr (AList.update key (add_version version licences g) groups)))"

fun groups_from :: "string \<Rightarrow> nat \<Rightarrow> (string, sbom_group) dict \<Rightarrow> pyval list \<Rightarrow> diff_error + (string, sbom_group) dict" where
  "groups_from which i groups [] = Inr groups"
| "groups_from which i groups (c # cs) =
     (case c of
        PDict d \<Rightarrow> bind_e (group_component d groups) (\<lambda>groups. groups_from which (Suc i) groups cs)
      | _ \<Rightarrow> Inl (Sbom_Diff_Error (''the '' @ which @ '' document'' @ [CHR 0x27] @ ''s components['' @ show_nat i @ ''] is not an object'')))"

definition sbom_groups :: "pyval \<Rightarrow> string \<Rightarrow> diff_error + (string, sbom_group) dict" where
  "sbom_groups document which =
     (let refused = Inl (Sbom_Diff_Error (''the '' @ which @ '' document is not a CycloneDX SBOM'')) in
      case document of
        PDict d \<Rightarrow>
          if pd_get_or d ''bomFormat'' PNone \<noteq> PStr ''CycloneDX'' then refused
          else (case pd_get_or d ''components'' (PList []) of
                  PNone \<Rightarrow> Inr []
                | PList cs \<Rightarrow> groups_from which 0 [] cs
                | _ \<Rightarrow> Inl (Sbom_Diff_Error (''the '' @ which @ '' document'' @ [CHR 0x27] @ ''s '' @ repr_str ''components'' @ '' is not a list'')))
      | _ \<Rightarrow> refused)"

subsection \<open>Labels\<close>

definition metadata_component :: "pyval \<Rightarrow> (pyval \<times> pyval) list" where
  "metadata_component document =
     (case document of
        PDict d \<Rightarrow> (case pd_get_or d ''metadata'' PNone of
            PDict m \<Rightarrow> (case pd_get_or m ''component'' PNone of PDict c \<Rightarrow> c | _ \<Rightarrow> [])
          | _ \<Rightarrow> [])
      | _ \<Rightarrow> [])"

fun first_property :: "string \<Rightarrow> pyval list \<Rightarrow> string option" where
  "first_property name [] = None"
| "first_property name (p # ps) =
     (case p of
        PDict d \<Rightarrow> if pd_get_or d ''name'' PNone = PStr name then Some (py_str (pd_get_or d ''value'' (PStr [])))
                   else first_property name ps
      | _ \<Rightarrow> first_property name ps)"

definition sbom_property :: "pyval \<Rightarrow> string \<Rightarrow> diff_error + string option" where
  "sbom_property document name =
     bind_e (map_sum Sbom_Raises id (py_iter (got_or (metadata_component document) ''properties'' (PList [])))) (\<lambda>ps.
     Inr (first_property name ps))"

definition inventory_complete :: "pyval \<Rightarrow> diff_error + bool" where
  "inventory_complete document =
     bind_e (sbom_property document ''bare:inventory_complete'') (\<lambda>v. Inr (v \<noteq> Some ''false''))"

definition sbom_label :: "pyval \<Rightarrow> string \<Rightarrow> diff_error + string" where
  "sbom_label document fallback =
     (let name = py_strip (py_str (pd_get_or (metadata_component document) ''name'' (PStr []))) in
      bind_e (sbom_property document ''bare:run'') (\<lambda>run.
      let r = (case run of Some t \<Rightarrow> t | None \<Rightarrow> []) in
      Inr (if name \<noteq> [] \<and> r \<noteq> [] then name @ '' (run '' @ r @ '')''
           else if name \<noteq> [] then name else if r \<noteq> [] then ''run '' @ r else fallback)))"

subsection \<open>The difference\<close>

definition change :: "string \<Rightarrow> string \<Rightarrow> string list \<Rightarrow> string list \<Rightarrow> component_change" where
  "change key name before after = \<lparr>ch_key = key, ch_name = name, ch_before = sorted_set before, ch_after = sorted_set after\<rparr>"

definition diff_step ::
  "(string, sbom_group) dict \<Rightarrow> (string, sbom_group) dict \<Rightarrow> sbom_diff \<Rightarrow> string \<Rightarrow> sbom_diff" where
  "diff_step old new s key =
     (case (map_of old key, map_of new key) of
        (None, Some b) \<Rightarrow> s\<lparr>sd_added := sd_added s @ [change key (gp_name b) [] (gp_versions b)]\<rparr>
      | (Some a, None) \<Rightarrow> s\<lparr>sd_removed := sd_removed s @ [change key (gp_name a) (gp_versions a) []]\<rparr>
      | (Some a, Some b) \<Rightarrow>
          (let versions = (set (gp_versions a) \<noteq> set (gp_versions b)); licences = (set (gp_licences a) \<noteq> set (gp_licences b));
               s = (if versions then s\<lparr>sd_version_changed := sd_version_changed s @ [change key (gp_name b) (gp_versions a) (gp_versions b)]\<rparr> else s);
               s = (if licences then s\<lparr>sd_licence_changed := sd_licence_changed s @ [change key (gp_name b) (gp_licences a) (gp_licences b)]\<rparr> else s)
           in s\<lparr>sd_unchanged := sd_unchanged s + (if \<not> versions \<and> \<not> licences then 1 else 0)\<rparr>)
      | (None, None) \<Rightarrow> s)"

definition no_diff :: sbom_diff where
  "no_diff = \<lparr>sd_before_label = [], sd_after_label = [], sd_added = [], sd_removed = [], sd_version_changed = [],
     sd_licence_changed = [], sd_unchanged = 0, sd_incomplete = []\<rparr>"

definition label_or :: "string \<Rightarrow> pyval \<Rightarrow> string \<Rightarrow> diff_error + string" where
  "label_or label document fallback = (if label \<noteq> [] then Inr label else sbom_label document fallback)"

definition diff_sboms :: "pyval \<Rightarrow> pyval \<Rightarrow> string \<Rightarrow> string \<Rightarrow> diff_error + sbom_diff" where
  "diff_sboms before after before_label after_label =
     bind_e (sbom_groups before ''before'') (\<lambda>old.
     bind_e (sbom_groups after ''after'') (\<lambda>new.
     let s = foldl (diff_step old new) no_diff (sorted_set (map fst old @ map fst new)) in
     bind_e (label_or before_label before ''before'') (\<lambda>bl.
     bind_e (label_or after_label after ''after'') (\<lambda>al.
     bind_e (inventory_complete before) (\<lambda>bc.
     bind_e (inventory_complete after) (\<lambda>ac.
     Inr (s\<lparr>sd_before_label := bl, sd_after_label := al,
            sd_incomplete := (if bc then [] else [bl]) @ (if ac then [] else [al])\<rparr>)))))))"

subsection \<open>Rendering\<close>

definition show_values :: "string list \<Rightarrow> string" where
  "show_values vs =
     (let t = join '', '' (map (\<lambda>v. if v \<noteq> [] then v else ''(unversioned)'') vs) in if t \<noteq> [] then t else ''(none)'')"

definition describe_change :: "component_change \<Rightarrow> string \<Rightarrow> string" where
  "describe_change c title =
     (if title = ''ADDED'' then show_values (ch_after c)
      else if title = ''REMOVED'' then show_values (ch_before c)
      else show_values (ch_before c) @ '' -> '' @ show_values (ch_after c))"

definition text_section :: "string \<times> string \<times> component_change list \<Rightarrow> string list" where
  "text_section sec =
     (case sec of (title, mark, cs) \<Rightarrow>
        if cs = [] then []
        else (''  '' @ title @ '' ('' @ show_nat (length cs) @ '')'')
             # map (\<lambda>c. ''    '' @ mark @ '' '' @ ch_key c @ ''  '' @ describe_change c title) cs @ [''''])"

definition rstrip_newlines :: "string \<Rightarrow> string" where
  "rstrip_newlines t = rev (dropWhile (\<lambda>c. c = CHR 0x0A) (rev t))"

definition render_text :: "sbom_diff \<Rightarrow> string" where
  "render_text s =
     rstrip_newlines (join [CHR 0x0A]
       ([''SBOM diff: '' @ sd_before_label s @ '' -> '' @ sd_after_label s,
         ''  '' @ show_nat (length (sd_added s)) @ '' added, '' @ show_nat (length (sd_removed s)) @ '' removed, ''
           @ show_nat (length (sd_version_changed s)) @ '' version changed, '' @ show_nat (length (sd_licence_changed s))
           @ '' licence changed, '' @ show_nat (sd_unchanged s) @ '' unchanged'',
         '''']
        @ concat (map text_section
            [(''ADDED'', ''+'', sd_added s), (''REMOVED'', ''-'', sd_removed s),
             (''VERSION CHANGED'', ''~'', sd_version_changed s), (''LICENCE CHANGED'', ''~'', sd_licence_changed s)])
        @ (if has_changes s then [] else [''  No component changes.'', ''''])
        @ map (\<lambda>l. ''  warning: '' @ l @ '' was built from an incomplete inventory; a component shown as removed or added may only have been outside the walk.'')
            (sd_incomplete s))) @ [CHR 0x0A]"

definition change_json :: "component_change \<Rightarrow> pyval" where
  "change_json c = PDict
     [(PStr ''key'', PStr (ch_key c)), (PStr ''name'', PStr (ch_name c)), (PStr ''before'', PList (map PStr (ch_before c))),
      (PStr ''after'', PList (map PStr (ch_after c)))]"

definition diff_json :: "sbom_diff \<Rightarrow> pyval" where
  "diff_json s = PDict
     [(PStr ''before'', PStr (sd_before_label s)), (PStr ''after'', PStr (sd_after_label s)),
      (PStr ''added'', PList (map change_json (sd_added s))), (PStr ''removed'', PList (map change_json (sd_removed s))),
      (PStr ''version_changed'', PList (map change_json (sd_version_changed s))),
      (PStr ''licence_changed'', PList (map change_json (sd_licence_changed s))),
      (PStr ''unchanged'', PInt (int (sd_unchanged s))), (PStr ''incomplete'', PList (map PStr (sd_incomplete s))),
      (PStr ''has_changes'', PBool (has_changes s))]"

definition render_json :: "sbom_diff \<Rightarrow> string" where
  "render_json s = (case json_report 0 (diff_json s) of Some t \<Rightarrow> t | None \<Rightarrow> []) @ [CHR 0x0A]"

subsection \<open>What a difference says\<close>

text \<open>The sets the comparison computes, stated of the two groupings.\<close>

definition versions_at :: "(string, sbom_group) dict \<Rightarrow> string \<Rightarrow> string list" where
  "versions_at g k = (case map_of g k of Some x \<Rightarrow> gp_versions x | None \<Rightarrow> [])"

definition licences_at :: "(string, sbom_group) dict \<Rightarrow> string \<Rightarrow> string list" where
  "licences_at g k = (case map_of g k of Some x \<Rightarrow> gp_licences x | None \<Rightarrow> [])"

definition name_at :: "(string, sbom_group) dict \<Rightarrow> string \<Rightarrow> string" where
  "name_at g k = (case map_of g k of Some x \<Rightarrow> gp_name x | None \<Rightarrow> [])"

definition only_in :: "(string, sbom_group) dict \<Rightarrow> (string, sbom_group) dict \<Rightarrow> string \<Rightarrow> bool" where
  "only_in a b k \<longleftrightarrow> map_of a k \<noteq> None \<and> map_of b k = None"

definition in_both :: "(string, sbom_group) dict \<Rightarrow> (string, sbom_group) dict \<Rightarrow> string \<Rightarrow> bool" where
  "in_both a b k \<longleftrightarrow> map_of a k \<noteq> None \<and> map_of b k \<noteq> None"

definition versions_differ :: "(string, sbom_group) dict \<Rightarrow> (string, sbom_group) dict \<Rightarrow> string \<Rightarrow> bool" where
  "versions_differ a b k \<longleftrightarrow> in_both a b k \<and> set (versions_at a k) \<noteq> set (versions_at b k)"

definition licences_differ :: "(string, sbom_group) dict \<Rightarrow> (string, sbom_group) dict \<Rightarrow> string \<Rightarrow> bool" where
  "licences_differ a b k \<longleftrightarrow> in_both a b k \<and> set (licences_at a k) \<noteq> set (licences_at b k)"

lemmas group_defs = versions_at_def licences_at_def name_at_def only_in_def in_both_def versions_differ_def licences_differ_def

lemma diff_step_alt:
  "diff_step old new s k =
     s\<lparr>sd_added := sd_added s @ (if only_in new old k then [change k (name_at new k) [] (versions_at new k)] else []),
       sd_removed := sd_removed s @ (if only_in old new k then [change k (name_at old k) (versions_at old k) []] else []),
       sd_version_changed := sd_version_changed s
         @ (if versions_differ old new k then [change k (name_at new k) (versions_at old k) (versions_at new k)] else []),
       sd_licence_changed := sd_licence_changed s
         @ (if licences_differ old new k then [change k (name_at new k) (licences_at old k) (licences_at new k)] else []),
       sd_unchanged := sd_unchanged s
         + (if in_both old new k \<and> \<not> versions_differ old new k \<and> \<not> licences_differ old new k then 1 else 0)\<rparr>"
  by (cases "map_of old k"; cases "map_of new k") (simp_all add: diff_step_def Let_def group_defs)

lemma diff_steps:
  "foldl (diff_step old new) s ks =
     s\<lparr>sd_added := sd_added s @ map (\<lambda>k. change k (name_at new k) [] (versions_at new k)) (filter (only_in new old) ks),
       sd_removed := sd_removed s @ map (\<lambda>k. change k (name_at old k) (versions_at old k) []) (filter (only_in old new) ks),
       sd_version_changed := sd_version_changed s
         @ map (\<lambda>k. change k (name_at new k) (versions_at old k) (versions_at new k)) (filter (versions_differ old new) ks),
       sd_licence_changed := sd_licence_changed s
         @ map (\<lambda>k. change k (name_at new k) (licences_at old k) (licences_at new k)) (filter (licences_differ old new) ks),
       sd_unchanged := sd_unchanged s
         + length (filter (\<lambda>k. in_both old new k \<and> \<not> versions_differ old new k \<and> \<not> licences_differ old new k) ks)\<rparr>"
  by (induction ks arbitrary: s) (simp_all add: diff_step_alt)

definition diff_keys :: "(string, sbom_group) dict \<Rightarrow> (string, sbom_group) dict \<Rightarrow> string list" where
  "diff_keys old new = sorted_set (map fst old @ map fst new)"

lemma in_diff_keys: "k \<in> set (diff_keys old new) \<longleftrightarrow> map_of old k \<noteq> None \<or> map_of new k \<noteq> None"
  by (simp add: diff_keys_def map_of_eq_None_iff)

text \<open>A comparison that succeeds, in closed form.\<close>

lemma diff_sboms_Inr:
  assumes "diff_sboms b a bl al = Inr d"
  obtains old new where "sbom_groups b ''before'' = Inr old" "sbom_groups a ''after'' = Inr new"
    "sd_added d = map (\<lambda>k. change k (name_at new k) [] (versions_at new k)) (filter (only_in new old) (diff_keys old new))"
    "sd_removed d = map (\<lambda>k. change k (name_at old k) (versions_at old k) []) (filter (only_in old new) (diff_keys old new))"
    "sd_version_changed d = map (\<lambda>k. change k (name_at new k) (versions_at old k) (versions_at new k))
       (filter (versions_differ old new) (diff_keys old new))"
    "sd_licence_changed d = map (\<lambda>k. change k (name_at new k) (licences_at old k) (licences_at new k))
       (filter (licences_differ old new) (diff_keys old new))"
    "sd_unchanged d = length (filter (\<lambda>k. in_both old new k \<and> \<not> versions_differ old new k \<and> \<not> licences_differ old new k)
       (diff_keys old new))"
proof -
  from assms obtain old new where g: "sbom_groups b ''before'' = Inr old" "sbom_groups a ''after'' = Inr new"
    unfolding diff_sboms_def by (auto simp: bind_e_Inr_iff)
  from assms obtain bl' al' inc where
    "d = (foldl (diff_step old new) no_diff (diff_keys old new))\<lparr>sd_before_label := bl', sd_after_label := al', sd_incomplete := inc\<rparr>"
    unfolding diff_sboms_def g diff_keys_def by (auto simp: bind_e_Inr_iff Let_def)
  note d = this
  show thesis
    by (rule that [OF g]) (simp_all add: d diff_steps no_diff_def)
qed

lemma filter_keys: "ch_key ` set (map (\<lambda>k. change k (n k) (u k) (v k)) (filter P ks)) = {k \<in> set ks. P k}"
  by (auto simp: change_def image_iff)

lemma diff_sboms_keys:
  assumes "diff_sboms b a bl al = Inr d"
  obtains old new where "sbom_groups b ''before'' = Inr old" "sbom_groups a ''after'' = Inr new"
    "ch_key ` set (sd_added d) = {k. only_in new old k}" "ch_key ` set (sd_removed d) = {k. only_in old new k}"
    "ch_key ` set (sd_version_changed d) = {k. versions_differ old new k}"
    "ch_key ` set (sd_licence_changed d) = {k. licences_differ old new k}"
proof (rule diff_sboms_Inr [OF assms])
  fix old new
  assume g: "sbom_groups b ''before'' = Inr old" "sbom_groups a ''after'' = Inr new"
    and d: "sd_added d = map (\<lambda>k. change k (name_at new k) [] (versions_at new k)) (filter (only_in new old) (diff_keys old new))"
    "sd_removed d = map (\<lambda>k. change k (name_at old k) (versions_at old k) []) (filter (only_in old new) (diff_keys old new))"
    "sd_version_changed d = map (\<lambda>k. change k (name_at new k) (versions_at old k) (versions_at new k))
       (filter (versions_differ old new) (diff_keys old new))"
    "sd_licence_changed d = map (\<lambda>k. change k (name_at new k) (licences_at old k) (licences_at new k))
       (filter (licences_differ old new) (diff_keys old new))"
  show thesis
    by (rule that [OF g]; unfold d filter_keys in_diff_keys) (auto simp: only_in_def versions_differ_def licences_differ_def in_both_def)
qed

end
