(* ===== verification/Sbom_Export.thy ===== *)
theory Sbom_Export
  imports Composition Sbom_Diff
begin

text \<open>
  The export of an inventory as a CycloneDX document (\<open>reporting/cyclonedx.py\<close>). The hexadecimal SHA-256 of a text
  is a parameter. That two exports of a run are the same bytes holds because the document is a function of its
  arguments; what the export and the comparison of \<open>Sbom_Diff\<close> guarantee together is proved here.
\<close>

subsection \<open>The document\<close>

definition SPEC_VERSION :: string where "SPEC_VERSION = ''1.5''"

fun confidence_score :: "confidence \<Rightarrow> pyval" where
  "confidence_score DECLARED = PFloat 1 ''1.0''"
| "confidence_score EMBEDDED = PFloat (4 / 5) ''0.8''"
| "confidence_score INFERRED = PFloat (1 / 2) ''0.5''"

fun confidence_method :: "confidence \<Rightarrow> string" where
  "confidence_method DECLARED = ''manifest-analysis''"
| "confidence_method EMBEDDED = ''binary-analysis''"
| "confidence_method INFERRED = ''binary-analysis''"

definition text_slice :: "nat \<Rightarrow> nat \<Rightarrow> string \<Rightarrow> string" where
  "text_slice a b t = take (b - a) (drop a t)"

definition serial :: "(string \<Rightarrow> string) \<Rightarrow> string \<Rightarrow> string" where
  "serial sha256 run_id =
     (let digest = sha256 (''bare:'' @ run_id) in
      ''urn:uuid:'' @ text_slice 0 8 digest @ ''-'' @ text_slice 8 12 digest @ ''-'' @ text_slice 12 16 digest @ ''-''
        @ text_slice 16 20 digest @ ''-'' @ text_slice 20 32 digest)"

definition name_value :: "string \<Rightarrow> string \<Rightarrow> pyval" where
  "name_value n v = PDict [(PStr ''name'', PStr n), (PStr ''value'', PStr v)]"

definition component_evidence :: "component \<Rightarrow> pyval" where
  "component_evidence c = PDict [(PStr ''identity'', PDict
     [(PStr ''field'', PStr ''purl''),
      (PStr ''confidence'', confidence_score (cp_confidence c)),
      (PStr ''methods'', PList [PDict
        [(PStr ''technique'', PStr (confidence_method (cp_confidence c))),
         (PStr ''confidence'', confidence_score (cp_confidence c)),
         (PStr ''value'', PStr (if cp_evidence c \<noteq> [] then cp_evidence c else cp_path_in_tree c))]])])]"

definition component_entry :: "component \<Rightarrow> (pyval \<times> pyval) list" where
  "component_entry c =
     [(PStr ''type'', PStr ''library''), (PStr ''bom-ref'', PStr (purl c)), (PStr ''name'', PStr (cp_name c)),
      (PStr ''version'', PStr (cp_version c)), (PStr ''purl'', PStr (purl c)), (PStr ''evidence'', component_evidence c),
      (PStr ''properties'', PList [name_value ''bare:path'' (cp_path_in_tree c),
         name_value ''bare:confidence'' (confidence_value (cp_confidence c))])]
     @ (if cp_licence c \<noteq> [] then [(PStr ''licenses'', PList [PDict [(PStr ''expression'', PStr (cp_licence c))]])] else [])"

record sbom_subject =
  sj_run_id :: string
  sj_artifact_name :: string
  sj_artifact_sha256 :: string
  sj_artifact_size_bytes :: int
  sj_tool_version :: string

definition artifact_entry :: "component_inventory \<Rightarrow> sbom_subject \<Rightarrow> (pyval \<times> pyval) list" where
  "artifact_entry iv j =
     [(PStr ''type'', PStr ''application''),
      (PStr ''bom-ref'', PStr (''artifact:'' @ (let d = take 32 (sj_artifact_sha256 j) in if d \<noteq> [] then d else sj_run_id j))),
      (PStr ''name'', PStr (sj_artifact_name j)),
      (PStr ''hashes'', PList (if sj_artifact_sha256 j \<noteq> []
         then [PDict [(PStr ''alg'', PStr ''SHA-256''), (PStr ''content'', PStr (sj_artifact_sha256 j))]] else [])),
      (PStr ''properties'', PList
         [name_value ''bare:run'' (sj_run_id j),
          name_value ''bare:size_bytes'' (show_int (sj_artifact_size_bytes j)),
          name_value ''bare:files_examined'' (show_nat (ci_files_examined iv)),
          name_value ''bare:inventory_complete'' (if ci_truncated iv then ''false'' else ''true'')])]"

definition build_sbom :: "(string \<Rightarrow> string) \<Rightarrow> component_inventory \<Rightarrow> sbom_subject \<Rightarrow> pyval" where
  "build_sbom sha256 iv j = PDict
     [(PStr ''bomFormat'', PStr ''CycloneDX''), (PStr ''specVersion'', PStr SPEC_VERSION),
      (PStr ''serialNumber'', PStr (serial sha256 (sj_run_id j))), (PStr ''version'', PInt 1),
      (PStr ''metadata'', PDict
        [(PStr ''tools'', PDict [(PStr ''components'', PList [PDict
            [(PStr ''type'', PStr ''application''), (PStr ''name'', PStr ''BARE''), (PStr ''version'', PStr (sj_tool_version j))]])]),
         (PStr ''component'', PDict (artifact_entry iv j))]),
      (PStr ''components'', PList (map (\<lambda>c. PDict (component_entry c)) (ci_components iv)))]"

definition dump_sbom :: "pyval \<Rightarrow> string" where
  "dump_sbom document = (case json_report 0 document of Some t \<Rightarrow> t | None \<Rightarrow> []) @ [CHR 0x0A]"

subsection \<open>What a package is called in the document\<close>

text \<open>The name of a package without its version: what the comparison matches on.\<close>

definition package_url :: "ecosystem \<times> string \<Rightarrow> string" where
  "package_url p = ''pkg:'' @ ecosystem_value (fst p) @ ''/'' @ purl_quote (snd p)"

definition package_of :: "component \<Rightarrow> ecosystem \<times> string" where
  "package_of c = (cp_ecosystem c, cp_name c)"

definition exportable :: "component \<Rightarrow> bool" where
  "exportable c \<longleftrightarrow> proper_name c \<and> py_strip (cp_version c) = cp_version c \<and> CHR ''/'' \<notin> set (cp_version c)"

definition versions_of :: "component_inventory \<Rightarrow> ecosystem \<times> string \<Rightarrow> string set" where
  "versions_of iv p = cp_version ` {c \<in> set (ci_components iv). package_of c = p}"

definition packages_of :: "component_inventory \<Rightarrow> (ecosystem \<times> string) set" where
  "packages_of iv = package_of ` set (ci_components iv)"

subsection \<open>The identity of an exported component\<close>

lemma last_slash:
  assumes "CHR ''/'' \<notin> set t"
  shows "purl_head (h @ CHR ''/'' # t) = h" "purl_tail (h @ CHR ''/'' # t) = t"
  using assms by (simp_all add: purl_head_def purl_tail_def dropWhile_append takeWhile_append)

lemma last_slash_split:
  assumes "CHR ''/'' \<in> set s"
  obtains h t where "s = h @ CHR ''/'' # t" "CHR ''/'' \<notin> set t"
  using split_list_last [OF assms] by blast

lemma hex_digit_chars: "n < 16 \<Longrightarrow> upper_hex_digit n \<in> set ''0123456789ABCDEF''"
proof -
  assume "n < 16"
  then have "n \<in> {0, 1, 2, 3, 4, 5, 6, 7, 8, 9, 10, 11, 12, 13, 14, 15}" by (simp, presburger)
  then show ?thesis
    by (elim insertE emptyE; hypsubst) (simp_all add: upper_hex_digit_def, simp_all add: char_of_def bit_0)
qed

lemma show_HEX_chars: "(\<And>k. k < 16 \<Longrightarrow> upper_hex_digit k \<in> D) \<Longrightarrow> set (show_HEX n) \<subseteq> D"
proof (induction n rule: show_HEX.induct)
  case (1 n)
  then show ?case
  proof (cases "n < 16")
    case True
    with 1 have "upper_hex_digit n \<in> D" by blast
    with True show ?thesis by (subst show_HEX.simps) simp
  next
    case False
    from 1(1) [OF False] 1(2) have "set (show_HEX (n div 16)) \<subseteq> D" by blast
    moreover from 1(2) have "upper_hex_digit (n mod 16) \<in> D" by simp
    ultimately show ?thesis using False by (subst show_HEX.simps) simp
  qed
qed

lemma percent_chars: "set (percent n) \<subseteq> set ''%0123456789ABCDEF''"
proof -
  have "set (percent n) \<subseteq> insert CHR ''%'' (insert CHR ''0'' (set (show_HEX n)))" by (cases "n < 16") (auto simp: percent_def)
  moreover have "insert CHR ''0'' (set (show_HEX n)) \<subseteq> set ''0123456789ABCDEF''"
  proof (rule insert_subsetI)
    show "set (show_HEX n) \<subseteq> set ''0123456789ABCDEF''" by (rule show_HEX_chars) (rule hex_digit_chars)
  qed (rule list.set_intros)
  ultimately show ?thesis unfolding list.set(2) [of "CHR ''%''"] by blast
qed

lemma purl_quote_clean:
  assumes "c \<notin> set ''%0123456789ABCDEF''" "\<not> purl_safe c \<or> c \<notin> set t"
  shows "c \<notin> set (purl_quote t)"
proof -
  have inside: "c \<in> set u \<Longrightarrow> u \<in> set (utf8_chars t) \<Longrightarrow> c \<in> set t" for u
    using concat_utf8_chars [of t] by (metis UN_I set_concat)
  have "c \<notin> set (purl_char u)" if "u \<in> set (utf8_chars t)" for u
  proof -
    from assms(1) percent_chars have "c \<notin> set (percent n)" for n by blast
    moreover from assms(2) inside [OF _ that] have "\<not> (u = [c] \<and> purl_safe c)" by auto
    ultimately show ?thesis by (auto simp: purl_char_def split: list.splits)
  qed
  then show ?thesis by (auto simp: purl_quote_def)
qed

lemma query_unsafe: "\<not> purl_safe CHR ''?''" "\<not> purl_safe CHR ''#''"
  by (simp_all add: purl_safe_def is_letter_def is_upper_def is_lower_def is_digit_def)

lemma ecosystem_clean: "CHR ''?'' \<notin> set (ecosystem_value e)" "CHR ''#'' \<notin> set (ecosystem_value e)"
  by (cases e, simp_all)+

lemma purl_is_package_url:
  assumes "proper_name c"
  shows "purl c = package_url (package_of c) @ (if cp_version c \<noteq> [] then CHR ''@'' # purl_quote (cp_version c) else [])"
  using purl_flat [OF assms] by (simp add: package_url_def package_of_def)

lemma identity_of_purl:
  assumes "exportable c"
  shows "purl_identity (purl c) (cp_version c) = (package_url (package_of c), cp_version c)"
proof -
  let ?u = "package_url (package_of c)" and ?v = "if cp_version c \<noteq> [] then CHR ''@'' # purl_quote (cp_version c) else []"
  have p: "purl c = ?u @ ?v" using assms purl_is_package_url by (simp add: exportable_def)
  have clean: "CHR ''?'' \<notin> set (?u @ ?v)" "CHR ''#'' \<notin> set (?u @ ?v)"
    by (auto simp: package_url_def ecosystem_clean) (auto dest: purl_quote_clean [THEN notE, rotated -1] simp: query_unsafe)
  have base: "takeWhile (\<lambda>x. x \<noteq> CHR ''?'') (takeWhile (\<lambda>x. x \<noteq> CHR ''#'') (purl c)) = ?u @ ?v"
  proof -
    have "takeWhile (\<lambda>x. x \<noteq> CHR ''#'') (?u @ ?v) = ?u @ ?v" "takeWhile (\<lambda>x. x \<noteq> CHR ''?'') (?u @ ?v) = ?u @ ?v"
      using clean by (auto simp: takeWhile_eq_all_conv)
    then show ?thesis by (simp only: p)
  qed
  have "CHR ''/'' \<in> set ?u" by (simp add: package_url_def)
  from last_slash_split [OF this] obtain h t where u: "?u = h @ CHR ''/'' # t" "CHR ''/'' \<notin> set t" .
  have slash: "CHR ''/'' \<notin> set (t @ ?v)"
    using u(2) assms purl_quote_clean [of "CHR ''/''" "cp_version c"] by (auto simp: exportable_def)
  have head: "purl_head (?u @ ?v) = h" "purl_tail (?u @ ?v) = t @ ?v"
    using last_slash [OF slash, of h] by (simp_all only: u append_assoc append_Cons)
  have at: "CHR ''@'' \<notin> set t"
  proof
    assume "CHR ''@'' \<in> set t"
    then have "CHR ''@'' \<in> set ?u" by (simp add: u)
    moreover have "CHR ''@'' \<notin> set (ecosystem_value e)" for e by (cases e) simp_all
    ultimately show False using no_at by (auto simp: package_url_def)
  qed
  have "h \<noteq> []"
    using u(1) by (cases h) (simp_all add: package_url_def)
  moreover have "takeWhile (\<lambda>x. x \<noteq> CHR ''@'') (t @ ?v) = t"
    using at by (cases "cp_version c = []") (auto simp: takeWhile_append takeWhile_eq_all_conv)
  moreover have "tl (dropWhile (\<lambda>x. x \<noteq> CHR ''@'') (t @ ?v)) = []" if "CHR ''@'' \<in> set (t @ ?v)" "cp_version c = []"
    using that at by simp
  ultimately show ?thesis
    unfolding purl_identity_def Let_def base head by (auto simp: u)
qed

lemma identity_of_entry:
  assumes "exportable c"
  shows "identity (component_entry c) = Inr (package_url (package_of c), cp_version c)"
proof -
  have "starts_with ''pkg:'' (purl c)"
    using assms by (simp add: purl_is_package_url exportable_def package_url_def)
  moreover have "got_or (component_entry c) ''version'' (PStr []) = PStr (cp_version c)"
    by (auto simp: got_or_def component_entry_def dict_simps)
  ultimately show ?thesis
    using assms by (simp add: identity_def component_entry_def dict_simps identity_of_purl exportable_def Let_def)
qed

definition licence_set :: "component \<Rightarrow> string list" where
  "licence_set c = (if cp_licence c \<noteq> [] then [py_strip (cp_licence c)] else [])"

lemma licences_of_entry: "licences_of (component_entry c) = Inr (licence_set c)"
  by (simp add: licences_of_def got_or_def component_entry_def dict_simps licence_set_def py_iter_def entry_licences_def name_value_def)

lemma package_url_inj:
  assumes "ascii (snd p)" "ascii (snd q)" "package_url p = package_url q"
  shows "p = q"
proof -
  from assms(3) have "ecosystem_value (fst p) @ CHR ''/'' # purl_quote (snd p) = ecosystem_value (fst q) @ CHR ''/'' # purl_quote (snd q)"
    by (simp add: package_url_def)
  from split_unique [OF this no_slash no_slash]
  have "ecosystem_value (fst p) = ecosystem_value (fst q)" "purl_quote (snd p) = purl_quote (snd q)" by blast+
  then have "fst p = fst q" "unquote (purl_quote (snd p)) = unquote (purl_quote (snd q))"
    using ecosystem_value_inj by simp_all
  with assms(1,2) show ?thesis by (simp add: unquote_quote prod_eq_iff)
qed

subsection \<open>Comparing two exports\<close>

text \<open>The grouping of a document whose components are known.\<close>

definition grouped :: "('c \<Rightarrow> string) \<Rightarrow> ('c \<Rightarrow> string) \<Rightarrow> ('c \<Rightarrow> string list) \<Rightarrow> 'c set \<Rightarrow> (string, sbom_group) dict \<Rightarrow> bool" where
  "grouped key ver lic cs g \<longleftrightarrow>
     (\<forall>k. (map_of g k \<noteq> None \<longleftrightarrow> k \<in> key ` cs)
        \<and> set (versions_at g k) = ver ` {c \<in> cs. key c = k} \<and> set (licences_at g k) = (\<Union>c \<in> {c \<in> cs. key c = k}. set (lic c)))"

lemma groups_update:
  "versions_at (AList.update k x g) k' = (if k' = k then gp_versions x else versions_at g k')"
  "licences_at (AList.update k x g) k' = (if k' = k then gp_licences x else licences_at g k')"
  "map_of (AList.update k x g) k' \<noteq> None \<longleftrightarrow> k' = k \<or> map_of g k' \<noteq> None"
  by (simp_all add: versions_at_def licences_at_def update_conv)

lemma grouped_step:
  assumes "grouped key ver lic cs g" "identity e = Inr (key c, ver c)" "licences_of e = Inr (lic c)"
  shows "\<exists>g'. group_component e g = Inr g' \<and> grouped key ver lic (insert c cs) g'"
proof -
  obtain x where run: "group_component e g = Inr (AList.update (key c) (add_version (ver c) (lic c) x) g)"
    and x: "gp_versions x = versions_at g (key c)" "gp_licences x = licences_at g (key c)"
  proof (cases "map_of g (key c)")
    case None
    show thesis
      by (rule that, simp add: group_component_def assms(2,3) Let_def None) (simp_all add: None versions_at_def licences_at_def no_group_def)
  next
    case (Some y)
    show thesis
      by (rule that, simp add: group_component_def assms(2,3) Let_def Some) (simp_all add: Some versions_at_def licences_at_def)
  qed
  have "grouped key ver lic (insert c cs) (AList.update (key c) (add_version (ver c) (lic c) x) g)"
    unfolding grouped_def groups_update add_version_def using assms(1) unfolding grouped_def by (auto simp: x)
  with run show ?thesis by blast
qed

lemma groups_from_known:
  assumes "grouped key ver lic cs g"
    and "\<And>c. c \<in> set xs \<Longrightarrow> identity (e c) = Inr (key c, ver c) \<and> licences_of (e c) = Inr (lic c)"
  shows "\<exists>g'. groups_from which i g (map (\<lambda>c. PDict (e c)) xs) = Inr g' \<and> grouped key ver lic (set xs \<union> cs) g'"
  using assms
proof (induction xs arbitrary: i g cs)
  case (Cons x xs)
  from Cons.prems(2) [of x] have x: "identity (e x) = Inr (key x, ver x)" "licences_of (e x) = Inr (lic x)" by simp_all
  from grouped_step [OF Cons.prems(1) x] obtain g1 where g1: "group_component (e x) g = Inr g1"
    "grouped key ver lic (insert x cs) g1" by blast
  from Cons.IH [OF g1(2), of "Suc i"] Cons.prems(2) obtain g' where
    "groups_from which (Suc i) g1 (map (\<lambda>c. PDict (e c)) xs) = Inr g'" "grouped key ver lic (set xs \<union> insert x cs) g'" by auto
  with g1(1) show ?case by auto
qed simp

definition all_exportable :: "component_inventory \<Rightarrow> bool" where
  "all_exportable iv \<longleftrightarrow> (\<forall>c \<in> set (ci_components iv). exportable c)"

definition export_grouped :: "component_inventory \<Rightarrow> (string, sbom_group) dict \<Rightarrow> bool" where
  "export_grouped iv = grouped (\<lambda>c. package_url (package_of c)) cp_version licence_set (set (ci_components iv))"

lemma groups_of_export:
  assumes "all_exportable iv"
  obtains g where "sbom_groups (build_sbom sha iv j) which = Inr g" "export_grouped iv g"
proof -
  have "grouped (\<lambda>c. package_url (package_of c)) cp_version licence_set {} []"
    by (simp add: grouped_def versions_at_def licences_at_def)
  moreover have "identity (component_entry c) = Inr (package_url (package_of c), cp_version c)
      \<and> licences_of (component_entry c) = Inr (licence_set c)" if "c \<in> set (ci_components iv)" for c
    using assms that by (simp add: all_exportable_def identity_of_entry licences_of_entry)
  ultimately obtain g where "groups_from which 0 [] (map (\<lambda>c. PDict (component_entry c)) (ci_components iv)) = Inr g"
    "export_grouped iv g"
    using groups_from_known [of "\<lambda>c. package_url (package_of c)" cp_version licence_set "{}" "[]" "ci_components iv" component_entry which 0]
    by (auto simp: export_grouped_def)
  with that show thesis by (simp add: sbom_groups_def build_sbom_def dict_simps)
qed

lemma metadata_of_export: "metadata_component (build_sbom sha iv j) = artifact_entry iv j"
  by (simp add: metadata_component_def build_sbom_def dict_simps)

lemma properties_of_export:
  "sbom_property (build_sbom sha iv j) ''bare:run'' = Inr (Some (sj_run_id j))"
  "sbom_property (build_sbom sha iv j) ''bare:inventory_complete'' = Inr (Some (if ci_truncated iv then ''false'' else ''true''))"
  by (simp_all add: sbom_property_def metadata_of_export artifact_entry_def got_or_def dict_simps py_iter_def name_value_def)

lemma labels_of_export:
  "inventory_complete (build_sbom sha iv j) = Inr (\<not> ci_truncated iv)"
  "\<exists>l. label_or given (build_sbom sha iv j) fallback = Inr l"
  by (simp_all add: inventory_complete_def properties_of_export label_or_def sbom_label_def Let_def)

lemma diff_of_exports:
  assumes "all_exportable a" "all_exportable b"
  obtains d where "diff_sboms (build_sbom sha a ja) (build_sbom sha b jb) la lb = Inr d"
    "sd_incomplete d = [] \<longleftrightarrow> \<not> ci_truncated a \<and> \<not> ci_truncated b"
proof -
  obtain old new where g: "sbom_groups (build_sbom sha a ja) ''before'' = Inr old" "sbom_groups (build_sbom sha b jb) ''after'' = Inr new"
    using groups_of_export [OF assms(1)] groups_of_export [OF assms(2)] by metis
  from labels_of_export(2) obtain bl al where l: "label_or la (build_sbom sha a ja) ''before'' = Inr bl"
    "label_or lb (build_sbom sha b jb) ''after'' = Inr al" by meson
  let ?d = "(foldl (diff_step old new) no_diff (sorted_set (map fst old @ map fst new)))
    \<lparr>sd_before_label := bl, sd_after_label := al,
     sd_incomplete := (if \<not> ci_truncated a then [] else [bl]) @ (if \<not> ci_truncated b then [] else [al])\<rparr>"
  show thesis
  proof (rule that)
    show "diff_sboms (build_sbom sha a ja) (build_sbom sha b jb) la lb = Inr ?d"
      by (simp add: diff_sboms_def g l labels_of_export(1) Let_def)
  qed simp
qed

text \<open>What one export's grouping says of a package.\<close>

lemma export_grouped_at:
  assumes "export_grouped iv g" "all_exportable iv" "ascii (snd p)"
  shows "map_of g (package_url p) \<noteq> None \<longleftrightarrow> p \<in> packages_of iv"
    "set (versions_at g (package_url p)) = versions_of iv p"
proof -
  have same: "package_url (package_of c) = package_url p \<longleftrightarrow> package_of c = p" if "c \<in> set (ci_components iv)" for c
    using that assms(2,3) package_url_inj [of "package_of c" p]
    by (auto simp: all_exportable_def exportable_def proper_name_def package_of_def)
  then have "{c \<in> set (ci_components iv). package_url (package_of c) = package_url p} = {c \<in> set (ci_components iv). package_of c = p}"
    by blast
  with assms(1) show "set (versions_at g (package_url p)) = versions_of iv p"
    by (simp add: export_grouped_def grouped_def versions_of_def)
  have "map_of g (package_url p) \<noteq> None \<longleftrightarrow> package_url p \<in> (\<lambda>c. package_url (package_of c)) ` set (ci_components iv)"
    by (rule assms(1) [unfolded export_grouped_def grouped_def, THEN spec, THEN conjunct1])
  also have "\<dots> \<longleftrightarrow> (\<exists>c \<in> set (ci_components iv). package_url (package_of c) = package_url p)"
    unfolding image_iff by (simp only: eq_commute)
  also have "\<dots> \<longleftrightarrow> (\<exists>c \<in> set (ci_components iv). package_of c = p)" using same by (meson bex_cong)
  finally show "map_of g (package_url p) \<noteq> None \<longleftrightarrow> p \<in> packages_of iv" by (auto simp: packages_of_def)
qed


definition sample_zlib :: "string \<Rightarrow> component" where
  "sample_zlib v = declared ''zlib'' v CARGO ''a/Cargo.lock'' [] ''Cargo.lock''"

definition sample_inventory :: "string \<Rightarrow> component_inventory" where
  "sample_inventory v = \<lparr>ci_components = [sample_zlib v], ci_files_examined = 1, ci_truncated = False\<rparr>"

definition sample_subject :: "string \<Rightarrow> sbom_subject" where
  "sample_subject r = \<lparr>sj_run_id = r, sj_artifact_name = ''app'', sj_artifact_sha256 = [], sj_artifact_size_bytes = 9, sj_tool_version = ''1''\<rparr>"

lemma sample_exportable: "all_exportable (sample_inventory ''1.2.11'')" "all_exportable (sample_inventory ''1.2.13'')"
  by (simp_all add: all_exportable_def sample_inventory_def sample_zlib_def exportable_def proper_name_def declared_def ascii_def py_strip_def py_space_def)


text \<open>A version that contains a slash becomes part of the identity: the comparison then reports the upgrade as a
  removal and an addition, which it promises not to do.\<close>

lemma slash_in_version_hides_upgrade:
  "fst (purl_identity (purl (declared ''app'' ''feature/1'' GENERIC [] [] [])) ''feature/1'')
     \<noteq> fst (purl_identity (purl (declared ''app'' ''feature/2'' GENERIC [] [] [])) ''feature/2'')"
  by (simp add: purl_identity_def purl_def declared_def split_name_def purl_quote_def purl_char_def is_cont_def purl_safe_def
      is_letter_def is_upper_def is_lower_def is_digit_def purl_head_def purl_tail_def Let_def)

end
