(* ===== verification/Sarif_Report.thy ===== *)
theory Sarif_Report
  imports Py_Json Py_Dict Policy_Model Canonical_Order
begin

text \<open>
  The SARIF 2.1.0 export (\<open>reporting/sarif.py\<close>): one descriptor for each rule that matched, one result for each
  finding, both sorted. A finding enters with its masked value only; that is the type \<open>sarif_finding\<close>.
\<close>

subsection \<open>The document\<close>

definition SARIF_VERSION :: string where "SARIF_VERSION = ''2.1.0''"
definition SARIF_SCHEMA :: string where "SARIF_SCHEMA = ''https://json.schemastore.org/sarif-2.1.0.json''"
definition INFORMATION_URI :: string where "INFORMATION_URI = ''https://github.com/bare/bare''"

fun level_by_severity :: "severity \<Rightarrow> string" where
  "level_by_severity CRITICAL = ''error''"
| "level_by_severity HIGH = ''error''"
| "level_by_severity MEDIUM = ''warning''"
| "level_by_severity LOW = ''note''"
| "level_by_severity INFO = ''note''"

fun security_severity :: "severity \<Rightarrow> string" where
  "security_severity CRITICAL = ''9.5''"
| "security_severity HIGH = ''7.5''"
| "security_severity MEDIUM = ''5.0''"
| "security_severity LOW = ''3.0''"
| "security_severity INFO = ''1.0''"

record sarif_finding =
  sf_id :: string
  sf_rule_id :: string
  sf_title :: string
  sf_severity :: severity
  sf_value_masked :: string
  sf_artifact_path :: string
  sf_offset :: "int option"
  sf_category :: string
  sf_cwe :: "string option"
  sf_remediation_md :: "string option"
  sf_is_new :: bool
  sf_status :: string
  sf_blocked_release :: bool

definition present :: "string option \<Rightarrow> bool" where
  "present v \<longleftrightarrow> v \<noteq> None \<and> v \<noteq> Some []"

definition text_entry :: "string \<Rightarrow> string \<Rightarrow> pyval \<times> pyval" where
  "text_entry k v = (PStr k, PStr v)"

definition worst_severity :: "sarif_finding list \<Rightarrow> severity" where
  "worst_severity fs = hd (sort_key severity_rank (map sf_severity fs))"

definition HELP_TEXT :: string where
  "HELP_TEXT = ''Remove the value from the shipped artifact and rotate it if it is live.''"

definition rule_descriptor :: "string \<Rightarrow> sarif_finding list \<Rightarrow> (pyval \<times> pyval) list" where
  "rule_descriptor rule_id findings =
     (let worst = worst_severity findings; sample = hd findings;
          help_text = (if present (sf_remediation_md sample) then the (sf_remediation_md sample) else HELP_TEXT)
      in
      [text_entry ''id'' rule_id, text_entry ''name'' rule_id,
       (PStr ''shortDescription'', PDict [text_entry ''text'' (sf_title sample)]),
       (PStr ''fullDescription'', PDict [text_entry ''text'' (''BARE rule '' @ rule_id @ '' matched in a shipped artifact.'')]),
       (PStr ''help'', PDict [text_entry ''text'' help_text, text_entry ''markdown'' help_text]),
       (PStr ''defaultConfiguration'', PDict [text_entry ''level'' (level_by_severity worst)]),
       (PStr ''properties'', PDict
         [(PStr ''tags'', PList (map PStr (filter (\<lambda>t. t \<noteq> []) [''security'', sf_category sample]
              @ (if present (sf_cwe sample) then [''external/cwe/'' @ py_lower (the (sf_cwe sample))] else [])))),
          text_entry ''security-severity'' (security_severity worst),
          text_entry ''bare-severity'' (severity_value worst)])])"

definition result_region :: "sarif_finding \<Rightarrow> (pyval \<times> pyval) list" where
  "result_region f =
     (case sf_offset f of
        Some i \<Rightarrow> [(PStr ''region'', PDict [(PStr ''byteOffset'', PInt i),
                    (PStr ''byteLength'', PInt (int (max (length (utf8_chars (sf_value_masked f))) 1)))])]
      | None \<Rightarrow> [])"

definition sarif_result :: "sarif_finding \<Rightarrow> nat \<Rightarrow> (pyval \<times> pyval) list" where
  "sarif_result f rule_index =
     [text_entry ''ruleId'' (sf_rule_id f), (PStr ''ruleIndex'', PInt (int rule_index)),
      text_entry ''level'' (level_by_severity (sf_severity f)),
      (PStr ''message'', PDict [text_entry ''text''
         (sf_title f @ '': '' @ sf_value_masked f @ (if sf_is_new f then '' (introduced by this build)'' else []))]),
      (PStr ''locations'', PList [PDict [(PStr ''physicalLocation'', PDict
         ((PStr ''artifactLocation'', PDict [text_entry ''uri'' (if sf_artifact_path f \<noteq> [] then sf_artifact_path f else ''unknown'')])
          # result_region f))]]),
      (PStr ''partialFingerprints'', PDict [text_entry ''bareFindingId'' (sf_id f)]),
      (PStr ''properties'', PDict
         [text_entry ''severity'' (severity_value (sf_severity f)), text_entry ''category'' (sf_category f),
          text_entry ''status'' (sf_status f), (PStr ''isNew'', PBool (sf_is_new f)),
          (PStr ''blocksRelease'', PBool (sf_blocked_release f))])]"

definition sarif_key :: "sarif_finding \<Rightarrow> nat \<times> string \<times> string" where
  "sarif_key f = (severity_rank (sf_severity f), sf_rule_id f, sf_id f)"

definition sarif_ordered :: "sarif_finding list \<Rightarrow> sarif_finding list" where
  "sarif_ordered findings = sort_key sarif_key findings"

definition sarif_rule_ids :: "sarif_finding list \<Rightarrow> string list" where
  "sarif_rule_ids ordered = sort (map fst (group_by sf_rule_id ordered))"

definition index_in :: "'a \<Rightarrow> 'a list \<Rightarrow> nat" where
  "index_in x xs = length (takeWhile (\<lambda>y. y \<noteq> x) xs)"

definition sarif_rules :: "sarif_finding list \<Rightarrow> (pyval \<times> pyval) list list" where
  "sarif_rules ordered =
     map (\<lambda>rule_id. rule_descriptor rule_id (the (map_of (group_by sf_rule_id ordered) rule_id))) (sarif_rule_ids ordered)"

definition sarif_results :: "sarif_finding list \<Rightarrow> (pyval \<times> pyval) list list" where
  "sarif_results ordered = map (\<lambda>f. sarif_result f (index_in (sf_rule_id f) (sarif_rule_ids ordered))) ordered"

definition verdict_property :: "gate_verdict \<Rightarrow> pyval \<times> pyval" where
  "verdict_property v = (PStr ''gate'', PDict
     [text_entry ''decision'' (decision_value (gv_decision v)), text_entry ''policy'' (gv_policy_name v),
      (PStr ''violations'', PInt (int (length (gv_violations v)))), (PStr ''waived'', PInt (int (length (gv_waived v)))),
      (PStr ''inherited'', PInt (int (length (gv_inherited v)))),
      (PStr ''degradedStages'', PList (map PStr (gv_degraded_stages v)))])"

definition build_sarif :: "sarif_finding list \<Rightarrow> string \<Rightarrow> gate_verdict option \<Rightarrow> string \<Rightarrow> string \<Rightarrow> pyval" where
  "build_sarif findings tool_version verdict artifact_name run_id =
     (let ordered = sarif_ordered findings in
      PDict
       [text_entry ''$schema'' SARIF_SCHEMA, text_entry ''version'' SARIF_VERSION,
        (PStr ''runs'', PList [PDict
          [(PStr ''tool'', PDict [(PStr ''driver'', PDict
             [text_entry ''name'' ''BARE'', text_entry ''version'' tool_version, text_entry ''informationUri'' INFORMATION_URI,
              (PStr ''rules'', PList (map PDict (sarif_rules ordered)))])]),
           (PStr ''results'', PList (map PDict (sarif_results ordered))),
           (PStr ''properties'', PDict
             ([text_entry ''bareRunId'' run_id]
              @ (if artifact_name \<noteq> [] then [text_entry ''artifact'' artifact_name] else [])
              @ (case verdict of Some v \<Rightarrow> [verdict_property v] | None \<Rightarrow> [])))]])])"

definition dump_sarif :: "pyval \<Rightarrow> string" where
  "dump_sarif document = (case json_report 0 document of Some t \<Rightarrow> t | None \<Rightarrow> []) @ [CHR 0x0A]"

subsection \<open>What the document says\<close>

interpretation sarif_order: canonical_sort sarif_key sf_id
  by unfold_locales (simp add: sarif_key_def)

text \<open>The document does not depend on the order in which the database returns the findings.\<close>

theorem sarif_order_irrelevant:
  assumes "mset fs = mset gs" "distinct (map sf_id fs)"
  shows "build_sarif fs t v a r = build_sarif gs t v a r"
  using sarif_order.order_irrelevant [OF assms] by (simp add: build_sarif_def sarif_ordered_def)

lemma index_in_nth: "x \<in> set xs \<Longrightarrow> index_in x xs < length xs \<and> xs ! index_in x xs = x"
  by (induction xs) (auto simp: index_in_def)

lemma sarif_rule_ids_set: "set (sarif_rule_ids fs) = sf_rule_id ` set fs"
  using group_by_keys [of sf_rule_id fs] by (simp add: sarif_rule_ids_def)

lemma worst_of: "fs \<noteq> [] \<Longrightarrow> worst_severity fs \<in> sf_severity ` set fs \<and> (\<forall>f \<in> set fs. severity_rank (worst_severity fs) \<le> severity_rank (sf_severity f))"
proof -
  assume "fs \<noteq> []"
  then obtain s ss where s: "sort_key severity_rank (map sf_severity fs) = s # ss"
    by (cases "sort_key severity_rank (map sf_severity fs)") (metis length_0_conv length_map length_sort, blast)
  have "set (s # ss) = sf_severity ` set fs" by (metis s set_map set_sort)
  moreover have "sorted (map severity_rank (s # ss))" by (metis s sorted_sort_key)
  ultimately show ?thesis by (auto simp: worst_severity_def s)
qed

text \<open>Every finding has its result, and the rule index of a result leads to the descriptor of its rule, whose level
  and score are those of the worst finding of that rule.\<close>

theorem sarif_results_have_rules:
  assumes "f \<in> set fs"
  shows "\<exists>i < length (sarif_rules (sarif_ordered fs)).
      sarif_result f i \<in> set (sarif_results (sarif_ordered fs))
    \<and> pd_get (sarif_rules (sarif_ordered fs) ! i) ''id'' = Some (PStr (sf_rule_id f))
    \<and> (\<exists>g \<in> set fs. sf_rule_id g = sf_rule_id f \<and> severity_rank (sf_severity g) \<le> severity_rank (sf_severity f)
         \<and> pd_get (sarif_rules (sarif_ordered fs) ! i) ''defaultConfiguration''
             = Some (PDict [text_entry ''level'' (level_by_severity (sf_severity g))]))"
proof -
  let ?o = "sarif_ordered fs" and ?i = "index_in (sf_rule_id f) (sarif_rule_ids (sarif_ordered fs))"
  have f: "f \<in> set ?o" and same: "set ?o = set fs" using assms by (simp_all add: sarif_ordered_def)
  then have i: "?i < length (sarif_rule_ids ?o)" "sarif_rule_ids ?o ! ?i = sf_rule_id f"
    using index_in_nth [of "sf_rule_id f" "sarif_rule_ids ?o"] by (auto simp: sarif_rule_ids_set)
  let ?g = "filter (\<lambda>g. sf_rule_id g = sf_rule_id f) ?o"
  from f have g: "map_of (group_by sf_rule_id ?o) (sf_rule_id f) = Some ?g" by (simp add: group_by_get)
  from f have "f \<in> set ?g" by simp
  then have "?g \<noteq> []" by force
  note worst = worst_of [OF \<open>?g \<noteq> []\<close>]
  from worst obtain w where w: "w \<in> set ?g" "worst_severity ?g = sf_severity w" by (elim conjE imageE) blast
  from worst have w3: "severity_rank (sf_severity w) \<le> severity_rank (sf_severity f)"
    using \<open>f \<in> set ?g\<close> unfolding w(2) by blast
  from w(1) same have w1: "w \<in> set fs" "sf_rule_id w = sf_rule_id f" by simp_all
  have rule: "sarif_rules ?o ! ?i = rule_descriptor (sf_rule_id f) ?g"
    using i by (simp add: sarif_rules_def g)
  have entries: "pd_get (sarif_rules ?o ! ?i) ''id'' = Some (PStr (sf_rule_id f))"
    "pd_get (sarif_rules ?o ! ?i) ''defaultConfiguration'' = Some (PDict [text_entry ''level'' (level_by_severity (sf_severity w))])"
    unfolding rule rule_descriptor_def Let_def w(2) by (simp_all add: text_entry_def dict_simps)
  show ?thesis
  proof (rule exI [of _ ?i], intro conjI)
    show "?i < length (sarif_rules ?o)" using i(1) by (simp add: sarif_rules_def)
    show "sarif_result f ?i \<in> set (sarif_results ?o)" using f by (auto simp: sarif_results_def)
    show "pd_get (sarif_rules ?o ! ?i) ''id'' = Some (PStr (sf_rule_id f))" by (rule entries)
    show "\<exists>g \<in> set fs. sf_rule_id g = sf_rule_id f \<and> severity_rank (sf_severity g) \<le> severity_rank (sf_severity f)
         \<and> pd_get (sarif_rules ?o ! ?i) ''defaultConfiguration'' = Some (PDict [text_entry ''level'' (level_by_severity (sf_severity g))])"
      by (rule bexI [OF _ w1(1)]) (intro conjI w1(2) w3 entries(2))
  qed
qed

end
