(* ===== verification/Gate_Api.thy ===== *)
theory Gate_Api
  imports Policy_Serde Policy_Loader Gate_Pipeline Sbom_Export Sarif_Report
begin

text \<open>
  The release-gate endpoints (\<open>api/routers/gate.py\<close>): a policy and waivers arrive as YAML text, a verdict leaves as
  a dictionary; a run's SARIF and its bill of materials are rebuilt from what is stored. \<open>yaml.safe_load\<close> is a
  parameter (\<open>None\<close> for a \<open>YAMLError\<close>). A refusal is a problem with its HTTP status; an exception that no handler
  catches is answered with 500. Rendering the PDF is not modelled.
\<close>

subsection \<open>Problems\<close>

datatype problem =
    Policy_Not_Yaml
  | Policy_Not_Mapping
  | Waivers_Not_Yaml
  | Waivers_Not_Mapping
  | Bad_Document load_error
  | Not_Ready string
  | Not_Found string
  | Uncaught string

fun http_status :: "problem \<Rightarrow> nat" where
  "http_status Policy_Not_Yaml = 422"
| "http_status Policy_Not_Mapping = 422"
| "http_status Waivers_Not_Yaml = 422"
| "http_status Waivers_Not_Mapping = 422"
| "http_status (Bad_Document e) = 422"
| "http_status (Not_Ready s) = 409"
| "http_status (Not_Found s) = 404"
| "http_status (Uncaught s) = 500"

text \<open>A \<open>PolicyLoadError\<close> is refused; the two exceptions of the standard library go through.\<close>

definition load_problem :: "load_error \<Rightarrow> problem" where
  "load_problem e =
     (if e = PyValueError then Uncaught ''ValueError'' else if e = PyTypeError then Uncaught ''TypeError'' else Bad_Document e)"

subsection \<open>Evaluating the gate\<close>

record gate_request =
  gq_policy_yaml :: string
  gq_waivers_yaml :: string
  gq_baseline_run_id :: "string option"

definition or_empty_mapping :: "pyval \<Rightarrow> pyval" where
  "or_empty_mapping v = (if py_truthy v then v else PDict [])"

definition parse_policy_yaml :: "(string \<Rightarrow> pyval option) \<Rightarrow> string \<Rightarrow> problem + policy" where
  "parse_policy_yaml yaml text =
     (if py_strip text = [] then Inr default_policy
      else case yaml text of
        None \<Rightarrow> Inl Policy_Not_Yaml
      | Some v \<Rightarrow>
          (case or_empty_mapping v of
             PDict d \<Rightarrow> map_sum load_problem id (parse_policy d)
           | _ \<Rightarrow> Inl Policy_Not_Mapping))"

definition parse_waivers_yaml :: "(string \<Rightarrow> pyval option) \<Rightarrow> string \<Rightarrow> policy \<Rightarrow> problem + waiver list" where
  "parse_waivers_yaml yaml text p =
     (if py_strip text = [] then Inr []
      else case yaml text of
        None \<Rightarrow> Inl Waivers_Not_Yaml
      | Some v \<Rightarrow>
          (case or_empty_mapping v of
             PDict d \<Rightarrow> map_sum load_problem id (parse_waivers d p ''<request>'')
           | _ \<Rightarrow> Inl Waivers_Not_Mapping))"

definition run_root_artifact :: "db \<Rightarrow> string \<Rightarrow> artifact option" where
  "run_root_artifact d run_id = List.find (\<lambda>a. a_run_id a = run_id \<and> a_parent_id a = None) (db_artifacts d)"

definition gate_response :: "string \<Rightarrow> string \<Rightarrow> baseline_ref \<Rightarrow> gate_verdict \<Rightarrow> (pyval \<times> pyval) list" where
  "gate_response run_id artifact baseline v =
     (let payload = verdict_to_dict v; field = (\<lambda>k. (PStr k, pd_get_or payload k PNone)) in
      [field ''decision'', field ''exit_code'', field ''policy_name'', (PStr ''run_id'', PStr run_id),
       (PStr ''artifact'', PStr artifact), (PStr ''baseline'', PStr (br_source baseline)),
       (PStr ''baseline_run_id'', (case br_run_id baseline of Some i \<Rightarrow> PStr i | None \<Rightarrow> PNone)),
       field ''total_findings'', field ''counts_by_severity'', field ''new_counts_by_severity'', field ''degraded_stages'',
       field ''warnings'', field ''violations'', field ''waived'', field ''inherited''])"

definition evaluate_gate ::
  "(string \<Rightarrow> pyval option) \<Rightarrow> date \<Rightarrow> db \<Rightarrow> string \<Rightarrow> gate_request \<Rightarrow> problem + (pyval \<times> pyval) list" where
  "evaluate_gate yaml today d run_id rq =
     bind_e (parse_policy_yaml yaml (gq_policy_yaml rq)) (\<lambda>policy.
     bind_e (parse_waivers_yaml yaml (gq_waivers_yaml rq) policy) (\<lambda>waivers.
     (case gate_run d run_id policy waivers (gq_baseline_run_id rq) None today of
        Inl (RunNotReady m) \<Rightarrow> Inl (Not_Ready m)
      | Inr (verdict, baseline) \<Rightarrow>
          Inr (gate_response run_id (case run_root_artifact d run_id of Some a \<Rightarrow> a_name a | None \<Rightarrow> []) baseline verdict))))"

subsection \<open>SARIF\<close>

definition first_locations :: "db \<Rightarrow> string \<Rightarrow> (string, string \<times> int option) dict" where
  "first_locations d run_id =
     dict_first fl_finding_id (\<lambda>l. (fl_path_in_tree l, fl_offset l))
       (sort_key location_key (filter (\<lambda>l. fl_run_id l = run_id) (db_locations d)))"

definition sarif_view :: "baseline_ref \<Rightarrow> (string, string \<times> int option) dict \<Rightarrow> string \<Rightarrow> finding \<Rightarrow> sarif_finding" where
  "sarif_view baseline first_location root_name f =
     (let (path, offset) = (case map_of first_location (f_id f) of
            Some l \<Rightarrow> l | None \<Rightarrow> (if root_name \<noteq> [] then root_name else ''unknown'', None)) in
      \<lparr>sf_id = f_id f, sf_rule_id = f_rule_id f, sf_title = f_title f, sf_severity = f_severity f,
       sf_value_masked = f_value_masked f, sf_artifact_path = path, sf_offset = offset, sf_category = f_category f,
       sf_cwe = f_cwe f, sf_remediation_md = f_remediation_md f, sf_is_new = (f_id f \<notin> br_finding_ids baseline),
       sf_status = finding_status_value (f_status f), sf_blocked_release = False\<rparr>)"

definition get_sarif :: "string \<Rightarrow> db \<Rightarrow> string \<Rightarrow> problem + pyval" where
  "get_sarif version d run_id =
     (case get_run d run_id of
        None \<Rightarrow> Inl (Not_Found (''run '' @ run_id @ '' not found''))
      | Some run \<Rightarrow>
          (let baseline = resolve_baseline d run None None;
               findings = filter (\<lambda>f. f_run_id f = run_id) (db_findings d);
               root_name = (case run_root_artifact d run_id of Some a \<Rightarrow> a_name a | None \<Rightarrow> [])
           in Inr (build_sarif (map (sarif_view baseline (first_locations d run_id) root_name) findings) version None root_name run_id)))"

subsection \<open>The bill of materials\<close>

definition ecosystem_of :: "pyval \<Rightarrow> ecosystem option" where
  "ecosystem_of v = List.find (\<lambda>e. v = PStr (ecosystem_value e)) [NPM, NUGET, PYPI, GOLANG, CARGO, MAVEN, GEM, GENERIC]"

definition confidence_of :: "pyval \<Rightarrow> confidence option" where
  "confidence_of v = List.find (\<lambda>c. v = PStr (confidence_value c)) [DECLARED, EMBEDDED, INFERRED]"

definition text_of :: "(pyval \<times> pyval) list \<Rightarrow> string \<Rightarrow> string" where
  "text_of e k = py_str (pd_get_or e k (PStr []))"

text \<open>One stored entry: skipped when it has no name or an unknown word, an exception when it is no mapping.\<close>

definition stored_component :: "pyval \<Rightarrow> problem + component option" where
  "stored_component entry =
     (case entry of
        PDict e \<Rightarrow> Inr
          (case pd_get e ''name'' of
             None \<Rightarrow> None
           | Some name \<Rightarrow>
               (case (ecosystem_of (pd_get_or e ''ecosystem'' (PStr ''generic'')),
                      confidence_of (pd_get_or e ''confidence'' (PStr ''declared''))) of
                  (Some eco, Some conf) \<Rightarrow> Some
                    \<lparr>cp_name = py_str name, cp_version = text_of e ''version'', cp_ecosystem = eco, cp_confidence = conf,
                     cp_path_in_tree = text_of e ''path_in_tree'', cp_licence = text_of e ''licence'',
                     cp_evidence = text_of e ''evidence''\<rparr>
                | _ \<Rightarrow> None))
      | _ \<Rightarrow> Inl (Uncaught ''TypeError''))"

definition stored_inventory :: "(pyval \<times> pyval) list \<Rightarrow> problem + component_inventory" where
  "stored_inventory stored =
     bind_e (map_sum Uncaught id (py_iter (pd_get_or stored ''components'' (PList [])))) (\<lambda>entries.
     bind_e (map_e stored_component entries) (\<lambda>cs.
     bind_e (map_sum Uncaught id (int_or_raise (pd_get_or stored ''files_examined'' (PInt 0)))) (\<lambda>n.
     Inr \<lparr>ci_components = List.map_filter id cs, ci_files_examined = nat n,
          ci_truncated = py_truthy (pd_get_or stored ''truncated'' (PBool False))\<rparr>)))"

text \<open>A stored count is not negative. \<open>stored\<close> is the \<open>components\<close> document of the run's manifest, empty when it has none.\<close>

definition get_sbom :: "(string \<Rightarrow> string) \<Rightarrow> string \<Rightarrow> (pyval \<times> pyval) list \<Rightarrow> db \<Rightarrow> string \<Rightarrow> problem + pyval" where
  "get_sbom sha256 version stored d run_id =
     (case get_run d run_id of
        None \<Rightarrow> Inl (Not_Found (''run '' @ run_id @ '' not found''))
      | Some run \<Rightarrow>
          bind_e (stored_inventory stored) (\<lambda>iv.
          Inr (build_sbom sha256 iv
            (case run_root_artifact d run_id of
               Some a \<Rightarrow> \<lparr>sj_run_id = run_id, sj_artifact_name = a_name a, sj_artifact_sha256 = a_sha256 a,
                          sj_artifact_size_bytes = a_size_bytes a, sj_tool_version = version\<rparr>
             | None \<Rightarrow> \<lparr>sj_run_id = run_id, sj_artifact_name = run_id, sj_artifact_sha256 = [],
                        sj_artifact_size_bytes = 0, sj_tool_version = version\<rparr>))))"

subsection \<open>What a verdict from the API means\<close>

lemma evaluate_gate_cases:
  assumes "evaluate_gate yaml today d i rq = Inr reply"
  obtains p ws v b where "parse_policy_yaml yaml (gq_policy_yaml rq) = Inr p"
    "parse_waivers_yaml yaml (gq_waivers_yaml rq) p = Inr ws"
    "gate_run d i p ws (gq_baseline_run_id rq) None today = Inr (v, b)"
    "reply = gate_response i (case run_root_artifact d i of Some a \<Rightarrow> a_name a | None \<Rightarrow> []) b v"
proof -
  from assms obtain p ws where p: "parse_policy_yaml yaml (gq_policy_yaml rq) = Inr p"
    and ws: "parse_waivers_yaml yaml (gq_waivers_yaml rq) p = Inr ws"
    unfolding evaluate_gate_def by (auto simp: bind_e_Inr_iff)
  show thesis
  proof (cases "gate_run d i p ws (gq_baseline_run_id rq) None today")
    case (Inl e)
    then show ?thesis using assms p ws by (cases e) (simp add: evaluate_gate_def)
  next
    case (Inr vb)
    obtain v b where vb: "vb = (v, b)" by (cases vb)
    from assms have "reply = gate_response i (case run_root_artifact d i of Some a \<Rightarrow> a_name a | None \<Rightarrow> []) b v"
      by (simp add: evaluate_gate_def p ws Inr vb)
    then show ?thesis by (rule that [OF p ws Inr [unfolded vb]])
  qed
qed

lemma response_decision: "pd_get (gate_response i a b v) ''decision'' = Some (PStr (decision_value (gv_decision v)))"
  by (simp add: gate_response_def verdict_to_dict_def Let_def dict_simps)

lemma decision_value_inj: "decision_value x = decision_value y \<Longrightarrow> x = y"
  by (cases x; cases y) simp_all

lemma read_decision:
  assumes "verdict_from_dict d = Inr v"
  shows "map_option py_str (pd_get d ''decision'') = Some (decision_value (gv_decision v))"
proof -
  have dec: "decision_of s = Some x \<Longrightarrow> s = decision_value x" for s x
    by (auto simp: decision_of_def split: if_splits)
  from assms show ?thesis by (auto simp: verdict_from_dict_def index_key_def err_simps dec)
qed

text \<open>Whatever else the client reads from a reply, the decision it reads is the one the server made.\<close>

lemma read_response_decision:
  assumes "verdict_from_dict (gate_response i a b v) = Inr v'"
  shows "gv_decision v' = gv_decision v"
  using read_decision [OF assms] by (intro decision_value_inj) (simp add: response_decision)

lemma reader_depends_on:
  assumes "\<forall>k \<in> {''decision'', ''violations'', ''waived'', ''inherited'', ''degraded_stages'', ''counts_by_severity'',
      ''new_counts_by_severity'', ''total_findings'', ''warnings'', ''policy_name''}. pd_get d k = pd_get d' k"
  shows "verdict_from_dict d = verdict_from_dict d'"
  using assms by (simp add: verdict_from_dict_def index_key_def items_from_def strings_from_def counts_from_def total_from_def
      str_field_def pd_get_or_def)

text \<open>The endpoint's reply is read like the dictionary it is made of.\<close>

lemma response_roundtrip:
  assumes "\<forall>w \<in> set (gv_waived v). valid_date (wf_expires w)"
  shows "verdict_from_dict (gate_response i a b v) = Inr (wire_verdict v)"
proof -
  have "verdict_from_dict (gate_response i a b v) = verdict_from_dict (verdict_to_dict v)"
    by (rule reader_depends_on) (simp add: gate_response_def verdict_to_dict_def Let_def dict_simps)
  with verdict_roundtrip_core [OF assms] show ?thesis by simp
qed

lemma default_policy_of_blank: "parse_policy_yaml yaml [] = Inr default_policy"
  by (simp add: parse_policy_yaml_def py_strip_def)

text \<open>A policy file that the client accepts means to the server what it meant to the client. \<open>safe_load\<close> of blank
  text is \<open>None\<close>.\<close>

lemma server_reads_same_policy:
  assumes "load_policy yaml path (Some text) = Inr p" "py_strip text = [] \<Longrightarrow> yaml text = Some PNone"
  shows "parse_policy_yaml yaml text = Inr p"
proof (cases "py_strip text = []")
  case True
  with assms show ?thesis using empty_policy_is_default
    by (simp add: load_policy_def require_mapping_def parse_policy_yaml_def)
next
  case False
  from assms(1) obtain raw m where raw: "yaml text = Some raw" "require_mapping raw path = Inr m" "parse_policy m = Inr p"
    by (auto simp: load_policy_def bind_e_Inr_iff option_to_e_Inr_iff)
  have "or_empty_mapping raw = PDict m"
    using raw(2) by (cases raw) (auto simp: require_mapping_def or_empty_mapping_def)
  with False raw show ?thesis by (simp add: parse_policy_yaml_def)
qed

subsection \<open>The stored inventory is the recorded one\<close>

lemma ecosystem_of_value: "ecosystem_of (PStr (ecosystem_value e)) = Some e"
  by (cases e) (simp_all add: ecosystem_of_def)

lemma confidence_of_value: "confidence_of (PStr (confidence_value c)) = Some c"
  by (cases c) (simp_all add: confidence_of_def)

definition recorded_entry :: "component \<Rightarrow> pyval" where
  "recorded_entry c = PDict
          [(PStr ''name'', PStr (cp_name c)), (PStr ''version'', PStr (cp_version c)),
           (PStr ''ecosystem'', PStr (ecosystem_value (cp_ecosystem c))),
           (PStr ''confidence'', PStr (confidence_value (cp_confidence c))), (PStr ''purl'', PStr (purl c)),
           (PStr ''licence'', PStr (cp_licence c)), (PStr ''path_in_tree'', PStr (cp_path_in_tree c)),
           (PStr ''evidence'', PStr (cp_evidence c))]"

lemma stored_component_roundtrip: "stored_component (recorded_entry c) = Inr (Some c)"
  by (simp add: stored_component_def recorded_entry_def dict_simps text_of_def ecosystem_of_value confidence_of_value)

lemma map_e_elements: "(\<And>x. f (g x) = Inr (h x)) \<Longrightarrow> map_e f (map g xs) = Inr (map h xs)"
  by (induction xs) auto

lemma map_filter_Some: "List.map_filter id (map Some xs) = xs"
  by (induction xs) simp_all

text \<open>The inventory the analyzer recorded is the one the export is built from: nothing is skipped.\<close>

theorem stored_inventory_is_recorded:
  "(case components_dict iv of PDict stored \<Rightarrow> stored_inventory stored | _ \<Rightarrow> Inl (Uncaught [])) = Inr iv"
  unfolding components_dict_def pyval.case stored_inventory_def recorded_entry_def [symmetric]
  by (simp add: dict_simps py_iter_def int_or_raise_def map_e_elements [of stored_component recorded_entry Some, OF stored_component_roundtrip] map_filter_Some)

end
