(* ===== verification/Cli_Scan.thy ===== *)
theory Cli_Scan
  imports Cli_World Cli_Logs Cli_Output Gate_Api
begin

text \<open>
  \<open>bare scan\<close> and \<open>bare gate\<close> (\<open>cli/scan_commands.py\<close>): upload, wait, ask for the verdict, render it, and exit with
  its code. What the server answers is data; for the verdict it is a function of the request. The theorems say what
  an exit code means: the code 0 of a pipeline step rests on a gate that passed.
\<close>

subsection \<open>Attestation\<close>

definition env_text :: "cli_env \<Rightarrow> string \<Rightarrow> string" where
  "env_text env k = (case ce_getenv env k of Some t \<Rightarrow> t | None \<Rightarrow> [])"

definition or_text :: "string \<Rightarrow> string \<Rightarrow> string" where
  "or_text a b = (if a \<noteq> [] then a else b)"

definition github_run_url :: "cli_env \<Rightarrow> string" where
  "github_run_url env =
     (let server = env_text env ''GITHUB_SERVER_URL''; repo = env_text env ''GITHUB_REPOSITORY''; run_id = env_text env ''GITHUB_RUN_ID'' in
      if server \<noteq> [] \<and> repo \<noteq> [] \<and> run_id \<noteq> [] then server @ ''/'' @ repo @ ''/actions/runs/'' @ run_id else [])"

definition default_attestation :: "cli_env \<Rightarrow> string \<times> string" where
  "default_attestation env =
     (or_text (env_text env ''GITHUB_ACTOR'') (or_text (env_text env ''GITLAB_USER_LOGIN'')
        (or_text (env_text env ''BUILD_REQUESTEDFOR'') (env_text env ''CHANGE_AUTHOR''))),
      or_text (github_run_url env) (or_text (env_text env ''CI_PIPELINE_URL'')
        (or_text (env_text env ''BUILD_BUILDURI'') (env_text env ''BUILD_URL''))))"

subsection \<open>Rendering a verdict and exiting\<close>

record outputs =
  op_json :: "path option"
  op_markdown :: "path option"
  op_sarif :: "path option"
  op_pdf :: "path option"
  op_sbom :: "path option"
  op_warn_only :: bool

record api_world =
  aw_upload :: http_outcome
  aw_polls :: "(http_outcome \<times> rat) list"
  aw_logs :: "nat \<Rightarrow> log_source"
  aw_gate :: "string \<Rightarrow> pyval \<Rightarrow> http_outcome"
  aw_sarif :: http_outcome
  aw_sbom :: http_outcome
  aw_pdf :: http_outcome

definition write_job_summary :: "cli_env \<Rightarrow> string \<Rightarrow> unit cli" where
  "write_job_summary env markdown =
     (let target = env_text env ''GITHUB_STEP_SUMMARY'' in
      if target = [] then ret ()
      else case ce_write_error env (split_on CHR ''/'' target) of
             Some e \<Rightarrow> echo_err (''warning: could not write job summary: '' @ e)
           | None \<Rightarrow> modify (\<lambda>l. l\<lparr>lg_files := lg_files l @ [(split_on CHR ''/'' target, markdown)]\<rparr>))"

definition wrote :: "path \<Rightarrow> unit cli" where
  "wrote p = echo (''wrote '' @ show_path p)"

definition write_json_verdict :: "cli_env \<Rightarrow> gate_verdict \<Rightarrow> string \<Rightarrow> string \<Rightarrow> string \<Rightarrow> path option \<Rightarrow> unit cli" where
  "write_json_verdict env v run_id artifact baseline out =
     (case out of
        None \<Rightarrow> ret ()
      | Some p \<Rightarrow> bind_s (write_text env p (render_verdict_json v run_id artifact baseline)) (\<lambda>_. wrote p))"

definition write_markdown :: "cli_env \<Rightarrow> string \<Rightarrow> path option \<Rightarrow> unit cli" where
  "write_markdown env markdown out =
     bind_s (case out of None \<Rightarrow> ret () | Some p \<Rightarrow> bind_s (write_text env p markdown) (\<lambda>_. wrote p)) (\<lambda>_.
     write_job_summary env markdown)"

definition sorted_json :: "(pyval \<times> pyval) list \<Rightarrow> string" where
  "sorted_json d = (case json_pretty 0 (sort_document (PDict d)) of Some t \<Rightarrow> t | None \<Rightarrow> []) @ [CHR 0x0A]"

definition write_sarif :: "cli_env \<Rightarrow> api_client \<Rightarrow> api_world \<Rightarrow> string \<Rightarrow> path option \<Rightarrow> unit cli" where
  "write_sarif env c w run_id out =
     (case out of
        None \<Rightarrow> ret ()
      | Some p \<Rightarrow>
          (case client_get_sarif (ce_loads env) c run_id (aw_sarif w) of
             Inl e \<Rightarrow> fail_fetch ''could not fetch SARIF: '' e
           | Inr d \<Rightarrow> bind_s (write_text env p (sorted_json d)) (\<lambda>_. wrote p)))"

text \<open>\<open>len(value)\<close>.\<close>

definition py_len :: "pyval \<Rightarrow> nat option" where
  "py_len v = (case v of PList xs \<Rightarrow> Some (length xs) | PDict d \<Rightarrow> Some (length d) | PStr s \<Rightarrow> Some (length (utf8_chars s)) | _ \<Rightarrow> None)"

definition report_components :: "path \<Rightarrow> (pyval \<times> pyval) list \<Rightarrow> unit cli" where
  "report_components p d =
     (case py_len (pd_get_or d ''components'' (PList [])) of
        None \<Rightarrow> raise (Traceback ''TypeError'')
      | Some n \<Rightarrow> echo (''wrote '' @ show_path p @ '' ('' @ show_nat n @ '' component(s))''))"

definition write_sbom :: "cli_env \<Rightarrow> api_client \<Rightarrow> api_world \<Rightarrow> string \<Rightarrow> path option \<Rightarrow> unit cli" where
  "write_sbom env c w run_id out =
     (case out of
        None \<Rightarrow> ret ()
      | Some p \<Rightarrow>
          (case client_get_sbom (ce_loads env) c run_id (aw_sbom w) of
             Inl e \<Rightarrow> fail_fetch ''could not fetch the SBOM: '' e
           | Inr d \<Rightarrow> bind_s (write_text env p (dump_sbom (PDict d))) (\<lambda>_. report_components p d)))"

definition write_pdf :: "cli_env \<Rightarrow> api_client \<Rightarrow> api_world \<Rightarrow> path option \<Rightarrow> unit cli" where
  "write_pdf env c w out =
     (case out of
        None \<Rightarrow> ret ()
      | Some p \<Rightarrow>
          (case client_get_pdf c (aw_pdf w) of
             Inl e \<Rightarrow> fail_fetch ''could not fetch the PDF report: '' e
           | Inr raw \<Rightarrow> bind_s (write_text env p raw) (\<lambda>_. wrote p)))"

definition exit_with :: "bool \<Rightarrow> gate_verdict \<Rightarrow> unit cli" where
  "exit_with warn_only v =
     (if warn_only \<and> gv_decision v \<noteq> PASS
      then bind_s (echo_err ''warn-only: the gate would have failed this build'') (\<lambda>_. raise (Exit 0))
      else raise (Exit (verdict_exit_code v)))"

definition show_verdict :: "gate_verdict \<Rightarrow> string \<Rightarrow> string \<Rightarrow> unit cli" where
  "show_verdict v artifact run_url = bind_s (echo []) (\<lambda>_. echo (render_verdict_text v artifact run_url))"

definition emit_verdict ::
  "cli_env \<Rightarrow> api_client \<Rightarrow> api_world \<Rightarrow> string \<Rightarrow> outputs \<Rightarrow> string \<Rightarrow> string \<Rightarrow> string \<Rightarrow> gate_verdict \<Rightarrow> unit cli" where
  "emit_verdict env c w api outs run_id artifact baseline v =
     (let run_url = rstrip_slashes api @ ''/runs/'' @ run_id in
      bind_s (show_verdict v artifact run_url) (\<lambda>_.
      bind_s (write_json_verdict env v run_id artifact baseline (op_json outs)) (\<lambda>_.
      bind_s (write_markdown env (render_markdown v artifact run_url) (op_markdown outs)) (\<lambda>_.
      bind_s (write_sarif env c w run_id (op_sarif outs)) (\<lambda>_.
      bind_s (write_sbom env c w run_id (op_sbom outs)) (\<lambda>_.
      bind_s (write_pdf env c w (op_pdf outs)) (\<lambda>_.
      exit_with (op_warn_only outs) v)))))))"

subsection \<open>Asking for the verdict\<close>

definition read_verdict :: "(pyval \<times> pyval) list \<Rightarrow> gate_verdict cli" where
  "read_verdict payload =
     (case verdict_from_dict payload of
        Inr v \<Rightarrow> ret v
      | Inl (KeyError k) \<Rightarrow> fail (''could not read the gate response: '' @ repr_str k)
      | Inl (ValueError m) \<Rightarrow> fail (''could not read the gate response: '' @ m)
      | Inl TypeError \<Rightarrow> raise (Traceback ''TypeError'')
      | Inl Untyped \<Rightarrow> raise Outside_Schema)"

definition ask_gate ::
  "cli_env \<Rightarrow> api_client \<Rightarrow> api_world \<Rightarrow> string \<Rightarrow> string \<Rightarrow> string \<Rightarrow> string \<Rightarrow> ((pyval \<times> pyval) list \<times> gate_verdict) cli" where
  "ask_gate env c w run_id policy_yaml waivers_yaml baseline_run =
     (case client_get_gate (ce_loads env) c (aw_gate w run_id) run_id policy_yaml waivers_yaml baseline_run of
        Inl e \<Rightarrow> fail_api e
      | Inr payload \<Rightarrow> bind_s (read_verdict payload) (\<lambda>v. ret (payload, v)))"

subsection \<open>\<open>bare scan\<close>\<close>

record scan_options =
  sc_artifact :: path
  sc_api :: string
  sc_token :: string
  sc_policy :: "path option"
  sc_waivers :: "path option"
  sc_baseline_run :: string
  sc_attested_by :: string
  sc_attestation_ref :: string
  sc_timeout :: nat
  sc_show_logs :: bool
  sc_outputs :: outputs

definition NO_POLICY_SCAN :: string where
  "NO_POLICY_SCAN = ''policy: built-in defaults (no .bare/policy.yaml found '' @ em_dash @ '' blocking at high and above, new findings only)''"

definition require_attestation :: "cli_env \<Rightarrow> scan_options \<Rightarrow> (string \<times> string) cli" where
  "require_attestation env opts =
     (let who = or_text (sc_attested_by opts) (fst (default_attestation env));
          reference = or_text (sc_attestation_ref opts) (snd (default_attestation env))
      in if who = [] \<or> reference = []
         then fail ''an attestation is required: pass --attested-by and --attestation-ref, or run in a CI environment that sets them''
         else ret (who, reference))"

definition upload_artifact :: "cli_env \<Rightarrow> api_client \<Rightarrow> api_world \<Rightarrow> scan_options \<Rightarrow> run_handle cli" where
  "upload_artifact env c w opts =
     bind_s (echo (''uploading '' @ last_component (sc_artifact opts) @ '' ('' @ show_commas (ce_size env (sc_artifact opts)) @ '' bytes) to '' @ sc_api opts)) (\<lambda>_.
     (case client_upload (ce_loads env) c (last_component (sc_artifact opts)) (aw_upload w) of
        Inl e \<Rightarrow> fail_api e
      | Inr h \<Rightarrow> bind_s (echo (''run '' @ rh_run_id h @ '' queued (sha256 '' @ utf8_take 16 (rh_artifact_sha256 h)
                   @ [CHR 0xE2, CHR 0x80, CHR 0xA6] @ '')'')) (\<lambda>_. ret h)))"

text \<open>What one poll prints: a status not seen before, and the new log lines.\<close>

definition print_events :: "log_event list \<Rightarrow> unit cli" where
  "print_events es = for_s es () (\<lambda>e _. case e of Echo t \<Rightarrow> echo t | Warn t \<Rightarrow> echo_err (''warning: '' @ t))"

definition follow_run :: "log_source \<Rightarrow> (pyval \<times> pyval) list \<Rightarrow> follower option \<Rightarrow> follower option cli" where
  "follow_run fetch run f =
     (case f of
        None \<Rightarrow> ret None
      | Some f \<Rightarrow>
          (case poll_logs fetch run f of
             (es, r) \<Rightarrow> bind_s (print_events es) (\<lambda>_. case r of Inl e \<Rightarrow> raise (Traceback e) | Inr f \<Rightarrow> ret (Some f))))"

definition scan_progress :: "log_source \<Rightarrow> (pyval \<times> pyval) list \<Rightarrow> string list \<times> follower option \<Rightarrow> (string list \<times> follower option) cli" where
  "scan_progress fetch run st =
     (case st of (seen, f) \<Rightarrow>
        let status = run_status_text run in
        bind_s (if status \<in> set seen then ret seen else bind_s (echo (''  status: '' @ status)) (\<lambda>_. ret (status # seen))) (\<lambda>seen.
        bind_s (follow_run fetch run f) (\<lambda>f. ret (seen, f))))"

definition wait_finished :: "cli_env \<Rightarrow> api_client \<Rightarrow> api_world \<Rightarrow> scan_options \<Rightarrow> string \<Rightarrow> unit cli" where
  "wait_finished env c w opts run_id =
     (case wait_for_run (ce_loads env) c run_id (sc_timeout opts) (aw_polls w) of
        None \<Rightarrow> raise Still_Waiting
      | Some (polled, outcome) \<Rightarrow>
          bind_s (for_s (enumerate 0 polled) ([], if sc_show_logs opts then Some new_follower else None)
                   (\<lambda>(i, run) st. scan_progress (aw_logs w i) run st)) (\<lambda>(seen, f).
          (case outcome of
             Inl (Api_Error a) \<Rightarrow> fail (ae_message a)
           | Inl (Escapes x) \<Rightarrow> raise (Traceback x)
           | Inr finished \<Rightarrow> bind_s (follow_run (aw_logs w (length polled)) finished f) (\<lambda>_. ret ()))))"

definition scan_waivers :: "cli_env \<Rightarrow> path option \<Rightarrow> path option \<Rightarrow> string cli" where
  "scan_waivers env explicit policy_path =
     (let p = waiver_path env explicit policy_path in
      bind_s (read_optional env p) (\<lambda>waivers_yaml.
      bind_s (case p of Some p \<Rightarrow> if waivers_yaml \<noteq> [] then echo (''waivers: '' @ show_path p) else ret () | None \<Rightarrow> ret ()) (\<lambda>_.
      ret waivers_yaml)))"

definition scan_command :: "cli_env \<Rightarrow> api_world \<Rightarrow> scan_options \<Rightarrow> unit cli" where
  "scan_command env w opts =
     bind_s (if is_file env (sc_artifact opts) then ret () else fail (show_path (sc_artifact opts) @ '' is not a file'')) (\<lambda>_.
     bind_s (resolve_policy_path env (sc_policy opts) (sc_artifact opts)) (\<lambda>policy_path.
     bind_s (read_policy env NO_POLICY_SCAN policy_path) (\<lambda>policy_yaml.
     bind_s (scan_waivers env (sc_waivers opts) policy_path) (\<lambda>waivers_yaml.
     bind_s (require_attestation env opts) (\<lambda>_.
     let c = new_client (sc_api opts) (sc_token opts) in
     bind_s (upload_artifact env c w opts) (\<lambda>h.
     bind_s (wait_finished env c w opts (rh_run_id h)) (\<lambda>_.
     bind_s (ask_gate env c w (rh_run_id h) policy_yaml waivers_yaml (sc_baseline_run opts)) (\<lambda>(payload, v).
     emit_verdict env c w (sc_api opts) (sc_outputs opts) (rh_run_id h) (last_component (sc_artifact opts))
       (py_str (pd_get_or payload ''baseline'' (PStr []))) v))))))))"

subsection \<open>\<open>bare gate\<close>\<close>

record gate_options =
  go_run_id :: string
  go_api :: string
  go_token :: string
  go_policy :: "path option"
  go_waivers :: "path option"
  go_baseline_run :: string
  go_outputs :: outputs

definition gate_command :: "cli_env \<Rightarrow> api_world \<Rightarrow> gate_options \<Rightarrow> unit cli" where
  "gate_command env w opts =
     bind_s (resolve_policy_path env (go_policy opts) (ce_cwd env)) (\<lambda>policy_path.
     bind_s (read_policy env ''policy: built-in defaults (no .bare/policy.yaml found)'' policy_path) (\<lambda>policy_yaml.
     bind_s (read_optional env (waiver_path env (go_waivers opts) policy_path)) (\<lambda>waivers_yaml.
     let c = new_client (go_api opts) (go_token opts) in
     bind_s (ask_gate env c w (go_run_id opts) policy_yaml waivers_yaml (go_baseline_run opts)) (\<lambda>(payload, v).
     emit_verdict env c w (go_api opts) (go_outputs opts) (go_run_id opts)
       (or_text (py_str (pd_get_or payload ''artifact'' (PStr []))) (go_run_id opts))
       (py_str (pd_get_or payload ''baseline'' (PStr []))) v))))"

subsection \<open>Which steps can end a command\<close>

lemma ends_outputs [end_rules]:
  "exits_in N (write_job_summary env m)" "exits_in N (wrote p)"
  "exits_in N (write_json_verdict env v i a b out)" "exits_in N (write_markdown env m out)"
  "exits_in N (write_sarif env c w i out)" "exits_in N (write_sbom env c w i out)"
  "exits_in N (write_pdf env c w out)" "exits_in N (show_verdict v a u)"
proof -
  show wr: "exits_in N (wrote p)" for p by (simp add: wrote_def end_rules)
  show js: "exits_in N (write_job_summary env m)"
    unfolding write_job_summary_def Let_def by (intro end_rules)
  show "exits_in N (write_json_verdict env v i a b out)"
    unfolding write_json_verdict_def by (intro end_rules wr)
  show "exits_in N (write_markdown env m out)"
    unfolding write_markdown_def by (intro end_rules wr js)
  show "exits_in N (write_sarif env c w i out)"
    unfolding write_sarif_def by (intro end_rules wr)
  have rc: "exits_in N (report_components p d)" for p d
    unfolding report_components_def by (intro end_rules)
  show "exits_in N (write_sbom env c w i out)"
    unfolding write_sbom_def by (intro end_rules rc)
  show "exits_in N (write_pdf env c w out)"
    unfolding write_pdf_def by (intro end_rules wr)
  show "exits_in N (show_verdict v a u)"
    unfolding show_verdict_def by (intro end_rules)
qed

lemma ends_asking [end_rules]: "exits_in N (read_verdict d)" "exits_in N (ask_gate env c w i p ws b)"
proof -
  show r: "exits_in N (read_verdict d)" for d
    unfolding read_verdict_def by (cases "verdict_from_dict d") (auto intro!: end_rules split: serde_error.split)
  show "exits_in N (ask_gate env c w i p ws b)"
    unfolding ask_gate_def by (intro end_rules r)
qed

lemma ends_following: "exits_in N (print_events es)" "exits_in N (follow_run fetch run f)" "exits_in N (scan_progress fetch run st)"
proof -
  show e: "exits_in N (print_events es)" for es
    unfolding print_events_def by (intro end_rules) (simp split: log_event.split, intro conjI allI impI end_rules)
  show f: "exits_in N (follow_run fetch run f)" for fetch run f
  proof (cases f)
    case (Some g)
    obtain es r where "poll_logs fetch run g = (es, r)" by (cases "poll_logs fetch run g")
    with Some show ?thesis by (simp add: follow_run_def) (intro end_rules e)
  qed (simp add: follow_run_def end_rules)
  show "exits_in N (scan_progress fetch run st)"
  proof (cases st)
    case (Pair seen f)
    show ?thesis unfolding Pair scan_progress_def prod.case Let_def by (intro end_rules f)
  qed
qed

lemma ends_scan_steps [end_rules]:
  "exits_in N (require_attestation env opts)" "exits_in N (upload_artifact env c w opts)"
  "exits_in N (wait_finished env c w opts i)" "exits_in N (scan_waivers env e q)"
proof -
  show "exits_in N (require_attestation env opts)"
    unfolding require_attestation_def Let_def by (intro end_rules)
  show "exits_in N (upload_artifact env c w opts)"
    unfolding upload_artifact_def by (intro end_rules)
  show "exits_in N (scan_waivers env e q)"
    unfolding scan_waivers_def Let_def by (intro end_rules)
  have loop: "exits_in N (for_s (enumerate 0 polled) st (\<lambda>(i, run) st. scan_progress (aw_logs w i) run st))" for polled st
    by (intro end_rules) (auto intro: ends_following split: prod.split)
  show "exits_in N (wait_finished env c w opts i)"
  proof (cases "wait_for_run (ce_loads env) c i (sc_timeout opts) (aw_polls w)")
    case (Some r)
    obtain polled outcome where r: "r = (polled, outcome)" by (cases r)
    have rest: "exits_in N (case outcome of Inl (Api_Error a) \<Rightarrow> fail (ae_message a) | Inl (Escapes x) \<Rightarrow> raise (Traceback x)
        | Inr finished \<Rightarrow> bind_s (follow_run (aw_logs w (length polled)) finished f) (\<lambda>_. ret ()))" for f
      by (cases outcome) (auto intro!: end_rules ends_following split: client_error.split)
    show ?thesis
      unfolding wait_finished_def Some r option.case prod.case
      by (rule ends_bind [OF loop]) (use rest in \<open>auto split: prod.split\<close>)
  qed (simp add: wait_finished_def end_rules)
qed

subsection \<open>What an exit code means\<close>

lemma exit_delivers: "delivers (\<lambda>_. False) {if warn then 0 else verdict_exit_code v} (exit_with warn v)"
  by (cases "gv_decision v")
    (auto simp: exit_with_def delivers_def verdict_exit_code_def echo_err_def intro!: triple_raise triple_bind triple_modify)

lemma emit_delivers:
  "delivers (\<lambda>_. False) {if op_warn_only outs then 0 else verdict_exit_code v} (emit_verdict env c w api outs i a b v)"
  unfolding emit_verdict_def Let_def by (intro delivers_step end_rules exit_delivers)

lemma read_verdict_delivers: "delivers (\<lambda>v. verdict_from_dict d = Inr v) N (read_verdict d)"
  unfolding read_verdict_def
  by (cases "verdict_from_dict d") (auto intro!: delivers_ret delivers_fail delivers_raise end_rules split: serde_error.split)

lemma ask_gate_delivers:
  "delivers (\<lambda>(d, v). client_get_gate (ce_loads env) c (aw_gate w i) i p ws b = Inr d \<and> verdict_from_dict d = Inr v) N
     (ask_gate env c w i p ws b)"
proof (cases "client_get_gate (ce_loads env) c (aw_gate w i) i p ws b")
  case (Inl e)
  then show ?thesis
    by (cases e) (auto simp: ask_gate_def fail_api_def intro!: delivers_fail delivers_raise end_rules)
next
  case (Inr d)
  have "delivers (\<lambda>(d', v). d' = d \<and> verdict_from_dict d = Inr v) N (bind_s (read_verdict d) (\<lambda>v. ret (d, v)))"
    by (rule delivers_bind [OF read_verdict_delivers]) (simp add: delivers_ret)
  with Inr show ?thesis by (simp add: ask_gate_def delivers_def case_prod_beta) (auto elim!: triple_weaken)
qed

text \<open>The codes a scan can end with, besides the error code, and what each rests on.\<close>

definition verdict_code :: "cli_env \<Rightarrow> api_client \<Rightarrow> api_world \<Rightarrow> path option \<Rightarrow> string \<Rightarrow> bool \<Rightarrow> int \<Rightarrow> bool" where
  "verdict_code env c w policy_path baseline warn n \<longleftrightarrow>
     (\<exists>i text p ws d v. policy_in env policy_path text p
        \<and> client_get_gate (ce_loads env) c (aw_gate w i) i text ws baseline = Inr d
        \<and> verdict_from_dict d = Inr v \<and> n = (if warn then 0 else verdict_exit_code v))"

lemma delivers_weaken: "delivers P M m \<Longrightarrow> M \<subseteq> N \<Longrightarrow> delivers P N m"
  unfolding delivers_def by (erule triple_weaken) auto

lemma ask_and_emit:
  assumes "policy_in env q text p"
  shows "delivers (\<lambda>_. False) {n. verdict_code env c w q baseline (op_warn_only outs) n}
     (bind_s (ask_gate env c w i text ws baseline) (\<lambda>(d, v). emit_verdict env c w api outs i (a d) (b d) v))"
proof (rule delivers_bind [OF ask_gate_delivers])
  fix x assume x: "case x of (d, v) \<Rightarrow> client_get_gate (ce_loads env) c (aw_gate w i) i text ws baseline = Inr d \<and> verdict_from_dict d = Inr v"
  obtain d v where dv: "x = (d, v)" by (cases x)
  with x assms have "verdict_code env c w q baseline (op_warn_only outs) (if op_warn_only outs then 0 else verdict_exit_code v)"
    unfolding verdict_code_def by blast
  then have "{if op_warn_only outs then 0 else verdict_exit_code v} \<subseteq> {n. verdict_code env c w q baseline (op_warn_only outs) n}" by blast
  from delivers_weaken [OF emit_delivers this]
  show "delivers (\<lambda>_. False) {n. verdict_code env c w q baseline (op_warn_only outs) n}
      (case x of (d, v) \<Rightarrow> emit_verdict env c w api outs i (a d) (b d) v)" by (simp add: dv)
qed

lemma scan_delivers:
  "delivers (\<lambda>_. False)
     {n. verdict_code env (new_client (sc_api opts) (sc_token opts)) w (chosen_policy env (sc_policy opts) (sc_artifact opts))
           (sc_baseline_run opts) (op_warn_only (sc_outputs opts)) n} (scan_command env w opts)"
  unfolding scan_command_def Let_def
proof (rule delivers_step, goal_cases)
  case 1
  show ?case by (intro end_rules)
next
  case (2 u)
  show ?case
  proof (rule delivers_bind [OF resolve_delivers], hypsubst, rule delivers_bind [OF read_policy_delivers], elim exE)
    fix y p assume p: "policy_in env (chosen_policy env (sc_policy opts) (sc_artifact opts)) y p"
    show "delivers (\<lambda>_. False)
     {n. verdict_code env (new_client (sc_api opts) (sc_token opts)) w (chosen_policy env (sc_policy opts) (sc_artifact opts))
           (sc_baseline_run opts) (op_warn_only (sc_outputs opts)) n}
     (bind_s (scan_waivers env (sc_waivers opts) (chosen_policy env (sc_policy opts) (sc_artifact opts))) (\<lambda>waivers_yaml.
     bind_s (require_attestation env opts) (\<lambda>_.
     bind_s (upload_artifact env (new_client (sc_api opts) (sc_token opts)) w opts) (\<lambda>h.
     bind_s (wait_finished env (new_client (sc_api opts) (sc_token opts)) w opts (rh_run_id h)) (\<lambda>_.
     bind_s (ask_gate env (new_client (sc_api opts) (sc_token opts)) w (rh_run_id h) y waivers_yaml (sc_baseline_run opts)) (\<lambda>(payload, v).
     emit_verdict env (new_client (sc_api opts) (sc_token opts)) w (sc_api opts) (sc_outputs opts) (rh_run_id h) (last_component (sc_artifact opts))
       (py_str (pd_get_or payload ''baseline'' (PStr []))) v))))))"
      by (intro delivers_step end_rules ask_and_emit [OF p])
  qed
qed

lemma gate_delivers:
  "delivers (\<lambda>_. False)
     {n. verdict_code env (new_client (go_api opts) (go_token opts)) w (chosen_policy env (go_policy opts) (ce_cwd env))
           (go_baseline_run opts) (op_warn_only (go_outputs opts)) n} (gate_command env w opts)"
  unfolding gate_command_def Let_def
proof (rule delivers_bind [OF resolve_delivers], hypsubst, rule delivers_bind [OF read_policy_delivers], elim exE)
  fix y p assume p: "policy_in env (chosen_policy env (go_policy opts) (ce_cwd env)) y p"
  show "delivers (\<lambda>_. False)
     {n. verdict_code env (new_client (go_api opts) (go_token opts)) w (chosen_policy env (go_policy opts) (ce_cwd env))
           (go_baseline_run opts) (op_warn_only (go_outputs opts)) n}
     (bind_s (read_optional env (waiver_path env (go_waivers opts) (chosen_policy env (go_policy opts) (ce_cwd env)))) (\<lambda>waivers_yaml.
     bind_s (ask_gate env (new_client (go_api opts) (go_token opts)) w (go_run_id opts) y waivers_yaml (go_baseline_run opts)) (\<lambda>(payload, v).
     emit_verdict env (new_client (go_api opts) (go_token opts)) w (go_api opts) (go_outputs opts) (go_run_id opts)
       (or_text (py_str (pd_get_or payload ''artifact'' (PStr []))) (go_run_id opts))
       (py_str (pd_get_or payload ''baseline'' (PStr []))) v)))"
    by (intro delivers_step end_rules ask_and_emit [OF p])
qed

end
