(* ===== verification/Cli_Properties.thy ===== *)
theory Cli_Properties
  imports Cli_Scan
begin

text \<open>
  What the exit code of \<open>bare scan\<close> and \<open>bare gate\<close> is worth, against a server that answers as \<open>Gate_Api\<close> does: code
  0 means that the gate passed. And what it is not worth: an exception that no command catches also ends with the
  code of a blocked build.
\<close>

subsection \<open>Against a server\<close>

text \<open>The request the server reads from the body the client sends.\<close>

definition request_of :: "pyval \<Rightarrow> gate_request option" where
  "request_of body =
     (case body of
        PDict d \<Rightarrow>
          (case (pd_get_or d ''policy_yaml'' (PStr []), pd_get_or d ''waivers_yaml'' (PStr []), pd_get_or d ''baseline_run_id'' PNone) of
             (PStr p, PStr w, PStr b) \<Rightarrow> Some \<lparr>gq_policy_yaml = p, gq_waivers_yaml = w, gq_baseline_run_id = Some b\<rparr>
           | (PStr p, PStr w, PNone) \<Rightarrow> Some \<lparr>gq_policy_yaml = p, gq_waivers_yaml = w, gq_baseline_run_id = None\<rparr>
           | _ \<Rightarrow> None)
      | _ \<Rightarrow> None)"

definition baseline_option :: "string \<Rightarrow> string option" where
  "baseline_option b = (if b \<noteq> [] then Some b else None)"

lemma request_of_body:
  "request_of (gate_body p w b) = Some \<lparr>gq_policy_yaml = p, gq_waivers_yaml = w, gq_baseline_run_id = baseline_option b\<rparr>"
  by (simp add: request_of_def gate_body_def dict_simps baseline_option_def)

text \<open>A body is answered with what the endpoint computes on the database \<open>d\<close>, written as JSON.\<close>

definition gate_served :: "cli_env \<Rightarrow> api_world \<Rightarrow> date \<Rightarrow> db \<Rightarrow> bool" where
  "gate_served env w today d \<longleftrightarrow>
     (\<forall>i body raw. aw_gate w i body = Reply raw \<longrightarrow>
        (\<exists>rq reply. request_of body = Some rq \<and> evaluate_gate (ce_yaml env) today d i rq = Inr reply
           \<and> ce_loads env raw = Parsed (PDict reply)))"

lemma client_get_gate_reply:
  assumes "client_get_gate loads c serve i p ws b = Inr d" "d \<noteq> []"
  obtains raw v where "serve (gate_body p ws b) = Reply raw" "loads raw = Parsed v" "mapping_or_empty v = Inr d"
proof (cases "serve (gate_body p ws b)")
  case (Reply raw)
  with assms show ?thesis
    by (cases "raw = []"; cases "loads raw")
      (auto simp: client_get_gate_def get_mapping_def request_def Let_def mapping_or_empty_def intro: that split: if_splits)
qed (use assms in \<open>simp_all add: client_get_gate_def get_mapping_def request_def Let_def\<close>)

lemma verdict_needs_payload: "verdict_from_dict d = Inr v \<Longrightarrow> d \<noteq> []"
  by (auto simp: verdict_from_dict_def index_key_def dict_simps)

lemma policy_is_shared:
  assumes "policy_in env q text p" "\<forall>t. py_strip t = [] \<longrightarrow> ce_yaml env t = Some PNone"
  shows "parse_policy_yaml (ce_yaml env) text = Inr p"
proof (cases q)
  case None
  with assms(1) show ?thesis by (simp add: policy_in_def default_policy_of_blank)
next
  case (Some f)
  with assms show ?thesis by (auto simp: policy_in_def intro: server_reads_same_policy)
qed

lemma verdict_code_served:
  assumes "verdict_code env c w q baseline warn n" "\<forall>t. py_strip t = [] \<longrightarrow> ce_yaml env t = Some PNone" "gate_served env w today d"
  obtains i y p ws v b where "policy_in env q y p" "gate_run d i p ws (baseline_option baseline) None today = Inr (v, b)"
    "n = (if warn then 0 else verdict_exit_code v)"
proof -
  from assms(1) obtain i y p wy payload v' where p: "policy_in env q y p"
    and g: "client_get_gate (ce_loads env) c (aw_gate w i) i y wy baseline = Inr payload"
    and v: "verdict_from_dict payload = Inr v'" "n = (if warn then 0 else verdict_exit_code v')"
    unfolding verdict_code_def by blast
  from client_get_gate_reply [OF g verdict_needs_payload [OF v(1)]] obtain raw x where
    r: "aw_gate w i (gate_body y wy baseline) = Reply raw" "ce_loads env raw = Parsed x" "mapping_or_empty x = Inr payload" .
  from assms(3) [unfolded gate_served_def, rule_format, OF r(1)] obtain rq reply where
    s: "request_of (gate_body y wy baseline) = Some rq" "evaluate_gate (ce_yaml env) today d i rq = Inr reply"
      "ce_loads env raw = Parsed (PDict reply)" by blast
  from s(1) have rq: "rq = \<lparr>gq_policy_yaml = y, gq_waivers_yaml = wy, gq_baseline_run_id = baseline_option baseline\<rparr>"
    unfolding request_of_body by simp
  have e: "evaluate_gate (ce_yaml env) today d i
          \<lparr>gq_policy_yaml = y, gq_waivers_yaml = wy, gq_baseline_run_id = baseline_option baseline\<rparr> = Inr reply" "x = PDict reply"
    using s(2,3) r(2) rq by simp_all
  let ?rq = "\<lparr>gq_policy_yaml = y, gq_waivers_yaml = wy, gq_baseline_run_id = baseline_option baseline\<rparr>"
  from e(1) obtain p' ws v0 b where "parse_policy_yaml (ce_yaml env) (gq_policy_yaml ?rq) = Inr p'"
    "gate_run d i p' ws (gq_baseline_run_id ?rq) None today = Inr (v0, b)"
    "reply = gate_response i (case run_root_artifact d i of Some a \<Rightarrow> a_name a | None \<Rightarrow> []) b v0"
    by (rule evaluate_gate_cases) blast
  then have s: "parse_policy_yaml (ce_yaml env) y = Inr p'" "gate_run d i p' ws (baseline_option baseline) None today = Inr (v0, b)"
    "\<exists>a. reply = gate_response i a b v0" by auto
  from s(1) have "p' = p" using policy_is_shared [OF p assms(2)] by simp
  have "payload = reply"
    using r(3) s(3) by (auto simp: e(2) mapping_or_empty_def gate_response_def Let_def split: if_splits)
  with s(3) v(1) have "gv_decision v' = gv_decision v0" using read_response_decision by blast
  with v(2) have "n = (if warn then 0 else verdict_exit_code v0)" by (simp add: verdict_exit_code_def)
  from that [OF p s(2) [unfolded \<open>p' = p\<close>] this] show thesis .
qed

lemma passing_run_is_clean:
  assumes "gate_run d i p ws bl bs today = Inr (v, b)" "verdict_exit_code v = 0" "p_on_degraded p \<noteq> PASS_DEGRADED"
  shows "\<exists>r. get_run d i = Some r \<and> run_is_terminal (r_status r) \<and> r_status r \<noteq> R_FAILED \<and> degraded_stages d i = []"
proof -
  have "\<exists>r. get_run d i = Some r \<and> run_is_terminal (r_status r)"
    using assms(1) by (cases rule: gate_run_cases) (auto simp: run_is_terminal_def)
  then obtain r where r: "get_run d i = Some r" "run_is_terminal (r_status r)" by blast
  with degraded_run_core [OF assms(1,3) r(1)] assms(2) show ?thesis by blast
qed



subsection \<open>A build that passes\<close>

definition clean_db :: db where
  "clean_db = sample_db\<lparr>db_runs := [sample_run\<lparr>r_status := R_COMPLETED\<rparr>], db_stages := []\<rparr>"

definition clean_verdict :: gate_verdict where
  "clean_verdict = evaluate [] default_policy [] [] sample_day"

definition clean_reply :: "(pyval \<times> pyval) list" where
  "clean_reply = gate_response ''r1'' [] no_baseline clean_verdict"

definition blank_request :: gate_request where
  "blank_request = \<lparr>gq_policy_yaml = [], gq_waivers_yaml = [], gq_baseline_run_id = None\<rparr>"

definition sample_env :: cli_env where
  "sample_env = \<lparr>ce_file = (\<lambda>p. if p = [''app''] then Some (Inr ''x'') else None), ce_size = (\<lambda>p. 1), ce_cwd = [],
     ce_getenv = (\<lambda>k. None), ce_write_error = (\<lambda>p. None),
     ce_yaml = (\<lambda>t. if py_strip t = [] then Some PNone else None),
     ce_loads = (\<lambda>raw. if raw = ''G'' then Parsed (PDict clean_reply)
        else if raw = ''U'' then Parsed (PDict [(PStr ''run_id'', PStr ''r1'')])
        else if raw = ''S'' then Parsed (PDict [(PStr ''status'', PStr ''completed'')]) else Bad_Json),
     ce_policy_message = (\<lambda>e. [])\<rparr>"

definition sample_world :: api_world where
  "sample_world = \<lparr>aw_upload = Reply ''U'', aw_polls = [(Reply ''S'', 0)], aw_logs = (\<lambda>n i. Inr None),
     aw_gate = (\<lambda>i body. if i = ''r1'' \<and> request_of body = Some blank_request then Reply ''G'' else Http_Error 500 []),
     aw_sarif = Timed_Out, aw_sbom = Timed_Out, aw_pdf = Timed_Out\<rparr>"

definition no_outputs :: outputs where
  "no_outputs = \<lparr>op_json = None, op_markdown = None, op_sarif = None, op_pdf = None, op_sbom = None, op_warn_only = False\<rparr>"

definition sample_scan :: scan_options where
  "sample_scan = \<lparr>sc_artifact = [''app''], sc_api = ''http://bare'', sc_token = [], sc_policy = None, sc_waivers = None,
     sc_baseline_run = [], sc_attested_by = ''me'', sc_attestation_ref = ''T-1'', sc_timeout = 1800, sc_show_logs = False,
     sc_outputs = no_outputs\<rparr>"

definition sample_gate :: gate_options where
  "sample_gate = \<lparr>go_run_id = ''r1'', go_api = ''http://bare'', go_token = [], go_policy = None, go_waivers = None,
     go_baseline_run = [], go_outputs = no_outputs\<rparr>"

lemma clean_gate: "evaluate_gate (ce_yaml env) sample_day clean_db ''r1'' blank_request = Inr clean_reply"
  by (simp add: evaluate_gate_def blank_request_def parse_policy_yaml_def parse_waivers_yaml_def py_strip_def gate_run_def
      clean_db_def sample_db_def sample_run_def get_run_def run_is_terminal_def resolve_baseline_def or_str_def
      collect_gate_findings_def gate_degraded_def describe_degraded_def degraded_stages_def clean_reply_def clean_verdict_def
      run_root_artifact_def no_baseline_def)

lemma clean_passes: "gv_decision clean_verdict = PASS"
  by (simp add: clean_verdict_def evaluate_no_findings)

lemma clean_read: "verdict_from_dict clean_reply = Inr (wire_verdict clean_verdict)"
  unfolding clean_reply_def
proof (rule response_roundtrip)
  show "\<forall>w \<in> set (gv_waived clean_verdict). valid_date (wf_expires w)"
    by (simp add: clean_verdict_def evaluate_def start_state_def Let_def)
qed

lemma sample_served: "gate_served sample_env sample_world sample_day clean_db"
  unfolding gate_served_def
proof (intro allI impI)
  fix i body raw assume "aw_gate sample_world i body = Reply raw"
  then have "i = ''r1''" "request_of body = Some blank_request" "raw = ''G''"
    by (auto simp: sample_world_def split: if_splits)
  with clean_gate [of sample_env] show "\<exists>rq reply. request_of body = Some rq \<and> evaluate_gate (ce_yaml sample_env) sample_day clean_db i rq = Inr reply
      \<and> ce_loads sample_env raw = Parsed (PDict reply)"
    by (intro exI [of _ blank_request] exI [of _ clean_reply]) (simp, simp add: sample_env_def)
qed

lemma sample_blank: "\<forall>t. py_strip t = [] \<longrightarrow> ce_yaml sample_env t = Some PNone"
  by (simp add: sample_env_def)

lemma sample_no_policy: "chosen_policy sample_env None p = None" if "p \<in> {[''app''], []}"
  using that by (auto simp: chosen_policy_def discover_def discover_policy_def is_file_def sample_env_def POLICY_DIR_def POLICY_FILE_def)

lemma clean_reply_nonempty: "clean_reply \<noteq> []"
  by (simp add: clean_reply_def gate_response_def Let_def)

lemma sample_asks:
  "ask_gate sample_env c sample_world ''r1'' [] [] [] s = (Inr (clean_reply, wire_verdict clean_verdict), s)"
proof -
  have "client_get_gate (ce_loads sample_env) c (aw_gate sample_world ''r1'') ''r1'' [] [] [] = Inr clean_reply"
    using clean_reply_nonempty
    by (simp add: client_get_gate_def get_mapping_def request_def sample_world_def request_of_body blank_request_def baseline_option_def
        sample_env_def mapping_or_empty_def Let_def)
  then show ?thesis by (simp add: ask_gate_def read_verdict_def clean_read eff_simps)
qed

lemma sample_emits:
  "\<exists>s'. emit_verdict sample_env c sample_world api no_outputs i a b (wire_verdict clean_verdict) s = (Inl (Exit 0), s')"
  by (simp add: emit_verdict_def no_outputs_def show_verdict_def echo_def write_json_verdict_def write_markdown_def write_job_summary_def
      env_text_def sample_env_def write_sarif_def write_sbom_def write_pdf_def exit_with_def clean_passes verdict_exit_code_def eff_simps Let_def)

lemma sample_resolves: "p \<in> {[''app''], []} \<Longrightarrow> resolve_policy_path sample_env None p s = (Inr None, s)"
  using sample_no_policy [of p] by (simp add: resolve_policy_path_def chosen_policy_def eff_simps)

lemma sample_reads: "\<exists>s'. read_policy sample_env w None s = (Inr [], s')"
  by (simp add: read_policy_def echo_def eff_simps)

definition empty_log :: cli_log where
  "empty_log = \<lparr>lg_out = [], lg_err = [], lg_files = []\<rparr>"

lemma sample_gate_runs: "\<exists>s'. gate_command sample_env sample_world sample_gate empty_log = (Inl (Exit 0), s')"
proof -
  have cwd: "ce_cwd sample_env = []" by (simp add: sample_env_def)
  obtain s1 where "read_policy sample_env ''policy: built-in defaults (no .bare/policy.yaml found)'' None empty_log = (Inr [], s1)"
    using sample_reads by blast
  moreover obtain s2 where "emit_verdict sample_env (new_client (go_api sample_gate) (go_token sample_gate)) sample_world (go_api sample_gate)
      no_outputs ''r1'' (or_text (py_str (pd_get_or clean_reply ''artifact'' (PStr []))) ''r1'')
      (py_str (pd_get_or clean_reply ''baseline'' (PStr []))) (wire_verdict clean_verdict) s1 = (Inl (Exit 0), s2)"
    using sample_emits by blast
  ultimately show ?thesis
    by (simp add: gate_command_def sample_gate_def cwd sample_resolves waiver_path_def read_optional_def eff_simps sample_asks Let_def)
qed


lemma sample_waits:
  "wait_finished sample_env c sample_world sample_scan ''r1'' s = (Inr (), s)"
  by (simp add: wait_finished_def sample_world_def sample_env_def sample_scan_def client_get_run_def get_mapping_def request_def
      mapping_or_empty_def run_status_text_def dict_simps TERMINAL_STATUSES_def follow_run_def eff_simps Let_def)

lemma sample_uploads:
  "\<exists>h s'. upload_artifact sample_env c sample_world sample_scan s = (Inr h, s') \<and> rh_run_id h = ''r1''"
  by (simp add: upload_artifact_def sample_world_def sample_env_def sample_scan_def client_upload_def request_def dict_simps
      int_or_raise_def echo_def eff_simps Let_def)

lemma sample_scan_runs: "\<exists>s'. scan_command sample_env sample_world sample_scan empty_log = (Inl (Exit 0), s')"
proof -
  let ?c = "new_client (sc_api sample_scan) (sc_token sample_scan)"
  have f: "is_file sample_env (sc_artifact sample_scan)" "sc_policy sample_scan = None" "sc_waivers sample_scan = None"
    "sc_artifact sample_scan = [''app'']" "sc_baseline_run sample_scan = []" "sc_outputs sample_scan = no_outputs"
    by (simp_all add: is_file_def sample_env_def sample_scan_def)
  have att: "require_attestation sample_env sample_scan s = (Inr (''me'', ''T-1''), s)" for s
    by (simp add: require_attestation_def sample_scan_def or_text_def eff_simps Let_def)
  have wv: "scan_waivers sample_env None None s = (Inr [], s)" for s
    by (simp add: scan_waivers_def waiver_path_def read_optional_def eff_simps Let_def)
  obtain s1 where s1: "read_policy sample_env NO_POLICY_SCAN None empty_log = (Inr [], s1)"
    using sample_reads by blast
  obtain h s2 where s2: "upload_artifact sample_env ?c sample_world sample_scan s1 = (Inr h, s2)" "rh_run_id h = ''r1''"
    using sample_uploads by blast
  obtain s3 where s3: "emit_verdict sample_env ?c sample_world (sc_api sample_scan) no_outputs ''r1'' (last_component [''app''])
      (py_str (pd_get_or clean_reply ''baseline'' (PStr []))) (wire_verdict clean_verdict) s2 = (Inl (Exit 0), s3)"
    using sample_emits by blast
  show ?thesis
    unfolding scan_command_def Let_def using f(1)
    by (simp add: f sample_resolves s1 wv att s2 sample_waits sample_asks s3 eff_simps)
qed


subsection \<open>A code that is no verdict\<close>

text \<open>The commands keep code 2 for everything that is no verdict. An exception they do not catch ends the process with
  Python's status 1, the code of a blocked build: here a policy file whose version is no number.\<close>

definition bad_policy_env :: cli_env where
  "bad_policy_env = sample_env
     \<lparr>ce_file := (\<lambda>p. if p = [''p''] then Some (Inr ''version: x'') else None),
      ce_yaml := (\<lambda>t. Some (PDict [(PStr ''version'', PStr ''x'')]))\<rparr>"

theorem uncaught_error_looks_blocked:
  "\<exists>s' e. gate_command bad_policy_env w (sample_gate\<lparr>go_policy := Some [''p'']\<rparr>) s = (Inl e, s')
     \<and> exit_status e = Some (decision_exit_code BLOCKED)"
proof -
  have "load_version (PStr ''x'') = Inl PyValueError"
    by (simp add: load_version_def parse_int_def py_strip_def py_space_def parse_digits_def is_digit_def)
  then have "load_policy (ce_yaml bad_policy_env) (show_path [''p'']) (Some (universal_newlines ''version: x'')) = Inl PyValueError"
    by (simp add: load_policy_def bad_policy_env_def require_mapping_def parse_policy_def dict_simps)
  then show ?thesis
    by (simp add: gate_command_def resolve_policy_path_def is_file_def bad_policy_env_def read_policy_def read_text_def
        load_policy_at_def checked_policy_def exit_status_def eff_simps)
qed

end
