(* ===== verification/Cli_Commands.thy ===== *)
theory Cli_Commands
  imports Cli_Scan Policy_Waive
begin

text \<open>
  The other commands of the build agent: \<open>bare sbom\<close>, \<open>bare sbom-diff\<close> and \<open>bare policy\<close> (\<open>cli/scan_commands.py\<close>)
  and \<open>bare waive\<close> (\<open>cli/waive_commands.py\<close>).
\<close>

subsection \<open>\<open>bare sbom\<close> and \<open>bare sbom-diff\<close>\<close>

definition echo_raw :: "string \<Rightarrow> unit cli" where
  "echo_raw t = echo t"

definition sbom_command :: "cli_env \<Rightarrow> string \<Rightarrow> string \<Rightarrow> (string \<Rightarrow> http_outcome) \<Rightarrow> string \<Rightarrow> path option \<Rightarrow> unit cli" where
  "sbom_command env api token serve run_id out =
     (case client_get_sbom (ce_loads env) (new_client api token) run_id (serve run_id) of
        Inl e \<Rightarrow> fail_fetch ''could not fetch the SBOM: '' e
      | Inr d \<Rightarrow>
          (case out of
             None \<Rightarrow> echo_raw (dump_sbom (PDict d))
           | Some p \<Rightarrow> bind_s (write_text env p (dump_sbom (PDict d))) (\<lambda>_. report_components p d)))"

text \<open>A reference is a file when one exists at that path, else a run id. \<open>where_is\<close> reads a path from text.\<close>

definition load_reference ::
  "cli_env \<Rightarrow> (string \<Rightarrow> path) \<Rightarrow> api_client \<Rightarrow> (string \<Rightarrow> http_outcome) \<Rightarrow> string \<Rightarrow> (pyval \<times> string) cli" where
  "load_reference env where_is c serve reference =
     (let p = where_is reference; unreadable = (\<lambda>e. fail (''could not read '' @ show_path p @ '' as JSON: '' @ e)) in
      case ce_file env p of
        Some (Inl e) \<Rightarrow> unreadable e
      | Some (Inr t) \<Rightarrow>
          (case ce_loads env (universal_newlines t) of
             Parsed v \<Rightarrow> ret (v, last_component p)
           | Bad_Json \<Rightarrow> unreadable ''JSONDecodeError''
           | Too_Deep \<Rightarrow> raise (Traceback ''RecursionError''))
      | None \<Rightarrow>
          (case client_get_sbom (ce_loads env) c reference (serve reference) of
             Inl e \<Rightarrow> fail_fetch (''could not fetch the SBOM for '' @ repr_str reference @ '': '') e
           | Inr d \<Rightarrow> ret (PDict d, [])))"

definition sbom_diff_command ::
  "cli_env \<Rightarrow> (string \<Rightarrow> path) \<Rightarrow> string \<Rightarrow> string \<Rightarrow> (string \<Rightarrow> http_outcome) \<Rightarrow> string \<Rightarrow> string \<Rightarrow> bool \<Rightarrow> bool \<Rightarrow> unit cli" where
  "sbom_diff_command env where_is api token serve before after as_json exit_code =
     (let c = new_client api token in
      bind_s (load_reference env where_is c serve before) (\<lambda>(old, old_label).
      bind_s (load_reference env where_is c serve after) (\<lambda>(new, new_label).
      (case diff_sboms old new old_label new_label of
         Inl (Sbom_Diff_Error m) \<Rightarrow> fail m
       | Inl (Sbom_Raises e) \<Rightarrow> raise (Traceback e)
       | Inr d \<Rightarrow>
           bind_s (echo_raw (if as_json then render_json d else render_text d)) (\<lambda>_.
           if exit_code \<and> has_changes d then raise (Exit 1) else ret ())))))"

text \<open>\<open>--exit-code\<close> ends with 1 exactly when the components differ, and otherwise the command returns; a document it
  cannot read ends with 2.\<close>

theorem sbom_diff_exit_code:
  assumes "load_reference env where_is (new_client api token) serve before s = (Inr (old, old_label), s1)"
    and "load_reference env where_is (new_client api token) serve after s1 = (Inr (new, new_label), s2)"
    and "diff_sboms old new old_label new_label = Inr d"
  shows "fst (sbom_diff_command env where_is api token serve before after as_json True s)
     = (if has_changes d then Inl (Exit 1) else Inr ())"
  using assms by (simp add: sbom_diff_command_def echo_raw_def echo_def eff_simps Let_def)

subsection \<open>\<open>bare policy\<close>\<close>

definition show_bool :: "bool \<Rightarrow> string" where
  "show_bool b = (if b then ''True'' else ''False'')"

definition sorted_text :: "string set \<Rightarrow> string" where
  "sorted_text A = join '', '' (sorted_list_of_set A)"

definition policy_validate :: "cli_env \<Rightarrow> path option \<Rightarrow> unit cli" where
  "policy_validate env p =
     (let target = (case p of Some t \<Rightarrow> t | None \<Rightarrow> ce_cwd env @ [POLICY_DIR, POLICY_FILE]) in
      bind_s (if is_file env target then ret () else fail (show_path target @ '' does not exist'')) (\<lambda>_.
      bind_s (load_policy_at env target) (\<lambda>pol.
      bind_s (echo (show_path target @ '' is valid'')) (\<lambda>_.
      bind_s (echo (''  name              : '' @ p_name pol)) (\<lambda>_.
      bind_s (echo (''  blocks at/above   : '' @ (case p_block_at_or_above pol of Some s \<Rightarrow> severity_value s | None \<Rightarrow> ''disabled''))) (\<lambda>_.
      bind_s (when_s (p_block_rules pol \<noteq> {}) (echo (''  blocked rules     : '' @ sorted_text (p_block_rules pol)))) (\<lambda>_.
      bind_s (when_s (p_block_categories pol \<noteq> {}) (echo (''  blocked categories: '' @ sorted_text (p_block_categories pol)))) (\<lambda>_.
      bind_s (echo (''  baseline mode     : '' @ mode_value (p_baseline_mode pol))) (\<lambda>_.
      bind_s (echo (''  on degraded scan  : '' @ posture_value (p_on_degraded pol))) (\<lambda>_.
      bind_s (echo (''  trusts AI verdicts: '' @ show_bool (p_trust_llm_dismissals pol))) (\<lambda>_.
      echo (''  max waiver days   : '' @ show_int (p_max_waiver_days pol)))))))))))))"

text \<open>\<open>exists\<close> is \<open>target.exists()\<close>.\<close>

definition policy_init :: "cli_env \<Rightarrow> path \<Rightarrow> (path \<Rightarrow> bool) \<Rightarrow> path \<Rightarrow> bool \<Rightarrow> unit cli" where
  "policy_init env template exists directory force =
     (let target = directory @ [POLICY_DIR, POLICY_FILE] in
      bind_s (if exists target \<and> \<not> force then fail (show_path target @ '' already exists; pass --force to overwrite'') else ret ()) (\<lambda>_.
      bind_s (if is_file env template then ret () else fail (''the packaged policy template is missing at '' @ show_path template)) (\<lambda>_.
      bind_s (read_text env template) (\<lambda>t.
      bind_s (write_text env target t) (\<lambda>_.
      bind_s (echo (''wrote '' @ show_path target)) (\<lambda>_.
      echo ''Review it, commit it, and wire `bare scan` into your release pipeline.''))))))"

definition policy_explain :: "unit cli" where
  "policy_explain =
     (case parse_policy [] of
        Inl e \<Rightarrow> raise (Traceback ''PolicyLoadError'')
      | Inr pol \<Rightarrow>
          bind_s (echo ''Built-in defaults (used when no .bare/policy.yaml is present):'') (\<lambda>_.
          bind_s (echo (''  block at or above : '' @ (case p_block_at_or_above pol of Some s \<Rightarrow> severity_value s | None \<Rightarrow> ''None''))) (\<lambda>_.
          bind_s (echo (''  baseline mode     : '' @ mode_value (p_baseline_mode pol))) (\<lambda>_.
          bind_s (echo (''  on degraded scan  : '' @ posture_value (p_on_degraded pol))) (\<lambda>_.
          bind_s (echo (''  trust AI verdicts : '' @ show_bool (p_trust_llm_dismissals pol))) (\<lambda>_.
          bind_s (echo []) (\<lambda>_.
          echo ''Exit codes: 0 pass, 1 blocked, 2 error, 3 inconclusive.'')))))))"

subsection \<open>\<open>bare waive\<close>\<close>

record waive_options =
  wo_finding_id :: string
  wo_reason :: string
  wo_expires :: string
  wo_owner :: string
  wo_policy :: "path option"
  wo_waivers :: "path option"
  wo_dry_run :: bool

definition CRLF_text :: string where "CRLF_text = [CHR 0x0D, CHR 0x0A]"

fun unix_newlines :: "string \<Rightarrow> string" where
  "unix_newlines [] = []"
| "unix_newlines [c] = [c]"
| "unix_newlines (c # d # ds) =
     (if c = CHR 0x0D \<and> d = CHR 0x0A then CHR 0x0A # unix_newlines ds else c # unix_newlines (d # ds))"

definition with_line_ends :: "string \<Rightarrow> string \<Rightarrow> string" where
  "with_line_ends nl t = concat (map (\<lambda>c. if c = CHR 0x0A then nl else [c]) t)"

text \<open>A \<open>WaiveError\<close> is reported with its message; an overflow and a YAML error inside the check are not caught.\<close>

definition checked_waive :: "(waive_error \<Rightarrow> string) \<Rightarrow> waive_error + 'a \<Rightarrow> 'a cli" where
  "checked_waive say r =
     (case r of
        Inr x \<Rightarrow> ret x
      | Inl ExpiryOverflow \<Rightarrow> raise (Traceback ''OverflowError'')
      | Inl YamlErrorEscapes \<Rightarrow> raise (Traceback ''YAMLError'')
      | Inl e \<Rightarrow> fail (say e))"

definition waive_policy :: "cli_env \<Rightarrow> path option \<Rightarrow> policy cli" where
  "waive_policy env q = (case q of Some p \<Rightarrow> load_policy_at env p | None \<Rightarrow> checked_policy env (parse_policy []))"

definition waive_target :: "cli_env \<Rightarrow> path option \<Rightarrow> path option \<Rightarrow> path" where
  "waive_target env explicit policy_path =
     (case explicit of
        Some p \<Rightarrow> p
      | None \<Rightarrow> (case policy_path of
          Some p \<Rightarrow> butlast p @ [WAIVERS_FILE]
        | None \<Rightarrow> ce_cwd env @ [POLICY_DIR, WAIVERS_FILE]))"

definition raw_target :: "cli_env \<Rightarrow> path \<Rightarrow> string cli" where
  "raw_target env target =
     (case ce_file env target of
        None \<Rightarrow> ret []
      | Some (Inr t) \<Rightarrow> ret t
      | Some (Inl e) \<Rightarrow> if e = ''UnicodeDecodeError'' then fail (show_path target @ '' is not UTF-8 text'') else raise (Traceback e))"

definition dry_run_addition :: "string \<Rightarrow> string \<Rightarrow> string" where
  "dry_run_addition existing updated = (if starts_with existing updated then drop (length existing) updated else updated)"

definition waive_command :: "cli_env \<Rightarrow> (waive_error \<Rightarrow> string) \<Rightarrow> date \<Rightarrow> waive_options \<Rightarrow> unit cli" where
  "waive_command env say today opts =
     bind_s (if py_strip (wo_expires opts) = []
             then fail ''--expires is required: a date (YYYY-MM-DD) or a number of days such as 30d'' else ret ()) (\<lambda>_.
     bind_s (case wo_policy opts of
               Some p \<Rightarrow> if is_file env p then ret (Some p) else fail (''policy file '' @ show_path p @ '' does not exist'')
             | None \<Rightarrow> ret (discover env (ce_cwd env))) (\<lambda>policy_path.
     bind_s (waive_policy env policy_path) (\<lambda>pol.
     let target = waive_target env (wo_waivers opts) policy_path in
     bind_s (checked_waive say (parse_expiry (wo_expires opts) today)) (\<lambda>expires.
     bind_s (checked_waive say (build_waiver (wo_finding_id opts) (wo_reason opts) (wo_owner opts) expires pol today)) (\<lambda>w.
     bind_s (raw_target env target) (\<lambda>raw.
     let existing = unix_newlines raw in
     bind_s (checked_waive say (append_waiver (ce_yaml env) existing w pol (show_path target))) (\<lambda>updated.
     if wo_dry_run opts
     then bind_s (echo_raw (dry_run_addition existing updated)) (\<lambda>_. echo_err (''dry run: nothing written to '' @ show_path target))
     else
       bind_s (write_text env target (with_line_ends (if contains CRLF_text raw then CRLF_text else newline) updated)) (\<lambda>_.
       bind_s (echo (''waived '' @ w_finding_id w @ '' in '' @ show_path target)) (\<lambda>_.
       bind_s (echo (''  expires '' @ isoformat (w_expires w) @ '' ('' @ show_int (days_between (w_expires w) today) @ '' day(s); policy ''
                 @ repr_str (p_name pol) @ '' allows '' @ show_int (p_max_waiver_days pol) @ '')'')) (\<lambda>_.
       echo ''Commit it: waivers are reviewed like code.''))))))))))"

subsection \<open>What a waiver file holds afterwards\<close>

lemma read_back_line_ends:
  assumes "CHR 0x0D \<notin> set t" "nl \<in> {newline, CRLF_text}"
  shows "universal_newlines (with_line_ends nl t) = t"
  using assms
proof (induction t)
  case (Cons c t)
  then have c: "c \<noteq> CHR 0x0D" and ih: "universal_newlines (with_line_ends nl t) = t" by auto
  have step: "with_line_ends nl (c # t) = (if c = CHR 0x0A then nl else [c]) @ with_line_ends nl t"
    by (simp add: with_line_ends_def)
  show ?case
  proof (cases "c = CHR 0x0A")
    case True
    with Cons.prems(2) ih show ?thesis unfolding step by (auto simp: CRLF_text_def)
  next
    case False
    with c ih show ?thesis unfolding step by simp
  qed
qed (simp add: with_line_ends_def)

lemma bind_Inr: "bind_s m f s = (Inr y, s') \<Longrightarrow> (\<And>x t. m s = (Inr x, t) \<Longrightarrow> f x t = (Inr y, s') \<Longrightarrow> Q) \<Longrightarrow> Q"
  by (auto simp: bind_s_def split: prod.splits sum.splits)

lemma checked_waive_Inr: "checked_waive say r s = (Inr x, s') \<Longrightarrow> r = Inr x \<and> s' = s"
  by (cases r) (auto simp: checked_waive_def fail_def echo_err_def eff_simps split: waive_error.splits)

lemma write_text_Inr: "write_text env p t s = (Inr u, s') \<Longrightarrow> (p, t) \<in> set (lg_files s')"
  by (auto simp: write_text_def eff_simps split: option.splits)

lemma echo_Inr: "echo t s = (Inr u, s') \<Longrightarrow> lg_files s' = lg_files s"
  by (auto simp: echo_def eff_simps)

text \<open>When \<open>bare waive\<close> returns it has written a file that, read back with its line ends translated, loads under the
  same policy as the old waivers and the new one: an existing file lost nothing and gained one complete entry.\<close>

theorem waive_adds_one_entry:
  assumes "waive_command env say today opts s = (Inr (), s')" "\<not> wo_dry_run opts"
  shows "\<exists>target raw pol w updated nl. (target, with_line_ends nl updated) \<in> set (lg_files s')
    \<and> append_waiver (ce_yaml env) (unix_newlines raw) w pol (show_path target) = Inr updated
    \<and> (\<exists>e. build_waiver (wo_finding_id opts) (wo_reason opts) (wo_owner opts) e pol today = Inr w)
    \<and> (CHR 0x0D \<notin> set updated \<longrightarrow> universal_newlines (with_line_ends nl updated) = updated)
    \<and> (py_strip (unix_newlines raw) \<noteq> [] \<longrightarrow>
        (\<exists>existing. load_text (ce_yaml env) pol (show_path target) (unix_newlines raw) = Inr existing
          \<and> load_text (ce_yaml env) pol (show_path target) updated = Inr (sort_key waiver_key (existing @ [w]))))"
proof -
  from assms obtain policy_path pol t1 e w t2 raw t3 updated t4 where
    b: "build_waiver (wo_finding_id opts) (wo_reason opts) (wo_owner opts) e pol today = Inr w"
    and a: "append_waiver (ce_yaml env) (unix_newlines raw) w pol (show_path (waive_target env (wo_waivers opts) policy_path)) = Inr updated"
    and f: "bind_s (write_text env (waive_target env (wo_waivers opts) policy_path)
        (with_line_ends (if contains CRLF_text raw then CRLF_text else newline) updated)) (\<lambda>_.
       bind_s (echo (''waived '' @ w_finding_id w @ '' in '' @ show_path (waive_target env (wo_waivers opts) policy_path))) (\<lambda>_.
       bind_s (echo (''  expires '' @ isoformat (w_expires w) @ '' ('' @ show_int (days_between (w_expires w) today) @ '' day(s); policy ''
                 @ repr_str (p_name pol) @ '' allows '' @ show_int (p_max_waiver_days pol) @ '')'')) (\<lambda>_.
       echo ''Commit it: waivers are reviewed like code.''))) t4 = (Inr (), s')"
    unfolding waive_command_def Let_def by (elim bind_Inr) (auto dest!: checked_waive_Inr)
  let ?p = "waive_target env (wo_waivers opts) policy_path" and ?nl = "if contains CRLF_text raw then CRLF_text else newline"
  from f have written: "(?p, with_line_ends ?nl updated) \<in> set (lg_files s')"
    by (elim bind_Inr) (auto dest!: write_text_Inr echo_Inr)
  have same: "CHR 0x0D \<notin> set updated \<longrightarrow> universal_newlines (with_line_ends ?nl updated) = updated"
    using read_back_line_ends by simp
  have old: "\<exists>existing. load_text (ce_yaml env) pol (show_path ?p) (unix_newlines raw) = Inr existing
      \<and> load_text (ce_yaml env) pol (show_path ?p) updated = Inr (sort_key waiver_key (existing @ [w]))"
    if "py_strip (unix_newlines raw) \<noteq> []"
    using append_waiver_safe [OF a that] by blast
  from written a b same old show ?thesis
    by (intro exI [of _ ?p] exI [of _ raw] exI [of _ pol] exI [of _ w] exI [of _ updated] exI [of _ ?nl]) blast
qed

end
