(* ===== verification/Findings_Api.thy ===== *)
theory Findings_Api
  imports Scan_Properties Llm_Advisory Auth_Tokens
begin

text \<open>
  The findings endpoints (\<open>api/routers/findings.py\<close>): the listing of a run's findings with its filters, one finding,
  triage by hand with its audit entry, and the byte window of the hex viewer. A refusal is an HTTP error with its
  status. A table is its rows in the order a query without \<open>ORDER BY\<close> returns them. The times at which advice was
  written are left out, as in \<open>annotated\<close>.
\<close>

subsection \<open>Rows and responses\<close>

record findings_db =
  fd_runs :: "run list"
  fd_findings :: "annotated list"
  fd_locations :: "finding_location list"
  fd_evidence :: "evidence list"
  fd_audit :: "audit_entry list"

record location_out =
  lo_artifact_id :: string
  lo_path_in_tree :: string
  lo_offset :: "int option"
  lo_section :: "string option"
  lo_encoding :: "string option"
  lo_xref_function :: "string option"

record llm_assessment =
  la_verdict :: string
  la_reasoning :: "string option"
  la_model :: "string option"

record finding_out =
  fo_id :: string
  fo_run_id :: string
  fo_rule_id :: string
  fo_category :: string
  fo_title :: string
  fo_severity :: severity
  fo_confidence :: rat
  fo_value_masked :: string
  fo_entropy :: "rat option"
  fo_context_snippet :: "string option"
  fo_cwe :: "string option"
  fo_tags :: "string list"
  fo_remediation_md :: "string option"
  fo_status :: finding_status
  fo_detected_by :: detected_by
  fo_is_new :: bool
  fo_locations :: "location_out list"
  fo_location_count :: nat
  fo_value_plaintexts :: "string list"
  fo_context_plaintext :: "string option"
  fo_llm :: "llm_assessment option"
  fo_explanation :: "string option"
  fo_explained_by :: "string option"
  fo_investigation :: "string option"
  fo_steps :: "tool_call list"
  fo_confidence_of_investigation :: "string option"
  fo_investigated_by :: "string option"

fun detected_by_value :: "detected_by \<Rightarrow> string" where
  "detected_by_value D_RULE = ''rule''"
| "detected_by_value D_BOTH = ''both''"
| "detected_by_value D_LLM = ''llm''"

definition ALL_STATUSES :: "finding_status list" where
  "ALL_STATUSES = [F_OPEN, F_CONFIRMED, F_FALSE_POSITIVE, F_ACCEPTED_RISK, F_FIXED, F_NEEDS_REVIEW]"

definition finding_status_of :: "string \<Rightarrow> finding_status option" where
  "finding_status_of s = List.find (\<lambda>x. finding_status_value x = s) ALL_STATUSES"

subsection \<open>What a finding shows\<close>

definition run_finding_ids :: "findings_db \<Rightarrow> string \<Rightarrow> string list" where
  "run_finding_ids d run_id = map f_id (filter (\<lambda>f. f_run_id f = run_id) (fd_findings d))"

definition previous_finding_ids :: "findings_db \<Rightarrow> string \<Rightarrow> string list" where
  "previous_finding_ids d run_id =
     (case List.find (\<lambda>r. r_id r = run_id) (fd_runs d) of
        None \<Rightarrow> []
      | Some r \<Rightarrow>
          (case r_previous_run_id r of
             None \<Rightarrow> []
           | Some p \<Rightarrow> if p = [] then [] else run_finding_ids d p))"

definition MAX_PLAINTEXT_VALUES :: nat where "MAX_PLAINTEXT_VALUES = 500"

definition place_of :: "finding_location \<Rightarrow> string \<times> int option" where
  "place_of l = (fl_artifact_id l, fl_offset l)"

definition evidence_place :: "evidence \<Rightarrow> string \<times> int option" where
  "evidence_place e = (ev_artifact_id e, ev_offset e)"

text \<open>The query: rows of the run in the finding's files that hold something.\<close>

definition rows_at :: "findings_db \<Rightarrow> annotated \<Rightarrow> (string \<times> int option) list \<Rightarrow> (evidence \<Rightarrow> string option) \<Rightarrow> evidence list" where
  "rows_at d f keys held =
     filter (\<lambda>e. ev_run_id e = f_run_id f \<and> ev_artifact_id e \<in> set (map fst keys) \<and> held e \<noteq> None) (fd_evidence d)"

text \<open>The loop over the rows: values in order of arrival, each once, until there are enough.\<close>

fun collect_values :: "(string \<times> int option) list \<Rightarrow> evidence list \<Rightarrow> string list \<Rightarrow> string list" where
  "collect_values keys [] vs = vs"
| "collect_values keys (e # es) vs =
     (if evidence_place e \<notin> set keys then collect_values keys es vs
      else case ev_value_plaintext e of
        None \<Rightarrow> collect_values keys es vs
      | Some v \<Rightarrow>
          if v \<in> set vs then collect_values keys es vs
          else if MAX_PLAINTEXT_VALUES \<le> length (vs @ [v]) then vs @ [v]
          else collect_values keys es (vs @ [v]))"

definition plaintexts :: "findings_db \<Rightarrow> annotated \<Rightarrow> finding_location list \<Rightarrow> string list" where
  "plaintexts d f ls =
     (if ls = [] then []
      else (let keys = map place_of ls;
                rows = rows_at d f keys ev_value_plaintext
            in sort (collect_values keys rows [])))"

definition context_shown :: "findings_db \<Rightarrow> annotated \<Rightarrow> finding_location list \<Rightarrow> string option" where
  "context_shown d f ls =
     (if ls = [] \<or> f_context_snippet f \<in> {None, Some []} then None
      else (let keys = map place_of ls;
                rows = sort_key evidence_place (rows_at d f keys ev_context_plaintext);
                candidates = filter (\<lambda>e. evidence_place e \<in> set keys) rows
            in case List.find (\<lambda>e. ev_context e = f_context_snippet f) candidates of
                 Some e \<Rightarrow> ev_context_plaintext e
               | None \<Rightarrow> (case candidates of [] \<Rightarrow> None | e # _ \<Rightarrow> ev_context_plaintext e)))"

text \<open>The rows of absent offsets sort first. The order of the locations in a response:\<close>

definition shown_order :: "finding_location \<Rightarrow> string \<times> int" where
  "shown_order l = (fl_path_in_tree l, case fl_offset l of None \<Rightarrow> 0 | Some n \<Rightarrow> n)"

definition to_location_out :: "finding_location \<Rightarrow> location_out" where
  "to_location_out l =
     \<lparr>lo_artifact_id = fl_artifact_id l, lo_path_in_tree = fl_path_in_tree l, lo_offset = fl_offset l,
      lo_section = fl_section l, lo_encoding = fl_encoding l, lo_xref_function = fl_xref_function l\<rparr>"

definition finding_locations :: "findings_db \<Rightarrow> annotated \<Rightarrow> finding_location list" where
  "finding_locations d f =
     sort_key shown_order (filter (\<lambda>l. fl_finding_id l = f_id f \<and> fl_run_id l = f_run_id f) (fd_locations d))"

definition to_out :: "findings_db \<Rightarrow> string list \<Rightarrow> annotated \<Rightarrow> finding_out" where
  "to_out d previous_ids f =
     (let locations = finding_locations d f in
      \<lparr>fo_id = f_id f, fo_run_id = f_run_id f, fo_rule_id = f_rule_id f, fo_category = f_category f, fo_title = f_title f,
       fo_severity = f_severity f, fo_confidence = f_confidence f, fo_value_masked = f_value_masked f,
       fo_entropy = f_entropy f, fo_context_snippet = f_context_snippet f, fo_cwe = f_cwe f, fo_tags = f_tags f,
       fo_remediation_md = f_remediation_md f, fo_status = f_status f, fo_detected_by = f_detected_by f,
       fo_is_new = (previous_ids \<noteq> [] \<and> f_id f \<notin> set previous_ids),
       fo_locations = map to_location_out locations, fo_location_count = length locations,
       fo_value_plaintexts = plaintexts d f locations, fo_context_plaintext = context_shown d f locations,
       fo_llm = map_option (\<lambda>v. \<lparr>la_verdict = llm_verdict_value v, la_reasoning = f_llm_reasoning f, la_model = f_llm_model f\<rparr>)
                  (f_llm_verdict f),
       fo_explanation = an_explanation f, fo_explained_by = an_explained_by f, fo_investigation = an_investigation f,
       fo_steps = an_steps f, fo_confidence_of_investigation = an_confidence f, fo_investigated_by = an_investigated_by f\<rparr>)"

subsection \<open>The listing\<close>

text \<open>An absent filter and an empty one are the same.\<close>

record listing_query =
  lq_severity :: "string list"
  lq_status :: "string list"
  lq_category :: "string list"
  lq_detected_by :: string
  lq_new_only :: bool
  lq_limit :: nat

definition asked_for :: "listing_query \<Rightarrow> string \<Rightarrow> annotated \<Rightarrow> bool" where
  "asked_for q run_id f \<longleftrightarrow>
     f_run_id f = run_id
     \<and> (lq_severity q \<noteq> [] \<longrightarrow> severity_value (f_severity f) \<in> set (lq_severity q))
     \<and> (lq_status q \<noteq> [] \<longrightarrow> finding_status_value (f_status f) \<in> set (lq_status q))
     \<and> (lq_category q \<noteq> [] \<longrightarrow> f_category f \<in> set (lq_category q))
     \<and> (lq_detected_by q \<noteq> [] \<longrightarrow> detected_by_value (f_detected_by f) = lq_detected_by q)"

definition listing_key :: "finding_out \<Rightarrow> nat \<times> string \<times> string" where
  "listing_key o' = (severity_rank (fo_severity o'), fo_rule_id o', fo_id o')"

definition list_findings :: "findings_db \<Rightarrow> string \<Rightarrow> listing_query \<Rightarrow> http_error + finding_out list" where
  "list_findings d run_id q =
     (if 2000 < lq_limit q then Inl (Http_Error 422 ''limit'')
      else
        (let findings = take (lq_limit q) (filter (asked_for q run_id) (fd_findings d));
             results = map (to_out d (previous_finding_ids d run_id)) findings;
             results = (if lq_new_only q then filter fo_is_new results else results)
         in Inr (sort_key listing_key results)))"

subsection \<open>One finding, and triage by hand\<close>

definition stored_finding :: "findings_db \<Rightarrow> string \<Rightarrow> string \<Rightarrow> annotated option" where
  "stored_finding d finding_id run_id = List.find (\<lambda>f. f_id f = finding_id \<and> f_run_id f = run_id) (fd_findings d)"

definition no_such_finding :: "string \<Rightarrow> string \<Rightarrow> http_error" where
  "no_such_finding finding_id run_id = Http_Error 404 (''finding '' @ finding_id @ '' not found in run '' @ run_id)"

definition get_finding :: "findings_db \<Rightarrow> string \<Rightarrow> string \<Rightarrow> http_error + finding_out" where
  "get_finding d run_id finding_id =
     (case stored_finding d finding_id run_id of
        None \<Rightarrow> Inl (no_such_finding finding_id run_id)
      | Some f \<Rightarrow> Inr (to_out d (previous_finding_ids d (f_run_id f)) f))"

record finding_patch =
  fp_status :: "string option"
  fp_note :: "string option"

definition unknown_status :: "string \<Rightarrow> http_error" where
  "unknown_status s =
     Http_Error 400 (''unknown status '' @ repr_str s @ ''; expected one of ''
       @ py_repr (PList (map (PStr \<circ> finding_status_value) ALL_STATUSES)))"

definition status_entry :: "annotated \<Rightarrow> finding_status \<Rightarrow> string option \<Rightarrow> audit_entry" where
  "status_entry f s note =
     record_audit FINDING_STATUS_CHANGED ''system'' (Some (f_run_id f))
       [(''finding_id'', PStr (f_id f)), (''old_status'', PStr (finding_status_value (f_status f))),
        (''new_status'', PStr (finding_status_value s)), (''note'', str_or_none note)]"

definition set_status :: "string \<Rightarrow> string \<Rightarrow> finding_status \<Rightarrow> findings_db \<Rightarrow> findings_db" where
  "set_status finding_id run_id s d =
     d\<lparr>fd_findings := map (\<lambda>f. if f_id f = finding_id \<and> f_run_id f = run_id then f\<lparr>f_status := s\<rparr> else f) (fd_findings d)\<rparr>"

definition update_finding ::
  "string \<Rightarrow> string \<Rightarrow> finding_patch \<Rightarrow> (findings_db, http_error, finding_out) eff" where
  "update_finding run_id finding_id patch =
     bind_s (case fp_status patch of
               None \<Rightarrow> ret None
             | Some t \<Rightarrow> (case finding_status_of t of None \<Rightarrow> raise (unknown_status t) | Some s \<Rightarrow> ret (Some s))) (\<lambda>new_status.
     bind_s (reads (\<lambda>d. stored_finding d finding_id run_id)) (\<lambda>found.
     (case found of
        None \<Rightarrow> raise (no_such_finding finding_id run_id)
      | Some f \<Rightarrow>
          bind_s (case new_status of
                    None \<Rightarrow> ret f
                  | Some s \<Rightarrow>
                      bind_s (modify (\<lambda>d. d\<lparr>fd_audit := fd_audit d @ [status_entry f s (fp_note patch)]\<rparr>)) (\<lambda>_.
                      bind_s (modify (set_status finding_id run_id s)) (\<lambda>_. ret (f\<lparr>f_status := s\<rparr>)))) (\<lambda>f.
          reads (\<lambda>d. to_out d (previous_finding_ids d (f_run_id f)) f)))))"

subsection \<open>The byte window\<close>

record byte_window =
  bw_offset :: int
  bw_length :: nat
  bw_hex :: string
  bw_ascii :: string

text \<open>The bounds of the query parameters are checked before the handler runs; an exception of the object store is
  answered with 500.\<close>

definition byte_window_of :: "tool_world \<Rightarrow> string \<Rightarrow> int \<Rightarrow> int \<Rightarrow> http_error + byte_window" where
  "byte_window_of w artifact_id offset len =
     (if offset < 0 \<or> len < 1 \<or> 4096 < len then Inl (Http_Error 422 ''offset or length'')
      else case List.find (\<lambda>a. a_id a = artifact_id) (tw_artifacts w) of
        None \<Rightarrow> Inl (Http_Error 404 ''artifact not found'')
      | Some a \<Rightarrow>
          (case a_storage_key a of
             None \<Rightarrow> Inl (Http_Error 404 ''artifact not found'')
           | Some key \<Rightarrow>
               if key = [] then Inl (Http_Error 404 ''artifact not found'')
               else case read_range w key offset len of
                 Inl e \<Rightarrow> Inl (Http_Error 500 e)
               | Inr data \<Rightarrow>
                   Inr \<lparr>bw_offset = offset, bw_length = length data, bw_hex = concat (map hex_byte data),
                        bw_ascii = map (\<lambda>b. if 0x20 \<le> unat b \<and> unat b < 0x7F then byte_char b else CHR ''.'') data\<rparr>))"

subsection \<open>The values shown\<close>

lemma collect_values_sound:
  "v \<in> set (collect_values keys es vs) \<Longrightarrow>
     v \<in> set vs \<or> (\<exists>e \<in> set es. evidence_place e \<in> set keys \<and> ev_value_plaintext e = Some v)"
  by (induction keys es vs rule: collect_values.induct) (auto split: if_splits option.splits)

lemma collect_values_distinct: "distinct vs \<Longrightarrow> distinct (collect_values keys es vs)"
  by (induction keys es vs rule: collect_values.induct) (auto split: option.splits)

lemma collect_values_keeps: "set vs \<subseteq> set (collect_values keys es vs)"
  by (induction keys es vs rule: collect_values.induct) (auto split: option.splits)

lemma collect_values_bound:
  "length vs < MAX_PLAINTEXT_VALUES \<Longrightarrow> length (collect_values keys es vs) \<le> MAX_PLAINTEXT_VALUES"
proof (induction keys es vs rule: collect_values.induct)
  case (2 keys e es vs)
  then show ?case by (cases "ev_value_plaintext e") auto
qed simp

lemma collect_values_complete:
  "length (collect_values keys es vs) < MAX_PLAINTEXT_VALUES \<Longrightarrow> e \<in> set es \<Longrightarrow> evidence_place e \<in> set keys \<Longrightarrow>
     ev_value_plaintext e = Some v \<Longrightarrow> v \<in> set (collect_values keys es vs)"
proof (induction keys es vs rule: collect_values.induct)
  case (2 keys x es vs)
  show ?case
  proof (cases "e = x")
    case True
    with "2.prems"(3,4) collect_values_keeps [of vs keys es] collect_values_keeps [of "vs @ [v]" keys es] show ?thesis by auto
  next
    case False
    with "2.prems"(2) have "e \<in> set es" by simp
    with 2 show ?thesis by (cases "ev_value_plaintext x") (auto split: if_splits)
  qed
qed simp

text \<open>What the run holds in plaintext at a finding's places.\<close>

definition values_at :: "findings_db \<Rightarrow> annotated \<Rightarrow> string set" where
  "values_at d f = {v. \<exists>e \<in> set (fd_evidence d). ev_run_id e = f_run_id f
      \<and> evidence_place e \<in> place_of ` set (finding_locations d f) \<and> ev_value_plaintext e = Some v}"

lemma plaintexts_sound: "set (plaintexts d f (finding_locations d f)) \<subseteq> values_at d f"
proof
  fix v assume "v \<in> set (plaintexts d f (finding_locations d f))"
  then have "v \<in> set (collect_values (map place_of (finding_locations d f))
      (rows_at d f (map place_of (finding_locations d f)) ev_value_plaintext) [])"
    by (auto simp: plaintexts_def Let_def split: if_splits)
  from collect_values_sound [OF this] show "v \<in> values_at d f" by (auto simp: values_at_def rows_at_def)
qed

lemma plaintexts_sorted:
  "sorted (plaintexts d f ls)" "distinct (plaintexts d f ls)" "length (plaintexts d f ls) \<le> MAX_PLAINTEXT_VALUES"
  by (auto simp: plaintexts_def Let_def collect_values_distinct collect_values_bound [of "[]", unfolded MAX_PLAINTEXT_VALUES_def]
      MAX_PLAINTEXT_VALUES_def)

lemma plaintexts_complete:
  assumes "length (plaintexts d f (finding_locations d f)) < MAX_PLAINTEXT_VALUES"
  shows "values_at d f \<subseteq> set (plaintexts d f (finding_locations d f))"
proof
  fix v assume "v \<in> values_at d f"
  then obtain e where e: "e \<in> set (fd_evidence d)" "ev_run_id e = f_run_id f"
      "evidence_place e \<in> set (map place_of (finding_locations d f))" "ev_value_plaintext e = Some v"
    by (auto simp: values_at_def)
  then have ne: "finding_locations d f \<noteq> []" by auto
  have "ev_artifact_id e \<in> set (map fst (map place_of (finding_locations d f)))"
    using e(3) by (force simp: evidence_place_def place_of_def)
  with e(1,2,4) have "e \<in> set (rows_at d f (map place_of (finding_locations d f)) ev_value_plaintext)"
    by (simp add: rows_at_def)
  from collect_values_complete [OF _ this e(3,4), of "[]"] assms ne
  show "v \<in> set (plaintexts d f (finding_locations d f))"
    by (simp add: plaintexts_def Let_def)
qed

lemma hidden_without_plaintext:
  assumes "no_plaintext (f_run_id f) (fd_evidence d)"
  shows "plaintexts d f ls = []" "context_shown d f ls = None"
proof -
  have none: "rows_at d f keys ev_value_plaintext = []" "rows_at d f keys ev_context_plaintext = []" for keys
    using assms by (auto simp: no_plaintext_def list_all_iff filter_empty_conv rows_at_def)
  show "plaintexts d f ls = []" "context_shown d f ls = None"
    by (simp_all add: plaintexts_def context_shown_def Let_def none)
qed

subsection \<open>The listing\<close>

lemma listed:
  assumes "list_findings d i q = Inr os" "x \<in> set os"
  obtains f where "f \<in> set (fd_findings d)" "asked_for q i f" "x = to_out d (previous_finding_ids d i) f"
proof -
  let ?fs = "filter (asked_for q i) (fd_findings d)"
  from assms have "x \<in> to_out d (previous_finding_ids d i) ` set (take (lq_limit q) ?fs)"
    by (auto simp: list_findings_def Let_def split: if_splits)
  then obtain f where "f \<in> set (take (lq_limit q) ?fs)" "x = to_out d (previous_finding_ids d i) f" by blast
  with in_set_takeD [of f _ ?fs] that show thesis by auto
qed

lemma out_run: "fo_run_id (to_out d ids f) = f_run_id f" "fo_id (to_out d ids f) = f_id f"
    "fo_rule_id (to_out d ids f) = f_rule_id f" "fo_severity (to_out d ids f) = f_severity f"
    "fo_status (to_out d ids f) = f_status f"
    "fo_value_plaintexts (to_out d ids f) = plaintexts d f (finding_locations d f)"
    "fo_context_plaintext (to_out d ids f) = context_shown d f (finding_locations d f)"
  by (simp_all add: to_out_def Let_def)

text \<open>The key of the listing determines the finding of a run, so within the limit the order of the rows does not
  show.\<close>

interpretation shown: canonical_sort listing_key fo_id
  by unfold_locales (simp add: listing_key_def)

lemma sort_key_mset_eq: "sort_key f xs = sort_key f ys \<Longrightarrow> mset xs = mset ys"
  by (metis mset_sort)

lemma listing_within_limit:
  assumes "length (filter (asked_for q i) (fd_findings d)) \<le> lq_limit q" "lq_limit q \<le> 2000"
  shows "list_findings d i q = Inr (sort_key listing_key
     (filter (\<lambda>x. lq_new_only q \<longrightarrow> fo_is_new x)
       (map (to_out d (previous_finding_ids d i)) (filter (asked_for q i) (fd_findings d)))))"
  using assms by (simp add: list_findings_def Let_def)

end
