(* ===== verification/Findings_Properties.thy ===== *)
theory Findings_Properties
  imports Findings_Api Scan_Gate
begin

text \<open>
  What the findings endpoints promise: no value of a run that does not retain plaintext is shown by any of them, every
  triage by hand is in the audit log, and the listing does not depend on the order of the rows as long as it is
  within its limit. And what they do not promise beyond it.
\<close>

subsection \<open>Plaintext\<close>

definition hides_plaintext :: "finding_out \<Rightarrow> bool" where
  "hides_plaintext x \<longleftrightarrow> fo_value_plaintexts x = [] \<and> fo_context_plaintext x = None"

lemma to_out_hides: "no_plaintext (f_run_id f) (fd_evidence d) \<Longrightarrow> hides_plaintext (to_out d ids f)"
  by (simp add: hides_plaintext_def out_run hidden_without_plaintext)

lemma stored_findingD:
  assumes "stored_finding d k i = Some f"
  shows "f_id f = k \<and> f_run_id f = i \<and> f \<in> set (fd_findings d)"
  using find_SomeD [of "\<lambda>f. f_id f = k \<and> f_run_id f = i"] assms by (auto simp: stored_finding_def)

lemma update_cases:
  obtains (refused) e where "update_finding i k p d = (Inl e, d)"
    | (viewed) f where "fp_status p = None" "stored_finding d k i = Some f"
        "update_finding i k p d = (Inr (to_out d (previous_finding_ids d i) f), d)"
    | (changed) f s t where "fp_status p = Some t" "finding_status_of t = Some s" "stored_finding d k i = Some f"
        "snd (update_finding i k p d) =
           set_status k i s (d\<lparr>fd_audit := fd_audit d @ [status_entry f s (fp_note p)]\<rparr>)"
        "fst (update_finding i k p d) =
           Inr (to_out (snd (update_finding i k p d)) (previous_finding_ids (snd (update_finding i k p d)) i) (f\<lparr>f_status := s\<rparr>))"
proof (cases "fp_status p")
  case None
  show ?thesis
  proof (cases "stored_finding d k i")
    case None
    with \<open>fp_status p = None\<close> show ?thesis by (intro refused) (simp add: update_finding_def eff_simps)
  next
    case (Some f)
    with \<open>fp_status p = None\<close> stored_findingD [OF Some] show ?thesis
      by (intro viewed [of f]) (simp_all add: update_finding_def eff_simps)
  qed
next
  case (Some t)
  note st = Some
  show ?thesis
  proof (cases "finding_status_of t")
    case None
    with st show ?thesis by (intro refused) (simp add: update_finding_def eff_simps)
  next
    case (Some s)
    note s = Some
    show ?thesis
    proof (cases "stored_finding d k i")
      case None
      with st s show ?thesis by (intro refused) (simp add: update_finding_def eff_simps)
    next
      case (Some f)
      with st s stored_findingD [OF Some] show ?thesis
        by (intro changed [of t s f]) (simp_all add: update_finding_def eff_simps)
    qed
  qed
qed

lemma set_status_rest [simp]:
  "fd_runs (set_status k i s d) = fd_runs d" "fd_locations (set_status k i s d) = fd_locations d"
  "fd_evidence (set_status k i s d) = fd_evidence d" "fd_audit (set_status k i s d) = fd_audit d"
  by (simp_all add: set_status_def)

lemma api_hides:
  assumes "no_plaintext i (fd_evidence d)"
  shows "list_findings d i q = Inr os \<Longrightarrow> list_all hides_plaintext os"
    and "get_finding d i k = Inr x \<Longrightarrow> hides_plaintext x"
    and "fst (update_finding i k p d) = Inr x \<Longrightarrow> hides_plaintext x"
proof -
  assume "list_findings d i q = Inr os"
  then show "list_all hides_plaintext os"
    using assms by (auto simp: list_all_iff asked_for_def elim!: listed intro!: to_out_hides)
next
  assume "get_finding d i k = Inr x"
  then show "hides_plaintext x"
    using assms by (auto simp: get_finding_def dest: stored_findingD split: option.splits intro!: to_out_hides)
next
  assume x: "fst (update_finding i k p d) = Inr x"
  show "hides_plaintext x"
  proof (cases rule: update_cases [of i k p d])
    case (refused e)
    with x show ?thesis by simp
  next
    case (viewed f)
    with x stored_findingD [OF viewed(2)] assms show ?thesis by (auto intro!: to_out_hides)
  next
    case (changed f s t)
    with x stored_findingD [OF changed(3)] assms show ?thesis by (auto intro!: to_out_hides)
  qed
qed



subsection \<open>Triage by hand\<close>

text \<open>What the audit log says of a finding's status: its entries replayed from a first status.\<close>

definition replay_entry :: "string \<Rightarrow> string \<Rightarrow> audit_entry \<Rightarrow> finding_status \<Rightarrow> finding_status" where
  "replay_entry i k e s =
     (if au_action e = FINDING_STATUS_CHANGED \<and> au_run_id e = Some i \<and> map_of (au_detail e) ''finding_id'' = Some (PStr k)
      then case map_of (au_detail e) ''new_status'' of
             Some (PStr t) \<Rightarrow> (case finding_status_of t of Some s' \<Rightarrow> s' | None \<Rightarrow> s)
           | _ \<Rightarrow> s
      else s)"

definition replay :: "string \<Rightarrow> string \<Rightarrow> audit_entry list \<Rightarrow> finding_status \<Rightarrow> finding_status" where
  "replay i k es s = fold (replay_entry i k) es s"

text \<open>A sequence of requests, answers dropped.\<close>

type_synonym patch_request = "string \<times> string \<times> finding_patch"

definition apply_patches :: "patch_request list \<Rightarrow> findings_db \<Rightarrow> findings_db" where
  "apply_patches ps d = fold (\<lambda>(i, k, p) d. snd (update_finding i k p d)) ps d"

lemma finding_status_of_value: "finding_status_of (finding_status_value s) = Some s"
  by (cases s) (simp_all add: finding_status_of_def ALL_STATUSES_def)

lemma replay_status_entry:
  "replay_entry i k (status_entry f s note) s' = (if f_run_id f = i \<and> f_id f = k then s else s')"
  by (simp add: replay_entry_def status_entry_def record_audit_def finding_status_of_value)

lemma stored_set_status:
  "stored_finding (set_status k i s d) k' i' =
     map_option (\<lambda>f. if k' = k \<and> i' = i then f\<lparr>f_status := s\<rparr> else f) (stored_finding d k' i')"
proof -
  have "List.find P (map g xs) = map_option g (List.find P xs)" if "\<And>x. P (g x) = P x" for P :: "annotated \<Rightarrow> bool" and g xs
    by (induction xs) (simp_all add: that)
  from this [of "\<lambda>f. f_id f = k' \<and> f_run_id f = i'"] have
    "stored_finding (set_status k i s d) k' i' =
       map_option (\<lambda>f. if f_id f = k \<and> f_run_id f = i then f\<lparr>f_status := s\<rparr> else f) (stored_finding d k' i')"
    by (simp add: stored_finding_def set_status_def)
  then show ?thesis by (auto simp: map_option_case split: option.splits dest!: stored_findingD)
qed

lemma stored_audit [simp]: "stored_finding (d\<lparr>fd_audit := es\<rparr>) k i = stored_finding d k i"
  by (simp add: stored_finding_def)

text \<open>One request appends to the log exactly what explains its effect.\<close>

lemma update_explained:
  obtains es where "fd_audit (snd (update_finding i k p d)) = fd_audit d @ es"
    "\<And>k' i'. map_option f_status (stored_finding (snd (update_finding i k p d)) k' i') =
       map_option (\<lambda>f. replay i' k' es (f_status f)) (stored_finding d k' i')"
proof (cases rule: update_cases [of i k p d])
  case (refused e)
  then show ?thesis by (intro that [of "[]"]) (simp_all add: replay_def)
next
  case (viewed f)
  then show ?thesis by (intro that [of "[]"]) (simp_all add: replay_def)
next
  case (changed f s t)
  then show ?thesis using stored_findingD [OF changed(3)]
    by (intro that [of "[status_entry f s (fp_note p)]"])
       (auto simp: replay_def replay_status_entry stored_set_status option.map_comp comp_def intro!: option.map_cong0)
qed

lemma patches_explained:
  "\<exists>es. fd_audit (apply_patches ps d) = fd_audit d @ es \<and>
     (\<forall>k i. map_option f_status (stored_finding (apply_patches ps d) k i) =
        map_option (\<lambda>f. replay i k es (f_status f)) (stored_finding d k i))"
proof (induction ps arbitrary: d)
  case Nil
  then show ?case by (simp add: apply_patches_def replay_def)
next
  case (Cons q ps)
  obtain i k p where q: "q = (i, k, p)" by (cases q)
  define d1 where "d1 = snd (update_finding i k p d)"
  obtain es1 where 1: "fd_audit d1 = fd_audit d @ es1"
    "\<And>k' i'. map_option f_status (stored_finding d1 k' i') = map_option (\<lambda>f. replay i' k' es1 (f_status f)) (stored_finding d k' i')"
    using update_explained [of i k p d] unfolding d1_def by blast
  obtain es2 where 2: "fd_audit (apply_patches ps d1) = fd_audit d1 @ es2"
    "\<And>k' i'. map_option f_status (stored_finding (apply_patches ps d1) k' i') = map_option (\<lambda>f. replay i' k' es2 (f_status f)) (stored_finding d1 k' i')"
    using Cons.IH [of d1] by blast
  have step: "map_option (\<lambda>f. replay i' k' es2 (f_status f)) (stored_finding d1 k' i') =
      map_option (\<lambda>f. replay i' k' (es1 @ es2) (f_status f)) (stored_finding d k' i')" for k' i'
  proof -
    have "map_option (\<lambda>f. replay i' k' es2 (f_status f)) (stored_finding d1 k' i') =
        map_option (replay i' k' es2) (map_option f_status (stored_finding d1 k' i'))"
      by (simp add: option.map_comp comp_def)
    also have "\<dots> = map_option (\<lambda>f. replay i' k' (es1 @ es2) (f_status f)) (stored_finding d k' i')"
      unfolding 1(2) by (simp add: option.map_comp comp_def replay_def)
    finally show ?thesis .
  qed
  have "apply_patches (q # ps) d = apply_patches ps d1" by (simp add: apply_patches_def q d1_def)
  with 1(1) 2 step show ?case by (intro exI [of _ "es1 @ es2"]) simp
qed

text \<open>C33: Triage by hand is accountable. After any sequence of requests, accepted or refused, the audit log has grown at
  its end only, and replaying what it has gained gives the status of every finding of every run: no status
  changes without an entry that says from what to what.\<close>

theorem triage_is_accountable:
  "\<exists>es. fd_audit (apply_patches ps d) = fd_audit d @ es
     \<and> (\<forall>k i. map_option f_status (stored_finding (apply_patches ps d) k i) =
          map_option (\<lambda>f. replay i k es (f_status f)) (stored_finding d k i))"
  by (rule patches_explained)

subsection \<open>The listing\<close>

lemma to_out_cong:
  assumes "set ids = set ids'" "fd_locations d = fd_locations d'" "fd_evidence d = fd_evidence d'"
  shows "to_out d ids f = to_out d' ids' f"
proof -
  have ne: "ids \<noteq> [] \<longleftrightarrow> ids' \<noteq> []" using assms(1) by auto
  show ?thesis
    by (simp add: to_out_def Let_def finding_locations_def plaintexts_def context_shown_def rows_at_def assms ne)
qed

lemma previous_ids_set:
  assumes "set (fd_findings d) = set (fd_findings d')" "fd_runs d = fd_runs d'"
  shows "set (previous_finding_ids d i) = set (previous_finding_ids d' i)"
  using assms by (simp add: previous_finding_ids_def run_finding_ids_def split: option.split)

lemma listing_order_irrelevant:
  assumes "mset (fd_findings d) = mset (fd_findings d')" "fd_runs d = fd_runs d'" "fd_locations d = fd_locations d'"
    and "fd_evidence d = fd_evidence d'"
    and "distinct (map f_id (filter (asked_for q i) (fd_findings d)))"
    and "length (filter (asked_for q i) (fd_findings d)) \<le> lq_limit q" "lq_limit q \<le> 2000"
  shows "list_findings d i q = list_findings d' i q"
proof -
  let ?new = "\<lambda>x. lq_new_only q \<longrightarrow> fo_is_new x"
  let ?out = "to_out d (previous_finding_ids d i)"
  let ?fs = "filter (asked_for q i) (fd_findings d)" and ?fs' = "filter (asked_for q i) (fd_findings d')"
  have ms: "mset ?fs = mset ?fs'" using assms(1) by simp
  have out: "to_out d' (previous_finding_ids d' i) = ?out"
    using assms(2-4) mset_eq_setD [OF assms(1)] by (intro ext to_out_cong previous_ids_set) simp_all
  have ids: "map fo_id (map ?out ?fs) = map f_id ?fs" by (simp add: out_run comp_def)
  have "sort_key listing_key (filter ?new (map ?out ?fs)) = sort_key listing_key (filter ?new (map ?out ?fs'))"
  proof (rule shown.order_irrelevant)
    show "mset (filter ?new (map ?out ?fs)) = mset (filter ?new (map ?out ?fs'))"
      by (simp add: assms(1))
    show "distinct (map fo_id (filter ?new (map ?out ?fs)))"
      using assms(5) unfolding ids [symmetric] by (rule distinct_map_filter)
  qed
  with listing_within_limit [OF assms(6,7)] listing_within_limit [of q i d'] assms(6,7) size_mset [of ?fs] ms show ?thesis
    by (simp add: out flip: size_mset)
qed

text \<open>The listing is in the order of severity, rule and id, and shows only the run's own findings.\<close>

lemma listing_sorted:
  assumes "list_findings d i q = Inr os"
  shows "sorted (map listing_key os)" "\<forall>x \<in> set os. fo_run_id x = i" "length os \<le> lq_limit q"
proof -
  show "sorted (map listing_key os)" using assms by (auto simp: list_findings_def Let_def split: if_splits)
  show "\<forall>x \<in> set os. fo_run_id x = i"
    using assms by (auto simp: out_run asked_for_def elim!: listed)
  have "length (filter P (map g (take n xs))) \<le> n" for P g n and xs :: "annotated list"
    by (rule le_trans [OF length_filter_le]) simp
  then show "length os \<le> lq_limit q"
    using assms by (auto simp: list_findings_def Let_def split: if_splits)
qed

subsection \<open>Where the endpoints and the gate part\<close>

definition plain_finding :: "string \<Rightarrow> string \<Rightarrow> severity \<Rightarrow> annotated" where
  "plain_finding i k s =
     \<lparr>f_id = k, f_run_id = i, f_rule_id = ''rule'', f_category = ''secret'', f_title = ''t'', f_severity = s,
      f_confidence = 1, f_value_masked = ''m'', f_value_hash = ''h'', f_entropy = None, f_context_snippet = None,
      f_cwe = None, f_tags = [], f_remediation_md = None, f_detected_by = D_RULE, f_status = F_OPEN,
      f_llm_verdict = None, f_llm_reasoning = None, f_llm_model = None,
      an_explanation = None, an_explained_by = None, an_investigation = None, an_steps = [], an_investigated_by = None,
      an_confidence = None\<rparr>"

definition plain_listing :: "nat \<Rightarrow> listing_query" where
  "plain_listing n = \<lparr>lq_severity = [], lq_status = [], lq_category = [], lq_detected_by = [], lq_new_only = False, lq_limit = n\<rparr>"

definition listing_db :: "annotated list \<Rightarrow> findings_db" where
  "listing_db fs = \<lparr>fd_runs = [], fd_findings = fs, fd_locations = [], fd_evidence = [], fd_audit = []\<rparr>"

text \<open>The limit is applied before the order: a critical finding that is stored behind less severe ones falls out of
  a listing that shows the most severe first.\<close>

lemma limit_hides_critical_finding:
  "map_sum id (map fo_severity)
     (list_findings (listing_db [plain_finding ''r'' ''f1'' LOW, plain_finding ''r'' ''f2'' CRITICAL]) ''r'' (plain_listing 1))
   = Inr [LOW]"
  by (simp add: list_findings_def listing_db_def plain_listing_def asked_for_def plain_finding_def to_out_def Let_def)

text \<open>Without a finding in the previous run nothing is marked new, where the gate counts everything as new.\<close>

lemma nothing_new_without_previous:
  assumes "previous_finding_ids d i = []" "list_findings d i (q\<lparr>lq_new_only := True\<rparr>) = Inr os"
  shows "os = []"
proof -
  have old: "\<not> fo_is_new (to_out d [] f)" for f by (simp add: to_out_def Let_def)
  from assms show ?thesis
    by (auto simp: list_findings_def Let_def old filter_empty_conv split: if_splits)
qed

lemma gate_counts_all_new:
  assumes "r_previous_run_id r = None"
  shows "br_finding_ids (resolve_baseline d r None None) = {}"
  by (simp add: resolve_baseline_def assms no_baseline_def or_str_def)

text \<open>Values are joined to a finding by place alone: two rules that match at one offset show each other's values.\<close>

definition place_evidence :: "string \<Rightarrow> string \<Rightarrow> evidence" where
  "place_evidence rule v =
     \<lparr>ev_run_id = ''r'', ev_artifact_id = ''a'', ev_analyzer = ''static'', ev_rule_id = rule, ev_value_hash = v,
      ev_value_masked = ''m'', ev_value_plaintext = Some v, ev_offset = Some 7, ev_section = None, ev_encoding = None,
      ev_entropy = None, ev_context = None, ev_context_plaintext = None\<rparr>"

definition place_db :: findings_db where
  "place_db = (listing_db [plain_finding ''r'' ''f1'' LOW])\<lparr>
     fd_locations := [\<lparr>fl_finding_id = ''f1'', fl_run_id = ''r'', fl_artifact_id = ''a'', fl_path_in_tree = ''p'',
        fl_offset = Some 7, fl_section = None, fl_encoding = None, fl_xref_function = None\<rparr>],
     fd_evidence := [place_evidence ''rule'' ''abc'', place_evidence ''other'' ''abcdef'']\<rparr>"

lemma values_of_another_rule_shown:
  "map_sum id fo_value_plaintexts (get_finding place_db ''r'' ''f1'') = Inr [''abc'', ''abcdef'']"
  by (simp add: get_finding_def place_db_def listing_db_def stored_finding_def plain_finding_def to_out_def Let_def
      finding_locations_def plaintexts_def rows_at_def place_evidence_def place_of_def evidence_place_def
      MAX_PLAINTEXT_VALUES_def)

subsection \<open>The byte window\<close>

lemma hex_byte_length: "length (hex_byte b) = 2"
  by (simp add: hex_byte_def)

text \<open>A store that answers a ranged GET with at most the bytes asked for keeps a window within its bounds.\<close>

lemma byte_window_bounded:
  assumes "\<And>key first last' data. tw_get_range w key first last' = Inr data \<Longrightarrow> int (length data) \<le> last' - first + 1"
    and "byte_window_of w k offset len = Inr b"
  shows "bw_length b \<le> 4096" "length (bw_hex b) = 2 * bw_length b" "length (bw_ascii b) = bw_length b"
proof -
  have "length (concat (map hex_byte xs)) = 2 * length xs" for xs
    by (induction xs) (simp_all add: hex_byte_length)
  then show "length (bw_hex b) = 2 * bw_length b" "length (bw_ascii b) = bw_length b"
    using assms(2) by (auto simp: byte_window_of_def split: if_splits option.splits sum.splits)
  show "bw_length b \<le> 4096"
    using assms(2) by (auto simp: byte_window_of_def read_range_def split: if_splits option.splits sum.splits dest!: assms(1))
qed

end
