(* ===== verification/Runs_Api.thy ===== *)
theory Runs_Api
  imports Run_Lifecycle Llm_Advisory Auth_Tokens Gate_Api
begin

text \<open>
  The run endpoints (\<open>api/routers/runs.py\<close>): upload, list, detail with the bounded artifact tree, the two event
  streams, the stage logs and the advisory requests. A generator is a function of the snapshots it polls; its sleeps
  are left out. A refusal is an HTTP error with its status. Printing a time and a float are parameters.
\<close>

subsection \<open>Upload\<close>

record upload_form =
  uf_filename :: string
  uf_attested_by :: string
  uf_reference :: string
  uf_retain_plaintext :: bool

record run_created =
  rc_run_id :: string
  rc_artifact_name :: string
  rc_artifact_sha256 :: string
  rc_size_bytes :: int
  rc_status :: run_status

record upload_state =
  us_objects :: "stored_object list"
  us_db :: db
  us_queue :: "string list"

fun ingest_refusal :: "ingest_error \<Rightarrow> http_error" where
  "ingest_refusal (Attestation_Required m) = Http_Error 422 m"
| "ingest_refusal (Too_Large m) = Http_Error 400 m"

text \<open>\<open>broker\<close> says whether the queue takes the task: the run is committed before it is offered.\<close>

definition create_run ::
  "ingest_settings \<Rightarrow> (string \<Rightarrow> stored_object) \<Rightarrow> (moment \<Rightarrow> string) \<Rightarrow> moment \<Rightarrow> string \<Rightarrow> string \<Rightarrow> bool \<Rightarrow> upload_form
     \<Rightarrow> (upload_state, http_error, run_created) eff" where
  "create_run settings save show_time now run_id artifact_id broker form st =
     (if uf_filename form = [] then (Inl (Http_Error 400 ''a filename is required''), st)
      else case ingest_artifact settings save show_time now run_id artifact_id (uf_filename form)
                  (Some (uf_attested_by form)) (Some (uf_reference form)) (uf_retain_plaintext form) (us_objects st, us_db st) of
        (Inl e, objects, d) \<Rightarrow> (Inl (ingest_refusal e), st\<lparr>us_objects := objects, us_db := d\<rparr>)
      | (Inr (run, row), objects, d) \<Rightarrow>
          (let st = st\<lparr>us_objects := objects, us_db := d\<rparr>;
               payload = \<lparr>rc_run_id = r_id run, rc_artifact_name = a_name row, rc_artifact_sha256 = a_sha256 row,
                          rc_size_bytes = a_size_bytes row, rc_status = r_status run\<rparr>
           in if broker then (Inr payload, st\<lparr>us_queue := us_queue st @ [r_id run]\<rparr>)
              else (Inl (Http_Error 500 ''OperationalError''), st)))"

subsection \<open>Summaries\<close>

text \<open>A run with the columns the scan does not read.\<close>

record run_row = run +
  rw_profile :: string
  rw_attested_by :: string
  rw_attestation_reference :: string
  rw_llm_enabled :: bool
  rw_llm_summary :: "string option"
  rw_llm_summary_model :: "string option"

record run_summary =
  rs_run :: run
  rs_profile :: string
  rs_attested_by :: string
  rs_attestation_reference :: string
  rs_llm_enabled :: bool
  rs_artifact_name :: "string option"
  rs_artifact_sha256 :: "string option"
  rs_artifact_size_bytes :: "int option"
  rs_finding_count :: nat
  rs_severity_counts :: "(severity, nat) dict"
  rs_artifact_count :: nat
  rs_new_since_previous :: "nat option"

definition ids_of_run :: "db \<Rightarrow> string \<Rightarrow> string set" where
  "ids_of_run d run_id = f_id ` set (filter (\<lambda>f. f_run_id f = run_id) (db_findings d))"

definition artifact_rows :: "db \<Rightarrow> string \<Rightarrow> artifact list" where
  "artifact_rows d run_id = filter (\<lambda>a. a_run_id a = run_id) (db_artifacts d)"

definition new_since :: "db \<Rightarrow> run_row \<Rightarrow> nat option" where
  "new_since d r =
     (case r_previous_run_id r of
        None \<Rightarrow> None
      | Some p \<Rightarrow> if p = [] then None else Some (card (ids_of_run d (r_id r) - ids_of_run d p)))"

definition summarise_run :: "db \<Rightarrow> run_row \<Rightarrow> run_summary" where
  "summarise_run d r =
     (let root_row = run_root_artifact d (r_id r);
          counts = tally f_severity (filter (\<lambda>f. f_run_id f = r_id r) (db_findings d));
          n = length (artifact_rows d (r_id r))
      in \<lparr>rs_run = run.truncate r, rs_profile = rw_profile r, rs_attested_by = rw_attested_by r,
          rs_attestation_reference = rw_attestation_reference r, rs_llm_enabled = rw_llm_enabled r,
          rs_artifact_name = map_option a_name root_row, rs_artifact_sha256 = map_option a_sha256 root_row,
          rs_artifact_size_bytes = map_option a_size_bytes root_row,
          rs_finding_count = sum_list (map snd counts), rs_severity_counts = counts,
          rs_artifact_count = (if n = 0 then 1 else n), rs_new_since_previous = new_since d r\<rparr>)"

definition newest_first :: "run_row list \<Rightarrow> run_row list" where
  "newest_first rs = sort_key (\<lambda>r. - m_us (r_created_at r)) rs"

definition list_runs :: "db \<Rightarrow> run_row list \<Rightarrow> nat \<Rightarrow> nat \<Rightarrow> http_error + run_summary list" where
  "list_runs d rows limit offset =
     (if 200 < limit then Inl (Http_Error 422 ''limit'')
      else Inr (map (summarise_run d) (take limit (drop offset (newest_first rows)))))"

subsection \<open>Phases\<close>

definition SCAN_PHASES :: "(string \<times> string) list" where
  "SCAN_PHASES =
     [(''queued'', ''Waiting for a worker''), (''unpack'', ''Recursively extracting nested containers''),
      (''index'', ''Recording the artifact tree''), (''static'', ''Extracting strings and matching rules''),
      (''report'', ''Correlating evidence into findings''), (''done'', ''Complete'')]"

text \<open>Of two rows of one analyzer the later one counts.\<close>

definition stage_of :: "run_stage list \<Rightarrow> string \<Rightarrow> stage_status option" where
  "stage_of stages analyzer = map_of (map (\<lambda>s. (st_analyzer s, st_status s)) (rev stages)) analyzer"

definition unfinished :: "stage_status \<Rightarrow> bool" where
  "unfinished s \<longleftrightarrow> s \<in> {S_PENDING, S_RUNNING}"

definition phase :: "run_status \<Rightarrow> run_stage list \<Rightarrow> string" where
  "phase status stages =
     (if run_is_terminal status then ''done''
      else case stage_of stages ''static'' of
        Some s \<Rightarrow> if unfinished s then ''static'' else ''report''
      | None \<Rightarrow>
          (case stage_of stages ''unpack'' of
             Some s \<Rightarrow> if unfinished s then ''unpack'' else ''index''
           | None \<Rightarrow> ''queued''))"

text \<open>The last completed scan of the same bytes; its two times come from one database and know their zone alike.\<close>

definition timed_runs :: "db \<Rightarrow> string \<Rightarrow> string \<Rightarrow> (moment \<times> moment) list" where
  "timed_runs d run_id sha =
     List.map_filter (\<lambda>r.
       if r_id r \<noteq> run_id \<and> r_status r = R_COMPLETED
          \<and> (\<exists>a \<in> set (db_artifacts d). a_run_id a = r_id r \<and> a_parent_id a = None \<and> a_sha256 a = sha)
       then (case (r_started_at r, r_finished_at r) of (Some s, Some f) \<Rightarrow> Some (s, f) | _ \<Rightarrow> None)
       else None) (db_runs d)"

definition expected_duration_s :: "db \<Rightarrow> string \<Rightarrow> rat option" where
  "expected_duration_s d run_id =
     (case run_root_artifact d run_id of
        None \<Rightarrow> None
      | Some root_row \<Rightarrow>
          (case sort_key (\<lambda>(s, f). - m_us f) (timed_runs d run_id (a_sha256 root_row)) of
             [] \<Rightarrow> None
           | (s, f) # _ \<Rightarrow> Some (of_int (m_us f - m_us s) / 1000000)))"

subsection \<open>Event streams\<close>

text \<open>Every value of a payload has a JSON form.\<close>

definition dumps :: "pyval \<Rightarrow> string" where
  "dumps v = (case json_dumps True v of Some t \<Rightarrow> t | None \<Rightarrow> [])"

definition sse :: "pyval \<Rightarrow> string" where
  "sse payload = ''data: '' @ dumps payload @ [CHR 0x0A, CHR 0x0A]"

definition runs_fingerprint :: "(string \<times> run_status) list \<Rightarrow> string" where
  "runs_fingerprint rows =
     (case json_dumps False (PList (map (\<lambda>(i, s). PList [PStr i, PStr (run_status_value s)]) rows)) of
        Some t \<Rightarrow> t | None \<Rightarrow> [])"

definition list_snapshot :: "run list \<Rightarrow> (string \<times> run_status) list" where
  "list_snapshot rs =
     map (\<lambda>r. (r_id r, r_status r)) (take 200 (sort_key (\<lambda>r. (- m_us (r_created_at r), r_id r)) rs))"

definition list_event :: "bool \<Rightarrow> nat \<Rightarrow> string" where
  "list_event changed n = sse (PDict [(PStr ''changed'', PBool changed), (PStr ''runs'', PInt (int n))])"

fun run_list_events :: "nat option \<Rightarrow> (string \<times> run_status) list list \<Rightarrow> string option \<Rightarrow> nat \<Rightarrow> string list" where
  "run_list_events max_events [] last' emitted = []"
| "run_list_events max_events (rows # polls) last' emitted =
     (let fingerprint = runs_fingerprint rows in
      if Some fingerprint \<noteq> last'
      then list_event (last' \<noteq> None) (length rows)
           # (case max_events of
                Some m \<Rightarrow> if m \<le> Suc emitted then [] else run_list_events max_events polls (Some fingerprint) (Suc emitted)
              | None \<Rightarrow> run_list_events max_events polls (Some fingerprint) (Suc emitted))
      else run_list_events max_events polls last' emitted)"

definition stream_run_list :: "db list \<Rightarrow> string list" where
  "stream_run_list polls = run_list_events None (map (list_snapshot \<circ> db_runs) (take 600 polls)) None 0"

definition stage_payload :: "(rat \<Rightarrow> string) \<Rightarrow> run_stage \<Rightarrow> pyval" where
  "stage_payload show_float s =
     PDict [(PStr ''id'', PStr (st_id s)), (PStr ''analyzer'', PStr (st_analyzer s)),
            (PStr ''status'', PStr (stage_status_value (st_status s))),
            (PStr ''duration_s'', (case st_duration_s s of Some x \<Rightarrow> PFloat x (show_float x) | None \<Rightarrow> PNone))]"

definition run_payload :: "(rat \<Rightarrow> string) \<Rightarrow> (moment \<Rightarrow> string) \<Rightarrow> rat option \<Rightarrow> db \<Rightarrow> run \<Rightarrow> pyval" where
  "run_payload show_float show_time expected_s d r =
     (let stages = filter (\<lambda>s. st_run_id s = r_id r) (db_stages d) in
      PDict [(PStr ''status'', PStr (run_status_value (r_status r))), (PStr ''phase'', PStr (phase (r_status r) stages)),
             (PStr ''stages'', PList (map (stage_payload show_float) stages)),
             (PStr ''finding_count'', PInt (int (length (filter (\<lambda>f. f_run_id f = r_id r) (db_findings d))))),
             (PStr ''artifact_count'', PInt (int (length (artifact_rows d (r_id r))))),
             (PStr ''started_at'', (case r_started_at r of Some t \<Rightarrow> PStr (show_time t) | None \<Rightarrow> PNone)),
             (PStr ''expected_s'', (case expected_s of Some x \<Rightarrow> PFloat x (show_float x) | None \<Rightarrow> PNone))])"

text \<open>The expected duration is looked up at the first poll that finds the run and kept.\<close>

fun run_events ::
  "(rat \<Rightarrow> string) \<Rightarrow> (moment \<Rightarrow> string) \<Rightarrow> string \<Rightarrow> db list \<Rightarrow> string option \<Rightarrow> rat option option \<Rightarrow> string list" where
  "run_events show_float show_time run_id [] last' expected = []"
| "run_events show_float show_time run_id (d # polls) last' expected =
     (case get_run d run_id of
        None \<Rightarrow> [sse (PDict [(PStr ''error'', PStr ''run not found'')])]
      | Some r \<Rightarrow>
          (let expected_s = (case expected of Some x \<Rightarrow> x | None \<Rightarrow> expected_duration_s d run_id);
               payload = run_payload show_float show_time expected_s d r;
               serialised = dumps payload
           in (if Some serialised \<noteq> last' then [sse payload] else [])
              @ (if run_is_terminal (r_status r) then []
                 else run_events show_float show_time run_id polls (Some serialised) (Some expected_s))))"

definition run_event_stream :: "(rat \<Rightarrow> string) \<Rightarrow> (moment \<Rightarrow> string) \<Rightarrow> string \<Rightarrow> db list \<Rightarrow> string list" where
  "run_event_stream show_float show_time run_id polls = run_events show_float show_time run_id (take 600 polls) None None"

subsection \<open>The artifact tree\<close>

definition MAX_TREE_NODES :: nat where "MAX_TREE_NODES = 500"

datatype artifact_out = Artifact_Out (ao_row: artifact) (ao_finding_count: nat) (ao_children: "artifact_out list")

definition tree_order :: "artifact \<Rightarrow> int \<times> string" where
  "tree_order a = (a_depth a, a_path_in_tree a)"

definition children_of :: "(string option, artifact list) dict \<Rightarrow> string option \<Rightarrow> artifact list" where
  "children_of by_parent k = (case map_of by_parent k of Some as \<Rightarrow> as | None \<Rightarrow> [])"

definition finding_count_of :: "(string, nat) dict \<Rightarrow> string \<Rightarrow> nat" where
  "finding_count_of counts k = (case map_of counts k of Some n \<Rightarrow> n | None \<Rightarrow> 0)"

text \<open>The recursion of the code has no bound of its own: with fuel, \<open>None\<close> is a tree deeper than the fuel.\<close>

fun build_node :: "nat \<Rightarrow> (string, nat) dict \<Rightarrow> (string option, artifact list) dict \<Rightarrow> artifact \<Rightarrow> artifact_out option" where
  "build_node 0 counts by_parent a = None"
| "build_node (Suc n) counts by_parent a =
     map_option (Artifact_Out a (finding_count_of counts (a_id a)))
       (sequence_o (map (build_node n counts by_parent) (children_of by_parent (Some (a_id a)))))"

definition build_tree :: "db \<Rightarrow> string \<Rightarrow> artifact_out option \<times> bool" where
  "build_tree d run_id =
     (let artifacts = take (MAX_TREE_NODES + 1) (sort_key tree_order (artifact_rows d run_id)) in
      if artifacts = [] then (None, False)
      else
        (let truncated = MAX_TREE_NODES < length artifacts;
             artifacts = take MAX_TREE_NODES artifacts;
             counts = tally fl_artifact_id (filter (\<lambda>l. fl_run_id l = run_id) (db_locations d));
             by_parent = group_by a_parent_id artifacts
         in (case children_of by_parent None of
               [] \<Rightarrow> None
             | root_row # _ \<Rightarrow> build_node (MAX_TREE_NODES + 1) counts by_parent root_row, truncated)))"

subsection \<open>One run\<close>

record manifest_out =
  mo_bare_version :: string
  mo_manifest :: run_manifest
  mo_fingerprint :: string

definition manifest_fingerprint :: "(string \<Rightarrow> string) \<Rightarrow> string \<Rightarrow> run_manifest \<Rightarrow> string" where
  "manifest_fingerprint sha version m =
     (let pairs = (\<lambda>kvs. map (\<lambda>(k, v). k @ ''='' @ v) (sort kvs)) in
      sha (join [CHR 0x1F]
        ([version, mf_artifact_sha256 m, mf_pack_version m, mf_pack_hash m]
         @ pairs (mf_image_digests m) @ pairs (mf_tool_versions m))))"

record run_detail =
  rd_summary :: run_summary
  rd_stages :: "run_stage list"
  rd_manifest :: "manifest_out option"
  rd_artifact_tree :: "artifact_out option"
  rd_artifact_tree_truncated :: bool
  rd_previous_run_id :: "string option"
  rd_llm_summary :: "string option"
  rd_llm_summary_model :: "string option"

definition run_missing :: "string \<Rightarrow> http_error" where
  "run_missing run_id = Http_Error 404 (''run '' @ run_id @ '' not found'')"

text \<open>\<open>version\<close> is what the manifest's row holds as the version of the program.\<close>

definition get_run_detail ::
  "(string \<Rightarrow> string) \<Rightarrow> string \<Rightarrow> db \<Rightarrow> run_row list \<Rightarrow> run_manifest list \<Rightarrow> string \<Rightarrow> http_error + run_detail" where
  "get_run_detail sha version d rows manifests run_id =
     (case List.find (\<lambda>r. r_id r = run_id) rows of
        None \<Rightarrow> Inl (run_missing run_id)
      | Some r \<Rightarrow>
          (let (tree, truncated) = build_tree d run_id in
           Inr \<lparr>rd_summary = summarise_run d r,
                rd_stages = sort_key (\<lambda>s. m_us (st_created_at s)) (filter (\<lambda>s. st_run_id s = run_id) (db_stages d)),
                rd_manifest = map_option (\<lambda>m. \<lparr>mo_bare_version = version, mo_manifest = m,
                     mo_fingerprint = manifest_fingerprint sha version m\<rparr>) (List.find (\<lambda>m. mf_run_id m = run_id) manifests),
                rd_artifact_tree = tree, rd_artifact_tree_truncated = truncated,
                rd_previous_run_id = r_previous_run_id r, rd_llm_summary = rw_llm_summary r,
                rd_llm_summary_model = rw_llm_summary_model r\<rparr>))"

subsection \<open>Stage logs\<close>

record log_response =
  lg_text :: string
  lg_state :: string

text \<open>The place of a stage's log and what it is.\<close>

definition log_place :: "db \<Rightarrow> objects \<Rightarrow> string \<Rightarrow> run_stage \<Rightarrow> http_error + string \<times> string" where
  "log_place d store run_id s =
     (case or_str (st_log_key s) None of
        Some key \<Rightarrow> Inr (key, ''final'')
      | None \<Rightarrow>
          if unfinished (st_status s)
          then (let key = stage_log_key run_id (st_id s) in
                if map_of store key = None then Inl (Http_Error 404 ''no output yet'')
                else Inr (key, (case get_run d run_id of
                       Some r \<Rightarrow> if run_is_terminal (r_status r) then ''partial'' else ''live''
                     | None \<Rightarrow> ''partial'')))
          else Inl (Http_Error 404 ''no log retained for this stage''))"

definition get_stage_logs :: "db \<Rightarrow> objects \<Rightarrow> string \<Rightarrow> string \<Rightarrow> http_error + log_response" where
  "get_stage_logs d store run_id stage_id =
     (case List.find (\<lambda>s. st_id s = stage_id) (db_stages d) of
        None \<Rightarrow> Inl (Http_Error 404 ''stage not found'')
      | Some s \<Rightarrow>
          if st_run_id s \<noteq> run_id then Inl (Http_Error 404 ''stage not found'')
          else bind_e (log_place d store run_id s) (\<lambda>(key, state).
            case map_of store key of
              None \<Rightarrow> Inl (Http_Error 502 ''log unreadable'')
            | Some raw \<Rightarrow> Inr \<lparr>lg_text = utf8_replace raw, lg_state = state\<rparr>))"

subsection \<open>Advisory requests\<close>

datatype task_answer = Task_Raised string | Task_Gave "(pyval \<times> pyval) list"

text \<open>The task's error, and otherwise its answer with the fields of the response; a missing field is a validation
  error. The types of the fields are those the task writes.\<close>

definition advisory_reply :: "string list \<Rightarrow> task_answer \<Rightarrow> http_error + (string \<times> pyval) list" where
  "advisory_reply names t =
     (case t of
        Task_Raised e \<Rightarrow> Inl (Http_Error 503 e)
      | Task_Gave result \<Rightarrow>
          if py_truthy (pd_get_or result ''error'' PNone) then Inl (Http_Error 503 (py_str (pd_get_or result ''error'' PNone)))
          else if list_all (\<lambda>k. pd_get result k \<noteq> None) names
          then Inr (map (\<lambda>k. (k, the (pd_get result k))) names)
          else Inl (Http_Error 500 ''ValidationError''))"

definition TRIAGE_FIELDS :: "string list" where
  "TRIAGE_FIELDS = [''run_id'', ''triaged'', ''confirmed'', ''dismissed'', ''needs_review'', ''errors'', ''duration_s'', ''model'']"

definition EXPLAIN_FIELDS :: "string list" where
  "EXPLAIN_FIELDS = [''run_id'', ''finding_id'', ''explanation'', ''model'', ''duration_s'']"

definition INVESTIGATE_FIELDS :: "string list" where
  "INVESTIGATE_FIELDS =
     [''run_id'', ''finding_id'', ''conclusion'', ''confidence'', ''steps'', ''model'', ''duration_s'', ''redaction'']"

definition SUMMARY_FIELDS :: "string list" where
  "SUMMARY_FIELDS = [''run_id'', ''summary'', ''model'', ''duration_s'']"

definition triage_reply :: "task_answer \<Rightarrow> http_error + (string \<times> pyval) list" where
  "triage_reply t = advisory_reply TRIAGE_FIELDS t"

definition explain_reply :: "task_answer \<Rightarrow> http_error + (string \<times> pyval) list" where
  "explain_reply t = advisory_reply EXPLAIN_FIELDS t"

definition investigate_reply :: "task_answer \<Rightarrow> http_error + (string \<times> pyval) list" where
  "investigate_reply t = advisory_reply INVESTIGATE_FIELDS t"

definition summarize_reply :: "task_answer \<Rightarrow> http_error + (string \<times> pyval) list" where
  "summarize_reply t = advisory_reply SUMMARY_FIELDS t"

definition discover_reply :: "task_answer \<Rightarrow> http_error + (pyval \<times> pyval) list" where
  "discover_reply t =
     (case t of
        Task_Raised e \<Rightarrow> Inl (Http_Error 503 e)
      | Task_Gave result \<Rightarrow>
          if py_truthy (pd_get_or result ''error'' PNone) \<and> \<not> py_truthy (pd_get_or result ''proposals'' PNone)
          then Inl (Http_Error 503 (py_str (pd_get_or result ''error'' PNone)))
          else Inr result)"

end
