(* ===== verification/Runs_Tree.thy ===== *)
theory Runs_Tree
  imports Runs_Api Scan_Tree
begin

text \<open>
  The artifact tree that the run's page shows (\<open>_build_tree\<close>) against the one the scan recorded
  (\<open>_materialise_tree\<close>): of a recorded tree, the first 500 files by depth and path are shown, each under its
  recorded parent, and none of them is lost.
\<close>

fun tree_ids :: "artifact_out \<Rightarrow> string set" where
  "tree_ids (Artifact_Out a n ts) = insert (a_id a) (\<Union>t \<in> set ts. tree_ids t)"

fun tree_edges :: "artifact_out \<Rightarrow> (string \<times> string) set" where
  "tree_edges (Artifact_Out a n ts) =
     (\<lambda>t. (a_id (ao_row t), a_id a)) ` set ts \<union> (\<Union>t \<in> set ts. tree_edges t)"

text \<open>Rows in an order where parents come first: a root, and every other row under an earlier one.\<close>

definition rooted :: "artifact list \<Rightarrow> bool" where
  "rooted as \<longleftrightarrow> as \<noteq> [] \<and> a_parent_id (hd as) = None \<and> distinct (map a_id as)
     \<and> (\<forall>j < length as. 0 < j \<longrightarrow> (\<exists>k < j. a_parent_id (as ! j) = Some (a_id (as ! k))))"

lemma group_by_children:
  "children_of (group_by a_parent_id as) k = filter (\<lambda>a. a_parent_id a = k) as"
proof (cases "k \<in> a_parent_id ` set as")
  case False
  then have "filter (\<lambda>a. a_parent_id a = k) as = []" by (auto simp: filter_empty_conv)
  with False show ?thesis by (simp add: children_of_def group_by_get)
qed (simp add: children_of_def group_by_get)

lemma sequence_o_iff: "sequence_o xs = Some ys \<longleftrightarrow> xs = map Some ys"
proof (induction xs arbitrary: ys)
  case (Cons x xs)
  then show ?case by (cases x; cases ys) (auto simp: Option.bind_eq_Some_conv)
qed auto

lemma sequence_o_map:
  assumes "\<And>x. x \<in> set xs \<Longrightarrow> f x \<noteq> None"
  shows "sequence_o (map f xs) = Some (map (the \<circ> f) xs)"
  using assms by (auto simp: sequence_o_iff)

abbreviation grow :: "nat \<Rightarrow> (string, nat) dict \<Rightarrow> artifact list \<Rightarrow> artifact \<Rightarrow> artifact_out option" where
  "grow n counts as \<equiv> build_node n counts (group_by a_parent_id as)"

lemma grow_Suc:
  "grow (Suc n) counts as a =
     map_option (Artifact_Out a (finding_count_of counts (a_id a)))
       (sequence_o (map (grow n counts as) (filter (\<lambda>b. a_parent_id b = Some (a_id a)) as)))"
  by (simp add: group_by_children)

lemma grow_row: "grow n counts as a = Some t \<Longrightarrow> ao_row t = a"
  by (cases n) auto

text \<open>A child stands after its parent.\<close>

lemma child_later:
  assumes "rooted as" "k < length as" "b \<in> set as" "a_parent_id b = Some (a_id (as ! k))"
  obtains j where "k < j" "j < length as" "b = as ! j"
proof -
  obtain j where j: "j < length as" "b = as ! j" using assms(3) by (auto simp: in_set_conv_nth)
  have "0 < j"
  proof (rule ccontr)
    assume "\<not> 0 < j"
    with j assms(1) have "a_parent_id b = None" by (simp add: rooted_def flip: hd_conv_nth)
    with assms(4) show False by simp
  qed
  with assms(1) j obtain m where m: "m < j" "a_parent_id b = Some (a_id (as ! m))" by (auto simp: rooted_def)
  then have "map a_id as ! m = map a_id as ! k" using assms(2,4) j(1) by simp
  then have "m = k" using assms(1,2) j(1) m(1) by (auto simp: rooted_def nth_eq_iff_index_eq simp del: nth_map)
  with m(1) j that show thesis by blast
qed

text \<open>Fuel for the rows from a row on is enough.\<close>

lemma grow_total:
  assumes "rooted as"
  shows "k < length as \<Longrightarrow> length as - k \<le> n \<Longrightarrow> \<exists>t. grow n counts as (as ! k) = Some t"
proof (induction n arbitrary: k)
  case (Suc n)
  have "grow n counts as b \<noteq> None" if b: "b \<in> set (filter (\<lambda>b. a_parent_id b = Some (a_id (as ! k))) as)" for b
  proof -
    from b obtain j where "k < j" "j < length as" "b = as ! j"
      using child_later [OF assms Suc.prems(1), of b] by auto
    with Suc.IH [of j] Suc.prems show ?thesis by auto
  qed
  from sequence_o_map [of "filter (\<lambda>b. a_parent_id b = Some (a_id (as ! k))) as" "grow n counts as", OF this]
  show ?case unfolding grow_Suc by simp
qed simp

lemma grow_children:
  assumes "grow (Suc n) counts as a = Some t"
  obtains ts where "t = Artifact_Out a (finding_count_of counts (a_id a)) ts"
    "map (grow n counts as) (filter (\<lambda>b. a_parent_id b = Some (a_id a)) as) = map Some ts"
  using assms unfolding grow_Suc sequence_o_iff [symmetric] by auto

lemma map_Some_in: "map f xs = map Some ys \<Longrightarrow> x \<in> set xs \<Longrightarrow> \<exists>y \<in> set ys. f x = Some y"
  by (metis (no_types, opaque_lifting) image_iff list.set_map)

lemma map_Some_from: "map f xs = map Some ys \<Longrightarrow> y \<in> set ys \<Longrightarrow> \<exists>x \<in> set xs. f x = Some y"
  by (metis (no_types, opaque_lifting) image_iff list.set_map)

text \<open>The tree holds rows only, under their recorded parents only.\<close>

lemma grow_sound:
  "grow n counts as a = Some t \<Longrightarrow> a \<in> set as \<Longrightarrow> tree_ids t \<subseteq> a_id ` set as \<and> tree_edges t \<subseteq> child_of as"
proof (induction n arbitrary: a t)
  case (Suc n)
  from Suc.prems(1) obtain ts where t: "t = Artifact_Out a (finding_count_of counts (a_id a)) ts"
    and ts: "map (grow n counts as) (filter (\<lambda>b. a_parent_id b = Some (a_id a)) as) = map Some ts"
    by (rule grow_children)
  have child: "tree_ids u \<subseteq> a_id ` set as \<and> tree_edges u \<subseteq> child_of as \<and> (a_id (ao_row u), a_id a) \<in> child_of as"
    if u: "u \<in> set ts" for u
  proof -
    from map_Some_from [OF ts u] obtain b where b: "b \<in> set as" "a_parent_id b = Some (a_id a)" "grow n counts as b = Some u"
      by auto
    with Suc.IH [OF b(3,1)] grow_row [OF b(3)] show ?thesis by (auto simp: child_of_def)
  qed
  with Suc.prems(2) show ?case unfolding t by auto
qed simp

text \<open>With a row it holds the rows under it.\<close>

lemma grow_closed:
  assumes "distinct (map a_id as)" "c \<in> set as" "b \<in> set as" "a_parent_id c = Some (a_id b)"
  shows "grow n counts as a = Some t \<Longrightarrow> a \<in> set as \<Longrightarrow> a_id b \<in> tree_ids t \<Longrightarrow>
     a_id c \<in> tree_ids t \<and> (a_id c, a_id b) \<in> tree_edges t"
proof (induction n arbitrary: a t)
  case (Suc n)
  from Suc.prems(1) obtain ts where t: "t = Artifact_Out a (finding_count_of counts (a_id a)) ts"
    and ts: "map (grow n counts as) (filter (\<lambda>b. a_parent_id b = Some (a_id a)) as) = map Some ts"
    by (rule grow_children)
  have root_in: "a_id (ao_row u) \<in> tree_ids u" for u by (cases u) simp
  show ?case
  proof (cases "a_id b = a_id a")
    case True
    with assms(2,4) have "c \<in> set (filter (\<lambda>b. a_parent_id b = Some (a_id a)) as)" by simp
    from map_Some_in [OF ts this] obtain u where u: "u \<in> set ts" "grow n counts as c = Some u" by blast
    with grow_row [OF u(2)] root_in [of u] True show ?thesis unfolding t by force
  next
    case False
    with Suc.prems(3) obtain u where u: "u \<in> set ts" "a_id b \<in> tree_ids u" unfolding t by auto
    from map_Some_from [OF ts u(1)] obtain x where x: "x \<in> set as" "grow n counts as x = Some u" by auto
    from Suc.IH [OF x(2,1) u(2)] u(1) show ?thesis unfolding t by auto
  qed
qed simp

lemma grow_complete:
  assumes "rooted as" "grow n counts as (hd as) = Some t"
  shows "tree_ids t = a_id ` set as" "tree_edges t = child_of as"
proof -
  have ne: "as \<noteq> []" and ids: "distinct (map a_id as)" using assms(1) by (simp_all add: rooted_def)
  have root_in: "a_id (hd as) \<in> tree_ids t" using grow_row [OF assms(2)] by (cases t) auto
  have all: "j < length as \<Longrightarrow> a_id (as ! j) \<in> tree_ids t" for j
  proof (induction j rule: less_induct)
    case (less j)
    show ?case
    proof (cases j)
      case 0
      with root_in ne show ?thesis by (simp add: hd_conv_nth)
    next
      case (Suc m)
      with assms(1) less.prems obtain k where k: "k < j" "a_parent_id (as ! j) = Some (a_id (as ! k))"
        by (auto simp: rooted_def)
      with less.prems less.IH [OF k(1)] grow_closed [OF ids _ _ k(2) assms(2)] ne show ?thesis by simp
    qed
  qed
  from grow_sound [OF assms(2)] ne have sound: "tree_ids t \<subseteq> a_id ` set as" "tree_edges t \<subseteq> child_of as" by simp_all
  have "a_id ` set as \<subseteq> tree_ids t" using all by (auto simp: in_set_conv_nth)
  with sound(1) show "tree_ids t = a_id ` set as" by blast
  have "(a_id c, p) \<in> tree_edges t" if c: "c \<in> set as" "a_parent_id c = Some p" for c p
  proof -
    from c(1) obtain j where j: "j < length as" "c = as ! j" by (auto simp: in_set_conv_nth)
    have "j \<noteq> 0" using c(2) j assms(1) by (auto simp: rooted_def hd_conv_nth)
    with assms(1) j obtain k where k: "k < j" "a_parent_id c = Some (a_id (as ! k))" by (auto simp: rooted_def)
    with c(2) j all [of k] ne grow_closed [OF ids c(1) _ k(2) assms(2)] show ?thesis by simp
  qed
  then show "tree_edges t = child_of as" using sound(2) by (auto simp: child_of_def)
qed

subsection \<open>A recorded tree\<close>

lemma map_e_all2: "map_e f xs = Inr ys \<Longrightarrow> list_all2 (\<lambda>x y. f x = Inr y) xs ys"
  by (induction xs arbitrary: ys) (auto simp: err_simps)

lemma node_sort_key_place: "node_sort_key n = Inr k \<Longrightarrow> node_place n = (Some (fst k), Some (snd k))"
  unfolding node_sort_key_def node_place_def by (auto elim!: bind_e_InrE)

lemma recorded_in_order:
  assumes "materialise_tree run_id root_row uuid payload = Inr (rows, by_path)"
  shows "sorted (map tree_order rows)" "grown (a_id root_row) {} rows" "\<forall>a \<in> set rows. a_run_id a = run_id"
    "map a_id rows = map uuid [0 ..< length rows]"
proof -
  obtain keys where keys: "map_e node_sort_key (uj_nodes payload) = Inr keys"
    and rows: "materialise_nodes run_id root_row uuid 0 [] (map snd (sort_key fst (zip keys (uj_nodes payload)))) = Inr (rows, by_path)"
    using assms unfolding materialise_tree_def by (elim bind_e_InrE)
  let ?ps = "sort_key fst (zip keys (uj_nodes payload))"
  note facts = materialise_nodes_rows [OF rows]
  from facts show "grown (a_id root_row) {} rows" "\<forall>a \<in> set rows. a_run_id a = run_id" by simp_all
  have places: "map (\<lambda>p. node_place (snd p)) ?ps = map row_place rows" using facts by (simp add: comp_def)
  then have "length ?ps = length rows" by (metis length_map)
  then show "map a_id rows = map uuid [0 ..< length rows]" using facts by simp
  have key: "node_place (snd p) = (Some (fst (fst p)), Some (snd (fst p)))" if "p \<in> set ?ps" for p
  proof -
    from that obtain k where "k < length keys" "k < length (uj_nodes payload)" "p = (keys ! k, uj_nodes payload ! k)"
      by (auto simp: set_zip)
    with map_e_all2 [OF keys] have "node_sort_key (snd p) = Inr (fst p)" by (simp add: list_all2_conv_all_nth)
    then show ?thesis by (rule node_sort_key_place)
  qed
  have "map row_place rows = map (\<lambda>p. (Some (fst (fst p)), Some (snd (fst p)))) ?ps"
    unfolding places [symmetric] by (intro map_cong refl key)
  from arg_cong [OF this, of "map (\<lambda>q. (the (fst q), the (snd q)))"] have "map tree_order rows = map fst ?ps"
    by (simp add: row_place_def tree_order_def [abs_def] comp_def)
  then show "sorted (map tree_order rows)" by simp
qed

lemma rooted_recorded:
  assumes "a_parent_id root_row = None" "distinct (map a_id (root_row # rows))" "grown (a_id root_row) {} rows"
  shows "rooted (root_row # rows)"
proof -
  have "\<exists>k < j. a_parent_id ((root_row # rows) ! j) = Some (a_id ((root_row # rows) ! k))"
    if j: "j < length (root_row # rows)" "0 < j" for j
  proof -
    from j obtain m where m: "j = Suc m" "m < length rows" by (cases j) auto
    with assms(3) obtain p where p: "a_parent_id (rows ! m) = Some p" "p = a_id root_row \<or> p \<in> a_id ` set (take m rows)"
      by (auto simp: grown_def)
    from p(2) show ?thesis
    proof
      assume "p = a_id root_row"
      with p(1) m show ?thesis by (intro exI [of _ 0]) simp
    next
      assume "p \<in> a_id ` set (take m rows)"
      then obtain k where "k < m" "p = a_id (rows ! k)" by (auto simp: in_set_conv_nth)
      with p(1) m show ?thesis by (intro exI [of _ "Suc k"]) simp
    qed
  qed
  with assms(1,2) show ?thesis by (simp add: rooted_def)
qed

lemma rooted_take:
  assumes "rooted as" "0 < n"
  shows "rooted (take n as)"
proof -
  have "distinct (map a_id (take n as))" using assms(1) by (simp add: rooted_def take_map [symmetric])
  moreover have "\<exists>k < j. a_parent_id (take n as ! j) = Some (a_id (take n as ! k))" if "j < length (take n as)" "0 < j" for j
    using assms(1) that by (fastforce simp: rooted_def)
  ultimately show ?thesis using assms by (simp add: rooted_def)
qed

lemma rooted_only_root: "rooted as \<Longrightarrow> filter (\<lambda>a. a_parent_id a = None) as = [hd as]"
proof -
  assume r: "rooted as"
  have "a_parent_id a \<noteq> None" if "a \<in> set (tl as)" for a
  proof -
    from that obtain j where "j < length (tl as)" "a = tl as ! j" by (auto simp: in_set_conv_nth)
    then have "Suc j < length as" "a = as ! Suc j" by (simp_all add: nth_tl)
    with r obtain k where "a_parent_id a = Some (a_id (as ! k))" unfolding rooted_def by (metis zero_less_Suc)
    then show ?thesis by simp
  qed
  then have "filter (\<lambda>a. a_parent_id a = None) (tl as) = []" by (simp add: filter_empty_conv)
  with r show ?thesis by (cases as) (simp_all add: rooted_def)
qed

text \<open>C34: The page shows the recorded tree. Of what a scan recorded for a run, however the unpacker's parents were
  reported and in whatever order the rows are stored, the shown tree holds exactly the first 500 files by depth and
  path, each under its recorded parent; it is marked as cut exactly when there are more; and building it terminates.
  (The root is the only row at its depth and path, and no two files share theirs.)\<close>

theorem shown_tree_is_the_recorded_one:
  assumes "materialise_tree run_id root_row uuid payload = Inr (rows, by_path)" "inj uuid"
    and "a_parent_id root_row = None" "a_id root_row \<notin> set (map a_id rows)"
    and "mset (artifact_rows d run_id) = mset (root_row # rows)"
    and "distinct (map tree_order (root_row # rows))" "list_all (\<lambda>a. tree_order root_row \<le> tree_order a) rows"
  shows "\<exists>t. build_tree d run_id = (Some t, MAX_TREE_NODES < length (artifact_rows d run_id))
    \<and> ao_row t = root_row
    \<and> tree_ids t = a_id ` set (take MAX_TREE_NODES (root_row # rows))
    \<and> tree_edges t = child_of (take MAX_TREE_NODES (root_row # rows))"
proof -
  let ?all = "root_row # rows"
  let ?as = "take MAX_TREE_NODES ?all"
  let ?counts = "tally fl_artifact_id (filter (\<lambda>l. fl_run_id l = run_id) (db_locations d))"
  note rec = recorded_in_order [OF assms(1)]
  have "distinct (map a_id rows)" unfolding rec(4) using assms(2) by (simp add: distinct_map inj_on_def inj_def)
  with assms(4) have "rooted ?all" by (intro rooted_recorded [OF assms(3) _ rec(2)]) simp
  then have rooted: "rooted ?as" by (rule rooted_take) (simp add: MAX_TREE_NODES_def)
  have "sorted (map tree_order ?all)" using rec(1) assms(7) by (auto simp: list_all_iff)
  moreover have "inj_on tree_order (set (artifact_rows d run_id))"
    using assms(6) mset_eq_setD [OF assms(5)] by (auto simp: distinct_map)
  ultimately have order: "sort_key tree_order (artifact_rows d run_id) = ?all"
    using sort_key_inj_perm [OF assms(5), of tree_order] sort_key_id_if_sorted [of tree_order ?all] by argo
  have len: "length (artifact_rows d run_id) = length ?all" using assms(5) by (metis size_mset)
  have "0 < length ?as" by (simp add: MAX_TREE_NODES_def)
  then have "\<exists>t. grow (MAX_TREE_NODES + 1) ?counts ?as (?as ! 0) = Some t" by (intro grow_total [OF rooted]) simp_all
  then obtain t where t: "grow (MAX_TREE_NODES + 1) ?counts ?as (hd ?as) = Some t"
    by (metis \<open>0 < length ?as\<close> hd_conv_nth length_greater_0_conv)
  have root: "children_of (group_by a_parent_id ?as) None = [hd ?as]"
    unfolding group_by_children by (rule rooted_only_root [OF rooted])
  have cut: "MAX_TREE_NODES < length (take (MAX_TREE_NODES + 1) ?all) \<longleftrightarrow> MAX_TREE_NODES < length ?all"
    "take MAX_TREE_NODES (take (MAX_TREE_NODES + 1) ?all) = ?as" "take (MAX_TREE_NODES + 1) ?all \<noteq> []"
    by (auto simp: min_def MAX_TREE_NODES_def)
  have "build_tree d run_id = (Some t, MAX_TREE_NODES < length (artifact_rows d run_id))"
    unfolding build_tree_def Let_def order cut(2) using cut(1,3) root t by (simp add: len)
  with grow_complete [OF rooted t] grow_row [OF t] show ?thesis by (auto simp: MAX_TREE_NODES_def)
qed

lemma child_of_Cons: "child_of (a # as) = (case a_parent_id a of None \<Rightarrow> {} | Some p \<Rightarrow> {(a_id a, p)}) \<union> child_of as" "child_of [] = {}"
  by (auto simp: child_of_def split: option.split)

definition small_tree_db :: "artifact list \<Rightarrow> db" where
  "small_tree_db rows = (w_db small_world)\<lparr>db_artifacts := rev (small_root # rows)\<rparr>"

theorem shown_tree_is_the_recorded_one_witness:
  "\<exists>rows by_path t. materialise_tree ''r1'' small_root (se_uuid (small_env\<lparr>se_uuid := (\<lambda>k. CHR ''n'' # replicate k CHR ''u'')\<rparr>))
      (empty_unpack\<lparr>uj_nodes := [small_node ''b'' ''a'' 2, small_node ''a'' ''app.zip'' 1, small_node ''c'' ''lost'' 1]\<rparr>)
      = Inr (rows, by_path)
    \<and> build_tree (small_tree_db rows) ''r1'' = (Some t, False) \<and> tree_ids t = {''a1'', ''n'', ''nu'', ''nuu''}
    \<and> tree_edges t = {(''n'', ''a1''), (''nu'', ''a1''), (''nuu'', ''n'')}"
proof -
  let ?uuid = "\<lambda>k. CHR ''n'' # replicate k CHR ''u''"
  let ?p = "empty_unpack\<lparr>uj_nodes := [small_node ''b'' ''a'' 2, small_node ''a'' ''app.zip'' 1, small_node ''c'' ''lost'' 1]\<rparr>"
  obtain rows by_path where run: "materialise_tree ''r1'' small_root ?uuid ?p = Inr (rows, by_path)"
    and rows: "map tree_order rows = [(1, ''a''), (1, ''c''), (2, ''b'')]" "map a_id rows = [''n'', ''nu'', ''nuu'']"
      "map a_parent_id rows = [Some ''a1'', Some ''a1'', Some ''n'']" "\<forall>a \<in> set rows. a_run_id a = ''r1''"
    by (simp add: materialise_tree_def small_node_def bind_e_def node_sort_key_def need_def option_to_e_def
        materialise_node_def small_root_def or_empty_def tree_order_def)
  have inj: "inj ?uuid" by (rule injI) (metis length_replicate list.inject)
  have arts: "mset (artifact_rows (small_tree_db rows) ''r1'') = mset (small_root # rows)"
    using rows(4) by (simp add: artifact_rows_def small_tree_db_def small_root_def filter_id_conv)
  have le: "list_all (\<lambda>a. tree_order small_root \<le> tree_order a) rows"
    using rows(1) by (auto simp: list_all_length list_eq_iff_nth_eq tree_order_def small_root_def less_Suc_eq nth_Cons')
  have "\<exists>t. build_tree (small_tree_db rows) ''r1'' = (Some t, MAX_TREE_NODES < length (artifact_rows (small_tree_db rows) ''r1''))
      \<and> ao_row t = small_root \<and> tree_ids t = a_id ` set (take MAX_TREE_NODES (small_root # rows))
      \<and> tree_edges t = child_of (take MAX_TREE_NODES (small_root # rows))"
    by (rule shown_tree_is_the_recorded_one [OF run inj _ _ arts _ le])
       (simp_all add: small_root_def rows tree_order_def del: list.set_map)
  then obtain t where t: "build_tree (small_tree_db rows) ''r1'' = (Some t, False)"
      "tree_ids t = a_id ` set (take MAX_TREE_NODES (small_root # rows))"
      "tree_edges t = child_of (take MAX_TREE_NODES (small_root # rows))"
    using arts size_mset [of "artifact_rows (small_tree_db rows) ''r1''"] rows(2) by (auto simp: MAX_TREE_NODES_def small_tree_db_def artifact_rows_def)
  obtain x y z where xyz: "rows = [x, y, z]" "a_id x = ''n''" "a_id y = ''nu''" "a_id z = ''nuu''"
      "a_parent_id x = Some ''a1''" "a_parent_id y = Some ''a1''" "a_parent_id z = Some ''n''"
    using rows(2,3) by (auto simp: map_eq_Cons_conv)
  have "tree_ids t = {''a1'', ''n'', ''nu'', ''nuu''}" "tree_edges t = {(''n'', ''a1''), (''nu'', ''a1''), (''nuu'', ''n'')}"
    unfolding t(2,3) by (auto simp: xyz MAX_TREE_NODES_def small_root_def child_of_Cons)
  with run t(1) show ?thesis by auto
qed

end
