(* ===== verification/Runs_Properties.thy ===== *)
theory Runs_Properties
  imports Runs_Api
begin

text \<open>
  What the run endpoints promise: the wake-up stream of the run list fires exactly when the list has changed, the
  progress stream of a run ends by announcing how the run ended, a stage log is served for its own run only and under
  the right name, and an upload is queued or leaves nothing behind, even when the queue is down.
\<close>

subsection \<open>The fingerprint of the run list\<close>

text \<open>Run ids are UUIDs: their text needs no escape.\<close>

definition plain_char :: "char \<Rightarrow> bool" where
  "plain_char c \<longleftrightarrow> (let n = (of_char c :: nat) in n = 45 \<or> (48 \<le> n \<and> n \<le> 57) \<or> (97 \<le> n \<and> n \<le> 122))"

definition plain_id :: "string \<Rightarrow> bool" where
  "plain_id s \<longleftrightarrow> list_all plain_char s"

lemma plain_char_facts:
  assumes "plain_char c"
  shows "json_escape [c] = [c]" "\<not> is_cont c" "c \<noteq> CHR 0x22"
proof -
  show "json_escape [c] = [c]" "\<not> is_cont c" using assms by (auto simp: plain_char_def json_escape_def is_cont_def Let_def)
  show "c \<noteq> CHR 0x22" using assms by (auto simp: plain_char_def)
qed

lemma utf8_chars_plain: "plain_id s \<Longrightarrow> utf8_chars s = map (\<lambda>c. [c]) s"
proof (induction s)
  case (Cons c s)
  then have "utf8_chars s = map (\<lambda>c. [c]) s" by (simp add: plain_id_def)
  with Cons.prems show ?case by (cases s) (auto simp: plain_id_def plain_char_facts)
qed simp

lemma json_string_plain: "plain_id s \<Longrightarrow> json_string s = [CHR 0x22] @ s @ [CHR 0x22]"
proof -
  assume p: "plain_id s"
  then have "concat (map json_escape (map (\<lambda>c. [c]) s)) = s"
    by (induction s) (auto simp: plain_id_def plain_char_facts)
  with p show ?thesis by (simp add: json_string_def utf8_chars_plain)
qed

text \<open>Up to its closing quote a quoted text determines what it quotes.\<close>

lemma quoted_inj:
  "CHR 0x22 \<notin> set s \<Longrightarrow> CHR 0x22 \<notin> set s' \<Longrightarrow> s @ CHR 0x22 # r = s' @ CHR 0x22 # r' \<Longrightarrow> s = s' \<and> r = r'"
proof (induction s arbitrary: s')
  case Nil
  then show ?case by (cases s') auto
next
  case (Cons c s)
  then show ?case by (cases s') auto
qed

lemma plain_no_quote: "plain_id s \<Longrightarrow> CHR 0x22 \<notin> set s"
  by (auto simp: plain_id_def list_all_iff dest: plain_char_facts(3))

lemma status_plain: "plain_id (run_status_value s)"
  by (cases s) (simp_all add: plain_id_def plain_char_def)

lemma status_value_inj: "run_status_value s = run_status_value s' \<Longrightarrow> s = s'"
  by (cases s; cases s') simp_all

definition row_text :: "string \<times> run_status \<Rightarrow> string" where
  "row_text p = CHR ''['' # CHR 0x22 # fst p @ CHR 0x22 # CHR '','' # CHR '' '' # CHR 0x22 # run_status_value (snd p) @ CHR 0x22 # '']''"

lemma row_text_inj:
  assumes "plain_id (fst p)" "plain_id (fst p')" "row_text p @ r = row_text p' @ r'"
  shows "p = p' \<and> r = r'"
proof -
  from assms(3) have "fst p @ CHR 0x22 # (CHR '','' # CHR '' '' # CHR 0x22 # run_status_value (snd p) @ CHR 0x22 # ('']'' @ r))
      = fst p' @ CHR 0x22 # (CHR '','' # CHR '' '' # CHR 0x22 # run_status_value (snd p') @ CHR 0x22 # ('']'' @ r'))"
    by (simp add: row_text_def)
  from quoted_inj [OF plain_no_quote [OF assms(1)] plain_no_quote [OF assms(2)] this]
  have "fst p = fst p'" and rest: "run_status_value (snd p) @ CHR 0x22 # ('']'' @ r) = run_status_value (snd p') @ CHR 0x22 # ('']'' @ r')"
    by simp_all
  moreover from quoted_inj [OF plain_no_quote [OF status_plain] plain_no_quote [OF status_plain] rest]
  have "snd p = snd p'" "r = r'" using status_value_inj by auto
  ultimately show ?thesis by (simp add: prod_eq_iff)
qed

lemma join_rows: "join '', '' (map row_text (p # ps)) @ '']'' = row_text p @ (if ps = [] then '']'' else '', '' @ join '', '' (map row_text ps) @ '']'')"
  by (cases ps) simp_all

lemma row_text_hd: "hd (row_text p @ r) = CHR ''[''"
  by (simp add: row_text_def)

lemma rows_text_inj:
  "list_all (\<lambda>p. plain_id (fst p)) ps \<Longrightarrow> list_all (\<lambda>p. plain_id (fst p)) qs \<Longrightarrow>
     join '', '' (map row_text ps) @ '']'' = join '', '' (map row_text qs) @ '']'' \<Longrightarrow> ps = qs"
proof (induction ps arbitrary: qs)
  case Nil
  show ?case
  proof (cases qs)
    case (Cons q qs')
    with Nil.prems(3) have "hd '']'' = CHR ''[''" by (metis join.simps(1) join_rows list.simps(8) row_text_hd self_append_conv2)
    then show ?thesis by simp
  qed simp
next
  case (Cons p ps)
  show ?case
  proof (cases qs)
    case Nil
    with Cons.prems(3) have "hd '']'' = CHR ''[''" by (metis join.simps(1) join_rows list.simps(8) row_text_hd self_append_conv2)
    then show ?thesis by simp
  next
    case qs: (Cons q qs')
    have "row_text p @ (if ps = [] then '']'' else '', '' @ join '', '' (map row_text ps) @ '']'')
        = row_text q @ (if qs' = [] then '']'' else '', '' @ join '', '' (map row_text qs') @ '']'')"
      using Cons.prems(3) unfolding qs join_rows .
    from row_text_inj [OF _ _ this] Cons.prems(1,2) qs have pq: "p = q"
      and rest: "(if ps = [] then '']'' else '', '' @ join '', '' (map row_text ps) @ '']'')
        = (if qs' = [] then '']'' else '', '' @ join '', '' (map row_text qs') @ '']'')" by simp_all
    have "ps = qs'"
    proof (cases "ps = [] \<or> qs' = []")
      case True
      with rest show ?thesis by (simp split: if_splits)
    next
      case False
      with rest Cons.IH [of qs'] Cons.prems(1,2) qs show ?thesis by simp
    qed
    with pq qs show ?thesis by simp
  qed
qed

lemma fingerprint_text:
  assumes "list_all (\<lambda>p. plain_id (fst p)) ps"
  shows "runs_fingerprint ps = ''['' @ join '', '' (map row_text ps) @ '']''"
proof -
  have row: "json_dumps False (PList [PStr i, PStr (run_status_value s)]) = Some (row_text (i, s))" if "plain_id i" for i s
    using that by (simp add: json_string_plain status_plain row_text_def)
  have "sequence_o (map (json_dumps False) (map (\<lambda>(i, s). PList [PStr i, PStr (run_status_value s)]) ps)) = Some (map row_text ps)"
    using assms
  proof (induction ps)
    case (Cons p ps)
    then show ?case by (cases p) (simp add: row del: json_dumps.simps)
  qed simp
  then show ?thesis by (simp add: runs_fingerprint_def)
qed

lemma fingerprint_inj:
  assumes "list_all (\<lambda>p. plain_id (fst p)) ps" "list_all (\<lambda>p. plain_id (fst p)) qs"
  shows "runs_fingerprint ps = runs_fingerprint qs \<longleftrightarrow> ps = qs"
  using rows_text_inj [OF assms] by (auto simp: fingerprint_text assms)

subsection \<open>The wake-up stream\<close>

text \<open>The reference: one event per change, and one at the start.\<close>

fun changes :: "(string \<times> run_status) list option \<Rightarrow> (string \<times> run_status) list list \<Rightarrow> string list" where
  "changes previous [] = []"
| "changes previous (s # ss) =
     (if previous = Some s then [] else [list_event (previous \<noteq> None) (length s)]) @ changes (Some s) ss"

lemma list_events_are_changes:
  assumes "list_all (list_all (\<lambda>p. plain_id (fst p))) ss" "list_all (list_all (\<lambda>p. plain_id (fst p))) (case previous of None \<Rightarrow> [] | Some s \<Rightarrow> [s])"
  shows "run_list_events None ss (map_option runs_fingerprint previous) k = changes previous ss"
  using assms
proof (induction ss arbitrary: previous k)
  case (Cons s ss)
  have s: "list_all (\<lambda>p. plain_id (fst p)) s" using Cons.prems(1) by simp
  have rest: "run_list_events None ss (Some (runs_fingerprint s)) n = changes (Some s) ss" for n
    using Cons.IH [of "Some s" n] Cons.prems(1) by simp
  show ?case
  proof (cases previous)
    case None
    then show ?thesis by (simp add: Let_def rest)
  next
    case (Some a)
    then have "list_all (\<lambda>p. plain_id (fst p)) a" using Cons.prems(2) by simp
    with fingerprint_inj [OF s this] show ?thesis
      by (cases "a = s") (simp_all add: Some Let_def rest)
  qed
qed simp

definition plain_runs_db :: "db \<Rightarrow> bool" where
  "plain_runs_db d \<longleftrightarrow> list_all (\<lambda>r. plain_id (r_id r)) (db_runs d)"

lemma snapshot_plain: "plain_runs_db d \<Longrightarrow> list_all (\<lambda>p. plain_id (fst p)) (list_snapshot (db_runs d))"
  by (auto simp: plain_runs_db_def list_snapshot_def list_all_iff dest: in_set_takeD)

text \<open>The dashboard is woken exactly when it must be. The wake-up stream of the run list, which compares JSON
  fingerprints, is the list of the changes of the first 200 runs and their statuses between one poll and the next:
  no change goes unannounced, nothing is announced without one, and an event tells no more than that and how many
  rows there are. (Run ids are UUIDs.)\<close>

theorem run_list_wakes_on_change:
  assumes "list_all plain_runs_db polls"
  shows "stream_run_list polls = changes None (map (\<lambda>d. list_snapshot (db_runs d)) (take 600 polls))"
proof -
  have "list_all (list_all (\<lambda>p. plain_id (fst p))) (map (list_snapshot \<circ> db_runs) (take 600 polls))"
    using assms snapshot_plain by (simp add: list_all_iff) (meson in_set_takeD)
  from list_events_are_changes [OF this, of None 0] show ?thesis by (simp add: stream_run_list_def comp_def)
qed

definition polled_db :: "run_status \<Rightarrow> db" where
  "polled_db s = \<lparr>db_runs = [\<lparr>r_id = ''r-1'', r_status = s, r_created_at = Moment True 0, r_started_at = None,
     r_finished_at = None, r_error = None, r_previous_run_id = None, r_retain_plaintext = False\<rparr>],
     db_stages = [], db_artifacts = [], db_findings = [], db_locations = [], db_audit = []\<rparr>"

theorem run_list_wakes_on_change_witness:
  "stream_run_list [polled_db R_QUEUED, polled_db R_QUEUED, polled_db R_RUNNING] = [list_event False 1, list_event True 1]"
proof -
  have "list_all plain_runs_db [polled_db R_QUEUED, polled_db R_QUEUED, polled_db R_RUNNING]"
    by (simp add: plain_runs_db_def polled_db_def plain_id_def plain_char_def)
  from run_list_wakes_on_change [OF this] show ?thesis by (simp add: list_snapshot_def polled_db_def)
qed

subsection \<open>The progress of one run\<close>

definition announced :: "string option \<Rightarrow> string list" where
  "announced last' = (case last' of None \<Rightarrow> [] | Some t \<Rightarrow> [''data: '' @ t @ [CHR 0x0A, CHR 0x0A]])"

lemma sse_announced: "[sse v] = announced (Some (dumps v))"
  by (simp add: sse_def announced_def)

text \<open>What was sent last is what was last seen, whether it was sent now or before.\<close>

lemma run_events_end:
  assumes "list_all (\<lambda>e. \<exists>r. get_run e i = Some r \<and> \<not> run_is_terminal (r_status r)) pre"
    and "get_run d i = Some r" "run_is_terminal (r_status r)"
  shows "\<exists>x. last (announced last' @ run_events sf st i (pre @ d # post) last' expected) = sse (run_payload sf st x d r)"
  using assms(1)
proof (induction pre arbitrary: last' expected)
  case Nil
  define x where "x = (case expected of Some x \<Rightarrow> x | None \<Rightarrow> expected_duration_s d i)"
  have "last (announced last' @ run_events sf st i (d # post) last' expected) = sse (run_payload sf st x d r)"
    by (cases "last' = Some (dumps (run_payload sf st x d r))")
       (simp_all add: assms(2,3) Let_def x_def [symmetric] announced_def sse_def)
  then show ?case by auto
next
  case (Cons e pre)
  then obtain q where q: "get_run e i = Some q" "\<not> run_is_terminal (r_status q)" by auto
  define x where "x = (case expected of Some x \<Rightarrow> x | None \<Rightarrow> expected_duration_s e i)"
  let ?p = "run_payload sf st x e q"
  let ?rest = "run_events sf st i (pre @ d # post) (Some (dumps ?p)) (Some x)"
  have step: "run_events sf st i ((e # pre) @ d # post) last' expected = (if Some (dumps ?p) \<noteq> last' then [sse ?p] else []) @ ?rest"
    by (simp add: q Let_def x_def [symmetric])
  have "announced last' @ run_events sf st i ((e # pre) @ d # post) last' expected
      = (if Some (dumps ?p) \<noteq> last' then announced last' else []) @ announced (Some (dumps ?p)) @ ?rest"
    unfolding step by (auto simp: sse_announced)
  moreover have "announced (Some (dumps ?p)) @ ?rest \<noteq> []" by (simp add: announced_def)
  ultimately have "last (announced last' @ run_events sf st i ((e # pre) @ d # post) last' expected) = last (announced (Some (dumps ?p)) @ ?rest)"
    by (simp add: last_append)
  with Cons.IH [of "Some (dumps ?p)" "Some x"] Cons.prems show ?case by simp
qed



subsection \<open>Stage logs\<close>

text \<open>A log is served under its own run only; \<open>final\<close> is what the finished stage kept, \<open>live\<close> a snapshot of a stage
  of a run that still goes on, \<open>partial\<close> one of a run that is over.\<close>

lemma stage_log_served:
  assumes "get_stage_logs d store i k = Inr g"
  obtains s where "s \<in> set (db_stages d)" "st_id s = k" "st_run_id s = i"
    "lg_state g = ''final'' \<Longrightarrow> \<exists>key raw. st_log_key s = Some key \<and> map_of store key = Some raw \<and> lg_text g = utf8_replace raw"
    "lg_state g = ''live'' \<Longrightarrow> unfinished (st_status s) \<and> (\<exists>r. get_run d i = Some r \<and> \<not> run_is_terminal (r_status r))"
    "lg_state g \<in> {''final'', ''live'', ''partial''}"
proof -
  from assms obtain s where s: "List.find (\<lambda>s. st_id s = k) (db_stages d) = Some s" "st_run_id s = i"
    by (auto simp: get_stage_logs_def split: option.splits if_splits)
  from assms s obtain key state raw where place: "log_place d store i s = Inr (key, state)"
    and raw: "map_of store key = Some raw" and g: "g = \<lparr>lg_text = utf8_replace raw, lg_state = state\<rparr>"
    by (auto simp: get_stage_logs_def bind_e_Inr_iff split: option.splits)
  from s(1) have "s \<in> set (db_stages d)" "st_id s = k" by (auto dest: find_SomeD)
  with s(2) place raw g that [of s] show thesis
    by (cases "st_log_key s") (auto simp: log_place_def or_str_def Let_def split: if_splits option.splits)
qed

subsection \<open>Uploads\<close>

text \<open>A refused upload leaves the database and the queue as they were. An accepted one is a queued run that is offered
  to a worker; if the queue does not take it, the caller sees an error and the run is left for the sweep.\<close>

lemma upload_cases:
  obtains (refused) e os where "create_run se save st now i a broker form u = (Inl e, u\<lparr>us_objects := os\<rparr>)"
  | (queued) d run row os where "ingest_artifact se save st now i a (uf_filename form) (Some (uf_attested_by form))
         (Some (uf_reference form)) (uf_retain_plaintext form) (us_objects u, us_db u) = (Inr (run, row), os, d)"
      "us_db (snd (create_run se save st now i a broker form u)) = d"
      "us_queue (snd (create_run se save st now i a broker form u)) = us_queue u @ (if broker then [r_id run] else [])"
      "(\<exists>x. fst (create_run se save st now i a broker form u) = Inr x) \<longleftrightarrow> broker"
proof (cases "uf_filename form = []")
  case True
  then show ?thesis by (intro refused [where os = "us_objects u"]) (simp add: create_run_def)
next
  case False
  obtain res os d where run: "ingest_artifact se save st now i a (uf_filename form) (Some (uf_attested_by form))
         (Some (uf_reference form)) (uf_retain_plaintext form) (us_objects u, us_db u) = (res, os, d)" by (cases rule: prod_cases3)
  show ?thesis
  proof (cases res)
    case (Inl e)
    then have "d = us_db u" using run by (auto simp: ingest_artifact_def Let_def split: sum.splits if_splits)
    with False run Inl show ?thesis by (intro refused [where os = os]) (simp add: create_run_def)
  next
    case (Inr p)
    obtain r row where "p = (r, row)" by (cases p)
    with False run Inr show ?thesis by (intro queued [where os = os]) (auto simp: create_run_def Let_def)
  qed
qed

end
