(* ===== verification/Spec2Isabelle.thy ===== *)
theory Spec2Isabelle
  imports Policy_Serde Policy_Waive Unpack_Properties Run_Lifecycle Auth_Tokens Llm_Triage Static_Properties Llm_Advisory Ghidra_Analyzer_Properties Settings_Properties Cli_Properties Cli_Commands Findings_Properties Runs_Tree Runs_Properties Rules_Loader
begin

text \<open>
  A verification development for a scanner of released binaries: an artifact is uploaded, unpacked and
  searched for secrets inside containers, the evidence becomes findings, a policy judges the findings, and a
  build passes or fails on the verdict. Language models may comment on findings and cannot change the
  verdict. Every definition is a translation of Python under \<open>src/\<close> (paths below are relative to it); the
  theorems say what the release gate of a build rests on.

  \<^bold>\<open>How the program is modelled.\<close> Strings are the UTF-8 bytes of the text as HOL strings. Python's
  integers are \<^typ>\<open>int\<close> or \<^typ>\<open>nat\<close>, bytes of files are 8-bit words, floats that are compared or rounded
  are exact rationals. Dictionaries are association lists in insertion order, because the program prints
  and iterates them (\<open>Py_Dict\<close>). Values of YAML and JSON documents are the type \<open>pyval\<close> with Python's
  \<open>str\<close>, \<open>repr\<close>, \<open>int\<close>, truth and equality (\<open>Py_Values\<close>, \<open>Py_Json\<close>). Exceptions are values: a function that
  may raise returns a sum, a stateful one is a computation of \<open>Effects\<close> that maps a state to an outcome and
  the state it leaves, so that effects made before an exception stay made. Database rows are the
  records of \<open>Store\<close>, a session is the state of all tables. Regular expressions of the program's own modules
  are terms of \<open>Py_Regex\<close> with a backtracking matcher; patterns that users or models supply are parameters.

  \<^bold>\<open>The parts, and where they are.\<close>

  \<^item> Shared: \<open>Prelude\<close> (lists, strings, the collections of lemmas), \<open>Canonical_Order\<close> (the contract of sorting
    before use, interpreted on the sort keys of the policy engine, the scanner, the extractor and the Ghidra
    document), \<open>Py_Dict\<close>, \<open>Py_Values\<close>, \<open>Py_Json\<close>, \<open>Py_Regex\<close>, \<open>Bytes_Text\<close>, \<open>Dates\<close>, \<open>Effects\<close>, \<open>Store\<close>.
  \<^item> The release gate: \<open>Policy_Model\<close> (\<open>core/vocab.py\<close>, \<open>core/policy/model.py\<close>, \<open>policy.py\<close>), \<open>Policy_Engine\<close> and
    \<open>Gate_Properties\<close> (\<open>engine.py\<close>), \<open>Policy_Loader\<close>, \<open>Policy_Waive\<close>, \<open>Policy_Serde\<close>, and \<open>Gate_Pipeline\<close>
    (\<open>core/pipeline/gate.py\<close>, \<open>stages.py\<close>), which projects a stored run and calls the engine.
  \<^item> Unpacking: \<open>Unpack_Budget\<close>, \<open>Unpack_Detect\<close>, \<open>Unpack_Fs\<close> (an explicit file system with links),
    \<open>Unpack_Extractor\<close> (\<open>core/unpack/\<close>), with \<open>Unpack_Properties\<close> and \<open>Unpack_Walk\<close>.
  \<^item> Searching: \<open>Rules_Shape\<close>, \<open>Rules_Scanner\<close>, \<open>Rules_Recon\<close>, \<open>Rules_Properties\<close> (\<open>core/rules/\<close>),
    \<open>Composition\<close> (\<open>core/composition/\<close>), \<open>Static_Analyzer\<close> and \<open>Static_Properties\<close>
    (\<open>sandbox/images/static/analyzer.py\<close>).
  \<^item> The sandbox: \<open>Sandbox_Spec\<close>, \<open>Sandbox_Watchdog\<close>, \<open>Sandbox_Docker\<close> (\<open>core/sandbox/\<close>, the reaper included).
  \<^item> The pipeline: \<open>Scan_Model\<close> and \<open>Scan_Pipeline\<close> (\<open>core/pipeline/scan.py\<close>) with \<open>Scan_Properties\<close>, \<open>Scan_Gate\<close>
    and \<open>Scan_Tree\<close>; \<open>Correlator\<close> (\<open>correlator.py\<close>), \<open>Stage_Logs\<close> (\<open>logs.py\<close>), \<open>Run_Recovery\<close>
    (\<open>recovery.py\<close>), \<open>Run_Lifecycle\<close> (\<open>ingest.py\<close>, and the life of a run as a transition system),
    \<open>Ghidra_Result\<close>, \<open>Ghidra_Enrich\<close> and \<open>Ghidra_Properties\<close> (\<open>core/analyzers/ghidra_result.py\<close>,
    \<open>core/pipeline/ghidra.py\<close>).
  \<^item> Access: \<open>Auth_Tokens\<close> (\<open>core/auth.py\<close>, \<open>core/pipeline/tokens.py\<close>, \<open>api/deps.py\<close>).
  \<^item> Models: \<open>Llm_Provider\<close>, \<open>Llm_Router\<close> (egress and routing), \<open>Llm_Settings\<close>, \<open>Llm_Triage\<close>, \<open>Llm_Tools\<close> and
    \<open>Llm_Tools_Properties\<close>, \<open>Llm_Investigate\<close> and \<open>Llm_Investigate_Properties\<close>, \<open>Llm_Discovery\<close>,
    \<open>Llm_Advisory\<close> (\<open>core/llm/\<close> and the tasks of \<open>core/orchestrator/scan_tasks.py\<close>).
  \<^item> Reports and the gate's endpoints: \<open>Sbom_Diff\<close>, \<open>Sbom_Export\<close>, \<open>Sarif_Report\<close> (\<open>reporting/\<close>) and
    \<open>Gate_Api\<close> (\<open>api/routers/gate.py\<close>).
  \<^item> The build agent: \<open>Cli_Output\<close>, \<open>Cli_Client\<close>, \<open>Cli_Logs\<close>, \<open>Cli_World\<close> (its effects: files, standard streams, the
    answers of the server), \<open>Cli_Scan\<close>, \<open>Cli_Properties\<close> and \<open>Cli_Commands\<close> (\<open>cli/\<close>).
  \<^bold>\<open>How the parts rest on each other.\<close> The interfaces are locales, each interpreted on the code's own
  definitions: \<open>dictionary\<close> (what a lookup returns after an assignment) on association lists, \<open>canonical_sort\<close>
  on the sort keys, \<open>spending\<close> on the extraction budget, and those named in the opening texts of the
  theories. The scan's theorems use the container's (a stage is \<open>COMPLETED\<close> only after an exit with code 0),
  the gate's use the scan's (a passing gate rests on two such stages), and the theorems about models and
  Ghidra say that whatever they write leaves the gate's verdict as it was.

  \<^bold>\<open>Bounds and fuel.\<close> Loops that the code bounds are recursions over what bounds them. The walk over nested
  archives has fuel \<open>max_depth + 2\<close>, proved enough because every descent is charged against the depth;
  resolving a path through symbolic links has fuel 4096, the theorems that need it state it; the repetition
  of a regular expression has as fuel the length of the remaining text plus one, and the lemma \<open>ends_iff\<close>
  shows that the matcher is exact with it; the sliced waits of the Docker handle have \<open>slice_bound\<close> slices,
  computed from the deadline; an investigation runs at most \<open>max_steps\<close> turns because the code counts them.

  \<^bold>\<open>Parameters.\<close> SHA-256, \<open>json.loads\<close> and \<open>yaml.safe_load\<close> as functions with their failure outcomes, the
  archive readers (\<open>zipfile\<close>, \<open>tarfile\<close>, \<open>gzip\<close>, \<open>zlib\<close>, 7z and unsquashfs), the Docker daemon's answers, the
  object store, \<open>re.compile\<close> of supplied patterns, address parsing of \<open>ipaddress\<close> for IPv6, what a model
  answers, random token text, the clock, the order in which a process pool finishes, and the printing and
  reading of floats. Theorems that rely on documented behaviour of one of them state it as a premise and
  have a witness with a concrete function.

  \<^bold>\<open>Not modelled.\<close> The web interface and its assets, the database migrations and connection set-up
  (declarations executed by Alembic and SQLAlchemy), log formatting and configuration from the
  environment, the Celery application and its health endpoint, the HTTP of the model
  adapters (LiteLLM and the Ollama client), the catalogue of models (data), the PDF report (layout
  for ReportLab), the example image \<open>sandbox/images/hello\<close>, the scripts and the tests.
\<close>

end
